(* ===== verification/RSP_Prelude.thy ===== *)
theory RSP_Prelude
  imports Main "HOL-Library.Word"
begin

text \<open>
  Shared ground of the development: the integer types of the C code, the ways a C
  function can end other than by returning (\<open>fault\<close>), the combinators in which
  the handlers are written, network byte order, the 64 bit \<open>size_t\<close> arithmetic
  and the list facts about buffers that every component uses.
\<close>

section \<open>Types\<close>

type_synonym byte = "8 word"
type_synonym u16 = "16 word"
type_synonym u32 = "32 word"
type_synonym u64 = "64 word"

text \<open>
  A C function either returns or ends the process (or leaves defined behaviour):
  \<open>CheckAbort\<close> is a failed \<open>CHECK\<close> of debug.h, \<open>FatalLog\<close> the \<open>abort()\<close> of
  \<open>LOG_END_FATAL\<close> in loglevel.h, \<open>NullAccess\<close> a store or load through \<open>NULL\<close>,
  \<open>OutOfBounds\<close> an access outside the object a pointer points into, and
  \<open>NoFuel\<close> a loop of the model that ran out of fuel (shown not to happen).
\<close>

datatype fault = CheckAbort | FatalLog | NullAccess | OutOfBounds | NoFuel

named_theorems codec_simps \<open>unfolding rules of the message buffer primitives\<close>

section \<open>Control flow\<close>

text \<open>Sequential composition: a fault ends the computation.\<close>

definition bindR :: "'e + 'a \<Rightarrow> ('a \<Rightarrow> 'e + 'b) \<Rightarrow> 'e + 'b" where
  "bindR x f = (case x of Inl e \<Rightarrow> Inl e | Inr a \<Rightarrow> f a)"

lemma bindR_simps [simp]:
  "bindR (Inl e) f = Inl e"
  "bindR (Inr a) f = f a"
  by (simp_all add: bindR_def)

lemma bindR_assoc: "bindR (bindR x f) g = bindR x (\<lambda>a. bindR (f a) g)"
  by (cases x) simp_all

lemma bindR_eq_Inr_conv:
  "bindR x f = Inr b \<longleftrightarrow> (\<exists>a. x = Inr a \<and> f a = Inr b)"
  by (cases x) simp_all

lemma bindR_eq_Inl_conv:
  "bindR x f = Inl e \<longleftrightarrow> x = Inl e \<or> (\<exists>a. x = Inr a \<and> f a = Inl e)"
  by (cases x) simp_all

lemma bindR_cong [fundef_cong]:
  "x = y \<Longrightarrow> (\<And>a. y = Inr a \<Longrightarrow> f a = g a) \<Longrightarrow> bindR x f = bindR y g"
  by (cases y) simp_all

text \<open>
  The statement idiom of the message code,
  \<^verbatim>\<open>if(p(message) == false) { return(false); }  q ...\<close>:
  a list of statements, each returning a truth value, stopped by the first that
  returns false.
\<close>

primrec stmts :: "('s \<Rightarrow> 'e + (bool \<times> 's)) list \<Rightarrow> 's \<Rightarrow> 'e + (bool \<times> 's)" where
  "stmts [] s = Inr (True, s)"
| "stmts (p # ps) s =
     bindR (p s) (\<lambda>(ok, s'). if ok then stmts ps s' else Inr (False, s'))"

lemma stmts_append:
  "stmts (ps @ qs) s =
     bindR (stmts ps s) (\<lambda>(ok, s'). if ok then stmts qs s' else Inr (False, s'))"
  by (induction ps arbitrary: s) (auto simp: bindR_def split: sum.splits)

text \<open>An assertion of the source, \<^verbatim>\<open>CHECK(cond)\<close>.\<close>

definition CHECK :: "bool \<Rightarrow> (unit \<Rightarrow> fault + 'a) \<Rightarrow> fault + 'a" where
  "CHECK c k = (if c then k () else Inl CheckAbort)"

lemma CHECK_simps [simp]:
  "CHECK True k = k ()"
  "CHECK False k = Inl CheckAbort"
  by (simp_all add: CHECK_def)

text \<open>
  Functions that return a value and change a state. \<open>bindC f g\<close> is \<open>x = f(s); g\<close> with
  \<open>x\<close> in scope.
\<close>

definition returnC :: "'a \<Rightarrow> 's \<Rightarrow> 'e + ('a \<times> 's)" where
  "returnC a s = Inr (a, s)"

definition bindC ::
  "('s \<Rightarrow> 'e + ('a \<times> 's)) \<Rightarrow> ('a \<Rightarrow> 's \<Rightarrow> 'e + ('b \<times> 's)) \<Rightarrow> 's \<Rightarrow> 'e + ('b \<times> 's)" where
  "bindC f g s = bindR (f s) (\<lambda>(a, s'). g a s')"

lemma returnC_simp [simp]: "returnC a s = Inr (a, s)"
  by (simp add: returnC_def)

lemma bindC_Inr: "f s = Inr (a, s') \<Longrightarrow> bindC f g s = g a s'"
  by (simp add: bindC_def)

section \<open>Contracts\<close>

text \<open>
  \<open>meets P E f Q\<close>: started in a state satisfying \<open>P\<close>, the function \<open>f\<close> returns with its
  result and the new state satisfying \<open>Q\<close>, or ends with one of the faults in \<open>E\<close>. It is
  a total contract: with \<open>E\<close> empty the function always returns.
\<close>

definition meets ::
  "('s \<Rightarrow> bool) \<Rightarrow> 'e set \<Rightarrow> ('s \<Rightarrow> 'e + ('a \<times> 's)) \<Rightarrow> ('a \<Rightarrow> 's \<Rightarrow> bool) \<Rightarrow> bool" where
  "meets P E f Q \<longleftrightarrow> (\<forall>s. P s \<longrightarrow> (case f s of Inl e \<Rightarrow> e \<in> E | Inr (a, s') \<Rightarrow> Q a s'))"

named_theorems contract \<open>contracts of the operations\<close>

lemma meetsI: "(\<And>s. P s \<Longrightarrow> case f s of Inl e \<Rightarrow> e \<in> E | Inr (a, s') \<Rightarrow> Q a s') \<Longrightarrow> meets P E f Q"
  by (simp add: meets_def)

lemma meetsD: "meets P E f Q \<Longrightarrow> P s \<Longrightarrow> f s = Inr (a, s') \<Longrightarrow> Q a s'"
  by (auto simp: meets_def split: sum.splits)

lemma meetsE: "meets P E f Q \<Longrightarrow> P s \<Longrightarrow> f s = Inl e \<Longrightarrow> e \<in> E"
  by (auto simp: meets_def split: sum.splits)

lemma meets_cases:
  assumes "meets P E f Q" and "P s"
  obtains (fault) e where "f s = Inl e" "e \<in> E" | (ret) a s' where "f s = Inr (a, s')" "Q a s'"
  using assms by (cases "f s") (auto simp: meets_def)

lemma meets_post: "meets P E f Q \<Longrightarrow> (\<And>a s. Q a s \<Longrightarrow> Q' a s) \<Longrightarrow> meets P E f Q'"
  by (fastforce simp: meets_def split: sum.splits)

lemma meets_pre: "meets P E f Q \<Longrightarrow> (\<And>s. P' s \<Longrightarrow> P s) \<Longrightarrow> meets P' E f Q"
  by (auto simp: meets_def)

lemma meets_bindC:
  assumes f: "meets P E f R" and g: "\<And>a. meets (R a) E (g a) Q"
  shows "meets P E (bindC f g) Q"
proof (rule meetsI)
  fix s assume "P s"
  with f show "case bindC f g s of Inl e \<Rightarrow> e \<in> E | Inr (a, s') \<Rightarrow> Q a s'"
  proof (cases rule: meets_cases)
    case (ret a s')
    then show ?thesis using g [of a] by (simp add: bindC_def meets_def)
  qed (simp add: bindC_def)
qed

lemma meets_returnC: "(\<And>s. P s \<Longrightarrow> Q a s) \<Longrightarrow> meets P E (returnC a) Q"
  by (simp add: meets_def)

lemma meets_if:
  "(c \<Longrightarrow> meets P E f Q) \<Longrightarrow> (\<not> c \<Longrightarrow> meets P E g Q) \<Longrightarrow> meets P E (if c then f else g) Q"
  by simp

lemma meets_stmts:
  assumes "\<And>p. p \<in> set ps \<Longrightarrow> meets I E p (\<lambda>_. I)"
  shows "meets I E (stmts ps) (\<lambda>_. I)"
  using assms
proof (induction ps)
  case Nil
  then show ?case by (simp add: meets_def)
next
  case (Cons p ps)
  then have p: "meets I E p (\<lambda>_. I)" and ps: "meets I E (stmts ps) (\<lambda>_. I)" by auto
  show ?case
  proof (rule meetsI)
    fix s assume "I s"
    with p show "case stmts (p # ps) s of Inl e \<Rightarrow> e \<in> E | Inr (a, s') \<Rightarrow> I s'"
    proof (cases rule: meets_cases)
      case (ret ok s')
      then show ?thesis using ps by (auto simp: meets_def split: sum.splits)
    qed simp
  qed
qed

section \<open>The 64 bit \<open>size_t\<close>\<close>

text \<open>
  Sizes and positions are natural numbers; where the code's unsigned arithmetic can
  wrap, the wrap-around is written with these two operations.
\<close>

definition uadd :: "nat \<Rightarrow> nat \<Rightarrow> nat" where
  "uadd a b = (a + b) mod 2 ^ 64"

definition usub :: "nat \<Rightarrow> nat \<Rightarrow> nat" where
  "usub a b = (a + (2 ^ 64 - b mod 2 ^ 64)) mod 2 ^ 64"

lemma uadd_small: "a + b < 2 ^ 64 \<Longrightarrow> uadd a b = a + b"
  by (simp add: uadd_def)

lemma usub_small: "b \<le> a \<Longrightarrow> a < 2 ^ 64 \<Longrightarrow> usub a b = a - b"
proof -
  assume "b \<le> a" and a: "a < 2 ^ 64"
  then have "a + (2 ^ 64 - b mod 2 ^ 64) = (a - b) + 2 ^ 64" by simp
  moreover have "a - b < 2 ^ 64" using a by simp
  ultimately show ?thesis unfolding usub_def by (metis mod_add_self2 mod_less)
qed

lemma usub_wraps: "a < b \<Longrightarrow> b < 2 ^ 64 \<Longrightarrow> usub a b = 2 ^ 64 - (b - a)"
  by (simp add: usub_def)

lemma uadd_less [simp]: "uadd a b < 18446744073709551616"
  by (simp add: uadd_def)

text \<open>Adding a wrapped difference steps back: the position moves towards the start.\<close>

lemma uadd_usub_back:
  assumes "k \<le> p" and "p < 2 ^ 64" and "0 < k" and "a + k = b" and "b < 2 ^ 64"
  shows "uadd p (usub a b) = p - k"
proof -
  have k: "k < 2 ^ 64" using assms by linarith
  have "usub a b = 2 ^ 64 - k"
    using assms by (subst usub_wraps) auto
  moreover have "p + (2 ^ 64 - k) = (p - k) + 2 ^ 64"
    using assms k by simp
  ultimately have "uadd p (usub a b) = ((p - k) + 2 ^ 64) mod 2 ^ 64"
    unfolding uadd_def by metis
  then show ?thesis
    using assms(2) by (metis less_imp_diff_less mod_add_self2 mod_less)
qed

text \<open>\<^verbatim>\<open>getPadding()\<close> of netutilities.c.\<close>

definition getPadding :: "nat \<Rightarrow> nat \<Rightarrow> nat" where
  "getPadding sz alignment =
     (let padding = alignment - (sz mod alignment)
      in if padding = alignment then 0 else padding)"

lemma getPadding4: "getPadding n 4 = (4 - n mod 4) mod 4"
proof -
  have "n mod 4 < 4" by simp
  then consider "n mod 4 = 0" | "n mod 4 = 1" | "n mod 4 = 2" | "n mod 4 = 3" by linarith
  then show ?thesis by cases (simp_all add: getPadding_def Let_def)
qed

lemma getPadding4_less: "getPadding n 4 < 4"
  by (simp add: getPadding4)

lemma getPadding4_aligned: "4 dvd n + getPadding n 4"
proof -
  consider "n mod 4 = 0" | "n mod 4 = 1" | "n mod 4 = 2" | "n mod 4 = 3" by linarith
  then show ?thesis unfolding getPadding4 by cases (simp_all, presburger+)
qed

lemma getPadding4_zero [simp]: "4 dvd n \<Longrightarrow> getPadding n 4 = 0"
  unfolding getPadding4 by (simp add: dvd_eq_mod_eq_0)

lemma getPadding4_add_dvd: "4 dvd k \<Longrightarrow> getPadding (k + n) 4 = getPadding n 4"
  unfolding getPadding4 by (metis dvd_eq_mod_eq_0 mod_add_left_eq add_0)

section \<open>Network byte order\<close>

text \<open>
  \<open>htons\<close>/\<open>htonl\<close> followed by a store is \<open>be_bytes\<close>, a load followed by
  \<open>ntohs\<close>/\<open>ntohl\<close> is \<open>of_be\<close>. The few fields the code stores in host order go
  through \<open>he16\<close> (the byte order of the usual little-endian hosts).
\<close>

primrec be_bytes :: "nat \<Rightarrow> 'a::len word \<Rightarrow> byte list" where
  "be_bytes 0 w = []"
| "be_bytes (Suc n) w = ucast (drop_bit (8 * n) w) # be_bytes n w"

definition of_be :: "byte list \<Rightarrow> 'a::len word" where
  "of_be bs = foldl (\<lambda>a b. or (push_bit 8 a) (ucast b)) 0 bs"

definition be16 :: "u16 \<Rightarrow> byte list" where
  "be16 w = be_bytes 2 w"

definition be32 :: "u32 \<Rightarrow> byte list" where
  "be32 w = be_bytes 4 w"

definition he16 :: "u16 \<Rightarrow> byte list" where
  "he16 w = rev (be_bytes 2 w)"

definition of_he16 :: "byte list \<Rightarrow> u16" where
  "of_he16 bs = of_be (rev bs)"

lemma length_be_bytes [simp]: "length (be_bytes n w) = n"
  by (induction n) simp_all

lemma length_be16 [simp]: "length (be16 w) = 2"
  by (simp add: be16_def)

lemma length_be32 [simp]: "length (be32 w) = 4"
  by (simp add: be32_def)

lemma length_he16 [simp]: "length (he16 w) = 2"
  by (simp add: he16_def)

lemma foldl_be_bytes:
  fixes a :: "'a::len word" and w :: "'a word"
  shows "foldl (\<lambda>a b. or (push_bit 8 a) (ucast b)) a (be_bytes n w)
           = or (push_bit (8 * n) a) (take_bit (8 * n) w)"
proof (induction n arbitrary: a)
  case 0
  then show ?case by simp
next
  case (Suc n)
  have "or (push_bit (8 * n) (or (push_bit 8 a) (ucast (ucast (drop_bit (8 * n) w) :: byte))))
            (take_bit (8 * n) w)
        = or (push_bit (8 * Suc n) a) (take_bit (8 * Suc n) w)"
  proof (rule bit_word_eqI)
    fix i assume "i < LENGTH('a)"
    then show "bit (or (push_bit (8 * n) (or (push_bit 8 a)
                 (ucast (ucast (drop_bit (8 * n) w) :: byte)))) (take_bit (8 * n) w)) i
        = bit (or (push_bit (8 * Suc n) a) (take_bit (8 * Suc n) w)) i"
      by (auto simp: bit_simps not_le add.commute)
  qed
  with Suc.IH show ?case by simp
qed

lemma of_be_be_bytes: "LENGTH('a) \<le> 8 * n \<Longrightarrow> of_be (be_bytes n w) = (w :: 'a::len word)"
  unfolding of_be_def by (simp add: foldl_be_bytes take_bit_word_eq_self)

lemma of_be_be16 [simp]: "of_be (be16 w) = w"
  by (simp add: be16_def of_be_be_bytes)

lemma of_be_be32 [simp]: "of_be (be32 w) = w"
  by (simp add: be32_def of_be_be_bytes)

lemma of_he16_he16 [simp]: "of_he16 (he16 w) = w"
  by (simp add: of_he16_def he16_def of_be_be_bytes)

text \<open>Reading one field of a packed structure: \<open>n\<close> bytes at offset \<open>k\<close>.\<close>

definition field :: "nat \<Rightarrow> nat \<Rightarrow> byte list \<Rightarrow> byte list" where
  "field k n bs = take n (drop k bs)"

lemma field_0: "length xs = n \<Longrightarrow> field 0 n (xs @ ys) = xs"
  by (simp add: field_def)

lemma field_append: "length xs \<le> k \<Longrightarrow> field k n (xs @ ys) = field (k - length xs) n ys"
  by (simp add: field_def)

lemma field_0_exact: "length xs = n \<Longrightarrow> field 0 n xs = xs"
  by (simp add: field_def)

section \<open>Buffers\<close>

text \<open>Storing \<open>bs\<close> at offset \<open>p\<close> of a buffer.\<close>

definition overlay :: "nat \<Rightarrow> 'a list \<Rightarrow> 'a list \<Rightarrow> 'a list" where
  "overlay p bs buf = take p buf @ bs @ drop (p + length bs) buf"

lemma length_overlay [simp]:
  "p + length bs \<le> length buf \<Longrightarrow> length (overlay p bs buf) = length buf"
  by (simp add: overlay_def)

lemma take_overlay: "p \<le> length buf \<Longrightarrow> take p (overlay p bs buf) = take p buf"
  by (simp add: overlay_def)

lemma overlay_overlay_append:
  assumes "p + length xs \<le> length buf"
  shows "overlay (p + length xs) ys (overlay p xs buf) = overlay p (xs @ ys) buf"
  using assms by (simp add: overlay_def add.commute add.left_commute)

lemma overlay_inside:
  assumes "p + length xs + length zs + length ys \<le> length buf" and "length zs' = length zs"
  shows "overlay (p + length xs) zs' (overlay p (xs @ zs @ ys) buf) = overlay p (xs @ zs' @ ys) buf"
  using assms by (simp add: overlay_def add.commute add.left_commute)

lemma drop_overlay:
  "p \<le> length buf \<Longrightarrow> drop p (overlay p bs buf) = bs @ drop (p + length bs) buf"
  by (simp add: overlay_def)

end
