(* ===== verification/RSP_Types.thy ===== *)
theory RSP_Types
  imports RSP_Prelude
begin

text \<open>
  The data the components exchange: pool handles (poolhandle.c), pool policy settings
  (poolpolicysettings.c), socket addresses with their scopes and their comparison
  (netutilities.c), pool elements and peers (poolelementnode-template_impl.h,
  peerlistnode-template_impl.h). Order facts are stated through the interface
  \<open>comparator\<close>, which the search trees of the handlespace rely on.
\<close>

unbundle bit_operations_syntax

section \<open>Three-way comparison\<close>

text \<open>
  The contract of the code's comparison functions: the sign of the result orders the
  arguments, and a result of 0 means equal keys (the compared structures may still
  differ elsewhere).
\<close>

locale comparator =
  fixes cmp :: "'a \<Rightarrow> 'a \<Rightarrow> int"
  assumes cmp_anti: "cmp x y < 0 \<longleftrightarrow> 0 < cmp y x"
    and cmp_refl: "cmp x x = 0"
    and cmp_trans: "cmp x y \<le> 0 \<Longrightarrow> cmp y z \<le> 0 \<Longrightarrow> cmp x z \<le> 0"
begin

lemma cmp_zero_sym: "cmp x y = 0 \<longleftrightarrow> cmp y x = 0"
  using cmp_anti [of x y] cmp_anti [of y x] by linarith

lemma cmp_le_less: "cmp x y \<le> 0 \<Longrightarrow> cmp y z < 0 \<Longrightarrow> cmp x z < 0"
proof -
  assume xy: "cmp x y \<le> 0" and yz: "cmp y z < 0"
  have "cmp x z \<le> 0" using cmp_trans [OF xy] yz by simp
  moreover have "cmp x z \<noteq> 0"
  proof
    assume "cmp x z = 0"
    then have "cmp z x \<le> 0" using cmp_zero_sym [of x z] by simp
    from cmp_trans [OF this xy] yz cmp_anti [of y z] show False by simp
  qed
  ultimately show ?thesis by simp
qed

lemma cmp_less_le: "cmp x y < 0 \<Longrightarrow> cmp y z \<le> 0 \<Longrightarrow> cmp x z < 0"
proof -
  assume xy: "cmp x y < 0" and yz: "cmp y z \<le> 0"
  have "cmp x z \<le> 0" using cmp_trans [OF _ yz] xy by simp
  moreover have "cmp x z \<noteq> 0"
  proof
    assume "cmp x z = 0"
    then have "cmp z x \<le> 0" using cmp_zero_sym [of x z] by simp
    from cmp_trans [OF yz this] xy cmp_anti [of x y] show False by simp
  qed
  ultimately show ?thesis by simp
qed

lemma cmp_less_trans: "cmp x y < 0 \<Longrightarrow> cmp y z < 0 \<Longrightarrow> cmp x z < 0"
  by (rule cmp_le_less [of x y z]) simp_all

lemma cmp_zero_trans: "cmp x y = 0 \<Longrightarrow> cmp y z = 0 \<Longrightarrow> cmp x z = 0"
  using cmp_trans [of x y z] cmp_trans [of z y x] cmp_zero_sym [of x y] cmp_zero_sym [of y z]
    cmp_anti [of x z] by simp

end

text \<open>
  \<^verbatim>\<open>if(a < b) return(-1); else if(a > b) return(1);\<close> on a key, going on to the
  next key when both are equal: the pattern of all comparison functions.
\<close>

definition cmp_key :: "'k::linorder \<Rightarrow> 'k \<Rightarrow> int \<Rightarrow> int" where
  "cmp_key a b rest = (if a < b then -1 else if a > b then 1 else rest)"

lemma cmp_key_simps [simp]:
  "cmp_key a a r = r"
  "a < b \<Longrightarrow> cmp_key a b r = -1"
  "b < a \<Longrightarrow> cmp_key a b r = 1"
  by (simp_all add: cmp_key_def)

lemma comparator_key:
  assumes "comparator cmp"
  shows "comparator (\<lambda>x y. cmp_key (f x :: 'k::linorder) (f y) (cmp x y))"
proof -
  show ?thesis
  proof unfold_locales
    fix x y
    show "cmp_key (f x) (f y) (cmp x y) < 0 \<longleftrightarrow> 0 < cmp_key (f y) (f x) (cmp y x)"
      using comparator.cmp_anti [OF assms, of x y] by (cases "f x" "f y" rule: linorder_cases) simp_all
  next
    fix x show "cmp_key (f x) (f x) (cmp x x) = 0"
      using comparator.cmp_refl [OF assms] by simp
  next
    fix x y z
    assume xy: "cmp_key (f x) (f y) (cmp x y) \<le> 0" and yz: "cmp_key (f y) (f z) (cmp y z) \<le> 0"
    then have "f x \<le> f y" and "f y \<le> f z" by (simp_all add: cmp_key_def split: if_splits)
    then consider "f x < f z" | "f x = f y" "f y = f z" by fastforce
    then show "cmp_key (f x) (f z) (cmp x z) \<le> 0"
      by cases (use xy yz comparator.cmp_trans [OF assms, of x y z] in simp_all)
  qed
qed

lemma comparator_trivial: "comparator (\<lambda>x y. 0)"
  by unfold_locales simp_all

lemma comparator_map: "comparator cmp \<Longrightarrow> comparator (\<lambda>x y. cmp (f x) (f y))"
  unfolding comparator_def by blast

section \<open>Pool handles\<close>

abbreviation (input) "MAX_POOLHANDLESIZE \<equiv> (32 :: nat)"

text \<open>\<open>Handle\<close> is the fixed array of \<open>MAX_POOLHANDLESIZE\<close> bytes, \<open>Size\<close> the part in use.\<close>

record PoolHandle =
  ph_Size :: nat
  ph_Handle :: "byte list"

definition ph_wf :: "PoolHandle \<Rightarrow> bool" where
  "ph_wf h \<longleftrightarrow> length (ph_Handle h) = MAX_POOLHANDLESIZE \<and> 0 < ph_Size h \<and> ph_Size h \<le> MAX_POOLHANDLESIZE"

text \<open>The bytes of the handle in use.\<close>

definition ph_bytes :: "PoolHandle \<Rightarrow> byte list" where
  "ph_bytes h = take (ph_Size h) (ph_Handle h)"

definition poolHandleNew :: "PoolHandle \<Rightarrow> byte list \<Rightarrow> nat \<Rightarrow> fault + PoolHandle" where
  "poolHandleNew h handle sz =
     CHECK (sz > 0) (\<lambda>_.
     CHECK (sz \<le> MAX_POOLHANDLESIZE) (\<lambda>_.
     Inr (h\<lparr>ph_Size := sz, ph_Handle := overlay 0 (take sz handle) (ph_Handle h)\<rparr>)))"

definition poolHandleDelete :: "PoolHandle \<Rightarrow> PoolHandle" where
  "poolHandleDelete h = h\<lparr>ph_Size := 0\<rparr>"

text \<open>
  \<open>memcmp\<close> of the C library on equally long areas (its result is used by sign only);
  the cases of unequal length do not occur and only make the function total.
\<close>

fun memcmp :: "byte list \<Rightarrow> byte list \<Rightarrow> int" where
  "memcmp [] [] = 0"
| "memcmp (a # as) (b # bs) = cmp_key a b (memcmp as bs)"
| "memcmp [] (b # bs) = -1"
| "memcmp (a # as) [] = 1"

definition poolHandleComparison :: "PoolHandle \<Rightarrow> PoolHandle \<Rightarrow> int" where
  "poolHandleComparison h1 h2 =
     (if ph_Size h1 < ph_Size h2 then -1
      else if ph_Size h1 > ph_Size h2 then 1
      else memcmp (take (ph_Size h1) (ph_Handle h1)) (take (ph_Size h1) (ph_Handle h2)))"

section \<open>Pool policy settings\<close>

abbreviation (input) "PPT_UNDEFINED \<equiv> (0x00000000 :: u32)"
abbreviation (input) "PPT_ROUNDROBIN \<equiv> (0x00000001 :: u32)"
abbreviation (input) "PPT_WEIGHTED_ROUNDROBIN \<equiv> (0x00000002 :: u32)"
abbreviation (input) "PPT_RANDOM \<equiv> (0x00000003 :: u32)"
abbreviation (input) "PPT_WEIGHTED_RANDOM \<equiv> (0x00000004 :: u32)"
abbreviation (input) "PPT_PRIORITY \<equiv> (0x00000005 :: u32)"
abbreviation (input) "PPT_LEASTUSED \<equiv> (0x40000001 :: u32)"
abbreviation (input) "PPT_LEASTUSED_DEGRADATION \<equiv> (0x40000002 :: u32)"
abbreviation (input) "PPT_PRIORITY_LEASTUSED \<equiv> (0x40000003 :: u32)"
abbreviation (input) "PPT_RANDOMIZED_LEASTUSED \<equiv> (0x40000004 :: u32)"
abbreviation (input) "PPT_RANDOMIZED_PRIORITY_LEASTUSED \<equiv> (0xb0001001 :: u32)"
abbreviation (input) "PPT_RANDOMIZED_LEASTUSED_DEGRADATION \<equiv> (0xb0001002 :: u32)"
abbreviation (input) "PPT_PRIORITY_LEASTUSED_DEGRADATION \<equiv> (0xb0001003 :: u32)"
abbreviation (input) "PPT_RANDOMIZED_PRIORITY_LEASTUSED_DEGRADATION \<equiv> (0xb0001004 :: u32)"
abbreviation (input) "PPT_WEIGHTED_RANDOM_DPF \<equiv> (0xb0002001 :: u32)"
abbreviation (input) "PPT_LEASTUSED_DPF \<equiv> (0xb0002002 :: u32)"
abbreviation (input) "PPT_LEASTUSED_DEGRADATION_DPF \<equiv> (0xb0002003 :: u32)"
abbreviation (input) "PPT_PRIORITY_LEASTUSED_DPF \<equiv> (0xb0002004 :: u32)"
abbreviation (input) "PPT_PRIORITY_LEASTUSED_DEGRADATION_DPF \<equiv> (0xb0002005 :: u32)"

abbreviation (input) "PPV_MAX_WEIGHT \<equiv> (0xffffffff :: u32)"
abbreviation (input) "PPV_MAX_LOAD \<equiv> (0xffffffff :: u32)"
abbreviation (input) "PPV_MAX_LOAD_DEGRADATION \<equiv> (0xffffffff :: u32)"

record PoolPolicySettings =
  pps_PolicyType :: u32
  pps_Weight :: u32
  pps_Load :: u32
  pps_LoadDegradation :: u32
  pps_LoadDPF :: u32
  pps_WeightDPF :: u32
  pps_Distance :: u32

definition poolPolicySettingsNew :: PoolPolicySettings where
  "poolPolicySettingsNew =
     \<lparr>pps_PolicyType = 0, pps_Weight = 0, pps_Load = 0, pps_LoadDegradation = 0,
      pps_LoadDPF = 0, pps_WeightDPF = 0, pps_Distance = 0\<rparr>"

definition poolPolicySettingsDelete :: "PoolPolicySettings \<Rightarrow> PoolPolicySettings" where
  "poolPolicySettingsDelete s =
     s\<lparr>pps_PolicyType := 0, pps_Weight := 0, pps_Load := 0, pps_LoadDegradation := 0,
       pps_LoadDPF := 0, pps_WeightDPF := 0, pps_Distance := 0\<rparr>"

text \<open>0 for equal settings, 1 for different ones; the policy type is not compared.\<close>

definition poolPolicySettingsComparison :: "PoolPolicySettings \<Rightarrow> PoolPolicySettings \<Rightarrow> int" where
  "poolPolicySettingsComparison a b =
     (if pps_Weight a \<noteq> pps_Weight b \<or>
         pps_Load a \<noteq> pps_Load b \<or>
         pps_LoadDegradation a \<noteq> pps_LoadDegradation b \<or>
         pps_LoadDPF a \<noteq> pps_LoadDPF b \<or>
         pps_WeightDPF a \<noteq> pps_WeightDPF b \<or>
         pps_Distance a \<noteq> pps_Distance b then 1 else 0)"

definition poolPolicySettingsIsValid :: "PoolPolicySettings \<Rightarrow> bool" where
  "poolPolicySettingsIsValid s \<longleftrightarrow>
     pps_Weight s \<ge> 0 \<and> pps_Weight s \<le> PPV_MAX_WEIGHT \<and>
     pps_Load s \<ge> 0 \<and> pps_Load s \<le> PPV_MAX_LOAD \<and>
     pps_LoadDegradation s \<ge> 0 \<and> pps_LoadDegradation s \<le> PPV_MAX_LOAD_DEGRADATION"

definition poolPolicySettingsAdapt :: "PoolPolicySettings \<Rightarrow> u32 \<Rightarrow> bool" where
  "poolPolicySettingsAdapt s destinationType \<longleftrightarrow> pps_PolicyType s = destinationType"

section \<open>Socket addresses\<close>

text \<open>
  \<open>union sockaddr_union\<close>. Addresses and ports are kept as the numbers they denote in
  network order; \<open>SA_other\<close> is an address of any other family, in particular the
  zeroed \<open>AF_UNSPEC\<close> structure.
\<close>

datatype sockaddr_union =
    SA_other (sa_family: u16)
  | SA_in (sin_port: u16) (sin_addr: u32)
  | SA_in6 (sin6_port: u16) (sin6_flowinfo: u32) (sin6_addr: "128 word") (sin6_scope_id: u32)

abbreviation (input) "AF_UNSPEC \<equiv> (0 :: u16)"

abbreviation (input) "AS_UNSPECIFIED \<equiv> (0 :: nat)"
abbreviation (input) "AS_MULTICAST_NODELOCAL \<equiv> (1 :: nat)"
abbreviation (input) "AS_LOOPBACK \<equiv> (2 :: nat)"
abbreviation (input) "AS_MULTICAST_LINKLOCAL \<equiv> (3 :: nat)"
abbreviation (input) "AS_UNICAST_LINKLOCAL \<equiv> (4 :: nat)"
abbreviation (input) "AS_MULTICAST_SITELOCAL \<equiv> (5 :: nat)"
abbreviation (input) "AS_UNICAST_SITELOCAL \<equiv> (6 :: nat)"
abbreviation (input) "AS_MULTICAST_ORGLOCAL \<equiv> (7 :: nat)"
abbreviation (input) "AS_MULTICAST_GLOBAL \<equiv> (8 :: nat)"
abbreviation (input) "AS_UNICAST_GLOBAL \<equiv> (10 :: nat)"

definition getScopeIPv4 :: "u32 \<Rightarrow> nat" where
  "getScopeIPv4 a =
     (if a = 0 then 0
      else if a AND 0x7f000000 = 0x7f000000 then 2
      else
        let b1 = (ucast (drop_bit 24 a) :: byte);
            b2 = (ucast (drop_bit 16 a AND 0x00ff) :: byte)
        in if b1 = 10 then AS_UNICAST_SITELOCAL
           else if b1 = 172 \<and> b2 \<ge> 16 \<and> b2 \<le> 31 then AS_UNICAST_SITELOCAL
           else if b1 = 169 \<and> b2 = 254 then AS_UNICAST_LINKLOCAL
           else if b1 = 192 \<and> b2 = 168 then AS_UNICAST_SITELOCAL
           else if a AND 0xf0000000 = 0xe0000000 then AS_MULTICAST_GLOBAL
           else AS_UNICAST_GLOBAL)"

text \<open>The \<open>IN6_IS_ADDR_...\<close> macros of netinet/in.h.\<close>

definition IN6_IS_ADDR_V4MAPPED :: "128 word \<Rightarrow> bool" where
  "IN6_IS_ADDR_V4MAPPED a \<longleftrightarrow> drop_bit 32 a = 0xffff"

definition IN6_MC_SCOPE :: "128 word \<Rightarrow> byte option" where
  "IN6_MC_SCOPE a =
     (if (ucast (drop_bit 120 a) :: byte) = 0xff
      then Some ((ucast (drop_bit 112 a) :: byte) AND 0xf) else None)"

definition IN6_TOP10 :: "128 word \<Rightarrow> u32" where
  "IN6_TOP10 a = (ucast (drop_bit 96 a) :: u32) AND 0xffc00000"

definition getScopeIPv6 :: "128 word \<Rightarrow> nat" where
  "getScopeIPv6 a =
     (if IN6_IS_ADDR_V4MAPPED a then getScopeIPv4 (ucast a)
      else if a = 0 then AS_UNSPECIFIED
      else if IN6_MC_SCOPE a = Some 0x1 then AS_MULTICAST_NODELOCAL
      else if a = 1 then AS_LOOPBACK
      else if IN6_MC_SCOPE a = Some 0x2 then AS_MULTICAST_LINKLOCAL
      else if IN6_TOP10 a = 0xfe800000 then AS_UNICAST_LINKLOCAL
      else if IN6_MC_SCOPE a = Some 0x5 then AS_MULTICAST_SITELOCAL
      else if IN6_TOP10 a = 0xfec00000 then AS_UNICAST_SITELOCAL
      else if IN6_MC_SCOPE a = Some 0x8 then AS_MULTICAST_ORGLOCAL
      else if IN6_MC_SCOPE a = Some 0xe then AS_MULTICAST_GLOBAL
      else AS_UNICAST_GLOBAL)"

abbreviation (input) "LOGLEVEL_ERROR \<equiv> (1 :: nat)"

text \<open>
  \<^verbatim>\<open>LOG_ERROR ... LOG_END_FATAL\<close>: aborts when errors are logged (the default of
  \<open>gLogLevel\<close>), and is skipped otherwise.
\<close>

definition LOG_END_FATAL :: "nat \<Rightarrow> (unit \<Rightarrow> fault + 'a) \<Rightarrow> fault + 'a" where
  "LOG_END_FATAL gLogLevel k = (if gLogLevel \<ge> LOGLEVEL_ERROR then Inl FatalLog else k ())"

definition getScope :: "nat \<Rightarrow> sockaddr_union \<Rightarrow> fault + nat" where
  "getScope gl address =
     (case address of
        SA_in p a \<Rightarrow> Inr (getScopeIPv4 a)
      | SA_in6 p f a s \<Rightarrow> Inr (getScopeIPv6 a)
      | SA_other fam \<Rightarrow> LOG_END_FATAL gl (\<lambda>_. Inr 0))"

definition getPort :: "nat \<Rightarrow> sockaddr_union \<Rightarrow> fault + u16" where
  "getPort gl address =
     (case address of
        SA_in p a \<Rightarrow> Inr p
      | SA_in6 p f a s \<Rightarrow> Inr p
      | SA_other fam \<Rightarrow> LOG_END_FATAL gl (\<lambda>_. Inr 0))"

text \<open>The 16 byte form in which \<open>addresscmp\<close> compares: IPv4 addresses are mapped.\<close>

definition address128 :: "sockaddr_union \<Rightarrow> 128 word" where
  "address128 address =
     (case address of
        SA_in6 p f a s \<Rightarrow> a
      | SA_in p a \<Rightarrow> push_bit 32 0xffff OR ucast a
      | SA_other fam \<Rightarrow> 0)"

definition addresscmp :: "nat \<Rightarrow> sockaddr_union \<Rightarrow> sockaddr_union \<Rightarrow> bool \<Rightarrow> fault + int" where
  "addresscmp gl a1 a2 port =
     (if (is_SA_in a1 \<or> is_SA_in6 a1) \<and> (is_SA_in a2 \<or> is_SA_in6 a2) then
        bindR (getScope gl a1) (\<lambda>sc1.
        bindR (getScope gl a2) (\<lambda>sc2.
        let s1 = 1000000 - sc1; s2 = 1000000 - sc2 in
        if s1 < s2 then Inr (-1)
        else if s1 > s2 then Inr 1
        else
          let result = memcmp (be_bytes 16 (address128 a1)) (be_bytes 16 (address128 a2)) in
          if result \<noteq> 0 then Inr result
          else if port then
            bindR (getPort gl a1) (\<lambda>p1.
            bindR (getPort gl a2) (\<lambda>p2.
            Inr (cmp_key p1 p2 0)))
          else Inr 0))
      else LOG_END_FATAL gl (\<lambda>_. Inr 0))"

section \<open>Order facts\<close>

lemma memcmp_refl [simp]: "memcmp xs xs = 0"
  by (induction xs) simp_all

lemma memcmp_anti: "memcmp xs ys < 0 \<longleftrightarrow> 0 < memcmp ys xs"
  by (induction xs ys rule: memcmp.induct) (auto simp: cmp_key_def)

lemma memcmp_zero_iff [simp]: "memcmp xs ys = 0 \<longleftrightarrow> xs = ys"
  by (induction xs ys rule: memcmp.induct) (auto simp: cmp_key_def)

lemma memcmp_trans: "memcmp xs ys \<le> 0 \<Longrightarrow> memcmp ys zs \<le> 0 \<Longrightarrow> memcmp xs zs \<le> 0"
proof (induction xs ys arbitrary: zs rule: memcmp.induct)
  case (2 a as b bs)
  show ?case
  proof (cases zs)
    case (Cons c cs)
    with "2.prems" have "a \<le> b" and "b \<le> c" by (auto simp: cmp_key_def split: if_splits)
    then consider "a < c" | "a = b" "b = c" by fastforce
    then show ?thesis
      by cases (use Cons "2.prems" "2.IH" in simp_all)
  qed (use "2.prems" in simp)
next
  case 1
  then show ?case by (cases zs) simp_all
next
  case (3 b bs)
  then show ?case by (cases zs) simp_all
next
  case (4 a as)
  then show ?case by (cases zs) simp_all
qed

interpretation memcmp: comparator memcmp
  by unfold_locales (rule memcmp_anti, rule memcmp_refl, rule memcmp_trans)

lemma poolHandleComparison_alt:
  "poolHandleComparison h1 h2 = cmp_key (ph_Size h1) (ph_Size h2) (memcmp (ph_bytes h1) (ph_bytes h2))"
  by (simp add: poolHandleComparison_def cmp_key_def ph_bytes_def)

interpretation pool_handle: comparator poolHandleComparison
  using comparator_key [OF comparator_map [OF memcmp.comparator_axioms], of ph_Size ph_bytes]
  by (simp add: poolHandleComparison_alt [abs_def])

lemma poolHandleComparison_zero:
  "poolHandleComparison h1 h2 = 0 \<longleftrightarrow> ph_Size h1 = ph_Size h2 \<and> ph_bytes h1 = ph_bytes h2"
  by (simp add: poolHandleComparison_alt cmp_key_def)

lemma length_ph_bytes: "ph_wf h \<Longrightarrow> length (ph_bytes h) = ph_Size h"
  by (simp add: ph_wf_def ph_bytes_def)

lemma poolHandleNew_ok:
  assumes "0 < n" "n \<le> MAX_POOLHANDLESIZE" "length bs = n" "length (ph_Handle h) = MAX_POOLHANDLESIZE"
  obtains h' where "poolHandleNew h bs n = Inr h'" "ph_wf h'" "ph_bytes h' = bs" "ph_Size h' = n"
  using assms that [of "h\<lparr>ph_Size := n, ph_Handle := overlay 0 bs (ph_Handle h)\<rparr>"]
  by (simp add: poolHandleNew_def ph_wf_def ph_bytes_def overlay_def)

lemma getScopeIPv4_le: "getScopeIPv4 a \<le> AS_UNICAST_GLOBAL"
  by (simp add: getScopeIPv4_def Let_def)

end
