(* ===== verification/RSP_Transport.thy ===== *)
theory RSP_Transport
  imports RSP_Types
begin

text \<open>
  Transport address blocks (transportaddressblock.c): the addresses under which a pool
  element or a registrar can be reached, with their copying, filtering and ordering.
  \<open>AddressArray\<close> together with \<open>Addresses\<close> is a list; the \<open>Next\<close> link of the structure,
  which all functions here set to \<open>NULL\<close>, is left out.
\<close>

section \<open>Definitions\<close>

abbreviation (input) "IPPROTO_TCP \<equiv> (6 :: int)"
abbreviation (input) "IPPROTO_UDP \<equiv> (17 :: int)"
abbreviation (input) "IPPROTO_SCTP \<equiv> (132 :: int)"

abbreviation (input) "TABF_CONTROLCHANNEL \<equiv> (1 :: u16)"

abbreviation (input) "MAX_PE_TRANSPORTADDRESSES \<equiv> (64 :: nat)"
abbreviation (input) "MAX_ADDRESSES \<equiv> (128 :: nat)"

record TransportAddressBlock =
  tab_Protocol :: int
  tab_Port :: u16
  tab_Flags :: u16
  tab_AddressArray :: "sockaddr_union list"

abbreviation tab_Addresses :: "TransportAddressBlock \<Rightarrow> nat" where
  "tab_Addresses b \<equiv> length (tab_AddressArray b)"

text \<open>The \<open>switch\<close> of \<open>transportAddressBlockNew\<close> that stores the port in each address.\<close>

definition withPort :: "u16 \<Rightarrow> sockaddr_union \<Rightarrow> sockaddr_union" where
  "withPort port address =
     (case address of
        SA_in p a \<Rightarrow> SA_in port a
      | SA_in6 p f a s \<Rightarrow> SA_in6 port f a s
      | SA_other fam \<Rightarrow> SA_other fam)"

definition transportAddressBlockNew ::
  "int \<Rightarrow> u16 \<Rightarrow> u16 \<Rightarrow> sockaddr_union list \<Rightarrow> nat \<Rightarrow> nat \<Rightarrow> TransportAddressBlock" where
  "transportAddressBlockNew protocol port flags addressArray addresses maxAddresses =
     \<lparr>tab_Protocol = protocol, tab_Port = port, tab_Flags = flags,
      tab_AddressArray = map (withPort port)
        (take (if addresses < maxAddresses then addresses else maxAddresses) addressArray)\<rparr>"

definition transportAddressBlockDelete :: "TransportAddressBlock \<Rightarrow> TransportAddressBlock" where
  "transportAddressBlockDelete b =
     b\<lparr>tab_Flags := 0, tab_Port := 0, tab_Protocol := 0, tab_AddressArray := []\<rparr>"

text \<open>\<open>NULL\<close> for \<open>NULL\<close> or when \<open>malloc\<close> fails (\<open>mem\<close> is False), a copy otherwise.\<close>

definition transportAddressBlockDuplicate ::
  "bool \<Rightarrow> TransportAddressBlock option \<Rightarrow> TransportAddressBlock option" where
  "transportAddressBlockDuplicate mem b = (case b of None \<Rightarrow> None | Some t \<Rightarrow> if mem then Some t else None)"

text \<open>The loop that compares the addresses one by one.\<close>

fun addressArrayComparison :: "nat \<Rightarrow> sockaddr_union list \<Rightarrow> sockaddr_union list \<Rightarrow> fault + int" where
  "addressArrayComparison gl (a # as) (b # bs) =
     bindR (addresscmp gl a b False) (\<lambda>result.
       if result \<noteq> 0 then Inr result else addressArrayComparison gl as bs)"
| "addressArrayComparison gl _ _ = Inr 0"

definition transportAddressBlockComparison ::
  "nat \<Rightarrow> TransportAddressBlock option \<Rightarrow> TransportAddressBlock option \<Rightarrow> fault + int" where
  "transportAddressBlockComparison gl p1 p2 =
     (case (p1, p2) of
        (None, Some _) \<Rightarrow> Inr (-1)
      | (Some _, None) \<Rightarrow> Inr 1
      | (None, None) \<Rightarrow> Inr 0
      | (Some b1, Some b2) \<Rightarrow>
          if tab_Port b1 < tab_Port b2 then Inr (-1)
          else if tab_Port b1 > tab_Port b2 then Inr 1
          else if tab_Flags b1 < tab_Flags b2 then Inr (-1)
          else if tab_Flags b1 > tab_Flags b2 then Inr 1
          else if tab_Addresses b1 < tab_Addresses b2 then Inr (-1)
          else if tab_Addresses b1 > tab_Addresses b2 then Inr 1
          else addressArrayComparison gl (tab_AddressArray b1) (tab_AddressArray b2))"

text \<open>The two nested loops looking for a common address: is one found?\<close>

fun anyEqual :: "nat \<Rightarrow> sockaddr_union \<Rightarrow> bool \<Rightarrow> sockaddr_union list \<Rightarrow> fault + bool" where
  "anyEqual gl a port [] = Inr False"
| "anyEqual gl a port (b # bs) =
     bindR (addresscmp gl a b port) (\<lambda>result. if result = 0 then Inr True else anyEqual gl a port bs)"

fun overlapping :: "nat \<Rightarrow> sockaddr_union list \<Rightarrow> sockaddr_union list \<Rightarrow> fault + bool" where
  "overlapping gl [] bs = Inr False"
| "overlapping gl (a # as) bs =
     bindR (anyEqual gl a False bs) (\<lambda>found. if found then Inr True else overlapping gl as bs)"

definition transportAddressBlockOverlapComparison ::
  "nat \<Rightarrow> TransportAddressBlock option \<Rightarrow> TransportAddressBlock option \<Rightarrow> fault + int" where
  "transportAddressBlockOverlapComparison gl p1 p2 =
     (case (p1, p2) of
        (None, Some _) \<Rightarrow> Inr (-1)
      | (Some _, None) \<Rightarrow> Inr 1
      | (None, None) \<Rightarrow> Inr 0
      | (Some b1, Some b2) \<Rightarrow>
          if tab_Port b1 < tab_Port b2 then Inr (-1)
          else if tab_Port b1 > tab_Port b2 then Inr 1
          else if tab_Flags b1 < tab_Flags b2 then Inr (-1)
          else if tab_Flags b1 > tab_Flags b2 then Inr 1
          else bindR (overlapping gl (tab_AddressArray b1) (tab_AddressArray b2)) (\<lambda>found.
            if found then Inr 0
            else if tab_Addresses b1 < tab_Addresses b2 then Inr (-1)
            else if tab_Addresses b1 > tab_Addresses b2 then Inr 1
            else addressArrayComparison gl (tab_AddressArray b1) (tab_AddressArray b2)))"

text \<open>
  \<open>transportAddressBlockFilter\<close>: the first loop computes the selection array, the second
  copies the selected addresses. The result is the number of selected addresses and, if
  there are any, the new content of the filtered block.
\<close>

fun filterSelection ::
  "nat \<Rightarrow> TransportAddressBlock option \<Rightarrow> bool \<Rightarrow> nat \<Rightarrow> sockaddr_union list \<Rightarrow> fault + bool list" where
  "filterSelection gl assoc filterPort minScope [] = Inr []"
| "filterSelection gl assoc filterPort minScope (a # as) =
     bindR (getScope gl a) (\<lambda>scope.
     bindR (if scope \<ge> minScope
            then case assoc of
                   Some b \<Rightarrow> anyEqual gl a filterPort (tab_AddressArray b)
                 | None \<Rightarrow> Inr True
            else Inr False) (\<lambda>selected.
     bindR (filterSelection gl assoc filterPort minScope as) (\<lambda>rest.
     Inr (selected # rest))))"

definition selectByMask :: "bool list \<Rightarrow> 'a list \<Rightarrow> 'a list" where
  "selectByMask sel xs = map snd (filter fst (zip sel xs))"

definition transportAddressBlockFilter ::
  "nat \<Rightarrow> TransportAddressBlock \<Rightarrow> TransportAddressBlock option \<Rightarrow> TransportAddressBlock
     \<Rightarrow> nat \<Rightarrow> bool \<Rightarrow> nat \<Rightarrow> fault + (nat \<times> TransportAddressBlock)" where
  "transportAddressBlockFilter gl original assoc filtered maxAddresses filterPort minScope =
     CHECK (maxAddresses \<le> MAX_ADDRESSES) (\<lambda>_.
     if tab_Addresses original > MAX_ADDRESSES then Inl OutOfBounds
     else bindR (filterSelection gl assoc filterPort minScope (tab_AddressArray original)) (\<lambda>sel.
       let selected = length (filter id sel) in
       Inr (selected,
            if selected > 0
            then \<lparr>tab_Protocol = tab_Protocol original, tab_Port = tab_Port original,
                  tab_Flags = tab_Flags original,
                  tab_AddressArray = selectByMask sel (tab_AddressArray original)\<rparr>
            else filtered)))"

section \<open>Lemmas\<close>

text \<open>Blocks the code builds hold IPv4 and IPv6 addresses only.\<close>

definition inet :: "sockaddr_union \<Rightarrow> bool" where
  "inet a \<longleftrightarrow> is_SA_in a \<or> is_SA_in6 a"

definition scopeOf :: "sockaddr_union \<Rightarrow> nat" where
  "scopeOf a = (case a of SA_in p x \<Rightarrow> getScopeIPv4 x | SA_in6 p f x s \<Rightarrow> getScopeIPv6 x | SA_other f \<Rightarrow> 0)"

definition addressKey :: "sockaddr_union \<Rightarrow> sockaddr_union \<Rightarrow> int" where
  "addressKey a b = cmp_key (1000000 - scopeOf a) (1000000 - scopeOf b)
     (memcmp (be_bytes 16 (address128 a)) (be_bytes 16 (address128 b)))"

lemma getScope_inet: "inet a \<Longrightarrow> getScope gl a = Inr (scopeOf a)"
  by (cases a) (simp_all add: inet_def getScope_def scopeOf_def)

lemma addresscmp_inet: "inet a \<Longrightarrow> inet b \<Longrightarrow> addresscmp gl a b False = Inr (addressKey a b)"
  by (simp add: addresscmp_def inet_def [symmetric] getScope_inet addressKey_def Let_def cmp_key_def)

interpretation address_key: comparator addressKey
  using comparator_key [OF comparator_map [OF memcmp.comparator_axioms],
      of "\<lambda>a. 1000000 - scopeOf a" "\<lambda>a. be_bytes 16 (address128 a)"]
  by (simp add: addressKey_def [abs_def])

lemma addressKey_zero_address: "addressKey a b = 0 \<Longrightarrow> address128 a = address128 b"
proof -
  assume "addressKey a b = 0"
  then have "be_bytes 16 (address128 a) = be_bytes 16 (address128 b)"
    by (simp add: addressKey_def cmp_key_def split: if_splits)
  then have "(of_be (be_bytes 16 (address128 a)) :: 128 word) = of_be (be_bytes 16 (address128 b))"
    by simp
  then show ?thesis by (simp add: of_be_be_bytes)
qed

lemma withPort_inet [simp]: "inet (withPort p a) = inet a"
  by (cases a) (simp_all add: withPort_def inet_def)

lemma withPort_idem [simp]: "withPort p (withPort q a) = withPort p a"
  by (cases a) (simp_all add: withPort_def)

lemma transportAddressBlockNew_bounded:
  "tab_Addresses (transportAddressBlockNew pr po fl as n mx) \<le> mx"
  by (auto simp: transportAddressBlockNew_def)

lemma anyEqual_inet:
  "inet a \<Longrightarrow> \<forall>b \<in> set bs. inet b \<Longrightarrow>
     anyEqual gl a False bs = Inr (\<exists>b \<in> set bs. addressKey a b = 0)"
  by (induction bs) (auto simp: addresscmp_inet)

lemma overlapping_inet:
  "\<forall>a \<in> set as. inet a \<Longrightarrow> \<forall>b \<in> set bs. inet b \<Longrightarrow>
     overlapping gl as bs = Inr (\<exists>a \<in> set as. \<exists>b \<in> set bs. addressKey a b = 0)"
  by (induction as) (auto simp: anyEqual_inet)

lemma filterSelection_length:
  "filterSelection gl assoc fp ms as = Inr sel \<Longrightarrow> length sel = length as"
  by (induction as arbitrary: sel) (auto simp: bindR_eq_Inr_conv)

lemma length_selectByMask: "length sel = length xs \<Longrightarrow> length (selectByMask sel xs) = length (filter id sel)"
  by (induction sel xs rule: list_induct2) (auto simp: selectByMask_def)

lemma set_selectByMask: "set (selectByMask sel xs) \<subseteq> set xs"
  by (auto simp: selectByMask_def dest: set_zip_rightD)

end
