(* ===== verification/RSP_Nodes.thy ===== *)
theory RSP_Nodes
  imports RSP_Transport
begin

text \<open>
  The two kinds of node the registrar keeps and the protocols carry: pool elements
  (poolelementnode-template_impl.h) and peers (peerlistnode-template_impl.h). The links
  into the search trees and to the owning pool or peer list are properties of the
  containers that hold a node and are not fields of the model; the value the selection
  tree keeps for a node (\<open>PoolElementSelectionStorageNode.Value\<close>) is \<open>pen_SelectionValue\<close>.
\<close>

abbreviation (input) "UNDEFINED_REGISTRAR_IDENTIFIER \<equiv> (0 :: u32)"
abbreviation (input) "UNDEFINED_POOL_ELEMENT_IDENTIFIER \<equiv> (0 :: u32)"
abbreviation (input) "INITIAL_HANDLESPACE_CHECKSUM \<equiv> (0 :: u32)"

abbreviation (input) "PENF_MARKED \<equiv> (0x0001 :: u32)"
abbreviation (input) "PENF_UPDATED \<equiv> (0x4000 :: u32)"
abbreviation (input) "PENF_NEW \<equiv> (0x8000 :: u32)"

abbreviation (input) "PLNF_STATIC \<equiv> (0x0000 :: u32)"
abbreviation (input) "PLNF_DYNAMIC \<equiv> (0x0001 :: u32)"
abbreviation (input) "PLNF_FROM_PEER \<equiv> (0x0002 :: u32)"
abbreviation (input) "PLNF_NEW \<equiv> (0x8000 :: u32)"

record PoolElementNode =
  pen_Identifier :: u32
  pen_Checksum :: u32
  pen_HomeRegistrarIdentifier :: u32
  pen_RegistrationLife :: u32
  pen_PolicySettings :: PoolPolicySettings
  pen_Flags :: u32
  pen_SeqNumber :: u32
  pen_RoundCounter :: u32
  pen_VirtualCounter :: u32
  pen_Degradation :: u32
  pen_UnreachabilityReports :: u32
  pen_SelectionCounter :: u64
  pen_LastUpdateTimeStamp :: u64
  pen_TimerCode :: u32
  pen_TimerTimeStamp :: u64
  pen_ConnectionSocketDescriptor :: int
  pen_ConnectionAssocID :: u32
  pen_UserTransport :: "TransportAddressBlock option"
  pen_RegistratorTransport :: "TransportAddressBlock option"
  pen_LastKeepAliveTransmission :: u64
  pen_SelectionValue :: u64

definition poolElementNodeNew ::
  "u32 \<Rightarrow> u32 \<Rightarrow> u32 \<Rightarrow> PoolPolicySettings \<Rightarrow> TransportAddressBlock option
     \<Rightarrow> TransportAddressBlock option \<Rightarrow> int \<Rightarrow> u32 \<Rightarrow> PoolElementNode" where
  "poolElementNodeNew identifier homeRegistrarIdentifier registrationLife pps
     userTransport registratorTransport connectionSocketDescriptor connectionAssocID =
     \<lparr>pen_Identifier = identifier,
      pen_Checksum = INITIAL_HANDLESPACE_CHECKSUM,
      pen_HomeRegistrarIdentifier = homeRegistrarIdentifier,
      pen_RegistrationLife = registrationLife,
      pen_PolicySettings = pps,
      pen_Flags = 0,
      pen_SeqNumber = 0,
      pen_RoundCounter = 0,
      pen_VirtualCounter = 0,
      pen_Degradation = 0,
      pen_UnreachabilityReports = 0,
      pen_SelectionCounter = 0,
      pen_LastUpdateTimeStamp = 0,
      pen_TimerCode = 0,
      pen_TimerTimeStamp = 0,
      pen_ConnectionSocketDescriptor = connectionSocketDescriptor,
      pen_ConnectionAssocID = connectionAssocID,
      pen_UserTransport = userTransport,
      pen_RegistratorTransport = registratorTransport,
      pen_LastKeepAliveTransmission = 0,
      pen_SelectionValue = 0\<rparr>"

text \<open>
  A takeover in progress (takeoverprocess.h) belongs to the node of the peer taken over:
  \<open>OutstandingAcks\<close> and the array of the peers whose acknowledgement is missing.
\<close>

record TakeoverProcess =
  tp_OutstandingAcks :: nat
  tp_PeerIDArray :: "u32 list"

record PeerListNode =
  pln_Identifier :: u32
  pln_Flags :: u32
  pln_LastUpdateTimeStamp :: u64
  pln_TimerCode :: u32
  pln_TimerTimeStamp :: u64
  pln_OwnershipChecksum :: u32
  pln_Status :: u32
  pln_TakeoverRegistrarID :: u32
  pln_TakeoverProcess :: "TakeoverProcess option"
  pln_AddressBlock :: "TransportAddressBlock option"

definition peerListNodeNew :: "u32 \<Rightarrow> u32 \<Rightarrow> TransportAddressBlock option \<Rightarrow> PeerListNode" where
  "peerListNodeNew identifier flags transportAddressBlock =
     \<lparr>pln_Identifier = identifier,
      pln_Flags = flags,
      pln_LastUpdateTimeStamp = 0,
      pln_TimerCode = 0,
      pln_TimerTimeStamp = 0,
      pln_OwnershipChecksum = INITIAL_HANDLESPACE_CHECKSUM,
      pln_Status = 0,
      pln_TakeoverRegistrarID = UNDEFINED_REGISTRAR_IDENTIFIER,
      pln_TakeoverProcess = None,
      pln_AddressBlock = transportAddressBlock\<rparr>"

end
