(* ===== verification/RSP_Message.thy ===== *)
theory RSP_Message
  imports RSP_Nodes
begin

text \<open>
  The message structure and its buffer (rserpoolmessage.h, rserpoolmessage.c): the
  record \<open>RSerPoolMessage\<close>, the space allocator \<open>getSpace\<close> through which all creation
  and parsing goes, and the laws of writing to and reading from the buffer.
  Pointers into the buffer are offsets. Two globals of the process travel with the
  message: \<open>gLogLevel\<close> (loglevel.c) and \<open>gMemory\<close>, whether \<open>malloc\<close> succeeds.
  The flags saying which referenced structures are freed with the message are left out.
\<close>

section \<open>The message\<close>

abbreviation (input) "MAX_MAX_HANDLE_RESOLUTION_ITEMS \<equiv> (128 :: nat)"

abbreviation (input) "RSPERR_OKAY \<equiv> (0 :: u16)"
abbreviation (input) "RSPERR_UNRECOGNIZED_PARAMETER \<equiv> (0x0001 :: u16)"
abbreviation (input) "RSPERR_INVALID_TLV \<equiv> (0x0003 :: u16)"
abbreviation (input) "RSPERR_OUT_OF_MEMORY \<equiv> (0x0006 :: u16)"
abbreviation (input) "RSPERR_INVALID_MESSAGE \<equiv> (0x0010 :: u16)"
abbreviation (input) "RSPERR_INVALID_VALUE \<equiv> (0x0011 :: u16)"
abbreviation (input) "RSPERR_BUFFERSIZE_EXCEEDED \<equiv> (0x1001 :: u16)"
abbreviation (input) "RSPERR_UNRECOGNIZED_PARAMETER_SILENT \<equiv> (0x1009 :: u16)"
abbreviation (input) "RSPERR_UNSUPPORTED_POOL_POLICY \<equiv> (0x100b :: u16)"
abbreviation (input) "RSPERR_INVALID_REGISTRATOR \<equiv> (0xf006 :: u16)"

record RSerPoolMessage =
  Type :: u32
  Error :: u16
  Flags :: byte
  Action :: u16
  Addresses :: nat
  OperationErrorCode :: u16
  OperationErrorData :: "nat option"
  OperationErrorLength :: nat
  OffendingParameterTLV :: "nat option"
  OffendingParameterTLVLength :: nat
  ErrorCauseParameterTLV :: "byte list option"
  ErrorCauseParameterTLVLength :: nat
  Buffer :: "byte list"
  BufferSize :: nat
  OriginalBufferSize :: nat
  Position :: nat
  Identifier :: u32
  Checksum :: u16
  PolicySettings :: PoolPolicySettings
  Handle :: PoolHandle
  RegistrarIdentifier :: u32
  SenderID :: u32
  ReceiverID :: u32
  PoolElementPtr :: "PoolElementNode option"
  CookiePtr :: "byte list option"
  CookieSize :: nat
  PoolElementPtrArray :: "PoolElementNode option list"
  PoolElementPtrArraySize :: nat
  PeerListNodePtr :: "PeerListNode option"
  PPID :: u32
  AssocID :: u32
  SourceAddress :: sockaddr_union
  gLogLevel :: nat
  gMemory :: bool

type_synonym 'a cfun = "RSerPoolMessage \<Rightarrow> fault + ('a \<times> RSerPoolMessage)"

text \<open>The zeroed message around a buffer: \<open>memset\<close> and the buffer fields.\<close>

definition rserpoolMessageNew :: "nat \<Rightarrow> bool \<Rightarrow> byte list \<Rightarrow> nat \<Rightarrow> RSerPoolMessage" where
  "rserpoolMessageNew logLevel mem buffer bufferSize =
     \<lparr>Type = 0, Error = 0, Flags = 0, Action = 0, Addresses = 0,
      OperationErrorCode = 0, OperationErrorData = None, OperationErrorLength = 0,
      OffendingParameterTLV = None, OffendingParameterTLVLength = 0,
      ErrorCauseParameterTLV = None, ErrorCauseParameterTLVLength = 0,
      Buffer = buffer, BufferSize = bufferSize, OriginalBufferSize = bufferSize, Position = 0,
      Identifier = 0, Checksum = 0, PolicySettings = poolPolicySettingsNew,
      Handle = \<lparr>ph_Size = 0, ph_Handle = replicate MAX_POOLHANDLESIZE 0\<rparr>,
      RegistrarIdentifier = 0, SenderID = 0, ReceiverID = 0,
      PoolElementPtr = None, CookiePtr = None, CookieSize = 0,
      PoolElementPtrArray = replicate MAX_MAX_HANDLE_RESOLUTION_ITEMS None,
      PoolElementPtrArraySize = 0, PeerListNodePtr = None,
      PPID = 0, AssocID = 0, SourceAddress = SA_other AF_UNSPEC,
      gLogLevel = logLevel, gMemory = mem\<rparr>"

text \<open>\<open>rserpoolMessageClearAll\<close>: everything but the buffer is zeroed, the buffer size is reset.\<close>

definition rserpoolMessageClearAll :: "RSerPoolMessage \<Rightarrow> RSerPoolMessage" where
  "rserpoolMessageClearAll m =
     rserpoolMessageNew (gLogLevel m) (gMemory m) (Buffer m) (OriginalBufferSize m)"

definition rserpoolMessageClearBuffer :: "RSerPoolMessage \<Rightarrow> RSerPoolMessage" where
  "rserpoolMessageClearBuffer m = m\<lparr>BufferSize := OriginalBufferSize m, Position := 0\<rparr>"

section \<open>Space in the buffer\<close>

definition getSpace :: "nat \<Rightarrow> RSerPoolMessage \<Rightarrow> nat option \<times> RSerPoolMessage" where
  "getSpace headerSize m =
     (if uadd (Position m) headerSize \<le> BufferSize m
      then (Some (Position m), m\<lparr>Position := uadd (Position m) headerSize\<rparr>)
      else (None, m))"

text \<open>Loads and stores through a pointer into the buffer.\<close>

definition readBytes :: "nat \<Rightarrow> nat \<Rightarrow> RSerPoolMessage \<Rightarrow> fault + byte list" where
  "readBytes p n m =
     (if p + n \<le> length (Buffer m) then Inr (take n (drop p (Buffer m))) else Inl OutOfBounds)"

definition writeBytes :: "nat \<Rightarrow> byte list \<Rightarrow> RSerPoolMessage \<Rightarrow> fault + RSerPoolMessage" where
  "writeBytes p bs m =
     (if p + length bs \<le> length (Buffer m)
      then Inr (m\<lparr>Buffer := overlay p bs (Buffer m)\<rparr>) else Inl OutOfBounds)"

text \<open>
  The idiom of creation: \<^verbatim>\<open>x = getSpace(message, sizeof(*x)); if(x == NULL) return(false);\<close>
  followed by the assignments to all fields of \<open>*x\<close>, which together are the bytes \<open>bs\<close>.
\<close>

definition putSpace :: "byte list \<Rightarrow> bool cfun" where
  "putSpace bs m =
     (case getSpace (length bs) m of
        (None, m') \<Rightarrow> Inr (False, m')
      | (Some p, m') \<Rightarrow> bindR (writeBytes p bs m') (\<lambda>m''. Inr (True, m'')))"

text \<open>The idiom of parsing: \<open>getSpace\<close> and the load of the structure it points to.\<close>

definition takeSpace :: "nat \<Rightarrow> byte list option cfun" where
  "takeSpace n m =
     (case getSpace n m of
        (None, m') \<Rightarrow> Inr (None, m')
      | (Some p, m') \<Rightarrow> bindR (readBytes p n m') (\<lambda>bs. Inr (Some bs, m')))"

section \<open>Laws of the buffer\<close>

text \<open>The invariant of the buffer: the position is inside, the buffer is big enough.\<close>

definition msg_wf :: "RSerPoolMessage \<Rightarrow> bool" where
  "msg_wf m \<longleftrightarrow> Position m \<le> BufferSize m \<and> BufferSize m \<le> length (Buffer m) \<and> length (Buffer m) < 2 ^ 63"

text \<open>There is room for \<open>n\<close> more bytes.\<close>

definition fits :: "nat \<Rightarrow> RSerPoolMessage \<Rightarrow> bool" where
  "fits n m \<longleftrightarrow> Position m + n \<le> BufferSize m \<and> BufferSize m \<le> length (Buffer m) \<and> length (Buffer m) < 2 ^ 63"

text \<open>Appending bytes at the position.\<close>

definition emit :: "byte list \<Rightarrow> RSerPoolMessage \<Rightarrow> RSerPoolMessage" where
  "emit bs m = m\<lparr>Buffer := overlay (Position m) bs (Buffer m), Position := Position m + length bs\<rparr>"

text \<open>The next bytes to be read are \<open>bs\<close>.\<close>

definition nextBytes :: "RSerPoolMessage \<Rightarrow> byte list \<Rightarrow> bool" where
  "nextBytes m bs \<longleftrightarrow> fits (length bs) m \<and> take (length bs) (drop (Position m) (Buffer m)) = bs"

definition advance :: "nat \<Rightarrow> RSerPoolMessage \<Rightarrow> RSerPoolMessage" where
  "advance n m = m\<lparr>Position := Position m + n\<rparr>"

lemma fits_wf: "fits n m \<Longrightarrow> msg_wf m"
  by (simp add: fits_def msg_wf_def)

lemma fits_mono: "fits n m \<Longrightarrow> k \<le> n \<Longrightarrow> fits k m"
  by (simp add: fits_def)

lemma msg_wf_fits: "msg_wf m \<longleftrightarrow> fits 0 m"
  by (simp add: msg_wf_def fits_def)

lemma getSpace_fits: "fits n m \<Longrightarrow> getSpace n m = (Some (Position m), advance n m)"
  by (simp add: fits_def getSpace_def advance_def uadd_small)

lemma getSpace_full:
  "msg_wf m \<Longrightarrow> BufferSize m < Position m + n \<Longrightarrow> n < 2 ^ 63 \<Longrightarrow> getSpace n m = (None, m)"
  by (simp add: msg_wf_def getSpace_def uadd_small)

lemma getSpace_wf: "msg_wf m \<Longrightarrow> getSpace n m = (r, m') \<Longrightarrow> msg_wf m'"
  by (auto simp: msg_wf_def getSpace_def split: if_splits)

lemma getSpace_le: "getSpace n m = (Some p, m') \<Longrightarrow> Position m' \<le> BufferSize m'"
  by (auto simp: getSpace_def split: if_splits)

lemma putSpace_fits: "fits (length bs) m \<Longrightarrow> putSpace bs m = Inr (True, emit bs m)"
  by (simp add: putSpace_def getSpace_fits writeBytes_def emit_def advance_def fits_def)

lemma takeSpace_next:
  "nextBytes m bs \<Longrightarrow> n = length bs \<Longrightarrow> takeSpace n m = Inr (Some bs, advance n m)"
  by (simp add: nextBytes_def takeSpace_def getSpace_fits readBytes_def advance_def fits_def)

lemma emit_nil [simp]: "emit [] m = m"
  by (simp add: emit_def overlay_def)

lemma emit_emit: "fits (length xs) m \<Longrightarrow> emit ys (emit xs m) = emit (xs @ ys) m"
  by (simp add: emit_def overlay_overlay_append fits_def)

lemma fits_emit: "fits (length xs + n) m \<Longrightarrow> fits n (emit xs m)"
  by (simp add: fits_def emit_def)

lemma Position_emit [simp]: "Position (emit bs m) = Position m + length bs"
  by (simp add: emit_def)

lemma BufferSize_emit [simp]: "BufferSize (emit bs m) = BufferSize m"
  by (simp add: emit_def)

lemma gMemory_emit [simp]: "gMemory (emit bs m) = gMemory m"
  by (simp add: emit_def)

lemma length_Buffer_emit [simp]: "fits (length bs) m \<Longrightarrow> length (Buffer (emit bs m)) = length (Buffer m)"
  by (simp add: emit_def fits_def)

lemma nextBytes_append:
  "nextBytes m (xs @ ys) \<longleftrightarrow> nextBytes m xs \<and> nextBytes (advance (length xs) m) ys"
proof -
  have "take (length (xs @ ys)) d = xs @ ys \<longleftrightarrow>
          take (length xs) d = xs \<and> take (length ys) (drop (length xs) d) = ys"
    (is "?L \<longleftrightarrow> ?R") for d :: "byte list"
  proof
    assume ?L
    then have "take (length xs) (take (length (xs @ ys)) d) = xs"
      and "drop (length xs) (take (length (xs @ ys)) d) = ys" by simp_all
    then show ?R by (simp add: drop_take min_def)
  next
    assume ?R
    then show ?L by (simp add: take_add)
  qed
  note this [of "drop (Position m) (Buffer m)"]
  then show ?thesis
    by (auto simp: nextBytes_def advance_def fits_def add.commute)
qed

lemma nextBytes_emit:
  "fits (length bs) m \<Longrightarrow> nextBytes ((emit bs m)\<lparr>Position := Position m\<rparr>) bs"
  by (simp add: nextBytes_def fits_def emit_def drop_overlay)

lemma advance_simps [simp]:
  "Position (advance n m) = Position m + n"
  "Buffer (advance n m) = Buffer m"
  "BufferSize (advance n m) = BufferSize m"
  "advance k (advance n m) = advance (n + k) m"
  "advance 0 m = m"
  by (simp_all add: advance_def add.assoc)

lemma fits_advance: "fits (k + n) m \<Longrightarrow> fits n (advance k m)"
  by (simp add: fits_def)

end
