(* ===== verification/RSP_Creator.thy ===== *)
theory RSP_Creator
  imports RSP_Message
begin

text \<open>
  Building packets (rserpoolmessagecreator.c): one definition per function, in the order
  of the source. A definition of type \<open>bool cfun\<close> is a C function returning a truth
  value and changing the message. The peer list response and the handle table response
  are left to the theories of the structures they walk.
\<close>

unbundle bit_operations_syntax

section \<open>Constants\<close>

abbreviation (input) "PPID_ASAP \<equiv> (11 :: u32)"
abbreviation (input) "PPID_ENRP \<equiv> (12 :: u32)"

abbreviation (input) "AHT_ASAP_MODIFIER \<equiv> (0xaa00 :: u32)"
abbreviation (input) "AHT_REGISTRATION \<equiv> (0xaa01 :: u32)"
abbreviation (input) "AHT_DEREGISTRATION \<equiv> (0xaa02 :: u32)"
abbreviation (input) "AHT_REGISTRATION_RESPONSE \<equiv> (0xaa03 :: u32)"
abbreviation (input) "AHT_DEREGISTRATION_RESPONSE \<equiv> (0xaa04 :: u32)"
abbreviation (input) "AHT_HANDLE_RESOLUTION \<equiv> (0xaa05 :: u32)"
abbreviation (input) "AHT_HANDLE_RESOLUTION_RESPONSE \<equiv> (0xaa06 :: u32)"
abbreviation (input) "AHT_ENDPOINT_KEEP_ALIVE \<equiv> (0xaa07 :: u32)"
abbreviation (input) "AHT_ENDPOINT_KEEP_ALIVE_ACK \<equiv> (0xaa08 :: u32)"
abbreviation (input) "AHT_ENDPOINT_UNREACHABLE \<equiv> (0xaa09 :: u32)"
abbreviation (input) "AHT_SERVER_ANNOUNCE \<equiv> (0xaa0a :: u32)"
abbreviation (input) "AHT_COOKIE \<equiv> (0xaa0b :: u32)"
abbreviation (input) "AHT_COOKIE_ECHO \<equiv> (0xaa0c :: u32)"
abbreviation (input) "AHT_BUSINESS_CARD \<equiv> (0xaa0d :: u32)"
abbreviation (input) "AHT_ERROR \<equiv> (0xaa0e :: u32)"

abbreviation (input) "EHT_ENRP_MODIFIER \<equiv> (0xee00 :: u32)"
abbreviation (input) "EHT_PRESENCE \<equiv> (0xee01 :: u32)"
abbreviation (input) "EHT_HANDLE_TABLE_REQUEST \<equiv> (0xee02 :: u32)"
abbreviation (input) "EHT_HANDLE_TABLE_RESPONSE \<equiv> (0xee03 :: u32)"
abbreviation (input) "EHT_HANDLE_UPDATE \<equiv> (0xee04 :: u32)"
abbreviation (input) "EHT_LIST_REQUEST \<equiv> (0xee05 :: u32)"
abbreviation (input) "EHT_LIST_RESPONSE \<equiv> (0xee06 :: u32)"
abbreviation (input) "EHT_INIT_TAKEOVER \<equiv> (0xee07 :: u32)"
abbreviation (input) "EHT_INIT_TAKEOVER_ACK \<equiv> (0xee08 :: u32)"
abbreviation (input) "EHT_TAKEOVER_SERVER \<equiv> (0xee09 :: u32)"
abbreviation (input) "EHT_ERROR \<equiv> (0xee0a :: u32)"

abbreviation (input) "AHF_REGISTRATION_REJECT \<equiv> (1 :: byte)"
abbreviation (input) "AHF_ENDPOINT_KEEP_ALIVE_HOME \<equiv> (1 :: byte)"
abbreviation (input) "EHF_PRESENCE_REPLY_REQUIRED \<equiv> (1 :: byte)"
abbreviation (input) "EHF_HANDLE_TABLE_REQUEST_OWN_CHILDREN_ONLY \<equiv> (1 :: byte)"
abbreviation (input) "EHF_TAKEOVER_SUGGESTED \<equiv> (1 :: byte)"

abbreviation (input) "ATT_ACTION_MASK \<equiv> (0xc000 :: u16)"
abbreviation (input) "ATT_ACTION_STOP \<equiv> (0x0000 :: u16)"
abbreviation (input) "ATT_ACTION_STOP_AND_REPORT \<equiv> (0x4000 :: u16)"
abbreviation (input) "ATT_ACTION_CONTINUE \<equiv> (0x8000 :: u16)"
abbreviation (input) "ATT_ACTION_CONTINUE_AND_REPORT \<equiv> (0xc000 :: u16)"

abbreviation (input) "ATT_IPv4_ADDRESS \<equiv> (0x0001 :: u16)"
abbreviation (input) "ATT_IPv6_ADDRESS \<equiv> (0x0002 :: u16)"
abbreviation (input) "ATT_SCTP_TRANSPORT \<equiv> (0x0004 :: u16)"
abbreviation (input) "ATT_TCP_TRANSPORT \<equiv> (0x0005 :: u16)"
abbreviation (input) "ATT_UDP_TRANSPORT \<equiv> (0x0006 :: u16)"
abbreviation (input) "ATT_POOL_POLICY \<equiv> (0x0008 :: u16)"
abbreviation (input) "ATT_POOL_HANDLE \<equiv> (0x0009 :: u16)"
abbreviation (input) "ATT_POOL_ELEMENT \<equiv> (0x000a :: u16)"
abbreviation (input) "ATT_SERVER_INFORMATION \<equiv> (0x000b :: u16)"
abbreviation (input) "ATT_OPERATION_ERROR \<equiv> (0x000c :: u16)"
abbreviation (input) "ATT_COOKIE \<equiv> (0x000d :: u16)"
abbreviation (input) "ATT_POOL_ELEMENT_IDENTIFIER \<equiv> (0x000e :: u16)"
abbreviation (input) "ATT_POOL_ELEMENT_CHECKSUM \<equiv> (0x000f :: u16)"
abbreviation (input) "ATT_HANDLE_RESOLUTION \<equiv> (0x003f :: u16)"

abbreviation (input) "UTP_DATA_ONLY \<equiv> (0x0000 :: u16)"
abbreviation (input) "UTP_DATA_PLUS_CONTROL \<equiv> (0x0001 :: u16)"

abbreviation (input) "RSPGETADDRS_MAX \<equiv> (0xffffffff :: nat)"

section \<open>Headers and padding\<close>

definition beginMessage :: "u32 \<Rightarrow> byte \<Rightarrow> u32 \<Rightarrow> bool cfun" where
  "beginMessage type flags ppid m =
     (case getSpace 4 m of
        (None, m') \<Rightarrow> Inr (False, m')
      | (Some p, m') \<Rightarrow>
          bindR (writeBytes p ([ucast (type AND 0xff), flags] @ [0xff, 0xff]) (m'\<lparr>PPID := ppid\<rparr>))
            (\<lambda>m''. Inr (True, m'')))"

text \<open>\<^verbatim>\<open>pad = getSpace(message, padding); memset(pad, 0, padding);\<close>\<close>

definition padSpace :: "nat \<Rightarrow> RSerPoolMessage \<Rightarrow> fault + RSerPoolMessage" where
  "padSpace padding m =
     (case getSpace padding m of
        (None, m') \<Rightarrow> if padding = 0 then Inr m' else Inl NullAccess
      | (Some p, m') \<Rightarrow> writeBytes p (replicate padding 0) m')"

definition finishMessage :: "bool cfun" where
  "finishMessage m =
     (let padding = getPadding (Position m) 4 in
      if BufferSize m \<ge> 4 then
        bindR (writeBytes 2 (be16 (of_nat (Position m))) m) (\<lambda>m1.
        bindR (padSpace padding m1) (\<lambda>m2. Inr (True, m2)))
      else Inr (False, m))"

definition beginTLV :: "u16 \<Rightarrow> bool cfun" where
  "beginTLV type = putSpace (be16 type @ [0xff, 0xff])"

definition finishTLV :: "nat \<Rightarrow> bool cfun" where
  "finishTLV tlvPosition m =
     (let len = usub (Position m) tlvPosition;
          padding = getPadding len 4 in
      if BufferSize m \<ge> 4 then
        bindR (writeBytes (tlvPosition + 2) (be16 (of_nat len)) m) (\<lambda>m1.
        bindR (padSpace padding m1) (\<lambda>m2. Inr (True, m2)))
      else Inr (False, m))"

text \<open>
  \<^verbatim>\<open>dst = getSpace(message, n); if(dst == NULL) return(false); memcpy(dst, src, n);\<close>
  with \<open>src\<close> a pointer to an object of the bytes given, or \<open>NULL\<close>.
\<close>

definition copySpace :: "nat \<Rightarrow> byte list option \<Rightarrow> bool cfun" where
  "copySpace n src m =
     (case getSpace n m of
        (None, m') \<Rightarrow> Inr (False, m')
      | (Some p, m') \<Rightarrow>
          (case src of
             None \<Rightarrow> if n = 0 then Inr (True, m') else Inl NullAccess
           | Some bs \<Rightarrow>
               if n \<le> length bs
               then bindR (writeBytes p (take n bs) m') (\<lambda>m''. Inr (True, m''))
               else Inl OutOfBounds))"

section \<open>Parameters\<close>

definition createPoolHandleParameter :: "PoolHandle option \<Rightarrow> bool cfun" where
  "createPoolHandleParameter poolHandle m =
     (case poolHandle of
        None \<Rightarrow> LOG_END_FATAL (gLogLevel m) (\<lambda>_. Inr (False, m))
      | Some h \<Rightarrow>
          stmts [beginTLV ATT_POOL_HANDLE,
                 copySpace (ph_Size h) (Some (ph_Handle h)),
                 finishTLV (Position m)] m)"

definition createAddressParameter :: "sockaddr_union \<Rightarrow> bool cfun" where
  "createAddressParameter address m =
     (case address of
        SA_in p a \<Rightarrow>
          stmts [beginTLV ATT_IPv4_ADDRESS, putSpace (be32 a), finishTLV (Position m)] m
      | SA_in6 p f a s \<Rightarrow>
          if \<not> IN6_IS_ADDR_V4MAPPED a
          then stmts [beginTLV ATT_IPv6_ADDRESS, putSpace (be_bytes 16 a), finishTLV (Position m)] m
          else stmts [beginTLV ATT_IPv4_ADDRESS, putSpace (be32 (ucast a)), finishTLV (Position m)] m
      | SA_other fam \<Rightarrow> LOG_END_FATAL (gLogLevel m) (\<lambda>_. Inr (False, m)))"

text \<open>The loop over the addresses; \<open>i\<close> counts them.\<close>

fun createAddresses :: "u16 \<Rightarrow> nat \<Rightarrow> sockaddr_union list \<Rightarrow> bool cfun" where
  "createAddresses type i [] m = Inr (True, m)"
| "createAddresses type i (a # as) m =
     bindR (createAddressParameter a m) (\<lambda>(ok, m1).
       if \<not> ok then Inr (False, m1)
       else if i > 0 \<and> type \<noteq> ATT_SCTP_TRANSPORT
       then LOG_END_FATAL (gLogLevel m1) (\<lambda>_. Inr (False, m1))
       else createAddresses type (Suc i) as m1)"

definition transportType :: "int \<Rightarrow> u16 option" where
  "transportType protocol =
     (if protocol = IPPROTO_SCTP then Some ATT_SCTP_TRANSPORT
      else if protocol = IPPROTO_TCP then Some ATT_TCP_TRANSPORT
      else if protocol = IPPROTO_UDP then Some ATT_UDP_TRANSPORT
      else None)"

definition createTransportParameter :: "TransportAddressBlock option \<Rightarrow> bool cfun" where
  "createTransportParameter transportAddressBlock m =
     (case transportAddressBlock of
        None \<Rightarrow> LOG_END_FATAL (gLogLevel m) (\<lambda>_. Inr (False, m))
      | Some b \<Rightarrow>
        (case transportType (tab_Protocol b) of
           None \<Rightarrow> LOG_END_FATAL (gLogLevel m) (\<lambda>_. Inr (False, m))
         | Some type \<Rightarrow>
           (let transportUse = (if tab_Flags b AND TABF_CONTROLCHANNEL \<noteq> 0
                                then UTP_DATA_PLUS_CONTROL else UTP_DATA_ONLY)
            in stmts
                 [beginTLV type,
                  putSpace (be16 (tab_Port b) @
                            be16 (if type = ATT_UDP_TRANSPORT then 0 else transportUse)),
                  createAddresses type 0 (tab_AddressArray b),
                  finishTLV (Position m)] m)))"

text \<open>The \<open>switch\<close> of \<open>createPolicyParameter\<close>: the words each policy stores.\<close>

definition policyWords :: "PoolPolicySettings \<Rightarrow> u32 list option" where
  "policyWords s =
     (let t = pps_PolicyType s in
      if t = PPT_RANDOM then Some [t]
      else if t = PPT_WEIGHTED_RANDOM then Some [t, pps_Weight s]
      else if t = PPT_WEIGHTED_RANDOM_DPF then Some [t, pps_Weight s, pps_WeightDPF s, pps_Distance s]
      else if t = PPT_ROUNDROBIN then Some [t]
      else if t = PPT_WEIGHTED_ROUNDROBIN then Some [t, pps_Weight s]
      else if t = PPT_PRIORITY then Some [t, pps_Weight s]
      else if t = PPT_LEASTUSED then Some [t, pps_Load s]
      else if t = PPT_LEASTUSED_DPF then Some [t, pps_Load s, pps_LoadDPF s, pps_Distance s]
      else if t = PPT_LEASTUSED_DEGRADATION then Some [t, pps_Load s, pps_LoadDegradation s]
      else if t = PPT_LEASTUSED_DEGRADATION_DPF
        then Some [t, pps_Load s, pps_LoadDegradation s, pps_LoadDPF s, pps_Distance s]
      else if t = PPT_PRIORITY_LEASTUSED then Some [t, pps_Load s, pps_LoadDegradation s]
      else if t = PPT_PRIORITY_LEASTUSED_DEGRADATION then Some [t, pps_Load s, pps_LoadDegradation s]
      else if t = PPT_RANDOMIZED_LEASTUSED then Some [t, pps_Load s]
      else if t = PPT_RANDOMIZED_LEASTUSED_DEGRADATION then Some [t, pps_Load s, pps_LoadDegradation s]
      else if t = PPT_RANDOMIZED_PRIORITY_LEASTUSED then Some [t, pps_Load s, pps_LoadDegradation s]
      else if t = PPT_RANDOMIZED_PRIORITY_LEASTUSED_DEGRADATION
        then Some [t, pps_Load s, pps_LoadDegradation s]
      else None)"

definition createPolicyParameter :: "PoolPolicySettings option \<Rightarrow> bool cfun" where
  "createPolicyParameter poolPolicySettings m =
     stmts
       [beginTLV ATT_POOL_POLICY,
        (\<lambda>m1. case poolPolicySettings of
                None \<Rightarrow> LOG_END_FATAL (gLogLevel m1) (\<lambda>_. Inr (False, m1))
              | Some s \<Rightarrow>
                  (case policyWords s of
                     None \<Rightarrow> LOG_END_FATAL (gLogLevel m1) (\<lambda>_. Inr (False, m1))
                   | Some ws \<Rightarrow> putSpace (concat (map be32 ws)) m1)),
        finishTLV (Position m)] m"

definition createPoolElementParameter :: "PoolElementNode option \<Rightarrow> bool \<Rightarrow> bool cfun" where
  "createPoolElementParameter poolElement includeRegistratorTransport m =
     (case poolElement of
        None \<Rightarrow> LOG_END_FATAL (gLogLevel m) (\<lambda>_. Inr (False, m))
      | Some pe \<Rightarrow>
          stmts
            [beginTLV ATT_POOL_ELEMENT,
             putSpace (be32 (pen_Identifier pe) @ be32 (pen_HomeRegistrarIdentifier pe) @
                       be32 (pen_RegistrationLife pe)),
             createTransportParameter (pen_UserTransport pe),
             createPolicyParameter (Some (pen_PolicySettings pe)),
             (\<lambda>m1. if includeRegistratorTransport
                   then CHECK (pen_RegistratorTransport pe \<noteq> None) (\<lambda>_.
                          createTransportParameter (pen_RegistratorTransport pe) m1)
                   else Inr (True, m1)),
             finishTLV (Position m)] m)"

definition createPoolElementIdentifierParameter :: "u32 \<Rightarrow> bool cfun" where
  "createPoolElementIdentifierParameter poolElementIdentifier m =
     stmts [beginTLV ATT_POOL_ELEMENT_IDENTIFIER, putSpace (be32 poolElementIdentifier),
            finishTLV (Position m)] m"

text \<open>The checksum is stored in host order: the sum itself is over host order words.\<close>

definition createHandlespaceChecksumParameter :: "u16 \<Rightarrow> bool cfun" where
  "createHandlespaceChecksumParameter poolElementChecksum m =
     stmts [beginTLV ATT_POOL_ELEMENT_CHECKSUM, putSpace (he16 poolElementChecksum),
            finishTLV (Position m)] m"

text \<open>The data an error parameter carries: the offending parameter, for three causes.\<close>

definition errorCauseData :: "RSerPoolMessage \<Rightarrow> nat \<times> byte list" where
  "errorCauseData m =
     (if Error m = RSPERR_UNRECOGNIZED_PARAMETER \<or> Error m = RSPERR_INVALID_TLV
         \<or> Error m = RSPERR_INVALID_VALUE
      then case ErrorCauseParameterTLV m of
             None \<Rightarrow> (0, [])
           | Some d \<Rightarrow> (ErrorCauseParameterTLVLength m, d)
      else (0, []))"

definition createErrorParameter :: "bool cfun" where
  "createErrorParameter m =
     stmts
       [beginTLV ATT_OPERATION_ERROR,
        (\<lambda>m1.
           CHECK (ErrorCauseParameterTLV m1 = None \<longrightarrow> ErrorCauseParameterTLVLength m1 = 0) (\<lambda>_.
           let (dataLength, data) = errorCauseData m1 in
           if dataLength \<le> length data
           then putSpace (be16 (Error m1) @ be16 (of_nat (4 + dataLength)) @ take dataLength data) m1
           else Inl OutOfBounds)),
        finishTLV (Position m)] m"

definition createCookieParameter :: "byte list option \<Rightarrow> nat \<Rightarrow> bool cfun" where
  "createCookieParameter cookie cookieSize m =
     stmts [beginTLV ATT_COOKIE, copySpace cookieSize cookie, finishTLV (Position m)] m"

definition createServerInformationParameter :: "PeerListNode option \<Rightarrow> bool cfun" where
  "createServerInformationParameter peerListNode m =
     stmts
       [beginTLV ATT_SERVER_INFORMATION,
        (\<lambda>m1. case peerListNode of
                None \<Rightarrow> bindR (putSpace [0, 0, 0, 0] m1) (\<lambda>(ok, m2).
                          if ok then Inl NullAccess else Inr (False, m2))
              | Some n \<Rightarrow> stmts [putSpace (be32 (pln_Identifier n)),
                                createTransportParameter (pln_AddressBlock n)] m1),
        finishTLV (Position m)] m"

definition createHandleResolutionParameter :: "nat \<Rightarrow> bool cfun" where
  "createHandleResolutionParameter items m =
     stmts [beginTLV (ATT_HANDLE_RESOLUTION OR ATT_ACTION_CONTINUE),
            putSpace (if items = RSPGETADDRS_MAX then [0xff, 0xff, 0xff, 0xff]
                      else be32 (of_nat items)),
            finishTLV (Position m)] m"

section \<open>Messages\<close>

text \<open>Statements that depend on the fields of the message.\<close>

definition createOwnHandle :: "bool cfun" where
  "createOwnHandle m = createPoolHandleParameter (Some (Handle m)) m"

definition createOwnIdentifier :: "bool cfun" where
  "createOwnIdentifier m = createPoolElementIdentifierParameter (Identifier m) m"

definition createErrorIfAny :: "bool cfun" where
  "createErrorIfAny m = (if Error m \<noteq> 0 then createErrorParameter m else Inr (True, m))"

definition putRegistrarIdentifier :: "bool cfun" where
  "putRegistrarIdentifier m = putSpace (be32 (RegistrarIdentifier m)) m"

text \<open>\<open>struct rserpool_serverparameter\<close> and \<open>struct rserpool_targetparameter\<close>.\<close>

definition putServerParameter :: "bool cfun" where
  "putServerParameter m = putSpace (be32 (SenderID m) @ be32 (ReceiverID m)) m"

definition putTargetParameter :: "bool cfun" where
  "putTargetParameter m =
     putSpace (be32 (SenderID m) @ be32 (ReceiverID m) @ be32 (RegistrarIdentifier m)) m"

definition createEndpointKeepAliveMessage :: "bool cfun" where
  "createEndpointKeepAliveMessage m =
     stmts
       [beginMessage AHT_ENDPOINT_KEEP_ALIVE (Flags m AND AHF_ENDPOINT_KEEP_ALIVE_HOME) PPID_ASAP,
        putRegistrarIdentifier,
        createOwnHandle,
        (\<lambda>m1. if Identifier m1 \<noteq> 0 then createOwnIdentifier m1 else Inr (True, m1)),
        finishMessage] m"

definition createEndpointKeepAliveAckMessage :: "bool cfun" where
  "createEndpointKeepAliveAckMessage m =
     stmts
       [beginMessage AHT_ENDPOINT_KEEP_ALIVE_ACK (Flags m AND 0x00) PPID_ASAP,
        createOwnHandle, createOwnIdentifier, finishMessage] m"

definition createEndpointUnreachableMessage :: "bool cfun" where
  "createEndpointUnreachableMessage m =
     stmts
       [beginMessage AHT_ENDPOINT_UNREACHABLE (Flags m AND 0x00) PPID_ASAP,
        createOwnHandle, createOwnIdentifier, finishMessage] m"

definition createRegistrationMessage :: "bool cfun" where
  "createRegistrationMessage m =
     (case PoolElementPtr m of
        None \<Rightarrow> Inl NullAccess
      | Some pe \<Rightarrow>
          CHECK (pen_RegistratorTransport pe = None) (\<lambda>_.
          stmts
            [beginMessage AHT_REGISTRATION (Flags m AND 0x00) PPID_ASAP,
             createOwnHandle,
             createPoolElementParameter (Some pe) False,
             createErrorIfAny,
             finishMessage] m))"

definition createRegistrationResponseMessage :: "bool cfun" where
  "createRegistrationResponseMessage m =
     (if PoolElementPtr m = None
      then LOG_END_FATAL (gLogLevel m) (\<lambda>_. Inr (False, m))
      else
        stmts
          [beginMessage AHT_REGISTRATION_RESPONSE (Flags m AND AHF_REGISTRATION_REJECT) PPID_ASAP,
           createOwnHandle, createOwnIdentifier, createErrorIfAny, finishMessage] m)"

definition createDeregistrationMessage :: "bool cfun" where
  "createDeregistrationMessage m =
     stmts
       [beginMessage AHT_DEREGISTRATION (Flags m AND 0x00) PPID_ASAP,
        createOwnHandle, createOwnIdentifier, finishMessage] m"

definition createDeregistrationResponseMessage :: "bool cfun" where
  "createDeregistrationResponseMessage m =
     stmts
       [beginMessage AHT_DEREGISTRATION_RESPONSE (Flags m AND 0x00) PPID_ASAP,
        createOwnHandle, createOwnIdentifier, createErrorIfAny, finishMessage] m"

definition createHandleResolutionMessage :: "bool cfun" where
  "createHandleResolutionMessage m =
     stmts
       [beginMessage AHT_HANDLE_RESOLUTION (Flags m AND 0x00) PPID_ASAP,
        createOwnHandle,
        (\<lambda>m1. if Addresses m1 \<noteq> 0 then createHandleResolutionParameter (Addresses m1) m1
              else Inr (True, m1)),
        finishMessage] m"

text \<open>The loop over the first \<open>PoolElementPtrArraySize\<close> entries of the array.\<close>

definition createPoolElements :: "bool cfun" where
  "createPoolElements m =
     (if PoolElementPtrArraySize m \<le> length (PoolElementPtrArray m)
      then stmts (map (\<lambda>pe. createPoolElementParameter pe False)
                    (take (PoolElementPtrArraySize m) (PoolElementPtrArray m))) m
      else Inl OutOfBounds)"

definition createHandleResolutionResponseMessage :: "bool cfun" where
  "createHandleResolutionResponseMessage m =
     CHECK (PoolElementPtrArraySize m \<le> MAX_MAX_HANDLE_RESOLUTION_ITEMS) (\<lambda>_.
     stmts
       [beginMessage AHT_HANDLE_RESOLUTION_RESPONSE (Flags m AND 0x00) PPID_ASAP,
        createOwnHandle,
        (\<lambda>m1. if Error m1 = 0x00
              then stmts [(\<lambda>m2. createPolicyParameter (Some (PolicySettings m2)) m2),
                          createPoolElements] m1
              else createErrorParameter m1),
        finishMessage] m)"

definition createBusinessCardMessage :: "bool cfun" where
  "createBusinessCardMessage m =
     CHECK (PoolElementPtrArraySize m > 0) (\<lambda>_.
     CHECK (PoolElementPtrArraySize m < MAX_MAX_HANDLE_RESOLUTION_ITEMS) (\<lambda>_.
     stmts
       [beginMessage AHT_BUSINESS_CARD (Flags m AND 0x00) PPID_ASAP,
        createOwnHandle,
        (\<lambda>m1. createPolicyParameter (Some (PolicySettings m1)) m1),
        createPoolElements,
        finishMessage] m))"

definition createServerAnnounceMessage :: "bool cfun" where
  "createServerAnnounceMessage m =
     stmts
       [beginMessage AHT_SERVER_ANNOUNCE (Flags m AND 0x00) PPID_ASAP,
        putRegistrarIdentifier, finishMessage] m"

definition createCookieMessage :: "bool cfun" where
  "createCookieMessage m =
     stmts
       [beginMessage AHT_COOKIE (Flags m AND 0x00) PPID_ASAP,
        (\<lambda>m1. createCookieParameter (CookiePtr m1) (CookieSize m1) m1), finishMessage] m"

definition createCookieEchoMessage :: "bool cfun" where
  "createCookieEchoMessage m =
     stmts
       [beginMessage AHT_COOKIE_ECHO (Flags m AND 0x00) PPID_ASAP,
        (\<lambda>m1. createCookieParameter (CookiePtr m1) (CookieSize m1) m1), finishMessage] m"

definition createPresenceMessage :: "bool cfun" where
  "createPresenceMessage m =
     stmts
       [beginMessage EHT_PRESENCE (Flags m AND EHF_PRESENCE_REPLY_REQUIRED) PPID_ENRP,
        putServerParameter,
        (\<lambda>m1. createHandlespaceChecksumParameter (Checksum m1) m1),
        (\<lambda>m1. createServerInformationParameter (PeerListNodePtr m1) m1),
        finishMessage] m"

definition createListRequestMessage :: "bool cfun" where
  "createListRequestMessage m =
     stmts
       [beginMessage EHT_LIST_REQUEST (Flags m AND 0x00) PPID_ENRP,
        putServerParameter, finishMessage] m"

definition createHandleTableRequestMessage :: "bool cfun" where
  "createHandleTableRequestMessage m =
     stmts
       [beginMessage EHT_HANDLE_TABLE_REQUEST
          (Flags m AND EHF_HANDLE_TABLE_REQUEST_OWN_CHILDREN_ONLY) PPID_ENRP,
        putServerParameter, finishMessage] m"

definition createHandleUpdateMessage :: "bool cfun" where
  "createHandleUpdateMessage m =
     (case PoolElementPtr m of
        None \<Rightarrow> Inl NullAccess
      | Some pe \<Rightarrow>
          CHECK (pen_RegistratorTransport pe \<noteq> None) (\<lambda>_.
          stmts
            [beginMessage EHT_HANDLE_UPDATE (Flags m AND EHF_TAKEOVER_SUGGESTED) PPID_ENRP,
             (\<lambda>m1. putSpace (be32 (SenderID m1) @ be32 (ReceiverID m1) @ be16 (Action m1) @
                             [0x00, 0x00]) m1),
             createOwnHandle,
             createPoolElementParameter (Some pe) True,
             finishMessage] m))"

definition createInitTakeoverMessage :: "bool cfun" where
  "createInitTakeoverMessage m =
     stmts
       [beginMessage EHT_INIT_TAKEOVER (Flags m AND 0x00) PPID_ENRP,
        putTargetParameter, finishMessage] m"

definition createInitTakeoverAckMessage :: "bool cfun" where
  "createInitTakeoverAckMessage m =
     stmts
       [beginMessage EHT_INIT_TAKEOVER_ACK (Flags m AND 0x00) PPID_ENRP,
        putTargetParameter, finishMessage] m"

definition createTakeoverServerMessage :: "bool cfun" where
  "createTakeoverServerMessage m =
     stmts
       [beginMessage EHT_TAKEOVER_SERVER (Flags m AND 0x00) PPID_ENRP,
        putTargetParameter, finishMessage] m"

definition createENRPErrorMessage :: "bool cfun" where
  "createENRPErrorMessage m =
     stmts
       [beginMessage EHT_ERROR (Flags m AND 0x00) PPID_ENRP,
        putServerParameter, createErrorParameter, finishMessage] m"

definition createASAPErrorMessage :: "bool cfun" where
  "createASAPErrorMessage m =
     stmts
       [beginMessage AHT_ERROR (Flags m AND 0x00) PPID_ASAP,
        createErrorParameter, finishMessage] m"

end
