(* ===== verification/RSP_Parser.thy ===== *)
theory RSP_Parser
  imports RSP_Creator
begin

text \<open>
  Parsing packets (rserpoolmessageparser.c): one definition per function, in the order of
  the source. Every load from the packet goes through \<open>readBytes\<close> and ends in the fault
  \<open>OutOfBounds\<close> when it leaves the buffer, so that memory safety is a statement about
  the model. The two messages that fill a peer list or a handlespace, and the dispatcher
  that calls all scanners, are in the theories of those structures.
\<close>

unbundle bit_operations_syntax

section \<open>Idioms\<close>

text \<open>\<^verbatim>\<open>message->Error = e; return(r);\<close>\<close>

definition failWith :: "u16 \<Rightarrow> 'a \<Rightarrow> 'a cfun" where
  "failWith e r m = Inr (r, m\<lparr>Error := e\<rparr>)"

text \<open>\<^verbatim>\<open>message->f = x;\<close>\<close>

definition modifyC :: "(RSerPoolMessage \<Rightarrow> RSerPoolMessage) \<Rightarrow> unit cfun" where
  "modifyC f m = Inr ((), f m)"

text \<open>A load of \<open>n\<close> bytes at an offset or at the position, without moving the position.\<close>

definition loadAt :: "nat \<Rightarrow> nat \<Rightarrow> byte list cfun" where
  "loadAt p n m = bindR (readBytes p n m) (\<lambda>bs. Inr (bs, m))"

definition loadHere :: "nat \<Rightarrow> byte list cfun" where
  "loadHere n m = loadAt (Position m) n m"

text \<open>\<^verbatim>\<open>ntohs\<close> and \<^verbatim>\<open>ntohl\<close> of a field of a loaded structure.\<close>

definition ntohs_at :: "nat \<Rightarrow> byte list \<Rightarrow> u16" where
  "ntohs_at k bs = of_be (field k 2 bs)"

definition ntohl_at :: "nat \<Rightarrow> byte list \<Rightarrow> u32" where
  "ntohl_at k bs = of_be (field k 4 bs)"

definition PURE_ATT_TYPE :: "u16 \<Rightarrow> u16" where
  "PURE_ATT_TYPE type = type AND NOT ATT_ACTION_MASK"

section \<open>Headers\<close>

definition peekNextTLVType :: "u16 cfun" where
  "peekNextTLVType =
     bindC (takeSpace 4) (\<lambda>header. case header of
         Some h \<Rightarrow> (\<lambda>m. Inr (ntohs_at 0 h, m\<lparr>Position := usub (Position m) 4\<rparr>))
       | None \<Rightarrow> returnC 0)"

text \<open>
  The variables \<open>tlvType\<close> and \<open>tlvLength\<close> of the caller are passed in, since they keep
  their values when there is no header. The result is the truth value followed by
  \<open>tlvPosition\<close>, \<open>tlvType\<close> and \<open>tlvLength\<close>.
\<close>

definition getNextTLV :: "u16 \<Rightarrow> nat \<Rightarrow> (bool \<times> nat \<times> u16 \<times> nat) cfun" where
  "getNextTLV tlvType0 tlvLength0 m =
     (let tlvPosition = Position m in
      bindC (takeSpace 4) (\<lambda>header. case header of
          None \<Rightarrow> failWith RSPERR_INVALID_MESSAGE (False, tlvPosition, tlvType0, tlvLength0)
        | Some h \<Rightarrow>
            (let tlvType = ntohs_at 0 h; tlvLength = unat (ntohs_at 2 h) in
             (\<lambda>m1.
                if usub (uadd (Position m1) tlvLength) 4 > BufferSize m1
                then failWith RSPERR_INVALID_TLV (False, tlvPosition, tlvType, tlvLength) m1
                else if tlvLength < 4
                then failWith RSPERR_INVALID_TLV (False, tlvPosition, tlvType, tlvLength) m1
                else Inr ((tlvLength > 0, tlvPosition, tlvType, tlvLength),
                          m1\<lparr>OffendingParameterTLVLength := tlvLength\<rparr>))))
        (m\<lparr>OffendingParameterTLV := Some tlvPosition, OffendingParameterTLVLength := 0\<rparr>))"

definition handleUnknownTLV :: "u16 \<Rightarrow> nat \<Rightarrow> bool cfun" where
  "handleUnknownTLV tlvType tlvLength m =
     (if tlvType AND ATT_ACTION_MASK = ATT_ACTION_CONTINUE then
        (case getSpace (usub tlvLength 4) m of
           (Some ptr, m1) \<Rightarrow> Inr (True, m1)
         | (None, m1) \<Rightarrow> Inr (False, m1))
      else if tlvType AND ATT_ACTION_MASK = ATT_ACTION_CONTINUE_AND_REPORT then
        (case getSpace (usub tlvLength 4) m of
           (Some ptr, m1) \<Rightarrow> Inr (True, m1)
         | (None, m1) \<Rightarrow> Inr (False, m1))
      else if tlvType AND ATT_ACTION_MASK = ATT_ACTION_STOP then
        failWith RSPERR_UNRECOGNIZED_PARAMETER_SILENT False (m\<lparr>Position := usub (Position m) 4\<rparr>)
      else if tlvType AND ATT_ACTION_MASK = ATT_ACTION_STOP_AND_REPORT then
        failWith RSPERR_UNRECOGNIZED_PARAMETER False (m\<lparr>Position := usub (Position m) 4\<rparr>)
      else Inr (False, m))"

text \<open>The result is the length (0 for an error) and the start position.\<close>

definition checkBeginMessage :: "(nat \<times> nat) cfun" where
  "checkBeginMessage m =
     (let startPosition = Position m in
      bindC (takeSpace 4) (\<lambda>header. case header of
          None \<Rightarrow> failWith RSPERR_INVALID_MESSAGE (0, startPosition)
        | Some h \<Rightarrow>
            (let len = unat (ntohs_at 2 h) in
             (\<lambda>m1.
                if usub (uadd (Position m1) len) 4 > BufferSize m1
                then failWith RSPERR_INVALID_MESSAGE (0, startPosition) m1
                else if len < 4
                then failWith RSPERR_INVALID_MESSAGE (0, startPosition) m1
                else Inr ((len, startPosition), m1\<lparr>Flags := h ! 1\<rparr>))))
        (m\<lparr>OffendingParameterTLV := None\<rparr>))"

definition checkFinishMessage :: "nat \<Rightarrow> bool cfun" where
  "checkFinishMessage startPosition =
     bindC (loadAt startPosition 4) (\<lambda>h m.
       let len = unat (ntohs_at 2 h);
           endPos = startPosition + len;
           padding = getPadding endPos 4
       in if Position m \<noteq> endPos + padding
          then Inr (False, if Error m = RSPERR_OKAY then m\<lparr>Error := RSPERR_INVALID_MESSAGE\<rparr> else m)
          else Inr (True, m\<lparr>OffendingParameterTLV := None, OffendingParameterTLVLength := 0\<rparr>))"

text \<open>
  The loop of \<open>checkBeginTLV\<close>. It passes over TLVs of other types that may be skipped;
  the result is the length and the position of the TLV found. When \<open>getNextTLV\<close> fails,
  the loop is left with the length as it was set last. The fuel, one more than the size of
  the buffer, is enough since every iteration consumes a header.
\<close>

primrec checkBeginTLVLoop :: "nat \<Rightarrow> u16 \<Rightarrow> bool \<Rightarrow> u16 \<Rightarrow> nat \<Rightarrow> (nat \<times> nat) cfun" where
  "checkBeginTLVLoop 0 = (\<lambda>expectedType checkType tlvType0 tlvLength0 m. Inl NoFuel)"
| "checkBeginTLVLoop (Suc fuel) = (\<lambda>expectedType checkType tlvType0 tlvLength0.
     bindC (getNextTLV tlvType0 tlvLength0) (\<lambda>(ok, tlvPosition, tlvType, tlvLength).
       if \<not> ok then returnC (tlvLength, tlvPosition)
       else if \<not> checkType \<or> PURE_ATT_TYPE tlvType = expectedType
       then returnC (tlvLength, tlvPosition)
       else bindC (handleUnknownTLV tlvType tlvLength) (\<lambda>known.
              if \<not> known then returnC (0, tlvPosition)
              else checkBeginTLVLoop fuel expectedType checkType tlvType tlvLength)))"

definition checkBeginTLV :: "u16 \<Rightarrow> bool \<Rightarrow> (nat \<times> nat) cfun" where
  "checkBeginTLV expectedType checkType m =
     checkBeginTLVLoop (Suc (BufferSize m)) expectedType checkType 0 0 m"

definition checkFinishTLV :: "nat \<Rightarrow> bool cfun" where
  "checkFinishTLV tlvPosition =
     bindC (loadAt tlvPosition 4) (\<lambda>h m.
       let len = unat (ntohs_at 2 h);
           endPos = tlvPosition + len + getPadding len 4
       in if Position m > endPos then failWith RSPERR_INVALID_TLV False m
          else
            (case (if Position m < endPos then getSpace (endPos - Position m) m
                   else (Some (Position m), m)) of
               (None, m1) \<Rightarrow> failWith RSPERR_INVALID_TLV False m1
             | (Some p, m1) \<Rightarrow>
                 Inr (True, m1\<lparr>OffendingParameterTLV := None, OffendingParameterTLVLength := 0\<rparr>)))"

section \<open>Addresses and transports\<close>

text \<open>The address read, or \<open>None\<close> for the result false. The caller does not use it then.\<close>

definition scanAddressParameter :: "u16 \<Rightarrow> sockaddr_union option cfun" where
  "scanAddressParameter port =
     bindC (checkBeginTLV 0 False) (\<lambda>(tlvLength0, tlvPosition).
     if tlvLength0 = 0 then failWith RSPERR_BUFFERSIZE_EXCEEDED None
     else
       let tlvLength = usub tlvLength0 4;
           finish = (\<lambda>address. bindC (checkFinishTLV tlvPosition) (\<lambda>ok.
                       returnC (if ok then Some address else None)))
       in bindC (loadAt tlvPosition 4) (\<lambda>h.
          let tlvType = ntohs_at 0 h in
          if PURE_ATT_TYPE tlvType = ATT_IPv4_ADDRESS then
            if tlvLength \<ge> 4 then
              bindC (takeSpace 4) (\<lambda>space. case space of
                  None \<Rightarrow> failWith RSPERR_INVALID_VALUE None
                | Some b \<Rightarrow> finish (SA_in port (of_be b)))
            else failWith RSPERR_INVALID_VALUE None
          else if PURE_ATT_TYPE tlvType = ATT_IPv6_ADDRESS then
            if tlvLength \<ge> 16 then
              bindC (takeSpace 16) (\<lambda>space. case space of
                  None \<Rightarrow> failWith RSPERR_INVALID_VALUE None
                | Some b \<Rightarrow> finish (SA_in6 port 0 (of_be b) 0))
            else failWith RSPERR_INVALID_VALUE None
          else
            bindC (handleUnknownTLV tlvType tlvLength) (\<lambda>known.
              if \<not> known then returnC None else finish (SA_other AF_UNSPEC))))"

text \<open>
  The loop of \<open>scanTransportParameter\<close> over the addresses: the usable addresses found, or
  \<open>None\<close> where the source returns false. An address that cannot be parsed ends the loop,
  an address of link-local or smaller scope is skipped.
\<close>

primrec scanTransportAddresses ::
  "nat \<Rightarrow> u16 \<Rightarrow> u16 \<Rightarrow> nat \<Rightarrow> sockaddr_union list \<Rightarrow> sockaddr_union list option cfun" where
  "scanTransportAddresses 0 = (\<lambda>tlvType port tlvEndPos addressArray m. Inl NoFuel)"
| "scanTransportAddresses (Suc fuel) = (\<lambda>tlvType port tlvEndPos addressArray m.
      if Position m < tlvEndPos then
        if length addressArray \<ge> MAX_PE_TRANSPORTADDRESSES
        then failWith RSPERR_INVALID_VALUE None m
        else if tlvType \<noteq> ATT_SCTP_TRANSPORT \<and> length addressArray > 1
        then failWith RSPERR_INVALID_VALUE None m
        else
          bindC (scanAddressParameter port) (\<lambda>r. case r of
              None \<Rightarrow> failWith RSPERR_OKAY (Some addressArray)
            | Some address \<Rightarrow> (\<lambda>m1.
                bindR (getScope (gLogLevel m1) address) (\<lambda>scope.
                scanTransportAddresses fuel tlvType port tlvEndPos
                  (if scope > AS_UNICAST_LINKLOCAL then addressArray @ [address] else addressArray)
                  m1))) m
      else Inr (Some addressArray, m))"

text \<open>
  The \<open>switch\<close> on the kind of transport: protocol, port and whether there is a control
  channel, or \<open>None\<close> where the source returns false. \<open>struct rserpool_...transportparameter\<close>
  is the port followed by the transport use.
\<close>

definition scanTransportKind :: "u16 \<Rightarrow> nat \<Rightarrow> (int \<times> u16 \<times> bool) option cfun" where
  "scanTransportKind tlvType tlvLength =
     (if PURE_ATT_TYPE tlvType = ATT_SCTP_TRANSPORT then
        bindC (takeSpace 4) (\<lambda>r. case r of
            None \<Rightarrow> failWith RSPERR_INVALID_TLV None
          | Some stp \<Rightarrow> returnC (Some (IPPROTO_SCTP, ntohs_at 0 stp,
                                       ntohs_at 2 stp = UTP_DATA_PLUS_CONTROL)))
      else if PURE_ATT_TYPE tlvType = ATT_TCP_TRANSPORT then
        bindC (takeSpace 4) (\<lambda>r. case r of
            None \<Rightarrow> failWith RSPERR_INVALID_TLV None
          | Some ttp \<Rightarrow> returnC (Some (IPPROTO_TCP, ntohs_at 0 ttp,
                                       ntohs_at 2 ttp = UTP_DATA_PLUS_CONTROL)))
      else if PURE_ATT_TYPE tlvType = ATT_UDP_TRANSPORT then
        bindC (takeSpace 4) (\<lambda>r. case r of
            None \<Rightarrow> failWith RSPERR_INVALID_TLV None
          | Some utp \<Rightarrow> returnC (Some (IPPROTO_UDP, ntohs_at 0 utp, False)))
      else
        bindC (handleUnknownTLV tlvType tlvLength) (\<lambda>known.
          returnC (if known then Some (0, 0, False) else None)))"

text \<open>
  The result is the truth value returned and the block written, if any: the block is
  written before the end of the TLV is checked.
\<close>

definition scanTransportParameter :: "(bool \<times> TransportAddressBlock option) cfun" where
  "scanTransportParameter =
     bindC (checkBeginTLV 0 False) (\<lambda>(tlvLength0, tlvPosition).
     if tlvLength0 < 4 then failWith RSPERR_INVALID_TLV (False, None)
     else (\<lambda>m.
       let tlvLength = tlvLength0 - 4; tlvEndPos = Position m + tlvLength in
       bindC (loadAt tlvPosition 4) (\<lambda>h.
       let tlvType = ntohs_at 0 h in
       bindC (scanTransportKind tlvType tlvLength) (\<lambda>kind. case kind of
           None \<Rightarrow> returnC (False, None)
         | Some (protocol, port, hasControlChannel) \<Rightarrow>
             bindC (\<lambda>m1. scanTransportAddresses (Suc (BufferSize m1)) tlvType port tlvEndPos [] m1)
               (\<lambda>found. case found of
                   None \<Rightarrow> returnC (False, None)
                 | Some addressArray \<Rightarrow>
                     if length addressArray < 1 then failWith RSPERR_INVALID_VALUE (False, None)
                     else
                       let block = transportAddressBlockNew protocol port
                             (if hasControlChannel then TABF_CONTROLCHANNEL else 0)
                             addressArray (length addressArray) MAX_PE_TRANSPORTADDRESSES
                       in bindC (checkFinishTLV tlvPosition) (\<lambda>ok. returnC (ok, Some block))))) m))"

section \<open>Pool policies\<close>

text \<open>
  The common shape of the cases of \<open>scanPolicyParameter\<close>: when the TLV is long enough, the
  structure of \<open>n\<close> words is taken and its words are stored in the zeroed settings. The error
  codes differ: \<open>shortError\<close> is reported for a TLV that is too short, \<open>nullError\<close> when the
  message ends early (\<open>None\<close>: the error code is left as it is).
\<close>

definition scanPolicyCase ::
  "nat \<Rightarrow> nat \<Rightarrow> u16 option \<Rightarrow> u16 \<Rightarrow> ((nat \<Rightarrow> u32) \<Rightarrow> PoolPolicySettings) \<Rightarrow>
     (bool \<times> PoolPolicySettings) cfun" where
  "scanPolicyCase tlvLength n nullError shortError store =
     (if tlvLength \<ge> 4 * n then
        bindC (takeSpace (4 * n)) (\<lambda>r. case r of
            None \<Rightarrow> (case nullError of
                       None \<Rightarrow> returnC (False, poolPolicySettingsNew)
                     | Some e \<Rightarrow> failWith e (False, poolPolicySettingsNew))
          | Some bs \<Rightarrow> returnC (True, store (\<lambda>k. ntohl_at (4 * k) bs)))
      else failWith shortError (False, poolPolicySettingsNew))"

definition scanPolicy_LEASTUSED :: "nat \<Rightarrow> (bool \<times> PoolPolicySettings) cfun" where
  "scanPolicy_LEASTUSED tlvLength =
     scanPolicyCase tlvLength 2 (Some RSPERR_INVALID_VALUE) RSPERR_INVALID_VALUE (\<lambda>w. poolPolicySettingsNew
       \<lparr>pps_PolicyType := w 0, pps_Weight := 0, pps_Load := w 1\<rparr>)"

definition scanPolicy_LEASTUSED_DPF :: "nat \<Rightarrow> (bool \<times> PoolPolicySettings) cfun" where
  "scanPolicy_LEASTUSED_DPF tlvLength =
     scanPolicyCase tlvLength 4 (Some RSPERR_INVALID_VALUE) RSPERR_INVALID_VALUE (\<lambda>w. poolPolicySettingsNew
       \<lparr>pps_PolicyType := w 0, pps_Weight := 0, pps_Load := w 1,
        pps_LoadDPF := w 2, pps_Distance := w 3\<rparr>)"

definition scanPolicy_LEASTUSED_DEGRADATION :: "nat \<Rightarrow> (bool \<times> PoolPolicySettings) cfun" where
  "scanPolicy_LEASTUSED_DEGRADATION tlvLength =
     scanPolicyCase tlvLength 3 (Some RSPERR_INVALID_VALUE) RSPERR_INVALID_VALUE (\<lambda>w. poolPolicySettingsNew
       \<lparr>pps_PolicyType := w 0, pps_Weight := 0, pps_Load := w 1, pps_LoadDegradation := w 2\<rparr>)"

definition scanPolicy_LEASTUSED_DEGRADATION_DPF :: "nat \<Rightarrow> (bool \<times> PoolPolicySettings) cfun" where
  "scanPolicy_LEASTUSED_DEGRADATION_DPF tlvLength =
     scanPolicyCase tlvLength 5 (Some RSPERR_INVALID_VALUE) RSPERR_INVALID_VALUE (\<lambda>w. poolPolicySettingsNew
       \<lparr>pps_PolicyType := w 0, pps_Weight := 0, pps_Load := w 1,
        pps_LoadDegradation := w 2, pps_LoadDPF := w 3, pps_Distance := w 4\<rparr>)"

definition scanPolicy_PRIORITY_LEASTUSED :: "nat \<Rightarrow> (bool \<times> PoolPolicySettings) cfun" where
  "scanPolicy_PRIORITY_LEASTUSED tlvLength =
     scanPolicyCase tlvLength 3 (Some RSPERR_INVALID_VALUE) RSPERR_INVALID_VALUE (\<lambda>w. poolPolicySettingsNew
       \<lparr>pps_PolicyType := w 0, pps_Weight := 0, pps_Load := w 1, pps_LoadDegradation := w 2\<rparr>)"

definition scanPolicy_PRIORITY_LEASTUSED_DEGRADATION :: "nat \<Rightarrow> (bool \<times> PoolPolicySettings) cfun" where
  "scanPolicy_PRIORITY_LEASTUSED_DEGRADATION tlvLength =
     scanPolicyCase tlvLength 3 (Some RSPERR_INVALID_VALUE) RSPERR_INVALID_VALUE (\<lambda>w. poolPolicySettingsNew
       \<lparr>pps_PolicyType := w 0, pps_Weight := 0, pps_Load := w 1, pps_LoadDegradation := w 2\<rparr>)"

definition scanPolicy_RANDOM :: "nat \<Rightarrow> (bool \<times> PoolPolicySettings) cfun" where
  "scanPolicy_RANDOM tlvLength =
     scanPolicyCase tlvLength 1 (Some RSPERR_INVALID_VALUE) RSPERR_INVALID_VALUE (\<lambda>w. poolPolicySettingsNew
       \<lparr>pps_PolicyType := w 0, pps_Weight := 0, pps_Load := 0\<rparr>)"

definition scanPolicy_WEIGHTED_RANDOM :: "nat \<Rightarrow> (bool \<times> PoolPolicySettings) cfun" where
  "scanPolicy_WEIGHTED_RANDOM tlvLength =
     scanPolicyCase tlvLength 2 (Some RSPERR_INVALID_VALUE) RSPERR_INVALID_TLV (\<lambda>w. poolPolicySettingsNew
       \<lparr>pps_PolicyType := w 0, pps_Weight := w 1, pps_Load := 0\<rparr>)"

definition scanPolicy_WEIGHTED_RANDOM_DPF :: "nat \<Rightarrow> (bool \<times> PoolPolicySettings) cfun" where
  "scanPolicy_WEIGHTED_RANDOM_DPF tlvLength =
     scanPolicyCase tlvLength 4 (Some RSPERR_INVALID_VALUE) RSPERR_INVALID_VALUE (\<lambda>w. poolPolicySettingsNew
       \<lparr>pps_PolicyType := w 0, pps_Weight := w 1, pps_Load := 0,
        pps_WeightDPF := w 2, pps_Distance := w 3\<rparr>)"

definition scanPolicy_ROUNDROBIN :: "nat \<Rightarrow> (bool \<times> PoolPolicySettings) cfun" where
  "scanPolicy_ROUNDROBIN tlvLength =
     scanPolicyCase tlvLength 1 (Some RSPERR_INVALID_VALUE) RSPERR_INVALID_VALUE (\<lambda>w. poolPolicySettingsNew
       \<lparr>pps_PolicyType := w 0, pps_Weight := 0, pps_Load := 0\<rparr>)"

definition scanPolicy_WEIGHTED_ROUNDROBIN :: "nat \<Rightarrow> (bool \<times> PoolPolicySettings) cfun" where
  "scanPolicy_WEIGHTED_ROUNDROBIN tlvLength =
     scanPolicyCase tlvLength 2 (Some RSPERR_INVALID_VALUE) RSPERR_INVALID_VALUE (\<lambda>w. poolPolicySettingsNew
       \<lparr>pps_PolicyType := w 0, pps_Weight := w 1, pps_Load := 0\<rparr>)"

definition scanPolicy_PRIORITY :: "nat \<Rightarrow> (bool \<times> PoolPolicySettings) cfun" where
  "scanPolicy_PRIORITY tlvLength =
     scanPolicyCase tlvLength 2 (Some RSPERR_INVALID_VALUE) RSPERR_INVALID_VALUE (\<lambda>w. poolPolicySettingsNew
       \<lparr>pps_PolicyType := w 0, pps_Weight := w 1, pps_Load := 0\<rparr>)"

definition scanPolicy_RANDOMIZED_LEASTUSED :: "nat \<Rightarrow> (bool \<times> PoolPolicySettings) cfun" where
  "scanPolicy_RANDOMIZED_LEASTUSED tlvLength =
     scanPolicyCase tlvLength 2 None RSPERR_INVALID_TLV (\<lambda>w. poolPolicySettingsNew
       \<lparr>pps_PolicyType := w 0, pps_Weight := 0, pps_Load := w 1\<rparr>)"

definition scanPolicy_RANDOMIZED_LEASTUSED_DEGRADATION :: "nat \<Rightarrow> (bool \<times> PoolPolicySettings) cfun" where
  "scanPolicy_RANDOMIZED_LEASTUSED_DEGRADATION tlvLength =
     scanPolicyCase tlvLength 3 None RSPERR_INVALID_VALUE (\<lambda>w. poolPolicySettingsNew
       \<lparr>pps_PolicyType := w 0, pps_Weight := 0, pps_Load := w 1, pps_LoadDegradation := w 2\<rparr>)"

definition scanPolicy_RANDOMIZED_PRIORITY_LEASTUSED :: "nat \<Rightarrow> (bool \<times> PoolPolicySettings) cfun" where
  "scanPolicy_RANDOMIZED_PRIORITY_LEASTUSED tlvLength =
     scanPolicyCase tlvLength 3 None RSPERR_INVALID_VALUE (\<lambda>w. poolPolicySettingsNew
       \<lparr>pps_PolicyType := w 0, pps_Weight := 0, pps_Load := w 1, pps_LoadDegradation := w 2\<rparr>)"

definition scanPolicy_RANDOMIZED_PRIORITY_LEASTUSED_DEGRADATION :: "nat \<Rightarrow> (bool \<times> PoolPolicySettings) cfun" where
  "scanPolicy_RANDOMIZED_PRIORITY_LEASTUSED_DEGRADATION tlvLength =
     scanPolicyCase tlvLength 3 None RSPERR_INVALID_VALUE (\<lambda>w. poolPolicySettingsNew
       \<lparr>pps_PolicyType := w 0, pps_Weight := 0, pps_Load := w 1, pps_LoadDegradation := w 2\<rparr>)"

definition scanPolicySwitch :: "u32 \<Rightarrow> nat \<Rightarrow> (bool \<times> PoolPolicySettings) cfun" where
  "scanPolicySwitch policyType tlvLength =
     (if policyType = PPT_LEASTUSED then scanPolicy_LEASTUSED tlvLength
      else if policyType = PPT_LEASTUSED_DPF then scanPolicy_LEASTUSED_DPF tlvLength
      else if policyType = PPT_LEASTUSED_DEGRADATION then scanPolicy_LEASTUSED_DEGRADATION tlvLength
      else if policyType = PPT_LEASTUSED_DEGRADATION_DPF then scanPolicy_LEASTUSED_DEGRADATION_DPF tlvLength
      else if policyType = PPT_PRIORITY_LEASTUSED then scanPolicy_PRIORITY_LEASTUSED tlvLength
      else if policyType = PPT_PRIORITY_LEASTUSED_DEGRADATION then scanPolicy_PRIORITY_LEASTUSED_DEGRADATION tlvLength
      else if policyType = PPT_RANDOM then scanPolicy_RANDOM tlvLength
      else if policyType = PPT_WEIGHTED_RANDOM then scanPolicy_WEIGHTED_RANDOM tlvLength
      else if policyType = PPT_WEIGHTED_RANDOM_DPF then scanPolicy_WEIGHTED_RANDOM_DPF tlvLength
      else if policyType = PPT_ROUNDROBIN then scanPolicy_ROUNDROBIN tlvLength
      else if policyType = PPT_WEIGHTED_ROUNDROBIN then scanPolicy_WEIGHTED_ROUNDROBIN tlvLength
      else if policyType = PPT_PRIORITY then scanPolicy_PRIORITY tlvLength
      else if policyType = PPT_RANDOMIZED_LEASTUSED then scanPolicy_RANDOMIZED_LEASTUSED tlvLength
      else if policyType = PPT_RANDOMIZED_LEASTUSED_DEGRADATION then scanPolicy_RANDOMIZED_LEASTUSED_DEGRADATION tlvLength
      else if policyType = PPT_RANDOMIZED_PRIORITY_LEASTUSED then scanPolicy_RANDOMIZED_PRIORITY_LEASTUSED tlvLength
      else if policyType = PPT_RANDOMIZED_PRIORITY_LEASTUSED_DEGRADATION then scanPolicy_RANDOMIZED_PRIORITY_LEASTUSED_DEGRADATION tlvLength
      else failWith RSPERR_UNSUPPORTED_POOL_POLICY (False, poolPolicySettingsNew))"

text \<open>
  The settings are an in-out argument: they are returned as they were when the header is
  wrong, and zeroed or filled once the policy type has been read.
\<close>

definition scanPolicyParameter :: "PoolPolicySettings \<Rightarrow> (bool \<times> PoolPolicySettings) cfun" where
  "scanPolicyParameter poolPolicySettings =
     bindC (checkBeginTLV ATT_POOL_POLICY True) (\<lambda>(tlvLength0, tlvPosition).
     if tlvLength0 < 4 then failWith RSPERR_INVALID_TLV (False, poolPolicySettings)
     else
       let tlvLength = tlvLength0 - 4 in
       if tlvLength < 4 then failWith RSPERR_INVALID_TLV (False, poolPolicySettings)
       else
         bindC (loadHere 4) (\<lambda>w.
         bindC (scanPolicySwitch (ntohl_at 0 w) tlvLength) (\<lambda>(ok, settings).
           if \<not> ok then returnC (False, settings)
           else bindC (checkFinishTLV tlvPosition) (\<lambda>fin. returnC (fin, settings)))))"

section \<open>Other parameters\<close>

text \<open>
  \<open>struct rserpool_poolelementparameter\<close> is the identifier, the home registrar and the
  registration life. The result of scanning the registrator transport is not an error: the
  caller sees whether there is one.
\<close>

definition scanPoolElementParameter :: "bool \<Rightarrow> bool \<Rightarrow> PoolElementNode option cfun" where
  "scanPoolElementParameter registratorTransportRequired mustHaveHomeRegistrar =
     bindC (checkBeginTLV ATT_POOL_ELEMENT True) (\<lambda>(tlvLength, tlvPosition).
     if tlvLength < 4 then failWith RSPERR_INVALID_TLV None
     else
     bindC (takeSpace 12) (\<lambda>r. case r of
       None \<Rightarrow> failWith RSPERR_INVALID_TLV None
     | Some pep \<Rightarrow>
       if mustHaveHomeRegistrar \<and> ntohl_at 4 pep = UNDEFINED_REGISTRAR_IDENTIFIER
       then failWith RSPERR_INVALID_VALUE None
       else
       bindC scanTransportParameter (\<lambda>(userOk, userTransport).
       if \<not> userOk then returnC None
       else
       bindC (scanPolicyParameter poolPolicySettingsNew) (\<lambda>(policyOk, settings).
       if \<not> policyOk then returnC None
       else
       bindC (if registratorTransportRequired then scanTransportParameter else returnC (False, None))
         (\<lambda>(hasRegistratorTransport, registratorTransport).
       bindC (checkFinishTLV tlvPosition) (\<lambda>fin.
       if \<not> fin then returnC None
       else (\<lambda>m.
         if \<not> gMemory m then failWith RSPERR_OUT_OF_MEMORY None m
         else
         (case transportAddressBlockDuplicate (gMemory m) userTransport of
            None \<Rightarrow> failWith RSPERR_OUT_OF_MEMORY None m
          | Some newUserTransport \<Rightarrow>
              Inr (Some (poolElementNodeNew (ntohl_at 0 pep) (ntohl_at 4 pep) (ntohl_at 8 pep)
                     settings (Some newUserTransport)
                     (if hasRegistratorTransport
                      then transportAddressBlockDuplicate (gMemory m) registratorTransport else None)
                     (-1) 0), m)))))))))"

text \<open>All callers pass the handle of the message.\<close>

definition scanPoolHandleParameter :: "bool cfun" where
  "scanPoolHandleParameter =
     bindC (checkBeginTLV ATT_POOL_HANDLE True) (\<lambda>(tlvLength0, tlvPosition).
     if tlvLength0 < 4 then returnC False
     else
     let tlvLength = tlvLength0 - 4 in
     if tlvLength < 1 then failWith RSPERR_INVALID_TLV False
     else
     bindC (takeSpace tlvLength) (\<lambda>r. case r of
       None \<Rightarrow> failWith RSPERR_INVALID_VALUE False
     | Some poolHandle \<Rightarrow> (\<lambda>m.
         let m1 = (if tlvLength > MAX_POOLHANDLESIZE then m\<lparr>Error := RSPERR_INVALID_VALUE\<rparr> else m) in
         bindR (poolHandleNew (Handle m1) poolHandle tlvLength) (\<lambda>h.
         checkFinishTLV tlvPosition (m1\<lparr>Handle := h\<rparr>)))))"

definition scanPoolElementIdentifierParameter :: "bool cfun" where
  "scanPoolElementIdentifierParameter =
     bindC (checkBeginTLV ATT_POOL_ELEMENT_IDENTIFIER True) (\<lambda>(tlvLength0, tlvPosition).
     if tlvLength0 < 4 then returnC False
     else
     let tlvLength = tlvLength0 - 4 in
     if tlvLength \<noteq> 4 then failWith RSPERR_INVALID_VALUE False
     else
     bindC (takeSpace tlvLength) (\<lambda>r. case r of
       None \<Rightarrow> returnC False
     | Some identifier \<Rightarrow>
         bindC (modifyC (\<lambda>m. m\<lparr>Identifier := ntohl_at 0 identifier\<rparr>)) (\<lambda>_.
         checkFinishTLV tlvPosition)))"

definition scanHandlespaceChecksumParameter :: "bool cfun" where
  "scanHandlespaceChecksumParameter =
     bindC (checkBeginTLV ATT_POOL_ELEMENT_CHECKSUM True) (\<lambda>(tlvLength0, tlvPosition).
     if tlvLength0 < 4 then returnC False
     else
     let tlvLength = tlvLength0 - 4 in
     if tlvLength \<noteq> 2 then failWith RSPERR_INVALID_VALUE False
     else
     bindC (takeSpace tlvLength) (\<lambda>r. case r of
       None \<Rightarrow> returnC False
     | Some checksum \<Rightarrow>
         bindC (modifyC (\<lambda>m. m\<lparr>Checksum := of_he16 checksum\<rparr>)) (\<lambda>_.
         checkFinishTLV tlvPosition)))"

definition scanErrorParameter :: "bool cfun" where
  "scanErrorParameter =
     bindC (checkBeginTLV ATT_OPERATION_ERROR True) (\<lambda>(tlvLength0, tlvPosition).
     if tlvLength0 < 4 then returnC False
     else
     let tlvLength = tlvLength0 - 4 in
     if tlvLength < 4 then failWith RSPERR_INVALID_VALUE False
     else
     bindC (loadHere 4) (\<lambda>aec.
     bindC (modifyC (\<lambda>m. m\<lparr>OperationErrorCode := ntohs_at 0 aec\<rparr>)) (\<lambda>_.
     let dataLength = unat (ntohs_at 2 aec) in
     if dataLength < 4 then failWith RSPERR_INVALID_VALUE False
     else (\<lambda>m.
       case getSpace (dataLength - 4) m of
         (None, m1) \<Rightarrow> Inr (False, m1)
       | (Some data, m1) \<Rightarrow>
           checkFinishTLV tlvPosition
             (m1\<lparr>OperationErrorData := Some data, OperationErrorLength := dataLength - 4\<rparr>)))))"

definition scanCookieParameter :: "bool cfun" where
  "scanCookieParameter =
     bindC (checkBeginTLV ATT_COOKIE True) (\<lambda>(tlvLength0, tlvPosition).
     if tlvLength0 < 4 then returnC False
     else
     let tlvLength = tlvLength0 - 4 in
     if tlvLength < 1 then failWith RSPERR_INVALID_VALUE False
     else
     bindC (takeSpace tlvLength) (\<lambda>r. case r of
       None \<Rightarrow> returnC False
     | Some cookie \<Rightarrow> (\<lambda>m.
         if gMemory m
         then Inr (True, m\<lparr>CookiePtr := Some cookie, CookieSize := tlvLength\<rparr>)
         else failWith RSPERR_OUT_OF_MEMORY False (m\<lparr>CookiePtr := None\<rparr>))))"

definition scanServerInformationParameter :: "PeerListNode option cfun" where
  "scanServerInformationParameter =
     bindC (checkBeginTLV ATT_SERVER_INFORMATION True) (\<lambda>(tlvLength0, tlvPosition).
     if tlvLength0 < 4 then returnC None
     else
     if tlvLength0 - 4 < 1 then failWith RSPERR_INVALID_VALUE None
     else
     bindC (takeSpace 4) (\<lambda>r. case r of
       None \<Rightarrow> failWith RSPERR_INVALID_VALUE None
     | Some sip \<Rightarrow>
       bindC scanTransportParameter (\<lambda>(ok, block).
       if \<not> ok then failWith RSPERR_INVALID_VALUE None
       else (\<lambda>m.
         if \<not> gMemory m then failWith RSPERR_OUT_OF_MEMORY None m
         else
         (case transportAddressBlockDuplicate (gMemory m) block of
            None \<Rightarrow> failWith RSPERR_OUT_OF_MEMORY None m
          | Some newBlock \<Rightarrow>
              bindC (checkFinishTLV tlvPosition) (\<lambda>fin.
                returnC (if fin then Some (peerListNodeNew (ntohl_at 0 sip) 0 (Some newBlock))
                         else None)) m)))))"

definition scanHandleResolutionParameter :: "bool cfun" where
  "scanHandleResolutionParameter =
     bindC (checkBeginTLV ATT_HANDLE_RESOLUTION True) (\<lambda>(tlvLength0, tlvPosition).
     if tlvLength0 < 4 then returnC False
     else
     if tlvLength0 - 4 < 4 then failWith RSPERR_INVALID_VALUE False
     else
     bindC (takeSpace 4) (\<lambda>r. case r of
       None \<Rightarrow> returnC False
     | Some hrp \<Rightarrow>
         bindC (modifyC (\<lambda>m. m\<lparr>Addresses := (if hrp = [0xff, 0xff, 0xff, 0xff] then RSPGETADDRS_MAX
                                             else unat (ntohl_at 0 hrp))\<rparr>)) (\<lambda>_.
         checkFinishTLV tlvPosition)))"

section \<open>Messages\<close>

text \<open>\<^verbatim>\<open>if(p(message) == false) { assignments }\<close>: the failure of an optional parameter.\<close>

definition optionalC :: "bool cfun \<Rightarrow> (RSerPoolMessage \<Rightarrow> RSerPoolMessage) \<Rightarrow> bool cfun" where
  "optionalC p otherwise = bindC p (\<lambda>ok m. Inr (True, if ok then m else otherwise m))"

definition scanRegistrarIdentifier :: "bool cfun" where
  "scanRegistrarIdentifier =
     bindC (takeSpace 4) (\<lambda>r. case r of
       None \<Rightarrow> returnC False
     | Some bs \<Rightarrow> (\<lambda>m. Inr (True, m\<lparr>RegistrarIdentifier := ntohl_at 0 bs\<rparr>)))"

definition scanServerParameter :: "bool cfun" where
  "scanServerParameter =
     bindC (takeSpace 8) (\<lambda>r. case r of
       None \<Rightarrow> failWith RSPERR_INVALID_VALUE False
     | Some sp \<Rightarrow> (\<lambda>m. Inr (True, m\<lparr>SenderID := ntohl_at 0 sp, ReceiverID := ntohl_at 4 sp\<rparr>)))"

definition scanTargetParameter :: "bool cfun" where
  "scanTargetParameter =
     bindC (takeSpace 12) (\<lambda>r. case r of
       None \<Rightarrow> failWith RSPERR_INVALID_VALUE False
     | Some tp \<Rightarrow> (\<lambda>m. Inr (True, m\<lparr>SenderID := ntohl_at 0 tp, ReceiverID := ntohl_at 4 tp,
                                       RegistrarIdentifier := ntohl_at 8 tp\<rparr>)))"

definition scanEndpointKeepAliveMessage :: "bool cfun" where
  "scanEndpointKeepAliveMessage =
     stmts [scanRegistrarIdentifier, scanPoolHandleParameter,
            optionalC scanPoolElementIdentifierParameter (\<lambda>m. m\<lparr>Identifier := 0\<rparr>)]"

definition scanEndpointKeepAliveAckMessage :: "bool cfun" where
  "scanEndpointKeepAliveAckMessage =
     stmts [scanPoolHandleParameter, scanPoolElementIdentifierParameter]"

definition scanEndpointUnreachableMessage :: "bool cfun" where
  "scanEndpointUnreachableMessage =
     stmts [scanPoolHandleParameter, scanPoolElementIdentifierParameter]"

definition scanRegistrationMessage :: "bool cfun" where
  "scanRegistrationMessage =
     stmts [scanPoolHandleParameter,
            bindC (scanPoolElementParameter False False) (\<lambda>pe.
            bindC (modifyC (\<lambda>m. m\<lparr>PoolElementPtr := pe\<rparr>)) (\<lambda>_.
            case pe of
              None \<Rightarrow> returnC False
            | Some e \<Rightarrow> if pen_RegistratorTransport e \<noteq> None
                        then failWith RSPERR_INVALID_REGISTRATOR False
                        else returnC True))]"

definition scanDeregistrationMessage :: "bool cfun" where
  "scanDeregistrationMessage =
     stmts [scanPoolHandleParameter, scanPoolElementIdentifierParameter]"

text \<open>\<^verbatim>\<open>if(message->Position < message->BufferSize) { if(!scanErrorParameter(message)) ... }\<close>\<close>

definition scanErrorIfMore :: "bool cfun" where
  "scanErrorIfMore m = (if Position m < BufferSize m then scanErrorParameter m else Inr (True, m))"

definition scanRegistrationResponseMessage :: "bool cfun" where
  "scanRegistrationResponseMessage =
     stmts [scanPoolHandleParameter, scanPoolElementIdentifierParameter, scanErrorIfMore]"

definition scanDeregistrationResponseMessage :: "bool cfun" where
  "scanDeregistrationResponseMessage =
     stmts [scanPoolHandleParameter, scanPoolElementIdentifierParameter, scanErrorIfMore]"

definition scanHandleResolutionMessage :: "bool cfun" where
  "scanHandleResolutionMessage =
     stmts [scanPoolHandleParameter,
            optionalC scanHandleResolutionParameter (\<lambda>m. m\<lparr>Addresses := 0\<rparr>)]"

text \<open>\<^verbatim>\<open>scanPolicyParameter(message, &message->PolicySettings)\<close>\<close>

definition scanOwnPolicy :: "bool cfun" where
  "scanOwnPolicy m =
     bindC (scanPolicyParameter (PolicySettings m)) (\<lambda>(ok, settings) m1.
       Inr (ok, m1\<lparr>PolicySettings := settings\<rparr>)) m"

text \<open>
  The loop of \<open>scanHandleResolutionResponseMessage\<close> over the pool elements. An element that
  cannot be parsed ends it; its slot of the array is set to \<open>NULL\<close>. The array bounds the
  number of iterations.
\<close>

primrec scanPoolElements :: "nat \<Rightarrow> bool cfun" where
  "scanPoolElements 0 = (\<lambda>m. Inl NoFuel)"
| "scanPoolElements (Suc fuel) = (\<lambda>m.
      if Position m < BufferSize m then
        if PoolElementPtrArraySize m \<ge> MAX_MAX_HANDLE_RESOLUTION_ITEMS then Inr (False, m)
        else
          bindC (scanPoolElementParameter False False) (\<lambda>pe.
          bindC (modifyC (\<lambda>m1. m1\<lparr>PoolElementPtrArray :=
                                     (PoolElementPtrArray m1)[PoolElementPtrArraySize m1 := pe]\<rparr>)) (\<lambda>_.
          if pe = None then returnC True
          else (\<lambda>m1. scanPoolElements fuel
                  (m1\<lparr>PoolElementPtrArraySize := PoolElementPtrArraySize m1 + 1\<rparr>)))) m
      else Inr (True, m))"

definition scanHandleResolutionResponseMessage :: "bool cfun" where
  "scanHandleResolutionResponseMessage =
     stmts [scanPoolHandleParameter,
            bindC scanErrorParameter (\<lambda>isError.
              if isError then returnC True
              else stmts [scanOwnPolicy,
                          (\<lambda>m. scanPoolElements (Suc MAX_MAX_HANDLE_RESOLUTION_ITEMS)
                                 (m\<lparr>PoolElementPtrArraySize := 0\<rparr>))])]"

text \<open>
  The loop \<^verbatim>\<open>while((scanTransportParameter(...) == true) && (Protocol != IPPROTO_SCTP))\<close>:
  the block as last written, with protocol 0 before the first.
\<close>

primrec scanAnnouncedTransports :: "nat \<Rightarrow> TransportAddressBlock option \<Rightarrow> TransportAddressBlock option cfun" where
  "scanAnnouncedTransports 0 = (\<lambda>block m. Inl NoFuel)"
| "scanAnnouncedTransports (Suc fuel) = (\<lambda>block.
     bindC scanTransportParameter (\<lambda>(ok, written).
       let block' = (case written of None \<Rightarrow> block | Some b \<Rightarrow> Some b) in
       if ok \<and> (case block' of None \<Rightarrow> True | Some b \<Rightarrow> tab_Protocol b \<noteq> IPPROTO_SCTP)
       then scanAnnouncedTransports fuel block'
       else returnC block'))"

definition announcedTransport :: "TransportAddressBlock option \<Rightarrow> TransportAddressBlock cfun" where
  "announcedTransport block m =
     (case block of
        Some b \<Rightarrow> if tab_Protocol b = IPPROTO_SCTP then Inr (b, m)
                  else bindR (getPort (gLogLevel m) (SourceAddress m)) (\<lambda>port.
                    Inr (transportAddressBlockNew IPPROTO_SCTP port 0 [SourceAddress m] 1 1, m))
      | None \<Rightarrow> bindR (getPort (gLogLevel m) (SourceAddress m)) (\<lambda>port.
                    Inr (transportAddressBlockNew IPPROTO_SCTP port 0 [SourceAddress m] 1 1, m)))"

definition scanServerAnnounceMessage :: "bool cfun" where
  "scanServerAnnounceMessage =
     stmts [scanRegistrarIdentifier,
            bindC (\<lambda>m. scanAnnouncedTransports (Suc (BufferSize m)) None m) (\<lambda>block.
            bindC (announcedTransport block) (\<lambda>transportAddressBlock.
            bindC scanServerInformationParameter (\<lambda>node.
            case node of
              Some n \<Rightarrow> (\<lambda>m. Inr (True, m\<lparr>PeerListNodePtr := Some n\<rparr>))
            | None \<Rightarrow> (\<lambda>m.
                if gMemory m
                then Inr (True, m\<lparr>PeerListNodePtr :=
                       Some (peerListNodeNew (RegistrarIdentifier m) PLNF_DYNAMIC
                               (Some transportAddressBlock))\<rparr>)
                else failWith RSPERR_OUT_OF_MEMORY False (m\<lparr>PeerListNodePtr := None\<rparr>)))))]"

definition scanCookieMessage :: "bool cfun" where
  "scanCookieMessage = stmts [scanCookieParameter]"

definition scanCookieEchoMessage :: "bool cfun" where
  "scanCookieEchoMessage = stmts [scanCookieParameter]"

text \<open>
  The two nested loops of \<open>scanBusinessCardMessage\<close> have the same condition, so they are one;
  it does not stop at an element that cannot be parsed.
\<close>

primrec scanCardElements :: "nat \<Rightarrow> bool cfun" where
  "scanCardElements 0 = (\<lambda>m. Inl NoFuel)"
| "scanCardElements (Suc fuel) = (\<lambda>m.
      if Position m < BufferSize m then
        if PoolElementPtrArraySize m \<ge> MAX_MAX_HANDLE_RESOLUTION_ITEMS then Inr (False, m)
        else
          bindC (scanPoolElementParameter False False) (\<lambda>pe m1.
            scanCardElements fuel
              (m1\<lparr>PoolElementPtrArray := (PoolElementPtrArray m1)[PoolElementPtrArraySize m1 := pe],
                  PoolElementPtrArraySize := PoolElementPtrArraySize m1 + 1\<rparr>)) m
      else Inr (True, m))"

definition scanBusinessCardMessage :: "bool cfun" where
  "scanBusinessCardMessage =
     stmts [scanPoolHandleParameter, scanPoolHandleParameter, scanOwnPolicy,
            (\<lambda>m. scanCardElements (Suc MAX_MAX_HANDLE_RESOLUTION_ITEMS)
                   (m\<lparr>PoolElementPtrArraySize := 0\<rparr>)),
            (\<lambda>m. if PoolElementPtrArraySize m < 1 then failWith RSPERR_INVALID_VALUE False m
                 else Inr (True, m))]"

text \<open>\<^verbatim>\<open>message->PeerListNodePtr = scanServerInformationParameter(message); if(... == NULL) return(false);\<close>\<close>

definition scanOwnServerInformation :: "bool cfun" where
  "scanOwnServerInformation =
     bindC scanServerInformationParameter (\<lambda>n m. Inr (n \<noteq> None, m\<lparr>PeerListNodePtr := n\<rparr>))"

definition scanPresenceMessage :: "bool cfun" where
  "scanPresenceMessage =
     stmts [scanServerParameter, scanHandlespaceChecksumParameter, scanOwnServerInformation]"

definition scanListRequestMessage :: "bool cfun" where
  "scanListRequestMessage = stmts [scanServerParameter]"

definition scanHandleTableRequestMessage :: "bool cfun" where
  "scanHandleTableRequestMessage = stmts [scanServerParameter]"

definition scanHandleUpdateMessage :: "bool cfun" where
  "scanHandleUpdateMessage =
     stmts [bindC (takeSpace 12) (\<lambda>r. case r of
              None \<Rightarrow> failWith RSPERR_INVALID_VALUE False
            | Some pnup \<Rightarrow> (\<lambda>m. Inr (True, m\<lparr>SenderID := ntohl_at 0 pnup, ReceiverID := ntohl_at 4 pnup,
                                               Action := ntohs_at 8 pnup\<rparr>))),
            scanPoolHandleParameter,
            bindC (scanPoolElementParameter True True) (\<lambda>pe.
            bindC (modifyC (\<lambda>m. m\<lparr>PoolElementPtr := pe\<rparr>)) (\<lambda>_.
            case pe of
              None \<Rightarrow> returnC False
            | Some e \<Rightarrow> if pen_RegistratorTransport e = None
                        then failWith RSPERR_INVALID_REGISTRATOR False
                        else returnC True))]"

definition scanInitTakeoverMessage :: "bool cfun" where
  "scanInitTakeoverMessage = stmts [scanTargetParameter]"

definition scanInitTakeoverAckMessage :: "bool cfun" where
  "scanInitTakeoverAckMessage = stmts [scanTargetParameter]"

definition scanTakeoverServerMessage :: "bool cfun" where
  "scanTakeoverServerMessage = stmts [scanTargetParameter]"

definition scanENRPErrorMessage :: "bool cfun" where
  "scanENRPErrorMessage = stmts [scanServerParameter, scanErrorParameter]"

definition scanASAPErrorMessage :: "bool cfun" where
  "scanASAPErrorMessage = stmts [scanErrorParameter]"

end
