(* ===== verification/RSP_Policy.thy ===== *)
theory RSP_Policy
  imports RSP_Nodes Complex_Main
begin

text \<open>
  The pool policies (poolpolicy-template_impl.h): for every policy the sorting order of the
  pool elements, the update of a pool element when it is selected or linked, and the table
  \<open>PoolPolicyArray\<close>. Pointers to functions that work on a whole pool are values of a
  datatype; the functions they stand for are in the theory of the pool node.
\<close>

section \<open>Sums and fractions\<close>

definition getSum :: "u32 \<Rightarrow> u32 \<Rightarrow> u32 \<Rightarrow> u32" where
  "getSum v1 v2 v3 =
     (let v = uint v1 + uint v2 + uint v3 in
      if v < 0 then 0
      else if v > uint PPV_MAX_LOAD then PPV_MAX_LOAD
      else word_of_int v)"

definition getValueFraction :: "u32 \<Rightarrow> u32 \<Rightarrow> u32 \<Rightarrow> u32 \<Rightarrow> u64" where
  "getValueFraction base v1 v2 v3 =
     (let v = uint base - uint v1 - uint v2 - uint v3 in
      if v < 1 then 1
      else if v > uint PPV_MAX_WEIGHT then ucast PPV_MAX_WEIGHT
      else word_of_int v)"

section \<open>Floating point\<close>

text \<open>
  The distance penalty policies compute in \<^verbatim>\<open>double\<close>. A \<^verbatim>\<open>double\<close> is the
  rational number it stands for; every operation rounds its exact result to the nearest one
  with a 53 bit significand, ties to even. The values of the code are 0 or between \<open>2\<^sup>-\<^sup>3\<^sup>3\<close>
  and \<open>2\<^sup>6\<^sup>6\<close>, so that there is no underflow or overflow and 200 steps normalise each of them.
\<close>

definition rint :: "rat \<Rightarrow> int" where
  "rint x =
     (let f = \<lfloor>x\<rfloor>; d = x - of_int f in
      if d < 1 / 2 then f
      else if d > 1 / 2 then f + 1
      else if even f then f else f + 1)"

primrec normalize :: "nat \<Rightarrow> rat \<Rightarrow> int \<Rightarrow> rat \<times> int" where
  "normalize 0 x e = (x, e)"
| "normalize (Suc fuel) x e =
     (if x \<ge> 2 ^ 53 then normalize fuel (x / 2) (e + 1)
      else if x < 2 ^ 52 then normalize fuel (x * 2) (e - 1)
      else (x, e))"

definition double :: "rat \<Rightarrow> rat" where
  "double x =
     (if x \<le> 0 then 0
      else let (y, e) = normalize 200 x 0 in
           if e \<ge> 0 then of_int (rint y) * 2 ^ nat e else of_int (rint y) / 2 ^ nat (- e))"

definition ofUnsigned :: "u32 \<Rightarrow> rat" where
  "ofUnsigned w = of_int (uint w)"

text \<open>\<^verbatim>\<open>(double)distance * ((double)factor / (double)0xffffffff)\<close>\<close>

definition distancePenalty :: "u32 \<Rightarrow> u32 \<Rightarrow> rat" where
  "distancePenalty distance factor =
     double (ofUnsigned distance * double (ofUnsigned factor / ofUnsigned 0xffffffff))"

text \<open>
  A load with penalty: the summands are added from the left, the sum is rounded by
  \<^verbatim>\<open>rint\<close>, converted to \<^verbatim>\<open>unsigned long long\<close> and limited. The conversion of
  \<open>2\<^sup>6\<^sup>4\<close> or more, which only distances near \<open>2\<^sup>3\<^sup>2\<close> give, is undefined in C; it wraps here.
\<close>

definition limitedLoad :: "u32 list \<Rightarrow> rat \<Rightarrow> u64" where
  "limitedLoad loads dpf =
     (let total = double (foldl (\<lambda>s v. double (s + ofUnsigned v)) 0 loads
                          + double (dpf * ofUnsigned PPV_MAX_LOAD));
          v = (word_of_int (rint total) :: u64)
      in if v > ucast PPV_MAX_LOAD then ucast PPV_MAX_LOAD else v)"

section \<open>Sorting orders\<close>

text \<open>\<^verbatim>\<open>COMPARE_KEY_ASCENDING\<close> is \<open>cmp_key\<close>, \<^verbatim>\<open>COMPARE_KEY_DESCENDING\<close> has its arguments swapped.\<close>

definition roundRobinComparison :: "PoolElementNode \<Rightarrow> PoolElementNode \<Rightarrow> int" where
  "roundRobinComparison a b = cmp_key (pen_SeqNumber a) (pen_SeqNumber b) 0"

definition weightedRoundRobinComparison :: "PoolElementNode \<Rightarrow> PoolElementNode \<Rightarrow> int" where
  "weightedRoundRobinComparison a b =
     cmp_key (pen_RoundCounter a) (pen_RoundCounter b)
    (cmp_key (pen_VirtualCounter a) (pen_VirtualCounter b)
    (cmp_key (pen_SeqNumber a) (pen_SeqNumber b) 0))"

definition randomComparison :: "PoolElementNode \<Rightarrow> PoolElementNode \<Rightarrow> int" where
  "randomComparison a b = cmp_key (pen_Identifier a) (pen_Identifier b) 0"

definition weightedRandomComparison :: "PoolElementNode \<Rightarrow> PoolElementNode \<Rightarrow> int" where
  "weightedRandomComparison a b = cmp_key (pen_Identifier a) (pen_Identifier b) 0"

definition weightedRandomDPFComparison :: "PoolElementNode \<Rightarrow> PoolElementNode \<Rightarrow> int" where
  "weightedRandomDPFComparison a b = cmp_key (pen_Identifier a) (pen_Identifier b) 0"

definition priorityComparison :: "PoolElementNode \<Rightarrow> PoolElementNode \<Rightarrow> int" where
  "priorityComparison a b =
     cmp_key (pps_Weight (pen_PolicySettings b)) (pps_Weight (pen_PolicySettings a))
    (cmp_key (pen_SeqNumber a) (pen_SeqNumber b) 0)"

definition leastUsedComparison :: "PoolElementNode \<Rightarrow> PoolElementNode \<Rightarrow> int" where
  "leastUsedComparison a b =
     cmp_key (pps_Load (pen_PolicySettings a)) (pps_Load (pen_PolicySettings b))
    (cmp_key (pen_SeqNumber a) (pen_SeqNumber b) 0)"

definition penaltyOf :: "PoolElementNode \<Rightarrow> rat" where
  "penaltyOf a = distancePenalty (pps_Distance (pen_PolicySettings a)) (pps_LoadDPF (pen_PolicySettings a))"

definition leastUsedDPFComparison :: "PoolElementNode \<Rightarrow> PoolElementNode \<Rightarrow> int" where
  "leastUsedDPFComparison a b =
     (let v = (\<lambda>n. limitedLoad [pps_Load (pen_PolicySettings n)] (penaltyOf n)) in
      cmp_key (v a) (v b) (cmp_key (pen_SeqNumber a) (pen_SeqNumber b) 0))"

definition priorityLeastUsedDPFComparison :: "PoolElementNode \<Rightarrow> PoolElementNode \<Rightarrow> int" where
  "priorityLeastUsedDPFComparison a b =
     (let v = (\<lambda>n. limitedLoad [pps_Load (pen_PolicySettings n), pps_LoadDegradation (pen_PolicySettings n)]
                     (penaltyOf n)) in
      cmp_key (v a) (v b) (cmp_key (pen_SeqNumber a) (pen_SeqNumber b) 0))"

definition leastUsedDegradationComparison :: "PoolElementNode \<Rightarrow> PoolElementNode \<Rightarrow> int" where
  "leastUsedDegradationComparison a b =
     (let v = (\<lambda>n. getSum (pps_Load (pen_PolicySettings n)) (pen_Degradation n) 0) in
      cmp_key (v a) (v b) (cmp_key (pen_SeqNumber a) (pen_SeqNumber b) 0))"

text \<open>
  Here and in \<open>priorityLeastUsedDegradationDPFComparison\<close> the code scales the penalty of the
  first node by \<^verbatim>\<open>PPV_MAX_LOADDPF\<close> and that of the second one by \<^verbatim>\<open>PPV_MAX_LOAD\<close>,
  which are the same number.
\<close>

definition leastUsedDegradationDPFComparison :: "PoolElementNode \<Rightarrow> PoolElementNode \<Rightarrow> int" where
  "leastUsedDegradationDPFComparison a b =
     (let v = (\<lambda>n. limitedLoad [pps_Load (pen_PolicySettings n), pen_Degradation n] (penaltyOf n)) in
      cmp_key (v a) (v b) (cmp_key (pen_SeqNumber a) (pen_SeqNumber b) 0))"

definition priorityLeastUsedComparison :: "PoolElementNode \<Rightarrow> PoolElementNode \<Rightarrow> int" where
  "priorityLeastUsedComparison a b =
     (let v = (\<lambda>n. getSum (pps_Load (pen_PolicySettings n)) (pps_LoadDegradation (pen_PolicySettings n)) 0) in
      cmp_key (v a) (v b) (cmp_key (pen_SeqNumber a) (pen_SeqNumber b) 0))"

definition priorityLeastUsedDegradationComparison :: "PoolElementNode \<Rightarrow> PoolElementNode \<Rightarrow> int" where
  "priorityLeastUsedDegradationComparison a b =
     (let v = (\<lambda>n. getSum (pps_Load (pen_PolicySettings n)) (pps_LoadDegradation (pen_PolicySettings n))
                     (pen_Degradation n)) in
      cmp_key (v a) (v b) (cmp_key (pen_SeqNumber a) (pen_SeqNumber b) 0))"

definition priorityLeastUsedDegradationDPFComparison :: "PoolElementNode \<Rightarrow> PoolElementNode \<Rightarrow> int" where
  "priorityLeastUsedDegradationDPFComparison a b =
     (let v = (\<lambda>n. limitedLoad [pps_Load (pen_PolicySettings n), pps_LoadDegradation (pen_PolicySettings n),
                       pen_Degradation n] (penaltyOf n)) in
      cmp_key (v a) (v b) (cmp_key (pen_SeqNumber a) (pen_SeqNumber b) 0))"

definition randomizedLeastUsedComparison :: "PoolElementNode \<Rightarrow> PoolElementNode \<Rightarrow> int" where
  "randomizedLeastUsedComparison a b = cmp_key (pen_Identifier a) (pen_Identifier b) 0"

definition randomizedLeastUsedDegradationComparison :: "PoolElementNode \<Rightarrow> PoolElementNode \<Rightarrow> int" where
  "randomizedLeastUsedDegradationComparison a b = cmp_key (pen_Identifier a) (pen_Identifier b) 0"

definition randomizedPriorityLeastUsedComparison :: "PoolElementNode \<Rightarrow> PoolElementNode \<Rightarrow> int" where
  "randomizedPriorityLeastUsedComparison a b = cmp_key (pen_Identifier a) (pen_Identifier b) 0"

definition randomizedPriorityLeastUsedDegradationComparison :: "PoolElementNode \<Rightarrow> PoolElementNode \<Rightarrow> int" where
  "randomizedPriorityLeastUsedDegradationComparison a b = cmp_key (pen_Identifier a) (pen_Identifier b) 0"

section \<open>Updates\<close>

definition weightedRoundRobinUpdatePoolElementNode :: "PoolElementNode \<Rightarrow> PoolElementNode" where
  "weightedRoundRobinUpdatePoolElementNode n =
     (if pen_VirtualCounter n > 1 then n\<lparr>pen_VirtualCounter := pen_VirtualCounter n - 1\<rparr>
      else n\<lparr>pen_RoundCounter := pen_RoundCounter n + 1,
             pen_VirtualCounter := pps_Weight (pen_PolicySettings n)\<rparr>)"

definition randomUpdatePoolElementNode :: "PoolElementNode \<Rightarrow> PoolElementNode" where
  "randomUpdatePoolElementNode n = n\<lparr>pen_SelectionValue := 1\<rparr>"

definition weightedRandomUpdatePoolElementNode :: "PoolElementNode \<Rightarrow> PoolElementNode" where
  "weightedRandomUpdatePoolElementNode n =
     n\<lparr>pen_SelectionValue := ucast (pps_Weight (pen_PolicySettings n))\<rparr>"

definition weightedRandomDPFUpdatePoolElementNode :: "PoolElementNode \<Rightarrow> PoolElementNode" where
  "weightedRandomDPFUpdatePoolElementNode n =
     (let w = pps_Weight (pen_PolicySettings n);
          dpf = distancePenalty (pps_Distance (pen_PolicySettings n)) (pps_WeightDPF (pen_PolicySettings n));
          v = uint w - rint (double (ofUnsigned w * dpf));
          v' = (if v < 0 then 1
                else if v > uint PPV_MAX_WEIGHT then uint PPV_MAX_WEIGHT else v)
      in n\<lparr>pen_SelectionValue := ucast (word_of_int v' :: u32)\<rparr>)"

definition leastUsedDegradationUpdatePoolElementNode :: "PoolElementNode \<Rightarrow> PoolElementNode" where
  "leastUsedDegradationUpdatePoolElementNode n =
     n\<lparr>pen_Degradation := getSum (pen_Degradation n) (pps_LoadDegradation (pen_PolicySettings n)) 0\<rparr>"

definition randomizedLeastUsedUpdatePoolElementNode :: "PoolElementNode \<Rightarrow> PoolElementNode" where
  "randomizedLeastUsedUpdatePoolElementNode n =
     n\<lparr>pen_SelectionValue := getValueFraction PPV_MAX_LOAD (pps_Load (pen_PolicySettings n)) 0 0\<rparr>"

definition randomizedLeastUsedDegradationUpdatePoolElementNode :: "PoolElementNode \<Rightarrow> PoolElementNode" where
  "randomizedLeastUsedDegradationUpdatePoolElementNode n =
     n\<lparr>pen_SelectionValue :=
         getValueFraction PPV_MAX_LOAD (pps_Load (pen_PolicySettings n)) (pen_Degradation n) 0\<rparr>"

definition randomizedPriorityLeastUsedUpdatePoolElementNode :: "PoolElementNode \<Rightarrow> PoolElementNode" where
  "randomizedPriorityLeastUsedUpdatePoolElementNode n =
     n\<lparr>pen_SelectionValue := getValueFraction PPV_MAX_LOAD (pps_Load (pen_PolicySettings n))
         (pps_LoadDegradation (pen_PolicySettings n)) 0\<rparr>"

definition randomizedPriorityLeastUsedDegradationUpdatePoolElementNode :: "PoolElementNode \<Rightarrow> PoolElementNode" where
  "randomizedPriorityLeastUsedDegradationUpdatePoolElementNode n =
     n\<lparr>pen_SelectionValue := getValueFraction PPV_MAX_LOAD (pps_Load (pen_PolicySettings n))
         (pps_LoadDegradation (pen_PolicySettings n)) (pen_Degradation n)\<rparr>"

section \<open>The table of the policies\<close>

datatype SelectionFunction =
    poolPolicySelectPoolElementNodesBySortingOrder
  | poolPolicySelectPoolElementNodesByValueTree

datatype InitializeFunction = weightedRoundRobinInitializePoolElementNode

datatype PrepareFunction = weightedRoundRobinPrepareSelection

record PoolPolicy =
  pp_Type :: u32
  pp_Name :: string
  pp_DefaultMaxIncrement :: nat
  pp_ComparisonFunction :: "PoolElementNode \<Rightarrow> PoolElementNode \<Rightarrow> int"
  pp_SelectionFunction :: SelectionFunction
  pp_InitializePoolElementNodeFunction :: "InitializeFunction option"
  pp_UpdatePoolElementNodeFunction :: "(PoolElementNode \<Rightarrow> PoolElementNode) option"
  pp_PrepareSelectionFunction :: "PrepareFunction option"

definition policyEntry ::
  "u32 \<Rightarrow> string \<Rightarrow> nat \<Rightarrow> (PoolElementNode \<Rightarrow> PoolElementNode \<Rightarrow> int) \<Rightarrow> SelectionFunction
     \<Rightarrow> InitializeFunction option \<Rightarrow> (PoolElementNode \<Rightarrow> PoolElementNode) option \<Rightarrow> PrepareFunction option
     \<Rightarrow> PoolPolicy" where
  "policyEntry t n d c s i u p =
     \<lparr>pp_Type = t, pp_Name = n, pp_DefaultMaxIncrement = d, pp_ComparisonFunction = c,
      pp_SelectionFunction = s, pp_InitializePoolElementNodeFunction = i,
      pp_UpdatePoolElementNodeFunction = u, pp_PrepareSelectionFunction = p\<rparr>"

definition PoolPolicyArray :: "PoolPolicy list" where
  "PoolPolicyArray =
    [policyEntry PPT_ROUNDROBIN ''RoundRobin'' 1 roundRobinComparison
       poolPolicySelectPoolElementNodesBySortingOrder None None None,
     policyEntry PPT_WEIGHTED_ROUNDROBIN ''WeightedRoundRobin'' 1 weightedRoundRobinComparison
       poolPolicySelectPoolElementNodesBySortingOrder (Some weightedRoundRobinInitializePoolElementNode)
       (Some weightedRoundRobinUpdatePoolElementNode) (Some weightedRoundRobinPrepareSelection),
     policyEntry PPT_RANDOM ''Random'' 0 randomComparison
       poolPolicySelectPoolElementNodesByValueTree None (Some randomUpdatePoolElementNode) None,
     policyEntry PPT_WEIGHTED_RANDOM ''WeightedRandom'' 0 weightedRandomComparison
       poolPolicySelectPoolElementNodesByValueTree None (Some weightedRandomUpdatePoolElementNode) None,
     policyEntry PPT_WEIGHTED_RANDOM_DPF ''WeightedRandomDPF'' 0 weightedRandomDPFComparison
       poolPolicySelectPoolElementNodesByValueTree None (Some weightedRandomDPFUpdatePoolElementNode) None,
     policyEntry PPT_PRIORITY ''Priority'' 1 priorityComparison
       poolPolicySelectPoolElementNodesBySortingOrder None None None,
     policyEntry PPT_LEASTUSED ''LeastUsed'' 1 leastUsedComparison
       poolPolicySelectPoolElementNodesBySortingOrder None None None,
     policyEntry PPT_LEASTUSED_DPF ''LeastUsedDPF'' 1 leastUsedDPFComparison
       poolPolicySelectPoolElementNodesBySortingOrder None None None,
     policyEntry PPT_PRIORITY_LEASTUSED_DPF ''PriorityLeastUsedDPF'' 1 priorityLeastUsedDPFComparison
       poolPolicySelectPoolElementNodesBySortingOrder None None None,
     policyEntry PPT_PRIORITY_LEASTUSED_DEGRADATION_DPF ''PriorityLeastUsedDegradationDPF'' 1
       priorityLeastUsedDegradationDPFComparison poolPolicySelectPoolElementNodesBySortingOrder None
       (Some leastUsedDegradationUpdatePoolElementNode) None,
     policyEntry PPT_LEASTUSED_DEGRADATION ''LeastUsedDegradation'' 1 leastUsedDegradationComparison
       poolPolicySelectPoolElementNodesBySortingOrder None
       (Some leastUsedDegradationUpdatePoolElementNode) None,
     policyEntry PPT_LEASTUSED_DEGRADATION_DPF ''LeastUsedDegradationDPF'' 1
       leastUsedDegradationDPFComparison poolPolicySelectPoolElementNodesBySortingOrder None
       (Some leastUsedDegradationUpdatePoolElementNode) None,
     policyEntry PPT_PRIORITY_LEASTUSED ''PriorityLeastUsed'' 1 priorityLeastUsedComparison
       poolPolicySelectPoolElementNodesBySortingOrder None None None,
     policyEntry PPT_PRIORITY_LEASTUSED_DEGRADATION ''PriorityLeastUsedDegradation'' 1
       priorityLeastUsedDegradationComparison poolPolicySelectPoolElementNodesBySortingOrder None
       (Some leastUsedDegradationUpdatePoolElementNode) None,
     policyEntry PPT_RANDOMIZED_LEASTUSED ''RandomizedLeastUsed'' 1 randomizedLeastUsedComparison
       poolPolicySelectPoolElementNodesByValueTree None
       (Some randomizedLeastUsedUpdatePoolElementNode) None,
     policyEntry PPT_RANDOMIZED_LEASTUSED_DEGRADATION ''RandomizedLeastUsedDegradation'' 1
       randomizedLeastUsedDegradationComparison poolPolicySelectPoolElementNodesByValueTree None
       (Some randomizedLeastUsedDegradationUpdatePoolElementNode) None,
     policyEntry PPT_RANDOMIZED_PRIORITY_LEASTUSED ''RandomizedPriorityLeastUsed'' 1
       randomizedPriorityLeastUsedComparison poolPolicySelectPoolElementNodesByValueTree None
       (Some randomizedPriorityLeastUsedUpdatePoolElementNode) None,
     policyEntry PPT_RANDOMIZED_PRIORITY_LEASTUSED_DEGRADATION ''RandomizedPriorityLeastUsedDegradation'' 1
       randomizedPriorityLeastUsedDegradationComparison poolPolicySelectPoolElementNodesByValueTree None
       (Some randomizedPriorityLeastUsedDegradationUpdatePoolElementNode) None]"

definition poolPolicyGetPoolPolicyByName :: "string \<Rightarrow> PoolPolicy option" where
  "poolPolicyGetPoolPolicyByName policyName = List.find (\<lambda>p. pp_Name p = policyName) PoolPolicyArray"

definition poolPolicyGetPoolPolicyByType :: "u32 \<Rightarrow> PoolPolicy option" where
  "poolPolicyGetPoolPolicyByType policyType = List.find (\<lambda>p. pp_Type p = policyType) PoolPolicyArray"

section \<open>What the pools rely on\<close>

text \<open>
  The fields a sorting order looks at. The counters and time stamps of a node that is linked
  may be changed without moving it in the selection storage.
\<close>

definition sortingFields :: "PoolElementNode \<Rightarrow> u32 \<times> u32 \<times> u32 \<times> u32 \<times> PoolPolicySettings \<times> u32" where
  "sortingFields n = (pen_Identifier n, pen_SeqNumber n, pen_RoundCounter n, pen_VirtualCounter n,
     pen_PolicySettings n, pen_Degradation n)"

text \<open>
  The contract of a sorting order: it is a comparison, nodes of the same rank have the same
  sequence number or the same identifier, and giving new sequence numbers in the order of the
  nodes keeps the order.
\<close>

locale policy_order = comparator cmp for cmp :: "PoolElementNode \<Rightarrow> PoolElementNode \<Rightarrow> int" +
  assumes cmp_tie: "cmp a b = 0 \<Longrightarrow> pen_SeqNumber a = pen_SeqNumber b \<or> pen_Identifier a = pen_Identifier b"
    and cmp_resequence: "cmp a b < 0 \<Longrightarrow> s < t \<Longrightarrow> cmp (a\<lparr>pen_SeqNumber := s\<rparr>) (b\<lparr>pen_SeqNumber := t\<rparr>) < 0"
    and cmp_fields: "sortingFields a = sortingFields a' \<Longrightarrow> sortingFields b = sortingFields b' \<Longrightarrow> cmp a b = cmp a' b'"

text \<open>The orders by sequence number below another order, and the order by identifier.\<close>

definition thenBySeqNumber ::
  "(PoolElementNode \<Rightarrow> PoolElementNode \<Rightarrow> int) \<Rightarrow> PoolElementNode \<Rightarrow> PoolElementNode \<Rightarrow> int" where
  "thenBySeqNumber c a b = (if c a b = 0 then cmp_key (pen_SeqNumber a) (pen_SeqNumber b) 0 else c a b)"

lemma comparator_then:
  assumes c: "comparator c" and d: "comparator d"
  shows "comparator (\<lambda>a b. if c a b = 0 then d a b else c a b)"
proof unfold_locales
  fix x y
  show "(if c x y = 0 then d x y else c x y) < 0 \<longleftrightarrow> 0 < (if c y x = 0 then d y x else c y x)"
    using comparator.cmp_anti [OF c] comparator.cmp_anti [OF d] comparator.cmp_zero_sym [OF c, of x y] by auto
next
  fix x show "(if c x x = 0 then d x x else c x x) = 0"
    using comparator.cmp_refl [OF c] comparator.cmp_refl [OF d] by simp
next
  fix x y z
  assume xy: "(if c x y = 0 then d x y else c x y) \<le> 0" and yz: "(if c y z = 0 then d y z else c y z) \<le> 0"
  then have le: "c x y \<le> 0" "c y z \<le> 0" by (simp_all split: if_splits)
  consider "c x y = 0" "c y z = 0" | "c x z < 0"
    using comparator.cmp_le_less [OF c, of x y z] comparator.cmp_less_le [OF c, of x y z] le by linarith
  then show "(if c x z = 0 then d x z else c x z) \<le> 0"
    by cases (use xy yz comparator.cmp_zero_trans [OF c, of x y z] comparator.cmp_trans [OF d, of x y z] in simp_all)
qed

lemma comparator_seq: "comparator (\<lambda>a b. cmp_key (pen_SeqNumber a) (pen_SeqNumber b) 0)"
  by (rule comparator_key [OF comparator_trivial])

lemma policy_order_then:
  assumes "comparator c"
    and "\<And>a b s t. c (a\<lparr>pen_SeqNumber := s\<rparr>) (b\<lparr>pen_SeqNumber := t\<rparr>) = c a b"
    and "\<And>a a' b b'. sortingFields a = sortingFields a' \<Longrightarrow> sortingFields b = sortingFields b' \<Longrightarrow> c a b = c a' b'"
  shows "policy_order (thenBySeqNumber c)"
proof -
  have "comparator (thenBySeqNumber c)"
    unfolding thenBySeqNumber_def [abs_def] by (rule comparator_then [OF assms(1) comparator_seq])
  moreover have "policy_order_axioms (thenBySeqNumber c)"
  proof
    fix a b show "thenBySeqNumber c a b = 0 \<Longrightarrow> pen_SeqNumber a = pen_SeqNumber b \<or> pen_Identifier a = pen_Identifier b"
      by (auto simp: thenBySeqNumber_def cmp_key_def split: if_splits)
  next
    fix a b s t
    show "thenBySeqNumber c a b < 0 \<Longrightarrow> s < t \<Longrightarrow>
        thenBySeqNumber c (a\<lparr>pen_SeqNumber := s\<rparr>) (b\<lparr>pen_SeqNumber := t\<rparr>) < 0"
      by (auto simp: thenBySeqNumber_def assms(2))
  next
    fix a a' b b' assume f: "sortingFields a = sortingFields a'" "sortingFields b = sortingFields b'"
    then have "pen_SeqNumber a = pen_SeqNumber a'" "pen_SeqNumber b = pen_SeqNumber b'"
      by (simp_all add: sortingFields_def)
    then show "thenBySeqNumber c a b = thenBySeqNumber c a' b'"
      by (simp add: thenBySeqNumber_def assms(3) [OF f])
  qed
  ultimately show ?thesis by (simp add: policy_order_def)
qed

lemma policy_order_identifier: "policy_order (\<lambda>a b. cmp_key (pen_Identifier a) (pen_Identifier b) 0)"
  using comparator_key [OF comparator_trivial, of pen_Identifier]
  by (auto simp: policy_order_def policy_order_axioms_def cmp_key_def sortingFields_def split: if_splits)

text \<open>Each sorting order is one of the two kinds.\<close>

lemma cmp_key_split: "cmp_key a b r = (if cmp_key a b 0 = 0 then r else cmp_key a b 0)"
  by (simp add: cmp_key_def)

lemma comparator_key0: "comparator (\<lambda>a b. cmp_key (f a :: 'k::linorder) (f b) 0)"
  by (rule comparator_key [OF comparator_trivial])

lemma policy_order_key:
  assumes "\<And>n s. f (n\<lparr>pen_SeqNumber := s\<rparr>) = (f n :: 'k::linorder)"
    and "\<And>a a'. sortingFields a = sortingFields a' \<Longrightarrow> f a = f a'"
  shows "policy_order (\<lambda>a b. cmp_key (f a) (f b) (cmp_key (pen_SeqNumber a) (pen_SeqNumber b) 0))"
proof -
  have "policy_order (thenBySeqNumber (\<lambda>a b. cmp_key (f a) (f b) 0))"
    by (rule policy_order_then [OF comparator_key0]) (use assms in \<open>metis (no_types, lifting)\<close>)+
  moreover have "thenBySeqNumber (\<lambda>a b. cmp_key (f a) (f b) 0) =
      (\<lambda>a b. cmp_key (f a) (f b) (cmp_key (pen_SeqNumber a) (pen_SeqNumber b) 0))"
    by (intro ext) (simp add: thenBySeqNumber_def cmp_key_def)
  ultimately show ?thesis by simp
qed

lemma policy_order_weightedRoundRobin: "policy_order weightedRoundRobinComparison"
proof -
  let ?c = "\<lambda>a b. cmp_key (pen_RoundCounter a) (pen_RoundCounter b)
    (cmp_key (pen_VirtualCounter a) (pen_VirtualCounter b) 0)"
  have "policy_order (thenBySeqNumber ?c)"
    by (rule policy_order_then [OF comparator_key [OF comparator_key0]]) (simp_all add: sortingFields_def)
  moreover have "thenBySeqNumber ?c = weightedRoundRobinComparison"
    by (intro ext) (simp add: thenBySeqNumber_def weightedRoundRobinComparison_def cmp_key_def)
  ultimately show ?thesis by simp
qed

lemma policy_order_priority: "policy_order priorityComparison"
proof -
  let ?w = "\<lambda>n. pps_Weight (pen_PolicySettings n)"
  have "comparator (\<lambda>a b. cmp_key (?w b) (?w a) 0)"
    by unfold_locales (auto simp: cmp_key_def split: if_splits)
  then have "policy_order (thenBySeqNumber (\<lambda>a b. cmp_key (?w b) (?w a) 0))"
    by (rule policy_order_then) (simp_all add: sortingFields_def)
  moreover have "thenBySeqNumber (\<lambda>a b. cmp_key (?w b) (?w a) 0) = priorityComparison"
    by (intro ext) (simp add: thenBySeqNumber_def priorityComparison_def cmp_key_def)
  ultimately show ?thesis by simp
qed

lemma policy_order_roundRobin: "policy_order roundRobinComparison"
proof -
  have "policy_order (\<lambda>a b. cmp_key (0 :: u32) 0 (cmp_key (pen_SeqNumber a) (pen_SeqNumber b) 0))"
    by (rule policy_order_key) simp_all
  then show ?thesis by (simp add: roundRobinComparison_def [abs_def])
qed

lemmas identifier_orders = randomComparison_def [abs_def] weightedRandomComparison_def [abs_def]
  weightedRandomDPFComparison_def [abs_def] randomizedLeastUsedComparison_def [abs_def]
  randomizedLeastUsedDegradationComparison_def [abs_def] randomizedPriorityLeastUsedComparison_def [abs_def]
  randomizedPriorityLeastUsedDegradationComparison_def [abs_def]

lemmas load_orders = leastUsedComparison_def [abs_def] leastUsedDPFComparison_def [abs_def]
  priorityLeastUsedDPFComparison_def [abs_def] leastUsedDegradationComparison_def [abs_def]
  leastUsedDegradationDPFComparison_def [abs_def] priorityLeastUsedComparison_def [abs_def]
  priorityLeastUsedDegradationComparison_def [abs_def] priorityLeastUsedDegradationDPFComparison_def [abs_def]

lemma policy_order_load:
  "policy_order leastUsedComparison" "policy_order leastUsedDPFComparison"
  "policy_order priorityLeastUsedDPFComparison" "policy_order leastUsedDegradationComparison"
  "policy_order leastUsedDegradationDPFComparison" "policy_order priorityLeastUsedComparison"
  "policy_order priorityLeastUsedDegradationComparison"
  "policy_order priorityLeastUsedDegradationDPFComparison"
  unfolding load_orders Let_def
  by (rule policy_order_key; simp add: sortingFields_def penaltyOf_def)+

interpretation round_robin: policy_order roundRobinComparison
  by (rule policy_order_roundRobin)

interpretation weighted_round_robin: policy_order weightedRoundRobinComparison
  by (rule policy_order_weightedRoundRobin)

interpretation least_used: policy_order leastUsedComparison
  by (rule policy_order_load)

interpretation random: policy_order randomComparison
  unfolding randomComparison_def [abs_def] by (rule policy_order_identifier)

text \<open>Every policy of the table keeps the contract, and every policy is found under its type.\<close>

lemma policy_order_table: "p \<in> set PoolPolicyArray \<Longrightarrow> policy_order (pp_ComparisonFunction p)"
  using policy_order_load policy_order_roundRobin policy_order_weightedRoundRobin policy_order_priority
    policy_order_identifier
  by (auto simp: PoolPolicyArray_def policyEntry_def identifier_orders)

lemma find_distinct: "distinct (map f xs) \<Longrightarrow> p \<in> set xs \<Longrightarrow> List.find (\<lambda>q. f q = f p) xs = Some p"
  by (induction xs) auto

lemma PoolPolicyArray_distinct: "distinct (map pp_Type PoolPolicyArray)" "distinct (map pp_Name PoolPolicyArray)"
  by (simp_all add: PoolPolicyArray_def policyEntry_def)

lemma poolPolicyGetPoolPolicyByType_table:
  "p \<in> set PoolPolicyArray \<Longrightarrow> poolPolicyGetPoolPolicyByType (pp_Type p) = Some p"
  unfolding poolPolicyGetPoolPolicyByType_def by (rule find_distinct [OF PoolPolicyArray_distinct(1)])

lemma poolPolicyGetPoolPolicyByType_in:
  "poolPolicyGetPoolPolicyByType t = Some p \<Longrightarrow> p \<in> set PoolPolicyArray \<and> pp_Type p = t"
  unfolding poolPolicyGetPoolPolicyByType_def
  by (auto dest!: find_Some_iff [THEN iffD1])

text \<open>The update of a policy changes the counters of the policy only.\<close>

definition policyUpdate :: "PoolPolicy \<Rightarrow> PoolElementNode \<Rightarrow> PoolElementNode" where
  "policyUpdate p n = (case pp_UpdatePoolElementNodeFunction p of None \<Rightarrow> n | Some f \<Rightarrow> f n)"

lemmas update_defs = weightedRoundRobinUpdatePoolElementNode_def randomUpdatePoolElementNode_def
  weightedRandomUpdatePoolElementNode_def weightedRandomDPFUpdatePoolElementNode_def
  leastUsedDegradationUpdatePoolElementNode_def randomizedLeastUsedUpdatePoolElementNode_def
  randomizedLeastUsedDegradationUpdatePoolElementNode_def
  randomizedPriorityLeastUsedUpdatePoolElementNode_def
  randomizedPriorityLeastUsedDegradationUpdatePoolElementNode_def

lemma policyUpdate_simps:
  assumes "p \<in> set PoolPolicyArray"
  shows "pen_Identifier (policyUpdate p n) = pen_Identifier n"
    "pen_SeqNumber (policyUpdate p n) = pen_SeqNumber n"
    "pen_PolicySettings (policyUpdate p n) = pen_PolicySettings n"
    "pen_Flags (policyUpdate p n) = pen_Flags n"
    "pen_UserTransport (policyUpdate p n) = pen_UserTransport n"
    "pen_RegistratorTransport (policyUpdate p n) = pen_RegistratorTransport n"
    "pen_HomeRegistrarIdentifier (policyUpdate p n) = pen_HomeRegistrarIdentifier n"
    "pen_Checksum (policyUpdate p n) = pen_Checksum n"
    "pen_TimerTimeStamp (policyUpdate p n) = pen_TimerTimeStamp n"
    "pen_ConnectionSocketDescriptor (policyUpdate p n) = pen_ConnectionSocketDescriptor n"
    "pen_ConnectionAssocID (policyUpdate p n) = pen_ConnectionAssocID n"
  using assms by (auto simp: PoolPolicyArray_def policyEntry_def policyUpdate_def update_defs Let_def)

end
