(* ===== verification/RSP_Tree.thy ===== *)
theory RSP_Tree
  imports RSP_Types
begin

text \<open>
  The red-black tree (redblacktree.h, redblacktree_impl.h) under all storages of the
  registrar, in the variant without leaf linking. Nodes carry a value, and every node the
  sum of the values of its subtree, by which pool elements are drawn at random.

  The tree is a datatype; a pointer to a node is the subtree at it together with the path
  of the frames above it, so that following \<open>Parent\<close> is taking the first frame off the path.
  The comparison function of the tree is an argument. The key of a node is its element.
\<close>

section \<open>Nodes and paths\<close>

datatype Color = Red | Black

lemma not_Red [simp]: "c \<noteq> Red \<longleftrightarrow> c = Black"
  by (cases c) simp_all

datatype 'a tree =
    NullNode
  | Node Color "'a tree" 'a u64 u64 "'a tree"

fun ColorOf :: "'a tree \<Rightarrow> Color" where
  "ColorOf NullNode = Black"
| "ColorOf (Node c l x v s r) = c"

fun ValueSum :: "'a tree \<Rightarrow> u64" where
  "ValueSum NullNode = 0"
| "ValueSum (Node c l x v s r) = s"

fun setColor :: "Color \<Rightarrow> 'a tree \<Rightarrow> 'a tree" where
  "setColor c NullNode = NullNode"
| "setColor c (Node c' l x v s r) = Node c l x v s r"

text \<open>
  A frame is a node without one of its subtrees: \<open>AtLeft\<close> when the focus is its left
  subtree, \<open>AtRight\<close> when it is the right one. The last argument is the other subtree.
\<close>

datatype 'a frame =
    AtLeft Color 'a u64 u64 "'a tree"
  | AtRight Color 'a u64 u64 "'a tree"

fun frameColor :: "'a frame \<Rightarrow> Color" where
  "frameColor (AtLeft c x v s r) = c"
| "frameColor (AtRight c x v s l) = c"

fun frameSetColor :: "Color \<Rightarrow> 'a frame \<Rightarrow> 'a frame" where
  "frameSetColor c (AtLeft c' x v s r) = AtLeft c x v s r"
| "frameSetColor c (AtRight c' x v s l) = AtRight c x v s l"

fun fill :: "'a frame \<Rightarrow> 'a tree \<Rightarrow> 'a tree" where
  "fill (AtLeft c x v s r) t = Node c t x v s r"
| "fill (AtRight c x v s l) t = Node c l x v s t"

fun plug :: "'a tree \<Rightarrow> 'a frame list \<Rightarrow> 'a tree" where
  "plug t [] = t"
| "plug t (f # p) = plug (fill f t) p"

record 'a RedBlackTree =
  rbt_Root :: "'a tree"
  rbt_Elements :: nat

definition RedBlackTreeNew :: "'a RedBlackTree" where
  "RedBlackTreeNew = \<lparr>rbt_Root = NullNode, rbt_Elements = 0\<rparr>"

section \<open>Value sums\<close>

fun RedBlackTreeUpdateValueSum :: "'a tree \<Rightarrow> 'a tree" where
  "RedBlackTreeUpdateValueSum NullNode = NullNode"
| "RedBlackTreeUpdateValueSum (Node c l x v s r) = Node c l x v (ValueSum l + v + ValueSum r) r"

text \<open>The nodes on the path are updated from the focus, whose sum is \<open>s\<close>, up to the root.\<close>

fun RedBlackTreeUpdateValueSumsUpToRoot :: "u64 \<Rightarrow> 'a frame list \<Rightarrow> 'a frame list" where
  "RedBlackTreeUpdateValueSumsUpToRoot s [] = []"
| "RedBlackTreeUpdateValueSumsUpToRoot s (AtLeft c x v s' r # p) =
     AtLeft c x v (s + v + ValueSum r) r # RedBlackTreeUpdateValueSumsUpToRoot (s + v + ValueSum r) p"
| "RedBlackTreeUpdateValueSumsUpToRoot s (AtRight c x v s' l # p) =
     AtRight c x v (ValueSum l + v + s) l # RedBlackTreeUpdateValueSumsUpToRoot (ValueSum l + v + s) p"

definition RedBlackTreeGetValueSum :: "'a RedBlackTree \<Rightarrow> u64" where
  "RedBlackTreeGetValueSum rbt = ValueSum (rbt_Root rbt)"

section \<open>Searching\<close>

definition RedBlackTreeIsEmpty :: "'a RedBlackTree \<Rightarrow> bool" where
  "RedBlackTreeIsEmpty rbt \<longleftrightarrow> (case rbt_Root rbt of NullNode \<Rightarrow> True | Node c l x v s r \<Rightarrow> False)"

definition RedBlackTreeGetElements :: "'a RedBlackTree \<Rightarrow> nat" where
  "RedBlackTreeGetElements rbt = rbt_Elements rbt"

text \<open>\<^verbatim>\<open>while(node->LeftSubtree != &rbt->NullNode) node = node->LeftSubtree;\<close> and its mirror image.\<close>

fun leftmost :: "'a tree \<Rightarrow> 'a option" where
  "leftmost NullNode = None"
| "leftmost (Node c l x v s r) = (case l of NullNode \<Rightarrow> Some x | Node _ _ _ _ _ _ \<Rightarrow> leftmost l)"

fun rightmost :: "'a tree \<Rightarrow> 'a option" where
  "rightmost NullNode = None"
| "rightmost (Node c l x v s r) = (case r of NullNode \<Rightarrow> Some x | Node _ _ _ _ _ _ \<Rightarrow> rightmost r)"

definition RedBlackTreeGetFirst :: "'a RedBlackTree \<Rightarrow> 'a option" where
  "RedBlackTreeGetFirst rbt = leftmost (rbt_Root rbt)"

definition RedBlackTreeGetLast :: "'a RedBlackTree \<Rightarrow> 'a option" where
  "RedBlackTreeGetLast rbt = rightmost (rbt_Root rbt)"

text \<open>Going up while the focus is a left (right) subtree; the node reached, if any.\<close>

fun upFromLeft :: "'a frame list \<Rightarrow> 'a option" where
  "upFromLeft [] = None"
| "upFromLeft (AtLeft c x v s r # p) = upFromLeft p"
| "upFromLeft (AtRight c x v s l # p) = Some x"

fun upFromRight :: "'a frame list \<Rightarrow> 'a option" where
  "upFromRight [] = None"
| "upFromRight (AtRight c x v s l # p) = upFromRight p"
| "upFromRight (AtLeft c x v s r # p) = Some x"

text \<open>The previous and the next node of a node with the given subtrees and path.\<close>

definition RedBlackTreeInternalFindPrev :: "'a tree \<Rightarrow> 'a frame list \<Rightarrow> 'a option" where
  "RedBlackTreeInternalFindPrev l p =
     (case l of NullNode \<Rightarrow> upFromLeft p | Node _ _ _ _ _ _ \<Rightarrow> rightmost l)"

definition RedBlackTreeInternalFindNext :: "'a tree \<Rightarrow> 'a frame list \<Rightarrow> 'a option" where
  "RedBlackTreeInternalFindNext r p =
     (case r of NullNode \<Rightarrow> upFromRight p | Node _ _ _ _ _ _ \<Rightarrow> leftmost r)"

text \<open>
  The descent by comparison that insertion and search share: the subtree at the node with
  an equal key, or \<open>NullNode\<close>, and the path to it.
\<close>

fun descend :: "('a \<Rightarrow> 'a \<Rightarrow> int) \<Rightarrow> 'a \<Rightarrow> 'a tree \<Rightarrow> 'a frame list \<Rightarrow> 'a tree \<times> 'a frame list" where
  "descend cmp k NullNode p = (NullNode, p)"
| "descend cmp k (Node c l x v s r) p =
     (let cmpResult = cmp k x in
      if cmpResult < 0 then descend cmp k l (AtLeft c x v s r # p)
      else if cmpResult > 0 then descend cmp k r (AtRight c x v s l # p)
      else (Node c l x v s r, p))"

definition RedBlackTreeFind :: "('a \<Rightarrow> 'a \<Rightarrow> int) \<Rightarrow> 'a RedBlackTree \<Rightarrow> 'a \<Rightarrow> 'a option" where
  "RedBlackTreeFind cmp rbt cmpNode =
     (case fst (descend cmp cmpNode (rbt_Root rbt) []) of
        NullNode \<Rightarrow> None
      | Node c l x v s r \<Rightarrow> Some x)"

text \<open>The neighbours of a node of the tree, which is found by its key here.\<close>

definition RedBlackTreeGetPrev :: "('a \<Rightarrow> 'a \<Rightarrow> int) \<Rightarrow> 'a RedBlackTree \<Rightarrow> 'a \<Rightarrow> 'a option" where
  "RedBlackTreeGetPrev cmp rbt node =
     (case descend cmp node (rbt_Root rbt) [] of
        (NullNode, p) \<Rightarrow> None
      | (Node c l x v s r, p) \<Rightarrow> RedBlackTreeInternalFindPrev l p)"

definition RedBlackTreeGetNext :: "('a \<Rightarrow> 'a \<Rightarrow> int) \<Rightarrow> 'a RedBlackTree \<Rightarrow> 'a \<Rightarrow> 'a option" where
  "RedBlackTreeGetNext cmp rbt node =
     (case descend cmp node (rbt_Root rbt) [] of
        (NullNode, p) \<Rightarrow> None
      | (Node c l x v s r, p) \<Rightarrow> RedBlackTreeInternalFindNext r p)"

text \<open>
  The nearest neighbours of a key that need not be in the tree. The search ends below a
  parent: the parent itself is the neighbour on one side, and on the other one the first
  ancestor on that side, since the subtree of the parent in the direction of the search is empty.
\<close>

definition RedBlackTreeGetNearestPrev :: "('a \<Rightarrow> 'a \<Rightarrow> int) \<Rightarrow> 'a RedBlackTree \<Rightarrow> 'a \<Rightarrow> 'a option" where
  "RedBlackTreeGetNearestPrev cmp rbt cmpNode =
     (case descend cmp cmpNode (rbt_Root rbt) [] of
        (Node c l x v s r, p) \<Rightarrow> RedBlackTreeInternalFindPrev l p
      | (NullNode, []) \<Rightarrow> None
      | (NullNode, AtRight c x v s l # p) \<Rightarrow> Some x
      | (NullNode, AtLeft c x v s r # p) \<Rightarrow> upFromLeft p)"

definition RedBlackTreeGetNearestNext :: "('a \<Rightarrow> 'a \<Rightarrow> int) \<Rightarrow> 'a RedBlackTree \<Rightarrow> 'a \<Rightarrow> 'a option" where
  "RedBlackTreeGetNearestNext cmp rbt cmpNode =
     (case descend cmp cmpNode (rbt_Root rbt) [] of
        (Node c l x v s r, p) \<Rightarrow> RedBlackTreeInternalFindNext r p
      | (NullNode, []) \<Rightarrow> None
      | (NullNode, AtLeft c x v s r # p) \<Rightarrow> Some x
      | (NullNode, AtRight c x v s l # p) \<Rightarrow> upFromRight p)"

text \<open>The node at a position of the value scale; the outermost node when it is beyond the end.\<close>

fun getNodeByValue :: "'a tree \<Rightarrow> u64 \<Rightarrow> 'a option" where
  "getNodeByValue NullNode val = None"
| "getNodeByValue (Node c l x v s r) val =
     (if val < ValueSum l then
        (case l of NullNode \<Rightarrow> Some x | Node _ _ _ _ _ _ \<Rightarrow> getNodeByValue l val)
      else if val < ValueSum l + v then Some x
      else (case r of NullNode \<Rightarrow> Some x
            | Node _ _ _ _ _ _ \<Rightarrow> getNodeByValue r (val - (ValueSum l + v))))"

definition RedBlackTreeGetNodeByValue :: "'a RedBlackTree \<Rightarrow> u64 \<Rightarrow> 'a option" where
  "RedBlackTreeGetNodeByValue rbt val = getNodeByValue (rbt_Root rbt) val"

section \<open>Rotations\<close>

fun RedBlackTreeRotateLeft :: "'a tree \<Rightarrow> 'a tree" where
  "RedBlackTreeRotateLeft (Node c l x v s (Node c' l' x' v' s' r')) =
     RedBlackTreeUpdateValueSum
       (Node c' (RedBlackTreeUpdateValueSum (Node c l x v s l')) x' v' s' r')"
| "RedBlackTreeRotateLeft t = t"

fun RedBlackTreeRotateRight :: "'a tree \<Rightarrow> 'a tree" where
  "RedBlackTreeRotateRight (Node c (Node c' l' x' v' s' r') x v s r) =
     RedBlackTreeUpdateValueSum
       (Node c' l' x' v' s' (RedBlackTreeUpdateValueSum (Node c r' x v s r)))"
| "RedBlackTreeRotateRight t = t"

section \<open>Insertion\<close>

text \<open>
  The loop that restores the red-black properties above a red node. A red parent has a
  parent, since the root is black; the last equation is not reached.
\<close>

fun insertFixup :: "'a tree \<Rightarrow> 'a frame list \<Rightarrow> 'a tree" where
  "insertFixup node [] = node"
| "insertFixup node (parent # AtLeft gc gx gv gs uncle # p) =
     (if frameColor parent = Black then plug node (parent # AtLeft gc gx gv gs uncle # p)
      else if ColorOf uncle = Red then
        insertFixup
          (Node Red (fill (frameSetColor Black parent) node) gx gv gs (setColor Black uncle)) p
      else
        let subtree = (case parent of
                         AtRight _ _ _ _ _ \<Rightarrow> RedBlackTreeRotateLeft (fill parent node)
                       | AtLeft _ _ _ _ _ \<Rightarrow> fill parent node)
        in plug (RedBlackTreeRotateRight (Node Red (setColor Black subtree) gx gv gs uncle)) p)"
| "insertFixup node (parent # AtRight gc gx gv gs uncle # p) =
     (if frameColor parent = Black then plug node (parent # AtRight gc gx gv gs uncle # p)
      else if ColorOf uncle = Red then
        insertFixup
          (Node Red (setColor Black uncle) gx gv gs (fill (frameSetColor Black parent) node)) p
      else
        let subtree = (case parent of
                         AtLeft _ _ _ _ _ \<Rightarrow> RedBlackTreeRotateRight (fill parent node)
                       | AtRight _ _ _ _ _ \<Rightarrow> fill parent node)
        in plug (RedBlackTreeRotateLeft (Node Red uncle gx gv gs (setColor Black subtree))) p)"
| "insertFixup node [parent] = fill parent node"

text \<open>
  The result is the element in the tree: the new one, or the one that is already there
  under an equal key.
\<close>

definition RedBlackTreeInsert ::
  "('a \<Rightarrow> 'a \<Rightarrow> int) \<Rightarrow> 'a RedBlackTree \<Rightarrow> 'a \<Rightarrow> u64 \<Rightarrow> 'a \<times> 'a RedBlackTree" where
  "RedBlackTreeInsert cmp rbt node val =
     (case descend cmp node (rbt_Root rbt) [] of
        (Node c l x v s r, p) \<Rightarrow> (x, rbt)
      | (NullNode, p) \<Rightarrow>
          (node,
           \<lparr>rbt_Root = setColor Black
              (insertFixup (Node Red NullNode node val val NullNode)
                 (RedBlackTreeUpdateValueSumsUpToRoot val p)),
            rbt_Elements = rbt_Elements rbt + 1\<rparr>))"

section \<open>Removal\<close>

text \<open>The leftmost node of a subtree: its parts and the path to it.\<close>

fun splitLeftmost :: "'a tree \<Rightarrow> 'a frame list \<Rightarrow> (Color \<times> 'a \<times> u64 \<times> 'a tree \<times> 'a frame list) option" where
  "splitLeftmost NullNode p = None"
| "splitLeftmost (Node c l x v s r) p =
     (case l of
        NullNode \<Rightarrow> Some (c, x, v, r, p)
      | Node _ _ _ _ _ _ \<Rightarrow> splitLeftmost l (AtLeft c x v s r # p))"

text \<open>
  Unlinking a node that is given by its colour, its subtrees and its path: the colour that is
  lost, the child that takes the place of the unlinked node, and its path. A node with two
  subtrees is replaced by the next node, which takes over its colour; the value sums are
  updated from the next node and then from the old parent of the next node up to the root.
\<close>

definition unlinkNode ::
  "Color \<Rightarrow> 'a tree \<Rightarrow> 'a tree \<Rightarrow> 'a frame list \<Rightarrow> fault + (Color \<times> 'a tree \<times> 'a frame list)" where
  "unlinkNode c l r p =
     (if l \<noteq> NullNode \<and> r \<noteq> NullNode then
        (case splitLeftmost r [] of
           None \<Rightarrow> Inl CheckAbort
         | Some (nextColor, nx, nv, child, q) \<Rightarrow>
             let right = (if q = [] then child else r);
                 p1 = RedBlackTreeUpdateValueSumsUpToRoot (ValueSum right) (AtRight c nx nv 0 l # p)
             in Inr (nextColor, child, RedBlackTreeUpdateValueSumsUpToRoot (ValueSum child) (q @ p1)))
      else
        let child = (if l \<noteq> NullNode then l else r) in
        Inr (c, child, RedBlackTreeUpdateValueSumsUpToRoot (ValueSum child) p))"

text \<open>\<^verbatim>\<open>rbt->NullNode.LeftSubtree->Color = Red;\<close>, the mark that ends the loop at the root.\<close>

definition markRoot :: "'a tree \<Rightarrow> 'a frame list \<Rightarrow> 'a tree \<times> 'a frame list" where
  "markRoot t p = (if p = [] then (setColor Red t, []) else (t, butlast p @ [frameSetColor Red (last p)]))"

text \<open>
  The end of the loop body when one of the subtrees of the sister is red: rotations that end
  the loop. \<open>finishLeft\<close> is for a child on the left, the subtree of \<open>parent\<close> is the result.
\<close>

fun finishLeft :: "Color \<Rightarrow> 'a tree \<Rightarrow> 'a \<Rightarrow> u64 \<Rightarrow> u64 \<Rightarrow> 'a tree \<Rightarrow> fault + 'a tree" where
  "finishLeft pc child px pv ps (Node sc sl sx sv ss sr) =
     (let rotated = (if ColorOf sr = Black
                     then CHECK (ColorOf sl = Red) (\<lambda>_.
                            Inr (RedBlackTreeRotateRight (Node Red (setColor Black sl) sx sv ss sr)))
                     else Inr (Node sc sl sx sv ss sr))
      in bindR rotated (\<lambda>sister. case sister of
           NullNode \<Rightarrow> Inl CheckAbort
         | Node _ l2 x2 v2 s2 r2 \<Rightarrow>
             Inr (RedBlackTreeRotateLeft
                    (Node Black child px pv ps (Node pc l2 x2 v2 s2 (setColor Black r2))))))"
| "finishLeft pc child px pv ps NullNode = Inl CheckAbort"

fun finishRight :: "Color \<Rightarrow> 'a tree \<Rightarrow> 'a \<Rightarrow> u64 \<Rightarrow> u64 \<Rightarrow> 'a tree \<Rightarrow> fault + 'a tree" where
  "finishRight pc child px pv ps (Node sc sl sx sv ss sr) =
     (let rotated = (if ColorOf sl = Black
                     then CHECK (ColorOf sr = Red) (\<lambda>_.
                            Inr (RedBlackTreeRotateLeft (Node Red sl sx sv ss (setColor Black sr))))
                     else Inr (Node sc sl sx sv ss sr))
      in bindR rotated (\<lambda>sister. case sister of
           NullNode \<Rightarrow> Inl CheckAbort
         | Node _ l2 x2 v2 s2 r2 \<Rightarrow>
             Inr (RedBlackTreeRotateRight
                    (Node Black (Node pc (setColor Black l2) x2 v2 s2 r2) px pv ps child))))"
| "finishRight pc child px pv ps NullNode = Inl CheckAbort"

text \<open>Both subtrees of the sister are black.\<close>

fun blackNephews :: "'a tree \<Rightarrow> bool" where
  "blackNephews NullNode = True"
| "blackNephews (Node c l x v s r) \<longleftrightarrow> ColorOf l = Black \<and> ColorOf r = Black"

text \<open>
  A red sister is rotated up first: the parent comes below it, with the inner subtree of the
  sister as the new sister. The result is the frame of the parent and the path above it.
\<close>

fun raiseSister :: "'a frame \<Rightarrow> 'a tree \<Rightarrow> 'a frame list \<Rightarrow> fault + ('a frame \<times> 'a frame list)" where
  "raiseSister (AtLeft pc px pv ps (Node Red sl sx sv ss sr)) child p =
     CHECK (sl \<noteq> NullNode) (\<lambda>_.
     let s = ValueSum child + pv + ValueSum sl in
     Inr (AtLeft Red px pv s sl, AtLeft Black sx sv (s + sv + ValueSum sr) sr # p))"
| "raiseSister (AtRight pc px pv ps (Node Red sl sx sv ss sr)) child p =
     CHECK (sr \<noteq> NullNode) (\<lambda>_.
     let s = ValueSum sr + pv + ValueSum child in
     Inr (AtRight Red px pv s sr, AtRight Black sx sv (ValueSum sl + sv + s) sl # p))"
| "raiseSister f child p = Inr (f, p)"

fun sisterOf :: "'a frame \<Rightarrow> 'a tree" where
  "sisterOf (AtLeft c x v s r) = r"
| "sisterOf (AtRight c x v s l) = l"

fun frameSetSister :: "'a frame \<Rightarrow> 'a tree \<Rightarrow> 'a frame" where
  "frameSetSister (AtLeft c x v s r) t = AtLeft c x v s t"
| "frameSetSister (AtRight c x v s l) t = AtRight c x v s t"

fun finishRemove :: "'a frame \<Rightarrow> 'a tree \<Rightarrow> fault + 'a tree" where
  "finishRemove (AtLeft c x v s r) child = finishLeft c child x v s r"
| "finishRemove (AtRight c x v s l) child = finishRight c child x v s l"

text \<open>One pass of the loop body: the whole tree when the loop is left, else the next child.\<close>

datatype 'a pass = Done "'a tree" | Continue "'a tree" "'a frame list"

definition removePass :: "'a tree \<Rightarrow> 'a frame \<Rightarrow> 'a frame list \<Rightarrow> fault + 'a pass" where
  "removePass child parent0 p0 =
     CHECK (sisterOf parent0 \<noteq> NullNode) (\<lambda>_.
     bindR (raiseSister parent0 child p0) (\<lambda>(parent, p).
     if blackNephews (sisterOf parent)
     then Inr (Continue (fill (frameSetSister parent (setColor Red (sisterOf parent))) child) p)
     else bindR (finishRemove parent child) (\<lambda>t. Inr (Done (plug t p)))))"

text \<open>
  The loop. An empty path and \<open>NullNode\<close> are the empty tree, where the mark is on
  \<open>NullNode\<close> itself and the loop is not entered; at any other black node the check for
  the sister fails on an empty path.
\<close>

definition passMeasure :: "'a tree \<times> 'a frame list \<Rightarrow> nat" where
  "passMeasure = (\<lambda>(t, p). 2 * length p + (if ColorOf t = Black then 1 else 0))"

lemma removePass_measure:
  assumes "removePass child parent p = Inr (Continue t q)" and "ColorOf child = Black"
  shows "passMeasure (t, q) < passMeasure (child, parent # p)"
proof -
  obtain f where f: "raiseSister parent child p = Inr (f, q)"
    and t: "t = fill (frameSetSister f (setColor Red (sisterOf f))) child"
    using assms(1)
    by (auto simp: removePass_def CHECK_def bindR_eq_Inr_conv split: if_splits)
  have "(f = parent \<and> q = p) \<or> (frameColor f = Red \<and> length q = Suc (length p))"
    using f by (cases "(parent, child, p)" rule: raiseSister.cases)
               (auto simp: CHECK_def Let_def split: if_splits)
  moreover have "ColorOf t = frameColor f" using t by (cases f) simp_all
  ultimately show ?thesis using assms(2) by (auto simp: passMeasure_def)
qed

function (sequential) removeFixup :: "'a tree \<Rightarrow> 'a frame list \<Rightarrow> fault + 'a tree" where
  "removeFixup child p =
     (if ColorOf child = Red then Inr (plug (setColor Black child) p)
      else case p of
             [] \<Rightarrow> if child = NullNode then Inr NullNode else Inl CheckAbort
           | parent # q \<Rightarrow>
               bindR (removePass child parent q) (\<lambda>r. case r of
                   Done t \<Rightarrow> Inr t
                 | Continue t q' \<Rightarrow> removeFixup t q'))"
  by pat_completeness auto
termination
  by (relation "measure passMeasure") (auto intro!: removePass_measure)

declare removeFixup.simps [simp del]

text \<open>The node to be removed is a node of the tree; it is found by its key here.\<close>

definition RedBlackTreeRemove ::
  "('a \<Rightarrow> 'a \<Rightarrow> int) \<Rightarrow> 'a RedBlackTree \<Rightarrow> 'a \<Rightarrow> fault + 'a RedBlackTree" where
  "RedBlackTreeRemove cmp rbt node =
     (case descend cmp node (rbt_Root rbt) [] of
        (NullNode, p) \<Rightarrow> Inl CheckAbort
      | (Node c l x v s r, p) \<Rightarrow>
          bindR (unlinkNode c l r p) (\<lambda>(lost, child, p1).
          CHECK (rbt_Elements rbt > 0) (\<lambda>_.
          bindR (if lost = Black
                 then let (child', p2) = markRoot child p1 in
                      bindR (removeFixup child' p2) (\<lambda>t. Inr (setColor Black t))
                 else Inr (plug child p1)) (\<lambda>t.
          Inr \<lparr>rbt_Root = t, rbt_Elements = rbt_Elements rbt - 1\<rparr>))))"

section \<open>Verification\<close>

text \<open>
  The self test of the code, on a tree without parent pointers: the height and the number
  of nodes of a subtree.
\<close>

fun rootElement :: "'a tree \<Rightarrow> 'a option" where
  "rootElement NullNode = None"
| "rootElement (Node c l x v s r) = Some x"

fun RedBlackTreeInternalVerify :: "('a \<Rightarrow> 'a \<Rightarrow> int) \<Rightarrow> 'a tree \<Rightarrow> fault + (nat \<times> nat)" where
  "RedBlackTreeInternalVerify cmp NullNode = Inr (1, 0)"
| "RedBlackTreeInternalVerify cmp (Node c l x v s r) =
     CHECK (case rootElement l of None \<Rightarrow> True | Some y \<Rightarrow> cmp x y > 0) (\<lambda>_.
     CHECK (case rootElement r of None \<Rightarrow> True | Some y \<Rightarrow> cmp x y < 0) (\<lambda>_.
     CHECK (s = ValueSum l + v + ValueSum r) (\<lambda>_.
     bindR (RedBlackTreeInternalVerify cmp l) (\<lambda>(leftHeight, leftCount).
     bindR (RedBlackTreeInternalVerify cmp r) (\<lambda>(rightHeight, rightCount).
     CHECK (leftHeight \<noteq> 0 \<or> rightHeight \<noteq> 0) (\<lambda>_.
     CHECK (leftHeight = rightHeight) (\<lambda>_.
     let counter = leftCount + 1 + rightCount in
     if c = Red
     then CHECK (ColorOf l = Black) (\<lambda>_. CHECK (ColorOf r = Black) (\<lambda>_. Inr (leftHeight, counter)))
     else Inr (leftHeight + 1, counter))))))))"

definition RedBlackTreeVerify :: "('a \<Rightarrow> 'a \<Rightarrow> int) \<Rightarrow> 'a RedBlackTree \<Rightarrow> fault + unit" where
  "RedBlackTreeVerify cmp rbt =
     bindR (RedBlackTreeInternalVerify cmp (rbt_Root rbt)) (\<lambda>(height, counter).
     CHECK (height \<noteq> 0) (\<lambda>_.
     CHECK (counter = rbt_Elements rbt) (\<lambda>_. Inr ())))"

end
