(* ===== verification/RSP_TreeLaws.thy ===== *)
theory RSP_TreeLaws
  imports RSP_Tree
begin

text \<open>
  Correctness of the red-black tree: insertion and removal act on the sorted list of the
  entries of the tree, keep the red-black properties and the value sums, never fail a check
  of the code, and the searches return what the sorted list says. The clients use the tree
  through the interface \<open>storage\<close>.
\<close>

section \<open>Entries and sums\<close>

fun entries :: "'a tree \<Rightarrow> ('a \<times> u64) list" where
  "entries NullNode = []"
| "entries (Node c l x v s r) = entries l @ (x, v) # entries r"

fun sums :: "'a tree \<Rightarrow> bool" where
  "sums NullNode = True"
| "sums (Node c l x v s r) \<longleftrightarrow> s = ValueSum l + v + ValueSum r \<and> sums l \<and> sums r"

text \<open>The entries before and after the focus of a path.\<close>

fun before :: "'a frame list \<Rightarrow> ('a \<times> u64) list" where
  "before [] = []"
| "before (AtLeft c x v s r # p) = before p"
| "before (AtRight c x v s l # p) = before p @ entries l @ [(x, v)]"

fun after :: "'a frame list \<Rightarrow> ('a \<times> u64) list" where
  "after [] = []"
| "after (AtLeft c x v s r # p) = (x, v) # entries r @ after p"
| "after (AtRight c x v s l # p) = after p"

text \<open>The sums on a path are right for a focus of sum \<open>s\<close>; those beside it are right.\<close>

fun sumsPath :: "u64 \<Rightarrow> 'a frame list \<Rightarrow> bool" where
  "sumsPath s [] = True"
| "sumsPath s (AtLeft c x v s' r # p) \<longleftrightarrow> s' = s + v + ValueSum r \<and> sums r \<and> sumsPath s' p"
| "sumsPath s (AtRight c x v s' l # p) \<longleftrightarrow> s' = ValueSum l + v + s \<and> sums l \<and> sumsPath s' p"

fun sumsBeside :: "'a frame list \<Rightarrow> bool" where
  "sumsBeside [] = True"
| "sumsBeside (f # p) \<longleftrightarrow> sums (sisterOf f) \<and> sumsBeside p"

lemma entries_plug: "entries (plug t p) = before p @ entries t @ after p"
proof (induction p arbitrary: t)
  case (Cons f p)
  then show ?case by (cases f) simp_all
qed simp

lemma sums_plug: "sums (plug t p) \<longleftrightarrow> sums t \<and> sumsPath (ValueSum t) p"
proof (induction p arbitrary: t)
  case (Cons f p)
  then show ?case by (cases f) auto
qed simp

lemma sumsPath_beside: "sumsPath s p \<Longrightarrow> sumsBeside p"
  by (induction s p rule: sumsPath.induct) auto

lemma sumsPath_update: "sumsBeside p \<Longrightarrow> sumsPath s (RedBlackTreeUpdateValueSumsUpToRoot s p)"
  by (induction s p rule: RedBlackTreeUpdateValueSumsUpToRoot.induct) auto

lemma entries_update [simp]:
  "before (RedBlackTreeUpdateValueSumsUpToRoot s p) = before p"
  "after (RedBlackTreeUpdateValueSumsUpToRoot s p) = after p"
  by (induction s p rule: RedBlackTreeUpdateValueSumsUpToRoot.induct) simp_all

lemma setColor_simps [simp]:
  "entries (setColor c t) = entries t" "ValueSum (setColor c t) = ValueSum t"
  "sums (setColor c t) = sums t" "setColor c t = NullNode \<longleftrightarrow> t = NullNode"
  by (cases t; simp)+

lemma rotate_entries [simp]:
  "entries (RedBlackTreeRotateLeft t) = entries t" "entries (RedBlackTreeRotateRight t) = entries t"
  by (cases t rule: RedBlackTreeRotateLeft.cases; simp) (cases t rule: RedBlackTreeRotateRight.cases; simp)

text \<open>Rotating keeps the sums, whatever the stored sum of the node was.\<close>

lemma rotate_sums:
  "l \<noteq> NullNode \<Longrightarrow> sums l \<Longrightarrow> sums r \<Longrightarrow>
     sums (RedBlackTreeRotateRight (Node c l x v s r)) \<and>
     ValueSum (RedBlackTreeRotateRight (Node c l x v s r)) = ValueSum l + v + ValueSum r"
  "r \<noteq> NullNode \<Longrightarrow> sums l \<Longrightarrow> sums r \<Longrightarrow>
     sums (RedBlackTreeRotateLeft (Node c l x v s r)) \<and>
     ValueSum (RedBlackTreeRotateLeft (Node c l x v s r)) = ValueSum l + v + ValueSum r"
  by (cases l; simp add: algebra_simps) (cases r; simp add: algebra_simps)

lemma fill_simps [simp]: "fill f t \<noteq> NullNode" "fill (frameSetColor c f) t = setColor c (fill f t)"
  by (cases f; simp)+

lemma insertFixup_entries: "entries (insertFixup t p) = before p @ entries t @ after p"
proof (induction t p rule: insertFixup.induct)
  case (2 node parent gc gx gv gs uncle p)
  then show ?case by (cases parent) (auto simp: Let_def entries_plug)
next
  case (3 node parent gc gx gv gs uncle p)
  then show ?case by (cases parent) (auto simp: Let_def entries_plug)
next
  case (4 node parent)
  then show ?case by (cases parent) simp_all
qed simp

lemma insertFixup_sums:
  "sums t \<Longrightarrow> sumsPath (ValueSum t) p \<Longrightarrow> t \<noteq> NullNode \<Longrightarrow> sums (insertFixup t p)"
proof (induction t p rule: insertFixup.induct)
  case (2 node parent gc gx gv gs uncle p)
  let ?P = "case parent of AtRight _ _ _ _ _ \<Rightarrow> RedBlackTreeRotateLeft (fill parent node)
            | AtLeft _ _ _ _ _ \<Rightarrow> fill parent node"
  have P: "sums ?P \<and> ValueSum ?P = ValueSum (fill parent node) \<and> ?P \<noteq> NullNode"
    using "2.prems" rotate_sums(2) [of node] by (cases parent; cases node) auto
  then show ?case
    using 2 rotate_sums(1) [of "setColor Black ?P" uncle Red gx gv gs]
    by (cases parent) (auto simp: sums_plug Let_def add.assoc)
next
  case (3 node parent gc gx gv gs uncle p)
  let ?P = "case parent of AtLeft _ _ _ _ _ \<Rightarrow> RedBlackTreeRotateRight (fill parent node)
            | AtRight _ _ _ _ _ \<Rightarrow> fill parent node"
  have P: "sums ?P \<and> ValueSum ?P = ValueSum (fill parent node) \<and> ?P \<noteq> NullNode"
    using "3.prems" rotate_sums(1) [of node] by (cases parent; cases node) auto
  then show ?case
    using 3 rotate_sums(2) [of "setColor Black ?P" uncle Red gx gv gs]
    by (cases parent) (auto simp: sums_plug Let_def add.assoc)
next
  case (4 node parent)
  then show ?case by (cases parent) simp_all
qed simp

section \<open>Red-black properties\<close>

text \<open>Black height along the left spine, and the red-black properties of a subtree.\<close>

fun bh :: "'a tree \<Rightarrow> nat" where
  "bh NullNode = 0"
| "bh (Node c l x v s r) = bh l + (if c = Black then 1 else 0)"

fun rb :: "'a tree \<Rightarrow> bool" where
  "rb NullNode = True"
| "rb (Node c l x v s r) \<longleftrightarrow> rb l \<and> rb r \<and> bh l = bh r \<and>
     (c = Red \<longrightarrow> ColorOf l = Black \<and> ColorOf r = Black)"

text \<open>
  A path can take a subtree of black height \<open>n\<close>. The colour of the root is left open: it is
  black in a tree, and marked red while a node is removed.
\<close>

fun hole :: "nat \<Rightarrow> 'a frame list \<Rightarrow> bool" where
  "hole n [] = True"
| "hole n [f] \<longleftrightarrow> rb (sisterOf f) \<and> bh (sisterOf f) = n"
| "hole n (f # g # p) \<longleftrightarrow> rb (sisterOf f) \<and> bh (sisterOf f) = n \<and>
     (frameColor f = Red \<longrightarrow> ColorOf (sisterOf f) = Black \<and> (p = [] \<or> frameColor g = Black)) \<and>
     hole (if frameColor f = Black then n + 1 else n) (g # p)"

text \<open>The subtree may have a red root.\<close>

fun takesRed :: "'a frame list \<Rightarrow> bool" where
  "takesRed (f # g # p) \<longleftrightarrow> frameColor f = Black"
| "takesRed p = True"

lemma rb_setBlack: "rb t \<Longrightarrow> rb (setColor Black t)"
  by (cases t) simp_all

lemma bh_setBlack: "t \<noteq> NullNode \<Longrightarrow> bh (setColor Black t) = (if ColorOf t = Red then bh t + 1 else bh t)"
  by (cases t) simp_all

lemma setColor_setColor [simp]: "setColor c (setColor d t) = setColor c t"
  by (cases t) simp_all

lemma ColorOf_setColor [simp]: "t \<noteq> NullNode \<Longrightarrow> ColorOf (setColor c t) = c" "ColorOf (setColor Black t) = Black"
  by (cases t; simp)+

lemma ColorOf_fill [simp]: "ColorOf (fill f t) = frameColor f"
  by (cases f) simp_all

lemma rb_fill:
  "rb (fill f t) \<longleftrightarrow> rb t \<and> rb (sisterOf f) \<and> bh t = bh (sisterOf f) \<and>
     (frameColor f = Red \<longrightarrow> ColorOf t = Black \<and> ColorOf (sisterOf f) = Black)"
  by (cases f) auto

lemma bh_fill: "bh t = bh (sisterOf f) \<Longrightarrow> bh (fill f t) = bh t + (if frameColor f = Black then 1 else 0)"
  by (cases f) auto

lemma rb_setBlack_fill:
  "rb (setColor Black (fill f t)) \<longleftrightarrow> rb t \<and> rb (sisterOf f) \<and> bh t = bh (sisterOf f)"
  by (cases f) auto

lemma plug_rb:
  "rb t \<Longrightarrow> hole (bh t) p \<Longrightarrow> (ColorOf t = Red \<Longrightarrow> takesRed p) \<Longrightarrow> rb (setColor Black (plug t p))"
proof (induction p arbitrary: t)
  case Nil
  then show ?case by (simp add: rb_setBlack)
next
  case (Cons f p)
  show ?case
  proof (cases p)
    case Nil
    then show ?thesis using Cons.prems by (simp add: rb_setBlack_fill)
  next
    case (Cons g q)
    have "rb (fill f t)" using Cons.prems Cons by (cases "ColorOf t"; auto simp: rb_fill)
    moreover have "hole (bh (fill f t)) p"
      using Cons.prems Cons bh_fill [of t f] by (auto split: if_splits)
    moreover have "ColorOf (fill f t) = Red \<Longrightarrow> takesRed p"
      using Cons.prems(2) Cons by (cases q) auto
    ultimately show ?thesis using Cons.IH [of "fill f t"] by simp
  qed
qed

lemma plug_black:
  "rb t \<and> ColorOf t = Black \<and> bh t = n \<Longrightarrow> hole n p \<Longrightarrow> rb (setColor Black (plug t p))"
  by (rule plug_rb) auto

text \<open>The two steps of the insertion loop below a red parent with a black parent.\<close>

lemma insert_recolor:
  assumes "rb node" "frameColor parent = Red" "rb (sisterOf parent)" "bh (sisterOf parent) = bh node"
    and "ColorOf uncle = Red" "rb uncle" "bh uncle = bh node"
  shows "rb (Node Red (fill (frameSetColor Black parent) node) gx gv gs (setColor Black uncle)) \<and>
      bh (Node Red (fill (frameSetColor Black parent) node) gx gv gs (setColor Black uncle)) = bh node + 1"
    and "rb (Node Red (setColor Black uncle) gx gv gs (fill (frameSetColor Black parent) node)) \<and>
      bh (Node Red (setColor Black uncle) gx gv gs (fill (frameSetColor Black parent) node)) = bh node + 1"
proof -
  have "uncle \<noteq> NullNode" using assms(5) by auto
  then have "bh (setColor Black uncle) = bh node + 1" using assms by (simp add: bh_setBlack)
  moreover have "bh (setColor Black (fill parent node)) = bh node + 1"
    using assms by (simp add: bh_setBlack bh_fill)
  ultimately show
    "rb (Node Red (fill (frameSetColor Black parent) node) gx gv gs (setColor Black uncle)) \<and>
      bh (Node Red (fill (frameSetColor Black parent) node) gx gv gs (setColor Black uncle)) = bh node + 1"
    "rb (Node Red (setColor Black uncle) gx gv gs (fill (frameSetColor Black parent) node)) \<and>
      bh (Node Red (setColor Black uncle) gx gv gs (fill (frameSetColor Black parent) node)) = bh node + 1"
    using assms by (simp_all add: rb_setBlack rb_setBlack_fill)
qed

lemma insert_rotate:
  assumes "rb node" "ColorOf node = Red" "frameColor parent = Red"
    and "rb (sisterOf parent)" "bh (sisterOf parent) = bh node" "ColorOf (sisterOf parent) = Black"
    and "ColorOf uncle = Black" "rb uncle" "bh uncle = bh node"
    and L: "L = RedBlackTreeRotateRight (Node Red (setColor Black
      (case parent of AtRight _ _ _ _ _ \<Rightarrow> RedBlackTreeRotateLeft (fill parent node)
       | AtLeft _ _ _ _ _ \<Rightarrow> fill parent node)) gx gv gs uncle)"
    and R: "R = RedBlackTreeRotateLeft (Node Red uncle gx gv gs (setColor Black
      (case parent of AtLeft _ _ _ _ _ \<Rightarrow> RedBlackTreeRotateRight (fill parent node)
       | AtRight _ _ _ _ _ \<Rightarrow> fill parent node)))"
  shows "rb L \<and> ColorOf L = Black \<and> bh L = bh node + 1"
    and "rb R \<and> ColorOf R = Black \<and> bh R = bh node + 1"
proof -
  obtain nl nx nv ns nr where n: "node = Node Red nl nx nv ns nr" "ColorOf nl = Black" "ColorOf nr = Black"
      "rb nl" "rb nr" "bh nl = bh nr"
    using assms(1,2) by (cases node) auto
  show "rb L \<and> ColorOf L = Black \<and> bh L = bh node + 1"
    unfolding L using assms(3-9) n by (cases parent) auto
  show "rb R \<and> ColorOf R = Black \<and> bh R = bh node + 1"
    unfolding R using assms(3-9) n by (cases parent) auto
qed

lemma hole_red_parent:
  assumes "hole n (parent # g # p)" "frameColor parent = Red" "frameColor (last (g # p)) = Black"
  shows "rb (sisterOf parent)" "bh (sisterOf parent) = n" "ColorOf (sisterOf parent) = Black"
    "frameColor g = Black" "rb (sisterOf g)" "bh (sisterOf g) = n" "hole (n + 1) p"
  using assms by (cases p; auto)+

text \<open>Insertion keeps the properties in a tree with a black root.\<close>

lemma insertFixup_rb:
  "rb t \<Longrightarrow> ColorOf t = Red \<Longrightarrow> hole (bh t) p \<Longrightarrow> (p \<noteq> [] \<Longrightarrow> frameColor (last p) = Black) \<Longrightarrow>
     rb (setColor Black (insertFixup t p))"
proof (induction t p rule: insertFixup.induct)
  case (2 node parent gc gx gv gs uncle p)
  let ?g = "AtLeft gc gx gv gs uncle"
  show ?case
  proof (cases "frameColor parent")
    case Black
    then show ?thesis using "2.prems" plug_rb [of node "parent # ?g # p"] by simp
  next
    case Red
    have lst: "frameColor (last (?g # p)) = Black" using "2.prems"(4) by simp
    note h = hole_red_parent [OF "2.prems"(3) Red lst]
    show ?thesis
    proof (cases "ColorOf uncle")
      case u: Red
      let ?t = "Node Red (fill (frameSetColor Black parent) node) gx gv gs (setColor Black uncle)"
      have t: "rb ?t \<and> bh ?t = bh node + 1"
        using insert_recolor(1) [of node parent uncle gx gv gs] h "2.prems" Red u by simp
      have "hole (bh ?t) p" using t h(7) by metis
      then have "rb (setColor Black (insertFixup ?t p))"
        using Red u lst t by (intro "2.IH") (simp_all split: if_splits)
      then show ?thesis using Red u by simp
    next
      case u: Black
      have "rb node" "ColorOf node = Red" using "2.prems" by simp_all
      from plug_black [OF insert_rotate(1) [OF this Red h(1-3) u h(5,6)[simplified] refl refl] h(7)]
      show ?thesis using Red u by (simp add: Let_def)
    qed
  qed
next
  case (3 node parent gc gx gv gs uncle p)
  let ?g = "AtRight gc gx gv gs uncle"
  show ?case
  proof (cases "frameColor parent")
    case Black
    then show ?thesis using "3.prems" plug_rb [of node "parent # ?g # p"] by simp
  next
    case Red
    have lst: "frameColor (last (?g # p)) = Black" using "3.prems"(4) by simp
    note h = hole_red_parent [OF "3.prems"(3) Red lst]
    show ?thesis
    proof (cases "ColorOf uncle")
      case u: Red
      let ?t = "Node Red (setColor Black uncle) gx gv gs (fill (frameSetColor Black parent) node)"
      have t: "rb ?t \<and> bh ?t = bh node + 1"
        using insert_recolor(2) [of node parent uncle gx gv gs] h "3.prems" Red u by simp
      have "hole (bh ?t) p" using t h(7) by metis
      then have "rb (setColor Black (insertFixup ?t p))"
        using Red u lst t by (intro "3.IH") (simp_all split: if_splits)
      then show ?thesis using Red u by simp
    next
      case u: Black
      have "rb node" "ColorOf node = Red" using "3.prems" by simp_all
      from plug_black [OF insert_rotate(2) [OF this Red h(1-3) u h(5,6)[simplified] refl refl] h(7)]
      show ?thesis using Red u by (simp add: Let_def)
    qed
  qed
qed (auto simp: rb_setBlack rb_setBlack_fill)

section \<open>Removal\<close>

text \<open>
  While a black node is missing below a path, the path takes a subtree whose black height is
  one more than that of the child. The checks of the loop hold because the sister cannot be empty.
\<close>

lemma hole_sister: "hole n (f # p) \<Longrightarrow> rb (sisterOf f) \<and> bh (sisterOf f) = n"
  by (cases p) auto

lemma hole_up: "hole n (f # p) \<Longrightarrow> hole (if frameColor f = Black then n + 1 else n) p"
  by (cases p) auto

lemma hole_takesRed: "hole n (f # p) \<Longrightarrow> frameColor f = Red \<Longrightarrow> takesRed p"
  by (cases p rule: takesRed.cases) auto

lemma raiseSister_ok:
  assumes "hole (Suc n) (parent # p)"
  obtains f q where "raiseSister parent child p = Inr (f, q)" "hole (Suc n) (f # q)"
    "ColorOf (sisterOf f) = Black"
    "entries (plug child (f # q)) = entries (plug child (parent # p))"
    "sumsPath (ValueSum child) (parent # p) \<longrightarrow> sumsPath (ValueSum child) (f # q)"
    "(f = parent \<and> q = p) \<or> frameColor f = Red"
proof (cases "ColorOf (sisterOf parent)")
  case Black
  then have "raiseSister parent child p = Inr (parent, p)"
    by (cases "(parent, child, p)" rule: raiseSister.cases) auto
  then show ?thesis using assms Black that by blast
next
  case Red
  then obtain sl sx sv ss sr where s: "sisterOf parent = Node Red sl sx sv ss sr"
    by (cases "sisterOf parent") auto
  have b: "rb sl" "rb sr" "bh sl = Suc n" "bh sr = Suc n" "ColorOf sl = Black" "ColorOf sr = Black"
    using hole_sister [OF assms] s by auto
  have pB: "p \<noteq> [] \<longrightarrow> frameColor parent = Black" using assms Red by (cases p) auto
  have up: "p \<noteq> [] \<longrightarrow> hole (Suc (Suc n)) p" using hole_up [OF assms] pB by auto
  have ne: "sl \<noteq> NullNode" "sr \<noteq> NullNode" using b(3,4) by auto
  show ?thesis
  proof (cases parent)
    case (AtLeft c x v s r)
    let ?s = "ValueSum child + v + ValueSum sl"
    let ?f = "AtLeft Red x v ?s sl" and ?q = "AtLeft Black sx sv (?s + sv + ValueSum sr) sr # p"
    have "raiseSister parent child p = Inr (?f, ?q)"
      using AtLeft s ne by (simp add: CHECK_def Let_def)
    moreover have "hole (Suc n) (?f # ?q)" using b up by (cases p) simp_all
    moreover have "entries (plug child (?f # ?q)) = entries (plug child (parent # p))"
      using AtLeft s by (simp add: entries_plug)
    moreover have "sumsPath (ValueSum child) (?f # ?q)" if "sumsPath (ValueSum child) (parent # p)"
      using that AtLeft s by (auto simp: add.assoc)
    ultimately show ?thesis using b(5) that [of ?f ?q] by simp
  next
    case (AtRight c x v s r)
    let ?s = "ValueSum sr + v + ValueSum child"
    let ?f = "AtRight Red x v ?s sr" and ?q = "AtRight Black sx sv (ValueSum sl + sv + ?s) sl # p"
    have "raiseSister parent child p = Inr (?f, ?q)"
      using AtRight s ne by (simp add: CHECK_def Let_def)
    moreover have "hole (Suc n) (?f # ?q)" using b up by (cases p) simp_all
    moreover have "entries (plug child (?f # ?q)) = entries (plug child (parent # p))"
      using AtRight s by (simp add: entries_plug)
    moreover have "sumsPath (ValueSum child) (?f # ?q)" if "sumsPath (ValueSum child) (parent # p)"
      using that AtRight s by (auto simp: add.assoc)
    ultimately show ?thesis using b(6) that [of ?f ?q] by simp
  qed
qed

text \<open>The tree that ends the loop, as the code rotates it, for both sides of the child.\<close>

lemma finishLeft_ok:
  assumes "rb child" "ColorOf child = Black" "rb sl" "rb sr" "bh sl = bh child" "bh sr = bh child"
    and "ColorOf sl = Red \<or> ColorOf sr = Red"
  shows "\<exists>t. finishLeft c child x v s (Node Black sl sx sv ss sr) = Inr t \<and> rb t \<and> ColorOf t = c \<and>
    bh t = bh child + (if c = Black then 2 else 1) \<and>
    entries t = entries child @ (x, v) # entries sl @ (sx, sv) # entries sr \<and>
    (sums child \<and> sums sl \<and> sums sr \<longrightarrow>
      sums t \<and> ValueSum t = ValueSum child + v + (ValueSum sl + sv + ValueSum sr))"
proof (cases "ColorOf sr")
  case Black
  with assms(7) obtain l' x' v' s' r' where "sl = Node Red l' x' v' s' r'" by (cases sl) auto
  then show ?thesis using Black assms(1-6) by (simp add: CHECK_def algebra_simps)
next
  case Red
  then obtain l' x' v' s' r' where "sr = Node Red l' x' v' s' r'" by (cases sr) auto
  then show ?thesis using assms(1-6) by (simp add: algebra_simps)
qed

lemma finishRight_ok:
  assumes "rb child" "ColorOf child = Black" "rb sl" "rb sr" "bh sl = bh child" "bh sr = bh child"
    and "ColorOf sl = Red \<or> ColorOf sr = Red"
  shows "\<exists>t. finishRight c child x v s (Node Black sl sx sv ss sr) = Inr t \<and> rb t \<and> ColorOf t = c \<and>
    bh t = bh child + (if c = Black then 2 else 1) \<and>
    entries t = entries sl @ (sx, sv) # entries sr @ (x, v) # entries child \<and>
    (sums child \<and> sums sl \<and> sums sr \<longrightarrow>
      sums t \<and> ValueSum t = (ValueSum sl + sv + ValueSum sr) + v + ValueSum child)"
proof (cases "ColorOf sl")
  case Black
  with assms(7) obtain l' x' v' s' r' where "sr = Node Red l' x' v' s' r'" by (cases sr) auto
  then show ?thesis using Black assms(1-6) by (simp add: CHECK_def algebra_simps)
next
  case Red
  then obtain l' x' v' s' r' where "sl = Node Red l' x' v' s' r'" by (cases sl) auto
  then show ?thesis using assms(1-6) by (simp add: algebra_simps)
qed

lemma finishRemove_ok:
  assumes "hole (Suc (bh child)) (f # q)" "rb child" "ColorOf child = Black"
    "ColorOf (sisterOf f) = Black" "\<not> blackNephews (sisterOf f)"
  obtains t where "finishRemove f child = Inr t" "rb t" "ColorOf t = frameColor f"
    "bh t = bh child + (if frameColor f = Black then 2 else 1)"
    "entries t = entries (fill f child)"
    "sums child \<and> sums (sisterOf f) \<longrightarrow>
       sums t \<and> ValueSum t = ValueSum (RedBlackTreeUpdateValueSum (fill f child))"
proof -
  obtain sl sx sv ss sr where s: "sisterOf f = Node Black sl sx sv ss sr"
    using assms(4,5) by (cases "sisterOf f") auto
  have b: "rb sl" "rb sr" "bh sl = bh child" "bh sr = bh child"
    using hole_sister [OF assms(1)] s by auto
  have n: "ColorOf sl = Red \<or> ColorOf sr = Red"
    using s assms(5) by (cases "ColorOf sl"; cases "ColorOf sr") simp_all
  show ?thesis
  proof (cases f)
    case (AtLeft c x v s0 r)
    with s have r: "r = Node Black sl sx sv ss sr" by simp
    show ?thesis
      using finishLeft_ok [OF assms(2,3) b n, of c x v s0 sx sv ss]
      by (elim exE conjE, intro that) (auto simp: AtLeft r simp del: finishLeft.simps)
  next
    case (AtRight c x v s0 r)
    with s have r: "r = Node Black sl sx sv ss sr" by simp
    show ?thesis
      using finishRight_ok [OF assms(2,3) b n, of c x v s0 sx sv ss]
      by (elim exE conjE, intro that) (auto simp: AtRight r simp del: finishRight.simps)
  qed
qed

text \<open>The invariant of the loop, on the child and its path.\<close>

definition lacking :: "'a tree \<Rightarrow> 'a frame list \<Rightarrow> bool" where
  "lacking t p \<longleftrightarrow> rb (setColor Black t) \<and> hole (Suc (bh t)) p \<and>
     (ColorOf t = Black \<longrightarrow> (if p = [] then t = NullNode else frameColor (last p) = Red))"

lemma recolor_sister:
  assumes "hole (Suc (bh child)) (f # q)" "rb child" "ColorOf child = Black"
    "ColorOf (sisterOf f) = Black" "blackNephews (sisterOf f)"
    and t: "t = fill (frameSetSister f (setColor Red (sisterOf f))) child"
  shows "rb (setColor Black t)" "ColorOf t = frameColor f" "hole (Suc (bh t)) q"
    "entries t = entries (fill f child)" "ValueSum t = ValueSum (fill f child)"
    "sums t = sums (fill f child)"
proof -
  obtain sl sx sv ss sr where s: "sisterOf f = Node Black sl sx sv ss sr"
    "ColorOf sl = Black" "ColorOf sr = Black"
    using assms(4,5) hole_sister [OF assms(1)] by (cases "sisterOf f") auto
  have b: "rb sl" "rb sr" "bh sl = bh child" "bh sr = bh child"
    using hole_sister [OF assms(1)] s by auto
  show "rb (setColor Black t)" "ColorOf t = frameColor f" "entries t = entries (fill f child)"
    "ValueSum t = ValueSum (fill f child)" "sums t = sums (fill f child)"
    unfolding t using s b assms(2,3) by (cases f; simp)+
  show "hole (Suc (bh t)) q"
    unfolding t using hole_up [OF assms(1)] s b by (cases f) (auto split: if_splits)
qed

text \<open>A pass either ends the loop with a red-black tree or keeps the invariant.\<close>

definition sameTree :: "'a tree \<Rightarrow> 'a tree \<Rightarrow> bool" where
  "sameTree t u \<longleftrightarrow> entries u = entries t \<and> (sums t \<longrightarrow> sums u)"

lemma removePass_ok:
  assumes l: "lacking child (parent # p)" and c: "ColorOf child = Black"
  shows "(\<exists>t. removePass child parent p = Inr (Done t) \<and> rb (setColor Black t) \<and>
              sameTree (plug child (parent # p)) t) \<or>
         (\<exists>t q. removePass child parent p = Inr (Continue t q) \<and> lacking t q \<and>
              sameTree (plug child (parent # p)) (plug t q))"
proof -
  have h: "hole (Suc (bh child)) (parent # p)" and r: "rb child"
    using l c by (cases child; simp add: lacking_def)+
  obtain f q where f: "raiseSister parent child p = Inr (f, q)" "hole (Suc (bh child)) (f # q)"
    "ColorOf (sisterOf f) = Black" "entries (plug child (f # q)) = entries (plug child (parent # p))"
    "sumsPath (ValueSum child) (parent # p) \<longrightarrow> sumsPath (ValueSum child) (f # q)"
    "(f = parent \<and> q = p) \<or> frameColor f = Red"
    by (rule raiseSister_ok [OF h, of child])
  have same: "sameTree (plug child (parent # p)) (plug child (f # q))"
    using f(4,5) by (simp add: sameTree_def sums_plug del: plug.simps)
  have ne: "sisterOf parent \<noteq> NullNode" using hole_sister [OF h] by auto
  show ?thesis
  proof (cases "blackNephews (sisterOf f)")
    case True
    define t where "t = fill (frameSetSister f (setColor Red (sisterOf f))) child"
    note rs = recolor_sister [OF f(2) r c f(3) True t_def]
    have "lacking t q"
      using rs(1-3) f(6) l c by (auto simp: lacking_def fill_simps(1) t_def split: if_splits)
    moreover have "sameTree (plug child (f # q)) (plug t q)"
      using rs(4-6) by (simp add: sameTree_def sums_plug entries_plug)
    ultimately show ?thesis
      using f(1) ne True same by (auto simp: removePass_def CHECK_def t_def sameTree_def)
  next
    case False
    obtain t where t: "finishRemove f child = Inr t" "rb t" "ColorOf t = frameColor f"
      "bh t = bh child + (if frameColor f = Black then 2 else 1)" "entries t = entries (fill f child)"
      "sums child \<and> sums (sisterOf f) \<longrightarrow>
         sums t \<and> ValueSum t = ValueSum (RedBlackTreeUpdateValueSum (fill f child))"
      by (rule finishRemove_ok [OF f(2) r c f(3) False])
    have "rb (setColor Black (plug t q))"
      using t(2-4) hole_up [OF f(2)] hole_takesRed [OF f(2)]
      by (intro plug_rb) (auto split: if_splits)
    moreover have "sameTree (plug child (f # q)) (plug t q)"
      using t(5,6) by (cases f) (auto simp: sameTree_def sums_plug entries_plug)
    ultimately show ?thesis
      using f(1) ne False same t(1) by (auto simp: removePass_def CHECK_def sameTree_def)
  qed
qed

lemma removeFixup_ok:
  "lacking t p \<Longrightarrow> \<exists>u. removeFixup t p = Inr u \<and> rb (setColor Black u) \<and> sameTree (plug t p) u"
proof (induction t p rule: removeFixup.induct)
  case (1 child p)
  show ?case
  proof (cases "ColorOf child")
    case Red
    then have "child \<noteq> NullNode" by auto
    then have "rb (setColor Black (plug (setColor Black child) p))"
      using "1.prems" Red by (intro plug_black) (auto simp: lacking_def bh_setBlack)
    then show ?thesis
      using Red by (simp add: removeFixup.simps sameTree_def entries_plug sums_plug)
  next
    case Black
    show ?thesis
    proof (cases p)
      case Nil
      then show ?thesis
        using Black "1.prems" by (simp add: removeFixup.simps lacking_def sameTree_def)
    next
      case (Cons parent q)
      then show ?thesis
        using removePass_ok [of child parent q] Black "1.prems" "1.IH" [of parent q]
        by (fastforce simp: removeFixup.simps [of child] sameTree_def)
    qed
  qed
qed

section \<open>Paths\<close>

lemma plug_append: "plug t (p @ q) = plug (plug t p) q"
  by (induction p arbitrary: t) simp_all

lemma ColorOf_plug: "ColorOf (plug t p) = (if p = [] then ColorOf t else frameColor (last p))"
  by (induction p arbitrary: t) simp_all

lemma before_append: "before (p @ q) = before q @ before p"
  by (induction p rule: before.induct) simp_all

lemma after_append: "after (p @ q) = after p @ after q"
  by (induction p rule: after.induct) simp_all

lemma sumsBeside_append: "sumsBeside (p @ q) \<longleftrightarrow> sumsBeside p \<and> sumsBeside q"
  by (induction p) auto

text \<open>The red-black properties of a path depend on the colours and the subtrees beside it.\<close>

definition shape :: "'a frame \<Rightarrow> Color \<times> 'a tree" where
  "shape f = (frameColor f, sisterOf f)"

lemma hole_shape: "map shape p = map shape q \<Longrightarrow> hole n p \<Longrightarrow> hole n q"
proof (induction n p arbitrary: q rule: hole.induct)
  case (2 n f)
  then show ?case by (auto simp: shape_def)
next
  case (3 n f g p)
  then obtain f' g' q' where q: "q = f' # g' # q'" "shape f' = shape f" "shape g' = shape g"
    "map shape q' = map shape p" by (auto simp: Cons_eq_map_conv)
  then have m: "map shape (g # p) = map shape (g' # q')" and e: "p = [] \<longleftrightarrow> q' = []" by auto
  from "3.IH" [OF m] "3.prems"(2)
  have "hole (if frameColor f = Black then n + 1 else n) (g' # q')" by simp
  with e "3.prems"(2) q(1-3) show ?case by (auto simp: shape_def simp del: hole.simps(2))
qed simp

lemma shape_update [simp]: "map shape (RedBlackTreeUpdateValueSumsUpToRoot s p) = map shape p"
  by (induction s p rule: RedBlackTreeUpdateValueSumsUpToRoot.induct) (simp_all add: shape_def)

lemma update_Nil [simp]: "RedBlackTreeUpdateValueSumsUpToRoot s p = [] \<longleftrightarrow> p = []"
  by (cases "(s, p)" rule: RedBlackTreeUpdateValueSumsUpToRoot.cases) simp_all

lemma last_shape: "map shape p = map shape q \<Longrightarrow> p \<noteq> [] \<Longrightarrow> frameColor (last p) = frameColor (last q)"
  by (metis last_map list.map_disc_iff prod.inject shape_def)

lemma last_update [simp]:
  "p \<noteq> [] \<Longrightarrow> frameColor (last (RedBlackTreeUpdateValueSumsUpToRoot s p)) = frameColor (last p)"
  by (rule last_shape) simp_all

lemma hole_update [simp]: "hole n (RedBlackTreeUpdateValueSumsUpToRoot s p) = hole n p"
  using hole_shape [of p "RedBlackTreeUpdateValueSumsUpToRoot s p" n]
    hole_shape [of "RedBlackTreeUpdateValueSumsUpToRoot s p" p n] by auto

lemma sumsBeside_update [simp]: "sumsBeside (RedBlackTreeUpdateValueSumsUpToRoot s p) = sumsBeside p"
  by (induction s p rule: RedBlackTreeUpdateValueSumsUpToRoot.induct) simp_all

text \<open>A tree taken apart at a node.\<close>

lemma unplug_rb:
  "rb (plug t p) \<Longrightarrow> rb t \<and> hole (bh t) p \<and> (ColorOf t = Red \<longrightarrow> p \<noteq> [] \<longrightarrow> frameColor (hd p) = Black)"
proof (induction p arbitrary: t)
  case (Cons f p)
  then have "rb (fill f t) \<and> hole (bh (fill f t)) p \<and>
      (ColorOf (fill f t) = Red \<longrightarrow> p \<noteq> [] \<longrightarrow> frameColor (hd p) = Black)" by simp
  then show ?case using bh_fill [of t f] by (cases p) (auto simp: rb_fill split: if_splits)
qed simp

lemma sums_unplug: "sums (plug t p) \<Longrightarrow> sums t \<and> sumsBeside p"
  by (auto simp: sums_plug intro: sumsPath_beside)

lemma sums_replug:
  "sums t \<Longrightarrow> sumsBeside p \<Longrightarrow> sums (plug t (RedBlackTreeUpdateValueSumsUpToRoot (ValueSum t) p))"
  by (simp add: sums_plug sumsPath_update)

lemma splitLeftmost_ok:
  "t \<noteq> NullNode \<Longrightarrow> \<exists>c x v s r q. splitLeftmost t p = Some (c, x, v, r, q @ p) \<and>
     t = plug (Node c NullNode x v s r) q \<and> before q = []"
proof (induction t p rule: splitLeftmost.induct)
  case (2 c l x v s r p)
  show ?case
  proof (cases l)
    case NullNode
    then show ?thesis by (auto intro!: exI [of _ "[]"])
  next
    case (Node c' l' x' v' s' r')
    then obtain c1 x1 v1 s1 r1 q where "splitLeftmost l (AtLeft c x v s r # p) = Some (c1, x1, v1, r1, q @ AtLeft c x v s r # p)"
      "l = plug (Node c1 NullNode x1 v1 s1 r1) q" "before q = []"
      using "2.IH" [of c' l' x' v' s' r'] by blast
    note l = this
    have "splitLeftmost (Node c l x v s r) p = splitLeftmost l (AtLeft c x v s r # p)"
      using Node by simp
    moreover have "Node c l x v s r = plug (Node c1 NullNode x1 v1 s1 r1) (q @ [AtLeft c x v s r])"
      using l(2) by (simp add: plug_append)
    moreover have "before (q @ [AtLeft c x v s r]) = []" using l(3) by (simp add: before_append)
    ultimately show ?thesis using l(1) by (metis append.assoc append_Cons append_Nil)
  qed
qed simp

end
