(* ===== verification/RSP_Storage.thy ===== *)
theory RSP_Storage
  imports RSP_TreeLaws
begin

text \<open>
  The red-black tree as a storage: what insertion, removal and the searches do to the sorted
  list of the entries, for any comparison function that is a \<open>comparator\<close>. The clients of
  the tree use the interface \<open>storage\<close>, of which the tree is an instance.
\<close>

section \<open>Removing a node\<close>

lemma unlink_single:
  assumes "rb (plug (Node c l x v s r) p)" "ColorOf (plug (Node c l x v s r) p) = Black"
    "sums (plug (Node c l x v s r) p)" "l = NullNode \<or> r = NullNode"
    and ch: "child = (if l \<noteq> NullNode then l else r)"
  defines "p1 \<equiv> RedBlackTreeUpdateValueSumsUpToRoot (ValueSum child) p"
  shows "rb child" "hole (if c = Black then Suc (bh child) else bh child) p1"
    "c = Red \<longrightarrow> ColorOf child = Black \<and> p1 \<noteq> []" "sums (plug child p1)"
    "entries (plug child p1) = before p @ entries l @ entries r @ after p"
    "p1 \<noteq> [] \<longrightarrow> frameColor (last p1) = Black"
proof -
  note u = unplug_rb [OF assms(1)]
  have b: "bh child = bh l" using u assms(4) ch by auto
  show "rb child" using u ch by auto
  show "hole (if c = Black then Suc (bh child) else bh child) p1"
    using u b by (auto simp: p1_def split: if_splits)
  show "c = Red \<longrightarrow> ColorOf child = Black \<and> p1 \<noteq> []"
    using u assms(2) ch by (auto simp: p1_def ColorOf_plug)
  show "sums (plug child p1)"
    using sums_unplug [OF assms(3)] ch sums_replug [of child p] by (auto simp: p1_def)
  show "entries (plug child p1) = before p @ entries l @ entries r @ after p"
    using assms(4) ch by (auto simp: p1_def entries_plug)
  show "p1 \<noteq> [] \<longrightarrow> frameColor (last p1) = Black"
    using assms(2) by (auto simp: p1_def ColorOf_plug)
qed

lemma unlink_double:
  fixes w :: u64
  assumes "rb (plug (Node c l x v s r) p)" "ColorOf (plug (Node c l x v s r) p) = Black"
    "sums (plug (Node c l x v s r) p)"
    and r: "r = plug (Node nc NullNode nx nv ns child) q" and q: "before q = []"
  defines "p1 \<equiv> RedBlackTreeUpdateValueSumsUpToRoot (ValueSum child)
    (q @ RedBlackTreeUpdateValueSumsUpToRoot w (AtRight c nx nv 0 l # p))"
  shows "rb child" "hole (if nc = Black then Suc (bh child) else bh child) p1"
    "nc = Red \<longrightarrow> ColorOf child = Black \<and> p1 \<noteq> []" "sums (plug child p1)"
    "entries (plug child p1) = before p @ entries l @ entries r @ after p"
    "p1 \<noteq> [] \<longrightarrow> frameColor (last p1) = Black"
proof -
  let ?t = "Node nc NullNode nx nv ns child" and ?q = "q @ AtRight c x v s l # p"
  have t: "plug (Node c l x v s r) p = plug ?t ?q" by (simp add: plug_append r)
  note u = unplug_rb [OF assms(1) [unfolded t]] and su = sums_unplug [OF assms(3) [unfolded t]]
  have sh: "map shape ?q = map shape p1" by (simp add: p1_def shape_def)
  show "rb child" using u by auto
  show "hole (if nc = Black then Suc (bh child) else bh child) p1"
    using u hole_shape [OF sh] by (auto split: if_splits)
  show "nc = Red \<longrightarrow> ColorOf child = Black \<and> p1 \<noteq> []" using u by (auto simp: p1_def)
  show "sums (plug child p1)"
    using su unfolding p1_def by (intro sums_replug) (auto simp: sumsBeside_append)
  show "entries (plug child p1) = before p @ entries l @ entries r @ after p"
    by (simp add: p1_def entries_plug before_append after_append r q)
  show "p1 \<noteq> [] \<longrightarrow> frameColor (last p1) = Black"
    using assms(2) last_shape [OF sh] unfolding t ColorOf_plug by auto
qed

lemma unlinkNode_ok:
  assumes "rb (plug (Node c l x v s r) p)" "ColorOf (plug (Node c l x v s r) p) = Black"
    "sums (plug (Node c l x v s r) p)"
  obtains lost child p1 where "unlinkNode c l r p = Inr (lost, child, p1)" "rb child"
    "hole (if lost = Black then Suc (bh child) else bh child) p1"
    "lost = Red \<longrightarrow> ColorOf child = Black \<and> p1 \<noteq> []" "sums (plug child p1)"
    "entries (plug child p1) = before p @ entries l @ entries r @ after p"
    "p1 \<noteq> [] \<longrightarrow> frameColor (last p1) = Black"
proof (cases "l \<noteq> NullNode \<and> r \<noteq> NullNode")
  case True
  then obtain nc nx nv ns child q where n: "splitLeftmost r [] = Some (nc, nx, nv, child, q)"
    "r = plug (Node nc NullNode nx nv ns child) q" "before q = []"
    using splitLeftmost_ok [of r "[]"] by auto
  show ?thesis
    by (rule that [OF _ unlink_double [OF assms n(2,3)]])
      (use True n(1) in \<open>simp add: unlinkNode_def Let_def\<close>)
next
  case False
  then have e: "l = NullNode \<or> r = NullNode" by auto
  show ?thesis
    by (rule that [OF _ unlink_single [OF assms e refl]])
      (use e in \<open>auto simp: unlinkNode_def Let_def\<close>)
qed

text \<open>The mark at the root does not change what the path can take.\<close>

lemma hole_mark: "p \<noteq> [] \<Longrightarrow> hole n (butlast p @ [frameSetColor c (last p)]) = hole n p"
proof (induction n p rule: hole.induct)
  case (2 n f)
  then show ?case by (cases f) simp_all
next
  case (3 n f g p)
  then show ?case by (cases p; cases g) auto
qed simp

lemma plug_mark:
  "p \<noteq> [] \<Longrightarrow> plug t (butlast p @ [frameSetColor c (last p)]) = setColor c (plug t p)"
  by (induction p arbitrary: t) (auto simp: plug_append)

lemma markRoot_ok:
  assumes "rb child" "hole (Suc (bh child)) p" and m: "markRoot child p = (child', p')"
  shows "lacking child' p'" "sameTree (plug child p) (plug child' p')"
proof -
  show "lacking child' p'"
    using assms hole_mark [of p "Suc (bh child)" Red] rb_setBlack [of child]
    by (cases "last p"; cases child) (auto simp: lacking_def markRoot_def split: if_splits)
  show "sameTree (plug child p) (plug child' p')"
    using m plug_mark [of p child Red] by (auto simp: sameTree_def markRoot_def split: if_splits)
qed

section \<open>The tree as a sorted list\<close>

definition ascending :: "('a \<Rightarrow> 'a \<Rightarrow> int) \<Rightarrow> ('a \<times> u64) list \<Rightarrow> bool" where
  "ascending cmp = sorted_wrt (\<lambda>a b. cmp (fst a) (fst b) < 0)"

definition contents :: "'a RedBlackTree \<Rightarrow> ('a \<times> u64) list" where
  "contents rbt = entries (rbt_Root rbt)"

definition rbt_wf :: "('a \<Rightarrow> 'a \<Rightarrow> int) \<Rightarrow> 'a RedBlackTree \<Rightarrow> bool" where
  "rbt_wf cmp rbt \<longleftrightarrow> rb (rbt_Root rbt) \<and> ColorOf (rbt_Root rbt) = Black \<and> sums (rbt_Root rbt) \<and>
     ascending cmp (contents rbt) \<and> rbt_Elements rbt = length (contents rbt)"

definition insertEntry :: "('a \<Rightarrow> 'a \<Rightarrow> int) \<Rightarrow> 'a \<Rightarrow> u64 \<Rightarrow> ('a \<times> u64) list \<Rightarrow> ('a \<times> u64) list" where
  "insertEntry cmp x v es =
     (if list_ex (\<lambda>e. cmp x (fst e) = 0) es then es
      else filter (\<lambda>e. 0 < cmp x (fst e)) es @ (x, v) # filter (\<lambda>e. cmp x (fst e) < 0) es)"

definition removeEntry :: "('a \<Rightarrow> 'a \<Rightarrow> int) \<Rightarrow> 'a \<Rightarrow> ('a \<times> u64) list \<Rightarrow> ('a \<times> u64) list" where
  "removeEntry cmp x es = filter (\<lambda>e. cmp x (fst e) \<noteq> 0) es"

definition firstOf :: "('a \<times> u64) list \<Rightarrow> 'a option" where
  "firstOf es = (case es of [] \<Rightarrow> None | e # _ \<Rightarrow> Some (fst e))"

definition findEntry :: "('a \<Rightarrow> 'a \<Rightarrow> int) \<Rightarrow> 'a \<Rightarrow> ('a \<times> u64) list \<Rightarrow> 'a option" where
  "findEntry cmp x es = firstOf (filter (\<lambda>e. cmp x (fst e) = 0) es)"

definition nextEntry :: "('a \<Rightarrow> 'a \<Rightarrow> int) \<Rightarrow> 'a \<Rightarrow> ('a \<times> u64) list \<Rightarrow> 'a option" where
  "nextEntry cmp x es = firstOf (filter (\<lambda>e. cmp x (fst e) < 0) es)"

definition prevEntry :: "('a \<Rightarrow> 'a \<Rightarrow> int) \<Rightarrow> 'a \<Rightarrow> ('a \<times> u64) list \<Rightarrow> 'a option" where
  "prevEntry cmp x es = firstOf (rev (filter (\<lambda>e. 0 < cmp x (fst e)) es))"

text \<open>A list taken apart at a key.\<close>

definition apart :: "('a \<Rightarrow> 'a \<Rightarrow> int) \<Rightarrow> 'a \<Rightarrow> ('a \<times> u64) list \<Rightarrow> ('a \<times> u64) list \<Rightarrow> bool" where
  "apart cmp k xs ys \<longleftrightarrow> (\<forall>e \<in> set xs. 0 < cmp k (fst e)) \<and> (\<forall>e \<in> set ys. cmp k (fst e) < 0)"

lemma apart_filter:
  assumes "apart cmp k xs ys"
  shows "filter (\<lambda>e. 0 < cmp k (fst e)) xs = xs" "filter (\<lambda>e. 0 < cmp k (fst e)) ys = []"
    "filter (\<lambda>e. cmp k (fst e) < 0) xs = []" "filter (\<lambda>e. cmp k (fst e) < 0) ys = ys"
    "filter (\<lambda>e. cmp k (fst e) = 0) xs = []" "filter (\<lambda>e. cmp k (fst e) = 0) ys = []"
    "filter (\<lambda>e. cmp k (fst e) \<noteq> 0) xs = xs" "filter (\<lambda>e. cmp k (fst e) \<noteq> 0) ys = ys"
    "\<not> list_ex (\<lambda>e. cmp k (fst e) = 0) xs" "\<not> list_ex (\<lambda>e. cmp k (fst e) = 0) ys"
  using assms by (force simp: apart_def filter_id_conv filter_empty_conv list_ex_iff)+

lemmas entry_defs = findEntry_def nextEntry_def prevEntry_def insertEntry_def removeEntry_def

lemma apart_missing:
  assumes "apart cmp k xs ys"
  shows "findEntry cmp k (xs @ ys) = None" "insertEntry cmp k v (xs @ ys) = xs @ (k, v) # ys"
    "nextEntry cmp k (xs @ ys) = firstOf ys" "prevEntry cmp k (xs @ ys) = firstOf (rev xs)"
    "removeEntry cmp k (xs @ ys) = xs @ ys"
  using apart_filter [OF assms] by (simp_all add: entry_defs firstOf_def)

lemma apart_present:
  assumes "apart cmp k xs ys" "cmp k x = 0"
  shows "findEntry cmp k (xs @ (x, v) # ys) = Some x"
    "insertEntry cmp k w (xs @ (x, v) # ys) = xs @ (x, v) # ys"
    "nextEntry cmp k (xs @ (x, v) # ys) = firstOf ys"
    "prevEntry cmp k (xs @ (x, v) # ys) = firstOf (rev xs)"
    "removeEntry cmp k (xs @ (x, v) # ys) = xs @ ys"
  using apart_filter [OF assms(1)] assms(2) by (simp_all add: entry_defs firstOf_def)

section \<open>Descending\<close>

lemma descend_plug: "descend cmp k t p = (u, q) \<Longrightarrow> plug u q = plug t p"
  by (induction cmp k t p rule: descend.induct) (auto simp: Let_def split: if_splits)

lemma ascending_append:
  "ascending cmp (xs @ ys) \<longleftrightarrow> ascending cmp xs \<and> ascending cmp ys \<and>
     (\<forall>a \<in> set xs. \<forall>b \<in> set ys. cmp (fst a) (fst b) < 0)"
  by (simp add: ascending_def sorted_wrt_append)

lemma ascending_Cons:
  "ascending cmp (x # ys) \<longleftrightarrow> (\<forall>b \<in> set ys. cmp (fst x) (fst b) < 0) \<and> ascending cmp ys"
  by (simp add: ascending_def)

text \<open>The node that is met, with the entries on either side of it.\<close>

fun meets_key :: "('a \<Rightarrow> 'a \<Rightarrow> int) \<Rightarrow> 'a \<Rightarrow> 'a tree \<Rightarrow> 'a frame list \<Rightarrow> bool" where
  "meets_key cmp k NullNode p \<longleftrightarrow> apart cmp k (before p) (after p)"
| "meets_key cmp k (Node c l x v s r) p \<longleftrightarrow> cmp k x = 0 \<and>
     apart cmp k (before p @ entries l) (entries r @ after p)"

context comparator
begin

lemma apart_of_node:
  assumes "ascending cmp (xs @ (x, v) # ys)"
  shows "cmp k x \<le> 0 \<Longrightarrow> \<forall>e \<in> set ys. cmp k (fst e) < 0"
    "0 \<le> cmp k x \<Longrightarrow> \<forall>e \<in> set xs. 0 < cmp k (fst e)"
proof -
  assume "cmp k x \<le> 0"
  then show "\<forall>e \<in> set ys. cmp k (fst e) < 0"
    using assms cmp_le_less [of k x] by (auto simp: ascending_append ascending_Cons)
next
  assume "0 \<le> cmp k x"
  then have "cmp x k \<le> 0" using cmp_anti [of k x] by linarith
  then show "\<forall>e \<in> set xs. 0 < cmp k (fst e)"
    using assms cmp_less_le [of _ x k] cmp_anti by (auto simp: ascending_append ascending_Cons)
qed

lemma descend_meets:
  "descend cmp k t p = (u, q) \<Longrightarrow> ascending cmp (entries t) \<Longrightarrow>
     apart cmp k (before p) (after p) \<Longrightarrow> meets_key cmp k u q"
proof (induction t arbitrary: p)
  case (Node c l x v s r)
  have asc: "ascending cmp (entries l)" "ascending cmp (entries r)"
    using Node.prems(2) by (simp_all add: ascending_append ascending_Cons)
  note a = apart_of_node [OF Node.prems(2) [simplified], of k]
  consider "cmp k x < 0" | "cmp k x > 0" | "cmp k x = 0" by linarith
  then show ?case
  proof cases
    case 1
    then show ?thesis using Node.IH(1) [of "AtLeft c x v s r # p"] Node.prems asc a
      by (auto simp: apart_def)
  next
    case 2
    then show ?thesis using Node.IH(2) [of "AtRight c x v s l # p"] Node.prems asc a
      by (auto simp: apart_def)
  next
    case 3
    then show ?thesis using Node.prems a by (auto simp: apart_def)
  qed
qed simp

text \<open>What a search from the root of a well-formed tree meets.\<close>

lemma descend_root:
  assumes "rbt_wf cmp rbt" "descend cmp k (rbt_Root rbt) [] = (u, q)"
  shows "plug u q = rbt_Root rbt" "meets_key cmp k u q"
    "contents rbt = before q @ entries u @ after q"
  using descend_plug [OF assms(2)] descend_meets [OF assms(2)] assms(1) entries_plug [of u q]
  by (simp_all add: rbt_wf_def apart_def contents_def)

lemma find_ok: "rbt_wf cmp rbt \<Longrightarrow> RedBlackTreeFind cmp rbt k = findEntry cmp k (contents rbt)"
proof -
  assume wf: "rbt_wf cmp rbt"
  obtain u q where d: "descend cmp k (rbt_Root rbt) [] = (u, q)" by (cases "descend cmp k (rbt_Root rbt) []")
  note m = descend_root [OF wf d]
  show ?thesis
  proof (cases u)
    case NullNode
    then show ?thesis using m d apart_missing(1) [of cmp k] by (simp add: RedBlackTreeFind_def)
  next
    case (Node c l x v s r)
    then show ?thesis
      using m d apart_present(1) [of cmp k "before q @ entries l" "entries r @ after q" x v]
      by (simp add: RedBlackTreeFind_def)
  qed
qed

lemma ascending_insert:
  assumes "ascending cmp (xs @ ys)" "apart cmp k xs ys"
  shows "ascending cmp (xs @ (k, v) # ys)"
  using assms cmp_anti by (auto simp: ascending_append ascending_Cons apart_def)

lemma insert_ok:
  assumes wf: "rbt_wf cmp rbt" and i: "RedBlackTreeInsert cmp rbt k v = (x, rbt')"
  shows "rbt_wf cmp rbt'" "contents rbt' = insertEntry cmp k v (contents rbt)"
    "x = (case findEntry cmp k (contents rbt) of None \<Rightarrow> k | Some y \<Rightarrow> y)"
proof -
  obtain u q where d: "descend cmp k (rbt_Root rbt) [] = (u, q)" by (cases "descend cmp k (rbt_Root rbt) []")
  note m = descend_root [OF wf d]
  have "rbt_wf cmp rbt' \<and> contents rbt' = insertEntry cmp k v (contents rbt) \<and>
    x = (case findEntry cmp k (contents rbt) of None \<Rightarrow> k | Some y \<Rightarrow> y)"
  proof (cases u)
    case (Node c l y w s r)
    then show ?thesis
      using m d i wf apart_present(1) [of cmp k "before q @ entries l" "entries r @ after q" y w]
        apart_present(2) [of cmp k "before q @ entries l" "entries r @ after q" y v w]
      by (auto simp: RedBlackTreeInsert_def)
  next
    case NullNode
    let ?n = "Node Red NullNode k v v NullNode" and ?q = "RedBlackTreeUpdateValueSumsUpToRoot v q"
    have a: "apart cmp k (before q) (after q)" and c: "contents rbt = before q @ after q"
      using m NullNode by simp_all
    have r: "rbt' = \<lparr>rbt_Root = setColor Black (insertFixup ?n ?q), rbt_Elements = rbt_Elements rbt + 1\<rparr>"
      and x: "x = k" using i d NullNode by (auto simp: RedBlackTreeInsert_def)
    have h: "rb (plug NullNode q)" "ColorOf (plug NullNode q) = Black" "sums (plug NullNode q)"
      using wf m(1) NullNode by (simp_all add: rbt_wf_def)
    have "rb (setColor Black (insertFixup ?n ?q))"
      using unplug_rb [OF h(1)] h(2) by (intro insertFixup_rb) (auto simp: ColorOf_plug split: if_splits)
    moreover have "sums (setColor Black (insertFixup ?n ?q))"
      using sums_unplug [OF h(3)] by (simp add: insertFixup_sums sumsPath_update)
    moreover have e: "contents rbt' = before q @ (k, v) # after q"
      by (simp add: contents_def r insertFixup_entries)
    ultimately show ?thesis
      using wf x r apart_missing(1,2) [OF a] ascending_insert [of "before q" "after q" k v] a
      by (simp add: rbt_wf_def c)
  qed
  then show "rbt_wf cmp rbt'" "contents rbt' = insertEntry cmp k v (contents rbt)"
    "x = (case findEntry cmp k (contents rbt) of None \<Rightarrow> k | Some y \<Rightarrow> y)" by blast+
qed

lemma ascending_delete: "ascending cmp (xs @ e # ys) \<Longrightarrow> ascending cmp (xs @ ys)"
  by (auto simp: ascending_append ascending_Cons)

text \<open>A node of the tree can be removed: no check of the code fails.\<close>

lemma remove_ok:
  assumes wf: "rbt_wf cmp rbt" and f: "findEntry cmp k (contents rbt) \<noteq> None"
  shows "\<exists>rbt'. RedBlackTreeRemove cmp rbt k = Inr rbt' \<and> rbt_wf cmp rbt' \<and>
           contents rbt' = removeEntry cmp k (contents rbt)"
proof -
  obtain u q where d: "descend cmp k (rbt_Root rbt) [] = (u, q)" by (cases "descend cmp k (rbt_Root rbt) []")
  note m = descend_root [OF wf d]
  obtain c l x v s r where u: "u = Node c l x v s r"
    using f m apart_missing(1) [of cmp k "before q" "after q"] by (cases u) auto
  have h: "rb (plug u q)" "ColorOf (plug u q) = Black" "sums (plug u q)"
    using wf m(1) by (simp_all add: rbt_wf_def)
  have cs: "contents rbt = (before q @ entries l) @ (x, v) # entries r @ after q"
    using m(3) u by simp
  have rm: "removeEntry cmp k (contents rbt) = before q @ entries l @ entries r @ after q"
    using m(2) u unfolding cs by (subst apart_present(5)) simp_all
  obtain lost child p1 where n: "unlinkNode c l r q = Inr (lost, child, p1)" "rb child"
    "hole (if lost = Black then Suc (bh child) else bh child) p1"
    "lost = Red \<longrightarrow> ColorOf child = Black \<and> p1 \<noteq> []" "sums (plug child p1)"
    "entries (plug child p1) = before q @ entries l @ entries r @ after q"
    "p1 \<noteq> [] \<longrightarrow> frameColor (last p1) = Black"
    by (rule unlinkNode_ok [OF h [unfolded u]])
  obtain t where t: "(if lost = Black
                 then let (child', p2) = markRoot child p1 in
                      bindR (removeFixup child' p2) (\<lambda>t. Inr (setColor Black t))
                 else Inr (plug child p1)) = Inr t"
    "rb t" "ColorOf t = Black" "sums t" "entries t = entries (plug child p1)"
  proof (cases lost)
    case Black
    obtain child' p2 where k: "markRoot child p1 = (child', p2)" by (cases "markRoot child p1")
    have hc: "hole (Suc (bh child)) p1" using n(3) Black by simp
    note mk = markRoot_ok [OF n(2) hc k]
    obtain t where "removeFixup child' p2 = Inr t" "rb (setColor Black t)" "sameTree (plug child' p2) t"
      using removeFixup_ok [OF mk(1)] by blast
    then show ?thesis using that [of "setColor Black t"] Black k n(5) mk(2)
      by (simp add: sameTree_def)
  next
    case Red
    have "rb (setColor Black (plug child p1))"
      using n Red by (intro plug_rb) auto
    moreover have "ColorOf (plug child p1) = Black" using n(4,7) Red by (simp add: ColorOf_plug)
    moreover from this have "setColor Black (plug child p1) = plug child p1"
      by (cases "plug child p1") auto
    ultimately show ?thesis using that [of "plug child p1"] Red n(5) by simp
  qed
  have len: "rbt_Elements rbt = Suc (length (entries t))"
    using wf cs n(6) t(5) by (simp add: rbt_wf_def)
  let ?r = "\<lparr>rbt_Root = t, rbt_Elements = rbt_Elements rbt - 1\<rparr>"
  have "RedBlackTreeRemove cmp rbt k = Inr ?r"
    using d u n(1) t(1) len by (simp add: RedBlackTreeRemove_def)
  moreover have "rbt_wf cmp ?r"
    using wf t(2-5) n(6) len cs ascending_delete [of "before q @ entries l" "(x, v)" "entries r @ after q"]
    by (simp add: rbt_wf_def contents_def)
  moreover have "contents ?r = removeEntry cmp k (contents rbt)"
    using t(5) n(6) rm by (simp add: contents_def)
  ultimately show ?thesis by blast
qed

lemma remove_missing:
  assumes wf: "rbt_wf cmp rbt" and f: "findEntry cmp k (contents rbt) = None"
  shows "RedBlackTreeRemove cmp rbt k = Inl CheckAbort"
proof -
  obtain u q where d: "descend cmp k (rbt_Root rbt) [] = (u, q)" by (cases "descend cmp k (rbt_Root rbt) []")
  note m = descend_root [OF wf d]
  have "u = NullNode"
  proof (cases u)
    case (Node c l x v s r)
    with m f apart_present(1) [of cmp k "before q @ entries l" "entries r @ after q" x v]
    show ?thesis by simp
  qed
  then show ?thesis using d by (simp add: RedBlackTreeRemove_def)
qed

end

section \<open>Neighbours\<close>

lemma firstOf_simps [simp]: "firstOf [] = None" "firstOf (e # es) = Some (fst e)"
  by (simp_all add: firstOf_def)

lemma firstOf_append: "firstOf (xs @ ys) = (if xs = [] then firstOf ys else firstOf xs)"
  by (simp add: firstOf_def split: list.splits)

lemma entries_Nil [simp]: "entries t = [] \<longleftrightarrow> t = NullNode"
  by (cases t) simp_all

lemma case_tree_if: "(case t of NullNode \<Rightarrow> a | Node _ _ _ _ _ _ \<Rightarrow> b) = (if t = NullNode then a else b)"
  by (cases t) simp_all

lemma leftmost_ok: "leftmost t = firstOf (entries t)"
  by (induction t) (simp_all add: case_tree_if firstOf_append)

lemma rightmost_ok: "rightmost t = firstOf (rev (entries t))"
  by (induction t) (simp_all add: case_tree_if firstOf_append)

lemma upFromLeft_ok: "upFromLeft p = firstOf (rev (before p))"
  by (induction p rule: upFromLeft.induct) simp_all

lemma upFromRight_ok: "upFromRight p = firstOf (after p)"
  by (induction p rule: upFromRight.induct) simp_all

lemma internal_prev_ok: "RedBlackTreeInternalFindPrev l p = firstOf (rev (before p @ entries l))"
  by (simp add: RedBlackTreeInternalFindPrev_def upFromLeft_ok rightmost_ok firstOf_append case_tree_if)

lemma internal_next_ok: "RedBlackTreeInternalFindNext r p = firstOf (entries r @ after p)"
  by (simp add: RedBlackTreeInternalFindNext_def upFromRight_ok leftmost_ok firstOf_append case_tree_if)

lemmas neighbour_laws = internal_prev_ok internal_next_ok upFromLeft_ok upFromRight_ok

context comparator
begin

lemma nearest_ok:
  assumes wf: "rbt_wf cmp rbt"
  shows "RedBlackTreeGetNearestPrev cmp rbt k = prevEntry cmp k (contents rbt)"
    "RedBlackTreeGetNearestNext cmp rbt k = nextEntry cmp k (contents rbt)"
proof -
  obtain u q where d: "descend cmp k (rbt_Root rbt) [] = (u, q)" by (cases "descend cmp k (rbt_Root rbt) []")
  note m = descend_root [OF wf d]
  have "RedBlackTreeGetNearestPrev cmp rbt k = prevEntry cmp k (contents rbt) \<and>
    RedBlackTreeGetNearestNext cmp rbt k = nextEntry cmp k (contents rbt)"
  proof (cases u)
    case NullNode
    have "RedBlackTreeGetNearestPrev cmp rbt k = firstOf (rev (before q))"
      "RedBlackTreeGetNearestNext cmp rbt k = firstOf (after q)"
      using d NullNode unfolding RedBlackTreeGetNearestPrev_def RedBlackTreeGetNearestNext_def
      by (cases q rule: before.cases; simp add: neighbour_laws)+
    then show ?thesis using m NullNode apart_missing(3,4) [of cmp k "before q" "after q"] by simp
  next
    case (Node c l x v s r)
    then show ?thesis
      using m d apart_present(3,4) [of cmp k "before q @ entries l" "entries r @ after q" x v]
      by (simp add: RedBlackTreeGetNearestPrev_def RedBlackTreeGetNearestNext_def neighbour_laws)
  qed
  then show "RedBlackTreeGetNearestPrev cmp rbt k = prevEntry cmp k (contents rbt)"
    "RedBlackTreeGetNearestNext cmp rbt k = nextEntry cmp k (contents rbt)" by blast+
qed

lemma neighbours_ok:
  assumes wf: "rbt_wf cmp rbt" and f: "findEntry cmp k (contents rbt) \<noteq> None"
  shows "RedBlackTreeGetPrev cmp rbt k = prevEntry cmp k (contents rbt)"
    "RedBlackTreeGetNext cmp rbt k = nextEntry cmp k (contents rbt)"
proof -
  obtain u q where d: "descend cmp k (rbt_Root rbt) [] = (u, q)" by (cases "descend cmp k (rbt_Root rbt) []")
  note m = descend_root [OF wf d]
  obtain c l x v s r where u: "u = Node c l x v s r"
    using f m apart_missing(1) [of cmp k "before q" "after q"] by (cases u) auto
  show "RedBlackTreeGetPrev cmp rbt k = prevEntry cmp k (contents rbt)"
    "RedBlackTreeGetNext cmp rbt k = nextEntry cmp k (contents rbt)"
    using m d u apart_present(3,4) [of cmp k "before q @ entries l" "entries r @ after q" x v]
    by (simp_all add: RedBlackTreeGetPrev_def RedBlackTreeGetNext_def neighbour_laws)
qed

end

lemma ends_ok:
  "RedBlackTreeGetFirst rbt = firstOf (contents rbt)"
  "RedBlackTreeGetLast rbt = firstOf (rev (contents rbt))"
  by (simp_all add: RedBlackTreeGetFirst_def RedBlackTreeGetLast_def contents_def leftmost_ok rightmost_ok)

section \<open>The self test\<close>

lemma internal_verify_ok:
  "rb t \<Longrightarrow> sums t \<Longrightarrow> comparator cmp \<Longrightarrow> ascending cmp (entries t) \<Longrightarrow>
     RedBlackTreeInternalVerify cmp t = Inr (Suc (bh t), length (entries t))"
proof (induction t)
  case (Node c l x v s r)
  note anti = comparator.cmp_anti [OF Node.prems(3)]
  have asc: "ascending cmp (entries l)" "ascending cmp (entries r)"
    "\<forall>e \<in> set (entries l). cmp (fst e) x < 0" "\<forall>e \<in> set (entries r). cmp x (fst e) < 0"
    using Node.prems(4) by (simp_all add: ascending_append ascending_Cons)
  have "case rootElement l of None \<Rightarrow> True | Some y \<Rightarrow> 0 < cmp x y"
    using asc(3) anti by (cases l) auto
  moreover have "case rootElement r of None \<Rightarrow> True | Some y \<Rightarrow> cmp x y < 0"
    using asc(4) by (cases r) auto
  ultimately show ?case
    using Node asc(1,2) by (cases c) (simp_all add: Let_def)
qed simp

context comparator
begin

lemma verify_ok: "rbt_wf cmp rbt \<Longrightarrow> RedBlackTreeVerify cmp rbt = Inr ()"
  using internal_verify_ok [of "rbt_Root rbt" cmp] comparator_axioms
  by (simp add: RedBlackTreeVerify_def rbt_wf_def contents_def)

end

section \<open>Drawing by value\<close>

text \<open>The entry that covers a position when the values are laid out one after the other.\<close>

fun drawn :: "('a \<times> u64) list \<Rightarrow> nat \<Rightarrow> 'a option" where
  "drawn [] n = None"
| "drawn ((x, v) # es) n = (if n < unat v \<or> es = [] then Some x else drawn es (n - unat v))"

definition totalValue :: "('a \<times> u64) list \<Rightarrow> nat" where
  "totalValue es = (\<Sum>(x, v) \<leftarrow> es. unat v)"

lemma drawn_append:
  "drawn (xs @ ys) n = (if n < totalValue xs \<or> ys = [] then drawn xs n else drawn ys (n - totalValue xs))"
  by (induction xs n rule: drawn.induct) (auto simp: totalValue_def)

lemma ValueSum_total: "sums t \<Longrightarrow> totalValue (entries t) < 2 ^ 64 \<Longrightarrow> unat (ValueSum t) = totalValue (entries t)"
proof (induction t)
  case (Node c l x v s r)
  then have "unat (ValueSum l) = totalValue (entries l)" "unat (ValueSum r) = totalValue (entries r)"
    "totalValue (entries l) + unat v + totalValue (entries r) < 2 ^ 64"
    by (simp_all add: totalValue_def)
  then show ?case using Node.prems(1)
    by (simp add: unat_add_lem [THEN iffD1] totalValue_def)
qed (simp add: totalValue_def)

lemma getNodeByValue_ok:
  "sums t \<Longrightarrow> totalValue (entries t) < 2 ^ 64 \<Longrightarrow> getNodeByValue t val = drawn (entries t) (unat val)"
proof (induction t arbitrary: val)
  case (Node c l x v s r)
  have tot: "totalValue (entries l) + unat v + totalValue (entries r) < 2 ^ 64"
    using Node.prems(2) by (simp add: totalValue_def)
  have sl: "unat (ValueSum l) = totalValue (entries l)"
    using Node.prems tot by (intro ValueSum_total) simp_all
  then have slv: "unat (ValueSum l + v) = totalValue (entries l) + unat v"
    using tot by (simp add: unat_add_lem [THEN iffD1])
  have l: "getNodeByValue l val = drawn (entries l) (unat val)"
    using Node tot by simp
  have r: "getNodeByValue r (val - (ValueSum l + v)) = drawn (entries r) (unat val - (totalValue (entries l) + unat v))"
    if "ValueSum l + v \<le> val"
    using Node.IH(2) [of "val - (ValueSum l + v)"] Node.prems tot that slv by (simp add: unat_sub)
  have ll: "val < ValueSum l \<longleftrightarrow> unat val < totalValue (entries l)"
    and lv: "val < ValueSum l + v \<longleftrightarrow> unat val < totalValue (entries l) + unat v"
    using sl slv by (simp_all add: word_less_nat_alt)
  consider "unat val < totalValue (entries l)"
    | "totalValue (entries l) \<le> unat val" "unat val < totalValue (entries l) + unat v"
    | "totalValue (entries l) + unat v \<le> unat val" by linarith
  then show ?case
  proof cases
    case 1
    then have "l \<noteq> NullNode" by (auto simp: totalValue_def)
    then show ?thesis using 1 ll l by (simp add: case_tree_if drawn_append)
  next
    case 2
    then show ?thesis using ll lv by (simp add: drawn_append less_diff_conv2)
  next
    case 3
    then have "ValueSum l + v \<le> val" "\<not> unat val - totalValue (entries l) < unat v" using lv by simp_all
    from r [OF this(1)] this(2) show ?thesis using 3 ll lv by (simp add: drawn_append case_tree_if)
  qed
qed simp

section \<open>The interface of the storages\<close>

text \<open>
  What the clients rely on: a storage holds entries in ascending order, and its operations act
  on them as the operations on sorted lists do.
\<close>

locale storage = comparator cmp for cmp :: "'a \<Rightarrow> 'a \<Rightarrow> int" +
  fixes inv :: "'s \<Rightarrow> bool"
    and items :: "'s \<Rightarrow> ('a \<times> u64) list"
    and empty :: 's
    and insert :: "'s \<Rightarrow> 'a \<Rightarrow> u64 \<Rightarrow> 'a \<times> 's"
    and remove :: "'s \<Rightarrow> 'a \<Rightarrow> fault + 's"
    and find :: "'s \<Rightarrow> 'a \<Rightarrow> 'a option"
  assumes empty_inv: "inv empty" and empty_items: "items empty = []"
    and inv_ascending: "inv s \<Longrightarrow> ascending cmp (items s)"
    and insert_inv: "inv s \<Longrightarrow> inv (snd (insert s k v))"
    and insert_items: "inv s \<Longrightarrow> items (snd (insert s k v)) = insertEntry cmp k v (items s)"
    and insert_result: "inv s \<Longrightarrow>
      fst (insert s k v) = (case findEntry cmp k (items s) of None \<Rightarrow> k | Some y \<Rightarrow> y)"
    and remove_items: "inv s \<Longrightarrow> findEntry cmp k (items s) \<noteq> None \<Longrightarrow>
      \<exists>s'. remove s k = Inr s' \<and> inv s' \<and> items s' = removeEntry cmp k (items s)"
    and find_items: "inv s \<Longrightarrow> find s k = findEntry cmp k (items s)"
begin

lemma cmp_congr: "cmp j k = 0 \<Longrightarrow> cmp j x = 0 \<longleftrightarrow> cmp k x = 0"
  using cmp_zero_trans cmp_zero_sym by blast

lemma ascending_apart:
  "\<not> list_ex (\<lambda>e. cmp k (fst e) = 0) es \<Longrightarrow> ascending cmp es \<Longrightarrow> \<exists>xs ys. es = xs @ ys \<and> apart cmp k xs ys"
proof (induction es)
  case (Cons e es)
  then obtain xs ys where es: "es = xs @ ys" "apart cmp k xs ys" by (auto simp: ascending_Cons)
  consider "0 < cmp k (fst e)" | "cmp k (fst e) < 0" using Cons.prems(1) by fastforce
  then show ?case
  proof cases
    case 1
    then show ?thesis using es by (intro exI [of _ "e # xs"] exI [of _ ys]) (simp add: apart_def)
  next
    case 2
    then have "apart cmp k [] (e # es)"
      using Cons.prems(2) cmp_less_trans [of k "fst e"] by (auto simp: apart_def ascending_Cons)
    then show ?thesis by blast
  qed
qed (simp add: apart_def)

lemma find_empty: "find empty k = None"
  by (simp add: find_items empty_inv empty_items findEntry_def)

lemma find_remove:
  assumes "inv s" "find s k \<noteq> None" "remove s k = Inr s'"
  shows "inv s'" "find s' j = (if cmp j k = 0 then None else find s j)"
proof -
  have s': "inv s'" "items s' = removeEntry cmp k (items s)"
    using remove_items [of s k] assms find_items [OF assms(1)] by auto
  have "filter (\<lambda>e. cmp j (fst e) = 0) (removeEntry cmp k (items s)) =
    (if cmp j k = 0 then [] else filter (\<lambda>e. cmp j (fst e) = 0) (items s))"
  proof (cases "cmp j k = 0")
    case True
    then show ?thesis using cmp_congr [OF True] by (simp add: removeEntry_def)
  next
    case False
    then have "cmp j x = 0 \<Longrightarrow> cmp k x \<noteq> 0" for x using cmp_zero_trans cmp_zero_sym by blast
    then show ?thesis using False by (auto simp: removeEntry_def intro!: filter_cong)
  qed
  then show "inv s'" "find s' j = (if cmp j k = 0 then None else find s j)"
    using s' assms(1) by (simp_all add: find_items findEntry_def)
qed

lemma filter_insertEntry:
  assumes "\<not> list_ex (\<lambda>e. cmp k (fst e) = 0) es" "ascending cmp es"
  shows "filter (\<lambda>e. cmp j (fst e) = 0) (insertEntry cmp k v es) =
    (if cmp j k = 0 then [(k, v)] else filter (\<lambda>e. cmp j (fst e) = 0) es)"
proof -
  obtain xs ys where es: "es = xs @ ys" "apart cmp k xs ys" using ascending_apart [OF assms] by blast
  show ?thesis
    using apart_missing(2) [OF es(2), of v] apart_filter(5,6) [OF es(2)] cmp_congr [of j k]
    by (simp add: es(1))
qed

lemma findEntry_None_iff: "findEntry cmp k es = None \<longleftrightarrow> \<not> list_ex (\<lambda>e. cmp k (fst e) = 0) es"
proof -
  have "findEntry cmp k es = None \<longleftrightarrow> filter (\<lambda>e. cmp k (fst e) = 0) es = []"
    by (simp add: findEntry_def firstOf_def split: list.splits)
  then show ?thesis by (simp add: filter_empty_conv list_ex_iff)
qed

lemma find_insert:
  assumes "inv s" "insert s k v = (x, s')"
  shows "inv s'" "find s' j = (if cmp j k = 0 then Some x else find s j)"
proof -
  show s': "inv s'" using insert_inv [OF assms(1), of k v] assms(2) by simp
  have it: "items s' = insertEntry cmp k v (items s)" using insert_items [OF assms(1), of k v] assms(2) by simp
  have x: "x = (case findEntry cmp k (items s) of None \<Rightarrow> k | Some y \<Rightarrow> y)"
    using insert_result [OF assms(1), of k v] assms(2) by simp
  show "find s' j = (if cmp j k = 0 then Some x else find s j)"
  proof (cases "findEntry cmp k (items s)")
    case None
    then show ?thesis
      using filter_insertEntry [of k "items s" j v] inv_ascending [OF assms(1)] x s' assms(1)
        findEntry_None_iff [of k "items s"]
      by (simp add: find_items it findEntry_def [of _ j])
  next
    case (Some y)
    then have "insertEntry cmp k v (items s) = items s"
      using findEntry_None_iff [of k "items s"] by (simp add: insertEntry_def)
    then show ?thesis
      using Some s' assms(1) x cmp_congr [of j k] by (simp add: find_items it findEntry_def)
  qed
qed

text \<open>Inserting a new element and removing it again restores the entries.\<close>

lemma insert_remove:
  assumes "inv s" "find s k = None" "insert s k v = (x, s')"
  shows "\<exists>s''. remove s' k = Inr s'' \<and> inv s'' \<and> items s'' = items s"
proof -
  note f = find_insert [OF assms(1,3)]
  have it: "items s' = insertEntry cmp k v (items s)" using insert_items [OF assms(1), of k v] assms(3) by simp
  have n: "\<not> list_ex (\<lambda>e. cmp k (fst e) = 0) (items s)"
    using assms(2) find_items [OF assms(1)] findEntry_None_iff by simp
  have "findEntry cmp k (items s') \<noteq> None" using f(2) [of k] find_items [OF f(1), of k] cmp_refl by simp
  then obtain s'' where s'': "remove s' k = Inr s''" "inv s''" "items s'' = removeEntry cmp k (items s')"
    using remove_items [OF f(1)] by blast
  obtain xs ys where es: "items s = xs @ ys" "apart cmp k xs ys"
    using ascending_apart [OF n inv_ascending [OF assms(1)]] by blast
  have "removeEntry cmp k (items s') = items s"
    using apart_missing(2) [OF es(2), of v] apart_present(5) [OF es(2) cmp_refl, of v] by (simp add: it es(1))
  with s'' show ?thesis by simp
qed

end

text \<open>Every comparison function gives a storage: the red-black tree ordered by it.\<close>

lemma RedBlackTreeNew_wf: "rbt_wf cmp RedBlackTreeNew" "contents RedBlackTreeNew = []"
  by (simp_all add: RedBlackTreeNew_def rbt_wf_def contents_def ascending_def)

sublocale comparator \<subseteq> rbt: storage cmp "rbt_wf cmp" contents RedBlackTreeNew
  "RedBlackTreeInsert cmp" "RedBlackTreeRemove cmp" "RedBlackTreeFind cmp"
proof unfold_locales
  show "rbt_wf cmp RedBlackTreeNew" "contents RedBlackTreeNew = []" by (rule RedBlackTreeNew_wf)+
  fix s k v assume s: "rbt_wf cmp s"
  then show "ascending cmp (contents s)" by (simp add: rbt_wf_def)
  show "rbt_wf cmp (snd (RedBlackTreeInsert cmp s k v))"
    using insert_ok(1) [OF s] by (metis prod.collapse)
  show "contents (snd (RedBlackTreeInsert cmp s k v)) = insertEntry cmp k v (contents s)"
    using insert_ok(2) [OF s] by (metis prod.collapse)
  show "fst (RedBlackTreeInsert cmp s k v) = (case findEntry cmp k (contents s) of None \<Rightarrow> k | Some y \<Rightarrow> y)"
    using insert_ok(3) [OF s] by (metis prod.collapse)
  show "RedBlackTreeFind cmp s k = findEntry cmp k (contents s)" by (rule find_ok [OF s])
  assume "findEntry cmp k (contents s) \<noteq> None"
  then show "\<exists>s'. RedBlackTreeRemove cmp s k = Inr s' \<and> rbt_wf cmp s' \<and> contents s' = removeEntry cmp k (contents s)"
    by (rule remove_ok [OF s])
qed

section \<open>Height\<close>

fun height :: "'a tree \<Rightarrow> nat" where
  "height NullNode = 0"
| "height (Node c l x v s r) = Suc (max (height l) (height r))"

lemma rb_size: "rb t \<Longrightarrow> 2 ^ bh t \<le> Suc (length (entries t))"
  by (induction t) auto

lemma rb_height: "rb t \<Longrightarrow> height t \<le> 2 * bh t + (if ColorOf t = Red then 1 else 0)"
proof (induction t)
  case (Node c l x v s r)
  then show ?case by (cases c) (auto split: if_splits)
qed simp

lemma height_bound: "rbt_wf cmp rbt \<Longrightarrow> 2 ^ (height (rbt_Root rbt) div 2) \<le> Suc (length (contents rbt))"
proof -
  assume wf: "rbt_wf cmp rbt"
  then have "height (rbt_Root rbt) div 2 \<le> bh (rbt_Root rbt)"
    using rb_height [of "rbt_Root rbt"] by (simp add: rbt_wf_def)
  then have "(2::nat) ^ (height (rbt_Root rbt) div 2) \<le> 2 ^ bh (rbt_Root rbt)" by simp
  also have "\<dots> \<le> Suc (length (contents rbt))" using wf by (simp add: rbt_wf_def contents_def rb_size)
  finally show ?thesis .
qed

text \<open>The comparisons of a search are at most the height of the tree.\<close>

lemma descend_path: "descend cmp k t p = (u, q) \<Longrightarrow> length q \<le> length p + height t"
  by (induction cmp k t p rule: descend.induct) (auto simp: Let_def split: if_splits)

section \<open>Sequences of operations\<close>

text \<open>A client inserts nodes and removes nodes that it has found.\<close>

datatype 'a treeOp = InsertOp 'a u64 | RemoveOp 'a

fun runTree :: "('a \<Rightarrow> 'a \<Rightarrow> int) \<Rightarrow> 'a treeOp list \<Rightarrow> 'a RedBlackTree \<Rightarrow> fault + 'a RedBlackTree" where
  "runTree cmp [] rbt = Inr rbt"
| "runTree cmp (InsertOp k v # ops) rbt = runTree cmp ops (snd (RedBlackTreeInsert cmp rbt k v))"
| "runTree cmp (RemoveOp k # ops) rbt =
     (case RedBlackTreeFind cmp rbt k of
        None \<Rightarrow> runTree cmp ops rbt
      | Some x \<Rightarrow> bindR (RedBlackTreeRemove cmp rbt x) (runTree cmp ops))"

fun runList :: "('a \<Rightarrow> 'a \<Rightarrow> int) \<Rightarrow> 'a treeOp list \<Rightarrow> ('a \<times> u64) list \<Rightarrow> ('a \<times> u64) list" where
  "runList cmp [] es = es"
| "runList cmp (InsertOp k v # ops) es = runList cmp ops (insertEntry cmp k v es)"
| "runList cmp (RemoveOp k # ops) es = runList cmp ops (removeEntry cmp k es)"

context comparator
begin

lemma findEntry_Some:
  "findEntry cmp k es = Some x \<Longrightarrow> cmp k x = 0 \<and> removeEntry cmp x es = removeEntry cmp k es \<and>
     findEntry cmp x es \<noteq> None"
proof -
  assume f: "findEntry cmp k es = Some x"
  then have "cmp k x = 0"
    by (auto simp: findEntry_def firstOf_def filter_eq_Cons_iff split: list.splits)
  moreover from this have "cmp k y = 0 \<longleftrightarrow> cmp x y = 0" for y using cmp_zero_sym cmp_zero_trans by blast
  ultimately show ?thesis using f by (simp add: removeEntry_def findEntry_def)
qed

lemma removeEntry_missing: "findEntry cmp k es = None \<Longrightarrow> removeEntry cmp k es = es"
  using rbt.findEntry_None_iff [of k es]
  by (auto simp: removeEntry_def list_ex_iff filter_id_conv)

lemma runTree_ok:
  "rbt_wf cmp rbt \<Longrightarrow>
     \<exists>rbt'. runTree cmp ops rbt = Inr rbt' \<and> rbt_wf cmp rbt' \<and> contents rbt' = runList cmp ops (contents rbt)"
proof (induction ops arbitrary: rbt)
  case (Cons op ops)
  show ?case
  proof (cases op)
    case (InsertOp k v)
    then show ?thesis
      using Cons.IH [OF rbt.insert_inv [OF Cons.prems, of k v]] rbt.insert_items [OF Cons.prems, of k v] by simp
  next
    case (RemoveOp k)
    show ?thesis
    proof (cases "findEntry cmp k (contents rbt)")
      case None
      then show ?thesis
        using RemoveOp Cons find_ok [OF Cons.prems, of k] removeEntry_missing by simp
    next
      case (Some x)
      note x = findEntry_Some [OF Some]
      obtain rbt' where "RedBlackTreeRemove cmp rbt x = Inr rbt'" "rbt_wf cmp rbt'"
        "contents rbt' = removeEntry cmp k (contents rbt)"
        using remove_ok [OF Cons.prems, of x] x by auto
      then show ?thesis
        using RemoveOp Cons.IH [of rbt'] find_ok [OF Cons.prems, of k] Some by simp
    qed
  qed
qed simp

text \<open>The nodes in order, as \<open>GetFirst\<close> and \<open>GetNext\<close> visit them.\<close>

lemma next_in_order:
  assumes "rbt_wf cmp rbt" "contents rbt = xs @ (k, v) # ys"
  shows "RedBlackTreeGetNext cmp rbt k = firstOf ys"
proof -
  have a: "ascending cmp (xs @ (k, v) # ys)" using assms by (simp add: rbt_wf_def)
  have "apart cmp k xs ys" using apart_of_node [OF a, of k] cmp_refl by (simp add: apart_def)
  from apart_present(1,3) [OF this cmp_refl, of v] show ?thesis
    using neighbours_ok(2) [OF assms(1), of k] assms(2) by simp
qed

end

end
