(* ===== verification/RSP_Pool.thy ===== *)
theory RSP_Pool
  imports RSP_Policy RSP_Storage RSP_Message
begin

text \<open>
  Pools (poolnode-template_impl.h), the parts of the policies that work on a whole pool
  (poolpolicy-template_impl.h) and the update of a pool element (poolelementnode-template_impl.h).

  The nodes of the pool elements are the values of the store \<open>pn_Elements\<close>. A pointer to a
  node is the identifier of the pool element: the index storage keeps it unique in a pool. The
  trees hold pointers, and the sorting order reads the nodes from the store, so that changing a
  field of a node does not move it. The code unlinks a node by its pointer; the model finds it
  by the order the node was linked under.
\<close>

abbreviation (input) "RSPERR_INCOMPATIBLE_POOL_POLICY \<equiv> (0x0005 :: u16)"
abbreviation (input) "RSPERR_WRONG_CONTROLCHANNEL_HANDLING \<equiv> (0x0008 :: u16)"
abbreviation (input) "RSPERR_NOT_FOUND \<equiv> (0x0009 :: u16)"
abbreviation (input) "RSPERR_WRONG_PROTOCOL \<equiv> (0x100a :: u16)"
abbreviation (input) "RSPERR_INVALID_ID \<equiv> (0xf000 :: u16)"
abbreviation (input) "RSPERR_DUPLICATE_ID \<equiv> (0xf002 :: u16)"
abbreviation (input) "RSPERR_INVALID_POOL_POLICY \<equiv> (0xf003 :: u16)"
abbreviation (input) "RSPERR_INVALID_POOL_HANDLE \<equiv> (0xf004 :: u16)"
abbreviation (input) "RSPERR_INVALID_ADDRESSES \<equiv> (0xf005 :: u16)"

abbreviation (input) "PNF_CONTROLCHANNEL \<equiv> (1 :: u32)"

text \<open>\<^verbatim>\<open>(~0) ^ 0xf\<close>\<close>

definition SeqNumberStart :: u32 where
  "SeqNumberStart = 0xfffffff0"

record PoolNode =
  pn_Handle :: PoolHandle
  pn_Policy :: PoolPolicy
  pn_Protocol :: int
  pn_Flags :: u32
  pn_GlobalSeqNumber :: u32
  pn_Elements :: "u32 \<Rightarrow> PoolElementNode option"
  pn_Index :: "u32 RedBlackTree"
  pn_Selection :: "u32 RedBlackTree"

definition poolNodeNew :: "PoolHandle \<Rightarrow> PoolPolicy \<Rightarrow> int \<Rightarrow> u32 \<Rightarrow> PoolNode" where
  "poolNodeNew poolHandle poolPolicy protocol flags =
     \<lparr>pn_Handle = poolHandle, pn_Policy = poolPolicy, pn_Protocol = protocol, pn_Flags = flags,
      pn_GlobalSeqNumber = SeqNumberStart, pn_Elements = (\<lambda>_. None),
      pn_Index = RedBlackTreeNew, pn_Selection = RedBlackTreeNew\<rparr>"

text \<open>The node a pointer points to, and assignments to fields of it.\<close>

definition noNode :: PoolElementNode where
  "noNode = poolElementNodeNew 0 0 0 poolPolicySettingsNew None None 0 0"

definition node :: "PoolNode \<Rightarrow> u32 \<Rightarrow> PoolElementNode" where
  "node pn i = (case pn_Elements pn i of None \<Rightarrow> noNode | Some n \<Rightarrow> n)"

definition modifyNode :: "u32 \<Rightarrow> (PoolElementNode \<Rightarrow> PoolElementNode) \<Rightarrow> PoolNode \<Rightarrow> PoolNode" where
  "modifyNode i f pn = pn\<lparr>pn_Elements := (pn_Elements pn)(i \<mapsto> f (node pn i))\<rparr>"

section \<open>Pool elements\<close>

definition poolElementNodeUpdate :: "PoolElementNode \<Rightarrow> PoolElementNode \<Rightarrow> bool \<times> PoolElementNode" where
  "poolElementNodeUpdate n source =
     (let n1 = n\<lparr>pen_Flags := pen_Flags n AND NOT PENF_MARKED\<rparr> in
      if poolPolicySettingsComparison (pen_PolicySettings n1) (pen_PolicySettings source) \<noteq> 0 \<or>
         pen_Degradation n1 \<noteq> 0
      then let n2 = n1\<lparr>pen_PolicySettings := pen_PolicySettings source, pen_Degradation := 0\<rparr>;
               n3 = (if pen_VirtualCounter n2 > pps_Weight (pen_PolicySettings n2)
                     then n2\<lparr>pen_VirtualCounter := pps_Weight (pen_PolicySettings n2)\<rparr> else n2)
           in (True, n3\<lparr>pen_Flags := pen_Flags n3 OR PENF_UPDATED\<rparr>)
      else (False, n1\<lparr>pen_Flags := pen_Flags n1 AND NOT PENF_UPDATED\<rparr>))"

definition poolElementIndexStorageNodeComparison :: "u32 \<Rightarrow> u32 \<Rightarrow> int" where
  "poolElementIndexStorageNodeComparison i j = cmp_key i j 0"

definition poolElementSelectionStorageNodeComparison :: "PoolNode \<Rightarrow> u32 \<Rightarrow> u32 \<Rightarrow> int" where
  "poolElementSelectionStorageNodeComparison pn i j =
     pp_ComparisonFunction (pn_Policy pn) (node pn i) (node pn j)"

section \<open>Searching\<close>

definition poolNodeGetPoolElementNodes :: "PoolNode \<Rightarrow> nat" where
  "poolNodeGetPoolElementNodes pn = RedBlackTreeGetElements (pn_Index pn)"

definition poolNodeGetFirstPoolElementNodeFromIndex :: "PoolNode \<Rightarrow> u32 option" where
  "poolNodeGetFirstPoolElementNodeFromIndex pn = RedBlackTreeGetFirst (pn_Index pn)"

definition poolNodeGetNextPoolElementNodeFromIndex :: "PoolNode \<Rightarrow> u32 \<Rightarrow> u32 option" where
  "poolNodeGetNextPoolElementNodeFromIndex pn i =
     RedBlackTreeGetNext poolElementIndexStorageNodeComparison (pn_Index pn) i"

definition poolNodeGetFirstPoolElementNodeFromSelection :: "PoolNode \<Rightarrow> u32 option" where
  "poolNodeGetFirstPoolElementNodeFromSelection pn = RedBlackTreeGetFirst (pn_Selection pn)"

definition poolNodeGetLastPoolElementNodeFromSelection :: "PoolNode \<Rightarrow> u32 option" where
  "poolNodeGetLastPoolElementNodeFromSelection pn = RedBlackTreeGetLast (pn_Selection pn)"

definition poolNodeGetNextPoolElementNodeFromSelection :: "PoolNode \<Rightarrow> u32 \<Rightarrow> u32 option" where
  "poolNodeGetNextPoolElementNodeFromSelection pn i =
     RedBlackTreeGetNext (poolElementSelectionStorageNodeComparison pn) (pn_Selection pn) i"

definition poolNodeGetPrevPoolElementNodeFromSelection :: "PoolNode \<Rightarrow> u32 \<Rightarrow> u32 option" where
  "poolNodeGetPrevPoolElementNodeFromSelection pn i =
     RedBlackTreeGetPrev (poolElementSelectionStorageNodeComparison pn) (pn_Selection pn) i"

definition poolNodeFindPoolElementNode :: "PoolNode \<Rightarrow> u32 \<Rightarrow> u32 option" where
  "poolNodeFindPoolElementNode pn identifier =
     RedBlackTreeFind poolElementIndexStorageNodeComparison (pn_Index pn) identifier"

definition poolNodeFindNearestNextPoolElementNode :: "PoolNode \<Rightarrow> u32 \<Rightarrow> u32 option" where
  "poolNodeFindNearestNextPoolElementNode pn identifier =
     RedBlackTreeGetNearestNext poolElementIndexStorageNodeComparison (pn_Index pn) identifier"

section \<open>Linking\<close>

text \<open>The nodes in the order in which a loop over the selection storage visits them.\<close>

definition selectionOrder :: "PoolNode \<Rightarrow> u32 list" where
  "selectionOrder pn = map fst (contents (pn_Selection pn))"

definition poolNodeUnlinkPoolElementNodeFromSelection :: "PoolNode \<Rightarrow> u32 \<Rightarrow> fault + PoolNode" where
  "poolNodeUnlinkPoolElementNodeFromSelection pn i =
     bindR (RedBlackTreeRemove (poolElementSelectionStorageNodeComparison pn) (pn_Selection pn) i)
       (\<lambda>t. Inr (pn\<lparr>pn_Selection := t\<rparr>))"

definition poolNodeLinkPoolElementNodeToSelection :: "PoolNode \<Rightarrow> u32 \<Rightarrow> fault + PoolNode" where
  "poolNodeLinkPoolElementNodeToSelection pn i =
     CHECK (poolPolicySettingsIsValid (pen_PolicySettings (node pn i))) (\<lambda>_.
     let pn1 = (case pp_UpdatePoolElementNodeFunction (pn_Policy pn) of
                  None \<Rightarrow> pn
                | Some f \<Rightarrow> modifyNode i f pn);
         (linked, t) = RedBlackTreeInsert (poolElementSelectionStorageNodeComparison pn1)
                         (pn_Selection pn1) i (pen_SelectionValue (node pn1 i))
     in CHECK (linked = i) (\<lambda>_. Inr (pn1\<lparr>pn_Selection := t\<rparr>)))"

definition poolNodeCheckPoolElementNodeCompatibility :: "PoolNode \<Rightarrow> PoolElementNode \<Rightarrow> fault + u16" where
  "poolNodeCheckPoolElementNodeCompatibility pn n =
     (if pen_Identifier n = 0 then Inr RSPERR_INVALID_ID
      else case pen_UserTransport n of
        None \<Rightarrow> Inl NullAccess
      | Some ut \<Rightarrow>
          if pn_Protocol pn \<noteq> tab_Protocol ut then Inr RSPERR_WRONG_PROTOCOL
          else if (case pen_RegistratorTransport n of
                     None \<Rightarrow> False
                   | Some rt \<Rightarrow> tab_Protocol rt \<noteq> IPPROTO_SCTP \<or>
                       tab_Flags rt AND TABF_CONTROLCHANNEL \<noteq> 0 \<or>
                       tab_Addresses rt < 1 \<or> tab_Addresses rt > MAX_PE_TRANSPORTADDRESSES \<or>
                       tab_Port rt = 0)
               then Inr RSPERR_INVALID_REGISTRATOR
          else if tab_Addresses ut < 1 \<or> tab_Addresses ut > MAX_PE_TRANSPORTADDRESSES
               then Inr RSPERR_INVALID_ADDRESSES
          else if tab_Port ut = 0 then Inr RSPERR_INVALID_ADDRESSES
          else if pn_Flags pn AND PNF_CONTROLCHANNEL \<noteq> 0 \<and> \<not> tab_Flags ut AND TABF_CONTROLCHANNEL \<noteq> 0
               then Inr RSPERR_WRONG_CONTROLCHANNEL_HANDLING
          else if \<not> pn_Flags pn AND PNF_CONTROLCHANNEL \<noteq> 0 \<and> tab_Flags ut AND TABF_CONTROLCHANNEL \<noteq> 0
               then Inr RSPERR_WRONG_CONTROLCHANNEL_HANDLING
          else if \<not> poolPolicySettingsIsValid (pen_PolicySettings n) then Inr RSPERR_INVALID_POOL_POLICY
          else if \<not> poolPolicySettingsAdapt (pen_PolicySettings n) (pp_Type (pn_Policy pn))
               then Inr RSPERR_INCOMPATIBLE_POOL_POLICY
          else Inr RSPERR_OKAY)"

section \<open>Sequence numbers and rounds\<close>

primrec resequenceFrom :: "u32 list \<Rightarrow> PoolNode \<Rightarrow> PoolNode" where
  "resequenceFrom [] pn = pn"
| "resequenceFrom (i # is) pn =
     resequenceFrom is
       ((modifyNode i (\<lambda>n. n\<lparr>pen_SeqNumber := pn_GlobalSeqNumber pn\<rparr>) pn)
          \<lparr>pn_GlobalSeqNumber := pn_GlobalSeqNumber pn + 1\<rparr>)"

definition poolNodeResequence :: "PoolNode \<Rightarrow> PoolNode" where
  "poolNodeResequence pn = resequenceFrom (selectionOrder pn) (pn\<lparr>pn_GlobalSeqNumber := 0\<rparr>)"

definition weightedRoundRobinGetCurrentRoundCounter :: "PoolNode \<Rightarrow> u32" where
  "weightedRoundRobinGetCurrentRoundCounter pn =
     (case poolNodeGetFirstPoolElementNodeFromSelection pn of
        None \<Rightarrow> SeqNumberStart
      | Some i \<Rightarrow> pen_RoundCounter (node pn i))"

primrec lowerRoundCounters :: "u32 \<Rightarrow> u32 list \<Rightarrow> PoolNode \<Rightarrow> PoolNode" where
  "lowerRoundCounters lowest [] pn = pn"
| "lowerRoundCounters lowest (i # is) pn =
     lowerRoundCounters lowest is
       (modifyNode i (\<lambda>n. n\<lparr>pen_RoundCounter := pen_RoundCounter n - lowest\<rparr>) pn)"

definition weightedRoundRobinResetRoundCounters :: "PoolNode \<Rightarrow> PoolNode" where
  "weightedRoundRobinResetRoundCounters pn =
     (case poolNodeGetFirstPoolElementNodeFromSelection pn of
        None \<Rightarrow> pn
      | Some i \<Rightarrow> lowerRoundCounters (pen_RoundCounter (node pn i)) (selectionOrder pn) pn)"

text \<open>The functions behind the pointers of the policy table.\<close>

fun callInitialize :: "InitializeFunction \<Rightarrow> u32 \<Rightarrow> PoolNode \<Rightarrow> PoolNode" where
  "callInitialize weightedRoundRobinInitializePoolElementNode i pn =
     modifyNode i (\<lambda>n. n\<lparr>pen_RoundCounter := weightedRoundRobinGetCurrentRoundCounter pn,
                         pen_VirtualCounter := pps_Weight (pen_PolicySettings n)\<rparr>) pn"

fun callPrepare :: "PrepareFunction \<Rightarrow> PoolNode \<Rightarrow> PoolNode" where
  "callPrepare weightedRoundRobinPrepareSelection pn =
     (let currentRoundCounter = weightedRoundRobinGetCurrentRoundCounter pn in
      if currentRoundCounter + 2 < currentRoundCounter
      then weightedRoundRobinResetRoundCounters pn else pn)"

section \<open>Adding, updating and removing\<close>

datatype addition = NotAdded | Added | Present

text \<open>
  \<^verbatim>\<open>Insert\<close> on the index storage gives back the node that is already there under the
  identifier, if there is one; it is looked up first here, since the pointers are the identifiers.
\<close>

definition poolNodeAddPoolElementNode :: "PoolNode \<Rightarrow> PoolElementNode \<Rightarrow> fault + (u16 \<times> addition \<times> PoolNode)" where
  "poolNodeAddPoolElementNode pn n =
     bindR (poolNodeCheckPoolElementNodeCompatibility pn n) (\<lambda>errorCode.
     if errorCode \<noteq> RSPERR_OKAY then Inr (errorCode, NotAdded, pn)
     else case poolNodeFindPoolElementNode pn (pen_Identifier n) of
        Some j \<Rightarrow> Inr (RSPERR_DUPLICATE_ID, Present, pn)
      | None \<Rightarrow>
          let i = pen_Identifier n;
              pn1 = pn\<lparr>pn_Index := snd (RedBlackTreeInsert poolElementIndexStorageNodeComparison (pn_Index pn) i 0)\<rparr>;
              pn2 = (if pn_GlobalSeqNumber pn1 + 1 < pn_GlobalSeqNumber pn1 then poolNodeResequence pn1 else pn1);
              pn3 = pn2\<lparr>pn_Elements := (pn_Elements pn2)(i \<mapsto>
                        n\<lparr>pen_Flags := pen_Flags n OR PENF_UPDATED,
                          pen_SeqNumber := pn_GlobalSeqNumber pn2,
                          pen_VirtualCounter := 0, pen_RoundCounter := 0,
                          pen_SelectionCounter := 0, pen_Degradation := 0\<rparr>),
                       pn_GlobalSeqNumber := pn_GlobalSeqNumber pn2 + 1\<rparr>;
              pn4 = (case pp_InitializePoolElementNodeFunction (pn_Policy pn3) of
                       None \<Rightarrow> pn3
                     | Some f \<Rightarrow> callInitialize f i pn3)
          in bindR (poolNodeLinkPoolElementNodeToSelection pn4 i) (\<lambda>pn5.
             Inr (RSPERR_OKAY, Added, pn5)))"

definition poolNodeUpdatePoolElementNode :: "PoolNode \<Rightarrow> u32 \<Rightarrow> PoolElementNode \<Rightarrow> fault + (u16 \<times> PoolNode)" where
  "poolNodeUpdatePoolElementNode pn i source =
     bindR (poolNodeCheckPoolElementNodeCompatibility pn (node pn i)) (\<lambda>errorCode.
     if errorCode \<noteq> RSPERR_OKAY then Inr (errorCode, pn)
     else let (changed, n) = poolElementNodeUpdate (node pn i) source in
          if \<not> changed then Inr (RSPERR_OKAY, modifyNode i (\<lambda>_. n) pn)
          else bindR (poolNodeUnlinkPoolElementNodeFromSelection pn i) (\<lambda>pn1.
               bindR (poolNodeLinkPoolElementNodeToSelection (modifyNode i (\<lambda>_. n) pn1) i) (\<lambda>pn2.
               Inr (RSPERR_OKAY, pn2))))"

definition poolNodeRemovePoolElementNode :: "PoolNode \<Rightarrow> u32 \<Rightarrow> fault + (PoolElementNode \<times> PoolNode)" where
  "poolNodeRemovePoolElementNode pn i =
     bindR (RedBlackTreeRemove poolElementIndexStorageNodeComparison (pn_Index pn) i) (\<lambda>t1.
     bindR (RedBlackTreeRemove (poolElementSelectionStorageNodeComparison pn) (pn_Selection pn) i) (\<lambda>t2.
     Inr (node pn i,
          pn\<lparr>pn_Index := t1, pn_Selection := t2, pn_Elements := (pn_Elements pn)(i := None)\<rparr>)))"

section \<open>Selecting\<close>

text \<open>The first loop of the selection by sorting order.\<close>

primrec collectFromSelection :: "nat \<Rightarrow> PoolNode \<Rightarrow> u32 option \<Rightarrow> u32 list" where
  "collectFromSelection 0 pn current = []"
| "collectFromSelection (Suc k) pn current =
     (case current of
        None \<Rightarrow> []
      | Some i \<Rightarrow> i # collectFromSelection k pn (poolNodeGetNextPoolElementNodeFromSelection pn i))"

text \<open>The second loop: each selected node is unlinked, updated and linked again.\<close>

primrec reinsertSelected :: "u32 list \<Rightarrow> PoolNode \<Rightarrow> fault + PoolNode" where
  "reinsertSelected [] pn = Inr pn"
| "reinsertSelected (i # is) pn =
     bindR (poolNodeUnlinkPoolElementNodeFromSelection pn i) (\<lambda>pn1.
     let pn2 = (modifyNode i (\<lambda>n. n\<lparr>pen_SeqNumber := pn_GlobalSeqNumber pn1,
                                    pen_SelectionCounter := pen_SelectionCounter n + 1\<rparr>) pn1)
                 \<lparr>pn_GlobalSeqNumber := pn_GlobalSeqNumber pn1 + 1\<rparr>;
         pn3 = (case pp_UpdatePoolElementNodeFunction (pn_Policy pn2) of
                  None \<Rightarrow> pn2
                | Some f \<Rightarrow> modifyNode i f pn2)
     in bindR (poolNodeLinkPoolElementNodeToSelection pn3 i) (reinsertSelected is))"

definition prepareSelection :: "nat \<Rightarrow> PoolNode \<Rightarrow> PoolNode" where
  "prepareSelection maxPoolElementNodes pn =
     (let pn1 = (if pn_GlobalSeqNumber pn + of_nat maxPoolElementNodes < pn_GlobalSeqNumber pn
                 then poolNodeResequence pn else pn)
      in case pp_PrepareSelectionFunction (pn_Policy pn1) of
           None \<Rightarrow> pn1
         | Some f \<Rightarrow> callPrepare f pn1)"

definition selectBySortingOrder :: "PoolNode \<Rightarrow> nat \<Rightarrow> nat \<Rightarrow> fault + (u32 list \<times> PoolNode)" where
  "selectBySortingOrder pn maxPoolElementNodes maxIncrement0 =
     (let maxIncrement = (if maxIncrement0 = 0 then pp_DefaultMaxIncrement (pn_Policy pn) else maxIncrement0)
      in CHECK (maxPoolElementNodes \<ge> 1) (\<lambda>_.
         let pn1 = prepareSelection maxPoolElementNodes pn;
             selected = collectFromSelection maxPoolElementNodes pn1
                          (poolNodeGetFirstPoolElementNodeFromSelection pn1);
             elementsToUpdate = (if length selected > maxIncrement then maxIncrement else length selected)
         in bindR (reinsertSelected (take elementsToUpdate selected) pn1) (\<lambda>pn2. Inr (selected, pn2))))"

text \<open>
  Drawing by value: \<open>random i\<close> is the result of the i-th call of \<^verbatim>\<open>random64()\<close>. The loop
  has at most \<open>k\<close> further rounds.
\<close>

primrec drawSelected ::
  "(nat \<Rightarrow> u64) \<Rightarrow> nat \<Rightarrow> nat \<Rightarrow> u32 list \<Rightarrow> PoolNode \<Rightarrow> fault + (u32 list \<times> PoolNode)" where
  "drawSelected random maxIncrement 0 selected pn = Inr (selected, pn)"
| "drawSelected random maxIncrement (Suc k) selected pn =
     (let maxValue = RedBlackTreeGetValueSum (pn_Selection pn) in
      if maxValue < 1 then Inr (selected, pn)
      else case RedBlackTreeGetNodeByValue (pn_Selection pn) (random (length selected) mod maxValue) of
          None \<Rightarrow> Inr (selected, pn)
        | Some i \<Rightarrow>
            let pn1 = (modifyNode i (\<lambda>n. n\<lparr>pen_SeqNumber := pn_GlobalSeqNumber pn,
                                           pen_SelectionCounter := pen_SelectionCounter n + 1\<rparr>) pn)
                        \<lparr>pn_GlobalSeqNumber := pn_GlobalSeqNumber pn + 1\<rparr>;
                pn2 = (if length selected < maxIncrement
                       then (case pp_UpdatePoolElementNodeFunction (pn_Policy pn1) of
                               None \<Rightarrow> pn1
                             | Some f \<Rightarrow> modifyNode i f pn1)
                       else pn1)
            in bindR (poolNodeUnlinkPoolElementNodeFromSelection pn i) (\<lambda>unlinked.
               drawSelected random maxIncrement k (selected @ [i])
                 (pn2\<lparr>pn_Selection := pn_Selection unlinked\<rparr>)))"

primrec linkAll :: "u32 list \<Rightarrow> PoolNode \<Rightarrow> fault + PoolNode" where
  "linkAll [] pn = Inr pn"
| "linkAll (i # is) pn = bindR (poolNodeLinkPoolElementNodeToSelection pn i) (linkAll is)"

definition selectByValueTree ::
  "(nat \<Rightarrow> u64) \<Rightarrow> PoolNode \<Rightarrow> nat \<Rightarrow> nat \<Rightarrow> fault + (u32 list \<times> PoolNode)" where
  "selectByValueTree random pn maxPoolElementNodes maxIncrement0 =
     (let poolElements = RedBlackTreeGetElements (pn_Selection pn);
          maxIncrement = (if maxIncrement0 = 0 then pp_DefaultMaxIncrement (pn_Policy pn) else maxIncrement0)
      in CHECK (maxPoolElementNodes \<ge> 1) (\<lambda>_.
         bindR (drawSelected random maxIncrement (min poolElements maxPoolElementNodes) []
                  (prepareSelection maxPoolElementNodes pn)) (\<lambda>(selected, pn1).
         bindR (linkAll selected pn1) (\<lambda>pn2. Inr (selected, pn2)))))"

fun callSelection ::
  "(nat \<Rightarrow> u64) \<Rightarrow> SelectionFunction \<Rightarrow> PoolNode \<Rightarrow> nat \<Rightarrow> nat \<Rightarrow> fault + (u32 list \<times> PoolNode)" where
  "callSelection random poolPolicySelectPoolElementNodesBySortingOrder = selectBySortingOrder"
| "callSelection random poolPolicySelectPoolElementNodesByValueTree = selectByValueTree random"

end
