(* ===== verification/RSP_PoolLaws.thy ===== *)
theory RSP_PoolLaws
  imports RSP_Pool
begin

text \<open>
  The invariant of a pool and what its operations do to the selection order: linking and
  unlinking never fail a check, resequencing keeps the order, a pool element is found after it
  was added and not any more after it was removed, and the selections return distinct pool
  elements of the pool. The order of a pool is that of its policy.
\<close>

section \<open>The order of a storage\<close>

lemma ascending_distinct: "comparator cmp \<Longrightarrow> ascending cmp es \<Longrightarrow> distinct (map fst es)"
proof (induction es)
  case (Cons e es)
  then show ?case using comparator.cmp_refl [of cmp "fst e"] by (force simp: ascending_Cons)
qed simp

lemma ascending_mono:
  "ascending cmp es \<Longrightarrow> (\<And>a b. a \<in> fst ` set es \<Longrightarrow> b \<in> fst ` set es \<Longrightarrow> cmp a b < 0 \<Longrightarrow> cmp' a b < 0) \<Longrightarrow>
     ascending cmp' es"
  unfolding ascending_def by (erule sorted_wrt_mono_rel [rotated]) auto

lemma rbt_wf_order: "rbt_wf cmp rbt \<Longrightarrow> ascending cmp' (contents rbt) \<Longrightarrow> rbt_wf cmp' rbt"
  by (simp add: rbt_wf_def)

lemma rbt_wf_mono:
  assumes "rbt_wf cmp rbt"
    and "\<And>a b. a \<in> fst ` set (contents rbt) \<Longrightarrow> b \<in> fst ` set (contents rbt) \<Longrightarrow> cmp a b < 0 \<Longrightarrow> cmp' a b < 0"
  shows "rbt_wf cmp' rbt"
proof (rule rbt_wf_order [OF assms(1)])
  have "ascending cmp (contents rbt)" using assms(1) by (simp add: rbt_wf_def)
  then show "ascending cmp' (contents rbt)" using assms(2) by (rule ascending_mono)
qed

section \<open>The index storage\<close>

interpretation index: comparator poolElementIndexStorageNodeComparison
  unfolding poolElementIndexStorageNodeComparison_def [abs_def] by (rule comparator_key0)

lemma index_zero: "poolElementIndexStorageNodeComparison i j = 0 \<longleftrightarrow> i = j"
  by (cases i j rule: linorder_cases) (simp_all add: poolElementIndexStorageNodeComparison_def cmp_key_def)

lemma findEntry_unique:
  assumes "\<And>e. e \<in> set es \<Longrightarrow> cmp k (fst e) = 0 \<longleftrightarrow> fst e = k"
  shows "findEntry cmp k es = (if k \<in> fst ` set es then Some k else None)"
proof -
  have "filter (\<lambda>e. cmp k (fst e) = 0) es = filter (\<lambda>e. fst e = k) es"
    using assms by (intro filter_cong) auto
  moreover have "firstOf (filter (\<lambda>e. fst e = k) es) = (if k \<in> fst ` set es then Some k else None)"
    by (induction es) auto
  ultimately show ?thesis by (simp add: findEntry_def)
qed

lemma removeEntry_unique:
  assumes "\<And>e. e \<in> set es \<Longrightarrow> cmp k (fst e) = 0 \<longleftrightarrow> fst e = k"
  shows "removeEntry cmp k es = filter (\<lambda>e. fst e \<noteq> k) es"
  using assms unfolding removeEntry_def by (intro filter_cong) auto

lemma set_insertEntry:
  assumes "\<And>e. e \<in> set es \<Longrightarrow> cmp k (fst e) \<noteq> 0"
  shows "set (insertEntry cmp k v es) = Set.insert (k, v) (set es)"
  using assms by (force simp: insertEntry_def list_ex_iff)

definition indexed :: "PoolNode \<Rightarrow> u32 set" where
  "indexed pn = fst ` set (contents (pn_Index pn))"

definition idx_inv :: "PoolNode \<Rightarrow> bool" where
  "idx_inv pn \<longleftrightarrow> rbt_wf poolElementIndexStorageNodeComparison (pn_Index pn)"

lemma index_entry:
  "findEntry poolElementIndexStorageNodeComparison i es = (if i \<in> fst ` set es then Some i else None)"
  "removeEntry poolElementIndexStorageNodeComparison i es = filter (\<lambda>e. fst e \<noteq> i) es"
  by (rule findEntry_unique removeEntry_unique; auto simp: index_zero)+

lemma index_find:
  "idx_inv pn \<Longrightarrow> poolNodeFindPoolElementNode pn i = (if i \<in> indexed pn then Some i else None)"
  unfolding idx_inv_def poolNodeFindPoolElementNode_def indexed_def
  by (simp add: index.find_ok index_entry)

lemma index_insert:
  assumes "idx_inv pn" "i \<notin> indexed pn"
    and t: "t = snd (RedBlackTreeInsert poolElementIndexStorageNodeComparison (pn_Index pn) i v)"
  shows "rbt_wf poolElementIndexStorageNodeComparison t" "fst ` set (contents t) = Set.insert i (indexed pn)"
proof -
  show "rbt_wf poolElementIndexStorageNodeComparison t"
    using assms index.rbt.insert_inv by (simp add: idx_inv_def)
  have "set (contents t) = Set.insert (i, v) (set (contents (pn_Index pn)))"
    using assms(1,2) index.rbt.insert_items [of "pn_Index pn" i v]
    by (subst t) (force simp: idx_inv_def indexed_def index_zero intro!: set_insertEntry)
  then show "fst ` set (contents t) = Set.insert i (indexed pn)" by (auto simp: indexed_def)
qed

lemma index_remove:
  assumes "idx_inv pn" "i \<in> indexed pn"
  shows "\<exists>t. RedBlackTreeRemove poolElementIndexStorageNodeComparison (pn_Index pn) i = Inr t \<and>
    rbt_wf poolElementIndexStorageNodeComparison t \<and> fst ` set (contents t) = indexed pn - {i}"
proof -
  have "findEntry poolElementIndexStorageNodeComparison i (contents (pn_Index pn)) \<noteq> None"
    using assms(2) by (simp add: index_entry indexed_def)
  from index.remove_ok [OF _ this] assms(1) show ?thesis
    by (force simp: idx_inv_def indexed_def index_entry)
qed

section \<open>The selection storage\<close>

definition pool_nodes :: "PoolNode \<Rightarrow> u32 set" where
  "pool_nodes pn = dom (pn_Elements pn)"

text \<open>The invariant while the nodes in \<open>U\<close> are not linked.\<close>

definition sel_inv :: "u32 set \<Rightarrow> PoolNode \<Rightarrow> bool" where
  "sel_inv U pn \<longleftrightarrow> pn_Policy pn \<in> set PoolPolicyArray \<and> U \<subseteq> pool_nodes pn \<and>
     rbt_wf (poolElementSelectionStorageNodeComparison pn) (pn_Selection pn) \<and>
     set (selectionOrder pn) = pool_nodes pn - U \<and>
     (\<forall>i \<in> pool_nodes pn. pen_Identifier (node pn i) = i \<and> pen_SeqNumber (node pn i) < pn_GlobalSeqNumber pn) \<and>
     inj_on (\<lambda>i. pen_SeqNumber (node pn i)) (pool_nodes pn) \<and>
     (\<forall>e \<in> set (contents (pn_Selection pn)). snd e = pen_SelectionValue (node pn (fst e)))"

lemma sel_invD:
  assumes "sel_inv U pn"
  shows "pn_Policy pn \<in> set PoolPolicyArray" "U \<subseteq> pool_nodes pn"
    "rbt_wf (poolElementSelectionStorageNodeComparison pn) (pn_Selection pn)"
    "set (selectionOrder pn) = pool_nodes pn - U"
    "i \<in> pool_nodes pn \<Longrightarrow> pen_Identifier (node pn i) = i"
    "i \<in> pool_nodes pn \<Longrightarrow> pen_SeqNumber (node pn i) < pn_GlobalSeqNumber pn"
    "inj_on (\<lambda>i. pen_SeqNumber (node pn i)) (pool_nodes pn)"
    "e \<in> set (contents (pn_Selection pn)) \<Longrightarrow> snd e = pen_SelectionValue (node pn (fst e))"
  using assms by (simp_all add: sel_inv_def)

lemma selection_comparator:
  "pn_Policy pn \<in> set PoolPolicyArray \<Longrightarrow> comparator (poolElementSelectionStorageNodeComparison pn)"
  unfolding poolElementSelectionStorageNodeComparison_def [abs_def]
  using policy_order_table [of "pn_Policy pn"]
  by (rule comparator_map [OF policy_order.axioms(1)])

lemma selection_zero:
  assumes "sel_inv U pn" "i \<in> pool_nodes pn" "j \<in> pool_nodes pn"
  shows "poolElementSelectionStorageNodeComparison pn i j = 0 \<longleftrightarrow> i = j"
proof
  assume "poolElementSelectionStorageNodeComparison pn i j = 0"
  then have "pen_SeqNumber (node pn i) = pen_SeqNumber (node pn j) \<or>
      pen_Identifier (node pn i) = pen_Identifier (node pn j)"
    using policy_order.cmp_tie [OF policy_order_table [OF sel_invD(1) [OF assms(1)]]]
    by (simp add: poolElementSelectionStorageNodeComparison_def)
  then show "i = j"
    using sel_invD(5) [OF assms(1)] sel_invD(7) [OF assms(1)] assms(2,3) by (auto dest: inj_onD)
next
  assume "i = j"
  then show "poolElementSelectionStorageNodeComparison pn i j = 0"
    using comparator.cmp_refl [OF selection_comparator [OF sel_invD(1) [OF assms(1)]]] by simp
qed

lemma selectionOrder_set: "set (selectionOrder pn) = fst ` set (contents (pn_Selection pn))"
  by (simp add: selectionOrder_def)

lemma selectionOrder_distinct: "sel_inv U pn \<Longrightarrow> distinct (selectionOrder pn)"
  unfolding selectionOrder_def
  using ascending_distinct [OF selection_comparator [OF sel_invD(1)], of U pn "contents (pn_Selection pn)"]
    sel_invD(3) [of U pn]
  by (simp add: rbt_wf_def)

lemma linked_node: "sel_inv U pn \<Longrightarrow> e \<in> set (contents (pn_Selection pn)) \<Longrightarrow> fst e \<in> pool_nodes pn"
  using sel_invD(4) [of U pn] by (auto simp: selectionOrder_set)

text \<open>The comparison reads the nodes from the store.\<close>

lemma selection_frame:
  assumes "pn_Policy pn' = pn_Policy pn" "node pn' i = node pn i" "node pn' j = node pn j"
  shows "poolElementSelectionStorageNodeComparison pn' i j = poolElementSelectionStorageNodeComparison pn i j"
  using assms by (simp add: poolElementSelectionStorageNodeComparison_def)

text \<open>Unlinking.\<close>

lemma sel_inv_keep:
  assumes inv: "sel_inv U pn"
    and "pn_Policy pn' = pn_Policy pn" "pn_Selection pn' = pn_Selection pn" "pool_nodes pn' = pool_nodes pn"
    and "\<And>i. i \<in> pool_nodes pn \<Longrightarrow> pen_Identifier (node pn' i) = i"
    and "\<And>i. i \<in> pool_nodes pn \<Longrightarrow> pen_SeqNumber (node pn' i) < pn_GlobalSeqNumber pn'"
    and "inj_on (\<lambda>i. pen_SeqNumber (node pn' i)) (pool_nodes pn)"
    and sv: "\<And>i. i \<in> pool_nodes pn - U \<Longrightarrow> pen_SelectionValue (node pn' i) = pen_SelectionValue (node pn i)"
    and ord: "\<And>i j. i \<in> pool_nodes pn - U \<Longrightarrow> j \<in> pool_nodes pn - U \<Longrightarrow>
      poolElementSelectionStorageNodeComparison pn i j < 0 \<Longrightarrow> poolElementSelectionStorageNodeComparison pn' i j < 0"
  shows "sel_inv U pn'"
proof -
  have lk: "fst ` set (contents (pn_Selection pn)) = pool_nodes pn - U"
    using sel_invD(4) [OF inv] by (simp add: selectionOrder_set)
  have "rbt_wf (poolElementSelectionStorageNodeComparison pn') (pn_Selection pn)"
    by (rule rbt_wf_mono [OF sel_invD(3) [OF inv]]) (simp add: lk ord)
  moreover have "snd e = pen_SelectionValue (node pn' (fst e))" if "e \<in> set (contents (pn_Selection pn))" for e
    using sel_invD(8) [OF inv that] sv [of "fst e"] imageI [OF that, of fst] lk by simp
  ultimately show ?thesis
    using assms(2-7) sel_invD(1,2) [OF inv] lk by (simp add: sel_inv_def selectionOrder_set)
qed

lemma unlink_ok:
  assumes inv: "sel_inv U pn" and i: "i \<in> pool_nodes pn - U"
  shows "\<exists>t. poolNodeUnlinkPoolElementNodeFromSelection pn i = Inr (pn\<lparr>pn_Selection := t\<rparr>) \<and>
    sel_inv (Set.insert i U) (pn\<lparr>pn_Selection := t\<rparr>) \<and>
    contents t = filter (\<lambda>e. fst e \<noteq> i) (contents (pn_Selection pn))"
proof -
  let ?c = "poolElementSelectionStorageNodeComparison pn" and ?es = "contents (pn_Selection pn)"
  have z: "e \<in> set ?es \<Longrightarrow> ?c i (fst e) = 0 \<longleftrightarrow> fst e = i" for e
    using selection_zero [OF inv _ linked_node [OF inv], of i e] i by auto
  have "i \<in> fst ` set ?es" using i sel_invD(4) [OF inv] by (simp add: selectionOrder_set)
  then have "findEntry ?c i ?es \<noteq> None" using findEntry_unique [of ?es ?c i] z by simp
  then obtain t where t: "RedBlackTreeRemove ?c (pn_Selection pn) i = Inr t" "rbt_wf ?c t"
    "contents t = removeEntry ?c i ?es"
    using comparator.remove_ok [OF selection_comparator [OF sel_invD(1) [OF inv]] sel_invD(3) [OF inv]] by blast
  have c: "contents t = filter (\<lambda>e. fst e \<noteq> i) ?es"
    using t(3) removeEntry_unique [of ?es ?c i] z by simp
  let ?pn = "pn\<lparr>pn_Selection := t\<rparr>"
  have n: "node ?pn = node pn" by (simp add: node_def fun_eq_iff)
  then have w: "poolElementSelectionStorageNodeComparison ?pn = ?c"
    by (intro ext) (simp add: poolElementSelectionStorageNodeComparison_def)
  have s: "set (selectionOrder ?pn) = pool_nodes pn - Set.insert i U"
    using sel_invD(4) [OF inv] c by (auto simp: selectionOrder_set)
  have "sel_inv (Set.insert i U) ?pn"
    using inv i t(2) c s unfolding sel_inv_def w n by (simp add: pool_nodes_def)
  then show ?thesis using t(1) c by (auto simp: poolNodeUnlinkPoolElementNodeFromSelection_def)
qed

text \<open>Changing a node that is not linked, or a field no sorting order looks at.\<close>

lemma node_modify [simp]: "node (modifyNode i f pn) j = (if j = i then f (node pn i) else node pn j)"
  by (simp add: node_def modifyNode_def)

lemma modify_simps [simp]:
  "pn_Policy (modifyNode i f pn) = pn_Policy pn" "pn_Selection (modifyNode i f pn) = pn_Selection pn"
  "pn_Index (modifyNode i f pn) = pn_Index pn" "pn_GlobalSeqNumber (modifyNode i f pn) = pn_GlobalSeqNumber pn"
  "pn_Handle (modifyNode i f pn) = pn_Handle pn" "pn_Protocol (modifyNode i f pn) = pn_Protocol pn"
  "pn_Flags (modifyNode i f pn) = pn_Flags pn" "selectionOrder (modifyNode i f pn) = selectionOrder pn"
  by (simp_all add: modifyNode_def selectionOrder_def)

lemma pool_nodes_modify [simp]: "i \<in> pool_nodes pn \<Longrightarrow> pool_nodes (modifyNode i f pn) = pool_nodes pn"
  by (auto simp: modifyNode_def pool_nodes_def)

lemma node_update [simp]:
  "node (pn\<lparr>pn_GlobalSeqNumber := g\<rparr>) = node pn" "node (pn\<lparr>pn_Selection := t\<rparr>) = node pn"
  "node (pn\<lparr>pn_Index := t\<rparr>) = node pn"
  by (simp_all add: node_def fun_eq_iff)

lemma pool_nodes_update [simp]:
  "pool_nodes (pn\<lparr>pn_GlobalSeqNumber := g\<rparr>) = pool_nodes pn" "pool_nodes (pn\<lparr>pn_Selection := t\<rparr>) = pool_nodes pn"
  "pool_nodes (pn\<lparr>pn_Index := t\<rparr>) = pool_nodes pn"
  by (simp_all add: pool_nodes_def)

lemma modify_unlinked:
  assumes inv: "sel_inv U pn" and i: "i \<in> U"
    and f: "pen_Identifier (f (node pn i)) = i" "pen_SeqNumber (f (node pn i)) = pen_SeqNumber (node pn i)"
  shows "sel_inv U (modifyNode i f pn)"
proof (rule sel_inv_keep [OF inv])
  have ip: "i \<in> pool_nodes pn" using sel_invD(2) [OF inv] i by auto
  then show "pool_nodes (modifyNode i f pn) = pool_nodes pn" by simp
  have "(\<lambda>j. pen_SeqNumber (node (modifyNode i f pn) j)) = (\<lambda>j. pen_SeqNumber (node pn j))"
    using f(2) by auto
  then show "inj_on (\<lambda>j. pen_SeqNumber (node (modifyNode i f pn) j)) (pool_nodes pn)"
    using sel_invD(7) [OF inv] by simp
  fix j assume "j \<in> pool_nodes pn"
  then show "pen_Identifier (node (modifyNode i f pn) j) = j"
    "pen_SeqNumber (node (modifyNode i f pn) j) < pn_GlobalSeqNumber (modifyNode i f pn)"
    using sel_invD(5,6) [OF inv, of j] f by (cases "j = i"; simp)+
qed (use i in \<open>auto simp: poolElementSelectionStorageNodeComparison_def\<close>)

lemma modify_fields:
  assumes inv: "sel_inv U pn" and i: "i \<in> pool_nodes pn"
    and f: "sortingFields (f (node pn i)) = sortingFields (node pn i)"
      "pen_SelectionValue (f (node pn i)) = pen_SelectionValue (node pn i)"
  shows "sel_inv U (modifyNode i f pn)"
proof (rule sel_inv_keep [OF inv])
  have g: "pen_Identifier (f (node pn i)) = pen_Identifier (node pn i)"
    "pen_SeqNumber (f (node pn i)) = pen_SeqNumber (node pn i)"
    using f(1) by (simp_all add: sortingFields_def)
  then have "(\<lambda>j. pen_SeqNumber (node (modifyNode i f pn) j)) = (\<lambda>j. pen_SeqNumber (node pn j))" by auto
  then show "inj_on (\<lambda>j. pen_SeqNumber (node (modifyNode i f pn) j)) (pool_nodes pn)"
    using sel_invD(7) [OF inv] by simp
  fix j assume j: "j \<in> pool_nodes pn"
  then show "pen_Identifier (node (modifyNode i f pn) j) = j"
    "pen_SeqNumber (node (modifyNode i f pn) j) < pn_GlobalSeqNumber (modifyNode i f pn)"
    using sel_invD(5,6) [OF inv, of j] g by (cases "j = i"; simp)+
next
  fix j k assume "poolElementSelectionStorageNodeComparison pn j k < 0"
  moreover have "sortingFields (node (modifyNode i f pn) j) = sortingFields (node pn j)" for j
    using f(1) by simp
  ultimately show "poolElementSelectionStorageNodeComparison (modifyNode i f pn) j k < 0"
    using policy_order.cmp_fields [OF policy_order_table [OF sel_invD(1) [OF inv]],
        of "node (modifyNode i f pn) j" "node pn j" "node (modifyNode i f pn) k" "node pn k"]
    by (simp add: poolElementSelectionStorageNodeComparison_def)
qed (use i f(2) in \<open>simp_all\<close>)

text \<open>A new sequence number.\<close>

lemma stamp_unlinked:
  assumes inv: "sel_inv U pn" and i: "i \<in> U"
    and f: "pen_Identifier (f (node pn i)) = i" "pen_SeqNumber (f (node pn i)) = pn_GlobalSeqNumber pn"
    and g: "pn_GlobalSeqNumber pn < pn_GlobalSeqNumber pn + 1"
  shows "sel_inv U ((modifyNode i f pn)\<lparr>pn_GlobalSeqNumber := pn_GlobalSeqNumber pn + 1\<rparr>)"
proof (rule sel_inv_keep [OF inv])
  have ip: "i \<in> pool_nodes pn" using sel_invD(2) [OF inv] i by auto
  let ?pn = "(modifyNode i f pn)\<lparr>pn_GlobalSeqNumber := pn_GlobalSeqNumber pn + 1\<rparr>"
  show "pool_nodes ?pn = pool_nodes pn" using ip by simp
  have lt: "pen_SeqNumber (node pn j) \<noteq> pn_GlobalSeqNumber pn" if "j \<in> pool_nodes pn" for j
    using sel_invD(6) [OF inv that] by simp
  show "inj_on (\<lambda>j. pen_SeqNumber (node ?pn j)) (pool_nodes pn)"
  proof (rule inj_onI)
    fix a b assume ab: "a \<in> pool_nodes pn" "b \<in> pool_nodes pn" "pen_SeqNumber (node ?pn a) = pen_SeqNumber (node ?pn b)"
    show "a = b"
    proof (cases "a = i \<or> b = i")
      case True
      then show ?thesis using ab lt [of a] lt [of b] f(2) by (auto split: if_splits)
    next
      case False
      then show ?thesis using ab inj_onD [OF sel_invD(7) [OF inv], of a b] by simp
    qed
  qed
  fix j assume j: "j \<in> pool_nodes pn"
  then show "pen_Identifier (node ?pn j) = j" using sel_invD(5) [OF inv] f by simp
  show "pen_SeqNumber (node ?pn j) < pn_GlobalSeqNumber ?pn"
    using sel_invD(6) [OF inv j] f(2) g by (auto intro: less_trans)
qed (use i in \<open>auto simp: poolElementSelectionStorageNodeComparison_def\<close>)

text \<open>Linking: the policy updates the node, and the tree takes it.\<close>

lemma modify_same: "i \<in> pool_nodes pn \<Longrightarrow> modifyNode i (\<lambda>n. n) pn = pn"
  by (auto simp: modifyNode_def node_def pool_nodes_def fun_upd_idem)

lemma link_update:
  "i \<in> pool_nodes pn \<Longrightarrow>
     (case pp_UpdatePoolElementNodeFunction (pn_Policy pn) of None \<Rightarrow> pn | Some f \<Rightarrow> modifyNode i f pn) =
       modifyNode i (policyUpdate (pn_Policy pn)) pn"
  by (cases "pp_UpdatePoolElementNodeFunction (pn_Policy pn)") (simp_all add: policyUpdate_def [abs_def] modify_same)

definition linked :: "u32 \<Rightarrow> PoolNode \<Rightarrow> PoolNode \<Rightarrow> bool" where
  "linked i pn pn' \<longleftrightarrow>
     (let pn1 = modifyNode i (policyUpdate (pn_Policy pn)) pn in
      pn' = pn1\<lparr>pn_Selection := pn_Selection pn'\<rparr> \<and>
      contents (pn_Selection pn') =
        insertEntry (poolElementSelectionStorageNodeComparison pn1) i (pen_SelectionValue (node pn1 i))
          (contents (pn_Selection pn)))"

lemma link_ok:
  assumes inv: "sel_inv U pn" and i: "i \<in> U" and v: "poolPolicySettingsIsValid (pen_PolicySettings (node pn i))"
  shows "\<exists>pn'. poolNodeLinkPoolElementNodeToSelection pn i = Inr pn' \<and> linked i pn pn' \<and> sel_inv (U - {i}) pn'"
proof -
  let ?p = "modifyNode i (policyUpdate (pn_Policy pn)) pn"
  let ?c = "poolElementSelectionStorageNodeComparison ?p" and ?es = "contents (pn_Selection pn)"
  have ip: "i \<in> pool_nodes pn" using sel_invD(2) [OF inv] i by auto
  have inv1: "sel_inv U ?p"
    using policyUpdate_simps(1,2) [OF sel_invD(1) [OF inv]] sel_invD(5) [OF inv ip]
    by (intro modify_unlinked [OF inv i]) simp_all
  have lk: "fst ` set ?es = pool_nodes pn - U" using sel_invD(4) [OF inv] by (simp add: selectionOrder_set)
  have nz: "?c i (fst e) \<noteq> 0" if "e \<in> set ?es" for e
    using selection_zero [OF inv1, of i "fst e"] imageI [OF that, of fst] lk ip i by auto
  obtain r t where rt: "RedBlackTreeInsert ?c (pn_Selection ?p) i (pen_SelectionValue (node ?p i)) = (r, t)"
    by fastforce
  note cmp = selection_comparator [OF sel_invD(1) [OF inv1]]
  have "filter (\<lambda>e. ?c i (fst e) = 0) ?es = []" using nz by (auto simp: filter_empty_conv)
  then have none: "findEntry ?c i ?es = None" by (simp add: findEntry_def)
  have r: "r = i" and t: "rbt_wf ?c t" "contents t = insertEntry ?c i (pen_SelectionValue (node ?p i)) ?es"
    using comparator.insert_ok [OF cmp sel_invD(3) [OF inv1] rt] none by simp_all
  have st: "set (contents t) = Set.insert (i, pen_SelectionValue (node ?p i)) (set ?es)"
    unfolding t(2) by (rule set_insertEntry) (rule nz)
  let ?q = "?p\<lparr>pn_Selection := t\<rparr>"
  have c: "poolElementSelectionStorageNodeComparison ?q = ?c"
    by (intro ext) (simp add: poolElementSelectionStorageNodeComparison_def)
  have so: "set (selectionOrder ?q) = pool_nodes ?q - (U - {i})"
    using st lk ip by (auto simp: selectionOrder_set)
  have sv: "\<forall>e \<in> set (contents (pn_Selection ?q)). snd e = pen_SelectionValue (node ?q (fst e))"
    using st sel_invD(8) [OF inv1] by simp
  have "sel_inv (U - {i}) ?q"
    using inv1 t(1) so sv unfolding sel_inv_def c by auto
  moreover have "poolNodeLinkPoolElementNodeToSelection pn i = Inr ?q"
    using v rt r by (simp add: poolNodeLinkPoolElementNodeToSelection_def link_update [OF ip] CHECK_def Let_def)
  ultimately show ?thesis using t(2) by (intro exI [of _ ?q]) (simp add: linked_def Let_def)
qed

section \<open>Sequence numbers\<close>

definition position :: "'a list \<Rightarrow> 'a \<Rightarrow> nat" where
  "position xs x = length (takeWhile (\<lambda>y. y \<noteq> x) xs)"

lemma position_simps [simp]: "position (y # ys) x = (if x = y then 0 else Suc (position ys x))"
  by (simp add: position_def)

lemma position_less: "x \<in> set xs \<Longrightarrow> position xs x < length xs"
  by (induction xs) auto

lemma position_inj: "x \<in> set xs \<Longrightarrow> y \<in> set xs \<Longrightarrow> position xs x = position xs y \<Longrightarrow> x = y"
  by (induction xs) (auto split: if_splits)

lemma position_ascending:
  assumes "comparator cmp"
  shows "ascending cmp es \<Longrightarrow> x \<in> fst ` set es \<Longrightarrow> y \<in> fst ` set es \<Longrightarrow> cmp x y < 0 \<Longrightarrow>
     position (map fst es) x < position (map fst es) y"
proof (induction es)
  case (Cons e es)
  have l: "\<And>z. z \<in> fst ` set es \<Longrightarrow> cmp (fst e) z < 0" using Cons.prems(1) by (auto simp: ascending_Cons)
  have "y \<noteq> fst e"
  proof
    assume y: "y = fst e"
    show False
    proof (cases "x = fst e")
      case True
      then show ?thesis using Cons.prems(4) y comparator.cmp_refl [OF assms] by simp
    next
      case False
      then have "cmp y x < 0" using Cons.prems(2) y l by auto
      then show ?thesis using Cons.prems(4) comparator.cmp_anti [OF assms, of y x] by simp
    qed
  qed
  then show ?case using Cons by (auto simp: ascending_Cons)
qed simp

lemma resequence_frame:
  "set is \<subseteq> pool_nodes pn \<Longrightarrow>
     pn_Policy (resequenceFrom is pn) = pn_Policy pn \<and> pn_Selection (resequenceFrom is pn) = pn_Selection pn \<and>
     pn_Index (resequenceFrom is pn) = pn_Index pn \<and> pool_nodes (resequenceFrom is pn) = pool_nodes pn \<and>
     pn_Handle (resequenceFrom is pn) = pn_Handle pn \<and> pn_Protocol (resequenceFrom is pn) = pn_Protocol pn \<and>
     pn_Flags (resequenceFrom is pn) = pn_Flags pn \<and>
     pn_GlobalSeqNumber (resequenceFrom is pn) = pn_GlobalSeqNumber pn + of_nat (length is)"
  by (induction "is" arbitrary: pn) (simp_all add: algebra_simps)

lemma resequence_node:
  "distinct is \<Longrightarrow> node (resequenceFrom is pn) j =
     (if j \<in> set is then (node pn j)\<lparr>pen_SeqNumber := pn_GlobalSeqNumber pn + of_nat (position is j)\<rparr> else node pn j)"
  by (induction "is" arbitrary: pn) (auto simp: algebra_simps)

lemma of_nat_less32: "k < l \<Longrightarrow> l < 2 ^ 32 \<Longrightarrow> (of_nat k :: u32) < of_nat l"
  by (simp add: word_less_nat_alt unat_of_nat take_bit_eq_mod)

lemma of_nat_eq32: "k < 2 ^ 32 \<Longrightarrow> l < 2 ^ 32 \<Longrightarrow> (of_nat k :: u32) = of_nat l \<longleftrightarrow> k = l"
  using of_nat_less32 [of k l] of_nat_less32 [of l k] by (cases k l rule: linorder_cases) auto

lemma resequence_ok:
  assumes inv: "sel_inv {} pn" and n: "length (selectionOrder pn) < 2 ^ 32"
  shows "sel_inv {} (poolNodeResequence pn)"
    "pn_Selection (poolNodeResequence pn) = pn_Selection pn" "pn_Index (poolNodeResequence pn) = pn_Index pn"
    "pn_Policy (poolNodeResequence pn) = pn_Policy pn" "pool_nodes (poolNodeResequence pn) = pool_nodes pn"
    "pn_GlobalSeqNumber (poolNodeResequence pn) = of_nat (length (selectionOrder pn))"
    "j \<in> pool_nodes pn \<Longrightarrow> node (poolNodeResequence pn) j =
       (node pn j)\<lparr>pen_SeqNumber := of_nat (position (selectionOrder pn) j)\<rparr>"
proof -
  let ?is = "selectionOrder pn" and ?pn = "poolNodeResequence pn"
  have io: "set ?is = pool_nodes pn" "distinct ?is"
    using sel_invD(4) [OF inv] selectionOrder_distinct [OF inv] by simp_all
  note fr = resequence_frame [of ?is "pn\<lparr>pn_GlobalSeqNumber := 0\<rparr>"]
  show f: "pn_Selection ?pn = pn_Selection pn" "pn_Index ?pn = pn_Index pn" "pn_Policy ?pn = pn_Policy pn"
    "pool_nodes ?pn = pool_nodes pn" "pn_GlobalSeqNumber ?pn = of_nat (length ?is)"
    using fr io(1) by (simp_all add: poolNodeResequence_def)
  have nd: "node ?pn j = (node pn j)\<lparr>pen_SeqNumber := of_nat (position ?is j)\<rparr>" if "j \<in> pool_nodes pn" for j
    using resequence_node [OF io(2), of "pn\<lparr>pn_GlobalSeqNumber := 0\<rparr>" j] that io(1)
    by (simp add: poolNodeResequence_def)
  then show "j \<in> pool_nodes pn \<Longrightarrow> node ?pn j = (node pn j)\<lparr>pen_SeqNumber := of_nat (position ?is j)\<rparr>" .
  have ps: "position ?is j < length ?is" if "j \<in> pool_nodes pn" for j
    using position_less [of j ?is] that io(1) by simp
  show "sel_inv {} ?pn"
  proof (rule sel_inv_keep [OF inv f(3,1,4)])
    fix j assume j: "j \<in> pool_nodes pn"
    show "pen_Identifier (node ?pn j) = j" using nd [OF j] sel_invD(5) [OF inv j] by simp
    show "pen_SeqNumber (node ?pn j) < pn_GlobalSeqNumber ?pn"
      using nd [OF j] f(5) of_nat_less32 [OF ps [OF j] n] by simp
  next
    show "inj_on (\<lambda>j. pen_SeqNumber (node ?pn j)) (pool_nodes pn)"
    proof (rule inj_onI)
      fix a b assume ab: "a \<in> pool_nodes pn" "b \<in> pool_nodes pn"
        "pen_SeqNumber (node ?pn a) = pen_SeqNumber (node ?pn b)"
      then have "position ?is a = position ?is b"
        using nd of_nat_eq32 [OF less_trans [OF ps n] less_trans [OF ps n]] by simp
      then show "a = b" using position_inj [of a ?is b] ab io(1) by simp
    qed
  next
    fix i j assume i: "i \<in> pool_nodes pn - {}" and j: "j \<in> pool_nodes pn - {}"
      and c: "poolElementSelectionStorageNodeComparison pn i j < 0"
    have "position ?is i < position ?is j"
      using position_ascending [OF selection_comparator [OF sel_invD(1) [OF inv]], of "contents (pn_Selection pn)" i j]
        sel_invD(3) [OF inv] io(1) i j c by (simp add: rbt_wf_def selectionOrder_def)
    then have "(of_nat (position ?is i) :: u32) < of_nat (position ?is j)"
      using of_nat_less32 ps [of j] j n by (simp add: less_trans)
    then show "poolElementSelectionStorageNodeComparison ?pn i j < 0"
      using c nd [of i] nd [of j] i j f(3)
        policy_order.cmp_resequence [OF policy_order_table [OF sel_invD(1) [OF inv]]]
      by (simp add: poolElementSelectionStorageNodeComparison_def)
  qed (simp add: nd)
qed

section \<open>What a selection leaves alone\<close>

text \<open>The fields that are the registration of a pool element, without the counters of the policies.\<close>

definition registration :: "PoolElementNode \<Rightarrow> PoolElementNode" where
  "registration n = n\<lparr>pen_SeqNumber := 0, pen_RoundCounter := 0, pen_VirtualCounter := 0,
     pen_Degradation := 0, pen_SelectionCounter := 0, pen_SelectionValue := 0\<rparr>"

definition same_pool :: "PoolNode \<Rightarrow> PoolNode \<Rightarrow> bool" where
  "same_pool pn pn' \<longleftrightarrow> pn_Handle pn' = pn_Handle pn \<and> pn_Policy pn' = pn_Policy pn \<and>
     pn_Protocol pn' = pn_Protocol pn \<and> pn_Flags pn' = pn_Flags pn \<and> pn_Index pn' = pn_Index pn \<and>
     pool_nodes pn' = pool_nodes pn \<and> (\<forall>j. registration (node pn' j) = registration (node pn j))"

lemma registration_update [simp]:
  "registration (n\<lparr>pen_SeqNumber := s\<rparr>) = registration n"
  "registration (n\<lparr>pen_RoundCounter := r\<rparr>) = registration n"
  "registration (n\<lparr>pen_VirtualCounter := v\<rparr>) = registration n"
  "registration (n\<lparr>pen_Degradation := d\<rparr>) = registration n"
  "registration (n\<lparr>pen_SelectionCounter := c\<rparr>) = registration n"
  "registration (n\<lparr>pen_SelectionValue := x\<rparr>) = registration n"
  by (simp_all add: registration_def)

lemma registration_eqD:
  assumes "registration n = registration m"
  shows "pen_Identifier n = pen_Identifier m" "pen_PolicySettings n = pen_PolicySettings m"
    "pen_Flags n = pen_Flags m" "pen_Checksum n = pen_Checksum m"
    "pen_HomeRegistrarIdentifier n = pen_HomeRegistrarIdentifier m"
    "pen_UserTransport n = pen_UserTransport m" "pen_RegistratorTransport n = pen_RegistratorTransport m"
    "pen_TimerTimeStamp n = pen_TimerTimeStamp m" "pen_TimerCode n = pen_TimerCode m"
    "pen_ConnectionSocketDescriptor n = pen_ConnectionSocketDescriptor m"
    "pen_ConnectionAssocID n = pen_ConnectionAssocID m" "pen_RegistrationLife n = pen_RegistrationLife m"
    "pen_UnreachabilityReports n = pen_UnreachabilityReports m"
  using assms by (cases n; cases m; simp add: registration_def)+

lemma same_pool_refl [simp]: "same_pool pn pn"
  by (simp add: same_pool_def)

lemma same_pool_trans: "same_pool a b \<Longrightarrow> same_pool b c \<Longrightarrow> same_pool a c"
  by (simp add: same_pool_def)

lemma same_pool_modify:
  "i \<in> pool_nodes pn \<Longrightarrow> registration (f (node pn i)) = registration (node pn i) \<Longrightarrow> same_pool pn (modifyNode i f pn)"
  by (simp add: same_pool_def)

lemma same_pool_update [simp]:
  "same_pool pn (pn'\<lparr>pn_GlobalSeqNumber := g\<rparr>) = same_pool pn pn'"
  "same_pool pn (pn'\<lparr>pn_Selection := t\<rparr>) = same_pool pn pn'"
  by (simp_all add: same_pool_def)

lemma update_registration:
  "registration (weightedRoundRobinUpdatePoolElementNode n) = registration n"
  "registration (randomUpdatePoolElementNode n) = registration n"
  "registration (weightedRandomUpdatePoolElementNode n) = registration n"
  "registration (weightedRandomDPFUpdatePoolElementNode n) = registration n"
  "registration (leastUsedDegradationUpdatePoolElementNode n) = registration n"
  "registration (randomizedLeastUsedUpdatePoolElementNode n) = registration n"
  "registration (randomizedLeastUsedDegradationUpdatePoolElementNode n) = registration n"
  "registration (randomizedPriorityLeastUsedUpdatePoolElementNode n) = registration n"
  "registration (randomizedPriorityLeastUsedDegradationUpdatePoolElementNode n) = registration n"
  unfolding RSP_Policy.update_defs Let_def by (simp_all add: registration_def)

lemma policyUpdate_registration: "p \<in> set PoolPolicyArray \<Longrightarrow> registration (policyUpdate p n) = registration n"
  by (auto simp: PoolPolicyArray_def policyEntry_def policyUpdate_def update_registration)

lemma linked_same:
  assumes "linked i pn pn'" "i \<in> pool_nodes pn" "pn_Policy pn \<in> set PoolPolicyArray"
  shows "same_pool pn pn'"
proof -
  have "same_pool pn (modifyNode i (policyUpdate (pn_Policy pn)) pn)"
    using assms by (intro same_pool_modify) (simp_all add: policyUpdate_registration)
  then show ?thesis using assms(1) unfolding linked_def Let_def by (metis same_pool_update(2))
qed

lemma linked_global: "linked i pn pn' \<Longrightarrow> pn_GlobalSeqNumber pn' = pn_GlobalSeqNumber pn"
  unfolding linked_def Let_def
  by (metis (no_types, lifting) PoolNode.ext_inject PoolNode.surjective PoolNode.update_convs(8) modify_simps(4))

lemma same_resequence: "sel_inv {} pn \<Longrightarrow> length (selectionOrder pn) < 2 ^ 32 \<Longrightarrow> same_pool pn (poolNodeResequence pn)"
proof -
  assume inv: "sel_inv {} pn" and n: "length (selectionOrder pn) < 2 ^ 32"
  have "set (selectionOrder pn) \<subseteq> pool_nodes pn" using sel_invD(4) [OF inv] by simp
  then show ?thesis
    using resequence_frame [of "selectionOrder pn" "pn\<lparr>pn_GlobalSeqNumber := 0\<rparr>"]
      resequence_node [OF selectionOrder_distinct [OF inv], of "pn\<lparr>pn_GlobalSeqNumber := 0\<rparr>"]
    by (simp add: same_pool_def poolNodeResequence_def)
qed

section \<open>Rounds\<close>

lemma lower_frame:
  "set is \<subseteq> pool_nodes pn \<Longrightarrow>
     same_pool pn (lowerRoundCounters low is pn) \<and> pn_Selection (lowerRoundCounters low is pn) = pn_Selection pn \<and>
     pn_GlobalSeqNumber (lowerRoundCounters low is pn) = pn_GlobalSeqNumber pn"
proof (induction "is" arbitrary: pn)
  case (Cons i "is")
  let ?p = "modifyNode i (\<lambda>n. n\<lparr>pen_RoundCounter := pen_RoundCounter n - low\<rparr>) pn"
  have "same_pool pn ?p" using Cons.prems by (intro same_pool_modify) simp_all
  then show ?case using Cons.IH [of ?p] Cons.prems by (auto intro: same_pool_trans)
qed simp

lemma lower_node:
  "distinct is \<Longrightarrow> node (lowerRoundCounters low is pn) j =
     (if j \<in> set is then (node pn j)\<lparr>pen_RoundCounter := pen_RoundCounter (node pn j) - low\<rparr> else node pn j)"
  by (induction "is" arbitrary: pn) auto

lemma prepare_table:
  "p \<in> set PoolPolicyArray \<Longrightarrow> pp_PrepareSelectionFunction p = Some f \<Longrightarrow>
     pp_ComparisonFunction p = weightedRoundRobinComparison \<and> f = weightedRoundRobinPrepareSelection"
  by (cases f) (auto simp: PoolPolicyArray_def policyEntry_def)

lemma cmp_key_less: "cmp_key x y r < 0 \<longleftrightarrow> x < y \<or> x = y \<and> r < 0"
  by (auto simp: cmp_key_def)

lemma weightedRoundRobin_lower:
  fixes l :: u32
  assumes "weightedRoundRobinComparison a b < 0" "l \<le> pen_RoundCounter a" "l \<le> pen_RoundCounter b"
  shows "weightedRoundRobinComparison (a\<lparr>pen_RoundCounter := pen_RoundCounter a - l\<rparr>)
           (b\<lparr>pen_RoundCounter := pen_RoundCounter b - l\<rparr>) < 0"
proof -
  have "pen_RoundCounter a - l < pen_RoundCounter b - l \<longleftrightarrow> pen_RoundCounter a < pen_RoundCounter b"
    "pen_RoundCounter b - l < pen_RoundCounter a - l \<longleftrightarrow> pen_RoundCounter b < pen_RoundCounter a"
    using assms(2,3) by (simp_all add: word_less_nat_alt unat_sub word_le_nat_alt less_diff_iff)
  moreover from this have "pen_RoundCounter a - l = pen_RoundCounter b - l \<longleftrightarrow> pen_RoundCounter a = pen_RoundCounter b"
    by auto
  ultimately show ?thesis using assms(1) by (simp add: weightedRoundRobinComparison_def cmp_key_less)
qed


lemma first_selection: "poolNodeGetFirstPoolElementNodeFromSelection pn = firstOf (contents (pn_Selection pn))"
  by (simp add: poolNodeGetFirstPoolElementNodeFromSelection_def ends_ok)

lemma first_lowest:
  assumes inv: "sel_inv U pn" and w: "pp_ComparisonFunction (pn_Policy pn) = weightedRoundRobinComparison"
    and f: "poolNodeGetFirstPoolElementNodeFromSelection pn = Some i" and j: "j \<in> pool_nodes pn - U"
  shows "pen_RoundCounter (node pn i) \<le> pen_RoundCounter (node pn j)"
proof (cases "contents (pn_Selection pn)")
  case Nil
  then show ?thesis using f by (simp add: first_selection)
next
  case (Cons e es)
  have i: "i = fst e" using f Cons by (simp add: first_selection)
  have "j \<in> fst ` set (e # es)" using j sel_invD(4) [OF inv] Cons by (simp add: selectionOrder_set)
  then have "j = i \<or> poolElementSelectionStorageNodeComparison pn i j < 0"
    using sel_invD(3) [OF inv] Cons i by (auto simp: rbt_wf_def ascending_Cons)
  then show ?thesis
    by (auto simp: poolElementSelectionStorageNodeComparison_def w weightedRoundRobinComparison_def cmp_key_less)
qed

lemma reset_ok:
  assumes inv: "sel_inv {} pn" and w: "pp_ComparisonFunction (pn_Policy pn) = weightedRoundRobinComparison"
  shows "sel_inv {} (weightedRoundRobinResetRoundCounters pn)"
    "same_pool pn (weightedRoundRobinResetRoundCounters pn)"
    "pn_Selection (weightedRoundRobinResetRoundCounters pn) = pn_Selection pn"
    "pn_GlobalSeqNumber (weightedRoundRobinResetRoundCounters pn) = pn_GlobalSeqNumber pn"
proof -
  let ?q = "weightedRoundRobinResetRoundCounters pn"
  have "sel_inv {} ?q \<and> same_pool pn ?q \<and> pn_Selection ?q = pn_Selection pn \<and>
    pn_GlobalSeqNumber ?q = pn_GlobalSeqNumber pn"
  proof (cases "poolNodeGetFirstPoolElementNodeFromSelection pn")
    case None
    then show ?thesis using inv by (simp add: weightedRoundRobinResetRoundCounters_def)
  next
    case (Some i)
    let ?l = "pen_RoundCounter (node pn i)"
    have q: "?q = lowerRoundCounters ?l (selectionOrder pn) pn"
      using Some by (simp add: weightedRoundRobinResetRoundCounters_def)
    have so: "set (selectionOrder pn) = pool_nodes pn" using sel_invD(4) [OF inv] by simp
    note fr = lower_frame [of "selectionOrder pn" pn ?l]
    have sp: "same_pool pn ?q" and g: "pn_Selection ?q = pn_Selection pn"
      "pn_GlobalSeqNumber ?q = pn_GlobalSeqNumber pn" using fr so q by simp_all
    have nd: "node ?q j = (node pn j)\<lparr>pen_RoundCounter := pen_RoundCounter (node pn j) - ?l\<rparr>"
      if "j \<in> pool_nodes pn" for j
      using lower_node [OF selectionOrder_distinct [OF inv], of ?l pn j] so that q by simp
    have "sel_inv {} ?q"
    proof (rule sel_inv_keep [OF inv _ g(1)])
      show "inj_on (\<lambda>j. pen_SeqNumber (node ?q j)) (pool_nodes pn)"
        using sel_invD(7) [OF inv] by (simp add: nd cong: inj_on_cong)
      fix j k assume jk: "j \<in> pool_nodes pn - {}" "k \<in> pool_nodes pn - {}"
        "poolElementSelectionStorageNodeComparison pn j k < 0"
      then show "poolElementSelectionStorageNodeComparison ?q j k < 0"
        using first_lowest [OF inv w Some, of j] first_lowest [OF inv w Some, of k] sp w
        by (simp add: poolElementSelectionStorageNodeComparison_def nd same_pool_def weightedRoundRobin_lower)
    qed (use sp g sel_invD(5,6) [OF inv] in \<open>simp_all add: same_pool_def nd\<close>)
    then show ?thesis using sp g by blast
  qed
  then show "sel_inv {} ?q" "same_pool pn ?q" "pn_Selection ?q = pn_Selection pn"
    "pn_GlobalSeqNumber ?q = pn_GlobalSeqNumber pn" by blast+
qed

lemma no_wrap:
  assumes "k < 2 ^ 32" "\<not> g + of_nat k < (g :: u32)"
  shows "unat g + k < 2 ^ 32"
proof (rule ccontr)
  assume n: "\<not> unat g + k < 2 ^ 32"
  have "unat (g + of_nat k) = (unat g + k) mod 2 ^ 32"
    using assms(1) by (simp add: unat_word_ariths unat_of_nat take_bit_eq_mod mod_simps)
  also have "\<dots> = unat g + k - 2 ^ 32"
  proof -
    have "unat g < 2 ^ LENGTH(32)" by (rule unsigned_less)
    then show ?thesis using n assms(1) by (simp add: le_mod_geq)
  qed
  also have "\<dots> < unat g" using n assms(1) by simp
  finally show False using assms(2) by (simp add: word_less_nat_alt)
qed

text \<open>Before a selection of at most \<open>k\<close> pool elements there are \<open>k\<close> sequence numbers left.\<close>

lemma prepare_ok:
  assumes inv: "sel_inv {} pn" and k: "length (selectionOrder pn) + k < 2 ^ 32"
  shows "sel_inv {} (prepareSelection k pn)" "same_pool pn (prepareSelection k pn)"
    "pn_Selection (prepareSelection k pn) = pn_Selection pn"
    "unat (pn_GlobalSeqNumber (prepareSelection k pn)) + k < 2 ^ 32"
proof -
  define pn1 where "pn1 = (if pn_GlobalSeqNumber pn + of_nat k < pn_GlobalSeqNumber pn then poolNodeResequence pn else pn)"
  have l: "length (selectionOrder pn) < 2 ^ 32" using k by simp
  have 1: "sel_inv {} pn1" "same_pool pn pn1" "pn_Selection pn1 = pn_Selection pn"
    using inv resequence_ok [OF inv l] same_resequence [OF inv l] by (simp_all add: pn1_def)
  have 2: "unat (pn_GlobalSeqNumber pn1) + k < 2 ^ 32"
    using no_wrap [of k "pn_GlobalSeqNumber pn"] resequence_ok(6) [OF inv l] k
    by (auto simp: pn1_def unat_of_nat take_bit_eq_mod)
  have q: "prepareSelection k pn =
      (case pp_PrepareSelectionFunction (pn_Policy pn1) of None \<Rightarrow> pn1 | Some f \<Rightarrow> callPrepare f pn1)"
    by (simp only: prepareSelection_def pn1_def Let_def)
  have "sel_inv {} (prepareSelection k pn) \<and> same_pool pn1 (prepareSelection k pn) \<and>
    pn_Selection (prepareSelection k pn) = pn_Selection pn1 \<and>
    pn_GlobalSeqNumber (prepareSelection k pn) = pn_GlobalSeqNumber pn1"
  proof (cases "pp_PrepareSelectionFunction (pn_Policy pn1)")
    case None
    then show ?thesis using 1 q by simp
  next
    case (Some f)
    note pt = prepare_table [OF sel_invD(1) [OF 1(1)] Some]
    show ?thesis using 1 q Some pt reset_ok [OF 1(1)] by (simp add: Let_def)
  qed
  then show "sel_inv {} (prepareSelection k pn)" "same_pool pn (prepareSelection k pn)"
    "pn_Selection (prepareSelection k pn) = pn_Selection pn"
    "unat (pn_GlobalSeqNumber (prepareSelection k pn)) + k < 2 ^ 32"
    using 1 2 same_pool_trans by auto
qed

end
