(* ===== verification/RSP_Selection.thy ===== *)
theory RSP_Selection
  imports RSP_PoolLaws
begin

text \<open>
  The selections of a pool: the selection by sorting order returns the first pool elements of
  the order, the selection by value distinct ones; both keep the invariant of the pool and change
  nothing but the counters of the policy. Round robin rotates the order, so that every pool
  element is selected in turn.
\<close>

section \<open>Collecting the first nodes\<close>

lemma collect_from:
  assumes inv: "sel_inv U pn"
  shows "contents (pn_Selection pn) = xs @ ys \<Longrightarrow>
     collectFromSelection k pn (firstOf ys) = take k (map fst ys)"
proof (induction k arbitrary: xs ys)
  case (Suc k)
  show ?case
  proof (cases ys)
    case (Cons e zs)
    have c: "contents (pn_Selection pn) = xs @ (fst e, snd e) # zs" using Suc.prems Cons by simp
    have "poolNodeGetNextPoolElementNodeFromSelection pn (fst e) = firstOf zs"
      unfolding poolNodeGetNextPoolElementNodeFromSelection_def
      by (rule comparator.next_in_order [OF selection_comparator [OF sel_invD(1) [OF inv]] sel_invD(3) [OF inv] c])
    then show ?thesis using Suc.IH [of "xs @ [e]" zs] Suc.prems Cons by simp
  qed simp
qed simp

lemma collect_ok:
  "sel_inv U pn \<Longrightarrow>
     collectFromSelection k pn (poolNodeGetFirstPoolElementNodeFromSelection pn) = take k (selectionOrder pn)"
  using collect_from [of U pn "[]" "contents (pn_Selection pn)" k] by (simp add: first_selection selectionOrder_def)

section \<open>Linking again\<close>

definition all_valid :: "PoolNode \<Rightarrow> bool" where
  "all_valid pn \<longleftrightarrow> (\<forall>i \<in> pool_nodes pn. poolPolicySettingsIsValid (pen_PolicySettings (node pn i)))"

lemma same_poolD:
  assumes "same_pool pn pn'"
  shows "pool_nodes pn' = pool_nodes pn" "pn_Policy pn' = pn_Policy pn" "pn_Index pn' = pn_Index pn"
    "registration (node pn' j) = registration (node pn j)"
    "pen_PolicySettings (node pn' j) = pen_PolicySettings (node pn j)"
  using assms registration_eqD(2) [of "node pn' j" "node pn j"] by (simp_all add: same_pool_def)

lemma all_valid_same: "same_pool pn pn' \<Longrightarrow> all_valid pn' = all_valid pn"
  by (simp add: all_valid_def same_poolD)

definition stamped :: "u32 \<Rightarrow> PoolNode \<Rightarrow> PoolNode" where
  "stamped i pn = (modifyNode i (\<lambda>n. n\<lparr>pen_SeqNumber := pn_GlobalSeqNumber pn,
       pen_SelectionCounter := pen_SelectionCounter n + 1\<rparr>) pn)\<lparr>pn_GlobalSeqNumber := pn_GlobalSeqNumber pn + 1\<rparr>"

lemma unat_Suc32: "unat (g :: u32) + 1 < 2 ^ 32 \<Longrightarrow> unat (g + 1) = unat g + 1 \<and> g < g + 1"
  by (simp add: unat_word_ariths word_less_nat_alt)

lemma stamped_ok:
  assumes inv: "sel_inv U pn" and i: "i \<in> U" and g: "unat (pn_GlobalSeqNumber pn) + 1 < 2 ^ 32"
  shows "sel_inv U (stamped i pn)" "same_pool pn (stamped i pn)"
    "unat (pn_GlobalSeqNumber (stamped i pn)) = unat (pn_GlobalSeqNumber pn) + 1"
    "pn_Selection (stamped i pn) = pn_Selection pn"
proof -
  have ip: "i \<in> pool_nodes pn" using sel_invD(2) [OF inv] i by auto
  show "sel_inv U (stamped i pn)"
    unfolding stamped_def using unat_Suc32 [OF g] sel_invD(5) [OF inv ip]
    by (intro stamp_unlinked [OF inv i]) simp_all
  show "same_pool pn (stamped i pn)" using ip by (simp add: stamped_def same_pool_modify)
  show "unat (pn_GlobalSeqNumber (stamped i pn)) = unat (pn_GlobalSeqNumber pn) + 1"
    "pn_Selection (stamped i pn) = pn_Selection pn"
    using unat_Suc32 [OF g] by (simp_all add: stamped_def)
qed

lemma update_ok:
  assumes inv: "sel_inv U pn" and i: "i \<in> U"
  defines "pn' \<equiv> modifyNode i (policyUpdate (pn_Policy pn)) pn"
  shows "sel_inv U pn'" "same_pool pn pn'" "pn_GlobalSeqNumber pn' = pn_GlobalSeqNumber pn"
    "pn_Selection pn' = pn_Selection pn"
proof -
  have ip: "i \<in> pool_nodes pn" using sel_invD(2) [OF inv] i by auto
  show "sel_inv U pn'"
    unfolding pn'_def using policyUpdate_simps(1,2) [OF sel_invD(1) [OF inv]] sel_invD(5) [OF inv ip]
    by (intro modify_unlinked [OF inv i]) simp_all
  show "same_pool pn pn'" "pn_GlobalSeqNumber pn' = pn_GlobalSeqNumber pn" "pn_Selection pn' = pn_Selection pn"
    using ip sel_invD(1) [OF inv] by (simp_all add: pn'_def same_pool_modify policyUpdate_registration)
qed

text \<open>One round of the second loop.\<close>

definition reinserted :: "u32 \<Rightarrow> PoolNode \<Rightarrow> PoolNode \<Rightarrow> bool" where
  "reinserted i pn pn' \<longleftrightarrow>
     (\<exists>t. contents t = filter (\<lambda>e. fst e \<noteq> i) (contents (pn_Selection pn)) \<and>
        linked i (modifyNode i (policyUpdate (pn_Policy pn)) (stamped i (pn\<lparr>pn_Selection := t\<rparr>))) pn')"

lemma reinsertSelected_Cons:
  "reinsertSelected (i # is) pn =
     bindR (poolNodeUnlinkPoolElementNodeFromSelection pn i) (\<lambda>pn1.
       bindR (poolNodeLinkPoolElementNodeToSelection
         (case pp_UpdatePoolElementNodeFunction (pn_Policy (stamped i pn1)) of
            None \<Rightarrow> stamped i pn1 | Some f \<Rightarrow> modifyNode i f (stamped i pn1)) i) (reinsertSelected is))"
  by (simp only: reinsertSelected.simps stamped_def Let_def)

lemma reinsert_step:
  assumes inv: "sel_inv {} pn" and i: "i \<in> pool_nodes pn" and v: "all_valid pn"
    and g: "unat (pn_GlobalSeqNumber pn) + 1 < 2 ^ 32"
  shows "\<exists>pn'. reinsertSelected (i # is) pn = reinsertSelected is pn' \<and> sel_inv {} pn' \<and> same_pool pn pn' \<and>
    unat (pn_GlobalSeqNumber pn') = unat (pn_GlobalSeqNumber pn) + 1 \<and> reinserted i pn pn'"
proof -
  obtain t where t: "poolNodeUnlinkPoolElementNodeFromSelection pn i = Inr (pn\<lparr>pn_Selection := t\<rparr>)"
    "sel_inv {i} (pn\<lparr>pn_Selection := t\<rparr>)" "contents t = filter (\<lambda>e. fst e \<noteq> i) (contents (pn_Selection pn))"
    using unlink_ok [OF inv, of i] i by auto
  let ?q = "stamped i (pn\<lparr>pn_Selection := t\<rparr>)"
  let ?r = "modifyNode i (policyUpdate (pn_Policy pn)) ?q"
  note s = stamped_ok [OF t(2), of i]
  have s1: "sel_inv {i} ?q" "same_pool pn ?q" "unat (pn_GlobalSeqNumber ?q) = unat (pn_GlobalSeqNumber pn) + 1"
    using s g by (simp_all add: same_pool_def)
  have pq: "pn_Policy ?q = pn_Policy pn" using s1(2) by (simp add: same_pool_def)
  note u = update_ok [OF s1(1), of i, unfolded pq]
  have r: "sel_inv {i} ?r" "same_pool pn ?r" "unat (pn_GlobalSeqNumber ?r) = unat (pn_GlobalSeqNumber pn) + 1"
    using u s1 same_pool_trans by auto
  have "poolPolicySettingsIsValid (pen_PolicySettings (node ?r i))"
    using v i unfolding all_valid_def same_poolD(5) [OF r(2)] by blast
  from link_ok [OF r(1) _ this] obtain pn' where l: "poolNodeLinkPoolElementNodeToSelection ?r i = Inr pn'"
    "linked i ?r pn'" "sel_inv {} pn'" by auto
  have ir: "i \<in> pool_nodes ?r" "i \<in> pool_nodes ?q" using r(2) s1(2) i by (simp_all add: same_pool_def)
  have "reinsertSelected (i # is) pn = reinsertSelected is pn'"
    using t(1) l(1) link_update [OF ir(2)] pq by (simp add: reinsertSelected_Cons del: reinsertSelected.simps)
  moreover have "same_pool pn pn'"
    using r(2) linked_same [OF l(2) ir(1) sel_invD(1) [OF r(1)]] same_pool_trans by blast
  moreover have "unat (pn_GlobalSeqNumber pn') = unat (pn_GlobalSeqNumber pn) + 1"
    using linked_global [OF l(2)] r(3) by simp
  ultimately show ?thesis using l(2,3) t(3) unfolding reinserted_def by blast
qed

lemma reinsert_ok:
  "sel_inv {} pn \<Longrightarrow> set is \<subseteq> pool_nodes pn \<Longrightarrow> all_valid pn \<Longrightarrow>
     unat (pn_GlobalSeqNumber pn) + length is < 2 ^ 32 \<Longrightarrow>
     \<exists>pn'. reinsertSelected is pn = Inr pn' \<and> sel_inv {} pn' \<and> same_pool pn pn'"
proof (induction "is" arbitrary: pn)
  case (Cons i "is")
  have "unat (pn_GlobalSeqNumber pn) + 1 < 2 ^ 32" "i \<in> pool_nodes pn" using Cons.prems(2,4) by simp_all
  from reinsert_step [OF Cons.prems(1) this(2) Cons.prems(3) this(1), of "is"] obtain pn1 where
    1: "reinsertSelected (i # is) pn = reinsertSelected is pn1" "sel_inv {} pn1" "same_pool pn pn1"
      "unat (pn_GlobalSeqNumber pn1) = unat (pn_GlobalSeqNumber pn) + 1" by blast
  have "set is \<subseteq> pool_nodes pn1" "all_valid pn1"
    using 1(3) Cons.prems(2,3) all_valid_same [OF 1(3)] by (simp_all add: same_pool_def)
  moreover have "unat (pn_GlobalSeqNumber pn1) + length is < 2 ^ 32" using 1(4) Cons.prems(4) by simp
  ultimately obtain pn' where "reinsertSelected is pn1 = Inr pn'" "sel_inv {} pn'" "same_pool pn1 pn'"
    using Cons.IH [OF 1(2)] by blast
  then show ?case using 1(1) same_pool_trans [OF 1(3)] by auto
qed simp

section \<open>The selection by sorting order\<close>

lemma take_limit: "take (if length (take k xs) > m then m else length (take k xs)) (take k xs) = take (min m k) xs"
  by (auto simp: min_def)

definition increment :: "PoolNode \<Rightarrow> nat \<Rightarrow> nat" where
  "increment pn inc = (if inc = 0 then pp_DefaultMaxIncrement (pn_Policy pn) else inc)"

lemma select_by_order:
  assumes inv: "sel_inv {} pn" and k: "1 \<le> k" "length (selectionOrder pn) + k < 2 ^ 32"
  shows "selectBySortingOrder pn k inc =
    bindR (reinsertSelected (take (min (increment pn inc) k) (selectionOrder pn)) (prepareSelection k pn))
      (\<lambda>pn2. Inr (take k (selectionOrder pn), pn2))"
proof -
  let ?q = "prepareSelection k pn"
  have sel: "collectFromSelection k ?q (poolNodeGetFirstPoolElementNodeFromSelection ?q) = take k (selectionOrder pn)"
    using collect_ok [OF prepare_ok(1) [OF inv k(2)]] prepare_ok(3) [OF inv k(2)] by (simp add: selectionOrder_def)
  show ?thesis
    using k(1) unfolding selectBySortingOrder_def Let_def sel take_limit increment_def by simp
qed

text \<open>What the loop over the nodes to be updated finds.\<close>

lemma prepared:
  fixes m :: nat
  assumes inv: "sel_inv {} pn" and v: "all_valid pn" and k: "length (selectionOrder pn) + k < 2 ^ 32"
  defines "pn' \<equiv> prepareSelection k pn" and "is \<equiv> take (min m k) (selectionOrder pn)"
  shows "sel_inv {} pn'" "set is \<subseteq> pool_nodes pn'" "all_valid pn'" "unat (pn_GlobalSeqNumber pn') + length is < 2 ^ 32"
    "same_pool pn pn'" "distinct is" "selectionOrder pn' = selectionOrder pn"
proof -
  note p = prepare_ok [OF inv k]
  show "sel_inv {} pn'" "same_pool pn pn'" "selectionOrder pn' = selectionOrder pn" "all_valid pn'"
    using p v by (simp_all add: pn'_def selectionOrder_def all_valid_same)
  show "set is \<subseteq> pool_nodes pn'"
    using sel_invD(4) [OF inv] same_poolD(1) [OF p(2)] by (auto simp: pn'_def is_def dest: in_set_takeD)
  show "unat (pn_GlobalSeqNumber pn') + length is < 2 ^ 32"
    unfolding pn'_def is_def using p(4) by (rule le_less_trans [rotated]) simp
  show "distinct is" using selectionOrder_distinct [OF inv] by (simp add: is_def)
qed

lemma select_by_order_ok:
  assumes inv: "sel_inv {} pn" and v: "all_valid pn" and k: "1 \<le> k" "length (selectionOrder pn) + k < 2 ^ 32"
  shows "\<exists>pn'. selectBySortingOrder pn k inc = Inr (take k (selectionOrder pn), pn') \<and> sel_inv {} pn' \<and> same_pool pn pn'"
proof -
  note p = prepared [OF inv v k(2)]
  obtain pn' where "reinsertSelected (take (min (increment pn inc) k) (selectionOrder pn)) (prepareSelection k pn) = Inr pn'"
    "sel_inv {} pn'" "same_pool (prepareSelection k pn) pn'"
    using reinsert_ok [OF p(1) p(2) [of "increment pn inc"] p(3,4)] by blast
  then show ?thesis using select_by_order [OF inv k] same_pool_trans [OF p(5)] by auto
qed

section \<open>Round robin\<close>

definition round_robin_pool :: "PoolNode \<Rightarrow> bool" where
  "round_robin_pool pn \<longleftrightarrow> pp_ComparisonFunction (pn_Policy pn) = roundRobinComparison"

lemma insert_last:
  "(\<And>e. e \<in> set es \<Longrightarrow> 0 < cmp k (fst e)) \<Longrightarrow> insertEntry cmp k v es = es @ [(k, v)]"
  using apart_missing(2) [of cmp k es "[]" v] by (simp add: apart_def)

lemma round_robin_step:
  assumes inv: "sel_inv {} pn" and i: "i \<in> pool_nodes pn" and r: "round_robin_pool pn" and st: "reinserted i pn pn'"
  shows "selectionOrder pn' = filter (\<lambda>j. j \<noteq> i) (selectionOrder pn) @ [i]"
proof -
  obtain t where t: "contents t = filter (\<lambda>e. fst e \<noteq> i) (contents (pn_Selection pn))"
    "linked i (modifyNode i (policyUpdate (pn_Policy pn)) (stamped i (pn\<lparr>pn_Selection := t\<rparr>))) pn'"
    using st by (auto simp: reinserted_def)
  let ?q = "modifyNode i (policyUpdate (pn_Policy pn)) (stamped i (pn\<lparr>pn_Selection := t\<rparr>))"
  let ?r = "modifyNode i (policyUpdate (pn_Policy ?q)) ?q"
  have p: "pn_Policy ?q = pn_Policy pn" "pn_Selection ?q = t" by (simp_all add: stamped_def)
  have si: "pen_SeqNumber (node ?r i) = pn_GlobalSeqNumber pn"
    using policyUpdate_simps(2) [OF sel_invD(1) [OF inv]] by (simp add: p stamped_def)
  have sj: "pen_SeqNumber (node ?r j) < pn_GlobalSeqNumber pn" if "j \<in> pool_nodes pn" "j \<noteq> i" for j
    using sel_invD(6) [OF inv that(1)] that(2) by (simp add: stamped_def)
  have "0 < poolElementSelectionStorageNodeComparison ?r i (fst e)" if "e \<in> set (contents t)" for e
  proof -
    have "fst e \<in> pool_nodes pn" "fst e \<noteq> i" using that t(1) linked_node [OF inv] by auto
    then show ?thesis
      using si sj [of "fst e"] r p(1)
      by (simp add: poolElementSelectionStorageNodeComparison_def round_robin_pool_def roundRobinComparison_def)
  qed
  then have "contents (pn_Selection pn') = contents t @ [(i, pen_SelectionValue (node ?r i))]"
    using t(2) insert_last [of "contents t" "poolElementSelectionStorageNodeComparison ?r" i]
    unfolding linked_def Let_def p(2) by simp
  then show ?thesis using t(1) by (simp add: selectionOrder_def filter_map comp_def)
qed

lemma round_robin_reinsert:
  "sel_inv {} pn \<Longrightarrow> round_robin_pool pn \<Longrightarrow> set is \<subseteq> pool_nodes pn \<Longrightarrow> distinct is \<Longrightarrow> all_valid pn \<Longrightarrow>
     unat (pn_GlobalSeqNumber pn) + length is < 2 ^ 32 \<Longrightarrow>
     \<exists>pn'. reinsertSelected is pn = Inr pn' \<and>
       selectionOrder pn' = filter (\<lambda>j. j \<notin> set is) (selectionOrder pn) @ is"
proof (induction "is" arbitrary: pn)
  case (Cons i "is")
  have "unat (pn_GlobalSeqNumber pn) + 1 < 2 ^ 32" and i: "i \<in> pool_nodes pn" using Cons.prems(3,6) by simp_all
  from reinsert_step [OF Cons.prems(1) this(2) Cons.prems(5) this(1), of "is"] obtain pn1 where
    1: "reinsertSelected (i # is) pn = reinsertSelected is pn1" "sel_inv {} pn1" "same_pool pn pn1"
      "unat (pn_GlobalSeqNumber pn1) = unat (pn_GlobalSeqNumber pn) + 1" "reinserted i pn pn1" by blast
  have "set is \<subseteq> pool_nodes pn1" "all_valid pn1" "round_robin_pool pn1"
    using 1(3) Cons.prems(2,3,5) all_valid_same [OF 1(3)] by (simp_all add: same_poolD round_robin_pool_def)
  moreover have "unat (pn_GlobalSeqNumber pn1) + length is < 2 ^ 32" using 1(4) Cons.prems(6) by simp
  ultimately obtain pn' where 2: "reinsertSelected is pn1 = Inr pn'"
    "selectionOrder pn' = filter (\<lambda>j. j \<notin> set is) (selectionOrder pn1) @ is"
    using Cons.IH [OF 1(2)] Cons.prems(4) by auto
  have "selectionOrder pn1 = filter (\<lambda>j. j \<noteq> i) (selectionOrder pn) @ [i]"
    by (rule round_robin_step [OF Cons.prems(1) i Cons.prems(2) 1(5)])
  then have "selectionOrder pn' = filter (\<lambda>j. j \<notin> set (i # is)) (selectionOrder pn) @ i # is"
    using 2(2) Cons.prems(4) by (simp add: conj_commute)
  then show ?case using 1(1) 2(1) by (simp del: reinsertSelected.simps)
qed simp

lemma filter_not_taken: "distinct xs \<Longrightarrow> filter (\<lambda>x. x \<notin> set (take k xs)) xs = drop k xs"
proof -
  assume d: "distinct xs"
  then have "distinct (take k xs @ drop k xs)" by simp
  then have "set (take k xs) \<inter> set (drop k xs) = {}" unfolding distinct_append by blast
  then have "filter (\<lambda>x. x \<notin> set (take k xs)) (take k xs @ drop k xs) = drop k xs"
    unfolding filter_append by (subst filter_False, simp, subst filter_True) auto
  then show ?thesis by simp
qed

text \<open>
  The selected pool elements go to the end, as many as \<open>maxIncrement\<close> says (one by default).
\<close>

lemma round_robin_rotate:
  assumes inv: "sel_inv {} pn" and v: "all_valid pn" and r: "round_robin_pool pn"
    and k: "1 \<le> k" "length (selectionOrder pn) + k < 2 ^ 32"
  shows "\<exists>pn'. selectBySortingOrder pn k inc = Inr (take k (selectionOrder pn), pn') \<and>
    sel_inv {} pn' \<and> same_pool pn pn' \<and>
    selectionOrder pn' = drop (min (increment pn inc) k) (selectionOrder pn) @ take (min (increment pn inc) k) (selectionOrder pn)"
proof -
  let ?w = "take (min (increment pn inc) k) (selectionOrder pn)"
  note p = prepared [OF inv v k(2)]
  have "round_robin_pool (prepareSelection k pn)" using r same_poolD(2) [OF p(5)] by (simp add: round_robin_pool_def)
  then obtain pn' where 1: "reinsertSelected ?w (prepareSelection k pn) = Inr pn'"
    "selectionOrder pn' = filter (\<lambda>j. j \<notin> set ?w) (selectionOrder pn) @ ?w"
    using round_robin_reinsert [OF p(1) _ p(2) [of "increment pn inc"] p(6,3,4)] p(7) by auto
  moreover have "sel_inv {} pn'" "same_pool pn pn'"
    using reinsert_ok [OF p(1) p(2) [of "increment pn inc"] p(3,4)] 1(1) same_pool_trans [OF p(5)] by auto
  ultimately show ?thesis
    using filter_not_taken [OF selectionOrder_distinct [OF inv]] select_by_order [OF inv k, of inc] by simp
qed

text \<open>One selection after the other, of one pool element each.\<close>

primrec selectRepeatedly :: "nat \<Rightarrow> PoolNode \<Rightarrow> fault + (u32 list \<times> PoolNode)" where
  "selectRepeatedly 0 pn = Inr ([], pn)"
| "selectRepeatedly (Suc n) pn =
     bindR (selectBySortingOrder pn 1 0) (\<lambda>(selected, pn1).
     bindR (selectRepeatedly n pn1) (\<lambda>(rest, pn2). Inr (selected @ rest, pn2)))"

lemma round_robin_turns:
  "sel_inv {} pn \<Longrightarrow> all_valid pn \<Longrightarrow> round_robin_pool pn \<Longrightarrow> pp_DefaultMaxIncrement (pn_Policy pn) = 1 \<Longrightarrow>
     length (selectionOrder pn) + 1 < 2 ^ 32 \<Longrightarrow> n \<le> length (selectionOrder pn) \<Longrightarrow>
     \<exists>pn'. selectRepeatedly n pn = Inr (take n (selectionOrder pn), pn') \<and>
       sel_inv {} pn' \<and> same_pool pn pn' \<and> selectionOrder pn' = rotate n (selectionOrder pn)"
proof (induction n arbitrary: pn)
  case (Suc n)
  obtain x xs where o: "selectionOrder pn = x # xs" using Suc.prems(6) by (cases "selectionOrder pn") auto
  obtain pn1 where 1: "selectBySortingOrder pn 1 0 = Inr ([x], pn1)" "sel_inv {} pn1" "same_pool pn pn1"
    "selectionOrder pn1 = xs @ [x]"
    using round_robin_rotate [OF Suc.prems(1-3), of 1 0] Suc.prems(4,5) o by (auto simp: increment_def)
  have "all_valid pn1" "round_robin_pool pn1" "pp_DefaultMaxIncrement (pn_Policy pn1) = 1"
    using Suc.prems(2-4) all_valid_same [OF 1(3)] same_poolD(2) [OF 1(3)] by (simp_all add: round_robin_pool_def)
  from Suc.IH [OF 1(2) this] obtain pn2 where 2: "selectRepeatedly n pn1 = Inr (take n (xs @ [x]), pn2)"
    "sel_inv {} pn2" "same_pool pn1 pn2" "selectionOrder pn2 = rotate n (xs @ [x])"
    using Suc.prems(5,6) 1(4) o by auto
  have "rotate n (xs @ [x]) = rotate (Suc n) (x # xs)" using rotate1_rotate_swap [of n "x # xs"] by simp
  then show ?case
    using 1(1) 2 o Suc.prems(6) same_pool_trans [OF 1(3) 2(3)] by simp
qed simp

section \<open>The selection by value\<close>

lemma getNodeByValue_in: "getNodeByValue t val = Some i \<Longrightarrow> i \<in> fst ` set (entries t)"
proof (induction t arbitrary: val)
  case (Node c l x v s r)
  then show ?case by (fastforce simp: case_tree_if split: if_splits)
qed simp

lemma drawn_linked:
  assumes inv: "sel_inv U pn" and d: "RedBlackTreeGetNodeByValue (pn_Selection pn) val = Some i"
  shows "i \<in> pool_nodes pn - U"
  using getNodeByValue_in [of "rbt_Root (pn_Selection pn)" val i] d sel_invD(4) [OF inv]
  by (simp add: RedBlackTreeGetNodeByValue_def selectionOrder_set contents_def)

definition drawnOnce :: "nat \<Rightarrow> nat \<Rightarrow> u32 \<Rightarrow> PoolNode \<Rightarrow> PoolNode" where
  "drawnOnce maxIncrement done i pn =
     (if done < maxIncrement
      then (case pp_UpdatePoolElementNodeFunction (pn_Policy (stamped i pn)) of
              None \<Rightarrow> stamped i pn
            | Some f \<Rightarrow> modifyNode i f (stamped i pn))
      else stamped i pn)"

lemma drawSelected_Suc:
  "drawSelected random maxIncrement (Suc k) selected pn =
     (if RedBlackTreeGetValueSum (pn_Selection pn) < 1 then Inr (selected, pn)
      else case RedBlackTreeGetNodeByValue (pn_Selection pn)
                  (random (length selected) mod RedBlackTreeGetValueSum (pn_Selection pn)) of
          None \<Rightarrow> Inr (selected, pn)
        | Some i \<Rightarrow> bindR (poolNodeUnlinkPoolElementNodeFromSelection pn i) (\<lambda>unlinked.
            drawSelected random maxIncrement k (selected @ [i])
              ((drawnOnce maxIncrement (length selected) i pn)\<lparr>pn_Selection := pn_Selection unlinked\<rparr>)))"
  by (simp only: drawSelected.simps drawnOnce_def stamped_def Let_def)

lemma stamped_selection: "stamped i (pn\<lparr>pn_Selection := t\<rparr>) = (stamped i pn)\<lparr>pn_Selection := t\<rparr>"
  by (simp add: stamped_def modifyNode_def)

lemma drawnOnce_selection:
  "drawnOnce m d i (pn\<lparr>pn_Selection := t\<rparr>) = (drawnOnce m d i pn)\<lparr>pn_Selection := t\<rparr>"
  by (simp add: drawnOnce_def stamped_selection modifyNode_def split: option.splits)

lemma drawnOnce_ok:
  assumes inv: "sel_inv U pn" and i: "i \<in> U" and g: "unat (pn_GlobalSeqNumber pn) + 1 < 2 ^ 32"
  shows "sel_inv U (drawnOnce m d i pn)" "same_pool pn (drawnOnce m d i pn)"
    "unat (pn_GlobalSeqNumber (drawnOnce m d i pn)) = unat (pn_GlobalSeqNumber pn) + 1"
    "pn_Selection (drawnOnce m d i pn) = pn_Selection pn"
proof -
  note s = stamped_ok [OF inv i g]
  note u = update_ok [OF s(1) i]
  have "i \<in> pool_nodes (stamped i pn)" using sel_invD(2) [OF s(1)] i by auto
  then have d: "drawnOnce m d i pn =
      (if d < m then modifyNode i (policyUpdate (pn_Policy (stamped i pn))) (stamped i pn) else stamped i pn)"
    by (simp add: drawnOnce_def link_update)
  show "sel_inv U (drawnOnce m d i pn)" "same_pool pn (drawnOnce m d i pn)"
    "unat (pn_GlobalSeqNumber (drawnOnce m d i pn)) = unat (pn_GlobalSeqNumber pn) + 1"
    "pn_Selection (drawnOnce m d i pn) = pn_Selection pn"
    using s u same_pool_trans [OF s(2) u(2)] by (simp_all add: d)
qed

text \<open>Every linked node has a value, and the values do not wrap: then no draw fails.\<close>

definition drawable :: "PoolNode \<Rightarrow> bool" where
  "drawable pn \<longleftrightarrow> (\<forall>e \<in> set (contents (pn_Selection pn)). 0 < snd e) \<and> totalValue (contents (pn_Selection pn)) < 2 ^ 64"

lemma totalValue_filter: "totalValue (filter P es) \<le> totalValue es"
  by (induction es) (auto simp: totalValue_def)

lemma drawn_defined: "es \<noteq> [] \<Longrightarrow> drawn es n \<noteq> None"
  by (induction es n rule: drawn.induct) auto

lemma draw_possible:
  assumes inv: "sel_inv U pn" and d: "drawable pn" and ne: "selectionOrder pn \<noteq> []"
  shows "\<not> RedBlackTreeGetValueSum (pn_Selection pn) < 1" "RedBlackTreeGetNodeByValue (pn_Selection pn) val \<noteq> None"
proof -
  let ?t = "rbt_Root (pn_Selection pn)"
  have s: "RSP_TreeLaws.sums ?t" "entries ?t \<noteq> []" "totalValue (entries ?t) < 2 ^ 64"
    using sel_invD(3) [OF inv] ne d by (simp_all add: rbt_wf_def selectionOrder_def contents_def drawable_def)
  obtain e es where e: "entries ?t = e # es" using s(2) by (cases "entries ?t") auto
  then have "0 < snd e" using d by (simp add: drawable_def contents_def)
  then have "0 < unat (snd e)" by (simp add: word_less_nat_alt)
  then have "0 < totalValue (entries ?t)" using e by (cases e) (simp add: totalValue_def)
  then have "0 < unat (ValueSum ?t)" using ValueSum_total [OF s(1,3)] by simp
  then show "\<not> RedBlackTreeGetValueSum (pn_Selection pn) < 1"
    by (simp add: RedBlackTreeGetValueSum_def word_less_nat_alt)
  show "RedBlackTreeGetNodeByValue (pn_Selection pn) val \<noteq> None"
    using getNodeByValue_ok [OF s(1,3)] drawn_defined [OF s(2)] by (simp add: RedBlackTreeGetNodeByValue_def)
qed

lemma draw_ok:
  "sel_inv (set selected) pn \<Longrightarrow> distinct selected \<Longrightarrow> unat (pn_GlobalSeqNumber pn) + k < 2 ^ 32 \<Longrightarrow>
     \<exists>more pn'. drawSelected random m k selected pn = Inr (selected @ more, pn') \<and>
       distinct (selected @ more) \<and> length more \<le> k \<and> sel_inv (set (selected @ more)) pn' \<and> same_pool pn pn' \<and>
       (drawable pn \<longrightarrow> length more = min k (length (selectionOrder pn)))"
proof (induction k arbitrary: selected pn)
  case (Suc k)
  let ?draw = "RedBlackTreeGetNodeByValue (pn_Selection pn)
    (random (length selected) mod RedBlackTreeGetValueSum (pn_Selection pn))"
  show ?case
  proof (cases "RedBlackTreeGetValueSum (pn_Selection pn) < 1 \<or> ?draw = None")
    case True
    then have "drawSelected random m (Suc k) selected pn = Inr (selected @ [], pn)"
      by (auto simp: drawSelected_Suc simp del: drawSelected.simps)
    moreover have "drawable pn \<longrightarrow> selectionOrder pn = []"
      using True draw_possible [OF Suc.prems(1)] by blast
    ultimately show ?thesis using Suc.prems by (intro exI [of _ "[]"] exI [of _ pn]) auto
  next
    case False
    then obtain i where i: "?draw = Some i" by auto
    have ip: "i \<in> pool_nodes pn - set selected" by (rule drawn_linked [OF Suc.prems(1) i])
    obtain t where t: "poolNodeUnlinkPoolElementNodeFromSelection pn i = Inr (pn\<lparr>pn_Selection := t\<rparr>)"
      "sel_inv (Set.insert i (set selected)) (pn\<lparr>pn_Selection := t\<rparr>)"
      "contents t = filter (\<lambda>e. fst e \<noteq> i) (contents (pn_Selection pn))"
      using unlink_ok [OF Suc.prems(1) ip] by blast
    let ?q = "(drawnOnce m (length selected) i pn)\<lparr>pn_Selection := t\<rparr>"
    have g: "unat (pn_GlobalSeqNumber (pn\<lparr>pn_Selection := t\<rparr>)) + 1 < 2 ^ 32" using Suc.prems(3) by simp
    note d = drawnOnce_ok [OF t(2) _ g, of i m "length selected", unfolded drawnOnce_selection]
    have q: "sel_inv (set (selected @ [i])) ?q" "unat (pn_GlobalSeqNumber ?q) + k < 2 ^ 32" "same_pool pn ?q"
      using d Suc.prems(3) by (simp_all add: same_pool_def)
    have dq: "drawable ?q" if "drawable pn"
      using that t(3) totalValue_filter [of "\<lambda>e. fst e \<noteq> i" "contents (pn_Selection pn)"]
      by (auto simp: drawable_def)
    have "selectionOrder ?q = filter (\<lambda>j. j \<noteq> i) (selectionOrder pn)"
      using t(3) by (simp add: selectionOrder_def filter_map comp_def)
    also have "\<dots> = remove1 i (selectionOrder pn)"
      using distinct_remove1_removeAll [OF selectionOrder_distinct [OF Suc.prems(1)], of i]
      by (simp add: removeAll_filter_not_eq) (metis (mono_tags, lifting) filter_cong)
    finally have lq: "length (selectionOrder pn) = Suc (length (selectionOrder ?q))"
      using ip sel_invD(4) [OF Suc.prems(1)] length_pos_if_in_set [of i "selectionOrder pn"]
      by (simp add: length_remove1)
    have "distinct (selected @ [i])" using Suc.prems(2) ip by simp
    from Suc.IH [OF q(1) this q(2)] obtain more pn' where
      "drawSelected random m k (selected @ [i]) ?q = Inr (selected @ i # more, pn')" "distinct (selected @ i # more)"
      "length more \<le> k" "sel_inv (set (selected @ i # more)) pn'" "same_pool ?q pn'"
      "drawable ?q \<longrightarrow> length more = min k (length (selectionOrder ?q))" by auto
    then show ?thesis
      using False i t(1) same_pool_trans [OF q(3)] dq lq
      by (intro exI [of _ "i # more"] exI [of _ pn']) (auto simp: drawSelected_Suc simp del: drawSelected.simps)
  qed
qed simp

lemma linkAll_ok:
  "sel_inv (set is) pn \<Longrightarrow> distinct is \<Longrightarrow> all_valid pn \<Longrightarrow>
     \<exists>pn'. linkAll is pn = Inr pn' \<and> sel_inv {} pn' \<and> same_pool pn pn'"
proof (induction "is" arbitrary: pn)
  case (Cons i "is")
  have ip: "i \<in> pool_nodes pn" using sel_invD(2) [OF Cons.prems(1)] by simp
  then have "poolPolicySettingsIsValid (pen_PolicySettings (node pn i))" using Cons.prems(3) by (simp add: all_valid_def)
  from link_ok [OF Cons.prems(1) _ this] obtain pn1 where
    1: "poolNodeLinkPoolElementNodeToSelection pn i = Inr pn1" "linked i pn pn1" "sel_inv (set is) pn1"
    using Cons.prems(2) by auto
  note s = linked_same [OF 1(2) ip sel_invD(1) [OF Cons.prems(1)]]
  obtain pn2 where "linkAll is pn1 = Inr pn2" "sel_inv {} pn2" "same_pool pn1 pn2"
    using Cons.IH [OF 1(3)] Cons.prems(2,3) all_valid_same [OF s] by auto
  then show ?case using 1(1) same_pool_trans [OF s] by auto
qed simp

lemma select_by_value_ok:
  assumes inv: "sel_inv {} pn" and v: "all_valid pn" and k: "1 \<le> k" "length (selectionOrder pn) + k < 2 ^ 32"
  shows "\<exists>selected pn'. selectByValueTree random pn k inc = Inr (selected, pn') \<and> distinct selected \<and>
    set selected \<subseteq> pool_nodes pn \<and> length selected \<le> k \<and> sel_inv {} pn' \<and> same_pool pn pn' \<and>
    (drawable pn \<longrightarrow> length selected = min k (length (selectionOrder pn)))"
proof -
  note p = prepare_ok [OF inv k(2)]
  let ?k = "min (RedBlackTreeGetElements (pn_Selection pn)) k"
  have "unat (pn_GlobalSeqNumber (prepareSelection k pn)) + ?k < 2 ^ 32"
    using p(4) by (rule le_less_trans [rotated]) simp
  from draw_ok [of "[]" "prepareSelection k pn" ?k random "increment pn inc"] p(1) this obtain sel pn1 where
    1: "drawSelected random (increment pn inc) ?k [] (prepareSelection k pn) = Inr (sel, pn1)" "distinct sel"
      "length sel \<le> ?k" "sel_inv (set sel) pn1" "same_pool (prepareSelection k pn) pn1"
      "drawable (prepareSelection k pn) \<longrightarrow> length sel = min ?k (length (selectionOrder (prepareSelection k pn)))"
    by auto
  have s: "same_pool pn pn1" by (rule same_pool_trans [OF p(2) 1(5)])
  from linkAll_ok [OF 1(4,2)] obtain pn2 where 2: "linkAll sel pn1 = Inr pn2" "sel_inv {} pn2" "same_pool pn1 pn2"
    using all_valid_same [OF s] v by auto
  have "selectByValueTree random pn k inc = Inr (sel, pn2)"
    using k(1) 1(1) 2(1) by (simp add: selectByValueTree_def Let_def increment_def)
  moreover have "set sel \<subseteq> pool_nodes pn" using sel_invD(2) [OF 1(4)] same_poolD(1) [OF s] by simp
  moreover have "drawable pn \<longrightarrow> length sel = min k (length (selectionOrder pn))"
    using 1(6) p(3) sel_invD(3) [OF inv]
    by (auto simp: drawable_def selectionOrder_def RedBlackTreeGetElements_def rbt_wf_def)
  ultimately show ?thesis using 1(2,3) 2(2) same_pool_trans [OF s 2(3)] by auto
qed

end
