(* ===== verification/RSP_PoolOps.thy ===== *)
theory RSP_PoolOps
  imports RSP_Selection
begin

text \<open>
  Adding, updating and removing the pool elements of a pool: each keeps the invariant of the pool,
  and the index storage finds exactly the pool elements that were added and not removed.
\<close>

definition pool_wf :: "PoolNode \<Rightarrow> bool" where
  "pool_wf pn \<longleftrightarrow> idx_inv pn \<and> indexed pn = pool_nodes pn \<and> sel_inv {} pn \<and> all_valid pn"

lemma pool_wfD:
  assumes "pool_wf pn"
  shows "idx_inv pn" "indexed pn = pool_nodes pn" "sel_inv {} pn" "all_valid pn"
  using assms by (simp_all add: pool_wf_def)

lemma pool_wf_find: "pool_wf pn \<Longrightarrow> poolNodeFindPoolElementNode pn i = (if i \<in> pool_nodes pn then Some i else None)"
  using index_find [of pn i] by (simp add: pool_wf_def)

lemma pool_wf_same: "pool_wf pn \<Longrightarrow> same_pool pn pn' \<Longrightarrow> sel_inv {} pn' \<Longrightarrow> pool_wf pn'"
  by (simp add: pool_wf_def all_valid_same same_poolD idx_inv_def indexed_def)

lemma poolNodeNew_wf:
  assumes "p \<in> set PoolPolicyArray"
  shows "pool_wf (poolNodeNew h p protocol fl)" "pool_nodes (poolNodeNew h p protocol fl) = {}"
  using assms
  by (simp_all add: poolNodeNew_def pool_wf_def idx_inv_def indexed_def sel_inv_def all_valid_def pool_nodes_def
      selectionOrder_def RedBlackTreeNew_wf)

section \<open>Adding\<close>

lemma sel_inv_index [simp]: "sel_inv U (pn\<lparr>pn_Index := t\<rparr>) = sel_inv U pn"
proof -
  have "poolElementSelectionStorageNodeComparison (pn\<lparr>pn_Index := t\<rparr>) = poolElementSelectionStorageNodeComparison pn"
    by (intro ext) (simp add: poolElementSelectionStorageNodeComparison_def)
  then show ?thesis by (simp add: sel_inv_def selectionOrder_def)
qed

text \<open>A node in the store that is not linked yet.\<close>

lemma sel_inv_add:
  assumes inv: "sel_inv {} pn" and i: "i \<notin> pool_nodes pn"
    and n: "pen_Identifier n = i" "pen_SeqNumber n = pn_GlobalSeqNumber pn"
    and g: "pn_GlobalSeqNumber pn < pn_GlobalSeqNumber pn + 1"
  defines "pn' \<equiv> pn\<lparr>pn_Elements := (pn_Elements pn)(i \<mapsto> n), pn_GlobalSeqNumber := pn_GlobalSeqNumber pn + 1\<rparr>"
  shows "sel_inv {i} pn'" "pool_nodes pn' = Set.insert i (pool_nodes pn)"
    "node pn' j = (if j = i then n else node pn j)"
proof -
  show p: "pool_nodes pn' = Set.insert i (pool_nodes pn)" by (auto simp: pn'_def pool_nodes_def)
  have nd: "node pn' j = (if j = i then n else node pn j)" for j by (simp add: pn'_def node_def)
  then show "node pn' j = (if j = i then n else node pn j)" .
  have pp: "pn_Policy pn' = pn_Policy pn" and pg: "pn_GlobalSeqNumber pn' = pn_GlobalSeqNumber pn + 1"
    by (simp_all add: pn'_def)
  have lk: "fst ` set (contents (pn_Selection pn)) = pool_nodes pn"
    using sel_invD(4) [OF inv] by (simp add: selectionOrder_set)
  have "rbt_wf (poolElementSelectionStorageNodeComparison pn') (pn_Selection pn)"
    by (rule rbt_wf_mono [OF sel_invD(3) [OF inv]])
       (use lk i in \<open>auto simp: poolElementSelectionStorageNodeComparison_def nd pp\<close>)
  moreover have "inj_on (\<lambda>j. pen_SeqNumber (node pn' j)) (pool_nodes pn')"
  proof -
    have "inj_on (\<lambda>j. pen_SeqNumber (node pn' j)) (pool_nodes pn)"
      using sel_invD(7) [OF inv] i by (simp add: nd inj_on_def)
    moreover have "pn_GlobalSeqNumber pn \<notin> (\<lambda>j. pen_SeqNumber (node pn' j)) ` pool_nodes pn"
    proof
      assume "pn_GlobalSeqNumber pn \<in> (\<lambda>j. pen_SeqNumber (node pn' j)) ` pool_nodes pn"
      then obtain j where "j \<in> pool_nodes pn" "pn_GlobalSeqNumber pn = pen_SeqNumber (node pn j)" using i by (auto simp: nd split: if_splits)
      then show False using sel_invD(6) [OF inv, of j] by simp
    qed
    ultimately show ?thesis using i n(2) by (simp add: p nd)
  qed
  moreover have "\<forall>j \<in> pool_nodes pn'. pen_Identifier (node pn' j) = j \<and> pen_SeqNumber (node pn' j) < pn_GlobalSeqNumber pn'"
    using sel_invD(5,6) [OF inv] n g less_trans [OF _ g] by (simp add: p nd pg)
  moreover have "\<forall>e \<in> set (contents (pn_Selection pn)). snd e = pen_SelectionValue (node pn' (fst e))"
    using sel_invD(8) [OF inv] lk i by (auto simp: nd)
  moreover have "pn_Selection pn' = pn_Selection pn" "pn_Policy pn' = pn_Policy pn" by (simp_all add: pn'_def)
  ultimately show "sel_inv {i} pn'"
    using sel_invD(1) [OF inv] lk i p by (auto simp: sel_inv_def selectionOrder_set)
qed

lemma initialize_ok:
  assumes inv: "sel_inv U pn" and i: "i \<in> U"
  shows "sel_inv U (callInitialize f i pn)" "same_pool pn (callInitialize f i pn)"
proof -
  have ip: "i \<in> pool_nodes pn" using sel_invD(2) [OF inv] i by auto
  show "sel_inv U (callInitialize f i pn)"
    using sel_invD(5) [OF inv ip] by (cases f) (simp add: modify_unlinked [OF inv i])
  show "same_pool pn (callInitialize f i pn)" using ip by (cases f) (simp add: same_pool_modify)
qed

text \<open>The node as it is put into the pool.\<close>

definition fresh :: "PoolElementNode \<Rightarrow> PoolElementNode" where
  "fresh n = registration (n\<lparr>pen_Flags := pen_Flags n OR PENF_UPDATED\<rparr>)"

lemma compatible_valid:
  "poolNodeCheckPoolElementNodeCompatibility pn n = Inr RSPERR_OKAY \<Longrightarrow>
     poolPolicySettingsIsValid (pen_PolicySettings n) \<and> pen_Identifier n \<noteq> 0 \<and> pen_UserTransport n \<noteq> None"
  by (auto simp: poolNodeCheckPoolElementNodeCompatibility_def Let_def split: if_splits option.splits)


lemma numbers_left:
  assumes inv: "sel_inv {} pn" and l: "length (selectionOrder pn) + 1 < 2 ^ 32"
  defines "pn' \<equiv> (if pn_GlobalSeqNumber pn + 1 < pn_GlobalSeqNumber pn then poolNodeResequence pn else pn)"
  shows "sel_inv {} pn'" "same_pool pn pn'" "pn_GlobalSeqNumber pn' < pn_GlobalSeqNumber pn' + 1"
proof -
  have l': "length (selectionOrder pn) < 2 ^ 32" using l by simp
  show "sel_inv {} pn'" "same_pool pn pn'"
    using inv resequence_ok(1) [OF inv l'] same_resequence [OF inv l'] by (simp_all add: pn'_def)
  have "unat (pn_GlobalSeqNumber pn') + 1 < 2 ^ 32"
    using no_wrap [of 1 "pn_GlobalSeqNumber pn"] resequence_ok(6) [OF inv l'] l
    by (auto simp: pn'_def unat_of_nat take_bit_eq_mod)
  from unat_Suc32 [OF this] show "pn_GlobalSeqNumber pn' < pn_GlobalSeqNumber pn' + 1" by blast
qed

text \<open>The pool with the new node in the index storage and in the store, before it is linked.\<close>

definition entered :: "PoolNode \<Rightarrow> PoolElementNode \<Rightarrow> PoolNode" where
  "entered pn n =
     (let i = pen_Identifier n;
          pn1 = pn\<lparr>pn_Index := snd (RedBlackTreeInsert poolElementIndexStorageNodeComparison (pn_Index pn) i 0)\<rparr>;
          pn2 = (if pn_GlobalSeqNumber pn1 + 1 < pn_GlobalSeqNumber pn1 then poolNodeResequence pn1 else pn1);
          pn3 = pn2\<lparr>pn_Elements := (pn_Elements pn2)(i \<mapsto>
                    n\<lparr>pen_Flags := pen_Flags n OR PENF_UPDATED, pen_SeqNumber := pn_GlobalSeqNumber pn2,
                      pen_VirtualCounter := 0, pen_RoundCounter := 0, pen_SelectionCounter := 0, pen_Degradation := 0\<rparr>),
                   pn_GlobalSeqNumber := pn_GlobalSeqNumber pn2 + 1\<rparr>
      in case pp_InitializePoolElementNodeFunction (pn_Policy pn3) of
           None \<Rightarrow> pn3
         | Some f \<Rightarrow> callInitialize f i pn3)"

lemma add_entered:
  assumes "pool_wf pn" "poolNodeCheckPoolElementNodeCompatibility pn n = Inr RSPERR_OKAY" "pen_Identifier n \<notin> pool_nodes pn"
  shows "poolNodeAddPoolElementNode pn n =
    bindR (poolNodeLinkPoolElementNodeToSelection (entered pn n) (pen_Identifier n)) (\<lambda>pn5. Inr (RSPERR_OKAY, Added, pn5))"
  using assms(2,3) pool_wf_find [OF assms(1)]
  unfolding poolNodeAddPoolElementNode_def entered_def Let_def by simp

lemma entered_ok:
  assumes wf: "pool_wf pn" and l: "length (selectionOrder pn) + 1 < 2 ^ 32" and i: "pen_Identifier n \<notin> pool_nodes pn"
  shows "sel_inv {pen_Identifier n} (entered pn n)"
    "pool_nodes (entered pn n) = Set.insert (pen_Identifier n) (pool_nodes pn)"
    "registration (node (entered pn n) j) = (if j = pen_Identifier n then fresh n else registration (node pn j))"
    "pn_Handle (entered pn n) = pn_Handle pn" "pn_Policy (entered pn n) = pn_Policy pn"
    "pn_Protocol (entered pn n) = pn_Protocol pn" "pn_Flags (entered pn n) = pn_Flags pn"
    "pn_Index (entered pn n) =
       snd (RedBlackTreeInsert poolElementIndexStorageNodeComparison (pn_Index pn) (pen_Identifier n) 0)"
proof -
  let ?i = "pen_Identifier n"
  let ?t = "snd (RedBlackTreeInsert poolElementIndexStorageNodeComparison (pn_Index pn) ?i 0)"
  define pn1 where "pn1 = pn\<lparr>pn_Index := ?t\<rparr>"
  have i1: "sel_inv {} pn1" "pool_nodes pn1 = pool_nodes pn" "length (selectionOrder pn1) + 1 < 2 ^ 32"
    using pool_wfD(3) [OF wf] l by (simp_all add: pn1_def selectionOrder_def)
  define pn2 where "pn2 = (if pn_GlobalSeqNumber pn1 + 1 < pn_GlobalSeqNumber pn1 then poolNodeResequence pn1 else pn1)"
  note i2 = numbers_left [OF i1(1,3), folded pn2_def]
  define n' where "n' = n\<lparr>pen_Flags := pen_Flags n OR PENF_UPDATED, pen_SeqNumber := pn_GlobalSeqNumber pn2,
    pen_VirtualCounter := 0, pen_RoundCounter := 0, pen_SelectionCounter := 0, pen_Degradation := 0\<rparr>"
  define pn3 where "pn3 = pn2\<lparr>pn_Elements := (pn_Elements pn2)(?i \<mapsto> n'), pn_GlobalSeqNumber := pn_GlobalSeqNumber pn2 + 1\<rparr>"
  have in2: "?i \<notin> pool_nodes pn2" using i i1(2) same_poolD(1) [OF i2(2)] by simp
  have n': "pen_Identifier n' = ?i" "pen_SeqNumber n' = pn_GlobalSeqNumber pn2" "registration n' = fresh n"
    by (simp_all add: n'_def fresh_def registration_def)
  note i3 = sel_inv_add [OF i2(1) in2 n'(1,2) i2(3), folded pn3_def]
  have e: "entered pn n = (case pp_InitializePoolElementNodeFunction (pn_Policy pn3) of None \<Rightarrow> pn3
    | Some f \<Rightarrow> callInitialize f ?i pn3)"
    unfolding entered_def Let_def pn3_def n'_def pn2_def pn1_def ..
  have i4: "sel_inv {?i} (entered pn n)" "same_pool pn3 (entered pn n)"
    using i3(1) initialize_ok by (auto simp: e split: option.splits)
  show "sel_inv {?i} (entered pn n)" by (rule i4(1))
  show "registration (node (entered pn n) j) = (if j = ?i then fresh n else registration (node pn j))"
    using same_poolD(4) [OF i4(2), of j] i3(3) [of j] same_poolD(4) [OF i2(2), of j] n'(3) by (simp add: pn1_def)
  show "pool_nodes (entered pn n) = Set.insert ?i (pool_nodes pn)"
    using same_poolD(1) [OF i4(2)] i3(2) same_poolD(1) [OF i2(2)] i1(2) by simp
  show "pn_Handle (entered pn n) = pn_Handle pn" "pn_Policy (entered pn n) = pn_Policy pn"
    "pn_Protocol (entered pn n) = pn_Protocol pn" "pn_Flags (entered pn n) = pn_Flags pn" "pn_Index (entered pn n) = ?t"
    using i4(2) i2(2) by (simp_all add: same_pool_def pn3_def pn1_def)
qed

lemma add_ok:
  assumes wf: "pool_wf pn" and l: "length (selectionOrder pn) + 1 < 2 ^ 32"
    and c: "poolNodeCheckPoolElementNodeCompatibility pn n = Inr RSPERR_OKAY" and i: "pen_Identifier n \<notin> pool_nodes pn"
  shows "\<exists>pn'. poolNodeAddPoolElementNode pn n = Inr (RSPERR_OKAY, Added, pn') \<and> pool_wf pn' \<and>
    pool_nodes pn' = Set.insert (pen_Identifier n) (pool_nodes pn) \<and>
    (\<forall>j. registration (node pn' j) = (if j = pen_Identifier n then fresh n else registration (node pn j))) \<and>
    pn_Handle pn' = pn_Handle pn \<and> pn_Policy pn' = pn_Policy pn \<and> pn_Protocol pn' = pn_Protocol pn \<and>
    pn_Flags pn' = pn_Flags pn"
proof -
  let ?i = "pen_Identifier n"
  note e = entered_ok [OF wf l i]
  have ps: "registration n' = fresh n \<Longrightarrow> pen_PolicySettings n' = pen_PolicySettings n" for n'
    using registration_eqD(2) [of n' "n\<lparr>pen_Flags := pen_Flags n OR PENF_UPDATED\<rparr>"] by (simp add: fresh_def)
  have "poolPolicySettingsIsValid (pen_PolicySettings (node (entered pn n) ?i))"
    using ps [of "node (entered pn n) ?i"] e(3) compatible_valid [OF c] by simp
  from link_ok [OF e(1) _ this] obtain pn5 where i5: "poolNodeLinkPoolElementNodeToSelection (entered pn n) ?i = Inr pn5"
    "linked ?i (entered pn n) pn5" "sel_inv {} pn5" by auto
  have s5: "same_pool (entered pn n) pn5" using linked_same [OF i5(2) _ sel_invD(1) [OF e(1)]] e(2) by simp
  have p5: "pool_nodes pn5 = Set.insert ?i (pool_nodes pn)" using same_poolD(1) [OF s5] e(2) by simp
  have nd5: "registration (node pn5 j) = (if j = ?i then fresh n else registration (node pn j))" for j
    using same_poolD(4) [OF s5, of j] e(3) by simp
  have "poolPolicySettingsIsValid (pen_PolicySettings (node pn5 j))" if "j \<in> pool_nodes pn5" for j
    using that nd5 [of j] ps [of "node pn5 j"] registration_eqD(2) [of "node pn5 j" "node pn j"]
      compatible_valid [OF c] pool_wfD(4) [OF wf] p5 by (auto simp: all_valid_def split: if_splits)
  then have "all_valid pn5" by (simp add: all_valid_def)
  then have "pool_wf pn5"
    using i5(3) s5 p5 e(8) index_insert [OF pool_wfD(1) [OF wf], of ?i _ 0] i pool_wfD(2) [OF wf]
    by (simp add: pool_wf_def idx_inv_def indexed_def same_poolD)
  moreover have "pn_Handle pn5 = pn_Handle pn" "pn_Policy pn5 = pn_Policy pn" "pn_Protocol pn5 = pn_Protocol pn"
    "pn_Flags pn5 = pn_Flags pn" using s5 e(4-7) by (simp_all add: same_pool_def)
  ultimately show ?thesis using add_entered [OF wf c i] i5(1) nd5 p5 by (intro exI [of _ pn5] conjI) simp_all
qed

text \<open>The other results of adding: an incompatible pool element and an identifier in use.\<close>

lemma add_rejected:
  assumes "poolNodeCheckPoolElementNodeCompatibility pn n = Inr e" "e \<noteq> RSPERR_OKAY"
  shows "poolNodeAddPoolElementNode pn n = Inr (e, NotAdded, pn)"
  using assms by (simp add: poolNodeAddPoolElementNode_def)

lemma add_duplicate:
  assumes "pool_wf pn" "poolNodeCheckPoolElementNodeCompatibility pn n = Inr RSPERR_OKAY" "pen_Identifier n \<in> pool_nodes pn"
  shows "poolNodeAddPoolElementNode pn n = Inr (RSPERR_DUPLICATE_ID, Present, pn)"
  using assms(2,3) pool_wf_find [OF assms(1)] by (simp add: poolNodeAddPoolElementNode_def)

section \<open>Removing\<close>

lemma sel_inv_drop:
  assumes inv: "sel_inv {i} pn"
  defines "pn' \<equiv> pn\<lparr>pn_Elements := (pn_Elements pn)(i := None)\<rparr>"
  shows "sel_inv {} pn'" "pool_nodes pn' = pool_nodes pn - {i}" "j \<noteq> i \<Longrightarrow> node pn' j = node pn j"
proof -
  show p: "pool_nodes pn' = pool_nodes pn - {i}" by (auto simp: pn'_def pool_nodes_def)
  have nd: "node pn' j = node pn j" if "j \<noteq> i" for j using that by (simp add: pn'_def node_def)
  then show "j \<noteq> i \<Longrightarrow> node pn' j = node pn j" .
  have q: "pn_Policy pn' = pn_Policy pn" "pn_Selection pn' = pn_Selection pn" "pn_GlobalSeqNumber pn' = pn_GlobalSeqNumber pn"
    by (simp_all add: pn'_def)
  have lk: "fst ` set (contents (pn_Selection pn)) = pool_nodes pn - {i}"
    using sel_invD(4) [OF inv] by (simp add: selectionOrder_set)
  have "rbt_wf (poolElementSelectionStorageNodeComparison pn') (pn_Selection pn)"
    by (rule rbt_wf_mono [OF sel_invD(3) [OF inv]])
       (use lk in \<open>auto simp: poolElementSelectionStorageNodeComparison_def nd q\<close>)
  moreover have "inj_on (\<lambda>j. pen_SeqNumber (node pn' j)) (pool_nodes pn')"
    using sel_invD(7) [OF inv] by (auto simp: p nd inj_on_def)
  moreover have "\<forall>j \<in> pool_nodes pn'. pen_Identifier (node pn' j) = j \<and> pen_SeqNumber (node pn' j) < pn_GlobalSeqNumber pn'"
    using sel_invD(5,6) [OF inv] by (simp add: p nd q)
  moreover have "\<forall>e \<in> set (contents (pn_Selection pn)). snd e = pen_SelectionValue (node pn' (fst e))"
  proof
    fix e assume e: "e \<in> set (contents (pn_Selection pn))"
    then have "fst e \<noteq> i" using lk by auto
    then show "snd e = pen_SelectionValue (node pn' (fst e))" using sel_invD(8) [OF inv e] nd by simp
  qed
  ultimately show "sel_inv {} pn'"
    using sel_invD(1) [OF inv] lk p by (simp add: sel_inv_def selectionOrder_set q)
qed

lemma pool_remove_ok:
  assumes wf: "pool_wf pn" and i: "i \<in> pool_nodes pn"
  shows "\<exists>pn'. poolNodeRemovePoolElementNode pn i = Inr (node pn i, pn') \<and> pool_wf pn' \<and>
    pool_nodes pn' = pool_nodes pn - {i} \<and> (\<forall>j. j \<noteq> i \<longrightarrow> node pn' j = node pn j) \<and>
    selectionOrder pn' = filter (\<lambda>j. j \<noteq> i) (selectionOrder pn) \<and>
    pn_Handle pn' = pn_Handle pn \<and> pn_Policy pn' = pn_Policy pn \<and> pn_Protocol pn' = pn_Protocol pn \<and>
    pn_Flags pn' = pn_Flags pn"
proof -
  obtain t1 where t1: "RedBlackTreeRemove poolElementIndexStorageNodeComparison (pn_Index pn) i = Inr t1"
    "rbt_wf poolElementIndexStorageNodeComparison t1" "fst ` set (contents t1) = pool_nodes pn - {i}"
    using index_remove [OF pool_wfD(1) [OF wf], of i] pool_wfD(2) [OF wf] i by auto
  obtain t2 where t2: "poolNodeUnlinkPoolElementNodeFromSelection pn i = Inr (pn\<lparr>pn_Selection := t2\<rparr>)"
    "sel_inv {i} (pn\<lparr>pn_Selection := t2\<rparr>)" "contents t2 = filter (\<lambda>e. fst e \<noteq> i) (contents (pn_Selection pn))"
    using unlink_ok [OF pool_wfD(3) [OF wf], of i] i by auto
  obtain t3 where "RedBlackTreeRemove (poolElementSelectionStorageNodeComparison pn) (pn_Selection pn) i = Inr t3"
    and "pn\<lparr>pn_Selection := t3\<rparr> = pn\<lparr>pn_Selection := t2\<rparr>"
    using t2(1) by (cases "RedBlackTreeRemove (poolElementSelectionStorageNodeComparison pn) (pn_Selection pn) i")
      (simp_all add: poolNodeUnlinkPoolElementNodeFromSelection_def)
  moreover from this(2) have "t3 = t2" using PoolNode.select_convs(8) by (metis PoolNode.surjective PoolNode.update_convs(8))
  ultimately have r: "RedBlackTreeRemove (poolElementSelectionStorageNodeComparison pn) (pn_Selection pn) i = Inr t2" by simp
  let ?pn = "pn\<lparr>pn_Index := t1, pn_Selection := t2, pn_Elements := (pn_Elements pn)(i := None)\<rparr>"
  have s: "sel_inv {i} (pn\<lparr>pn_Index := t1, pn_Selection := t2\<rparr>)"
  proof -
    have "pn\<lparr>pn_Index := t1, pn_Selection := t2\<rparr> = pn\<lparr>pn_Selection := t2\<rparr>\<lparr>pn_Index := t1\<rparr>" by simp
    then show ?thesis using t2(2) by (simp only: sel_inv_index)
  qed
  note d = sel_inv_drop [OF s]
  have p: "pool_nodes ?pn = pool_nodes pn - {i}" and nd: "\<And>j. j \<noteq> i \<Longrightarrow> node ?pn j = node pn j"
    and inv: "sel_inv {} ?pn" using d by simp_all
  have "all_valid ?pn" using pool_wfD(4) [OF wf] by (simp add: all_valid_def p nd)
  then have "pool_wf ?pn" using inv t1(2,3) p by (simp add: pool_wf_def idx_inv_def indexed_def)
  moreover have "selectionOrder ?pn = filter (\<lambda>j. j \<noteq> i) (selectionOrder pn)"
    using t2(3) by (simp add: selectionOrder_def filter_map comp_def)
  moreover have "poolNodeRemovePoolElementNode pn i = Inr (node pn i, ?pn)"
    using t1(1) r by (simp add: poolNodeRemovePoolElementNode_def)
  ultimately show ?thesis using p nd by (intro exI [of _ ?pn] conjI) simp_all
qed

section \<open>Updating\<close>

lemma poolElementNodeUpdate_keeps:
  assumes "poolElementNodeUpdate n source = (changed, n')"
  shows "pen_Identifier n' = pen_Identifier n" "pen_SeqNumber n' = pen_SeqNumber n"
    "\<not> changed \<Longrightarrow> sortingFields n' = sortingFields n \<and> pen_SelectionValue n' = pen_SelectionValue n \<and>
       pen_PolicySettings n' = pen_PolicySettings n"
    "changed \<Longrightarrow> pen_PolicySettings n' = pen_PolicySettings source"
  using assms by (auto simp: poolElementNodeUpdate_def Let_def sortingFields_def split: if_splits)

lemma all_valid_modify:
  assumes "all_valid pn" "poolPolicySettingsIsValid (pen_PolicySettings n)" "i \<in> pool_nodes pn"
  shows "all_valid (modifyNode i (\<lambda>_. n) pn)"
  using assms by (simp add: all_valid_def)

lemma update_pool_ok:
  assumes wf: "pool_wf pn" and i: "i \<in> pool_nodes pn"
    and c: "poolNodeCheckPoolElementNodeCompatibility pn (node pn i) = Inr RSPERR_OKAY"
    and v: "poolPolicySettingsIsValid (pen_PolicySettings source)"
  shows "\<exists>pn'. poolNodeUpdatePoolElementNode pn i source = Inr (RSPERR_OKAY, pn') \<and> pool_wf pn' \<and>
    same_pool (modifyNode i (\<lambda>_. snd (poolElementNodeUpdate (node pn i) source)) pn) pn'"
proof -
  obtain b n where bn: "poolElementNodeUpdate (node pn i) source = (b, n)" by fastforce
  note k = poolElementNodeUpdate_keeps [OF bn]
  note inv = pool_wfD(3) [OF wf]
  let ?m = "modifyNode i (\<lambda>_. n) pn"
  show ?thesis
  proof (cases b)
    case False
    have v': "poolPolicySettingsIsValid (pen_PolicySettings n)"
      using k(3) [OF False] pool_wfD(4) [OF wf] i by (simp add: all_valid_def)
    have "sel_inv {} ?m" using k(3) [OF False] by (intro modify_fields [OF inv i]) simp_all
    then have "pool_wf ?m"
      using wf all_valid_modify [OF pool_wfD(4) [OF wf] v' i] i by (simp add: pool_wf_def idx_inv_def indexed_def)
    then show ?thesis using False bn c by (simp add: poolNodeUpdatePoolElementNode_def)
  next
    case True
    obtain t where t: "poolNodeUnlinkPoolElementNodeFromSelection pn i = Inr (pn\<lparr>pn_Selection := t\<rparr>)"
      "sel_inv {i} (pn\<lparr>pn_Selection := t\<rparr>)" using unlink_ok [OF inv, of i] i by auto
    let ?q = "modifyNode i (\<lambda>_. n) (pn\<lparr>pn_Selection := t\<rparr>)"
    have q: "sel_inv {i} ?q"
      using k(1,2) sel_invD(5) [OF inv i] by (intro modify_unlinked [OF t(2)]) simp_all
    have qs: "?q = ?m\<lparr>pn_Selection := t\<rparr>" by (simp add: modifyNode_def node_def)
    have v': "poolPolicySettingsIsValid (pen_PolicySettings n)" using k(4) [OF True] v by simp
    then have "poolPolicySettingsIsValid (pen_PolicySettings (node ?q i))" by simp
    from link_ok [OF q _ this] obtain pn' where l: "poolNodeLinkPoolElementNodeToSelection ?q i = Inr pn'"
      "linked i ?q pn'" "sel_inv {} pn'" by auto
    have s: "same_pool ?q pn'" using linked_same [OF l(2) _ sel_invD(1) [OF q]] i by simp
    then have s': "same_pool ?m pn'" unfolding qs by (simp add: same_pool_def)
    have "pool_wf pn'"
      using wf l(3) all_valid_same [OF s'] all_valid_modify [OF pool_wfD(4) [OF wf] v' i] s' i
      by (simp add: pool_wf_def idx_inv_def indexed_def same_poolD)
    moreover have "poolNodeUpdatePoolElementNode pn i source = Inr (RSPERR_OKAY, pn')"
      using True bn c t(1) l(1) by (simp add: poolNodeUpdatePoolElementNode_def)
    ultimately show ?thesis using s' bn by auto
  qed
qed

end
