(* ===== verification/RSP_Checksum.thy ===== *)
theory RSP_Checksum
  imports RSP_PoolOps
begin

text \<open>
  The handlespace checksum (poolhandlespacechecksum.c): an accumulator of 32 bits to which the
  16 bit words of the handle and the identifier of every pool element are added, and its folding
  into the 16 bit checksum that registrars compare. Words are read in the byte order of a
  little-endian host.
\<close>

section \<open>The accumulator\<close>

definition handlespaceChecksumAdd :: "u32 \<Rightarrow> u32 \<Rightarrow> u32" where
  "handlespaceChecksumAdd a b = a + b"

definition handlespaceChecksumSub :: "u32 \<Rightarrow> u32 \<Rightarrow> u32" where
  "handlespaceChecksumSub a b = a - b"

text \<open>The loop over the words of the buffer; an odd byte at the end is the low byte of a word.\<close>

fun handlespaceChecksumCompute :: "u32 \<Rightarrow> byte list \<Rightarrow> u32" where
  "handlespaceChecksumCompute acc (a # b # bs) =
     handlespaceChecksumCompute (acc + ucast (of_he16 [a, b])) bs"
| "handlespaceChecksumCompute acc [a] = acc + ucast (of_he16 [a, 0])"
| "handlespaceChecksumCompute acc [] = acc"

section \<open>Folding\<close>

lemma fold_once:
  fixes acc :: u32
  shows "unat ((acc AND 0xffff) + drop_bit 16 acc) = unat acc mod 65536 + unat acc div 65536"
    "drop_bit 16 acc = 0 \<longleftrightarrow> unat acc div 65536 = 0"
proof -
  have d: "unat (drop_bit 16 acc) = unat acc div 65536"
    unfolding unat_drop_bit_eq by (simp add: drop_bit_eq_div)
  have e: "acc AND 0xffff = take_bit 16 acc" by (simp add: take_bit_eq_mask mask_eq_exp_minus_1)
  have m: "unat (acc AND 0xffff) = unat acc mod 65536"
    unfolding e unsigned_take_bit_eq by (simp add: take_bit_eq_mod)
  have "unat acc < 2 ^ LENGTH(32)" by (rule unsigned_less)
  then have "unat acc div 65536 < 65536" by (simp add: less_mult_imp_div_less)
  then show "unat ((acc AND 0xffff) + drop_bit 16 acc) = unat acc mod 65536 + unat acc div 65536"
    using d m by (simp add: unat_word_ariths)
  show "drop_bit 16 acc = 0 \<longleftrightarrow> unat acc div 65536 = 0" using d by (metis unat_eq_zero)
qed

lemma fold_decreases:
  assumes "drop_bit 16 acc \<noteq> (0 :: u32)"
  shows "unat ((acc AND 0xffff) + drop_bit 16 acc) < unat acc"
proof -
  have "unat acc div 65536 \<noteq> 0" using assms fold_once(2) by blast
  moreover have "unat acc = 65536 * (unat acc div 65536) + unat acc mod 65536" by simp
  ultimately show ?thesis unfolding fold_once(1) by linarith
qed

function foldChecksum :: "u32 \<Rightarrow> u32" where
  "foldChecksum acc =
     (if drop_bit 16 acc \<noteq> 0 then foldChecksum ((acc AND 0xffff) + drop_bit 16 acc) else acc)"
  by pat_completeness auto

termination foldChecksum
  by (relation "measure unat") (simp_all add: fold_decreases)

declare foldChecksum.simps [simp del]

definition handlespaceChecksumFinish :: "u32 \<Rightarrow> u16" where
  "handlespaceChecksumFinish acc = ucast (NOT (foldChecksum acc))"

section \<open>The checksum of a pool element\<close>

definition poolElementNodeComputeChecksum :: "PoolHandle \<Rightarrow> u32 \<Rightarrow> u32" where
  "poolElementNodeComputeChecksum handle identifier =
     handlespaceChecksumCompute
       (handlespaceChecksumCompute INITIAL_HANDLESPACE_CHECKSUM (take (ph_Size handle) (ph_Handle handle)))
       (be32 identifier)"

section \<open>Laws\<close>

text \<open>The folded sum is the sum modulo \<open>2 ^ 16 - 1\<close>, as a number from 1 to \<open>2 ^ 16 - 1\<close> unless the acc is 0.\<close>

lemma fold_step:
  assumes "drop_bit 16 acc \<noteq> (0 :: u32)"
  shows "unat ((acc AND 0xffff) + drop_bit 16 acc) mod 65535 = unat acc mod 65535"
    "unat ((acc AND 0xffff) + drop_bit 16 acc) \<noteq> 0"
proof -
  have "unat acc = 65535 * (unat acc div 65536) + (unat acc mod 65536 + unat acc div 65536)" by simp
  then show "unat ((acc AND 0xffff) + drop_bit 16 acc) mod 65535 = unat acc mod 65535"
    unfolding fold_once(1) by (metis mod_mult_self4)
  show "unat ((acc AND 0xffff) + drop_bit 16 acc) \<noteq> 0"
    using assms fold_once(2) unfolding fold_once(1) by simp
qed

lemma foldChecksum_ok:
  "unat (foldChecksum acc) < 65536" "unat (foldChecksum acc) mod 65535 = unat acc mod 65535"
  "foldChecksum acc = 0 \<longleftrightarrow> acc = 0"
proof -
  have "unat (foldChecksum acc) < 65536 \<and> unat (foldChecksum acc) mod 65535 = unat acc mod 65535 \<and>
    (foldChecksum acc = 0 \<longleftrightarrow> acc = 0)"
  proof (induction acc rule: foldChecksum.induct)
    case (1 acc)
    show ?case
    proof (cases "drop_bit 16 acc = 0")
      case True
      then have "unat acc div 65536 = 0" using fold_once(2) by blast
      then show ?thesis using True by (simp add: foldChecksum.simps [of acc])
    next
      case False
      then have "acc \<noteq> 0" by auto
      moreover have "(acc AND 0xffff) + drop_bit 16 acc \<noteq> 0" using fold_step(2) [OF False] by auto
      ultimately show ?thesis using 1 [OF False] fold_step(1) [OF False] False by (simp add: foldChecksum.simps [of acc])
    qed
  qed
  then show "unat (foldChecksum acc) < 65536" "unat (foldChecksum acc) mod 65535 = unat acc mod 65535"
    "foldChecksum acc = 0 \<longleftrightarrow> acc = 0" by blast+
qed

lemma checksum_add_sub: "handlespaceChecksumSub (handlespaceChecksumAdd a b) b = a"
  by (simp add: handlespaceChecksumAdd_def handlespaceChecksumSub_def)

lemma compute_add: "handlespaceChecksumCompute acc bs = acc + handlespaceChecksumCompute 0 bs"
proof (induction bs arbitrary: acc rule: induct_list012)
  case (3 a b bs)
  show ?case
    using "3.IH"(1) [of "acc + ucast (of_he16 [a, b])"] "3.IH"(1) [of "0 + ucast (of_he16 [a, b])"] by simp
qed simp_all

lemma checksum_handle: "ph_bytes h = ph_bytes h' \<Longrightarrow> poolElementNodeComputeChecksum h i = poolElementNodeComputeChecksum h' i"
  by (simp add: poolElementNodeComputeChecksum_def ph_bytes_def)

end
