(* ===== verification/RSP_Handlespace.thy ===== *)
theory RSP_Handlespace
  imports RSP_Checksum
begin

text \<open>
  The handlespace (poolhandlespacenode-template_impl.h) and its management
  (poolhandlespacemanagement-template_impl.h): the pools of a registrar, the storages over all
  pool elements by owner, by connection and by timer, the counters and the checksums.

  A pool node is named by the bytes of its pool handle, a pool element node by these and its
  identifier: the index storages keep both unique. An entry of one of the three storages over
  all pool elements consists of the fields the storage orders by. The code changes these
  fields of a node only while the node is not linked, so that they are those of the node; that
  a node is linked is that its entry is found. The callback of the handlespace is a log of
  the calls made.
\<close>

type_synonym handleName = "byte list"
type_synonym peName = "handleName \<times> u32"

abbreviation (input) "PENT_EXPIRY \<equiv> (1000 :: u32)"
abbreviation (input) "PENT_KEEPALIVE_TRANSMISSION \<equiv> (1001 :: u32)"
abbreviation (input) "PENT_KEEPALIVE_TIMEOUT \<equiv> (1002 :: u32)"

section \<open>The orders of the storages\<close>

text \<open>\<open>poolHandleComparison\<close> on the bytes of two handles.\<close>

definition poolIndexStorageNodeComparison :: "handleName \<Rightarrow> handleName \<Rightarrow> int" where
  "poolIndexStorageNodeComparison a b = cmp_key (length a) (length b) (memcmp a b)"

type_synonym timerEntry = "u64 \<times> u32 \<times> handleName"
type_synonym ownershipEntry = "u32 \<times> u32 \<times> handleName"
type_synonym connectionEntry = "int \<times> u32 \<times> u32 \<times> handleName"

fun poolElementTimerStorageNodeComparison :: "timerEntry \<Rightarrow> timerEntry \<Rightarrow> int" where
  "poolElementTimerStorageNodeComparison (ts1, i1, h1) (ts2, i2, h2) =
     cmp_key ts1 ts2 (cmp_key i1 i2 (poolIndexStorageNodeComparison h1 h2))"

fun poolElementOwnershipStorageNodeComparison :: "ownershipEntry \<Rightarrow> ownershipEntry \<Rightarrow> int" where
  "poolElementOwnershipStorageNodeComparison (r1, i1, h1) (r2, i2, h2) =
     cmp_key r1 r2 (cmp_key i1 i2 (poolIndexStorageNodeComparison h1 h2))"

fun poolElementConnectionStorageNodeComparison :: "connectionEntry \<Rightarrow> connectionEntry \<Rightarrow> int" where
  "poolElementConnectionStorageNodeComparison (s1, a1, i1, h1) (s2, a2, i2, h2) =
     cmp_key s1 s2 (cmp_key a1 a2 (cmp_key i1 i2 (poolIndexStorageNodeComparison h1 h2)))"

section \<open>The handlespace\<close>

datatype PoolNodeUpdateAction = PNUA_Create | PNUA_Delete | PNUA_Update

record Notification =
  nt_Handle :: handleName
  nt_PoolElementNode :: PoolElementNode
  nt_Action :: PoolNodeUpdateAction
  nt_PreUpdateChecksum :: u32
  nt_PreUpdateHomeRegistrar :: u32

record PoolHandlespaceNode =
  hsn_PoolNodes :: "handleName \<Rightarrow> PoolNode option"
  hsn_PoolIndexStorage :: "handleName RedBlackTree"
  hsn_PoolElementTimerStorage :: "timerEntry RedBlackTree"
  hsn_PoolElementConnectionStorage :: "connectionEntry RedBlackTree"
  hsn_PoolElementOwnershipStorage :: "ownershipEntry RedBlackTree"
  hsn_HandlespaceChecksum :: u32
  hsn_OwnershipChecksum :: u32
  hsn_HomeRegistrarIdentifier :: u32
  hsn_PoolElements :: nat
  hsn_OwnedPoolElements :: nat
  hsn_Notifications :: "Notification list"

definition poolHandlespaceNodeNew :: "u32 \<Rightarrow> PoolHandlespaceNode" where
  "poolHandlespaceNodeNew homeRegistrarIdentifier =
     \<lparr>hsn_PoolNodes = (\<lambda>_. None), hsn_PoolIndexStorage = RedBlackTreeNew,
      hsn_PoolElementTimerStorage = RedBlackTreeNew, hsn_PoolElementConnectionStorage = RedBlackTreeNew,
      hsn_PoolElementOwnershipStorage = RedBlackTreeNew,
      hsn_HandlespaceChecksum = INITIAL_HANDLESPACE_CHECKSUM,
      hsn_OwnershipChecksum = INITIAL_HANDLESPACE_CHECKSUM,
      hsn_HomeRegistrarIdentifier = homeRegistrarIdentifier,
      hsn_PoolElements = 0, hsn_OwnedPoolElements = 0, hsn_Notifications = []\<rparr>"

definition poolHandlespaceNodeDelete :: "PoolHandlespaceNode \<Rightarrow> fault + unit" where
  "poolHandlespaceNodeDelete hs =
     CHECK (RedBlackTreeIsEmpty (hsn_PoolIndexStorage hs)) (\<lambda>_.
     CHECK (RedBlackTreeIsEmpty (hsn_PoolElementTimerStorage hs)) (\<lambda>_.
     CHECK (RedBlackTreeIsEmpty (hsn_PoolElementOwnershipStorage hs)) (\<lambda>_.
     CHECK (RedBlackTreeIsEmpty (hsn_PoolElementConnectionStorage hs)) (\<lambda>_. Inr ()))))"

text \<open>The nodes behind the names, and assignments to them.\<close>

definition noPool :: PoolNode where
  "noPool = poolNodeNew \<lparr>ph_Size = 0, ph_Handle = replicate MAX_POOLHANDLESIZE 0\<rparr> (hd PoolPolicyArray) 0 0"

definition poolAt :: "PoolHandlespaceNode \<Rightarrow> handleName \<Rightarrow> PoolNode" where
  "poolAt hs h = (case hsn_PoolNodes hs h of None \<Rightarrow> noPool | Some pn \<Rightarrow> pn)"

definition setPool :: "handleName \<Rightarrow> PoolNode \<Rightarrow> PoolHandlespaceNode \<Rightarrow> PoolHandlespaceNode" where
  "setPool h pn hs = hs\<lparr>hsn_PoolNodes := (hsn_PoolNodes hs)(h \<mapsto> pn)\<rparr>"

definition elementAt :: "PoolHandlespaceNode \<Rightarrow> peName \<Rightarrow> PoolElementNode" where
  "elementAt hs p = node (poolAt hs (fst p)) (snd p)"

definition setElement :: "peName \<Rightarrow> (PoolElementNode \<Rightarrow> PoolElementNode) \<Rightarrow> PoolHandlespaceNode \<Rightarrow> PoolHandlespaceNode" where
  "setElement p f hs = setPool (fst p) (modifyNode (snd p) f (poolAt hs (fst p))) hs"

definition notify :: "peName \<Rightarrow> PoolElementNode \<Rightarrow> PoolNodeUpdateAction \<Rightarrow> u32 \<Rightarrow> u32 \<Rightarrow> PoolHandlespaceNode \<Rightarrow> PoolHandlespaceNode" where
  "notify p n action checksum registrar hs =
     hs\<lparr>hsn_Notifications := hsn_Notifications hs @
          [\<lparr>nt_Handle = fst p, nt_PoolElementNode = n, nt_Action = action,
            nt_PreUpdateChecksum = checksum, nt_PreUpdateHomeRegistrar = registrar\<rparr>]\<rparr>"

text \<open>The entries of a node.\<close>

definition timerEntry :: "peName \<Rightarrow> PoolElementNode \<Rightarrow> timerEntry" where
  "timerEntry p n = (pen_TimerTimeStamp n, snd p, fst p)"

definition ownershipEntry :: "peName \<Rightarrow> PoolElementNode \<Rightarrow> ownershipEntry" where
  "ownershipEntry p n = (pen_HomeRegistrarIdentifier n, snd p, fst p)"

definition connectionEntry :: "peName \<Rightarrow> PoolElementNode \<Rightarrow> connectionEntry" where
  "connectionEntry p n = (pen_ConnectionSocketDescriptor n, pen_ConnectionAssocID n, snd p, fst p)"

definition ofTimerEntry :: "timerEntry \<Rightarrow> peName" where
  "ofTimerEntry e = (snd (snd e), fst (snd e))"

definition ofOwnershipEntry :: "ownershipEntry \<Rightarrow> peName" where
  "ofOwnershipEntry e = (snd (snd e), fst (snd e))"

definition ofConnectionEntry :: "connectionEntry \<Rightarrow> peName" where
  "ofConnectionEntry e = (snd (snd (snd e)), fst (snd (snd e)))"

definition isLinked :: "('e \<Rightarrow> 'e \<Rightarrow> int) \<Rightarrow> 'e RedBlackTree \<Rightarrow> 'e \<Rightarrow> bool" where
  "isLinked cmp t e \<longleftrightarrow> RedBlackTreeFind cmp t e \<noteq> None"

text \<open>
  \<^verbatim>\<open>result = Insert(storage, node); CHECK(result == node);\<close> and
  \<^verbatim>\<open>if(IsLinked(node)) { result = Remove(storage, node); CHECK(result == node); }\<close>
\<close>

definition insertChecked :: "('e \<Rightarrow> 'e \<Rightarrow> int) \<Rightarrow> 'e RedBlackTree \<Rightarrow> 'e \<Rightarrow> fault + 'e RedBlackTree" where
  "insertChecked cmp t e = CHECK (\<not> isLinked cmp t e) (\<lambda>_. Inr (snd (RedBlackTreeInsert cmp t e 0)))"

definition removeLinked :: "('e \<Rightarrow> 'e \<Rightarrow> int) \<Rightarrow> 'e RedBlackTree \<Rightarrow> 'e \<Rightarrow> fault + 'e RedBlackTree" where
  "removeLinked cmp t e = (if isLinked cmp t e then RedBlackTreeRemove cmp t e else Inr t)"

text \<open>
  The loop \<^verbatim>\<open>node = GetFirst(storage); while(node != NULL) { ...; node = GetNext(storage, node); }\<close>
  visits as many nodes as the storage has.
\<close>

primrec visitFrom :: "('e \<Rightarrow> 'e \<Rightarrow> int) \<Rightarrow> nat \<Rightarrow> 'e RedBlackTree \<Rightarrow> 'e option \<Rightarrow> 'e list" where
  "visitFrom cmp 0 t current = []"
| "visitFrom cmp (Suc k) t current =
     (case current of
        None \<Rightarrow> []
      | Some e \<Rightarrow> e # visitFrom cmp k t (RedBlackTreeGetNext cmp t e))"

definition visitAll :: "('e \<Rightarrow> 'e \<Rightarrow> int) \<Rightarrow> 'e RedBlackTree \<Rightarrow> 'e list" where
  "visitAll cmp t = visitFrom cmp (RedBlackTreeGetElements t) t (RedBlackTreeGetFirst t)"

section \<open>Searching\<close>

text \<open>\<^verbatim>\<open>poolHandleNew(&cmpPoolNode.Handle, poolHandle->Handle, poolHandle->Size);\<close>\<close>

definition cmpHandle :: "PoolHandle \<Rightarrow> fault + handleName" where
  "cmpHandle h =
     bindR (poolHandleNew \<lparr>ph_Size = 0, ph_Handle = replicate MAX_POOLHANDLESIZE 0\<rparr> (ph_Handle h) (ph_Size h))
       (\<lambda>c. Inr (ph_bytes c))"

definition poolHandlespaceNodeFindPoolNode :: "PoolHandlespaceNode \<Rightarrow> PoolHandle \<Rightarrow> fault + handleName option" where
  "poolHandlespaceNodeFindPoolNode hs handle =
     bindR (cmpHandle handle) (\<lambda>h. Inr (RedBlackTreeFind poolIndexStorageNodeComparison (hsn_PoolIndexStorage hs) h))"

definition poolHandlespaceNodeFindNearestNextPoolNode :: "PoolHandlespaceNode \<Rightarrow> PoolHandle \<Rightarrow> fault + handleName option" where
  "poolHandlespaceNodeFindNearestNextPoolNode hs handle =
     bindR (cmpHandle handle) (\<lambda>h. Inr (RedBlackTreeGetNearestNext poolIndexStorageNodeComparison (hsn_PoolIndexStorage hs) h))"

definition poolHandlespaceNodeGetFirstPoolNode :: "PoolHandlespaceNode \<Rightarrow> handleName option" where
  "poolHandlespaceNodeGetFirstPoolNode hs = RedBlackTreeGetFirst (hsn_PoolIndexStorage hs)"

definition poolHandlespaceNodeGetNextPoolNode :: "PoolHandlespaceNode \<Rightarrow> handleName \<Rightarrow> handleName option" where
  "poolHandlespaceNodeGetNextPoolNode hs h =
     RedBlackTreeGetNext poolIndexStorageNodeComparison (hsn_PoolIndexStorage hs) h"

definition poolHandlespaceNodeGetPoolNodes :: "PoolHandlespaceNode \<Rightarrow> nat" where
  "poolHandlespaceNodeGetPoolNodes hs = RedBlackTreeGetElements (hsn_PoolIndexStorage hs)"

definition poolHandlespaceNodeFindPoolElementNode :: "PoolHandlespaceNode \<Rightarrow> PoolHandle \<Rightarrow> u32 \<Rightarrow> fault + peName option" where
  "poolHandlespaceNodeFindPoolElementNode hs handle identifier =
     bindR (poolHandlespaceNodeFindPoolNode hs handle) (\<lambda>r. Inr (case r of
         None \<Rightarrow> None
       | Some h \<Rightarrow> map_option (\<lambda>i. (h, i)) (poolNodeFindPoolElementNode (poolAt hs h) identifier)))"

definition poolHandlespaceNodeGetPoolElementNodesOfPool :: "PoolHandlespaceNode \<Rightarrow> PoolHandle \<Rightarrow> fault + nat" where
  "poolHandlespaceNodeGetPoolElementNodesOfPool hs handle =
     bindR (poolHandlespaceNodeFindPoolNode hs handle) (\<lambda>r. Inr (case r of
         None \<Rightarrow> 0
       | Some h \<Rightarrow> poolNodeGetPoolElementNodes (poolAt hs h)))"

definition poolHandlespaceNodeGetTimerNodes :: "PoolHandlespaceNode \<Rightarrow> nat" where
  "poolHandlespaceNodeGetTimerNodes hs = RedBlackTreeGetElements (hsn_PoolElementTimerStorage hs)"

definition poolHandlespaceNodeGetFirstPoolElementTimerNode :: "PoolHandlespaceNode \<Rightarrow> peName option" where
  "poolHandlespaceNodeGetFirstPoolElementTimerNode hs =
     map_option ofTimerEntry (RedBlackTreeGetFirst (hsn_PoolElementTimerStorage hs))"

definition poolHandlespaceNodeGetNextPoolElementTimerNode :: "PoolHandlespaceNode \<Rightarrow> peName \<Rightarrow> peName option" where
  "poolHandlespaceNodeGetNextPoolElementTimerNode hs p =
     map_option ofTimerEntry (RedBlackTreeGetNext poolElementTimerStorageNodeComparison
       (hsn_PoolElementTimerStorage hs) (timerEntry p (elementAt hs p)))"

definition poolHandlespaceNodeGetFirstPoolElementOwnershipNode :: "PoolHandlespaceNode \<Rightarrow> peName option" where
  "poolHandlespaceNodeGetFirstPoolElementOwnershipNode hs =
     map_option ofOwnershipEntry (RedBlackTreeGetFirst (hsn_PoolElementOwnershipStorage hs))"

definition poolHandlespaceNodeGetPrevPoolElementOwnershipNode :: "PoolHandlespaceNode \<Rightarrow> peName \<Rightarrow> peName option" where
  "poolHandlespaceNodeGetPrevPoolElementOwnershipNode hs p =
     map_option ofOwnershipEntry (RedBlackTreeGetPrev poolElementOwnershipStorageNodeComparison
       (hsn_PoolElementOwnershipStorage hs) (ownershipEntry p (elementAt hs p)))"

definition poolHandlespaceNodeGetNextPoolElementOwnershipNode :: "PoolHandlespaceNode \<Rightarrow> peName \<Rightarrow> peName option" where
  "poolHandlespaceNodeGetNextPoolElementOwnershipNode hs p =
     map_option ofOwnershipEntry (RedBlackTreeGetNext poolElementOwnershipStorageNodeComparison
       (hsn_PoolElementOwnershipStorage hs) (ownershipEntry p (elementAt hs p)))"

definition poolHandlespaceNodeGetNextPoolElementOwnershipNodeForSameIdentifier ::
  "PoolHandlespaceNode \<Rightarrow> peName \<Rightarrow> peName option" where
  "poolHandlespaceNodeGetNextPoolElementOwnershipNodeForSameIdentifier hs p =
     (case poolHandlespaceNodeGetNextPoolElementOwnershipNode hs p of
        None \<Rightarrow> None
      | Some q \<Rightarrow> if pen_HomeRegistrarIdentifier (elementAt hs q) = pen_HomeRegistrarIdentifier (elementAt hs p)
                  then Some q else None)"

definition poolHandlespaceNodeFindNearestNextPoolElementOwnershipNode ::
  "PoolHandlespaceNode \<Rightarrow> u32 \<Rightarrow> PoolHandle \<Rightarrow> u32 \<Rightarrow> fault + peName option" where
  "poolHandlespaceNodeFindNearestNextPoolElementOwnershipNode hs homeRegistrarIdentifier handle identifier =
     bindR (cmpHandle handle) (\<lambda>h. Inr (map_option ofOwnershipEntry
       (RedBlackTreeGetNearestNext poolElementOwnershipStorageNodeComparison
          (hsn_PoolElementOwnershipStorage hs) (homeRegistrarIdentifier, identifier, h))))"

text \<open>The loop back to the first node of the registrar; the storage bounds the number of its rounds.\<close>

primrec backToFirstOwned :: "nat \<Rightarrow> PoolHandlespaceNode \<Rightarrow> u32 \<Rightarrow> peName \<Rightarrow> peName" where
  "backToFirstOwned 0 hs r p = p"
| "backToFirstOwned (Suc k) hs r p =
     (case poolHandlespaceNodeGetPrevPoolElementOwnershipNode hs p of
        None \<Rightarrow> p
      | Some q \<Rightarrow> if pen_HomeRegistrarIdentifier (elementAt hs q) = r then backToFirstOwned k hs r q else p)"

definition zeroHandle :: PoolHandle where
  "zeroHandle = \<lparr>ph_Size = 1, ph_Handle = replicate MAX_POOLHANDLESIZE 0\<rparr>"

definition poolHandlespaceNodeGetFirstPoolElementOwnershipNodeForIdentifier ::
  "PoolHandlespaceNode \<Rightarrow> u32 \<Rightarrow> fault + peName option" where
  "poolHandlespaceNodeGetFirstPoolElementOwnershipNodeForIdentifier hs r =
     bindR (poolHandlespaceNodeFindNearestNextPoolElementOwnershipNode hs r zeroHandle 0) (\<lambda>near. Inr (
       case map_option (backToFirstOwned (RedBlackTreeGetElements (hsn_PoolElementOwnershipStorage hs)) hs r) near of
         None \<Rightarrow> None
       | Some p \<Rightarrow> if pen_HomeRegistrarIdentifier (elementAt hs p) = r then Some p else None))"

text \<open>The loop over the nodes of one registrar.\<close>

primrec ownedFrom :: "nat \<Rightarrow> PoolHandlespaceNode \<Rightarrow> peName option \<Rightarrow> peName list" where
  "ownedFrom 0 hs current = []"
| "ownedFrom (Suc k) hs current =
     (case current of
        None \<Rightarrow> []
      | Some p \<Rightarrow> p # ownedFrom k hs (poolHandlespaceNodeGetNextPoolElementOwnershipNodeForSameIdentifier hs p))"

definition ownedNodes :: "PoolHandlespaceNode \<Rightarrow> u32 \<Rightarrow> fault + peName list" where
  "ownedNodes hs r =
     bindR (poolHandlespaceNodeGetFirstPoolElementOwnershipNodeForIdentifier hs r) (\<lambda>first.
       Inr (ownedFrom (RedBlackTreeGetElements (hsn_PoolElementOwnershipStorage hs)) hs first))"

definition poolHandlespaceNodeGetOwnershipNodesForIdentifier :: "PoolHandlespaceNode \<Rightarrow> u32 \<Rightarrow> fault + nat" where
  "poolHandlespaceNodeGetOwnershipNodesForIdentifier hs r = bindR (ownedNodes hs r) (\<lambda>ps. Inr (length ps))"

definition poolHandlespaceNodeGetConnectionNodes :: "PoolHandlespaceNode \<Rightarrow> nat" where
  "poolHandlespaceNodeGetConnectionNodes hs = RedBlackTreeGetElements (hsn_PoolElementConnectionStorage hs)"

definition poolHandlespaceNodeGetFirstPoolElementConnectionNode :: "PoolHandlespaceNode \<Rightarrow> peName option" where
  "poolHandlespaceNodeGetFirstPoolElementConnectionNode hs =
     map_option ofConnectionEntry (RedBlackTreeGetFirst (hsn_PoolElementConnectionStorage hs))"

definition poolHandlespaceNodeGetPrevPoolElementConnectionNode :: "PoolHandlespaceNode \<Rightarrow> peName \<Rightarrow> peName option" where
  "poolHandlespaceNodeGetPrevPoolElementConnectionNode hs p =
     map_option ofConnectionEntry (RedBlackTreeGetPrev poolElementConnectionStorageNodeComparison
       (hsn_PoolElementConnectionStorage hs) (connectionEntry p (elementAt hs p)))"

definition poolHandlespaceNodeGetNextPoolElementConnectionNode :: "PoolHandlespaceNode \<Rightarrow> peName \<Rightarrow> peName option" where
  "poolHandlespaceNodeGetNextPoolElementConnectionNode hs p =
     map_option ofConnectionEntry (RedBlackTreeGetNext poolElementConnectionStorageNodeComparison
       (hsn_PoolElementConnectionStorage hs) (connectionEntry p (elementAt hs p)))"

definition poolHandlespaceNodeGetNextPoolElementConnectionNodeForSameConnection ::
  "PoolHandlespaceNode \<Rightarrow> peName \<Rightarrow> peName option" where
  "poolHandlespaceNodeGetNextPoolElementConnectionNodeForSameConnection hs p =
     (case poolHandlespaceNodeGetNextPoolElementConnectionNode hs p of
        None \<Rightarrow> None
      | Some q \<Rightarrow>
          if pen_ConnectionSocketDescriptor (elementAt hs q) = pen_ConnectionSocketDescriptor (elementAt hs p) \<and>
             pen_ConnectionAssocID (elementAt hs q) = pen_ConnectionAssocID (elementAt hs p)
          then Some q else None)"

definition poolHandlespaceNodeFindNearestNextPoolElementConnectionNode ::
  "PoolHandlespaceNode \<Rightarrow> int \<Rightarrow> u32 \<Rightarrow> PoolHandle \<Rightarrow> u32 \<Rightarrow> fault + peName option" where
  "poolHandlespaceNodeFindNearestNextPoolElementConnectionNode hs socketDescriptor assocID handle identifier =
     bindR (cmpHandle handle) (\<lambda>h. Inr (map_option ofConnectionEntry
       (RedBlackTreeGetNearestNext poolElementConnectionStorageNodeComparison
          (hsn_PoolElementConnectionStorage hs) (socketDescriptor, assocID, identifier, h))))"

primrec backToFirstConnected :: "nat \<Rightarrow> PoolHandlespaceNode \<Rightarrow> int \<Rightarrow> u32 \<Rightarrow> peName \<Rightarrow> peName" where
  "backToFirstConnected 0 hs sd a p = p"
| "backToFirstConnected (Suc k) hs sd a p =
     (case poolHandlespaceNodeGetPrevPoolElementConnectionNode hs p of
        None \<Rightarrow> p
      | Some q \<Rightarrow> if pen_ConnectionSocketDescriptor (elementAt hs q) = sd \<and> pen_ConnectionAssocID (elementAt hs q) = a
                  then backToFirstConnected k hs sd a q else p)"

definition poolHandlespaceNodeGetFirstPoolElementConnectionNodeForConnection ::
  "PoolHandlespaceNode \<Rightarrow> int \<Rightarrow> u32 \<Rightarrow> fault + peName option" where
  "poolHandlespaceNodeGetFirstPoolElementConnectionNodeForConnection hs sd a =
     bindR (poolHandlespaceNodeFindNearestNextPoolElementConnectionNode hs sd a zeroHandle 0) (\<lambda>near. Inr (
       case map_option (backToFirstConnected (RedBlackTreeGetElements (hsn_PoolElementConnectionStorage hs)) hs sd a) near of
         None \<Rightarrow> None
       | Some p \<Rightarrow> if pen_ConnectionSocketDescriptor (elementAt hs p) = sd \<and> pen_ConnectionAssocID (elementAt hs p) = a
                   then Some p else None))"

primrec connectedFrom :: "nat \<Rightarrow> PoolHandlespaceNode \<Rightarrow> peName option \<Rightarrow> peName list" where
  "connectedFrom 0 hs current = []"
| "connectedFrom (Suc k) hs current =
     (case current of
        None \<Rightarrow> []
      | Some p \<Rightarrow> p # connectedFrom k hs (poolHandlespaceNodeGetNextPoolElementConnectionNodeForSameConnection hs p))"

definition poolHandlespaceNodeGetConnectionNodesForConnection :: "PoolHandlespaceNode \<Rightarrow> int \<Rightarrow> u32 \<Rightarrow> fault + nat" where
  "poolHandlespaceNodeGetConnectionNodesForConnection hs sd a =
     bindR (poolHandlespaceNodeGetFirstPoolElementConnectionNodeForConnection hs sd a) (\<lambda>first.
       Inr (length (connectedFrom (RedBlackTreeGetElements (hsn_PoolElementConnectionStorage hs)) hs first)))"

section \<open>Checksums of the whole handlespace\<close>

definition poolElementChecksum :: "PoolHandlespaceNode \<Rightarrow> peName \<Rightarrow> u32" where
  "poolElementChecksum hs p = poolElementNodeComputeChecksum (pn_Handle (poolAt hs (fst p))) (snd p)"

definition poolHandlespaceNodeComputeHandlespaceChecksum :: "PoolHandlespaceNode \<Rightarrow> u32" where
  "poolHandlespaceNodeComputeHandlespaceChecksum hs =
     foldl (\<lambda>acc h.
       foldl (\<lambda>acc i. handlespaceChecksumAdd acc (poolElementChecksum hs (h, i))) acc
         (visitAll poolElementIndexStorageNodeComparison (pn_Index (poolAt hs h))))
       0 (visitAll poolIndexStorageNodeComparison (hsn_PoolIndexStorage hs))"

definition poolHandlespaceNodeComputeOwnershipChecksum :: "PoolHandlespaceNode \<Rightarrow> u32 \<Rightarrow> fault + u32" where
  "poolHandlespaceNodeComputeOwnershipChecksum hs r =
     bindR (ownedNodes hs r) (\<lambda>ps.
       Inr (foldl (\<lambda>acc p. handlespaceChecksumAdd acc (poolElementChecksum hs p)) 0 ps))"

section \<open>Timers\<close>

definition poolHandlespaceNodeHasActiveTimer :: "PoolHandlespaceNode \<Rightarrow> peName \<Rightarrow> bool" where
  "poolHandlespaceNodeHasActiveTimer hs p =
     isLinked poolElementTimerStorageNodeComparison (hsn_PoolElementTimerStorage hs) (timerEntry p (elementAt hs p))"

definition poolHandlespaceNodeActivateTimer :: "peName \<Rightarrow> u32 \<Rightarrow> u64 \<Rightarrow> PoolHandlespaceNode \<Rightarrow> fault + PoolHandlespaceNode" where
  "poolHandlespaceNodeActivateTimer p timerCode timerTimeStamp hs =
     CHECK (\<not> poolHandlespaceNodeHasActiveTimer hs p) (\<lambda>_.
     let hs1 = setElement p (\<lambda>n. n\<lparr>pen_TimerCode := timerCode, pen_TimerTimeStamp := timerTimeStamp\<rparr>) hs
     in bindR (insertChecked poolElementTimerStorageNodeComparison (hsn_PoolElementTimerStorage hs1)
                 (timerEntry p (elementAt hs1 p)))
          (\<lambda>t. Inr (hs1\<lparr>hsn_PoolElementTimerStorage := t\<rparr>)))"

definition poolHandlespaceNodeDeactivateTimer :: "peName \<Rightarrow> PoolHandlespaceNode \<Rightarrow> fault + PoolHandlespaceNode" where
  "poolHandlespaceNodeDeactivateTimer p hs =
     bindR (removeLinked poolElementTimerStorageNodeComparison (hsn_PoolElementTimerStorage hs)
              (timerEntry p (elementAt hs p)))
       (\<lambda>t. Inr (hs\<lparr>hsn_PoolElementTimerStorage := t\<rparr>))"

section \<open>Pools\<close>

text \<open>The result says whether the new pool node was linked; otherwise there is a pool of that handle.\<close>

definition poolHandlespaceNodeAddPoolNode :: "PoolNode \<Rightarrow> PoolHandlespaceNode \<Rightarrow> bool \<times> PoolHandlespaceNode" where
  "poolHandlespaceNodeAddPoolNode pn hs =
     (let h = ph_bytes (pn_Handle pn) in
      if RedBlackTreeFind poolIndexStorageNodeComparison (hsn_PoolIndexStorage hs) h \<noteq> None then (False, hs)
      else (True, setPool h pn hs
             \<lparr>hsn_PoolIndexStorage := snd (RedBlackTreeInsert poolIndexStorageNodeComparison (hsn_PoolIndexStorage hs) h 0)\<rparr>))"

definition poolHandlespaceNodeRemovePoolNode :: "handleName \<Rightarrow> PoolHandlespaceNode \<Rightarrow> fault + PoolHandlespaceNode" where
  "poolHandlespaceNodeRemovePoolNode h hs =
     bindR (RedBlackTreeRemove poolIndexStorageNodeComparison (hsn_PoolIndexStorage hs) h) (\<lambda>t.
       Inr (hs\<lparr>hsn_PoolIndexStorage := t, hsn_PoolNodes := (hsn_PoolNodes hs)(h := None)\<rparr>))"

section \<open>Adding and updating pool elements\<close>

definition poolHandlespaceNodeAddPoolElementNode ::
  "handleName \<Rightarrow> PoolElementNode \<Rightarrow> PoolHandlespaceNode \<Rightarrow> fault + (u16 \<times> addition \<times> PoolHandlespaceNode)" where
  "poolHandlespaceNodeAddPoolElementNode h n hs =
     bindR (poolNodeAddPoolElementNode (poolAt hs h) n) (\<lambda>(errorCode, result, pn).
     if result \<noteq> Added then Inr (errorCode, result, hs)
     else
       let p = (h, pen_Identifier n);
           hs1 = (setPool h pn hs)\<lparr>hsn_PoolElements := hsn_PoolElements hs + 1\<rparr>;
           n1 = elementAt hs1 p
       in CHECK (errorCode = RSPERR_OKAY) (\<lambda>_.
          bindR (if pen_HomeRegistrarIdentifier n1 \<noteq> 0
                 then insertChecked poolElementOwnershipStorageNodeComparison
                        (hsn_PoolElementOwnershipStorage hs1) (ownershipEntry p n1)
                 else Inr (hsn_PoolElementOwnershipStorage hs1)) (\<lambda>ownership.
          bindR (if pen_ConnectionSocketDescriptor n1 > 0
                 then insertChecked poolElementConnectionStorageNodeComparison
                        (hsn_PoolElementConnectionStorage hs1) (connectionEntry p n1)
                 else Inr (hsn_PoolElementConnectionStorage hs1)) (\<lambda>connection.
          Inr (errorCode, Added, hs1\<lparr>hsn_PoolElementOwnershipStorage := ownership,
                                     hsn_PoolElementConnectionStorage := connection\<rparr>)))))"

text \<open>The checksum of a pool element leaves the sums and comes back with its new value.\<close>

definition uncount :: "u32 \<Rightarrow> u32 \<Rightarrow> PoolHandlespaceNode \<Rightarrow> fault + PoolHandlespaceNode" where
  "uncount registrar checksum hs =
     (let hs1 = hs\<lparr>hsn_HandlespaceChecksum := handlespaceChecksumSub (hsn_HandlespaceChecksum hs) checksum\<rparr> in
      if registrar = hsn_HomeRegistrarIdentifier hs1
      then CHECK (hsn_OwnedPoolElements hs1 > 0) (\<lambda>_.
             Inr (hs1\<lparr>hsn_OwnedPoolElements := hsn_OwnedPoolElements hs1 - 1,
                      hsn_OwnershipChecksum := handlespaceChecksumSub (hsn_OwnershipChecksum hs1) checksum\<rparr>))
      else Inr hs1)"

definition recount :: "u32 \<Rightarrow> u32 \<Rightarrow> PoolHandlespaceNode \<Rightarrow> PoolHandlespaceNode" where
  "recount registrar checksum hs =
     (let hs1 = hs\<lparr>hsn_HandlespaceChecksum := handlespaceChecksumAdd (hsn_HandlespaceChecksum hs) checksum\<rparr> in
      if registrar = hsn_HomeRegistrarIdentifier hs1
      then hs1\<lparr>hsn_OwnedPoolElements := hsn_OwnedPoolElements hs1 + 1,
               hsn_OwnershipChecksum := handlespaceChecksumAdd (hsn_OwnershipChecksum hs1) checksum\<rparr>
      else hs1)"

definition changeOwner :: "peName \<Rightarrow> u32 \<Rightarrow> PoolHandlespaceNode \<Rightarrow> fault + PoolHandlespaceNode" where
  "changeOwner p newHomeRegistrarIdentifier hs =
     (if newHomeRegistrarIdentifier \<noteq> pen_HomeRegistrarIdentifier (elementAt hs p)
      then bindR (removeLinked poolElementOwnershipStorageNodeComparison (hsn_PoolElementOwnershipStorage hs)
                    (ownershipEntry p (elementAt hs p))) (\<lambda>t.
           let hs1 = setElement p (\<lambda>n. n\<lparr>pen_Flags := pen_Flags n OR PENF_UPDATED,
                                        pen_HomeRegistrarIdentifier := newHomeRegistrarIdentifier\<rparr>) hs
           in bindR (insertChecked poolElementOwnershipStorageNodeComparison t (ownershipEntry p (elementAt hs1 p)))
                (\<lambda>t'. Inr (hs1\<lparr>hsn_PoolElementOwnershipStorage := t'\<rparr>)))
      else Inr (setElement p (\<lambda>n. n\<lparr>pen_Flags := pen_Flags n AND NOT PENF_UPDATED\<rparr>) hs))"

definition poolHandlespaceNodeUpdateOwnershipOfPoolElementNode ::
  "peName \<Rightarrow> u32 \<Rightarrow> PoolHandlespaceNode \<Rightarrow> fault + PoolHandlespaceNode" where
  "poolHandlespaceNodeUpdateOwnershipOfPoolElementNode p newHomeRegistrarIdentifier hs =
     (let preUpdateChecksum = pen_Checksum (elementAt hs p);
          preUpdateHomeRegistrar = pen_HomeRegistrarIdentifier (elementAt hs p)
      in bindR (changeOwner p newHomeRegistrarIdentifier hs) (\<lambda>hs1.
         bindR (uncount preUpdateHomeRegistrar (pen_Checksum (elementAt hs1 p)) hs1) (\<lambda>hs2.
         let hs3 = setElement p (\<lambda>n. n\<lparr>pen_Checksum := poolElementChecksum hs2 p\<rparr>) hs2;
             hs4 = recount (pen_HomeRegistrarIdentifier (elementAt hs3 p)) (pen_Checksum (elementAt hs3 p)) hs3
         in Inr (notify p (elementAt hs4 p) PNUA_Update preUpdateChecksum preUpdateHomeRegistrar hs4))))"

definition poolHandlespaceNodeUpdateConnectionOfPoolElementNode ::
  "peName \<Rightarrow> int \<Rightarrow> u32 \<Rightarrow> PoolHandlespaceNode \<Rightarrow> fault + PoolHandlespaceNode" where
  "poolHandlespaceNodeUpdateConnectionOfPoolElementNode p socketDescriptor assocID hs =
     (if socketDescriptor \<noteq> pen_ConnectionSocketDescriptor (elementAt hs p) \<or>
         assocID \<noteq> pen_ConnectionAssocID (elementAt hs p)
      then bindR (removeLinked poolElementConnectionStorageNodeComparison (hsn_PoolElementConnectionStorage hs)
                    (connectionEntry p (elementAt hs p))) (\<lambda>t.
           let hs1 = setElement p (\<lambda>n. n\<lparr>pen_ConnectionSocketDescriptor := socketDescriptor,
                                        pen_ConnectionAssocID := assocID\<rparr>) hs
           in bindR (if pen_ConnectionSocketDescriptor (elementAt hs1 p) > 0
                     then insertChecked poolElementConnectionStorageNodeComparison t (connectionEntry p (elementAt hs1 p))
                     else Inr t)
                (\<lambda>t'. Inr (hs1\<lparr>hsn_PoolElementConnectionStorage := t'\<rparr>)))
      else Inr hs)"

definition poolHandlespaceNodeUpdatePoolElementNode ::
  "peName \<Rightarrow> PoolElementNode \<Rightarrow> PoolHandlespaceNode \<Rightarrow> fault + (u16 \<times> PoolHandlespaceNode)" where
  "poolHandlespaceNodeUpdatePoolElementNode p source hs =
     bindR (poolNodeUpdatePoolElementNode (poolAt hs (fst p)) (snd p) source) (\<lambda>(errorCode, pn).
     let hs1 = setPool (fst p) pn hs in
     if errorCode = RSPERR_OKAY
     then bindR (poolHandlespaceNodeUpdateConnectionOfPoolElementNode p
                   (pen_ConnectionSocketDescriptor source) (pen_ConnectionAssocID source) hs1) (\<lambda>hs2.
          bindR (poolHandlespaceNodeUpdateOwnershipOfPoolElementNode p (pen_HomeRegistrarIdentifier source) hs2) (\<lambda>hs3.
          Inr (errorCode, setElement p (\<lambda>n. n\<lparr>pen_Flags := pen_Flags n AND NOT PENF_NEW\<rparr>) hs3)))
     else Inr (errorCode, hs1))"

text \<open>
  The result is the error code, the node of the pool element if there is one now, whether
  the new pool node and whether the new pool element node have been used, and the handlespace.
\<close>

definition poolHandlespaceNodeAddOrUpdatePoolElementNode ::
  "PoolNode \<Rightarrow> PoolElementNode \<Rightarrow> PoolHandlespaceNode \<Rightarrow>
     fault + (u16 \<times> peName option \<times> bool \<times> bool \<times> PoolHandlespaceNode)" where
  "poolHandlespaceNodeAddOrUpdatePoolElementNode pn n hs =
     (let h = ph_bytes (pn_Handle pn);
          p = (h, pen_Identifier n);
          (newPool, hs1) = poolHandlespaceNodeAddPoolNode pn hs
      in bindR (poolHandlespaceNodeAddPoolElementNode h n hs1) (\<lambda>(errorCode, result, hs2).
         case result of
           Present \<Rightarrow>
             bindR (poolHandlespaceNodeUpdatePoolElementNode p n hs2) (\<lambda>(errorCode', hs3).
             Inr (errorCode', Some p, newPool, False, hs3))
         | Added \<Rightarrow>
             let hs3 = setElement p (\<lambda>m. m\<lparr>pen_Checksum := poolElementChecksum hs2 p\<rparr>) hs2;
                 hs4 = recount (pen_HomeRegistrarIdentifier (elementAt hs3 p)) (pen_Checksum (elementAt hs3 p)) hs3;
                 hs5 = notify p (elementAt hs4 p) PNUA_Create INITIAL_HANDLESPACE_CHECKSUM
                         UNDEFINED_REGISTRAR_IDENTIFIER hs4
             in Inr (errorCode, Some p, newPool, True,
                     setElement p (\<lambda>m. m\<lparr>pen_Flags := pen_Flags m OR PENF_NEW\<rparr>) hs5)
         | NotAdded \<Rightarrow>
             if newPool
             then bindR (poolHandlespaceNodeRemovePoolNode h hs2) (\<lambda>hs3. Inr (errorCode, None, False, False, hs3))
             else Inr (errorCode, None, False, False, hs2)))"

section \<open>Removing pool elements\<close>

definition poolHandlespaceNodeRemovePoolElementNode ::
  "peName \<Rightarrow> PoolHandlespaceNode \<Rightarrow> fault + (PoolElementNode \<times> PoolHandlespaceNode)" where
  "poolHandlespaceNodeRemovePoolElementNode p hs =
     (let n = elementAt hs p in
      bindR (removeLinked poolElementTimerStorageNodeComparison (hsn_PoolElementTimerStorage hs) (timerEntry p n)) (\<lambda>timer.
      bindR (removeLinked poolElementOwnershipStorageNodeComparison (hsn_PoolElementOwnershipStorage hs) (ownershipEntry p n)) (\<lambda>ownership.
      bindR (removeLinked poolElementConnectionStorageNodeComparison (hsn_PoolElementConnectionStorage hs) (connectionEntry p n)) (\<lambda>connection.
      bindR (poolNodeRemovePoolElementNode (poolAt hs (fst p)) (snd p)) (\<lambda>(removed, pn).
      let hs1 = (setPool (fst p) pn hs)\<lparr>hsn_PoolElementTimerStorage := timer,
                  hsn_PoolElementOwnershipStorage := ownership, hsn_PoolElementConnectionStorage := connection\<rparr>
      in CHECK (hsn_PoolElements hs1 > 0) (\<lambda>_.
         bindR (uncount (pen_HomeRegistrarIdentifier n) (pen_Checksum n) (hs1\<lparr>hsn_PoolElements := hsn_PoolElements hs1 - 1\<rparr>)) (\<lambda>hs2.
         Inr (n, notify p n PNUA_Delete (pen_Checksum n) (pen_HomeRegistrarIdentifier n) hs2))))))))"

section \<open>Selecting\<close>

definition poolHandlespaceNodeSelectPoolElementNodesByPolicy ::
  "(nat \<Rightarrow> u64) \<Rightarrow> PoolHandle \<Rightarrow> nat \<Rightarrow> nat \<Rightarrow> PoolHandlespaceNode \<Rightarrow> fault + (u16 \<times> peName list \<times> PoolHandlespaceNode)" where
  "poolHandlespaceNodeSelectPoolElementNodesByPolicy random handle maxPoolElementNodes maxIncrement hs =
     bindR (poolHandlespaceNodeFindPoolNode hs handle) (\<lambda>r. case r of
       None \<Rightarrow> Inr (RSPERR_NOT_FOUND, [], hs)
     | Some h \<Rightarrow>
         bindR (callSelection random (pp_SelectionFunction (pn_Policy (poolAt hs h))) (poolAt hs h)
                  maxPoolElementNodes maxIncrement) (\<lambda>(selected, pn).
         Inr (RSPERR_OKAY, map (\<lambda>i. (h, i)) selected, setPool h pn hs)))"

section \<open>Verifying and clearing\<close>

primrec verifyPools :: "handleName list \<Rightarrow> PoolHandlespaceNode \<Rightarrow> nat \<Rightarrow> fault + nat" where
  "verifyPools [] hs j = Inr j"
| "verifyPools (h # hs') hs j =
     (let pn = poolAt hs h in
      bindR (RedBlackTreeVerify poolElementIndexStorageNodeComparison (pn_Index pn)) (\<lambda>_.
      bindR (RedBlackTreeVerify (poolElementSelectionStorageNodeComparison pn) (pn_Selection pn)) (\<lambda>_.
      CHECK (RedBlackTreeGetElements (pn_Selection pn) = RedBlackTreeGetElements (pn_Index pn)) (\<lambda>_.
      CHECK (poolNodeGetPoolElementNodes pn > 0) (\<lambda>_.
      verifyPools hs' hs (j + poolNodeGetPoolElementNodes pn))))))"

definition poolHandlespaceNodeVerify :: "PoolHandlespaceNode \<Rightarrow> fault + unit" where
  "poolHandlespaceNodeVerify hs =
     (let pools = poolHandlespaceNodeGetPoolNodes hs;
          poolElements = hsn_PoolElements hs;
          timers = poolHandlespaceNodeGetTimerNodes hs;
          ownerships = RedBlackTreeGetElements (hsn_PoolElementOwnershipStorage hs);
          timerNodes = visitAll poolElementTimerStorageNodeComparison (hsn_PoolElementTimerStorage hs);
          ownershipNodes = visitAll poolElementOwnershipStorageNodeComparison (hsn_PoolElementOwnershipStorage hs);
          ownedPEs = length (filter (\<lambda>e. pen_HomeRegistrarIdentifier (elementAt hs (ofOwnershipEntry e)) =
                                          hsn_HomeRegistrarIdentifier hs) ownershipNodes);
          poolNodes = visitAll poolIndexStorageNodeComparison (hsn_PoolIndexStorage hs)
      in bindR (RedBlackTreeVerify poolIndexStorageNodeComparison (hsn_PoolIndexStorage hs)) (\<lambda>_.
         bindR (RedBlackTreeVerify poolElementTimerStorageNodeComparison (hsn_PoolElementTimerStorage hs)) (\<lambda>_.
         bindR (RedBlackTreeVerify poolElementOwnershipStorageNodeComparison (hsn_PoolElementOwnershipStorage hs)) (\<lambda>_.
         CHECK (length timerNodes = timers) (\<lambda>_.
         CHECK (length ownershipNodes = ownerships) (\<lambda>_.
         CHECK (hsn_HomeRegistrarIdentifier hs = UNDEFINED_REGISTRAR_IDENTIFIER \<or> hsn_OwnedPoolElements hs = ownedPEs) (\<lambda>_.
         bindR (verifyPools poolNodes hs 0) (\<lambda>j.
         CHECK (length poolNodes = pools) (\<lambda>_.
         CHECK (j = poolElements) (\<lambda>_.
         CHECK (ownerships \<le> poolElements) (\<lambda>_.
         CHECK (hsn_HandlespaceChecksum hs = poolHandlespaceNodeComputeHandlespaceChecksum hs) (\<lambda>_.
         if hsn_HomeRegistrarIdentifier hs \<noteq> UNDEFINED_REGISTRAR_IDENTIFIER
         then bindR (poolHandlespaceNodeComputeOwnershipChecksum hs (hsn_HomeRegistrarIdentifier hs)) (\<lambda>checksum.
              CHECK (hsn_OwnershipChecksum hs = checksum) (\<lambda>_. Inr ()))
         else Inr ()))))))))))))"

text \<open>
  \<open>poolNodeClear\<close> removes the first node of the selection storage until there is none,
  \<open>poolHandlespaceNodeClear\<close> the first pool until there is none: as often as there are nodes.
\<close>

primrec poolNodeClear :: "nat \<Rightarrow> handleName \<Rightarrow> PoolHandlespaceNode \<Rightarrow> fault + PoolHandlespaceNode" where
  "poolNodeClear 0 h hs = (if poolNodeGetFirstPoolElementNodeFromSelection (poolAt hs h) = None then Inr hs else Inl NoFuel)"
| "poolNodeClear (Suc k) h hs =
     (case poolNodeGetFirstPoolElementNodeFromSelection (poolAt hs h) of
        None \<Rightarrow> Inr hs
      | Some i \<Rightarrow> bindR (poolHandlespaceNodeRemovePoolElementNode (h, i) hs) (\<lambda>(n, hs1). poolNodeClear k h hs1))"

primrec clearPools :: "nat \<Rightarrow> PoolHandlespaceNode \<Rightarrow> fault + PoolHandlespaceNode" where
  "clearPools 0 hs = (if poolHandlespaceNodeGetFirstPoolNode hs = None then Inr hs else Inl NoFuel)"
| "clearPools (Suc k) hs =
     (case poolHandlespaceNodeGetFirstPoolNode hs of
        None \<Rightarrow> Inr hs
      | Some h \<Rightarrow>
          bindR (poolNodeClear (poolNodeGetPoolElementNodes (poolAt hs h)) h hs) (\<lambda>hs1.
          bindR (poolHandlespaceNodeRemovePoolNode h hs1) (\<lambda>hs2. clearPools k hs2)))"

definition poolHandlespaceNodeClear :: "PoolHandlespaceNode \<Rightarrow> fault + PoolHandlespaceNode" where
  "poolHandlespaceNodeClear hs = clearPools (poolHandlespaceNodeGetPoolNodes hs) hs"

end
