(* ===== verification/RSP_Management.thy ===== *)
theory RSP_Management
  imports RSP_Handlespace
begin

text \<open>
  The management of the handlespace (poolhandlespacemanagement-template_impl.h): registration and
  deregistration, handle resolution, handle table extracts, expiry timers and the purging of
  expired and of marked pool elements. The two nodes the management keeps allocated for the next
  registration are flags; \<open>hsm_Memory\<close> is whether \<open>malloc\<close> succeeds. User data and its disposers
  are left out.
\<close>

record PoolHandlespaceManagement =
  hsm_Handlespace :: PoolHandlespaceNode
  hsm_NewPoolNode :: bool
  hsm_NewPoolElementNode :: bool
  hsm_Memory :: bool

definition poolHandlespaceManagementNew :: "bool \<Rightarrow> u32 \<Rightarrow> PoolHandlespaceManagement" where
  "poolHandlespaceManagementNew mem homeRegistrarIdentifier =
     \<lparr>hsm_Handlespace = poolHandlespaceNodeNew homeRegistrarIdentifier,
      hsm_NewPoolNode = False, hsm_NewPoolElementNode = False, hsm_Memory = mem\<rparr>"

definition withHandlespace :: "PoolHandlespaceManagement \<Rightarrow> PoolHandlespaceNode \<Rightarrow> PoolHandlespaceManagement" where
  "withHandlespace m hs = m\<lparr>hsm_Handlespace := hs\<rparr>"

definition poolHandlespaceManagementClear :: "PoolHandlespaceManagement \<Rightarrow> fault + PoolHandlespaceManagement" where
  "poolHandlespaceManagementClear m =
     bindR (poolHandlespaceNodeClear (hsm_Handlespace m)) (\<lambda>hs. Inr (withHandlespace m hs))"

definition poolHandlespaceManagementDelete :: "PoolHandlespaceManagement \<Rightarrow> fault + PoolHandlespaceManagement" where
  "poolHandlespaceManagementDelete m =
     bindR (poolHandlespaceManagementClear m) (\<lambda>m1.
     bindR (poolHandlespaceNodeDelete (hsm_Handlespace m1)) (\<lambda>_.
     Inr (m1\<lparr>hsm_NewPoolNode := False, hsm_NewPoolElementNode := False\<rparr>)))"

definition poolHandlespaceManagementGetHandlespaceChecksum :: "PoolHandlespaceManagement \<Rightarrow> u16" where
  "poolHandlespaceManagementGetHandlespaceChecksum m =
     handlespaceChecksumFinish (hsn_HandlespaceChecksum (hsm_Handlespace m))"

definition poolHandlespaceManagementGetOwnershipChecksum :: "PoolHandlespaceManagement \<Rightarrow> u16" where
  "poolHandlespaceManagementGetOwnershipChecksum m =
     handlespaceChecksumFinish (hsn_OwnershipChecksum (hsm_Handlespace m))"

definition poolHandlespaceManagementFindPoolElement ::
  "PoolHandlespaceManagement \<Rightarrow> PoolHandle \<Rightarrow> u32 \<Rightarrow> fault + peName option" where
  "poolHandlespaceManagementFindPoolElement m handle identifier =
     poolHandlespaceNodeFindPoolElementNode (hsm_Handlespace m) handle identifier"

section \<open>Deregistration\<close>

text \<open>The checks that a node to be deleted is not linked any more.\<close>

definition poolElementNodeDelete :: "peName \<Rightarrow> PoolElementNode \<Rightarrow> PoolHandlespaceNode \<Rightarrow> fault + unit" where
  "poolElementNodeDelete p n hs =
     CHECK (snd p \<notin> set (selectionOrder (poolAt hs (fst p)))) (\<lambda>_.
     CHECK (poolNodeFindPoolElementNode (poolAt hs (fst p)) (snd p) = None) (\<lambda>_.
     CHECK (\<not> isLinked poolElementTimerStorageNodeComparison (hsn_PoolElementTimerStorage hs) (timerEntry p n)) (\<lambda>_.
     CHECK (\<not> isLinked poolElementOwnershipStorageNodeComparison (hsn_PoolElementOwnershipStorage hs) (ownershipEntry p n)) (\<lambda>_.
     CHECK (\<not> isLinked poolElementConnectionStorageNodeComparison (hsn_PoolElementConnectionStorage hs) (connectionEntry p n)) (\<lambda>_.
     Inr ())))))"

definition poolNodeDelete :: "handleName \<Rightarrow> PoolNode \<Rightarrow> PoolHandlespaceNode \<Rightarrow> fault + unit" where
  "poolNodeDelete h pn hs =
     CHECK (\<not> isLinked poolIndexStorageNodeComparison (hsn_PoolIndexStorage hs) h) (\<lambda>_.
     CHECK (RedBlackTreeIsEmpty (pn_Selection pn)) (\<lambda>_. Inr ()))"

definition poolHandlespaceManagementDeregisterPoolElementByPtr ::
  "peName \<Rightarrow> PoolHandlespaceManagement \<Rightarrow> fault + (u16 \<times> PoolHandlespaceManagement)" where
  "poolHandlespaceManagementDeregisterPoolElementByPtr p m =
     bindR (poolHandlespaceNodeRemovePoolElementNode p (hsm_Handlespace m)) (\<lambda>(n, hs1).
     bindR (poolElementNodeDelete p n hs1) (\<lambda>_.
     let pn = poolAt hs1 (fst p) in
     if poolNodeGetPoolElementNodes pn = 0
     then bindR (poolHandlespaceNodeRemovePoolNode (fst p) hs1) (\<lambda>hs2.
          bindR (poolNodeDelete (fst p) pn hs2) (\<lambda>_.
          Inr (RSPERR_OKAY, withHandlespace m hs2)))
     else Inr (RSPERR_OKAY, withHandlespace m hs1)))"

definition poolHandlespaceManagementDeregisterPoolElement ::
  "PoolHandle \<Rightarrow> u32 \<Rightarrow> PoolHandlespaceManagement \<Rightarrow> fault + (u16 \<times> PoolHandlespaceManagement)" where
  "poolHandlespaceManagementDeregisterPoolElement handle identifier m =
     bindR (poolHandlespaceNodeFindPoolElementNode (hsm_Handlespace m) handle identifier) (\<lambda>r. case r of
       Some p \<Rightarrow> poolHandlespaceManagementDeregisterPoolElementByPtr p m
     | None \<Rightarrow> Inr (RSPERR_NOT_FOUND, m))"

section \<open>Registration\<close>

text \<open>\<open>transportAddressBlockDuplicate\<close> of the two transports and what is done with the copies.\<close>

definition storeTransports ::
  "peName \<Rightarrow> PoolHandle \<Rightarrow> TransportAddressBlock option \<Rightarrow> TransportAddressBlock option \<Rightarrow> PoolHandlespaceManagement
     \<Rightarrow> fault + (u16 \<times> peName option \<times> PoolHandlespaceManagement)" where
  "storeTransports p handle userTransport registratorTransport m =
     (let userTransportCopy = transportAddressBlockDuplicate (hsm_Memory m) userTransport;
          registratorTransportCopy = transportAddressBlockDuplicate (hsm_Memory m) registratorTransport
      in if userTransportCopy \<noteq> None \<and> (registratorTransportCopy \<noteq> None \<or> registratorTransport = None)
         then Inr (RSPERR_OKAY, Some p,
                withHandlespace m (setElement p (\<lambda>n. n\<lparr>pen_UserTransport := userTransportCopy,
                                                      pen_RegistratorTransport := registratorTransportCopy\<rparr>)
                                     (hsm_Handlespace m)))
         else bindR (poolHandlespaceManagementDeregisterPoolElement handle (snd p) m) (\<lambda>(_, m1).
              Inr (RSPERR_OUT_OF_MEMORY, None, m1)))"

definition poolHandlespaceManagementRegisterPoolElement ::
  "PoolHandle \<Rightarrow> u32 \<Rightarrow> u32 \<Rightarrow> u32 \<Rightarrow> PoolPolicySettings \<Rightarrow> TransportAddressBlock option \<Rightarrow> TransportAddressBlock option
     \<Rightarrow> int \<Rightarrow> u32 \<Rightarrow> u64 \<Rightarrow> PoolHandlespaceManagement \<Rightarrow> fault + (u16 \<times> peName option \<times> PoolHandlespaceManagement)" where
  "poolHandlespaceManagementRegisterPoolElement handle homeRegistrarIdentifier identifier registrationLife
     poolPolicySettings userTransport registratorTransport connectionSocketDescriptor connectionAssocID
     currentTimeStamp m =
     (if ph_Size handle < 1 \<or> ph_Size handle > MAX_POOLHANDLESIZE
      then Inr (RSPERR_INVALID_POOL_HANDLE, None, m)
      else case poolPolicyGetPoolPolicyByType (pps_PolicyType poolPolicySettings) of
        None \<Rightarrow> Inr (RSPERR_INVALID_POOL_POLICY, None, m)
      | Some poolPolicy \<Rightarrow>
          if \<not> hsm_NewPoolNode m \<and> \<not> hsm_Memory m then Inr (RSPERR_OUT_OF_MEMORY, None, m)
          else case userTransport of
            None \<Rightarrow> Inl NullAccess
          | Some ut \<Rightarrow>
              bindR (poolHandleNew \<lparr>ph_Size = 0, ph_Handle = replicate MAX_POOLHANDLESIZE 0\<rparr>
                       (ph_Handle handle) (ph_Size handle)) (\<lambda>newHandle.
              let newPoolNode = poolNodeNew newHandle poolPolicy (tab_Protocol ut)
                    (if tab_Flags ut AND TABF_CONTROLCHANNEL \<noteq> 0 then PNF_CONTROLCHANNEL else 0);
                  m1 = m\<lparr>hsm_NewPoolNode := True\<rparr>
              in if \<not> hsm_NewPoolElementNode m1 \<and> \<not> hsm_Memory m1 then Inr (RSPERR_OUT_OF_MEMORY, None, m1)
                 else
                   let newPoolElementNode = poolElementNodeNew identifier homeRegistrarIdentifier registrationLife
                         poolPolicySettings userTransport registratorTransport
                         connectionSocketDescriptor connectionAssocID
                   in bindR (poolHandlespaceNodeAddOrUpdatePoolElementNode newPoolNode newPoolElementNode
                               (hsm_Handlespace m1)) (\<lambda>(errorCode, r, poolUsed, elementUsed, hs).
                      let m2 = m1\<lparr>hsm_Handlespace := hs, hsm_NewPoolNode := \<not> poolUsed,
                                  hsm_NewPoolElementNode := \<not> elementUsed\<rparr>
                      in if errorCode = RSPERR_OKAY then
                           (case r of
                              None \<Rightarrow> Inl NullAccess
                            | Some p \<Rightarrow> storeTransports p handle userTransport registratorTransport
                                (withHandlespace m2 (setElement p (\<lambda>n. n\<lparr>pen_LastUpdateTimeStamp := currentTimeStamp\<rparr>)
                                                       (hsm_Handlespace m2))))
                         else Inr (errorCode, r, m2))))"

definition poolHandlespaceManagementRegisterPoolElementByPtr ::
  "PoolHandle \<Rightarrow> PoolElementNode \<Rightarrow> u64 \<Rightarrow> PoolHandlespaceManagement
     \<Rightarrow> fault + (u16 \<times> peName option \<times> PoolHandlespaceManagement)" where
  "poolHandlespaceManagementRegisterPoolElementByPtr handle n currentTimeStamp m =
     poolHandlespaceManagementRegisterPoolElement handle (pen_HomeRegistrarIdentifier n) (pen_Identifier n)
       (pen_RegistrationLife n) (pen_PolicySettings n) (pen_UserTransport n) (pen_RegistratorTransport n)
       (pen_ConnectionSocketDescriptor n) (pen_ConnectionAssocID n) currentTimeStamp m"

definition poolHandlespaceManagementUpdateOwnershipOfPoolElementNode ::
  "peName \<Rightarrow> u32 \<Rightarrow> PoolHandlespaceManagement \<Rightarrow> fault + PoolHandlespaceManagement" where
  "poolHandlespaceManagementUpdateOwnershipOfPoolElementNode p r m =
     bindR (poolHandlespaceNodeUpdateOwnershipOfPoolElementNode p r (hsm_Handlespace m)) (\<lambda>hs. Inr (withHandlespace m hs))"

definition poolHandlespaceManagementUpdateConnectionOfPoolElementNode ::
  "peName \<Rightarrow> int \<Rightarrow> u32 \<Rightarrow> PoolHandlespaceManagement \<Rightarrow> fault + PoolHandlespaceManagement" where
  "poolHandlespaceManagementUpdateConnectionOfPoolElementNode p sd a m =
     bindR (poolHandlespaceNodeUpdateConnectionOfPoolElementNode p sd a (hsm_Handlespace m)) (\<lambda>hs. Inr (withHandlespace m hs))"

section \<open>Handle resolution\<close>

definition poolHandlespaceManagementHandleResolution ::
  "(nat \<Rightarrow> u64) \<Rightarrow> PoolHandle \<Rightarrow> nat \<Rightarrow> nat \<Rightarrow> PoolHandlespaceManagement
     \<Rightarrow> fault + (u16 \<times> peName list \<times> PoolHandlespaceManagement)" where
  "poolHandlespaceManagementHandleResolution random handle maxHandleResolutionItems maxIncrement m =
     bindR (poolHandlespaceNodeSelectPoolElementNodesByPolicy random handle maxHandleResolutionItems maxIncrement
              (hsm_Handlespace m)) (\<lambda>(errorCode, selected, hs).
       Inr (errorCode, selected, withHandlespace m hs))"

section \<open>Handle tables\<close>

abbreviation (input) "NTE_MAX_POOL_ELEMENT_NODES \<equiv> (1024 :: nat)"
abbreviation (input) "HTEF_START \<equiv> (1 :: u32)"
abbreviation (input) "HTEF_OWNCHILDSONLY \<equiv> (2 :: u32)"

record HandleTableExtract =
  hte_LastPoolHandle :: PoolHandle
  hte_LastPoolElementIdentifier :: u32
  hte_PoolElementNodeArray :: "peName list"

definition rememberLast :: "PoolHandlespaceNode \<Rightarrow> HandleTableExtract \<Rightarrow> HandleTableExtract" where
  "rememberLast hs x =
     (if hte_PoolElementNodeArray x = [] then x
      else let p = last (hte_PoolElementNodeArray x)
           in x\<lparr>hte_LastPoolHandle := pn_Handle (poolAt hs (fst p)), hte_LastPoolElementIdentifier := snd p\<rparr>)"

definition getOwnershipHandleTable ::
  "PoolHandlespaceNode \<Rightarrow> HandleTableExtract \<Rightarrow> u32 \<Rightarrow> u32 \<Rightarrow> nat \<Rightarrow> fault + (bool \<times> HandleTableExtract)" where
  "getOwnershipHandleTable hs x homeRegistrarIdentifier flags maxElements0 =
     (let maxElements = (if maxElements0 > NTE_MAX_POOL_ELEMENT_NODES then NTE_MAX_POOL_ELEMENT_NODES else maxElements0)
      in if maxElements < 1 then Inr (False, x)
         else bindR (if flags AND HTEF_START \<noteq> 0
                     then poolHandlespaceNodeGetFirstPoolElementOwnershipNodeForIdentifier hs homeRegistrarIdentifier
                     else poolHandlespaceNodeFindNearestNextPoolElementOwnershipNode hs homeRegistrarIdentifier
                            (hte_LastPoolHandle x) (hte_LastPoolElementIdentifier x)) (\<lambda>first.
              let x1 = rememberLast hs (x\<lparr>hte_PoolElementNodeArray := ownedFrom maxElements hs first\<rparr>)
              in Inr (hte_PoolElementNodeArray x1 \<noteq> [], x1)))"

text \<open>The two nested loops over the pools and their pool elements.\<close>

primrec collectPool :: "nat \<Rightarrow> PoolNode \<Rightarrow> u32 option \<Rightarrow> u32 list" where
  "collectPool 0 pn current = []"
| "collectPool (Suc k) pn current =
     (case current of
        None \<Rightarrow> []
      | Some i \<Rightarrow> i # collectPool k pn (poolNodeGetNextPoolElementNodeFromIndex pn i))"

primrec collectPools :: "nat \<Rightarrow> PoolHandlespaceNode \<Rightarrow> nat \<Rightarrow> handleName \<Rightarrow> u32 option \<Rightarrow> peName list" where
  "collectPools 0 hs maxElements h current = []"
| "collectPools (Suc k) hs maxElements h current =
     (let here = map (\<lambda>i. (h, i)) (collectPool maxElements (poolAt hs h) current) in
      if length here \<ge> maxElements then here
      else case poolHandlespaceNodeGetNextPoolNode hs h of
             None \<Rightarrow> here
           | Some h' \<Rightarrow> here @ collectPools k hs (maxElements - length here) h'
                          (poolNodeGetFirstPoolElementNodeFromIndex (poolAt hs h')))"

definition getGlobalHandleTable ::
  "PoolHandlespaceNode \<Rightarrow> HandleTableExtract \<Rightarrow> u32 \<Rightarrow> nat \<Rightarrow> fault + (bool \<times> HandleTableExtract)" where
  "getGlobalHandleTable hs x0 flags maxElements0 =
     (let maxElements = (if maxElements0 > NTE_MAX_POOL_ELEMENT_NODES then NTE_MAX_POOL_ELEMENT_NODES else maxElements0);
          pools = poolHandlespaceNodeGetPoolNodes hs;
          x = x0\<lparr>hte_PoolElementNodeArray := []\<rparr>;
          finish = (\<lambda>x h current.
            let x1 = rememberLast hs (x\<lparr>hte_PoolElementNodeArray := collectPools pools hs maxElements h current\<rparr>)
            in Inr (hte_PoolElementNodeArray x1 \<noteq> [], x1))
      in if maxElements < 1 then Inr (False, x0)
         else if flags AND HTEF_START \<noteq> 0 then
           let x1 = x\<lparr>hte_LastPoolElementIdentifier := 0, hte_LastPoolHandle := (hte_LastPoolHandle x)\<lparr>ph_Size := 0\<rparr>\<rparr> in
           (case poolHandlespaceNodeGetFirstPoolNode hs of
              None \<Rightarrow> Inr (False, x1)
            | Some h \<Rightarrow> finish x1 h (poolNodeGetFirstPoolElementNodeFromIndex (poolAt hs h)))
         else
           bindR (poolHandlespaceNodeFindPoolNode hs (hte_LastPoolHandle x)) (\<lambda>found.
           bindR (case found of
                    Some h \<Rightarrow> Inr (Some h)
                  | None \<Rightarrow> poolHandlespaceNodeFindNearestNextPoolNode hs (hte_LastPoolHandle x)) (\<lambda>found'.
           case found' of
             None \<Rightarrow> Inr (False, x)
           | Some h \<Rightarrow>
               finish x h
                 (if poolHandleComparison (hte_LastPoolHandle x) (pn_Handle (poolAt hs h)) = 0
                  then poolNodeFindNearestNextPoolElementNode (poolAt hs h) (hte_LastPoolElementIdentifier x)
                  else poolNodeGetFirstPoolElementNodeFromIndex (poolAt hs h)))))"

definition poolHandlespaceManagementGetHandleTable ::
  "PoolHandlespaceManagement \<Rightarrow> u32 \<Rightarrow> HandleTableExtract \<Rightarrow> u32 \<Rightarrow> nat \<Rightarrow> fault + (bool \<times> HandleTableExtract)" where
  "poolHandlespaceManagementGetHandleTable m homeRegistrarIdentifier x flags maxElements =
     (if flags AND HTEF_OWNCHILDSONLY \<noteq> 0
      then getOwnershipHandleTable (hsm_Handlespace m) x homeRegistrarIdentifier flags maxElements
      else getGlobalHandleTable (hsm_Handlespace m) x flags maxElements)"

section \<open>Expiry and purging\<close>

definition poolHandlespaceManagementRestartPoolElementExpiryTimer ::
  "peName \<Rightarrow> u64 \<Rightarrow> PoolHandlespaceManagement \<Rightarrow> fault + PoolHandlespaceManagement" where
  "poolHandlespaceManagementRestartPoolElementExpiryTimer p expiryTimeout m =
     bindR (poolHandlespaceNodeDeactivateTimer p (hsm_Handlespace m)) (\<lambda>hs1.
     bindR (poolHandlespaceNodeActivateTimer p PENT_EXPIRY
              (pen_LastUpdateTimeStamp (elementAt hs1 p) + expiryTimeout) hs1) (\<lambda>hs2.
     Inr (withHandlespace m hs2)))"

definition poolHandlespaceManagementGetNextTimerTimeStamp :: "PoolHandlespaceManagement \<Rightarrow> u64" where
  "poolHandlespaceManagementGetNextTimerTimeStamp m =
     (case poolHandlespaceNodeGetFirstPoolElementTimerNode (hsm_Handlespace m) of
        None \<Rightarrow> 0xffffffffffffffff
      | Some p \<Rightarrow> pen_TimerTimeStamp (elementAt (hsm_Handlespace m) p))"

text \<open>The loops have as many rounds as there are timers, or nodes of the registrar.\<close>

primrec purgeExpired ::
  "nat \<Rightarrow> u64 \<Rightarrow> peName option \<Rightarrow> nat \<Rightarrow> PoolHandlespaceManagement \<Rightarrow> fault + (nat \<times> PoolHandlespaceManagement)" where
  "purgeExpired 0 now current purged m = (if current = None then Inr (purged, m) else Inl NoFuel)"
| "purgeExpired (Suc k) now current purged m =
     (case current of
        None \<Rightarrow> Inr (purged, m)
      | Some p \<Rightarrow>
          let hs = hsm_Handlespace m;
              next = poolHandlespaceNodeGetNextPoolElementTimerNode hs p
          in CHECK (pen_TimerCode (elementAt hs p) = PENT_EXPIRY) (\<lambda>_.
             CHECK (poolHandlespaceNodeHasActiveTimer hs p) (\<lambda>_.
             if pen_TimerTimeStamp (elementAt hs p) \<le> now
             then bindR (poolHandlespaceManagementDeregisterPoolElementByPtr p m) (\<lambda>(_, m1).
                  purgeExpired k now next (purged + 1) m1)
             else Inr (purged, m))))"

definition poolHandlespaceManagementPurgeExpiredPoolElements ::
  "u64 \<Rightarrow> PoolHandlespaceManagement \<Rightarrow> fault + (nat \<times> PoolHandlespaceManagement)" where
  "poolHandlespaceManagementPurgeExpiredPoolElements currentTimeStamp m =
     purgeExpired (poolHandlespaceNodeGetTimerNodes (hsm_Handlespace m)) currentTimeStamp
       (poolHandlespaceNodeGetFirstPoolElementTimerNode (hsm_Handlespace m)) 0 m"

primrec markAll :: "peName list \<Rightarrow> PoolHandlespaceNode \<Rightarrow> PoolHandlespaceNode" where
  "markAll [] hs = hs"
| "markAll (p # ps) hs = markAll ps (setElement p (\<lambda>n. n\<lparr>pen_Flags := pen_Flags n OR PENF_MARKED\<rparr>) hs)"

definition poolHandlespaceManagementMarkPoolElementNodes ::
  "u32 \<Rightarrow> PoolHandlespaceManagement \<Rightarrow> fault + PoolHandlespaceManagement" where
  "poolHandlespaceManagementMarkPoolElementNodes ownerID m =
     bindR (ownedNodes (hsm_Handlespace m) ownerID) (\<lambda>ps.
       Inr (withHandlespace m (markAll ps (hsm_Handlespace m))))"

primrec purgeMarked ::
  "nat \<Rightarrow> peName option \<Rightarrow> nat \<Rightarrow> PoolHandlespaceManagement \<Rightarrow> fault + (nat \<times> PoolHandlespaceManagement)" where
  "purgeMarked 0 current count m = (if current = None then Inr (count, m) else Inl NoFuel)"
| "purgeMarked (Suc k) current count m =
     (case current of
        None \<Rightarrow> Inr (count, m)
      | Some p \<Rightarrow>
          let hs = hsm_Handlespace m;
              next = poolHandlespaceNodeGetNextPoolElementOwnershipNodeForSameIdentifier hs p
          in if pen_Flags (elementAt hs p) AND PENF_MARKED \<noteq> 0
             then bindR (poolHandlespaceManagementDeregisterPoolElementByPtr p m) (\<lambda>(errorCode, m1).
                  CHECK (errorCode = RSPERR_OKAY) (\<lambda>_. purgeMarked k next (count + 1) m1))
             else purgeMarked k next count m)"

definition poolHandlespaceManagementPurgeMarkedPoolElementNodes ::
  "u32 \<Rightarrow> PoolHandlespaceManagement \<Rightarrow> fault + (nat \<times> PoolHandlespaceManagement)" where
  "poolHandlespaceManagementPurgeMarkedPoolElementNodes ownerID m =
     bindR (poolHandlespaceNodeGetFirstPoolElementOwnershipNodeForIdentifier (hsm_Handlespace m) ownerID) (\<lambda>first.
     purgeMarked (RedBlackTreeGetElements (hsn_PoolElementOwnershipStorage (hsm_Handlespace m))) first 0 m)"

end
