(* ===== verification/RSP_PeerList.thy ===== *)
theory RSP_PeerList
  imports RSP_Handlespace
begin

text \<open>
  The peer list of a registrar (peerlistnode-template_impl.h, peerlist-template_impl.h): the other
  registrars, by identifier and by timer. Unlike a pool element, a peer may change the fields its
  storages order by, so that a node is named by its address: \<open>pl_Nodes\<close> are the nodes on the heap,
  the storages hold addresses, and a comparison reads the nodes at the addresses. No node is at
  the address 0 (\<open>NULL\<close>); in a search, this address stands for the node on the stack that is
  searched for. The user data of a node is left out.
\<close>

section \<open>Data\<close>

abbreviation (input) "RSPERR_OWN_ID \<equiv> (0xf001 :: u16)"

abbreviation (input) "PLNS_LISTSYNC \<equiv> (0x0001 :: u32)"
abbreviation (input) "PLNS_HTSYNC \<equiv> (0x0002 :: u32)"
abbreviation (input) "PLNS_MENTOR \<equiv> (0x0004 :: u32)"

abbreviation (input) "PLNT_MAX_TIME_LAST_HEARD \<equiv> (3000 :: u32)"
abbreviation (input) "PLNT_MAX_TIME_NO_RESPONSE \<equiv> (3001 :: u32)"
abbreviation (input) "PLNT_TAKEOVER_EXPIRY \<equiv> (3002 :: u32)"

record PeerList =
  pl_Nodes :: "nat \<rightharpoonup> PeerListNode"
  pl_Index :: "nat RedBlackTree"
  pl_Timer :: "nat RedBlackTree"
  pl_OwnIdentifier :: u32

definition peerAt :: "PeerList \<Rightarrow> nat \<Rightarrow> PeerListNode" where
  "peerAt pl p = the (pl_Nodes pl p)"

definition setPeer :: "nat \<Rightarrow> (PeerListNode \<Rightarrow> PeerListNode) \<Rightarrow> PeerList \<Rightarrow> PeerList" where
  "setPeer p f pl = pl\<lparr>pl_Nodes := (pl_Nodes pl)(p \<mapsto> f (peerAt pl p))\<rparr>"

section \<open>Orders\<close>

text \<open>
  The value of \<open>transportAddressBlockComparison\<close> on blocks of IPv4 and IPv6 addresses, the
  only ones peers have.
\<close>

fun addressesOrder :: "sockaddr_union list \<Rightarrow> sockaddr_union list \<Rightarrow> int" where
  "addressesOrder (a # as) (b # bs) = (if addressKey a b \<noteq> 0 then addressKey a b else addressesOrder as bs)"
| "addressesOrder _ _ = 0"

definition blockOrder :: "TransportAddressBlock option \<Rightarrow> TransportAddressBlock option \<Rightarrow> int" where
  "blockOrder p1 p2 =
     (case (p1, p2) of
        (None, Some _) \<Rightarrow> -1
      | (Some _, None) \<Rightarrow> 1
      | (None, None) \<Rightarrow> 0
      | (Some b1, Some b2) \<Rightarrow>
          cmp_key (tab_Port b1) (tab_Port b2)
            (cmp_key (tab_Flags b1) (tab_Flags b2)
              (cmp_key (tab_Addresses b1) (tab_Addresses b2)
                (addressesOrder (tab_AddressArray b1) (tab_AddressArray b2)))))"

definition peerListIndexStorageNodeComparison :: "PeerListNode \<Rightarrow> PeerListNode \<Rightarrow> int" where
  "peerListIndexStorageNodeComparison node1 node2 =
     cmp_key (pln_Identifier node1) (pln_Identifier node2)
       (if pln_Identifier node1 = UNDEFINED_REGISTRAR_IDENTIFIER \<and>
           pln_Identifier node2 = UNDEFINED_REGISTRAR_IDENTIFIER
        then blockOrder (pln_AddressBlock node1) (pln_AddressBlock node2)
        else 0)"

definition peerListTimerStorageNodeComparison :: "PeerListNode \<Rightarrow> PeerListNode \<Rightarrow> int" where
  "peerListTimerStorageNodeComparison node1 node2 =
     cmp_key (pln_TimerTimeStamp node1) (pln_TimerTimeStamp node2)
       (cmp_key (pln_Identifier node1) (pln_Identifier node2)
         (if pln_Identifier node1 = UNDEFINED_REGISTRAR_IDENTIFIER \<and>
             pln_Identifier node2 = UNDEFINED_REGISTRAR_IDENTIFIER
          then blockOrder (pln_AddressBlock node1) (pln_AddressBlock node2)
          else 0))"

text \<open>The comparisons of the storages, and those of a search for \<open>cmpElement\<close>.\<close>

definition indexOrder :: "PeerList \<Rightarrow> nat \<Rightarrow> nat \<Rightarrow> int" where
  "indexOrder pl a b = peerListIndexStorageNodeComparison (peerAt pl a) (peerAt pl b)"

definition timerOrder :: "PeerList \<Rightarrow> nat \<Rightarrow> nat \<Rightarrow> int" where
  "timerOrder pl a b = peerListTimerStorageNodeComparison (peerAt pl a) (peerAt pl b)"

definition searchOrder :: "PeerListNode \<Rightarrow> PeerList \<Rightarrow> nat \<Rightarrow> nat \<Rightarrow> int" where
  "searchOrder cmpElement pl a b =
     peerListIndexStorageNodeComparison (if a = 0 then cmpElement else peerAt pl a)
       (if b = 0 then cmpElement else peerAt pl b)"

text \<open>\<^verbatim>\<open>IsLinked(node)\<close>: the node is in the tree.\<close>

fun inTree :: "'a \<Rightarrow> 'a tree \<Rightarrow> bool" where
  "inTree p NullNode = False"
| "inTree p (Node c l x v s r) = (inTree p l \<or> p = x \<or> inTree p r)"

definition indexLinked :: "PeerList \<Rightarrow> nat \<Rightarrow> bool" where
  "indexLinked pl p = inTree p (rbt_Root (pl_Index pl))"

definition timerLinked :: "PeerList \<Rightarrow> nat \<Rightarrow> bool" where
  "timerLinked pl p = inTree p (rbt_Root (pl_Timer pl))"

section \<open>Peers\<close>

definition peerListNodeDelete :: "nat \<Rightarrow> PeerList \<Rightarrow> fault + PeerList" where
  "peerListNodeDelete p pl =
     CHECK (\<not> indexLinked pl p) (\<lambda>_.
     CHECK (\<not> timerLinked pl p) (\<lambda>_.
     Inr (setPeer p (\<lambda>n. n\<lparr>pln_Flags := 0, pln_LastUpdateTimeStamp := 0, pln_TimerCode := 0,
                           pln_TimerTimeStamp := 0\<rparr>) pl)))"

definition peerListNodeUpdate :: "PeerListNode \<Rightarrow> PeerListNode \<Rightarrow> PeerListNode" where
  "peerListNodeUpdate n source = n\<lparr>pln_Flags := pln_Flags source\<rparr>"

definition peerListNodeGetOwnershipChecksum :: "PeerListNode \<Rightarrow> u16" where
  "peerListNodeGetOwnershipChecksum n = handlespaceChecksumFinish (pln_OwnershipChecksum n)"

section \<open>The list\<close>

definition peerListNew :: "u32 \<Rightarrow> PeerList" where
  "peerListNew ownIdentifier =
     \<lparr>pl_Nodes = Map.empty, pl_Index = RedBlackTreeNew, pl_Timer = RedBlackTreeNew,
      pl_OwnIdentifier = ownIdentifier\<rparr>"

definition peerListDelete :: "PeerList \<Rightarrow> PeerList" where
  "peerListDelete pl =
     pl\<lparr>pl_Index := RedBlackTreeNew, pl_Timer := RedBlackTreeNew,
        pl_OwnIdentifier := UNDEFINED_REGISTRAR_IDENTIFIER\<rparr>"

definition peerListGetPeerListNodes :: "PeerList \<Rightarrow> nat" where
  "peerListGetPeerListNodes pl = RedBlackTreeGetElements (pl_Index pl)"

definition peerListGetFirstPeerListNodeFromIndexStorage :: "PeerList \<Rightarrow> nat option" where
  "peerListGetFirstPeerListNodeFromIndexStorage pl = RedBlackTreeGetFirst (pl_Index pl)"

definition peerListGetLastPeerListNodeFromIndexStorage :: "PeerList \<Rightarrow> nat option" where
  "peerListGetLastPeerListNodeFromIndexStorage pl = RedBlackTreeGetLast (pl_Index pl)"

definition peerListGetNextPeerListNodeFromIndexStorage :: "PeerList \<Rightarrow> nat \<Rightarrow> nat option" where
  "peerListGetNextPeerListNodeFromIndexStorage pl p = RedBlackTreeGetNext (indexOrder pl) (pl_Index pl) p"

definition peerListGetPrevPeerListNodeFromIndexStorage :: "PeerList \<Rightarrow> nat \<Rightarrow> nat option" where
  "peerListGetPrevPeerListNodeFromIndexStorage pl p = RedBlackTreeGetPrev (indexOrder pl) (pl_Index pl) p"

definition peerListGetFirstPeerListNodeFromTimerStorage :: "PeerList \<Rightarrow> nat option" where
  "peerListGetFirstPeerListNodeFromTimerStorage pl = RedBlackTreeGetFirst (pl_Timer pl)"

definition peerListGetLastPeerListNodeFromTimerStorage :: "PeerList \<Rightarrow> nat option" where
  "peerListGetLastPeerListNodeFromTimerStorage pl = RedBlackTreeGetLast (pl_Timer pl)"

definition peerListGetNextPeerListNodeFromTimerStorage :: "PeerList \<Rightarrow> nat \<Rightarrow> nat option" where
  "peerListGetNextPeerListNodeFromTimerStorage pl p = RedBlackTreeGetNext (timerOrder pl) (pl_Timer pl) p"

definition peerListGetPrevPeerListNodeFromTimerStorage :: "PeerList \<Rightarrow> nat \<Rightarrow> nat option" where
  "peerListGetPrevPeerListNodeFromTimerStorage pl p = RedBlackTreeGetPrev (timerOrder pl) (pl_Timer pl) p"

text \<open>The peers in the order in which the loops over the index storage visit them.\<close>

definition peersByIndex :: "PeerList \<Rightarrow> nat list" where
  "peersByIndex pl = visitAll (indexOrder pl) (pl_Index pl)"

definition peerListActivateTimer :: "nat \<Rightarrow> u32 \<Rightarrow> u64 \<Rightarrow> PeerList \<Rightarrow> fault + PeerList" where
  "peerListActivateTimer p timerCode timerTimeStamp pl =
     CHECK (\<not> timerLinked pl p) (\<lambda>_.
     let pl1 = setPeer p (\<lambda>n. n\<lparr>pln_TimerCode := timerCode, pln_TimerTimeStamp := timerTimeStamp\<rparr>) pl;
         (result, t) = RedBlackTreeInsert (timerOrder pl1) (pl_Timer pl1) p 0
     in CHECK (result = p) (\<lambda>_. Inr (pl1\<lparr>pl_Timer := t\<rparr>)))"

definition peerListDeactivateTimer :: "nat \<Rightarrow> PeerList \<Rightarrow> fault + PeerList" where
  "peerListDeactivateTimer p pl =
     (if timerLinked pl p
      then bindR (RedBlackTreeRemove (timerOrder pl) (pl_Timer pl) p) (\<lambda>t. Inr (pl\<lparr>pl_Timer := t\<rparr>))
      else Inr pl)"

definition peerListVerify :: "PeerList \<Rightarrow> fault + unit" where
  "peerListVerify pl =
     bindR (RedBlackTreeVerify (indexOrder pl) (pl_Index pl)) (\<lambda>_.
     RedBlackTreeVerify (timerOrder pl) (pl_Timer pl))"

definition peerListCheckPeerListNodeCompatibility :: "PeerList \<Rightarrow> PeerListNode \<Rightarrow> u16" where
  "peerListCheckPeerListNodeCompatibility pl n =
     (if pl_OwnIdentifier pl \<noteq> UNDEFINED_REGISTRAR_IDENTIFIER \<and> pln_Identifier n = pl_OwnIdentifier pl
      then RSPERR_OWN_ID else RSPERR_OKAY)"

text \<open>The results are the error code, the node returned (\<open>None\<close> for \<open>NULL\<close>) and the list.\<close>

definition peerListAddPeerListNode :: "nat \<Rightarrow> PeerList \<Rightarrow> u16 \<times> nat option \<times> PeerList" where
  "peerListAddPeerListNode p pl =
     (let errorCode = peerListCheckPeerListNodeCompatibility pl (peerAt pl p) in
      if errorCode \<noteq> RSPERR_OKAY then (errorCode, None, pl)
      else let (result, t) = RedBlackTreeInsert (indexOrder pl) (pl_Index pl) p 1 in
           if result = p then (RSPERR_OKAY, Some p, pl\<lparr>pl_Index := t\<rparr>)
           else (RSPERR_DUPLICATE_ID, Some result, pl))"

definition peerListUpdatePeerListNode :: "nat \<Rightarrow> PeerListNode \<Rightarrow> PeerList \<Rightarrow> fault + (u16 \<times> PeerList)" where
  "peerListUpdatePeerListNode p source pl =
     (let errorCode = peerListCheckPeerListNodeCompatibility pl source in
      if errorCode = RSPERR_OKAY then
        bindR (if pln_Identifier (peerAt pl p) \<noteq> pln_Identifier source
               then bindR (RedBlackTreeRemove (indexOrder pl) (pl_Index pl) p) (\<lambda>t1.
                    let pl1 = setPeer p (\<lambda>n. n\<lparr>pln_Identifier := pln_Identifier source\<rparr>) (pl\<lparr>pl_Index := t1\<rparr>);
                        (result, t2) = RedBlackTreeInsert (indexOrder pl1) (pl_Index pl1) p 1
                    in CHECK (result = p) (\<lambda>_. Inr (pl1\<lparr>pl_Index := t2\<rparr>)))
               else Inr pl) (\<lambda>pl2.
        Inr (errorCode,
             setPeer p (\<lambda>n. let n1 = peerListNodeUpdate n source in
                            n1\<lparr>pln_Flags := pln_Flags n1 AND NOT PLNF_NEW\<rparr>) pl2))
      else Inr (errorCode, pl))"

text \<open>
  The result of \<open>peerListAddOrUpdatePeerListNode\<close> has in addition whether the new node was
  linked, that is, whether the pointer of the caller was set to \<open>NULL\<close>.
\<close>

definition peerListAddOrUpdatePeerListNode ::
  "nat \<Rightarrow> PeerList \<Rightarrow> fault + (u16 \<times> nat option \<times> bool \<times> PeerList)" where
  "peerListAddOrUpdatePeerListNode p pl =
     (case peerListAddPeerListNode p pl of
        (errorCode, None, pl1) \<Rightarrow> Inr (errorCode, None, False, pl1)
      | (errorCode, Some q, pl1) \<Rightarrow>
          if q \<noteq> p
          then bindR (peerListUpdatePeerListNode q (peerAt pl1 p) pl1) (\<lambda>(errorCode', pl2).
               Inr (errorCode', Some q, False, pl2))
          else Inr (errorCode, Some q, True,
                    setPeer q (\<lambda>n. n\<lparr>pln_Flags := pln_Flags n OR PLNF_NEW\<rparr>) pl1))"

text \<open>The loop over the peers that looks for one with a common address.\<close>

fun firstOverlapping :: "nat \<Rightarrow> PeerList \<Rightarrow> TransportAddressBlock option \<Rightarrow> nat list \<Rightarrow> fault + nat option" where
  "firstOverlapping gl pl block [] = Inr None"
| "firstOverlapping gl pl block (p # ps) =
     bindR (transportAddressBlockOverlapComparison gl (pln_AddressBlock (peerAt pl p)) block) (\<lambda>result.
     if result = 0 then Inr (Some p) else firstOverlapping gl pl block ps)"

definition peerListFindPeerListNode ::
  "nat \<Rightarrow> u32 \<Rightarrow> TransportAddressBlock option \<Rightarrow> PeerList \<Rightarrow> fault + nat option" where
  "peerListFindPeerListNode gl identifier transportAddressBlock pl =
     (if identifier \<noteq> UNDEFINED_REGISTRAR_IDENTIFIER
      then Inr (RedBlackTreeFind (searchOrder (peerListNodeNew identifier 0 transportAddressBlock) pl) (pl_Index pl) 0)
      else firstOverlapping gl pl transportAddressBlock (peersByIndex pl))"

definition peerListFindNearestPrevPeerListNode ::
  "u32 \<Rightarrow> TransportAddressBlock option \<Rightarrow> PeerList \<Rightarrow> nat option" where
  "peerListFindNearestPrevPeerListNode identifier transportAddressBlock pl =
     RedBlackTreeGetNearestPrev (searchOrder (peerListNodeNew identifier 0 transportAddressBlock) pl) (pl_Index pl) 0"

definition peerListFindNearestNextPeerListNode ::
  "u32 \<Rightarrow> TransportAddressBlock option \<Rightarrow> PeerList \<Rightarrow> nat option" where
  "peerListFindNearestNextPeerListNode identifier transportAddressBlock pl =
     RedBlackTreeGetNearestNext (searchOrder (peerListNodeNew identifier 0 transportAddressBlock) pl) (pl_Index pl) 0"

definition peerListRemovePeerListNode :: "nat \<Rightarrow> PeerList \<Rightarrow> fault + PeerList" where
  "peerListRemovePeerListNode p pl =
     bindR (RedBlackTreeRemove (indexOrder pl) (pl_Index pl) p) (\<lambda>t.
     let pl1 = pl\<lparr>pl_Index := t\<rparr> in
     if timerLinked pl1 p
     then bindR (RedBlackTreeRemove (timerOrder pl1) (pl_Timer pl1) p) (\<lambda>t'. Inr (pl1\<lparr>pl_Timer := t'\<rparr>))
     else Inr pl1)"

text \<open>The argument \<open>value\<close> is the number that \<open>random64()\<close> returns.\<close>

definition peerListGetRandomPeerListNode :: "u64 \<Rightarrow> PeerList \<Rightarrow> nat option" where
  "peerListGetRandomPeerListNode value pl =
     (let maxValue = RedBlackTreeGetValueSum (pl_Index pl) in
      if maxValue < 1 then None
      else RedBlackTreeGetNodeByValue (pl_Index pl) (value mod maxValue))"

end
