(* ===== verification/RSP_PeerManagement.thy ===== *)
theory RSP_PeerManagement
  imports RSP_PeerList
begin

text \<open>
  The management of the peer list (peerlistmanagement-template_impl.h): registration and
  deregistration of peers, their timers, the callback by which the ownership checksums follow the
  handlespace, and the choice of the registrar that fits a pool element best; and the takeover
  process (takeoverprocess.c).

  \<open>malloc\<close> takes the addresses of new nodes from \<open>plm_Break\<close> upwards. \<open>plm_Memory\<close> is whether it
  succeeds. The handlespace the management refers to is an argument, \<open>None\<close> for \<open>NULL\<close>.
\<close>

record PeerListManagement =
  plm_List :: PeerList
  plm_NewPeerListNode :: "nat option"
  plm_Break :: nat
  plm_Memory :: bool

definition withList :: "PeerListManagement \<Rightarrow> PeerList \<Rightarrow> PeerListManagement" where
  "withList m pl = m\<lparr>plm_List := pl\<rparr>"

definition peerListManagementNew :: "bool \<Rightarrow> u32 \<Rightarrow> PeerListManagement" where
  "peerListManagementNew mem ownRegistrarIdentifier =
     \<lparr>plm_List = peerListNew ownRegistrarIdentifier, plm_NewPeerListNode = None, plm_Break = 1, plm_Memory = mem\<rparr>"

text \<open>The disposer ends with \<open>free(peerListNode)\<close>.\<close>

definition peerListManagementPeerListNodeDisposer :: "nat \<Rightarrow> PeerList \<Rightarrow> PeerList" where
  "peerListManagementPeerListNodeDisposer p pl = pl\<lparr>pl_Nodes := (pl_Nodes pl)(p := None)\<rparr>"

text \<open>The loop of \<open>peerListClear\<close> removes the first peer until there is none; it has as many rounds as there are peers.\<close>

primrec clearPeers :: "nat \<Rightarrow> PeerList \<Rightarrow> fault + PeerList" where
  "clearPeers 0 pl = (if peerListGetFirstPeerListNodeFromIndexStorage pl = None then Inr pl else Inl NoFuel)"
| "clearPeers (Suc k) pl =
     (case peerListGetFirstPeerListNodeFromIndexStorage pl of
        None \<Rightarrow> Inr pl
      | Some p \<Rightarrow>
          bindR (peerListRemovePeerListNode p pl) (\<lambda>pl1.
          bindR (peerListNodeDelete p pl1) (\<lambda>pl2.
          clearPeers k (peerListManagementPeerListNodeDisposer p pl2))))"

definition peerListClear :: "PeerList \<Rightarrow> fault + PeerList" where
  "peerListClear pl = clearPeers (peerListGetPeerListNodes pl) pl"

definition peerListManagementClear :: "PeerListManagement \<Rightarrow> fault + PeerListManagement" where
  "peerListManagementClear m = bindR (peerListClear (plm_List m)) (\<lambda>pl. Inr (withList m pl))"

definition peerListManagementDelete :: "PeerListManagement \<Rightarrow> fault + PeerListManagement" where
  "peerListManagementDelete m =
     bindR (peerListManagementClear m) (\<lambda>m1.
     case plm_NewPeerListNode m1 of
       None \<Rightarrow> Inr (withList m1 (peerListDelete (plm_List m1)))
     | Some p \<Rightarrow>
         bindR (peerListNodeDelete p (plm_List m1)) (\<lambda>pl.
         Inr ((withList m1 (peerListDelete (pl\<lparr>pl_Nodes := (pl_Nodes pl)(p := None)\<rparr>)))\<lparr>plm_NewPeerListNode := None\<rparr>)))"

definition peerListManagementVerify :: "PeerListManagement \<Rightarrow> fault + unit" where
  "peerListManagementVerify m = peerListVerify (plm_List m)"

definition peerListManagementGetPeers :: "PeerListManagement \<Rightarrow> nat" where
  "peerListManagementGetPeers m = peerListGetPeerListNodes (plm_List m)"

definition peerListManagementActivateTimer ::
  "nat \<Rightarrow> u32 \<Rightarrow> u64 \<Rightarrow> PeerListManagement \<Rightarrow> fault + PeerListManagement" where
  "peerListManagementActivateTimer p timerCode timerTimeStamp m =
     bindR (peerListActivateTimer p timerCode timerTimeStamp (plm_List m)) (\<lambda>pl. Inr (withList m pl))"

definition peerListManagementDeactivateTimer :: "nat \<Rightarrow> PeerListManagement \<Rightarrow> fault + PeerListManagement" where
  "peerListManagementDeactivateTimer p m =
     bindR (peerListDeactivateTimer p (plm_List m)) (\<lambda>pl. Inr (withList m pl))"

definition peerListManagementFindPeerListNode ::
  "nat \<Rightarrow> u32 \<Rightarrow> TransportAddressBlock option \<Rightarrow> PeerListManagement \<Rightarrow> fault + nat option" where
  "peerListManagementFindPeerListNode gl registrarIdentifier transportAddressBlock m =
     peerListFindPeerListNode gl registrarIdentifier transportAddressBlock (plm_List m)"

definition peerListManagementGetRandomPeerListNode :: "u64 \<Rightarrow> PeerListManagement \<Rightarrow> nat option" where
  "peerListManagementGetRandomPeerListNode value m = peerListGetRandomPeerListNode value (plm_List m)"

definition peerListManagementGetNextTimerTimeStamp :: "PeerListManagement \<Rightarrow> u64" where
  "peerListManagementGetNextTimerTimeStamp m =
     (case peerListGetFirstPeerListNodeFromTimerStorage (plm_List m) of
        Some p \<Rightarrow> pln_TimerTimeStamp (peerAt (plm_List m) p)
      | None \<Rightarrow> 0xffffffffffffffff)"

section \<open>Deregistration\<close>

definition peerListManagementDeregisterPeerListNodeByPtr ::
  "nat \<Rightarrow> PeerListManagement \<Rightarrow> fault + (u16 \<times> PeerListManagement)" where
  "peerListManagementDeregisterPeerListNodeByPtr p m =
     bindR (if timerLinked (plm_List m) p then peerListDeactivateTimer p (plm_List m) else Inr (plm_List m)) (\<lambda>pl.
     if pln_Flags (peerAt pl p) AND PLNF_DYNAMIC = 0 \<and>
        pln_Identifier (peerAt pl p) \<noteq> UNDEFINED_REGISTRAR_IDENTIFIER
     then bindR (peerListRemovePeerListNode p pl) (\<lambda>pl1.
          bindR (peerListNodeDelete p pl1) (\<lambda>pl2.
          let pl3 = setPeer p (\<lambda>n. peerListNodeNew 0 (pln_Flags n) (pln_AddressBlock n)) pl2;
              (errorCode, _, pl4) = peerListAddPeerListNode p pl3
          in CHECK (errorCode = RSPERR_OKAY) (\<lambda>_. Inr (RSPERR_OKAY, withList m pl4))))
     else bindR (peerListRemovePeerListNode p pl) (\<lambda>pl1.
          bindR (peerListNodeDelete p pl1) (\<lambda>pl2.
          Inr (RSPERR_OKAY, withList m (peerListManagementPeerListNodeDisposer p pl2)))))"

definition peerListManagementDeregisterPeerListNode ::
  "nat \<Rightarrow> u32 \<Rightarrow> TransportAddressBlock option \<Rightarrow> PeerListManagement \<Rightarrow> fault + (u16 \<times> PeerListManagement)" where
  "peerListManagementDeregisterPeerListNode gl registrarIdentifier transportAddressBlock m =
     bindR (peerListFindPeerListNode gl registrarIdentifier transportAddressBlock (plm_List m)) (\<lambda>r. case r of
       Some p \<Rightarrow> peerListManagementDeregisterPeerListNodeByPtr p m
     | None \<Rightarrow> Inr (RSPERR_NOT_FOUND, m))"

section \<open>Registration\<close>

text \<open>
  \<^verbatim>\<open>if(peerListManagement->Handlespace) { (*peerListNode)->OwnershipChecksum = ...; }\<close>
\<close>

definition refreshChecksum :: "PoolHandlespaceNode option \<Rightarrow> nat \<Rightarrow> PeerList \<Rightarrow> fault + PeerList" where
  "refreshChecksum handlespace p pl =
     (case handlespace of
        None \<Rightarrow> Inr pl
      | Some hs \<Rightarrow>
          bindR (poolHandlespaceNodeComputeOwnershipChecksum hs (pln_Identifier (peerAt pl p))) (\<lambda>checksum.
          Inr (setPeer p (\<lambda>n. n\<lparr>pln_OwnershipChecksum := checksum\<rparr>) pl)))"

text \<open>
  The result is the error code, what was stored through the parameter \<open>peerListNode\<close> (\<open>None\<close>:
  nothing, \<open>Some None\<close>: \<open>NULL\<close>) and the management.

  \<open>updateStaticPeer\<close> is the branch for the static entry \<open>p\<close> of the registrar.
\<close>

definition updateStaticPeer ::
  "PoolHandlespaceNode option \<Rightarrow> u32 \<Rightarrow> nat \<Rightarrow> PeerListManagement
     \<Rightarrow> fault + (u16 \<times> nat option option \<times> PeerListManagement)" where
  "updateStaticPeer handlespace registrarIdentifier p m =
     (let pl = plm_List m;
          newPeer = (pln_Identifier (peerAt pl p) = UNDEFINED_REGISTRAR_IDENTIFIER);
          updatedPeerListNode = peerListNodeNew registrarIdentifier (pln_Flags (peerAt pl p))
                                  (pln_AddressBlock (peerAt pl p))
      in bindR (peerListUpdatePeerListNode p updatedPeerListNode pl) (\<lambda>(errorCode, pl1).
         let pl2 = (if newPeer then setPeer p (\<lambda>n. n\<lparr>pln_Flags := pln_Flags n OR PLNF_NEW\<rparr>) pl1 else pl1) in
         bindR (refreshChecksum handlespace p pl2) (\<lambda>pl3.
         Inr (errorCode, Some (Some p), withList m pl3))))"

definition createOrUpdatePeer ::
  "PoolHandlespaceNode option \<Rightarrow> u32 \<Rightarrow> u32 \<Rightarrow> TransportAddressBlock option \<Rightarrow> u64 \<Rightarrow> nat option option
     \<Rightarrow> PeerListManagement \<Rightarrow> fault + (u16 \<times> nat option option \<times> PeerListManagement)" where
  "createOrUpdatePeer handlespace registrarIdentifier flags transportAddressBlock currentTimeStamp out m =
     (if plm_NewPeerListNode m = None \<and> \<not> plm_Memory m then Inr (RSPERR_OUT_OF_MEMORY, out, m)
      else
        let m1 = (if plm_NewPeerListNode m = None
                  then m\<lparr>plm_NewPeerListNode := Some (plm_Break m), plm_Break := plm_Break m + 1\<rparr> else m);
            new = the (plm_NewPeerListNode m1);
            pl0 = plm_List m1;
            pl1 = pl0\<lparr>pl_Nodes := (pl_Nodes pl0)(new \<mapsto>
                     peerListNodeNew registrarIdentifier flags transportAddressBlock)\<rparr>
        in bindR (peerListAddOrUpdatePeerListNode new pl1) (\<lambda>(errorCode, r, linked, pl2).
           let m2 = (withList m1 pl2)\<lparr>plm_NewPeerListNode := (if linked then None else Some new)\<rparr> in
           if errorCode \<noteq> RSPERR_OKAY then Inr (errorCode, Some r, m2)
           else
             let p = the r;
                 pl3 = setPeer p (\<lambda>n. n\<lparr>pln_LastUpdateTimeStamp := currentTimeStamp\<rparr>) pl2
             in (case transportAddressBlockDuplicate (plm_Memory m2) transportAddressBlock of
                   Some userTransport \<Rightarrow>
                     bindR (refreshChecksum handlespace p
                              (setPeer p (\<lambda>n. n\<lparr>pln_AddressBlock := Some userTransport\<rparr>) pl3)) (\<lambda>pl4.
                     Inr (errorCode, Some (Some p), withList m2 pl4))
                 | None \<Rightarrow>
                     bindR (peerListManagementDeregisterPeerListNodeByPtr p (withList m2 pl3)) (\<lambda>(_, m3).
                     Inr (RSPERR_OUT_OF_MEMORY, Some None, m3)))))"

definition peerListManagementRegisterPeerListNode ::
  "nat \<Rightarrow> PoolHandlespaceNode option \<Rightarrow> u32 \<Rightarrow> u32 \<Rightarrow> TransportAddressBlock option \<Rightarrow> u64
     \<Rightarrow> PeerListManagement \<Rightarrow> fault + (u16 \<times> nat option option \<times> PeerListManagement)" where
  "peerListManagementRegisterPeerListNode gl handlespace registrarIdentifier flags transportAddressBlock currentTimeStamp m =
     (if flags AND PLNF_DYNAMIC \<noteq> 0 then
        if registrarIdentifier = UNDEFINED_REGISTRAR_IDENTIFIER then Inr (RSPERR_INVALID_ID, None, m)
        else
          bindR (peerListManagementFindPeerListNode gl registrarIdentifier None m) (\<lambda>r1.
          bindR (case r1 of
                   Some p \<Rightarrow> Inr (Some p)
                 | None \<Rightarrow> peerListManagementFindPeerListNode gl UNDEFINED_REGISTRAR_IDENTIFIER transportAddressBlock m) (\<lambda>r2.
          case r2 of
            Some p \<Rightarrow>
              if pln_Flags (peerAt (plm_List m) p) AND PLNF_DYNAMIC = 0
              then updateStaticPeer handlespace registrarIdentifier p m
              else createOrUpdatePeer handlespace registrarIdentifier flags transportAddressBlock currentTimeStamp (Some r2) m
          | None \<Rightarrow> createOrUpdatePeer handlespace registrarIdentifier flags transportAddressBlock currentTimeStamp (Some r2) m))
      else if registrarIdentifier \<noteq> UNDEFINED_REGISTRAR_IDENTIFIER then Inr (RSPERR_INVALID_ID, None, m)
      else createOrUpdatePeer handlespace registrarIdentifier flags transportAddressBlock currentTimeStamp None m)"

section \<open>Timers\<close>

definition peerListManagementRestartPeerListNodeExpiryTimer ::
  "nat \<Rightarrow> u64 \<Rightarrow> PeerListManagement \<Rightarrow> fault + PeerListManagement" where
  "peerListManagementRestartPeerListNodeExpiryTimer p expiryTimeout m =
     bindR (peerListDeactivateTimer p (plm_List m)) (\<lambda>pl.
     bindR (peerListActivateTimer p PLNT_MAX_TIME_NO_RESPONSE
              (pln_LastUpdateTimeStamp (peerAt pl p) + expiryTimeout) pl) (\<lambda>pl1.
     Inr (withList m pl1)))"

text \<open>The loop has as many rounds as there are timers.\<close>

primrec purgeExpiredPeers ::
  "nat \<Rightarrow> u64 \<Rightarrow> nat option \<Rightarrow> nat \<Rightarrow> PeerListManagement \<Rightarrow> fault + (nat \<times> PeerListManagement)" where
  "purgeExpiredPeers 0 currentTimeStamp current purged m =
     (if current = None then Inr (purged, m) else Inl NoFuel)"
| "purgeExpiredPeers (Suc k) currentTimeStamp current purged m =
     (case current of
        None \<Rightarrow> Inr (purged, m)
      | Some p \<Rightarrow>
          let next1 = peerListGetNextPeerListNodeFromTimerStorage (plm_List m) p in
          CHECK (pln_TimerCode (peerAt (plm_List m) p) = PLNT_MAX_TIME_NO_RESPONSE) (\<lambda>_.
          CHECK (timerLinked (plm_List m) p) (\<lambda>_.
          if pln_TimerTimeStamp (peerAt (plm_List m) p) \<le> currentTimeStamp
          then bindR (peerListManagementDeregisterPeerListNodeByPtr p m) (\<lambda>(_, m1).
               purgeExpiredPeers k currentTimeStamp next1 (purged + 1) m1)
          else Inr (purged, m))))"

definition peerListManagementPurgeExpiredPeerListNodes ::
  "u64 \<Rightarrow> PeerListManagement \<Rightarrow> fault + (nat \<times> PeerListManagement)" where
  "peerListManagementPurgeExpiredPeerListNodes currentTimeStamp m =
     purgeExpiredPeers (RedBlackTreeGetElements (pl_Timer (plm_List m))) currentTimeStamp
       (peerListGetFirstPeerListNodeFromTimerStorage (plm_List m)) 0 m"

section \<open>Ownership checksums\<close>

text \<open>The peer of an identifier, whose checksum is changed if there is one.\<close>

definition adjustChecksum ::
  "nat \<Rightarrow> u32 \<Rightarrow> (u32 \<Rightarrow> u32) \<Rightarrow> PeerListManagement \<Rightarrow> fault + PeerListManagement" where
  "adjustChecksum gl registrarIdentifier f m =
     bindR (peerListManagementFindPeerListNode gl registrarIdentifier None m) (\<lambda>r. case r of
       None \<Rightarrow> Inr m
     | Some p \<Rightarrow> Inr (withList m (setPeer p (\<lambda>n. n\<lparr>pln_OwnershipChecksum := f (pln_OwnershipChecksum n)\<rparr>) (plm_List m))))"

definition peerListManagementPoolNodeUpdateNotification ::
  "nat \<Rightarrow> Notification \<Rightarrow> PeerListManagement \<Rightarrow> fault + PeerListManagement" where
  "peerListManagementPoolNodeUpdateNotification gl nt m =
     (let poolElementNode = nt_PoolElementNode nt;
          homeRegistrarIdentifier = pen_HomeRegistrarIdentifier poolElementNode
      in case nt_Action nt of
           PNUA_Create \<Rightarrow>
             adjustChecksum gl homeRegistrarIdentifier (\<lambda>c. handlespaceChecksumAdd c (pen_Checksum poolElementNode)) m
         | PNUA_Delete \<Rightarrow>
             adjustChecksum gl homeRegistrarIdentifier (\<lambda>c. handlespaceChecksumSub c (pen_Checksum poolElementNode)) m
         | PNUA_Update \<Rightarrow>
             bindR (adjustChecksum gl (nt_PreUpdateHomeRegistrar nt)
                      (\<lambda>c. handlespaceChecksumSub c (nt_PreUpdateChecksum nt)) m) (\<lambda>m1.
             adjustChecksum gl homeRegistrarIdentifier (\<lambda>c. handlespaceChecksumAdd c (pen_Checksum poolElementNode)) m1))"

text \<open>The loop over the peers that compares the checksums.\<close>

fun verifyChecksums :: "PoolHandlespaceNode \<Rightarrow> PeerList \<Rightarrow> nat list \<Rightarrow> fault + unit" where
  "verifyChecksums hs pl [] = Inr ()"
| "verifyChecksums hs pl (p # ps) =
     (if pln_Identifier (peerAt pl p) \<noteq> UNDEFINED_REGISTRAR_IDENTIFIER
      then bindR (poolHandlespaceNodeComputeOwnershipChecksum hs (pln_Identifier (peerAt pl p))) (\<lambda>checksum.
           CHECK (pln_OwnershipChecksum (peerAt pl p) = checksum) (\<lambda>_. verifyChecksums hs pl ps))
      else verifyChecksums hs pl ps)"

definition peerListManagementVerifyChecksumsInHandlespace ::
  "PoolHandlespaceNode \<Rightarrow> PeerListManagement \<Rightarrow> fault + unit" where
  "peerListManagementVerifyChecksumsInHandlespace hs m =
     verifyChecksums hs (plm_List m) (peersByIndex (plm_List m))"

section \<open>The best peer of a pool element\<close>

fun bestPeer :: "PeerList \<Rightarrow> u32 \<Rightarrow> nat option \<Rightarrow> u32 \<Rightarrow> nat list \<Rightarrow> nat option" where
  "bestPeer pl peIdentifier best bestMetric [] = best"
| "bestPeer pl peIdentifier best bestMetric (p # ps) =
     (let metric = pln_Identifier (peerAt pl p) XOR peIdentifier in
      if pln_Identifier (peerAt pl p) \<noteq> UNDEFINED_REGISTRAR_IDENTIFIER \<and> metric > bestMetric
      then bestPeer pl peIdentifier (Some p) metric ps
      else bestPeer pl peIdentifier best bestMetric ps)"

definition peerListManagementGetUsefulPeerForPE :: "u32 \<Rightarrow> PeerListManagement \<Rightarrow> nat option" where
  "peerListManagementGetUsefulPeerForPE peIdentifier m =
     bestPeer (plm_List m) peIdentifier None (pl_OwnIdentifier (plm_List m) XOR peIdentifier)
       (peersByIndex (plm_List m))"

section \<open>Takeover processes\<close>

text \<open>The peers that have to acknowledge the takeover of \<open>targetID\<close>; \<open>None\<close> when there is no memory.\<close>

definition takeoverProcessNew :: "u32 \<Rightarrow> PeerListManagement \<Rightarrow> fault + TakeoverProcess option" where
  "takeoverProcessNew targetID m =
     CHECK (targetID \<noteq> 0) (\<lambda>_.
     CHECK (targetID \<noteq> pl_OwnIdentifier (plm_List m)) (\<lambda>_.
     if plm_Memory m
     then let ids = filter (\<lambda>i. i \<noteq> targetID \<and> i \<noteq> pl_OwnIdentifier (plm_List m) \<and> i \<noteq> 0)
                      (map (\<lambda>p. pln_Identifier (peerAt (plm_List m) p)) (peersByIndex (plm_List m)))
          in Inr (Some \<lparr>tp_OutstandingAcks = length ids, tp_PeerIDArray = ids\<rparr>)
     else Inr None))"

definition takeoverProcessGetOutstandingAcks :: "TakeoverProcess \<Rightarrow> nat" where
  "takeoverProcessGetOutstandingAcks tp = tp_OutstandingAcks tp"

text \<open>
  The outer loop looks for the acknowledger; the inner loop moves the entries behind it forward
  and leaves the index at the end of the array, which ends the outer loop too.
\<close>

function acknowledgedAt :: "u32 \<Rightarrow> nat \<Rightarrow> nat \<Rightarrow> u32 list \<Rightarrow> nat option" where
  "acknowledgedAt a i n ids =
     (if i < n then if ids ! i = a then Some i else acknowledgedAt a (Suc i) n ids else None)"
  by pat_completeness auto

termination acknowledgedAt
  by (relation "measure (\<lambda>(a, i, n, ids). n - i)") auto

function moveForward :: "nat \<Rightarrow> nat \<Rightarrow> u32 list \<Rightarrow> u32 list" where
  "moveForward i n ids = (if Suc i < n then moveForward (Suc i) n (ids[i := ids ! Suc i]) else ids)"
  by pat_completeness auto

termination moveForward
  by (relation "measure (\<lambda>(i, n, ids). n - i)") auto

declare acknowledgedAt.simps [simp del] moveForward.simps [simp del]

definition takeoverProcessAcknowledge :: "u32 \<Rightarrow> u32 \<Rightarrow> TakeoverProcess \<Rightarrow> nat \<times> TakeoverProcess" where
  "takeoverProcessAcknowledge targetID acknowledgerID tp =
     (let n = tp_OutstandingAcks tp in
      case acknowledgedAt acknowledgerID 0 n (tp_PeerIDArray tp) of
        None \<Rightarrow> (n, tp)
      | Some i \<Rightarrow> (n - 1, \<lparr>tp_OutstandingAcks = n - 1, tp_PeerIDArray = moveForward i n (tp_PeerIDArray tp)\<rparr>))"

end
