(* ===== verification/RSP_Packet.thy ===== *)
theory RSP_Packet
  imports RSP_Creator RSP_Parser RSP_Management RSP_PeerManagement
begin

text \<open>
  Whole packets: the messages that carry a peer list or a handle table, the dispatch on the
  message type (\<open>scanMessage\<close>, \<open>rserpoolMessage2Packet\<close>) and the conversion of packets to
  messages (rserpoolmessagecreator.c, rserpoolmessageparser.c).

  \<open>message->HandlespacePtr\<close> and \<open>message->PeerListPtr\<close> are kept beside the message; the
  extract a handle table response continues, \<open>PeerListNodePtr->UserData\<close>, is an argument and a
  result.
\<close>

record MessageTables =
  HandlespacePtr :: "PoolHandlespaceManagement option"
  PeerListPtr :: "PeerListManagement option"

definition noTables :: MessageTables where
  "noTables = \<lparr>HandlespacePtr = None, PeerListPtr = None\<rparr>"

abbreviation (input) "EHF_LIST_RESPONSE_REJECT \<equiv> (1 :: byte)"
abbreviation (input) "EHF_HANDLE_TABLE_RESPONSE_REJECT \<equiv> (1 :: byte)"
abbreviation (input) "EHF_HANDLE_TABLE_RESPONSE_MORE_TO_SEND \<equiv> (2 :: byte)"

section \<open>Creating list and handle table responses\<close>

text \<open>As many peers as fit: the bytes of the first that does not are given up.\<close>

fun createListPeers :: "PeerListNode list \<Rightarrow> unit cfun" where
  "createListPeers [] = returnC ()"
| "createListPeers (n # ns) = (\<lambda>m.
     bindC (createServerInformationParameter (Some n)) (\<lambda>ok m1.
       if ok then createListPeers ns m1 else Inr ((), m1\<lparr>Position := Position m\<rparr>)) m)"

definition createListResponseMessage :: "PeerListManagement option \<Rightarrow> bool cfun" where
  "createListResponseMessage peerList m =
     (case peerList of
        None \<Rightarrow> LOG_END_FATAL (gLogLevel m) (\<lambda>_. Inr (False, m))
      | Some plm \<Rightarrow>
          stmts
            [beginMessage EHT_LIST_RESPONSE (Flags m AND EHF_LIST_RESPONSE_REJECT) PPID_ENRP,
             putServerParameter,
             bindC (createListPeers (map (peerAt (plm_List plm)) (peersByIndex (plm_List plm)))) (\<lambda>_. returnC True),
             finishMessage] m)"

text \<open>
  The loop over the pool elements of an extract: \<open>i\<close> is the loop counter, \<open>lastHandle\<close> the pool
  whose handle was sent last. The result is \<open>None\<close> where the source returns false, or the
  counter, the extract and whether more has to be sent.
\<close>

fun createTableElements ::
  "PoolHandlespaceNode \<Rightarrow> nat \<Rightarrow> handleName option \<Rightarrow> nat \<Rightarrow> HandleTableExtract \<Rightarrow> peName list \<Rightarrow>
     (nat \<times> HandleTableExtract \<times> bool) option cfun" where
  "createTableElements hs i lastHandle oldPosition hte [] = returnC (Some (i, hte, False))"
| "createTableElements hs i lastHandle oldPosition hte (p # ps) = (\<lambda>m.
     bindC (if lastHandle \<noteq> Some (fst p)
            then bindC (createPoolHandleParameter (Some (pn_Handle (poolAt hs (fst p))))) (\<lambda>ok. returnC (ok, Position m))
            else returnC (True, oldPosition)) (\<lambda>(handleOk, position1).
     if \<not> handleOk
     then if i < 1 then returnC None else (\<lambda>m1. Inr (Some (i, hte, True), m1\<lparr>Position := position1\<rparr>))
     else (\<lambda>m1.
       CHECK (pen_RegistratorTransport (elementAt hs p) \<noteq> None) (\<lambda>_.
       bindC (createPoolElementParameter (Some (elementAt hs p)) True) (\<lambda>ok m2.
         if \<not> ok
         then if i < 1 then Inr (None, m2) else Inr (Some (i, hte, True), m2\<lparr>Position := position1\<rparr>)
         else createTableElements hs (i + 1) (Some (fst p)) (Position m2)
                (hte\<lparr>hte_LastPoolHandle := pn_Handle (poolAt hs (fst p)), hte_LastPoolElementIdentifier := snd p\<rparr>)
                ps m2) m1))) m)"

definition newExtract :: HandleTableExtract where
  "newExtract = \<lparr>hte_LastPoolHandle = \<lparr>ph_Size = 0, ph_Handle = replicate MAX_POOLHANDLESIZE 0\<rparr>,
     hte_LastPoolElementIdentifier = 0, hte_PoolElementNodeArray = []\<rparr>"

text \<open>\<^verbatim>\<open>header->ah_flags |= EHF_HANDLE_TABLE_RESPONSE_MORE_TO_SEND\<close> for the header at \<open>start\<close>.\<close>

definition setMoreToSend :: "nat \<Rightarrow> byte \<Rightarrow> bool cfun" where
  "setMoreToSend start flags m =
     bindR (writeBytes (start + 1) [flags OR EHF_HANDLE_TABLE_RESPONSE_MORE_TO_SEND] m) (\<lambda>m1. Inr (True, m1))"

definition createTable ::
  "nat \<Rightarrow> byte \<Rightarrow> PoolHandlespaceManagement \<Rightarrow> nat \<Rightarrow> HandleTableExtract option \<Rightarrow> (bool \<times> HandleTableExtract option) cfun" where
  "createTable start ahFlags hsm maxElements userData m =
     (if userData = None \<and> \<not> gMemory m then Inr ((False, None), m)
      else
        let flags = (if Action m AND 1 \<noteq> 0 then HTEF_OWNCHILDSONLY else 0) OR (if userData = None then HTEF_START else 0);
            hte0 = (case userData of None \<Rightarrow> newExtract | Some x \<Rightarrow> x)
        in bindR (poolHandlespaceManagementGetHandleTable hsm (hsn_HomeRegistrarIdentifier (hsm_Handlespace hsm)) hte0 flags
                    maxElements) (\<lambda>(result, hte).
           if \<not> result then bindC finishMessage (\<lambda>ok. returnC (ok, None)) m
           else
             bindC (createTableElements (hsm_Handlespace hsm) 0 None (Position m) hte (hte_PoolElementNodeArray hte)) (\<lambda>r.
               case r of
                 None \<Rightarrow> returnC (False, Some hte)
               | Some (i, hte1, stopped) \<Rightarrow>
                   let elements = length (hte_PoolElementNodeArray hte1);
                       moreToSend = (stopped \<or> elements = min maxElements NTE_MAX_POOL_ELEMENT_NODES \<or> i \<noteq> elements)
                   in bindC (if moreToSend then setMoreToSend start ahFlags else returnC True) (\<lambda>_.
                      bindC finishMessage (\<lambda>ok. returnC (ok, if moreToSend then Some hte1 else None)))) m))"

definition createHandleTableResponseMessage ::
  "PoolHandlespaceManagement option \<Rightarrow> nat \<Rightarrow> HandleTableExtract option \<Rightarrow> (bool \<times> HandleTableExtract option) cfun" where
  "createHandleTableResponseMessage handlespace maxElements userData m =
     (let ahFlags = Flags m AND EHF_HANDLE_TABLE_RESPONSE_REJECT in
      bindC (stmts [beginMessage EHT_HANDLE_TABLE_RESPONSE ahFlags PPID_ENRP, putServerParameter]) (\<lambda>ok.
        if \<not> ok then returnC (False, userData)
        else (\<lambda>m1.
          if PeerListNodePtr m1 = None then bindC finishMessage (\<lambda>ok. returnC (ok, userData)) m1
          else case handlespace of
                 None \<Rightarrow> Inl NullAccess
               | Some hsm \<Rightarrow> createTable (Position m) ahFlags hsm maxElements userData m1)) m)"

section \<open>Scanning list and handle table responses\<close>

text \<open>The loop ends since every server information parameter that is read takes some bytes.\<close>

primrec scanListPeers :: "nat \<Rightarrow> PeerListManagement option \<Rightarrow> (bool \<times> PeerListManagement option) cfun" where
  "scanListPeers 0 = (\<lambda>peerList m. Inl NoFuel)"
| "scanListPeers (Suc fuel) = (\<lambda>peerList m.
     if Position m < BufferSize m then
       bindC scanServerInformationParameter (\<lambda>node. case node of
           None \<Rightarrow> returnC (True, peerList)
         | Some peerListNode \<Rightarrow> (\<lambda>m1.
             if peerList = None \<and> \<not> gMemory m1 then failWith RSPERR_OUT_OF_MEMORY (False, None) m1
             else
               let plm = (case peerList of None \<Rightarrow> peerListManagementNew (gMemory m1) 0 | Some plm \<Rightarrow> plm);
                   flags = pln_Flags peerListNode OR PLNF_FROM_PEER;
                   flags1 = (if pln_Identifier peerListNode \<noteq> UNDEFINED_REGISTRAR_IDENTIFIER then flags OR PLNF_DYNAMIC else flags)
               in bindR (peerListManagementRegisterPeerListNode (gLogLevel m1) None (pln_Identifier peerListNode) flags1
                           (pln_AddressBlock peerListNode) 0 plm) (\<lambda>(errorCode, _, plm1).
                  if errorCode \<noteq> RSPERR_OKAY then failWith errorCode (False, Some plm1) m1
                  else scanListPeers fuel (Some plm1) m1))) m
     else Inr ((True, peerList), m))"

definition scanListResponseMessage :: "(bool \<times> PeerListManagement option) cfun" where
  "scanListResponseMessage =
     bindC scanServerParameter (\<lambda>ok.
       if \<not> ok then returnC (False, None)
       else (\<lambda>m. if Flags m AND EHF_LIST_RESPONSE_REJECT = 0 then scanListPeers (Suc (BufferSize m)) None m
                 else Inr ((True, None), m)))"

text \<open>
  The inner loop over the pool elements of a pool. The result is false where the source returns
  false, the number of pool elements and the handlespace.
\<close>

primrec scanTableElements ::
  "nat \<Rightarrow> nat \<Rightarrow> PoolHandlespaceManagement \<Rightarrow> (bool \<times> nat \<times> PoolHandlespaceManagement) cfun" where
  "scanTableElements 0 = (\<lambda>count hsm m. Inl NoFuel)"
| "scanTableElements (Suc fuel) = (\<lambda>count hsm m.
     if Error m = RSPERR_OKAY then
       bindC peekNextTLVType (\<lambda>type.
       if type \<noteq> ATT_POOL_ELEMENT then returnC (True, count, hsm)
       else bindC (scanPoolElementParameter True True) (\<lambda>pe. case pe of
           None \<Rightarrow> returnC (True, count, hsm)
         | Some n \<Rightarrow>
             if pen_RegistratorTransport n = None then failWith RSPERR_INVALID_REGISTRATOR (False, count, hsm)
             else (\<lambda>m1.
               bindR (poolHandlespaceManagementRegisterPoolElement (Handle m1) (pen_HomeRegistrarIdentifier n)
                        (pen_Identifier n) (pen_RegistrationLife n) (pen_PolicySettings n) (pen_UserTransport n)
                        (pen_RegistratorTransport n) (-1) 0 0 hsm) (\<lambda>(errorCode, _, hsm1).
               if errorCode \<noteq> RSPERR_OKAY then failWith errorCode (False, count + 1, hsm1) m1
               else scanTableElements fuel (count + 1) hsm1 (m1\<lparr>Error := RSPERR_OKAY\<rparr>))))) m
     else Inr ((True, count, hsm), m))"

primrec scanTablePools :: "nat \<Rightarrow> PoolHandlespaceManagement \<Rightarrow> (bool \<times> PoolHandlespaceManagement) cfun" where
  "scanTablePools 0 = (\<lambda>hsm m. Inl NoFuel)"
| "scanTablePools (Suc fuel) = (\<lambda>hsm m.
     if Error m = RSPERR_OKAY then
       bindC peekNextTLVType (\<lambda>type.
       if type \<noteq> ATT_POOL_HANDLE then returnC (True, hsm)
       else bindC scanPoolHandleParameter (\<lambda>ok.
         if \<not> ok then returnC (True, hsm)
         else bindC (\<lambda>m1. scanTableElements (Suc (BufferSize m1)) 0 hsm m1) (\<lambda>(continue, count, hsm1).
           if \<not> continue then returnC (False, hsm1)
           else (\<lambda>m2.
             if Error m2 \<noteq> RSPERR_OKAY then Inr ((False, hsm1), m2)
             else if count = 0 then failWith RSPERR_INVALID_VALUE (False, hsm1) m2
             else scanTablePools fuel hsm1 m2)))) m
     else Inr ((True, hsm), m))"

definition scanHandleTableResponseMessage :: "(bool \<times> PoolHandlespaceManagement option) cfun" where
  "scanHandleTableResponseMessage =
     bindC scanServerParameter (\<lambda>ok.
       if \<not> ok then returnC (False, None)
       else (\<lambda>m.
         if Flags m AND EHF_HANDLE_TABLE_RESPONSE_REJECT = 0 then
           if \<not> gMemory m then failWith RSPERR_OUT_OF_MEMORY (False, None) m
           else bindC (\<lambda>m1. scanTablePools (Suc (BufferSize m1)) (poolHandlespaceManagementNew (gMemory m1) 0) m1)
                  (\<lambda>(ok, hsm). returnC (ok, Some hsm)) m
         else Inr ((True, None), m)))"

section \<open>Dispatch\<close>

definition plainScan :: "bool cfun \<Rightarrow> (bool \<times> MessageTables) cfun" where
  "plainScan f = bindC f (\<lambda>ok. returnC (ok, noTables))"

definition scanContents :: "u32 \<Rightarrow> (bool \<times> MessageTables) cfun" where
  "scanContents type =
     (if type = AHT_HANDLE_RESOLUTION then plainScan scanHandleResolutionMessage
      else if type = AHT_HANDLE_RESOLUTION_RESPONSE then plainScan scanHandleResolutionResponseMessage
      else if type = AHT_ENDPOINT_KEEP_ALIVE then plainScan scanEndpointKeepAliveMessage
      else if type = AHT_ENDPOINT_KEEP_ALIVE_ACK then plainScan scanEndpointKeepAliveAckMessage
      else if type = AHT_SERVER_ANNOUNCE then plainScan scanServerAnnounceMessage
      else if type = AHT_COOKIE then plainScan scanCookieMessage
      else if type = AHT_COOKIE_ECHO then plainScan scanCookieEchoMessage
      else if type = AHT_BUSINESS_CARD then plainScan scanBusinessCardMessage
      else if type = AHT_ENDPOINT_UNREACHABLE then plainScan scanEndpointUnreachableMessage
      else if type = AHT_REGISTRATION then plainScan scanRegistrationMessage
      else if type = AHT_DEREGISTRATION then plainScan scanDeregistrationMessage
      else if type = AHT_REGISTRATION_RESPONSE then plainScan scanRegistrationResponseMessage
      else if type = AHT_DEREGISTRATION_RESPONSE then plainScan scanDeregistrationResponseMessage
      else if type = AHT_ERROR then plainScan scanASAPErrorMessage
      else if type = EHT_PRESENCE then plainScan scanPresenceMessage
      else if type = EHT_HANDLE_TABLE_REQUEST then plainScan scanHandleTableRequestMessage
      else if type = EHT_HANDLE_TABLE_RESPONSE
      then bindC scanHandleTableResponseMessage (\<lambda>(ok, hsm). returnC (ok, noTables\<lparr>HandlespacePtr := hsm\<rparr>))
      else if type = EHT_HANDLE_UPDATE then plainScan scanHandleUpdateMessage
      else if type = EHT_LIST_REQUEST then plainScan scanListRequestMessage
      else if type = EHT_LIST_RESPONSE
      then bindC scanListResponseMessage (\<lambda>(ok, plm). returnC (ok, noTables\<lparr>PeerListPtr := plm\<rparr>))
      else if type = EHT_INIT_TAKEOVER then plainScan scanInitTakeoverMessage
      else if type = EHT_INIT_TAKEOVER_ACK then plainScan scanInitTakeoverAckMessage
      else if type = EHT_TAKEOVER_SERVER then plainScan scanTakeoverServerMessage
      else if type = EHT_ERROR then plainScan scanENRPErrorMessage
      else returnC (False, noTables))"

text \<open>The type of a message from the first byte of its header.\<close>

definition typeOf :: "u32 \<Rightarrow> byte \<Rightarrow> u32 option" where
  "typeOf ppid t =
     (if ppid = PPID_ASAP then Some (ucast t OR AHT_ASAP_MODIFIER)
      else if ppid = PPID_ENRP then Some (ucast t OR EHT_ENRP_MODIFIER)
      else None)"

definition scanMessage :: "(bool \<times> MessageTables) cfun" where
  "scanMessage =
     bindC checkBeginMessage (\<lambda>(len, startPosition).
     if len < 4 then returnC (False, noTables)
     else bindC (loadAt startPosition 4) (\<lambda>header m.
       case typeOf (PPID m) (header ! 0) of
         None \<Rightarrow> Inr ((False, noTables), m\<lparr>Type := ucast (header ! 0)\<rparr>)
       | Some type \<Rightarrow>
           bindC (scanContents type) (\<lambda>(ok, tables).
             if \<not> ok then returnC (False, tables)
             else bindC (checkFinishMessage startPosition) (\<lambda>finished. returnC (finished, tables)))
             (m\<lparr>Type := type\<rparr>)))"

definition rserpoolPacket2Message ::
  "nat \<Rightarrow> bool \<Rightarrow> byte list \<Rightarrow> sockaddr_union option \<Rightarrow> u32 \<Rightarrow> u32 \<Rightarrow> nat \<Rightarrow> nat \<Rightarrow>
     fault + (u16 \<times> (RSerPoolMessage \<times> MessageTables) option)" where
  "rserpoolPacket2Message logLevel mem packet sourceAddress assocID ppid packetSize minBufferSize =
     (if \<not> mem then Inr (RSPERR_OUT_OF_MEMORY, None)
      else
        let m = (rserpoolMessageNew logLevel mem packet packetSize)
                  \<lparr>SourceAddress := (case sourceAddress of None \<Rightarrow> SA_other AF_UNSPEC | Some a \<Rightarrow> a),
                   AssocID := assocID, PPID := ppid, OriginalBufferSize := max packetSize minBufferSize, Position := 0\<rparr>
        in bindR (scanMessage m) (\<lambda>((ok, tables), m1).
             Inr (RSPERR_OKAY, Some (if ok then m1\<lparr>Error := OperationErrorCode m1\<rparr> else m1, tables))))"

definition plainCreate :: "bool cfun \<Rightarrow> HandleTableExtract option \<Rightarrow> (bool \<times> HandleTableExtract option) cfun" where
  "plainCreate f userData = bindC f (\<lambda>ok. returnC (ok, userData))"

definition createContents ::
  "u32 \<Rightarrow> MessageTables \<Rightarrow> nat \<Rightarrow> HandleTableExtract option \<Rightarrow> (bool \<times> HandleTableExtract option) cfun" where
  "createContents type tables maxElements userData =
     (if type = AHT_HANDLE_RESOLUTION then plainCreate createHandleResolutionMessage userData
      else if type = AHT_HANDLE_RESOLUTION_RESPONSE then plainCreate createHandleResolutionResponseMessage userData
      else if type = AHT_ENDPOINT_KEEP_ALIVE then plainCreate createEndpointKeepAliveMessage userData
      else if type = AHT_ENDPOINT_KEEP_ALIVE_ACK then plainCreate createEndpointKeepAliveAckMessage userData
      else if type = AHT_SERVER_ANNOUNCE then plainCreate createServerAnnounceMessage userData
      else if type = AHT_COOKIE then plainCreate createCookieMessage userData
      else if type = AHT_COOKIE_ECHO then plainCreate createCookieEchoMessage userData
      else if type = AHT_BUSINESS_CARD then plainCreate createBusinessCardMessage userData
      else if type = AHT_ENDPOINT_UNREACHABLE then plainCreate createEndpointUnreachableMessage userData
      else if type = AHT_REGISTRATION then plainCreate createRegistrationMessage userData
      else if type = AHT_DEREGISTRATION then plainCreate createDeregistrationMessage userData
      else if type = AHT_REGISTRATION_RESPONSE then plainCreate createRegistrationResponseMessage userData
      else if type = AHT_DEREGISTRATION_RESPONSE then plainCreate createDeregistrationResponseMessage userData
      else if type = AHT_ERROR then plainCreate createASAPErrorMessage userData
      else if type = EHT_PRESENCE then plainCreate createPresenceMessage userData
      else if type = EHT_HANDLE_TABLE_REQUEST then plainCreate createHandleTableRequestMessage userData
      else if type = EHT_HANDLE_TABLE_RESPONSE then createHandleTableResponseMessage (HandlespacePtr tables) maxElements userData
      else if type = EHT_HANDLE_UPDATE then plainCreate createHandleUpdateMessage userData
      else if type = EHT_LIST_REQUEST then plainCreate createListRequestMessage userData
      else if type = EHT_LIST_RESPONSE then plainCreate (createListResponseMessage (PeerListPtr tables)) userData
      else if type = EHT_INIT_TAKEOVER then plainCreate createInitTakeoverMessage userData
      else if type = EHT_INIT_TAKEOVER_ACK then plainCreate createInitTakeoverAckMessage userData
      else if type = EHT_TAKEOVER_SERVER then plainCreate createTakeoverServerMessage userData
      else if type = EHT_ERROR then plainCreate createENRPErrorMessage userData
      else (\<lambda>m. LOG_END_FATAL (gLogLevel m) (\<lambda>_. Inr ((False, userData), m))))"

text \<open>The result is the size of the packet, 0 if it could not be created, and the extract.\<close>

definition rserpoolMessage2Packet ::
  "MessageTables \<Rightarrow> nat \<Rightarrow> HandleTableExtract option \<Rightarrow> (nat \<times> HandleTableExtract option) cfun" where
  "rserpoolMessage2Packet tables maxElements userData m =
     bindC (createContents (Type m) tables maxElements userData) (\<lambda>(ok, userData1) m1.
       if ok then Inr ((Position m1, userData1), m1)
       else LOG_END_FATAL (gLogLevel m1) (\<lambda>_. Inr ((0, userData1), m1)))
       (rserpoolMessageClearBuffer m)"

end
