(* ===== verification/RSP_KeyStorage.thy ===== *)
theory RSP_KeyStorage
  imports RSP_Management
begin

text \<open>
  Storages whose order tells all entries apart: the index storages of the pools and of the pool
  elements, and the storages by timer, owner and connection. Such a storage is a finite set of
  entries; inserting and removing act on the set, and the loops over the storage visit every entry
  once, in ascending order.
\<close>

definition keys :: "'e RedBlackTree \<Rightarrow> 'e set" where
  "keys t = fst ` set (contents t)"

lemma finite_keys [simp]: "finite (keys t)"
  by (simp add: keys_def)

lemma keys_new [simp]: "keys RedBlackTreeNew = {}"
  by (simp add: keys_def RedBlackTreeNew_wf)

text \<open>The loops visit the entries in ascending order.\<close>

context comparator
begin

lemma visit_from:
  assumes wf: "rbt_wf cmp t"
  shows "contents t = xs @ ys \<Longrightarrow> visitFrom cmp k t (firstOf ys) = take k (map fst ys)"
proof (induction k arbitrary: xs ys)
  case (Suc k)
  show ?case
  proof (cases ys)
    case (Cons e zs)
    have c: "contents t = xs @ (fst e, snd e) # zs" using Suc.prems Cons by simp
    show ?thesis using Suc.IH [of "xs @ [e]" zs] next_in_order [OF wf c] Suc.prems Cons by simp
  qed simp
qed simp

lemma visit_all: "rbt_wf cmp t \<Longrightarrow> visitAll cmp t = map fst (contents t)"
  using visit_from [of t "[]" "contents t" "RedBlackTreeGetElements t"]
  by (simp add: visitAll_def ends_ok RedBlackTreeGetElements_def rbt_wf_def)

end

locale key_storage = comparator cmp for cmp :: "'e \<Rightarrow> 'e \<Rightarrow> int" +
  assumes cmp_eq: "cmp a b = 0 \<Longrightarrow> a = b"
begin

lemma cmp_zero: "cmp a b = 0 \<longleftrightarrow> a = b"
  using cmp_eq cmp_refl by auto

lemma find_entry: "findEntry cmp k es = (if k \<in> fst ` set es then Some k else None)"
  by (rule findEntry_unique) (auto simp: cmp_zero)

lemma remove_entry: "removeEntry cmp k es = filter (\<lambda>e. fst e \<noteq> k) es"
  by (rule removeEntry_unique) (auto simp: cmp_zero)

lemma find_key: "rbt_wf cmp t \<Longrightarrow> RedBlackTreeFind cmp t k = (if k \<in> keys t then Some k else None)"
  by (simp add: find_ok find_entry keys_def)

lemma linked_key: "rbt_wf cmp t \<Longrightarrow> isLinked cmp t k \<longleftrightarrow> k \<in> keys t"
  by (simp add: isLinked_def find_key)

lemma insert_tree:
  assumes "rbt_wf cmp t" "k \<notin> keys t"
  shows "rbt_wf cmp (snd (RedBlackTreeInsert cmp t k v))" "keys (snd (RedBlackTreeInsert cmp t k v)) = Set.insert k (keys t)"
proof -
  show "rbt_wf cmp (snd (RedBlackTreeInsert cmp t k v))" by (rule rbt.insert_inv [OF assms(1)])
  have "set (insertEntry cmp k v (contents t)) = Set.insert (k, v) (set (contents t))"
    by (rule set_insertEntry) (use assms(2) in \<open>auto simp: cmp_zero keys_def\<close>)
  then show "keys (snd (RedBlackTreeInsert cmp t k v)) = Set.insert k (keys t)"
    using rbt.insert_items [OF assms(1), of k v] by (simp add: keys_def)
qed

lemma insert_key:
  assumes "rbt_wf cmp t" "k \<notin> keys t"
  shows "\<exists>t'. insertChecked cmp t k = Inr t' \<and> rbt_wf cmp t' \<and> keys t' = Set.insert k (keys t)"
  using assms insert_tree [OF assms, of 0] by (auto simp: insertChecked_def linked_key)

lemma remove_tree:
  assumes "rbt_wf cmp t" "k \<in> keys t"
  shows "\<exists>t'. RedBlackTreeRemove cmp t k = Inr t' \<and> rbt_wf cmp t' \<and> keys t' = keys t - {k} \<and>
    contents t' = filter (\<lambda>e. fst e \<noteq> k) (contents t)"
proof -
  have "findEntry cmp k (contents t) \<noteq> None" using assms(2) by (simp add: find_entry keys_def)
  from remove_ok [OF assms(1) this] show ?thesis by (auto simp: remove_entry keys_def)
qed

lemma remove_key:
  assumes "rbt_wf cmp t"
  shows "\<exists>t'. removeLinked cmp t k = Inr t' \<and> rbt_wf cmp t' \<and> keys t' = keys t - {k} \<and>
    contents t' = filter (\<lambda>e. fst e \<noteq> k) (contents t)"
proof (cases "k \<in> keys t")
  case True
  then show ?thesis using remove_tree [OF assms True] assms by (simp add: removeLinked_def linked_key)
next
  case False
  then have "filter (\<lambda>e. fst e \<noteq> k) (contents t) = contents t"
    by (intro filter_True) (auto simp: keys_def)
  then show ?thesis using False assms by (simp add: removeLinked_def linked_key)
qed

lemma keys_distinct: "rbt_wf cmp t \<Longrightarrow> distinct (map fst (contents t))"
  using ascending_distinct [OF comparator_axioms, of "contents t"] by (simp add: rbt_wf_def)

lemma elements_card: "rbt_wf cmp t \<Longrightarrow> RedBlackTreeGetElements t = card (keys t)"
  using distinct_card [OF keys_distinct] by (simp add: RedBlackTreeGetElements_def rbt_wf_def keys_def)

lemma is_empty: "rbt_wf cmp t \<Longrightarrow> RedBlackTreeIsEmpty t \<longleftrightarrow> keys t = {}"
  by (cases "rbt_Root t") (simp_all add: RedBlackTreeIsEmpty_def keys_def contents_def)

lemma visit_set: "rbt_wf cmp t \<Longrightarrow> distinct (visitAll cmp t) \<and> set (visitAll cmp t) = keys t"
  using keys_distinct [of t] by (simp add: visit_all keys_def)

end

section \<open>The orders of the handlespace\<close>

lemma key_storage_then:
  assumes "key_storage c"
  shows "key_storage (\<lambda>p q. cmp_key (fst p :: 'k::linorder) (fst q) (c (snd p) (snd q)))"
proof (rule key_storage.intro)
  show "comparator (\<lambda>p q. cmp_key (fst p :: 'k) (fst q) (c (snd p) (snd q)))"
    by (rule comparator_key [OF comparator_map]) (rule key_storage.axioms(1) [OF assms])
  show "key_storage_axioms (\<lambda>p q. cmp_key (fst p :: 'k) (fst q) (c (snd p) (snd q)))"
    using key_storage.cmp_eq [OF assms]
    by unfold_locales (auto simp: cmp_key_def prod_eq_iff split: if_splits)
qed

lemma index_key_storage: "key_storage poolIndexStorageNodeComparison"
proof (rule key_storage.intro)
  show "comparator poolIndexStorageNodeComparison"
    unfolding poolIndexStorageNodeComparison_def [abs_def]
    by (rule comparator_key) (rule memcmp.comparator_axioms)
  show "key_storage_axioms poolIndexStorageNodeComparison"
    by unfold_locales (auto simp: poolIndexStorageNodeComparison_def cmp_key_def split: if_splits)
qed

interpretation pools: key_storage poolIndexStorageNodeComparison
  by (rule index_key_storage)

interpretation pe_index: key_storage poolElementIndexStorageNodeComparison
  by unfold_locales (simp add: index_zero)

lemma timers_key_storage: "key_storage poolElementTimerStorageNodeComparison"
proof -
  have e: "poolElementTimerStorageNodeComparison =
      (\<lambda>p q. cmp_key (fst p) (fst q) ((\<lambda>p q. cmp_key (fst p) (fst q) (poolIndexStorageNodeComparison (snd p) (snd q))) (snd p) (snd q)))"
    by (intro ext) auto
  show ?thesis unfolding e by (rule key_storage_then [OF key_storage_then [OF index_key_storage]])
qed

interpretation timers: key_storage poolElementTimerStorageNodeComparison
  by (rule timers_key_storage)

lemma owners_key_storage: "key_storage poolElementOwnershipStorageNodeComparison"
proof -
  have e: "poolElementOwnershipStorageNodeComparison =
      (\<lambda>p q. cmp_key (fst p) (fst q) ((\<lambda>p q. cmp_key (fst p) (fst q) (poolIndexStorageNodeComparison (snd p) (snd q))) (snd p) (snd q)))"
    by (intro ext) auto
  show ?thesis unfolding e by (rule key_storage_then [OF key_storage_then [OF index_key_storage]])
qed

interpretation owners: key_storage poolElementOwnershipStorageNodeComparison
  by (rule owners_key_storage)

lemma connections_key_storage: "key_storage poolElementConnectionStorageNodeComparison"
proof -
  have e: "poolElementConnectionStorageNodeComparison =
      (\<lambda>p q. cmp_key (fst p) (fst q) ((\<lambda>p q. cmp_key (fst p) (fst q)
         ((\<lambda>p q. cmp_key (fst p) (fst q) (poolIndexStorageNodeComparison (snd p) (snd q))) (snd p) (snd q))) (snd p) (snd q)))"
    by (intro ext) auto
  show ?thesis unfolding e by (rule key_storage_then [OF key_storage_then [OF key_storage_then [OF index_key_storage]]])
qed

interpretation connections: key_storage poolElementConnectionStorageNodeComparison
  by (rule connections_key_storage)

end
