(* ===== verification/RSP_PeerListLaws.thy ===== *)
theory RSP_PeerListLaws
  imports RSP_PeerManagement RSP_KeyStorage
begin

text \<open>
  The invariant of the peer list and what its operations do to it.
\<close>

section \<open>Storages of addresses\<close>

text \<open>
  The nodes of a storage compare differently from each other, whatever the comparison does with
  other nodes.
\<close>

context comparator
begin

lemma linked_unique:
  assumes "rbt_wf cmp t" "p \<in> keys t" "x \<in> keys t"
  shows "cmp p x = 0 \<longleftrightarrow> x = p"
proof
  assume z: "cmp p x = 0"
  have asc: "ascending cmp (contents t)" using assms(1) by (simp add: rbt_wf_def)
  obtain i j where i: "i < length (contents t)" "p = fst (contents t ! i)"
    and j: "j < length (contents t)" "x = fst (contents t ! j)"
    using assms(2,3) by (auto simp: keys_def in_set_conv_nth)
  have lt: "a < b \<Longrightarrow> b < length (contents t) \<Longrightarrow> cmp (fst (contents t ! a)) (fst (contents t ! b)) < 0" for a b
    using asc unfolding ascending_def sorted_wrt_iff_nth_less by blast
  show "x = p"
    using lt [of i j] lt [of j i] i j z cmp_zero_sym [of p x] by (cases i j rule: linorder_cases) auto
qed (simp add: cmp_refl)

lemma linked_find: "rbt_wf cmp t \<Longrightarrow> p \<in> keys t \<Longrightarrow> findEntry cmp p (contents t) = Some p"
  using findEntry_unique [of "contents t" cmp p] linked_unique [of t p] by (auto simp: keys_def)

lemma remove_linked:
  assumes "rbt_wf cmp t" "p \<in> keys t"
  shows "\<exists>t'. RedBlackTreeRemove cmp t p = Inr t' \<and> rbt_wf cmp t' \<and> keys t' = keys t - {p} \<and>
    contents t' = filter (\<lambda>e. fst e \<noteq> p) (contents t)"
proof -
  have "removeEntry cmp p (contents t) = filter (\<lambda>e. fst e \<noteq> p) (contents t)"
    by (rule removeEntry_unique) (use linked_unique [OF assms] in \<open>auto simp: keys_def\<close>)
  then show ?thesis
    using remove_ok [OF assms(1), of p] linked_find [OF assms] by (auto simp: keys_def)
qed

lemma insert_apart:
  assumes "rbt_wf cmp t" "\<And>x. x \<in> keys t \<Longrightarrow> cmp p x \<noteq> 0"
  shows "\<exists>t'. RedBlackTreeInsert cmp t p v = (p, t') \<and> rbt_wf cmp t' \<and> keys t' = Set.insert p (keys t) \<and>
    set (contents t') = Set.insert (p, v) (set (contents t))"
proof -
  obtain q t' where r: "RedBlackTreeInsert cmp t p v = (q, t')" by (cases "RedBlackTreeInsert cmp t p v")
  have "findEntry cmp p (contents t) = None"
    using assms(2) by (auto simp: rbt.findEntry_None_iff list_ex_iff keys_def)
  then have "q = p" using rbt.insert_result [OF assms(1), of p v] r by simp
  moreover have "set (contents t') = Set.insert (p, v) (set (contents t))"
    using rbt.insert_items [OF assms(1), of p v] r set_insertEntry [of "contents t" cmp p v] assms(2)
    by (auto simp: keys_def)
  ultimately show ?thesis using r rbt.insert_inv [OF assms(1), of p v] by (auto simp: keys_def)
qed

lemma insert_found:
  assumes "rbt_wf cmp t" "x \<in> keys t" "cmp p x = 0"
  shows "RedBlackTreeInsert cmp t p v = (x, t)"
proof -
  have "findEntry cmp p (contents t) = Some x"
  proof -
    have "filter (\<lambda>e. cmp p (fst e) = 0) (contents t) = filter (\<lambda>e. cmp x (fst e) = 0) (contents t)"
      using rbt.cmp_congr [OF assms(3)] by simp
    then show ?thesis using linked_find [OF assms(1,2)] by (simp add: findEntry_def)
  qed
  then have f: "RedBlackTreeFind cmp t p = Some x" by (simp add: find_ok assms(1))
  then show ?thesis
    by (auto simp: RedBlackTreeFind_def RedBlackTreeInsert_def split: prod.splits tree.splits)
qed

lemma find_found:
  assumes "rbt_wf cmp t" "x \<in> keys t" "cmp p x = 0"
  shows "RedBlackTreeFind cmp t p = Some x"
proof -
  have "filter (\<lambda>e. cmp p (fst e) = 0) (contents t) = filter (\<lambda>e. cmp x (fst e) = 0) (contents t)"
    using rbt.cmp_congr [OF assms(3)] by simp
  then show ?thesis using linked_find [OF assms(1,2)] by (simp add: find_ok [OF assms(1)] findEntry_def)
qed

lemma find_apart:
  assumes "rbt_wf cmp t" "\<And>x. x \<in> keys t \<Longrightarrow> cmp p x \<noteq> 0"
  shows "RedBlackTreeFind cmp t p = None"
  using assms(2) by (auto simp: find_ok [OF assms(1)] rbt.findEntry_None_iff list_ex_iff keys_def)

lemma class_less: "cmp a b < 0 \<Longrightarrow> cmp a a' = 0 \<Longrightarrow> cmp b b' = 0 \<Longrightarrow> cmp a' b' < 0"
  using cmp_le_less [of a' a b] cmp_less_le [of a' b b'] cmp_zero_sym [of a a'] by simp

end

lemma inTree_entries: "inTree p t \<longleftrightarrow> p \<in> fst ` set (entries t)"
  by (induction t) auto

lemma linked_keys: "indexLinked pl p \<longleftrightarrow> p \<in> keys (pl_Index pl)" "timerLinked pl p \<longleftrightarrow> p \<in> keys (pl_Timer pl)"
  by (simp_all add: indexLinked_def timerLinked_def inTree_entries keys_def contents_def)

section \<open>The orders of peers\<close>

lemma addressesOrder_anti: "addressesOrder as bs < 0 \<longleftrightarrow> 0 < addressesOrder bs as"
proof (induction as bs rule: addressesOrder.induct)
  case (1 a as b bs)
  then show ?case using address_key.cmp_anti [of a b] address_key.cmp_zero_sym [of a b] by auto
qed simp_all

lemma addressesOrder_refl: "addressesOrder as as = 0"
  by (induction as) (simp_all add: address_key.cmp_refl)

lemma addressesOrder_trans:
  "length as = length bs \<Longrightarrow> length bs = length cs \<Longrightarrow>
     addressesOrder as bs \<le> 0 \<Longrightarrow> addressesOrder bs cs \<le> 0 \<Longrightarrow> addressesOrder as cs \<le> 0"
proof (induction as bs cs rule: list_induct3)
  case (Cons a as b bs c cs)
  have le: "addressKey a b \<le> 0" "addressKey b c \<le> 0" using Cons.prems by (auto split: if_splits)
  show ?case
  proof (cases "addressKey a c = 0")
    case True
    then have "addressKey a b = 0" "addressKey b c = 0"
      using le address_key.cmp_le_less [of a b c] address_key.cmp_less_le [of a b c] by fastforce+
    then show ?thesis using Cons True by simp
  next
    case False
    then show ?thesis using address_key.cmp_trans [OF le] by simp
  qed
qed simp

lemma comparator_addresses: "comparator (\<lambda>as bs. cmp_key (length as) (length bs) (addressesOrder as bs))"
proof unfold_locales
  fix x y
  show "cmp_key (length x) (length y) (addressesOrder x y) < 0 \<longleftrightarrow> 0 < cmp_key (length y) (length x) (addressesOrder y x)"
    using addressesOrder_anti [of x y] by (cases "length x" "length y" rule: linorder_cases) simp_all
next
  fix x show "cmp_key (length x) (length x) (addressesOrder x x) = 0" by (simp add: addressesOrder_refl)
next
  fix x y z
  assume xy: "cmp_key (length x) (length y) (addressesOrder x y) \<le> 0"
    and yz: "cmp_key (length y) (length z) (addressesOrder y z) \<le> 0"
  then have "length x \<le> length y" "length y \<le> length z" by (simp_all add: cmp_key_def split: if_splits)
  then consider "length x < length z" | "length x = length y" "length y = length z" by linarith
  then show "cmp_key (length x) (length z) (addressesOrder x z) \<le> 0"
    by cases (use xy yz addressesOrder_trans [of x y z] in simp_all)
qed

lemma blockOrder_key:
  "blockOrder p q = cmp_key (p \<noteq> None) (q \<noteq> None)
     (cmp_key (tab_Port (the p)) (tab_Port (the q)) (cmp_key (tab_Flags (the p)) (tab_Flags (the q))
       (cmp_key (tab_Addresses (the p)) (tab_Addresses (the q))
         (addressesOrder (tab_AddressArray (the p)) (tab_AddressArray (the q))))))"
  by (cases p; cases q) (simp_all add: blockOrder_def addressesOrder_refl)

interpretation block: comparator blockOrder
  unfolding blockOrder_key [abs_def]
  by (rule comparator_key, rule comparator_key, rule comparator_key, rule comparator_map [OF comparator_addresses])

text \<open>On the blocks that occur, the order is the comparison of the source.\<close>

definition inetBlock :: "TransportAddressBlock option \<Rightarrow> bool" where
  "inetBlock p \<longleftrightarrow> (case p of None \<Rightarrow> False | Some b \<Rightarrow> \<forall>a \<in> set (tab_AddressArray b). inet a)"

lemma addressesOrder_code:
  "\<forall>a \<in> set as. inet a \<Longrightarrow> \<forall>b \<in> set bs. inet b \<Longrightarrow> addressArrayComparison gl as bs = Inr (addressesOrder as bs)"
  by (induction as bs rule: addressesOrder.induct) (simp_all add: addresscmp_inet)

lemma blockOrder_code:
  "inetBlock p \<Longrightarrow> inetBlock q \<Longrightarrow> transportAddressBlockComparison gl p q = Inr (blockOrder p q)"
  by (cases p; cases q)
     (simp_all add: inetBlock_def transportAddressBlockComparison_def blockOrder_def cmp_key_def addressesOrder_code)

lemma overlap_returns:
  assumes "inetBlock p" "q = None \<or> inetBlock q"
  shows "\<exists>r. transportAddressBlockOverlapComparison gl p q = Inr r"
    "transportAddressBlockOverlapComparison gl p None = Inr 1"
  using assms
  by (cases p; cases q; simp add: inetBlock_def transportAddressBlockOverlapComparison_def overlapping_inet addressesOrder_code)+

definition undefinedBlock :: "PeerListNode \<Rightarrow> TransportAddressBlock option" where
  "undefinedBlock n = (if pln_Identifier n = 0 then pln_AddressBlock n else None)"

lemma peer_index_key:
  "peerListIndexStorageNodeComparison a b =
     cmp_key (pln_Identifier a) (pln_Identifier b) (blockOrder (undefinedBlock a) (undefinedBlock b))"
  by (cases "pln_Identifier a" "pln_Identifier b" rule: linorder_cases)
     (simp_all add: peerListIndexStorageNodeComparison_def undefinedBlock_def block.cmp_refl)

lemma peer_timer_key:
  "peerListTimerStorageNodeComparison a b =
     cmp_key (pln_TimerTimeStamp a) (pln_TimerTimeStamp b) (peerListIndexStorageNodeComparison a b)"
  by (simp add: peerListTimerStorageNodeComparison_def peerListIndexStorageNodeComparison_def)

interpretation peer_index: comparator peerListIndexStorageNodeComparison
  unfolding peer_index_key [abs_def] by (rule comparator_key, rule comparator_map [OF block.comparator_axioms])

interpretation peer_timer: comparator peerListTimerStorageNodeComparison
  unfolding peer_timer_key [abs_def] by (rule comparator_key [OF peer_index.comparator_axioms])

lemma comparator_indexOrder: "comparator (indexOrder pl)"
  unfolding indexOrder_def [abs_def] by (rule comparator_map [OF peer_index.comparator_axioms])

lemma comparator_timerOrder: "comparator (timerOrder pl)"
  unfolding timerOrder_def [abs_def] by (rule comparator_map [OF peer_timer.comparator_axioms])

lemma comparator_searchOrder: "comparator (searchOrder c pl)"
  unfolding searchOrder_def [abs_def] by (rule comparator_map [OF peer_index.comparator_axioms])

end
