(* ===== verification/RSP_PeerOps.thy ===== *)
theory RSP_PeerOps
  imports RSP_PeerListLaws
begin

text \<open>
  The invariant of the peer list and its preservation by the operations.
\<close>

definition peers :: "PeerList \<Rightarrow> nat set" where
  "peers pl = keys (pl_Index pl)"

definition timed :: "PeerList \<Rightarrow> nat set" where
  "timed pl = keys (pl_Timer pl)"

definition static :: "PeerListNode \<Rightarrow> bool" where
  "static n \<longleftrightarrow> pln_Flags n AND PLNF_DYNAMIC = 0"

definition peer_ok :: "u32 \<Rightarrow> PeerListNode \<Rightarrow> bool" where
  "peer_ok own n \<longleftrightarrow> inetBlock (pln_AddressBlock n) \<and> (own \<noteq> 0 \<longrightarrow> pln_Identifier n \<noteq> own) \<and>
     (static n \<or> pln_Identifier n \<noteq> 0)"

text \<open>
  The storages are well-formed, every peer is in the index storage, timers run for peers with an
  identifier only, the registrar itself is not in its list, and the static entries have different
  addresses.
\<close>

definition list_ok :: "PeerList \<Rightarrow> bool" where
  "list_ok pl \<longleftrightarrow>
     rbt_wf (indexOrder pl) (pl_Index pl) \<and> rbt_wf (timerOrder pl) (pl_Timer pl) \<and>
     peers pl \<subseteq> dom (pl_Nodes pl) \<and> 0 \<notin> dom (pl_Nodes pl) \<and> timed pl \<subseteq> peers pl \<and>
     (\<forall>e \<in> set (contents (pl_Index pl)). snd e = 1) \<and>
     (\<forall>p \<in> peers pl. peer_ok (pl_OwnIdentifier pl) (peerAt pl p)) \<and>
     (\<forall>p \<in> timed pl. pln_Identifier (peerAt pl p) \<noteq> 0) \<and>
     (\<forall>p \<in> peers pl. \<forall>q \<in> peers pl. static (peerAt pl p) \<longrightarrow> static (peerAt pl q) \<longrightarrow>
        blockOrder (pln_AddressBlock (peerAt pl p)) (pln_AddressBlock (peerAt pl q)) = 0 \<longrightarrow> p = q)"

lemma list_okD:
  assumes "list_ok pl"
  shows "rbt_wf (indexOrder pl) (pl_Index pl)" "rbt_wf (timerOrder pl) (pl_Timer pl)"
    "p \<in> peers pl \<Longrightarrow> p \<in> dom (pl_Nodes pl)" "p \<in> peers pl \<Longrightarrow> p \<noteq> 0" "p \<in> timed pl \<Longrightarrow> p \<in> peers pl"
    "e \<in> set (contents (pl_Index pl)) \<Longrightarrow> snd e = 1"
    "p \<in> peers pl \<Longrightarrow> peer_ok (pl_OwnIdentifier pl) (peerAt pl p)"
    "p \<in> timed pl \<Longrightarrow> pln_Identifier (peerAt pl p) \<noteq> 0"
    "p \<in> peers pl \<Longrightarrow> q \<in> peers pl \<Longrightarrow> static (peerAt pl p) \<Longrightarrow> static (peerAt pl q) \<Longrightarrow>
       blockOrder (pln_AddressBlock (peerAt pl p)) (pln_AddressBlock (peerAt pl q)) = 0 \<Longrightarrow> p = q"
proof -
  show "p \<in> peers pl \<Longrightarrow> p \<noteq> 0" using assms unfolding list_ok_def by (metis subsetD)
qed (use assms in \<open>unfold list_ok_def, blast+\<close>)

lemma list_okI:
  assumes "rbt_wf (indexOrder pl) (pl_Index pl)" "rbt_wf (timerOrder pl) (pl_Timer pl)"
    "peers pl \<subseteq> dom (pl_Nodes pl)" "0 \<notin> dom (pl_Nodes pl)" "timed pl \<subseteq> peers pl"
    "\<And>e. e \<in> set (contents (pl_Index pl)) \<Longrightarrow> snd e = 1"
    "\<And>p. p \<in> peers pl \<Longrightarrow> peer_ok (pl_OwnIdentifier pl) (peerAt pl p)"
    "\<And>p. p \<in> timed pl \<Longrightarrow> pln_Identifier (peerAt pl p) \<noteq> 0"
    "\<And>p q. p \<in> peers pl \<Longrightarrow> q \<in> peers pl \<Longrightarrow> static (peerAt pl p) \<Longrightarrow> static (peerAt pl q) \<Longrightarrow>
       blockOrder (pln_AddressBlock (peerAt pl p)) (pln_AddressBlock (peerAt pl q)) = 0 \<Longrightarrow> p = q"
  shows "list_ok pl"
  unfolding list_ok_def using assms by blast

lemma list_ok_dom: "list_ok pl \<Longrightarrow> peers pl \<subseteq> dom (pl_Nodes pl)" "list_ok pl \<Longrightarrow> 0 \<notin> dom (pl_Nodes pl)"
    "list_ok pl \<Longrightarrow> timed pl \<subseteq> peers pl"
  by (simp_all add: list_ok_def)

lemma peer_simps [simp]:
  "peers (pl\<lparr>pl_Nodes := ns\<rparr>) = peers pl" "timed (pl\<lparr>pl_Nodes := ns\<rparr>) = timed pl"
  "peers (pl\<lparr>pl_Timer := t\<rparr>) = peers pl" "timed (pl\<lparr>pl_Index := t\<rparr>) = timed pl"
  "peers (pl\<lparr>pl_Index := t\<rparr>) = keys t" "timed (pl\<lparr>pl_Timer := t\<rparr>) = keys t"
  "peers (setPeer p f pl) = peers pl" "timed (setPeer p f pl) = timed pl"
  "pl_Index (setPeer p f pl) = pl_Index pl" "pl_Timer (setPeer p f pl) = pl_Timer pl"
  "pl_OwnIdentifier (setPeer p f pl) = pl_OwnIdentifier pl"
  "peerAt (pl\<lparr>pl_Index := t\<rparr>) q = peerAt pl q" "peerAt (pl\<lparr>pl_Timer := t\<rparr>) q = peerAt pl q"
  by (simp_all add: peers_def timed_def setPeer_def peerAt_def)

lemma order_simps [simp]:
  "indexOrder (pl\<lparr>pl_Index := t\<rparr>) = indexOrder pl" "timerOrder (pl\<lparr>pl_Index := t\<rparr>) = timerOrder pl"
  "indexOrder (pl\<lparr>pl_Timer := t\<rparr>) = indexOrder pl" "timerOrder (pl\<lparr>pl_Timer := t\<rparr>) = timerOrder pl"
  by (intro ext, simp add: indexOrder_def timerOrder_def peerAt_def)+

lemma peerAt_setPeer [simp]: "peerAt (setPeer p f pl) q = (if q = p then f (peerAt pl p) else peerAt pl q)"
  by (simp add: setPeer_def peerAt_def)

lemma dom_setPeer [simp]: "dom (pl_Nodes (setPeer p f pl)) = Set.insert p (dom (pl_Nodes pl))"
  by (simp add: setPeer_def)

lemma peer_new_simps [simp]:
  "pln_Identifier (peerListNodeNew i f b) = i" "pln_Flags (peerListNodeNew i f b) = f"
  "pln_AddressBlock (peerListNodeNew i f b) = b" "pln_TimerTimeStamp (peerListNodeNew i f b) = 0"
  "static (peerListNodeNew i f b) \<longleftrightarrow> f AND 1 = 0"
  by (simp_all add: peerListNodeNew_def static_def)

lemma linked_iff: "indexLinked pl p \<longleftrightarrow> p \<in> peers pl" "timerLinked pl p \<longleftrightarrow> p \<in> timed pl"
  by (simp_all add: linked_keys peers_def timed_def)

section \<open>Changing nodes\<close>

lemma index_class:
  "pln_Identifier n = pln_Identifier n' \<Longrightarrow> blockOrder (pln_AddressBlock n) (pln_AddressBlock n') = 0 \<Longrightarrow>
     peerListIndexStorageNodeComparison n n' = 0"
  by (simp add: peerListIndexStorageNodeComparison_def)

lemma timer_class:
  "pln_TimerTimeStamp n = pln_TimerTimeStamp n' \<Longrightarrow> peerListIndexStorageNodeComparison n n' = 0 \<Longrightarrow>
     peerListTimerStorageNodeComparison n n' = 0"
  by (simp add: peer_timer_key)

lemma peer_index_zero:
  "peerListIndexStorageNodeComparison n n' = 0 \<longleftrightarrow> pln_Identifier n = pln_Identifier n' \<and>
     (pln_Identifier n = 0 \<longrightarrow> blockOrder (pln_AddressBlock n) (pln_AddressBlock n') = 0)"
  by (cases "pln_Identifier n" "pln_Identifier n'" rule: linorder_cases)
     (auto simp: peerListIndexStorageNodeComparison_def)

lemma index_fields:
  "pln_Identifier n = pln_Identifier n' \<Longrightarrow> pln_AddressBlock n = pln_AddressBlock n' \<Longrightarrow>
     peerListIndexStorageNodeComparison n n' = 0"
  by (simp add: index_class block.cmp_refl)

text \<open>Within its class a node can change freely.\<close>

lemma index_wf_class:
  assumes "rbt_wf (indexOrder pl) t"
    and "\<And>p. p \<in> keys t \<Longrightarrow> peerListIndexStorageNodeComparison (peerAt pl p) (peerAt pl' p) = 0"
  shows "rbt_wf (indexOrder pl') t"
  by (rule rbt_wf_mono [OF assms(1)])
     (use assms(2) peer_index.class_less in \<open>auto simp: indexOrder_def keys_def\<close>)

lemma timer_wf_class:
  assumes "rbt_wf (timerOrder pl) t"
    and "\<And>p. p \<in> keys t \<Longrightarrow> peerListTimerStorageNodeComparison (peerAt pl p) (peerAt pl' p) = 0"
  shows "rbt_wf (timerOrder pl') t"
  by (rule rbt_wf_mono [OF assms(1)])
     (use assms(2) peer_timer.class_less in \<open>auto simp: timerOrder_def keys_def\<close>)

definition sameKey :: "PeerListNode \<Rightarrow> PeerListNode \<Rightarrow> bool" where
  "sameKey n n' \<longleftrightarrow> pln_Identifier n' = pln_Identifier n \<and> pln_TimerTimeStamp n' = pln_TimerTimeStamp n \<and>
     (static n \<or> pln_Identifier n = 0 \<longrightarrow> blockOrder (pln_AddressBlock n) (pln_AddressBlock n') = 0) \<and>
     inetBlock (pln_AddressBlock n') \<and> (static n' \<longleftrightarrow> static n)"

lemma sameKey_class:
  "sameKey n n' \<Longrightarrow> peerListIndexStorageNodeComparison n n' = 0 \<and> peerListTimerStorageNodeComparison n n' = 0"
  by (simp add: sameKey_def peer_index_zero peer_timer_key)

lemma block_congr:
  "blockOrder a a' = 0 \<Longrightarrow> blockOrder b b' = 0 \<Longrightarrow> blockOrder a' b' = 0 \<Longrightarrow> blockOrder a b = 0"
  using block.cmp_zero_trans block.cmp_zero_sym by metis

lemma setPeer_ok:
  assumes ok: "list_ok pl" and p: "p \<in> peers pl" and k: "sameKey (peerAt pl p) (f (peerAt pl p))"
  shows "list_ok (setPeer p f pl)"
proof -
  let ?pl = "setPeer p f pl"
  have z: "peerListIndexStorageNodeComparison (peerAt pl q) (peerAt ?pl q) = 0"
    "peerListTimerStorageNodeComparison (peerAt pl q) (peerAt ?pl q) = 0"
    "static (peerAt pl q) \<Longrightarrow> blockOrder (pln_AddressBlock (peerAt pl q)) (pln_AddressBlock (peerAt ?pl q)) = 0"
    "static (peerAt ?pl q) \<longleftrightarrow> static (peerAt pl q)"
    "pln_Identifier (peerAt ?pl q) = pln_Identifier (peerAt pl q)" for q
    using sameKey_class [OF k] k
    by (auto simp: peer_index.cmp_refl peer_timer.cmp_refl block.cmp_refl sameKey_def)
  have i: "rbt_wf (indexOrder ?pl) (pl_Index ?pl)"
    using index_wf_class [OF list_okD(1) [OF ok] z(1)] by simp
  have t: "rbt_wf (timerOrder ?pl) (pl_Timer ?pl)"
    using timer_wf_class [OF list_okD(2) [OF ok] z(2)] by simp
  have pk: "peer_ok (pl_OwnIdentifier pl) (peerAt ?pl q)" if "q \<in> peers pl" for q
    using list_okD(7) [OF ok that] k z(4,5) [of q] by (auto simp: peer_ok_def sameKey_def)
  have d: "static (peerAt ?pl a) \<Longrightarrow> static (peerAt ?pl b) \<Longrightarrow>
      blockOrder (pln_AddressBlock (peerAt ?pl a)) (pln_AddressBlock (peerAt ?pl b)) = 0 \<Longrightarrow> a = b"
    if "a \<in> peers pl" "b \<in> peers pl" for a b
    using list_okD(9) [OF ok that] z(4) [of a] z(4) [of b] block_congr [OF z(3) [of a] z(3) [of b]] by blast
  show ?thesis
  proof (rule list_okI)
    show "peers ?pl \<subseteq> dom (pl_Nodes ?pl)" "0 \<notin> dom (pl_Nodes ?pl)"
      using list_ok_dom [OF ok] p list_okD(4) [OF ok p] by auto
  qed (use i t pk d list_ok_dom [OF ok] list_okD(6,8) [OF ok] z(5) in \<open>simp_all del: peerAt_setPeer\<close>)
qed

text \<open>Two peers are never in the same class.\<close>

lemma peers_apart:
  assumes "list_ok pl" "p \<in> peers pl" "q \<in> peers pl"
  shows "peerListIndexStorageNodeComparison (peerAt pl p) (peerAt pl q) = 0 \<longleftrightarrow> q = p"
  using comparator.linked_unique [OF comparator_indexOrder list_okD(1) [OF assms(1)], of p q] assms(2,3)
  unfolding peers_def indexOrder_def by simp

lemma identifiers_apart:
  assumes "list_ok pl" "p \<in> peers pl" "q \<in> peers pl" "pln_Identifier (peerAt pl p) \<noteq> 0"
    and "pln_Identifier (peerAt pl p) = pln_Identifier (peerAt pl q)"
  shows "q = p"
proof -
  have "peerListIndexStorageNodeComparison (peerAt pl p) (peerAt pl q) = 0"
    unfolding peerListIndexStorageNodeComparison_def assms(5) [symmetric] using assms(4) by simp
  then show ?thesis using peers_apart [OF assms(1-3)] by blast
qed

section \<open>Timers\<close>

lemma peer_activate_ok:
  assumes ok: "list_ok pl" and p: "p \<in> peers pl" "p \<notin> timed pl" "pln_Identifier (peerAt pl p) \<noteq> 0"
  shows "\<exists>t. peerListActivateTimer p c ts pl =
      Inr ((setPeer p (\<lambda>n. n\<lparr>pln_TimerCode := c, pln_TimerTimeStamp := ts\<rparr>) pl)\<lparr>pl_Timer := t\<rparr>) \<and>
    keys t = Set.insert p (timed pl) \<and>
    list_ok ((setPeer p (\<lambda>n. n\<lparr>pln_TimerCode := c, pln_TimerTimeStamp := ts\<rparr>) pl)\<lparr>pl_Timer := t\<rparr>)"
proof -
  let ?pl = "setPeer p (\<lambda>n. n\<lparr>pln_TimerCode := c, pln_TimerTimeStamp := ts\<rparr>) pl"
  have same: "peerListTimerStorageNodeComparison (peerAt pl q) (peerAt ?pl q) = 0" if "q \<in> keys (pl_Timer pl)" for q
    using that p(2) by (auto simp: timed_def peer_timer.cmp_refl)
  have wf: "rbt_wf (timerOrder ?pl) (pl_Timer ?pl)"
    using timer_wf_class [OF list_okD(2) [OF ok] same] by simp
  have ix: "peerListIndexStorageNodeComparison (peerAt ?pl q) (peerAt ?pl r) =
      peerListIndexStorageNodeComparison (peerAt pl q) (peerAt pl r)" for q r
    by (cases "q = p"; cases "r = p") (simp_all add: peerListIndexStorageNodeComparison_def)
  have new: "timerOrder ?pl p x \<noteq> 0" if "x \<in> keys (pl_Timer ?pl)" for x
  proof
    assume "timerOrder ?pl p x = 0"
    then have "peerListIndexStorageNodeComparison (peerAt ?pl p) (peerAt ?pl x) = 0"
      by (simp only: timerOrder_def peer_timer_key cmp_key_def split: if_splits)
    moreover have "x \<in> timed pl" using that by (simp add: timed_def)
    ultimately show False using peers_apart [OF ok p(1), of x] list_okD(5) [OF ok, of x] p(2) unfolding ix by auto
  qed
  obtain t where t: "RedBlackTreeInsert (timerOrder ?pl) (pl_Timer ?pl) p 0 = (p, t)" "rbt_wf (timerOrder ?pl) t"
    "keys t = Set.insert p (keys (pl_Timer ?pl))"
    using comparator.insert_apart [OF comparator_timerOrder wf new] by metis
  have f: "peer_ok own (peerAt ?pl q) \<longleftrightarrow> peer_ok own (peerAt pl q)" "static (peerAt ?pl q) \<longleftrightarrow> static (peerAt pl q)"
    "pln_AddressBlock (peerAt ?pl q) = pln_AddressBlock (peerAt pl q)"
    "pln_Identifier (peerAt ?pl q) = pln_Identifier (peerAt pl q)" for q own
    by (simp_all add: peer_ok_def static_def)
  have k: "keys t = Set.insert p (timed pl)" using t(3) by (simp add: timed_def)
  have i: "rbt_wf (indexOrder ?pl) (pl_Index ?pl)"
    using index_wf_class [OF list_okD(1) [OF ok], of ?pl] index_fields f(3,4) by simp
  have ok': "list_ok (?pl\<lparr>pl_Timer := t\<rparr>)"
  proof (rule list_okI)
    show "peers (?pl\<lparr>pl_Timer := t\<rparr>) \<subseteq> dom (pl_Nodes (?pl\<lparr>pl_Timer := t\<rparr>))"
      "0 \<notin> dom (pl_Nodes (?pl\<lparr>pl_Timer := t\<rparr>))" "timed (?pl\<lparr>pl_Timer := t\<rparr>) \<subseteq> peers (?pl\<lparr>pl_Timer := t\<rparr>)"
      using list_ok_dom [OF ok] p list_okD(4) [OF ok p(1)] k by auto
    show "a = b" if "a \<in> peers (?pl\<lparr>pl_Timer := t\<rparr>)" "b \<in> peers (?pl\<lparr>pl_Timer := t\<rparr>)"
      "static (peerAt (?pl\<lparr>pl_Timer := t\<rparr>) a)" "static (peerAt (?pl\<lparr>pl_Timer := t\<rparr>) b)"
      "blockOrder (pln_AddressBlock (peerAt (?pl\<lparr>pl_Timer := t\<rparr>) a)) (pln_AddressBlock (peerAt (?pl\<lparr>pl_Timer := t\<rparr>) b)) = 0"
      for a b using list_okD(9) [OF ok, of a b] that f by (simp del: peerAt_setPeer)
  qed (use i t(2) k f p list_okD(6-8) [OF ok] in \<open>auto simp del: peerAt_setPeer\<close>)
  have "peerListActivateTimer p c ts pl = Inr (?pl\<lparr>pl_Timer := t\<rparr>)"
    using p(2) t(1) unfolding peerListActivateTimer_def Let_def by (simp add: linked_iff)
  with ok' t(3) show ?thesis by (auto simp: timed_def)
qed

lemma peer_deactivate_ok:
  assumes ok: "list_ok pl"
  shows "\<exists>t. peerListDeactivateTimer p pl = Inr (pl\<lparr>pl_Timer := t\<rparr>) \<and> keys t = timed pl - {p} \<and>
    list_ok (pl\<lparr>pl_Timer := t\<rparr>)"
proof (cases "p \<in> timed pl")
  case True
  then obtain t where t: "RedBlackTreeRemove (timerOrder pl) (pl_Timer pl) p = Inr t" "rbt_wf (timerOrder pl) t"
    "keys t = timed pl - {p}"
    using comparator.remove_linked [OF comparator_timerOrder list_okD(2) [OF ok], of p] by (auto simp: timed_def)
  have "list_ok (pl\<lparr>pl_Timer := t\<rparr>)"
  proof (rule list_okI)
    show "a = b" if "a \<in> peers (pl\<lparr>pl_Timer := t\<rparr>)" "b \<in> peers (pl\<lparr>pl_Timer := t\<rparr>)"
      "static (peerAt (pl\<lparr>pl_Timer := t\<rparr>) a)" "static (peerAt (pl\<lparr>pl_Timer := t\<rparr>) b)"
      "blockOrder (pln_AddressBlock (peerAt (pl\<lparr>pl_Timer := t\<rparr>) a)) (pln_AddressBlock (peerAt (pl\<lparr>pl_Timer := t\<rparr>) b)) = 0"
      for a b using list_okD(9) [OF ok, of a b] that by simp
  qed (use t(2,3) list_ok_dom [OF ok] list_okD(1,6-8) [OF ok] in auto)
  then show ?thesis using t True by (auto simp: peerListDeactivateTimer_def linked_iff)
next
  case False
  then have "timed pl - {p} = keys (pl_Timer pl)" by (auto simp: timed_def)
  moreover have "pl\<lparr>pl_Timer := pl_Timer pl\<rparr> = pl" by simp
  ultimately show ?thesis using False ok unfolding peerListDeactivateTimer_def
    by (intro exI [of _ "pl_Timer pl"]) (simp add: linked_iff)
qed

section \<open>Adding and removing\<close>

lemma remove_peer_ok:
  assumes ok: "list_ok pl" and p: "p \<in> peers pl"
  shows "\<exists>i t. peerListRemovePeerListNode p pl = Inr (pl\<lparr>pl_Index := i, pl_Timer := t\<rparr>) \<and>
    keys i = peers pl - {p} \<and> keys t = timed pl - {p} \<and> list_ok (pl\<lparr>pl_Index := i, pl_Timer := t\<rparr>)"
proof -
  obtain i where i: "RedBlackTreeRemove (indexOrder pl) (pl_Index pl) p = Inr i" "rbt_wf (indexOrder pl) i"
    "keys i = peers pl - {p}" "contents i = filter (\<lambda>e. fst e \<noteq> p) (contents (pl_Index pl))"
    using comparator.remove_linked [OF comparator_indexOrder list_okD(1) [OF ok], of p] p by (auto simp: peers_def)
  obtain t where t: "peerListDeactivateTimer p pl = Inr (pl\<lparr>pl_Timer := t\<rparr>)" "keys t = timed pl - {p}"
    "list_ok (pl\<lparr>pl_Timer := t\<rparr>)" using peer_deactivate_ok [OF ok] by blast
  let ?pl = "pl\<lparr>pl_Index := i, pl_Timer := t\<rparr>"
  have "peerListRemovePeerListNode p pl = Inr ?pl"
  proof (cases "p \<in> timed pl")
    case True
    then obtain u where u: "RedBlackTreeRemove (timerOrder pl) (pl_Timer pl) p = Inr u" "pl\<lparr>pl_Timer := u\<rparr> = pl\<lparr>pl_Timer := t\<rparr>"
      using t(1) by (auto simp: peerListDeactivateTimer_def linked_iff bindR_eq_Inr_conv)
    then have "u = t" using arg_cong [OF u(2), of pl_Timer] by simp
    then show ?thesis using i(1) u(1) True by (simp add: peerListRemovePeerListNode_def linked_iff)
  next
    case False
    then have "pl = pl\<lparr>pl_Timer := t\<rparr>" using t(1) by (simp add: peerListDeactivateTimer_def linked_iff)
    then have "pl_Timer pl = pl_Timer (pl\<lparr>pl_Timer := t\<rparr>)" by (rule arg_cong)
    then have "pl_Timer pl = t" by simp
    then show ?thesis using i(1) False by (simp add: peerListRemovePeerListNode_def linked_iff)
  qed
  moreover have "list_ok ?pl"
  proof (rule list_okI)
    show "a = b" if "a \<in> peers ?pl" "b \<in> peers ?pl" "static (peerAt ?pl a)" "static (peerAt ?pl b)"
      "blockOrder (pln_AddressBlock (peerAt ?pl a)) (pln_AddressBlock (peerAt ?pl b)) = 0"
      for a b using list_okD(9) [OF ok, of a b] that i(3) by simp
    show "rbt_wf (timerOrder ?pl) (pl_Timer ?pl)" using list_okD(2) [OF t(3)] by simp
  qed (use i(2-4) t(2) list_ok_dom [OF ok] list_okD(6-8) [OF ok] in auto)
  ultimately show ?thesis using i(3) t(2) by blast
qed

text \<open>A node that compares differently from all peers can be added.\<close>

lemma add_peer_ok:
  assumes ok: "list_ok pl" and p: "p \<in> dom (pl_Nodes pl)" "p \<notin> peers pl"
    and pk: "peer_ok (pl_OwnIdentifier pl) (peerAt pl p)"
    and new: "\<And>q. q \<in> peers pl \<Longrightarrow> peerListIndexStorageNodeComparison (peerAt pl p) (peerAt pl q) \<noteq> 0"
    and st: "\<And>q. q \<in> peers pl \<Longrightarrow> static (peerAt pl p) \<Longrightarrow> static (peerAt pl q) \<Longrightarrow>
      blockOrder (pln_AddressBlock (peerAt pl p)) (pln_AddressBlock (peerAt pl q)) \<noteq> 0"
  shows "\<exists>i. peerListAddPeerListNode p pl = (RSPERR_OKAY, Some p, pl\<lparr>pl_Index := i\<rparr>) \<and>
    keys i = Set.insert p (peers pl) \<and> list_ok (pl\<lparr>pl_Index := i\<rparr>)"
proof -
  obtain i where i: "RedBlackTreeInsert (indexOrder pl) (pl_Index pl) p 1 = (p, i)" "rbt_wf (indexOrder pl) i"
    "keys i = Set.insert p (peers pl)" "set (contents i) = Set.insert (p, 1) (set (contents (pl_Index pl)))"
    using comparator.insert_apart [OF comparator_indexOrder list_okD(1) [OF ok], of p 1] new
    by (auto simp: peers_def indexOrder_def)
  have "peerListCheckPeerListNodeCompatibility pl (peerAt pl p) = RSPERR_OKAY"
    using pk by (auto simp: peerListCheckPeerListNodeCompatibility_def peer_ok_def)
  then have "peerListAddPeerListNode p pl = (RSPERR_OKAY, Some p, pl\<lparr>pl_Index := i\<rparr>)"
    using i(1) by (simp add: peerListAddPeerListNode_def)
  moreover have "list_ok (pl\<lparr>pl_Index := i\<rparr>)"
  proof (rule list_okI)
    show "a = b" if ab: "a \<in> peers (pl\<lparr>pl_Index := i\<rparr>)" "b \<in> peers (pl\<lparr>pl_Index := i\<rparr>)"
      "static (peerAt (pl\<lparr>pl_Index := i\<rparr>) a)" "static (peerAt (pl\<lparr>pl_Index := i\<rparr>) b)"
      "blockOrder (pln_AddressBlock (peerAt (pl\<lparr>pl_Index := i\<rparr>) a)) (pln_AddressBlock (peerAt (pl\<lparr>pl_Index := i\<rparr>) b)) = 0"
      for a b
    proof -
      have z: "blockOrder (pln_AddressBlock (peerAt pl a)) (pln_AddressBlock (peerAt pl b)) = 0"
        "blockOrder (pln_AddressBlock (peerAt pl b)) (pln_AddressBlock (peerAt pl a)) = 0"
        using ab(5) block.cmp_zero_sym by auto
      have s: "static (peerAt pl a)" "static (peerAt pl b)" using ab(3,4) by simp_all
      have m: "a = p \<or> a \<in> peers pl" "b = p \<or> b \<in> peers pl" using ab(1,2) i(3) by simp_all
      then show "a = b" using st [of a] st [of b] s z list_okD(9) [OF ok _ _ s z(1)] by blast
    qed
  qed (use i(2-4) p pk list_ok_dom [OF ok] list_okD(2,6-8) [OF ok] in auto)
  ultimately show ?thesis using i(3) by blast
qed

section \<open>Updating\<close>

lemma flags_new [simp]:
  "(f AND NOT 0x8000) AND 1 = f AND (1 :: u32)" "(f OR 0x8000) AND 1 = f AND (1 :: u32)"
proof -
  have "(NOT 0x8000 AND 1 :: u32) = 1" "(0x8000 AND 1 :: u32) = 0" by simp_all
  then show "(f AND NOT 0x8000) AND 1 = f AND (1 :: u32)" "(f OR 0x8000) AND 1 = f AND (1 :: u32)"
    by (simp_all add: and.assoc bit.conj_disj_distrib2)
qed

text \<open>
  A peer with a running timer can change its identifier when no other timer has its time stamp.
\<close>

lemma timer_reidentify:
  assumes wf: "rbt_wf (timerOrder pl) t"
    and same: "\<And>q. q \<noteq> p \<Longrightarrow> peerAt pl' q = peerAt pl q"
    and ts: "pln_TimerTimeStamp (peerAt pl' p) = pln_TimerTimeStamp (peerAt pl p)"
    and other: "\<And>q. p \<in> keys t \<Longrightarrow> q \<in> keys t \<Longrightarrow> q \<noteq> p \<Longrightarrow>
      pln_TimerTimeStamp (peerAt pl q) \<noteq> pln_TimerTimeStamp (peerAt pl p)"
  shows "rbt_wf (timerOrder pl') t"
proof (rule rbt_wf_mono [OF wf])
  fix a b assume ab: "a \<in> fst ` set (contents t)" "b \<in> fst ` set (contents t)" and less: "timerOrder pl a b < 0"
  have k: "a \<in> keys t" "b \<in> keys t" using ab by (simp_all add: keys_def)
  have ne: "a \<noteq> b" using less comparator.cmp_refl [OF comparator_timerOrder, of pl a] by auto
  have c: "timerOrder pl a b = cmp_key (pln_TimerTimeStamp (peerAt pl a)) (pln_TimerTimeStamp (peerAt pl b))
      (peerListIndexStorageNodeComparison (peerAt pl a) (peerAt pl b))"
    "timerOrder pl' a b = cmp_key (pln_TimerTimeStamp (peerAt pl' a)) (pln_TimerTimeStamp (peerAt pl' b))
      (peerListIndexStorageNodeComparison (peerAt pl' a) (peerAt pl' b))"
    by (simp_all add: timerOrder_def peer_timer_key)
  have s: "pln_TimerTimeStamp (peerAt pl' q) = pln_TimerTimeStamp (peerAt pl q)" for q
    using same [of q] ts by (cases "q = p") simp_all
  show "timerOrder pl' a b < 0"
  proof (cases "a = p \<or> b = p")
    case True
    then have "pln_TimerTimeStamp (peerAt pl a) \<noteq> pln_TimerTimeStamp (peerAt pl b)"
      using other [of a] other [of b] k ne by metis
    then show ?thesis using less s unfolding c by (simp add: cmp_key_def split: if_splits)
  next
    case False
    then show ?thesis using less same [of a] same [of b] by (simp add: timerOrder_def)
  qed
qed

definition reidentified :: "u32 \<Rightarrow> u32 \<Rightarrow> PeerListNode \<Rightarrow> PeerListNode" where
  "reidentified identifier flags n = n\<lparr>pln_Identifier := identifier, pln_Flags := flags AND NOT PLNF_NEW\<rparr>"

lemma reidentify_index:
  assumes ok: "list_ok pl" and p: "p \<in> peers pl"
    and j: "j \<noteq> 0" "j \<noteq> pl_OwnIdentifier pl" "\<And>q. q \<in> peers pl \<Longrightarrow> pln_Identifier (peerAt pl q) \<noteq> j"
    and ts: "\<And>q. p \<in> timed pl \<Longrightarrow> q \<in> timed pl \<Longrightarrow> q \<noteq> p \<Longrightarrow>
      pln_TimerTimeStamp (peerAt pl q) \<noteq> pln_TimerTimeStamp (peerAt pl p)"
  defines "pl' t \<equiv> setPeer p (\<lambda>n. n\<lparr>pln_Identifier := j\<rparr>) (pl\<lparr>pl_Index := t\<rparr>)"
  shows "\<exists>t1 t2. RedBlackTreeRemove (indexOrder pl) (pl_Index pl) p = Inr t1 \<and>
      RedBlackTreeInsert (indexOrder (pl' t1)) t1 p 1 = (p, t2) \<and> keys t2 = peers pl \<and>
      list_ok ((pl' t1)\<lparr>pl_Index := t2\<rparr>)"
proof -
  obtain t1 where t1: "RedBlackTreeRemove (indexOrder pl) (pl_Index pl) p = Inr t1" "rbt_wf (indexOrder pl) t1"
    "keys t1 = peers pl - {p}" "contents t1 = filter (\<lambda>e. fst e \<noteq> p) (contents (pl_Index pl))"
    using comparator.remove_linked [OF comparator_indexOrder list_okD(1) [OF ok], of p] p by (auto simp: peers_def)
  have at: "peerAt (pl' t1) q = (if q = p then (peerAt pl p)\<lparr>pln_Identifier := j\<rparr> else peerAt pl q)" for q
    by (simp add: pl'_def)
  have wf1: "rbt_wf (indexOrder (pl' t1)) t1"
    using index_wf_class [OF t1(2), of "pl' t1"] t1(3) by (simp add: at peer_index.cmp_refl)
  have new: "indexOrder (pl' t1) p x \<noteq> 0" if "x \<in> keys t1" for x
    using that t1(3) j(3) [of x] by (simp add: indexOrder_def at peerListIndexStorageNodeComparison_def cmp_key_def j(1))
  obtain t2 where t2: "RedBlackTreeInsert (indexOrder (pl' t1)) t1 p 1 = (p, t2)" "rbt_wf (indexOrder (pl' t1)) t2"
    "keys t2 = peers pl" "set (contents t2) = Set.insert (p, 1) (set (contents t1))"
    using comparator.insert_apart [OF comparator_indexOrder wf1 new, of 1] t1(3) p by (auto simp: insert_absorb)
  have b: "static (peerAt (pl' t1) q) \<longleftrightarrow> static (peerAt pl q)"
    "pln_AddressBlock (peerAt (pl' t1) q) = pln_AddressBlock (peerAt pl q)" for q
    by (simp_all add: at static_def)
  have "list_ok ((pl' t1)\<lparr>pl_Index := t2\<rparr>)"
  proof (rule list_okI)
    show "rbt_wf (timerOrder ((pl' t1)\<lparr>pl_Index := t2\<rparr>)) (pl_Timer ((pl' t1)\<lparr>pl_Index := t2\<rparr>))"
      using timer_reidentify [OF list_okD(2) [OF ok], of p "pl' t1"] ts by (simp add: at timed_def pl'_def)
    show "x = y" if "x \<in> peers ((pl' t1)\<lparr>pl_Index := t2\<rparr>)" "y \<in> peers ((pl' t1)\<lparr>pl_Index := t2\<rparr>)"
      "static (peerAt ((pl' t1)\<lparr>pl_Index := t2\<rparr>) x)" "static (peerAt ((pl' t1)\<lparr>pl_Index := t2\<rparr>) y)"
      "blockOrder (pln_AddressBlock (peerAt ((pl' t1)\<lparr>pl_Index := t2\<rparr>) x))
         (pln_AddressBlock (peerAt ((pl' t1)\<lparr>pl_Index := t2\<rparr>) y)) = 0" for x y
      using list_okD(9) [OF ok, of x y] that b t2(3) by simp
    show "snd e = 1" if "e \<in> set (contents (pl_Index ((pl' t1)\<lparr>pl_Index := t2\<rparr>)))" for e
      using that t2(4) t1(4) list_okD(6) [OF ok, of e] by auto
    show "peer_ok (pl_OwnIdentifier ((pl' t1)\<lparr>pl_Index := t2\<rparr>)) (peerAt ((pl' t1)\<lparr>pl_Index := t2\<rparr>) q)"
      if "q \<in> peers ((pl' t1)\<lparr>pl_Index := t2\<rparr>)" for q
    proof -
      have "peer_ok (pl_OwnIdentifier pl) (peerAt (pl' t1) q)"
        using list_okD(7) [OF ok, of q] that j b [of q] t2(3) by (cases "q = p") (simp_all add: at peer_ok_def static_def)
      then show ?thesis by (simp add: pl'_def)
    qed
  qed (use t2(2,3) p j list_ok_dom [OF ok] list_okD(4) [OF ok p] list_okD(8) [OF ok] in \<open>auto simp: at pl'_def\<close>)
  then show ?thesis using t1(1) t2(1,3) by (intro exI [of _ t1] exI [of _ t2]) simp
qed

end
