(* ===== verification/RSP_HandlespaceLaws.thy ===== *)
theory RSP_HandlespaceLaws
  imports RSP_KeyStorage
begin

text \<open>
  The invariant of the handlespace and its preservation: every storage holds exactly the entries
  it is to hold, the counters count, and the checksums are the sums over the pool elements.
\<close>

section \<open>Storages of named nodes\<close>

text \<open>
  A storage in which the entry of a node contains its name: the entries of the nodes in \<open>L\<close>.
\<close>

locale named_storage = key_storage cmp for cmp :: "'e \<Rightarrow> 'e \<Rightarrow> int" +
  fixes entry :: "peName \<Rightarrow> PoolElementNode \<Rightarrow> 'e" and name :: "'e \<Rightarrow> peName"
  assumes name_entry: "name (entry p n) = p"
begin

lemma entry_name: "entry p n = entry q m \<Longrightarrow> p = q"
  by (metis name_entry)

definition links :: "'e RedBlackTree \<Rightarrow> (peName \<Rightarrow> PoolElementNode) \<Rightarrow> peName set \<Rightarrow> bool" where
  "links t f L \<longleftrightarrow> rbt_wf cmp t \<and> keys t = (\<lambda>p. entry p (f p)) ` L"

lemma entry_iff: "entry p n = entry q m \<longleftrightarrow> p = q \<and> entry p n = entry p m"
  using entry_name [of p n q m] by blast

lemma links_other: "links t f L \<Longrightarrow> entry p n \<in> keys t \<Longrightarrow> p \<in> L"
  using entry_name [of p n] unfolding links_def image_iff by blast

lemma links_in: "links t f L \<Longrightarrow> entry p (f p) \<in> keys t \<longleftrightarrow> p \<in> L"
  using links_other [of t f L p "f p"] unfolding links_def by blast

lemma links_linked: "links t f L \<Longrightarrow> isLinked cmp t (entry p (f p)) \<longleftrightarrow> p \<in> L"
  using links_in [of t f L p] by (simp add: linked_key links_def)

lemma links_update: "p \<notin> L \<Longrightarrow> links t (f(p := n)) L \<longleftrightarrow> links t f L"
proof -
  assume "p \<notin> L"
  then have "(\<lambda>q. entry q ((f(p := n)) q)) ` L = (\<lambda>q. entry q (f q)) ` L" by (intro image_cong) auto
  then show ?thesis by (simp add: links_def)
qed

lemma links_same_entry: "entry p n = entry p (f p) \<Longrightarrow> links t (f(p := n)) L \<longleftrightarrow> links t f L"
proof -
  assume "entry p n = entry p (f p)"
  then have "(\<lambda>q. entry q ((f(p := n)) q)) ` L = (\<lambda>q. entry q (f q)) ` L" by (intro image_cong) auto
  then show ?thesis by (simp add: links_def)
qed

lemma links_cong: "(\<And>q. q \<in> L \<Longrightarrow> entry q (g q) = entry q (f q)) \<Longrightarrow> links t g L \<longleftrightarrow> links t f L"
proof -
  assume "\<And>q. q \<in> L \<Longrightarrow> entry q (g q) = entry q (f q)"
  then have "(\<lambda>q. entry q (g q)) ` L = (\<lambda>q. entry q (f q)) ` L" by (intro image_cong) auto
  then show ?thesis by (simp add: links_def)
qed

lemma links_remove:
  assumes "links t f L"
  shows "\<exists>t'. removeLinked cmp t (entry p (f p)) = Inr t' \<and> links t' f (L - {p})"
proof -
  obtain t' where "removeLinked cmp t (entry p (f p)) = Inr t'" "rbt_wf cmp t'" "keys t' = keys t - {entry p (f p)}"
    using remove_key [of t "entry p (f p)"] assms unfolding links_def by blast
  moreover have "(\<lambda>q. entry q (f q)) ` L - {entry p (f p)} = (\<lambda>q. entry q (f q)) ` (L - {p})"
  proof (intro set_eqI iffI)
    fix e assume "e \<in> (\<lambda>q. entry q (f q)) ` L - {entry p (f p)}"
    then obtain q where "q \<in> L" "e = entry q (f q)" "q \<noteq> p" by auto
    then show "e \<in> (\<lambda>q. entry q (f q)) ` (L - {p})" by simp
  next
    fix e assume "e \<in> (\<lambda>q. entry q (f q)) ` (L - {p})"
    then obtain q where q: "q \<in> L" "e = entry q (f q)" "q \<noteq> p" by auto
    then have "e \<noteq> entry p (f p)" using entry_name [of q "f q" p "f p"] by auto
    then show "e \<in> (\<lambda>q. entry q (f q)) ` L - {entry p (f p)}" using q by simp
  qed
  ultimately show ?thesis using assms by (simp add: links_def)
qed

lemma links_insert:
  assumes "links t f L" "p \<notin> L"
  shows "\<exists>t'. insertChecked cmp t (entry p n) = Inr t' \<and> links t' (f(p := n)) (Set.insert p L)"
proof -
  have "entry p n \<notin> keys t" using links_other [OF assms(1)] assms(2) by blast
  then obtain t' where t: "insertChecked cmp t (entry p n) = Inr t'" "rbt_wf cmp t'" "keys t' = Set.insert (entry p n) (keys t)"
    using insert_key [of t "entry p n"] assms(1) unfolding links_def by blast
  have "keys t = (\<lambda>q. entry q ((f(p := n)) q)) ` L" using assms links_update [of p L t f n] by (simp add: links_def)
  then have "keys t' = (\<lambda>q. entry q ((f(p := n)) q)) ` Set.insert p L" using t(3) by simp
  then show ?thesis using t by (auto simp: links_def)
qed

lemma links_new: "links RedBlackTreeNew f {}"
  by (simp add: links_def RedBlackTreeNew_wf)

lemma links_size: "links t f L \<Longrightarrow> RedBlackTreeGetElements t = card L"
proof -
  assume l: "links t f L"
  have "inj_on (\<lambda>p. entry p (f p)) L" using entry_name by (intro inj_onI)
  then have "card ((\<lambda>p. entry p (f p)) ` L) = card L" by (rule card_image)
  then show ?thesis using l elements_card by (simp add: links_def)
qed

end

interpretation timer_links: named_storage poolElementTimerStorageNodeComparison timerEntry ofTimerEntry
  by unfold_locales (simp add: timerEntry_def ofTimerEntry_def)

interpretation owner_links: named_storage poolElementOwnershipStorageNodeComparison ownershipEntry ofOwnershipEntry
  by unfold_locales (simp add: ownershipEntry_def ofOwnershipEntry_def)

interpretation connection_links: named_storage poolElementConnectionStorageNodeComparison connectionEntry ofConnectionEntry
  by unfold_locales (simp add: connectionEntry_def ofConnectionEntry_def)

section \<open>The invariant\<close>

definition elements :: "PoolHandlespaceNode \<Rightarrow> peName set" where
  "elements hs = {p. \<exists>pn. hsn_PoolNodes hs (fst p) = Some pn \<and> snd p \<in> pool_nodes pn}"

definition compatible :: "PoolNode \<Rightarrow> PoolElementNode \<Rightarrow> bool" where
  "compatible pn n \<longleftrightarrow> poolNodeCheckPoolElementNodeCompatibility pn n = Inr RSPERR_OKAY"

definition pool_ok :: "handleName \<Rightarrow> PoolNode \<Rightarrow> bool" where
  "pool_ok h pn \<longleftrightarrow> ph_wf (pn_Handle pn) \<and> ph_bytes (pn_Handle pn) = h \<and> pool_wf pn \<and>
     (\<forall>i \<in> pool_nodes pn. compatible pn (node pn i))"

definition pools_wf :: "PoolHandlespaceNode \<Rightarrow> bool" where
  "pools_wf hs \<longleftrightarrow> rbt_wf poolIndexStorageNodeComparison (hsn_PoolIndexStorage hs) \<and>
     keys (hsn_PoolIndexStorage hs) = dom (hsn_PoolNodes hs) \<and>
     (\<forall>h pn. hsn_PoolNodes hs h = Some pn \<longrightarrow> pool_ok h pn)"

definition no_empty_pool :: "PoolHandlespaceNode \<Rightarrow> bool" where
  "no_empty_pool hs \<longleftrightarrow> (\<forall>h pn. hsn_PoolNodes hs h = Some pn \<longrightarrow> pool_nodes pn \<noteq> {})"

text \<open>
  A pool element with a home registrar is in the ownership storage, one with a connection in
  the connection storage; a pool element has at most one timer.
\<close>

definition links_wf :: "PoolHandlespaceNode \<Rightarrow> bool" where
  "links_wf hs \<longleftrightarrow>
     (\<exists>L. owner_links.links (hsn_PoolElementOwnershipStorage hs) (elementAt hs) L \<and> L \<subseteq> elements hs \<and>
        (\<forall>p \<in> elements hs. pen_HomeRegistrarIdentifier (elementAt hs p) \<noteq> 0 \<longrightarrow> p \<in> L)) \<and>
     connection_links.links (hsn_PoolElementConnectionStorage hs) (elementAt hs)
       {p \<in> elements hs. 0 < pen_ConnectionSocketDescriptor (elementAt hs p)} \<and>
     (\<exists>L. timer_links.links (hsn_PoolElementTimerStorage hs) (elementAt hs) L \<and> L \<subseteq> elements hs)"

definition owned :: "PoolHandlespaceNode \<Rightarrow> peName set" where
  "owned hs = {p \<in> elements hs. pen_HomeRegistrarIdentifier (elementAt hs p) = hsn_HomeRegistrarIdentifier hs}"

text \<open>The checksum of a pool element depends on its name only.\<close>

definition nameChecksum :: "peName \<Rightarrow> u32" where
  "nameChecksum p = handlespaceChecksumCompute (handlespaceChecksumCompute INITIAL_HANDLESPACE_CHECKSUM (fst p)) (be32 (snd p))"

definition sums_wf :: "PoolHandlespaceNode \<Rightarrow> bool" where
  "sums_wf hs \<longleftrightarrow> (\<forall>p \<in> elements hs. pen_Checksum (elementAt hs p) = nameChecksum p) \<and>
     hsn_HandlespaceChecksum hs = sum nameChecksum (elements hs) \<and>
     hsn_OwnershipChecksum hs = sum nameChecksum (owned hs) \<and>
     hsn_PoolElements hs = card (elements hs) \<and> hsn_OwnedPoolElements hs = card (owned hs)"

definition hs_wf :: "PoolHandlespaceNode \<Rightarrow> bool" where
  "hs_wf hs \<longleftrightarrow> pools_wf hs \<and> no_empty_pool hs \<and> links_wf hs \<and> sums_wf hs"

lemma hs_wfD: "hs_wf hs \<Longrightarrow> pools_wf hs" "hs_wf hs \<Longrightarrow> no_empty_pool hs" "hs_wf hs \<Longrightarrow> links_wf hs" "hs_wf hs \<Longrightarrow> sums_wf hs"
  by (simp_all add: hs_wf_def)

lemma poolAt_eq: "hsn_PoolNodes hs h = Some pn \<Longrightarrow> poolAt hs h = pn"
  by (simp add: poolAt_def)

lemma elements_at: "p \<in> elements hs \<Longrightarrow> hsn_PoolNodes hs (fst p) = Some (poolAt hs (fst p)) \<and> snd p \<in> pool_nodes (poolAt hs (fst p))"
  by (auto simp: elements_def poolAt_def)

lemma pool_ok_at: "pools_wf hs \<Longrightarrow> p \<in> elements hs \<Longrightarrow> pool_ok (fst p) (poolAt hs (fst p))"
  using elements_at [of p hs] by (simp add: pools_wf_def)

lemma poolHandlespaceNodeNew_wf: "hs_wf (poolHandlespaceNodeNew r)" "elements (poolHandlespaceNodeNew r) = {}"
proof -
  show e: "elements (poolHandlespaceNodeNew r) = {}" by (simp add: elements_def poolHandlespaceNodeNew_def)
  show "hs_wf (poolHandlespaceNodeNew r)"
    unfolding hs_wf_def pools_wf_def no_empty_pool_def links_wf_def sums_wf_def owned_def e
    by (auto simp: poolHandlespaceNodeNew_def RedBlackTreeNew_wf owner_links.links_new connection_links.links_new
        timer_links.links_new intro!: exI [of _ "{}"])
qed

lemma pool_nodes_finite: "pool_wf pn \<Longrightarrow> finite (pool_nodes pn)"
  using pool_wfD(2) [of pn] by (metis List.finite_set finite_imageI indexed_def)

lemma finite_elements: "pools_wf hs \<Longrightarrow> finite (elements hs)"
proof -
  assume wf: "pools_wf hs"
  have "finite (dom (hsn_PoolNodes hs))" using wf finite_keys [of "hsn_PoolIndexStorage hs"] by (simp add: pools_wf_def)
  then have "finite (Sigma (dom (hsn_PoolNodes hs)) (\<lambda>h. pool_nodes (poolAt hs h)))"
    using wf by (auto simp: pools_wf_def pool_ok_def poolAt_def intro!: finite_SigmaI pool_nodes_finite)
  moreover have "elements hs \<subseteq> Sigma (dom (hsn_PoolNodes hs)) (\<lambda>h. pool_nodes (poolAt hs h))"
    by (auto simp: elements_def poolAt_def)
  ultimately show ?thesis by (rule rev_finite_subset)
qed

lemma checksum_name: "pools_wf hs \<Longrightarrow> hsn_PoolNodes hs (fst p) = Some pn \<Longrightarrow> poolElementChecksum hs p = nameChecksum p"
  by (auto simp: pools_wf_def pool_ok_def poolElementChecksum_def poolElementNodeComputeChecksum_def
      nameChecksum_def poolAt_eq ph_bytes_def)

section \<open>Changing a pool or a node\<close>

lemma setPool_simps [simp]:
  "hsn_PoolNodes (setPool h pn hs) = (hsn_PoolNodes hs)(h \<mapsto> pn)"
  "hsn_PoolIndexStorage (setPool h pn hs) = hsn_PoolIndexStorage hs"
  "hsn_PoolElementTimerStorage (setPool h pn hs) = hsn_PoolElementTimerStorage hs"
  "hsn_PoolElementConnectionStorage (setPool h pn hs) = hsn_PoolElementConnectionStorage hs"
  "hsn_PoolElementOwnershipStorage (setPool h pn hs) = hsn_PoolElementOwnershipStorage hs"
  "hsn_HandlespaceChecksum (setPool h pn hs) = hsn_HandlespaceChecksum hs"
  "hsn_OwnershipChecksum (setPool h pn hs) = hsn_OwnershipChecksum hs"
  "hsn_HomeRegistrarIdentifier (setPool h pn hs) = hsn_HomeRegistrarIdentifier hs"
  "hsn_PoolElements (setPool h pn hs) = hsn_PoolElements hs"
  "hsn_OwnedPoolElements (setPool h pn hs) = hsn_OwnedPoolElements hs"
  by (simp_all add: setPool_def)

lemma poolAt_cong: "hsn_PoolNodes hs' = hsn_PoolNodes hs \<Longrightarrow> poolAt hs' = poolAt hs"
  by (simp add: poolAt_def fun_eq_iff)

lemma elements_cong: "hsn_PoolNodes hs' = hsn_PoolNodes hs \<Longrightarrow> elements hs' = elements hs"
  by (simp add: elements_def)

lemma elementAt_cong: "hsn_PoolNodes hs' = hsn_PoolNodes hs \<Longrightarrow> elementAt hs' = elementAt hs"
  by (intro ext) (simp add: elementAt_def poolAt_cong [of hs' hs])

lemma poolAt_setPool [simp]: "poolAt (setPool h pn hs) g = (if g = h then pn else poolAt hs g)"
  by (simp add: poolAt_def)

lemma elementAt_setPool: "elementAt (setPool h pn hs) p = (if fst p = h then node pn (snd p) else elementAt hs p)"
  by (simp add: elementAt_def)

lemma elements_setPool: "elements (setPool h pn hs) = {p \<in> elements hs. fst p \<noteq> h} \<union> {h} \<times> pool_nodes pn"
  by (auto simp: elements_def)

lemma elements_setPool_same:
  "hsn_PoolNodes hs h = Some pn \<Longrightarrow> pool_nodes pn' = pool_nodes pn \<Longrightarrow> elements (setPool h pn' hs) = elements hs"
  by (simp add: elements_def, intro Collect_cong, case_tac "fst p = h"; simp)

lemma pools_wf_setPool:
  assumes "pools_wf hs" "h \<in> dom (hsn_PoolNodes hs)" "pool_ok h pn"
  shows "pools_wf (setPool h pn hs)"
  using assms by (auto simp: pools_wf_def)

text \<open>Nodes that agree in what the pool stores and checks.\<close>

definition harmless :: "PoolElementNode \<Rightarrow> PoolElementNode \<Rightarrow> bool" where
  "harmless n m \<longleftrightarrow> sortingFields m = sortingFields n \<and> pen_SelectionValue m = pen_SelectionValue n \<and>
     pen_UserTransport m = pen_UserTransport n \<and> pen_RegistratorTransport m = pen_RegistratorTransport n"

lemma harmless_update [simp]:
  "harmless n (n\<lparr>pen_Flags := fl\<rparr>)" "harmless n (n\<lparr>pen_Checksum := c\<rparr>)"
  "harmless n (n\<lparr>pen_Flags := fl, pen_HomeRegistrarIdentifier := r\<rparr>)"
  "harmless n (n\<lparr>pen_ConnectionSocketDescriptor := sd, pen_ConnectionAssocID := a\<rparr>)"
  "harmless n (n\<lparr>pen_TimerCode := tc, pen_TimerTimeStamp := ts\<rparr>)"
  by (simp_all add: harmless_def sortingFields_def)

lemma compatible_cong:
  assumes "pn_Protocol pn' = pn_Protocol pn" "pn_Flags pn' = pn_Flags pn" "pn_Policy pn' = pn_Policy pn"
    "pen_Identifier m = pen_Identifier n" "pen_UserTransport m = pen_UserTransport n"
    "pen_RegistratorTransport m = pen_RegistratorTransport n" "pen_PolicySettings m = pen_PolicySettings n"
  shows "compatible pn' m = compatible pn n"
  unfolding compatible_def poolNodeCheckPoolElementNodeCompatibility_def assms ..

lemma pool_ok_modify:
  assumes ok: "pool_ok h pn" and i: "i \<in> pool_nodes pn" and f: "harmless (node pn i) (f (node pn i))"
  shows "pool_ok h (modifyNode i f pn)"
proof -
  have wf: "pool_wf pn" using ok by (simp add: pool_ok_def)
  have s: "sel_inv {} (modifyNode i f pn)"
    using f by (intro modify_fields [OF pool_wfD(3) [OF wf] i]) (simp_all add: harmless_def)
  have k: "pen_PolicySettings (f (node pn i)) = pen_PolicySettings (node pn i)" "pen_Identifier (f (node pn i)) = pen_Identifier (node pn i)"
    using f by (simp_all add: harmless_def sortingFields_def)
  have c: "compatible (modifyNode i f pn) (node (modifyNode i f pn) j) = compatible pn (node pn j)" for j
    by (rule compatible_cong) (use f k in \<open>simp_all add: harmless_def\<close>)
  have "all_valid (modifyNode i f pn)" using pool_wfD(4) [OF wf] i k by (auto simp: all_valid_def)
  then have "pool_wf (modifyNode i f pn)" using s wf i by (simp add: pool_wf_def idx_inv_def indexed_def)
  then show ?thesis using ok i c by (simp add: pool_ok_def)
qed

lemma pool_ok_same:
  assumes ok: "pool_ok h pn" and s: "same_pool pn pn'" "sel_inv {} pn'"
  shows "pool_ok h pn'"
proof -
  have "compatible pn' (node pn' j) = compatible pn (node pn j)" for j
    using s(1) registration_eqD [of "node pn' j" "node pn j"] by (intro compatible_cong) (simp_all add: same_pool_def)
  then show ?thesis using ok pool_wf_same [OF _ s] s(1) by (simp add: pool_ok_def same_pool_def)
qed

lemma setElement_ok:
  assumes wf: "pools_wf hs" and p: "p \<in> elements hs" and f: "harmless (elementAt hs p) (f (elementAt hs p))"
  shows "pools_wf (setElement p f hs)" "elements (setElement p f hs) = elements hs"
    "elementAt (setElement p f hs) = (elementAt hs)(p := f (elementAt hs p))"
    "no_empty_pool (setElement p f hs) = no_empty_pool hs"
proof -
  note e = elements_at [OF p]
  have i: "snd p \<in> pool_nodes (poolAt hs (fst p))" using e by blast
  have m: "pool_nodes (modifyNode (snd p) f (poolAt hs (fst p))) = pool_nodes (poolAt hs (fst p))"
    by (rule pool_nodes_modify [OF i])
  show "pools_wf (setElement p f hs)" unfolding setElement_def
    by (rule pools_wf_setPool [OF wf]) (use e f pool_ok_at [OF wf p] in \<open>auto simp: elementAt_def intro!: pool_ok_modify\<close>)
  show "elements (setElement p f hs) = elements hs" unfolding setElement_def
    by (rule elements_setPool_same) (use e m in auto)
  show "elementAt (setElement p f hs) = (elementAt hs)(p := f (elementAt hs p))"
    by (auto simp: setElement_def elementAt_setPool elementAt_def fun_eq_iff prod_eq_iff)
  show "no_empty_pool (setElement p f hs) = no_empty_pool hs"
    using e m i by (auto simp: no_empty_pool_def setElement_def)
qed

lemma setElement_simps [simp]:
  "hsn_PoolIndexStorage (setElement p f hs) = hsn_PoolIndexStorage hs"
  "hsn_PoolElementTimerStorage (setElement p f hs) = hsn_PoolElementTimerStorage hs"
  "hsn_PoolElementConnectionStorage (setElement p f hs) = hsn_PoolElementConnectionStorage hs"
  "hsn_PoolElementOwnershipStorage (setElement p f hs) = hsn_PoolElementOwnershipStorage hs"
  "hsn_HandlespaceChecksum (setElement p f hs) = hsn_HandlespaceChecksum hs"
  "hsn_OwnershipChecksum (setElement p f hs) = hsn_OwnershipChecksum hs"
  "hsn_HomeRegistrarIdentifier (setElement p f hs) = hsn_HomeRegistrarIdentifier hs"
  "hsn_PoolElements (setElement p f hs) = hsn_PoolElements hs"
  "hsn_OwnedPoolElements (setElement p f hs) = hsn_OwnedPoolElements hs"
  by (simp_all add: setElement_def)

section \<open>The three links of a node\<close>

text \<open>The invariant of the links over the nodes \<open>f\<close> of the names in \<open>E\<close>.\<close>

definition owners_wf :: "ownershipEntry RedBlackTree \<Rightarrow> (peName \<Rightarrow> PoolElementNode) \<Rightarrow> peName set \<Rightarrow> bool" where
  "owners_wf t f E \<longleftrightarrow> (\<exists>L. owner_links.links t f L \<and> L \<subseteq> E \<and> (\<forall>p \<in> E. pen_HomeRegistrarIdentifier (f p) \<noteq> 0 \<longrightarrow> p \<in> L))"

definition connections_wf :: "connectionEntry RedBlackTree \<Rightarrow> (peName \<Rightarrow> PoolElementNode) \<Rightarrow> peName set \<Rightarrow> bool" where
  "connections_wf t f E \<longleftrightarrow> connection_links.links t f {p \<in> E. 0 < pen_ConnectionSocketDescriptor (f p)}"

definition timers_wf :: "timerEntry RedBlackTree \<Rightarrow> (peName \<Rightarrow> PoolElementNode) \<Rightarrow> peName set \<Rightarrow> bool" where
  "timers_wf t f E \<longleftrightarrow> (\<exists>L. timer_links.links t f L \<and> L \<subseteq> E)"

lemma links_wf_alt:
  "links_wf hs \<longleftrightarrow> owners_wf (hsn_PoolElementOwnershipStorage hs) (elementAt hs) (elements hs) \<and>
     connections_wf (hsn_PoolElementConnectionStorage hs) (elementAt hs) (elements hs) \<and>
     timers_wf (hsn_PoolElementTimerStorage hs) (elementAt hs) (elements hs)"
  by (simp add: links_wf_def owners_wf_def connections_wf_def timers_wf_def)

lemma owners_wf_cong:
  assumes "\<And>p. p \<in> E \<Longrightarrow> pen_HomeRegistrarIdentifier (g p) = pen_HomeRegistrarIdentifier (f p)"
  shows "owners_wf t g E \<longleftrightarrow> owners_wf t f E"
proof -
  have l: "owner_links.links t g L \<longleftrightarrow> owner_links.links t f L" if "L \<subseteq> E" for L
    by (rule owner_links.links_cong) (use assms that in \<open>auto simp: ownershipEntry_def\<close>)
  have r: "(\<forall>p \<in> E. pen_HomeRegistrarIdentifier (g p) \<noteq> 0 \<longrightarrow> p \<in> L) \<longleftrightarrow>
      (\<forall>p \<in> E. pen_HomeRegistrarIdentifier (f p) \<noteq> 0 \<longrightarrow> p \<in> L)" for L
    by (intro ball_cong) (simp_all add: assms)
  show ?thesis unfolding owners_wf_def r using l by blast
qed

lemma connections_wf_cong:
  assumes "\<And>p. p \<in> E \<Longrightarrow> pen_ConnectionSocketDescriptor (g p) = pen_ConnectionSocketDescriptor (f p) \<and>
    pen_ConnectionAssocID (g p) = pen_ConnectionAssocID (f p)"
  shows "connections_wf t g E \<longleftrightarrow> connections_wf t f E"
proof -
  have c: "{p \<in> E. 0 < pen_ConnectionSocketDescriptor (g p)} = {p \<in> E. 0 < pen_ConnectionSocketDescriptor (f p)}"
    using assms by auto
  show ?thesis unfolding connections_wf_def c
    by (rule connection_links.links_cong) (use assms in \<open>simp add: connectionEntry_def\<close>)
qed

lemma timers_wf_cong:
  assumes "\<And>p. p \<in> E \<Longrightarrow> pen_TimerTimeStamp (g p) = pen_TimerTimeStamp (f p)"
  shows "timers_wf t g E \<longleftrightarrow> timers_wf t f E"
proof -
  have "timer_links.links t g L \<longleftrightarrow> timer_links.links t f L" if "L \<subseteq> E" for L
    by (rule timer_links.links_cong) (use assms that in \<open>auto simp: timerEntry_def\<close>)
  then show ?thesis unfolding timers_wf_def by blast
qed

text \<open>Removing the links of a node.\<close>

lemma owners_remove:
  assumes "owners_wf t f E"
  shows "\<exists>t'. removeLinked poolElementOwnershipStorageNodeComparison t (ownershipEntry p (f p)) = Inr t' \<and> owners_wf t' f (E - {p})"
proof -
  obtain L where L: "owner_links.links t f L" "L \<subseteq> E" "\<forall>p \<in> E. pen_HomeRegistrarIdentifier (f p) \<noteq> 0 \<longrightarrow> p \<in> L"
    using assms by (auto simp: owners_wf_def)
  obtain t' where "removeLinked poolElementOwnershipStorageNodeComparison t (ownershipEntry p (f p)) = Inr t'"
    "owner_links.links t' f (L - {p})" using owner_links.links_remove [OF L(1), of p] by blast
  then show ?thesis using L(2,3) by (auto simp: owners_wf_def intro!: exI [of _ "L - {p}"])
qed

lemma owners_insert:
  assumes "owners_wf t f E" "p \<notin> E"
  shows "\<exists>t'. insertChecked poolElementOwnershipStorageNodeComparison t (ownershipEntry p n) = Inr t' \<and>
    owners_wf t' (f(p := n)) (Set.insert p E)"
proof -
  obtain L where L: "owner_links.links t f L" "L \<subseteq> E" "\<forall>p \<in> E. pen_HomeRegistrarIdentifier (f p) \<noteq> 0 \<longrightarrow> p \<in> L"
    using assms(1) by (auto simp: owners_wf_def)
  have "p \<notin> L" using L(2) assms(2) by blast
  from owner_links.links_insert [OF L(1) this, of n] obtain t' where
    "insertChecked poolElementOwnershipStorageNodeComparison t (ownershipEntry p n) = Inr t'"
    "owner_links.links t' (f(p := n)) (Set.insert p L)" by blast
  then show ?thesis using L(2,3) by (auto simp: owners_wf_def intro!: exI [of _ "Set.insert p L"])
qed

lemma owners_skip:
  assumes "owners_wf t f E" "p \<notin> E" "pen_HomeRegistrarIdentifier n = 0"
  shows "owners_wf t (f(p := n)) (Set.insert p E)"
proof -
  obtain L where L: "owner_links.links t f L" "L \<subseteq> E" "\<forall>p \<in> E. pen_HomeRegistrarIdentifier (f p) \<noteq> 0 \<longrightarrow> p \<in> L"
    using assms(1) by (auto simp: owners_wf_def)
  have "owner_links.links t (f(p := n)) L" using L(1,2) assms(2) owner_links.links_update [of p L t f n] by blast
  then show ?thesis using L(2,3) assms(3) by (auto simp: owners_wf_def intro!: exI [of _ L])
qed

lemma connections_remove:
  assumes "connections_wf t f E"
  shows "\<exists>t'. removeLinked poolElementConnectionStorageNodeComparison t (connectionEntry p (f p)) = Inr t' \<and> connections_wf t' f (E - {p})"
proof -
  have c: "{q \<in> E - {p}. 0 < pen_ConnectionSocketDescriptor (f q)} = {q \<in> E. 0 < pen_ConnectionSocketDescriptor (f q)} - {p}" by auto
  show ?thesis
    using connection_links.links_remove [OF assms [unfolded connections_wf_def], of p] unfolding connections_wf_def c .
qed

lemma connections_insert:
  assumes "connections_wf t f E" "p \<notin> E"
  shows "\<exists>t'. (if 0 < pen_ConnectionSocketDescriptor n
     then insertChecked poolElementConnectionStorageNodeComparison t (connectionEntry p n) else Inr t) = Inr t' \<and>
    connections_wf t' (f(p := n)) (Set.insert p E)"
proof -
  let ?C = "\<lambda>f E. {q \<in> E. 0 < pen_ConnectionSocketDescriptor (f q)}"
  have p: "p \<notin> ?C f E" using assms(2) by simp
  have c: "?C (f(p := n)) (Set.insert p E) = (if 0 < pen_ConnectionSocketDescriptor n then Set.insert p (?C f E) else ?C f E)"
    using assms(2) by auto
  show ?thesis
    using connection_links.links_insert [OF assms(1) [unfolded connections_wf_def] p, of n]
      connection_links.links_update [OF p, of t f n] assms(1)
    unfolding connections_wf_def c by (simp del: fun_upd_apply)
qed

lemma timers_remove:
  assumes "timers_wf t f E"
  shows "\<exists>t'. removeLinked poolElementTimerStorageNodeComparison t (timerEntry p (f p)) = Inr t' \<and> timers_wf t' f (E - {p}) \<and>
    keys t' = keys t - {timerEntry p (f p)}"
proof -
  obtain L where L: "timer_links.links t f L" "L \<subseteq> E" using assms by (auto simp: timers_wf_def)
  then have wf: "rbt_wf poolElementTimerStorageNodeComparison t" by (simp add: timer_links.links_def)
  obtain t' where "removeLinked poolElementTimerStorageNodeComparison t (timerEntry p (f p)) = Inr t'"
    "timer_links.links t' f (L - {p})" using timer_links.links_remove [OF L(1), of p] by blast
  then show ?thesis using L(2) timers.remove_key [OF wf, of "timerEntry p (f p)"]
    by (auto simp: timers_wf_def intro!: exI [of _ "L - {p}"])
qed

lemma timers_mono: "timers_wf t f E \<Longrightarrow> E \<subseteq> F \<Longrightarrow> timers_wf t f F"
  unfolding timers_wf_def by blast

lemma timers_update: "timers_wf t f E \<Longrightarrow> p \<notin> E \<Longrightarrow> timers_wf t (f(p := n)) E"
  using timer_links.links_update [of p _ t f n] unfolding timers_wf_def by blast

lemma timers_insert:
  assumes "timers_wf t f E" "\<not> isLinked poolElementTimerStorageNodeComparison t (timerEntry p (f p))" "p \<in> E"
  shows "\<exists>t'. insertChecked poolElementTimerStorageNodeComparison t (timerEntry p n) = Inr t' \<and>
    timers_wf t' (f(p := n)) E \<and> keys t' = Set.insert (timerEntry p n) (keys t)"
proof -
  obtain L where L: "timer_links.links t f L" "L \<subseteq> E" using assms(1) by (auto simp: timers_wf_def)
  have p: "p \<notin> L" using assms(2) timer_links.links_linked [OF L(1), of p] by simp
  from timer_links.links_insert [OF L(1) p, of n] obtain t' where
    t': "insertChecked poolElementTimerStorageNodeComparison t (timerEntry p n) = Inr t'"
    "timer_links.links t' (f(p := n)) (Set.insert p L)" by blast
  have wf: "rbt_wf poolElementTimerStorageNodeComparison t" using L(1) by (simp add: timer_links.links_def)
  have "timerEntry p n \<notin> keys t" using timer_links.links_other [OF L(1)] p by blast
  from timers.insert_key [OF wf this] t'(1) have "keys t' = Set.insert (timerEntry p n) (keys t)" by simp
  then show ?thesis using t' L(2) assms(3) by (auto simp: timers_wf_def intro!: exI [of _ "Set.insert p L"])
qed

end
