(* ===== verification/RSP_HandlespaceOps.thy ===== *)
theory RSP_HandlespaceOps
  imports RSP_HandlespaceLaws
begin

text \<open>
  Every operation of the handlespace keeps its invariant: none of the checks of the source fails
  on a well-formed handlespace, and each operation has the effect on the pool elements that the
  registrar relies on.
\<close>

lemmas view_cong = poolAt_cong elements_cong elementAt_cong

section \<open>Frames\<close>

lemma pools_wf_cong:
  "hsn_PoolNodes hs' = hsn_PoolNodes hs \<Longrightarrow> hsn_PoolIndexStorage hs' = hsn_PoolIndexStorage hs \<Longrightarrow> pools_wf hs' = pools_wf hs"
  by (simp add: pools_wf_def)

lemma no_empty_pool_cong: "hsn_PoolNodes hs' = hsn_PoolNodes hs \<Longrightarrow> no_empty_pool hs' = no_empty_pool hs"
  by (simp add: no_empty_pool_def)

text \<open>What the sums and counters count: the pool elements \<open>E\<close>, of which \<open>O\<close> are owned.\<close>

definition counts :: "peName set \<Rightarrow> peName set \<Rightarrow> PoolHandlespaceNode \<Rightarrow> bool" where
  "counts E O' hs \<longleftrightarrow> hsn_HandlespaceChecksum hs = sum nameChecksum E \<and>
     hsn_OwnershipChecksum hs = sum nameChecksum O' \<and> hsn_OwnedPoolElements hs = card O'"

definition stamps :: "(peName \<Rightarrow> PoolElementNode) \<Rightarrow> peName set \<Rightarrow> bool" where
  "stamps f E \<longleftrightarrow> (\<forall>p \<in> E. pen_Checksum (f p) = nameChecksum p)"

lemma sums_wf_alt:
  "sums_wf hs \<longleftrightarrow> stamps (elementAt hs) (elements hs) \<and> counts (elements hs) (owned hs) hs \<and>
     hsn_PoolElements hs = card (elements hs)"
  by (auto simp: sums_wf_def stamps_def counts_def)

lemma counts_cong:
  "hsn_HandlespaceChecksum hs' = hsn_HandlespaceChecksum hs \<Longrightarrow> hsn_OwnershipChecksum hs' = hsn_OwnershipChecksum hs \<Longrightarrow>
     hsn_OwnedPoolElements hs' = hsn_OwnedPoolElements hs \<Longrightarrow> counts E O' hs' = counts E O' hs"
  by (simp add: counts_def)

lemma stamps_cong: "(\<And>p. p \<in> E \<Longrightarrow> pen_Checksum (g p) = pen_Checksum (f p)) \<Longrightarrow> stamps g E = stamps f E"
  by (simp add: stamps_def)

definition withCounts :: "u32 \<Rightarrow> u32 \<Rightarrow> nat \<Rightarrow> PoolHandlespaceNode \<Rightarrow> PoolHandlespaceNode" where
  "withCounts a b c hs = hs\<lparr>hsn_HandlespaceChecksum := a, hsn_OwnershipChecksum := b, hsn_OwnedPoolElements := c\<rparr>"

lemma withCounts_simps [simp]:
  "hsn_PoolNodes (withCounts a b c hs) = hsn_PoolNodes hs" "hsn_PoolIndexStorage (withCounts a b c hs) = hsn_PoolIndexStorage hs"
  "hsn_PoolElementTimerStorage (withCounts a b c hs) = hsn_PoolElementTimerStorage hs"
  "hsn_PoolElementConnectionStorage (withCounts a b c hs) = hsn_PoolElementConnectionStorage hs"
  "hsn_PoolElementOwnershipStorage (withCounts a b c hs) = hsn_PoolElementOwnershipStorage hs"
  "hsn_HomeRegistrarIdentifier (withCounts a b c hs) = hsn_HomeRegistrarIdentifier hs"
  "hsn_PoolElements (withCounts a b c hs) = hsn_PoolElements hs"
  "hsn_Notifications (withCounts a b c hs) = hsn_Notifications hs"
  by (simp_all add: withCounts_def)

lemma uncount_ok:
  assumes c: "counts E O' hs" and p: "p \<in> E" and fin: "finite E" "O' \<subseteq> E"
    and o: "p \<in> O' \<longleftrightarrow> r = hsn_HomeRegistrarIdentifier hs"
  shows "\<exists>a b k. uncount r (nameChecksum p) hs = Inr (withCounts a b k hs) \<and> counts (E - {p}) (O' - {p}) (withCounts a b k hs)"
proof -
  have fo: "finite O'" using fin by (rule rev_finite_subset)
  have d: "sum nameChecksum (F - {p}) = (if p \<in> F then sum nameChecksum F - nameChecksum p else sum nameChecksum F)" if "finite F" for F
    using that by (simp add: sum_diff1)
  have k: "card (O' - {p}) = (if p \<in> O' then card O' - 1 else card O')" by (simp add: card_Diff_singleton_if)
  have g: "p \<in> O' \<Longrightarrow> 0 < card O'" using fo by (auto simp: card_gt_0_iff)
  show ?thesis using c p o g
    by (cases "p \<in> O'")
       (auto simp: uncount_def counts_def withCounts_def Let_def d [OF fin(1)] d [OF fo] k handlespaceChecksumSub_def
          intro!: exI)
qed

lemma recount_ok:
  assumes c: "counts E O' hs" and p: "p \<notin> E" and fin: "finite E" "O' \<subseteq> E"
  shows "\<exists>a b k. recount r (nameChecksum p) hs = withCounts a b k hs \<and>
    counts (Set.insert p E) (if r = hsn_HomeRegistrarIdentifier hs then Set.insert p O' else O') (withCounts a b k hs)"
proof -
  have "finite O'" "p \<notin> O'" using fin p by (auto intro: rev_finite_subset)
  then show ?thesis using c p fin(1)
    by (auto simp: recount_def counts_def withCounts_def Let_def handlespaceChecksumAdd_def add.commute intro!: exI)
qed

section \<open>Timers\<close>

lemma deactivate_ok:
  assumes wf: "hs_wf hs"
  shows "\<exists>hs'. poolHandlespaceNodeDeactivateTimer p hs = Inr hs' \<and> hs_wf hs' \<and> hsn_PoolNodes hs' = hsn_PoolNodes hs \<and>
    hsn_HomeRegistrarIdentifier hs' = hsn_HomeRegistrarIdentifier hs \<and>
    keys (hsn_PoolElementTimerStorage hs') = keys (hsn_PoolElementTimerStorage hs) - {timerEntry p (elementAt hs p)}"
proof -
  have "timers_wf (hsn_PoolElementTimerStorage hs) (elementAt hs) (elements hs)" using hs_wfD(3) [OF wf] by (simp add: links_wf_alt)
  from timers_remove [OF this, of p] obtain t' where
    t: "removeLinked poolElementTimerStorageNodeComparison (hsn_PoolElementTimerStorage hs) (timerEntry p (elementAt hs p)) = Inr t'"
    "timers_wf t' (elementAt hs) (elements hs - {p})"
    "keys t' = keys (hsn_PoolElementTimerStorage hs) - {timerEntry p (elementAt hs p)}" by blast
  let ?hs = "hs\<lparr>hsn_PoolElementTimerStorage := t'\<rparr>"
  have v: "elements ?hs = elements hs" "elementAt ?hs = elementAt hs" "owned ?hs = owned hs"
    by (simp_all add: view_cong [of ?hs hs] owned_def)
  have "hs_wf ?hs"
    using hs_wfD [OF wf] timers_mono [OF t(2)] pools_wf_cong [of ?hs hs] no_empty_pool_cong [of ?hs hs] counts_cong [of ?hs hs]
    by (auto simp: hs_wf_def links_wf_alt sums_wf_alt v)
  then show ?thesis using t by (simp add: poolHandlespaceNodeDeactivateTimer_def)
qed

lemma hs_wfI:
  assumes "pools_wf hs" "no_empty_pool hs"
    "owners_wf (hsn_PoolElementOwnershipStorage hs) (elementAt hs) (elements hs)"
    "connections_wf (hsn_PoolElementConnectionStorage hs) (elementAt hs) (elements hs)"
    "timers_wf (hsn_PoolElementTimerStorage hs) (elementAt hs) (elements hs)"
    "stamps (elementAt hs) (elements hs)" "counts (elements hs) (owned hs) hs" "hsn_PoolElements hs = card (elements hs)"
  shows "hs_wf hs"
  using assms by (simp add: hs_wf_def links_wf_alt sums_wf_alt)

lemma hs_parts:
  assumes "hs_wf hs"
  shows "pools_wf hs" "no_empty_pool hs"
    "owners_wf (hsn_PoolElementOwnershipStorage hs) (elementAt hs) (elements hs)"
    "connections_wf (hsn_PoolElementConnectionStorage hs) (elementAt hs) (elements hs)"
    "timers_wf (hsn_PoolElementTimerStorage hs) (elementAt hs) (elements hs)"
    "stamps (elementAt hs) (elements hs)" "counts (elements hs) (owned hs) hs" "hsn_PoolElements hs = card (elements hs)"
    "finite (elements hs)"
  using assms finite_elements [of hs] by (simp_all add: hs_wf_def links_wf_alt sums_wf_alt)

lemma owned_subset: "owned hs \<subseteq> elements hs"
  by (auto simp: owned_def)

text \<open>The views of an updated handlespace.\<close>

lemma elementAt_simps [simp]:
  "elementAt (withCounts a b c hs) = elementAt hs" "elementAt (hs\<lparr>hsn_PoolElementTimerStorage := t\<rparr>) = elementAt hs"
  "elementAt (hs\<lparr>hsn_PoolElementOwnershipStorage := ot\<rparr>) = elementAt hs"
  "elementAt (hs\<lparr>hsn_PoolElementConnectionStorage := ct\<rparr>) = elementAt hs"
  "elementAt (hs\<lparr>hsn_PoolElements := k\<rparr>) = elementAt hs" "elementAt (notify q n act s r hs) = elementAt hs"
  by (rule elementAt_cong; simp add: notify_def)+

lemma elements_simps [simp]:
  "elements (withCounts a b c hs) = elements hs" "elements (hs\<lparr>hsn_PoolElementTimerStorage := t\<rparr>) = elements hs"
  "elements (hs\<lparr>hsn_PoolElementOwnershipStorage := ot\<rparr>) = elements hs"
  "elements (hs\<lparr>hsn_PoolElementConnectionStorage := ct\<rparr>) = elements hs"
  "elements (hs\<lparr>hsn_PoolElements := k\<rparr>) = elements hs" "elements (notify q n act s r hs) = elements hs"
  by (rule elements_cong; simp add: notify_def)+

lemma pools_wf_simps [simp]:
  "pools_wf (withCounts a b c hs) = pools_wf hs" "pools_wf (hs\<lparr>hsn_PoolElementTimerStorage := t\<rparr>) = pools_wf hs"
  "pools_wf (hs\<lparr>hsn_PoolElementOwnershipStorage := ot\<rparr>) = pools_wf hs"
  "pools_wf (hs\<lparr>hsn_PoolElementConnectionStorage := ct\<rparr>) = pools_wf hs"
  "pools_wf (hs\<lparr>hsn_PoolElements := k\<rparr>) = pools_wf hs" "pools_wf (notify q n act s r hs) = pools_wf hs"
  by (rule pools_wf_cong; simp add: notify_def)+

lemma no_empty_pool_simps [simp]:
  "no_empty_pool (withCounts a b c hs) = no_empty_pool hs" "no_empty_pool (hs\<lparr>hsn_PoolElementTimerStorage := t\<rparr>) = no_empty_pool hs"
  "no_empty_pool (hs\<lparr>hsn_PoolElementOwnershipStorage := ot\<rparr>) = no_empty_pool hs"
  "no_empty_pool (hs\<lparr>hsn_PoolElementConnectionStorage := ct\<rparr>) = no_empty_pool hs"
  "no_empty_pool (hs\<lparr>hsn_PoolElements := k\<rparr>) = no_empty_pool hs" "no_empty_pool (notify q n act s r hs) = no_empty_pool hs"
  by (rule no_empty_pool_cong; simp add: notify_def)+

lemma counts_simps [simp]:
  "counts E O' (hs\<lparr>hsn_PoolElementTimerStorage := t\<rparr>) = counts E O' hs"
  "counts E O' (hs\<lparr>hsn_PoolElementOwnershipStorage := ot\<rparr>) = counts E O' hs"
  "counts E O' (hs\<lparr>hsn_PoolElementConnectionStorage := ct\<rparr>) = counts E O' hs"
  "counts E O' (hs\<lparr>hsn_PoolElements := k\<rparr>) = counts E O' hs" "counts E O' (notify q n act s r hs) = counts E O' hs"
  "counts E O' (setElement p f hs) = counts E O' hs" "counts E O' (setPool h pn hs) = counts E O' hs"
  by (rule counts_cong; simp add: notify_def)+

lemma notify_simps [simp]:
  "hsn_PoolNodes (notify q n act s r hs) = hsn_PoolNodes hs"
  "hsn_PoolElementTimerStorage (notify q n act s r hs) = hsn_PoolElementTimerStorage hs"
  "hsn_PoolElementConnectionStorage (notify q n act s r hs) = hsn_PoolElementConnectionStorage hs"
  "hsn_PoolElementOwnershipStorage (notify q n act s r hs) = hsn_PoolElementOwnershipStorage hs"
  "hsn_HomeRegistrarIdentifier (notify q n act s r hs) = hsn_HomeRegistrarIdentifier hs"
  "hsn_PoolElements (notify q n act s r hs) = hsn_PoolElements hs"
  by (simp_all add: notify_def)

lemma setElement_view: "elementAt (setElement p f hs) = (elementAt hs)(p := f (elementAt hs p))"
  by (auto simp: setElement_def elementAt_setPool elementAt_def fun_eq_iff prod_eq_iff)

text \<open>What a pool is set up with, and the pools of the handlespace with it.\<close>

definition pool_attrs :: "PoolNode \<Rightarrow> PoolHandle \<times> PoolPolicy \<times> int \<times> u32" where
  "pool_attrs pn = (pn_Handle pn, pn_Policy pn, pn_Protocol pn, pn_Flags pn)"

definition attrs :: "PoolHandlespaceNode \<Rightarrow> handleName \<Rightarrow> (PoolHandle \<times> PoolPolicy \<times> int \<times> u32) option" where
  "attrs hs h = map_option pool_attrs (hsn_PoolNodes hs h)"

lemma attrs_cong: "hsn_PoolNodes hs' = hsn_PoolNodes hs \<Longrightarrow> attrs hs' = attrs hs"
  by (simp add: attrs_def fun_eq_iff)

lemma attrs_simps [simp]:
  "attrs (withCounts a b c hs) = attrs hs" "attrs (hs\<lparr>hsn_PoolElementTimerStorage := t\<rparr>) = attrs hs"
  "attrs (hs\<lparr>hsn_PoolElementOwnershipStorage := ot\<rparr>) = attrs hs"
  "attrs (hs\<lparr>hsn_PoolElementConnectionStorage := ct\<rparr>) = attrs hs"
  "attrs (hs\<lparr>hsn_PoolElements := k\<rparr>) = attrs hs" "attrs (notify q n act s r hs) = attrs hs"
  by (rule attrs_cong; simp add: notify_def)+

lemma attrs_setPool: "hsn_PoolNodes hs h = Some pn \<Longrightarrow> pool_attrs pn' = pool_attrs pn \<Longrightarrow> attrs (setPool h pn' hs) = attrs hs"
  by (auto simp: attrs_def fun_eq_iff)

lemma attrs_setElement: "p \<in> elements hs \<Longrightarrow> attrs (setElement p f hs) = attrs hs"
  unfolding setElement_def using elements_at [of p hs]
  by (intro attrs_setPool [where pn = "poolAt hs (fst p)"]) (simp_all add: pool_attrs_def)

lemma attrs_same: "same_pool pn pn' \<Longrightarrow> pool_attrs pn' = pool_attrs pn"
  by (simp add: same_pool_def pool_attrs_def)

lemma owned_cong:
  "elements hs' = elements hs \<Longrightarrow> hsn_HomeRegistrarIdentifier hs' = hsn_HomeRegistrarIdentifier hs \<Longrightarrow>
    (\<And>p. p \<in> elements hs \<Longrightarrow> pen_HomeRegistrarIdentifier (elementAt hs' p) = pen_HomeRegistrarIdentifier (elementAt hs p)) \<Longrightarrow>
    owned hs' = owned hs"
  by (auto simp: owned_def)

lemma activate_ok:
  assumes wf: "hs_wf hs" and p: "p \<in> elements hs" and a: "\<not> poolHandlespaceNodeHasActiveTimer hs p"
  shows "\<exists>hs'. poolHandlespaceNodeActivateTimer p timerCode timeStamp hs = Inr hs' \<and> hs_wf hs' \<and> elements hs' = elements hs \<and>
    elementAt hs' = (elementAt hs)(p := (elementAt hs p)\<lparr>pen_TimerCode := timerCode, pen_TimerTimeStamp := timeStamp\<rparr>) \<and>
    hsn_HomeRegistrarIdentifier hs' = hsn_HomeRegistrarIdentifier hs \<and>
    keys (hsn_PoolElementTimerStorage hs') = Set.insert (timeStamp, snd p, fst p) (keys (hsn_PoolElementTimerStorage hs)) \<and>
    attrs hs' = attrs hs"
proof -
  note w = hs_parts [OF wf]
  let ?f = "\<lambda>n. n\<lparr>pen_TimerCode := timerCode, pen_TimerTimeStamp := timeStamp\<rparr>"
  let ?n = "?f (elementAt hs p)"
  let ?hs1 = "setElement p ?f hs"
  note s = setElement_ok [OF w(1) p, of ?f, simplified]
  obtain t' where t: "insertChecked poolElementTimerStorageNodeComparison (hsn_PoolElementTimerStorage hs) (timerEntry p ?n) = Inr t'"
    "timers_wf t' ((elementAt hs)(p := ?n)) (elements hs)"
    "keys t' = Set.insert (timerEntry p ?n) (keys (hsn_PoolElementTimerStorage hs))"
    using timers_insert [OF w(5) _ p, of ?n] a unfolding poolHandlespaceNodeHasActiveTimer_def by blast
  let ?hs = "?hs1\<lparr>hsn_PoolElementTimerStorage := t'\<rparr>"
  have o: "owned ?hs = owned hs" by (rule owned_cong) (simp_all add: s)
  have "hs_wf ?hs"
  proof (rule hs_wfI)
    show "owners_wf (hsn_PoolElementOwnershipStorage ?hs) (elementAt ?hs) (elements ?hs)"
      using w(3) owners_wf_cong [of "elements hs" "elementAt ?hs" "elementAt hs"] by (simp add: s)
    show "connections_wf (hsn_PoolElementConnectionStorage ?hs) (elementAt ?hs) (elements ?hs)"
      using w(4) connections_wf_cong [of "elements hs" "elementAt ?hs" "elementAt hs"] by (simp add: s)
    show "stamps (elementAt ?hs) (elements ?hs)"
      using w(6) stamps_cong [of "elements hs" "elementAt ?hs" "elementAt hs"] by (simp add: s)
    show "counts (elements ?hs) (owned ?hs) ?hs" unfolding o using w(7) by (simp add: s)
  qed (use s w t in simp_all)
  then show ?thesis using a t s attrs_setElement [OF p] by (simp add: poolHandlespaceNodeActivateTimer_def timerEntry_def)
qed

section \<open>The connection of a pool element\<close>

lemma same_connection: "n\<lparr>pen_ConnectionSocketDescriptor := pen_ConnectionSocketDescriptor n, pen_ConnectionAssocID := pen_ConnectionAssocID n\<rparr> = n"
  by (cases n) simp

lemma update_connection_ok:
  assumes wf: "hs_wf hs" and p: "p \<in> elements hs"
  shows "\<exists>hs'. poolHandlespaceNodeUpdateConnectionOfPoolElementNode p socketDescriptor assocID hs = Inr hs' \<and> hs_wf hs' \<and>
    elements hs' = elements hs \<and>
    elementAt hs' = (elementAt hs)(p := (elementAt hs p)\<lparr>pen_ConnectionSocketDescriptor := socketDescriptor, pen_ConnectionAssocID := assocID\<rparr>) \<and>
    hsn_HomeRegistrarIdentifier hs' = hsn_HomeRegistrarIdentifier hs \<and>
    hsn_PoolElementTimerStorage hs' = hsn_PoolElementTimerStorage hs \<and> attrs hs' = attrs hs"
proof (cases "socketDescriptor \<noteq> pen_ConnectionSocketDescriptor (elementAt hs p) \<or> assocID \<noteq> pen_ConnectionAssocID (elementAt hs p)")
  case False
  then show ?thesis using wf by (auto simp: poolHandlespaceNodeUpdateConnectionOfPoolElementNode_def same_connection)
next
  case True
  note w = hs_parts [OF wf]
  let ?f = "\<lambda>n. n\<lparr>pen_ConnectionSocketDescriptor := socketDescriptor, pen_ConnectionAssocID := assocID\<rparr>"
  let ?n = "?f (elementAt hs p)"
  let ?hs1 = "setElement p ?f hs"
  note s = setElement_ok [OF w(1) p, of ?f, simplified]
  obtain t where t: "removeLinked poolElementConnectionStorageNodeComparison (hsn_PoolElementConnectionStorage hs)
      (connectionEntry p (elementAt hs p)) = Inr t" "connections_wf t (elementAt hs) (elements hs - {p})"
    using connections_remove [OF w(4), of p] by blast
  have ip: "Set.insert p (elements hs - {p}) = elements hs" using p by blast
  from connections_insert [OF t(2), of p ?n, unfolded ip] obtain t' where
    t': "(if 0 < pen_ConnectionSocketDescriptor ?n
       then insertChecked poolElementConnectionStorageNodeComparison t (connectionEntry p ?n) else Inr t) = Inr t'"
    "connections_wf t' ((elementAt hs)(p := ?n)) (elements hs)" by blast
  let ?hs = "?hs1\<lparr>hsn_PoolElementConnectionStorage := t'\<rparr>"
  have o: "owned ?hs = owned hs" by (rule owned_cong) (simp_all add: s)
  have "hs_wf ?hs"
  proof (rule hs_wfI)
    show "owners_wf (hsn_PoolElementOwnershipStorage ?hs) (elementAt ?hs) (elements ?hs)"
      using w(3) owners_wf_cong [of "elements hs" "elementAt ?hs" "elementAt hs"] by (simp add: s)
    show "timers_wf (hsn_PoolElementTimerStorage ?hs) (elementAt ?hs) (elements ?hs)"
      using w(5) timers_wf_cong [of "elements hs" "elementAt ?hs" "elementAt hs"] by (simp add: s)
    show "stamps (elementAt ?hs) (elements ?hs)"
      using w(6) stamps_cong [of "elements hs" "elementAt ?hs" "elementAt hs"] by (simp add: s)
    show "counts (elements ?hs) (owned ?hs) ?hs" unfolding o using w(7) by (simp add: s)
  qed (use s w t' in simp_all)
  moreover have "poolHandlespaceNodeUpdateConnectionOfPoolElementNode p socketDescriptor assocID hs = Inr ?hs"
    using True t(1) t'(1) s(3) by (auto simp: poolHandlespaceNodeUpdateConnectionOfPoolElementNode_def Let_def)
  ultimately show ?thesis using s attrs_setElement [OF p] by (intro exI [of _ ?hs] conjI) simp_all
qed

section \<open>The owner of a pool element\<close>

definition reowned :: "u32 \<Rightarrow> PoolElementNode \<Rightarrow> PoolElementNode" where
  "reowned r n = n\<lparr>pen_Flags := (if r \<noteq> pen_HomeRegistrarIdentifier n then pen_Flags n OR PENF_UPDATED
     else pen_Flags n AND NOT PENF_UPDATED), pen_HomeRegistrarIdentifier := r\<rparr>"

lemma reowned_simps [simp]:
  "pen_HomeRegistrarIdentifier (reowned r n) = r" "pen_Checksum (reowned r n) = pen_Checksum n"
  "pen_TimerTimeStamp (reowned r n) = pen_TimerTimeStamp n" "pen_TimerCode (reowned r n) = pen_TimerCode n"
  "pen_ConnectionSocketDescriptor (reowned r n) = pen_ConnectionSocketDescriptor n"
  "pen_ConnectionAssocID (reowned r n) = pen_ConnectionAssocID n" "harmless n (reowned r n)"
  by (simp_all add: reowned_def)

lemma change_owner_ok:
  assumes wf: "hs_wf hs" and p: "p \<in> elements hs"
  shows "\<exists>t'. changeOwner p r hs = Inr ((setElement p (reowned r) hs)\<lparr>hsn_PoolElementOwnershipStorage := t'\<rparr>) \<and>
    owners_wf t' ((elementAt hs)(p := reowned r (elementAt hs p))) (elements hs)"
proof (cases "r = pen_HomeRegistrarIdentifier (elementAt hs p)")
  case True
  have e: "setElement p (\<lambda>n. n\<lparr>pen_Flags := pen_Flags n AND NOT PENF_UPDATED\<rparr>) hs = setElement p (reowned r) hs"
    using True by (simp add: setElement_def modifyNode_def reowned_def elementAt_def)
  have "owners_wf (hsn_PoolElementOwnershipStorage hs) ((elementAt hs)(p := reowned r (elementAt hs p))) (elements hs)"
    using hs_parts(3) [OF wf] owners_wf_cong [of "elements hs" "(elementAt hs)(p := reowned r (elementAt hs p))" "elementAt hs"] True
    by simp
  then show ?thesis using True e
    by (intro exI [of _ "hsn_PoolElementOwnershipStorage hs"]) (simp add: changeOwner_def)
next
  case False
  have e: "setElement p (\<lambda>n. n\<lparr>pen_Flags := pen_Flags n OR PENF_UPDATED, pen_HomeRegistrarIdentifier := r\<rparr>) hs = setElement p (reowned r) hs"
    using False by (simp add: setElement_def modifyNode_def reowned_def elementAt_def)
  obtain t where t: "removeLinked poolElementOwnershipStorageNodeComparison (hsn_PoolElementOwnershipStorage hs)
      (ownershipEntry p (elementAt hs p)) = Inr t" "owners_wf t (elementAt hs) (elements hs - {p})"
    using owners_remove [OF hs_parts(3) [OF wf], of p] by blast
  have ip: "Set.insert p (elements hs - {p}) = elements hs" using p by blast
  from owners_insert [OF t(2), of p "reowned r (elementAt hs p)", unfolded ip] obtain t' where
    "insertChecked poolElementOwnershipStorageNodeComparison t (ownershipEntry p (reowned r (elementAt hs p))) = Inr t'"
    "owners_wf t' ((elementAt hs)(p := reowned r (elementAt hs p))) (elements hs)" by blast
  then show ?thesis using False t(1) e by (intro exI [of _ t']) (simp add: changeOwner_def setElement_view)
qed

lemma checksum_element: "pools_wf hs \<Longrightarrow> p \<in> elements hs \<Longrightarrow> poolElementChecksum hs p = nameChecksum p"
  using elements_at [of p hs] checksum_name [of hs p "poolAt hs (fst p)"] by simp

lemma update_ownership_ok:
  assumes wf: "hs_wf hs" and p: "p \<in> elements hs"
  shows "\<exists>hs'. poolHandlespaceNodeUpdateOwnershipOfPoolElementNode p r hs = Inr hs' \<and> hs_wf hs' \<and> elements hs' = elements hs \<and>
    elementAt hs' = (elementAt hs)(p := reowned r (elementAt hs p)) \<and>
    hsn_HomeRegistrarIdentifier hs' = hsn_HomeRegistrarIdentifier hs \<and>
    hsn_PoolElementTimerStorage hs' = hsn_PoolElementTimerStorage hs \<and> attrs hs' = attrs hs"
proof -
  note w = hs_parts [OF wf]
  let ?n = "reowned r (elementAt hs p)"
  let ?home = "hsn_HomeRegistrarIdentifier hs"
  obtain t' where t': "changeOwner p r hs = Inr ((setElement p (reowned r) hs)\<lparr>hsn_PoolElementOwnershipStorage := t'\<rparr>)"
    "owners_wf t' ((elementAt hs)(p := ?n)) (elements hs)" using change_owner_ok [OF wf p, of r] by blast
  define hs1 where "hs1 = (setElement p (reowned r) hs)\<lparr>hsn_PoolElementOwnershipStorage := t'\<rparr>"
  note s = setElement_ok [OF w(1) p, of "reowned r", simplified]
  have c: "pen_Checksum (elementAt hs p) = nameChecksum p" using w(6) p by (simp add: stamps_def)
  have v1: "pools_wf hs1" "elements hs1 = elements hs" "elementAt hs1 = (elementAt hs)(p := ?n)"
    "hsn_HomeRegistrarIdentifier hs1 = ?home" "counts (elements hs) (owned hs) hs1"
    using s w(7) by (simp_all add: hs1_def)
  have o1: "p \<in> owned hs \<longleftrightarrow> pen_HomeRegistrarIdentifier (elementAt hs p) = hsn_HomeRegistrarIdentifier hs1"
    using p v1(4) by (simp add: owned_def)
  from uncount_ok [OF v1(5) p w(9) owned_subset o1] obtain a b k where
    u: "uncount (pen_HomeRegistrarIdentifier (elementAt hs p)) (nameChecksum p) hs1 = Inr (withCounts a b k hs1)"
    "counts (elements hs - {p}) (owned hs - {p}) (withCounts a b k hs1)" by blast
  define hs2 where "hs2 = withCounts a b k hs1"
  define hs3 where "hs3 = setElement p (\<lambda>n. n\<lparr>pen_Checksum := poolElementChecksum hs2 p\<rparr>) hs2"
  have v2: "pools_wf hs2" "p \<in> elements hs2" using v1 p by (simp_all add: hs2_def)
  note s3 = setElement_ok [OF v2, of "\<lambda>n. n\<lparr>pen_Checksum := poolElementChecksum hs2 p\<rparr>", simplified, folded hs3_def]
  have n3: "?n\<lparr>pen_Checksum := nameChecksum p\<rparr> = ?n" using c by (cases "elementAt hs p") (simp add: reowned_def)
  have v3: "pools_wf hs3" "elements hs3 = elements hs" "elementAt hs3 = (elementAt hs)(p := ?n)"
    using s3 v1 checksum_element [OF v2] n3 by (simp_all add: hs2_def)
  have h3: "hsn_HomeRegistrarIdentifier hs3 = ?home" "counts (elements hs - {p}) (owned hs - {p}) hs3"
    "hsn_PoolElements hs3 = hsn_PoolElements hs"
    using v1(4) u(2) by (simp_all add: hs3_def hs2_def hs1_def)
  from recount_ok [OF h3(2) _ _ Diff_mono [OF owned_subset order_refl], of p r] w(9) obtain a' b' k' where
    r: "recount r (nameChecksum p) hs3 = withCounts a' b' k' hs3"
    "counts (Set.insert p (elements hs - {p})) (if r = ?home then Set.insert p (owned hs - {p}) else owned hs - {p}) (withCounts a' b' k' hs3)"
    by (auto simp: h3(1))
  let ?hs = "notify p ?n PNUA_Update (pen_Checksum (elementAt hs p)) (pen_HomeRegistrarIdentifier (elementAt hs p)) (withCounts a' b' k' hs3)"
  have o: "owned ?hs = (if r = ?home then Set.insert p (owned hs - {p}) else owned hs - {p})"
    using p by (auto simp: owned_def v3 h3)
  have ip: "Set.insert p (elements hs - {p}) = elements hs" using p by blast
  have st: "hsn_PoolElementOwnershipStorage hs3 = t'" "hsn_PoolElementConnectionStorage hs3 = hsn_PoolElementConnectionStorage hs"
    "hsn_PoolElementTimerStorage hs3 = hsn_PoolElementTimerStorage hs" by (simp_all add: hs3_def hs2_def hs1_def)
  have "hs_wf ?hs"
  proof (rule hs_wfI)
    show "no_empty_pool ?hs" using s3(4) s(4) w(2) by (simp add: hs2_def hs1_def)
    show "connections_wf (hsn_PoolElementConnectionStorage ?hs) (elementAt ?hs) (elements ?hs)"
      using w(4) connections_wf_cong [of "elements hs" "elementAt ?hs" "elementAt hs"] by (simp add: v3 st)
    show "timers_wf (hsn_PoolElementTimerStorage ?hs) (elementAt ?hs) (elements ?hs)"
      using w(5) timers_wf_cong [of "elements hs" "elementAt ?hs" "elementAt hs"] by (simp add: v3 st)
    show "stamps (elementAt ?hs) (elements ?hs)"
      using w(6) stamps_cong [of "elements hs" "elementAt ?hs" "elementAt hs"] by (simp add: v3)
    show "counts (elements ?hs) (owned ?hs) ?hs" unfolding o using r(2) by (simp only: ip counts_simps elements_simps v3)
  qed (use v3 t'(2) w(8) h3 in \<open>simp_all add: st\<close>)
  moreover have "poolHandlespaceNodeUpdateOwnershipOfPoolElementNode p r hs = Inr ?hs"
    using u(1) r(1) c
    by (simp add: poolHandlespaceNodeUpdateOwnershipOfPoolElementNode_def t'(1) hs1_def [symmetric] hs2_def [symmetric]
        hs3_def [symmetric] v1(3) v3(3))
  moreover have "attrs hs3 = attrs hs"
    using attrs_setElement [OF p, of "reowned r"] attrs_setElement [OF v2(2)] by (simp add: hs3_def hs2_def hs1_def)
  ultimately show ?thesis using v3 h3 st by (intro exI [of _ ?hs] conjI) simp_all
qed

section \<open>Changing a whole pool\<close>

lemma elementAt_pool: "elementAt hs (h, i) = node (poolAt hs h) i"
  by (simp add: elementAt_def)

lemma keeps_pools:
  assumes wf: "hs_wf hs" and h: "hsn_PoolNodes hs h = Some pn" and ok: "pool_ok h pn'" and e: "pool_nodes pn' = pool_nodes pn"
    and f: "\<And>i. i \<in> pool_nodes pn \<Longrightarrow> pen_HomeRegistrarIdentifier (node pn' i) = pen_HomeRegistrarIdentifier (node pn i) \<and>
      pen_ConnectionSocketDescriptor (node pn' i) = pen_ConnectionSocketDescriptor (node pn i) \<and>
      pen_ConnectionAssocID (node pn' i) = pen_ConnectionAssocID (node pn i) \<and>
      pen_TimerTimeStamp (node pn' i) = pen_TimerTimeStamp (node pn i) \<and> pen_Checksum (node pn' i) = pen_Checksum (node pn i)"
  shows "hs_wf (setPool h pn' hs)" "elements (setPool h pn' hs) = elements hs"
proof -
  note w = hs_parts [OF wf]
  let ?hs = "setPool h pn' hs"
  show el: "elements ?hs = elements hs" by (rule elements_setPool_same [OF h e])
  have v: "pen_HomeRegistrarIdentifier (elementAt ?hs p) = pen_HomeRegistrarIdentifier (elementAt hs p) \<and>
      pen_ConnectionSocketDescriptor (elementAt ?hs p) = pen_ConnectionSocketDescriptor (elementAt hs p) \<and>
      pen_ConnectionAssocID (elementAt ?hs p) = pen_ConnectionAssocID (elementAt hs p) \<and>
      pen_TimerTimeStamp (elementAt ?hs p) = pen_TimerTimeStamp (elementAt hs p) \<and>
      pen_Checksum (elementAt ?hs p) = pen_Checksum (elementAt hs p)" if "p \<in> elements hs" for p
  proof (cases "fst p = h")
    case True
    then have "snd p \<in> pool_nodes pn" "poolAt hs (fst p) = pn" using elements_at [OF that] h by (simp_all add: poolAt_eq)
    then show ?thesis using f [of "snd p"] True by (simp add: elementAt_setPool elementAt_def)
  qed (simp add: elementAt_setPool)
  have o: "owned ?hs = owned hs" by (rule owned_cong) (simp_all add: el v)
  show "hs_wf ?hs"
  proof (rule hs_wfI)
    show "pools_wf ?hs" using pools_wf_setPool [OF w(1) _ ok] h by blast
    show "no_empty_pool ?hs" using w(2) h e by (auto simp: no_empty_pool_def)
    show "owners_wf (hsn_PoolElementOwnershipStorage ?hs) (elementAt ?hs) (elements ?hs)"
      using w(3) owners_wf_cong [of "elements hs" "elementAt ?hs" "elementAt hs"] v by (simp add: el)
    show "connections_wf (hsn_PoolElementConnectionStorage ?hs) (elementAt ?hs) (elements ?hs)"
      using w(4) connections_wf_cong [of "elements hs" "elementAt ?hs" "elementAt hs"] v by (simp add: el)
    show "timers_wf (hsn_PoolElementTimerStorage ?hs) (elementAt ?hs) (elements ?hs)"
      using w(5) timers_wf_cong [of "elements hs" "elementAt ?hs" "elementAt hs"] v by (simp add: el)
    show "stamps (elementAt ?hs) (elements ?hs)"
      using w(6) stamps_cong [of "elements hs" "elementAt ?hs" "elementAt hs"] v by (simp add: el)
    show "counts (elements ?hs) (owned ?hs) ?hs" unfolding o using w(7) by (simp add: el)
  qed (use w in \<open>simp add: el\<close>)
qed

lemma keeps_flags:
  assumes wf: "hs_wf hs" and p: "p \<in> elements hs"
  shows "hs_wf (setElement p (\<lambda>n. n\<lparr>pen_Flags := f n\<rparr>) hs)" "elements (setElement p (\<lambda>n. n\<lparr>pen_Flags := f n\<rparr>) hs) = elements hs"
proof -
  note e = elements_at [OF p]
  have ok: "pool_ok (fst p) (modifyNode (snd p) (\<lambda>n. n\<lparr>pen_Flags := f n\<rparr>) (poolAt hs (fst p)))"
    using pool_ok_at [OF hs_parts(1) [OF wf] p] e by (intro pool_ok_modify) simp_all
  show "hs_wf (setElement p (\<lambda>n. n\<lparr>pen_Flags := f n\<rparr>) hs)" "elements (setElement p (\<lambda>n. n\<lparr>pen_Flags := f n\<rparr>) hs) = elements hs"
    unfolding setElement_def by (rule keeps_pools [OF wf _ ok]; use e in auto)+
qed

section \<open>Updating a pool element\<close>

lemma compatible_mix:
  assumes "compatible pn n" "compatible pn source" "pen_Identifier m = pen_Identifier n" "pen_UserTransport m = pen_UserTransport n"
    "pen_RegistratorTransport m = pen_RegistratorTransport n"
    "pen_PolicySettings m = pen_PolicySettings n \<or> pen_PolicySettings m = pen_PolicySettings source"
  shows "compatible pn m"
proof -
  have s: "poolPolicySettingsIsValid (pen_PolicySettings k) \<and> poolPolicySettingsAdapt (pen_PolicySettings k) (pp_Type (pn_Policy pn))"
    if "compatible pn k" for k
    using that by (auto simp: compatible_def poolNodeCheckPoolElementNodeCompatibility_def split: if_splits option.splits)
  have "poolPolicySettingsIsValid (pen_PolicySettings m)" "poolPolicySettingsAdapt (pen_PolicySettings m) (pp_Type (pn_Policy pn))"
    using s [OF assms(1)] s [OF assms(2)] assms(6) by auto
  then show ?thesis
    using assms(1) s [OF assms(1)] unfolding compatible_def poolNodeCheckPoolElementNodeCompatibility_def assms(3-5)
    by (simp split: if_splits option.splits)
qed

lemma poolElementNodeUpdate_fields:
  "pen_UserTransport (snd (poolElementNodeUpdate n s)) = pen_UserTransport n"
  "pen_RegistratorTransport (snd (poolElementNodeUpdate n s)) = pen_RegistratorTransport n"
  "pen_Identifier (snd (poolElementNodeUpdate n s)) = pen_Identifier n"
  "pen_HomeRegistrarIdentifier (snd (poolElementNodeUpdate n s)) = pen_HomeRegistrarIdentifier n"
  "pen_Checksum (snd (poolElementNodeUpdate n s)) = pen_Checksum n"
  "pen_TimerTimeStamp (snd (poolElementNodeUpdate n s)) = pen_TimerTimeStamp n"
  "pen_ConnectionSocketDescriptor (snd (poolElementNodeUpdate n s)) = pen_ConnectionSocketDescriptor n"
  "pen_ConnectionAssocID (snd (poolElementNodeUpdate n s)) = pen_ConnectionAssocID n"
  "pen_PolicySettings (snd (poolElementNodeUpdate n s)) \<in> {pen_PolicySettings n, pen_PolicySettings s}"
  by (simp_all add: poolElementNodeUpdate_def Let_def)

lemma pool_ok_update:
  assumes ok: "pool_ok h pn" and i: "i \<in> pool_nodes pn" and c: "compatible pn source"
  shows "\<exists>pn'. poolNodeUpdatePoolElementNode pn i source = Inr (RSPERR_OKAY, pn') \<and> pool_ok h pn' \<and>
    same_pool (modifyNode i (\<lambda>_. snd (poolElementNodeUpdate (node pn i) source)) pn) pn'"
proof -
  have wf: "pool_wf pn" and ci: "\<And>j. j \<in> pool_nodes pn \<Longrightarrow> compatible pn (node pn j)" using ok by (simp_all add: pool_ok_def)
  have v: "poolPolicySettingsIsValid (pen_PolicySettings source)" using compatible_valid c by (simp add: compatible_def)
  let ?n = "snd (poolElementNodeUpdate (node pn i) source)"
  obtain pn' where u: "poolNodeUpdatePoolElementNode pn i source = Inr (RSPERR_OKAY, pn')" "pool_wf pn'"
    "same_pool (modifyNode i (\<lambda>_. ?n) pn) pn'"
    using update_pool_ok [OF wf i _ v] ci [OF i] unfolding compatible_def by blast
  note f = poolElementNodeUpdate_fields [of "node pn i" source]
  have cm: "compatible pn (node (modifyNode i (\<lambda>_. ?n) pn) j)" if "j \<in> pool_nodes pn" for j
    using compatible_mix [OF ci [OF i] c f(3,1,2)] f(9) ci [OF that] by auto
  have "compatible pn' (node pn' j) = compatible pn (node (modifyNode i (\<lambda>_. ?n) pn) j)" for j
    using u(3) registration_eqD [OF same_poolD(4) [OF u(3), of j]] by (intro compatible_cong) (simp_all add: same_pool_def)
  then have "pool_ok h pn'" using ok u(2,3) cm i by (simp add: pool_ok_def same_pool_def)
  then show ?thesis using u by blast
qed

text \<open>The node after an update: the mark is taken away, the settings are the new ones, the rest is set as in the source node.\<close>

definition reregistered :: "PoolElementNode \<Rightarrow> PoolElementNode \<Rightarrow> PoolElementNode" where
  "reregistered n source =
     (let n1 = (snd (poolElementNodeUpdate n source))\<lparr>pen_ConnectionSocketDescriptor := pen_ConnectionSocketDescriptor source,
                 pen_ConnectionAssocID := pen_ConnectionAssocID source\<rparr>;
          n2 = reowned (pen_HomeRegistrarIdentifier source) n1
      in n2\<lparr>pen_Flags := pen_Flags n2 AND NOT PENF_NEW\<rparr>)"

lemma registration_change:
  assumes "registration n = registration m"
  shows "registration ((reowned r (n\<lparr>pen_ConnectionSocketDescriptor := sd, pen_ConnectionAssocID := a\<rparr>))\<lparr>pen_Flags := fl AND pen_Flags
        (reowned r (n\<lparr>pen_ConnectionSocketDescriptor := sd, pen_ConnectionAssocID := a\<rparr>))\<rparr>) =
    registration ((reowned r (m\<lparr>pen_ConnectionSocketDescriptor := sd, pen_ConnectionAssocID := a\<rparr>))\<lparr>pen_Flags := fl AND pen_Flags
        (reowned r (m\<lparr>pen_ConnectionSocketDescriptor := sd, pen_ConnectionAssocID := a\<rparr>))\<rparr>)"
  using assms by (cases n; cases m) (simp add: registration_def reowned_def)

lemma update_element_ok:
  assumes wf: "hs_wf hs" and p: "p \<in> elements hs" and c: "compatible (poolAt hs (fst p)) source"
  shows "\<exists>hs'. poolHandlespaceNodeUpdatePoolElementNode p source hs = Inr (RSPERR_OKAY, hs') \<and> hs_wf hs' \<and>
    elements hs' = elements hs \<and>
    (\<forall>q. registration (elementAt hs' q) =
       (if q = p then registration (reregistered (elementAt hs p) source) else registration (elementAt hs q))) \<and>
    hsn_HomeRegistrarIdentifier hs' = hsn_HomeRegistrarIdentifier hs \<and>
    hsn_PoolElementTimerStorage hs' = hsn_PoolElementTimerStorage hs \<and> attrs hs' = attrs hs"
proof -
  let ?pn = "poolAt hs (fst p)"
  let ?i = "snd p"
  let ?sd = "pen_ConnectionSocketDescriptor source"
  let ?a = "pen_ConnectionAssocID source"
  let ?r = "pen_HomeRegistrarIdentifier source"
  let ?n = "snd (poolElementNodeUpdate (elementAt hs p) source)"
  have e: "hsn_PoolNodes hs (fst p) = Some ?pn" "?i \<in> pool_nodes ?pn" using elements_at [OF p] by blast+
  obtain pn' where u: "poolNodeUpdatePoolElementNode ?pn ?i source = Inr (RSPERR_OKAY, pn')" "pool_ok (fst p) pn'"
    "same_pool (modifyNode ?i (\<lambda>_. ?n) ?pn) pn'"
    using pool_ok_update [OF pool_ok_at [OF hs_parts(1) [OF wf] p] e(2) c] unfolding elementAt_def by blast
  define hs1 where "hs1 = setPool (fst p) pn' hs"
  have g: "registration (node pn' j) = registration (if j = ?i then ?n else node ?pn j)" for j
    using same_poolD(4) [OF u(3), of j] by simp
  note f = poolElementNodeUpdate_fields [of "elementAt hs p" source]
  have k: "hs_wf hs1" "elements hs1 = elements hs" unfolding hs1_def
    by (rule keeps_pools [OF wf e(1) u(2)];
        use same_poolD(1) [OF u(3)] e(2) registration_eqD [OF g] f in \<open>auto simp: elementAt_def\<close>)+
  have p1: "p \<in> elements hs1" using k(2) p by simp
  obtain hs2 where h2: "poolHandlespaceNodeUpdateConnectionOfPoolElementNode p ?sd ?a hs1 = Inr hs2" "hs_wf hs2" "elements hs2 = elements hs1"
    "elementAt hs2 = (elementAt hs1)(p := (elementAt hs1 p)\<lparr>pen_ConnectionSocketDescriptor := ?sd, pen_ConnectionAssocID := ?a\<rparr>)"
    "hsn_HomeRegistrarIdentifier hs2 = hsn_HomeRegistrarIdentifier hs1" "hsn_PoolElementTimerStorage hs2 = hsn_PoolElementTimerStorage hs1"
    "attrs hs2 = attrs hs1"
    using update_connection_ok [OF k(1) p1, of ?sd ?a] by blast
  have p2: "p \<in> elements hs2" using h2(3) p1 by simp
  obtain hs3 where h3: "poolHandlespaceNodeUpdateOwnershipOfPoolElementNode p ?r hs2 = Inr hs3" "hs_wf hs3" "elements hs3 = elements hs2"
    "elementAt hs3 = (elementAt hs2)(p := reowned ?r (elementAt hs2 p))"
    "hsn_HomeRegistrarIdentifier hs3 = hsn_HomeRegistrarIdentifier hs2" "hsn_PoolElementTimerStorage hs3 = hsn_PoolElementTimerStorage hs2"
    "attrs hs3 = attrs hs2"
    using update_ownership_ok [OF h2(2) p2, of ?r] by blast
  let ?f = "\<lambda>n. n\<lparr>pen_Flags := pen_Flags n AND NOT PENF_NEW\<rparr>"
  have h4: "hs_wf (setElement p ?f hs3)" "elements (setElement p ?f hs3) = elements hs3"
    using keeps_flags [OF h3(2), of p] p2 h3(3) by simp_all
  have n1: "registration (elementAt hs1 p) = registration ?n" using g [of ?i] by (simp add: hs1_def elementAt_setPool)
  have "registration (elementAt (setElement p ?f hs3) q) =
       (if q = p then registration (reregistered (elementAt hs p) source) else registration (elementAt hs q))" for q
  proof (cases "q = p")
    case True
    then show ?thesis using registration_change [OF n1, where r = ?r and sd = ?sd and a = ?a and fl = "NOT PENF_NEW"]
      by (simp add: setElement_view h3(4) h2(4) reregistered_def Let_def and.commute)
  next
    case False
    have "registration (elementAt hs1 q) = registration (elementAt hs q)"
      using g [of "snd q"] False by (auto simp: hs1_def elementAt_setPool elementAt_def prod_eq_iff)
    then show ?thesis using False by (simp add: setElement_view h3(4) h2(4))
  qed
  moreover have "poolHandlespaceNodeUpdatePoolElementNode p source hs = Inr (RSPERR_OKAY, setElement p ?f hs3)"
    using u(1) h2(1) h3(1) by (simp add: poolHandlespaceNodeUpdatePoolElementNode_def Let_def hs1_def)
  moreover have "attrs (setElement p ?f hs3) = attrs hs"
  proof -
    have "pool_attrs pn' = pool_attrs ?pn" using attrs_same [OF u(3)] by (simp add: pool_attrs_def)
    then show ?thesis using attrs_setElement [of p hs3 ?f] p2 h3(3,7) h2(7) attrs_setPool [OF e(1)] by (simp add: hs1_def)
  qed
  ultimately show ?thesis using h2 h3 h4 k(2) by (intro exI [of _ "setElement p ?f hs3"] conjI) (simp_all add: hs1_def)
qed

section \<open>Adding a pool element\<close>

lemma pool_ok_capacity:
  assumes ok: "pool_ok h pn" and i: "i \<notin> pool_nodes pn" "i \<noteq> 0"
  shows "length (selectionOrder pn) + 1 < 2 ^ 32"
proof -
  have wf: "pool_wf pn" using ok by (simp add: pool_ok_def)
  have nz: "j \<noteq> 0" if "j \<in> pool_nodes pn" for j
    using ok that compatible_valid [of pn "node pn j"] sel_invD(5) [OF pool_wfD(3) [OF wf] that]
    by (simp add: pool_ok_def compatible_def)
  have fin: "finite (pool_nodes pn)" by (rule pool_nodes_finite [OF wf])
  have "length (selectionOrder pn) = card (pool_nodes pn)"
    using distinct_card [OF selectionOrder_distinct [OF pool_wfD(3) [OF wf]]] sel_invD(4) [OF pool_wfD(3) [OF wf]] by simp
  also have "\<dots> + 1 = card (Set.insert i (pool_nodes pn))" using fin i(1) by simp
  also have "\<dots> \<le> card (UNIV - {0 :: u32})" using nz i(2) by (intro card_mono) auto
  also have "\<dots> < 2 ^ 32" by (simp add: card_Diff_singleton_if card_word)
  finally show ?thesis by simp
qed

text \<open>The invariant but for a pool that is still empty.\<close>

definition hs_struct :: "PoolHandlespaceNode \<Rightarrow> bool" where
  "hs_struct hs \<longleftrightarrow> pools_wf hs \<and> links_wf hs \<and> sums_wf hs"

lemma hs_wf_struct: "hs_wf hs \<longleftrightarrow> hs_struct hs \<and> no_empty_pool hs"
  by (auto simp: hs_wf_def hs_struct_def)

lemma hs_structD:
  assumes "hs_struct hs"
  shows "pools_wf hs" "owners_wf (hsn_PoolElementOwnershipStorage hs) (elementAt hs) (elements hs)"
    "connections_wf (hsn_PoolElementConnectionStorage hs) (elementAt hs) (elements hs)"
    "timers_wf (hsn_PoolElementTimerStorage hs) (elementAt hs) (elements hs)"
    "stamps (elementAt hs) (elements hs)" "counts (elements hs) (owned hs) hs" "hsn_PoolElements hs = card (elements hs)"
    "finite (elements hs)"
  using assms finite_elements [of hs] by (simp_all add: hs_struct_def links_wf_alt sums_wf_alt)

lemma registration_fields:
  assumes "registration n = registration m"
  shows "pen_HomeRegistrarIdentifier n = pen_HomeRegistrarIdentifier m"
    "pen_ConnectionSocketDescriptor n = pen_ConnectionSocketDescriptor m" "pen_ConnectionAssocID n = pen_ConnectionAssocID m"
    "pen_TimerTimeStamp n = pen_TimerTimeStamp m" "pen_Checksum n = pen_Checksum m"
  using registration_eqD [OF assms] by simp_all

lemma pool_ok_add:
  assumes ok: "pool_ok h pn" and c: "compatible pn n" and i: "pen_Identifier n \<notin> pool_nodes pn"
  shows "\<exists>pn'. poolNodeAddPoolElementNode pn n = Inr (RSPERR_OKAY, Added, pn') \<and> pool_ok h pn' \<and>
    pool_nodes pn' = Set.insert (pen_Identifier n) (pool_nodes pn) \<and>
    (\<forall>j. registration (node pn' j) = (if j = pen_Identifier n then fresh n else registration (node pn j))) \<and>
    pool_attrs pn' = pool_attrs pn"
proof -
  have wf: "pool_wf pn" using ok by (simp add: pool_ok_def)
  have cv: "pen_Identifier n \<noteq> 0" using compatible_valid c by (simp add: compatible_def)
  obtain pn' where a: "poolNodeAddPoolElementNode pn n = Inr (RSPERR_OKAY, Added, pn')" "pool_wf pn'"
    "pool_nodes pn' = Set.insert (pen_Identifier n) (pool_nodes pn)"
    "\<And>j. registration (node pn' j) = (if j = pen_Identifier n then fresh n else registration (node pn j))"
    "pn_Handle pn' = pn_Handle pn" "pn_Policy pn' = pn_Policy pn" "pn_Protocol pn' = pn_Protocol pn" "pn_Flags pn' = pn_Flags pn"
    using add_ok [OF wf pool_ok_capacity [OF ok i cv] _ i] c unfolding compatible_def by blast
  let ?n = "n\<lparr>pen_Flags := pen_Flags n OR PENF_UPDATED\<rparr>"
  have "compatible pn' (node pn' j)" if "j \<in> pool_nodes pn'" for j
  proof (cases "j = pen_Identifier n")
    case True
    then have "registration (node pn' j) = registration ?n" using a(4) by (simp add: fresh_def)
    from registration_eqD [OF this] have "compatible pn' (node pn' j) = compatible pn n"
      using a(5-8) by (intro compatible_cong) simp_all
    then show ?thesis using c by simp
  next
    case False
    then have "registration (node pn' j) = registration (node pn j)" using a(4) by simp
    from registration_eqD [OF this] have "compatible pn' (node pn' j) = compatible pn (node pn j)"
      using a(5-8) by (intro compatible_cong) simp_all
    then show ?thesis using ok that False a(3) by (simp add: pool_ok_def)
  qed
  then have "pool_ok h pn'" using ok a(2,5) by (simp add: pool_ok_def)
  then show ?thesis using a by (intro exI [of _ pn'] conjI allI) (simp_all add: pool_attrs_def)
qed

lemma owners_add:
  assumes "owners_wf t f E" "p \<notin> E"
  shows "\<exists>t'. (if pen_HomeRegistrarIdentifier n \<noteq> 0
      then insertChecked poolElementOwnershipStorageNodeComparison t (ownershipEntry p n) else Inr t) = Inr t' \<and>
    owners_wf t' (f(p := n)) (Set.insert p E)"
  using owners_insert [OF assms, of n] owners_skip [OF assms, of n] by auto

text \<open>Adding the node to the pool and to the storages; the sums still lack it.\<close>

lemma add_element_ok:
  assumes wf: "hs_struct hs" and h: "hsn_PoolNodes hs h = Some pn" and c: "compatible pn n"
    and i: "pen_Identifier n \<notin> pool_nodes pn"
  defines "p \<equiv> (h, pen_Identifier n)"
  shows "\<exists>hs'. poolHandlespaceNodeAddPoolElementNode h n hs = Inr (RSPERR_OKAY, Added, hs') \<and> pools_wf hs' \<and>
    elements hs' = Set.insert p (elements hs) \<and> p \<notin> elements hs \<and>
    (\<forall>q. registration (elementAt hs' q) = (if q = p then fresh n else registration (elementAt hs q))) \<and>
    owners_wf (hsn_PoolElementOwnershipStorage hs') (elementAt hs') (elements hs') \<and>
    connections_wf (hsn_PoolElementConnectionStorage hs') (elementAt hs') (elements hs') \<and>
    timers_wf (hsn_PoolElementTimerStorage hs') (elementAt hs') (elements hs) \<and>
    counts (elements hs) (owned hs) hs' \<and> hsn_PoolElements hs' = hsn_PoolElements hs + 1 \<and>
    hsn_HomeRegistrarIdentifier hs' = hsn_HomeRegistrarIdentifier hs \<and>
    hsn_PoolElementTimerStorage hs' = hsn_PoolElementTimerStorage hs \<and>
    attrs hs' = attrs hs \<and> (\<forall>g. g \<noteq> h \<longrightarrow> hsn_PoolNodes hs' g = hsn_PoolNodes hs g)"
proof -
  note w = hs_structD [OF wf]
  have ok: "pool_ok h pn" using w(1) h by (simp add: pools_wf_def)
  obtain pn' where a: "poolNodeAddPoolElementNode pn n = Inr (RSPERR_OKAY, Added, pn')" "pool_ok h pn'"
    "pool_nodes pn' = Set.insert (pen_Identifier n) (pool_nodes pn)"
    "\<And>j. registration (node pn' j) = (if j = pen_Identifier n then fresh n else registration (node pn j))"
    "pool_attrs pn' = pool_attrs pn"
    using pool_ok_add [OF ok c i] by blast
  define hs1 where "hs1 = (setPool h pn' hs)\<lparr>hsn_PoolElements := hsn_PoolElements hs + 1\<rparr>"
  have np: "p \<notin> elements hs" using h i by (auto simp: elements_def p_def)
  have el: "elements hs1 = Set.insert p (elements hs)"
  proof (rule set_eqI)
    fix q show "q \<in> elements hs1 \<longleftrightarrow> q \<in> Set.insert p (elements hs)"
      using a(3) h by (cases q; cases "fst q = h") (simp_all add: hs1_def elements_def p_def)
  qed
  have rg: "registration (elementAt hs1 q) = (if q = p then fresh n else registration (elementAt hs q))" for q
    using a(4) h by (auto simp: hs1_def elementAt_setPool p_def elementAt_def poolAt_eq prod_eq_iff)
  let ?n = "elementAt hs1 p"
  have same: "q \<in> elements hs \<Longrightarrow> registration (elementAt hs1 q) = registration (elementAt hs q)" for q
    using rg [of q] np by auto
  note sf = registration_fields [OF same]
  obtain ot where ot: "(if pen_HomeRegistrarIdentifier ?n \<noteq> 0
      then insertChecked poolElementOwnershipStorageNodeComparison (hsn_PoolElementOwnershipStorage hs) (ownershipEntry p ?n)
      else Inr (hsn_PoolElementOwnershipStorage hs)) = Inr ot" "owners_wf ot ((elementAt hs)(p := ?n)) (Set.insert p (elements hs))"
    using owners_add [OF w(2) np] by blast
  obtain ct where ct: "(if 0 < pen_ConnectionSocketDescriptor ?n
      then insertChecked poolElementConnectionStorageNodeComparison (hsn_PoolElementConnectionStorage hs) (connectionEntry p ?n)
      else Inr (hsn_PoolElementConnectionStorage hs)) = Inr ct" "connections_wf ct ((elementAt hs)(p := ?n)) (Set.insert p (elements hs))"
    using connections_insert [OF w(3) np] by blast
  have s1: "hsn_PoolElementOwnershipStorage hs1 = hsn_PoolElementOwnershipStorage hs"
    "hsn_PoolElementConnectionStorage hs1 = hsn_PoolElementConnectionStorage hs" by (simp_all add: hs1_def)
  let ?hs = "hs1\<lparr>hsn_PoolElementOwnershipStorage := ot, hsn_PoolElementConnectionStorage := ct\<rparr>"
  have "poolHandlespaceNodeAddPoolElementNode h n hs = Inr (RSPERR_OKAY, Added, ?hs)"
    by (simp only: poolHandlespaceNodeAddPoolElementNode_def poolAt_eq [OF h] a(1) bindR_simps prod.case Let_def
        p_def [symmetric] hs1_def [symmetric] s1 ot(1) ct(1) CHECK_simps not_True_eq_False if_False if_True simp_thms)
  moreover have "pools_wf ?hs" using pools_wf_setPool [OF w(1) _ a(2)] h by (auto simp: hs1_def)
  moreover have "owners_wf ot (elementAt hs1) (Set.insert p (elements hs))"
    by (rule iffD2 [OF owners_wf_cong ot(2)]) (auto simp: sf)
  moreover have "connections_wf ct (elementAt hs1) (Set.insert p (elements hs))"
    by (rule iffD2 [OF connections_wf_cong ct(2)]) (auto simp: sf)
  moreover have "timers_wf (hsn_PoolElementTimerStorage hs) (elementAt hs1) (elements hs)"
    by (rule iffD2 [OF timers_wf_cong w(4)]) (rule sf)
  moreover have "hsn_PoolElementTimerStorage hs1 = hsn_PoolElementTimerStorage hs" "counts (elements hs) (owned hs) hs1"
    "hsn_HomeRegistrarIdentifier hs1 = hsn_HomeRegistrarIdentifier hs" "hsn_PoolElements hs1 = hsn_PoolElements hs + 1"
    "hsn_PoolNodes hs1 = (hsn_PoolNodes hs)(h \<mapsto> pn')" "attrs hs1 = attrs hs"
    using w(6) attrs_setPool [OF h a(5)] by (simp_all add: hs1_def)
  ultimately show ?thesis using el np rg h by (intro exI [of _ ?hs] conjI) auto
qed

end
