(* ===== verification/RSP_HandlespaceEntry.thy ===== *)
theory RSP_HandlespaceEntry
  imports RSP_HandlespaceOps
begin

text \<open>
  Adding and updating, removing and selecting pool elements in the handlespace.
\<close>

section \<open>Pools\<close>

definition sound_pool :: "PoolNode \<Rightarrow> bool" where
  "sound_pool pn \<longleftrightarrow> pool_ok (ph_bytes (pn_Handle pn)) pn \<and> pool_nodes pn = {}"

lemma poolNodeNew_sound: "ph_wf handle \<Longrightarrow> policy \<in> set PoolPolicyArray \<Longrightarrow> sound_pool (poolNodeNew handle policy protocol fl)"
  using poolNodeNew_wf [of policy handle protocol fl]
  by (simp add: sound_pool_def pool_ok_def poolNodeNew_def)

lemma find_pool: "pools_wf hs \<Longrightarrow>
  RedBlackTreeFind poolIndexStorageNodeComparison (hsn_PoolIndexStorage hs) h = (if h \<in> dom (hsn_PoolNodes hs) then Some h else None)"
  using pools.find_key [of "hsn_PoolIndexStorage hs" h] by (simp add: pools_wf_def)

text \<open>A handlespace with the same pool elements, up to what the policies change, and the same storages.\<close>

definition sameStorages :: "PoolHandlespaceNode \<Rightarrow> PoolHandlespaceNode \<Rightarrow> bool" where
  "sameStorages hs hs' \<longleftrightarrow> hsn_PoolElementOwnershipStorage hs' = hsn_PoolElementOwnershipStorage hs \<and>
     hsn_PoolElementConnectionStorage hs' = hsn_PoolElementConnectionStorage hs \<and>
     hsn_PoolElementTimerStorage hs' = hsn_PoolElementTimerStorage hs \<and>
     hsn_HandlespaceChecksum hs' = hsn_HandlespaceChecksum hs \<and> hsn_OwnershipChecksum hs' = hsn_OwnershipChecksum hs \<and>
     hsn_OwnedPoolElements hs' = hsn_OwnedPoolElements hs \<and> hsn_PoolElements hs' = hsn_PoolElements hs \<and>
     hsn_HomeRegistrarIdentifier hs' = hsn_HomeRegistrarIdentifier hs"

lemma same_view:
  assumes wf: "hs_struct hs" and p: "pools_wf hs'" and s: "sameStorages hs hs'" and e: "elements hs' = elements hs"
    and v: "\<And>p. p \<in> elements hs \<Longrightarrow> registration (elementAt hs' p) = registration (elementAt hs p)"
  shows "hs_struct hs'"
proof -
  note w = hs_structD [OF wf]
  note f = registration_fields [OF v]
  have o: "owned hs' = owned hs" by (rule owned_cong) (use s f in \<open>simp_all add: e sameStorages_def\<close>)
  have "owners_wf (hsn_PoolElementOwnershipStorage hs) (elementAt hs') (elements hs)"
    by (rule iffD2 [OF owners_wf_cong w(2)]) (simp add: f)
  moreover have "connections_wf (hsn_PoolElementConnectionStorage hs) (elementAt hs') (elements hs)"
    by (rule iffD2 [OF connections_wf_cong w(3)]) (simp add: f)
  moreover have "timers_wf (hsn_PoolElementTimerStorage hs) (elementAt hs') (elements hs)"
    by (rule iffD2 [OF timers_wf_cong w(4)]) (simp add: f)
  moreover have "stamps (elementAt hs') (elements hs)" by (rule iffD2 [OF stamps_cong w(5)]) (simp add: f)
  moreover have "counts (elements hs) (owned hs) hs'" using w(6) counts_cong [of hs' hs] s by (simp add: sameStorages_def)
  ultimately show ?thesis using p w(7) s by (simp add: hs_struct_def links_wf_alt sums_wf_alt e o sameStorages_def)
qed

text \<open>The pool a pool element is added to: the pool of that handle, or else the new one.\<close>

definition targetPool :: "PoolNode \<Rightarrow> PoolHandlespaceNode \<Rightarrow> PoolNode" where
  "targetPool pn hs = (case hsn_PoolNodes hs (ph_bytes (pn_Handle pn)) of None \<Rightarrow> pn | Some pn' \<Rightarrow> pn')"

lemma add_pool_ok:
  assumes wf: "hs_struct hs" and pn: "sound_pool pn"
  defines "h \<equiv> ph_bytes (pn_Handle pn)"
  shows "\<exists>hs'. poolHandlespaceNodeAddPoolNode pn hs = (h \<notin> dom (hsn_PoolNodes hs), hs') \<and> hs_struct hs' \<and>
    hsn_PoolNodes hs' = (hsn_PoolNodes hs)(h \<mapsto> targetPool pn hs) \<and> elements hs' = elements hs \<and>
    (\<forall>p \<in> elements hs. elementAt hs' p = elementAt hs p) \<and> pool_ok h (targetPool pn hs) \<and>
    hsn_HomeRegistrarIdentifier hs' = hsn_HomeRegistrarIdentifier hs \<and>
    hsn_PoolElementTimerStorage hs' = hsn_PoolElementTimerStorage hs"
proof (cases "hsn_PoolNodes hs h")
  case (Some pn')
  have "(hsn_PoolNodes hs)(h \<mapsto> pn') = hsn_PoolNodes hs" using Some by (intro ext) simp
  moreover have "pool_ok h pn'" using hs_structD(1) [OF wf] Some by (simp add: pools_wf_def)
  ultimately show ?thesis
    using Some wf find_pool [OF hs_structD(1) [OF wf], of h]
    by (intro exI [of _ hs] conjI) (auto simp: poolHandlespaceNodeAddPoolNode_def h_def targetPool_def Let_def)
next
  case None
  note w = hs_structD [OF wf]
  have k: "rbt_wf poolIndexStorageNodeComparison (hsn_PoolIndexStorage hs)" "h \<notin> keys (hsn_PoolIndexStorage hs)"
    using w(1) None by (auto simp: pools_wf_def)
  let ?t = "snd (RedBlackTreeInsert poolIndexStorageNodeComparison (hsn_PoolIndexStorage hs) h 0)"
  let ?hs = "(setPool h pn hs)\<lparr>hsn_PoolIndexStorage := ?t\<rparr>"
  note t = pools.insert_tree [OF k, of 0]
  have tp: "targetPool pn hs = pn" using None by (simp add: targetPool_def h_def)
  have ok: "pool_ok h pn" "pool_nodes pn = {}" using pn by (simp_all add: sound_pool_def h_def)
  have nh: "fst p \<noteq> h" if "p \<in> elements hs" for p using that None by (auto simp: elements_def)
  have e: "elements ?hs = elements hs"
  proof -
    have "elements ?hs = elements (setPool h pn hs)" by (rule elements_cong) simp
    then show ?thesis using nh ok(2) by (auto simp: elements_setPool)
  qed
  have v: "elementAt ?hs p = elementAt hs p" if "p \<in> elements hs" for p
  proof -
    have "elementAt ?hs = elementAt (setPool h pn hs)" by (rule elementAt_cong) simp
    then show ?thesis using nh [OF that] by (simp add: elementAt_setPool)
  qed
  have "pools_wf ?hs" using w(1) t ok(1) by (auto simp: pools_wf_def)
  then have "hs_struct ?hs" by (rule same_view [OF wf]) (simp_all add: e v sameStorages_def)
  moreover have "poolHandlespaceNodeAddPoolNode pn hs = (True, ?hs)"
    using None find_pool [OF w(1), of h] by (simp add: poolHandlespaceNodeAddPoolNode_def Let_def h_def domIff)
  ultimately show ?thesis using None e v ok tp by (intro exI [of _ ?hs] conjI) auto
qed

lemma remove_pool_ok:
  assumes wf: "hs_struct hs" and h: "hsn_PoolNodes hs h = Some pn" "pool_nodes pn = {}"
  shows "\<exists>hs'. poolHandlespaceNodeRemovePoolNode h hs = Inr hs' \<and> hs_struct hs' \<and>
    hsn_PoolNodes hs' = (hsn_PoolNodes hs)(h := None) \<and> elements hs' = elements hs \<and>
    (\<forall>p \<in> elements hs. elementAt hs' p = elementAt hs p) \<and>
    hsn_HomeRegistrarIdentifier hs' = hsn_HomeRegistrarIdentifier hs \<and>
    hsn_PoolElementTimerStorage hs' = hsn_PoolElementTimerStorage hs"
proof -
  note w = hs_structD [OF wf]
  have k: "rbt_wf poolIndexStorageNodeComparison (hsn_PoolIndexStorage hs)" "h \<in> keys (hsn_PoolIndexStorage hs)"
    using w(1) h by (auto simp: pools_wf_def)
  from pools.remove_tree [OF k] obtain t where t: "RedBlackTreeRemove poolIndexStorageNodeComparison (hsn_PoolIndexStorage hs) h = Inr t"
    "rbt_wf poolIndexStorageNodeComparison t" "keys t = keys (hsn_PoolIndexStorage hs) - {h}" by blast
  let ?hs = "hs\<lparr>hsn_PoolIndexStorage := t, hsn_PoolNodes := (hsn_PoolNodes hs)(h := None)\<rparr>"
  have nh: "fst p \<noteq> h" if "p \<in> elements hs" for p using that h by (auto simp: elements_def)
  have e: "elements ?hs = elements hs" using h by (auto simp: elements_def)
  have v: "elementAt ?hs p = elementAt hs p" if "p \<in> elements hs" for p
    using nh [OF that] by (simp add: elementAt_def poolAt_def)
  have "pools_wf ?hs" using w(1) t by (auto simp: pools_wf_def)
  then have "hs_struct ?hs" by (rule same_view [OF wf]) (simp_all add: e v sameStorages_def)
  then show ?thesis using t(1) e v by (intro exI [of _ ?hs] conjI) (auto simp: poolHandlespaceNodeRemovePoolNode_def)
qed

section \<open>Adding or updating\<close>

text \<open>The node as it is registered.\<close>

definition registered :: "peName \<Rightarrow> PoolElementNode \<Rightarrow> PoolElementNode" where
  "registered p n = n\<lparr>pen_Flags := pen_Flags n OR PENF_UPDATED OR PENF_NEW, pen_Checksum := nameChecksum p\<rparr>"

lemma registration_registered:
  assumes "registration m = fresh n"
  shows "registration (m\<lparr>pen_Checksum := nameChecksum p, pen_Flags := pen_Flags m OR PENF_NEW\<rparr>) = registration (registered p n)"
  using assms by (cases m; cases n) (simp add: registration_def registered_def fresh_def or.assoc)

text \<open>A new pool element comes into the sums.\<close>

definition countIn :: "peName \<Rightarrow> PoolHandlespaceNode \<Rightarrow> PoolHandlespaceNode" where
  "countIn p hs2 =
     (let hs3 = setElement p (\<lambda>m. m\<lparr>pen_Checksum := poolElementChecksum hs2 p\<rparr>) hs2;
          hs4 = recount (pen_HomeRegistrarIdentifier (elementAt hs3 p)) (pen_Checksum (elementAt hs3 p)) hs3;
          hs5 = notify p (elementAt hs4 p) PNUA_Create INITIAL_HANDLESPACE_CHECKSUM UNDEFINED_REGISTRAR_IDENTIFIER hs4
      in setElement p (\<lambda>m. m\<lparr>pen_Flags := pen_Flags m OR PENF_NEW\<rparr>) hs5)"

lemma count_in_ok:
  assumes p: "pools_wf hs2" "elements hs2 = Set.insert p E" "p \<notin> E" "finite E"
    and l: "owners_wf (hsn_PoolElementOwnershipStorage hs2) (elementAt hs2) (elements hs2)"
      "connections_wf (hsn_PoolElementConnectionStorage hs2) (elementAt hs2) (elements hs2)"
      "timers_wf (hsn_PoolElementTimerStorage hs2) (elementAt hs2) (elements hs2)"
    and s: "stamps (elementAt hs2) E" "counts E O' hs2" "O' = {q \<in> E. pen_HomeRegistrarIdentifier (elementAt hs2 q) = hsn_HomeRegistrarIdentifier hs2}"
      "hsn_PoolElements hs2 = card E + 1"
  shows "hs_struct (countIn p hs2)" "elements (countIn p hs2) = Set.insert p E"
    "elementAt (countIn p hs2) = (elementAt hs2)(p := (elementAt hs2 p)\<lparr>pen_Checksum := nameChecksum p, pen_Flags := pen_Flags (elementAt hs2 p) OR PENF_NEW\<rparr>)"
    "hsn_HomeRegistrarIdentifier (countIn p hs2) = hsn_HomeRegistrarIdentifier hs2"
    "hsn_PoolElementTimerStorage (countIn p hs2) = hsn_PoolElementTimerStorage hs2"
    "no_empty_pool (countIn p hs2) = no_empty_pool hs2" "attrs (countIn p hs2) = attrs hs2"
proof -
  let ?c = "\<lambda>m. m\<lparr>pen_Checksum := poolElementChecksum hs2 p\<rparr>"
  let ?fl = "\<lambda>m. m\<lparr>pen_Flags := pen_Flags m OR PENF_NEW\<rparr>"
  let ?r = "pen_HomeRegistrarIdentifier (elementAt hs2 p)"
  have pe: "p \<in> elements hs2" using p(2) by simp
  have cs: "poolElementChecksum hs2 p = nameChecksum p" by (rule checksum_element [OF p(1) pe])
  define hs3 where "hs3 = setElement p ?c hs2"
  note e3 = setElement_ok [OF p(1) pe, of ?c, simplified, folded hs3_def]
  have c3: "counts E O' hs3" "hsn_HomeRegistrarIdentifier hs3 = hsn_HomeRegistrarIdentifier hs2" using s(2) by (simp_all add: hs3_def)
  have oe: "O' \<subseteq> E" using s(3) by blast
  obtain a b k where r: "recount ?r (nameChecksum p) hs3 = withCounts a b k hs3"
    "counts (Set.insert p E) (if ?r = hsn_HomeRegistrarIdentifier hs2 then Set.insert p O' else O') (withCounts a b k hs3)"
    using recount_ok [OF c3(1) p(3,4) oe, of ?r] c3(2) by auto
  define hs5 where "hs5 = notify p (elementAt hs3 p) PNUA_Create INITIAL_HANDLESPACE_CHECKSUM UNDEFINED_REGISTRAR_IDENTIFIER (withCounts a b k hs3)"
  have p5: "pools_wf hs5" "p \<in> elements hs5" using e3 pe by (simp_all add: hs5_def)
  note e5 = setElement_ok [OF p5, of ?fl, simplified]
  have ci: "countIn p hs2 = setElement p ?fl hs5"
    unfolding countIn_def Let_def hs3_def [symmetric] using r(1) e3(3) cs by (simp add: hs5_def)
  show el: "elements (countIn p hs2) = Set.insert p E" using e5(2) e3(2) p(2) by (simp add: ci hs5_def)
  show ea: "elementAt (countIn p hs2) = (elementAt hs2)(p := (elementAt hs2 p)\<lparr>pen_Checksum := nameChecksum p, pen_Flags := pen_Flags (elementAt hs2 p) OR PENF_NEW\<rparr>)"
    using e5(3) e3(3) cs by (simp add: ci hs5_def)
  show ho: "hsn_HomeRegistrarIdentifier (countIn p hs2) = hsn_HomeRegistrarIdentifier hs2" using c3(2) by (simp add: ci hs5_def)
  show ti: "hsn_PoolElementTimerStorage (countIn p hs2) = hsn_PoolElementTimerStorage hs2" by (simp add: ci hs5_def hs3_def)
  show "attrs (countIn p hs2) = attrs hs2"
    using attrs_setElement [OF p5(2), of ?fl] attrs_setElement [OF pe, of ?c] by (simp add: ci hs5_def hs3_def)
  show "no_empty_pool (countIn p hs2) = no_empty_pool hs2" using e5(4) e3(4) by (simp add: ci hs5_def)
  have o: "owned (countIn p hs2) = (if ?r = hsn_HomeRegistrarIdentifier hs2 then Set.insert p O' else O')"
    using p(3) s(3) by (auto simp: owned_def el ea ho)
  have "owners_wf (hsn_PoolElementOwnershipStorage hs2) (elementAt (countIn p hs2)) (elements hs2)"
    by (rule iffD2 [OF owners_wf_cong l(1)]) (simp add: ea)
  moreover have "connections_wf (hsn_PoolElementConnectionStorage hs2) (elementAt (countIn p hs2)) (elements hs2)"
    by (rule iffD2 [OF connections_wf_cong l(2)]) (simp add: ea)
  moreover have "timers_wf (hsn_PoolElementTimerStorage hs2) (elementAt (countIn p hs2)) (elements hs2)"
    by (rule iffD2 [OF timers_wf_cong l(3)]) (simp add: ea)
  moreover have "stamps (elementAt (countIn p hs2)) (Set.insert p E)" using s(1) p(3) by (simp add: stamps_def ea)
  moreover have "counts (Set.insert p E) (owned (countIn p hs2)) (countIn p hs2)"
    unfolding o using r(2) by (simp only: ci hs5_def counts_simps)
  moreover have "hsn_PoolElementOwnershipStorage (countIn p hs2) = hsn_PoolElementOwnershipStorage hs2"
    "hsn_PoolElementConnectionStorage (countIn p hs2) = hsn_PoolElementConnectionStorage hs2"
    "hsn_PoolElements (countIn p hs2) = hsn_PoolElements hs2" "pools_wf (countIn p hs2)"
    using e5(1) by (simp_all add: ci hs5_def hs3_def)
  ultimately show "hs_struct (countIn p hs2)"
    using p s(4) by (simp add: hs_struct_def links_wf_alt sums_wf_alt el ti)
qed

lemma find_element: "pool_ok h pn \<Longrightarrow> poolNodeFindPoolElementNode pn i = (if i \<in> pool_nodes pn then Some i else None)"
  by (rule pool_wf_find) (simp add: pool_ok_def)

lemma element_known: "hsn_PoolNodes hs h = Some pn \<Longrightarrow> (h, i) \<in> elements hs \<longleftrightarrow> i \<in> pool_nodes pn"
  by (auto simp: elements_def)

lemma enter_ok:
  assumes wf: "hs_struct hs" and h: "hsn_PoolNodes hs h = Some pn" and c: "compatible pn n"
    and i: "pen_Identifier n \<notin> pool_nodes pn" and ne: "\<forall>g pn. g \<noteq> h \<longrightarrow> hsn_PoolNodes hs g = Some pn \<longrightarrow> pool_nodes pn \<noteq> {}"
  defines "p \<equiv> (h, pen_Identifier n)"
  shows "\<exists>hs2. poolHandlespaceNodeAddPoolElementNode h n hs = Inr (RSPERR_OKAY, Added, hs2) \<and> hs_wf (countIn p hs2) \<and>
    elements (countIn p hs2) = Set.insert p (elements hs) \<and>
    (\<forall>q. registration (elementAt (countIn p hs2) q) =
       (if q = p then registration (registered p n) else registration (elementAt hs q))) \<and>
    hsn_HomeRegistrarIdentifier (countIn p hs2) = hsn_HomeRegistrarIdentifier hs \<and>
    hsn_PoolElementTimerStorage (countIn p hs2) = hsn_PoolElementTimerStorage hs \<and> attrs (countIn p hs2) = attrs hs"
proof -
  note w = hs_structD [OF wf]
  obtain hs2 where a: "poolHandlespaceNodeAddPoolElementNode h n hs = Inr (RSPERR_OKAY, Added, hs2)" "pools_wf hs2"
    "elements hs2 = Set.insert p (elements hs)" "p \<notin> elements hs"
    "\<And>q. registration (elementAt hs2 q) = (if q = p then fresh n else registration (elementAt hs q))"
    "owners_wf (hsn_PoolElementOwnershipStorage hs2) (elementAt hs2) (elements hs2)"
    "connections_wf (hsn_PoolElementConnectionStorage hs2) (elementAt hs2) (elements hs2)"
    "timers_wf (hsn_PoolElementTimerStorage hs2) (elementAt hs2) (elements hs)"
    "counts (elements hs) (owned hs) hs2" "hsn_PoolElements hs2 = hsn_PoolElements hs + 1"
    "hsn_HomeRegistrarIdentifier hs2 = hsn_HomeRegistrarIdentifier hs" "hsn_PoolElementTimerStorage hs2 = hsn_PoolElementTimerStorage hs"
    "attrs hs2 = attrs hs" "\<And>g. g \<noteq> h \<Longrightarrow> hsn_PoolNodes hs2 g = hsn_PoolNodes hs g"
    using add_element_ok [OF wf h c i] unfolding p_def by blast
  have same: "q \<in> elements hs \<Longrightarrow> registration (elementAt hs2 q) = registration (elementAt hs q)" for q using a(4,5) by auto
  note f = registration_fields [OF same]
  have st: "stamps (elementAt hs2) (elements hs)" by (rule iffD2 [OF stamps_cong w(5)]) (rule f)
  have ow: "owned hs = {q \<in> elements hs. pen_HomeRegistrarIdentifier (elementAt hs2 q) = hsn_HomeRegistrarIdentifier hs2}"
    using f(1) a(11) by (auto simp: owned_def)
  have tm: "timers_wf (hsn_PoolElementTimerStorage hs2) (elementAt hs2) (elements hs2)"
    using timers_mono [OF a(8)] a(3) by blast
  have pc: "hsn_PoolElements hs2 = card (elements hs) + 1" using a(10) w(7) by simp
  note c = count_in_ok [OF a(2,3,4) w(8) a(6,7) tm st a(9) ow pc]
  have "pool_nodes pn' \<noteq> {}" if "hsn_PoolNodes hs2 g = Some pn'" for g pn'
  proof (cases "g = h")
    case True
    then show ?thesis using a(3) that element_known [of hs2 h pn' "pen_Identifier n"] by (auto simp: p_def)
  next
    case False
    then show ?thesis using ne a(14) that by auto
  qed
  then have "hs_wf (countIn p hs2)" using c(1,6) by (simp add: hs_wf_struct no_empty_pool_def)
  moreover have "registration (elementAt (countIn p hs2) q) =
      (if q = p then registration (registered p n) else registration (elementAt hs q))" for q
    using registration_registered [of "elementAt hs2 p" n p] a(5) by (simp add: c(3))
  ultimately show ?thesis using a(1,11,12,13) c(2,4,5,7) by (intro exI [of _ hs2] conjI allI) simp_all
qed

lemma add_or_update_new:
  assumes wf: "hs_wf hs" and pn: "sound_pool pn" and c: "compatible (targetPool pn hs) n"
  defines "p \<equiv> (ph_bytes (pn_Handle pn), pen_Identifier n)"
  assumes np: "p \<notin> elements hs"
  shows "\<exists>hs'. poolHandlespaceNodeAddOrUpdatePoolElementNode pn n hs =
      Inr (RSPERR_OKAY, Some p, ph_bytes (pn_Handle pn) \<notin> dom (hsn_PoolNodes hs), True, hs') \<and> hs_wf hs' \<and>
    elements hs' = Set.insert p (elements hs) \<and>
    (\<forall>q \<in> elements hs. registration (elementAt hs' q) = registration (elementAt hs q)) \<and>
    registration (elementAt hs' p) = registration (registered p n) \<and>
    hsn_HomeRegistrarIdentifier hs' = hsn_HomeRegistrarIdentifier hs \<and>
    hsn_PoolElementTimerStorage hs' = hsn_PoolElementTimerStorage hs \<and>
    attrs hs' = (attrs hs)(ph_bytes (pn_Handle pn) \<mapsto> pool_attrs (targetPool pn hs))"
proof -
  let ?h = "ph_bytes (pn_Handle pn)"
  have st: "hs_struct hs" and ne: "no_empty_pool hs" using wf by (simp_all add: hs_wf_struct)
  obtain hs1 where a: "poolHandlespaceNodeAddPoolNode pn hs = (?h \<notin> dom (hsn_PoolNodes hs), hs1)" "hs_struct hs1"
    "hsn_PoolNodes hs1 = (hsn_PoolNodes hs)(?h \<mapsto> targetPool pn hs)" "elements hs1 = elements hs"
    "\<And>p. p \<in> elements hs \<Longrightarrow> elementAt hs1 p = elementAt hs p"
    "hsn_HomeRegistrarIdentifier hs1 = hsn_HomeRegistrarIdentifier hs"
    "hsn_PoolElementTimerStorage hs1 = hsn_PoolElementTimerStorage hs"
    using add_pool_ok [OF st pn] by blast
  have h1: "hsn_PoolNodes hs1 ?h = Some (targetPool pn hs)" using a(3) by simp
  have i1: "pen_Identifier n \<notin> pool_nodes (targetPool pn hs)"
    using np a(4) element_known [OF h1, of "pen_Identifier n"] by (simp add: p_def)
  have ne1: "\<forall>g pn'. g \<noteq> ?h \<longrightarrow> hsn_PoolNodes hs1 g = Some pn' \<longrightarrow> pool_nodes pn' \<noteq> {}"
    using ne a(3) by (simp add: no_empty_pool_def)
  obtain hs2 where e: "poolHandlespaceNodeAddPoolElementNode ?h n hs1 = Inr (RSPERR_OKAY, Added, hs2)" "hs_wf (countIn p hs2)"
    "elements (countIn p hs2) = Set.insert p (elements hs1)"
    "\<And>q. registration (elementAt (countIn p hs2) q) = (if q = p then registration (registered p n) else registration (elementAt hs1 q))"
    "hsn_HomeRegistrarIdentifier (countIn p hs2) = hsn_HomeRegistrarIdentifier hs1"
    "hsn_PoolElementTimerStorage (countIn p hs2) = hsn_PoolElementTimerStorage hs1" "attrs (countIn p hs2) = attrs hs1"
    using enter_ok [OF a(2) h1 c i1 ne1] unfolding p_def by blast
  have "poolHandlespaceNodeAddOrUpdatePoolElementNode pn n hs = Inr (RSPERR_OKAY, Some p, ?h \<notin> dom (hsn_PoolNodes hs), True, countIn p hs2)"
    by (simp add: poolHandlespaceNodeAddOrUpdatePoolElementNode_def a(1) e(1) countIn_def Let_def p_def)
  moreover have "attrs hs1 = (attrs hs)(?h \<mapsto> pool_attrs (targetPool pn hs))" using a(3) by (auto simp: attrs_def fun_eq_iff)
  ultimately show ?thesis using e a np by (intro exI [of _ "countIn p hs2"] conjI) auto
qed

lemma known_pool: "p \<in> elements hs \<Longrightarrow> fst p = ph_bytes (pn_Handle pn) \<Longrightarrow> targetPool pn hs = poolAt hs (fst p) \<and> fst p \<in> dom (hsn_PoolNodes hs)"
  using elements_at [of p hs] by (auto simp: targetPool_def)

lemma add_or_update_known:
  assumes wf: "hs_wf hs" and c: "compatible (targetPool pn hs) n"
  defines "p \<equiv> (ph_bytes (pn_Handle pn), pen_Identifier n)"
  assumes pe: "p \<in> elements hs"
  shows "\<exists>hs'. poolHandlespaceNodeAddOrUpdatePoolElementNode pn n hs = Inr (RSPERR_OKAY, Some p, False, False, hs') \<and> hs_wf hs' \<and>
    elements hs' = elements hs \<and>
    (\<forall>q. registration (elementAt hs' q) =
       (if q = p then registration (reregistered (elementAt hs p) n) else registration (elementAt hs q))) \<and>
    hsn_HomeRegistrarIdentifier hs' = hsn_HomeRegistrarIdentifier hs \<and>
    hsn_PoolElementTimerStorage hs' = hsn_PoolElementTimerStorage hs \<and> attrs hs' = attrs hs"
proof -
  have t: "targetPool pn hs = poolAt hs (fst p)" "fst p \<in> dom (hsn_PoolNodes hs)"
    using known_pool [OF pe, of pn] by (simp_all add: p_def)
  have c': "compatible (poolAt hs (fst p)) n" using c t by simp
  have ok: "pool_ok (fst p) (poolAt hs (fst p))" using hs_parts(1) [OF wf] pe by (rule pool_ok_at)
  have i: "snd p \<in> pool_nodes (poolAt hs (fst p))" using elements_at [OF pe] by simp
  have ap: "poolHandlespaceNodeAddPoolNode pn hs = (False, hs)"
    using t(2) find_pool [OF hs_parts(1) [OF wf], of "fst p"] by (simp add: poolHandlespaceNodeAddPoolNode_def Let_def p_def)
  have "poolNodeAddPoolElementNode (poolAt hs (fst p)) n = Inr (RSPERR_DUPLICATE_ID, Present, poolAt hs (fst p))"
    using add_duplicate [of "poolAt hs (fst p)" n] ok c' i by (simp add: pool_ok_def compatible_def p_def)
  then have ae: "poolHandlespaceNodeAddPoolElementNode (fst p) n hs = Inr (RSPERR_DUPLICATE_ID, Present, hs)"
    by (simp add: poolHandlespaceNodeAddPoolElementNode_def)
  obtain hs' where u: "poolHandlespaceNodeUpdatePoolElementNode p n hs = Inr (RSPERR_OKAY, hs')" "hs_wf hs'" "elements hs' = elements hs"
    "\<forall>q. registration (elementAt hs' q) = (if q = p then registration (reregistered (elementAt hs p) n) else registration (elementAt hs q))"
    "hsn_HomeRegistrarIdentifier hs' = hsn_HomeRegistrarIdentifier hs" "hsn_PoolElementTimerStorage hs' = hsn_PoolElementTimerStorage hs"
    "attrs hs' = attrs hs"
    using update_element_ok [OF wf pe c'] by blast
  have "poolHandlespaceNodeAddOrUpdatePoolElementNode pn n hs = Inr (RSPERR_OKAY, Some p, False, False, hs')"
    using ap ae u(1) by (simp add: poolHandlespaceNodeAddOrUpdatePoolElementNode_def p_def)
  then show ?thesis using u by (intro exI [of _ hs'] conjI)
qed

lemma add_or_update_rejected:
  assumes wf: "hs_wf hs" and pn: "sound_pool pn"
    and e: "poolNodeCheckPoolElementNodeCompatibility (targetPool pn hs) n = Inr e" "e \<noteq> RSPERR_OKAY"
  shows "\<exists>hs'. poolHandlespaceNodeAddOrUpdatePoolElementNode pn n hs = Inr (e, None, False, False, hs') \<and> hs_wf hs' \<and>
    hsn_PoolNodes hs' = hsn_PoolNodes hs \<and> hsn_HomeRegistrarIdentifier hs' = hsn_HomeRegistrarIdentifier hs \<and>
    hsn_PoolElementTimerStorage hs' = hsn_PoolElementTimerStorage hs"
proof -
  let ?h = "ph_bytes (pn_Handle pn)"
  have st: "hs_struct hs" and ne: "no_empty_pool hs" using wf by (simp_all add: hs_wf_struct)
  obtain hs1 where a: "poolHandlespaceNodeAddPoolNode pn hs = (?h \<notin> dom (hsn_PoolNodes hs), hs1)" "hs_struct hs1"
    "hsn_PoolNodes hs1 = (hsn_PoolNodes hs)(?h \<mapsto> targetPool pn hs)"
    "hsn_HomeRegistrarIdentifier hs1 = hsn_HomeRegistrarIdentifier hs"
    "hsn_PoolElementTimerStorage hs1 = hsn_PoolElementTimerStorage hs"
    using add_pool_ok [OF st pn] by blast
  have h1: "hsn_PoolNodes hs1 ?h = Some (targetPool pn hs)" using a(3) by simp
  have ae: "poolHandlespaceNodeAddPoolElementNode ?h n hs1 = Inr (e, NotAdded, hs1)"
    using add_rejected [OF e] by (simp add: poolHandlespaceNodeAddPoolElementNode_def poolAt_eq [OF h1])
  show ?thesis
  proof (cases "hsn_PoolNodes hs ?h")
    case (Some pn')
    then have "hsn_PoolNodes hs1 = hsn_PoolNodes hs" using a(3) by (auto simp: targetPool_def)
    then have "hs_wf hs1" using ne a(2) no_empty_pool_cong [of hs1 hs] by (simp add: hs_wf_struct)
    moreover have "poolHandlespaceNodeAddOrUpdatePoolElementNode pn n hs = Inr (e, None, False, False, hs1)"
      using Some a(1) ae by (simp add: poolHandlespaceNodeAddOrUpdatePoolElementNode_def domIff)
    ultimately show ?thesis using a \<open>hsn_PoolNodes hs1 = hsn_PoolNodes hs\<close> by (intro exI [of _ hs1] conjI)
  next
    case None
    have "pool_nodes (targetPool pn hs) = {}" using pn None by (simp add: targetPool_def sound_pool_def)
    from remove_pool_ok [OF a(2) h1 this] obtain hs2 where r: "poolHandlespaceNodeRemovePoolNode ?h hs1 = Inr hs2" "hs_struct hs2"
      "hsn_PoolNodes hs2 = (hsn_PoolNodes hs1)(?h := None)" "hsn_HomeRegistrarIdentifier hs2 = hsn_HomeRegistrarIdentifier hs1"
      "hsn_PoolElementTimerStorage hs2 = hsn_PoolElementTimerStorage hs1" by blast
    have s: "hsn_PoolNodes hs2 = hsn_PoolNodes hs" using r(3) a(3) None by auto
    then have "hs_wf hs2" using ne r(2) no_empty_pool_cong [of hs2 hs] by (simp add: hs_wf_struct)
    moreover have "poolHandlespaceNodeAddOrUpdatePoolElementNode pn n hs = Inr (e, None, False, False, hs2)"
      using None a(1) ae r(1) by (simp add: poolHandlespaceNodeAddOrUpdatePoolElementNode_def domIff)
    ultimately show ?thesis using r a s by (intro exI [of _ hs2] conjI) simp_all
  qed
qed

end
