(* ===== verification/RSP_HandlespaceExit.thy ===== *)
theory RSP_HandlespaceExit
  imports RSP_HandlespaceEntry
begin

text \<open>
  Removing pool elements, clearing the handlespace and selecting by policy.
\<close>

section \<open>Removing\<close>

lemma pool_ok_remove:
  assumes ok: "pool_ok h pn" and i: "i \<in> pool_nodes pn"
  shows "\<exists>pn'. poolNodeRemovePoolElementNode pn i = Inr (node pn i, pn') \<and> pool_ok h pn' \<and>
    pool_nodes pn' = pool_nodes pn - {i} \<and> (\<forall>j. j \<noteq> i \<longrightarrow> node pn' j = node pn j) \<and>
    selectionOrder pn' = filter (\<lambda>j. j \<noteq> i) (selectionOrder pn) \<and> pool_attrs pn' = pool_attrs pn"
proof -
  have wf: "pool_wf pn" using ok by (simp add: pool_ok_def)
  obtain pn' where r: "poolNodeRemovePoolElementNode pn i = Inr (node pn i, pn')" "pool_wf pn'"
    "pool_nodes pn' = pool_nodes pn - {i}" "\<forall>j. j \<noteq> i \<longrightarrow> node pn' j = node pn j"
    "selectionOrder pn' = filter (\<lambda>j. j \<noteq> i) (selectionOrder pn)" "pn_Handle pn' = pn_Handle pn" "pn_Policy pn' = pn_Policy pn"
    "pn_Protocol pn' = pn_Protocol pn" "pn_Flags pn' = pn_Flags pn" using pool_remove_ok [OF wf i] by blast
  have "compatible pn' (node pn' j)" if "j \<in> pool_nodes pn'" for j
  proof -
    have "compatible pn' (node pn' j) = compatible pn (node pn j)"
      by (rule compatible_cong) (use r that in auto)
    then show ?thesis using ok that r(3) by (simp add: pool_ok_def)
  qed
  then have "pool_ok h pn'" using ok r by (simp add: pool_ok_def)
  then show ?thesis using r by (intro exI [of _ pn'] conjI) (simp_all add: pool_attrs_def)
qed

lemma remove_element_ok:
  assumes wf: "hs_struct hs" and p: "p \<in> elements hs"
  shows "\<exists>pn' hs'. poolHandlespaceNodeRemovePoolElementNode p hs = Inr (elementAt hs p, hs') \<and> hs_struct hs' \<and>
    elements hs' = elements hs - {p} \<and> (\<forall>q. q \<noteq> p \<longrightarrow> elementAt hs' q = elementAt hs q) \<and>
    hsn_PoolNodes hs' = (hsn_PoolNodes hs)(fst p \<mapsto> pn') \<and> pool_nodes pn' = pool_nodes (poolAt hs (fst p)) - {snd p} \<and>
    selectionOrder pn' = filter (\<lambda>j. j \<noteq> snd p) (selectionOrder (poolAt hs (fst p))) \<and>
    hsn_HomeRegistrarIdentifier hs' = hsn_HomeRegistrarIdentifier hs \<and>
    keys (hsn_PoolElementTimerStorage hs') = keys (hsn_PoolElementTimerStorage hs) - {timerEntry p (elementAt hs p)} \<and>
    attrs hs' = attrs hs"
proof -
  note w = hs_structD [OF wf]
  let ?n = "elementAt hs p"
  let ?pn = "poolAt hs (fst p)"
  note e = elements_at [OF p]
  obtain pn' where r: "poolNodeRemovePoolElementNode ?pn (snd p) = Inr (node ?pn (snd p), pn')" "pool_ok (fst p) pn'"
    "pool_nodes pn' = pool_nodes ?pn - {snd p}" "\<forall>j. j \<noteq> snd p \<longrightarrow> node pn' j = node ?pn j"
    "selectionOrder pn' = filter (\<lambda>j. j \<noteq> snd p) (selectionOrder ?pn)" "pool_attrs pn' = pool_attrs ?pn"
    using pool_ok_remove [OF pool_ok_at [OF w(1) p]] e by blast
  obtain ot where ot: "removeLinked poolElementOwnershipStorageNodeComparison (hsn_PoolElementOwnershipStorage hs) (ownershipEntry p ?n) = Inr ot"
    "owners_wf ot (elementAt hs) (elements hs - {p})" using owners_remove [OF w(2), of p] by blast
  obtain ct where ct: "removeLinked poolElementConnectionStorageNodeComparison (hsn_PoolElementConnectionStorage hs) (connectionEntry p ?n) = Inr ct"
    "connections_wf ct (elementAt hs) (elements hs - {p})" using connections_remove [OF w(3), of p] by blast
  obtain tt where tt: "removeLinked poolElementTimerStorageNodeComparison (hsn_PoolElementTimerStorage hs) (timerEntry p ?n) = Inr tt"
    "timers_wf tt (elementAt hs) (elements hs - {p})" "keys tt = keys (hsn_PoolElementTimerStorage hs) - {timerEntry p ?n}"
    using timers_remove [OF w(4), of p] by blast
  define hs1 where "hs1 = (setPool (fst p) pn' hs)\<lparr>hsn_PoolElementTimerStorage := tt,
    hsn_PoolElementOwnershipStorage := ot, hsn_PoolElementConnectionStorage := ct\<rparr>"
  define hs2 where "hs2 = hs1\<lparr>hsn_PoolElements := hsn_PoolElements hs1 - 1\<rparr>"
  have m: "hsn_PoolNodes hs2 = (hsn_PoolNodes hs)(fst p \<mapsto> pn')" by (simp add: hs2_def hs1_def)
  have el: "elements hs2 = elements hs - {p}"
  proof (rule set_eqI)
    fix q show "q \<in> elements hs2 \<longleftrightarrow> q \<in> elements hs - {p}"
      using r(3) e by (cases "fst q = fst p") (simp_all add: elements_def m prod_eq_iff)
  qed
  have v: "elementAt hs2 q = elementAt hs q" if "q \<noteq> p" for q
    using that r(4) by (auto simp: elementAt_def poolAt_def m prod_eq_iff)
  have c2: "counts (elements hs) (owned hs) hs2" "hsn_HomeRegistrarIdentifier hs2 = hsn_HomeRegistrarIdentifier hs"
    using w(6) by (simp_all add: hs2_def hs1_def)
  have o2: "p \<in> owned hs \<longleftrightarrow> pen_HomeRegistrarIdentifier ?n = hsn_HomeRegistrarIdentifier hs2"
    using p by (simp add: owned_def c2(2))
  have cs: "pen_Checksum ?n = nameChecksum p" using w(5) p by (simp add: stamps_def)
  obtain a b k where u: "uncount (pen_HomeRegistrarIdentifier ?n) (nameChecksum p) hs2 = Inr (withCounts a b k hs2)"
    "counts (elements hs - {p}) (owned hs - {p}) (withCounts a b k hs2)"
    using uncount_ok [OF c2(1) p w(8) owned_subset o2] by blast
  let ?hs = "notify p ?n PNUA_Delete (pen_Checksum ?n) (pen_HomeRegistrarIdentifier ?n) (withCounts a b k hs2)"
  have pos: "0 < hsn_PoolElements hs1" using w(7,8) p by (auto simp: hs1_def card_gt_0_iff)
  have "poolHandlespaceNodeRemovePoolElementNode p hs = Inr (?n, ?hs)"
    using pos u(1) cs unfolding poolHandlespaceNodeRemovePoolElementNode_def Let_def tt(1) ot(1) ct(1) r(1) bindR_simps
      prod.case hs1_def [symmetric] hs2_def [symmetric] by simp
  moreover have "hs_struct ?hs"
  proof -
    have o: "owned ?hs = owned hs - {p}" using v by (auto simp: owned_def el c2(2))
    have "pools_wf ?hs" using pools_wf_setPool [OF w(1) _ r(2)] e by (auto simp: hs2_def hs1_def)
    moreover have "owners_wf ot (elementAt hs2) (elements hs - {p})" by (rule iffD2 [OF owners_wf_cong ot(2)]) (simp add: v)
    moreover have "connections_wf ct (elementAt hs2) (elements hs - {p})" by (rule iffD2 [OF connections_wf_cong ct(2)]) (simp add: v)
    moreover have "timers_wf tt (elementAt hs2) (elements hs - {p})" by (rule iffD2 [OF timers_wf_cong tt(2)]) (simp add: v)
    moreover have "stamps (elementAt hs2) (elements hs - {p})" using w(5) v by (simp add: stamps_def)
    moreover have "hsn_PoolElementOwnershipStorage hs2 = ot" "hsn_PoolElementConnectionStorage hs2 = ct"
      "hsn_PoolElementTimerStorage hs2 = tt" "hsn_PoolElements hs2 = card (elements hs - {p})"
      using w(7,8) p by (simp_all add: hs2_def hs1_def)
    ultimately show ?thesis using u(2) by (simp add: hs_struct_def links_wf_alt sums_wf_alt el o)
  qed
  moreover have "hsn_PoolElementTimerStorage hs2 = tt" "attrs hs2 = attrs hs"
    using attrs_setPool [OF _ r(6)] e by (simp_all add: hs2_def hs1_def)
  ultimately show ?thesis using el v m r(3,5) c2(2) tt(3) by (intro exI [of _ pn'] exI [of _ ?hs] conjI) simp_all
qed

section \<open>Clearing\<close>

lemma first_selection_none:
  assumes "pool_ok h pn"
  shows "poolNodeGetFirstPoolElementNodeFromSelection pn = None \<longleftrightarrow> pool_nodes pn = {}"
    "poolNodeGetFirstPoolElementNodeFromSelection pn = Some i \<Longrightarrow> i \<in> pool_nodes pn"
proof -
  have wf: "pool_wf pn" using assms by (simp add: pool_ok_def)
  have s: "set (selectionOrder pn) = pool_nodes pn" using sel_invD(4) [OF pool_wfD(3) [OF wf]] by simp
  have f: "poolNodeGetFirstPoolElementNodeFromSelection pn = firstOf (contents (pn_Selection pn))"
    by (simp add: poolNodeGetFirstPoolElementNodeFromSelection_def ends_ok)
  show "poolNodeGetFirstPoolElementNodeFromSelection pn = None \<longleftrightarrow> pool_nodes pn = {}"
    "poolNodeGetFirstPoolElementNodeFromSelection pn = Some i \<Longrightarrow> i \<in> pool_nodes pn"
    using s by (cases "contents (pn_Selection pn)"; auto simp: f selectionOrder_def)+
qed

lemma pool_clear_ok:
  assumes "hs_struct hs" "hsn_PoolNodes hs h = Some pn" "card (pool_nodes pn) \<le> k"
  shows "\<exists>pn' hs'. poolNodeClear k h hs = Inr hs' \<and> hs_struct hs' \<and> hsn_PoolNodes hs' = (hsn_PoolNodes hs)(h \<mapsto> pn') \<and>
    pool_nodes pn' = {} \<and> hsn_HomeRegistrarIdentifier hs' = hsn_HomeRegistrarIdentifier hs"
  using assms
proof (induction k arbitrary: hs pn)
  case 0
  have ok: "pool_ok h pn" using hs_structD(1) [OF 0(1)] 0(2) by (simp add: pools_wf_def)
  have "finite (pool_nodes pn)" using pool_nodes_finite ok by (simp add: pool_ok_def)
  then have e: "pool_nodes pn = {}" using 0(3) by simp
  then have "poolNodeClear 0 h hs = Inr hs" using first_selection_none(1) [OF ok] 0(2) by (simp add: poolAt_eq)
  then show ?case using 0 e by (intro exI [of _ pn] exI [of _ hs] conjI) auto
next
  case (Suc k)
  have ok: "pool_ok h pn" using hs_structD(1) [OF Suc.prems(1)] Suc.prems(2) by (simp add: pools_wf_def)
  have fin: "finite (pool_nodes pn)" using pool_nodes_finite ok by (simp add: pool_ok_def)
  show ?case
  proof (cases "poolNodeGetFirstPoolElementNodeFromSelection pn")
    case None
    then have e: "pool_nodes pn = {}" using first_selection_none(1) [OF ok] by simp
    have "poolNodeClear (Suc k) h hs = Inr hs" using None Suc.prems(2) by (simp add: poolAt_eq)
    then show ?thesis using Suc.prems e by (intro exI [of _ pn] exI [of _ hs] conjI) auto
  next
    case (Some i)
    then have i: "i \<in> pool_nodes pn" by (rule first_selection_none(2) [OF ok])
    then have p: "(h, i) \<in> elements hs" using element_known [OF Suc.prems(2)] by simp
    obtain pn1 hs1 where r: "poolHandlespaceNodeRemovePoolElementNode (h, i) hs = Inr (elementAt hs (h, i), hs1)" "hs_struct hs1"
      "hsn_PoolNodes hs1 = (hsn_PoolNodes hs)(h \<mapsto> pn1)" "pool_nodes pn1 = pool_nodes pn - {i}"
      "hsn_HomeRegistrarIdentifier hs1 = hsn_HomeRegistrarIdentifier hs"
      using remove_element_ok [OF Suc.prems(1) p] Suc.prems(2) by (auto simp: poolAt_eq)
    have "card (pool_nodes pn1) \<le> k" using r(4) i fin Suc.prems(3) by simp
    moreover have "hsn_PoolNodes hs1 h = Some pn1" using r(3) by simp
    ultimately obtain pn' hs' where "poolNodeClear k h hs1 = Inr hs'" "hs_struct hs'"
      "hsn_PoolNodes hs' = (hsn_PoolNodes hs1)(h \<mapsto> pn')" "pool_nodes pn' = {}"
      "hsn_HomeRegistrarIdentifier hs' = hsn_HomeRegistrarIdentifier hs1" using Suc.IH [OF r(2)] by blast
    then show ?thesis using r Some Suc.prems(2) by (intro exI [of _ pn'] exI [of _ hs'] conjI) (simp_all add: poolAt_eq)
  qed
qed

lemma index_size: "pool_ok h pn \<Longrightarrow> poolNodeGetPoolElementNodes pn = card (pool_nodes pn)"
proof -
  assume "pool_ok h pn"
  then have wf: "pool_wf pn" by (simp add: pool_ok_def)
  then show ?thesis using pe_index.elements_card [of "pn_Index pn"]
    by (simp add: poolNodeGetPoolElementNodes_def pool_wf_def idx_inv_def indexed_def keys_def)
qed

lemma first_pool:
  assumes "pools_wf hs"
  shows "poolHandlespaceNodeGetFirstPoolNode hs = None \<longleftrightarrow> dom (hsn_PoolNodes hs) = {}"
    "poolHandlespaceNodeGetFirstPoolNode hs = Some h \<Longrightarrow> h \<in> dom (hsn_PoolNodes hs)"
proof -
  have s: "fst ` set (contents (hsn_PoolIndexStorage hs)) = dom (hsn_PoolNodes hs)" using assms by (simp add: pools_wf_def keys_def)
  have f: "poolHandlespaceNodeGetFirstPoolNode hs = firstOf (contents (hsn_PoolIndexStorage hs))"
    by (simp add: poolHandlespaceNodeGetFirstPoolNode_def ends_ok)
  show "poolHandlespaceNodeGetFirstPoolNode hs = None \<longleftrightarrow> dom (hsn_PoolNodes hs) = {}"
    "poolHandlespaceNodeGetFirstPoolNode hs = Some h \<Longrightarrow> h \<in> dom (hsn_PoolNodes hs)"
    using s [symmetric] by (cases "contents (hsn_PoolIndexStorage hs)"; simp add: f)+
qed

lemma clear_pools_ok:
  assumes "hs_struct hs" "card (dom (hsn_PoolNodes hs)) \<le> k"
  shows "\<exists>hs'. clearPools k hs = Inr hs' \<and> hs_struct hs' \<and> hsn_PoolNodes hs' = (\<lambda>_. None) \<and>
    hsn_HomeRegistrarIdentifier hs' = hsn_HomeRegistrarIdentifier hs"
  using assms
proof (induction k arbitrary: hs)
  case 0
  have "finite (dom (hsn_PoolNodes hs))"
    using hs_structD(1) [OF 0(1)] finite_keys [of "hsn_PoolIndexStorage hs"] by (simp add: pools_wf_def)
  then have e: "dom (hsn_PoolNodes hs) = {}" using 0(2) by simp
  then show ?case using 0(1) first_pool(1) [OF hs_structD(1) [OF 0(1)]] by auto
next
  case (Suc k)
  note w = hs_structD [OF Suc.prems(1)]
  have fin: "finite (dom (hsn_PoolNodes hs))"
    using w(1) finite_keys [of "hsn_PoolIndexStorage hs"] by (simp add: pools_wf_def)
  show ?case
  proof (cases "poolHandlespaceNodeGetFirstPoolNode hs")
    case None
    then show ?thesis using Suc.prems(1) first_pool(1) [OF w(1)] by auto
  next
    case (Some h)
    then obtain pn where h: "hsn_PoolNodes hs h = Some pn" using first_pool(2) [OF w(1), of h] by blast
    then have ok: "pool_ok h pn" using w(1) by (simp add: pools_wf_def)
    obtain pn1 hs1 where c: "poolNodeClear (poolNodeGetPoolElementNodes pn) h hs = Inr hs1" "hs_struct hs1"
      "hsn_PoolNodes hs1 = (hsn_PoolNodes hs)(h \<mapsto> pn1)" "pool_nodes pn1 = {}"
      "hsn_HomeRegistrarIdentifier hs1 = hsn_HomeRegistrarIdentifier hs"
      using pool_clear_ok [OF Suc.prems(1) h eq_imp_le [OF index_size [OF ok, symmetric]]] by blast
    obtain hs2 where r: "poolHandlespaceNodeRemovePoolNode h hs1 = Inr hs2" "hs_struct hs2"
      "hsn_PoolNodes hs2 = (hsn_PoolNodes hs1)(h := None)" "hsn_HomeRegistrarIdentifier hs2 = hsn_HomeRegistrarIdentifier hs1"
      using remove_pool_ok [OF c(2), of h pn1] c(3,4) by auto
    have "card (dom (hsn_PoolNodes hs2)) \<le> k" using r(3) c(3) h fin Suc.prems(2) by (auto simp: card_Diff_singleton_if)
    from Suc.IH [OF r(2) this] show ?thesis using Some h c(1,5) r(1,4) by (auto simp: poolAt_eq)
  qed
qed

lemma clear_ok:
  assumes "hs_wf hs"
  shows "\<exists>hs'. poolHandlespaceNodeClear hs = Inr hs' \<and> hs_wf hs' \<and> elements hs' = {} \<and> hsn_PoolNodes hs' = (\<lambda>_. None) \<and>
    hsn_HandlespaceChecksum hs' = 0 \<and> hsn_OwnershipChecksum hs' = 0 \<and> hsn_PoolElements hs' = 0 \<and> hsn_OwnedPoolElements hs' = 0 \<and>
    poolHandlespaceNodeDelete hs' = Inr ()"
proof -
  have st: "hs_struct hs" using assms by (simp add: hs_wf_struct)
  have "poolHandlespaceNodeGetPoolNodes hs = card (dom (hsn_PoolNodes hs))"
    using pools.elements_card hs_structD(1) [OF st] by (simp add: poolHandlespaceNodeGetPoolNodes_def pools_wf_def)
  with clear_pools_ok [OF st, of "poolHandlespaceNodeGetPoolNodes hs"] obtain hs' where
    c: "poolHandlespaceNodeClear hs = Inr hs'" "hs_struct hs'" "hsn_PoolNodes hs' = (\<lambda>_. None)"
    by (auto simp: poolHandlespaceNodeClear_def)
  have e: "elements hs' = {}" using c(3) by (simp add: elements_def)
  have o: "owned hs' = {}" using e by (simp add: owned_def)
  note w = hs_structD [OF c(2), unfolded e o]
  have k: "rbt_wf poolElementOwnershipStorageNodeComparison (hsn_PoolElementOwnershipStorage hs')"
    "keys (hsn_PoolElementOwnershipStorage hs') = {}"
    "rbt_wf poolElementConnectionStorageNodeComparison (hsn_PoolElementConnectionStorage hs')"
    "keys (hsn_PoolElementConnectionStorage hs') = {}"
    "rbt_wf poolElementTimerStorageNodeComparison (hsn_PoolElementTimerStorage hs')"
    "keys (hsn_PoolElementTimerStorage hs') = {}"
    using w(2,3,4) by (simp_all add: owners_wf_def connections_wf_def timers_wf_def owner_links.links_def
        connection_links.links_def timer_links.links_def)
  have "poolHandlespaceNodeDelete hs' = Inr ()"
    using w(1) c(3) k by (simp add: poolHandlespaceNodeDelete_def pools.is_empty owners.is_empty connections.is_empty timers.is_empty pools_wf_def)
  then show ?thesis using c w e by (intro exI [of _ hs'] conjI) (simp_all add: hs_wf_struct no_empty_pool_def counts_def)
qed

section \<open>Selecting\<close>

end
