(* ===== verification/RSP_HandlespaceLoops.thy ===== *)
theory RSP_HandlespaceLoops
  imports RSP_HandlespaceExit
begin

text \<open>
  The loops over the pool elements of one registrar and of one connection: each visits exactly
  the pool elements of that group, in the order of the storage.
\<close>

section \<open>Groups in a chain\<close>

text \<open>The neighbours of the members of a list.\<close>

definition adjacent :: "('n \<Rightarrow> 'n option) \<Rightarrow> ('n \<Rightarrow> 'n option) \<Rightarrow> 'n list \<Rightarrow> bool" where
  "adjacent nxt prv ns \<longleftrightarrow> (\<forall>xs p ys. ns = xs @ p # ys \<longrightarrow>
     nxt p = (case ys of [] \<Rightarrow> None | q # _ \<Rightarrow> Some q) \<and> prv p = (if xs = [] then None else Some (last xs)))"

primrec backWhile :: "nat \<Rightarrow> ('n \<Rightarrow> 'n option) \<Rightarrow> ('n \<Rightarrow> bool) \<Rightarrow> 'n \<Rightarrow> 'n" where
  "backWhile 0 prv P p = p"
| "backWhile (Suc k) prv P p = (case prv p of None \<Rightarrow> p | Some q \<Rightarrow> if P q then backWhile k prv P q else p)"

primrec follow :: "nat \<Rightarrow> ('n \<Rightarrow> 'n option) \<Rightarrow> 'n option \<Rightarrow> 'n list" where
  "follow 0 nxt current = []"
| "follow (Suc k) nxt current = (case current of None \<Rightarrow> [] | Some p \<Rightarrow> p # follow k nxt (nxt p))"

lemma group_split:
  assumes "sorted_wrt R ns" and convex: "\<And>a b c. R a b \<Longrightarrow> R b c \<Longrightarrow> P a \<Longrightarrow> P c \<Longrightarrow> P b"
  shows "\<exists>xs zs. ns = xs @ filter P ns @ zs \<and> filter P xs = [] \<and> filter P zs = []"
  using assms(1)
proof (induction ns)
  case (Cons a ns)
  then obtain xs zs where s: "ns = xs @ filter P ns @ zs" "filter P xs = []" "filter P zs = []" by auto
  show ?case
  proof (cases "P a \<and> filter P ns \<noteq> []")
    case False
    then consider "\<not> P a" | "P a" "filter P ns = []" by blast
    then show ?thesis
    proof cases
      case 1
      then show ?thesis using s by (intro exI [of _ "a # xs"] exI [of _ zs]) simp
    next
      case 2
      then show ?thesis by (intro exI [of _ "[]"] exI [of _ ns]) simp
    qed
  next
    case True
    then obtain c cs where c: "filter P ns = c # cs" by (cases "filter P ns") auto
    have "xs = []"
    proof (rule ccontr)
      assume "xs \<noteq> []"
      then obtain b bs where b: "xs = b # bs" by (cases xs) auto
      have "ns = b # bs @ c # cs @ zs" using s(1) b c by simp
      then have "R a b" "R b c" using Cons.prems by (simp_all add: sorted_wrt_append)
      moreover have "P a" "P c" "\<not> P b" using True s(2) b c by (auto simp: filter_eq_Cons_iff split: if_splits)
      ultimately show False using convex by blast
    qed
    then show ?thesis using s True by (intro exI [of _ "[]"] exI [of _ zs]) simp
  qed
qed simp

lemma back_in:
  assumes adj: "adjacent nxt prv ns"
  shows "p \<in> set ns \<Longrightarrow> backWhile k prv P p \<in> set ns"
proof (induction k arbitrary: p)
  case (Suc k)
  then obtain xs ys where s: "ns = xs @ p # ys" by (auto simp: in_set_conv_decomp)
  then have "prv p = (if xs = [] then None else Some (last xs))" using adj by (auto simp: adjacent_def)
  moreover have "xs \<noteq> [] \<Longrightarrow> last xs \<in> set ns" using s by simp
  ultimately show ?case using Suc.IH [of "last xs"] Suc.prems by simp
qed simp

lemma back_ok:
  assumes adj: "adjacent nxt prv ns"
  shows "ns = xs @ ws @ p # ys \<Longrightarrow> \<forall>w \<in> set ws. P w \<Longrightarrow> xs = [] \<or> \<not> P (last xs) \<Longrightarrow> length ws \<le> k \<Longrightarrow>
    backWhile k prv P p = hd (ws @ [p])"
proof (induction k arbitrary: ws p ys)
  case (Suc k)
  have "ns = (xs @ ws) @ p # ys" using Suc.prems(1) by simp
  then have pr: "prv p = (if xs @ ws = [] then None else Some (last (xs @ ws)))" using adj unfolding adjacent_def by blast
  show ?case
  proof (cases ws rule: rev_cases)
    case Nil
    then show ?thesis using pr Suc.prems(3) by auto
  next
    case (snoc vs w)
    have "backWhile k prv P w = hd (vs @ [w])"
      by (rule Suc.IH [of vs w "p # ys"]) (use Suc.prems snoc in auto)
    then show ?thesis using pr snoc Suc.prems(2) by (cases vs) simp_all
  qed
qed simp

lemma follow_ok:
  assumes adj: "adjacent nxt prv ns"
    and n: "\<And>p q. nxt p = Some q \<Longrightarrow> P p \<Longrightarrow> nxt' p = (if P q then Some q else None)" "\<And>p. nxt p = None \<Longrightarrow> nxt' p = None"
  shows "ns = xs @ ys @ zs \<Longrightarrow> \<forall>y \<in> set ys. P y \<Longrightarrow> zs = [] \<or> \<not> P (hd zs) \<Longrightarrow> length ys \<le> k \<Longrightarrow>
    follow k nxt' (case ys of [] \<Rightarrow> None | y # _ \<Rightarrow> Some y) = ys"
proof (induction k arbitrary: xs ys)
  case (Suc k)
  show ?case
  proof (cases ys)
    case (Cons y ws)
    have "ns = xs @ y # ws @ zs" using Suc.prems(1) Cons by simp
    then have nx: "nxt y = (case ws @ zs of [] \<Rightarrow> None | q # _ \<Rightarrow> Some q)" using adj unfolding adjacent_def by blast
    have "nxt' y = (case ws of [] \<Rightarrow> None | q # _ \<Rightarrow> Some q)"
    proof (cases "ws @ zs")
      case Nil
      then show ?thesis using nx n(2) [of y] by simp
    next
      case (Cons q qs)
      then have "nxt' y = (if P q then Some q else None)" using nx n(1) [of y q] Suc.prems(2) \<open>ys = y # ws\<close> by simp
      then show ?thesis using Cons Suc.prems(2,3) \<open>ys = y # ws\<close> by (cases ws) auto
    qed
    moreover have "follow k nxt' (case ws of [] \<Rightarrow> None | q # _ \<Rightarrow> Some q) = ws"
      by (rule Suc.IH [of "xs @ [y]"]) (use Suc.prems Cons in auto)
    ultimately show ?thesis using Cons by simp
  qed simp
qed simp

lemma group_loop:
  assumes adj: "adjacent nxt prv ns" and s: "ns = xs @ filter P ns @ zs" "filter P xs = []" "filter P zs = []"
    and near: "\<And>p. near = Some p \<Longrightarrow> p \<in> set ns" "filter P ns \<noteq> [] \<Longrightarrow> \<exists>p. near = Some p \<and> P p"
    and n: "\<And>p q. nxt p = Some q \<Longrightarrow> P p \<Longrightarrow> nxt' p = (if P q then Some q else None)" "\<And>p. nxt p = None \<Longrightarrow> nxt' p = None"
  defines "first \<equiv> (case map_option (backWhile (length ns) prv P) near of None \<Rightarrow> None | Some p \<Rightarrow> if P p then Some p else None)"
  shows "first = (case filter P ns of [] \<Rightarrow> None | p # _ \<Rightarrow> Some p)" "follow (length ns) nxt' first = filter P ns"
proof -
  show f: "first = (case filter P ns of [] \<Rightarrow> None | p # _ \<Rightarrow> Some p)"
  proof (cases "filter P ns = []")
    case True
    then show ?thesis using near(1) back_in [OF adj] by (auto simp: first_def filter_empty_conv split: option.splits)
  next
    case False
    then obtain p where p: "near = Some p" "P p" using near(2) by blast
    then have "p \<in> set (filter P ns)" using near(1) by simp
    then obtain ws ys where w: "filter P ns = ws @ p # ys" by (meson in_set_conv_decomp)
    have "set ws \<subseteq> set (filter P ns)" using w by auto
    then have "\<forall>w \<in> set ws. P w" by auto
    moreover have "xs = [] \<or> \<not> P (last xs)" using s(2) by (auto simp: filter_empty_conv)
    moreover have "ns = xs @ ws @ p # ys @ zs" using s(1) w by simp
    moreover have "length ws \<le> length ns" using s(1) w by simp
    ultimately have "backWhile (length ns) prv P p = hd (ws @ [p])" by (intro back_ok [OF adj])
    then show ?thesis using p w \<open>\<forall>w \<in> set ws. P w\<close> by (cases ws) (auto simp: first_def)
  qed
  show "follow (length ns) nxt' first = filter P ns" unfolding f
    by (rule follow_ok [OF adj n s(1)]) (use s(3) in \<open>auto simp: filter_empty_conv neq_Nil_conv intro: length_filter_le\<close>)
qed

context comparator
begin

lemma prev_in_order:
  assumes "rbt_wf cmp rbt" "contents rbt = xs @ (k, v) # ys"
  shows "RedBlackTreeGetPrev cmp rbt k = firstOf (rev xs)"
proof -
  have a: "ascending cmp (xs @ (k, v) # ys)" using assms by (simp add: rbt_wf_def)
  have "apart cmp k xs ys" using apart_of_node [OF a, of k] cmp_refl by (simp add: apart_def)
  from apart_present [OF this cmp_refl, of v] show ?thesis
    using neighbours_ok(1) [OF assms(1), of k] assms(2) by simp
qed

end

context key_storage
begin

lemma contents_unique: "ascending cmp xs \<Longrightarrow> ascending cmp ys \<Longrightarrow> fst ` set xs = fst ` set ys \<Longrightarrow> map fst xs = map fst ys"
proof (induction xs arbitrary: ys)
  case (Cons x xs)
  obtain y ys' where ys: "ys = y # ys'" using Cons.prems(3) by (cases ys) auto
  have ax: "\<forall>b \<in> set xs. cmp (fst x) (fst b) < 0" "ascending cmp xs" and ay: "\<forall>b \<in> set ys'. cmp (fst y) (fst b) < 0" "ascending cmp ys'"
    using Cons.prems(1,2) ys by (simp_all add: ascending_Cons)
  have nx: "fst x \<notin> fst ` set xs" and ny: "fst y \<notin> fst ` set ys'" using ax(1) ay(1) cmp_refl by force+
  have xy: "fst x = fst y"
  proof (rule ccontr)
    assume n: "fst x \<noteq> fst y"
    have e: "Set.insert (fst x) (fst ` set xs) = Set.insert (fst y) (fst ` set ys')" using Cons.prems(3) ys by simp
    have "fst x \<in> Set.insert (fst y) (fst ` set ys')" unfolding e [symmetric] by (rule insertI1)
    moreover have "fst y \<in> Set.insert (fst x) (fst ` set xs)" unfolding e by (rule insertI1)
    ultimately have "fst x \<in> fst ` set ys'" "fst y \<in> fst ` set xs" using n by simp_all
    then have "cmp (fst y) (fst x) < 0" "cmp (fst x) (fst y) < 0" using ax(1) ay(1) by auto
    then show False using cmp_anti [of "fst x" "fst y"] by simp
  qed
  have "fst ` set xs = fst ` set ys'" using Cons.prems(3) ys nx ny xy insert_ident [of "fst y" "fst ` set xs" "fst ` set ys'"] by simp
  from Cons.IH [OF ax(2) ay(2) this] show ?case using ys xy by simp
qed simp

lemma removed_contents:
  assumes "rbt_wf cmp t" "rbt_wf cmp t'" "keys t' = keys t - {k}"
  shows "map fst (contents t') = filter (\<lambda>e. e \<noteq> k) (map fst (contents t))"
proof -
  have "map fst (contents t') = map fst (filter (\<lambda>e. fst e \<noteq> k) (contents t))"
    by (rule contents_unique) (use assms in \<open>auto simp: rbt_wf_def ascending_def keys_def intro!: sorted_wrt_filter\<close>)
  then show ?thesis by (simp add: filter_map comp_def)
qed

end

context named_storage
begin

text \<open>The names in the order of the storage, and the neighbours of a name.\<close>

definition names :: "'e RedBlackTree \<Rightarrow> peName list" where
  "names t = map (\<lambda>e. name (fst e)) (contents t)"

lemma entry_of_name: "links t f L \<Longrightarrow> e \<in> keys t \<Longrightarrow> entry (name e) (f (name e)) = e"
  by (auto simp: links_def name_entry)

lemma names_set: "links t f L \<Longrightarrow> distinct (names t) \<and> set (names t) = L"
proof -
  assume l: "links t f L"
  have "set (names t) = name ` keys t" by (auto simp: names_def keys_def)
  also have "\<dots> = L" using l by (force simp: links_def name_entry image_image)
  finally have s: "set (names t) = L" .
  have "length (names t) = card L" using links_size [OF l] l by (simp add: names_def links_def rbt_wf_def RedBlackTreeGetElements_def)
  then show ?thesis using s by (simp add: card_distinct)
qed

lemma chain:
  assumes l: "links t f L"
  shows "adjacent (\<lambda>p. map_option name (RedBlackTreeGetNext cmp t (entry p (f p))))
    (\<lambda>p. map_option name (RedBlackTreeGetPrev cmp t (entry p (f p)))) (names t)"
  unfolding adjacent_def
proof (intro allI impI)
  fix xs p ys assume s: "names t = xs @ p # ys"
  then obtain us e vs where c: "contents t = us @ e # vs" "xs = map (\<lambda>e. name (fst e)) us" "p = name (fst e)" "ys = map (\<lambda>e. name (fst e)) vs"
    by (auto simp: names_def map_eq_append_conv map_eq_Cons_conv)
  have c': "contents t = us @ (fst e, snd e) # vs" using c(1) by simp
  have wf: "rbt_wf cmp t" using l by (simp add: links_def)
  have e: "entry p (f p) = fst e" using entry_of_name [OF l, of "fst e"] c by (simp add: keys_def)
  show "map_option name (RedBlackTreeGetNext cmp t (entry p (f p))) = (case ys of [] \<Rightarrow> None | q # _ \<Rightarrow> Some q) \<and>
      map_option name (RedBlackTreeGetPrev cmp t (entry p (f p))) = (if xs = [] then None else Some (last xs))"
    by (cases vs; cases us rule: rev_cases) (simp_all add: e next_in_order [OF wf c'] prev_in_order [OF wf c'] c(2,4))
qed

lemma names_sorted: "links t f L \<Longrightarrow> sorted_wrt (\<lambda>p q. cmp (entry p (f p)) (entry q (f q)) < 0) (names t)"
proof -
  assume l: "links t f L"
  have "sorted_wrt (\<lambda>a b. cmp (fst a) (fst b) < 0) (contents t)" using l by (simp add: links_def rbt_wf_def ascending_def)
  moreover have "entry (name (fst e)) (f (name (fst e))) = fst e" if "e \<in> set (contents t)" for e
    using entry_of_name [OF l, of "fst e"] that by (simp add: keys_def)
  ultimately show ?thesis by (auto simp: names_def sorted_wrt_map intro: sorted_wrt_mono_rel [rotated])
qed

text \<open>The order of a set of names follows from their nodes.\<close>

lemma names_unique:
  assumes "sorted_wrt (\<lambda>p q. cmp (entry p (f p)) (entry q (f q)) < 0) ps" "sorted_wrt (\<lambda>p q. cmp (entry p (f p)) (entry q (f q)) < 0) qs" "set ps = set qs"
  shows "ps = qs"
proof -
  have e: "ascending cmp (map (\<lambda>q. (entry q (f q), 0)) xs) \<longleftrightarrow> sorted_wrt (\<lambda>p q. cmp (entry p (f p)) (entry q (f q)) < 0) xs" for xs
    by (simp add: ascending_def sorted_wrt_map)
  have "map fst (map (\<lambda>q. (entry q (f q), 0 :: u64)) ps) = map fst (map (\<lambda>q. (entry q (f q), 0 :: u64)) qs)"
    by (rule contents_unique) (use assms in \<open>auto simp: e image_image\<close>)
  then have "map name (map (\<lambda>q. entry q (f q)) ps) = map name (map (\<lambda>q. entry q (f q)) qs)" by (simp add: comp_def)
  then show ?thesis by (simp add: name_entry comp_def)
qed

text \<open>A name that leaves a part of a storage leaves the order of the others as it is.\<close>

lemma names_shrink:
  assumes l: "links t f L" "links t' f' L'" and s: "set (filter P' (names t')) = set (filter P (names t)) - {p}"
    and same: "\<forall>q \<in> set (filter P' (names t')). f' q = f q"
  shows "filter P' (names t') = filter (\<lambda>q. q \<noteq> p) (filter P (names t))"
proof (rule names_unique [where f = f])
  show "sorted_wrt (\<lambda>p q. cmp (entry p (f p)) (entry q (f q)) < 0) (filter (\<lambda>q. q \<noteq> p) (filter P (names t)))"
    by (intro sorted_wrt_filter names_sorted [OF l(1)])
  have "sorted_wrt (\<lambda>p q. cmp (entry p (f' p)) (entry q (f' q)) < 0) (filter P' (names t'))"
    by (intro sorted_wrt_filter names_sorted [OF l(2)])
  then show "sorted_wrt (\<lambda>p q. cmp (entry p (f p)) (entry q (f q)) < 0) (filter P' (names t'))"
    by (rule sorted_wrt_mono_rel [rotated]) (simp only: same [rule_format])
  show "set (filter P' (names t')) = set (filter (\<lambda>q. q \<noteq> p) (filter P (names t)))" unfolding s by auto
qed

end

text \<open>
  A storage whose order keeps the nodes of a group together; \<open>low\<close> is a key below those of the
  group, since no pool element has the identifier 0.
\<close>

locale grouped_storage = named_storage cmp entry name for cmp :: "'e \<Rightarrow> 'e \<Rightarrow> int" and entry name +
  fixes group :: "PoolElementNode \<Rightarrow> 'g" and low :: "'g \<Rightarrow> 'e"
  assumes convex: "cmp (entry p n) (entry q m) < 0 \<Longrightarrow> cmp (entry q m) (entry s k) < 0 \<Longrightarrow> group n = group k \<Longrightarrow> group m = group k"
    and low: "snd p \<noteq> 0 \<Longrightarrow> cmp (low (group n)) (entry p n) < 0"
    and low_first: "cmp (low (group n)) (entry q m) < 0 \<Longrightarrow> cmp (entry q m) (entry p n) < 0 \<Longrightarrow> group m = group n"
begin

lemma nearest_in_group:
  assumes l: "links t f L" and nz: "\<forall>p \<in> L. snd p \<noteq> 0" and p: "p \<in> L"
  shows "\<exists>q \<in> L. map_option name (RedBlackTreeGetNearestNext cmp t (low (group (f p)))) = Some q \<and> group (f q) = group (f p)"
proof -
  let ?k = "low (group (f p))"
  let ?es = "filter (\<lambda>e. cmp ?k (fst e) < 0) (contents t)"
  have wf: "rbt_wf cmp t" using l by (simp add: links_def)
  obtain v where ep: "(entry p (f p), v) \<in> set (contents t)" using links_in [OF l, of p] p by (auto simp: keys_def)
  have in_es: "(entry p (f p), v) \<in> set ?es" using ep low [of p "f p"] nz p by simp
  then obtain e es where es: "?es = e # es" by (cases ?es) auto
  then have ec: "e \<in> set (contents t)" and ek: "cmp ?k (fst e) < 0" by (auto simp: filter_eq_Cons_iff)
  have n: "entry (name (fst e)) (f (name (fst e))) = fst e" using entry_of_name [OF l, of "fst e"] ec by (simp add: keys_def)
  have qL: "name (fst e) \<in> L" using names_set [OF l] ec by (force simp: names_def)
  have "group (f (name (fst e))) = group (f p)"
  proof (cases "e = (entry p (f p), v)")
    case True
    then show ?thesis by (simp add: name_entry)
  next
    case False
    have "ascending cmp ?es" using wf by (simp add: rbt_wf_def ascending_def sorted_wrt_filter)
    then have "cmp (fst e) (entry p (f p)) < 0" using es in_es False by (auto simp: ascending_def)
    then show ?thesis using low_first [of "f p" "name (fst e)" "f (name (fst e))" p] n ek by simp
  qed
  then show ?thesis using nearest_ok(2) [OF wf, of ?k] es qL by (auto simp: nextEntry_def)
qed

lemma group_visited:
  fixes g :: 'g
  assumes l: "links t f L" and nz: "\<forall>p \<in> L. snd p \<noteq> 0"
    and nx: "\<forall>p. nxt' p = (case map_option name (RedBlackTreeGetNext cmp t (entry p (f p))) of None \<Rightarrow> None
      | Some q \<Rightarrow> if group (f q) = group (f p) then Some q else None)"
  defines "P \<equiv> \<lambda>q. group (f q) = g"
  defines "first \<equiv> (case map_option (backWhile (RedBlackTreeGetElements t) (\<lambda>p. map_option name (RedBlackTreeGetPrev cmp t (entry p (f p)))) P)
      (map_option name (RedBlackTreeGetNearestNext cmp t (low g))) of None \<Rightarrow> None | Some p \<Rightarrow> if P p then Some p else None)"
  shows "first = (case filter P (names t) of [] \<Rightarrow> None | p # _ \<Rightarrow> Some p)"
    "follow (RedBlackTreeGetElements t) nxt' first = filter P (names t)"
proof -
  have wf: "rbt_wf cmp t" using l by (simp add: links_def)
  have len: "RedBlackTreeGetElements t = length (names t)" using wf by (simp add: RedBlackTreeGetElements_def rbt_wf_def names_def)
  obtain xs zs where s: "names t = xs @ filter P (names t) @ zs" "filter P xs = []" "filter P zs = []"
    using group_split [OF names_sorted [OF l], of P] convex unfolding P_def by (metis (no_types, lifting))
  have near1: "p \<in> set (names t)" if "map_option name (RedBlackTreeGetNearestNext cmp t (low g)) = Some p" for p
    using that nearest_ok(2) [OF wf, of "low g"]
    by (cases "filter (\<lambda>e. cmp (low g) (fst e) < 0) (contents t)") (auto simp: nextEntry_def names_def filter_eq_Cons_iff)
  have near2: "\<exists>p. map_option name (RedBlackTreeGetNearestNext cmp t (low g)) = Some p \<and> P p" if ne: "filter P (names t) \<noteq> []"
  proof -
    obtain p where "p \<in> L" "group (f p) = g" using ne names_set [OF l] unfolding filter_empty_conv P_def by blast
    then show ?thesis using nearest_in_group [OF l nz, of p] by (auto simp: P_def)
  qed
  have n1: "nxt' p = (if P q then Some q else None)" if "map_option name (RedBlackTreeGetNext cmp t (entry p (f p))) = Some q" "P p" for p q
    using nx [rule_format, of p] that by (simp add: P_def)
  have n2: "nxt' p = None" if "map_option name (RedBlackTreeGetNext cmp t (entry p (f p))) = None" for p
    using nx [rule_format, of p] that by simp
  note g = group_loop [OF chain [OF l] s near1 near2 n1 n2, folded len]
  show "first = (case filter P (names t) of [] \<Rightarrow> None | p # _ \<Rightarrow> Some p)"
    "follow (RedBlackTreeGetElements t) nxt' first = filter P (names t)"
    unfolding first_def by (rule g; assumption)+
qed

text \<open>The step from a node of a group to the next one.\<close>

lemma group_next:
  assumes l: "links t f L" and s: "filter (\<lambda>p. group (f p) = g) (names t) = xs @ p # ys"
    and nx: "nxt' p = (case map_option name (RedBlackTreeGetNext cmp t (entry p (f p))) of None \<Rightarrow> None
      | Some q \<Rightarrow> if group (f q) = group (f p) then Some q else None)"
  shows "nxt' p = (case ys of [] \<Rightarrow> None | q # _ \<Rightarrow> Some q)"
proof -
  let ?P = "\<lambda>p. group (f p) = g"
  obtain us vs where g: "names t = us @ filter ?P (names t) @ vs" "filter ?P vs = []"
    using group_split [OF names_sorted [OF l], of ?P] convex by (metis (no_types, lifting))
  then have "names t = (us @ xs) @ p # ys @ vs" unfolding s by simp
  then have n: "map_option name (RedBlackTreeGetNext cmp t (entry p (f p))) = (case ys @ vs of [] \<Rightarrow> None | q # _ \<Rightarrow> Some q)"
    using chain [OF l] unfolding adjacent_def by blast
  have "?P q" if "q \<in> set (xs @ p # ys)" for q using that unfolding s [symmetric] by simp
  then have P: "?P p" "ys \<noteq> [] \<Longrightarrow> ?P (hd ys)" by auto
  have nv: "vs \<noteq> [] \<Longrightarrow> \<not> ?P (hd vs)" using g(2) by (cases vs) (auto split: if_splits)
  show ?thesis unfolding nx n using P nv by (cases ys; cases vs) simp_all
qed

end

section \<open>The pool elements of a registrar\<close>

lemma backToFirstOwned_alt:
  "backToFirstOwned k hs r = backWhile k (\<lambda>p. map_option ofOwnershipEntry (RedBlackTreeGetPrev poolElementOwnershipStorageNodeComparison
       (hsn_PoolElementOwnershipStorage hs) (ownershipEntry p (elementAt hs p))))
     (\<lambda>q. pen_HomeRegistrarIdentifier (elementAt hs q) = r)"
proof (rule ext)
  fix p show "backToFirstOwned k hs r p = backWhile k (\<lambda>p. map_option ofOwnershipEntry (RedBlackTreeGetPrev poolElementOwnershipStorageNodeComparison
       (hsn_PoolElementOwnershipStorage hs) (ownershipEntry p (elementAt hs p))))
     (\<lambda>q. pen_HomeRegistrarIdentifier (elementAt hs q) = r) p"
    by (induction k arbitrary: p) (simp_all add: poolHandlespaceNodeGetPrevPoolElementOwnershipNode_def split: option.splits)
qed

lemma ownedFrom_alt:
  "ownedFrom k hs current = follow k (poolHandlespaceNodeGetNextPoolElementOwnershipNodeForSameIdentifier hs) current"
  by (induction k arbitrary: current) (simp_all split: option.splits)

lemma cmp_handle: "ph_wf handle \<Longrightarrow> cmpHandle handle = Inr (ph_bytes handle)"
  by (simp add: cmpHandle_def poolHandleNew_def ph_wf_def ph_bytes_def overlay_def)

lemma zeroHandle_wf: "ph_wf zeroHandle"
  by (simp add: zeroHandle_def ph_wf_def)

text \<open>The pool elements in the ownership storage, in its order.\<close>

definition ownershipNames :: "PoolHandlespaceNode \<Rightarrow> peName list" where
  "ownershipNames hs = owner_links.names (hsn_PoolElementOwnershipStorage hs)"

lemma identifier_nonzero: "pools_wf hs \<Longrightarrow> p \<in> elements hs \<Longrightarrow> snd p \<noteq> 0"
proof -
  assume wf: "pools_wf hs" and p: "p \<in> elements hs"
  note ok = pool_ok_at [OF wf p]
  have i: "snd p \<in> pool_nodes (poolAt hs (fst p))" using elements_at [OF p] by simp
  then show ?thesis using ok compatible_valid [of "poolAt hs (fst p)" "node (poolAt hs (fst p)) (snd p)"]
      sel_invD(5) [OF pool_wfD(3) _] by (auto simp: pool_ok_def compatible_def)
qed

lemma cmp_key_neg: "cmp_key a b c < 0 \<longleftrightarrow> a < b \<or> a = b \<and> c < 0"
  for a b :: "'k::linorder"
  by (auto simp: cmp_key_def)

interpretation owner_group: grouped_storage poolElementOwnershipStorageNodeComparison ownershipEntry ofOwnershipEntry
  pen_HomeRegistrarIdentifier "\<lambda>r. (r, 0, [0])"
  by unfold_locales (auto simp: ownershipEntry_def cmp_key_neg word_gt_0)

lemma connection_less:
  "poolElementConnectionStorageNodeComparison (sd, a, x) (sd', a', x') < 0 \<Longrightarrow> sd \<le> sd' \<and> (sd = sd' \<longrightarrow> a \<le> a')"
  by (cases x; cases x') (auto simp: cmp_key_neg)

lemma connection_low: "i \<noteq> 0 \<Longrightarrow> poolElementConnectionStorageNodeComparison (sd, a, 0, [0]) (sd, a, i, h) < 0"
  by (simp add: cmp_key_neg word_gt_0)

interpretation connection_group: grouped_storage poolElementConnectionStorageNodeComparison connectionEntry ofConnectionEntry
  "\<lambda>n. (pen_ConnectionSocketDescriptor n, pen_ConnectionAssocID n)" "\<lambda>c. (fst c, snd c, 0, [0])"
  by unfold_locales
    (use connection_low in \<open>auto simp: connectionEntry_def simp del: poolElementConnectionStorageNodeComparison.simps
      dest!: connection_less\<close>)

lemma ownership_names:
  assumes "hs_struct hs"
  shows "distinct (ownershipNames hs)" "set (ownershipNames hs) \<subseteq> elements hs"
    "p \<in> elements hs \<Longrightarrow> pen_HomeRegistrarIdentifier (elementAt hs p) \<noteq> 0 \<Longrightarrow> p \<in> set (ownershipNames hs)"
    "owner_links.links (hsn_PoolElementOwnershipStorage hs) (elementAt hs) (set (ownershipNames hs))"
proof -
  obtain L where L: "owner_links.links (hsn_PoolElementOwnershipStorage hs) (elementAt hs) L" "L \<subseteq> elements hs"
    "\<forall>p \<in> elements hs. pen_HomeRegistrarIdentifier (elementAt hs p) \<noteq> 0 \<longrightarrow> p \<in> L"
    using hs_structD(2) [OF assms] by (auto simp: owners_wf_def)
  note n = owner_links.names_set [OF L(1), folded ownershipNames_def]
  show "distinct (ownershipNames hs)" "set (ownershipNames hs) \<subseteq> elements hs"
    "p \<in> elements hs \<Longrightarrow> pen_HomeRegistrarIdentifier (elementAt hs p) \<noteq> 0 \<Longrightarrow> p \<in> set (ownershipNames hs)"
    "owner_links.links (hsn_PoolElementOwnershipStorage hs) (elementAt hs) (set (ownershipNames hs))"
    using n L by auto
qed

lemma owned_nodes_ok:
  assumes wf: "hs_struct hs"
  defines "ps \<equiv> \<lambda>r. filter (\<lambda>p. pen_HomeRegistrarIdentifier (elementAt hs p) = r) (ownershipNames hs)"
  shows "poolHandlespaceNodeGetFirstPoolElementOwnershipNodeForIdentifier hs r = Inr (case ps r of [] \<Rightarrow> None | p # _ \<Rightarrow> Some p)"
    "ownedNodes hs r = Inr (ps r)"
proof -
  note o = ownership_names [OF wf]
  have nz: "\<forall>p \<in> set (ownershipNames hs). snd p \<noteq> 0" using o(2) identifier_nonzero [OF hs_structD(1) [OF wf]] by blast
  have z: "ph_bytes zeroHandle = [0]" by (simp add: zeroHandle_def ph_bytes_def)
  have nx: "\<forall>p. poolHandlespaceNodeGetNextPoolElementOwnershipNodeForSameIdentifier hs p =
      (case map_option ofOwnershipEntry (RedBlackTreeGetNext poolElementOwnershipStorageNodeComparison (hsn_PoolElementOwnershipStorage hs)
         (ownershipEntry p (elementAt hs p))) of None \<Rightarrow> None
       | Some q \<Rightarrow> if pen_HomeRegistrarIdentifier (elementAt hs q) = pen_HomeRegistrarIdentifier (elementAt hs p) then Some q else None)"
    by (simp only: poolHandlespaceNodeGetNextPoolElementOwnershipNodeForSameIdentifier_def poolHandlespaceNodeGetNextPoolElementOwnershipNode_def)
       simp
  note g = owner_group.group_visited [OF o(4) nz nx, of r, folded ownershipNames_def backToFirstOwned_alt ownedFrom_alt]
  have f: "poolHandlespaceNodeGetFirstPoolElementOwnershipNodeForIdentifier hs r =
      Inr (case map_option (backToFirstOwned (RedBlackTreeGetElements (hsn_PoolElementOwnershipStorage hs)) hs r)
        (map_option ofOwnershipEntry (RedBlackTreeGetNearestNext poolElementOwnershipStorageNodeComparison
          (hsn_PoolElementOwnershipStorage hs) (r, 0, [0]))) of
         None \<Rightarrow> None | Some p \<Rightarrow> if pen_HomeRegistrarIdentifier (elementAt hs p) = r then Some p else None)"
    by (simp add: poolHandlespaceNodeGetFirstPoolElementOwnershipNodeForIdentifier_def
        poolHandlespaceNodeFindNearestNextPoolElementOwnershipNode_def cmp_handle [OF zeroHandle_wf] z)
  show "poolHandlespaceNodeGetFirstPoolElementOwnershipNodeForIdentifier hs r = Inr (case ps r of [] \<Rightarrow> None | p # _ \<Rightarrow> Some p)"
    "ownedNodes hs r = Inr (ps r)"
    unfolding ownedNodes_def f ps_def bindR_simps g(1) g(2) [unfolded g(1)] by (rule refl)+
qed

section \<open>The pool elements of a connection\<close>

lemma backToFirstConnected_alt:
  "backToFirstConnected k hs sd a = backWhile k (\<lambda>p. map_option ofConnectionEntry (RedBlackTreeGetPrev poolElementConnectionStorageNodeComparison
       (hsn_PoolElementConnectionStorage hs) (connectionEntry p (elementAt hs p))))
     (\<lambda>q. (pen_ConnectionSocketDescriptor (elementAt hs q), pen_ConnectionAssocID (elementAt hs q)) = (sd, a))"
proof (rule ext)
  fix p show "backToFirstConnected k hs sd a p = backWhile k (\<lambda>p. map_option ofConnectionEntry (RedBlackTreeGetPrev poolElementConnectionStorageNodeComparison
       (hsn_PoolElementConnectionStorage hs) (connectionEntry p (elementAt hs p))))
     (\<lambda>q. (pen_ConnectionSocketDescriptor (elementAt hs q), pen_ConnectionAssocID (elementAt hs q)) = (sd, a)) p"
    by (induction k arbitrary: p) (simp_all add: poolHandlespaceNodeGetPrevPoolElementConnectionNode_def split: option.splits)
qed

lemma connectedFrom_alt:
  "connectedFrom k hs current = follow k (poolHandlespaceNodeGetNextPoolElementConnectionNodeForSameConnection hs) current"
  by (induction k arbitrary: current) (simp_all split: option.splits)

definition connectionNames :: "PoolHandlespaceNode \<Rightarrow> peName list" where
  "connectionNames hs = connection_links.names (hsn_PoolElementConnectionStorage hs)"

lemma connection_names:
  assumes "hs_struct hs"
  shows "distinct (connectionNames hs)" "set (connectionNames hs) = {p \<in> elements hs. 0 < pen_ConnectionSocketDescriptor (elementAt hs p)}"
  using connection_links.names_set hs_structD(3) [OF assms] by (auto simp: connections_wf_def connectionNames_def)

lemma connected_nodes_ok:
  assumes wf: "hs_struct hs"
  defines "ps \<equiv> \<lambda>sd a. filter (\<lambda>p. (pen_ConnectionSocketDescriptor (elementAt hs p), pen_ConnectionAssocID (elementAt hs p)) = (sd, a)) (connectionNames hs)"
  shows "poolHandlespaceNodeGetFirstPoolElementConnectionNodeForConnection hs sd a = Inr (case ps sd a of [] \<Rightarrow> None | p # _ \<Rightarrow> Some p)"
    "poolHandlespaceNodeGetConnectionNodesForConnection hs sd a = Inr (length (ps sd a))"
proof -
  note l = hs_structD(3) [OF wf, unfolded connections_wf_def]
  have nz: "\<forall>p \<in> {p \<in> elements hs. 0 < pen_ConnectionSocketDescriptor (elementAt hs p)}. snd p \<noteq> 0"
    using identifier_nonzero [OF hs_structD(1) [OF wf]] by blast
  have z: "ph_bytes zeroHandle = [0]" by (simp add: zeroHandle_def ph_bytes_def)
  have nx: "\<forall>p. poolHandlespaceNodeGetNextPoolElementConnectionNodeForSameConnection hs p =
      (case map_option ofConnectionEntry (RedBlackTreeGetNext poolElementConnectionStorageNodeComparison (hsn_PoolElementConnectionStorage hs)
         (connectionEntry p (elementAt hs p))) of None \<Rightarrow> None
       | Some q \<Rightarrow> if (pen_ConnectionSocketDescriptor (elementAt hs q), pen_ConnectionAssocID (elementAt hs q)) =
                     (pen_ConnectionSocketDescriptor (elementAt hs p), pen_ConnectionAssocID (elementAt hs p)) then Some q else None)"
    by (simp only: poolHandlespaceNodeGetNextPoolElementConnectionNodeForSameConnection_def
        poolHandlespaceNodeGetNextPoolElementConnectionNode_def prod.inject) simp
  note g = connection_group.group_visited [OF l nz nx, of "(sd, a)", folded connectionNames_def backToFirstConnected_alt connectedFrom_alt,
      unfolded fst_conv snd_conv]
  have f: "poolHandlespaceNodeGetFirstPoolElementConnectionNodeForConnection hs sd a =
      Inr (case map_option (backToFirstConnected (RedBlackTreeGetElements (hsn_PoolElementConnectionStorage hs)) hs sd a)
        (map_option ofConnectionEntry (RedBlackTreeGetNearestNext poolElementConnectionStorageNodeComparison
          (hsn_PoolElementConnectionStorage hs) (sd, a, 0, [0]))) of
         None \<Rightarrow> None | Some p \<Rightarrow> if (pen_ConnectionSocketDescriptor (elementAt hs p), pen_ConnectionAssocID (elementAt hs p)) = (sd, a)
           then Some p else None)"
    by (simp add: poolHandlespaceNodeGetFirstPoolElementConnectionNodeForConnection_def
        poolHandlespaceNodeFindNearestNextPoolElementConnectionNode_def cmp_handle [OF zeroHandle_wf] z split: option.split)
  show "poolHandlespaceNodeGetFirstPoolElementConnectionNodeForConnection hs sd a = Inr (case ps sd a of [] \<Rightarrow> None | p # _ \<Rightarrow> Some p)"
    "poolHandlespaceNodeGetConnectionNodesForConnection hs sd a = Inr (length (ps sd a))"
    unfolding poolHandlespaceNodeGetConnectionNodesForConnection_def f ps_def bindR_simps g(1) g(2) [unfolded g(1)] by (rule refl)+
qed

section \<open>Selecting\<close>

lemma find_pool_ok: "pools_wf hs \<Longrightarrow> ph_wf handle \<Longrightarrow> poolHandlespaceNodeFindPoolNode hs handle =
    Inr (if ph_bytes handle \<in> dom (hsn_PoolNodes hs) then Some (ph_bytes handle) else None)"
  by (simp add: poolHandlespaceNodeFindPoolNode_def cmp_handle find_pool)

lemma find_element_ok: "pools_wf hs \<Longrightarrow> ph_wf handle \<Longrightarrow> poolHandlespaceNodeFindPoolElementNode hs handle i =
    Inr (if (ph_bytes handle, i) \<in> elements hs then Some (ph_bytes handle, i) else None)"
proof -
  assume wf: "pools_wf hs" and h: "ph_wf handle"
  show ?thesis
  proof (cases "hsn_PoolNodes hs (ph_bytes handle)")
    case None
    then show ?thesis using find_pool_ok [OF wf h] by (auto simp: poolHandlespaceNodeFindPoolElementNode_def elements_def)
  next
    case (Some pn)
    have "pool_ok (ph_bytes handle) pn" using wf Some by (simp add: pools_wf_def)
    then show ?thesis using find_pool_ok [OF wf h] find_element element_known [OF Some, of i] Some
      by (simp add: poolHandlespaceNodeFindPoolElementNode_def poolAt_eq domIff)
  qed
qed

lemma select_unknown: "pools_wf hs \<Longrightarrow> ph_wf handle \<Longrightarrow> hsn_PoolNodes hs (ph_bytes handle) = None \<Longrightarrow>
    poolHandlespaceNodeSelectPoolElementNodesByPolicy random handle k inc hs = Inr (RSPERR_NOT_FOUND, [], hs)"
  by (simp add: poolHandlespaceNodeSelectPoolElementNodesByPolicy_def find_pool_ok domIff)

lemma call_selection_ok:
  assumes ok: "pool_ok h pn" and k: "1 \<le> k" "card (pool_nodes pn) + k < 2 ^ 32"
  shows "\<exists>sel pn'. callSelection random f pn k inc = Inr (sel, pn') \<and> pool_ok h pn' \<and> same_pool pn pn' \<and>
    distinct sel \<and> set sel \<subseteq> pool_nodes pn \<and> length sel \<le> k"
proof -
  have wf: "pool_wf pn" using ok by (simp add: pool_ok_def)
  note inv = pool_wfD(3) [OF wf] and v = pool_wfD(4) [OF wf]
  have s: "distinct (selectionOrder pn)" "set (selectionOrder pn) = pool_nodes pn"
    using selectionOrder_distinct [OF inv] sel_invD(4) [OF inv] by simp_all
  then have l: "length (selectionOrder pn) + k < 2 ^ 32" using k(2) distinct_card by fastforce
  show ?thesis
  proof (cases f)
    case poolPolicySelectPoolElementNodesBySortingOrder
    obtain pn' where "selectBySortingOrder pn k inc = Inr (take k (selectionOrder pn), pn')" "sel_inv {} pn'" "same_pool pn pn'"
      using select_by_order_ok [OF inv v k(1) l] by blast
    then show ?thesis using s pool_ok_same [OF ok] set_take_subset [of k "selectionOrder pn"]
      by (intro exI [of _ "take k (selectionOrder pn)"] exI [of _ pn'] conjI) (simp_all add: poolPolicySelectPoolElementNodesBySortingOrder)
  next
    case poolPolicySelectPoolElementNodesByValueTree
    then show ?thesis using select_by_value_ok [OF inv v k(1) l, of random inc] pool_ok_same [OF ok] by fastforce
  qed
qed

lemma select_ok:
  assumes wf: "hs_wf hs" and hw: "ph_wf handle" and h: "hsn_PoolNodes hs (ph_bytes handle) = Some pn"
    and k: "1 \<le> k" "card (pool_nodes pn) + k < 2 ^ 32"
  shows "\<exists>sel hs'. poolHandlespaceNodeSelectPoolElementNodesByPolicy random handle k inc hs =
      Inr (RSPERR_OKAY, map (Pair (ph_bytes handle)) sel, hs') \<and> hs_wf hs' \<and> distinct sel \<and> set sel \<subseteq> pool_nodes pn \<and> length sel \<le> k \<and>
    elements hs' = elements hs \<and> (\<forall>p \<in> elements hs. registration (elementAt hs' p) = registration (elementAt hs p)) \<and>
    hsn_HomeRegistrarIdentifier hs' = hsn_HomeRegistrarIdentifier hs \<and>
    hsn_PoolElementTimerStorage hs' = hsn_PoolElementTimerStorage hs \<and> attrs hs' = attrs hs"
proof -
  let ?h = "ph_bytes handle"
  have pw: "pools_wf hs" using hs_wfD(1) [OF wf] .
  have ok: "pool_ok ?h pn" using pw h by (simp add: pools_wf_def)
  obtain sel pn' where s: "callSelection random (pp_SelectionFunction (pn_Policy pn)) pn k inc = Inr (sel, pn')" "pool_ok ?h pn'"
    "same_pool pn pn'" "distinct sel" "set sel \<subseteq> pool_nodes pn" "length sel \<le> k"
    using call_selection_ok [OF ok k] by blast
  note r = same_poolD [OF s(3)]
  have e: "elements (setPool ?h pn' hs) = elements hs" by (rule elements_setPool_same [OF h r(1)])
  have "hs_wf (setPool ?h pn' hs)"
    by (rule keeps_pools(1) [OF wf h s(2) r(1)]) (simp add: registration_fields [OF r(4)])
  moreover have "registration (elementAt (setPool ?h pn' hs) p) = registration (elementAt hs p)" for p
    using r(4) h by (simp add: elementAt_setPool elementAt_def poolAt_eq)
  moreover have "attrs (setPool ?h pn' hs) = attrs hs" by (rule attrs_setPool [OF h attrs_same [OF s(3)]])
  ultimately show ?thesis using s e h find_pool_ok [OF pw hw]
    by (intro exI [of _ sel] exI [of _ "setPool ?h pn' hs"] conjI)
       (auto simp: poolHandlespaceNodeSelectPoolElementNodesByPolicy_def poolAt_eq domIff)
qed

end
