(* ===== verification/RSP_HandlespaceCheck.thy ===== *)
theory RSP_HandlespaceCheck
  imports RSP_HandlespaceLoops
begin

text \<open>
  The self test of the handlespace and its checksums. The checksum that the registrars compare
  depends on the set of the pool elements only.
\<close>

section \<open>Sums over the storages\<close>

lemma foldl_sum: "foldl (\<lambda>acc x. handlespaceChecksumAdd acc (f x)) a xs = a + sum_list (map f xs)"
  by (induction xs arbitrary: a) (simp_all add: handlespaceChecksumAdd_def add.assoc)

lemma foldl_sums: "foldl (\<lambda>acc h. foldl (\<lambda>acc i. handlespaceChecksumAdd acc (f h i)) acc (g h)) a hl =
    a + sum_list (map (\<lambda>h. sum_list (map (f h) (g h))) hl)"
  by (induction hl arbitrary: a) (simp_all add: foldl_sum add.assoc)

lemma sum_list_set: "distinct xs \<Longrightarrow> sum_list (map f xs) = sum f (set xs)"
  for f :: "'a \<Rightarrow> 'b::comm_monoid_add"
  by (induction xs) simp_all

lemma elements_Sigma: "elements hs = Sigma (dom (hsn_PoolNodes hs)) (\<lambda>h. pool_nodes (poolAt hs h))"
  by (auto simp: elements_def poolAt_def)

lemma index_visited: "pool_ok h pn \<Longrightarrow> distinct (visitAll poolElementIndexStorageNodeComparison (pn_Index pn)) \<and>
    set (visitAll poolElementIndexStorageNodeComparison (pn_Index pn)) = pool_nodes pn"
  using pe_index.visit_set [of "pn_Index pn"] by (simp add: pool_ok_def pool_wf_def idx_inv_def indexed_def keys_def)

lemma pools_visited: "pools_wf hs \<Longrightarrow> distinct (visitAll poolIndexStorageNodeComparison (hsn_PoolIndexStorage hs)) \<and>
    set (visitAll poolIndexStorageNodeComparison (hsn_PoolIndexStorage hs)) = dom (hsn_PoolNodes hs)"
  using pools.visit_set [of "hsn_PoolIndexStorage hs"] by (simp add: pools_wf_def)

lemma pool_ok_dom: "pools_wf hs \<Longrightarrow> h \<in> dom (hsn_PoolNodes hs) \<Longrightarrow> pool_ok h (poolAt hs h)"
  by (auto simp: pools_wf_def poolAt_def)

lemma compute_handlespace_checksum:
  assumes wf: "pools_wf hs"
  shows "poolHandlespaceNodeComputeHandlespaceChecksum hs = sum nameChecksum (elements hs)"
proof -
  let ?D = "dom (hsn_PoolNodes hs)"
  let ?hl = "visitAll poolIndexStorageNodeComparison (hsn_PoolIndexStorage hs)"
  note v = pools_visited [OF wf]
  have fin: "finite ?D" using v by (metis List.finite_set)
  have in_pool: "sum_list (map (\<lambda>i. poolElementChecksum hs (h, i)) (visitAll poolElementIndexStorageNodeComparison (pn_Index (poolAt hs h)))) =
      sum (\<lambda>i. nameChecksum (h, i)) (pool_nodes (poolAt hs h))" if h: "h \<in> ?D" for h
  proof -
    note x = index_visited [OF pool_ok_dom [OF wf h]]
    have "poolElementChecksum hs (h, i) = nameChecksum (h, i)" for i using checksum_name [OF wf, of "(h, i)"] h by auto
    then show ?thesis using x by (simp add: sum_list_set)
  qed
  have "poolHandlespaceNodeComputeHandlespaceChecksum hs = sum_list (map (\<lambda>h. sum (\<lambda>i. nameChecksum (h, i)) (pool_nodes (poolAt hs h))) ?hl)"
    unfolding poolHandlespaceNodeComputeHandlespaceChecksum_def foldl_sums add_0
    by (rule arg_cong [where f = sum_list], rule map_cong) (use v in_pool in auto)
  also have "\<dots> = sum (\<lambda>h. sum (\<lambda>i. nameChecksum (h, i)) (pool_nodes (poolAt hs h))) ?D" using v by (simp add: sum_list_set)
  also have "\<dots> = sum nameChecksum (elements hs)"
    using fin pool_ok_dom [OF wf] pool_nodes_finite by (simp add: elements_Sigma sum.Sigma pool_ok_def)
  finally show ?thesis .
qed

lemma owned_visited:
  assumes wf: "hs_struct hs" and r: "hsn_HomeRegistrarIdentifier hs \<noteq> 0"
  defines "ps \<equiv> filter (\<lambda>p. pen_HomeRegistrarIdentifier (elementAt hs p) = hsn_HomeRegistrarIdentifier hs) (ownershipNames hs)"
  shows "distinct ps" "set ps = owned hs"
  using ownership_names(1,2) [OF wf] ownership_names(3) [OF wf] r by (auto simp: ps_def owned_def)

lemma compute_ownership_checksum:
  assumes wf: "hs_struct hs" and r: "hsn_HomeRegistrarIdentifier hs \<noteq> 0"
  shows "poolHandlespaceNodeComputeOwnershipChecksum hs (hsn_HomeRegistrarIdentifier hs) = Inr (sum nameChecksum (owned hs))"
proof -
  let ?ps = "filter (\<lambda>p. pen_HomeRegistrarIdentifier (elementAt hs p) = hsn_HomeRegistrarIdentifier hs) (ownershipNames hs)"
  note o = owned_visited [OF wf r]
  have "sum (poolElementChecksum hs) (owned hs) = sum nameChecksum (owned hs)"
    using owned_subset [of hs] checksum_element [OF hs_structD(1) [OF wf]] by (intro sum.cong) auto
  then show ?thesis using o owned_nodes_ok(2) [OF wf, of "hsn_HomeRegistrarIdentifier hs"]
    by (simp add: poolHandlespaceNodeComputeOwnershipChecksum_def foldl_sum sum_list_set del: set_filter)
qed

section \<open>The self test\<close>

lemma selection_size: "pool_ok h pn \<Longrightarrow> RedBlackTreeGetElements (pn_Selection pn) = card (pool_nodes pn)"
proof -
  assume "pool_ok h pn"
  then have inv: "sel_inv {} pn" by (simp add: pool_ok_def pool_wf_def)
  have "RedBlackTreeGetElements (pn_Selection pn) = length (selectionOrder pn)"
    using sel_invD(3) [OF inv] by (simp add: RedBlackTreeGetElements_def rbt_wf_def selectionOrder_def)
  also have "\<dots> = card (pool_nodes pn)" using distinct_card [OF selectionOrder_distinct [OF inv]] sel_invD(4) [OF inv] by simp
  finally show ?thesis .
qed

lemma verify_pools_ok:
  assumes wf: "pools_wf hs" and ne: "no_empty_pool hs"
  shows "set hl \<subseteq> dom (hsn_PoolNodes hs) \<Longrightarrow> verifyPools hl hs j = Inr (j + sum_list (map (\<lambda>h. card (pool_nodes (poolAt hs h))) hl))"
proof (induction hl arbitrary: j)
  case (Cons h hl)
  let ?pn = "poolAt hs h"
  have h: "h \<in> dom (hsn_PoolNodes hs)" using Cons.prems by simp
  note ok = pool_ok_dom [OF wf h]
  then have pw: "pool_wf ?pn" by (simp add: pool_ok_def)
  have "RedBlackTreeVerify poolElementIndexStorageNodeComparison (pn_Index ?pn) = Inr ()"
    using index.verify_ok pool_wfD(1) [OF pw] by (simp add: idx_inv_def)
  moreover have "RedBlackTreeVerify (poolElementSelectionStorageNodeComparison ?pn) (pn_Selection ?pn) = Inr ()"
    using comparator.verify_ok [OF selection_comparator] sel_invD(1,3) [OF pool_wfD(3) [OF pw]] by blast
  moreover have "pool_nodes ?pn \<noteq> {}" using ne h by (auto simp: no_empty_pool_def poolAt_def)
  then have "0 < card (pool_nodes ?pn)" using pool_nodes_finite [OF pw] by (simp add: card_gt_0_iff)
  ultimately show ?case using Cons selection_size [OF ok] index_size [OF ok]
    by (simp add: Let_def poolNodeGetPoolElementNodes_def [symmetric] add.assoc)
qed simp

lemma elements_total:
  assumes wf: "pools_wf hs"
  shows "sum_list (map (\<lambda>h. card (pool_nodes (poolAt hs h))) (visitAll poolIndexStorageNodeComparison (hsn_PoolIndexStorage hs))) = card (elements hs)"
proof -
  note v = pools_visited [OF wf]
  have "finite (dom (hsn_PoolNodes hs))" using v by (metis List.finite_set)
  then show ?thesis using v pool_ok_dom [OF wf] pool_nodes_finite
    by (simp add: sum_list_set elements_Sigma pool_ok_def)
qed

lemma verify_handlespace:
  assumes wf: "hs_wf hs"
  shows "poolHandlespaceNodeVerify hs = Inr ()"
proof -
  have st: "hs_struct hs" using wf by (simp add: hs_wf_struct)
  note w = hs_structD [OF st]
  obtain T where T: "timer_links.links (hsn_PoolElementTimerStorage hs) (elementAt hs) T"
    using w(4) by (auto simp: timers_wf_def)
  have wt: "rbt_wf poolElementTimerStorageNodeComparison (hsn_PoolElementTimerStorage hs)"
    and wo: "rbt_wf poolElementOwnershipStorageNodeComparison (hsn_PoolElementOwnershipStorage hs)"
    and wp: "rbt_wf poolIndexStorageNodeComparison (hsn_PoolIndexStorage hs)"
    using T ownership_names(4) [OF st] w(1) by (simp_all add: timer_links.links_def owner_links.links_def pools_wf_def)
  have vo: "map ofOwnershipEntry (visitAll poolElementOwnershipStorageNodeComparison (hsn_PoolElementOwnershipStorage hs)) = ownershipNames hs"
    using owners.visit_all [OF wo] by (simp add: ownershipNames_def owner_links.names_def)
  have oc: "length (filter (\<lambda>e. pen_HomeRegistrarIdentifier (elementAt hs (ofOwnershipEntry e)) = hsn_HomeRegistrarIdentifier hs)
      (visitAll poolElementOwnershipStorageNodeComparison (hsn_PoolElementOwnershipStorage hs))) = hsn_OwnedPoolElements hs"
    if r: "hsn_HomeRegistrarIdentifier hs \<noteq> 0"
  proof -
    have "length (filter (\<lambda>e. pen_HomeRegistrarIdentifier (elementAt hs (ofOwnershipEntry e)) = hsn_HomeRegistrarIdentifier hs)
        (visitAll poolElementOwnershipStorageNodeComparison (hsn_PoolElementOwnershipStorage hs))) =
      length (filter (\<lambda>p. pen_HomeRegistrarIdentifier (elementAt hs p) = hsn_HomeRegistrarIdentifier hs) (ownershipNames hs))"
      by (simp add: vo [symmetric] filter_map comp_def)
    also have "\<dots> = card (owned hs)" using distinct_card [OF owned_visited(1) [OF st r]] owned_visited(2) [OF st r] by simp
    finally show ?thesis using w(6) by (simp add: counts_def)
  qed
  have le: "RedBlackTreeGetElements (hsn_PoolElementOwnershipStorage hs) \<le> card (elements hs)"
    using owner_links.links_size [OF ownership_names(4) [OF st]] card_mono [OF w(8) ownership_names(2) [OF st]] by simp
  have lens: "length (visitAll poolElementTimerStorageNodeComparison (hsn_PoolElementTimerStorage hs)) = poolHandlespaceNodeGetTimerNodes hs"
    "length (visitAll poolElementOwnershipStorageNodeComparison (hsn_PoolElementOwnershipStorage hs)) = RedBlackTreeGetElements (hsn_PoolElementOwnershipStorage hs)"
    "length (visitAll poolIndexStorageNodeComparison (hsn_PoolIndexStorage hs)) = poolHandlespaceNodeGetPoolNodes hs"
    using timers.visit_all [OF wt] owners.visit_all [OF wo] pools.visit_all [OF wp] wt wo wp
    by (simp_all add: poolHandlespaceNodeGetTimerNodes_def poolHandlespaceNodeGetPoolNodes_def RedBlackTreeGetElements_def rbt_wf_def)
  have vp: "verifyPools (visitAll poolIndexStorageNodeComparison (hsn_PoolIndexStorage hs)) hs 0 = Inr (hsn_PoolElements hs)"
    using verify_pools_ok [OF w(1) hs_parts(2) [OF wf]] pools_visited [OF w(1)] elements_total [OF w(1)] w(7) by simp
  have hc: "hsn_HandlespaceChecksum hs = poolHandlespaceNodeComputeHandlespaceChecksum hs"
    and oc': "hsn_OwnershipChecksum hs = sum nameChecksum (owned hs)"
    using compute_handlespace_checksum [OF w(1)] w(6) by (simp_all add: counts_def)
  show ?thesis
    unfolding poolHandlespaceNodeVerify_def Let_def pools.verify_ok [OF wp] timers.verify_ok [OF wt] owners.verify_ok [OF wo] bindR_simps vp lens
    using oc le w(7) hc oc' compute_ownership_checksum [OF st]
    by (cases "hsn_HomeRegistrarIdentifier hs = 0") simp_all
qed

end
