(* ===== verification/RSP_Registry.thy ===== *)
theory RSP_Registry
  imports RSP_HandlespaceCheck
begin

text \<open>
  The management of the handlespace as a registry: a map from the names of the pool elements to
  what they registered. Registration, deregistration and handle resolution act on the map as the
  protocol says, with the error codes of the source.
\<close>

section \<open>The registry\<close>

record RegistryEntry =
  re_HomeRegistrarIdentifier :: u32
  re_RegistrationLife :: u32
  re_PolicySettings :: PoolPolicySettings
  re_UserTransport :: "TransportAddressBlock option"
  re_RegistratorTransport :: "TransportAddressBlock option"
  re_ConnectionSocketDescriptor :: int
  re_ConnectionAssocID :: u32
  re_LastUpdateTimeStamp :: u64

definition entryOf :: "PoolElementNode \<Rightarrow> RegistryEntry" where
  "entryOf n = \<lparr>re_HomeRegistrarIdentifier = pen_HomeRegistrarIdentifier n, re_RegistrationLife = pen_RegistrationLife n,
     re_PolicySettings = pen_PolicySettings n, re_UserTransport = pen_UserTransport n,
     re_RegistratorTransport = pen_RegistratorTransport n, re_ConnectionSocketDescriptor = pen_ConnectionSocketDescriptor n,
     re_ConnectionAssocID = pen_ConnectionAssocID n, re_LastUpdateTimeStamp = pen_LastUpdateTimeStamp n\<rparr>"

definition registry :: "PoolHandlespaceNode \<Rightarrow> peName \<Rightarrow> RegistryEntry option" where
  "registry hs p = (if p \<in> elements hs then Some (entryOf (elementAt hs p)) else None)"

lemma entryOf_registration: "registration n = registration m \<Longrightarrow> entryOf n = entryOf m"
  by (cases n; cases m) (simp add: registration_def entryOf_def)

lemma registry_same:
  assumes "elements hs' = elements hs" "\<And>p. p \<in> elements hs \<Longrightarrow> registration (elementAt hs' p) = registration (elementAt hs p)"
  shows "registry hs' = registry hs"
  using entryOf_registration [OF assms(2)] assms(1) by (simp add: registry_def fun_eq_iff)

lemma dom_registry [simp]: "dom (registry hs) = elements hs"
  by (auto simp: registry_def split: if_splits)

section \<open>Changing a node\<close>

lemma keeps_node:
  assumes wf: "hs_wf hs" and p: "p \<in> elements hs"
    and s: "sortingFields (f (elementAt hs p)) = sortingFields (elementAt hs p)"
      "pen_SelectionValue (f (elementAt hs p)) = pen_SelectionValue (elementAt hs p)"
    and c: "compatible (poolAt hs (fst p)) (f (elementAt hs p))"
    and k: "pen_HomeRegistrarIdentifier (f (elementAt hs p)) = pen_HomeRegistrarIdentifier (elementAt hs p)"
      "pen_ConnectionSocketDescriptor (f (elementAt hs p)) = pen_ConnectionSocketDescriptor (elementAt hs p)"
      "pen_ConnectionAssocID (f (elementAt hs p)) = pen_ConnectionAssocID (elementAt hs p)"
      "pen_TimerTimeStamp (f (elementAt hs p)) = pen_TimerTimeStamp (elementAt hs p)"
      "pen_Checksum (f (elementAt hs p)) = pen_Checksum (elementAt hs p)"
  shows "hs_wf (setElement p f hs)" "elements (setElement p f hs) = elements hs"
proof -
  let ?pn = "poolAt hs (fst p)"
  let ?pn' = "modifyNode (snd p) f ?pn"
  note e = elements_at [OF p]
  have ok: "pool_ok (fst p) ?pn" by (rule pool_ok_at [OF hs_parts(1) [OF wf] p])
  then have w: "pool_wf ?pn" by (simp add: pool_ok_def)
  have i: "snd p \<in> pool_nodes ?pn" using e by simp
  note k' = s k c
  have "sel_inv {} ?pn'" using s by (intro modify_fields [OF pool_wfD(3) [OF w] i]) (simp_all add: elementAt_def)
  moreover have "all_valid ?pn'" using pool_wfD(4) [OF w] i s(1) by (auto simp: all_valid_def sortingFields_def elementAt_def)
  ultimately have "pool_wf ?pn'" using w i by (simp add: pool_wf_def idx_inv_def indexed_def)
  moreover have "compatible ?pn' (node ?pn' j)" if "j \<in> pool_nodes ?pn" for j
  proof -
    have "compatible ?pn' (node ?pn' j) = compatible ?pn (node ?pn' j)" by (rule compatible_cong) simp_all
    then show ?thesis using ok that c by (auto simp: pool_ok_def elementAt_def)
  qed
  ultimately have ok': "pool_ok (fst p) ?pn'" using ok i by (simp add: pool_ok_def)
  show "hs_wf (setElement p f hs)" "elements (setElement p f hs) = elements hs"
    unfolding setElement_def by (rule keeps_pools [OF wf _ ok']; use e k in \<open>auto simp: elementAt_def\<close>)+
qed

section \<open>Deregistration\<close>

lemma deregister_ptr_ok:
  assumes wf: "hs_wf (hsm_Handlespace m)" and p: "p \<in> elements (hsm_Handlespace m)"
  shows "\<exists>hs'. poolHandlespaceManagementDeregisterPoolElementByPtr p m = Inr (RSPERR_OKAY, withHandlespace m hs') \<and> hs_wf hs' \<and>
    elements hs' = elements (hsm_Handlespace m) - {p} \<and>
    (\<forall>q \<in> elements hs'. elementAt hs' q = elementAt (hsm_Handlespace m) q) \<and>
    hsn_HomeRegistrarIdentifier hs' = hsn_HomeRegistrarIdentifier (hsm_Handlespace m) \<and>
    keys (hsn_PoolElementTimerStorage hs') =
      keys (hsn_PoolElementTimerStorage (hsm_Handlespace m)) - {timerEntry p (elementAt (hsm_Handlespace m) p)} \<and>
    attrs hs' = (if pool_nodes (poolAt (hsm_Handlespace m) (fst p)) = {snd p}
                 then (attrs (hsm_Handlespace m))(fst p := None) else attrs (hsm_Handlespace m))"
proof -
  let ?hs = "hsm_Handlespace m"
  let ?n = "elementAt ?hs p"
  have st: "hs_struct ?hs" and ne: "no_empty_pool ?hs" using wf by (simp_all add: hs_wf_struct)
  obtain pn1 hs1 where r: "poolHandlespaceNodeRemovePoolElementNode p ?hs = Inr (?n, hs1)" "hs_struct hs1"
    "elements hs1 = elements ?hs - {p}" "\<forall>q. q \<noteq> p \<longrightarrow> elementAt hs1 q = elementAt ?hs q"
    "hsn_PoolNodes hs1 = (hsn_PoolNodes ?hs)(fst p \<mapsto> pn1)" "pool_nodes pn1 = pool_nodes (poolAt ?hs (fst p)) - {snd p}"
    "selectionOrder pn1 = filter (\<lambda>j. j \<noteq> snd p) (selectionOrder (poolAt ?hs (fst p)))"
    "hsn_HomeRegistrarIdentifier hs1 = hsn_HomeRegistrarIdentifier ?hs"
    "keys (hsn_PoolElementTimerStorage hs1) = keys (hsn_PoolElementTimerStorage ?hs) - {timerEntry p ?n}" "attrs hs1 = attrs ?hs"
    using remove_element_ok [OF st p] by blast
  note w = hs_structD [OF r(2)]
  have h1: "hsn_PoolNodes hs1 (fst p) = Some pn1" using r(5) by simp
  have p1: "poolAt hs1 (fst p) = pn1" by (rule poolAt_eq [OF h1])
  have ok1: "pool_ok (fst p) pn1" using w(1) h1 by (simp add: pools_wf_def)
  have np: "p \<notin> elements hs1" using r(3) by simp
  obtain T where T: "timer_links.links (hsn_PoolElementTimerStorage hs1) (elementAt hs1) T" "T \<subseteq> elements hs1"
    using w(4) by (auto simp: timers_wf_def)
  have ow: "ownershipEntry p ?n \<notin> keys (hsn_PoolElementOwnershipStorage hs1)"
    using owner_links.links_other [OF ownership_names(4) [OF r(2)], of p ?n] ownership_names(2) [OF r(2)] np by blast
  have cn: "connectionEntry p ?n \<notin> keys (hsn_PoolElementConnectionStorage hs1)"
    using connection_links.links_other [OF w(3) [unfolded connections_wf_def], of p ?n] np by blast
  have d: "poolElementNodeDelete p ?n hs1 = Inr ()"
  proof -
    have "snd p \<notin> set (selectionOrder pn1)" using r(7) by simp
    moreover have "poolNodeFindPoolElementNode pn1 (snd p) = None" using find_element [OF ok1] r(6) by simp
    moreover have "\<not> isLinked poolElementTimerStorageNodeComparison (hsn_PoolElementTimerStorage hs1) (timerEntry p ?n)"
      using timers.linked_key [of "hsn_PoolElementTimerStorage hs1"] T(1) r(9) by (simp add: timer_links.links_def)
    moreover have "\<not> isLinked poolElementOwnershipStorageNodeComparison (hsn_PoolElementOwnershipStorage hs1) (ownershipEntry p ?n)"
      using owners.linked_key [of "hsn_PoolElementOwnershipStorage hs1" "ownershipEntry p ?n"] ow
        ownership_names(4) [OF r(2)] by (simp add: owner_links.links_def)
    moreover have "\<not> isLinked poolElementConnectionStorageNodeComparison (hsn_PoolElementConnectionStorage hs1) (connectionEntry p ?n)"
      using connections.linked_key [of "hsn_PoolElementConnectionStorage hs1" "connectionEntry p ?n"] cn w(3)
      by (simp add: connections_wf_def connection_links.links_def)
    ultimately show ?thesis by (simp add: poolElementNodeDelete_def p1)
  qed
  have ne1: "\<forall>g pn. g \<noteq> fst p \<longrightarrow> hsn_PoolNodes hs1 g = Some pn \<longrightarrow> pool_nodes pn \<noteq> {}" using ne r(5) by (simp add: no_empty_pool_def)
  have c1: "poolNodeGetPoolElementNodes pn1 = 0 \<longleftrightarrow> pool_nodes pn1 = {}"
    using index_size [OF ok1] pool_nodes_finite ok1 by (simp add: pool_ok_def)
  have last: "pool_nodes pn1 = {} \<longleftrightarrow> pool_nodes (poolAt ?hs (fst p)) = {snd p}" using r(6) elements_at [OF p] by auto
  show ?thesis
  proof (cases "pool_nodes pn1 = {}")
    case False
    have "no_empty_pool hs1" unfolding no_empty_pool_def using ne1 False h1 by (metis option.inject)
    then have "hs_wf hs1" using r(2) by (simp add: hs_wf_struct)
    moreover have "poolHandlespaceManagementDeregisterPoolElementByPtr p m = Inr (RSPERR_OKAY, withHandlespace m hs1)"
      using r(1) d False c1 by (simp add: poolHandlespaceManagementDeregisterPoolElementByPtr_def p1)
    ultimately show ?thesis using r False last np by (intro exI [of _ hs1] conjI) auto
  next
    case True
    obtain hs2 where x: "poolHandlespaceNodeRemovePoolNode (fst p) hs1 = Inr hs2" "hs_struct hs2"
      "hsn_PoolNodes hs2 = (hsn_PoolNodes hs1)(fst p := None)" "elements hs2 = elements hs1"
      "\<forall>q \<in> elements hs1. elementAt hs2 q = elementAt hs1 q"
      "hsn_HomeRegistrarIdentifier hs2 = hsn_HomeRegistrarIdentifier hs1" "hsn_PoolElementTimerStorage hs2 = hsn_PoolElementTimerStorage hs1"
      using remove_pool_ok [OF r(2) h1 True] by blast
    have wf2: "hs_wf hs2" using x(2,3) ne1 by (auto simp: hs_wf_struct no_empty_pool_def)
    have "\<not> isLinked poolIndexStorageNodeComparison (hsn_PoolIndexStorage hs2) (fst p)"
      using pools.linked_key [of "hsn_PoolIndexStorage hs2"] hs_structD(1) [OF x(2)] x(3) by (simp add: pools_wf_def)
    moreover have "RedBlackTreeIsEmpty (pn_Selection pn1)"
      using selection_size [OF ok1] True sel_invD(3) [of "{}" pn1] ok1
      by (cases "rbt_Root (pn_Selection pn1)")
         (auto simp: RedBlackTreeIsEmpty_def RedBlackTreeGetElements_def rbt_wf_def contents_def pool_ok_def pool_wf_def)
    ultimately have "poolNodeDelete (fst p) pn1 hs2 = Inr ()" by (simp add: poolNodeDelete_def)
    then have "poolHandlespaceManagementDeregisterPoolElementByPtr p m = Inr (RSPERR_OKAY, withHandlespace m hs2)"
      using r(1) d True c1 x(1) by (simp add: poolHandlespaceManagementDeregisterPoolElementByPtr_def p1)
    moreover have "attrs hs2 = (attrs ?hs)(fst p := None)" using x(3) r(10) by (auto simp: attrs_def fun_eq_iff)
    ultimately show ?thesis using r wf2 x True last np by (intro exI [of _ hs2] conjI) auto
  qed
qed

lemma deregister_registry:
  assumes "elements hs' = elements hs - {p}" "\<forall>q \<in> elements hs'. elementAt hs' q = elementAt hs q"
  shows "registry hs' = (registry hs)(p := None)"
  using assms by (auto simp: registry_def fun_eq_iff)

lemma deregister_ok:
  assumes wf: "hs_wf (hsm_Handlespace m)" and h: "ph_wf handle"
  shows "\<exists>hs'. poolHandlespaceManagementDeregisterPoolElement handle i m =
      Inr (if (ph_bytes handle, i) \<in> dom (registry (hsm_Handlespace m)) then RSPERR_OKAY else RSPERR_NOT_FOUND, withHandlespace m hs') \<and>
    hs_wf hs' \<and> registry hs' = (registry (hsm_Handlespace m))((ph_bytes handle, i) := None) \<and>
    hsn_HomeRegistrarIdentifier hs' = hsn_HomeRegistrarIdentifier (hsm_Handlespace m)"
proof (cases "(ph_bytes handle, i) \<in> elements (hsm_Handlespace m)")
  case True
  obtain hs' where d: "poolHandlespaceManagementDeregisterPoolElementByPtr (ph_bytes handle, i) m = Inr (RSPERR_OKAY, withHandlespace m hs')" "hs_wf hs'"
    "elements hs' = elements (hsm_Handlespace m) - {(ph_bytes handle, i)}"
    "\<forall>q \<in> elements hs'. elementAt hs' q = elementAt (hsm_Handlespace m) q"
    "hsn_HomeRegistrarIdentifier hs' = hsn_HomeRegistrarIdentifier (hsm_Handlespace m)"
    using deregister_ptr_ok [OF wf True] by blast
  then show ?thesis using True deregister_registry [OF d(3,4)] find_element_ok [OF hs_parts(1) [OF wf] h, of i]
    by (intro exI [of _ hs']) (simp add: poolHandlespaceManagementDeregisterPoolElement_def)
next
  case False
  have "(registry (hsm_Handlespace m))((ph_bytes handle, i) := None) = registry (hsm_Handlespace m)"
    using False by (auto simp: registry_def fun_eq_iff)
  moreover have "withHandlespace m (hsm_Handlespace m) = m" by (simp add: withHandlespace_def)
  ultimately show ?thesis using False wf find_element_ok [OF hs_parts(1) [OF wf] h, of i]
    by (intro exI [of _ "hsm_Handlespace m"]) (simp add: poolHandlespaceManagementDeregisterPoolElement_def)
qed

section \<open>Registration\<close>

definition canonicalHandle :: "PoolHandle \<Rightarrow> PoolHandle" where
  "canonicalHandle handle = \<lparr>ph_Size = ph_Size handle, ph_Handle = ph_bytes handle @ replicate (MAX_POOLHANDLESIZE - ph_Size handle) 0\<rparr>"

lemma canonical_handle:
  assumes "ph_wf handle"
  shows "poolHandleNew \<lparr>ph_Size = 0, ph_Handle = replicate MAX_POOLHANDLESIZE 0\<rparr> (ph_Handle handle) (ph_Size handle) = Inr (canonicalHandle handle)"
    "ph_wf (canonicalHandle handle)" "ph_bytes (canonicalHandle handle) = ph_bytes handle"
  using assms by (simp_all add: canonicalHandle_def poolHandleNew_def ph_wf_def ph_bytes_def overlay_def)

definition requestPool :: "PoolHandle \<Rightarrow> PoolPolicy \<Rightarrow> TransportAddressBlock \<Rightarrow> PoolNode" where
  "requestPool handle policy ut = poolNodeNew (canonicalHandle handle) policy (tab_Protocol ut)
     (if tab_Flags ut AND TABF_CONTROLCHANNEL \<noteq> 0 then PNF_CONTROLCHANNEL else 0)"

lemma requestPool_sound:
  assumes "ph_wf handle" "policy \<in> set PoolPolicyArray"
  shows "sound_pool (requestPool handle policy ut)" "ph_bytes (pn_Handle (requestPool handle policy ut)) = ph_bytes handle"
  unfolding requestPool_def
  using poolNodeNew_sound [OF canonical_handle(2) [OF assms(1)] assms(2)] canonical_handle(3) [OF assms(1)]
  by (simp_all add: poolNodeNew_def)

lemma settings_same:
  "poolPolicySettingsComparison a b = 0 \<Longrightarrow> pps_PolicyType a = pps_PolicyType b \<Longrightarrow> a = b"
  by (cases a; cases b) (simp add: poolPolicySettingsComparison_def split: if_splits)

lemma compatible_type: "compatible pn n \<Longrightarrow> pps_PolicyType (pen_PolicySettings n) = pp_Type (pn_Policy pn)"
  by (auto simp: compatible_def poolNodeCheckPoolElementNodeCompatibility_def poolPolicySettingsAdapt_def split: if_splits option.splits)

lemma reregistered_fields:
  assumes "compatible pn n" "compatible pn s"
  shows "pen_PolicySettings (reregistered n s) = pen_PolicySettings s" "pen_Identifier (reregistered n s) = pen_Identifier n"
    "pen_HomeRegistrarIdentifier (reregistered n s) = pen_HomeRegistrarIdentifier s"
    "pen_ConnectionSocketDescriptor (reregistered n s) = pen_ConnectionSocketDescriptor s"
    "pen_ConnectionAssocID (reregistered n s) = pen_ConnectionAssocID s" "pen_RegistrationLife (reregistered n s) = pen_RegistrationLife n"
proof -
  show "pen_PolicySettings (reregistered n s) = pen_PolicySettings s"
    using settings_same [of "pen_PolicySettings n" "pen_PolicySettings s"] compatible_type [OF assms(1)] compatible_type [OF assms(2)]
    by (auto simp: reregistered_def reowned_def Let_def poolElementNodeUpdate_def)
qed (simp_all add: reregistered_def reowned_def Let_def poolElementNodeUpdate_def)

text \<open>The entry of a registration; a pool element that is known keeps its registration life.\<close>

definition newEntry :: "RegistryEntry option \<Rightarrow> PoolElementNode \<Rightarrow> u64 \<Rightarrow> RegistryEntry" where
  "newEntry old n now = (entryOf n)\<lparr>re_LastUpdateTimeStamp := now,
     re_RegistrationLife := (case old of None \<Rightarrow> pen_RegistrationLife n | Some e \<Rightarrow> re_RegistrationLife e)\<rparr>"

definition settled :: "peName \<Rightarrow> PoolElementNode \<Rightarrow> u64 \<Rightarrow> PoolHandlespaceNode \<Rightarrow> PoolHandlespaceNode" where
  "settled p n now hs = setElement p (\<lambda>m. m\<lparr>pen_UserTransport := pen_UserTransport n, pen_RegistratorTransport := pen_RegistratorTransport n\<rparr>)
     (setElement p (\<lambda>m. m\<lparr>pen_LastUpdateTimeStamp := now\<rparr>) hs)"

lemma compatible_attrs:
  assumes "hsn_PoolNodes hs h = Some pn" "attrs hs h = Some (pool_attrs pn')"
  shows "compatible pn n = compatible pn' n"
  using assms by (intro compatible_cong) (simp_all add: attrs_def pool_attrs_def)

lemma settled_ok:
  assumes wf: "hs_wf hs" and p: "p \<in> elements hs" and a: "attrs hs (fst p) = Some (pool_attrs pn)" and c: "compatible pn n"
    and y: "pen_Identifier (elementAt hs p) = pen_Identifier n" "pen_PolicySettings (elementAt hs p) = pen_PolicySettings n"
  shows "hs_wf (settled p n now hs)" "elements (settled p n now hs) = elements hs" "attrs (settled p n now hs) = attrs hs"
    "elementAt (settled p n now hs) = (elementAt hs)(p := (elementAt hs p)\<lparr>pen_LastUpdateTimeStamp := now,
       pen_UserTransport := pen_UserTransport n, pen_RegistratorTransport := pen_RegistratorTransport n\<rparr>)"
    "hsn_HomeRegistrarIdentifier (settled p n now hs) = hsn_HomeRegistrarIdentifier hs"
    "hsn_PoolElementTimerStorage (settled p n now hs) = hsn_PoolElementTimerStorage hs"
proof -
  let ?f = "\<lambda>m. m\<lparr>pen_LastUpdateTimeStamp := now\<rparr>"
  let ?g = "\<lambda>m. m\<lparr>pen_UserTransport := pen_UserTransport n, pen_RegistratorTransport := pen_RegistratorTransport n\<rparr>"
  let ?hs = "setElement p ?f hs"
  have h: "hsn_PoolNodes hs (fst p) = Some (poolAt hs (fst p))" using elements_at [OF p] by simp
  have c0: "compatible (poolAt hs (fst p)) (elementAt hs p)"
    using pool_ok_at [OF hs_parts(1) [OF wf] p] elements_at [OF p] by (simp add: pool_ok_def elementAt_def)
  have "compatible (poolAt hs (fst p)) (?f (elementAt hs p)) = compatible (poolAt hs (fst p)) (elementAt hs p)"
    by (rule compatible_cong) simp_all
  then have k: "hs_wf ?hs" "elements ?hs = elements hs"
    using c0 keeps_node [OF wf p, of ?f] by (simp_all add: sortingFields_def)
  have p1: "p \<in> elements ?hs" using k(2) p by simp
  have h1: "hsn_PoolNodes ?hs (fst p) = Some (poolAt ?hs (fst p))" using elements_at [OF p1] by simp
  have a1: "attrs ?hs = attrs hs" by (rule attrs_setElement [OF p])
  have "compatible (poolAt ?hs (fst p)) (?g (elementAt ?hs p)) = compatible pn (?g (elementAt ?hs p))"
    by (rule compatible_attrs [OF h1]) (simp add: a1 a)
  moreover have "compatible pn (?g (elementAt ?hs p)) = compatible pn n"
    by (rule compatible_cong) (simp_all add: setElement_view y)
  ultimately have k2: "hs_wf (setElement p ?g ?hs)" "elements (setElement p ?g ?hs) = elements ?hs"
    using c keeps_node [OF k(1) p1, of ?g] by (simp_all add: sortingFields_def)
  show "hs_wf (settled p n now hs)" "elements (settled p n now hs) = elements hs" using k k2 by (simp_all add: settled_def)
  show "attrs (settled p n now hs) = attrs hs" using attrs_setElement [OF p1, of ?g] a1 by (simp add: settled_def)
  show "elementAt (settled p n now hs) = (elementAt hs)(p := (elementAt hs p)\<lparr>pen_LastUpdateTimeStamp := now,
       pen_UserTransport := pen_UserTransport n, pen_RegistratorTransport := pen_RegistratorTransport n\<rparr>)"
    by (simp add: settled_def setElement_view)
  show "hsn_HomeRegistrarIdentifier (settled p n now hs) = hsn_HomeRegistrarIdentifier hs"
    "hsn_PoolElementTimerStorage (settled p n now hs) = hsn_PoolElementTimerStorage hs" by (simp_all add: settled_def)
qed

lemma registered_entry:
  assumes wf: "hs_wf hs" and pn: "sound_pool pn" and c: "compatible (targetPool pn hs) n"
  defines "p \<equiv> (ph_bytes (pn_Handle pn), pen_Identifier n)"
  shows "\<exists>newPool newElement hs'. poolHandlespaceNodeAddOrUpdatePoolElementNode pn n hs = Inr (RSPERR_OKAY, Some p, newPool, newElement, hs') \<and>
    hs_wf (settled p n now hs') \<and> registry (settled p n now hs') = (registry hs)(p \<mapsto> newEntry (registry hs p) n now) \<and>
    hsn_HomeRegistrarIdentifier (settled p n now hs') = hsn_HomeRegistrarIdentifier hs \<and>
    hsn_PoolElementTimerStorage (settled p n now hs') = hsn_PoolElementTimerStorage hs \<and>
    attrs (settled p n now hs') = (attrs hs)(fst p \<mapsto> pool_attrs (targetPool pn hs))"
proof (cases "p \<in> elements hs")
  case False
  obtain hs' where a: "poolHandlespaceNodeAddOrUpdatePoolElementNode pn n hs =
      Inr (RSPERR_OKAY, Some p, ph_bytes (pn_Handle pn) \<notin> dom (hsn_PoolNodes hs), True, hs')" "hs_wf hs'"
    "elements hs' = Set.insert p (elements hs)" "\<forall>q \<in> elements hs. registration (elementAt hs' q) = registration (elementAt hs q)"
    "registration (elementAt hs' p) = registration (registered p n)"
    "hsn_HomeRegistrarIdentifier hs' = hsn_HomeRegistrarIdentifier hs" "hsn_PoolElementTimerStorage hs' = hsn_PoolElementTimerStorage hs"
    "attrs hs' = (attrs hs)(ph_bytes (pn_Handle pn) \<mapsto> pool_attrs (targetPool pn hs))"
    using add_or_update_new [OF wf pn c] False unfolding p_def by blast
  have y: "pen_Identifier (elementAt hs' p) = pen_Identifier n" "pen_PolicySettings (elementAt hs' p) = pen_PolicySettings n"
    using registration_eqD [OF a(5)] by (simp_all add: registered_def)
  have pe: "p \<in> elements hs'" using a(3) by simp
  have at: "attrs hs' (fst p) = Some (pool_attrs (targetPool pn hs))" using a(8) by (simp add: p_def)
  note s = settled_ok [OF a(2) pe at c y, of now]
  have "registry (settled p n now hs') q = ((registry hs)(p \<mapsto> newEntry (registry hs p) n now)) q" for q
  proof (cases "q = p")
    case True
    then show ?thesis using False s(2,4) pe registration_eqD [OF a(5)]
      by (simp add: registry_def newEntry_def entryOf_def registered_def)
  next
    case q: False
    then show ?thesis using False s(2,4) a(3,4) entryOf_registration [of "elementAt hs' q" "elementAt hs q"] by (simp add: registry_def)
  qed
  then show ?thesis using a s by (intro exI conjI) (auto simp: p_def)
next
  case True
  note kp = known_pool [OF True, of pn]
  have cn: "compatible (targetPool pn hs) (elementAt hs p)"
    using kp pool_ok_at [OF hs_parts(1) [OF wf] True] elements_at [OF True] by (simp add: pool_ok_def elementAt_def p_def)
  obtain hs' where a: "poolHandlespaceNodeAddOrUpdatePoolElementNode pn n hs = Inr (RSPERR_OKAY, Some p, False, False, hs')" "hs_wf hs'"
    "elements hs' = elements hs"
    "\<And>q. registration (elementAt hs' q) = (if q = p then registration (reregistered (elementAt hs p) n) else registration (elementAt hs q))"
    "hsn_HomeRegistrarIdentifier hs' = hsn_HomeRegistrarIdentifier hs" "hsn_PoolElementTimerStorage hs' = hsn_PoolElementTimerStorage hs"
    "attrs hs' = attrs hs"
    using add_or_update_known [OF wf c] True unfolding p_def by blast
  note rf = reregistered_fields [OF cn c]
  have rp: "registration (elementAt hs' p) = registration (reregistered (elementAt hs p) n)" using a(4) by simp
  have id: "pen_Identifier (elementAt hs p) = pen_Identifier n"
    using sel_invD(5) [OF pool_wfD(3)] pool_ok_at [OF hs_parts(1) [OF wf] True] elements_at [OF True]
    by (simp add: pool_ok_def elementAt_def p_def)
  have y: "pen_Identifier (elementAt hs' p) = pen_Identifier n" "pen_PolicySettings (elementAt hs' p) = pen_PolicySettings n"
    using registration_eqD [OF rp] rf id by simp_all
  have pe: "p \<in> elements hs'" using a(3) True by simp
  have ah: "attrs hs (fst p) = Some (pool_attrs (targetPool pn hs))"
    using kp elements_at [OF True] by (simp add: attrs_def p_def)
  then have at: "attrs hs' (fst p) = Some (pool_attrs (targetPool pn hs))" using a(7) by simp
  note s = settled_ok [OF a(2) pe at c y, of now]
  have "registry (settled p n now hs') q = ((registry hs)(p \<mapsto> newEntry (registry hs p) n now)) q" for q
  proof (cases "q = p")
    case q: True
    then show ?thesis using True s(2,4) pe registration_eqD [OF rp] rf
      by (simp add: registry_def newEntry_def entryOf_def)
  next
    case q: False
    then show ?thesis using s(2,4) a(3,4) entryOf_registration [of "elementAt hs' q" "elementAt hs q"] by (simp add: registry_def)
  qed
  then show ?thesis using a s ah by (intro exI conjI) (auto simp: fun_eq_iff)
qed

lemma settled_store:
  assumes "hsm_Memory m"
  shows "storeTransports p handle (Some ut) rt
      (withHandlespace m (setElement p (\<lambda>n. n\<lparr>pen_LastUpdateTimeStamp := now\<rparr>) (hsm_Handlespace m))) =
    Inr (RSPERR_OKAY, Some p, withHandlespace m (settled p (poolElementNodeNew i r life pps (Some ut) rt sd a) now (hsm_Handlespace m)))"
proof -
  show ?thesis using assms
    by (cases rt) (simp_all add: storeTransports_def withHandlespace_def settled_def poolElementNodeNew_def
      transportAddressBlockDuplicate_def)
qed

text \<open>A registration up to its call of the handlespace.\<close>

lemma register_unfold:
  fixes ut :: TransportAddressBlock and rt :: "TransportAddressBlock option" and sd :: int and a i r life :: u32
  assumes h: "ph_wf handle" and pol: "poolPolicyGetPoolPolicyByType (pps_PolicyType pps) = Some policy"
    and mem: "hsm_Memory m \<or> hsm_NewPoolNode m \<and> hsm_NewPoolElementNode m"
  defines "n \<equiv> poolElementNodeNew i r life pps (Some ut) rt sd a"
  shows "poolHandlespaceManagementRegisterPoolElement handle r i life pps (Some ut) rt sd a now m =
    bindR (poolHandlespaceNodeAddOrUpdatePoolElementNode (requestPool handle policy ut) n (hsm_Handlespace m))
      (\<lambda>(errorCode, res, poolUsed, elementUsed, hs).
        let m2 = m\<lparr>hsm_Handlespace := hs, hsm_NewPoolNode := \<not> poolUsed, hsm_NewPoolElementNode := \<not> elementUsed\<rparr>
        in if errorCode = RSPERR_OKAY then
             (case res of None \<Rightarrow> Inl NullAccess
              | Some p \<Rightarrow> storeTransports p handle (Some ut) rt
                  (withHandlespace m2 (setElement p (\<lambda>n. n\<lparr>pen_LastUpdateTimeStamp := now\<rparr>) (hsm_Handlespace m2))))
           else Inr (errorCode, res, m2))"
proof -
  have s: "(ph_Size handle < 1 \<or> ph_Size handle > MAX_POOLHANDLESIZE) = False"
    "(\<not> hsm_NewPoolNode m \<and> \<not> hsm_Memory m) = False" "(\<not> hsm_NewPoolElementNode m \<and> \<not> hsm_Memory m) = False"
    using h mem by (auto simp: ph_wf_def)
  show ?thesis
    unfolding poolHandlespaceManagementRegisterPoolElement_def requestPool_def n_def s pol canonical_handle(1) [OF h]
    by (simp add: Let_def s(3) del: de_Morgan_conj)
qed

lemma register_ok:
  fixes ut :: TransportAddressBlock and rt :: "TransportAddressBlock option" and sd :: int and a i r life :: u32
  assumes wf: "hs_wf (hsm_Handlespace m)" and h: "ph_wf handle" and mem: "hsm_Memory m"
    and pol: "poolPolicyGetPoolPolicyByType (pps_PolicyType pps) = Some policy"
  defines "n \<equiv> poolElementNodeNew i r life pps (Some ut) rt sd a" and "p \<equiv> (ph_bytes handle, i)"
    and "pn \<equiv> targetPool (requestPool handle policy ut) (hsm_Handlespace m)"
  assumes c: "compatible pn n"
  shows "\<exists>m'. poolHandlespaceManagementRegisterPoolElement handle r i life pps (Some ut) rt sd a now m = Inr (RSPERR_OKAY, Some p, m') \<and>
    hs_wf (hsm_Handlespace m') \<and> hsm_Memory m' \<and>
    registry (hsm_Handlespace m') = (registry (hsm_Handlespace m))(p \<mapsto> newEntry (registry (hsm_Handlespace m) p) n now) \<and>
    hsn_HomeRegistrarIdentifier (hsm_Handlespace m') = hsn_HomeRegistrarIdentifier (hsm_Handlespace m) \<and>
    hsn_PoolElementTimerStorage (hsm_Handlespace m') = hsn_PoolElementTimerStorage (hsm_Handlespace m) \<and>
    attrs (hsm_Handlespace m') = (attrs (hsm_Handlespace m))(ph_bytes handle \<mapsto> pool_attrs pn)"
proof -
  note t = conjunct1 [OF poolPolicyGetPoolPolicyByType_in [OF pol]]
  note s = requestPool_sound [OF h t, of ut]
  have i: "pen_Identifier n = i" by (simp add: n_def poolElementNodeNew_def)
  obtain np ne hs' where a: "poolHandlespaceNodeAddOrUpdatePoolElementNode (requestPool handle policy ut) n (hsm_Handlespace m) = Inr (RSPERR_OKAY, Some p, np, ne, hs')"
    "hs_wf (settled p n now hs')" "registry (settled p n now hs') = (registry (hsm_Handlespace m))(p \<mapsto> newEntry (registry (hsm_Handlespace m) p) n now)"
    "hsn_HomeRegistrarIdentifier (settled p n now hs') = hsn_HomeRegistrarIdentifier (hsm_Handlespace m)"
    "hsn_PoolElementTimerStorage (settled p n now hs') = hsn_PoolElementTimerStorage (hsm_Handlespace m)"
    "attrs (settled p n now hs') = (attrs (hsm_Handlespace m))(fst p \<mapsto> pool_attrs pn)"
    using registered_entry [OF wf s(1) c [unfolded pn_def], of now] unfolding s(2) i p_def pn_def by blast
  let ?m = "m\<lparr>hsm_Handlespace := hs', hsm_NewPoolNode := \<not> np, hsm_NewPoolElementNode := \<not> ne\<rparr>"
  have "poolHandlespaceManagementRegisterPoolElement handle r i life pps (Some ut) rt sd a now m =
      Inr (RSPERR_OKAY, Some p, withHandlespace ?m (settled p n now hs'))"
    using settled_store [of ?m p handle ut rt now i r life pps sd a] mem
    by (simp add: register_unfold [OF h pol] a(1) n_def [symmetric])
  then show ?thesis using a mem
    by (intro exI [of _ "withHandlespace ?m (settled p n now hs')"] conjI) (simp_all add: withHandlespace_def p_def)
qed

lemma register_rejected:
  assumes wf: "hs_wf (hsm_Handlespace m)" and h: "ph_wf handle" and mem: "hsm_Memory m"
    and pol: "poolPolicyGetPoolPolicyByType (pps_PolicyType pps) = Some policy"
    and e: "poolNodeCheckPoolElementNodeCompatibility (targetPool (requestPool handle policy ut) (hsm_Handlespace m))
      (poolElementNodeNew i r life pps (Some ut) rt sd a) = Inr e" "e \<noteq> RSPERR_OKAY"
  shows "\<exists>m'. poolHandlespaceManagementRegisterPoolElement handle r i life pps (Some ut) rt sd a now m = Inr (e, None, m') \<and>
    hs_wf (hsm_Handlespace m') \<and> hsm_Memory m' \<and> hsn_PoolNodes (hsm_Handlespace m') = hsn_PoolNodes (hsm_Handlespace m) \<and>
    hsn_HomeRegistrarIdentifier (hsm_Handlespace m') = hsn_HomeRegistrarIdentifier (hsm_Handlespace m)"
proof -
  note t = conjunct1 [OF poolPolicyGetPoolPolicyByType_in [OF pol]]
  obtain hs' where "poolHandlespaceNodeAddOrUpdatePoolElementNode (requestPool handle policy ut) (poolElementNodeNew i r life pps (Some ut) rt sd a)
      (hsm_Handlespace m) = Inr (e, None, False, False, hs')" "hs_wf hs'" "hsn_PoolNodes hs' = hsn_PoolNodes (hsm_Handlespace m)"
    "hsn_HomeRegistrarIdentifier hs' = hsn_HomeRegistrarIdentifier (hsm_Handlespace m)"
    using add_or_update_rejected [OF wf requestPool_sound(1) [OF h t] e] by blast
  then show ?thesis using e(2) mem by (simp add: register_unfold [OF h pol])
qed

text \<open>Without memory for the transports the pool element is not registered any more.\<close>

lemma register_no_memory:
  assumes wf: "hs_wf (hsm_Handlespace m)" and h: "ph_wf handle" and mem: "\<not> hsm_Memory m" "hsm_NewPoolNode m" "hsm_NewPoolElementNode m"
    and pol: "poolPolicyGetPoolPolicyByType (pps_PolicyType pps) = Some policy"
    and c: "compatible (targetPool (requestPool handle policy ut) (hsm_Handlespace m)) (poolElementNodeNew i r life pps (Some ut) rt sd a)"
  shows "\<exists>m'. poolHandlespaceManagementRegisterPoolElement handle r i life pps (Some ut) rt sd a now m = Inr (RSPERR_OUT_OF_MEMORY, None, m') \<and>
    hs_wf (hsm_Handlespace m') \<and> registry (hsm_Handlespace m') = (registry (hsm_Handlespace m))((ph_bytes handle, i) := None)"
proof -
  let ?n = "poolElementNodeNew i r life pps (Some ut) rt sd a"
  let ?p = "(ph_bytes handle, i)"
  note t = conjunct1 [OF poolPolicyGetPoolPolicyByType_in [OF pol]]
  note s = requestPool_sound [OF h t, of ut]
  have i: "pen_Identifier ?n = i" by (simp add: poolElementNodeNew_def)
  obtain np ne hs' where a: "poolHandlespaceNodeAddOrUpdatePoolElementNode (requestPool handle policy ut) ?n (hsm_Handlespace m) = Inr (RSPERR_OKAY, Some ?p, np, ne, hs')"
    "hs_wf hs'" "?p \<in> elements hs'" "registry hs' = (registry (hsm_Handlespace m))(?p := registry hs' ?p)"
  proof -
    have "\<exists>np ne hs'. poolHandlespaceNodeAddOrUpdatePoolElementNode (requestPool handle policy ut) ?n (hsm_Handlespace m) = Inr (RSPERR_OKAY, Some ?p, np, ne, hs') \<and>
        hs_wf hs' \<and> elements hs' = Set.insert ?p (elements (hsm_Handlespace m)) \<and>
        (\<forall>q. q \<noteq> ?p \<longrightarrow> q \<in> elements (hsm_Handlespace m) \<longrightarrow> registration (elementAt hs' q) = registration (elementAt (hsm_Handlespace m) q))"
    proof (cases "?p \<in> elements (hsm_Handlespace m)")
      case False
      obtain hs' where "poolHandlespaceNodeAddOrUpdatePoolElementNode (requestPool handle policy ut) ?n (hsm_Handlespace m) =
          Inr (RSPERR_OKAY, Some ?p, ph_bytes handle \<notin> dom (hsn_PoolNodes (hsm_Handlespace m)), True, hs')"
        "hs_wf hs'" "elements hs' = Set.insert ?p (elements (hsm_Handlespace m))"
        "\<forall>q \<in> elements (hsm_Handlespace m). registration (elementAt hs' q) = registration (elementAt (hsm_Handlespace m) q)"
        using add_or_update_new [OF wf s(1) c, unfolded s(2) i, OF False] by blast
      then show ?thesis by blast
    next
      case True
      obtain hs' where "poolHandlespaceNodeAddOrUpdatePoolElementNode (requestPool handle policy ut) ?n (hsm_Handlespace m) =
          Inr (RSPERR_OKAY, Some ?p, False, False, hs')" "hs_wf hs'" "elements hs' = elements (hsm_Handlespace m)"
        "\<forall>q. registration (elementAt hs' q) = (if q = ?p then registration (reregistered (elementAt (hsm_Handlespace m) ?p) ?n)
           else registration (elementAt (hsm_Handlespace m) q))"
        using add_or_update_known [OF wf c, unfolded s(2) i, OF True] by blast
      then show ?thesis using True by (intro exI [of _ False] exI [of _ hs'] conjI) (auto simp: insert_absorb)
    qed
    then obtain np ne hs' where x: "poolHandlespaceNodeAddOrUpdatePoolElementNode (requestPool handle policy ut) ?n (hsm_Handlespace m) = Inr (RSPERR_OKAY, Some ?p, np, ne, hs')"
      "hs_wf hs'" "elements hs' = Set.insert ?p (elements (hsm_Handlespace m))"
      "\<forall>q. q \<noteq> ?p \<longrightarrow> q \<in> elements (hsm_Handlespace m) \<longrightarrow> registration (elementAt hs' q) = registration (elementAt (hsm_Handlespace m) q)" by blast
    have "registry hs' q = ((registry (hsm_Handlespace m))(?p := registry hs' ?p)) q" for q
      using x(3) x(4) [rule_format, of q] entryOf_registration [of "elementAt hs' q" "elementAt (hsm_Handlespace m) q"]
      by (auto simp: registry_def)
    then show thesis using that x by (simp add: fun_eq_iff)
  qed
  let ?f = "\<lambda>n. n\<lparr>pen_LastUpdateTimeStamp := now\<rparr>"
  let ?m = "withHandlespace (m\<lparr>hsm_NewPoolNode := \<not> np, hsm_NewPoolElementNode := \<not> ne\<rparr>) (setElement ?p ?f hs')"
  have c0: "compatible (poolAt hs' (ph_bytes handle)) (elementAt hs' ?p)"
    using pool_ok_at [OF hs_parts(1) [OF a(2)] a(3)] elements_at [OF a(3)] by (simp add: pool_ok_def elementAt_def)
  have "compatible (poolAt hs' (ph_bytes handle)) (?f (elementAt hs' ?p)) = compatible (poolAt hs' (ph_bytes handle)) (elementAt hs' ?p)"
    by (rule compatible_cong) simp_all
  then have k: "hs_wf (setElement ?p ?f hs')" "elements (setElement ?p ?f hs') = elements hs'"
    using c0 keeps_node [OF a(2,3), of ?f] by (simp_all add: sortingFields_def)
  obtain hs2 where d: "poolHandlespaceManagementDeregisterPoolElement handle i ?m = Inr (RSPERR_OKAY, withHandlespace ?m hs2)" "hs_wf hs2"
    "registry hs2 = (registry (setElement ?p ?f hs'))(?p := None)"
    using deregister_ok [of ?m handle i] k a(3) h by (auto simp: withHandlespace_def)
  have "(registry (setElement ?p ?f hs'))(?p := None) = (registry (hsm_Handlespace m))(?p := None)"
  proof (rule ext)
    fix q show "((registry (setElement ?p ?f hs'))(?p := None)) q = ((registry (hsm_Handlespace m))(?p := None)) q"
      using fun_cong [OF a(4), of q] k(2) by (cases "q = ?p") (simp_all add: registry_def setElement_view split: if_splits)
  qed
  moreover have "poolHandlespaceManagementRegisterPoolElement handle r i life pps (Some ut) rt sd a now m = Inr (RSPERR_OUT_OF_MEMORY, None, withHandlespace ?m hs2)"
    using mem d(1) by (simp add: register_unfold [OF h pol] a(1) storeTransports_def transportAddressBlockDuplicate_def withHandlespace_def)
  ultimately show ?thesis using d by (intro exI [of _ "withHandlespace ?m hs2"]) (simp add: withHandlespace_def)
qed

section \<open>Handle resolution\<close>

lemma resolve_ok:
  assumes wf: "hs_wf (hsm_Handlespace m)" and h: "ph_wf handle" and k: "1 \<le> k" "card (elements (hsm_Handlespace m)) + k < 2 ^ 32"
  shows "\<exists>ps hs'. poolHandlespaceManagementHandleResolution random handle k inc m =
      Inr (if ph_bytes handle \<in> dom (attrs (hsm_Handlespace m)) then RSPERR_OKAY else RSPERR_NOT_FOUND, ps, withHandlespace m hs') \<and>
    hs_wf hs' \<and> distinct ps \<and> set ps \<subseteq> {p \<in> elements (hsm_Handlespace m). fst p = ph_bytes handle} \<and> length ps \<le> k \<and>
    registry hs' = registry (hsm_Handlespace m) \<and> attrs hs' = attrs (hsm_Handlespace m) \<and>
    hsn_HomeRegistrarIdentifier hs' = hsn_HomeRegistrarIdentifier (hsm_Handlespace m) \<and>
    hsn_PoolElementTimerStorage hs' = hsn_PoolElementTimerStorage (hsm_Handlespace m)"
proof (cases "hsn_PoolNodes (hsm_Handlespace m) (ph_bytes handle)")
  case None
  have "withHandlespace m (hsm_Handlespace m) = m" by (simp add: withHandlespace_def)
  then show ?thesis using None wf select_unknown [OF hs_parts(1) [OF wf] h None, of random k inc]
    by (intro exI [of _ "[]"] exI [of _ "hsm_Handlespace m"]) (simp add: poolHandlespaceManagementHandleResolution_def domIff attrs_def)
next
  case (Some pn)
  have "Pair (ph_bytes handle) ` pool_nodes pn \<subseteq> elements (hsm_Handlespace m)" using Some by (auto simp: elements_def)
  from card_mono [OF hs_parts(9) [OF wf] this] have "card (pool_nodes pn) \<le> card (elements (hsm_Handlespace m))"
    by (simp add: card_image inj_on_def)
  then have k': "card (pool_nodes pn) + k < 2 ^ 32" using k(2) by simp
  obtain sel hs' where s: "poolHandlespaceNodeSelectPoolElementNodesByPolicy random handle k inc (hsm_Handlespace m) =
      Inr (RSPERR_OKAY, map (Pair (ph_bytes handle)) sel, hs')" "hs_wf hs'" "distinct sel" "set sel \<subseteq> pool_nodes pn" "length sel \<le> k"
    "elements hs' = elements (hsm_Handlespace m)"
    "\<forall>p \<in> elements (hsm_Handlespace m). registration (elementAt hs' p) = registration (elementAt (hsm_Handlespace m) p)"
    "hsn_HomeRegistrarIdentifier hs' = hsn_HomeRegistrarIdentifier (hsm_Handlespace m)"
    "hsn_PoolElementTimerStorage hs' = hsn_PoolElementTimerStorage (hsm_Handlespace m)" "attrs hs' = attrs (hsm_Handlespace m)"
    using select_ok [OF wf h Some k(1) k', of random inc] by blast
  have "registry hs' = registry (hsm_Handlespace m)" by (rule registry_same) (use s in auto)
  moreover have "poolHandlespaceManagementHandleResolution random handle k inc m = Inr (RSPERR_OKAY, map (Pair (ph_bytes handle)) sel, withHandlespace m hs')"
    using s(1) by (simp add: poolHandlespaceManagementHandleResolution_def)
  moreover have "set (map (Pair (ph_bytes handle)) sel) \<subseteq> {p \<in> elements (hsm_Handlespace m). fst p = ph_bytes handle}"
    using s(4) Some by (auto simp: elements_def)
  moreover have "ph_bytes handle \<in> dom (attrs (hsm_Handlespace m))" using Some by (auto simp: attrs_def)
  ultimately show ?thesis using s
    by (intro exI [of _ "map (Pair (ph_bytes handle)) sel"] exI [of _ hs'] conjI) (simp_all add: distinct_map inj_on_def)
qed

section \<open>Requests\<close>

text \<open>
  The requests of pool elements and pool users to a registrar, run on the handlespace and on an
  abstract registry: the pools with their policy and protocol, and the entries.
\<close>

datatype Request =
    RegisterRequest PoolHandle u32 u32 u32 PoolPolicySettings TransportAddressBlock "TransportAddressBlock option" int u32 u64
  | DeregisterRequest PoolHandle u32
  | ResolveRequest PoolHandle nat nat

record Registry =
  rg_Pools :: "handleName \<Rightarrow> (PoolHandle \<times> PoolPolicy \<times> int \<times> u32) option"
  rg_Entries :: "peName \<Rightarrow> RegistryEntry option"

definition abstraction :: "PoolHandlespaceNode \<Rightarrow> Registry" where
  "abstraction hs = \<lparr>rg_Pools = attrs hs, rg_Entries = registry hs\<rparr>"

fun poolOf :: "PoolHandle \<times> PoolPolicy \<times> int \<times> u32 \<Rightarrow> PoolNode" where
  "poolOf (handle, policy, protocol, fl) = poolNodeNew handle policy protocol fl"

fun specRequest :: "Request \<Rightarrow> Registry \<Rightarrow> u16 \<times> Registry" where
  "specRequest (RegisterRequest handle r i life pps ut rt sd a now) R =
     (if ph_Size handle < 1 \<or> ph_Size handle > MAX_POOLHANDLESIZE then (RSPERR_INVALID_POOL_HANDLE, R)
      else case poolPolicyGetPoolPolicyByType (pps_PolicyType pps) of
        None \<Rightarrow> (RSPERR_INVALID_POOL_POLICY, R)
      | Some policy \<Rightarrow>
          let h = ph_bytes handle;
              n = poolElementNodeNew i r life pps (Some ut) rt sd a;
              pool = (case rg_Pools R h of None \<Rightarrow> pool_attrs (requestPool handle policy ut) | Some pool \<Rightarrow> pool)
          in case poolNodeCheckPoolElementNodeCompatibility (poolOf pool) n of
               Inl _ \<Rightarrow> (RSPERR_OKAY, R)
             | Inr e \<Rightarrow> if e \<noteq> RSPERR_OKAY then (e, R)
                        else (RSPERR_OKAY, \<lparr>rg_Pools = (rg_Pools R)(h \<mapsto> pool),
                               rg_Entries = (rg_Entries R)((h, i) \<mapsto> newEntry (rg_Entries R (h, i)) n now)\<rparr>))"
| "specRequest (DeregisterRequest handle i) R =
     (let p = (ph_bytes handle, i) in
      if p \<notin> dom (rg_Entries R) then (RSPERR_NOT_FOUND, R)
      else (RSPERR_OKAY, \<lparr>rg_Pools = (if {q \<in> dom (rg_Entries R). fst q = fst p} = {p} then (rg_Pools R)(fst p := None) else rg_Pools R),
                          rg_Entries = (rg_Entries R)(p := None)\<rparr>))"
| "specRequest (ResolveRequest handle k inc) R =
     (if ph_bytes handle \<in> dom (rg_Pools R) then RSPERR_OKAY else RSPERR_NOT_FOUND, R)"

fun runRequest :: "(nat \<Rightarrow> u64) \<Rightarrow> Request \<Rightarrow> PoolHandlespaceManagement \<Rightarrow> fault + (u16 \<times> PoolHandlespaceManagement)" where
  "runRequest random (RegisterRequest handle r i life pps ut rt sd a now) m =
     bindR (poolHandlespaceManagementRegisterPoolElement handle r i life pps (Some ut) rt sd a now m) (\<lambda>(e, _, m1). Inr (e, m1))"
| "runRequest random (DeregisterRequest handle i) m = poolHandlespaceManagementDeregisterPoolElement handle i m"
| "runRequest random (ResolveRequest handle k inc) m =
     bindR (poolHandlespaceManagementHandleResolution random handle k inc m) (\<lambda>(e, _, m1). Inr (e, m1))"

text \<open>Requests as the messages carry them: a handle is in its buffer and not empty, and few are asked for.\<close>

fun request_ok :: "nat \<Rightarrow> Request \<Rightarrow> bool" where
  "request_ok N (RegisterRequest handle r i life pps ut rt sd a now) =
     (ph_wf handle \<or> ph_Size handle < 1 \<or> ph_Size handle > MAX_POOLHANDLESIZE)"
| "request_ok N (DeregisterRequest handle i) = ph_wf handle"
| "request_ok N (ResolveRequest handle k inc) = (ph_wf handle \<and> 1 \<le> k \<and> N + k < 2 ^ 32)"

lemma check_cong:
  assumes "pn_Protocol pn' = pn_Protocol pn" "pn_Flags pn' = pn_Flags pn" "pn_Policy pn' = pn_Policy pn"
  shows "poolNodeCheckPoolElementNodeCompatibility pn' n = poolNodeCheckPoolElementNodeCompatibility pn n"
  unfolding poolNodeCheckPoolElementNodeCompatibility_def assms ..

lemma check_attrs:
  "poolNodeCheckPoolElementNodeCompatibility (poolOf (pool_attrs pn)) n = poolNodeCheckPoolElementNodeCompatibility pn n"
  by (rule check_cong) (simp_all add: pool_attrs_def poolNodeNew_def)

lemma check_returns:
  "\<exists>e. poolNodeCheckPoolElementNodeCompatibility pn (poolElementNodeNew i r life pps (Some ut) rt sd a) = Inr e"
  by (simp add: poolNodeCheckPoolElementNodeCompatibility_def poolElementNodeNew_def)

lemma target_attrs:
  "ph_wf handle \<Longrightarrow> (case attrs hs (ph_bytes handle) of None \<Rightarrow> pool_attrs (requestPool handle policy ut) | Some pool \<Rightarrow> pool) =
     pool_attrs (targetPool (requestPool handle policy ut) hs)"
  using canonical_handle(3) [of handle]
  by (simp add: targetPool_def attrs_def requestPool_def poolNodeNew_def split: option.splits)

lemma only_element:
  assumes "p \<in> elements hs"
  shows "{q \<in> elements hs. fst q = fst p} = {p} \<longleftrightarrow> pool_nodes (poolAt hs (fst p)) = {snd p}"
proof -
  have "{q \<in> elements hs. fst q = fst p} = Pair (fst p) ` pool_nodes (poolAt hs (fst p))"
    using elements_at [OF assms] by (auto simp: elements_def image_iff)
  also have "\<dots> = {p} \<longleftrightarrow> pool_nodes (poolAt hs (fst p)) = {snd p}"
    by (cases p) (auto simp: image_iff)
  finally show ?thesis .
qed

lemma request_step:
  assumes wf: "hs_wf (hsm_Handlespace m)" and mem: "hsm_Memory m" and ok: "request_ok N rq" and N: "card (elements (hsm_Handlespace m)) \<le> N"
  shows "\<exists>m'. runRequest random rq m = Inr (fst (specRequest rq (abstraction (hsm_Handlespace m))), m') \<and>
    abstraction (hsm_Handlespace m') = snd (specRequest rq (abstraction (hsm_Handlespace m))) \<and>
    hs_wf (hsm_Handlespace m') \<and> hsm_Memory m' \<and> card (elements (hsm_Handlespace m')) \<le> Suc (card (elements (hsm_Handlespace m))) \<and>
    hsn_HomeRegistrarIdentifier (hsm_Handlespace m') = hsn_HomeRegistrarIdentifier (hsm_Handlespace m)"
proof (cases rq)
  case (RegisterRequest handle r i life pps ut rt sd a now)
  show ?thesis
  proof (cases "ph_wf handle \<and> poolPolicyGetPoolPolicyByType (pps_PolicyType pps) \<noteq> None")
    case False
    then have "runRequest random rq m = Inr (fst (specRequest rq (abstraction (hsm_Handlespace m))), m) \<and>
        specRequest rq (abstraction (hsm_Handlespace m)) = (fst (specRequest rq (abstraction (hsm_Handlespace m))), abstraction (hsm_Handlespace m))"
      using ok RegisterRequest by (auto simp: poolHandlespaceManagementRegisterPoolElement_def)
    then show ?thesis using wf mem by (metis le_SucI order_refl snd_conv)
  next
    case True
    then obtain policy where h: "ph_wf handle" and pol: "poolPolicyGetPoolPolicyByType (pps_PolicyType pps) = Some policy" by blast
    let ?n = "poolElementNodeNew i r life pps (Some ut) rt sd a"
    let ?pn = "targetPool (requestPool handle policy ut) (hsm_Handlespace m)"
    obtain e where e: "poolNodeCheckPoolElementNodeCompatibility ?pn ?n = Inr e" using check_returns by blast
    have sz: "\<not> (ph_Size handle < 1 \<or> ph_Size handle > MAX_POOLHANDLESIZE)" using h by (simp add: ph_wf_def)
    have sp: "specRequest rq (abstraction (hsm_Handlespace m)) =
        (if e \<noteq> RSPERR_OKAY then (e, abstraction (hsm_Handlespace m))
         else (RSPERR_OKAY, \<lparr>rg_Pools = (attrs (hsm_Handlespace m))(ph_bytes handle \<mapsto> pool_attrs ?pn),
            rg_Entries = (registry (hsm_Handlespace m))((ph_bytes handle, i) \<mapsto> newEntry (registry (hsm_Handlespace m) (ph_bytes handle, i)) ?n now)\<rparr>))"
      using sz pol e unfolding RegisterRequest specRequest.simps abstraction_def
      by (simp add: target_attrs [OF h] check_attrs Let_def)
    show ?thesis
    proof (cases "e = RSPERR_OKAY")
      case True
      then have "compatible ?pn ?n" using e by (simp add: compatible_def)
      from register_ok [OF wf h mem pol this, of now] obtain m' where
        r: "poolHandlespaceManagementRegisterPoolElement handle r i life pps (Some ut) rt sd a now m = Inr (RSPERR_OKAY, Some (ph_bytes handle, i), m')"
        "hs_wf (hsm_Handlespace m')" "hsm_Memory m'"
        "registry (hsm_Handlespace m') = (registry (hsm_Handlespace m))((ph_bytes handle, i) \<mapsto> newEntry (registry (hsm_Handlespace m) (ph_bytes handle, i)) ?n now)"
        "hsn_HomeRegistrarIdentifier (hsm_Handlespace m') = hsn_HomeRegistrarIdentifier (hsm_Handlespace m)"
        "attrs (hsm_Handlespace m') = (attrs (hsm_Handlespace m))(ph_bytes handle \<mapsto> pool_attrs ?pn)" by blast
      have "elements (hsm_Handlespace m') = Set.insert (ph_bytes handle, i) (elements (hsm_Handlespace m))"
        using arg_cong [OF r(4), of dom] by simp
      then have "card (elements (hsm_Handlespace m')) \<le> Suc (card (elements (hsm_Handlespace m)))"
        by (simp add: card_insert_le_m1 card_insert_if hs_parts(9) [OF wf])
      then show ?thesis using r sp True RegisterRequest by (intro exI [of _ m'] conjI) (simp_all add: abstraction_def)
    next
      case False
      from register_rejected [OF wf h mem pol e False, of now] obtain m' where
        r: "poolHandlespaceManagementRegisterPoolElement handle r i life pps (Some ut) rt sd a now m = Inr (e, None, m')"
        "hs_wf (hsm_Handlespace m')" "hsm_Memory m'" "hsn_PoolNodes (hsm_Handlespace m') = hsn_PoolNodes (hsm_Handlespace m)"
        "hsn_HomeRegistrarIdentifier (hsm_Handlespace m') = hsn_HomeRegistrarIdentifier (hsm_Handlespace m)" by blast
      have v: "elements (hsm_Handlespace m') = elements (hsm_Handlespace m)" "attrs (hsm_Handlespace m') = attrs (hsm_Handlespace m)"
        "registry (hsm_Handlespace m') = registry (hsm_Handlespace m)"
        using elements_cong [OF r(4)] attrs_cong [OF r(4)] elementAt_cong [OF r(4)] by (simp_all add: registry_def fun_eq_iff)
      then show ?thesis using r sp False RegisterRequest by (intro exI [of _ m'] conjI) (simp_all add: abstraction_def)
    qed
  qed
next
  case (DeregisterRequest handle i)
  have h: "ph_wf handle" using ok DeregisterRequest by simp
  let ?p = "(ph_bytes handle, i)"
  show ?thesis
  proof (cases "?p \<in> elements (hsm_Handlespace m)")
    case False
    then show ?thesis using DeregisterRequest wf mem find_element_ok [OF hs_parts(1) [OF wf] h, of i]
      by (intro exI [of _ m] conjI) (simp_all add: poolHandlespaceManagementDeregisterPoolElement_def abstraction_def)
  next
    case True
    obtain hs' where d: "poolHandlespaceManagementDeregisterPoolElementByPtr ?p m = Inr (RSPERR_OKAY, withHandlespace m hs')" "hs_wf hs'"
      "elements hs' = elements (hsm_Handlespace m) - {?p}" "\<forall>q \<in> elements hs'. elementAt hs' q = elementAt (hsm_Handlespace m) q"
      "hsn_HomeRegistrarIdentifier hs' = hsn_HomeRegistrarIdentifier (hsm_Handlespace m)"
      "attrs hs' = (if pool_nodes (poolAt (hsm_Handlespace m) (fst ?p)) = {snd ?p}
         then (attrs (hsm_Handlespace m))(fst ?p := None) else attrs (hsm_Handlespace m))"
      using deregister_ptr_ok [OF wf True] by blast
    have "card (elements hs') \<le> Suc (card (elements (hsm_Handlespace m)))" using d(3) by (simp add: card_Diff1_le le_SucI)
    then show ?thesis using DeregisterRequest True d mem deregister_registry [OF d(3,4)] only_element [OF True]
        find_element_ok [OF hs_parts(1) [OF wf] h, of i]
      by (intro exI [of _ "withHandlespace m hs'"] conjI)
         (simp_all add: poolHandlespaceManagementDeregisterPoolElement_def abstraction_def withHandlespace_def Let_def)
  qed
next
  case (ResolveRequest handle k inc)
  then have h: "ph_wf handle" and k: "1 \<le> k" "card (elements (hsm_Handlespace m)) + k < 2 ^ 32" using ok N by auto
  obtain ps hs' where s: "poolHandlespaceManagementHandleResolution random handle k inc m =
      Inr (if ph_bytes handle \<in> dom (attrs (hsm_Handlespace m)) then RSPERR_OKAY else RSPERR_NOT_FOUND, ps, withHandlespace m hs')"
    "hs_wf hs'" "registry hs' = registry (hsm_Handlespace m)" "attrs hs' = attrs (hsm_Handlespace m)"
    "hsn_HomeRegistrarIdentifier hs' = hsn_HomeRegistrarIdentifier (hsm_Handlespace m)"
    using resolve_ok [OF wf h k, of random inc] by blast
  have "elements hs' = elements (hsm_Handlespace m)" using arg_cong [OF s(3), of dom] by simp
  then show ?thesis using s mem ResolveRequest
    by (intro exI [of _ "withHandlespace m hs'"] conjI) (simp_all add: abstraction_def withHandlespace_def)
qed

primrec runRequests :: "(nat \<Rightarrow> u64) \<Rightarrow> Request list \<Rightarrow> PoolHandlespaceManagement \<Rightarrow> fault + (u16 list \<times> PoolHandlespaceManagement)" where
  "runRequests random [] m = Inr ([], m)"
| "runRequests random (rq # rqs) m =
     bindR (runRequest random rq m) (\<lambda>(e, m1). bindR (runRequests random rqs m1) (\<lambda>(es, m2). Inr (e # es, m2)))"

primrec specRequests :: "Request list \<Rightarrow> Registry \<Rightarrow> u16 list \<times> Registry" where
  "specRequests [] R = ([], R)"
| "specRequests (rq # rqs) R =
     (let (e, R1) = specRequest rq R; (es, R2) = specRequests rqs R1 in (e # es, R2))"

lemma requests_refine:
  assumes "hs_wf (hsm_Handlespace m)" "hsm_Memory m" "\<forall>rq \<in> set rqs. request_ok N rq"
    "card (elements (hsm_Handlespace m)) + length rqs \<le> N"
  shows "\<exists>m'. runRequests random rqs m = Inr (fst (specRequests rqs (abstraction (hsm_Handlespace m))), m') \<and>
    abstraction (hsm_Handlespace m') = snd (specRequests rqs (abstraction (hsm_Handlespace m))) \<and> hs_wf (hsm_Handlespace m') \<and>
    hsn_HomeRegistrarIdentifier (hsm_Handlespace m') = hsn_HomeRegistrarIdentifier (hsm_Handlespace m)"
  using assms
proof (induction rqs arbitrary: m)
  case (Cons rq rqs)
  have "request_ok N rq" "card (elements (hsm_Handlespace m)) \<le> N" using Cons.prems(3,4) by simp_all
  from request_step [OF Cons.prems(1,2) this, of random] obtain m1 where
    1: "runRequest random rq m = Inr (fst (specRequest rq (abstraction (hsm_Handlespace m))), m1)"
    "abstraction (hsm_Handlespace m1) = snd (specRequest rq (abstraction (hsm_Handlespace m)))" "hs_wf (hsm_Handlespace m1)" "hsm_Memory m1"
    "card (elements (hsm_Handlespace m1)) \<le> Suc (card (elements (hsm_Handlespace m)))"
    "hsn_HomeRegistrarIdentifier (hsm_Handlespace m1) = hsn_HomeRegistrarIdentifier (hsm_Handlespace m)" by blast
  have "\<forall>rq \<in> set rqs. request_ok N rq" "card (elements (hsm_Handlespace m1)) + length rqs \<le> N" using Cons.prems(3,4) 1(5) by simp_all
  from Cons.IH [OF 1(3,4) this] obtain m' where
    2: "runRequests random rqs m1 = Inr (fst (specRequests rqs (abstraction (hsm_Handlespace m1))), m')"
    "abstraction (hsm_Handlespace m') = snd (specRequests rqs (abstraction (hsm_Handlespace m1)))" "hs_wf (hsm_Handlespace m')"
    "hsn_HomeRegistrarIdentifier (hsm_Handlespace m') = hsn_HomeRegistrarIdentifier (hsm_Handlespace m1)" by blast
  then show ?case using 1 by (intro exI [of _ m'] conjI) (simp_all add: case_prod_unfold Let_def)
qed simp

end
