(* ===== verification/RSP_Purge.thy ===== *)
theory RSP_Purge
  imports RSP_Registry
begin

text \<open>
  Expiry timers, the purging of expired and of marked pool elements, and handle tables.
\<close>

section \<open>Timers\<close>

definition timerNames :: "PoolHandlespaceNode \<Rightarrow> peName list" where
  "timerNames hs = timer_links.names (hsn_PoolElementTimerStorage hs)"

lemma timerNames_alt: "timerNames hs = map ofTimerEntry (map fst (contents (hsn_PoolElementTimerStorage hs)))"
  by (simp add: timerNames_def timer_links.names_def)

lemma timer_names:
  assumes "hs_struct hs"
  shows "distinct (timerNames hs)" "set (timerNames hs) \<subseteq> elements hs"
    "timer_links.links (hsn_PoolElementTimerStorage hs) (elementAt hs) (set (timerNames hs))"
    "poolHandlespaceNodeHasActiveTimer hs p \<longleftrightarrow> p \<in> set (timerNames hs)"
    "sorted_wrt (\<lambda>p q. pen_TimerTimeStamp (elementAt hs p) \<le> pen_TimerTimeStamp (elementAt hs q)) (timerNames hs)"
proof -
  obtain L where L: "timer_links.links (hsn_PoolElementTimerStorage hs) (elementAt hs) L" "L \<subseteq> elements hs"
    using hs_structD(4) [OF assms] by (auto simp: timers_wf_def)
  note n = timer_links.names_set [OF L(1), folded timerNames_def]
  show "distinct (timerNames hs)" "set (timerNames hs) \<subseteq> elements hs"
    "timer_links.links (hsn_PoolElementTimerStorage hs) (elementAt hs) (set (timerNames hs))"
    "poolHandlespaceNodeHasActiveTimer hs p \<longleftrightarrow> p \<in> set (timerNames hs)"
    using n L timer_links.links_linked [OF L(1), of p] by (auto simp: poolHandlespaceNodeHasActiveTimer_def)
  have "sorted_wrt (\<lambda>a b. poolElementTimerStorageNodeComparison (fst a) (fst b) < 0) (contents (hsn_PoolElementTimerStorage hs))"
    using L(1) by (simp add: timer_links.links_def rbt_wf_def ascending_def)
  then have "sorted_wrt (\<lambda>a b. fst (fst a) \<le> fst (fst b)) (contents (hsn_PoolElementTimerStorage hs))"
    by (rule sorted_wrt_mono_rel [rotated]) (auto simp: cmp_key_neg)
  moreover have "fst (fst e) = pen_TimerTimeStamp (elementAt hs (ofTimerEntry (fst e)))" if "e \<in> set (contents (hsn_PoolElementTimerStorage hs))" for e
    using timer_links.entry_of_name [OF L(1), of "fst e"] that by (auto simp: keys_def timerEntry_def prod_eq_iff)
  ultimately show "sorted_wrt (\<lambda>p q. pen_TimerTimeStamp (elementAt hs p) \<le> pen_TimerTimeStamp (elementAt hs q)) (timerNames hs)"
    by (auto simp: timerNames_def timer_links.names_def sorted_wrt_map intro: sorted_wrt_mono_rel [rotated])
qed

lemma timer_chain:
  assumes "hs_struct hs" "timerNames hs = xs @ p # ys"
  shows "poolHandlespaceNodeGetNextPoolElementTimerNode hs p = (case ys of [] \<Rightarrow> None | q # _ \<Rightarrow> Some q)"
  using timer_links.chain [OF timer_names(3) [OF assms(1)]] assms(2)
  unfolding adjacent_def timerNames_def poolHandlespaceNodeGetNextPoolElementTimerNode_def by blast

lemma first_timer: "poolHandlespaceNodeGetFirstPoolElementTimerNode hs = (case timerNames hs of [] \<Rightarrow> None | p # _ \<Rightarrow> Some p)"
  by (cases "contents (hsn_PoolElementTimerStorage hs)")
     (simp_all add: poolHandlespaceNodeGetFirstPoolElementTimerNode_def ends_ok timerNames_def timer_links.names_def)

lemma timer_names_removed:
  assumes "hs_struct hs" "hs_struct hs'"
    and k: "keys (hsn_PoolElementTimerStorage hs') = keys (hsn_PoolElementTimerStorage hs) - {timerEntry p (elementAt hs p)}"
  shows "timerNames hs' = filter (\<lambda>q. q \<noteq> p) (timerNames hs)"
proof -
  let ?t = "hsn_PoolElementTimerStorage hs"
  note l = timer_names(3) [OF assms(1)]
  have wf: "rbt_wf poolElementTimerStorageNodeComparison ?t" "rbt_wf poolElementTimerStorageNodeComparison (hsn_PoolElementTimerStorage hs')"
    using l timer_names(3) [OF assms(2)] by (simp_all add: timer_links.links_def)
  have "timerNames hs' = map ofTimerEntry (filter (\<lambda>e. e \<noteq> timerEntry p (elementAt hs p)) (map fst (contents ?t)))"
    unfolding timerNames_alt timers.removed_contents [OF wf k] ..
  also have "\<dots> = filter (\<lambda>q. q \<noteq> p) (map ofTimerEntry (map fst (contents ?t)))"
  proof -
    have "e \<noteq> timerEntry p (elementAt hs p) \<longleftrightarrow> ofTimerEntry e \<noteq> p" if "e \<in> set (map fst (contents ?t))" for e
      using timer_links.entry_of_name [OF l, of e] that timer_links.name_entry [of p "elementAt hs p"] by (auto simp: keys_def)
    then show ?thesis by (simp add: filter_map comp_def cong: filter_cong)
  qed
  finally show ?thesis by (simp add: timerNames_alt)
qed

lemma next_timestamp:
  assumes "hs_struct (hsm_Handlespace m)"
  shows "poolHandlespaceManagementGetNextTimerTimeStamp m =
      (if timerNames (hsm_Handlespace m) = [] then - 1
       else Min ((\<lambda>p. pen_TimerTimeStamp (elementAt (hsm_Handlespace m) p)) ` set (timerNames (hsm_Handlespace m))))"
proof (cases "timerNames (hsm_Handlespace m)")
  case (Cons p ps)
  have "\<forall>q \<in> set ps. pen_TimerTimeStamp (elementAt (hsm_Handlespace m) p) \<le> pen_TimerTimeStamp (elementAt (hsm_Handlespace m) q)"
    using timer_names(5) [OF assms] Cons by simp
  then have "Min ((\<lambda>p. pen_TimerTimeStamp (elementAt (hsm_Handlespace m) p)) ` set (p # ps)) = pen_TimerTimeStamp (elementAt (hsm_Handlespace m) p)"
    by (intro Min_eqI) auto
  then show ?thesis using Cons first_timer [of "hsm_Handlespace m"] by (simp add: poolHandlespaceManagementGetNextTimerTimeStamp_def)
qed (simp add: poolHandlespaceManagementGetNextTimerTimeStamp_def first_timer)

section \<open>Purging expired pool elements\<close>

definition expired :: "u64 \<Rightarrow> PoolHandlespaceNode \<Rightarrow> peName set" where
  "expired now hs = {p \<in> set (timerNames hs). pen_TimerTimeStamp (elementAt hs p) \<le> now}"

lemma purge_expired_ok:
  assumes "hs_wf (hsm_Handlespace m)" "timerNames (hsm_Handlespace m) = ns" "length ns \<le> k"
    "\<forall>p \<in> set ns. pen_TimerCode (elementAt (hsm_Handlespace m) p) = PENT_EXPIRY"
  shows "\<exists>hs'. purgeExpired k now (case ns of [] \<Rightarrow> None | p # _ \<Rightarrow> Some p) purged m =
      Inr (purged + card (expired now (hsm_Handlespace m)), withHandlespace m hs') \<and> hs_wf hs' \<and>
    elements hs' = elements (hsm_Handlespace m) - expired now (hsm_Handlespace m) \<and>
    (\<forall>q \<in> elements hs'. elementAt hs' q = elementAt (hsm_Handlespace m) q) \<and>
    hsn_HomeRegistrarIdentifier hs' = hsn_HomeRegistrarIdentifier (hsm_Handlespace m)"
  using assms
proof (induction k arbitrary: m ns purged)
  case 0
  have "withHandlespace m (hsm_Handlespace m) = m" by (simp add: withHandlespace_def)
  then show ?case using 0 by (intro exI [of _ "hsm_Handlespace m"]) (simp add: expired_def)
next
  case (Suc k)
  let ?hs = "hsm_Handlespace m"
  have st: "hs_struct ?hs" using Suc.prems(1) by (simp add: hs_wf_struct)
  have mm: "withHandlespace m ?hs = m" by (simp add: withHandlespace_def)
  show ?case
  proof (cases ns)
    case Nil
    then show ?thesis using Suc.prems mm by (intro exI [of _ ?hs]) (simp add: expired_def)
  next
    case (Cons p ps)
    have pT: "p \<in> set (timerNames ?hs)" using Cons Suc.prems(2) by simp
    have pE: "p \<in> elements ?hs" using timer_names(2) [OF st] pT by blast
    have act: "poolHandlespaceNodeHasActiveTimer ?hs p" using timer_names(4) [OF st] pT by simp
    have nx: "poolHandlespaceNodeGetNextPoolElementTimerNode ?hs p = (case ps of [] \<Rightarrow> None | q # _ \<Rightarrow> Some q)"
      using timer_chain [OF st, of "[]" p ps] Cons Suc.prems(2) by simp
    have code: "pen_TimerCode (elementAt ?hs p) = PENT_EXPIRY" using Suc.prems(4) Cons by simp
    have le: "\<forall>q \<in> set ps. pen_TimerTimeStamp (elementAt ?hs p) \<le> pen_TimerTimeStamp (elementAt ?hs q)"
      using timer_names(5) [OF st] Cons Suc.prems(2) by simp
    have dn: "p \<notin> set ps" "distinct ps" using timer_names(1) [OF st] Cons Suc.prems(2) by simp_all
    show ?thesis
    proof (cases "pen_TimerTimeStamp (elementAt ?hs p) \<le> now")
      case False
      then have "expired now ?hs = {}" using le Cons Suc.prems(2) by (auto simp: expired_def dest: order_trans)
      then show ?thesis using Cons False code act Suc.prems(1) mm by (intro exI [of _ ?hs]) simp
    next
      case True
      obtain hs1 where d: "poolHandlespaceManagementDeregisterPoolElementByPtr p m = Inr (RSPERR_OKAY, withHandlespace m hs1)" "hs_wf hs1"
        "elements hs1 = elements ?hs - {p}" "\<forall>q \<in> elements hs1. elementAt hs1 q = elementAt ?hs q"
        "hsn_HomeRegistrarIdentifier hs1 = hsn_HomeRegistrarIdentifier ?hs"
        "keys (hsn_PoolElementTimerStorage hs1) = keys (hsn_PoolElementTimerStorage ?hs) - {timerEntry p (elementAt ?hs p)}"
        using deregister_ptr_ok [OF Suc.prems(1) pE] by blast
      let ?m = "withHandlespace m hs1"
      have h1: "hsm_Handlespace ?m = hs1" by (simp add: withHandlespace_def)
      have st1: "hs_struct hs1" using d(2) by (simp add: hs_wf_struct)
      have t1: "timerNames hs1 = ps"
        using timer_names_removed [OF st st1 d(6)] Cons Suc.prems(2) dn by (simp add: filter_id_conv) metis
      have e1: "\<forall>q \<in> set ps. elementAt hs1 q = elementAt ?hs q" using d(4) timer_names(2) [OF st1] t1 by blast
      have x: "expired now ?hs = Set.insert p (expired now hs1)" "p \<notin> expired now hs1"
        using True Cons Suc.prems(2) t1 e1 dn by (auto simp: expired_def)
      have fin: "finite (expired now hs1)" by (simp add: expired_def)
      have c1: "\<forall>q \<in> set ps. pen_TimerCode (elementAt (hsm_Handlespace ?m) q) = PENT_EXPIRY"
        using e1 Suc.prems(4) Cons by (simp add: h1)
      obtain hs' where r: "purgeExpired k now (case ps of [] \<Rightarrow> None | q # _ \<Rightarrow> Some q) (purged + 1) ?m =
          Inr (purged + 1 + card (expired now hs1), withHandlespace ?m hs')" "hs_wf hs'" "elements hs' = elements hs1 - expired now hs1"
        "\<forall>q \<in> elements hs'. elementAt hs' q = elementAt hs1 q" "hsn_HomeRegistrarIdentifier hs' = hsn_HomeRegistrarIdentifier hs1"
        using Suc.IH [of ?m ps "purged + 1"] d(2) t1 Suc.prems(3) Cons c1 unfolding h1 by auto
      have "purgeExpired (Suc k) now (case ns of [] \<Rightarrow> None | p # _ \<Rightarrow> Some p) purged m =
          Inr (purged + card (expired now ?hs), withHandlespace m hs')"
        using Cons True code act nx d(1) r(1) x fin by (simp add: withHandlespace_def)
      then show ?thesis using r d x by (intro exI [of _ hs'] conjI) auto
    qed
  qed
qed

lemma purge_ok:
  assumes wf: "hs_wf (hsm_Handlespace m)" and code: "\<forall>p \<in> set (timerNames (hsm_Handlespace m)). pen_TimerCode (elementAt (hsm_Handlespace m) p) = PENT_EXPIRY"
  shows "\<exists>hs'. poolHandlespaceManagementPurgeExpiredPoolElements now m =
      Inr (card (expired now (hsm_Handlespace m)), withHandlespace m hs') \<and> hs_wf hs' \<and>
    elements hs' = elements (hsm_Handlespace m) - expired now (hsm_Handlespace m) \<and>
    (\<forall>q \<in> elements hs'. elementAt hs' q = elementAt (hsm_Handlespace m) q) \<and>
    hsn_HomeRegistrarIdentifier hs' = hsn_HomeRegistrarIdentifier (hsm_Handlespace m)"
proof -
  have st: "hs_struct (hsm_Handlespace m)" using wf by (simp add: hs_wf_struct)
  have "length (timerNames (hsm_Handlespace m)) \<le> poolHandlespaceNodeGetTimerNodes (hsm_Handlespace m)"
    using timer_names(3) [OF st] by (simp add: poolHandlespaceNodeGetTimerNodes_def RedBlackTreeGetElements_def
        timer_links.links_def rbt_wf_def timerNames_alt)
  from purge_expired_ok [OF wf refl this code, of now 0] show ?thesis
    by (simp add: poolHandlespaceManagementPurgeExpiredPoolElements_def first_timer)
qed

text \<open>A (re)started expiry timer runs the time out after the last update of the pool element.\<close>

lemma timer_names_keys: "set (timerNames hs) = ofTimerEntry ` keys (hsn_PoolElementTimerStorage hs)"
  by (simp add: timerNames_alt keys_def image_image)

lemma restart_ok:
  fixes timeout :: u64
  assumes wf: "hs_wf (hsm_Handlespace m)" and p: "p \<in> elements (hsm_Handlespace m)"
  defines "stamp \<equiv> pen_LastUpdateTimeStamp (elementAt (hsm_Handlespace m) p) + timeout"
  shows "\<exists>hs'. poolHandlespaceManagementRestartPoolElementExpiryTimer p timeout m = Inr (withHandlespace m hs') \<and> hs_wf hs' \<and>
    elements hs' = elements (hsm_Handlespace m) \<and>
    elementAt hs' = (elementAt (hsm_Handlespace m))(p := (elementAt (hsm_Handlespace m) p)\<lparr>pen_TimerCode := PENT_EXPIRY, pen_TimerTimeStamp := stamp\<rparr>) \<and>
    set (timerNames hs') = Set.insert p (set (timerNames (hsm_Handlespace m)))"
proof -
  let ?hs = "hsm_Handlespace m"
  obtain hs1 where 1: "poolHandlespaceNodeDeactivateTimer p ?hs = Inr hs1" "hs_wf hs1" "hsn_PoolNodes hs1 = hsn_PoolNodes ?hs"
    "keys (hsn_PoolElementTimerStorage hs1) = keys (hsn_PoolElementTimerStorage ?hs) - {timerEntry p (elementAt ?hs p)}"
    using deactivate_ok [OF wf] by blast
  have st: "hs_struct ?hs" "hs_struct hs1" using wf 1(2) by (simp_all add: hs_wf_struct)
  note same = elements_cong [OF 1(3)] elementAt_cong [OF 1(3)]
  note n1 = timer_names_removed [OF st 1(4)]
  then have "\<not> poolHandlespaceNodeHasActiveTimer hs1 p" by (simp add: timer_names(4) [OF st(2)])
  from activate_ok [OF 1(2) _ this, of PENT_EXPIRY stamp] p same obtain hs2 where
    2: "poolHandlespaceNodeActivateTimer p PENT_EXPIRY stamp hs1 = Inr hs2" "hs_wf hs2" "elements hs2 = elements ?hs"
    "elementAt hs2 = (elementAt ?hs)(p := (elementAt ?hs p)\<lparr>pen_TimerCode := PENT_EXPIRY, pen_TimerTimeStamp := stamp\<rparr>)"
    "keys (hsn_PoolElementTimerStorage hs2) = Set.insert (stamp, snd p, fst p) (keys (hsn_PoolElementTimerStorage hs1))" by auto
  have "set (timerNames hs2) = Set.insert p (set (timerNames hs1))"
    using 2(5) by (simp add: timer_names_keys ofTimerEntry_def)
  also have "\<dots> = Set.insert p (set (timerNames ?hs))" using n1 by auto
  finally show ?thesis using 1 2 same
    by (intro exI [of _ hs2]) (simp add: poolHandlespaceManagementRestartPoolElementExpiryTimer_def stamp_def)
qed

section \<open>Marking and purging the pool elements of a registrar\<close>

definition ownedBy :: "u32 \<Rightarrow> PoolHandlespaceNode \<Rightarrow> peName list" where
  "ownedBy r hs = filter (\<lambda>p. pen_HomeRegistrarIdentifier (elementAt hs p) = r) (ownershipNames hs)"

lemma ownedBy_set:
  assumes "hs_struct hs"
  shows "distinct (ownedBy r hs)" "set (ownedBy r hs) \<subseteq> {p \<in> elements hs. pen_HomeRegistrarIdentifier (elementAt hs p) = r}"
    "r \<noteq> 0 \<Longrightarrow> set (ownedBy r hs) = {p \<in> elements hs. pen_HomeRegistrarIdentifier (elementAt hs p) = r}"
  using ownership_names [OF assms] by (auto simp: ownedBy_def)

definition marked :: "PoolElementNode \<Rightarrow> bool" where
  "marked n \<longleftrightarrow> pen_Flags n AND PENF_MARKED \<noteq> 0"

definition mark :: "PoolElementNode \<Rightarrow> PoolElementNode" where
  "mark n = n\<lparr>pen_Flags := pen_Flags n OR PENF_MARKED\<rparr>"

lemma marked_mark: "marked (mark n)"
proof -
  have "bit ((pen_Flags n OR PENF_MARKED) AND PENF_MARKED) 0"
    by (simp add: bit_simps)
  then show ?thesis by (auto simp: marked_def mark_def)
qed

lemma mark_all_ok:
  assumes "hs_wf hs" "distinct ps" "set ps \<subseteq> elements hs"
  shows "hs_wf (markAll ps hs)" "elements (markAll ps hs) = elements hs"
    "elementAt (markAll ps hs) q = (if q \<in> set ps then mark (elementAt hs q) else elementAt hs q)"
    "hsn_HomeRegistrarIdentifier (markAll ps hs) = hsn_HomeRegistrarIdentifier hs"
    "hsn_PoolElementTimerStorage (markAll ps hs) = hsn_PoolElementTimerStorage hs"
  using assms
proof (induction ps arbitrary: hs)
  case (Cons p ps)
  let ?set = "setElement p (\<lambda>n. n\<lparr>pen_Flags := pen_Flags n OR PENF_MARKED\<rparr>)"
  have k: "hs_wf (?set hs)" "elements (?set hs) = elements hs"
    "hsn_HomeRegistrarIdentifier (?set hs) = hsn_HomeRegistrarIdentifier hs"
    "hsn_PoolElementTimerStorage (?set hs) = hsn_PoolElementTimerStorage hs"
    if "hs_wf hs" "distinct (p # ps)" "set (p # ps) \<subseteq> elements hs" for hs
    using keeps_flags [of hs p "\<lambda>n. pen_Flags n OR PENF_MARKED"] that by simp_all
  have ih: "hs_wf (?set hs)" "distinct ps" "set ps \<subseteq> elements (?set hs)"
    if "hs_wf hs" "distinct (p # ps)" "set (p # ps) \<subseteq> elements hs" for hs
    using that k [OF that] by auto
  {
    case 1
    from Cons.IH(1) [OF ih [OF this]] show ?case by simp
  next
    case 2
    from Cons.IH(2) [OF ih [OF this]] k [OF this] show ?case by simp
  next
    case 3
    from Cons.IH(3) [OF ih [OF this]] 3 show ?case by (auto simp: setElement_view mark_def)
  next
    case 4
    from Cons.IH(4) [OF ih [OF this]] k [OF this] show ?case by simp
  next
    case 5
    from Cons.IH(5) [OF ih [OF this]] k [OF this] show ?case by simp
  }
qed simp_all

lemma mark_ok:
  assumes wf: "hs_wf (hsm_Handlespace m)"
  shows "\<exists>hs'. poolHandlespaceManagementMarkPoolElementNodes r m = Inr (withHandlespace m hs') \<and> hs_wf hs' \<and>
    elements hs' = elements (hsm_Handlespace m) \<and>
    (\<forall>q. elementAt hs' q = (if q \<in> set (ownedBy r (hsm_Handlespace m)) then mark (elementAt (hsm_Handlespace m) q)
                            else elementAt (hsm_Handlespace m) q))"
proof -
  have st: "hs_struct (hsm_Handlespace m)" using wf by (simp add: hs_wf_struct)
  have sub: "set (ownedBy r (hsm_Handlespace m)) \<subseteq> elements (hsm_Handlespace m)" using ownedBy_set(2) [OF st, of r] by auto
  note k = mark_all_ok [OF wf ownedBy_set(1) [OF st] sub]
  have "poolHandlespaceManagementMarkPoolElementNodes r m = Inr (withHandlespace m (markAll (ownedBy r (hsm_Handlespace m)) (hsm_Handlespace m)))"
    using owned_nodes_ok(2) [OF st, of r] by (simp add: poolHandlespaceManagementMarkPoolElementNodes_def ownedBy_def)
  then show ?thesis using k by (intro exI [of _ "markAll (ownedBy r (hsm_Handlespace m)) (hsm_Handlespace m)"]) simp
qed

lemma next_owned:
  assumes st: "hs_struct hs" and s: "ownedBy r hs = xs @ p # ys"
  shows "poolHandlespaceNodeGetNextPoolElementOwnershipNodeForSameIdentifier hs p = (case ys of [] \<Rightarrow> None | q # _ \<Rightarrow> Some q)"
  by (rule owner_group.group_next [OF ownership_names(4) [OF st], where g = r])
     (use s in \<open>simp_all add: ownedBy_def ownershipNames_def poolHandlespaceNodeGetNextPoolElementOwnershipNodeForSameIdentifier_def
        poolHandlespaceNodeGetNextPoolElementOwnershipNode_def\<close>)

text \<open>A pool element that leaves a registrar leaves the order of the others as it is.\<close>

lemma owned_by_shrinks:
  assumes "hs_struct hs" "hs_struct hs'" "set (ownedBy r hs') = set (ownedBy r hs) - {p}"
    "\<forall>q \<in> set (ownedBy r hs'). elementAt hs' q = elementAt hs q"
  shows "ownedBy r hs' = filter (\<lambda>q. q \<noteq> p) (ownedBy r hs)"
  using owner_links.names_shrink [OF ownership_names(4) [OF assms(1)] ownership_names(4) [OF assms(2)]] assms(3,4)
  unfolding ownedBy_def ownershipNames_def by blast

lemma ownership_names_removed:
  assumes "hs_struct hs" "hs_struct hs'" "elements hs' = elements hs - {p}" "\<forall>q \<in> elements hs'. elementAt hs' q = elementAt hs q" and r: "r \<noteq> 0"
  shows "ownedBy r hs' = filter (\<lambda>q. q \<noteq> p) (ownedBy r hs)"
proof (rule owned_by_shrinks [OF assms(1,2)])
  show "set (ownedBy r hs') = set (ownedBy r hs) - {p}"
    using assms(3,4) ownedBy_set(3) [OF assms(1) r] ownedBy_set(3) [OF assms(2) r] by auto
  show "\<forall>q \<in> set (ownedBy r hs'). elementAt hs' q = elementAt hs q"
    using assms(4) ownedBy_set(2) [OF assms(2), of r] by blast
qed

lemma purge_marked_loop:
  assumes "hs_wf (hsm_Handlespace m)" "ownedBy r (hsm_Handlespace m) = kept @ rest" "length rest \<le> k" "r \<noteq> 0"
  shows "\<exists>hs'. purgeMarked k (case rest of [] \<Rightarrow> None | p # _ \<Rightarrow> Some p) count m =
      Inr (count + length (filter (\<lambda>p. marked (elementAt (hsm_Handlespace m) p)) rest), withHandlespace m hs') \<and> hs_wf hs' \<and>
    elements hs' = elements (hsm_Handlespace m) - {p \<in> set rest. marked (elementAt (hsm_Handlespace m) p)} \<and>
    (\<forall>q \<in> elements hs'. elementAt hs' q = elementAt (hsm_Handlespace m) q) \<and>
    hsn_HomeRegistrarIdentifier hs' = hsn_HomeRegistrarIdentifier (hsm_Handlespace m)"
  using assms
proof (induction k arbitrary: m kept rest count)
  case 0
  have "withHandlespace m (hsm_Handlespace m) = m" by (simp add: withHandlespace_def)
  then show ?case using 0 by (intro exI [of _ "hsm_Handlespace m"]) simp
next
  case (Suc k)
  let ?hs = "hsm_Handlespace m"
  have st: "hs_struct ?hs" using Suc.prems(1) by (simp add: hs_wf_struct)
  have mm: "withHandlespace m ?hs = m" by (simp add: withHandlespace_def)
  show ?case
  proof (cases rest)
    case Nil
    then show ?thesis using Suc.prems(1) mm by (intro exI [of _ ?hs]) simp
  next
    case (Cons p ps)
    have o: "ownedBy r ?hs = kept @ p # ps" using Suc.prems(2) Cons by simp
    have pE: "p \<in> elements ?hs" using ownedBy_set(2) [OF st, of r] o by auto
    have nx: "poolHandlespaceNodeGetNextPoolElementOwnershipNodeForSameIdentifier ?hs p = (case ps of [] \<Rightarrow> None | q # _ \<Rightarrow> Some q)"
      by (rule next_owned [OF st o])
    have dn: "p \<notin> set ps" "p \<notin> set kept" using ownedBy_set(1) [OF st, of r] o by simp_all
    show ?thesis
    proof (cases "marked (elementAt ?hs p)")
      case False
      from Suc.IH [OF Suc.prems(1), of "kept @ [p]" ps count] o Suc.prems(3,4) Cons obtain hs' where
        "purgeMarked k (case ps of [] \<Rightarrow> None | q # _ \<Rightarrow> Some q) count m =
          Inr (count + length (filter (\<lambda>p. marked (elementAt ?hs p)) ps), withHandlespace m hs')" "hs_wf hs'"
        "elements hs' = elements ?hs - {p \<in> set ps. marked (elementAt ?hs p)}" "\<forall>q \<in> elements hs'. elementAt hs' q = elementAt ?hs q"
        "hsn_HomeRegistrarIdentifier hs' = hsn_HomeRegistrarIdentifier ?hs" by auto
      moreover from this have "elements hs' = elements ?hs - {q \<in> set rest. marked (elementAt ?hs q)}" using Cons False by auto
      ultimately show ?thesis using Cons False nx by (intro exI [of _ hs'] conjI) (simp_all add: marked_def)
    next
      case True
      obtain hs1 where d: "poolHandlespaceManagementDeregisterPoolElementByPtr p m = Inr (RSPERR_OKAY, withHandlespace m hs1)" "hs_wf hs1"
        "elements hs1 = elements ?hs - {p}" "\<forall>q \<in> elements hs1. elementAt hs1 q = elementAt ?hs q"
        "hsn_HomeRegistrarIdentifier hs1 = hsn_HomeRegistrarIdentifier ?hs"
        using deregister_ptr_ok [OF Suc.prems(1) pE] by blast
      let ?m = "withHandlespace m hs1"
      have h1: "hsm_Handlespace ?m = hs1" by (simp add: withHandlespace_def)
      have st1: "hs_struct hs1" using d(2) by (simp add: hs_wf_struct)
      have o1: "ownedBy r hs1 = kept @ ps"
      proof -
        have "filter (\<lambda>q. q \<noteq> p) kept = kept" "filter (\<lambda>q. q \<noteq> p) ps = ps"
          using dn by (auto intro!: filter_True)
        then show ?thesis using ownership_names_removed [OF st st1 d(3,4) Suc.prems(4)] o by simp
      qed
      have e1: "\<forall>q \<in> set ps. elementAt hs1 q = elementAt ?hs q" using d(4) ownedBy_set(2) [OF st1, of r] o1 by auto
      have f1: "filter (\<lambda>p. marked (elementAt hs1 p)) ps = filter (\<lambda>p. marked (elementAt ?hs p)) ps" using e1 by (intro filter_cong) simp_all
      obtain hs' where r: "purgeMarked k (case ps of [] \<Rightarrow> None | q # _ \<Rightarrow> Some q) (count + 1) ?m =
          Inr (count + 1 + length (filter (\<lambda>p. marked (elementAt hs1 p)) ps), withHandlespace ?m hs')" "hs_wf hs'"
        "elements hs' = elements hs1 - {p \<in> set ps. marked (elementAt hs1 p)}" "\<forall>q \<in> elements hs'. elementAt hs' q = elementAt hs1 q"
        "hsn_HomeRegistrarIdentifier hs' = hsn_HomeRegistrarIdentifier hs1"
        using Suc.IH [of ?m kept ps "count + 1"] d(2) o1 Suc.prems(3,4) Cons unfolding h1 by auto
      have "{p \<in> set ps. marked (elementAt hs1 p)} = {p \<in> set ps. marked (elementAt ?hs p)}" using e1 by auto
      then have "elements hs' = elements ?hs - {q \<in> set rest. marked (elementAt ?hs q)}" using r(3) d(3) Cons True by auto
      moreover have "purgeMarked (Suc k) (case rest of [] \<Rightarrow> None | p # _ \<Rightarrow> Some p) count m =
          Inr (count + length (filter (\<lambda>p. marked (elementAt ?hs p)) rest), withHandlespace m hs')"
        using Cons True nx d(1) r(1) f1 by (simp add: withHandlespace_def marked_def)
      ultimately show ?thesis using r d by (intro exI [of _ hs'] conjI) auto
    qed
  qed
qed

lemma purge_marked_ok:
  assumes wf: "hs_wf (hsm_Handlespace m)" and r: "r \<noteq> 0"
  defines "D \<equiv> {p \<in> elements (hsm_Handlespace m). pen_HomeRegistrarIdentifier (elementAt (hsm_Handlespace m) p) = r \<and>
    marked (elementAt (hsm_Handlespace m) p)}"
  shows "\<exists>hs'. poolHandlespaceManagementPurgeMarkedPoolElementNodes r m = Inr (card D, withHandlespace m hs') \<and> hs_wf hs' \<and>
    elements hs' = elements (hsm_Handlespace m) - D \<and> (\<forall>q \<in> elements hs'. elementAt hs' q = elementAt (hsm_Handlespace m) q) \<and>
    hsn_HomeRegistrarIdentifier hs' = hsn_HomeRegistrarIdentifier (hsm_Handlespace m)"
proof -
  let ?hs = "hsm_Handlespace m"
  have st: "hs_struct ?hs" using wf by (simp add: hs_wf_struct)
  note o = ownedBy_set(1) [OF st, of r] ownedBy_set(3) [OF st r]
  have "length (ownershipNames ?hs) = RedBlackTreeGetElements (hsn_PoolElementOwnershipStorage ?hs)"
    using ownership_names(4) [OF st] by (simp add: ownershipNames_def owner_links.names_def owner_links.links_def rbt_wf_def RedBlackTreeGetElements_def)
  then have l: "length (ownedBy r ?hs) \<le> RedBlackTreeGetElements (hsn_PoolElementOwnershipStorage ?hs)"
    unfolding ownedBy_def by (metis length_filter_le)
  have D: "{p \<in> set (ownedBy r ?hs). marked (elementAt ?hs p)} = D" using o(2) by (auto simp: D_def)
  have c: "length (filter (\<lambda>p. marked (elementAt ?hs p)) (ownedBy r ?hs)) = card D"
    using distinct_card [of "filter (\<lambda>p. marked (elementAt ?hs p)) (ownedBy r ?hs)"] o(1) D by simp
  have f: "poolHandlespaceNodeGetFirstPoolElementOwnershipNodeForIdentifier ?hs r = Inr (case ownedBy r ?hs of [] \<Rightarrow> None | p # _ \<Rightarrow> Some p)"
    using owned_nodes_ok(1) [OF st, of r] by (simp add: ownedBy_def)
  from purge_marked_loop [OF wf, of r "[]" "ownedBy r ?hs", simplified, OF l r, of 0] show ?thesis
    by (simp add: poolHandlespaceManagementPurgeMarkedPoolElementNodes_def f D c)
qed

text \<open>Marking the pool elements of a registrar and purging the marked ones removes all of them.\<close>

lemma mark_purge_ok:
  assumes wf: "hs_wf (hsm_Handlespace m)" and r: "r \<noteq> 0"
  defines "D \<equiv> {p \<in> elements (hsm_Handlespace m). pen_HomeRegistrarIdentifier (elementAt (hsm_Handlespace m) p) = r}"
  shows "\<exists>m1 hs'. poolHandlespaceManagementMarkPoolElementNodes r m = Inr m1 \<and>
    poolHandlespaceManagementPurgeMarkedPoolElementNodes r m1 = Inr (card D, withHandlespace m hs') \<and> hs_wf hs' \<and>
    elements hs' = elements (hsm_Handlespace m) - D \<and> (\<forall>q \<in> elements hs'. elementAt hs' q = elementAt (hsm_Handlespace m) q)"
proof -
  let ?hs = "hsm_Handlespace m"
  have st: "hs_struct ?hs" using wf by (simp add: hs_wf_struct)
  have o: "set (ownedBy r ?hs) = D" using ownedBy_set(3) [OF st r] by (simp add: D_def)
  obtain hs1 where 1: "poolHandlespaceManagementMarkPoolElementNodes r m = Inr (withHandlespace m hs1)" "hs_wf hs1" "elements hs1 = elements ?hs"
    "\<forall>q. elementAt hs1 q = (if q \<in> D then mark (elementAt ?hs q) else elementAt ?hs q)"
    using mark_ok [OF wf, of r] unfolding o by blast
  have "pen_HomeRegistrarIdentifier (mark n) = pen_HomeRegistrarIdentifier n" for n by (simp add: mark_def)
  then have d: "{p \<in> elements hs1. pen_HomeRegistrarIdentifier (elementAt hs1 p) = r \<and> marked (elementAt hs1 p)} = D"
  proof (intro set_eqI)
    fix q
    show "q \<in> {p \<in> elements hs1. pen_HomeRegistrarIdentifier (elementAt hs1 p) = r \<and> marked (elementAt hs1 p)} \<longleftrightarrow> q \<in> D"
      using 1(3) 1(4) [rule_format, of q] \<open>\<And>n. pen_HomeRegistrarIdentifier (mark n) = pen_HomeRegistrarIdentifier n\<close>
      by (cases "q \<in> D") (auto simp: D_def marked_mark)
  qed
  have h: "hsm_Handlespace (withHandlespace m hs1) = hs1" by (simp add: withHandlespace_def)
  obtain hs' where 2: "poolHandlespaceManagementPurgeMarkedPoolElementNodes r (withHandlespace m hs1) = Inr (card D, withHandlespace (withHandlespace m hs1) hs')"
    "hs_wf hs'" "elements hs' = elements hs1 - D" "\<forall>q \<in> elements hs'. elementAt hs' q = elementAt hs1 q"
    using purge_marked_ok [of "withHandlespace m hs1" r] 1(2) r unfolding h d by blast
  then show ?thesis using 1 by (intro exI [of _ "withHandlespace m hs1"] exI [of _ hs']) (simp add: withHandlespace_def)
qed

end
