(* ===== verification/RSP_PeerRegistration.thy ===== *)
theory RSP_PeerRegistration
  imports RSP_PeerOps RSP_Purge
begin

text \<open>
  Registration, deregistration and expiry of peers: the invariant of the management and the effect
  of each operation on the peers.
\<close>

section \<open>The invariant\<close>

text \<open>
  Every node on the heap is a peer or the spare node, and \<open>malloc\<close> returns addresses that are not
  in use.
\<close>

definition management_ok :: "PeerListManagement \<Rightarrow> bool" where
  "management_ok m \<longleftrightarrow> list_ok (plm_List m) \<and>
     dom (pl_Nodes (plm_List m)) = peers (plm_List m) \<union> set_option (plm_NewPeerListNode m) \<and>
     peers (plm_List m) \<inter> set_option (plm_NewPeerListNode m) = {} \<and>
     (\<forall>p \<in> dom (pl_Nodes (plm_List m)). p < plm_Break m) \<and> 0 < plm_Break m"

lemma management_okD:
  assumes "management_ok m"
  shows "list_ok (plm_List m)" "dom (pl_Nodes (plm_List m)) = peers (plm_List m) \<union> set_option (plm_NewPeerListNode m)"
    "peers (plm_List m) \<inter> set_option (plm_NewPeerListNode m) = {}"
    "p \<in> dom (pl_Nodes (plm_List m)) \<Longrightarrow> p < plm_Break m" "0 < plm_Break m"
  using assms by (simp_all add: management_ok_def)

lemma withList_simps [simp]:
  "plm_List (withList m pl) = pl" "plm_NewPeerListNode (withList m pl) = plm_NewPeerListNode m"
  "plm_Break (withList m pl) = plm_Break m" "plm_Memory (withList m pl) = plm_Memory m"
  "withList (withList m pl) pl' = withList m pl'" "withList m (plm_List m) = m"
  by (simp_all add: withList_def)

lemma management_new_ok: "management_ok (peerListManagementNew mem own)"
proof -
  have "list_ok (peerListNew own)"
    by (rule list_okI) (simp_all add: peerListNew_def peers_def timed_def RedBlackTreeNew_wf)
  then show ?thesis
    by (simp add: management_ok_def peerListManagementNew_def) (simp add: peerListNew_def peers_def)
qed

text \<open>An operation that leaves the nodes on the heap and the peers where they are.\<close>

lemma management_same:
  assumes "management_ok m" "list_ok pl" "peers pl = peers (plm_List m)"
    "dom (pl_Nodes pl) = dom (pl_Nodes (plm_List m))"
  shows "management_ok (withList m pl)"
  using assms by (simp add: management_ok_def)

text \<open>What an operation on the peer \<open>p\<close> leaves alone.\<close>

definition only :: "nat \<Rightarrow> PeerListManagement \<Rightarrow> PeerListManagement \<Rightarrow> bool" where
  "only p m m' \<longleftrightarrow> peers (plm_List m') - {p} = peers (plm_List m) - {p} \<and>
     timed (plm_List m') - {p} = timed (plm_List m) - {p} \<and>
     (\<forall>q \<in> peers (plm_List m) - {p}. peerAt (plm_List m') q = peerAt (plm_List m) q) \<and>
     pl_OwnIdentifier (plm_List m') = pl_OwnIdentifier (plm_List m) \<and> plm_Memory m' = plm_Memory m"

lemma only_trans: "only p m m1 \<Longrightarrow> only p m1 m2 \<Longrightarrow> only p m m2"
  unfolding only_def by auto

section \<open>Deregistration\<close>

lemma node_delete_ok:
  "p \<notin> peers pl \<Longrightarrow> p \<notin> timed pl \<Longrightarrow>
     peerListNodeDelete p pl = Inr (setPeer p (\<lambda>n. n\<lparr>pln_Flags := 0, pln_LastUpdateTimeStamp := 0, pln_TimerCode := 0,
        pln_TimerTimeStamp := 0\<rparr>) pl)"
  by (simp add: peerListNodeDelete_def linked_iff)

text \<open>Nodes that are not in a storage do not matter.\<close>

lemma setPeer_unlinked:
  assumes ok: "list_ok pl" and p: "p \<notin> peers pl" "p \<noteq> 0"
  shows "list_ok (pl\<lparr>pl_Nodes := (pl_Nodes pl)(p := n)\<rparr>)"
proof -
  let ?pl = "pl\<lparr>pl_Nodes := (pl_Nodes pl)(p := n)\<rparr>"
  have at: "peerAt ?pl q = peerAt pl q" if "q \<in> peers pl" for q using that p by (auto simp: peerAt_def)
  have t: "p \<notin> timed pl" using p list_ok_dom(3) [OF ok] by blast
  have i: "rbt_wf (indexOrder ?pl) (pl_Index ?pl)"
    using index_wf_class [OF list_okD(1) [OF ok], of ?pl] at by (simp add: peers_def peer_index.cmp_refl)
  have tm: "rbt_wf (timerOrder ?pl) (pl_Timer ?pl)"
    using timer_wf_class [OF list_okD(2) [OF ok], of ?pl] at list_okD(5) [OF ok]
    by (simp add: timed_def peer_timer.cmp_refl)
  show ?thesis
  proof (rule list_okI)
    show "a = b" if "a \<in> peers ?pl" "b \<in> peers ?pl" "static (peerAt ?pl a)" "static (peerAt ?pl b)"
      "blockOrder (pln_AddressBlock (peerAt ?pl a)) (pln_AddressBlock (peerAt ?pl b)) = 0" for a b
      using list_okD(9) [OF ok, of a b] that at by simp
    show "peers ?pl \<subseteq> dom (pl_Nodes ?pl)" "0 \<notin> dom (pl_Nodes ?pl)"
      using list_ok_dom(1,2) [OF ok] p by (auto simp: dom_def split: if_splits)
    show "peer_ok (pl_OwnIdentifier ?pl) (peerAt ?pl q)" if "q \<in> peers ?pl" for q
      using list_okD(7) [OF ok, of q] that at [of q] by simp
    show "pln_Identifier (peerAt ?pl q) \<noteq> 0" if "q \<in> timed ?pl" for q
      using list_okD(8) [OF ok, of q] that at [of q] list_okD(5) [OF ok, of q] by simp
  qed (use i tm list_ok_dom [OF ok] list_okD(6) [OF ok] in auto)
qed

definition keepsEntry :: "PeerListNode \<Rightarrow> bool" where
  "keepsEntry n \<longleftrightarrow> static n \<and> pln_Identifier n \<noteq> 0"

lemma peer_deregister_ok:
  assumes ok: "management_ok m" and p: "p \<in> peers (plm_List m)"
  shows "\<exists>m'. peerListManagementDeregisterPeerListNodeByPtr p m = Inr (RSPERR_OKAY, m') \<and> management_ok m' \<and>
    only p m m' \<and> p \<notin> timed (plm_List m') \<and>
    (if keepsEntry (peerAt (plm_List m) p)
     then p \<in> peers (plm_List m') \<and>
       peerAt (plm_List m') p = peerListNodeNew 0 0 (pln_AddressBlock (peerAt (plm_List m) p))
     else p \<notin> peers (plm_List m'))"
proof -
  let ?pl = "plm_List m"
  note lok = management_okD(1) [OF ok]
  obtain t where t: "peerListDeactivateTimer p ?pl = Inr (?pl\<lparr>pl_Timer := t\<rparr>)" "keys t = timed ?pl - {p}"
    "list_ok (?pl\<lparr>pl_Timer := t\<rparr>)" using peer_deactivate_ok [OF lok] by blast
  let ?base = "?pl\<lparr>pl_Timer := t\<rparr>"
  have "(if timerLinked ?pl p then peerListDeactivateTimer p ?pl else Inr ?pl) = peerListDeactivateTimer p ?pl"
    by (simp add: peerListDeactivateTimer_def)
  then have first: "(if timerLinked ?pl p then peerListDeactivateTimer p ?pl else Inr ?pl) = Inr ?base"
    unfolding t(1) .
  obtain i t' where r: "peerListRemovePeerListNode p ?base = Inr (?base\<lparr>pl_Index := i, pl_Timer := t'\<rparr>)"
    "keys i = peers ?pl - {p}" "keys t' = timed ?pl - {p}" "list_ok (?base\<lparr>pl_Index := i, pl_Timer := t'\<rparr>)"
    using remove_peer_ok [OF t(3), of p] p t(2) by auto
  let ?pl1 = "?base\<lparr>pl_Index := i, pl_Timer := t'\<rparr>"
  let ?n = "(peerAt ?pl p)\<lparr>pln_Flags := 0, pln_LastUpdateTimeStamp := 0, pln_TimerCode := 0, pln_TimerTimeStamp := 0\<rparr>"
  have out: "p \<notin> peers ?pl1" "p \<notin> timed ?pl1" using r(2,3) by simp_all
  have nz: "p \<noteq> 0" using list_okD(4) [OF lok p] .
  have del: "peerListNodeDelete p ?pl1 = Inr (?pl1\<lparr>pl_Nodes := (pl_Nodes ?pl)(p \<mapsto> ?n)\<rparr>)"
    unfolding node_delete_ok [OF out] by (simp add: setPeer_def)
  have dom1: "dom ((pl_Nodes ?pl)(p \<mapsto> x)) = dom (pl_Nodes ?pl)" for x
    using list_okD(3) [OF lok p] by auto
  show ?thesis
  proof (cases "keepsEntry (peerAt ?pl p)")
    case True
    define k where "k = peerListNodeNew 0 0 (pln_AddressBlock (peerAt ?pl p))"
    define new where "new = ?pl1\<lparr>pl_Nodes := (pl_Nodes ?pl)(p \<mapsto> k)\<rparr>"
    have ok3: "list_ok new" using setPeer_unlinked [OF r(4) out(1) nz, of "Some k"] by (simp add: new_def)
    have at3: "peerAt new q = (if q = p then k else peerAt ?pl q)" for q by (simp add: new_def peerAt_def)
    have new3: "peers new = peers ?pl - {p}" "timed new = timed ?pl - {p}" "pl_OwnIdentifier new = pl_OwnIdentifier ?pl"
      "dom (pl_Nodes new) = dom (pl_Nodes ?pl)" using r(2,3) dom1 by (simp_all add: new_def)
    have ip: "inetBlock (pln_AddressBlock (peerAt ?pl p))" using list_okD(7) [OF lok p] by (simp add: peer_ok_def)
    have apart: "blockOrder (pln_AddressBlock (peerAt ?pl p)) (pln_AddressBlock (peerAt ?pl q)) \<noteq> 0"
      if "q \<in> peers ?pl - {p}" "static (peerAt ?pl q)" for q
      using list_okD(9) [OF lok p, of q] that True by (auto simp: keepsEntry_def)
    have "\<exists>i'. peerListAddPeerListNode p new = (RSPERR_OKAY, Some p, new\<lparr>pl_Index := i'\<rparr>) \<and>
      keys i' = Set.insert p (peers new) \<and> list_ok (new\<lparr>pl_Index := i'\<rparr>)"
    proof (rule add_peer_ok [OF ok3])
      show "p \<in> dom (pl_Nodes new)" "p \<notin> peers new" using new3 list_okD(3) [OF lok p] by simp_all
      show "peer_ok (pl_OwnIdentifier new) (peerAt new p)"
        using ip by (simp add: at3 peer_ok_def new3 k_def)
      show "peerListIndexStorageNodeComparison (peerAt new p) (peerAt new q) \<noteq> 0" if "q \<in> peers new" for q
      proof -
        have q: "q \<in> peers ?pl - {p}" using that new3 by simp
        then have "peer_ok (pl_OwnIdentifier ?pl) (peerAt ?pl q)" using list_okD(7) [OF lok, of q] by simp
        then show ?thesis using apart [OF q] q
          by (auto simp: at3 k_def peer_index_zero peer_ok_def)
      qed
      show "blockOrder (pln_AddressBlock (peerAt new p)) (pln_AddressBlock (peerAt new q)) \<noteq> 0"
        if "q \<in> peers new" "static (peerAt new p)" "static (peerAt new q)" for q
        using apart [of q] that new3 by (auto simp: at3 k_def)
    qed
    then obtain i' where i': "peerListAddPeerListNode p new = (RSPERR_OKAY, Some p, new\<lparr>pl_Index := i'\<rparr>)"
      "keys i' = peers ?pl" "list_ok (new\<lparr>pl_Index := i'\<rparr>)" using new3 p by (auto simp: insert_absorb)
    have set3: "setPeer p (\<lambda>n. peerListNodeNew 0 (pln_Flags n) (pln_AddressBlock n)) (?pl1\<lparr>pl_Nodes := (pl_Nodes ?pl)(p \<mapsto> ?n)\<rparr>) = new"
      by (simp add: setPeer_def peerAt_def new_def k_def)
    have "peerListManagementDeregisterPeerListNodeByPtr p m = Inr (RSPERR_OKAY, withList m (new\<lparr>pl_Index := i'\<rparr>))"
      unfolding peerListManagementDeregisterPeerListNodeByPtr_def first
      using True r(1) del set3 i'(1) by (simp add: keepsEntry_def static_def)
    moreover have "management_ok (withList m (new\<lparr>pl_Index := i'\<rparr>))"
      by (rule management_same [OF ok i'(3)]) (use i'(2) new3 in simp_all)
    ultimately show ?thesis
      using True i'(2) p new3 at3 by (auto simp: only_def k_def)
  next
    case False
    let ?pl3 = "?pl1\<lparr>pl_Nodes := (pl_Nodes ?pl)(p := None)\<rparr>"
    have ok3: "list_ok ?pl3" using setPeer_unlinked [OF r(4) out(1) nz, of None] by simp
    have at3: "q \<noteq> p \<Longrightarrow> peerAt ?pl3 q = peerAt ?pl q" for q by (simp add: peerAt_def)
    have "peerListManagementDeregisterPeerListNodeByPtr p m = Inr (RSPERR_OKAY, withList m ?pl3)"
      unfolding peerListManagementDeregisterPeerListNodeByPtr_def first
      using False r(1) del by (auto simp: keepsEntry_def static_def peerListManagementPeerListNodeDisposer_def)
    moreover have "management_ok (withList m ?pl3)"
      using ok3 management_okD [OF ok] r(2) p unfolding management_ok_def by auto
    ultimately show ?thesis using False r(2,3) at3 by (auto simp: only_def)
  qed
qed

section \<open>Searching\<close>

text \<open>What a peer answers to the identifier \<open>i\<close>.\<close>

lemma search_wf:
  assumes ok: "list_ok pl"
  shows "rbt_wf (searchOrder c pl) (pl_Index pl)"
proof (rule rbt_wf_mono [OF list_okD(1) [OF ok]])
  fix a b assume "a \<in> fst ` set (contents (pl_Index pl))" "b \<in> fst ` set (contents (pl_Index pl))" "indexOrder pl a b < 0"
  then show "searchOrder c pl a b < 0"
    using list_okD(4) [OF ok, of a] list_okD(4) [OF ok, of b] unfolding peers_def keys_def
    by (simp add: searchOrder_def indexOrder_def)
qed

lemma find_identifier:
  assumes ok: "list_ok pl" and i: "i \<noteq> 0"
  shows "p \<in> peers pl \<Longrightarrow> pln_Identifier (peerAt pl p) = i \<Longrightarrow> peerListFindPeerListNode gl i b pl = Inr (Some p)"
    "(\<And>p. p \<in> peers pl \<Longrightarrow> pln_Identifier (peerAt pl p) \<noteq> i) \<Longrightarrow> peerListFindPeerListNode gl i b pl = Inr None"
proof -
  let ?c = "searchOrder (peerListNodeNew i 0 b) pl"
  have z: "?c 0 p = 0 \<longleftrightarrow> pln_Identifier (peerAt pl p) = i" if "p \<in> peers pl" for p
    using list_okD(4) [OF ok that] i by (auto simp: searchOrder_def peer_index_zero)
  note f = comparator.find_found [OF comparator_searchOrder search_wf [OF ok]]
    comparator.find_apart [OF comparator_searchOrder search_wf [OF ok]]
  show "peerListFindPeerListNode gl i b pl = Inr (Some p)" if "p \<in> peers pl" "pln_Identifier (peerAt pl p) = i"
    using f(1) [of p "peerListNodeNew i 0 b" 0] z [OF that(1)] that i by (simp add: peerListFindPeerListNode_def peers_def)
  show "peerListFindPeerListNode gl i b pl = Inr None" if "\<And>p. p \<in> peers pl \<Longrightarrow> pln_Identifier (peerAt pl p) \<noteq> i"
    using f(2) [of "peerListNodeNew i 0 b" 0] z that i by (simp add: peerListFindPeerListNode_def peers_def)
qed

lemma peersByIndex_set: "list_ok pl \<Longrightarrow> set (peersByIndex pl) = peers pl \<and> distinct (peersByIndex pl)"
  using comparator.visit_all [OF comparator_indexOrder list_okD(1), of pl]
    ascending_distinct [OF comparator_indexOrder, of pl "contents (pl_Index pl)"] list_okD(1) [of pl]
  by (simp add: peersByIndex_def peers_def keys_def rbt_wf_def)

lemma first_overlapping:
  "(\<And>p. p \<in> set ps \<Longrightarrow> inetBlock (pln_AddressBlock (peerAt pl p))) \<Longrightarrow> b = None \<or> inetBlock b \<Longrightarrow>
     \<exists>r. firstOverlapping gl pl b ps = Inr r \<and>
       (\<forall>p. r = Some p \<longrightarrow> p \<in> set ps \<and> b \<noteq> None \<and>
         transportAddressBlockOverlapComparison gl (pln_AddressBlock (peerAt pl p)) b = Inr 0)"
proof (induction ps)
  case (Cons p ps)
  have p: "inetBlock (pln_AddressBlock (peerAt pl p))" using Cons.prems(1) by simp
  from overlap_returns(1) [OF p Cons.prems(2), of gl] obtain r
    where r: "transportAddressBlockOverlapComparison gl (pln_AddressBlock (peerAt pl p)) b = Inr r" by blast
  have n: "b = None \<Longrightarrow> r = 1" using r overlap_returns(2) [OF p, of None gl] by simp
  show ?case using Cons r n by (cases b) auto
qed simp

lemma find_address:
  assumes ok: "list_ok pl" and b: "b = None \<or> inetBlock b"
  shows "\<exists>r. peerListFindPeerListNode gl 0 b pl = Inr r \<and> (\<forall>p. r = Some p \<longrightarrow> p \<in> peers pl \<and> b \<noteq> None)"
  using first_overlapping [of "peersByIndex pl" pl b gl] peersByIndex_set [OF ok] list_okD(7) [OF ok] b
  by (auto simp: peerListFindPeerListNode_def peer_ok_def)

section \<open>Checksums of peers\<close>

definition checksumOf :: "u32 \<Rightarrow> PoolHandlespaceNode \<Rightarrow> u32" where
  "checksumOf r hs = sum nameChecksum (set (ownedBy r hs))"

lemma compute_checksum:
  assumes "hs_wf hs"
  shows "poolHandlespaceNodeComputeOwnershipChecksum hs r = Inr (checksumOf r hs)"
proof -
  have st: "hs_struct hs" using assms by (simp add: hs_wf_struct)
  have "sum (poolElementChecksum hs) (set (ownedBy r hs)) = sum nameChecksum (set (ownedBy r hs))"
    using ownedBy_set(2) [OF st, of r] checksum_element [OF hs_structD(1) [OF st]] by (intro sum.cong) auto
  then show ?thesis using ownedBy_set(1) [OF st, of r] owned_nodes_ok(2) [OF st, of r]
    by (simp add: poolHandlespaceNodeComputeOwnershipChecksum_def foldl_sum sum_list_set checksumOf_def ownedBy_def [symmetric])
qed

definition space_ok :: "PoolHandlespaceNode option \<Rightarrow> bool" where
  "space_ok h \<longleftrightarrow> (case h of None \<Rightarrow> True | Some hs \<Rightarrow> hs_wf hs)"

definition refreshed :: "PoolHandlespaceNode option \<Rightarrow> PeerListNode \<Rightarrow> PeerListNode" where
  "refreshed h n = (case h of None \<Rightarrow> n | Some hs \<Rightarrow> n\<lparr>pln_OwnershipChecksum := checksumOf (pln_Identifier n) hs\<rparr>)"

lemma refreshed_simps [simp]:
  "pln_Identifier (refreshed h n) = pln_Identifier n" "pln_AddressBlock (refreshed h n) = pln_AddressBlock n"
  "pln_Flags (refreshed h n) = pln_Flags n" "pln_TimerTimeStamp (refreshed h n) = pln_TimerTimeStamp n"
  "static (refreshed h n) = static n"
  by (simp_all add: refreshed_def static_def split: option.splits)

lemma refresh_ok:
  assumes "space_ok h" "p \<in> dom (pl_Nodes pl)"
  shows "refreshChecksum h p pl = Inr (setPeer p (refreshed h) pl)"
proof -
  have "(pl_Nodes pl)(p \<mapsto> peerAt pl p) = pl_Nodes pl" using assms(2) by (auto simp: peerAt_def)
  then have "setPeer p (\<lambda>n. n) pl = pl" by (simp add: setPeer_def)
  then show ?thesis using assms(1)
    by (auto simp: refreshChecksum_def refreshed_def space_ok_def compute_checksum setPeer_def split: option.splits)
qed

end
