(* ===== verification/RSP_PeerEntry.thy ===== *)
theory RSP_PeerEntry
  imports RSP_PeerRegistration
begin

text \<open>
  Registration of peers: a dynamic registration enters the peer under its identifier, updates the
  static entry of its address or of its identifier, or is refused; a static registration enters an
  entry without identifier.
\<close>

section \<open>Adding or updating a node\<close>

text \<open>
  The node \<open>n\<close> may be added to the peers \<open>P\<close>: it has a usable address and is not the registrar
  itself, an entry it would replace is static like it, and a static entry has a new address.
\<close>

definition addable :: "PeerList \<Rightarrow> u32 \<Rightarrow> u32 \<Rightarrow> TransportAddressBlock option \<Rightarrow> bool" where
  "addable pl i f b \<longleftrightarrow> inetBlock b \<and> (f AND PLNF_DYNAMIC = 0 \<or> i \<noteq> 0) \<and>
     (\<forall>q \<in> peers pl. pln_Identifier (peerAt pl q) = i \<longrightarrow>
        (i = 0 \<longrightarrow> blockOrder b (pln_AddressBlock (peerAt pl q)) = 0) \<longrightarrow>
        (static (peerAt pl q) \<longleftrightarrow> f AND PLNF_DYNAMIC = 0)) \<and>
     (f AND PLNF_DYNAMIC = 0 \<longrightarrow> i = 0 \<and>
       (\<forall>q \<in> peers pl. static (peerAt pl q) \<longrightarrow> blockOrder b (pln_AddressBlock (peerAt pl q)) = 0 \<longrightarrow>
          pln_Identifier (peerAt pl q) = 0))"

lemma addableD:
  assumes "addable pl i f b"
  shows "inetBlock b" "f AND PLNF_DYNAMIC = 0 \<or> i \<noteq> 0"
    "q \<in> peers pl \<Longrightarrow> pln_Identifier (peerAt pl q) = i \<Longrightarrow>
        (i = 0 \<Longrightarrow> blockOrder b (pln_AddressBlock (peerAt pl q)) = 0) \<Longrightarrow>
        (static (peerAt pl q) \<longleftrightarrow> f AND PLNF_DYNAMIC = 0)"
    "f AND PLNF_DYNAMIC = 0 \<Longrightarrow> i = 0"
    "f AND PLNF_DYNAMIC = 0 \<Longrightarrow> q \<in> peers pl \<Longrightarrow> static (peerAt pl q) \<Longrightarrow>
       blockOrder b (pln_AddressBlock (peerAt pl q)) = 0 \<Longrightarrow> pln_Identifier (peerAt pl q) = 0"
  using assms unfolding addable_def by blast+

lemma flags_old [simp]: "(f AND - 32769) AND 1 = f AND (1 :: u32)"
  using flags_new(1) [of f] by simp

text \<open>The node of the peer afterwards.\<close>

definition enteredPeer :: "u32 \<Rightarrow> u32 \<Rightarrow> TransportAddressBlock option \<Rightarrow> PeerListNode option \<Rightarrow> PeerListNode" where
  "enteredPeer i f b old =
     (case old of
        None \<Rightarrow> (peerListNodeNew i f b)\<lparr>pln_Flags := f OR PLNF_NEW\<rparr>
      | Some n \<Rightarrow> n\<lparr>pln_Flags := f AND NOT PLNF_NEW\<rparr>)"

text \<open>The list \<open>pl'\<close> after the node at \<open>new\<close> was added, or the peer \<open>p\<close> updated from it.\<close>

definition added :: "PeerList \<Rightarrow> nat \<Rightarrow> u32 \<Rightarrow> u32 \<Rightarrow> TransportAddressBlock option \<Rightarrow> nat \<Rightarrow> PeerList \<Rightarrow> bool" where
  "added pl new i f b p pl' \<longleftrightarrow> list_ok pl' \<and>
    peers pl' = Set.insert p (peers pl) \<and> timed pl' = timed pl \<and> dom (pl_Nodes pl') = dom (pl_Nodes pl) \<and>
    pl_OwnIdentifier pl' = pl_OwnIdentifier pl \<and> (\<forall>q. q \<noteq> p \<longrightarrow> peerAt pl' q = peerAt pl q) \<and>
    (p \<in> peers pl \<or> p = new) \<and>
    peerAt pl' p = enteredPeer i f b (if p \<in> peers pl then Some (peerAt pl p) else None) \<and> pln_Identifier (peerAt pl' p) = i \<and>
    (static (peerAt pl' p) \<longleftrightarrow> f AND PLNF_DYNAMIC = 0) \<and>
    (f AND PLNF_DYNAMIC = 0 \<longrightarrow> blockOrder (pln_AddressBlock (peerAt pl' p)) b = 0)"

lemma addedD:
  assumes "added pl new i f b p pl'"
  shows "list_ok pl'" "peers pl' = Set.insert p (peers pl)" "timed pl' = timed pl"
    "dom (pl_Nodes pl') = dom (pl_Nodes pl)" "pl_OwnIdentifier pl' = pl_OwnIdentifier pl"
    "q \<noteq> p \<Longrightarrow> peerAt pl' q = peerAt pl q" "p \<in> peers pl \<or> p = new"
    "peerAt pl' p = enteredPeer i f b (if p \<in> peers pl then Some (peerAt pl p) else None)"
    "pln_Identifier (peerAt pl' p) = i" "static (peerAt pl' p) \<longleftrightarrow> f AND PLNF_DYNAMIC = 0"
    "f AND PLNF_DYNAMIC = 0 \<Longrightarrow> blockOrder (pln_AddressBlock (peerAt pl' p)) b = 0"
  using assms unfolding added_def by iprover+

lemma add_or_update_ok:
  assumes ok: "list_ok pl" and new: "new \<in> dom (pl_Nodes pl)" "new \<notin> peers pl" "peerAt pl new = peerListNodeNew i f b"
    and own: "pl_OwnIdentifier pl \<noteq> 0 \<Longrightarrow> i \<noteq> pl_OwnIdentifier pl" and add: "addable pl i f b"
  shows "\<exists>p pl'. peerListAddOrUpdatePeerListNode new pl = Inr (RSPERR_OKAY, Some p, p = new, pl') \<and> added pl new i f b p pl'"
proof (cases "\<exists>q \<in> peers pl. peerListIndexStorageNodeComparison (peerAt pl new) (peerAt pl q) = 0")
  case True
  then obtain q where q: "q \<in> peers pl" "peerListIndexStorageNodeComparison (peerAt pl new) (peerAt pl q) = 0" by blast
  then have iq: "pln_Identifier (peerAt pl q) = i" "i = 0 \<Longrightarrow> blockOrder b (pln_AddressBlock (peerAt pl q)) = 0"
    using new(3) by (auto simp: peer_index_zero)
  have st: "static (peerAt pl q) \<longleftrightarrow> f AND PLNF_DYNAMIC = 0" using addableD(3) [OF add q(1) iq] .
  have ne: "q \<noteq> new" using q(1) new(2) by auto
  have chk: "peerListCheckPeerListNodeCompatibility pl (peerListNodeNew i f b) = RSPERR_OKAY"
    using own by (auto simp: peerListCheckPeerListNodeCompatibility_def)
  have "RedBlackTreeInsert (indexOrder pl) (pl_Index pl) new 1 = (q, pl_Index pl)"
    using comparator.insert_found [OF comparator_indexOrder list_okD(1) [OF ok], of q new 1] q
    unfolding peers_def indexOrder_def by blast
  then have a: "peerListAddPeerListNode new pl = (RSPERR_DUPLICATE_ID, Some q, pl)"
    using chk new(3) ne by (simp add: peerListAddPeerListNode_def)
  let ?f = "\<lambda>n. n\<lparr>pln_Flags := f AND NOT PLNF_NEW\<rparr>"
  have "peerListUpdatePeerListNode q (peerListNodeNew i f b) pl = Inr (RSPERR_OKAY, setPeer q ?f pl)"
    using chk iq(1) by (simp add: peerListUpdatePeerListNode_def peerListNodeUpdate_def Let_def)
  then have r: "peerListAddOrUpdatePeerListNode new pl = Inr (RSPERR_OKAY, Some q, q = new, setPeer q ?f pl)"
    using a ne new(3) by (simp add: peerListAddOrUpdatePeerListNode_def)
  have inet: "inetBlock (pln_AddressBlock (peerAt pl q))" using list_okD(7) [OF ok q(1)] by (simp add: peer_ok_def)
  have s: "static (?f (peerAt pl q)) \<longleftrightarrow> f AND PLNF_DYNAMIC = 0" by (simp add: static_def)
  have ok': "list_ok (setPeer q ?f pl)"
    by (rule setPeer_ok [OF ok q(1)]) (use inet s st in \<open>simp add: sameKey_def block.cmp_refl\<close>)
  have z: "f AND PLNF_DYNAMIC = 0 \<longrightarrow> blockOrder (pln_AddressBlock (peerAt pl q)) b = 0"
    using addableD(4) [OF add] iq(2) block.cmp_zero_sym by blast
  show ?thesis
    by (rule exI [of _ q], rule exI [of _ "setPeer q ?f pl"])
       (use r ok' q(1) list_okD(3) [OF ok q(1)] ne iq(1) s z in \<open>simp add: added_def insert_absorb enteredPeer_def\<close>)
next
  case False
  let ?f = "\<lambda>n. n\<lparr>pln_Flags := pln_Flags n OR PLNF_NEW\<rparr>"
  have "\<exists>i'. peerListAddPeerListNode new pl = (RSPERR_OKAY, Some new, pl\<lparr>pl_Index := i'\<rparr>) \<and>
      keys i' = Set.insert new (peers pl) \<and> list_ok (pl\<lparr>pl_Index := i'\<rparr>)"
  proof (rule add_peer_ok [OF ok new(1,2)])
    show "peer_ok (pl_OwnIdentifier pl) (peerAt pl new)"
      using addableD(1,2) [OF add] own by (auto simp: new(3) peer_ok_def)
    show "blockOrder (pln_AddressBlock (peerAt pl new)) (pln_AddressBlock (peerAt pl q)) \<noteq> 0"
      if q: "q \<in> peers pl" "static (peerAt pl new)" "static (peerAt pl q)" for q
    proof
      assume z: "blockOrder (pln_AddressBlock (peerAt pl new)) (pln_AddressBlock (peerAt pl q)) = 0"
      have f: "f AND PLNF_DYNAMIC = 0" using q(2) by (simp add: new(3))
      have "pln_Identifier (peerAt pl q) = 0" using addableD(5) [OF add f q(1,3)] z by (simp add: new(3))
      then have "peerListIndexStorageNodeComparison (peerAt pl new) (peerAt pl q) = 0"
        unfolding peer_index_zero using z addableD(4) [OF add f] by (simp add: new(3))
      then show False using False q(1) by blast
    qed
  qed (use False in auto)
  then obtain i' where i': "peerListAddPeerListNode new pl = (RSPERR_OKAY, Some new, pl\<lparr>pl_Index := i'\<rparr>)"
    "keys i' = Set.insert new (peers pl)" "list_ok (pl\<lparr>pl_Index := i'\<rparr>)" by blast
  let ?pl = "setPeer new ?f (pl\<lparr>pl_Index := i'\<rparr>)"
  have r: "peerListAddOrUpdatePeerListNode new pl = Inr (RSPERR_OKAY, Some new, new = new, ?pl)"
    using i'(1) by (simp add: peerListAddOrUpdatePeerListNode_def)
  have ok': "list_ok ?pl"
    by (rule setPeer_ok [OF i'(3)])
       (use i'(2) addableD(1) [OF add] in \<open>simp_all add: sameKey_def new(3) block.cmp_refl static_def\<close>)
  show ?thesis
    by (rule exI [of _ new], rule exI [of _ ?pl])
       (use r ok' i'(2) new in \<open>simp add: added_def insert_absorb enteredPeer_def block.cmp_refl static_def\<close>)
qed

section \<open>The spare node\<close>

text \<open>The node that \<open>peerListManagementRegisterPeerListNode\<close> fills: the spare one or a new one.\<close>

definition spare :: "PeerListManagement \<Rightarrow> nat" where
  "spare m = (case plm_NewPeerListNode m of None \<Rightarrow> plm_Break m | Some p \<Rightarrow> p)"

definition allocated :: "PeerListManagement \<Rightarrow> PeerListManagement" where
  "allocated m = (if plm_NewPeerListNode m = None
     then m\<lparr>plm_NewPeerListNode := Some (plm_Break m), plm_Break := plm_Break m + 1\<rparr> else m)"

definition filled :: "u32 \<Rightarrow> u32 \<Rightarrow> TransportAddressBlock option \<Rightarrow> PeerListManagement \<Rightarrow> PeerList" where
  "filled i f b m = (plm_List m)\<lparr>pl_Nodes := (pl_Nodes (plm_List m))(spare m \<mapsto> peerListNodeNew i f b)\<rparr>"

lemma allocated_simps [simp]:
  "plm_List (allocated m) = plm_List m" "plm_Memory (allocated m) = plm_Memory m"
  "plm_NewPeerListNode (allocated m) = Some (spare m)"
  by (auto simp: allocated_def spare_def split: option.splits)

lemma withList_new [simp]:
  "withList (m\<lparr>plm_NewPeerListNode := x\<rparr>) pl = (withList m pl)\<lparr>plm_NewPeerListNode := x\<rparr>"
  by (simp add: withList_def)

lemma spare_ok:
  assumes ok: "management_ok m"
  shows "spare m \<notin> peers (plm_List m)" "spare m \<noteq> 0" "spare m < plm_Break (allocated m)" "plm_Break m \<le> plm_Break (allocated m)"
    "Set.insert (spare m) (dom (pl_Nodes (plm_List m))) = Set.insert (spare m) (peers (plm_List m))"
proof -
  note d = management_okD [OF ok]
  have n: "p \<in> dom (pl_Nodes (plm_List m)) \<Longrightarrow> p \<noteq> 0" for p using list_ok_dom(2) [OF d(1)] by metis
  show "spare m \<notin> peers (plm_List m)"
    using d(2,3) d(4) [of "plm_Break m"] by (auto simp: spare_def split: option.splits)
  show "spare m \<noteq> 0" using d(2,5) n by (auto simp: spare_def split: option.splits)
  show "spare m < plm_Break (allocated m)" "plm_Break m \<le> plm_Break (allocated m)"
    using d(2) d(4) by (auto simp: spare_def allocated_def split: option.splits)
  show "Set.insert (spare m) (dom (pl_Nodes (plm_List m))) = Set.insert (spare m) (peers (plm_List m))"
    using d(2) by (auto simp: spare_def split: option.splits)
qed

lemma filled_simps [simp]:
  "peers (filled i f b m) = peers (plm_List m)" "timed (filled i f b m) = timed (plm_List m)"
  "pl_OwnIdentifier (filled i f b m) = pl_OwnIdentifier (plm_List m)"
  "peerAt (filled i f b m) q = (if q = spare m then peerListNodeNew i f b else peerAt (plm_List m) q)"
  "dom (pl_Nodes (filled i f b m)) = Set.insert (spare m) (dom (pl_Nodes (plm_List m)))"
  by (simp_all add: filled_def peerAt_def)

lemma filled_ok: "management_ok m \<Longrightarrow> list_ok (filled i f b m)"
  unfolding filled_def by (rule setPeer_unlinked) (simp_all add: management_okD spare_ok)

lemma filled_addable:
  assumes "management_ok m"
  shows "addable (filled i f b m) i f b = addable (plm_List m) i f b"
proof -
  have "peerAt (filled j f b m) q = peerAt (plm_List m) q" if "q \<in> peers (plm_List m)" for j q
    using that spare_ok(1) [OF assms] by auto
  then show ?thesis by (simp add: addable_def del: filled_simps(4))
qed

text \<open>The management after the node was used, or kept for the next registration.\<close>

lemma used_ok:
  assumes ok: "management_ok m" and pl: "list_ok pl" "peers pl = Set.insert p (peers (plm_List m))"
    "dom (pl_Nodes pl) = Set.insert (spare m) (dom (pl_Nodes (plm_List m)))" "p \<in> peers (plm_List m) \<or> p = spare m"
  shows "management_ok ((withList (allocated m) pl)\<lparr>plm_NewPeerListNode := (if p = spare m then None else Some (spare m))\<rparr>)"
proof -
  note s = spare_ok [OF ok] and d = management_okD [OF ok]
  have "p = spare m \<or> Set.insert p (peers (plm_List m)) = peers (plm_List m)" using pl(4) by (auto simp: insert_absorb)
  moreover have "q < plm_Break (allocated m)" if "q \<in> dom (pl_Nodes pl)" for q
    using that d(4) [of q] s(3,4) unfolding pl(3) by fastforce
  moreover have "0 < plm_Break (allocated m)" using d(5) s(4) by simp
  ultimately show ?thesis using pl(1-4) s(1,5) by (auto simp: management_ok_def)
qed

lemma unused_ok:
  assumes ok: "management_ok m" and pl: "list_ok pl" "peers pl = peers (plm_List m)"
    "dom (pl_Nodes pl) = Set.insert (spare m) (dom (pl_Nodes (plm_List m)))"
  shows "management_ok ((withList (allocated m) pl)\<lparr>plm_NewPeerListNode := Some (spare m)\<rparr>)"
proof -
  note s = spare_ok [OF ok] and d = management_okD [OF ok]
  have "q < plm_Break (allocated m)" if "q \<in> dom (pl_Nodes pl)" for q
    using that d(4) [of q] s(3,4) unfolding pl(3) by fastforce
  moreover have "0 < plm_Break (allocated m)" using d(5) s(4) by simp
  ultimately show ?thesis using pl(1-3) s(1,5) by (auto simp: management_ok_def)
qed

text \<open>The state \<open>m'\<close> is well-formed and of the same registrar.\<close>

definition follows :: "PeerListManagement \<Rightarrow> PeerListManagement \<Rightarrow> bool" where
  "follows m m' \<longleftrightarrow> management_ok m' \<and> pl_OwnIdentifier (plm_List m') = pl_OwnIdentifier (plm_List m) \<and>
     plm_Memory m' = plm_Memory m"

lemma follows_only: "management_ok m' \<Longrightarrow> only p m m' \<Longrightarrow> follows m m'"
  by (simp add: follows_def only_def)

section \<open>Creating or updating a peer\<close>

text \<open>The common part, up to the copy of the address block.\<close>

lemma createOrUpdate_unfold:
  assumes "\<not> (plm_NewPeerListNode m = None \<and> \<not> plm_Memory m)"
  shows "createOrUpdatePeer h i f b now out m =
    bindR (peerListAddOrUpdatePeerListNode (spare m) (filled i f b m)) (\<lambda>(errorCode, r, linked, pl2).
      let m2 = (withList (allocated m) pl2)\<lparr>plm_NewPeerListNode := (if linked then None else Some (spare m))\<rparr> in
      if errorCode \<noteq> RSPERR_OKAY then Inr (errorCode, Some r, m2)
      else
        let p = the r; pl3 = setPeer p (\<lambda>n. n\<lparr>pln_LastUpdateTimeStamp := now\<rparr>) pl2
        in (case transportAddressBlockDuplicate (plm_Memory m2) b of
              Some userTransport \<Rightarrow>
                bindR (refreshChecksum h p (setPeer p (\<lambda>n. n\<lparr>pln_AddressBlock := Some userTransport\<rparr>) pl3)) (\<lambda>pl4.
                Inr (errorCode, Some (Some p), withList m2 pl4))
            | None \<Rightarrow>
                bindR (peerListManagementDeregisterPeerListNodeByPtr p (withList m2 pl3)) (\<lambda>(_, m3).
                Inr (RSPERR_OUT_OF_MEMORY, Some None, m3))))"
proof -
  have c: "(if plm_NewPeerListNode m = None
      then m\<lparr>plm_NewPeerListNode := Some (plm_Break m), plm_Break := plm_Break m + 1\<rparr> else m) = allocated m"
    by (simp add: allocated_def)
  show ?thesis
    unfolding createOrUpdatePeer_def c if_not_P [OF assms] Let_def allocated_simps option.sel filled_def ..
qed

lemma create_own:
  assumes ok: "management_ok m" and own: "pl_OwnIdentifier (plm_List m) \<noteq> 0" "i = pl_OwnIdentifier (plm_List m)"
    and mem: "\<not> (plm_NewPeerListNode m = None \<and> \<not> plm_Memory m)"
  shows "\<exists>m'. createOrUpdatePeer h i f b now out m = Inr (RSPERR_OWN_ID, Some None, m') \<and> follows m m' \<and>
    peers (plm_List m') = peers (plm_List m) \<and> timed (plm_List m') = timed (plm_List m) \<and> (\<forall>q \<in> peers (plm_List m). peerAt (plm_List m') q = peerAt (plm_List m) q)"
proof -
  have "peerListAddOrUpdatePeerListNode (spare m) (filled i f b m) = Inr (RSPERR_OWN_ID, None, False, filled i f b m)"
    using own by (simp add: peerListAddOrUpdatePeerListNode_def peerListAddPeerListNode_def peerListCheckPeerListNodeCompatibility_def)
  then have "createOrUpdatePeer h i f b now out m =
      Inr (RSPERR_OWN_ID, Some None, (withList (allocated m) (filled i f b m))\<lparr>plm_NewPeerListNode := Some (spare m)\<rparr>)"
    using mem by (subst createOrUpdate_unfold) (simp_all add: Let_def)
  moreover have "management_ok ((withList (allocated m) (filled i f b m))\<lparr>plm_NewPeerListNode := Some (spare m)\<rparr>)"
    by (rule unused_ok [OF ok filled_ok [OF ok]]) simp_all
  moreover have "\<forall>q \<in> peers (plm_List m). peerAt (filled i f b m) q = peerAt (plm_List m) q"
    using spare_ok(1) [OF ok] by auto
  ultimately show ?thesis by (intro exI) (auto simp: follows_def)
qed

lemma added_ok:
  assumes ok: "management_ok m" and add: "addable (plm_List m) i f b"
    and own: "pl_OwnIdentifier (plm_List m) \<noteq> 0 \<Longrightarrow> i \<noteq> pl_OwnIdentifier (plm_List m)"
  shows "\<exists>p pl. peerListAddOrUpdatePeerListNode (spare m) (filled i f b m) = Inr (RSPERR_OKAY, Some p, p = spare m, pl) \<and>
    added (filled i f b m) (spare m) i f b p pl"
  by (rule add_or_update_ok [OF filled_ok [OF ok]])
     (use spare_ok(1) [OF ok] own add filled_addable [OF ok, of i f b] in simp_all)

lemma filled_at: "management_ok m \<Longrightarrow> q \<in> peers (plm_List m) \<Longrightarrow> peerAt (filled i f b m) q = peerAt (plm_List m) q"
  using spare_ok(1) by auto

text \<open>The peer after a registration.\<close>

definition registeredPeer ::
  "PoolHandlespaceNode option \<Rightarrow> u32 \<Rightarrow> u32 \<Rightarrow> TransportAddressBlock option \<Rightarrow> u64 \<Rightarrow> PeerListNode option \<Rightarrow> PeerListNode" where
  "registeredPeer h i f b now old = refreshed h ((enteredPeer i f b old)\<lparr>pln_LastUpdateTimeStamp := now, pln_AddressBlock := b\<rparr>)"

lemma create_ok:
  assumes ok: "management_ok m" and add: "addable (plm_List m) i f b"
    and own: "pl_OwnIdentifier (plm_List m) \<noteq> 0 \<Longrightarrow> i \<noteq> pl_OwnIdentifier (plm_List m)"
    and mem: "plm_Memory m" and h: "space_ok h"
  shows "\<exists>p m'. createOrUpdatePeer h i f b now out m = Inr (RSPERR_OKAY, Some (Some p), m') \<and> management_ok m' \<and>
    only p m m' \<and> p \<in> peers (plm_List m') \<and> timed (plm_List m') = timed (plm_List m) \<and>
    pln_Identifier (peerAt (plm_List m') p) = i \<and> (p \<in> peers (plm_List m) \<or> p = spare m) \<and>
    peerAt (plm_List m') p =
      registeredPeer h i f b now (if p \<in> peers (plm_List m) then Some (peerAt (plm_List m) p) else None)"
proof -
  obtain p pl where r: "peerListAddOrUpdatePeerListNode (spare m) (filled i f b m) = Inr (RSPERR_OKAY, Some p, p = spare m, pl)"
    and a: "added (filled i f b m) (spare m) i f b p pl" using added_ok [OF ok add own] by blast
  note d = addedD [OF a]
  obtain t where t: "b = Some t" using addableD(1) [OF add] by (cases b) (simp_all add: inetBlock_def)
  define g :: "PeerListNode \<Rightarrow> PeerListNode" where "g = (\<lambda>n. n\<lparr>pln_LastUpdateTimeStamp := now, pln_AddressBlock := b\<rparr>)"
  have pp: "p \<in> peers pl" using d(2) by simp
  have ok3: "list_ok (setPeer p g pl)"
    by (rule setPeer_ok [OF d(1) pp])
       (use d(9-11) addableD(1,2) [OF add] in \<open>auto simp: g_def sameKey_def static_def\<close>)
  have two: "setPeer p (\<lambda>n. n\<lparr>pln_AddressBlock := b\<rparr>) (setPeer p (\<lambda>n. n\<lparr>pln_LastUpdateTimeStamp := now\<rparr>) pl) = setPeer p g pl"
    by (simp add: setPeer_def g_def peerAt_def)
  have ref: "refreshChecksum h p (setPeer p g pl) = Inr (setPeer p (refreshed h) (setPeer p g pl))"
    by (rule refresh_ok [OF h]) simp
  let ?pl = "setPeer p (refreshed h) (setPeer p g pl)"
  have ok4: "list_ok ?pl"
    by (rule setPeer_ok [OF ok3]) (use pp list_okD(7) [OF ok3, of p] in \<open>simp_all add: sameKey_def block.cmp_refl peer_ok_def\<close>)
  let ?m = "(withList (allocated m) ?pl)\<lparr>plm_NewPeerListNode := (if p = spare m then None else Some (spare m))\<rparr>"
  have dm: "dom (pl_Nodes ?pl) = Set.insert (spare m) (dom (pl_Nodes (plm_List m)))"
    using d(4) list_okD(3) [OF d(1) pp] by auto
  have p: "p \<in> peers (plm_List m) \<or> p = spare m" using d(7) by simp
  have "management_ok ?m" by (rule used_ok [OF ok ok4 _ dm p]) (simp add: d(2))
  moreover have "createOrUpdatePeer h i f b now out m = Inr (RSPERR_OKAY, Some (Some p), ?m)"
    using mem r t two ref by (subst createOrUpdate_unfold) (simp_all add: Let_def transportAddressBlockDuplicate_def)
  moreover have "only p m ?m"
    using d(2,3,5,6) filled_at [OF ok, of _ i f b] unfolding only_def by (simp del: filled_simps(4))
  moreover have "peerAt pl p = enteredPeer i f b (if p \<in> peers (plm_List m) then Some (peerAt (plm_List m) p) else None)"
    using d(8) filled_at [OF ok, of p i f b] by (simp del: filled_simps(4) split: if_splits)
  ultimately show ?thesis using d(2,3,9) p by (intro exI [of _ p] exI [of _ ?m]) (simp add: registeredPeer_def g_def)
qed

lemma create_without_memory:
  assumes ok: "management_ok m" and add: "addable (plm_List m) i f b"
    and own: "pl_OwnIdentifier (plm_List m) \<noteq> 0 \<Longrightarrow> i \<noteq> pl_OwnIdentifier (plm_List m)"
    and mem: "\<not> plm_Memory m"
  shows "\<exists>out' m'. createOrUpdatePeer h i f b now out m = Inr (RSPERR_OUT_OF_MEMORY, out', m') \<and> follows m m'"
proof (cases "plm_NewPeerListNode m = None")
  case True
  then show ?thesis using mem ok by (simp add: createOrUpdatePeer_def follows_def)
next
  case False
  obtain p pl where r: "peerListAddOrUpdatePeerListNode (spare m) (filled i f b m) = Inr (RSPERR_OKAY, Some p, p = spare m, pl)"
    and a: "added (filled i f b m) (spare m) i f b p pl" using added_ok [OF ok add own] by blast
  note d = addedD [OF a]
  let ?pl = "setPeer p (\<lambda>n. n\<lparr>pln_LastUpdateTimeStamp := now\<rparr>) pl"
  have pp: "p \<in> peers pl" using d(2) by simp
  have ok3: "list_ok ?pl"
    by (rule setPeer_ok [OF d(1) pp])
       (use list_okD(7) [OF d(1) pp] in \<open>simp add: sameKey_def static_def block.cmp_refl peer_ok_def\<close>)
  let ?m = "(withList (allocated m) ?pl)\<lparr>plm_NewPeerListNode := (if p = spare m then None else Some (spare m))\<rparr>"
  have dm: "dom (pl_Nodes ?pl) = Set.insert (spare m) (dom (pl_Nodes (plm_List m)))"
    using d(4) list_okD(3) [OF d(1) pp] by auto
  have p: "p \<in> peers (plm_List m) \<or> p = spare m" using d(7) by simp
  have mok: "management_ok ?m" by (rule used_ok [OF ok ok3 _ dm p]) (simp add: d(2))
  have "p \<in> peers (plm_List ?m)" using pp by simp
  from peer_deregister_ok [OF mok this] obtain m'
    where m': "peerListManagementDeregisterPeerListNodeByPtr p ?m = Inr (RSPERR_OKAY, m')" "management_ok m'" "only p ?m m'" by blast
  have "follows m m'" using m'(2,3) d(5) by (simp add: follows_def only_def)
  moreover have dup: "transportAddressBlockDuplicate False b = None"
    by (simp add: transportAddressBlockDuplicate_def split: option.splits)
  moreover have "createOrUpdatePeer h i f b now out m = Inr (RSPERR_OUT_OF_MEMORY, Some None, m')"
    using mem False r m'(1) dup by (subst createOrUpdate_unfold) (simp_all add: Let_def)
  ultimately show ?thesis by blast
qed

section \<open>Updating a static entry\<close>

definition staticEntry :: "PoolHandlespaceNode option \<Rightarrow> u32 \<Rightarrow> PeerListNode \<Rightarrow> PeerListNode" where
  "staticEntry h i n =
     refreshed h (n\<lparr>pln_Identifier := i,
                    pln_Flags := (if pln_Identifier n = 0 then (pln_Flags n AND NOT PLNF_NEW) OR PLNF_NEW
                                  else pln_Flags n AND NOT PLNF_NEW)\<rparr>)"

lemma staticEntry_simps [simp]:
  "pln_Identifier (staticEntry h i n) = i"
  "pln_OwnershipChecksum (staticEntry (Some hs) i n) = checksumOf i hs"
  "pln_AddressBlock (staticEntry h i n) = pln_AddressBlock n"
  "pln_TimerTimeStamp (staticEntry h i n) = pln_TimerTimeStamp n"
  by (simp_all add: staticEntry_def refreshed_def split: option.splits)

text \<open>No two timers run out at the same time.\<close>

definition calm :: "PeerList \<Rightarrow> bool" where
  "calm pl \<longleftrightarrow> inj_on (\<lambda>p. pln_TimerTimeStamp (peerAt pl p)) (timed pl)"

lemma update_peer_ok:
  assumes ok: "list_ok pl" and p: "p \<in> peers pl" "static (peerAt pl p)"
    and i: "i \<noteq> 0" "pl_OwnIdentifier pl \<noteq> 0 \<Longrightarrow> i \<noteq> pl_OwnIdentifier pl"
    and fresh: "\<And>q. pln_Identifier (peerAt pl p) \<noteq> i \<Longrightarrow> q \<in> peers pl \<Longrightarrow> pln_Identifier (peerAt pl q) \<noteq> i"
    and ts: "calm pl"
  shows "\<exists>pl'. peerListUpdatePeerListNode p (peerListNodeNew i (pln_Flags (peerAt pl p)) b) pl = Inr (RSPERR_OKAY, pl') \<and>
    list_ok pl' \<and> peers pl' = peers pl \<and> timed pl' = timed pl \<and> dom (pl_Nodes pl') = dom (pl_Nodes pl) \<and>
    pl_OwnIdentifier pl' = pl_OwnIdentifier pl \<and>
    (\<forall>q. peerAt pl' q = (if q = p then reidentified i (pln_Flags (peerAt pl p)) (peerAt pl p) else peerAt pl q))"
proof -
  let ?src = "peerListNodeNew i (pln_Flags (peerAt pl p)) b"
  let ?g = "\<lambda>n. let n1 = peerListNodeUpdate n ?src in n1\<lparr>pln_Flags := pln_Flags n1 AND NOT PLNF_NEW\<rparr>"
  have chk: "peerListCheckPeerListNodeCompatibility pl ?src = RSPERR_OKAY"
    using i(2) by (auto simp: peerListCheckPeerListNodeCompatibility_def)
  have s: "static (?g n) \<longleftrightarrow> static (peerAt pl p)" for n by (simp add: peerListNodeUpdate_def static_def Let_def)
  have k: "sameKey n (?g n)" if "static n" "inetBlock (pln_AddressBlock n)" for n
    using that s [of n] p(2) by (simp add: sameKey_def peerListNodeUpdate_def block.cmp_refl Let_def)
  have inet: "inetBlock (pln_AddressBlock (peerAt pl p))" using list_okD(7) [OF ok p(1)] by (simp add: peer_ok_def)
  show ?thesis
  proof (cases "pln_Identifier (peerAt pl p) = i")
    case True
    have "peerListUpdatePeerListNode p ?src pl = Inr (RSPERR_OKAY, setPeer p ?g pl)"
      using chk True by (simp add: peerListUpdatePeerListNode_def)
    moreover have "list_ok (setPeer p ?g pl)" by (rule setPeer_ok [OF ok p(1)]) (rule k [OF p(2) inet])
    ultimately show ?thesis using list_okD(3) [OF ok p(1)] True
      by (intro exI [of _ "setPeer p ?g pl"]) (auto simp: reidentified_def peerListNodeUpdate_def Let_def)
  next
    case False
    let ?u = "\<lambda>t. setPeer p (\<lambda>n. n\<lparr>pln_Identifier := i\<rparr>) (pl\<lparr>pl_Index := t\<rparr>)"
    have own: "i \<noteq> pl_OwnIdentifier pl" using i by metis
    have other: "pln_TimerTimeStamp (peerAt pl q) \<noteq> pln_TimerTimeStamp (peerAt pl p)"
      if "p \<in> timed pl" "q \<in> timed pl" "q \<noteq> p" for q
      using ts that unfolding calm_def inj_on_def by blast
    from reidentify_index [OF ok p(1) i(1) own fresh [OF False] other]
    obtain t1 t2 where t: "RedBlackTreeRemove (indexOrder pl) (pl_Index pl) p = Inr t1"
      "RedBlackTreeInsert (indexOrder (?u t1)) t1 p 1 = (p, t2)" "keys t2 = peers pl"
      "list_ok ((?u t1)\<lparr>pl_Index := t2\<rparr>)" by blast
    let ?pl = "(?u t1)\<lparr>pl_Index := t2\<rparr>"
    have "peerListUpdatePeerListNode p ?src pl = Inr (RSPERR_OKAY, setPeer p ?g ?pl)"
      using chk False t(1,2) by (simp add: peerListUpdatePeerListNode_def Let_def)
    moreover have "list_ok (setPeer p ?g ?pl)"
      by (rule setPeer_ok [OF t(4)]) (use t(3) p k inet in \<open>simp_all add: static_def\<close>)
    ultimately show ?thesis using list_okD(3) [OF ok p(1)] t(3)
      by (intro exI [of _ "setPeer p ?g ?pl"]) (auto simp: reidentified_def peerListNodeUpdate_def Let_def)
  qed
qed

lemma setPeer_management:
  assumes ok: "management_ok m" and p: "p \<in> peers (plm_List m)" and k: "sameKey (peerAt (plm_List m) p) (f (peerAt (plm_List m) p))"
  shows "management_ok (withList m (setPeer p f (plm_List m)))"
proof (rule management_same [OF ok setPeer_ok [where f = f, OF management_okD(1) [OF ok] p k]])
  show "dom (pl_Nodes (setPeer p f (plm_List m))) = dom (pl_Nodes (plm_List m))"
    using list_okD(3) [OF management_okD(1) [OF ok] p] by auto
qed simp

lemma refreshed_key: "list_ok pl \<Longrightarrow> p \<in> peers pl \<Longrightarrow> sameKey (peerAt pl p) (refreshed h (peerAt pl p))"
  using list_okD(7) [of pl p] by (simp add: sameKey_def block.cmp_refl peer_ok_def)

lemma new_flag_key: "list_ok pl \<Longrightarrow> p \<in> peers pl \<Longrightarrow>
    sameKey (peerAt pl p) ((peerAt pl p)\<lparr>pln_Flags := pln_Flags (peerAt pl p) OR PLNF_NEW\<rparr>)"
  using list_okD(7) [of pl p] by (simp add: sameKey_def block.cmp_refl peer_ok_def static_def)

lemma update_static_ok:
  assumes ok: "management_ok m" and p: "p \<in> peers (plm_List m)" "static (peerAt (plm_List m) p)"
    and i: "i \<noteq> 0" "pl_OwnIdentifier (plm_List m) \<noteq> 0 \<Longrightarrow> i \<noteq> pl_OwnIdentifier (plm_List m)"
    and fresh: "\<And>q. pln_Identifier (peerAt (plm_List m) p) \<noteq> i \<Longrightarrow> q \<in> peers (plm_List m) \<Longrightarrow>
      pln_Identifier (peerAt (plm_List m) q) \<noteq> i"
    and ts: "calm (plm_List m)" and h: "space_ok h"
  shows "\<exists>m'. updateStaticPeer h i p m = Inr (RSPERR_OKAY, Some (Some p), m') \<and> management_ok m' \<and> only p m m' \<and>
    p \<in> peers (plm_List m') \<and> timed (plm_List m') = timed (plm_List m) \<and>
    peerAt (plm_List m') p = staticEntry h i (peerAt (plm_List m) p)"
proof -
  let ?n = "peerAt (plm_List m) p"
  obtain pl where r: "peerListUpdatePeerListNode p (peerListNodeNew i (pln_Flags ?n) (pln_AddressBlock ?n)) (plm_List m) = Inr (RSPERR_OKAY, pl)"
    "list_ok pl" "peers pl = peers (plm_List m)" "timed pl = timed (plm_List m)" "dom (pl_Nodes pl) = dom (pl_Nodes (plm_List m))"
    "pl_OwnIdentifier pl = pl_OwnIdentifier (plm_List m)"
    and at: "\<forall>q. peerAt pl q = (if q = p then reidentified i (pln_Flags ?n) ?n else peerAt (plm_List m) q)"
    using update_peer_ok [OF management_okD(1) [OF ok] p i fresh ts] by blast
  define pl2 where "pl2 = (if pln_Identifier ?n = 0 then setPeer p (\<lambda>n. n\<lparr>pln_Flags := pln_Flags n OR PLNF_NEW\<rparr>) pl else pl)"
  have pp: "p \<in> peers pl" using r(3) p(1) by simp
  have p2: "list_ok pl2" "peers pl2 = peers (plm_List m)" "timed pl2 = timed (plm_List m)"
    "dom (pl_Nodes pl2) = dom (pl_Nodes (plm_List m))" "pl_OwnIdentifier pl2 = pl_OwnIdentifier (plm_List m)"
    using r(2-6) setPeer_ok [where f = "\<lambda>n. n\<lparr>pln_Flags := pln_Flags n OR PLNF_NEW\<rparr>", OF r(2) pp new_flag_key [OF r(2) pp]] list_okD(3) [OF r(2) pp] by (auto simp: pl2_def)
  have m2: "management_ok (withList m pl2)" by (rule management_same [OF ok p2(1,2,4)])
  have m3: "management_ok (withList m (setPeer p (refreshed h) pl2))"
    using setPeer_management [OF m2, of p "refreshed h"] refreshed_key [OF p2(1), of p h] p(1) p2(2) by simp
  have "updateStaticPeer h i p m = Inr (RSPERR_OKAY, Some (Some p), withList m (setPeer p (refreshed h) pl2))"
    using r(1) refresh_ok [OF h, of p pl2] list_okD(3) [OF p2(1), of p] p(1) p2(2)
    by (simp add: updateStaticPeer_def pl2_def [symmetric])
  moreover have "peerAt (setPeer p (refreshed h) pl2) p = staticEntry h i ?n"
    using at by (simp add: pl2_def staticEntry_def reidentified_def)
  moreover have "only p m (withList m (setPeer p (refreshed h) pl2))"
    using p2 at by (auto simp: only_def pl2_def)
  ultimately show ?thesis using m3 p2(2,3) p(1) by auto
qed

lemma update_static_own:
  assumes ok: "management_ok m" and p: "p \<in> peers (plm_List m)"
    and own: "pl_OwnIdentifier (plm_List m) \<noteq> 0" and h: "space_ok h"
  shows "\<exists>m'. updateStaticPeer h (pl_OwnIdentifier (plm_List m)) p m = Inr (RSPERR_OWN_ID, Some (Some p), m') \<and>
    follows m m' \<and> peers (plm_List m') = peers (plm_List m)"
proof -
  let ?n = "peerAt (plm_List m) p"
  note lok = management_okD(1) [OF ok]
  have r: "peerListUpdatePeerListNode p (peerListNodeNew (pl_OwnIdentifier (plm_List m)) (pln_Flags ?n) (pln_AddressBlock ?n))
      (plm_List m) = Inr (RSPERR_OWN_ID, plm_List m)"
    using own by (simp add: peerListUpdatePeerListNode_def peerListCheckPeerListNodeCompatibility_def)
  define pl2 where "pl2 = (if pln_Identifier ?n = 0 then setPeer p (\<lambda>n. n\<lparr>pln_Flags := pln_Flags n OR PLNF_NEW\<rparr>) (plm_List m) else plm_List m)"
  have p2: "list_ok pl2" "peers pl2 = peers (plm_List m)"
    using lok setPeer_ok [where f = "\<lambda>n. n\<lparr>pln_Flags := pln_Flags n OR PLNF_NEW\<rparr>", OF lok p new_flag_key [OF lok p]] by (simp_all add: pl2_def)
  have m2: "management_ok (withList m pl2)"
    using ok setPeer_management [where f = "\<lambda>n. n\<lparr>pln_Flags := pln_Flags n OR PLNF_NEW\<rparr>", OF ok p new_flag_key [OF lok p]] by (simp add: pl2_def)
  have m3: "management_ok (withList m (setPeer p (refreshed h) pl2))"
    using setPeer_management [OF m2, of p "refreshed h"] refreshed_key [OF p2(1), of p h] p p2(2) by simp
  have "updateStaticPeer h (pl_OwnIdentifier (plm_List m)) p m =
      Inr (RSPERR_OWN_ID, Some (Some p), withList m (setPeer p (refreshed h) pl2))"
    using r refresh_ok [OF h, of p pl2] list_okD(3) [OF p2(1), of p] p p2(2)
    by (simp add: updateStaticPeer_def pl2_def [symmetric])
  then show ?thesis using m3 p2(2) by (auto simp: follows_def pl2_def)
qed

section \<open>Registration\<close>

text \<open>The entry a dynamic registration finds.\<close>

lemma dynamic_search:
  assumes ok: "management_ok m" and i: "i \<noteq> 0" and b: "inetBlock b" and f: "f AND PLNF_DYNAMIC \<noteq> 0"
  obtains p where "p \<in> peers (plm_List m)" "static (peerAt (plm_List m) p)"
      "\<And>q. pln_Identifier (peerAt (plm_List m) p) \<noteq> i \<Longrightarrow> q \<in> peers (plm_List m) \<Longrightarrow> pln_Identifier (peerAt (plm_List m) q) \<noteq> i"
      "\<And>h now. peerListManagementRegisterPeerListNode gl h i f b now m = updateStaticPeer h i p m"
    | out where "addable (plm_List m) i f b"
      "\<And>h now. peerListManagementRegisterPeerListNode gl h i f b now m = createOrUpdatePeer h i f b now (Some out) m"
proof -
  note lok = management_okD(1) [OF ok]
  have add: "addable (plm_List m) i f b"
    if "\<And>q. q \<in> peers (plm_List m) \<Longrightarrow> pln_Identifier (peerAt (plm_List m) q) = i \<Longrightarrow> \<not> static (peerAt (plm_List m) q)"
    using that b f i by (auto simp: addable_def)
  show thesis
  proof (cases "\<exists>p \<in> peers (plm_List m). pln_Identifier (peerAt (plm_List m) p) = i")
    case True
    then obtain p where p: "p \<in> peers (plm_List m)" "pln_Identifier (peerAt (plm_List m) p) = i" by blast
    have u: "q = p" if "q \<in> peers (plm_List m)" "pln_Identifier (peerAt (plm_List m) q) = i" for q
      using identifiers_apart [OF lok p(1) that(1)] p(2) that(2) i by simp
    have r: "peerListManagementRegisterPeerListNode gl h i f b now m =
      (if static (peerAt (plm_List m) p) then updateStaticPeer h i p m else createOrUpdatePeer h i f b now (Some (Some p)) m)" for h now
      using f i find_identifier(1) [OF lok i p, of gl None]
      by (simp add: peerListManagementRegisterPeerListNode_def peerListManagementFindPeerListNode_def static_def)
    show ?thesis
    proof (cases "static (peerAt (plm_List m) p)")
      case True
      then show ?thesis using that(1) [of p] p r by simp
    next
      case False
      then show ?thesis using that(2) [of "Some p"] add u r by metis
    qed
  next
    case False
    have nf: "peerListFindPeerListNode gl i None (plm_List m) = Inr None"
      using find_identifier(2) [OF lok i] False by blast
    obtain r where fr: "peerListFindPeerListNode gl 0 b (plm_List m) = Inr r" "\<And>p. r = Some p \<Longrightarrow> p \<in> peers (plm_List m)"
      using find_address [OF lok, of b gl] b by blast
    have a: "addable (plm_List m) i f b" using add False by blast
    have e: "peerListManagementRegisterPeerListNode gl h i f b now m =
      (case r of None \<Rightarrow> createOrUpdatePeer h i f b now (Some r) m
       | Some p \<Rightarrow> if static (peerAt (plm_List m) p) then updateStaticPeer h i p m
                   else createOrUpdatePeer h i f b now (Some r) m)" for h now
      using f i nf fr(1)
      by (simp add: peerListManagementRegisterPeerListNode_def peerListManagementFindPeerListNode_def static_def split: option.splits)
    show ?thesis
    proof (cases "\<exists>p. r = Some p \<and> static (peerAt (plm_List m) p)")
      case True
      then obtain p where "r = Some p" "static (peerAt (plm_List m) p)" by blast
      then show ?thesis using that(1) [of p] fr(2) [of p] e False by simp
    next
      case no: False
      then show ?thesis using that(2) [of r] a e by (cases r) simp_all
    qed
  qed
qed

text \<open>A dynamic registration with a usable address succeeds, and only the entry of that peer changes.\<close>

lemma register_dynamic:
  assumes ok: "management_ok m" and i: "i \<noteq> 0" "pl_OwnIdentifier (plm_List m) \<noteq> 0 \<Longrightarrow> i \<noteq> pl_OwnIdentifier (plm_List m)"
    and b: "inetBlock b" and f: "f AND PLNF_DYNAMIC \<noteq> 0" and ts: "calm (plm_List m)" and h: "space_ok h" and mem: "plm_Memory m"
  shows "\<exists>p m'. peerListManagementRegisterPeerListNode gl h i f b now m = Inr (RSPERR_OKAY, Some (Some p), m') \<and>
    management_ok m' \<and> only p m m' \<and> p \<in> peers (plm_List m') \<and> timed (plm_List m') = timed (plm_List m) \<and>
    pln_Identifier (peerAt (plm_List m') p) = i \<and>
    (\<forall>hs. h = Some hs \<longrightarrow> pln_OwnershipChecksum (peerAt (plm_List m') p) = checksumOf i hs)"
proof (rule dynamic_search [where gl = gl, OF ok i(1) b f])
  fix p assume static_entry: "p \<in> peers (plm_List m)" "static (peerAt (plm_List m) p)"
      "\<And>q. pln_Identifier (peerAt (plm_List m) p) \<noteq> i \<Longrightarrow> q \<in> peers (plm_List m) \<Longrightarrow> pln_Identifier (peerAt (plm_List m) q) \<noteq> i"
      "\<And>h now. peerListManagementRegisterPeerListNode gl h i f b now m = updateStaticPeer h i p m"
  from update_static_ok [OF ok static_entry(1,2) i static_entry(3) ts h] obtain m'
    where m': "updateStaticPeer h i p m = Inr (RSPERR_OKAY, Some (Some p), m')" "management_ok m'" "only p m m'"
      "p \<in> peers (plm_List m')" "timed (plm_List m') = timed (plm_List m)"
      "peerAt (plm_List m') p = staticEntry h i (peerAt (plm_List m) p)" by blast
  then show ?thesis using static_entry(4) [of h now]
    by (intro exI [of _ p] exI [of _ m']) auto
next
  fix out assume create: "addable (plm_List m) i f b"
      "\<And>h now. peerListManagementRegisterPeerListNode gl h i f b now m = createOrUpdatePeer h i f b now (Some out) m"
  from create_ok [OF ok create(1) i(2) mem h, of now "Some out"] obtain p m'
    where m': "createOrUpdatePeer h i f b now (Some out) m = Inr (RSPERR_OKAY, Some (Some p), m')" "management_ok m'" "only p m m'"
      "p \<in> peers (plm_List m')" "timed (plm_List m') = timed (plm_List m)" "pln_Identifier (peerAt (plm_List m') p) = i"
      "peerAt (plm_List m') p = registeredPeer h i f b now (if p \<in> peers (plm_List m) then Some (peerAt (plm_List m) p) else None)"
    by blast
  have "\<forall>hs. h = Some hs \<longrightarrow> pln_OwnershipChecksum (peerAt (plm_List m') p) = checksumOf i hs"
    using m'(6) unfolding m'(7) by (auto simp: registeredPeer_def refreshed_def)
  then show ?thesis using m' create(2) [of h now] by (intro exI [of _ p] exI [of _ m']) simp
qed

end
