(* ===== verification/RSP_PeerSystem.thy ===== *)
theory RSP_PeerSystem
  imports RSP_PeerEntry
begin

text \<open>
  The peer list as a state machine: the operations of the management as steps, and what holds of
  every state the steps reach from a new management.
\<close>

section \<open>Registration always returns\<close>

lemma create_any:
  assumes ok: "management_ok m" and add: "addable (plm_List m) i f b" and h: "space_ok h"
  shows "\<exists>e r m'. createOrUpdatePeer h i f b now out m = Inr (e, r, m') \<and> follows m m'"
proof (cases "plm_NewPeerListNode m = None \<and> \<not> plm_Memory m")
  case True
  then show ?thesis using ok by (simp add: createOrUpdatePeer_def follows_def)
next
  case usable: False
  show ?thesis
  proof (cases "pl_OwnIdentifier (plm_List m) \<noteq> 0 \<and> i = pl_OwnIdentifier (plm_List m)")
    case True
    then show ?thesis using create_own [OF ok _ _ usable] by blast
  next
    case False
    then have own: "pl_OwnIdentifier (plm_List m) \<noteq> 0 \<Longrightarrow> i \<noteq> pl_OwnIdentifier (plm_List m)" by blast
    show ?thesis
    proof (cases "plm_Memory m")
      case True
      then show ?thesis using create_ok [OF ok add own True h] follows_only by blast
    next
      case False
      then show ?thesis using create_without_memory [OF ok add own False] by blast
    qed
  qed
qed

text \<open>
  A static registration must not use the address of a static entry that has got its identifier.
\<close>

definition staticFree :: "PeerList \<Rightarrow> TransportAddressBlock option \<Rightarrow> bool" where
  "staticFree pl b \<longleftrightarrow> (\<forall>q \<in> peers pl. static (peerAt pl q) \<longrightarrow> blockOrder b (pln_AddressBlock (peerAt pl q)) = 0 \<longrightarrow>
     pln_Identifier (peerAt pl q) = 0)"

lemma static_addable:
  assumes "list_ok pl" "inetBlock b" "staticFree pl b" "f AND PLNF_DYNAMIC = 0"
  shows "addable pl 0 f b"
  using assms(2-4) list_okD(7) [OF assms(1)] unfolding addable_def staticFree_def peer_ok_def by blast

lemma register_any:
  assumes ok: "management_ok m" and b: "inetBlock b" and st: "f AND PLNF_DYNAMIC = 0 \<Longrightarrow> staticFree (plm_List m) b"
    and ts: "f AND PLNF_DYNAMIC \<noteq> 0 \<Longrightarrow> calm (plm_List m)" and h: "space_ok h"
  shows "\<exists>e r m'. peerListManagementRegisterPeerListNode gl h i f b now m = Inr (e, r, m') \<and> follows m m'"
proof (cases "f AND PLNF_DYNAMIC = 0")
  case True
  note add = static_addable [OF management_okD(1) [OF ok] b st [OF True] True]
  show ?thesis using True ok create_any [OF ok add h, of now None]
    by (cases "i = 0") (auto simp: peerListManagementRegisterPeerListNode_def follows_def)
next
  case dyn: False
  show ?thesis
  proof (cases "i = 0")
    case True
    then show ?thesis using dyn ok by (auto simp: peerListManagementRegisterPeerListNode_def follows_def)
  next
    case i: False
    show ?thesis
    proof (rule dynamic_search [where gl = gl, OF ok i b dyn])
      fix p assume p: "p \<in> peers (plm_List m)" "static (peerAt (plm_List m) p)"
        "\<And>q. pln_Identifier (peerAt (plm_List m) p) \<noteq> i \<Longrightarrow> q \<in> peers (plm_List m) \<Longrightarrow> pln_Identifier (peerAt (plm_List m) q) \<noteq> i"
        "\<And>h now. peerListManagementRegisterPeerListNode gl h i f b now m = updateStaticPeer h i p m"
      show ?thesis
      proof (cases "pl_OwnIdentifier (plm_List m) \<noteq> 0 \<and> i = pl_OwnIdentifier (plm_List m)")
        case True
        then show ?thesis using update_static_own [OF ok p(1) _ h] p(4) by metis
      next
        case False
        then show ?thesis using update_static_ok [OF ok p(1,2) i _ p(3) ts [OF dyn] h] p(4) follows_only by metis
      qed
    next
      fix out assume c: "addable (plm_List m) i f b"
        "\<And>h now. peerListManagementRegisterPeerListNode gl h i f b now m = createOrUpdatePeer h i f b now (Some out) m"
      show ?thesis using create_any [OF ok c(1) h] unfolding c(2) by blast
    qed
  qed
qed

section \<open>Timers\<close>

lemma activate_management:
  assumes ok: "management_ok m" and p: "p \<in> peers (plm_List m)" "p \<notin> timed (plm_List m)"
    "pln_Identifier (peerAt (plm_List m) p) \<noteq> 0"
  shows "\<exists>m'. peerListManagementActivateTimer p c ts m = Inr m' \<and> follows m m' \<and> only p m m' \<and>
    peers (plm_List m') = peers (plm_List m) \<and> timed (plm_List m') = Set.insert p (timed (plm_List m)) \<and>
    peerAt (plm_List m') p = (peerAt (plm_List m) p)\<lparr>pln_TimerCode := c, pln_TimerTimeStamp := ts\<rparr>"
proof -
  let ?f = "\<lambda>n. n\<lparr>pln_TimerCode := c, pln_TimerTimeStamp := ts\<rparr>"
  note lok = management_okD(1) [OF ok]
  obtain t where t: "peerListActivateTimer p c ts (plm_List m) = Inr ((setPeer p ?f (plm_List m))\<lparr>pl_Timer := t\<rparr>)"
    "keys t = Set.insert p (timed (plm_List m))" "list_ok ((setPeer p ?f (plm_List m))\<lparr>pl_Timer := t\<rparr>)"
    using peer_activate_ok [OF lok p] by blast
  let ?pl = "(setPeer p ?f (plm_List m))\<lparr>pl_Timer := t\<rparr>"
  have "management_ok (withList m ?pl)"
    by (rule management_same [OF ok t(3)]) (use list_okD(3) [OF lok p(1)] in auto)
  then show ?thesis using t(1,2) p(1)
    by (intro exI [of _ "withList m ?pl"]) (auto simp: peerListManagementActivateTimer_def follows_def only_def)
qed

lemma deactivate_management:
  assumes ok: "management_ok m"
  shows "\<exists>m'. peerListManagementDeactivateTimer p m = Inr m' \<and> follows m m' \<and> only p m m' \<and>
    peers (plm_List m') = peers (plm_List m) \<and> timed (plm_List m') = timed (plm_List m) - {p} \<and>
    peerAt (plm_List m') p = peerAt (plm_List m) p"
proof -
  obtain t where t: "peerListDeactivateTimer p (plm_List m) = Inr ((plm_List m)\<lparr>pl_Timer := t\<rparr>)"
    "keys t = timed (plm_List m) - {p}" "list_ok ((plm_List m)\<lparr>pl_Timer := t\<rparr>)"
    using peer_deactivate_ok [OF management_okD(1) [OF ok]] by blast
  have "management_ok (withList m ((plm_List m)\<lparr>pl_Timer := t\<rparr>))"
    by (rule management_same [OF ok t(3)]) simp_all
  then show ?thesis using t(1,2)
    by (intro exI [of _ "withList m ((plm_List m)\<lparr>pl_Timer := t\<rparr>)"])
       (auto simp: peerListManagementDeactivateTimer_def follows_def only_def)
qed

lemma restart_unfold:
  "peerListManagementRestartPeerListNodeExpiryTimer p expiry m =
     bindR (peerListManagementDeactivateTimer p m) (\<lambda>m1.
     peerListManagementActivateTimer p PLNT_MAX_TIME_NO_RESPONSE (pln_LastUpdateTimeStamp (peerAt (plm_List m1) p) + expiry) m1)"
  by (simp add: peerListManagementRestartPeerListNodeExpiryTimer_def peerListManagementDeactivateTimer_def
      peerListManagementActivateTimer_def bindR_def withList_def split: sum.splits)

lemma restart_timer_ok:
  assumes ok: "management_ok m" and p: "p \<in> peers (plm_List m)" "pln_Identifier (peerAt (plm_List m) p) \<noteq> 0"
  shows "\<exists>m'. peerListManagementRestartPeerListNodeExpiryTimer p expiry m = Inr m' \<and> follows m m' \<and> only p m m' \<and>
    p \<in> timed (plm_List m') \<and> pln_TimerTimeStamp (peerAt (plm_List m') p) = pln_LastUpdateTimeStamp (peerAt (plm_List m) p) + expiry"
proof -
  obtain m1 where m1: "peerListManagementDeactivateTimer p m = Inr m1" "follows m m1" "only p m m1"
    "peers (plm_List m1) = peers (plm_List m)" "timed (plm_List m1) = timed (plm_List m) - {p}"
    "peerAt (plm_List m1) p = peerAt (plm_List m) p" using deactivate_management [OF ok] by blast
  have ok1: "management_ok m1" using m1(2) by (simp add: follows_def)
  have p1: "p \<in> peers (plm_List m1)" "p \<notin> timed (plm_List m1)" "pln_Identifier (peerAt (plm_List m1) p) \<noteq> 0"
    using p m1(4-6) by simp_all
  have activated: "pln_TimerTimeStamp (n\<lparr>pln_TimerCode := c, pln_TimerTimeStamp := ts\<rparr>) = ts" for n c ts by simp
  obtain m2 where m2: "peerListManagementActivateTimer p PLNT_MAX_TIME_NO_RESPONSE
      (pln_LastUpdateTimeStamp (peerAt (plm_List m1) p) + expiry) m1 = Inr m2" "follows m1 m2" "only p m1 m2"
    "timed (plm_List m2) = Set.insert p (timed (plm_List m1))"
    "pln_TimerTimeStamp (peerAt (plm_List m2) p) = pln_LastUpdateTimeStamp (peerAt (plm_List m1) p) + expiry"
    using activate_management [OF ok1 p1] by (metis activated)
  have "peerListManagementRestartPeerListNodeExpiryTimer p expiry m = Inr m2"
    using m1(1) m2(1) by (simp add: restart_unfold)
  moreover have "follows m m2" using m1(2) m2(2) by (simp add: follows_def)
  moreover have "p \<in> timed (plm_List m2)" using m2(4) by simp
  ultimately show ?thesis using only_trans [OF m1(3) m2(3)] m2(5) m1(6) by auto
qed

section \<open>Ownership checksums\<close>

lemma adjust_ok:
  assumes ok: "management_ok m" and i: "i \<noteq> 0"
  shows "\<exists>m'. adjustChecksum gl i g m = Inr m' \<and> follows m m' \<and> peers (plm_List m') = peers (plm_List m) \<and>
    timed (plm_List m') = timed (plm_List m) \<and>
    (\<forall>q \<in> peers (plm_List m). peerAt (plm_List m') q =
       (if pln_Identifier (peerAt (plm_List m) q) = i
        then (peerAt (plm_List m) q)\<lparr>pln_OwnershipChecksum := g (pln_OwnershipChecksum (peerAt (plm_List m) q))\<rparr>
        else peerAt (plm_List m) q))"
proof (cases "\<exists>p \<in> peers (plm_List m). pln_Identifier (peerAt (plm_List m) p) = i")
  case True
  then obtain p where p: "p \<in> peers (plm_List m)" "pln_Identifier (peerAt (plm_List m) p) = i" by blast
  note lok = management_okD(1) [OF ok]
  let ?f = "\<lambda>n. n\<lparr>pln_OwnershipChecksum := g (pln_OwnershipChecksum n)\<rparr>"
  have u: "pln_Identifier (peerAt (plm_List m) q) = i \<longleftrightarrow> q = p" if "q \<in> peers (plm_List m)" for q
    using identifiers_apart [OF lok p(1) that] p(2) i by auto
  have k: "sameKey (peerAt (plm_List m) p) (?f (peerAt (plm_List m) p))"
    using list_okD(7) [OF lok p(1)] by (simp add: sameKey_def block.cmp_refl peer_ok_def static_def)
  show ?thesis
    using find_identifier(1) [OF lok i p, of gl None] setPeer_management [where f = ?f, OF ok p(1) k] u p
    by (intro exI [of _ "withList m (setPeer p ?f (plm_List m))"])
       (simp add: adjustChecksum_def peerListManagementFindPeerListNode_def follows_def)
next
  case False
  then show ?thesis using find_identifier(2) [OF management_okD(1) [OF ok] i, of gl None] ok
    by (intro exI [of _ m]) (auto simp: adjustChecksum_def peerListManagementFindPeerListNode_def follows_def)
qed

end
