(* ===== verification/RSP_Callbacks.thy ===== *)
theory RSP_Callbacks
  imports RSP_PeerSystem
begin

text \<open>
  The handlespace and the peer list together: the notifications that the handlespace sends while
  requests change it keep the ownership checksum of every peer equal to the checksum of the pool
  elements this peer owns.
\<close>

section \<open>Which notifications the operations send\<close>

definition notice :: "peName \<Rightarrow> PoolElementNode \<Rightarrow> PoolNodeUpdateAction \<Rightarrow> u32 \<Rightarrow> u32 \<Rightarrow> Notification" where
  "notice p n action checksum registrar = \<lparr>nt_Handle = fst p, nt_PoolElementNode = n, nt_Action = action,
     nt_PreUpdateChecksum = checksum, nt_PreUpdateHomeRegistrar = registrar\<rparr>"

lemma notifications_simps [simp]:
  "hsn_Notifications (setPool h pn hs) = hsn_Notifications hs" "hsn_Notifications (setElement p f hs) = hsn_Notifications hs"
  "hsn_Notifications (recount r c hs) = hsn_Notifications hs" "hsn_Notifications (snd (poolHandlespaceNodeAddPoolNode pn hs)) = hsn_Notifications hs"
  "hsn_Notifications (notify p n act c r hs) = hsn_Notifications hs @ [notice p n act c r]"
  by (simp_all add: setPool_def setElement_def recount_def poolHandlespaceNodeAddPoolNode_def notify_def notice_def Let_def)

text \<open>The steps that send none.\<close>

lemma bind_InrD: "bindR x f = Inr y \<Longrightarrow> \<exists>a. x = Inr a \<and> f a = Inr y"
  by (cases x) simp_all

lemma check_InrD: "CHECK c f = Inr y \<Longrightarrow> c \<and> f () = Inr y"
  by (simp add: CHECK_def split: if_splits)

lemma quiet_steps:
  "uncount r c hs = Inr hs' \<Longrightarrow> hsn_Notifications hs' = hsn_Notifications hs"
  "changeOwner p r hs = Inr hs' \<Longrightarrow> hsn_Notifications hs' = hsn_Notifications hs"
  "poolHandlespaceNodeUpdateConnectionOfPoolElementNode p sd a hs = Inr hs' \<Longrightarrow> hsn_Notifications hs' = hsn_Notifications hs"
  "poolHandlespaceNodeRemovePoolNode h hs = Inr hs' \<Longrightarrow> hsn_Notifications hs' = hsn_Notifications hs"
  "poolHandlespaceNodeAddPoolElementNode h n hs = Inr (e, res, hs') \<Longrightarrow>
     hsn_Notifications hs' = hsn_Notifications hs \<and> (res \<noteq> Added \<longrightarrow> hs' = hs)"
  by (auto simp: uncount_def changeOwner_def poolHandlespaceNodeUpdateConnectionOfPoolElementNode_def
      poolHandlespaceNodeRemovePoolNode_def poolHandlespaceNodeAddPoolElementNode_def Let_def
      dest!: bind_InrD check_InrD split: if_splits)

text \<open>One notification, about the node as it is afterwards.\<close>

definition tells :: "peName \<Rightarrow> PoolNodeUpdateAction \<Rightarrow> u32 \<Rightarrow> u32 \<Rightarrow> PoolHandlespaceNode \<Rightarrow> PoolHandlespaceNode \<Rightarrow> bool" where
  "tells p action checksum registrar hs hs' \<longleftrightarrow> (\<exists>n. hsn_Notifications hs' = hsn_Notifications hs @ [notice p n action checksum registrar] \<and>
     pen_Checksum n = pen_Checksum (elementAt hs' p) \<and> pen_HomeRegistrarIdentifier n = pen_HomeRegistrarIdentifier (elementAt hs' p))"

lemma update_ownership_tells:
  assumes "poolHandlespaceNodeUpdateOwnershipOfPoolElementNode p r hs = Inr hs'"
  shows "tells p PNUA_Update (pen_Checksum (elementAt hs p)) (pen_HomeRegistrarIdentifier (elementAt hs p)) hs hs'"
proof -
  obtain hs1 hs2 where h: "changeOwner p r hs = Inr hs1"
    "uncount (pen_HomeRegistrarIdentifier (elementAt hs p)) (pen_Checksum (elementAt hs1 p)) hs1 = Inr hs2"
    and e: "let hs3 = setElement p (\<lambda>n. n\<lparr>pen_Checksum := poolElementChecksum hs2 p\<rparr>) hs2;
             hs4 = recount (pen_HomeRegistrarIdentifier (elementAt hs3 p)) (pen_Checksum (elementAt hs3 p)) hs3
         in Inr (notify p (elementAt hs4 p) PNUA_Update (pen_Checksum (elementAt hs p)) (pen_HomeRegistrarIdentifier (elementAt hs p)) hs4) =
      (Inr hs' :: fault + PoolHandlespaceNode)"
    using assms unfolding poolHandlespaceNodeUpdateOwnershipOfPoolElementNode_def Let_def by (blast dest!: bind_InrD)
  show ?thesis using e quiet_steps(2) [OF h(1)] quiet_steps(1) [OF h(2)] by (auto simp: tells_def Let_def)
qed

lemma remove_element_tells:
  assumes "poolHandlespaceNodeRemovePoolElementNode p hs = Inr (n, hs')"
  shows "hsn_Notifications hs' = hsn_Notifications hs @
    [notice p (elementAt hs p) PNUA_Delete (pen_Checksum (elementAt hs p)) (pen_HomeRegistrarIdentifier (elementAt hs p))]"
  using assms by (auto simp: poolHandlespaceNodeRemovePoolElementNode_def Let_def dest!: bind_InrD check_InrD quiet_steps(1))

lemma update_element_tells:
  assumes wf: "hs_wf hs" and p: "p \<in> elements hs" and c: "compatible (poolAt hs (fst p)) source"
    and r: "poolHandlespaceNodeUpdatePoolElementNode p source hs = Inr (RSPERR_OKAY, hs')"
  shows "tells p PNUA_Update (pen_Checksum (elementAt hs p)) (pen_HomeRegistrarIdentifier (elementAt hs p)) hs hs'"
proof -
  let ?pn = "poolAt hs (fst p)"
  let ?n = "snd (poolElementNodeUpdate (elementAt hs p) source)"
  have e: "hsn_PoolNodes hs (fst p) = Some ?pn" "snd p \<in> pool_nodes ?pn" using elements_at [OF p] by blast+
  obtain pn' where u: "poolNodeUpdatePoolElementNode ?pn (snd p) source = Inr (RSPERR_OKAY, pn')" "pool_ok (fst p) pn'"
    "same_pool (modifyNode (snd p) (\<lambda>_. ?n) ?pn) pn'"
    using pool_ok_update [OF pool_ok_at [OF hs_parts(1) [OF wf] p] e(2) c] unfolding elementAt_def by blast
  define hs1 where "hs1 = setPool (fst p) pn' hs"
  have g: "registration (node pn' j) = registration (if j = snd p then ?n else node ?pn j)" for j
    using same_poolD(4) [OF u(3), of j] by simp
  note f = poolElementNodeUpdate_fields [of "elementAt hs p" source]
  have k: "hs_wf hs1" "elements hs1 = elements hs" unfolding hs1_def
    by (rule keeps_pools [OF wf e(1) u(2)];
        use same_poolD(1) [OF u(3)] e(2) registration_eqD [OF g] f in \<open>auto simp: elementAt_def\<close>)+
  have n1: "registration (elementAt hs1 p) = registration ?n" using g [of "snd p"] by (simp add: hs1_def elementAt_setPool)
  have f1: "pen_Checksum (elementAt hs1 p) = pen_Checksum (elementAt hs p)"
    "pen_HomeRegistrarIdentifier (elementAt hs1 p) = pen_HomeRegistrarIdentifier (elementAt hs p)"
    using registration_eqD [OF n1] f by simp_all
  have p1: "p \<in> elements hs1" using k(2) p by simp
  obtain hs2 hs3 where h: "poolHandlespaceNodeUpdateConnectionOfPoolElementNode p (pen_ConnectionSocketDescriptor source) (pen_ConnectionAssocID source) hs1 = Inr hs2"
    "poolHandlespaceNodeUpdateOwnershipOfPoolElementNode p (pen_HomeRegistrarIdentifier source) hs2 = Inr hs3"
    "hs' = setElement p (\<lambda>n. n\<lparr>pen_Flags := pen_Flags n AND NOT PENF_NEW\<rparr>) hs3"
    using r u(1) by (auto simp: poolHandlespaceNodeUpdatePoolElementNode_def Let_def hs1_def dest!: bind_InrD)
  have f2: "pen_Checksum (elementAt hs2 p) = pen_Checksum (elementAt hs p)"
    "pen_HomeRegistrarIdentifier (elementAt hs2 p) = pen_HomeRegistrarIdentifier (elementAt hs p)"
    using update_connection_ok [OF k(1) p1, of "pen_ConnectionSocketDescriptor source" "pen_ConnectionAssocID source"] h(1) f1 by auto
  have "hsn_Notifications hs2 = hsn_Notifications hs" using quiet_steps(3) [OF h(1)] by (simp add: hs1_def)
  then show ?thesis using update_ownership_tells [OF h(2)] f2 by (simp add: tells_def h(3) setElement_view)
qed

lemma enter_tells:
  assumes r: "poolHandlespaceNodeAddOrUpdatePoolElementNode pn n hs = Inr (e, q, np, True, hs')"
  shows "tells (ph_bytes (pn_Handle pn), pen_Identifier n) PNUA_Create INITIAL_HANDLESPACE_CHECKSUM UNDEFINED_REGISTRAR_IDENTIFIER hs hs'"
proof -
  let ?p = "(ph_bytes (pn_Handle pn), pen_Identifier n)"
  obtain np1 hs1 where a: "poolHandlespaceNodeAddPoolNode pn hs = (np1, hs1)" by fastforce
  obtain e1 res hs2 where b: "poolHandlespaceNodeAddPoolElementNode (ph_bytes (pn_Handle pn)) n hs1 = Inr (e1, res, hs2)"
    using r by (auto simp: poolHandlespaceNodeAddOrUpdatePoolElementNode_def a Let_def dest!: bind_InrD)
  have res: "res = Added" and h: "hs' = countIn ?p hs2"
    using r by (cases res; auto simp: poolHandlespaceNodeAddOrUpdatePoolElementNode_def a b Let_def countIn_def split: if_splits dest!: bind_InrD)+
  have "hsn_Notifications hs2 = hsn_Notifications hs"
    using quiet_steps(5) [OF b] notifications_simps(4) [of pn hs] by (simp add: a)
  then show ?thesis by (auto simp: h countIn_def Let_def tells_def setElement_view)
qed

lemma reenter_tells:
  assumes wf: "hs_wf hs" and c: "compatible (targetPool pn hs) n"
  defines "p \<equiv> (ph_bytes (pn_Handle pn), pen_Identifier n)"
  assumes p: "p \<in> elements hs"
    and r: "poolHandlespaceNodeAddOrUpdatePoolElementNode pn n hs = Inr (RSPERR_OKAY, Some p, np, False, hs')"
  shows "tells p PNUA_Update (pen_Checksum (elementAt hs p)) (pen_HomeRegistrarIdentifier (elementAt hs p)) hs hs'"
proof -
  have t: "targetPool pn hs = poolAt hs (fst p)" "fst p \<in> dom (hsn_PoolNodes hs)"
    using known_pool [OF p, of pn] by (simp_all add: p_def)
  have ap: "poolHandlespaceNodeAddPoolNode pn hs = (False, hs)"
    using t(2) find_pool [OF hs_parts(1) [OF wf], of "fst p"] by (simp add: poolHandlespaceNodeAddPoolNode_def Let_def p_def)
  obtain e1 res hs2 where b: "poolHandlespaceNodeAddPoolElementNode (ph_bytes (pn_Handle pn)) n hs = Inr (e1, res, hs2)"
    using r by (auto simp: poolHandlespaceNodeAddOrUpdatePoolElementNode_def ap Let_def dest!: bind_InrD)
  have res: "res = Present" and u: "poolHandlespaceNodeUpdatePoolElementNode p n hs2 = Inr (RSPERR_OKAY, hs')"
    using r by (cases res; auto simp: poolHandlespaceNodeAddOrUpdatePoolElementNode_def ap b Let_def p_def dest!: bind_InrD)+
  have "hs2 = hs" using quiet_steps(5) [OF b] res by simp
  then show ?thesis using update_element_tells [OF wf p] c t(1) u by simp
qed

section \<open>What the notifications add up to\<close>

text \<open>What a notification adds to the checksum of the registrar \<open>r\<close>.\<close>

definition effect :: "Notification \<Rightarrow> u32 \<Rightarrow> u32" where
  "effect nt r =
     (let n = nt_PoolElementNode nt;
          now = (if pen_HomeRegistrarIdentifier n = r then pen_Checksum n else 0)
      in case nt_Action nt of
           PNUA_Create \<Rightarrow> now
         | PNUA_Delete \<Rightarrow> - now
         | PNUA_Update \<Rightarrow> now - (if nt_PreUpdateHomeRegistrar nt = r then nt_PreUpdateChecksum nt else 0))"

definition ledger :: "Notification list \<Rightarrow> u32 \<Rightarrow> u32" where
  "ledger nts r = (\<Sum>nt \<leftarrow> nts. effect nt r)"

lemma ledger_simps [simp]: "ledger [] r = 0" "ledger (nt # nts) r = effect nt r + ledger nts r"
  "ledger (nts @ nts') r = ledger nts r + ledger nts' r"
  by (simp_all add: ledger_def)

definition owners :: "u32 \<Rightarrow> (peName \<Rightarrow> RegistryEntry option) \<Rightarrow> peName set" where
  "owners r R = {p. \<exists>e. R p = Some e \<and> re_HomeRegistrarIdentifier e = r}"

lemma checksum_registry:
  assumes "hs_wf hs" "r \<noteq> 0"
  shows "checksumOf r hs = sum nameChecksum (owners r (registry hs))"
proof -
  have "owners r (registry hs) = {p \<in> elements hs. pen_HomeRegistrarIdentifier (elementAt hs p) = r}"
    by (auto simp: owners_def registry_def entryOf_def)
  then show ?thesis using ownedBy_set(3) [of hs r] assms by (simp add: checksumOf_def hs_wf_struct)
qed

text \<open>The change of one entry.\<close>

definition share :: "peName \<Rightarrow> u32 \<Rightarrow> RegistryEntry option \<Rightarrow> u32" where
  "share p r e = (case e of None \<Rightarrow> 0 | Some x \<Rightarrow> if re_HomeRegistrarIdentifier x = r then nameChecksum p else 0)"

lemma owners_change:
  assumes "finite (dom R)"
  shows "sum nameChecksum (owners r (R(p := e))) = sum nameChecksum (owners r R) + share p r e - share p r (R p)"
proof -
  have fin: "finite (owners r R)" by (rule finite_subset [OF _ assms]) (auto simp: owners_def)
  have s: "sum nameChecksum (owners r R - {p}) = sum nameChecksum (owners r R) - share p r (R p)"
    using fin by (auto simp: share_def owners_def sum_diff1 split: option.splits)
  let ?in = "\<exists>x. e = Some x \<and> re_HomeRegistrarIdentifier x = r"
  have "owners r (R(p := e)) = (if ?in then Set.insert p (owners r R - {p}) else owners r R - {p})" by (auto simp: owners_def)
  then have "sum nameChecksum (owners r (R(p := e))) = sum nameChecksum (owners r R - {p}) + (if ?in then nameChecksum p else 0)"
    using fin sum.insert [of "owners r R - {p}" p nameChecksum] by (auto simp: add.commute simp del: insert_Diff_single)
  moreover have "share p r e = (if ?in then nameChecksum p else 0)" by (auto simp: share_def split: option.splits)
  ultimately show ?thesis using s by simp
qed

lemma checksum_change:
  assumes "hs_wf hs" "hs_wf hs'" "registry hs' = (registry hs)(p := e)" "r \<noteq> 0"
  shows "checksumOf r hs' - checksumOf r hs = share p r e - share p r (registry hs p)"
proof -
  have "finite (dom (registry hs))" using hs_parts(9) [OF assms(1)] by simp
  then show ?thesis using owners_change [of "registry hs" r p e] assms by (simp add: checksum_registry)
qed

lemma tells_effect:
  assumes t: "tells p action c g hs hs'" and wf: "hs_wf hs'" and p: "p \<in> elements hs'"
  obtains nt where "hsn_Notifications hs' = hsn_Notifications hs @ [nt]"
    "\<And>r. action = PNUA_Create \<Longrightarrow> effect nt r = share p r (registry hs' p)"
    "\<And>r. action = PNUA_Update \<Longrightarrow> effect nt r = share p r (registry hs' p) - (if g = r then c else 0)"
proof -
  obtain n where n: "hsn_Notifications hs' = hsn_Notifications hs @ [notice p n action c g]"
    "pen_Checksum n = pen_Checksum (elementAt hs' p)" "pen_HomeRegistrarIdentifier n = pen_HomeRegistrarIdentifier (elementAt hs' p)"
    using t by (auto simp: tells_def)
  have c: "pen_Checksum n = nameChecksum p" using n(2) hs_parts(6) [OF wf] p by (simp add: stamps_def)
  show thesis
    by (rule that [OF n(1)]) (use p n(3) c in \<open>simp_all add: effect_def notice_def share_def registry_def entryOf_def\<close>)
qed

text \<open>What a change of the handlespace tells its listener.\<close>

definition announced :: "PoolHandlespaceNode \<Rightarrow> PoolHandlespaceNode \<Rightarrow> bool" where
  "announced hs hs' \<longleftrightarrow> (\<exists>new. hsn_Notifications hs' = hsn_Notifications hs @ new \<and>
     (\<forall>r. r \<noteq> 0 \<longrightarrow> ledger new r = checksumOf r hs' - checksumOf r hs))"

lemma announced_quiet:
  assumes "hs_wf hs" "hs_wf hs'" "registry hs' = registry hs" "hsn_Notifications hs' = hsn_Notifications hs"
  shows "announced hs hs'"
  using assms by (auto simp: announced_def checksum_registry intro!: exI [of _ "[]"])

lemma announced_trans: "announced hs hs1 \<Longrightarrow> announced hs1 hs2 \<Longrightarrow> announced hs hs2"
  unfolding announced_def by (elim exE conjE, rule exI, rule conjI, simp, simp)

lemma announced_tells:
  assumes wf: "hs_wf hs" "hs_wf hs'" and R: "registry hs' = (registry hs)(p \<mapsto> e)"
    and t: "tells p (if p \<in> elements hs then PNUA_Update else PNUA_Create)
      (if p \<in> elements hs then nameChecksum p else 0) (if p \<in> elements hs then pen_HomeRegistrarIdentifier (elementAt hs p) else 0) hs hs'"
  shows "announced hs hs'"
proof -
  have p: "p \<in> elements hs'" using arg_cong [OF R, of dom] by auto
  obtain nt where nt: "hsn_Notifications hs' = hsn_Notifications hs @ [nt]"
    "\<And>r. p \<notin> elements hs \<Longrightarrow> effect nt r = share p r (registry hs' p)"
    "\<And>r. p \<in> elements hs \<Longrightarrow> effect nt r = share p r (registry hs' p) -
       (if pen_HomeRegistrarIdentifier (elementAt hs p) = r then nameChecksum p else 0)"
    by (rule tells_effect [OF t wf(2) p]) (use that in simp)
  have o: "share p r (registry hs p) = (if p \<in> elements hs then if pen_HomeRegistrarIdentifier (elementAt hs p) = r then nameChecksum p else 0 else 0)" for r
    by (simp add: share_def registry_def entryOf_def)
  have "effect nt r = checksumOf r hs' - checksumOf r hs" if "r \<noteq> 0" for r
    unfolding checksum_change [OF wf R that] o using nt(2,3) R by simp
  then show ?thesis using nt(1) by (auto simp: announced_def intro!: exI [of _ "[nt]"])
qed

section \<open>Requests\<close>

lemma tells_settled: "tells p act c g hs (settled p n now hs1) = tells p act c g hs hs1"
  by (simp add: settled_def tells_def setElement_view)

lemma register_announced:
  assumes wf: "hs_wf (hsm_Handlespace m)" and h: "ph_wf handle" and mem: "hsm_Memory m"
    and pol: "poolPolicyGetPoolPolicyByType (pps_PolicyType pps) = Some policy"
    and c: "compatible (targetPool (requestPool handle policy ut) (hsm_Handlespace m)) (poolElementNodeNew i r life pps (Some ut) rt sd a)"
    and run: "poolHandlespaceManagementRegisterPoolElement handle r i life pps (Some ut) rt sd a now m = Inr (e, q, m')"
  shows "announced (hsm_Handlespace m) (hsm_Handlespace m')"
proof -
  let ?n = "poolElementNodeNew i r life pps (Some ut) rt sd a"
  let ?pn = "requestPool handle policy ut"
  let ?hs = "hsm_Handlespace m"
  let ?p = "(ph_bytes handle, i)"
  have pi: "policy \<in> set PoolPolicyArray" using poolPolicyGetPoolPolicyByType_in [OF pol] by simp
  note s = requestPool_sound [OF h pi, of ut]
  have i: "pen_Identifier ?n = i" by (simp add: poolElementNodeNew_def)
  obtain np ne hs1 where a: "poolHandlespaceNodeAddOrUpdatePoolElementNode ?pn ?n ?hs = Inr (RSPERR_OKAY, Some ?p, np, ne, hs1)"
    "hs_wf (settled ?p ?n now hs1)"
    "registry (settled ?p ?n now hs1) = (registry ?hs)(?p \<mapsto> newEntry (registry ?hs ?p) ?n now)"
    using registered_entry [OF wf s(1) c, of now] unfolding s(2) i by blast
  let ?m = "m\<lparr>hsm_Handlespace := hs1, hsm_NewPoolNode := \<not> np, hsm_NewPoolElementNode := \<not> ne\<rparr>"
  have "poolHandlespaceManagementRegisterPoolElement handle r i life pps (Some ut) rt sd a now m =
      Inr (RSPERR_OKAY, Some ?p, withHandlespace ?m (settled ?p ?n now hs1))"
    using settled_store [of ?m ?p handle ut rt now i r life pps sd a] mem
    by (simp add: register_unfold [OF h pol] a(1))
  then have m': "hsm_Handlespace m' = settled ?p ?n now hs1" using run by (auto simp: withHandlespace_def)
  have "tells ?p (if ?p \<in> elements ?hs then PNUA_Update else PNUA_Create) (if ?p \<in> elements ?hs then nameChecksum ?p else 0)
      (if ?p \<in> elements ?hs then pen_HomeRegistrarIdentifier (elementAt ?hs ?p) else 0) ?hs hs1"
  proof (cases "?p \<in> elements ?hs")
    case True
    then have ne: "ne = False" using add_or_update_known [OF wf c, unfolded s(2) i, OF True] a(1) by auto
    have "pen_Checksum (elementAt ?hs ?p) = nameChecksum ?p" using hs_parts(6) [OF wf] True by (simp add: stamps_def)
    then show ?thesis using reenter_tells [OF wf c, unfolded s(2) i, OF True] a(1) True unfolding ne by auto
  next
    case False
    then have ne: "ne = True" using add_or_update_new [OF wf s(1) c, unfolded s(2) i, OF False] a(1) by auto
    then show ?thesis using enter_tells [OF a(1) [unfolded ne]] False s(2) i by simp
  qed
  then have "tells ?p (if ?p \<in> elements ?hs then PNUA_Update else PNUA_Create) (if ?p \<in> elements ?hs then nameChecksum ?p else 0)
      (if ?p \<in> elements ?hs then pen_HomeRegistrarIdentifier (elementAt ?hs ?p) else 0) ?hs (settled ?p ?n now hs1)"
    unfolding tells_settled .
  then show ?thesis unfolding m' by (rule announced_tells [OF wf a(2,3)])
qed

lemma deregister_announced:
  assumes wf: "hs_wf (hsm_Handlespace m)" and p: "p \<in> elements (hsm_Handlespace m)"
    and run: "poolHandlespaceManagementDeregisterPoolElementByPtr p m = Inr (e, m')"
  shows "announced (hsm_Handlespace m) (hsm_Handlespace m')"
proof -
  let ?hs = "hsm_Handlespace m"
  obtain hs' where d: "poolHandlespaceManagementDeregisterPoolElementByPtr p m = Inr (RSPERR_OKAY, withHandlespace m hs')" "hs_wf hs'"
    "elements hs' = elements ?hs - {p}" "\<forall>q \<in> elements hs'. elementAt hs' q = elementAt ?hs q"
    using deregister_ptr_ok [OF wf p] by blast
  have m': "hsm_Handlespace m' = hs'" using d(1) run by (auto simp: withHandlespace_def)
  let ?nt = "notice p (elementAt ?hs p) PNUA_Delete (pen_Checksum (elementAt ?hs p)) (pen_HomeRegistrarIdentifier (elementAt ?hs p))"
  have n: "hsn_Notifications hs' = hsn_Notifications ?hs @ [?nt]"
    using run unfolding m' [symmetric]
    by (auto simp: poolHandlespaceManagementDeregisterPoolElementByPtr_def Let_def withHandlespace_def
        dest!: bind_InrD remove_element_tells quiet_steps(4) split: if_splits)
  have c: "pen_Checksum (elementAt ?hs p) = nameChecksum p" using hs_parts(6) [OF wf] p by (simp add: stamps_def)
  have R: "registry hs' = (registry ?hs)(p := None)" by (rule deregister_registry [OF d(3,4)])
  have "effect ?nt r = checksumOf r hs' - checksumOf r ?hs" if "r \<noteq> 0" for r
    unfolding checksum_change [OF wf d(2) R that] using p c
    by (simp add: share_def effect_def notice_def registry_def entryOf_def)
  then show ?thesis unfolding m' using n by (auto simp: announced_def intro!: exI [of _ "[?nt]"])
qed

lemma resolve_quiet:
  assumes "poolHandlespaceManagementHandleResolution random handle k inc m = Inr (e, ps, m')"
  shows "hsn_Notifications (hsm_Handlespace m') = hsn_Notifications (hsm_Handlespace m)"
  using assms by (auto simp: poolHandlespaceManagementHandleResolution_def withHandlespace_def
      poolHandlespaceNodeSelectPoolElementNodesByPolicy_def dest!: bind_InrD split: option.splits prod.splits)

text \<open>A registration that does not fit sends nothing.\<close>

lemma rejected_quiet:
  assumes "poolHandlespaceNodeAddOrUpdatePoolElementNode pn n hs = Inr (e, None, np, ne, hs')"
  shows "hsn_Notifications hs' = hsn_Notifications hs"
proof -
  obtain np1 hs1 where a: "poolHandlespaceNodeAddPoolNode pn hs = (np1, hs1)" by fastforce
  have h1: "hsn_Notifications hs1 = hsn_Notifications hs" using notifications_simps(4) [of pn hs] by (simp add: a)
  obtain e1 res hs2 where b: "poolHandlespaceNodeAddPoolElementNode (ph_bytes (pn_Handle pn)) n hs1 = Inr (e1, res, hs2)"
    using assms by (auto simp: poolHandlespaceNodeAddOrUpdatePoolElementNode_def a Let_def dest!: bind_InrD)
  show ?thesis using assms quiet_steps(5) [OF b] h1
    by (cases res) (auto simp: poolHandlespaceNodeAddOrUpdatePoolElementNode_def a b Let_def split: if_splits dest!: bind_InrD quiet_steps(4))
qed

lemma request_announced:
  assumes wf: "hs_wf (hsm_Handlespace m)" and mem: "hsm_Memory m" and ok: "request_ok N rq"
    and N: "card (elements (hsm_Handlespace m)) \<le> N" and run: "runRequest random rq m = Inr (e, m')"
  shows "announced (hsm_Handlespace m) (hsm_Handlespace m')"
proof -
  have s0: "hs_wf (hsm_Handlespace m')" "abstraction (hsm_Handlespace m') = snd (specRequest rq (abstraction (hsm_Handlespace m)))"
    using request_step [OF wf mem ok N, of random] run by auto
  have s: "hs_wf (hsm_Handlespace m')"
    "registry (hsm_Handlespace m') = rg_Entries (snd (specRequest rq (abstraction (hsm_Handlespace m))))"
    using s0(1) arg_cong [OF s0(2), of rg_Entries] by (simp_all add: abstraction_def)
  have quiet: "announced (hsm_Handlespace m) (hsm_Handlespace m')"
    if "registry (hsm_Handlespace m') = registry (hsm_Handlespace m)" "hsn_Notifications (hsm_Handlespace m') = hsn_Notifications (hsm_Handlespace m)"
    by (rule announced_quiet [OF wf s(1) that])
  show ?thesis
  proof (cases rq)
    case (RegisterRequest handle r i life pps ut rt sd a now)
    obtain q where r: "poolHandlespaceManagementRegisterPoolElement handle r i life pps (Some ut) rt sd a now m = Inr (e, q, m')"
      using run RegisterRequest by (auto dest!: bind_InrD)
    show ?thesis
    proof (cases "ph_wf handle \<and> poolPolicyGetPoolPolicyByType (pps_PolicyType pps) \<noteq> None")
      case False
      then have "m' = m" using r ok RegisterRequest by (auto simp: poolHandlespaceManagementRegisterPoolElement_def split: if_splits)
      then show ?thesis using quiet by simp
    next
      case True
      then obtain policy where h: "ph_wf handle" and pol: "poolPolicyGetPoolPolicyByType (pps_PolicyType pps) = Some policy" by blast
      let ?n = "poolElementNodeNew i r life pps (Some ut) rt sd a"
      let ?pn = "targetPool (requestPool handle policy ut) (hsm_Handlespace m)"
      obtain c where c: "poolNodeCheckPoolElementNodeCompatibility ?pn ?n = Inr c" using check_returns by blast
      show ?thesis
      proof (cases "c = RSPERR_OKAY")
        case True
        then have "compatible ?pn ?n" using c by (simp add: compatible_def)
        then show ?thesis by (rule register_announced [OF wf h mem pol _ r])
      next
        case False
        from register_rejected [OF wf h mem pol c False, of now] r
        have m': "e = c" "q = None" "hsn_PoolNodes (hsm_Handlespace m') = hsn_PoolNodes (hsm_Handlespace m)" by auto
        have "hsn_Notifications (hsm_Handlespace m') = hsn_Notifications (hsm_Handlespace m)"
        proof -
          have "policy \<in> set PoolPolicyArray" using poolPolicyGetPoolPolicyByType_in [OF pol] by simp
          from add_or_update_rejected [OF wf requestPool_sound(1) [OF h this] c False] obtain hs' where
            a: "poolHandlespaceNodeAddOrUpdatePoolElementNode (requestPool handle policy ut) ?n (hsm_Handlespace m) = Inr (c, None, False, False, hs')" by blast
          have "hsm_Handlespace m' = hs'" using r False mem by (auto simp: register_unfold [OF h pol] a)
          then show ?thesis using rejected_quiet [OF a] by simp
        qed
        moreover have "registry (hsm_Handlespace m') = registry (hsm_Handlespace m)"
          using elements_cong [OF m'(3)] elementAt_cong [OF m'(3)] by (simp add: registry_def fun_eq_iff)
        ultimately show ?thesis using quiet by blast
      qed
    qed
  next
    case (DeregisterRequest handle i)
    then have f: "poolHandlespaceNodeFindPoolElementNode (hsm_Handlespace m) handle i =
        Inr (if (ph_bytes handle, i) \<in> elements (hsm_Handlespace m) then Some (ph_bytes handle, i) else None)"
      using ok find_element_ok [OF hs_parts(1) [OF wf], of handle i] by simp
    show ?thesis
    proof (cases "(ph_bytes handle, i) \<in> elements (hsm_Handlespace m)")
      case True
      then show ?thesis using deregister_announced [OF wf True] run f DeregisterRequest
        by (simp add: poolHandlespaceManagementDeregisterPoolElement_def)
    next
      case False
      then have "m' = m" using run f DeregisterRequest by (simp add: poolHandlespaceManagementDeregisterPoolElement_def)
      then show ?thesis using quiet by simp
    qed
  next
    case (ResolveRequest handle k inc)
    have "hsn_Notifications (hsm_Handlespace m') = hsn_Notifications (hsm_Handlespace m)"
      using run ResolveRequest by (auto dest!: bind_InrD resolve_quiet)
    moreover have "registry (hsm_Handlespace m') = registry (hsm_Handlespace m)"
      using s(2) ResolveRequest by (simp add: abstraction_def)
    ultimately show ?thesis using quiet by blast
  qed
qed

lemma requests_announced:
  assumes "hs_wf (hsm_Handlespace m)" "hsm_Memory m" "\<forall>rq \<in> set rqs. request_ok N rq"
    "card (elements (hsm_Handlespace m)) + length rqs \<le> N" "runRequests random rqs m = Inr (es, m')"
  shows "announced (hsm_Handlespace m) (hsm_Handlespace m')"
  using assms
proof (induction rqs arbitrary: m es)
  case Nil
  then show ?case using announced_quiet by simp
next
  case (Cons rq rqs)
  have c: "request_ok N rq" "card (elements (hsm_Handlespace m)) \<le> N" using Cons.prems(3,4) by simp_all
  obtain e m1 es1 where r: "runRequest random rq m = Inr (e, m1)" "runRequests random rqs m1 = Inr (es1, m')"
    using Cons.prems(5) by (auto dest!: bind_InrD)
  have 1: "hs_wf (hsm_Handlespace m1)" "hsm_Memory m1" "card (elements (hsm_Handlespace m1)) \<le> Suc (card (elements (hsm_Handlespace m)))"
    using request_step [OF Cons.prems(1,2) c, of random] r(1) by auto
  have "announced (hsm_Handlespace m1) (hsm_Handlespace m')"
    by (rule Cons.IH [OF 1(1,2) _ _ r(2)]) (use Cons.prems(3,4) 1(3) in simp_all)
  then show ?case using announced_trans request_announced [OF Cons.prems(1,2) c r(1)] by blast
qed

section \<open>The peers\<close>

primrec notifyPeers :: "nat \<Rightarrow> Notification list \<Rightarrow> PeerListManagement \<Rightarrow> fault + PeerListManagement" where
  "notifyPeers gl [] m = Inr m"
| "notifyPeers gl (nt # nts) m = bindR (peerListManagementPoolNodeUpdateNotification gl nt m) (notifyPeers gl nts)"

text \<open>The peers after a change \<open>g\<close> of the checksums of those that have an identifier.\<close>

definition shifted :: "(u32 \<Rightarrow> u32) \<Rightarrow> PeerListManagement \<Rightarrow> PeerListManagement \<Rightarrow> bool" where
  "shifted g m m' \<longleftrightarrow> follows m m' \<and> peers (plm_List m') = peers (plm_List m) \<and> timed (plm_List m') = timed (plm_List m) \<and>
     (\<forall>q \<in> peers (plm_List m). pln_Identifier (peerAt (plm_List m) q) \<noteq> 0 \<longrightarrow> peerAt (plm_List m') q =
        (peerAt (plm_List m) q)\<lparr>pln_OwnershipChecksum := pln_OwnershipChecksum (peerAt (plm_List m) q) + g (pln_Identifier (peerAt (plm_List m) q))\<rparr>) \<and>
     (\<forall>q \<in> peers (plm_List m). pln_Identifier (peerAt (plm_List m) q) = 0 \<longrightarrow> peerAt (plm_List m') q = peerAt (plm_List m) q)"

lemma shifted_trans: "shifted g m m1 \<Longrightarrow> shifted g' m1 m2 \<Longrightarrow> shifted (\<lambda>i. g i + g' i) m m2"
  by (auto simp: shifted_def follows_def add.assoc)

lemma adjust_shifted:
  assumes ok: "management_ok m"
  shows "\<exists>m'. adjustChecksum gl i (\<lambda>c. c + d) m = Inr m' \<and> shifted (\<lambda>j. if j = i then d else 0) m m'"
proof (cases "i = 0")
  case True
  have "peerListFindPeerListNode gl 0 None (plm_List m) = Inr None" using find_address [OF management_okD(1) [OF ok], of None gl] by auto
  then show ?thesis using True ok
    by (intro exI [of _ m]) (simp add: adjustChecksum_def peerListManagementFindPeerListNode_def shifted_def follows_def)
next
  case False
  then show ?thesis using adjust_ok [OF ok False, of gl "\<lambda>c. c + d"] by (auto simp: shifted_def)
qed

lemma notification_shifted:
  assumes ok: "management_ok m"
  shows "\<exists>m'. peerListManagementPoolNodeUpdateNotification gl nt m = Inr m' \<and> shifted (effect nt) m m'"
proof -
  let ?n = "nt_PoolElementNode nt"
  let ?r = "pen_HomeRegistrarIdentifier ?n"
  have sub: "adjustChecksum gl i (\<lambda>c. handlespaceChecksumSub c d) = adjustChecksum gl i (\<lambda>c. c + (- d))" for i d
    by (simp add: handlespaceChecksumSub_def)
  have add: "adjustChecksum gl i (\<lambda>c. handlespaceChecksumAdd c d) = adjustChecksum gl i (\<lambda>c. c + d)" for i d
    by (simp add: handlespaceChecksumAdd_def)
  show ?thesis
  proof (cases "nt_Action nt")
    case PNUA_Create
    then have e: "effect nt = (\<lambda>j. if j = ?r then pen_Checksum ?n else 0)" by (auto simp: effect_def fun_eq_iff)
    show ?thesis unfolding e using adjust_shifted [OF ok, of gl ?r "pen_Checksum ?n"] PNUA_Create
      by (simp add: peerListManagementPoolNodeUpdateNotification_def add Let_def)
  next
    case PNUA_Delete
    then have e: "effect nt = (\<lambda>j. if j = ?r then - pen_Checksum ?n else 0)" by (auto simp: effect_def fun_eq_iff)
    show ?thesis unfolding e using adjust_shifted [OF ok, of gl ?r "- pen_Checksum ?n"] PNUA_Delete
      by (simp add: peerListManagementPoolNodeUpdateNotification_def sub Let_def)
  next
    case PNUA_Update
    obtain m1 where 1: "adjustChecksum gl (nt_PreUpdateHomeRegistrar nt) (\<lambda>c. c + (- nt_PreUpdateChecksum nt)) m = Inr m1"
      "shifted (\<lambda>j. if j = nt_PreUpdateHomeRegistrar nt then - nt_PreUpdateChecksum nt else 0) m m1"
      using adjust_shifted [OF ok] by blast
    have "management_ok m1" using 1(2) by (simp add: shifted_def follows_def)
    from adjust_shifted [OF this] obtain m2 where 2: "adjustChecksum gl ?r (\<lambda>c. c + pen_Checksum ?n) m1 = Inr m2"
      "shifted (\<lambda>j. if j = ?r then pen_Checksum ?n else 0) m1 m2" by blast
    have e: "effect nt = (\<lambda>j. (if j = nt_PreUpdateHomeRegistrar nt then - nt_PreUpdateChecksum nt else 0) + (if j = ?r then pen_Checksum ?n else 0))"
      using PNUA_Update by (auto simp: effect_def fun_eq_iff)
    show ?thesis using 1(1) 2(1) shifted_trans [OF 1(2) 2(2)] PNUA_Update
      by (simp add: peerListManagementPoolNodeUpdateNotification_def sub add e Let_def)
  qed
qed

lemma notify_peers:
  assumes "management_ok m"
  shows "\<exists>m'. notifyPeers gl nts m = Inr m' \<and> shifted (ledger nts) m m'"
  using assms
proof (induction nts arbitrary: m)
  case Nil
  then show ?case by (simp add: shifted_def follows_def)
next
  case (Cons nt nts)
  obtain m1 where 1: "peerListManagementPoolNodeUpdateNotification gl nt m = Inr m1" "shifted (effect nt) m m1"
    using notification_shifted [OF Cons.prems] by blast
  have "management_ok m1" using 1(2) by (simp add: shifted_def follows_def)
  from Cons.IH [OF this] obtain m2 where 2: "notifyPeers gl nts m1 = Inr m2" "shifted (ledger nts) m1 m2" by blast
  have "ledger (nt # nts) = (\<lambda>r. effect nt r + ledger nts r)" by (simp add: fun_eq_iff)
  then show ?case using 1(1) 2(1) shifted_trans [OF 1(2) 2(2)] by simp
qed

section \<open>Peers that know the handlespace\<close>

definition synchronised :: "PoolHandlespaceNode \<Rightarrow> PeerListManagement \<Rightarrow> bool" where
  "synchronised hs m \<longleftrightarrow> (\<forall>p \<in> peers (plm_List m). pln_Identifier (peerAt (plm_List m) p) \<noteq> 0 \<longrightarrow>
     pln_OwnershipChecksum (peerAt (plm_List m) p) = checksumOf (pln_Identifier (peerAt (plm_List m) p)) hs)"

lemma verify_checksums:
  assumes "hs_wf hs" "\<And>p. p \<in> set ps \<Longrightarrow> pln_Identifier (peerAt pl p) \<noteq> 0 \<Longrightarrow>
    pln_OwnershipChecksum (peerAt pl p) = checksumOf (pln_Identifier (peerAt pl p)) hs"
  shows "verifyChecksums hs pl ps = Inr ()"
  using assms(2) by (induction ps) (simp_all add: compute_checksum [OF assms(1)])

lemma synchronised_verify:
  assumes "hs_wf hs" "management_ok m" "synchronised hs m"
  shows "peerListManagementVerifyChecksumsInHandlespace hs m = Inr ()"
  unfolding peerListManagementVerifyChecksumsInHandlespace_def
  by (rule verify_checksums [OF assms(1)])
     (use assms(3) peersByIndex_set [OF management_okD(1) [OF assms(2)]] in \<open>simp add: synchronised_def\<close>)

lemma announced_synchronised:
  assumes "management_ok m" "synchronised hs m" "announced hs hs'"
  shows "\<exists>m'. notifyPeers gl (drop (length (hsn_Notifications hs)) (hsn_Notifications hs')) m = Inr m' \<and>
    management_ok m' \<and> peers (plm_List m') = peers (plm_List m) \<and> synchronised hs' m'"
proof -
  obtain new where new: "hsn_Notifications hs' = hsn_Notifications hs @ new"
    "\<And>r. r \<noteq> 0 \<Longrightarrow> ledger new r = checksumOf r hs' - checksumOf r hs" using assms(3) unfolding announced_def by blast
  from notify_peers [OF assms(1), of gl new] obtain m' where m': "notifyPeers gl new m = Inr m'" "shifted (ledger new) m m'" by blast
  then show ?thesis using assms(2) new(2) by (auto simp: new(1) shifted_def follows_def synchronised_def)
qed

end
