(* ===== verification/RSP_PoolUsers.thy ===== *)
theory RSP_PoolUsers
  imports RSP_KeyStorage
begin

text \<open>
  Pool users and the rate of their requests: the hash table of time stamps
  (timestamphashtable.c), the pool user nodes and their list (poolusernode-template_impl.h,
  pooluserlist-template_impl.h) and the hash of a pool handle (poolhandlespacemanagement-basics.c).
  A node is named by its key, association and socket. A rate is \<open>None\<close> for the infinity that the
  division by a duration of 0 gives.
\<close>

unbundle bit_operations_syntax

section \<open>Time stamps\<close>

record TimeStampHashTable =
  th_Buckets :: nat
  th_MaxEntries :: nat
  th_BucketArray :: "u64 list list"

definition timeStampHashTableClear :: "TimeStampHashTable \<Rightarrow> TimeStampHashTable" where
  "timeStampHashTableClear t = t\<lparr>th_BucketArray := replicate (th_Buckets t) []\<rparr>"

definition timeStampHashTableNew :: "bool \<Rightarrow> nat \<Rightarrow> nat \<Rightarrow> TimeStampHashTable option" where
  "timeStampHashTableNew mem buckets maxEntries =
     (if buckets < 1 \<or> maxEntries < 1 then None
      else if mem
      then Some (timeStampHashTableClear \<lparr>th_Buckets = buckets, th_MaxEntries = maxEntries, th_BucketArray = []\<rparr>)
      else None)"

definition timeStampHashTableAddTimeStamp :: "TimeStampHashTable \<Rightarrow> u32 \<Rightarrow> u64 \<Rightarrow> bool \<times> TimeStampHashTable" where
  "timeStampHashTableAddTimeStamp t hashValue newTimeStamp =
     (let bucket = unat hashValue mod th_Buckets t;
          stamps = th_BucketArray t ! bucket;
          store = (\<lambda>stamps. t\<lparr>th_BucketArray := (th_BucketArray t)[bucket := stamps]\<rparr>)
      in if length stamps < th_MaxEntries t then
           if stamps = [] \<or> stamps ! (length stamps - 1) \<le> newTimeStamp
           then (True, store (stamps @ [newTimeStamp]))
           else (False, t)
         else
           if stamps ! (length stamps - 1) \<le> newTimeStamp
           then (True, store (tl stamps @ [newTimeStamp]))
           else (False, t))"

definition timeStampHashTableGetRate :: "TimeStampHashTable \<Rightarrow> u32 \<Rightarrow> rat option" where
  "timeStampHashTableGetRate t hashValue =
     (let stamps = th_BucketArray t ! (unat hashValue mod th_Buckets t) in
      if length stamps > 1 then
        let duration = stamps ! (length stamps - 1) - stamps ! 0;
            seconds = double (double (of_int (uint duration)) / 1000000)
        in if seconds = 0 then None else Some (double (double (of_nat (length stamps)) / seconds))
      else Some 0)"

section \<open>The hash of a pool handle\<close>

definition of_he32 :: "byte list \<Rightarrow> u32" where
  "of_he32 bs = of_be (rev (take 4 (bs @ replicate 4 0)))"

function hashWords :: "byte list \<Rightarrow> u32 \<Rightarrow> u32" where
  "hashWords bs hash =
     (if length bs \<ge> 4 then hashWords (drop 4 bs) (hash XOR of_he32 (take 4 bs))
      else if length bs > 0 then hash XOR of_he32 bs
      else hash)"
  by pat_completeness auto
termination by (relation "measure (\<lambda>(bs, hash). length bs)") auto

declare hashWords.simps [simp del]

definition computePHPEHash :: "PoolHandle \<Rightarrow> u32 \<Rightarrow> u32" where
  "computePHPEHash poolHandle identifier = hashWords (ph_bytes poolHandle) 0 XOR identifier"

section \<open>Pool users\<close>

record PoolUserNode =
  pun_ConnectionSocketDescriptor :: int
  pun_ConnectionAssocID :: u32
  pun_HandleResolutionHash :: "TimeStampHashTable option"
  pun_EndpointUnreachableHash :: "TimeStampHashTable option"

type_synonym poolUserName = "u32 \<times> int"

definition poolUserStorageNodeComparison :: "poolUserName \<Rightarrow> poolUserName \<Rightarrow> int" where
  "poolUserStorageNodeComparison node1 node2 =
     (if fst node1 < fst node2 then -1
      else if fst node1 > fst node2 then 1
      else if snd node1 < snd node2 then -1
      else if snd node1 > snd node2 then 1
      else 0)"

definition poolUserNodeNew :: "int \<Rightarrow> u32 \<Rightarrow> PoolUserNode" where
  "poolUserNodeNew connectionSocketDescriptor connectionAssocID =
     \<lparr>pun_ConnectionSocketDescriptor = connectionSocketDescriptor, pun_ConnectionAssocID = connectionAssocID,
      pun_HandleResolutionHash = None, pun_EndpointUnreachableHash = None\<rparr>"

text \<open>The result is the rate and the node; 9e9 when there is no memory for the table.\<close>

definition noteTimeStamp ::
  "bool \<Rightarrow> TimeStampHashTable option \<Rightarrow> u32 \<Rightarrow> u64 \<Rightarrow> nat \<Rightarrow> nat \<Rightarrow> rat option \<times> TimeStampHashTable option" where
  "noteTimeStamp mem table hash now buckets maxEntries =
     (case (case table of None \<Rightarrow> timeStampHashTableNew mem buckets maxEntries | Some t \<Rightarrow> Some t) of
        None \<Rightarrow> (Some 9000000000, None)
      | Some t \<Rightarrow>
          let t1 = snd (timeStampHashTableAddTimeStamp t hash now)
          in (timeStampHashTableGetRate t1 hash, Some t1))"

definition poolUserNodeNoteHandleResolution ::
  "bool \<Rightarrow> PoolHandle \<Rightarrow> u64 \<Rightarrow> nat \<Rightarrow> nat \<Rightarrow> PoolUserNode \<Rightarrow> rat option \<times> PoolUserNode" where
  "poolUserNodeNoteHandleResolution mem poolHandle now buckets maxEntries n =
     (case noteTimeStamp mem (pun_HandleResolutionHash n) (computePHPEHash poolHandle 0) now buckets maxEntries of
        (rate, t) \<Rightarrow> (rate, n\<lparr>pun_HandleResolutionHash := t\<rparr>))"

definition poolUserNodeNoteEndpointUnreachable ::
  "bool \<Rightarrow> PoolHandle \<Rightarrow> u32 \<Rightarrow> u64 \<Rightarrow> nat \<Rightarrow> nat \<Rightarrow> PoolUserNode \<Rightarrow> rat option \<times> PoolUserNode" where
  "poolUserNodeNoteEndpointUnreachable mem poolHandle peIdentifier now buckets maxEntries n =
     (case noteTimeStamp mem (pun_EndpointUnreachableHash n) (computePHPEHash poolHandle peIdentifier) now buckets maxEntries of
        (rate, t) \<Rightarrow> (rate, n\<lparr>pun_EndpointUnreachableHash := t\<rparr>))"

record PoolUserList =
  pul_Storage :: "poolUserName RedBlackTree"
  pul_Nodes :: "poolUserName \<Rightarrow> PoolUserNode option"

definition poolUserListNew :: PoolUserList where
  "poolUserListNew = \<lparr>pul_Storage = RedBlackTreeNew, pul_Nodes = (\<lambda>_. None)\<rparr>"

definition poolUserListGetPoolUserNodes :: "PoolUserList \<Rightarrow> nat" where
  "poolUserListGetPoolUserNodes pul = RedBlackTreeGetElements (pul_Storage pul)"

definition poolUserListGetFirstPoolUserNode :: "PoolUserList \<Rightarrow> poolUserName option" where
  "poolUserListGetFirstPoolUserNode pul = RedBlackTreeGetFirst (pul_Storage pul)"

definition poolUserListGetNextPoolUserNode :: "PoolUserList \<Rightarrow> poolUserName \<Rightarrow> poolUserName option" where
  "poolUserListGetNextPoolUserNode pul u = RedBlackTreeGetNext poolUserStorageNodeComparison (pul_Storage pul) u"

definition poolUserListVerify :: "PoolUserList \<Rightarrow> fault + unit" where
  "poolUserListVerify pul = RedBlackTreeVerify poolUserStorageNodeComparison (pul_Storage pul)"

text \<open>The node that is in the list afterwards, the new one or one that has been there before.\<close>

definition poolUserListAddPoolUserNode :: "PoolUserNode \<Rightarrow> PoolUserList \<Rightarrow> poolUserName \<times> bool \<times> PoolUserList" where
  "poolUserListAddPoolUserNode n pul =
     (let u = (pun_ConnectionAssocID n, pun_ConnectionSocketDescriptor n);
          isNew = (RedBlackTreeFind poolUserStorageNodeComparison (pul_Storage pul) u = None)
      in case RedBlackTreeInsert poolUserStorageNodeComparison (pul_Storage pul) u 1 of
           (result, tree1) \<Rightarrow>
             (result, isNew, if isNew then \<lparr>pul_Storage = tree1, pul_Nodes = (pul_Nodes pul)(u \<mapsto> n)\<rparr> else pul))"

definition poolUserListFindPoolUserNode :: "PoolUserList \<Rightarrow> int \<Rightarrow> u32 \<Rightarrow> poolUserName option" where
  "poolUserListFindPoolUserNode pul sd assocID =
     RedBlackTreeFind poolUserStorageNodeComparison (pul_Storage pul) (assocID, sd)"

definition poolUserListRemovePoolUserNode :: "poolUserName \<Rightarrow> PoolUserList \<Rightarrow> fault + PoolUserList" where
  "poolUserListRemovePoolUserNode u pul =
     bindR (RedBlackTreeRemove poolUserStorageNodeComparison (pul_Storage pul) u) (\<lambda>tree1.
       Inr \<lparr>pul_Storage = tree1, pul_Nodes = (pul_Nodes pul)(u := None)\<rparr>)"

primrec clearUsers :: "nat \<Rightarrow> PoolUserList \<Rightarrow> fault + PoolUserList" where
  "clearUsers 0 pul = (if poolUserListGetFirstPoolUserNode pul = None then Inr pul else Inl NoFuel)"
| "clearUsers (Suc k) pul =
     (case poolUserListGetFirstPoolUserNode pul of
        None \<Rightarrow> Inr pul
      | Some u \<Rightarrow> bindR (poolUserListRemovePoolUserNode u pul) (clearUsers k))"

definition poolUserListClear :: "PoolUserList \<Rightarrow> fault + PoolUserList" where
  "poolUserListClear pul = clearUsers (poolUserListGetPoolUserNodes pul) pul"

section \<open>The list of pool users\<close>

lemma pool_users_key_storage: "key_storage poolUserStorageNodeComparison"
proof -
  have e: "poolUserStorageNodeComparison =
      (\<lambda>p q. cmp_key (fst p) (fst q) ((\<lambda>p q. cmp_key (p :: int) q 0) (snd p) (snd q)))"
    by (intro ext) (auto simp: poolUserStorageNodeComparison_def cmp_key_def)
  have "key_storage (\<lambda>p q. cmp_key (p :: int) q 0)"
    by unfold_locales (auto simp: cmp_key_def split: if_splits)
  then show ?thesis unfolding e by (rule key_storage_then)
qed

interpretation pool_users: key_storage poolUserStorageNodeComparison
  by (rule pool_users_key_storage)

text \<open>A list is well-formed when the tree links exactly the nodes there are, each under its own name.\<close>

definition pul_wf :: "PoolUserList \<Rightarrow> bool" where
  "pul_wf pul \<longleftrightarrow> rbt_wf poolUserStorageNodeComparison (pul_Storage pul) \<and> keys (pul_Storage pul) = dom (pul_Nodes pul) \<and>
     (\<forall>u n. pul_Nodes pul u = Some n \<longrightarrow> u = (pun_ConnectionAssocID n, pun_ConnectionSocketDescriptor n))"

lemma list_new_wf: "pul_wf poolUserListNew"
  by (simp add: pul_wf_def poolUserListNew_def pool_users.rbt.empty_inv keys_def pool_users.rbt.empty_items)

lemma find_user:
  "pul_wf pul \<Longrightarrow> poolUserListFindPoolUserNode pul sd a = (if pul_Nodes pul (a, sd) = None then None else Some (a, sd))"
  by (auto simp: pul_wf_def poolUserListFindPoolUserNode_def pool_users.find_key)

lemma add_user:
  assumes "pul_wf pul" "u = (pun_ConnectionAssocID n, pun_ConnectionSocketDescriptor n)"
  shows "\<exists>pul'. poolUserListAddPoolUserNode n pul = (u, pul_Nodes pul u = None, pul') \<and> pul_wf pul' \<and>
    pul_Nodes pul' = (if pul_Nodes pul u = None then (pul_Nodes pul)(u \<mapsto> n) else pul_Nodes pul)"
proof -
  let ?i = "RedBlackTreeInsert poolUserStorageNodeComparison (pul_Storage pul) u 1"
  have wf: "rbt_wf poolUserStorageNodeComparison (pul_Storage pul)" using assms(1) by (simp add: pul_wf_def)
  have k: "keys (pul_Storage pul) = dom (pul_Nodes pul)" using assms(1) by (simp add: pul_wf_def)
  have f: "fst ?i = u"
    using pool_users.rbt.insert_result [OF wf, of u 1] pool_users.find_entry [of u "contents (pul_Storage pul)"] by (simp split: if_splits)
  have new: "RedBlackTreeFind poolUserStorageNodeComparison (pul_Storage pul) u = None \<longleftrightarrow> pul_Nodes pul u = None"
    using pool_users.find_key [OF wf, of u] k by auto
  show ?thesis
  proof (cases "pul_Nodes pul u = None")
    case True
    then have "u \<notin> keys (pul_Storage pul)" using k by auto
    then show ?thesis
      using pool_users.insert_tree [OF wf, of u 1] True new k f assms
      by (cases ?i) (auto simp: poolUserListAddPoolUserNode_def Let_def pul_wf_def)
  next
    case False
    then show ?thesis using new f assms(1) by (cases ?i) (auto simp: poolUserListAddPoolUserNode_def Let_def simp flip: assms(2))
  qed
qed

lemma remove_user:
  assumes "pul_wf pul" "pul_Nodes pul u \<noteq> None"
  shows "\<exists>pul'. poolUserListRemovePoolUserNode u pul = Inr pul' \<and> pul_wf pul' \<and>
    pul_Nodes pul' = (pul_Nodes pul)(u := None) \<and> poolUserListGetPoolUserNodes pul = Suc (poolUserListGetPoolUserNodes pul')"
proof -
  have wf: "rbt_wf poolUserStorageNodeComparison (pul_Storage pul)" and k: "keys (pul_Storage pul) = dom (pul_Nodes pul)"
    using assms(1) by (simp_all add: pul_wf_def)
  have u: "u \<in> keys (pul_Storage pul)" using k assms(2) by auto
  obtain t where t: "RedBlackTreeRemove poolUserStorageNodeComparison (pul_Storage pul) u = Inr t"
    "rbt_wf poolUserStorageNodeComparison t" "keys t = keys (pul_Storage pul) - {u}"
    using pool_users.remove_tree [OF wf u] by blast
  have fin: "finite (keys (pul_Storage pul))" by (simp add: keys_def)
  have "card (keys (pul_Storage pul)) = Suc (card (keys t))"
    using card_Suc_Diff1 [OF fin u] by (simp add: t(3))
  then show ?thesis
    using t assms k pool_users.elements_card [OF wf] pool_users.elements_card [OF t(2)]
    by (auto simp: poolUserListRemovePoolUserNode_def pul_wf_def poolUserListGetPoolUserNodes_def)
qed

lemma first_user:
  assumes "pul_wf pul"
  shows "case poolUserListGetFirstPoolUserNode pul of None \<Rightarrow> pul_Nodes pul = (\<lambda>_. None) | Some u \<Rightarrow> pul_Nodes pul u \<noteq> None"
proof -
  have k: "keys (pul_Storage pul) = dom (pul_Nodes pul)" using assms by (simp add: pul_wf_def)
  have wf: "rbt_wf poolUserStorageNodeComparison (pul_Storage pul)" using assms by (simp add: pul_wf_def)
  show ?thesis
  proof (cases "contents (pul_Storage pul)")
    case Nil
    then show ?thesis using k ends_ok(1) [of "pul_Storage pul"] by (auto simp: poolUserListGetFirstPoolUserNode_def keys_def)
  next
    case (Cons e es)
    then have "fst e \<in> dom (pul_Nodes pul)" using k by (auto simp: keys_def)
    then show ?thesis
      using Cons ends_ok(1) [of "pul_Storage pul"] by (auto simp: poolUserListGetFirstPoolUserNode_def)
  qed
qed

lemma clear_users:
  "pul_wf pul \<Longrightarrow> poolUserListGetPoolUserNodes pul \<le> k \<Longrightarrow>
   \<exists>pul'. clearUsers k pul = Inr pul' \<and> pul_wf pul' \<and> pul_Nodes pul' = (\<lambda>_. None)"
proof (induction k arbitrary: pul)
  case 0
  then have "card (dom (pul_Nodes pul)) = 0" "finite (dom (pul_Nodes pul))"
    using pool_users.elements_card [of "pul_Storage pul"] finite_imageI [of "set (contents (pul_Storage pul))" fst]
    by (auto simp: pul_wf_def poolUserListGetPoolUserNodes_def keys_def)
  then have "pul_Nodes pul = (\<lambda>_. None)" by (simp add: fun_eq_iff)
  then show ?case using 0 first_user [OF 0(1)] by (auto split: option.splits)
next
  case (Suc k)
  show ?case
  proof (cases "poolUserListGetFirstPoolUserNode pul")
    case None
    then show ?thesis using Suc.prems first_user [OF Suc.prems(1)] by simp
  next
    case (Some u)
    then have "pul_Nodes pul u \<noteq> None" using first_user [OF Suc.prems(1)] by simp
    from remove_user [OF Suc.prems(1) this] show ?thesis
      using Some Suc.prems(2) Suc.IH by fastforce
  qed
qed

lemma list_clear_ok: "pul_wf pul \<Longrightarrow> \<exists>pul'. poolUserListClear pul = Inr pul' \<and> pul_wf pul' \<and> pul_Nodes pul' = (\<lambda>_. None)"
  unfolding poolUserListClear_def by (rule clear_users) simp_all

section \<open>The window of time stamps\<close>

definition table_wf :: "TimeStampHashTable \<Rightarrow> bool" where
  "table_wf t \<longleftrightarrow> 0 < th_Buckets t \<and> 0 < th_MaxEntries t \<and> length (th_BucketArray t) = th_Buckets t \<and>
     (\<forall>stamps \<in> set (th_BucketArray t). sorted stamps \<and> length stamps \<le> th_MaxEntries t)"

lemma stamp_table_new: "timeStampHashTableNew mem b m = Some t \<Longrightarrow> table_wf t \<and> th_Buckets t = b \<and> th_MaxEntries t = m \<and>
    th_BucketArray t = replicate b []"
  by (auto simp: timeStampHashTableNew_def timeStampHashTableClear_def table_wf_def split: if_splits)

definition bucketOf :: "TimeStampHashTable \<Rightarrow> nat \<Rightarrow> u64 list" where
  "bucketOf t i = th_BucketArray t ! i"

text \<open>The last \<open>m\<close> elements of a list.\<close>

definition lastN :: "nat \<Rightarrow> 'a list \<Rightarrow> 'a list" where
  "lastN m xs = drop (length xs - m) xs"

lemma lastN_snoc: "0 < m \<Longrightarrow> lastN m (xs @ [x]) =
    (if length xs < m then lastN m xs @ [x] else tl (lastN m xs) @ [x])"
  by (auto simp: lastN_def drop_Suc tl_drop Suc_diff_le)

lemma lastN_props: "length (lastN m xs) = min m (length xs)" "sorted xs \<Longrightarrow> sorted (lastN m xs)"
  "lastN m xs \<noteq> [] \<Longrightarrow> last (lastN m xs) = last xs"
  by (simp_all add: lastN_def sorted_wrt_drop)

lemma add_stamp:
  assumes "table_wf t" "\<forall>x \<in> set (bucketOf t (unat h mod th_Buckets t)). x \<le> now"
  shows "\<exists>t'. timeStampHashTableAddTimeStamp t h now = (True, t') \<and> table_wf t' \<and>
    th_Buckets t' = th_Buckets t \<and> th_MaxEntries t' = th_MaxEntries t \<and>
    (\<forall>i < th_Buckets t. bucketOf t' i = (if i = unat h mod th_Buckets t
       then lastN (th_MaxEntries t) (bucketOf t i @ [now]) else bucketOf t i))"
proof -
  let ?b = "unat h mod th_Buckets t"
  let ?s = "bucketOf t ?b"
  let ?t = "t\<lparr>th_BucketArray := (th_BucketArray t)[?b := lastN (th_MaxEntries t) (?s @ [now])]\<rparr>"
  have b: "?b < length (th_BucketArray t)" and m: "0 < th_MaxEntries t" using assms(1) by (simp_all add: table_wf_def)
  then have s: "sorted ?s" "length ?s \<le> th_MaxEntries t"
    using assms(1) nth_mem [OF b] by (auto simp: table_wf_def bucketOf_def)
  have l: "?s \<noteq> [] \<Longrightarrow> ?s ! (length ?s - 1) \<le> now" using assms(2) by simp
  have sw: "sorted (?s @ [now])" using s(1) assms(2) by (simp add: sorted_append)
  have full: "lastN (th_MaxEntries t) ?s = ?s" using s(2) by (simp add: lastN_def)
  have "timeStampHashTableAddTimeStamp t h now = (True, ?t)"
    using l m full by (auto simp: timeStampHashTableAddTimeStamp_def Let_def lastN_snoc bucketOf_def)
  moreover have "table_wf ?t"
    using assms(1) lastN_props(1) [of "th_MaxEntries t" "?s @ [now]"] lastN_props(2) [OF sw, of "th_MaxEntries t"]
      set_update_subset_insert [of "th_BucketArray t" ?b "lastN (th_MaxEntries t) (?s @ [now])"]
    by (auto simp: table_wf_def)
  moreover have "\<forall>i < th_Buckets t. bucketOf ?t i = (if i = ?b then lastN (th_MaxEntries t) (bucketOf t i @ [now]) else bucketOf t i)"
    using b assms(1) by (auto simp: bucketOf_def nth_list_update table_wf_def)
  ultimately show ?thesis by (intro exI [of _ ?t]) simp
qed

text \<open>The rate of a window of time stamps.\<close>

definition windowRate :: "u64 list \<Rightarrow> rat option" where
  "windowRate window =
     (if length window \<le> 1 then Some 0
      else let seconds = double (double (of_int (uint (last window - hd window))) / 1000000)
           in if seconds = 0 then None else Some (double (double (of_nat (length window)) / seconds)))"

lemma get_rate: "timeStampHashTableGetRate t h = windowRate (bucketOf t (unat h mod th_Buckets t))"
proof (cases "length (bucketOf t (unat h mod th_Buckets t)) \<le> 1")
  case False
  then have "bucketOf t (unat h mod th_Buckets t) \<noteq> []" by auto
  from last_conv_nth [OF this] hd_conv_nth [OF this] False show ?thesis
    by (simp add: timeStampHashTableGetRate_def windowRate_def bucketOf_def Let_def)
qed (simp add: timeStampHashTableGetRate_def windowRate_def bucketOf_def Let_def)

text \<open>The events a user has noted before, in the order of time, and those of one bucket among them.\<close>

definition bucketEvents :: "nat \<Rightarrow> nat \<Rightarrow> (u32 \<times> u64) list \<Rightarrow> u64 list" where
  "bucketEvents buckets i events = map snd (filter (\<lambda>e. unat (fst e) mod buckets = i) events)"

lemma bucket_events_snoc: "bucketEvents b i (es @ [e]) =
    (if unat (fst e) mod b = i then bucketEvents b i es @ [snd e] else bucketEvents b i es)"
  by (simp add: bucketEvents_def)

definition holdsEvents :: "TimeStampHashTable option \<Rightarrow> nat \<Rightarrow> nat \<Rightarrow> (u32 \<times> u64) list \<Rightarrow> bool" where
  "holdsEvents table b m events \<longleftrightarrow>
     (case table of None \<Rightarrow> events = []
      | Some t \<Rightarrow> table_wf t \<and> th_Buckets t = b \<and> th_MaxEntries t = m \<and>
          (\<forall>i < b. bucketOf t i = lastN m (bucketEvents b i events)))"

lemma lastN_lastN_snoc: "0 < m \<Longrightarrow> lastN m (lastN m xs @ [x]) = lastN m (xs @ [x])"
  by (auto simp: lastN_snoc lastN_props) (simp_all add: lastN_def)

lemma note_event:
  assumes "holdsEvents table b m events" "0 < b" "0 < m" "sorted (map snd events @ [now])"
  shows "\<exists>t. noteTimeStamp True table h now b m =
      (windowRate (lastN m (bucketEvents b (unat h mod b) (events @ [(h, now)]))), Some t) \<and>
    holdsEvents (Some t) b m (events @ [(h, now)])"
proof -
  let ?i = "unat h mod b"
  obtain t where t: "(case table of None \<Rightarrow> timeStampHashTableNew True b m | Some t \<Rightarrow> Some t) = Some t"
    and wf: "table_wf t" "th_Buckets t = b" "th_MaxEntries t = m"
    and c: "\<And>i. i < b \<Longrightarrow> bucketOf t i = lastN m (bucketEvents b i events)"
  proof (cases table)
    case None
    then have e: "events = []" using assms(1) by (simp add: holdsEvents_def)
    obtain t where t: "timeStampHashTableNew True b m = Some t"
      using assms(2,3) by (auto simp: timeStampHashTableNew_def)
    show thesis
      by (rule that [of t]) (use None e t stamp_table_new [OF t] in \<open>simp_all add: bucketOf_def bucketEvents_def lastN_def\<close>)
  next
    case (Some t)
    then show thesis using assms(1) that [of t] by (simp add: holdsEvents_def)
  qed
  have le: "x \<in> set (bucketOf t ?i) \<Longrightarrow> x \<le> now" for x
    using c [of ?i] assms(2,4) set_drop_subset [of _ "bucketEvents b ?i events"]
    by (fastforce simp: lastN_def bucketEvents_def sorted_append)
  obtain t' where t': "timeStampHashTableAddTimeStamp t h now = (True, t')" "table_wf t'"
    "th_Buckets t' = b" "th_MaxEntries t' = m"
    "\<And>i. i < b \<Longrightarrow> bucketOf t' i = (if i = ?i then lastN m (bucketOf t i @ [now]) else bucketOf t i)"
    using add_stamp [OF wf(1), of h now] le wf by auto
  have h: "bucketOf t' i = lastN m (bucketEvents b i (events @ [(h, now)]))" if "i < b" for i
    using t'(5) [OF that] c [OF that] assms(3) lastN_lastN_snoc [of m "bucketEvents b i events" now]
    by (auto simp: bucket_events_snoc)
  show ?thesis
    using t t'(1-4) h assms(2) get_rate [of t' h] by (intro exI [of _ t']) (simp add: noteTimeStamp_def holdsEvents_def)
qed

end
