(* ===== verification/RSP_Registrar.thy ===== *)
theory RSP_Registrar
  imports RSP_Packet RSP_Callbacks RSP_PoolUsers
begin

text \<open>
  The registrar (rspregistrar.h, rspregistrar-global.c, rspregistrar-security.c,
  rspregistrar-misc.c): its state, its construction, and what all of its handlers use, the
  distance and the rate checks, the delivery of handlespace notifications to the peers and the
  transmission of messages.

  A handler is a function from the environment of one event and the state to the state. The
  environment holds what the code gets from outside while it handles the event: the time, the
  addresses and the round trip time of an association, random numbers and whether there is memory.
  The messages a handler sends are collected in \<open>pr_Outputs\<close>; \<open>transmit\<close> makes their packets
  and gives them to the network, in the order in which they have been sent. No handler
  depends on whether the transmission of a message was successful, other than by an abort of the
  association, which \<open>transmit\<close> makes. A timer is the time it is started for, \<open>None\<close> if it is
  stopped. The action log, the weighted statistics and the status reports are left out. The user
  data of a peer is the extract of the handle table that is being sent to it.
\<close>

unbundle bit_operations_syntax

section \<open>State\<close>

record Environment =
  env_Now :: u64
  env_Random :: "nat \<Rightarrow> u64"
  env_LocalAddresses :: "int \<Rightarrow> u32 \<Rightarrow> sockaddr_union list"
  env_PeerAddresses :: "int \<Rightarrow> u32 \<Rightarrow> sockaddr_union list"
  env_SRTT :: "int \<Rightarrow> u32 \<Rightarrow> u32 option"
  env_Memory :: bool
  env_LogLevel :: nat

record Transmission =
  tx_Socket :: int
  tx_AssocID :: u32
  tx_AddressArray :: "sockaddr_union list"
  tx_Message :: RSerPoolMessage
  tx_Tables :: MessageTables
  tx_MaxElements :: nat
  tx_UserData :: "HandleTableExtract option"

text \<open>
  \<open>Send\<close> is a message whose failure is only logged, \<open>SendOrAbort\<close> one whose failure aborts an
  association (socket and identifier), \<open>SendMulticast\<close> a datagram.
\<close>

datatype Output =
    Send Transmission
  | SendOrAbort Transmission int u32
  | SendMulticast Transmission
  | SendAbort int u32

record RegistrarStatistics =
  RegistrationCount :: u64
  ReregistrationCount :: u64
  DeregistrationCount :: u64
  HandleResolutionCount :: u64
  FailureReportCount :: u64
  SynchronizationCount :: u64
  HandleUpdateCount :: u64
  EndpointKeepAliveCount :: u64

record Registrar =
  pr_ServerID :: u32
  pr_Handlespace :: PoolHandlespaceManagement
  pr_Peers :: PeerListManagement
  pr_HandlespaceActionTimer :: "u64 option"
  pr_PeerActionTimer :: "u64 option"
  pr_PoolUsers :: PoolUserList
  pr_NextPoolUserNode :: bool
  pr_ASAPAnnounceSocket :: int
  pr_ASAPAnnounceAddress :: sockaddr_union
  pr_ASAPSendAnnounces :: bool
  pr_ASAPSocket :: int
  pr_ASAPAnnounceTimer :: "u64 option"
  pr_ENRPMulticastOutputSocket :: int
  pr_ENRPMulticastInputSocket :: int
  pr_ENRPMulticastAddress :: sockaddr_union
  pr_ENRPUnicastSocket :: int
  pr_ENRPAnnounceViaMulticast :: bool
  pr_ENRPAnnounceTimer :: "u64 option"
  pr_ENRPSupportTakeoverSuggestion :: bool
  pr_InStartupPhase :: bool
  pr_MentorServerID :: u32
  pr_DistanceStep :: u32
  pr_MaxBadPEReports :: nat
  pr_ServerAnnounceCycle :: u64
  pr_EndpointKeepAliveTransmissionInterval :: u64
  pr_EndpointKeepAliveTimeoutInterval :: u64
  pr_MinEndpointAddressScope :: nat
  pr_MaxElementsPerHTRequest :: nat
  pr_MaxIncrement :: nat
  pr_MaxHandleResolutionItems :: nat
  pr_PeerHeartbeatCycle :: u64
  pr_PeerMaxTimeLastHeard :: u64
  pr_PeerMaxTimeNoResponse :: u64
  pr_MentorDiscoveryTimeout :: u64
  pr_TakeoverExpiryInterval :: u64
  pr_MaxHRRate :: rat
  pr_MaxEURate :: rat
  pr_Stats :: RegistrarStatistics
  pr_UserData :: "nat \<Rightarrow> HandleTableExtract option"
  pr_Outputs :: "Output list"

text \<open>
  The parameters of the two multicast sockets are stored the other way round. When the
  identifier is 0, a random one is used.
\<close>

definition registrarNew ::
  "Environment \<Rightarrow> u32 \<Rightarrow> int \<Rightarrow> int \<Rightarrow> int \<Rightarrow> int \<Rightarrow> int \<Rightarrow> bool \<Rightarrow> sockaddr_union \<Rightarrow> bool \<Rightarrow> sockaddr_union \<Rightarrow> Registrar option" where
  "registrarNew env serverID asapUnicastSocket asapAnnounceSocket enrpUnicastSocket enrpMulticastOutputSocket
     enrpMulticastInputSocket asapSendAnnounces asapAnnounceAddress enrpAnnounceViaMulticast enrpMulticastAddress =
     (if env_Memory env then
        let identifier = (if serverID = 0 then ucast (env_Random env 0) else serverID) in
        Some \<lparr>pr_ServerID = identifier,
          pr_Handlespace = poolHandlespaceManagementNew (env_Memory env) identifier,
          pr_Peers = peerListManagementNew (env_Memory env) identifier,
          pr_HandlespaceActionTimer = None, pr_PeerActionTimer = None,
          pr_PoolUsers = poolUserListNew, pr_NextPoolUserNode = False,
          pr_ASAPAnnounceSocket = asapAnnounceSocket, pr_ASAPAnnounceAddress = asapAnnounceAddress,
          pr_ASAPSendAnnounces = asapSendAnnounces, pr_ASAPSocket = asapUnicastSocket, pr_ASAPAnnounceTimer = None,
          pr_ENRPMulticastOutputSocket = enrpMulticastInputSocket,
          pr_ENRPMulticastInputSocket = enrpMulticastOutputSocket,
          pr_ENRPMulticastAddress = enrpMulticastAddress, pr_ENRPUnicastSocket = enrpUnicastSocket,
          pr_ENRPAnnounceViaMulticast = enrpAnnounceViaMulticast,
          pr_ENRPAnnounceTimer = Some (env_Now env + 5000000),
          pr_ENRPSupportTakeoverSuggestion = False, pr_InStartupPhase = True, pr_MentorServerID = 0,
          pr_DistanceStep = 50, pr_MaxBadPEReports = 3, pr_ServerAnnounceCycle = 1000000,
          pr_EndpointKeepAliveTransmissionInterval = 5000000, pr_EndpointKeepAliveTimeoutInterval = 5000000,
          pr_MinEndpointAddressScope = AS_UNICAST_SITELOCAL, pr_MaxElementsPerHTRequest = 128,
          pr_MaxIncrement = 0, pr_MaxHandleResolutionItems = 3, pr_PeerHeartbeatCycle = 2444444,
          pr_PeerMaxTimeLastHeard = 5000000, pr_PeerMaxTimeNoResponse = 5000000,
          pr_MentorDiscoveryTimeout = 5000000, pr_TakeoverExpiryInterval = 5000000,
          pr_MaxHRRate = -1, pr_MaxEURate = -1,
          pr_Stats = \<lparr>RegistrationCount = 0, ReregistrationCount = 0, DeregistrationCount = 0,
            HandleResolutionCount = 0, FailureReportCount = 0, SynchronizationCount = 0,
            HandleUpdateCount = 0, EndpointKeepAliveCount = 0\<rparr>,
          pr_UserData = (\<lambda>_. None), pr_Outputs = []\<rparr>
      else None)"

section \<open>Access to the parts\<close>

abbreviation (input) "handlespaceOf r \<equiv> hsm_Handlespace (pr_Handlespace r)"
abbreviation (input) "peersOf r \<equiv> plm_List (pr_Peers r)"

definition withNode :: "PoolHandlespaceNode \<Rightarrow> Registrar \<Rightarrow> Registrar" where
  "withNode hs r = r\<lparr>pr_Handlespace := withHandlespace (pr_Handlespace r) hs\<rparr>"

text \<open>
  An operation on the handlespace calls the peer list management back with every change of
  a pool element. The two do not share state, so that the calls can be made after the operation.
\<close>

definition onHandlespace ::
  "Environment \<Rightarrow> (PoolHandlespaceManagement \<Rightarrow> fault + ('a \<times> PoolHandlespaceManagement)) \<Rightarrow> Registrar \<Rightarrow> fault + ('a \<times> Registrar)" where
  "onHandlespace env f r =
     bindR (f (pr_Handlespace r)) (\<lambda>(x, m).
     bindR (notifyPeers (env_LogLevel env) (hsn_Notifications (hsm_Handlespace m)) (pr_Peers r)) (\<lambda>peers.
     Inr (x, r\<lparr>pr_Handlespace := withHandlespace m ((hsm_Handlespace m)\<lparr>hsn_Notifications := []\<rparr>),
               pr_Peers := peers\<rparr>)))"

text \<open>An operation that changes no pool element, such as one on its timer.\<close>

definition onNode :: "(PoolHandlespaceNode \<Rightarrow> fault + PoolHandlespaceNode) \<Rightarrow> Registrar \<Rightarrow> fault + Registrar" where
  "onNode f r = bindR (f (handlespaceOf r)) (\<lambda>hs. Inr (withNode hs r))"

definition onPeers ::
  "(PeerListManagement \<Rightarrow> fault + PeerListManagement) \<Rightarrow> Registrar \<Rightarrow> fault + Registrar" where
  "onPeers f r = bindR (f (pr_Peers r)) (\<lambda>m. Inr (r\<lparr>pr_Peers := m\<rparr>))"

definition updatePeer :: "nat \<Rightarrow> (PeerListNode \<Rightarrow> PeerListNode) \<Rightarrow> Registrar \<Rightarrow> Registrar" where
  "updatePeer p f r = r\<lparr>pr_Peers := withList (pr_Peers r) (setPeer p f (peersOf r))\<rparr>"

text \<open>The removal of a peer, with the disposal of its user data (\<open>peerListNodeDisposer\<close>).\<close>

definition deregisterPeer :: "nat \<Rightarrow> Registrar \<Rightarrow> fault + Registrar" where
  "deregisterPeer p r =
     bindR (peerListManagementDeregisterPeerListNodeByPtr p (pr_Peers r)) (\<lambda>(_, m).
     Inr (r\<lparr>pr_Peers := m,
            pr_UserData := (\<lambda>q. if pl_Nodes (plm_List m) q = None then None else pr_UserData r q)\<rparr>))"

definition registrarDelete :: "Registrar \<Rightarrow> fault + unit" where
  "registrarDelete r =
     bindR (peerListManagementDelete (pr_Peers r)) (\<lambda>_.
     bindR (poolUserListClear (pr_PoolUsers r)) (\<lambda>_.
     bindR (poolHandlespaceManagementDelete (pr_Handlespace r)) (\<lambda>_. Inr ())))"

text \<open>\<open>timerStart\<close> of a timer that must not run, and \<open>timerRestart\<close>.\<close>

definition timerStart :: "u64 option \<Rightarrow> u64 \<Rightarrow> fault + u64 option" where
  "timerStart timer timeStamp = CHECK (timer = None) (\<lambda>_. Inr (Some timeStamp))"

definition restartHandlespaceActionTimer :: "Registrar \<Rightarrow> Registrar" where
  "restartHandlespaceActionTimer r =
     r\<lparr>pr_HandlespaceActionTimer := Some (poolHandlespaceManagementGetNextTimerTimeStamp (pr_Handlespace r))\<rparr>"

definition restartPeerActionTimer :: "Registrar \<Rightarrow> Registrar" where
  "restartPeerActionTimer r =
     r\<lparr>pr_PeerActionTimer := Some (peerListManagementGetNextTimerTimeStamp (pr_Peers r))\<rparr>"

definition countMessage :: "(RegistrarStatistics \<Rightarrow> RegistrarStatistics) \<Rightarrow> Registrar \<Rightarrow> Registrar" where
  "countMessage f r = r\<lparr>pr_Stats := f (pr_Stats r)\<rparr>"

section \<open>Addresses and distances\<close>

text \<open>The block of the addresses of an association; \<open>None\<close> when there are none.\<close>

definition transportAddressBlockGetAddressesFromSCTPSocket ::
  "Environment \<Rightarrow> int \<Rightarrow> u32 \<Rightarrow> nat \<Rightarrow> bool \<Rightarrow> fault + TransportAddressBlock option" where
  "transportAddressBlockGetAddressesFromSCTPSocket env sockFD assocID maxAddresses isLocal =
     (let endpointAddressArray = (if isLocal then env_LocalAddresses env else env_PeerAddresses env) sockFD assocID in
      if endpointAddressArray = [] then Inr None
      else
        let sctpAddressArray = take MAX_ADDRESSES (take maxAddresses endpointAddressArray) in
        bindR (getPort (env_LogLevel env) (hd sctpAddressArray)) (\<lambda>port.
        Inr (Some (transportAddressBlockNew IPPROTO_SCTP port 0 sctpAddressArray (length sctpAddressArray) maxAddresses))))"

definition registrarAddStaticPeer ::
  "Environment \<Rightarrow> u32 \<Rightarrow> TransportAddressBlock \<Rightarrow> Registrar \<Rightarrow> fault + (u16 \<times> Registrar)" where
  "registrarAddStaticPeer env identifier transportAddressBlock r =
     bindR (transportAddressBlockGetAddressesFromSCTPSocket env (pr_ENRPUnicastSocket r) 0 MAX_PE_TRANSPORTADDRESSES True) (\<lambda>localBlock.
     bindR (case localBlock of
              None \<Rightarrow> Inr False
            | Some b \<Rightarrow> bindR (transportAddressBlockOverlapComparison (env_LogLevel env) (Some b) (Some transportAddressBlock))
                         (\<lambda>result. Inr (result = 0))) (\<lambda>own.
     if own then Inr (RSPERR_OKAY, r)
     else bindR (peerListManagementRegisterPeerListNode (env_LogLevel env) (Some (handlespaceOf r)) identifier PLNF_STATIC
                   (Some transportAddressBlock) (env_Now env) (pr_Peers r)) (\<lambda>(result, node, m).
          Inr (result, r\<lparr>pr_Peers := m\<rparr>))))"

text \<open>A step of 0 gives infinity, whose conversion to an integer is undefined.\<close>

definition registrarRoundDistance :: "u32 \<Rightarrow> u32 \<Rightarrow> fault + u32" where
  "registrarRoundDistance distance step =
     (if step = 0 then Inl OutOfBounds
      else Inr (word_of_int (rint (double (of_int (uint distance) / of_int (uint step)))) * step))"

definition isDistanceSensitive :: "PoolPolicySettings \<Rightarrow> bool" where
  "isDistanceSensitive pps \<longleftrightarrow> pps_PolicyType pps = PPT_LEASTUSED_DPF \<or>
     pps_PolicyType pps = PPT_LEASTUSED_DEGRADATION_DPF \<or> pps_PolicyType pps = PPT_WEIGHTED_RANDOM_DPF"

text \<open>The result is the updated policy settings and the distance.\<close>

definition registrarUpdateDistance ::
  "Environment \<Rightarrow> Registrar \<Rightarrow> int \<Rightarrow> u32 \<Rightarrow> PoolElementNode \<Rightarrow> bool \<Rightarrow> u32 \<Rightarrow> fault + (PoolPolicySettings \<times> u32)" where
  "registrarUpdateDistance env r fd assocID n addDistance distance =
     (let pps = pen_PolicySettings n in
      if isDistanceSensitive pps then
        bindR (if distance = 0xffffffff
               then case env_SRTT env fd assocID of
                      Some srtt \<Rightarrow> registrarRoundDistance (srtt div 2) (pr_DistanceStep r)
                    | None \<Rightarrow> Inr 0
               else Inr distance) (\<lambda>d.
        Inr (if addDistance then pps\<lparr>pps_Distance := pps_Distance pps + d\<rparr> else pps\<lparr>pps_Distance := d\<rparr>, d))
      else Inr (pps, 0))"

section \<open>Permissions of pool users\<close>

abbreviation (input) "TSHT_BUCKETS \<equiv> (64 :: nat)"
abbreviation (input) "TSHT_ENTRIES \<equiv> (16 :: nat)"

text \<open>An infinite rate (\<open>None\<close>) is above every threshold.\<close>

definition registrarPoolUserHasPermissionFor ::
  "Environment \<Rightarrow> int \<Rightarrow> u32 \<Rightarrow> u32 \<Rightarrow> PoolHandle \<Rightarrow> u32 \<Rightarrow> Registrar \<Rightarrow> fault + (bool \<times> Registrar)" where
  "registrarPoolUserHasPermissionFor env fd assocID action poolHandle peIdentifier r =
     (if \<not> pr_NextPoolUserNode r \<and> \<not> env_Memory env then Inr (True, r)
      else
        let (u, isNew, users) = poolUserListAddPoolUserNode (poolUserNodeNew fd assocID) (pr_PoolUsers r) in
        case pul_Nodes users u of
          None \<Rightarrow> Inl CheckAbort
        | Some n \<Rightarrow>
            bindR (if action = AHT_HANDLE_RESOLUTION
                   then Inr (poolUserNodeNoteHandleResolution (env_Memory env) poolHandle (env_Now env)
                               TSHT_BUCKETS TSHT_ENTRIES n, pr_MaxHRRate r)
                   else if action = AHT_ENDPOINT_UNREACHABLE
                   then Inr (poolUserNodeNoteEndpointUnreachable (env_Memory env) poolHandle peIdentifier (env_Now env)
                               TSHT_BUCKETS TSHT_ENTRIES n, pr_MaxEURate r)
                   else Inl CheckAbort) (\<lambda>((rate, n1), threshold).
            Inr (case rate of None \<Rightarrow> False | Some x \<Rightarrow> x \<le> threshold,
                 r\<lparr>pr_PoolUsers := users\<lparr>pul_Nodes := (pul_Nodes users)(u \<mapsto> n1)\<rparr>,
                   pr_NextPoolUserNode := \<not> isNew\<rparr>)))"

section \<open>Sending\<close>

definition newMessage :: "Environment \<Rightarrow> nat \<Rightarrow> RSerPoolMessage" where
  "newMessage env bufferSize = rserpoolMessageNew (env_LogLevel env) (env_Memory env) (replicate bufferSize 0) bufferSize"

definition emitOutput :: "Output \<Rightarrow> Registrar \<Rightarrow> Registrar" where
  "emitOutput x r = r\<lparr>pr_Outputs := pr_Outputs r @ [x]\<rparr>"

definition transmission :: "int \<Rightarrow> u32 \<Rightarrow> sockaddr_union list \<Rightarrow> RSerPoolMessage \<Rightarrow> Transmission" where
  "transmission sd assocID addresses message =
     \<lparr>tx_Socket = sd, tx_AssocID = assocID, tx_AddressArray = addresses, tx_Message = message,
      tx_Tables = noTables, tx_MaxElements = 0, tx_UserData = None\<rparr>"

text \<open>The answer to a request: \<^verbatim>\<open>if(rserpoolMessageSend(...) == false) { sendabort(fd, assocID); }\<close>\<close>

definition reply :: "int \<Rightarrow> u32 \<Rightarrow> RSerPoolMessage \<Rightarrow> Registrar \<Rightarrow> Registrar" where
  "reply fd assocID message = emitOutput (SendOrAbort (transmission fd assocID [] message) fd assocID)"

definition addressesOf :: "TransportAddressBlock option \<Rightarrow> fault + sockaddr_union list" where
  "addressesOf block = (case block of None \<Rightarrow> Inl NullAccess | Some b \<Rightarrow> Inr (tab_AddressArray b))"

definition registrarSendASAPEndpointKeepAlive :: "Environment \<Rightarrow> peName \<Rightarrow> bool \<Rightarrow> Registrar \<Rightarrow> fault + Registrar" where
  "registrarSendASAPEndpointKeepAlive env p newHomeRegistrar r =
     (if env_Memory env then
        let hs = handlespaceOf r;
            n = elementAt hs p;
            message = (newMessage env 1024)
              \<lparr>Handle := pn_Handle (poolAt hs (fst p)), RegistrarIdentifier := pr_ServerID r,
               Identifier := pen_Identifier n, Type := AHT_ENDPOINT_KEEP_ALIVE,
               Flags := (if newHomeRegistrar then AHF_ENDPOINT_KEEP_ALIVE_HOME else 0)\<rparr>
        in bindR (if pen_ConnectionSocketDescriptor n \<ge> 0
                  then Inr (transmission (pen_ConnectionSocketDescriptor n) (pen_ConnectionAssocID n) [] message)
                  else bindR (addressesOf (pen_RegistratorTransport n)) (\<lambda>addresses.
                       Inr (transmission (pr_ASAPSocket r) 0 addresses (message\<lparr>Addresses := length addresses\<rparr>)))) (\<lambda>tx.
           Inr (countMessage (\<lambda>s. s\<lparr>EndpointKeepAliveCount := EndpointKeepAliveCount s + 1\<rparr>)
                  (emitOutput (SendOrAbort tx (pr_ASAPSocket r) 0) r)))
      else Inr r)"

text \<open>The loops that send a message to every peer, in the order of the identifiers.\<close>

primrec sendToPeers ::
  "(PeerListNode \<Rightarrow> sockaddr_union list \<Rightarrow> Registrar \<Rightarrow> fault + Registrar) \<Rightarrow> nat list \<Rightarrow> Registrar \<Rightarrow> fault + Registrar" where
  "sendToPeers f [] r = Inr r"
| "sendToPeers f (p # ps) r =
     bindR (addressesOf (pln_AddressBlock (peerAt (peersOf r) p))) (\<lambda>addresses.
     bindR (f (peerAt (peersOf r) p) addresses r) (sendToPeers f ps))"

abbreviation (input) "PNUP_ADD_PE \<equiv> (0x0000 :: u16)"
abbreviation (input) "PNUP_DEL_PE \<equiv> (0x0001 :: u16)"

definition handleUpdateMessage :: "Environment \<Rightarrow> Registrar \<Rightarrow> PoolHandle \<Rightarrow> PoolElementNode \<Rightarrow> u16 \<Rightarrow> RSerPoolMessage" where
  "handleUpdateMessage env r handle n action =
     (newMessage env 65536)\<lparr>Type := EHT_HANDLE_UPDATE, Flags := 0, Action := action,
       SenderID := pr_ServerID r, Handle := handle, PoolElementPtr := Some n\<rparr>"

text \<open>The pool element node may be a copy of one that has been removed, so that it comes with its handle.\<close>

definition registrarSendENRPHandleUpdate ::
  "Environment \<Rightarrow> PoolHandle \<Rightarrow> PoolElementNode \<Rightarrow> u16 \<Rightarrow> Registrar \<Rightarrow> fault + Registrar" where
  "registrarSendENRPHandleUpdate env handle n action r =
     (if env_Memory env then
        let message = handleUpdateMessage env r handle n action;
            sendTo = (\<lambda>flags peer addresses r1. Inr (emitOutput (Send (transmission (pr_ENRPUnicastSocket r1) 0 addresses
              (message\<lparr>Flags := flags, ReceiverID := pln_Identifier peer, Addresses := length addresses\<rparr>))) r1));
            betterPeerListNode =
              (if action = PNUP_ADD_PE \<and> pr_ENRPSupportTakeoverSuggestion r \<and>
                  pen_HomeRegistrarIdentifier n = pr_ServerID r
               then peerListManagementGetUsefulPeerForPE (pen_Identifier n) (pr_Peers r) else None)
        in bindR (sendToPeers (sendTo 0) (peersByIndex (peersOf r)) r) (\<lambda>r1.
           case betterPeerListNode of
             None \<Rightarrow> Inr r1
           | Some p \<Rightarrow> sendToPeers (sendTo EHF_TAKEOVER_SUGGESTED) [p] r1)
      else Inr r)"

text \<open>
  A packet is first made to see if it can be made; the transmission makes it again. It is not
  sent when the registrar has no local address.
\<close>

definition registrarSendENRPPresence ::
  "Environment \<Rightarrow> int \<Rightarrow> u32 \<Rightarrow> sockaddr_union list \<Rightarrow> u32 \<Rightarrow> bool \<Rightarrow> Registrar \<Rightarrow> fault + Registrar" where
  "registrarSendENRPPresence env sd assocID destinations receiverID replyRequired r =
     (if env_Memory env then
        bindR (transportAddressBlockGetAddressesFromSCTPSocket env (pr_ENRPUnicastSocket r) assocID
                 MAX_PE_TRANSPORTADDRESSES True) (\<lambda>block. Inr (
        case block of
          None \<Rightarrow> r
        | Some localAddressArray \<Rightarrow>
            let message = (newMessage env 65536)
                  \<lparr>Type := EHT_PRESENCE, PPID := PPID_ENRP, AssocID := assocID,
                   Addresses := length destinations,
                   Flags := (if replyRequired then EHF_PRESENCE_REPLY_REQUIRED else 0),
                   PeerListNodePtr := Some (peerListNodeNew (pr_ServerID r) 0 (Some localAddressArray)),
                   SenderID := pr_ServerID r, ReceiverID := receiverID,
                   Checksum := poolHandlespaceManagementGetOwnershipChecksum (pr_Handlespace r)\<rparr>;
                tx = transmission sd assocID destinations message
            in emitOutput (if sd = pr_ENRPMulticastOutputSocket r then SendMulticast tx else Send tx) r))
      else Inr r)"

definition registrarSendENRPPresenceToAllPeers :: "Environment \<Rightarrow> Registrar \<Rightarrow> fault + Registrar" where
  "registrarSendENRPPresenceToAllPeers env r =
     sendToPeers (\<lambda>peer addresses r1. registrarSendENRPPresence env (pr_ENRPUnicastSocket r1) 0 addresses
                    (pln_Identifier peer) False r1) (peersByIndex (peersOf r)) r"

section \<open>Transmission\<close>

text \<open>What the network gets: a packet on an association or to addresses, a datagram, or an abort.\<close>

datatype NetworkAction =
    SendPacket int u32 "sockaddr_union list" u32 "byte list"
  | SendDatagram int "sockaddr_union list" "byte list"
  | AbortAssociation int u32

definition packetOf :: "Transmission \<Rightarrow> fault + (u32 \<times> byte list) option" where
  "packetOf tx =
     bindR (rserpoolMessage2Packet (tx_Tables tx) (tx_MaxElements tx) (tx_UserData tx) (tx_Message tx)) (\<lambda>((messageLength, _), m).
     Inr (if messageLength > 0 then Some (PPID m, take messageLength (Buffer m)) else None))"

text \<open>\<open>sent\<close> is the network's answer to an action.\<close>

definition rserpoolMessageSend :: "(NetworkAction \<Rightarrow> bool) \<Rightarrow> Transmission \<Rightarrow> fault + (bool \<times> NetworkAction list)" where
  "rserpoolMessageSend sent tx =
     bindR (packetOf tx) (\<lambda>packet. Inr (case packet of
       None \<Rightarrow> (False, [])
     | Some (myPPID, bs) \<Rightarrow>
         let x = SendPacket (tx_Socket tx) (tx_AssocID tx) (tx_AddressArray tx) myPPID bs in (sent x, [x])))"

fun transmitOutput :: "(NetworkAction \<Rightarrow> bool) \<Rightarrow> Output \<Rightarrow> fault + NetworkAction list" where
  "transmitOutput sent (Send tx) = bindR (rserpoolMessageSend sent tx) (\<lambda>(_, xs). Inr xs)"
| "transmitOutput sent (SendOrAbort tx sd assocID) =
     bindR (rserpoolMessageSend sent tx) (\<lambda>(ok, xs). Inr (if ok then xs else xs @ [AbortAssociation sd assocID]))"
| "transmitOutput sent (SendMulticast tx) =
     bindR (packetOf tx) (\<lambda>packet. Inr (case packet of
       None \<Rightarrow> [] | Some (_, bs) \<Rightarrow> [SendDatagram (tx_Socket tx) (tx_AddressArray tx) bs]))"
| "transmitOutput sent (SendAbort sd assocID) = Inr [AbortAssociation sd assocID]"

primrec transmit :: "(NetworkAction \<Rightarrow> bool) \<Rightarrow> Output list \<Rightarrow> fault + NetworkAction list" where
  "transmit sent [] = Inr []"
| "transmit sent (x # xs) = bindR (transmitOutput sent x) (\<lambda>as. bindR (transmit sent xs) (\<lambda>bs. Inr (as @ bs)))"

end
