(* ===== verification/RSP_RegistrarASAP.thy ===== *)
theory RSP_RegistrarASAP
  imports RSP_Registrar
begin

text \<open>
  The ASAP side of the registrar (rspregistrar-asap.c): requests of pool elements and pool users,
  the monitoring of pool elements, and the removal of the pool elements of a broken connection.
\<close>

unbundle bit_operations_syntax

section \<open>Announces\<close>

definition registrarRandomizeCycle :: "Environment \<Rightarrow> u64 \<Rightarrow> u64" where
  "registrarRandomizeCycle env interval =
     (let originalInterval = double (of_int (uint interval));
          variation = double (1 / 4 * originalInterval);
          share = double (of_int (uint (env_Random env 0 mod 2147483648)) / 2147483647);
          nextInterval = double (double (originalInterval - double (variation / 2)) + double (variation * share))
      in word_of_int \<lfloor>nextInterval\<rfloor>)"

definition registrarHandleASAPAnnounceTimer :: "Environment \<Rightarrow> Registrar \<Rightarrow> fault + Registrar" where
  "registrarHandleASAPAnnounceTimer env r =
     CHECK (pr_ASAPSendAnnounces r) (\<lambda>_.
     CHECK (pr_ASAPAnnounceSocket r \<ge> 0) (\<lambda>_.
     let message = (newMessage env 65536)\<lparr>Type := AHT_SERVER_ANNOUNCE, Flags := 0, RegistrarIdentifier := pr_ServerID r\<rparr>;
         r1 = (if env_Memory env
               then emitOutput (SendMulticast (transmission (pr_ASAPAnnounceSocket r) 0 [pr_ASAPAnnounceAddress r] message)) r
               else r)
     in bindR (timerStart (pr_ASAPAnnounceTimer r1) (env_Now env + registrarRandomizeCycle env (pr_ServerAnnounceCycle r1)))
          (\<lambda>t. Inr (r1\<lparr>pr_ASAPAnnounceTimer := t\<rparr>))))"

section \<open>Removal of pool elements\<close>

text \<open>
  The steps that the removals have in common: the peers are told about a pool element of this
  registrar, and the pool element is deregistered. An error code other than \<open>RSPERR_OKAY\<close> ends the program.
\<close>

definition removeElement :: "Environment \<Rightarrow> peName \<Rightarrow> Registrar \<Rightarrow> fault + (u16 \<times> Registrar)" where
  "removeElement env p r =
     (let hs = handlespaceOf r; n = elementAt hs p in
      bindR (if pen_HomeRegistrarIdentifier n = pr_ServerID r
             then registrarSendENRPHandleUpdate env (pn_Handle (poolAt hs (fst p))) n PNUP_DEL_PE r
             else Inr r)
        (onHandlespace env (poolHandlespaceManagementDeregisterPoolElementByPtr p)))"

definition removeElementOrAbort :: "Environment \<Rightarrow> peName \<Rightarrow> Registrar \<Rightarrow> fault + Registrar" where
  "removeElementOrAbort env p r =
     bindR (removeElement env p r) (\<lambda>(result, r1).
     if result = RSPERR_OKAY then Inr r1 else LOG_END_FATAL (env_LogLevel env) (\<lambda>_. Inr r1))"

section \<open>Timers of pool elements\<close>

definition transmitKeepAlive :: "Environment \<Rightarrow> peName \<Rightarrow> Registrar \<Rightarrow> fault + Registrar" where
  "transmitKeepAlive env p r =
     bindR (onNode (poolHandlespaceNodeDeactivateTimer p) r) (\<lambda>r1.
     bindR (registrarSendASAPEndpointKeepAlive env p False r1) (\<lambda>r2.
     onNode (\<lambda>hs. poolHandlespaceNodeActivateTimer p PENT_KEEPALIVE_TIMEOUT
                    (env_Now env + pr_EndpointKeepAliveTimeoutInterval r2)
                    (setElement p (\<lambda>n. n\<lparr>pen_LastKeepAliveTransmission := env_Now env\<rparr>) hs)) r2))"

definition poolElementTimer :: "Environment \<Rightarrow> peName \<Rightarrow> Registrar \<Rightarrow> fault + Registrar" where
  "poolElementTimer env p r =
     (let n = elementAt (handlespaceOf r) p in
      if pen_TimerCode n = PENT_KEEPALIVE_TRANSMISSION then transmitKeepAlive env p r
      else if pen_TimerCode n = PENT_KEEPALIVE_TIMEOUT
      then removeElementOrAbort env p
             (emitOutput (SendAbort (pen_ConnectionSocketDescriptor n) (pen_ConnectionAssocID n)) r)
      else if pen_TimerCode n = PENT_EXPIRY then removeElementOrAbort env p r
      else LOG_END_FATAL (env_LogLevel env) (\<lambda>_. Inr r))"

text \<open>
  The loop over the timers that are due. A pool element is visited once for the transmission of
  a keep-alive and, if the timeout is 0, once more for the timeout, which bounds the rounds.
\<close>

primrec poolElementTimers :: "nat \<Rightarrow> Environment \<Rightarrow> peName option \<Rightarrow> Registrar \<Rightarrow> fault + Registrar" where
  "poolElementTimers 0 env current r = (if current = None then Inr r else Inl NoFuel)"
| "poolElementTimers (Suc k) env current r =
     (case current of
        None \<Rightarrow> Inr r
      | Some p \<Rightarrow>
          if pen_TimerTimeStamp (elementAt (handlespaceOf r) p) \<le> env_Now env
          then let next1 = poolHandlespaceNodeGetNextPoolElementTimerNode (handlespaceOf r) p in
               bindR (poolElementTimer env p r) (poolElementTimers k env next1)
          else Inr r)"

definition registrarHandlePoolElementEvent :: "Environment \<Rightarrow> Registrar \<Rightarrow> fault + Registrar" where
  "registrarHandlePoolElementEvent env r =
     bindR (poolElementTimers (2 * poolHandlespaceNodeGetTimerNodes (handlespaceOf r)) env
              (poolHandlespaceNodeGetFirstPoolElementTimerNode (handlespaceOf r)) r) (\<lambda>r1.
     Inr (restartHandlespaceActionTimer r1))"

section \<open>Broken connections\<close>

primrec removeConnected :: "nat \<Rightarrow> Environment \<Rightarrow> peName option \<Rightarrow> Registrar \<Rightarrow> fault + Registrar" where
  "removeConnected 0 env current r = (if current = None then Inr r else Inl NoFuel)"
| "removeConnected (Suc k) env current r =
     (case current of
        None \<Rightarrow> Inr r
      | Some p \<Rightarrow>
          let next1 = poolHandlespaceNodeGetNextPoolElementConnectionNodeForSameConnection (handlespaceOf r) p in
          bindR (removeElementOrAbort env p r) (removeConnected k env next1))"

definition registrarRemovePoolElementsOfConnection :: "Environment \<Rightarrow> int \<Rightarrow> u32 \<Rightarrow> Registrar \<Rightarrow> fault + Registrar" where
  "registrarRemovePoolElementsOfConnection env sd assocID r =
     bindR (poolHandlespaceNodeGetFirstPoolElementConnectionNodeForConnection (handlespaceOf r) sd assocID) (\<lambda>first.
     removeConnected (poolHandlespaceNodeGetConnectionNodes (handlespaceOf r)) env first r)"

section \<open>Registration\<close>

abbreviation (input) "RSPERR_NO_USABLE_USER_ADDRESSES \<equiv> (0xf008 :: u16)"
abbreviation (input) "RSPERR_NO_USABLE_ASAP_ADDRESSES \<equiv> (0xf007 :: u16)"

definition noBlock :: TransportAddressBlock where
  "noBlock = \<lparr>tab_Protocol = 0, tab_Port = 0, tab_Flags = 0, tab_AddressArray = []\<rparr>"

text \<open>After a successful registration: the timer of the pool element and the update of the peers.\<close>

definition afterRegistration :: "Environment \<Rightarrow> peName \<Rightarrow> Registrar \<Rightarrow> fault + Registrar" where
  "afterRegistration env p r =
     bindR (if poolHandlespaceNodeHasActiveTimer (handlespaceOf r) p
            then bindR (onNode (poolHandlespaceNodeDeactivateTimer p) r) (\<lambda>r1.
                 Inr (countMessage (\<lambda>s. s\<lparr>ReregistrationCount := ReregistrationCount s + 1\<rparr>) r1))
            else Inr r) (\<lambda>r2.
     let r3 = countMessage (\<lambda>s. s\<lparr>RegistrationCount := RegistrationCount s + 1\<rparr>) r2 in
     bindR (onNode (poolHandlespaceNodeActivateTimer p PENT_KEEPALIVE_TRANSMISSION
                      (env_Now env + pr_EndpointKeepAliveTransmissionInterval r3)) r3) (\<lambda>r4.
     let r5 = restartHandlespaceActionTimer r4; hs = handlespaceOf r5 in
     registrarSendENRPHandleUpdate env (pn_Handle (poolAt hs (fst p))) (elementAt hs p) PNUP_ADD_PE r5))"

definition registerFor ::
  "Environment \<Rightarrow> int \<Rightarrow> u32 \<Rightarrow> RSerPoolMessage \<Rightarrow> PoolElementNode \<Rightarrow> TransportAddressBlock \<Rightarrow> TransportAddressBlock \<Rightarrow>
     Registrar \<Rightarrow> fault + (u16 \<times> Registrar)" where
  "registerFor env fd assocID message pe userTransport asapTransport r =
     bindR (registrarUpdateDistance env r fd assocID pe False 0xffffffff) (\<lambda>(updatedPolicySettings, distance).
     bindR (onHandlespace env (\<lambda>m.
              bindR (poolHandlespaceManagementRegisterPoolElement (Handle message) (pr_ServerID r) (pen_Identifier pe)
                (pen_RegistrationLife pe) updatedPolicySettings (Some userTransport) (Some asapTransport)
                fd assocID (env_Now env) m) (\<lambda>(e, node, m1). Inr ((e, node), m1))) r) (\<lambda>((errorCode, node), r1).
     if errorCode = RSPERR_OKAY
     then case node of None \<Rightarrow> Inl NullAccess | Some p \<Rightarrow> bindR (afterRegistration env p r1) (\<lambda>r2. Inr (errorCode, r2))
     else Inr (errorCode, r1)))"

definition registrarHandleASAPRegistration :: "Environment \<Rightarrow> int \<Rightarrow> u32 \<Rightarrow> RSerPoolMessage \<Rightarrow> Registrar \<Rightarrow> fault + Registrar" where
  "registrarHandleASAPRegistration env fd assocID message r =
     (case PoolElementPtr message of
        None \<Rightarrow> Inl NullAccess
      | Some pe \<Rightarrow>
          let gl = env_LogLevel env;
              message1 = message\<lparr>Type := AHT_REGISTRATION_RESPONSE, Flags := 0, Error := RSPERR_OKAY,
                                 Identifier := pen_Identifier pe\<rparr>
          in bindR (transportAddressBlockGetAddressesFromSCTPSocket env fd assocID MAX_PE_TRANSPORTADDRESSES False) (\<lambda>remote.
          case remote of
            None \<Rightarrow> Inr r
          | Some remoteAddressBlock \<Rightarrow>
              bindR (case pen_UserTransport pe of
                       None \<Rightarrow> Inl NullAccess
                     | Some ut \<Rightarrow> transportAddressBlockFilter gl ut (Some remoteAddressBlock) noBlock
                         MAX_PE_TRANSPORTADDRESSES False (pr_MinEndpointAddressScope r)) (\<lambda>(users, userTransport).
              bindR (if users > 0
                     then bindR (transportAddressBlockFilter gl remoteAddressBlock None noBlock
                                   MAX_PE_TRANSPORTADDRESSES True (pr_MinEndpointAddressScope r)) (\<lambda>(asaps, asapTransport).
                          if asaps > 0 then registerFor env fd assocID message1 pe userTransport asapTransport r
                          else Inr (RSPERR_NO_USABLE_ASAP_ADDRESSES, r))
                     else Inr (RSPERR_NO_USABLE_USER_ADDRESSES, r)) (\<lambda>(errorCode, r1).
              Inr (reply fd assocID (message1\<lparr>Error := errorCode,
                     Flags := (if errorCode = RSPERR_OKAY then 0 else AHF_REGISTRATION_REJECT)\<rparr>) r1)))))"

section \<open>Deregistration\<close>

definition deregisterFor :: "Environment \<Rightarrow> peName \<Rightarrow> Registrar \<Rightarrow> fault + (u16 \<times> Registrar)" where
  "deregisterFor env p r =
     (let hs = handlespaceOf r;
          handle = pn_Handle (poolAt hs (fst p));
          n = elementAt hs p;
          registratorTransport = transportAddressBlockDuplicate (env_Memory env) (pen_RegistratorTransport n);
          userTransport = transportAddressBlockDuplicate (env_Memory env) (pen_UserTransport n)
      in if userTransport \<noteq> None \<and> registratorTransport \<noteq> None
         then bindR (onHandlespace env (poolHandlespaceManagementDeregisterPoolElementByPtr p) r) (\<lambda>(errorCode, r1).
              if errorCode = RSPERR_OKAY
              then let n1 = n\<lparr>pen_RegistratorTransport := registratorTransport, pen_UserTransport := userTransport,
                              pen_HomeRegistrarIdentifier := pr_ServerID r1\<rparr>
                   in bindR (registrarSendENRPHandleUpdate env handle n1 PNUP_DEL_PE r1) (\<lambda>r2.
                      Inr (errorCode, countMessage (\<lambda>s. s\<lparr>DeregistrationCount := DeregistrationCount s + 1\<rparr>) r2))
              else Inr (errorCode, r1))
         else Inr (RSPERR_OUT_OF_MEMORY, r))"

definition registrarHandleASAPDeregistration :: "Environment \<Rightarrow> int \<Rightarrow> u32 \<Rightarrow> RSerPoolMessage \<Rightarrow> Registrar \<Rightarrow> fault + Registrar" where
  "registrarHandleASAPDeregistration env fd assocID message r =
     bindR (poolHandlespaceManagementFindPoolElement (pr_Handlespace r) (Handle message) (Identifier message)) (\<lambda>node.
     bindR (case node of
              Some p \<Rightarrow> deregisterFor env p r
            | None \<Rightarrow> Inr (RSPERR_OKAY, r)) (\<lambda>(errorCode, r1).
     Inr (reply fd assocID (message\<lparr>Type := AHT_DEREGISTRATION_RESPONSE, Flags := 0, Error := errorCode\<rparr>) r1)))"

section \<open>Handle resolution\<close>

definition resolve :: "Environment \<Rightarrow> RSerPoolMessage \<Rightarrow> Registrar \<Rightarrow> fault + ((u16 \<times> peName list) \<times> Registrar)" where
  "resolve env message r =
     (let items = (if Addresses message = 0 then pr_MaxHandleResolutionItems r else Addresses message) in
      onHandlespace env (\<lambda>m.
        bindR (poolHandlespaceManagementHandleResolution (env_Random env) (Handle message)
                 (min items MAX_MAX_HANDLE_RESOLUTION_ITEMS) (pr_MaxIncrement r) m) (\<lambda>(e, nodes, m1).
        Inr ((e, nodes), m1))) r)"

text \<open>The response names the selected pool elements and the policy settings of the first of them.\<close>

definition resolution :: "PoolHandlespaceNode \<Rightarrow> peName list \<Rightarrow> RSerPoolMessage \<Rightarrow> RSerPoolMessage" where
  "resolution hs nodes message =
     message\<lparr>PolicySettings := (case nodes of [] \<Rightarrow> PolicySettings message | p # _ \<Rightarrow> pen_PolicySettings (elementAt hs p)),
             PoolElementPtrArraySize := length nodes,
             PoolElementPtrArray := map (\<lambda>p. Some (elementAt hs p)) nodes @ drop (length nodes) (PoolElementPtrArray message)\<rparr>"

definition registrarHandleASAPHandleResolution :: "Environment \<Rightarrow> int \<Rightarrow> u32 \<Rightarrow> RSerPoolMessage \<Rightarrow> Registrar \<Rightarrow> fault + Registrar" where
  "registrarHandleASAPHandleResolution env fd assocID message r =
     (let r1 = countMessage (\<lambda>s. s\<lparr>HandleResolutionCount := HandleResolutionCount s + 1\<rparr>) r;
          message1 = message\<lparr>Type := AHT_HANDLE_RESOLUTION_RESPONSE, Flags := 0\<rparr>
      in bindR (if pr_MaxHRRate r1 > 0
                then registrarPoolUserHasPermissionFor env fd assocID AHT_HANDLE_RESOLUTION (Handle message) 0 r1
                else Inr (True, r1)) (\<lambda>(permitted, r2).
         bindR (if permitted then resolve env message r2 else Inr ((RSPERR_NOT_FOUND, []), r2)) (\<lambda>((errorCode, nodes), r3).
         Inr (reply fd assocID
                (if errorCode = RSPERR_OKAY
                 then resolution (handlespaceOf r3) nodes (message1\<lparr>Error := errorCode\<rparr>)
                 else message1\<lparr>Error := errorCode\<rparr>) r3))))"

section \<open>Monitoring\<close>

definition registrarHandleASAPEndpointKeepAliveAck :: "Environment \<Rightarrow> RSerPoolMessage \<Rightarrow> Registrar \<Rightarrow> fault + Registrar" where
  "registrarHandleASAPEndpointKeepAliveAck env message r =
     bindR (poolHandlespaceManagementFindPoolElement (pr_Handlespace r) (Handle message) (Identifier message)) (\<lambda>node.
     case node of
       None \<Rightarrow> Inr r
     | Some p \<Rightarrow>
         bindR (onNode (poolHandlespaceNodeDeactivateTimer p) r) (\<lambda>r1.
         bindR (onNode (poolHandlespaceNodeActivateTimer p PENT_KEEPALIVE_TRANSMISSION
                          (env_Now env + pr_EndpointKeepAliveTransmissionInterval r1)) r1) (\<lambda>r2.
         Inr (restartHandlespaceActionTimer r2))))"

definition registrarHandleASAPEndpointUnreachable :: "Environment \<Rightarrow> int \<Rightarrow> u32 \<Rightarrow> RSerPoolMessage \<Rightarrow> Registrar \<Rightarrow> fault + Registrar" where
  "registrarHandleASAPEndpointUnreachable env fd assocID message r =
     bindR (if pr_MaxEURate r > 0
            then registrarPoolUserHasPermissionFor env fd assocID AHT_ENDPOINT_UNREACHABLE (Handle message) 0 r
            else Inr (True, r)) (\<lambda>(permitted, r1).
     if \<not> permitted then Inr r1
     else
       let r2 = countMessage (\<lambda>s. s\<lparr>FailureReportCount := FailureReportCount s + 1\<rparr>) r1 in
       bindR (poolHandlespaceManagementFindPoolElement (pr_Handlespace r2) (Handle message) (Identifier message)) (\<lambda>node.
       case node of
         None \<Rightarrow> Inr r2
       | Some p \<Rightarrow>
           let r3 = withNode (setElement p (\<lambda>n. n\<lparr>pen_UnreachabilityReports := pen_UnreachabilityReports n + 1\<rparr>)
                                (handlespaceOf r2)) r2
           in if unat (pen_UnreachabilityReports (elementAt (handlespaceOf r3) p)) \<ge> pr_MaxBadPEReports r3
              then bindR (removeElement env p r3) (\<lambda>(_, r4). Inr r4)
              else Inr r3))"

end
