(* ===== verification/RSP_RegistrarENRP.thy ===== *)
theory RSP_RegistrarENRP
  imports RSP_RegistrarASAP
begin

text \<open>
  The ENRP side of the registrar (rspregistrar-enrp.c, rspregistrar-takeover.c): handle updates,
  the synchronisation of peer lists and handle tables, the audit by presences, and takeovers.
\<close>

unbundle bit_operations_syntax

section \<open>Handle updates\<close>

definition replicate_add :: "Environment \<Rightarrow> int \<Rightarrow> u32 \<Rightarrow> RSerPoolMessage \<Rightarrow> PoolElementNode \<Rightarrow> Registrar \<Rightarrow> fault + Registrar" where
  "replicate_add env fd assocID message pe r =
     bindR (registrarUpdateDistance env r fd assocID pe True 0xffffffff) (\<lambda>(updatedPolicySettings, _).
     bindR (onHandlespace env (\<lambda>m.
              bindR (poolHandlespaceManagementRegisterPoolElement (Handle message) (pen_HomeRegistrarIdentifier pe)
                (pen_Identifier pe) (pen_RegistrationLife pe) updatedPolicySettings (pen_UserTransport pe)
                (pen_RegistratorTransport pe) (-1) 0 (env_Now env) m) (\<lambda>(e, node, m1). Inr ((e, node), m1))) r)
       (\<lambda>((errorCode, node), r1).
     if errorCode = RSPERR_OKAY
     then case node of
            None \<Rightarrow> Inl NullAccess
          | Some p \<Rightarrow>
              bindR (if poolHandlespaceNodeHasActiveTimer (handlespaceOf r1) p
                     then onNode (poolHandlespaceNodeDeactivateTimer p) r1 else Inr r1) (\<lambda>r2.
              bindR (onNode (poolHandlespaceNodeActivateTimer p PENT_EXPIRY (env_Now env + 1000 *
                       ucast (pen_RegistrationLife (elementAt (handlespaceOf r2) p)))) r2) (\<lambda>r3.
              let r4 = restartHandlespaceActionTimer r3 in
              if Flags message AND EHF_TAKEOVER_SUGGESTED \<noteq> 0 \<and> pr_ENRPSupportTakeoverSuggestion r4 \<and>
                 pen_HomeRegistrarIdentifier (elementAt (handlespaceOf r4) p) \<noteq> pr_ServerID r4
              then registrarSendASAPEndpointKeepAlive env p True r4
              else Inr r4))
     else Inr r1))"

definition registrarHandleENRPHandleUpdate :: "Environment \<Rightarrow> int \<Rightarrow> u32 \<Rightarrow> RSerPoolMessage \<Rightarrow> Registrar \<Rightarrow> fault + Registrar" where
  "registrarHandleENRPHandleUpdate env fd assocID message r =
     (if SenderID message = pr_ServerID r then Inr r
      else
        let r0 = countMessage (\<lambda>s. s\<lparr>HandleUpdateCount := HandleUpdateCount s + 1\<rparr>) r in
        if Action message = PNUP_ADD_PE
        then case PoolElementPtr message of
               None \<Rightarrow> Inl NullAccess
             | Some pe \<Rightarrow>
                 if pen_HomeRegistrarIdentifier pe \<noteq> pr_ServerID r0 then replicate_add env fd assocID message pe r0
                 else Inr r0
        else if Action message = PNUP_DEL_PE
        then case PoolElementPtr message of
               None \<Rightarrow> Inl NullAccess
             | Some pe \<Rightarrow>
                 bindR (poolHandlespaceManagementFindPoolElement (pr_Handlespace r0) (Handle message) (pen_Identifier pe)) (\<lambda>node.
                 case node of
                   None \<Rightarrow> Inr r0
                 | Some p \<Rightarrow>
                     bindR (onHandlespace env (poolHandlespaceManagementDeregisterPoolElementByPtr p) r0) (\<lambda>(_, r1). Inr r1))
        else Inr r0)"

section \<open>Peer lists\<close>

definition registrarHandleENRPListRequest :: "Environment \<Rightarrow> int \<Rightarrow> u32 \<Rightarrow> RSerPoolMessage \<Rightarrow> Registrar \<Rightarrow> fault + Registrar" where
  "registrarHandleENRPListRequest env fd assocID message r =
     (if SenderID message = pr_ServerID r then Inr r
      else if env_Memory env
      then let response = (newMessage env 65536)\<lparr>Type := EHT_LIST_RESPONSE, AssocID := assocID, Flags := 0,
                 SenderID := pr_ServerID r, ReceiverID := SenderID message\<rparr>
           in Inr (emitOutput (Send ((transmission fd assocID [] response)
                     \<lparr>tx_Tables := noTables\<lparr>PeerListPtr := Some (pr_Peers r)\<rparr>\<rparr>)) r)
      else Inr r)"

definition registrarSendENRPListRequest ::
  "Environment \<Rightarrow> int \<Rightarrow> u32 \<Rightarrow> sockaddr_union list \<Rightarrow> u32 \<Rightarrow> Registrar \<Rightarrow> Registrar" where
  "registrarSendENRPListRequest env sd assocID destinations receiverID r =
     (if env_Memory env
      then emitOutput (Send (transmission sd assocID destinations
             ((newMessage env 65536)\<lparr>Type := EHT_LIST_REQUEST, PPID := PPID_ENRP, AssocID := assocID,
                Addresses := length destinations, Flags := 0, SenderID := pr_ServerID r, ReceiverID := receiverID\<rparr>))) r
      else r)"

definition learnPeer :: "Environment \<Rightarrow> PeerListNode \<Rightarrow> Registrar \<Rightarrow> fault + Registrar" where
  "learnPeer env n r =
     (if pln_Identifier n = UNDEFINED_REGISTRAR_IDENTIFIER then Inr r
      else
        bindR (peerListManagementRegisterPeerListNode (env_LogLevel env) (Some (handlespaceOf r)) (pln_Identifier n)
                 (pln_Flags n) (pln_AddressBlock n) (env_Now env) (pr_Peers r)) (\<lambda>(result, node, m).
        let r1 = r\<lparr>pr_Peers := m\<rparr> in
        if result = RSPERR_OKAY
        then case node of
               Some (Some p) \<Rightarrow>
                 if timerLinked (peersOf r1) p then Inr r1
                 else bindR (onPeers (peerListManagementActivateTimer p PLNT_MAX_TIME_LAST_HEARD
                               (env_Now env + pr_PeerMaxTimeLastHeard r1)) r1) (\<lambda>r2.
                      bindR (addressesOf (pln_AddressBlock (peerAt (peersOf r2) p))) (\<lambda>addresses.
                      registrarSendENRPPresence env (pr_ENRPUnicastSocket r2) 0 addresses
                        (pln_Identifier (peerAt (peersOf r2) p)) False r2))
             | _ \<Rightarrow> Inl NullAccess
        else Inr r1))"

primrec learnPeers :: "Environment \<Rightarrow> PeerListNode list \<Rightarrow> Registrar \<Rightarrow> fault + Registrar" where
  "learnPeers env [] r = Inr r"
| "learnPeers env (n # ns) r = bindR (learnPeer env n r) (learnPeers env ns)"

definition registrarHandleENRPListResponse ::
  "Environment \<Rightarrow> RSerPoolMessage \<Rightarrow> MessageTables \<Rightarrow> Registrar \<Rightarrow> fault + Registrar" where
  "registrarHandleENRPListResponse env message tables r =
     (if SenderID message = pr_ServerID r then Inr r
      else if Flags message AND EHF_LIST_RESPONSE_REJECT \<noteq> 0 then Inr r
      else bindR (case PeerListPtr tables of
                    None \<Rightarrow> Inr r
                  | Some m \<Rightarrow> learnPeers env (map (peerAt (plm_List m)) (peersByIndex (plm_List m))) r) (\<lambda>r1.
           Inr (restartPeerActionTimer r1)))"

section \<open>Handle tables\<close>

text \<open>The packet of the response is made with the extract of the peer, which it moves on.\<close>

definition registrarHandleENRPHandleTableRequest :: "Environment \<Rightarrow> int \<Rightarrow> u32 \<Rightarrow> RSerPoolMessage \<Rightarrow> Registrar \<Rightarrow> fault + Registrar" where
  "registrarHandleENRPHandleTableRequest env fd assocID message r0 =
     (if SenderID message = pr_ServerID r0 then Inr r0
      else
        let r = countMessage (\<lambda>s. s\<lparr>SynchronizationCount := SynchronizationCount s + 1\<rparr>) r0 in
        bindR (peerListManagementFindPeerListNode (env_LogLevel env) (SenderID message) None (pr_Peers r)) (\<lambda>peer.
        if env_Memory env
        then let response = (newMessage env 1400)\<lparr>Type := EHT_HANDLE_TABLE_RESPONSE, AssocID := assocID,
                   Flags := (if peer = None then EHF_HANDLE_TABLE_RESPONSE_REJECT else 0),
                   SenderID := pr_ServerID r, ReceiverID := SenderID message, Action := ucast (Flags message),
                   PeerListNodePtr := map_option (peerAt (peersOf r)) peer\<rparr>;
                 tx = (transmission fd assocID [] response)
                   \<lparr>tx_Tables := noTables\<lparr>HandlespacePtr := Some (pr_Handlespace r)\<rparr>,
                    tx_MaxElements := pr_MaxElementsPerHTRequest r,
                    tx_UserData := (case peer of None \<Rightarrow> None | Some p \<Rightarrow> pr_UserData r p)\<rparr>
             in bindR (rserpoolMessage2Packet (tx_Tables tx) (tx_MaxElements tx) (tx_UserData tx) response) (\<lambda>((_, userData), _).
                Inr (emitOutput (Send tx) (case peer of
                       None \<Rightarrow> r
                     | Some p \<Rightarrow> r\<lparr>pr_UserData := (pr_UserData r)(p := userData)\<rparr>)))
        else Inr r))"

definition registrarSendENRPHandleTableRequest ::
  "Environment \<Rightarrow> int \<Rightarrow> u32 \<Rightarrow> sockaddr_union list \<Rightarrow> u32 \<Rightarrow> byte \<Rightarrow> Registrar \<Rightarrow> Registrar" where
  "registrarSendENRPHandleTableRequest env sd assocID destinations receiverID flags r =
     (if env_Memory env
      then emitOutput (Send (transmission sd assocID destinations
             ((newMessage env 65536)\<lparr>Type := EHT_HANDLE_TABLE_REQUEST, PPID := PPID_ENRP, AssocID := assocID,
                Addresses := length destinations, Flags := flags, SenderID := pr_ServerID r, ReceiverID := receiverID\<rparr>))) r
      else r)"

text \<open>
  The loop over the pool elements of a response. The distance is kept from one pool element
  to the next.
\<close>

definition tableElement ::
  "Environment \<Rightarrow> int \<Rightarrow> u32 \<Rightarrow> PoolHandlespaceNode \<Rightarrow> peName \<Rightarrow> u32 \<times> Registrar \<Rightarrow> fault + (u32 \<times> Registrar)" where
  "tableElement env fd assocID table p s =
     (case s of (distance, r) \<Rightarrow>
        let n = elementAt table p in
        bindR (registrarUpdateDistance env r fd assocID n True distance) (\<lambda>(updatedPolicySettings, distance1).
        if pen_HomeRegistrarIdentifier n \<noteq> pr_ServerID r
        then bindR (onHandlespace env (\<lambda>m.
                     bindR (poolHandlespaceManagementRegisterPoolElement (pn_Handle (poolAt table (fst p)))
                       (pen_HomeRegistrarIdentifier n) (pen_Identifier n) (pen_RegistrationLife n) updatedPolicySettings
                       (pen_UserTransport n) (pen_RegistratorTransport n) (-1) 0 (env_Now env) m) (\<lambda>(e, node, m1).
                     Inr ((e, node), m1))) r) (\<lambda>((errorCode, node), r1).
             if errorCode = RSPERR_OKAY
             then case node of
                    None \<Rightarrow> Inl NullAccess
                  | Some q \<Rightarrow>
                      if poolHandlespaceNodeHasActiveTimer (handlespaceOf r1) q then Inr (distance1, r1)
                      else bindR (onNode (poolHandlespaceNodeActivateTimer q PENT_EXPIRY (env_Now env + 1000 *
                             ucast (pen_RegistrationLife (elementAt (handlespaceOf r1) q)))) r1) (\<lambda>r2. Inr (distance1, r2))
             else Inr (distance1, r1))
        else Inr (distance1, r)))"

primrec tableElements ::
  "Environment \<Rightarrow> int \<Rightarrow> u32 \<Rightarrow> PoolHandlespaceNode \<Rightarrow> peName list \<Rightarrow> u32 \<times> Registrar \<Rightarrow> fault + (u32 \<times> Registrar)" where
  "tableElements env fd assocID table [] s = Inr s"
| "tableElements env fd assocID table (p # ps) s =
     bindR (tableElement env fd assocID table p s) (tableElements env fd assocID table ps)"

definition ownershipNodes :: "PoolHandlespaceNode \<Rightarrow> peName list" where
  "ownershipNodes hs = map ofOwnershipEntry
     (visitAll poolElementOwnershipStorageNodeComparison (hsn_PoolElementOwnershipStorage hs))"

section \<open>Begin of the normal operation\<close>

definition registrarBeginNormalOperation :: "Registrar \<Rightarrow> fault + Registrar" where
  "registrarBeginNormalOperation r =
     (let r1 = r\<lparr>pr_InStartupPhase := False\<rparr> in
      if pr_ASAPSendAnnounces r1
      then bindR (timerStart (pr_ASAPAnnounceTimer r1) 0) (\<lambda>t. Inr (r1\<lparr>pr_ASAPAnnounceTimer := t\<rparr>))
      else Inr r1)"

abbreviation (input) "synchronisationDone n \<equiv> n\<lparr>pln_Status := pln_Status n AND NOT (PLNS_MENTOR OR PLNS_HTSYNC)\<rparr>"

definition registrarHandleENRPHandleTableResponse ::
  "Environment \<Rightarrow> int \<Rightarrow> u32 \<Rightarrow> RSerPoolMessage \<Rightarrow> MessageTables \<Rightarrow> Registrar \<Rightarrow> fault + Registrar" where
  "registrarHandleENRPHandleTableResponse env fd assocID message tables r =
     (if SenderID message = pr_ServerID r then Inr r
      else
        bindR (peerListManagementFindPeerListNode (env_LogLevel env) (SenderID message) None (pr_Peers r)) (\<lambda>peer.
        case peer of
          None \<Rightarrow> Inr r
        | Some q \<Rightarrow>
            if Flags message AND EHF_HANDLE_TABLE_RESPONSE_REJECT \<noteq> 0
            then Inr (updatePeer q (\<lambda>n. synchronisationDone n) r)
            else case HandlespacePtr tables of
              None \<Rightarrow> Inr (updatePeer q (\<lambda>n. synchronisationDone n) r)
            | Some table \<Rightarrow>
                bindR (tableElements env fd assocID (hsm_Handlespace table) (ownershipNodes (hsm_Handlespace table))
                         (0xffffffff, r)) (\<lambda>(_, r1).
                let r2 = restartHandlespaceActionTimer r1 in
                if Flags message AND EHF_HANDLE_TABLE_RESPONSE_MORE_TO_SEND \<noteq> 0
                then Inr (registrarSendENRPHandleTableRequest env fd (AssocID message) [] (SenderID message)
                       (if pln_Status (peerAt (peersOf r2) q) AND PLNS_MENTOR \<noteq> 0 then 0
                        else EHF_HANDLE_TABLE_REQUEST_OWN_CHILDREN_ONLY) r2)
                else
                  bindR (onHandlespace env (poolHandlespaceManagementPurgeMarkedPoolElementNodes (SenderID message))
                           (updatePeer q (\<lambda>n. synchronisationDone n) r2)) (\<lambda>(_, r3).
                  if pr_InStartupPhase r3 \<and> pr_MentorServerID r3 = SenderID message
                  then registrarBeginNormalOperation r3 else Inr r3))))"

section \<open>Presences\<close>

text \<open>The addresses of the peer that has sent a presence; \<open>None\<close> when there are no usable ones.\<close>

definition presenceAddresses ::
  "Environment \<Rightarrow> int \<Rightarrow> u32 \<Rightarrow> RSerPoolMessage \<Rightarrow> PeerListNode \<Rightarrow> Registrar \<Rightarrow> fault + TransportAddressBlock option" where
  "presenceAddresses env fd assocID message peer r =
     (if fd = pr_ENRPMulticastInputSocket r
      then bindR (case pln_AddressBlock peer of
                    Some b \<Rightarrow> Inr (tab_Port b)
                  | None \<Rightarrow> getPort (env_LogLevel env) (SourceAddress message)) (\<lambda>port.
           Inr (Some (transportAddressBlockNew IPPROTO_SCTP port 0 [SourceAddress message] 1 MAX_PE_TRANSPORTADDRESSES)))
      else
        bindR (transportAddressBlockGetAddressesFromSCTPSocket env fd assocID MAX_PE_TRANSPORTADDRESSES False) (\<lambda>remote.
        case remote of
          None \<Rightarrow> Inr None
        | Some remoteAddressBlock \<Rightarrow>
            (case pln_AddressBlock peer of
               None \<Rightarrow> Inl NullAccess
             | Some b \<Rightarrow>
                 bindR (transportAddressBlockFilter (env_LogLevel env) b (Some remoteAddressBlock) noBlock
                          MAX_PE_TRANSPORTADDRESSES True (pr_MinEndpointAddressScope r)) (\<lambda>(n, enrpTransportAddressBlock).
                 Inr (if n = 0 then None else Some enrpTransportAddressBlock)))))"

definition queryMentor :: "Environment \<Rightarrow> nat \<Rightarrow> Registrar \<Rightarrow> fault + Registrar" where
  "queryMentor env p r =
     (if pr_InStartupPhase r \<and> pr_MentorServerID r = UNDEFINED_REGISTRAR_IDENTIFIER
      then let r1 = (updatePeer p (\<lambda>n. n\<lparr>pln_Status := pln_Status n OR (PLNS_LISTSYNC OR PLNS_HTSYNC OR PLNS_MENTOR)\<rparr>) r)
                      \<lparr>pr_MentorServerID := pln_Identifier (peerAt (peersOf r) p)\<rparr>;
               n = peerAt (peersOf r1) p
           in bindR (addressesOf (pln_AddressBlock n)) (\<lambda>addresses. Inr (
              registrarSendENRPHandleTableRequest env (pr_ENRPUnicastSocket r1) 0 addresses (pln_Identifier n) 0
                (registrarSendENRPListRequest env (pr_ENRPUnicastSocket r1) 0 addresses (pln_Identifier n) r1)))
      else Inr r)"

text \<open>The audit of a presence that came over an association.\<close>

definition audit :: "Environment \<Rightarrow> int \<Rightarrow> u32 \<Rightarrow> RSerPoolMessage \<Rightarrow> nat \<Rightarrow> Registrar \<Rightarrow> fault + Registrar" where
  "audit env fd assocID message p r =
     (if assocID = 0 then Inr r
      else
        let n = peerAt (peersOf r) p in
        bindR (if pln_Status n AND PLNS_HTSYNC = 0 \<and> peerListNodeGetOwnershipChecksum n \<noteq> Checksum message
               then let r1 = registrarSendENRPHandleTableRequest env fd assocID [] (pln_Identifier n)
                               EHF_HANDLE_TABLE_REQUEST_OWN_CHILDREN_ONLY
                               (updatePeer p (\<lambda>n. n\<lparr>pln_Status := pln_Status n OR PLNS_HTSYNC\<rparr>) r)
                    in bindR (poolHandlespaceManagementMarkPoolElementNodes (SenderID message) (pr_Handlespace r1)) (\<lambda>m.
                       Inr (r1\<lparr>pr_Handlespace := m\<rparr>))
               else Inr r) (\<lambda>r2.
        if pln_Status (peerAt (peersOf r2) p) AND PLNS_LISTSYNC = 0
        then Inr (registrarSendENRPListRequest env fd assocID [] (pln_Identifier n)
                    (updatePeer p (\<lambda>n. n\<lparr>pln_Status := pln_Status n OR PLNS_LISTSYNC\<rparr>) r2))
        else Inr r2))"

definition presenceOf :: "Environment \<Rightarrow> int \<Rightarrow> u32 \<Rightarrow> RSerPoolMessage \<Rightarrow> nat \<Rightarrow> Registrar \<Rightarrow> fault + Registrar" where
  "presenceOf env fd assocID message p r =
     bindR (if pln_Flags (peerAt (peersOf r) p) AND PLNF_NEW \<noteq> 0
            then bindR (addressesOf (pln_AddressBlock (peerAt (peersOf r) p))) (\<lambda>addresses.
                 registrarSendENRPPresence env (pr_ENRPUnicastSocket r) 0 addresses
                   (pln_Identifier (peerAt (peersOf r) p)) True r)
            else Inr r) (\<lambda>r1.
     bindR (queryMentor env p r1) (\<lambda>r2.
     bindR (audit env fd assocID message p r2) (\<lambda>r3.
     bindR (if timerLinked (peersOf r3) p then onPeers (peerListManagementDeactivateTimer p) r3 else Inr r3) (\<lambda>r4.
     bindR (onPeers (peerListManagementActivateTimer p PLNT_MAX_TIME_LAST_HEARD
                       (env_Now env + pr_PeerMaxTimeLastHeard r4)) r4) (\<lambda>r5.
     let r6 = restartPeerActionTimer r5 in
     if Flags message AND EHF_PRESENCE_REPLY_REQUIRED \<noteq> 0 \<and> fd \<noteq> pr_ENRPMulticastOutputSocket r6 \<and>
        SenderID message \<noteq> UNDEFINED_REGISTRAR_IDENTIFIER
     then registrarSendENRPPresence env fd (AssocID message) [] (SenderID message) False r6
     else Inr r6)))))"

text \<open>
  After a registration that failed, the pointer to the peer is not initialised, or \<open>NULL\<close>, and
  is used all the same.
\<close>

definition registrarHandleENRPPresence :: "Environment \<Rightarrow> int \<Rightarrow> u32 \<Rightarrow> RSerPoolMessage \<Rightarrow> Registrar \<Rightarrow> fault + Registrar" where
  "registrarHandleENRPPresence env fd assocID message r =
     (if SenderID message = pr_ServerID r then Inr r
      else case PeerListNodePtr message of
        None \<Rightarrow> Inl NullAccess
      | Some peer \<Rightarrow>
          bindR (presenceAddresses env fd assocID message peer r) (\<lambda>block.
          case block of
            None \<Rightarrow> Inr r
          | Some enrpTransportAddressBlock \<Rightarrow>
              bindR (peerListManagementRegisterPeerListNode (env_LogLevel env) (Some (handlespaceOf r)) (pln_Identifier peer)
                       (PLNF_DYNAMIC OR PLNF_NEW) (Some enrpTransportAddressBlock) (env_Now env) (pr_Peers r)) (\<lambda>(result, node, m).
              case node of
                Some (Some p) \<Rightarrow>
                  bindR (if result = RSPERR_OKAY then presenceOf env fd assocID message p (r\<lparr>pr_Peers := m\<rparr>)
                         else Inr (r\<lparr>pr_Peers := m\<rparr>)) (\<lambda>r1.
                  Inr (updatePeer p (\<lambda>n. n\<lparr>pln_TakeoverRegistrarID := UNDEFINED_REGISTRAR_IDENTIFIER,
                                             pln_TakeoverProcess := None\<rparr>) r1))
              | _ \<Rightarrow> Inl NullAccess)))"

definition multicastPresence :: "Environment \<Rightarrow> Registrar \<Rightarrow> fault + Registrar" where
  "multicastPresence env r =
     (if pr_ENRPAnnounceViaMulticast r
      then registrarSendENRPPresence env (pr_ENRPMulticastOutputSocket r) 0 [pr_ENRPMulticastAddress r] 0 False r
      else Inr r)"

definition registrarHandleENRPAnnounceTimer :: "Environment \<Rightarrow> Registrar \<Rightarrow> fault + Registrar" where
  "registrarHandleENRPAnnounceTimer env r =
     bindR (if pr_InStartupPhase r then registrarBeginNormalOperation r else Inr r) (\<lambda>r1.
     bindR (multicastPresence env r1) (\<lambda>r2.
     bindR (registrarSendENRPPresenceToAllPeers env r2) (\<lambda>r3.
     bindR (timerStart (pr_ENRPAnnounceTimer r3) (env_Now env + registrarRandomizeCycle env (pr_PeerHeartbeatCycle r3)))
       (\<lambda>t. Inr (r3\<lparr>pr_ENRPAnnounceTimer := t\<rparr>)))))"

section \<open>Takeover\<close>

definition takeoverMessage :: "Environment \<Rightarrow> Registrar \<Rightarrow> u32 \<Rightarrow> u32 \<Rightarrow> u32 \<Rightarrow> RSerPoolMessage" where
  "takeoverMessage env r type receiverID targetID =
     (newMessage env 65536)\<lparr>Type := type, Flags := 0, SenderID := pr_ServerID r, ReceiverID := receiverID,
       RegistrarIdentifier := targetID\<rparr>"

definition registrarSendENRPInitTakeoverToAllPeers :: "Environment \<Rightarrow> u32 \<Rightarrow> Registrar \<Rightarrow> fault + Registrar" where
  "registrarSendENRPInitTakeoverToAllPeers env targetID r =
     (if env_Memory env
      then sendToPeers (\<lambda>peer addresses r1. Inr (emitOutput (Send (transmission (pr_ENRPUnicastSocket r1) 0 addresses
             ((takeoverMessage env r1 EHT_INIT_TAKEOVER (pln_Identifier peer) targetID)\<lparr>Addresses := length addresses\<rparr>))) r1))
             (peersByIndex (peersOf r)) r
      else Inr r)"

definition registrarSendENRPInitTakeoverAck :: "Environment \<Rightarrow> int \<Rightarrow> u32 \<Rightarrow> u32 \<Rightarrow> u32 \<Rightarrow> Registrar \<Rightarrow> Registrar" where
  "registrarSendENRPInitTakeoverAck env sd assocID receiverID targetID r =
     (if env_Memory env
      then emitOutput (Send (transmission sd assocID []
             ((takeoverMessage env r EHT_INIT_TAKEOVER_ACK receiverID targetID)\<lparr>AssocID := assocID\<rparr>))) r
      else r)"

text \<open>The message goes to each peer without an address and without an association.\<close>

definition registrarSendENRPTakeoverServer :: "Environment \<Rightarrow> int \<Rightarrow> u32 \<Rightarrow> sockaddr_union list \<Rightarrow> u32 \<Rightarrow> u32 \<Rightarrow> Registrar \<Rightarrow> Registrar" where
  "registrarSendENRPTakeoverServer env sd assocID destinations receiverID targetID r =
     (if env_Memory env
      then emitOutput (Send (transmission sd assocID destinations
             ((takeoverMessage env r EHT_TAKEOVER_SERVER receiverID targetID)
                \<lparr>PPID := PPID_ENRP, AssocID := assocID, Addresses := length destinations\<rparr>))) r
      else r)"

primrec takeoverServerToPeers :: "Environment \<Rightarrow> u32 \<Rightarrow> nat list \<Rightarrow> Registrar \<Rightarrow> Registrar" where
  "takeoverServerToPeers env targetID [] r = r"
| "takeoverServerToPeers env targetID (p # ps) r =
     (let i = pln_Identifier (peerAt (peersOf r) p) in
      takeoverServerToPeers env targetID ps
        (if i \<noteq> UNDEFINED_REGISTRAR_IDENTIFIER
         then registrarSendENRPTakeoverServer env (pr_ENRPUnicastSocket r) 0 [] i targetID r else r))"

definition registrarSendENRPTakeoverServerToAllPeers :: "Environment \<Rightarrow> u32 \<Rightarrow> Registrar \<Rightarrow> Registrar" where
  "registrarSendENRPTakeoverServerToAllPeers env targetID r =
     takeoverServerToPeers env targetID (peersByIndex (peersOf r)) r"

definition registrarHandleENRPInitTakeover :: "Environment \<Rightarrow> int \<Rightarrow> u32 \<Rightarrow> RSerPoolMessage \<Rightarrow> Registrar \<Rightarrow> fault + Registrar" where
  "registrarHandleENRPInitTakeover env fd assocID message r =
     (if SenderID message = pr_ServerID r then Inr r
      else if RegistrarIdentifier message = pr_ServerID r
      then bindR (multicastPresence env r) (registrarSendENRPPresenceToAllPeers env)
      else
        let acknowledge = registrarSendENRPInitTakeoverAck env fd assocID (SenderID message) (RegistrarIdentifier message) in
        bindR (peerListManagementFindPeerListNode (env_LogLevel env) (RegistrarIdentifier message) None (pr_Peers r)) (\<lambda>peer.
        case peer of
          None \<Rightarrow> Inr (acknowledge r)
        | Some p \<Rightarrow>
            (case pln_TakeoverProcess (peerAt (peersOf r) p) of
               Some _ \<Rightarrow>
                 if SenderID message < pr_ServerID r
                 then let r1 = updatePeer p (\<lambda>n. n\<lparr>pln_TakeoverProcess := None\<rparr>)
                                 (acknowledge (updatePeer p (\<lambda>n. n\<lparr>pln_TakeoverRegistrarID := SenderID message\<rparr>) r))
                      in bindR (onPeers (peerListManagementDeactivateTimer p) r1)
                           (onPeers (peerListManagementActivateTimer p PLNT_MAX_TIME_NO_RESPONSE
                              (env_Now env + pr_PeerMaxTimeNoResponse r1)))
                 else Inr r
             | None \<Rightarrow> Inr (acknowledge (updatePeer p (\<lambda>n. n\<lparr>pln_TakeoverRegistrarID := SenderID message\<rparr>) r)))))"

text \<open>The loop over the pool elements of the peer that is taken over.\<close>

definition takeElement :: "Environment \<Rightarrow> peName \<Rightarrow> Registrar \<Rightarrow> fault + Registrar" where
  "takeElement env p r =
     bindR (onNode (poolHandlespaceNodeDeactivateTimer p) r) (\<lambda>r1.
     bindR (onHandlespace env (\<lambda>m. bindR (poolHandlespaceManagementUpdateOwnershipOfPoolElementNode p (pr_ServerID r1) m)
              (\<lambda>m1. Inr ((), m1))) r1) (\<lambda>(_, r2).
     bindR (registrarSendASAPEndpointKeepAlive env p True r2) (\<lambda>r3.
     onNode (poolHandlespaceNodeActivateTimer p PENT_KEEPALIVE_TIMEOUT
               (env_Now env + pr_EndpointKeepAliveTimeoutInterval r3)) r3)))"

definition takenByPeer :: "Environment \<Rightarrow> u32 \<Rightarrow> peName \<Rightarrow> Registrar \<Rightarrow> fault + Registrar" where
  "takenByPeer env i p r =
     bindR (onHandlespace env (\<lambda>m. bindR (poolHandlespaceManagementUpdateOwnershipOfPoolElementNode p i m)
              (\<lambda>m1. Inr ((), m1))) r) (\<lambda>(_, r1). Inr r1)"

primrec forOwned ::
  "nat \<Rightarrow> (peName \<Rightarrow> Registrar \<Rightarrow> fault + Registrar) \<Rightarrow> peName option \<Rightarrow> Registrar \<Rightarrow> fault + Registrar" where
  "forOwned 0 f current r = (if current = None then Inr r else Inl NoFuel)"
| "forOwned (Suc k) f current r =
     (case current of
        None \<Rightarrow> Inr r
      | Some p \<Rightarrow>
          let next1 = poolHandlespaceNodeGetNextPoolElementOwnershipNodeForSameIdentifier (handlespaceOf r) p in
          bindR (f p r) (forOwned k f next1))"

definition forAllOwned :: "(peName \<Rightarrow> Registrar \<Rightarrow> fault + Registrar) \<Rightarrow> u32 \<Rightarrow> Registrar \<Rightarrow> fault + Registrar" where
  "forAllOwned f i r =
     bindR (poolHandlespaceNodeGetFirstPoolElementOwnershipNodeForIdentifier (handlespaceOf r) i) (\<lambda>first.
     forOwned (RedBlackTreeGetElements (hsn_PoolElementOwnershipStorage (handlespaceOf r))) f first r)"

definition registrarFinishTakeover :: "Environment \<Rightarrow> u32 \<Rightarrow> Registrar \<Rightarrow> fault + Registrar" where
  "registrarFinishTakeover env targetID r =
     bindR (forAllOwned (takeElement env) targetID (registrarSendENRPTakeoverServerToAllPeers env targetID r)) (\<lambda>r1.
     Inr (restartHandlespaceActionTimer r1))"

definition registrarHandleENRPInitTakeoverAck :: "Environment \<Rightarrow> RSerPoolMessage \<Rightarrow> Registrar \<Rightarrow> fault + Registrar" where
  "registrarHandleENRPInitTakeoverAck env message r =
     (if SenderID message = pr_ServerID r then Inr r
      else
        bindR (peerListManagementFindPeerListNode (env_LogLevel env) (RegistrarIdentifier message) None (pr_Peers r)) (\<lambda>peer.
        case peer of
          None \<Rightarrow> Inr r
        | Some p \<Rightarrow>
            (case pln_TakeoverProcess (peerAt (peersOf r) p) of
               None \<Rightarrow> Inr r
             | Some tp \<Rightarrow>
                 let (acksToGo, tp1) = takeoverProcessAcknowledge (RegistrarIdentifier message) (SenderID message) tp;
                     r1 = updatePeer p (\<lambda>n. n\<lparr>pln_TakeoverProcess := Some tp1\<rparr>) r
                 in if acksToGo > 0 then Inr r1
                    else bindR (registrarFinishTakeover env (RegistrarIdentifier message) r1) (\<lambda>r2.
                         deregisterPeer p (updatePeer p (\<lambda>n. n\<lparr>pln_TakeoverProcess := None\<rparr>) r2)))))"

definition registrarHandleENRPTakeoverServer :: "Environment \<Rightarrow> RSerPoolMessage \<Rightarrow> Registrar \<Rightarrow> fault + Registrar" where
  "registrarHandleENRPTakeoverServer env message r =
     (if SenderID message = pr_ServerID r then Inr r
      else forAllOwned (takenByPeer env (SenderID message)) (RegistrarIdentifier message) r)"

section \<open>Timers of peers\<close>

definition peerSilent :: "Environment \<Rightarrow> nat \<Rightarrow> Registrar \<Rightarrow> fault + Registrar" where
  "peerSilent env p r =
     bindR (addressesOf (pln_AddressBlock (peerAt (peersOf r) p))) (\<lambda>addresses.
     bindR (registrarSendENRPPresence env (pr_ENRPUnicastSocket r) 0 addresses
              (pln_Identifier (peerAt (peersOf r) p)) True r) (\<lambda>r1.
     bindR (onPeers (peerListManagementDeactivateTimer p) r1)
       (onPeers (peerListManagementActivateTimer p PLNT_MAX_TIME_NO_RESPONSE
          (env_Now env + pr_PeerMaxTimeNoResponse r1)))))"

definition peerDead :: "Environment \<Rightarrow> nat \<Rightarrow> Registrar \<Rightarrow> fault + Registrar" where
  "peerDead env p r =
     (let n = peerAt (peersOf r) p in
      CHECK (pln_TakeoverProcess n = None) (\<lambda>_.
      if pln_TakeoverRegistrarID n = UNDEFINED_REGISTRAR_IDENTIFIER
      then bindR (poolHandlespaceNodeGetFirstPoolElementOwnershipNodeForIdentifier (handlespaceOf r) (pln_Identifier n)) (\<lambda>owned.
           if owned \<noteq> None
           then bindR (takeoverProcessNew (pln_Identifier n) (pr_Peers r)) (\<lambda>process.
                let r1 = updatePeer p (\<lambda>n. n\<lparr>pln_TakeoverProcess := process\<rparr>) r in
                if process = None then Inr r1
                else bindR (registrarSendENRPInitTakeoverToAllPeers env (pln_Identifier n) r1) (\<lambda>r2.
                     bindR (onPeers (peerListManagementDeactivateTimer p) r2)
                       (onPeers (peerListManagementActivateTimer p PLNT_TAKEOVER_EXPIRY
                          (env_Now env + pr_TakeoverExpiryInterval r2)))))
           else deregisterPeer p r)
      else deregisterPeer p r))"

definition takeoverExpired :: "nat \<Rightarrow> Registrar \<Rightarrow> fault + Registrar" where
  "takeoverExpired p r =
     CHECK (pln_TakeoverProcess (peerAt (peersOf r) p) \<noteq> None) (\<lambda>_.
     deregisterPeer p (updatePeer p (\<lambda>n. n\<lparr>pln_TakeoverProcess := None\<rparr>) r))"

definition peerTimer :: "Environment \<Rightarrow> nat \<Rightarrow> Registrar \<Rightarrow> fault + Registrar" where
  "peerTimer env p r =
     (let code = pln_TimerCode (peerAt (peersOf r) p) in
      if code = PLNT_MAX_TIME_LAST_HEARD then peerSilent env p r
      else if code = PLNT_MAX_TIME_NO_RESPONSE then peerDead env p r
      else if code = PLNT_TAKEOVER_EXPIRY then takeoverExpired p r
      else LOG_END_FATAL (env_LogLevel env) (\<lambda>_. Inr r))"

text \<open>
  With intervals of 0, a peer is visited for each of the three timers, which bounds the rounds.
\<close>

primrec peerTimers :: "nat \<Rightarrow> Environment \<Rightarrow> nat option \<Rightarrow> Registrar \<Rightarrow> fault + Registrar" where
  "peerTimers 0 env current r = (if current = None then Inr r else Inl NoFuel)"
| "peerTimers (Suc k) env current r =
     (case current of
        None \<Rightarrow> Inr r
      | Some p \<Rightarrow>
          if pln_TimerTimeStamp (peerAt (peersOf r) p) \<le> env_Now env
          then let next1 = peerListGetNextPeerListNodeFromTimerStorage (peersOf r) p in
               bindR (peerTimer env p r) (peerTimers k env next1)
          else Inr r)"

definition registrarHandlePeerEvent :: "Environment \<Rightarrow> Registrar \<Rightarrow> fault + Registrar" where
  "registrarHandlePeerEvent env r =
     bindR (peerTimers (3 * RedBlackTreeGetElements (pl_Timer (peersOf r))) env
              (peerListGetFirstPeerListNodeFromTimerStorage (peersOf r)) r) (\<lambda>r1.
     Inr (restartPeerActionTimer r1))"

end
