(* ===== verification/RSP_RegistrarCore.thy ===== *)
theory RSP_RegistrarCore
  imports RSP_RegistrarENRP
begin

text \<open>
  The core of the registrar (rspregistrar-core.c): the dispatch of a message by its socket and
  type, the reaction to what arrives on a socket, and the timers that the dispatcher
  (dispatcher.c, timer.c) calls when they are due.
\<close>

unbundle bit_operations_syntax

section \<open>Messages\<close>

definition registrarHandleASAPMessage :: "Environment \<Rightarrow> int \<Rightarrow> RSerPoolMessage \<Rightarrow> Registrar \<Rightarrow> fault + Registrar" where
  "registrarHandleASAPMessage env sd message r =
     (if Type message = AHT_REGISTRATION then registrarHandleASAPRegistration env sd (AssocID message) message r
      else if Type message = AHT_HANDLE_RESOLUTION then registrarHandleASAPHandleResolution env sd (AssocID message) message r
      else if Type message = AHT_DEREGISTRATION then registrarHandleASAPDeregistration env sd (AssocID message) message r
      else if Type message = AHT_ENDPOINT_KEEP_ALIVE_ACK then registrarHandleASAPEndpointKeepAliveAck env message r
      else if Type message = AHT_ENDPOINT_UNREACHABLE then registrarHandleASAPEndpointUnreachable env sd (AssocID message) message r
      else Inr r)"

definition registrarHandleENRPMessage ::
  "Environment \<Rightarrow> int \<Rightarrow> RSerPoolMessage \<Rightarrow> MessageTables \<Rightarrow> Registrar \<Rightarrow> fault + Registrar" where
  "registrarHandleENRPMessage env sd message tables r =
     (if Type message = EHT_PRESENCE then registrarHandleENRPPresence env sd (AssocID message) message r
      else if Type message = EHT_HANDLE_UPDATE then registrarHandleENRPHandleUpdate env sd (AssocID message) message r
      else if Type message = EHT_LIST_REQUEST then registrarHandleENRPListRequest env sd (AssocID message) message r
      else if Type message = EHT_LIST_RESPONSE then registrarHandleENRPListResponse env message tables r
      else if Type message = EHT_HANDLE_TABLE_REQUEST then registrarHandleENRPHandleTableRequest env sd (AssocID message) message r
      else if Type message = EHT_HANDLE_TABLE_RESPONSE
      then registrarHandleENRPHandleTableResponse env sd (AssocID message) message tables r
      else if Type message = EHT_INIT_TAKEOVER then registrarHandleENRPInitTakeover env sd (AssocID message) message r
      else if Type message = EHT_INIT_TAKEOVER_ACK then registrarHandleENRPInitTakeoverAck env message r
      else if Type message = EHT_TAKEOVER_SERVER then registrarHandleENRPTakeoverServer env message r
      else Inr r)"

definition registrarHandleMessage ::
  "Environment \<Rightarrow> RSerPoolMessage \<Rightarrow> MessageTables \<Rightarrow> int \<Rightarrow> Registrar \<Rightarrow> fault + Registrar" where
  "registrarHandleMessage env message tables sd r =
     (if sd = pr_ENRPMulticastInputSocket r
      then if Type message = EHT_PRESENCE then registrarHandleENRPPresence env sd 0 message r else Inr r
      else if sd = pr_ASAPSocket r then registrarHandleASAPMessage env sd message r
      else if sd = pr_ENRPUnicastSocket r then registrarHandleENRPMessage env sd message tables r
      else Inr r)"

section \<open>Sockets\<close>

text \<open>
  What \<open>messageBufferRead\<close> has read: a packet, a notification of SCTP, a part of a packet, or nothing.
  A packet comes with the whole buffer it is in, because the reply is written to the same buffer.
\<close>

datatype Reception =
    ReceivedPacket "byte list" nat sockaddr_union u32 u32
  | CommunicationLost u32
  | ShutdownComplete u32
  | ShutdownEvent u32
  | OtherNotification
  | PartialRead
  | ReadError

text \<open>
  The error reply to a message that could not be read. The offending parameter is copied from the
  buffer as far as the packet goes.
\<close>

definition registrarSendError :: "int \<Rightarrow> u32 \<Rightarrow> u32 \<Rightarrow> RSerPoolMessage \<Rightarrow> Registrar \<Rightarrow> Registrar" where
  "registrarSendError fd ppid assocID message r =
     (if Error message \<noteq> RSPERR_UNRECOGNIZED_PARAMETER_SILENT \<and>
         (fd = pr_ASAPSocket r \<or> fd = pr_ENRPUnicastSocket r) \<and>
         Type message \<noteq> AHT_ERROR \<and> Type message \<noteq> EHT_ERROR \<and> (ppid = PPID_ASAP \<or> ppid = PPID_ENRP)
      then let message1 = (case OffendingParameterTLV message of
                 Some tlv \<Rightarrow> message\<lparr>ErrorCauseParameterTLV :=
                                Some (take (OffendingParameterTLVLength message) (drop tlv (Buffer message))),
                              ErrorCauseParameterTLVLength := OffendingParameterTLVLength message\<rparr>
               | None \<Rightarrow> message);
               message2 = message1\<lparr>Type := (if PPID message1 = PPID_ASAP then AHT_ERROR
                                            else if PPID message1 = PPID_ENRP then EHT_ERROR else Type message1)\<rparr>
           in emitOutput (Send (transmission fd assocID [] message2)) r
      else r)"

definition registrarHandlePacket ::
  "Environment \<Rightarrow> int \<Rightarrow> byte list \<Rightarrow> nat \<Rightarrow> sockaddr_union \<Rightarrow> u32 \<Rightarrow> u32 \<Rightarrow> Registrar \<Rightarrow> fault + Registrar" where
  "registrarHandlePacket env fd buffer received remoteAddress ppid0 assocID r =
     (let ppid = (if fd = pr_ENRPMulticastInputSocket r then PPID_ENRP else ppid0) in
      bindR (rserpoolPacket2Message (env_LogLevel env) (env_Memory env) buffer (Some remoteAddress) assocID ppid
               received (length buffer)) (\<lambda>(result, content).
      case content of
        None \<Rightarrow> Inr r
      | Some (message, tables) \<Rightarrow>
          if result = RSPERR_OKAY \<and> Error message = RSPERR_OKAY
          then registrarHandleMessage env message tables fd r
          else Inr (registrarSendError fd ppid assocID message r)))"

fun handleReception :: "Environment \<Rightarrow> int \<Rightarrow> Reception \<Rightarrow> Registrar \<Rightarrow> fault + Registrar" where
  "handleReception env fd (ReceivedPacket buffer received remoteAddress ppid assocID) r =
     (if ppid = PPID_ASAP \<and> fd \<noteq> pr_ASAPSocket r \<or> ppid = PPID_ENRP \<and> fd \<noteq> pr_ENRPUnicastSocket r
      then Inr (emitOutput (SendAbort fd assocID) r)
      else registrarHandlePacket env fd buffer received remoteAddress ppid assocID r)"
| "handleReception env fd (CommunicationLost assocID) r = registrarRemovePoolElementsOfConnection env fd assocID r"
| "handleReception env fd (ShutdownComplete assocID) r = registrarRemovePoolElementsOfConnection env fd assocID r"
| "handleReception env fd (ShutdownEvent assocID) r = registrarRemovePoolElementsOfConnection env fd assocID r"
| "handleReception env fd OtherNotification r = Inr r"
| "handleReception env fd PartialRead r = Inr r"
| "handleReception env fd ReadError r = Inr r"

definition registrarHandleSocketEvent :: "Environment \<Rightarrow> int \<Rightarrow> Reception \<Rightarrow> Registrar \<Rightarrow> fault + Registrar" where
  "registrarHandleSocketEvent env fd reception r =
     CHECK (fd = pr_ASAPSocket r \<or> fd = pr_ENRPUnicastSocket r \<or>
            pr_ENRPMulticastInputSocket r \<ge> 0 \<and> fd = pr_ENRPMulticastInputSocket r) (\<lambda>_.
     handleReception env fd reception r)"

section \<open>Timers\<close>

text \<open>The dispatcher stops a timer that is due and calls its handler.\<close>

datatype RegistrarTimer = ASAPAnnounceTimer | ENRPAnnounceTimer | HandlespaceActionTimer | PeerActionTimer

primrec timeOf :: "RegistrarTimer \<Rightarrow> Registrar \<Rightarrow> u64 option" where
  "timeOf ASAPAnnounceTimer r = pr_ASAPAnnounceTimer r"
| "timeOf ENRPAnnounceTimer r = pr_ENRPAnnounceTimer r"
| "timeOf HandlespaceActionTimer r = pr_HandlespaceActionTimer r"
| "timeOf PeerActionTimer r = pr_PeerActionTimer r"

primrec registrarTimerCallback :: "Environment \<Rightarrow> RegistrarTimer \<Rightarrow> Registrar \<Rightarrow> fault + Registrar" where
  "registrarTimerCallback env ASAPAnnounceTimer r = registrarHandleASAPAnnounceTimer env (r\<lparr>pr_ASAPAnnounceTimer := None\<rparr>)"
| "registrarTimerCallback env ENRPAnnounceTimer r = registrarHandleENRPAnnounceTimer env (r\<lparr>pr_ENRPAnnounceTimer := None\<rparr>)"
| "registrarTimerCallback env HandlespaceActionTimer r = registrarHandlePoolElementEvent env (r\<lparr>pr_HandlespaceActionTimer := None\<rparr>)"
| "registrarTimerCallback env PeerActionTimer r = registrarHandlePeerEvent env (r\<lparr>pr_PeerActionTimer := None\<rparr>)"

end
