(* ===== verification/RSP_PeerSteps.thy ===== *)
theory RSP_PeerSteps
  imports RSP_Callbacks
begin

text \<open>
  The peer list as a state machine, the peer that is useful for a pool element, and the takeover
  of the pool elements of a dead peer.
\<close>

section \<open>Steps\<close>

text \<open>
  The operations the registrar applies to its peer list. The guards are what the callers ensure:
  addresses are IP addresses, a static registration does not repeat the address of a static peer
  that is already known by its identifier, timers run for identified peers only, and no two timers
  run out in the same microsecond when a static peer may get another identifier.
\<close>

inductive peer_step :: "nat \<Rightarrow> PeerListManagement \<Rightarrow> PeerListManagement \<Rightarrow> bool" for gl where
  register_step: "inetBlock b \<Longrightarrow> (if f AND PLNF_DYNAMIC = 0 then staticFree (plm_List m) b else calm (plm_List m)) \<Longrightarrow> space_ok h \<Longrightarrow>
     peerListManagementRegisterPeerListNode gl h i f b now m = Inr (e, r, m') \<Longrightarrow> peer_step gl m m'"
| deregister_step: "b = None \<or> inetBlock b \<Longrightarrow>
     peerListManagementDeregisterPeerListNode gl i b m = Inr (e, m') \<Longrightarrow> peer_step gl m m'"
| activate_step: "p \<in> peers (plm_List m) \<Longrightarrow> p \<notin> timed (plm_List m) \<Longrightarrow> pln_Identifier (peerAt (plm_List m) p) \<noteq> 0 \<Longrightarrow>
     peerListManagementActivateTimer p c ts m = Inr m' \<Longrightarrow> peer_step gl m m'"
| deactivate_step: "peerListManagementDeactivateTimer p m = Inr m' \<Longrightarrow> peer_step gl m m'"
| restart_step: "p \<in> peers (plm_List m) \<Longrightarrow> pln_Identifier (peerAt (plm_List m) p) \<noteq> 0 \<Longrightarrow>
     peerListManagementRestartPeerListNodeExpiryTimer p expiry m = Inr m' \<Longrightarrow> peer_step gl m m'"
| notification_step: "peerListManagementPoolNodeUpdateNotification gl nt m = Inr m' \<Longrightarrow> peer_step gl m m'"
| memory_step: "peer_step gl m (m\<lparr>plm_Memory := x\<rparr>)"

lemma deregister_any:
  assumes ok: "management_ok m" and b: "b = None \<or> inetBlock b"
  shows "\<exists>r m'. peerListFindPeerListNode gl i b (plm_List m) = Inr r \<and>
    peerListManagementDeregisterPeerListNode gl i b m = Inr (if r = None then RSPERR_NOT_FOUND else RSPERR_OKAY, m') \<and> follows m m'"
proof -
  note lok = management_okD(1) [OF ok]
  obtain r where r: "peerListFindPeerListNode gl i b (plm_List m) = Inr r" "\<And>p. r = Some p \<Longrightarrow> p \<in> peers (plm_List m)"
  proof (cases "i = 0")
    case True
    then show ?thesis using find_address [OF lok b, of gl] that by metis
  next
    case False
    then show ?thesis using find_identifier [OF lok False] that by (metis option.inject option.distinct(1))
  qed
  show ?thesis
  proof (cases r)
    case None
    then show ?thesis using r(1) ok by (simp add: peerListManagementDeregisterPeerListNode_def follows_def)
  next
    case (Some p)
    from peer_deregister_ok [OF ok r(2) [OF Some]] obtain m' where
      "peerListManagementDeregisterPeerListNodeByPtr p m = Inr (RSPERR_OKAY, m')" "management_ok m'" "only p m m'" by blast
    then show ?thesis using r(1) Some follows_only by (simp add: peerListManagementDeregisterPeerListNode_def)
  qed
qed

text \<open>A step keeps the list well-formed and its owner.\<close>

lemma step_ok:
  assumes "peer_step gl m m'" "management_ok m"
  shows "management_ok m' \<and> pl_OwnIdentifier (plm_List m') = pl_OwnIdentifier (plm_List m)"
  using assms(1)
proof cases
  case (register_step b f h i now e r)
  have st: "f AND PLNF_DYNAMIC = 0 \<Longrightarrow> staticFree (plm_List m) b" "f AND PLNF_DYNAMIC \<noteq> 0 \<Longrightarrow> calm (plm_List m)"
    using register_step(2) by simp_all
  from register_any [OF assms(2) register_step(1) st register_step(3)] register_step(4)
  have "follows m m'" by (metis Inr_inject prod.inject)
  then show ?thesis by (simp add: follows_def)
next
  case (deregister_step b i e)
  from deregister_any [OF assms(2) deregister_step(1)] deregister_step(2)
  have "follows m m'" by (metis Inr_inject prod.inject)
  then show ?thesis by (simp add: follows_def)
next
  case (activate_step p c ts)
  from activate_management [OF assms(2) activate_step(1-3), of c ts] activate_step(4)
  have "follows m m'" by auto
  then show ?thesis by (simp add: follows_def)
next
  case (deactivate_step p)
  from deactivate_management [OF assms(2), of p] deactivate_step have "follows m m'" by auto
  then show ?thesis by (simp add: follows_def)
next
  case (restart_step p expiry)
  from restart_timer_ok [OF assms(2) restart_step(1,2), of expiry] restart_step(3) have "follows m m'" by auto
  then show ?thesis by (simp add: follows_def)
next
  case (notification_step nt)
  from notification_shifted [OF assms(2), of gl nt] notification_step have "follows m m'" by (auto simp: shifted_def)
  then show ?thesis by (simp add: follows_def)
next
  case (memory_step x)
  then show ?thesis using assms(2) by (simp add: management_ok_def)
qed

lemma reachable_ok:
  assumes "(peer_step gl)\<^sup>*\<^sup>* (peerListManagementNew mem own) m"
  shows "management_ok m \<and> pl_OwnIdentifier (plm_List m) = own"
  using assms
proof (induction rule: rtranclp_induct)
  case base
  show ?case using management_new_ok [of mem own] by (simp add: peerListManagementNew_def peerListNew_def)
next
  case (step m1 m2)
  then show ?case using step_ok by metis
qed

lemma verify_peers: "management_ok m \<Longrightarrow> peerListManagementVerify m = Inr ()"
  using list_okD(1,2) [OF management_okD(1)] comparator.verify_ok [OF comparator_indexOrder] comparator.verify_ok [OF comparator_timerOrder]
  by (simp add: peerListManagementVerify_def peerListVerify_def)

lemma count_peers: "management_ok m \<Longrightarrow> peerListManagementGetPeers m = card (peers (plm_List m))"
  using ascending_distinct [OF comparator_indexOrder, of "plm_List m" "contents (pl_Index (plm_List m))"] list_okD(1) [OF management_okD(1)]
  by (simp add: peerListManagementGetPeers_def peerListGetPeerListNodes_def RedBlackTreeGetElements_def rbt_wf_def peers_def keys_def
      distinct_card flip: set_map)

section \<open>The useful peer\<close>

definition fitness :: "PeerList \<Rightarrow> u32 \<Rightarrow> nat \<Rightarrow> u32" where
  "fitness pl pe p = pln_Identifier (peerAt pl p) XOR pe"

lemma best_peer:
  "case bestPeer pl pe best bm ps of
     None \<Rightarrow> best = None \<and> (\<forall>q \<in> set ps. pln_Identifier (peerAt pl q) \<noteq> 0 \<longrightarrow> fitness pl pe q \<le> bm)
   | Some p \<Rightarrow>
       best = Some p \<and> (\<forall>q \<in> set ps. pln_Identifier (peerAt pl q) \<noteq> 0 \<longrightarrow> fitness pl pe q \<le> bm) \<or>
       p \<in> set ps \<and> pln_Identifier (peerAt pl p) \<noteq> 0 \<and> bm < fitness pl pe p \<and>
         (\<forall>q \<in> set ps. pln_Identifier (peerAt pl q) \<noteq> 0 \<longrightarrow> fitness pl pe q \<le> fitness pl pe p)"
proof (induction ps arbitrary: best bm)
  case Nil
  then show ?case by (simp split: option.splits)
next
  case (Cons x ps)
  show ?case
  proof (cases "pln_Identifier (peerAt pl x) \<noteq> 0 \<and> fitness pl pe x > bm")
    case True
    then have "bestPeer pl pe best bm (x # ps) = bestPeer pl pe (Some x) (fitness pl pe x) ps" by (simp add: fitness_def)
    then show ?thesis using Cons.IH [of "Some x" "fitness pl pe x"] True
      by (auto split: option.splits dest: less_trans order_less_imp_le)
  next
    case False
    then have e: "bestPeer pl pe best bm (x # ps) = bestPeer pl pe best bm ps" by (auto simp: fitness_def)
    have x: "pln_Identifier (peerAt pl x) \<noteq> 0 \<longrightarrow> fitness pl pe x \<le> bm" using False by auto
    show ?thesis unfolding e using Cons.IH [of best bm] x by (auto split: option.splits dest: order_le_less_trans order_less_imp_le)
  qed
qed

lemma useful_peer:
  assumes "management_ok m"
  shows "case peerListManagementGetUsefulPeerForPE pe m of
     None \<Rightarrow> \<forall>q \<in> peers (plm_List m). pln_Identifier (peerAt (plm_List m) q) \<noteq> 0 \<longrightarrow>
       fitness (plm_List m) pe q \<le> pl_OwnIdentifier (plm_List m) XOR pe
   | Some p \<Rightarrow> p \<in> peers (plm_List m) \<and> pln_Identifier (peerAt (plm_List m) p) \<noteq> 0 \<and>
       pl_OwnIdentifier (plm_List m) XOR pe < fitness (plm_List m) pe p \<and>
       (\<forall>q \<in> peers (plm_List m). pln_Identifier (peerAt (plm_List m) q) \<noteq> 0 \<longrightarrow>
         fitness (plm_List m) pe q \<le> fitness (plm_List m) pe p)"
  using best_peer [where pl = "plm_List m" and pe = pe and best = None and bm = "pl_OwnIdentifier (plm_List m) XOR pe"
      and ps = "peersByIndex (plm_List m)"]
    peersByIndex_set [OF management_okD(1) [OF assms]]
  by (simp add: peerListManagementGetUsefulPeerForPE_def split: option.splits)

section \<open>Takeover\<close>

text \<open>The registrars that have not acknowledged yet.\<close>

definition outstanding :: "TakeoverProcess \<Rightarrow> u32 set" where
  "outstanding tp = set (take (tp_OutstandingAcks tp) (tp_PeerIDArray tp))"

definition takeover_ok :: "TakeoverProcess \<Rightarrow> bool" where
  "takeover_ok tp \<longleftrightarrow> tp_OutstandingAcks tp \<le> length (tp_PeerIDArray tp) \<and> distinct (take (tp_OutstandingAcks tp) (tp_PeerIDArray tp))"

lemma outstanding_count: "takeover_ok tp \<Longrightarrow> tp_OutstandingAcks tp = card (outstanding tp)"
  by (simp add: takeover_ok_def outstanding_def distinct_card)

lemma acknowledged_at:
  "acknowledgedAt a i n ids = None \<Longrightarrow> n \<le> length ids \<Longrightarrow> i \<le> n \<Longrightarrow> a \<notin> set (drop i (take n ids))"
  "acknowledgedAt a i n ids = Some j \<Longrightarrow> i \<le> j \<and> j < n \<and> ids ! j = a"
proof (induction a i n ids rule: acknowledgedAt.induct)
  case (1 a i n ids)
  {
    case 1
    then show ?case using "1.IH"(1)
      by (cases "i < n") (auto simp: acknowledgedAt.simps [of a i n ids] Cons_nth_drop_Suc [symmetric] split: if_splits)
  next
    case 2
    then show ?case using "1.IH"(2) by (auto simp: acknowledgedAt.simps [of a i n ids] split: if_splits)
  }
qed

lemma move_forward:
  "n \<le> length ids \<Longrightarrow> i < n \<Longrightarrow> length (moveForward i n ids) = length ids \<and>
     take (n - 1) (moveForward i n ids) = take i ids @ drop (Suc i) (take n ids)"
proof (induction i n ids rule: moveForward.induct)
  case (1 i n ids)
  show ?case
  proof (cases "Suc i < n")
    case True
    have "take (Suc i) (ids[i := ids ! Suc i]) = take i ids @ [ids ! Suc i]"
      using 1(2,3) by (simp add: take_Suc_conv_app_nth)
    moreover have "drop (Suc (Suc i)) (take n (ids[i := ids ! Suc i])) = drop (Suc (Suc i)) (take n ids)"
      by (simp add: take_update_swap drop_update_cancel)
    moreover have "drop (Suc i) (take n ids) = ids ! Suc i # drop (Suc (Suc i)) (take n ids)"
      using True 1(2) by (simp add: Cons_nth_drop_Suc [symmetric])
    ultimately show ?thesis using 1 True by (simp add: moveForward.simps [of i n ids])
  next
    case False
    then have "n = Suc i" using 1(3) by simp
    then show ?thesis by (simp add: moveForward.simps [of i "Suc i" ids])
  qed
qed

lemma acknowledge_ok:
  assumes "takeover_ok tp"
  shows "\<exists>tp'. takeoverProcessAcknowledge t a tp = (card (outstanding tp - {a}), tp') \<and> takeover_ok tp' \<and>
    outstanding tp' = outstanding tp - {a}"
proof -
  let ?n = "tp_OutstandingAcks tp" and ?ids = "tp_PeerIDArray tp"
  have n: "?n \<le> length ?ids" and d: "distinct (take ?n ?ids)" using assms by (simp_all add: takeover_ok_def)
  show ?thesis
  proof (cases "acknowledgedAt a 0 ?n ?ids")
    case None
    then have "a \<notin> outstanding tp" using acknowledged_at(1) [OF None n] by (simp add: outstanding_def)
    then show ?thesis using None assms outstanding_count [OF assms]
      by (intro exI [of _ tp]) (simp add: takeoverProcessAcknowledge_def)
  next
    case (Some i)
    then have i: "i < ?n" "?ids ! i = a" using acknowledged_at(2) [OF Some] by simp_all
    let ?tp = "\<lparr>tp_OutstandingAcks = ?n - 1, tp_PeerIDArray = moveForward i ?n ?ids\<rparr>"
    have m: "length (moveForward i ?n ?ids) = length ?ids"
      "take (?n - 1) (moveForward i ?n ?ids) = take i ?ids @ drop (Suc i) (take ?n ?ids)" using move_forward [OF n i(1)] by simp_all
    have s: "take ?n ?ids = take i ?ids @ a # drop (Suc i) (take ?n ?ids)"
      using id_take_nth_drop [of i "take ?n ?ids"] i n by simp
    have d': "distinct (take i ?ids @ a # drop (Suc i) (take ?n ?ids))" using d s by simp
    have "set (take ?n ?ids) = Set.insert a (set (take i ?ids) \<union> set (drop (Suc i) (take ?n ?ids)))" by (subst s) auto
    then have o: "outstanding ?tp = outstanding tp - {a}" using d' m(2) by (auto simp: outstanding_def)
    have k: "takeover_ok ?tp" using d' n m by (simp add: takeover_ok_def)
    show ?thesis using Some k o outstanding_count [OF k]
      by (intro exI [of _ ?tp]) (simp add: takeoverProcessAcknowledge_def Let_def)
  qed
qed

lemma takeover_new:
  assumes ok: "management_ok m" and mem: "plm_Memory m" and t: "t \<noteq> 0" "t \<noteq> pl_OwnIdentifier (plm_List m)"
  shows "\<exists>tp. takeoverProcessNew t m = Inr (Some tp) \<and> takeover_ok tp \<and>
    outstanding tp = (\<lambda>p. pln_Identifier (peerAt (plm_List m) p)) ` peers (plm_List m) - {t, pl_OwnIdentifier (plm_List m), 0}"
proof -
  let ?id = "\<lambda>p. pln_Identifier (peerAt (plm_List m) p)"
  let ?P = "\<lambda>i. i \<noteq> t \<and> i \<noteq> pl_OwnIdentifier (plm_List m) \<and> i \<noteq> 0"
  let ?ids = "filter ?P (map ?id (peersByIndex (plm_List m)))"
  note lok = management_okD(1) [OF ok]
  note s = peersByIndex_set [OF lok]
  have "inj_on ?id {p \<in> peers (plm_List m). ?id p \<noteq> 0}"
    using identifiers_apart [OF lok] by (auto intro!: inj_onI)
  then have "distinct ?ids" using s by (auto simp: filter_map distinct_map intro: inj_on_subset)
  moreover have "set ?ids = ?id ` peers (plm_List m) - {t, pl_OwnIdentifier (plm_List m), 0}" using s by auto
  ultimately show ?thesis using mem t
    by (intro exI [of _ "\<lparr>tp_OutstandingAcks = length ?ids, tp_PeerIDArray = ?ids\<rparr>"])
       (simp add: takeoverProcessNew_def Let_def takeover_ok_def outstanding_def)
qed

primrec acknowledgeAll :: "u32 \<Rightarrow> u32 list \<Rightarrow> TakeoverProcess \<Rightarrow> TakeoverProcess" where
  "acknowledgeAll t [] tp = tp"
| "acknowledgeAll t (a # as) tp = acknowledgeAll t as (snd (takeoverProcessAcknowledge t a tp))"

lemma acknowledge_all:
  assumes "takeover_ok tp"
  shows "takeover_ok (acknowledgeAll t as tp) \<and> outstanding (acknowledgeAll t as tp) = outstanding tp - set as"
  using assms
proof (induction as arbitrary: tp)
  case (Cons a as)
  obtain tp' where "takeoverProcessAcknowledge t a tp = (card (outstanding tp - {a}), tp')" "takeover_ok tp'"
    "outstanding tp' = outstanding tp - {a}" using acknowledge_ok [OF Cons.prems] by blast
  then show ?case using Cons.IH [of tp'] by auto
qed simp

end
