(* ===== verification/RSP_RegistrarLaws.thy ===== *)
theory RSP_RegistrarLaws
  imports RSP_RegistrarCore RSP_PeerSteps
begin

text \<open>
  The invariant of a registrar, and that the steps all handlers are made of keep it: the handlespace
  is well-formed, the peers are, their checksums agree with the handlespace, and the pool users are listed.
\<close>

section \<open>The invariant\<close>

definition reg_ok :: "Registrar \<Rightarrow> bool" where
  "reg_ok r \<longleftrightarrow> hs_wf (handlespaceOf r) \<and> hsn_Notifications (handlespaceOf r) = [] \<and> hsm_Memory (pr_Handlespace r) \<and>
     hsn_HomeRegistrarIdentifier (handlespaceOf r) = pr_ServerID r \<and>
     management_ok (pr_Peers r) \<and> synchronised (handlespaceOf r) (pr_Peers r) \<and> pul_wf (pr_PoolUsers r)"

lemma reg_okD:
  assumes "reg_ok r"
  shows "hs_wf (handlespaceOf r)" "hsn_Notifications (handlespaceOf r) = []" "hsm_Memory (pr_Handlespace r)"
    "hsn_HomeRegistrarIdentifier (handlespaceOf r) = pr_ServerID r" "management_ok (pr_Peers r)"
    "synchronised (handlespaceOf r) (pr_Peers r)" "pul_wf (pr_PoolUsers r)" "hs_struct (handlespaceOf r)"
  using assms by (simp_all add: reg_ok_def hs_wf_struct)

text \<open>What a handler may change: the rest of the state is its configuration.\<close>

definition sameConfig :: "Registrar \<Rightarrow> Registrar \<Rightarrow> bool" where
  "sameConfig r r' \<longleftrightarrow> r' = r\<lparr>pr_Handlespace := pr_Handlespace r', pr_Peers := pr_Peers r', pr_PoolUsers := pr_PoolUsers r',
     pr_NextPoolUserNode := pr_NextPoolUserNode r', pr_HandlespaceActionTimer := pr_HandlespaceActionTimer r',
     pr_PeerActionTimer := pr_PeerActionTimer r', pr_Stats := pr_Stats r', pr_UserData := pr_UserData r', pr_Outputs := pr_Outputs r'\<rparr>"

lemma sameConfig_refl [simp]: "sameConfig r r"
  by (simp add: sameConfig_def)

lemma sameConfigD:
  assumes "sameConfig r r'"
  shows "pr_ServerID r' = pr_ServerID r" "pr_ENRPUnicastSocket r' = pr_ENRPUnicastSocket r" "pr_ASAPSocket r' = pr_ASAPSocket r"
    "pr_EndpointKeepAliveTimeoutInterval r' = pr_EndpointKeepAliveTimeoutInterval r"
    "pr_EndpointKeepAliveTransmissionInterval r' = pr_EndpointKeepAliveTransmissionInterval r"
    "pr_ENRPSupportTakeoverSuggestion r' = pr_ENRPSupportTakeoverSuggestion r"
    "pr_MaxBadPEReports r' = pr_MaxBadPEReports r" "pr_PeerMaxTimeNoResponse r' = pr_PeerMaxTimeNoResponse r"
  using assms unfolding sameConfig_def by (cases r; cases r'; simp)+

lemma sameConfig_trans: "sameConfig r r1 \<Longrightarrow> sameConfig r1 r2 \<Longrightarrow> sameConfig r r2"
  unfolding sameConfig_def by (cases r; cases r1; cases r2) simp

lemma sameConfig_updates [simp]:
  "sameConfig r (withNode hs r)" "sameConfig r (countMessage f r)" "sameConfig r (emitOutput x r)"
  "sameConfig r (restartHandlespaceActionTimer r)" "sameConfig r (restartPeerActionTimer r)" "sameConfig r (updatePeer p g r)"
  "sameConfig r (r\<lparr>pr_Peers := m\<rparr>)" "sameConfig r (reply fd a msg r)"
  by (simp_all add: sameConfig_def withNode_def countMessage_def emitOutput_def restartHandlespaceActionTimer_def
      restartPeerActionTimer_def updatePeer_def reply_def)

text \<open>The parts of the state, after the steps that change one of them only.\<close>

lemma part_simps [simp]:
  "pr_Handlespace (countMessage f r) = pr_Handlespace r" "pr_Handlespace (emitOutput x r) = pr_Handlespace r"
  "pr_Handlespace (restartHandlespaceActionTimer r) = pr_Handlespace r" "pr_Handlespace (updatePeer p g r) = pr_Handlespace r"
  "pr_Peers (countMessage f r) = pr_Peers r" "pr_Peers (emitOutput x r) = pr_Peers r" "pr_Peers (withNode hs r) = pr_Peers r"
  "pr_Peers (restartHandlespaceActionTimer r) = pr_Peers r"
  "pr_Outputs (countMessage f r) = pr_Outputs r" "pr_Outputs (emitOutput x r) = pr_Outputs r @ [x]" "pr_Outputs (withNode hs r) = pr_Outputs r"
  "pr_Outputs (restartHandlespaceActionTimer r) = pr_Outputs r" "pr_Outputs (updatePeer p g r) = pr_Outputs r"
  "pr_PoolUsers (countMessage f r) = pr_PoolUsers r" "pr_PoolUsers (emitOutput x r) = pr_PoolUsers r" "pr_PoolUsers (withNode hs r) = pr_PoolUsers r"
  "pr_PoolUsers (restartHandlespaceActionTimer r) = pr_PoolUsers r" "pr_PoolUsers (updatePeer p g r) = pr_PoolUsers r"
  "hsm_Handlespace (pr_Handlespace (withNode hs r)) = hs" "hsm_Memory (pr_Handlespace (withNode hs r)) = hsm_Memory (pr_Handlespace r)"
  "pr_Peers (updatePeer p g r) = withList (pr_Peers r) (setPeer p g (peersOf r))"
  "pr_ServerID (countMessage f r) = pr_ServerID r" "pr_ServerID (emitOutput x r) = pr_ServerID r" "pr_ServerID (withNode hs r) = pr_ServerID r"
  "pr_ServerID (restartHandlespaceActionTimer r) = pr_ServerID r" "pr_ServerID (updatePeer p g r) = pr_ServerID r"
  by (simp_all add: withNode_def countMessage_def emitOutput_def restartHandlespaceActionTimer_def updatePeer_def withHandlespace_def)

lemma reg_ok_parts:
  "reg_ok (countMessage f r) = reg_ok r" "reg_ok (emitOutput x r) = reg_ok r" "reg_ok (restartHandlespaceActionTimer r) = reg_ok r"
  "reg_ok (reply fd a msg r) = reg_ok r"
  by (simp_all add: reg_ok_def reply_def)

section \<open>Views of the handlespace\<close>

lemma silent_view [simp]:
  "elements (hs\<lparr>hsn_Notifications := ns\<rparr>) = elements hs" "elementAt (hs\<lparr>hsn_Notifications := ns\<rparr>) = elementAt hs"
  "poolAt (hs\<lparr>hsn_Notifications := ns\<rparr>) = poolAt hs" "attrs (hs\<lparr>hsn_Notifications := ns\<rparr>) = attrs hs"
  "timerNames (hs\<lparr>hsn_Notifications := ns\<rparr>) = timerNames hs" "ownershipNames (hs\<lparr>hsn_Notifications := ns\<rparr>) = ownershipNames hs"
  by (simp_all add: elements_def elementAt_def poolAt_def attrs_def timerNames_def ownershipNames_def fun_eq_iff)

lemma silent_owned [simp]: "ownedBy i (hs\<lparr>hsn_Notifications := ns\<rparr>) = ownedBy i hs" "registry (hs\<lparr>hsn_Notifications := ns\<rparr>) = registry hs"
  by (simp_all add: ownedBy_def registry_def fun_eq_iff)

lemma silent_wf [simp]: "hs_wf (hs\<lparr>hsn_Notifications := ns\<rparr>) = hs_wf hs" "checksumOf i (hs\<lparr>hsn_Notifications := ns\<rparr>) = checksumOf i hs"
  by (simp_all add: hs_wf_def pools_wf_def no_empty_pool_def links_wf_def sums_wf_def owned_def checksumOf_def)

lemma silent_synchronised [simp]: "synchronised (hs\<lparr>hsn_Notifications := ns\<rparr>) m = synchronised hs m"
  by (simp add: synchronised_def)

text \<open>The checksums depend on the names and the home registrars only.\<close>

lemma checksum_owners:
  assumes "hs_wf hs" "hs_wf hs'" "elements hs' = elements hs" "i \<noteq> 0"
    "\<And>p. p \<in> elements hs \<Longrightarrow> pen_HomeRegistrarIdentifier (elementAt hs' p) = pen_HomeRegistrarIdentifier (elementAt hs p)"
  shows "checksumOf i hs' = checksumOf i hs"
proof -
  have "{p \<in> elements hs'. pen_HomeRegistrarIdentifier (elementAt hs' p) = i} = {p \<in> elements hs. pen_HomeRegistrarIdentifier (elementAt hs p) = i}"
    using assms(3,5) by auto
  then show ?thesis
    using ownedBy_set(3) [OF _ assms(4)] assms(1,2) by (simp add: checksumOf_def hs_wf_struct)
qed

lemma synchronised_owners:
  assumes "synchronised hs m" "hs_wf hs" "hs_wf hs'" "elements hs' = elements hs"
    "\<And>p. p \<in> elements hs \<Longrightarrow> pen_HomeRegistrarIdentifier (elementAt hs' p) = pen_HomeRegistrarIdentifier (elementAt hs p)"
  shows "synchronised hs' m"
  using assms(1) checksum_owners [OF assms(2-4) _ assms(5)] by (simp add: synchronised_def)

section \<open>Operations on the handlespace\<close>

text \<open>A step that changes no home registrar and tells no one.\<close>

lemma on_node_ok:
  assumes ok: "reg_ok r" and f: "f (handlespaceOf r) = Inr hs'" "hs_wf hs'" "elements hs' = elements (handlespaceOf r)"
      "hsn_HomeRegistrarIdentifier hs' = hsn_HomeRegistrarIdentifier (handlespaceOf r)"
      "hsn_Notifications hs' = hsn_Notifications (handlespaceOf r)"
    and same: "\<And>p. p \<in> elements (handlespaceOf r) \<Longrightarrow>
      pen_HomeRegistrarIdentifier (elementAt hs' p) = pen_HomeRegistrarIdentifier (elementAt (handlespaceOf r) p)"
  shows "onNode f r = Inr (withNode hs' r)" "reg_ok (withNode hs' r)"
  using f reg_okD [OF ok] synchronised_owners [OF reg_okD(6,1) [OF ok] f(2,3) same] ok
  by (simp_all add: onNode_def reg_ok_def)

lemma timer_quiet:
  "poolHandlespaceNodeDeactivateTimer p hs = Inr hs' \<Longrightarrow> hsn_Notifications hs' = hsn_Notifications hs"
  "poolHandlespaceNodeActivateTimer p c ts hs = Inr hs' \<Longrightarrow> hsn_Notifications hs' = hsn_Notifications hs"
  by (auto simp: poolHandlespaceNodeDeactivateTimer_def poolHandlespaceNodeActivateTimer_def bindR_eq_Inr_conv Let_def
      setElement_def setPool_def CHECK_def split: if_splits)

text \<open>A step that sends nothing.\<close>

definition quiet :: "Registrar \<Rightarrow> Registrar \<Rightarrow> bool" where
  "quiet r r' \<longleftrightarrow> sameConfig r r' \<and> pr_Outputs r' = pr_Outputs r \<and> pr_UserData r' = pr_UserData r \<and> pr_PoolUsers r' = pr_PoolUsers r"

lemma quiet_node [simp]: "quiet r (withNode hs r)"
  by (simp add: quiet_def withNode_def sameConfig_def)

lemma quietD:
  assumes "quiet r r'"
  shows "sameConfig r r'" "pr_Outputs r' = pr_Outputs r" "pr_UserData r' = pr_UserData r" "pr_PoolUsers r' = pr_PoolUsers r"
  using assms by (simp_all add: quiet_def)

lemma quiet_trans: "quiet r r1 \<Longrightarrow> quiet r1 r2 \<Longrightarrow> quiet r r2"
  using sameConfig_trans by (auto simp: quiet_def)

lemma deactivate_timer:
  assumes ok: "reg_ok r"
  obtains r' where "onNode (poolHandlespaceNodeDeactivateTimer p) r = Inr r'" "reg_ok r'" "quiet r r'" "pr_Peers r' = pr_Peers r"
    "elements (handlespaceOf r') = elements (handlespaceOf r)" "elementAt (handlespaceOf r') = elementAt (handlespaceOf r)"
    "poolAt (handlespaceOf r') = poolAt (handlespaceOf r)" "attrs (handlespaceOf r') = attrs (handlespaceOf r)"
    "timerNames (handlespaceOf r') = filter (\<lambda>q. q \<noteq> p) (timerNames (handlespaceOf r))"
proof -
  note wf = reg_okD(1) [OF ok]
  obtain hs' where d: "poolHandlespaceNodeDeactivateTimer p (handlespaceOf r) = Inr hs'" "hs_wf hs'"
    "hsn_PoolNodes hs' = hsn_PoolNodes (handlespaceOf r)"
    "hsn_HomeRegistrarIdentifier hs' = hsn_HomeRegistrarIdentifier (handlespaceOf r)"
    "keys (hsn_PoolElementTimerStorage hs') = keys (hsn_PoolElementTimerStorage (handlespaceOf r)) - {timerEntry p (elementAt (handlespaceOf r) p)}"
    using deactivate_ok [OF wf] by blast
  have v: "elements hs' = elements (handlespaceOf r)" "elementAt hs' = elementAt (handlespaceOf r)" "attrs hs' = attrs (handlespaceOf r)"
    "poolAt hs' = poolAt (handlespaceOf r)"
    using d(3) by (simp_all add: elements_def elementAt_def poolAt_def attrs_def fun_eq_iff)
  have t: "timerNames hs' = filter (\<lambda>q. q \<noteq> p) (timerNames (handlespaceOf r))"
    using timer_names_removed [OF reg_okD(8) [OF ok] _ d(5)] d(2) by (simp add: hs_wf_struct)
  note o = on_node_ok [where f = "poolHandlespaceNodeDeactivateTimer p", OF ok d(1,2) v(1) d(4) timer_quiet(1) [OF d(1)]]
  show thesis by (rule that [of "withNode hs' r"]) (simp_all add: o v t)
qed

lemma activate_timer:
  assumes ok: "reg_ok r" and p: "p \<in> elements (handlespaceOf r)" "p \<notin> set (timerNames (handlespaceOf r))"
  obtains r' where "onNode (poolHandlespaceNodeActivateTimer p c ts) r = Inr r'" "reg_ok r'" "quiet r r'" "pr_Peers r' = pr_Peers r"
    "elements (handlespaceOf r') = elements (handlespaceOf r)"
    "elementAt (handlespaceOf r') = (elementAt (handlespaceOf r))(p := (elementAt (handlespaceOf r) p)\<lparr>pen_TimerCode := c, pen_TimerTimeStamp := ts\<rparr>)"
    "attrs (handlespaceOf r') = attrs (handlespaceOf r)"
    "set (timerNames (handlespaceOf r')) = Set.insert p (set (timerNames (handlespaceOf r)))"
proof -
  let ?hs = "handlespaceOf r"
  note wf = reg_okD(1) [OF ok]
  have "\<not> poolHandlespaceNodeHasActiveTimer ?hs p" using timer_names(4) [OF reg_okD(8) [OF ok]] p(2) by simp
  then obtain hs' where a: "poolHandlespaceNodeActivateTimer p c ts ?hs = Inr hs'" "hs_wf hs'" "elements hs' = elements ?hs"
    "elementAt hs' = (elementAt ?hs)(p := (elementAt ?hs p)\<lparr>pen_TimerCode := c, pen_TimerTimeStamp := ts\<rparr>)"
    "hsn_HomeRegistrarIdentifier hs' = hsn_HomeRegistrarIdentifier ?hs"
    "keys (hsn_PoolElementTimerStorage hs') = Set.insert (ts, snd p, fst p) (keys (hsn_PoolElementTimerStorage ?hs))" "attrs hs' = attrs ?hs"
    using activate_ok [OF wf p(1)] by blast
  have t: "set (timerNames hs') = Set.insert p (set (timerNames ?hs))"
    by (simp add: timer_names_keys a(6) ofTimerEntry_def)
  note o = on_node_ok [where f = "poolHandlespaceNodeActivateTimer p c ts", OF ok a(1-3,5) timer_quiet(2) [OF a(1)]]
  show thesis by (rule that [of "withNode hs' r"]) (simp_all add: o a t)
qed

text \<open>A step that the peers are told about.\<close>

lemma on_handlespace_ok:
  assumes ok: "reg_ok r" and f: "f (pr_Handlespace r) = Inr (x, m')" "hs_wf (hsm_Handlespace m')" "hsm_Memory m'"
      "hsn_HomeRegistrarIdentifier (hsm_Handlespace m') = hsn_HomeRegistrarIdentifier (handlespaceOf r)"
    and a: "announced (handlespaceOf r) (hsm_Handlespace m')"
  obtains r' g where "onHandlespace env f r = Inr (x, r')" "reg_ok r'" "quiet r r'"
    "handlespaceOf r' = (hsm_Handlespace m')\<lparr>hsn_Notifications := []\<rparr>" "shifted g (pr_Peers r) (pr_Peers r')"
proof -
  let ?ns = "hsn_Notifications (hsm_Handlespace m')"
  obtain new where new: "?ns = hsn_Notifications (handlespaceOf r) @ new"
    "\<And>i. i \<noteq> 0 \<Longrightarrow> ledger new i = checksumOf i (hsm_Handlespace m') - checksumOf i (handlespaceOf r)"
    using a unfolding announced_def by blast
  then have ns: "?ns = new" using reg_okD(2) [OF ok] by simp
  obtain peers where n: "notifyPeers (env_LogLevel env) ?ns (pr_Peers r) = Inr peers" "shifted (ledger ?ns) (pr_Peers r) peers"
    using notify_peers [OF reg_okD(5) [OF ok]] by blast
  let ?r = "r\<lparr>pr_Handlespace := withHandlespace m' ((hsm_Handlespace m')\<lparr>hsn_Notifications := []\<rparr>), pr_Peers := peers\<rparr>"
  have "onHandlespace env f r = Inr (x, ?r)" using f(1) n(1) by (simp add: onHandlespace_def)
  moreover have "synchronised (hsm_Handlespace m') peers"
    using n(2) new(2) reg_okD(6) [OF ok] ns by (auto simp: shifted_def follows_def synchronised_def)
  then have "reg_ok ?r"
    using f n(2) reg_okD [OF ok] by (simp add: reg_ok_def withHandlespace_def shifted_def follows_def)
  moreover have "quiet r ?r" by (simp add: quiet_def sameConfig_def)
  ultimately show thesis using n(2) by (intro that [of ?r]) (simp_all add: withHandlespace_def)
qed

end
