(* ===== verification/RSP_TakeoverLaws.thy ===== *)
theory RSP_TakeoverLaws
  imports RSP_RegistrarLaws
begin

text \<open>
  Takeovers: a registrar that has got all acknowledgements becomes the home registrar of
  every pool element of the dead peer, tells the pool elements and the peers, and forgets the peer.
\<close>

section \<open>Keep-alives\<close>

text \<open>A keep-alive can be sent to a pool element that has a connection or a transport of its registrator.\<close>

definition contactable :: "PoolElementNode \<Rightarrow> bool" where
  "contactable n \<longleftrightarrow> pen_ConnectionSocketDescriptor n \<ge> 0 \<or> pen_RegistratorTransport n \<noteq> None"

definition isKeepAlive :: "u32 \<Rightarrow> peName \<Rightarrow> byte \<Rightarrow> Output \<Rightarrow> bool" where
  "isKeepAlive server p flags x \<longleftrightarrow> (\<exists>tx sd a. x = SendOrAbort tx sd a \<and>
     Type (tx_Message tx) = AHT_ENDPOINT_KEEP_ALIVE \<and> Flags (tx_Message tx) = flags \<and>
     RegistrarIdentifier (tx_Message tx) = server \<and> Identifier (tx_Message tx) = snd p \<and> ph_bytes (Handle (tx_Message tx)) = fst p)"

lemma element_names:
  assumes "hs_wf hs" "p \<in> elements hs"
  shows "pen_Identifier (elementAt hs p) = snd p" "ph_bytes (pn_Handle (poolAt hs (fst p))) = fst p" "ph_wf (pn_Handle (poolAt hs (fst p)))"
proof -
  have o: "pool_ok (fst p) (poolAt hs (fst p))" using pool_ok_at [OF hs_wfD(1) [OF assms(1)] assms(2)] .
  have "snd p \<in> pool_nodes (poolAt hs (fst p))" using elements_at [OF assms(2)] by simp
  then show "pen_Identifier (elementAt hs p) = snd p"
    using o sel_invD(5) [of "{}" "poolAt hs (fst p)"] by (simp add: elementAt_def pool_ok_def pool_wf_def)
  show "ph_bytes (pn_Handle (poolAt hs (fst p))) = fst p" "ph_wf (pn_Handle (poolAt hs (fst p)))"
    using o by (simp_all add: pool_ok_def)
qed

text \<open>A step that only sends \<open>xs\<close>.\<close>

definition says :: "Output list \<Rightarrow> Registrar \<Rightarrow> Registrar \<Rightarrow> bool" where
  "says xs r r' \<longleftrightarrow> sameConfig r r' \<and> pr_Handlespace r' = pr_Handlespace r \<and> pr_Peers r' = pr_Peers r \<and>
     pr_UserData r' = pr_UserData r \<and> pr_PoolUsers r' = pr_PoolUsers r \<and> pr_Outputs r' = pr_Outputs r @ xs \<and>
     pr_HandlespaceActionTimer r' = pr_HandlespaceActionTimer r"

lemma saysD:
  assumes "says xs r r'"
  shows "sameConfig r r'" "pr_Handlespace r' = pr_Handlespace r" "pr_Peers r' = pr_Peers r" "pr_UserData r' = pr_UserData r"
    "pr_PoolUsers r' = pr_PoolUsers r" "pr_Outputs r' = pr_Outputs r @ xs" "pr_HandlespaceActionTimer r' = pr_HandlespaceActionTimer r"
  using assms by (simp_all add: says_def)

lemma says_simps [simp]: "says [] r r" "says [x] r (emitOutput x r)" "says [] r (countMessage f r)"
  by (simp_all add: says_def sameConfig_def emitOutput_def countMessage_def)

lemma says_trans: "says xs r r1 \<Longrightarrow> says ys r1 r2 \<Longrightarrow> says (xs @ ys) r r2"
  using sameConfig_trans by (auto simp: says_def)

lemma says_ok: "says xs r r' \<Longrightarrow> reg_ok r' = reg_ok r"
  using sameConfigD(1) [of r r'] by (simp add: says_def reg_ok_def)

lemma keep_alive_ok:
  assumes ok: "hs_wf (handlespaceOf r)" and p: "p \<in> elements (handlespaceOf r)" and c: "contactable (elementAt (handlespaceOf r) p)"
  obtains r' xs where "registrarSendASAPEndpointKeepAlive env p home r = Inr r'" "says xs r r'"
    "env_Memory env \<longrightarrow> (\<exists>x. xs = [x] \<and> isKeepAlive (pr_ServerID r) p (if home then AHF_ENDPOINT_KEEP_ALIVE_HOME else 0) x)"
proof (cases "env_Memory env")
  case False
  then show thesis by (intro that [of r "[]"]) (simp_all add: registrarSendASAPEndpointKeepAlive_def)
next
  case True
  let ?hs = "handlespaceOf r" and ?n = "elementAt (handlespaceOf r) p"
  let ?m = "\<lambda>k. (newMessage env 1024)\<lparr>Handle := pn_Handle (poolAt ?hs (fst p)), RegistrarIdentifier := pr_ServerID r,
     Identifier := pen_Identifier ?n, Type := AHT_ENDPOINT_KEEP_ALIVE, Flags := (if home then AHF_ENDPOINT_KEEP_ALIVE_HOME else 0), Addresses := k\<rparr>"
  let ?x = "\<lambda>sd a bs k. SendOrAbort (transmission sd a bs (?m k)) (pr_ASAPSocket r) 0"
  let ?k = "\<lambda>x. countMessage (\<lambda>s. s\<lparr>EndpointKeepAliveCount := EndpointKeepAliveCount s + 1\<rparr>) (emitOutput x r)"
  have "\<exists>sd a bs k. registrarSendASAPEndpointKeepAlive env p home r = Inr (?k (?x sd a bs k))"
  proof (cases "pen_ConnectionSocketDescriptor ?n \<ge> 0")
    case c1: True
    then show ?thesis using True
      by (intro exI [of _ "pen_ConnectionSocketDescriptor ?n"] exI [of _ "pen_ConnectionAssocID ?n"] exI [of _ "[]"] exI [of _ 0])
         (simp add: registrarSendASAPEndpointKeepAlive_def Let_def newMessage_def rserpoolMessageNew_def)
  next
    case False
    then obtain b where "pen_RegistratorTransport ?n = Some b" using c by (auto simp: contactable_def)
    then show ?thesis using True False
      by (intro exI [of _ "pr_ASAPSocket r"] exI [of _ 0] exI [of _ "tab_AddressArray b"] exI [of _ "length (tab_AddressArray b)"])
         (simp add: registrarSendASAPEndpointKeepAlive_def Let_def addressesOf_def newMessage_def rserpoolMessageNew_def)
  qed
  then obtain sd a bs k where s: "registrarSendASAPEndpointKeepAlive env p home r = Inr (?k (?x sd a bs k))" by blast
  have "isKeepAlive (pr_ServerID r) p (if home then AHF_ENDPOINT_KEEP_ALIVE_HOME else 0) (?x sd a bs k)"
    using element_names [OF ok p] by (simp add: isKeepAlive_def transmission_def)
  moreover have "says [?x sd a bs k] r (?k (?x sd a bs k))"
    using says_trans [of "[?x sd a bs k]" r "emitOutput (?x sd a bs k) r" "[]" "?k (?x sd a bs k)"] by simp
  ultimately show thesis using s by (intro that [of "?k (?x sd a bs k)" "[?x sd a bs k]"]) simp_all
qed

section \<open>Changing the owner\<close>

lemma change_owner_step:
  assumes ok: "reg_ok r" and p: "p \<in> elements (handlespaceOf r)"
  obtains r' g where "onHandlespace env (\<lambda>m. bindR (poolHandlespaceManagementUpdateOwnershipOfPoolElementNode p i m) (\<lambda>m1. Inr ((), m1))) r = Inr ((), r')"
    "reg_ok r'" "quiet r r'" "shifted g (pr_Peers r) (pr_Peers r')" "elements (handlespaceOf r') = elements (handlespaceOf r)"
    "elementAt (handlespaceOf r') = (elementAt (handlespaceOf r))(p := reowned i (elementAt (handlespaceOf r) p))"
    "timerNames (handlespaceOf r') = timerNames (handlespaceOf r)"
proof -
  let ?hs = "handlespaceOf r"
  note wf = reg_okD(1) [OF ok]
  obtain hs' where u: "poolHandlespaceNodeUpdateOwnershipOfPoolElementNode p i ?hs = Inr hs'" "hs_wf hs'" "elements hs' = elements ?hs"
    "elementAt hs' = (elementAt ?hs)(p := reowned i (elementAt ?hs p))"
    "hsn_HomeRegistrarIdentifier hs' = hsn_HomeRegistrarIdentifier ?hs"
    "hsn_PoolElementTimerStorage hs' = hsn_PoolElementTimerStorage ?hs"
    using update_ownership_ok [OF wf p] by blast
  let ?f = "\<lambda>m. bindR (poolHandlespaceManagementUpdateOwnershipOfPoolElementNode p i m) (\<lambda>m1. Inr ((), m1))"
  let ?m = "withHandlespace (pr_Handlespace r) hs'"
  have f: "?f (pr_Handlespace r) = Inr ((), ?m)" "hs_wf (hsm_Handlespace ?m)" "hsm_Memory ?m"
      "hsn_HomeRegistrarIdentifier (hsm_Handlespace ?m) = hsn_HomeRegistrarIdentifier ?hs"
    using u reg_okD(3) [OF ok] by (simp_all add: poolHandlespaceManagementUpdateOwnershipOfPoolElementNode_def withHandlespace_def)
  have "registry hs' = (registry ?hs)(p \<mapsto> entryOf (reowned i (elementAt ?hs p)))"
    using u(3,4) p by (auto simp: registry_def fun_eq_iff)
  then have a: "announced ?hs (hsm_Handlespace ?m)"
    using announced_tells [OF wf u(2)] update_ownership_tells [OF u(1)] p hs_wfD(4) [OF wf] by (simp add: sums_wf_def withHandlespace_def)
  obtain r' g where r': "onHandlespace env ?f r = Inr ((), r')" "reg_ok r'" "quiet r r'"
    "handlespaceOf r' = (hsm_Handlespace ?m)\<lparr>hsn_Notifications := []\<rparr>" "shifted g (pr_Peers r) (pr_Peers r')"
    by (rule on_handlespace_ok [where f = ?f and env = env, OF ok f a])
  have h: "handlespaceOf r' = hs'\<lparr>hsn_Notifications := []\<rparr>" using r'(4) by (simp add: withHandlespace_def)
  show thesis by (rule that [OF r'(1-3,5)]) (simp_all add: h u timerNames_def)
qed

section \<open>Taking a pool element over\<close>

definition takenBy :: "Environment \<Rightarrow> Registrar \<Rightarrow> PoolElementNode \<Rightarrow> PoolElementNode" where
  "takenBy env r n = (reowned (pr_ServerID r) n)\<lparr>pen_TimerCode := PENT_KEEPALIVE_TIMEOUT,
     pen_TimerTimeStamp := env_Now env + pr_EndpointKeepAliveTimeoutInterval r\<rparr>"

lemma take_element_ok:
  assumes ok: "reg_ok r" and p: "p \<in> elements (handlespaceOf r)" and c: "contactable (elementAt (handlespaceOf r) p)"
  obtains r' g xs where "takeElement env p r = Inr r'" "reg_ok r'" "sameConfig r r'" "shifted g (pr_Peers r) (pr_Peers r')"
    "elements (handlespaceOf r') = elements (handlespaceOf r)"
    "elementAt (handlespaceOf r') = (elementAt (handlespaceOf r))(p := takenBy env r (elementAt (handlespaceOf r) p))"
    "set (timerNames (handlespaceOf r')) = Set.insert p (set (timerNames (handlespaceOf r)))"
    "pr_Outputs r' = pr_Outputs r @ xs" "pr_UserData r' = pr_UserData r"
    "env_Memory env \<longrightarrow> (\<exists>x. xs = [x] \<and> isKeepAlive (pr_ServerID r) p AHF_ENDPOINT_KEEP_ALIVE_HOME x)"
proof -
  let ?hs = "handlespaceOf r"
  obtain r1 where d: "onNode (poolHandlespaceNodeDeactivateTimer p) r = Inr r1" "reg_ok r1" "quiet r r1" "pr_Peers r1 = pr_Peers r"
    "elements (handlespaceOf r1) = elements ?hs" "elementAt (handlespaceOf r1) = elementAt ?hs"
    "timerNames (handlespaceOf r1) = filter (\<lambda>q. q \<noteq> p) (timerNames ?hs)"
    by (rule deactivate_timer [OF ok, of p])
  have p1: "p \<in> elements (handlespaceOf r1)" using p d(5) by simp
  obtain r2 g where u: "onHandlespace env (\<lambda>m. bindR (poolHandlespaceManagementUpdateOwnershipOfPoolElementNode p (pr_ServerID r1) m) (\<lambda>m1. Inr ((), m1))) r1 = Inr ((), r2)"
    "reg_ok r2" "quiet r1 r2" "shifted g (pr_Peers r1) (pr_Peers r2)" "elements (handlespaceOf r2) = elements (handlespaceOf r1)"
    "elementAt (handlespaceOf r2) = (elementAt (handlespaceOf r1))(p := reowned (pr_ServerID r1) (elementAt (handlespaceOf r1) p))"
    "timerNames (handlespaceOf r2) = timerNames (handlespaceOf r1)"
    by (rule change_owner_step [OF d(2) p1])
  have q2: "quiet r r2" using quiet_trans [OF d(3) u(3)] .
  note s1 = sameConfigD(1) [OF quietD(1) [OF d(3)]] and s2 = quietD(1) [OF q2]
  have p2: "p \<in> elements (handlespaceOf r2)" "contactable (elementAt (handlespaceOf r2) p)"
    using p c u(5,6) d(5,6) by (simp_all add: contactable_def reowned_def)
  obtain r3 xs where k: "registrarSendASAPEndpointKeepAlive env p True r2 = Inr r3" "says xs r2 r3"
    "env_Memory env \<longrightarrow> (\<exists>x. xs = [x] \<and> isKeepAlive (pr_ServerID r2) p (if True then AHF_ENDPOINT_KEEP_ALIVE_HOME else 0) x)"
    by (rule keep_alive_ok [OF reg_okD(1) [OF u(2)] p2, of env True])
  note k2 = saysD [OF k(2)]
  have s3: "sameConfig r r3" using sameConfig_trans [OF s2 k2(1)] .
  have ok3: "reg_ok r3" using says_ok [OF k(2)] u(2) by simp
  have n3: "p \<in> elements (handlespaceOf r3)" "p \<notin> set (timerNames (handlespaceOf r3))" using p2(1) k2(2) u(7) d(7) by simp_all
  obtain r4 where a: "onNode (poolHandlespaceNodeActivateTimer p PENT_KEEPALIVE_TIMEOUT
        (env_Now env + pr_EndpointKeepAliveTimeoutInterval r3)) r3 = Inr r4" "reg_ok r4" "quiet r3 r4" "pr_Peers r4 = pr_Peers r3"
    "elements (handlespaceOf r4) = elements (handlespaceOf r3)"
    "elementAt (handlespaceOf r4) = (elementAt (handlespaceOf r3))(p := (elementAt (handlespaceOf r3) p)\<lparr>pen_TimerCode := PENT_KEEPALIVE_TIMEOUT,
       pen_TimerTimeStamp := env_Now env + pr_EndpointKeepAliveTimeoutInterval r3\<rparr>)"
    "set (timerNames (handlespaceOf r4)) = Set.insert p (set (timerNames (handlespaceOf r3)))"
    by (rule activate_timer [OF ok3 n3])
  have run: "takeElement env p r = Inr r4" using d(1) u(1) k(1) a(1) by (simp add: takeElement_def)
  show thesis
  proof (rule that [OF run a(2)])
    show "sameConfig r r4" using sameConfig_trans [OF s3 quietD(1) [OF a(3)]] .
    show "shifted g (pr_Peers r) (pr_Peers r4)" using u(4) a(4) k2(3) d(4) by simp
    show "elementAt (handlespaceOf r4) = (elementAt ?hs)(p := takenBy env r (elementAt ?hs p))"
      using a(6) k2(2) u(6) d(6) by (simp add: takenBy_def s1 sameConfigD(4) [OF s3])
    show "set (timerNames (handlespaceOf r4)) = Set.insert p (set (timerNames ?hs))"
      using a(7) k2(2) u(7) d(7) by auto
    show "env_Memory env \<longrightarrow> (\<exists>x. xs = [x] \<and> isKeepAlive (pr_ServerID r) p AHF_ENDPOINT_KEEP_ALIVE_HOME x)"
      using k(3) by (simp add: sameConfigD(1) [OF s2])
    show "pr_Outputs r4 = pr_Outputs r @ xs" "pr_UserData r4 = pr_UserData r"
      using quietD [OF a(3)] k2 quietD [OF q2] by simp_all
    show "elements (handlespaceOf r4) = elements ?hs" using a(5) k2(2) u(5) d(5) by simp
  qed
qed

section \<open>Taking all pool elements of a peer over\<close>

lemma owned_by_taken:
  assumes "hs_wf hs" "hs_wf hs'" "elements hs' = elements hs" "elementAt hs' = (elementAt hs)(p := n)"
    "pen_HomeRegistrarIdentifier n \<noteq> i" "i \<noteq> 0"
  shows "ownedBy i hs' = filter (\<lambda>q. q \<noteq> p) (ownedBy i hs)"
proof -
  have st: "hs_struct hs" "hs_struct hs'" using assms(1,2) by (simp_all add: hs_wf_struct)
  have s: "set (ownedBy i hs') = set (ownedBy i hs) - {p}"
    using ownedBy_set(3) [OF st(1) assms(6)] ownedBy_set(3) [OF st(2) assms(6)] assms(3-5) by auto
  then show ?thesis by (intro owned_by_shrinks [OF st s]) (auto simp: assms(4))
qed

lemma for_owned_take:
  assumes "reg_ok r" "i \<noteq> 0" "i \<noteq> pr_ServerID r" "ownedBy i (handlespaceOf r) = ps" "length ps \<le> k"
    "\<forall>p \<in> set ps. contactable (elementAt (handlespaceOf r) p)"
  shows "\<exists>r' g xs. forOwned k (takeElement env) (case ps of [] \<Rightarrow> None | p # _ \<Rightarrow> Some p) r = Inr r' \<and> reg_ok r' \<and> sameConfig r r' \<and>
    shifted g (pr_Peers r) (pr_Peers r') \<and> elements (handlespaceOf r') = elements (handlespaceOf r) \<and>
    elementAt (handlespaceOf r') = (\<lambda>p. if p \<in> set ps then takenBy env r (elementAt (handlespaceOf r) p) else elementAt (handlespaceOf r) p) \<and>
    set (timerNames (handlespaceOf r')) = set ps \<union> set (timerNames (handlespaceOf r)) \<and>
    pr_Outputs r' = pr_Outputs r @ xs \<and> pr_UserData r' = pr_UserData r \<and>
    (env_Memory env \<longrightarrow> list_all2 (\<lambda>p x. isKeepAlive (pr_ServerID r) p AHF_ENDPOINT_KEEP_ALIVE_HOME x) ps xs)"
  using assms
proof (induction k arbitrary: r ps)
  case 0
  then show ?case
    by (intro exI [of _ r] exI [of _ "\<lambda>_. 0"] exI [of _ "[]"]) (simp add: shifted_def follows_def reg_okD(5))
next
  case (Suc k)
  let ?hs = "handlespaceOf r"
  note st = reg_okD(8) [OF Suc.prems(1)]
  show ?case
  proof (cases ps)
    case Nil
    then show ?thesis using Suc.prems(1)
      by (intro exI [of _ r] exI [of _ "\<lambda>_. 0"] exI [of _ "[]"]) (simp add: shifted_def follows_def reg_okD(5))
  next
    case (Cons p qs)
    have pE: "p \<in> elements ?hs" using ownedBy_set(2) [OF st, of i] Suc.prems(4) Cons by auto
    have nx: "poolHandlespaceNodeGetNextPoolElementOwnershipNodeForSameIdentifier ?hs p = (case qs of [] \<Rightarrow> None | q # _ \<Rightarrow> Some q)"
      using next_owned [OF st, of i "[]"] Suc.prems(4) Cons by simp
    have dn: "p \<notin> set qs" using ownedBy_set(1) [OF st, of i] Suc.prems(4) Cons by simp
    have c: "contactable (elementAt ?hs p)" using Suc.prems(6) Cons by simp
    obtain r1 g1 xs1 where t: "takeElement env p r = Inr r1" "reg_ok r1" "sameConfig r r1" "shifted g1 (pr_Peers r) (pr_Peers r1)"
      "elements (handlespaceOf r1) = elements ?hs" "elementAt (handlespaceOf r1) = (elementAt ?hs)(p := takenBy env r (elementAt ?hs p))"
      "set (timerNames (handlespaceOf r1)) = Set.insert p (set (timerNames ?hs))"
      "pr_Outputs r1 = pr_Outputs r @ xs1" "pr_UserData r1 = pr_UserData r"
      "env_Memory env \<longrightarrow> (\<exists>x. xs1 = [x] \<and> isKeepAlive (pr_ServerID r) p AHF_ENDPOINT_KEEP_ALIVE_HOME x)"
      by (rule take_element_ok [OF Suc.prems(1) pE c])
    note cf = sameConfigD(1,4) [OF t(3)]
    have o1: "ownedBy i (handlespaceOf r1) = qs"
      using owned_by_taken [OF reg_okD(1) [OF Suc.prems(1)] reg_okD(1) [OF t(2)] t(5,6) _ Suc.prems(2)] Suc.prems(3,4) Cons dn
      by (simp add: takenBy_def filter_id_conv) metis
    have c1: "\<forall>q \<in> set qs. contactable (elementAt (handlespaceOf r1) q)" using Suc.prems(6) Cons t(6) dn by auto
    have "length qs \<le> k" using Suc.prems(5) Cons by simp
    with Suc.IH [OF t(2) Suc.prems(2) _ o1 _ c1] Suc.prems(3) cf(1) obtain r' g xs where
      f: "forOwned k (takeElement env) (case qs of [] \<Rightarrow> None | q # _ \<Rightarrow> Some q) r1 = Inr r'" "reg_ok r'" "sameConfig r1 r'"
      "shifted g (pr_Peers r1) (pr_Peers r')" "elements (handlespaceOf r') = elements (handlespaceOf r1)"
      "elementAt (handlespaceOf r') = (\<lambda>q. if q \<in> set qs then takenBy env r1 (elementAt (handlespaceOf r1) q) else elementAt (handlespaceOf r1) q)"
      "set (timerNames (handlespaceOf r')) = set qs \<union> set (timerNames (handlespaceOf r1))"
      "pr_Outputs r' = pr_Outputs r1 @ xs" "pr_UserData r' = pr_UserData r1"
      "env_Memory env \<longrightarrow> list_all2 (\<lambda>p x. isKeepAlive (pr_ServerID r1) p AHF_ENDPOINT_KEEP_ALIVE_HOME x) qs xs" by auto
    have tk: "takenBy env r1 = takenBy env r" using cf by (simp add: takenBy_def fun_eq_iff)
    have run: "forOwned (Suc k) (takeElement env) (case ps of [] \<Rightarrow> None | p # _ \<Rightarrow> Some p) r = Inr r'"
      using Cons nx t(1) f(1) by simp
    have e: "elementAt (handlespaceOf r') = (\<lambda>q. if q \<in> set ps then takenBy env r (elementAt ?hs q) else elementAt ?hs q)"
      using f(6) t(6) Cons dn by (auto simp: tk fun_eq_iff)
    have l: "env_Memory env \<longrightarrow> list_all2 (\<lambda>p x. isKeepAlive (pr_ServerID r) p AHF_ENDPOINT_KEEP_ALIVE_HOME x) ps (xs1 @ xs)"
      using f(10) t(10) cf(1) Cons by auto
    show ?thesis
      using run f(2) sameConfig_trans [OF t(3) f(3)] shifted_trans [OF t(4) f(4)] e l f(5,7,8,9) t(5,7,8,9) Cons
      by (intro exI [of _ r'] exI [of _ "\<lambda>j. g1 j + g j"] exI [of _ "xs1 @ xs"]) auto
  qed
qed

section \<open>Peers\<close>

lemma registrar_update_peer:
  assumes ok: "reg_ok r" and p: "p \<in> peers (peersOf r)"
    and k: "pln_Identifier (f (peerAt (peersOf r) p)) = pln_Identifier (peerAt (peersOf r) p)"
      "pln_TimerTimeStamp (f (peerAt (peersOf r) p)) = pln_TimerTimeStamp (peerAt (peersOf r) p)"
      "pln_AddressBlock (f (peerAt (peersOf r) p)) = pln_AddressBlock (peerAt (peersOf r) p)"
      "pln_Flags (f (peerAt (peersOf r) p)) = pln_Flags (peerAt (peersOf r) p)"
      "pln_OwnershipChecksum (f (peerAt (peersOf r) p)) = pln_OwnershipChecksum (peerAt (peersOf r) p)"
  shows "reg_ok (updatePeer p f r)" "peers (peersOf (updatePeer p f r)) = peers (peersOf r)"
    "timed (peersOf (updatePeer p f r)) = timed (peersOf r)"
    "peerAt (peersOf (updatePeer p f r)) q = (if q = p then f (peerAt (peersOf r) p) else peerAt (peersOf r) q)"
proof -
  note m = reg_okD(5) [OF ok]
  have "sameKey (peerAt (peersOf r) p) (f (peerAt (peersOf r) p))"
    using k list_okD(7) [OF management_okD(1) [OF m] p] by (simp add: sameKey_def block.cmp_refl peer_ok_def static_def)
  note s = setPeer_management [where f = f, OF m p this]
  show peers: "peers (peersOf (updatePeer p f r)) = peers (peersOf r)" "timed (peersOf (updatePeer p f r)) = timed (peersOf r)"
    by (simp_all add: withList_def peers_def timed_def setPeer_def)
  show at: "peerAt (peersOf (updatePeer p f r)) q = (if q = p then f (peerAt (peersOf r) p) else peerAt (peersOf r) q)" for q
    by (simp add: withList_def)
  have "synchronised (handlespaceOf r) (pr_Peers (updatePeer p f r))"
    using reg_okD(6) [OF ok] at peers k unfolding synchronised_def by auto
  then show "reg_ok (updatePeer p f r)" using ok s by (simp add: reg_ok_def)
qed

lemma deregister_peer_ok:
  assumes ok: "reg_ok r" and p: "p \<in> peers (peersOf r)" and i: "pln_Identifier (peerAt (peersOf r) p) \<noteq> 0"
  obtains r' where "deregisterPeer p r = Inr r'" "reg_ok r'" "sameConfig r r'" "pr_Handlespace r' = pr_Handlespace r" "pr_Outputs r' = pr_Outputs r"
    "pr_HandlespaceActionTimer r' = pr_HandlespaceActionTimer r"
    "\<forall>q \<in> peers (peersOf r'). pln_Identifier (peerAt (peersOf r') q) \<noteq> pln_Identifier (peerAt (peersOf r) p)"
proof -
  note m = reg_okD(5) [OF ok]
  note lok = management_okD(1) [OF m]
  obtain m' where d: "peerListManagementDeregisterPeerListNodeByPtr p (pr_Peers r) = Inr (RSPERR_OKAY, m')" "management_ok m'" "only p (pr_Peers r) m'"
    "if keepsEntry (peerAt (peersOf r) p) then p \<in> peers (plm_List m') \<and> peerAt (plm_List m') p = peerListNodeNew 0 0 (pln_AddressBlock (peerAt (peersOf r) p))
     else p \<notin> peers (plm_List m')"
    using peer_deregister_ok [OF m p] by blast
  let ?r = "r\<lparr>pr_Peers := m', pr_UserData := (\<lambda>q. if pl_Nodes (plm_List m') q = None then None else pr_UserData r q)\<rparr>"
  have o: "q \<in> peers (peersOf r) \<and> peerAt (plm_List m') q = peerAt (peersOf r) q" if "q \<in> peers (plm_List m')" "q \<noteq> p" for q
    using d(3) that unfolding only_def by blast
  have z: "pln_Identifier (peerAt (plm_List m') p) = 0" if "p \<in> peers (plm_List m')"
    using d(4) that by (auto simp: peerListNodeNew_def split: if_splits)
  have "synchronised (handlespaceOf r) m'"
    using reg_okD(6) [OF ok] o z unfolding synchronised_def by metis
  then have "reg_ok ?r" using ok d(2) by (simp add: reg_ok_def)
  moreover have "pln_Identifier (peerAt (plm_List m') q) \<noteq> pln_Identifier (peerAt (peersOf r) p)" if q: "q \<in> peers (plm_List m')" for q
  proof (cases "q = p")
    case True
    then show ?thesis using z q i by simp
  next
    case False
    have q1: "q \<in> peers (peersOf r)" and e: "peerAt (plm_List m') q = peerAt (peersOf r) q" using o [OF q False] by simp_all
    have "pln_Identifier (peerAt (peersOf r) q) \<noteq> pln_Identifier (peerAt (peersOf r) p)"
      using identifiers_apart [OF lok p q1] False i by metis
    then show ?thesis unfolding e .
  qed
  moreover have "sameConfig r ?r" by (simp add: sameConfig_def)
  ultimately show thesis using d(1) by (intro that [of ?r]) (simp_all add: deregisterPeer_def)
qed

lemma shifted_peers:
  assumes "shifted g m m'"
  shows "peers (plm_List m') = peers (plm_List m)" "timed (plm_List m') = timed (plm_List m)"
    "p \<in> peers (plm_List m) \<Longrightarrow> pln_Identifier (peerAt (plm_List m') p) = pln_Identifier (peerAt (plm_List m) p) \<and>
       pln_TakeoverProcess (peerAt (plm_List m') p) = pln_TakeoverProcess (peerAt (plm_List m) p) \<and>
       pln_AddressBlock (peerAt (plm_List m') p) = pln_AddressBlock (peerAt (plm_List m) p)"
proof -
  show "peers (plm_List m') = peers (plm_List m)" "timed (plm_List m') = timed (plm_List m)"
    using assms by (simp_all add: shifted_def)
  show "pln_Identifier (peerAt (plm_List m') p) = pln_Identifier (peerAt (plm_List m) p) \<and>
       pln_TakeoverProcess (peerAt (plm_List m') p) = pln_TakeoverProcess (peerAt (plm_List m) p) \<and>
       pln_AddressBlock (peerAt (plm_List m') p) = pln_AddressBlock (peerAt (plm_List m) p)" if "p \<in> peers (plm_List m)"
    using assms that by (cases "pln_Identifier (peerAt (plm_List m) p) = 0") (simp_all add: shifted_def)
qed

section \<open>The end of a takeover\<close>

definition isTakeoverServer :: "u32 \<Rightarrow> u32 \<Rightarrow> u32 \<Rightarrow> Output \<Rightarrow> bool" where
  "isTakeoverServer server target receiver x \<longleftrightarrow> (\<exists>tx. x = Send tx \<and> Type (tx_Message tx) = EHT_TAKEOVER_SERVER \<and>
     SenderID (tx_Message tx) = server \<and> ReceiverID (tx_Message tx) = receiver \<and> RegistrarIdentifier (tx_Message tx) = target)"

lemma takeover_server_says:
  "\<exists>xs. says xs r (takeoverServerToPeers env t ps r) \<and> (env_Memory env \<longrightarrow> (\<forall>p \<in> set ps. pln_Identifier (peerAt (peersOf r) p) \<noteq> 0 \<longrightarrow>
     (\<exists>x \<in> set xs. isTakeoverServer (pr_ServerID r) t (pln_Identifier (peerAt (peersOf r) p)) x)))"
proof (induction ps arbitrary: r)
  case Nil
  then show ?case by (intro exI [of _ "[]"]) simp
next
  case (Cons p ps)
  let ?i = "pln_Identifier (peerAt (peersOf r) p)"
  let ?r = "if ?i \<noteq> 0 then registrarSendENRPTakeoverServer env (pr_ENRPUnicastSocket r) 0 [] ?i t r else r"
  obtain ys where y: "says ys r ?r" "env_Memory env \<longrightarrow> ?i \<noteq> 0 \<longrightarrow> (\<exists>x \<in> set ys. isTakeoverServer (pr_ServerID r) t ?i x)"
  proof (cases "?i \<noteq> 0 \<and> env_Memory env")
    case True
    let ?x = "Send (transmission (pr_ENRPUnicastSocket r) 0 [] ((takeoverMessage env r EHT_TAKEOVER_SERVER ?i t)
       \<lparr>PPID := PPID_ENRP, AssocID := 0, Addresses := 0\<rparr>))"
    have "?r = emitOutput ?x r" using True by (simp add: registrarSendENRPTakeoverServer_def)
    moreover have "isTakeoverServer (pr_ServerID r) t ?i ?x" by (simp add: isTakeoverServer_def transmission_def takeoverMessage_def)
    ultimately show thesis by (intro that [of "[?x]"]) simp_all
  next
    case False
    then have "?r = r" by (auto simp: registrarSendENRPTakeoverServer_def)
    then show thesis using False by (intro that [of "[]"]) auto
  qed
  have same: "pr_Peers ?r = pr_Peers r" "pr_ServerID ?r = pr_ServerID r" using saysD(3) [OF y(1)] sameConfigD(1) [OF saysD(1) [OF y(1)]] by simp_all
  obtain xs where x: "says xs ?r (takeoverServerToPeers env t ps ?r)" "env_Memory env \<longrightarrow> (\<forall>p \<in> set ps. pln_Identifier (peerAt (peersOf r) p) \<noteq> 0 \<longrightarrow>
     (\<exists>x \<in> set xs. isTakeoverServer (pr_ServerID r) t (pln_Identifier (peerAt (peersOf r) p)) x))"
    using Cons.IH [of ?r] unfolding same by blast
  have run: "takeoverServerToPeers env t (p # ps) r = takeoverServerToPeers env t ps ?r" by (simp add: Let_def)
  have "env_Memory env \<longrightarrow> (\<forall>q \<in> set (p # ps). pln_Identifier (peerAt (peersOf r) q) \<noteq> 0 \<longrightarrow>
     (\<exists>x \<in> set (ys @ xs). isTakeoverServer (pr_ServerID r) t (pln_Identifier (peerAt (peersOf r) q)) x))"
    using x(2) y(2) unfolding set_append by (metis Un_iff set_ConsD)
  then show ?case using says_trans [OF y(1) x(1)] unfolding run by blast
qed

lemma restart_timer_simps [simp]:
  "pr_HandlespaceActionTimer (restartHandlespaceActionTimer r) = Some (poolHandlespaceManagementGetNextTimerTimeStamp (pr_Handlespace r))"
  "pr_UserData (restartHandlespaceActionTimer r) = pr_UserData r"
  by (simp_all add: restartHandlespaceActionTimer_def)

lemma finish_takeover_ok:
  assumes ok: "reg_ok r" and t: "t \<noteq> 0" "t \<noteq> pr_ServerID r"
    and c: "\<forall>p \<in> set (ownedBy t (handlespaceOf r)). contactable (elementAt (handlespaceOf r) p)"
  obtains r' g xs where "registrarFinishTakeover env t r = Inr r'" "reg_ok r'" "sameConfig r r'" "shifted g (pr_Peers r) (pr_Peers r')"
    "elements (handlespaceOf r') = elements (handlespaceOf r)"
    "elementAt (handlespaceOf r') = (\<lambda>p. if p \<in> set (ownedBy t (handlespaceOf r)) then takenBy env r (elementAt (handlespaceOf r) p) else elementAt (handlespaceOf r) p)"
    "set (timerNames (handlespaceOf r')) = set (ownedBy t (handlespaceOf r)) \<union> set (timerNames (handlespaceOf r))"
    "pr_Outputs r' = pr_Outputs r @ xs"
    "pr_HandlespaceActionTimer r' = Some (poolHandlespaceManagementGetNextTimerTimeStamp (pr_Handlespace r'))"
    "env_Memory env \<longrightarrow> (\<forall>p \<in> set (ownedBy t (handlespaceOf r)). \<exists>x \<in> set xs. isKeepAlive (pr_ServerID r) p AHF_ENDPOINT_KEEP_ALIVE_HOME x)"
    "env_Memory env \<longrightarrow> (\<forall>q \<in> peers (peersOf r). pln_Identifier (peerAt (peersOf r) q) \<noteq> 0 \<longrightarrow>
       (\<exists>x \<in> set xs. isTakeoverServer (pr_ServerID r) t (pln_Identifier (peerAt (peersOf r) q)) x))"
proof -
  let ?hs = "handlespaceOf r" and ?ps = "ownedBy t (handlespaceOf r)"
  let ?r1 = "registrarSendENRPTakeoverServerToAllPeers env t r"
  have idx: "set (peersByIndex (peersOf r)) = peers (peersOf r)" using peersByIndex_set [OF management_okD(1) [OF reg_okD(5) [OF ok]]] by simp
  obtain ys where y: "says ys r ?r1" "env_Memory env \<longrightarrow> (\<forall>q \<in> peers (peersOf r). pln_Identifier (peerAt (peersOf r) q) \<noteq> 0 \<longrightarrow>
     (\<exists>x \<in> set ys. isTakeoverServer (pr_ServerID r) t (pln_Identifier (peerAt (peersOf r) q)) x))"
    using takeover_server_says [of r env t "peersByIndex (peersOf r)"] unfolding idx registrarSendENRPTakeoverServerToAllPeers_def by blast
  note y1 = saysD [OF y(1)]
  have ok1: "reg_ok ?r1" using says_ok [OF y(1)] ok by simp
  have h1: "handlespaceOf ?r1 = ?hs" using y1(2) by simp
  have sv: "pr_ServerID ?r1 = pr_ServerID r" using sameConfigD(1) [OF y1(1)] .
  have len: "length ?ps \<le> RedBlackTreeGetElements (hsn_PoolElementOwnershipStorage ?hs)"
  proof -
    have "length (ownershipNames ?hs) = RedBlackTreeGetElements (hsn_PoolElementOwnershipStorage ?hs)"
      using ownership_names(4) [OF reg_okD(8) [OF ok]]
      by (simp add: ownershipNames_def owner_links.names_def RedBlackTreeGetElements_def owner_links.links_def rbt_wf_def)
    then show ?thesis using length_filter_le [of _ "ownershipNames ?hs"] by (metis ownedBy_def)
  qed
  obtain r2 g zs where f: "forOwned (RedBlackTreeGetElements (hsn_PoolElementOwnershipStorage ?hs)) (takeElement env) (case ?ps of [] \<Rightarrow> None | p # _ \<Rightarrow> Some p) ?r1 = Inr r2"
    "reg_ok r2" "sameConfig ?r1 r2" "shifted g (pr_Peers ?r1) (pr_Peers r2)" "elements (handlespaceOf r2) = elements ?hs"
    "elementAt (handlespaceOf r2) = (\<lambda>p. if p \<in> set ?ps then takenBy env ?r1 (elementAt ?hs p) else elementAt ?hs p)"
    "set (timerNames (handlespaceOf r2)) = set ?ps \<union> set (timerNames ?hs)" "pr_Outputs r2 = pr_Outputs ?r1 @ zs"
    "env_Memory env \<longrightarrow> list_all2 (\<lambda>p x. isKeepAlive (pr_ServerID r) p AHF_ENDPOINT_KEEP_ALIVE_HOME x) ?ps zs"
    using for_owned_take [OF ok1 t(1), of ?ps _ env] t(2) c len unfolding h1 sv by blast
  have s2: "sameConfig r r2" using sameConfig_trans [OF y1(1) f(3)] .
  have first: "poolHandlespaceNodeGetFirstPoolElementOwnershipNodeForIdentifier ?hs t = Inr (case ?ps of [] \<Rightarrow> None | p # _ \<Rightarrow> Some p)"
    using owned_nodes_ok(1) [OF reg_okD(8) [OF ok]] by (simp add: ownedBy_def)
  have run: "registrarFinishTakeover env t r = Inr (restartHandlespaceActionTimer r2)"
    using first f(1) by (simp add: registrarFinishTakeover_def forAllOwned_def h1)
  have tk: "takenBy env ?r1 = takenBy env r" using sv sameConfigD(4) [OF y1(1)] by (simp add: takenBy_def fun_eq_iff)
  show thesis
  proof (rule that [OF run])
    show "sameConfig r (restartHandlespaceActionTimer r2)" using sameConfig_trans [OF s2] by simp
    show "pr_Outputs (restartHandlespaceActionTimer r2) = pr_Outputs r @ (ys @ zs)" using f(8) y1(6) by simp
    show "env_Memory env \<longrightarrow> (\<forall>p \<in> set ?ps. \<exists>x \<in> set (ys @ zs). isKeepAlive (pr_ServerID r) p AHF_ENDPOINT_KEEP_ALIVE_HOME x)"
      using f(9) by (metis Un_iff list_all2_lengthD list_all2_nthD in_set_conv_nth nth_mem set_append)
  qed (use f y y1(3) tk in \<open>auto simp: reg_ok_parts\<close>)
qed

lemma acknowledged_takeover:
  assumes ok: "reg_ok r" and own: "pl_OwnIdentifier (peersOf r) = pr_ServerID r" "pr_ServerID r \<noteq> 0"
    and p: "p \<in> peers (peersOf r)" "pln_Identifier (peerAt (peersOf r) p) = t" "t \<noteq> 0"
    and tp: "pln_TakeoverProcess (peerAt (peersOf r) p) = Some tp" "takeover_ok tp" "outstanding tp \<subseteq> {SenderID message}"
    and msg: "RegistrarIdentifier message = t" "SenderID message \<noteq> pr_ServerID r"
    and c: "\<forall>p \<in> elements (handlespaceOf r). pen_HomeRegistrarIdentifier (elementAt (handlespaceOf r) p) = t \<longrightarrow> contactable (elementAt (handlespaceOf r) p)"
  obtains r' xs where "registrarHandleENRPInitTakeoverAck env message r = Inr r'" "reg_ok r'"
    "\<forall>q \<in> peers (peersOf r'). pln_Identifier (peerAt (peersOf r') q) \<noteq> t" "elements (handlespaceOf r') = elements (handlespaceOf r)"
    "\<forall>p \<in> elements (handlespaceOf r). elementAt (handlespaceOf r') p =
       (if pen_HomeRegistrarIdentifier (elementAt (handlespaceOf r) p) = t then takenBy env r (elementAt (handlespaceOf r) p) else elementAt (handlespaceOf r) p)"
    "\<forall>p \<in> elements (handlespaceOf r). pen_HomeRegistrarIdentifier (elementAt (handlespaceOf r) p) = t \<longrightarrow> p \<in> set (timerNames (handlespaceOf r'))"
    "pr_Outputs r' = pr_Outputs r @ xs"
    "env_Memory env \<longrightarrow> (\<forall>p \<in> elements (handlespaceOf r). pen_HomeRegistrarIdentifier (elementAt (handlespaceOf r) p) = t \<longrightarrow>
       (\<exists>x \<in> set xs. isKeepAlive (pr_ServerID r) p AHF_ENDPOINT_KEEP_ALIVE_HOME x))"
    "env_Memory env \<longrightarrow> (\<forall>q \<in> peers (peersOf r). pln_Identifier (peerAt (peersOf r) q) \<noteq> 0 \<longrightarrow>
       (\<exists>x \<in> set xs. isTakeoverServer (pr_ServerID r) t (pln_Identifier (peerAt (peersOf r) q)) x))"
proof -
  let ?hs = "handlespaceOf r" and ?a = "SenderID message"
  note m = reg_okD(5) [OF ok]
  have tS: "t \<noteq> pr_ServerID r" using list_okD(7) [OF management_okD(1) [OF m] p(1)] own p(2) by (auto simp: peer_ok_def)
  have own_t: "set (ownedBy t ?hs) = {p \<in> elements ?hs. pen_HomeRegistrarIdentifier (elementAt ?hs p) = t}"
    using ownedBy_set(3) [OF reg_okD(8) [OF ok] p(3)] .
  have find: "peerListManagementFindPeerListNode (env_LogLevel env) t None (pr_Peers r) = Inr (Some p)"
    using find_identifier(1) [OF management_okD(1) [OF m] p(3,1,2)] by (simp add: peerListManagementFindPeerListNode_def)
  obtain tp1 where ack: "takeoverProcessAcknowledge t ?a tp = (0, tp1)"
    using acknowledge_ok [OF tp(2), of t ?a] tp(3) by (metis Diff_eq_empty_iff card.empty)
  let ?r1 = "updatePeer p (\<lambda>n. n\<lparr>pln_TakeoverProcess := Some tp1\<rparr>) r"
  have ok1: "reg_ok ?r1" and p1: "p \<in> peers (peersOf ?r1)" and at1: "\<And>q. pln_Identifier (peerAt (peersOf ?r1) q) = pln_Identifier (peerAt (peersOf r) q)"
    and peers1: "peers (peersOf ?r1) = peers (peersOf r)"
    using registrar_update_peer [where f = "\<lambda>n. n\<lparr>pln_TakeoverProcess := Some tp1\<rparr>", OF ok p(1)] p(1) by simp_all
  have c1: "\<forall>p \<in> set (ownedBy t (handlespaceOf ?r1)). contactable (elementAt (handlespaceOf ?r1) p)" using c own_t by simp
  obtain r2 g xs where f: "registrarFinishTakeover env t ?r1 = Inr r2" "reg_ok r2" "sameConfig ?r1 r2" "shifted g (pr_Peers ?r1) (pr_Peers r2)"
    "elements (handlespaceOf r2) = elements (handlespaceOf ?r1)"
    "elementAt (handlespaceOf r2) = (\<lambda>p. if p \<in> set (ownedBy t (handlespaceOf ?r1)) then takenBy env ?r1 (elementAt (handlespaceOf ?r1) p) else elementAt (handlespaceOf ?r1) p)"
    "set (timerNames (handlespaceOf r2)) = set (ownedBy t (handlespaceOf ?r1)) \<union> set (timerNames (handlespaceOf ?r1))"
    "pr_Outputs r2 = pr_Outputs ?r1 @ xs"
    "env_Memory env \<longrightarrow> (\<forall>p \<in> set (ownedBy t (handlespaceOf ?r1)). \<exists>x \<in> set xs. isKeepAlive (pr_ServerID ?r1) p AHF_ENDPOINT_KEEP_ALIVE_HOME x)"
    "env_Memory env \<longrightarrow> (\<forall>q \<in> peers (peersOf ?r1). pln_Identifier (peerAt (peersOf ?r1) q) \<noteq> 0 \<longrightarrow>
       (\<exists>x \<in> set xs. isTakeoverServer (pr_ServerID ?r1) t (pln_Identifier (peerAt (peersOf ?r1) q)) x))"
    by (rule finish_takeover_ok [OF ok1 p(3) _ c1]) (use tS in simp)
  have p2: "p \<in> peers (peersOf r2)" "pln_Identifier (peerAt (peersOf r2) p) = t"
    using shifted_peers [OF f(4)] p1 at1 p(2) by simp_all
  let ?r3 = "updatePeer p (\<lambda>n. n\<lparr>pln_TakeoverProcess := None\<rparr>) r2"
  have ok3: "reg_ok ?r3" and p3: "p \<in> peers (peersOf ?r3)" "pln_Identifier (peerAt (peersOf ?r3) p) = t"
    using registrar_update_peer [where f = "\<lambda>n. n\<lparr>pln_TakeoverProcess := None\<rparr>", OF f(2) p2(1)] p2 by simp_all
  obtain r4 where d: "deregisterPeer p ?r3 = Inr r4" "reg_ok r4" "pr_Handlespace r4 = pr_Handlespace ?r3" "pr_Outputs r4 = pr_Outputs ?r3"
    "\<forall>q \<in> peers (peersOf r4). pln_Identifier (peerAt (peersOf r4) q) \<noteq> pln_Identifier (peerAt (peersOf ?r3) p)"
    by (rule deregister_peer_ok [OF ok3 p3(1)]) (use p3(2) p(3) in simp)
  have run: "registrarHandleENRPInitTakeoverAck env message r = Inr r4"
    using find tp(1) ack f(1) d(1) msg by (simp add: registrarHandleENRPInitTakeoverAck_def Let_def)
  have tk: "takenBy env ?r1 = takenBy env r" by (simp add: takenBy_def fun_eq_iff updatePeer_def)
  show thesis
  proof (rule that [OF run d(2)])
    show "pr_Outputs r4 = pr_Outputs r @ xs" using d(4) f(8) by simp
    show "env_Memory env \<longrightarrow> (\<forall>q \<in> peers (peersOf r). pln_Identifier (peerAt (peersOf r) q) \<noteq> 0 \<longrightarrow>
       (\<exists>x \<in> set xs. isTakeoverServer (pr_ServerID r) t (pln_Identifier (peerAt (peersOf r) q)) x))"
      using f(10) unfolding peers1 at1 by simp
    show "\<forall>p \<in> elements ?hs. elementAt (handlespaceOf r4) p =
       (if pen_HomeRegistrarIdentifier (elementAt ?hs p) = t then takenBy env r (elementAt ?hs p) else elementAt ?hs p)"
      using f(6) d(3) own_t unfolding tk by simp
    show "\<forall>q \<in> peers (peersOf r4). pln_Identifier (peerAt (peersOf r4) q) \<noteq> t" using d(5) p3(2) by simp
    show "elements (handlespaceOf r4) = elements ?hs" using d(3) f(5) by simp
    show "\<forall>p \<in> elements ?hs. pen_HomeRegistrarIdentifier (elementAt ?hs p) = t \<longrightarrow> p \<in> set (timerNames (handlespaceOf r4))"
      using d(3) f(7) own_t by simp
    show "env_Memory env \<longrightarrow> (\<forall>p \<in> elements ?hs. pen_HomeRegistrarIdentifier (elementAt ?hs p) = t \<longrightarrow>
       (\<exists>x \<in> set xs. isKeepAlive (pr_ServerID r) p AHF_ENDPOINT_KEEP_ALIVE_HOME x))"
    proof (intro impI ballI)
      fix p assume "env_Memory env" "p \<in> elements ?hs" "pen_HomeRegistrarIdentifier (elementAt ?hs p) = t"
      then have "env_Memory env" "p \<in> set (ownedBy t (handlespaceOf ?r1))" using own_t by simp_all
      with f(9) have "\<exists>x \<in> set xs. isKeepAlive (pr_ServerID ?r1) p AHF_ENDPOINT_KEEP_ALIVE_HOME x" by blast
      then show "\<exists>x \<in> set xs. isKeepAlive (pr_ServerID r) p AHF_ENDPOINT_KEEP_ALIVE_HOME x" by simp
    qed
  qed
qed

end
