(* ===== verification/RSP_TakeoverNegotiation.thy ===== *)
theory RSP_TakeoverNegotiation
  imports RSP_TakeoverLaws
begin

text \<open>
  Two registrars that have started a takeover of the same peer, and the detection of dead peers: the timers of peers.
\<close>

section \<open>Timers of peers\<close>

lemma with_peers_ok:
  assumes ok: "reg_ok r" and m: "follows (pr_Peers r) m" "only p (pr_Peers r) m" "peers (plm_List m) = peers (peersOf r)"
    and p: "pln_Identifier (peerAt (plm_List m) p) = pln_Identifier (peerAt (peersOf r) p)"
      "pln_OwnershipChecksum (peerAt (plm_List m) p) = pln_OwnershipChecksum (peerAt (peersOf r) p)"
  shows "reg_ok (r\<lparr>pr_Peers := m\<rparr>)"
proof -
  have same: "pln_Identifier (peerAt (plm_List m) q) = pln_Identifier (peerAt (peersOf r) q) \<and>
      pln_OwnershipChecksum (peerAt (plm_List m) q) = pln_OwnershipChecksum (peerAt (peersOf r) q)" if "q \<in> peers (peersOf r)" for q
    using p m(2) that unfolding only_def by (cases "q = p") simp_all
  have "synchronised (handlespaceOf r) m"
    using reg_okD(6) [OF ok] same m(3) unfolding synchronised_def by simp
  then show ?thesis using ok m(1) by (simp add: reg_ok_def follows_def)
qed

lemma peer_timer_restart:
  assumes ok: "reg_ok r" and p: "p \<in> peers (peersOf r)" "pln_Identifier (peerAt (peersOf r) p) \<noteq> 0"
  obtains m where "bindR (onPeers (peerListManagementDeactivateTimer p) r) (onPeers (peerListManagementActivateTimer p c ts)) = Inr (r\<lparr>pr_Peers := m\<rparr>)"
    "reg_ok (r\<lparr>pr_Peers := m\<rparr>)" "only p (pr_Peers r) m" "peers (plm_List m) = peers (peersOf r)"
    "timed (plm_List m) = Set.insert p (timed (peersOf r))"
    "peerAt (plm_List m) p = (peerAt (peersOf r) p)\<lparr>pln_TimerCode := c, pln_TimerTimeStamp := ts\<rparr>"
proof -
  obtain m1 where m1: "peerListManagementDeactivateTimer p (pr_Peers r) = Inr m1" "follows (pr_Peers r) m1" "only p (pr_Peers r) m1"
    "peers (plm_List m1) = peers (peersOf r)" "timed (plm_List m1) = timed (peersOf r) - {p}" "peerAt (plm_List m1) p = peerAt (peersOf r) p"
    using deactivate_management [OF reg_okD(5) [OF ok]] by blast
  have ok1: "management_ok m1" using m1(2) by (simp add: follows_def)
  have p1: "p \<in> peers (plm_List m1)" "p \<notin> timed (plm_List m1)" "pln_Identifier (peerAt (plm_List m1) p) \<noteq> 0"
    using p m1(4-6) by simp_all
  obtain m2 where m2: "peerListManagementActivateTimer p c ts m1 = Inr m2" "follows m1 m2" "only p m1 m2" "peers (plm_List m2) = peers (plm_List m1)"
    "timed (plm_List m2) = Set.insert p (timed (plm_List m1))"
    "peerAt (plm_List m2) p = (peerAt (plm_List m1) p)\<lparr>pln_TimerCode := c, pln_TimerTimeStamp := ts\<rparr>"
    using activate_management [OF ok1 p1] by blast
  have f: "follows (pr_Peers r) m2" "only p (pr_Peers r) m2" using m1(2) m2(2) only_trans [OF m1(3) m2(3)] by (simp_all add: follows_def)
  have "reg_ok (r\<lparr>pr_Peers := m2\<rparr>)" by (rule with_peers_ok [OF ok f]) (use m1 m2 in simp_all)
  moreover have "bindR (onPeers (peerListManagementDeactivateTimer p) r) (onPeers (peerListManagementActivateTimer p c ts)) = Inr (r\<lparr>pr_Peers := m2\<rparr>)"
    using m1(1) m2(1) by (simp add: onPeers_def)
  moreover have "timed (plm_List m2) = Set.insert p (timed (peersOf r))" using m1(5) m2(5) by blast
  ultimately show thesis using that [of m2] f(2) m1(4,6) m2(4,6) by simp
qed

section \<open>Two takeovers of the same peer\<close>

definition isTakeoverAck :: "u32 \<Rightarrow> u32 \<Rightarrow> u32 \<Rightarrow> Output \<Rightarrow> bool" where
  "isTakeoverAck server target receiver x \<longleftrightarrow> (\<exists>tx. x = Send tx \<and> Type (tx_Message tx) = EHT_INIT_TAKEOVER_ACK \<and>
     SenderID (tx_Message tx) = server \<and> ReceiverID (tx_Message tx) = receiver \<and> RegistrarIdentifier (tx_Message tx) = target)"

lemma acknowledge_says:
  "\<exists>xs. says xs r (registrarSendENRPInitTakeoverAck env fd a receiver target r) \<and>
     (env_Memory env \<longrightarrow> (\<exists>x. xs = [x] \<and> isTakeoverAck (pr_ServerID r) target receiver x))"
proof (cases "env_Memory env")
  case True
  let ?x = "Send (transmission fd a [] ((takeoverMessage env r EHT_INIT_TAKEOVER_ACK receiver target)\<lparr>AssocID := a\<rparr>))"
  have "isTakeoverAck (pr_ServerID r) target receiver ?x" by (simp add: isTakeoverAck_def transmission_def takeoverMessage_def)
  then show ?thesis using True by (intro exI [of _ "[?x]"]) (simp add: registrarSendENRPInitTakeoverAck_def)
qed (auto simp: registrarSendENRPInitTakeoverAck_def intro: exI [of _ "[]"])

lemma known_target:
  assumes "reg_ok r" "p \<in> peers (peersOf r)" "pln_Identifier (peerAt (peersOf r) p) = t" "t \<noteq> 0"
  shows "peerListManagementFindPeerListNode gl t None (pr_Peers r) = Inr (Some p)"
  using find_identifier(1) [OF management_okD(1) [OF reg_okD(5) [OF assms(1)]] assms(4,2,3)]
  by (simp add: peerListManagementFindPeerListNode_def)

lemma lower_continues:
  assumes "reg_ok r" "p \<in> peers (peersOf r)" "pln_Identifier (peerAt (peersOf r) p) = t" "t \<noteq> 0" "t \<noteq> pr_ServerID r"
    and "pln_TakeoverProcess (peerAt (peersOf r) p) \<noteq> None" "RegistrarIdentifier message = t" "pr_ServerID r < SenderID message"
  shows "registrarHandleENRPInitTakeover env fd a message r = Inr r"
  using known_target [OF assms(1-4)] assms(5-8) by (auto simp: registrarHandleENRPInitTakeover_def Let_def)

lemma higher_gives_up:
  assumes ok: "reg_ok r" and p: "p \<in> peers (peersOf r)" "pln_Identifier (peerAt (peersOf r) p) = t" "t \<noteq> 0" "t \<noteq> pr_ServerID r"
    and tp: "pln_TakeoverProcess (peerAt (peersOf r) p) \<noteq> None" and msg: "RegistrarIdentifier message = t" "SenderID message < pr_ServerID r"
  shows "\<exists>r' xs. registrarHandleENRPInitTakeover env fd a message r = Inr r' \<and> reg_ok r' \<and> pr_Handlespace r' = pr_Handlespace r \<and>
    peers (peersOf r') = peers (peersOf r) \<and> timed (peersOf r') = Set.insert p (timed (peersOf r)) \<and>
    peerAt (peersOf r') p = (peerAt (peersOf r) p)\<lparr>pln_TakeoverRegistrarID := SenderID message, pln_TakeoverProcess := None,
      pln_TimerCode := PLNT_MAX_TIME_NO_RESPONSE, pln_TimerTimeStamp := env_Now env + pr_PeerMaxTimeNoResponse r\<rparr> \<and>
    pr_Outputs r' = pr_Outputs r @ xs \<and> (env_Memory env \<longrightarrow> (\<exists>x. xs = [x] \<and> isTakeoverAck (pr_ServerID r) t (SenderID message) x))"
proof -
  let ?f = "\<lambda>n. n\<lparr>pln_TakeoverRegistrarID := SenderID message\<rparr>" and ?g = "\<lambda>n. n\<lparr>pln_TakeoverProcess := None\<rparr>"
  let ?r1 = "updatePeer p ?f r"
  let ?r2 = "registrarSendENRPInitTakeoverAck env fd a (SenderID message) t ?r1"
  have u1: "reg_ok ?r1" "peers (peersOf ?r1) = peers (peersOf r)" "timed (peersOf ?r1) = timed (peersOf r)"
      "peerAt (peersOf ?r1) p = ?f (peerAt (peersOf r) p)"
    using registrar_update_peer [where f = ?f, OF ok p(1)] by simp_all
  obtain xs where x: "says xs ?r1 ?r2" "env_Memory env \<longrightarrow> (\<exists>x. xs = [x] \<and> isTakeoverAck (pr_ServerID ?r1) t (SenderID message) x)"
    using acknowledge_says [of ?r1 env fd a "SenderID message" t] by (elim exE conjE)
  note s = saysD [OF x(1)]
  have ok2: "reg_ok ?r2" and p2: "p \<in> peers (peersOf ?r2)" using says_ok [OF x(1)] u1 s(3) p(1) by simp_all
  let ?r3 = "updatePeer p ?g ?r2"
  have u3: "reg_ok ?r3" "peers (peersOf ?r3) = peers (peersOf ?r2)" "timed (peersOf ?r3) = timed (peersOf ?r2)"
      "peerAt (peersOf ?r3) p = ?g (peerAt (peersOf ?r2) p)"
    using registrar_update_peer [where f = ?g, OF ok2 p2] by simp_all
  have i3: "p \<in> peers (peersOf ?r3)" "pln_Identifier (peerAt (peersOf ?r3) p) \<noteq> 0" using p2 u3(2,4) s(3) u1(4) p(2,3) by simp_all
  obtain m where m: "bindR (onPeers (peerListManagementDeactivateTimer p) ?r3)
        (onPeers (peerListManagementActivateTimer p PLNT_MAX_TIME_NO_RESPONSE (env_Now env + pr_PeerMaxTimeNoResponse ?r3))) = Inr (?r3\<lparr>pr_Peers := m\<rparr>)"
    "reg_ok (?r3\<lparr>pr_Peers := m\<rparr>)" "only p (pr_Peers ?r3) m" "peers (plm_List m) = peers (peersOf ?r3)"
    "timed (plm_List m) = Set.insert p (timed (peersOf ?r3))"
    "peerAt (plm_List m) p = (peerAt (peersOf ?r3) p)\<lparr>pln_TimerCode := PLNT_MAX_TIME_NO_RESPONSE, pln_TimerTimeStamp := env_Now env + pr_PeerMaxTimeNoResponse ?r3\<rparr>"
    by (rule peer_timer_restart [OF u3(1) i3])
  have c: "pr_PeerMaxTimeNoResponse ?r3 = pr_PeerMaxTimeNoResponse r"
    using sameConfigD(8) [OF s(1)] by (simp add: updatePeer_def)
  have run: "registrarHandleENRPInitTakeover env fd a message r = Inr (?r3\<lparr>pr_Peers := m\<rparr>)"
    using known_target [OF ok p(1-3)] m(1) tp msg p(4) by (auto simp: registrarHandleENRPInitTakeover_def Let_def)
  have "peerAt (plm_List m) p = (peerAt (peersOf r) p)\<lparr>pln_TakeoverRegistrarID := SenderID message, pln_TakeoverProcess := None,
      pln_TimerCode := PLNT_MAX_TIME_NO_RESPONSE, pln_TimerTimeStamp := env_Now env + pr_PeerMaxTimeNoResponse r\<rparr>"
    unfolding m(6) u3(4) s(3) u1(4) c by simp
  moreover have "peers (plm_List m) = peers (peersOf r)" "timed (plm_List m) = Set.insert p (timed (peersOf r))"
    using m(4,5) u3(2,3) s(3) u1(2,3) by simp_all
  moreover have "pr_Handlespace ?r3 = pr_Handlespace r" "pr_Outputs ?r3 = pr_Outputs r @ xs" using s(2,6) by simp_all
  ultimately show ?thesis using run m(2) x(2) by (intro exI [of _ "?r3\<lparr>pr_Peers := m\<rparr>"] exI [of _ xs]) simp
qed

end
