(* ===== verification/RSP_ElementLaws.thy ===== *)
theory RSP_ElementLaws
  imports RSP_TakeoverNegotiation
begin

text \<open>
  The end of pool elements at a registrar: their removal, which the peers are told about, and the
  removal of all pool elements of a broken connection.
\<close>

section \<open>Telling the peers\<close>

definition isHandleUpdate :: "u32 \<Rightarrow> u32 \<Rightarrow> u16 \<Rightarrow> handleName \<Rightarrow> PoolElementNode \<Rightarrow> Output \<Rightarrow> bool" where
  "isHandleUpdate server receiver action h n x \<longleftrightarrow> (\<exists>tx. x = Send tx \<and> Type (tx_Message tx) = EHT_HANDLE_UPDATE \<and>
     SenderID (tx_Message tx) = server \<and> ReceiverID (tx_Message tx) = receiver \<and> Action (tx_Message tx) = action \<and>
     ph_bytes (Handle (tx_Message tx)) = h \<and> PoolElementPtr (tx_Message tx) = Some n)"

lemma peer_addresses:
  assumes "reg_ok r" "p \<in> peers (peersOf r)"
  obtains as where "addressesOf (pln_AddressBlock (peerAt (peersOf r) p)) = Inr as"
proof -
  have "inetBlock (pln_AddressBlock (peerAt (peersOf r) p))"
    using list_okD(7) [OF management_okD(1) [OF reg_okD(5) [OF assms(1)]] assms(2)] by (simp add: peer_ok_def)
  then show thesis using that by (auto simp: inetBlock_def addressesOf_def split: option.splits)
qed

lemma send_to_peers:
  assumes ok: "reg_ok r" and ps: "set ps \<subseteq> peers (peersOf r)"
    and f: "\<And>n as r1. \<exists>x. f n as r1 = Inr (emitOutput x r1) \<and> Q n x"
  shows "\<exists>xs r'. sendToPeers f ps r = Inr r' \<and> says xs r r' \<and> (\<forall>p \<in> set ps. \<exists>x \<in> set xs. Q (peerAt (peersOf r) p) x)"
  using ok ps f
proof (induction ps arbitrary: r)
  case Nil
  then show ?case by (intro exI [of _ "[]"] exI [of _ r]) simp
next
  case (Cons p ps)
  obtain as where a: "addressesOf (pln_AddressBlock (peerAt (peersOf r) p)) = Inr as"
    using peer_addresses [OF Cons.prems(1), of p] Cons.prems(2) by auto
  obtain x where x: "f (peerAt (peersOf r) p) as r = Inr (emitOutput x r)" "Q (peerAt (peersOf r) p) x"
    using Cons.prems(3) [of "peerAt (peersOf r) p" as r] by auto
  have ok1: "reg_ok (emitOutput x r)" using Cons.prems(1) by (simp add: reg_ok_parts)
  have "\<exists>xs r'. sendToPeers f ps (emitOutput x r) = Inr r' \<and> says xs (emitOutput x r) r' \<and>
      (\<forall>p \<in> set ps. \<exists>x' \<in> set xs. Q (peerAt (peersOf (emitOutput x r)) p) x')"
    by (rule Cons.IH [OF ok1]) (use Cons.prems in simp_all)
  then obtain xs r' where i: "sendToPeers f ps (emitOutput x r) = Inr r'" "says xs (emitOutput x r) r'"
    "\<forall>p \<in> set ps. \<exists>x \<in> set xs. Q (peerAt (peersOf r) p) x" by auto
  have "says ([x] @ xs) r r'" by (rule says_trans [OF _ i(2)]) simp
  then show ?case using a x i(1,3) by (intro exI [of _ "x # xs"] exI [of _ r']) simp
qed

lemma handle_update_says:
  assumes ok: "reg_ok r"
  shows "\<exists>xs r'. registrarSendENRPHandleUpdate env handle n action r = Inr r' \<and> says xs r r' \<and>
    (env_Memory env \<longrightarrow> (\<forall>p \<in> peers (peersOf r). \<exists>x \<in> set xs.
       isHandleUpdate (pr_ServerID r) (pln_Identifier (peerAt (peersOf r) p)) action (ph_bytes handle) n x))"
proof (cases "env_Memory env")
  case False
  then show ?thesis by (intro exI [of _ "[]"] exI [of _ r]) (simp add: registrarSendENRPHandleUpdate_def)
next
  case True
  let ?m = "handleUpdateMessage env r handle n action"
  let ?send = "\<lambda>flags peer addresses r1. Inr (emitOutput (Send (transmission (pr_ENRPUnicastSocket r1) 0 addresses
              (?m\<lparr>Flags := flags, ReceiverID := pln_Identifier peer, Addresses := length addresses\<rparr>))) r1)"
  let ?Q = "\<lambda>peer x. isHandleUpdate (pr_ServerID r) (pln_Identifier peer) action (ph_bytes handle) n x"
  let ?best = "if action = PNUP_ADD_PE \<and> pr_ENRPSupportTakeoverSuggestion r \<and> pen_HomeRegistrarIdentifier n = pr_ServerID r
       then peerListManagementGetUsefulPeerForPE (pen_Identifier n) (pr_Peers r) else None"
  have q: "\<exists>x. ?send flags peer as r1 = Inr (emitOutput x r1) \<and> ?Q peer x" for flags peer as r1
    by (rule exI, rule conjI, rule refl) (simp add: isHandleUpdate_def transmission_def handleUpdateMessage_def)
  have idx: "set (peersByIndex (peersOf r)) = peers (peersOf r)" using peersByIndex_set [OF management_okD(1) [OF reg_okD(5) [OF ok]]] by simp
  obtain xs r1 where s: "sendToPeers (?send 0) (peersByIndex (peersOf r)) r = Inr r1" "says xs r r1"
    "\<forall>p \<in> peers (peersOf r). \<exists>x \<in> set xs. ?Q (peerAt (peersOf r) p) x"
    using send_to_peers [OF ok, of "peersByIndex (peersOf r)" "?send 0" ?Q, OF _ q] idx by auto
  have best: "p \<in> peers (peersOf r)" if "?best = Some p" for p
    using that useful_peer [OF reg_okD(5) [OF ok], of "pen_Identifier n"] by (cases "peerListManagementGetUsefulPeerForPE (pen_Identifier n) (pr_Peers r)")
      (simp_all split: if_splits)
  have ok1: "reg_ok r1" using says_ok [OF s(2)] ok by simp
  show ?thesis
  proof (cases ?best)
    case None
    then have "registrarSendENRPHandleUpdate env handle n action r = Inr r1"
      using s(1) True unfolding registrarSendENRPHandleUpdate_def Let_def by simp
    then show ?thesis using s by blast
  next
    case (Some p)
    have c: "pr_ServerID r1 = pr_ServerID r" "pr_Peers r1 = pr_Peers r" using sameConfigD(1) saysD [OF s(2)] by auto
    have "set [p] \<subseteq> peers (peersOf r1)" using best [OF Some] c by simp
    from send_to_peers [OF ok1 this, of "?send EHF_TAKEOVER_SUGGESTED" ?Q, OF q] obtain ys r2 where
      y: "sendToPeers (?send EHF_TAKEOVER_SUGGESTED) [p] r1 = Inr r2" "says ys r1 r2" by (elim exE conjE)
    have "registrarSendENRPHandleUpdate env handle n action r = Inr r2"
      using s(1) True y(1) Some unfolding registrarSendENRPHandleUpdate_def Let_def by simp
    then show ?thesis using says_trans [OF s(2) y(2)] s(3) by (intro exI [of _ "xs @ ys"] exI [of _ r2]) auto
  qed
qed

section \<open>Removing a pool element\<close>

lemma deregister_step:
  assumes ok: "reg_ok r" and p: "p \<in> elements (handlespaceOf r)"
  obtains r' g where "onHandlespace env (poolHandlespaceManagementDeregisterPoolElementByPtr p) r = Inr (RSPERR_OKAY, r')" "reg_ok r'" "quiet r r'"
    "shifted g (pr_Peers r) (pr_Peers r')" "elements (handlespaceOf r') = elements (handlespaceOf r) - {p}"
    "\<forall>q \<in> elements (handlespaceOf r'). elementAt (handlespaceOf r') q = elementAt (handlespaceOf r) q"
    "timerNames (handlespaceOf r') = filter (\<lambda>q. q \<noteq> p) (timerNames (handlespaceOf r))"
proof -
  let ?m = "pr_Handlespace r" and ?f = "poolHandlespaceManagementDeregisterPoolElementByPtr p"
  obtain hs' where d: "?f ?m = Inr (RSPERR_OKAY, withHandlespace ?m hs')" "hs_wf hs'" "elements hs' = elements (handlespaceOf r) - {p}"
    "\<forall>q \<in> elements hs'. elementAt hs' q = elementAt (handlespaceOf r) q" "hsn_HomeRegistrarIdentifier hs' = hsn_HomeRegistrarIdentifier (handlespaceOf r)"
    "keys (hsn_PoolElementTimerStorage hs') = keys (hsn_PoolElementTimerStorage (handlespaceOf r)) - {timerEntry p (elementAt (handlespaceOf r) p)}"
    using deregister_ptr_ok [OF reg_okD(1) [OF ok] p] by blast
  have f: "?f ?m = Inr (RSPERR_OKAY, withHandlespace ?m hs')" "hs_wf (hsm_Handlespace (withHandlespace ?m hs'))" "hsm_Memory (withHandlespace ?m hs')"
      "hsn_HomeRegistrarIdentifier (hsm_Handlespace (withHandlespace ?m hs')) = hsn_HomeRegistrarIdentifier (handlespaceOf r)"
    using d reg_okD(3) [OF ok] by (simp_all add: withHandlespace_def)
  obtain r' g where r': "onHandlespace env ?f r = Inr (RSPERR_OKAY, r')" "reg_ok r'" "quiet r r'"
    "handlespaceOf r' = (hsm_Handlespace (withHandlespace ?m hs'))\<lparr>hsn_Notifications := []\<rparr>" "shifted g (pr_Peers r) (pr_Peers r')"
    by (rule on_handlespace_ok [where f = ?f and env = env, OF ok f deregister_announced [OF reg_okD(1) [OF ok] p d(1)]])
  have h: "handlespaceOf r' = hs'\<lparr>hsn_Notifications := []\<rparr>" using r'(4) by (simp add: withHandlespace_def)
  have "timerNames hs' = filter (\<lambda>q. q \<noteq> p) (timerNames (handlespaceOf r))"
    using timer_names_removed [OF reg_okD(8) [OF ok] _ d(6)] d(2) by (simp add: hs_wf_struct)
  then show thesis by (intro that [OF r'(1-3,5)]) (use d(3,4) in \<open>simp_all add: h\<close>)
qed

text \<open>What a registrar says about a pool element of its own that it removes.\<close>

definition toldPeers :: "Environment \<Rightarrow> Registrar \<Rightarrow> peName \<Rightarrow> Output list \<Rightarrow> bool" where
  "toldPeers env r p xs \<longleftrightarrow> env_Memory env \<longrightarrow> pen_HomeRegistrarIdentifier (elementAt (handlespaceOf r) p) = pr_ServerID r \<longrightarrow>
     (\<forall>q \<in> peers (peersOf r). \<exists>x \<in> set xs. isHandleUpdate (pr_ServerID r) (pln_Identifier (peerAt (peersOf r) q)) PNUP_DEL_PE
        (fst p) (elementAt (handlespaceOf r) p) x)"

lemma remove_element_step:
  assumes ok: "reg_ok r" and p: "p \<in> elements (handlespaceOf r)"
  obtains r' g xs where "removeElement env p r = Inr (RSPERR_OKAY, r')" "reg_ok r'" "sameConfig r r'"
    "shifted g (pr_Peers r) (pr_Peers r')" "elements (handlespaceOf r') = elements (handlespaceOf r) - {p}"
    "\<forall>q \<in> elements (handlespaceOf r'). elementAt (handlespaceOf r') q = elementAt (handlespaceOf r) q"
    "timerNames (handlespaceOf r') = filter (\<lambda>q. q \<noteq> p) (timerNames (handlespaceOf r))"
    "pr_Outputs r' = pr_Outputs r @ xs" "toldPeers env r p xs"
proof -
  let ?hs = "handlespaceOf r" and ?n = "elementAt (handlespaceOf r) p"
  let ?tell = "if pen_HomeRegistrarIdentifier ?n = pr_ServerID r
             then registrarSendENRPHandleUpdate env (pn_Handle (poolAt ?hs (fst p))) ?n PNUP_DEL_PE r else Inr r"
  have "\<exists>xs r1. ?tell = Inr r1 \<and> says xs r r1 \<and> toldPeers env r p xs"
  proof (cases "pen_HomeRegistrarIdentifier ?n = pr_ServerID r")
    case True
    then show ?thesis using handle_update_says [OF ok, of env "pn_Handle (poolAt ?hs (fst p))" ?n PNUP_DEL_PE]
      unfolding toldPeers_def element_names(2) [OF reg_okD(1) [OF ok] p] by simp
  next
    case False
    then show ?thesis by (intro exI [of _ "[]"] exI [of _ r]) (simp add: toldPeers_def)
  qed
  then obtain xs r1 where t: "?tell = Inr r1" "says xs r r1" "toldPeers env r p xs" by (elim exE conjE)
  note s = saysD [OF t(2)]
  have ok1: "reg_ok r1" using says_ok [OF t(2)] ok by simp
  have p1: "p \<in> elements (handlespaceOf r1)" using p s(2) by simp
  obtain r' g where d: "onHandlespace env (poolHandlespaceManagementDeregisterPoolElementByPtr p) r1 = Inr (RSPERR_OKAY, r')" "reg_ok r'" "quiet r1 r'"
    "shifted g (pr_Peers r1) (pr_Peers r')" "elements (handlespaceOf r') = elements (handlespaceOf r1) - {p}"
    "\<forall>q \<in> elements (handlespaceOf r'). elementAt (handlespaceOf r') q = elementAt (handlespaceOf r1) q"
    "timerNames (handlespaceOf r') = filter (\<lambda>q. q \<noteq> p) (timerNames (handlespaceOf r1))"
    by (rule deregister_step [OF ok1 p1])
  have run: "removeElement env p r = Inr (RSPERR_OKAY, r')" using t(1) d(1) by (simp add: removeElement_def Let_def)
  show thesis
    by (rule that [OF run d(2)]) (use s t(3) d(4-7) sameConfig_trans [OF s(1) quietD(1) [OF d(3)]] quietD [OF d(3)] in simp_all)
qed

lemma told_same:
  assumes "shifted g (pr_Peers r) (pr_Peers r')" "pr_ServerID r' = pr_ServerID r" "elementAt (handlespaceOf r') p = elementAt (handlespaceOf r) p"
  shows "toldPeers env r' p xs = toldPeers env r p xs"
  unfolding toldPeers_def assms(2,3) shifted_peers(1) [OF assms(1)] using shifted_peers(3) [OF assms(1)] by simp

lemma told_more: "toldPeers env r p xs \<Longrightarrow> set xs \<subseteq> set ys \<Longrightarrow> toldPeers env r p ys"
  unfolding toldPeers_def by blast

section \<open>A broken connection\<close>

definition connectedBy :: "int \<Rightarrow> u32 \<Rightarrow> PoolHandlespaceNode \<Rightarrow> peName list" where
  "connectedBy sd a hs = filter (\<lambda>p. (pen_ConnectionSocketDescriptor (elementAt hs p), pen_ConnectionAssocID (elementAt hs p)) = (sd, a)) (connectionNames hs)"

lemma connection_links_names:
  assumes "hs_struct hs"
  shows "connection_links.links (hsn_PoolElementConnectionStorage hs) (elementAt hs) (set (connectionNames hs))"
  using hs_structD(3) [OF assms] connection_names(2) [OF assms] by (simp add: connections_wf_def)

lemma connected_set:
  assumes "hs_struct hs"
  shows "distinct (connectedBy sd a hs)" "set (connectedBy sd a hs) = {p \<in> elements hs. 0 < sd \<and>
      pen_ConnectionSocketDescriptor (elementAt hs p) = sd \<and> pen_ConnectionAssocID (elementAt hs p) = a}"
  using connection_names [OF assms] by (auto simp: connectedBy_def)

lemma next_connected:
  assumes st: "hs_struct hs" and s: "connectedBy sd a hs = xs @ p # ys"
  shows "poolHandlespaceNodeGetNextPoolElementConnectionNodeForSameConnection hs p = (case ys of [] \<Rightarrow> None | q # _ \<Rightarrow> Some q)"
proof (rule connection_group.group_next [OF connection_links_names [OF st], where g = "(sd, a)"])
  show "filter (\<lambda>p. (pen_ConnectionSocketDescriptor (elementAt hs p), pen_ConnectionAssocID (elementAt hs p)) = (sd, a))
      (connection_links.names (hsn_PoolElementConnectionStorage hs)) = xs @ p # ys"
    using s by (simp only: connectedBy_def connectionNames_def)
  show "poolHandlespaceNodeGetNextPoolElementConnectionNodeForSameConnection hs p =
      (case map_option ofConnectionEntry (RedBlackTreeGetNext poolElementConnectionStorageNodeComparison (hsn_PoolElementConnectionStorage hs)
         (connectionEntry p (elementAt hs p))) of None \<Rightarrow> None
       | Some q \<Rightarrow> if (pen_ConnectionSocketDescriptor (elementAt hs q), pen_ConnectionAssocID (elementAt hs q)) =
                     (pen_ConnectionSocketDescriptor (elementAt hs p), pen_ConnectionAssocID (elementAt hs p)) then Some q else None)"
    by (simp only: poolHandlespaceNodeGetNextPoolElementConnectionNodeForSameConnection_def
        poolHandlespaceNodeGetNextPoolElementConnectionNode_def prod.inject)
qed

lemma connected_shrinks:
  assumes st: "hs_struct hs" "hs_struct hs'" and e: "elements hs' = elements hs - {p}" "\<forall>q \<in> elements hs'. elementAt hs' q = elementAt hs q"
  shows "connectedBy sd a hs' = filter (\<lambda>q. q \<noteq> p) (connectedBy sd a hs)"
proof -
  have s: "set (connectedBy sd a hs') = set (connectedBy sd a hs) - {p}"
    unfolding connected_set(2) [OF st(1)] connected_set(2) [OF st(2)] using e by auto
  have "\<forall>q \<in> set (connectedBy sd a hs'). elementAt hs' q = elementAt hs q"
    unfolding connected_set(2) [OF st(2)] using e(2) by simp
  then show ?thesis
    using connection_links.names_shrink [OF connection_links_names [OF st(1)] connection_links_names [OF st(2)]] s
    unfolding connectedBy_def connectionNames_def by blast
qed

lemma remove_connected_step:
  assumes "reg_ok r" "connectedBy sd a (handlespaceOf r) = ps" "length ps \<le> k"
  shows "\<exists>r' g xs. removeConnected k env (case ps of [] \<Rightarrow> None | p # _ \<Rightarrow> Some p) r = Inr r' \<and> reg_ok r' \<and> sameConfig r r' \<and>
    shifted g (pr_Peers r) (pr_Peers r') \<and> elements (handlespaceOf r') = elements (handlespaceOf r) - set ps \<and>
    (\<forall>q \<in> elements (handlespaceOf r'). elementAt (handlespaceOf r') q = elementAt (handlespaceOf r) q) \<and>
    timerNames (handlespaceOf r') = filter (\<lambda>q. q \<notin> set ps) (timerNames (handlespaceOf r)) \<and>
    pr_Outputs r' = pr_Outputs r @ xs \<and> (\<forall>p \<in> set ps. toldPeers env r p xs)"
  using assms
proof (induction k arbitrary: r ps)
  case 0
  then show ?case
    by (intro exI [of _ r] exI [of _ "\<lambda>_. 0"] exI [of _ "[]"]) (simp add: shifted_def follows_def reg_okD(5))
next
  case (Suc k)
  let ?hs = "handlespaceOf r"
  note st = reg_okD(8) [OF Suc.prems(1)]
  show ?case
  proof (cases ps)
    case Nil
    then show ?thesis using Suc.prems(1)
      by (intro exI [of _ r] exI [of _ "\<lambda>_. 0"] exI [of _ "[]"]) (simp add: shifted_def follows_def reg_okD(5))
  next
    case (Cons p qs)
    have pE: "p \<in> elements ?hs" using connected_set(2) [OF st, of sd a] Suc.prems(2) Cons by auto
    have dn: "p \<notin> set qs" using connected_set(1) [OF st, of sd a] Suc.prems(2) Cons by simp
    have nx: "poolHandlespaceNodeGetNextPoolElementConnectionNodeForSameConnection ?hs p = (case qs of [] \<Rightarrow> None | q # _ \<Rightarrow> Some q)"
      by (rule next_connected [OF st, of sd a "[]"]) (use Suc.prems(2) Cons in simp)
    obtain r1 g1 xs where t: "removeElement env p r = Inr (RSPERR_OKAY, r1)" "reg_ok r1" "sameConfig r r1"
      "shifted g1 (pr_Peers r) (pr_Peers r1)" "elements (handlespaceOf r1) = elements ?hs - {p}"
      "\<forall>q \<in> elements (handlespaceOf r1). elementAt (handlespaceOf r1) q = elementAt ?hs q"
      "timerNames (handlespaceOf r1) = filter (\<lambda>q. q \<noteq> p) (timerNames ?hs)"
      "pr_Outputs r1 = pr_Outputs r @ xs" "toldPeers env r p xs"
      by (rule remove_element_step [OF Suc.prems(1) pE])
    have c1: "connectedBy sd a (handlespaceOf r1) = qs"
      using connected_shrinks [OF st reg_okD(8) [OF t(2)] t(5,6), of sd a] Suc.prems(2) Cons dn by (simp add: filter_id_conv) metis
    have "length qs \<le> k" using Suc.prems(3) Cons by simp
    from Suc.IH [OF t(2) c1 this] obtain r' g ys where
      f: "removeConnected k env (case qs of [] \<Rightarrow> None | q # _ \<Rightarrow> Some q) r1 = Inr r'" "reg_ok r'" "sameConfig r1 r'"
      "shifted g (pr_Peers r1) (pr_Peers r')" "elements (handlespaceOf r') = elements (handlespaceOf r1) - set qs"
      "\<forall>q \<in> elements (handlespaceOf r'). elementAt (handlespaceOf r') q = elementAt (handlespaceOf r1) q"
      "timerNames (handlespaceOf r') = filter (\<lambda>q. q \<notin> set qs) (timerNames (handlespaceOf r1))"
      "pr_Outputs r' = pr_Outputs r1 @ ys" "\<forall>p \<in> set qs. toldPeers env r1 p ys" by (elim exE conjE)
    have run: "removeConnected (Suc k) env (case ps of [] \<Rightarrow> None | p # _ \<Rightarrow> Some p) r = Inr r'"
      using Cons nx t(1) f(1) by (simp add: removeElementOrAbort_def Let_def)
    have told: "toldPeers env r q (xs @ ys)" if "q \<in> set ps" for q
    proof (cases "q = p")
      case True
      then show ?thesis using told_more [OF t(9), of "xs @ ys"] by simp
    next
      case False
      then have q: "q \<in> set qs" using that Cons by simp
      have "q \<in> elements (handlespaceOf r1)" using connected_set(2) [OF reg_okD(8) [OF t(2)], of sd a] c1 q by auto
      then have "elementAt (handlespaceOf r1) q = elementAt ?hs q" using t(6) by blast
      from told_same [OF t(4) sameConfigD(1) [OF t(3)] this] f(9) q have "toldPeers env r q ys" by blast
      then show ?thesis using told_more [of env r q ys "xs @ ys"] by simp
    qed
    have e: "elements (handlespaceOf r') = elements ?hs - set ps" "\<forall>q \<in> elements (handlespaceOf r'). elementAt (handlespaceOf r') q = elementAt ?hs q"
      using f(5,6) t(5,6) Cons by auto
    have tn: "timerNames (handlespaceOf r') = filter (\<lambda>q. q \<notin> set ps) (timerNames ?hs)"
      unfolding f(7) t(7) Cons by (simp add: filter_filter conj_commute)
    have out: "pr_Outputs r' = pr_Outputs r @ (xs @ ys)" using f(8) t(8) by simp
    show ?thesis
      by (intro exI [of _ r'] exI [of _ "\<lambda>j. g1 j + g j"] exI [of _ "xs @ ys"] conjI ballI)
         (fact run f(2) sameConfig_trans [OF t(3) f(3)] shifted_trans [OF t(4) f(4)] e(1) e(2) [rule_format] tn out told)+
  qed
qed

lemma connection_lost:
  assumes ok: "reg_ok r"
  shows "\<exists>r' xs. registrarRemovePoolElementsOfConnection env sd a r = Inr r' \<and> reg_ok r' \<and>
    elements (handlespaceOf r') = elements (handlespaceOf r) - set (connectedBy sd a (handlespaceOf r)) \<and>
    (\<forall>q \<in> elements (handlespaceOf r'). elementAt (handlespaceOf r') q = elementAt (handlespaceOf r) q) \<and>
    pr_Outputs r' = pr_Outputs r @ xs \<and> (\<forall>p \<in> set (connectedBy sd a (handlespaceOf r)). toldPeers env r p xs)"
proof -
  let ?hs = "handlespaceOf r"
  note st = reg_okD(8) [OF ok]
  have n: "length (connectionNames ?hs) = RedBlackTreeGetElements (hsn_PoolElementConnectionStorage ?hs)"
    using connection_links_names [OF st]
    by (simp add: connectionNames_def connection_links.names_def RedBlackTreeGetElements_def connection_links.links_def rbt_wf_def)
  have "length (connectedBy sd a ?hs) \<le> poolHandlespaceNodeGetConnectionNodes ?hs"
    unfolding connectedBy_def poolHandlespaceNodeGetConnectionNodes_def n [symmetric] by (rule length_filter_le)
  from remove_connected_step [OF ok refl this, of env] obtain r' g xs where
    f: "removeConnected (poolHandlespaceNodeGetConnectionNodes ?hs) env (case connectedBy sd a ?hs of [] \<Rightarrow> None | p # _ \<Rightarrow> Some p) r = Inr r'" "reg_ok r'"
      "elements (handlespaceOf r') = elements ?hs - set (connectedBy sd a ?hs)"
      "\<forall>q \<in> elements (handlespaceOf r'). elementAt (handlespaceOf r') q = elementAt ?hs q"
      "pr_Outputs r' = pr_Outputs r @ xs" "\<forall>p \<in> set (connectedBy sd a ?hs). toldPeers env r p xs" by (elim exE conjE)
  have "poolHandlespaceNodeGetFirstPoolElementConnectionNodeForConnection ?hs sd a = Inr (case connectedBy sd a ?hs of [] \<Rightarrow> None | p # _ \<Rightarrow> Some p)"
    using connected_nodes_ok(1) [OF st, of sd a] unfolding connectedBy_def .
  then have "registrarRemovePoolElementsOfConnection env sd a r = Inr r'" using f(1) by (simp add: registrarRemovePoolElementsOfConnection_def)
  then show ?thesis using f(2-6) by (intro exI [of _ r'] exI [of _ xs] conjI)
qed

end
