(* ===== verification/RSP_ElementTimers.thy ===== *)
theory RSP_ElementTimers
  imports RSP_ElementLaws
begin

text \<open>
  The monitoring of pool elements: every timer that is due is handled, by the transmission of a
  keep-alive or the removal of the pool element, and no timer is due afterwards.
\<close>

section \<open>One timer\<close>

definition polled :: "Environment \<Rightarrow> Registrar \<Rightarrow> PoolElementNode \<Rightarrow> PoolElementNode" where
  "polled env r n = n\<lparr>pen_LastKeepAliveTransmission := env_Now env, pen_TimerCode := PENT_KEEPALIVE_TIMEOUT,
     pen_TimerTimeStamp := env_Now env + pr_EndpointKeepAliveTimeoutInterval r\<rparr>"

abbreviation (input) "isPoll n \<equiv> pen_TimerCode n = PENT_KEEPALIVE_TRANSMISSION"

text \<open>A timer as the registrar sets it: of one of the three kinds, and a pool element to poll can be reached.\<close>

definition timer_ok :: "PoolElementNode \<Rightarrow> bool" where
  "timer_ok n \<longleftrightarrow> pen_TimerCode n = PENT_KEEPALIVE_TRANSMISSION \<and> contactable n \<or>
     pen_TimerCode n = PENT_KEEPALIVE_TIMEOUT \<or> pen_TimerCode n = PENT_EXPIRY"

text \<open>What is sent: a keep-alive, or the news of the removal and the abort of the association.\<close>

definition handled :: "Environment \<Rightarrow> Registrar \<Rightarrow> peName \<Rightarrow> Output list \<Rightarrow> bool" where
  "handled env r p xs \<longleftrightarrow> (let n = elementAt (handlespaceOf r) p in
     if isPoll n then env_Memory env \<longrightarrow> (\<exists>x \<in> set xs. isKeepAlive (pr_ServerID r) p 0 x)
     else toldPeers env r p xs \<and>
       (pen_TimerCode n = PENT_KEEPALIVE_TIMEOUT \<longrightarrow> SendAbort (pen_ConnectionSocketDescriptor n) (pen_ConnectionAssocID n) \<in> set xs))"

lemma handled_more: "handled env r p xs \<Longrightarrow> set xs \<subseteq> set ys \<Longrightarrow> handled env r p ys"
  using told_more [of env r p xs ys] by (auto simp: handled_def Let_def split: if_splits)

lemma handled_same:
  assumes "shifted g (pr_Peers r) (pr_Peers r')" "pr_ServerID r' = pr_ServerID r" "elementAt (handlespaceOf r') p = elementAt (handlespaceOf r) p"
  shows "handled env r' p xs = handled env r p xs"
  unfolding handled_def told_same [OF assms] unfolding assms(2,3) ..

lemma note_transmission:
  assumes ok: "reg_ok r" and p: "p \<in> elements (handlespaceOf r)" "p \<notin> set (timerNames (handlespaceOf r))"
  obtains r' where "onNode (\<lambda>hs. poolHandlespaceNodeActivateTimer p PENT_KEEPALIVE_TIMEOUT ts
      (setElement p (\<lambda>n. n\<lparr>pen_LastKeepAliveTransmission := now\<rparr>) hs)) r = Inr r'" "reg_ok r'" "quiet r r'" "pr_Peers r' = pr_Peers r"
    "elements (handlespaceOf r') = elements (handlespaceOf r)"
    "elementAt (handlespaceOf r') = (elementAt (handlespaceOf r))(p := (elementAt (handlespaceOf r) p)\<lparr>pen_LastKeepAliveTransmission := now,
       pen_TimerCode := PENT_KEEPALIVE_TIMEOUT, pen_TimerTimeStamp := ts\<rparr>)"
    "set (timerNames (handlespaceOf r')) = Set.insert p (set (timerNames (handlespaceOf r)))"
proof -
  let ?f = "\<lambda>hs. poolHandlespaceNodeActivateTimer p PENT_KEEPALIVE_TIMEOUT ts (setElement p (\<lambda>n. n\<lparr>pen_LastKeepAliveTransmission := now\<rparr>) hs)"
  let ?g = "\<lambda>n. n\<lparr>pen_LastKeepAliveTransmission := now\<rparr>" and ?hs = "handlespaceOf r"
  let ?hs1 = "setElement p ?g ?hs"
  note wf = reg_okD(1) [OF ok]
  have "compatible (poolAt ?hs (fst p)) (elementAt ?hs p)"
    using pool_ok_at [OF hs_wfD(1) [OF wf] p(1)] elements_at [OF p(1)] by (simp add: pool_ok_def elementAt_def)
  then have "compatible (poolAt ?hs (fst p)) (?g (elementAt ?hs p))" by (subst compatible_cong [where n = "elementAt ?hs p"]) simp_all
  then have k: "hs_wf ?hs1" "elements ?hs1 = elements ?hs" using keeps_node [where f = ?g, OF wf p(1)] by (simp_all add: sortingFields_def)
  have at: "elementAt ?hs1 = (elementAt ?hs)(p := ?g (elementAt ?hs p))" by (rule setElement_view)
  have same: "hsn_PoolElementTimerStorage ?hs1 = hsn_PoolElementTimerStorage ?hs" "hsn_HomeRegistrarIdentifier ?hs1 = hsn_HomeRegistrarIdentifier ?hs"
    "hsn_Notifications ?hs1 = hsn_Notifications ?hs" by (simp_all add: setElement_def setPool_def)
  have "\<not> poolHandlespaceNodeHasActiveTimer ?hs1 p"
    using timer_names(4) [of ?hs1 p] k(1) p(2) same(1) by (simp add: hs_wf_struct timerNames_def)
  then obtain hs' where a: "poolHandlespaceNodeActivateTimer p PENT_KEEPALIVE_TIMEOUT ts ?hs1 = Inr hs'" "hs_wf hs'" "elements hs' = elements ?hs1"
    "elementAt hs' = (elementAt ?hs1)(p := (elementAt ?hs1 p)\<lparr>pen_TimerCode := PENT_KEEPALIVE_TIMEOUT, pen_TimerTimeStamp := ts\<rparr>)"
    "hsn_HomeRegistrarIdentifier hs' = hsn_HomeRegistrarIdentifier ?hs1"
    "keys (hsn_PoolElementTimerStorage hs') = Set.insert (ts, snd p, fst p) (keys (hsn_PoolElementTimerStorage ?hs1))"
    using activate_ok [OF k(1)] p(1) k(2) by blast
  have t: "set (timerNames hs') = Set.insert p (set (timerNames ?hs))" by (simp add: timer_names_keys a(6) same(1) ofTimerEntry_def)
  have f: "?f ?hs = Inr hs'" "elements hs' = elements ?hs" "hsn_HomeRegistrarIdentifier hs' = hsn_HomeRegistrarIdentifier ?hs"
    "hsn_Notifications hs' = hsn_Notifications ?hs"
    using a k(2) same timer_quiet(2) [OF a(1)] by simp_all
  note o = on_node_ok [where f = ?f, OF ok f(1) a(2) f(2-4)]
  show thesis by (rule that [of "withNode hs' r"]) (simp_all add: o a t at k)
qed

lemma poll_step:
  assumes ok: "reg_ok r" and p: "p \<in> set (timerNames (handlespaceOf r))" and c: "contactable (elementAt (handlespaceOf r) p)"
  obtains r' g xs where "transmitKeepAlive env p r = Inr r'" "reg_ok r'" "sameConfig r r'" "shifted g (pr_Peers r) (pr_Peers r')"
    "elements (handlespaceOf r') = elements (handlespaceOf r)"
    "\<forall>q \<in> elements (handlespaceOf r'). elementAt (handlespaceOf r') q = (if q = p then polled env r (elementAt (handlespaceOf r) p) else elementAt (handlespaceOf r) q)"
    "set (timerNames (handlespaceOf r')) = set (timerNames (handlespaceOf r))"
    "pr_Outputs r' = pr_Outputs r @ xs" "env_Memory env \<longrightarrow> (\<exists>x \<in> set xs. isKeepAlive (pr_ServerID r) p 0 x)"
proof -
  let ?hs = "handlespaceOf r"
  have pE: "p \<in> elements ?hs" using timer_names(2) [OF reg_okD(8) [OF ok]] p by blast
  obtain r1 where d: "onNode (poolHandlespaceNodeDeactivateTimer p) r = Inr r1" "reg_ok r1" "quiet r r1" "pr_Peers r1 = pr_Peers r"
    "elements (handlespaceOf r1) = elements ?hs" "elementAt (handlespaceOf r1) = elementAt ?hs"
    "timerNames (handlespaceOf r1) = filter (\<lambda>q. q \<noteq> p) (timerNames ?hs)"
    by (rule deactivate_timer [OF ok, of p])
  have p1: "p \<in> elements (handlespaceOf r1)" "contactable (elementAt (handlespaceOf r1) p)" using pE c d(5,6) by simp_all
  obtain r2 xs where k: "registrarSendASAPEndpointKeepAlive env p False r1 = Inr r2" "says xs r1 r2"
    "env_Memory env \<longrightarrow> (\<exists>x. xs = [x] \<and> isKeepAlive (pr_ServerID r1) p (if False then AHF_ENDPOINT_KEEP_ALIVE_HOME else 0) x)"
    by (rule keep_alive_ok [OF reg_okD(1) [OF d(2)] p1, of env False])
  note s = saysD [OF k(2)]
  have s2: "sameConfig r r2" using sameConfig_trans [OF quietD(1) [OF d(3)] s(1)] .
  have ok2: "reg_ok r2" using says_ok [OF k(2)] d(2) by simp
  have p2: "p \<in> elements (handlespaceOf r2)" "p \<notin> set (timerNames (handlespaceOf r2))" using p1(1) s(2) d(7) by simp_all
  obtain r3 where a: "onNode (\<lambda>hs. poolHandlespaceNodeActivateTimer p PENT_KEEPALIVE_TIMEOUT (env_Now env + pr_EndpointKeepAliveTimeoutInterval r2)
      (setElement p (\<lambda>n. n\<lparr>pen_LastKeepAliveTransmission := env_Now env\<rparr>) hs)) r2 = Inr r3" "reg_ok r3" "quiet r2 r3" "pr_Peers r3 = pr_Peers r2"
    "elements (handlespaceOf r3) = elements (handlespaceOf r2)"
    "elementAt (handlespaceOf r3) = (elementAt (handlespaceOf r2))(p := (elementAt (handlespaceOf r2) p)\<lparr>pen_LastKeepAliveTransmission := env_Now env,
       pen_TimerCode := PENT_KEEPALIVE_TIMEOUT, pen_TimerTimeStamp := env_Now env + pr_EndpointKeepAliveTimeoutInterval r2\<rparr>)"
    "set (timerNames (handlespaceOf r3)) = Set.insert p (set (timerNames (handlespaceOf r2)))"
    by (rule note_transmission [OF ok2 p2])
  have run: "transmitKeepAlive env p r = Inr r3" using d(1) k(1) a(1) by (simp add: transmitKeepAlive_def)
  show thesis
  proof (rule that [OF run a(2)])
    show "sameConfig r r3" using sameConfig_trans [OF s2 quietD(1) [OF a(3)]] .
    show "shifted (\<lambda>_. 0) (pr_Peers r) (pr_Peers r3)" using a(4) s(3) d(4) reg_okD(5) [OF ok] by (simp add: shifted_def follows_def)
    show "\<forall>q \<in> elements (handlespaceOf r3). elementAt (handlespaceOf r3) q = (if q = p then polled env r (elementAt ?hs p) else elementAt ?hs q)"
      unfolding a(6) s(2) d(6) polled_def sameConfigD(4) [OF s2] by simp
    show "set (timerNames (handlespaceOf r3)) = set (timerNames ?hs)" unfolding a(7) s(2) d(7) using p by auto
    show "pr_Outputs r3 = pr_Outputs r @ xs" using quietD(2) [OF a(3)] s(6) quietD(2) [OF d(3)] by simp
    show "env_Memory env \<longrightarrow> (\<exists>x \<in> set xs. isKeepAlive (pr_ServerID r) p 0 x)"
      using k(3) sameConfigD(1) [OF quietD(1) [OF d(3)]] by auto
    show "elements (handlespaceOf r3) = elements ?hs" using a(5) s(2) d(5) by simp
  qed
qed

lemma element_timer_step:
  assumes ok: "reg_ok r" and p: "p \<in> set (timerNames (handlespaceOf r))" and t: "timer_ok (elementAt (handlespaceOf r) p)"
  obtains r' g xs where "poolElementTimer env p r = Inr r'" "reg_ok r'" "sameConfig r r'" "shifted g (pr_Peers r) (pr_Peers r')"
    "elements (handlespaceOf r') = elements (handlespaceOf r) - (if isPoll (elementAt (handlespaceOf r) p) then {} else {p})"
    "\<forall>q \<in> elements (handlespaceOf r'). elementAt (handlespaceOf r') q = (if q = p then polled env r (elementAt (handlespaceOf r) p) else elementAt (handlespaceOf r) q)"
    "set (timerNames (handlespaceOf r')) = set (timerNames (handlespaceOf r)) - (if isPoll (elementAt (handlespaceOf r) p) then {} else {p})"
    "pr_Outputs r' = pr_Outputs r @ xs" "handled env r p xs"
proof -
  let ?hs = "handlespaceOf r" and ?n = "elementAt (handlespaceOf r) p"
  have pE: "p \<in> elements ?hs" using timer_names(2) [OF reg_okD(8) [OF ok]] p by blast
  show thesis
  proof (cases "isPoll ?n")
    case True
    then have c: "contactable ?n" using t by (simp add: timer_ok_def)
    show thesis
      by (rule poll_step [where env = env, OF ok p c]) (rule that, use True in \<open>simp_all add: poolElementTimer_def handled_def Let_def\<close>)
  next
    case False
    let ?x = "SendAbort (pen_ConnectionSocketDescriptor ?n) (pen_ConnectionAssocID ?n)"
    let ?r1 = "if pen_TimerCode ?n = PENT_KEEPALIVE_TIMEOUT then emitOutput ?x r else r"
    let ?x1 = "if pen_TimerCode ?n = PENT_KEEPALIVE_TIMEOUT then [?x] else []"
    have s: "says ?x1 r ?r1" by simp
    note s1 = saysD [OF s]
    have ok1: "reg_ok ?r1" and p1: "p \<in> elements (handlespaceOf ?r1)" using says_ok [OF s] ok pE s1(2) by simp_all
    obtain r' g xs where d: "removeElement env p ?r1 = Inr (RSPERR_OKAY, r')" "reg_ok r'" "sameConfig ?r1 r'"
      "shifted g (pr_Peers ?r1) (pr_Peers r')" "elements (handlespaceOf r') = elements (handlespaceOf ?r1) - {p}"
      "\<forall>q \<in> elements (handlespaceOf r'). elementAt (handlespaceOf r') q = elementAt (handlespaceOf ?r1) q"
      "timerNames (handlespaceOf r') = filter (\<lambda>q. q \<noteq> p) (timerNames (handlespaceOf ?r1))"
      "pr_Outputs r' = pr_Outputs ?r1 @ xs" "toldPeers env ?r1 p xs"
      by (rule remove_element_step [OF ok1 p1])
    have run: "poolElementTimer env p r = Inr r'"
      using d(1) False t by (auto simp: poolElementTimer_def timer_ok_def Let_def removeElementOrAbort_def split: if_splits)
    have told: "toldPeers env r p xs" using d(9) s1(2,3) sameConfigD(1) [OF s1(1)] by (simp add: toldPeers_def)
    show thesis
    proof (rule that [OF run d(2)])
      show "sameConfig r r'" using sameConfig_trans [OF s1(1) d(3)] .
      show "shifted g (pr_Peers r) (pr_Peers r')" using d(4) s1(3) by simp
      show "pr_Outputs r' = pr_Outputs r @ (?x1 @ xs)" using d(8) s1(6) by simp
      show "handled env r p (?x1 @ xs)" using told_more [OF told, of "?x1 @ xs"] False by (simp add: handled_def Let_def)
      show "elements (handlespaceOf r') = elements ?hs - (if isPoll ?n then {} else {p})" using d(5) s1(2) False by simp
      show "\<forall>q \<in> elements (handlespaceOf r'). elementAt (handlespaceOf r') q = (if q = p then polled env r ?n else elementAt ?hs q)"
        using d(5,6) s1(2) by auto
      show "set (timerNames (handlespaceOf r')) = set (timerNames ?hs) - (if isPoll ?n then {} else {p})" using d(7) s1(2) False by auto
    qed
  qed
qed

section \<open>All timers that are due\<close>

definition dueTimers :: "u64 \<Rightarrow> PoolHandlespaceNode \<Rightarrow> peName list" where
  "dueTimers now hs = filter (\<lambda>p. pen_TimerTimeStamp (elementAt hs p) \<le> now) (timerNames hs)"

lemma sorted_split:
  fixes f :: "'a \<Rightarrow> 'b::linorder"
  shows "sorted_wrt (\<lambda>p q. f p \<le> f q) xs \<Longrightarrow> xs = filter (\<lambda>p. f p \<le> n) xs @ filter (\<lambda>p. \<not> f p \<le> n) xs"
proof (induction xs)
  case (Cons x xs)
  then have ih: "xs = filter (\<lambda>p. f p \<le> n) xs @ filter (\<lambda>p. \<not> f p \<le> n) xs" and l: "\<forall>y \<in> set xs. f x \<le> f y" by simp_all
  show ?case
  proof (cases "f x \<le> n")
    case True
    then show ?thesis using ih by simp
  next
    case False
    then have "\<forall>y \<in> set xs. \<not> f y \<le> n" using l by (meson order_trans)
    then have "filter (\<lambda>p. f p \<le> n) xs = []" "filter (\<lambda>p. \<not> f p \<le> n) xs = xs" by (simp_all add: filter_empty_conv filter_id_conv)
    then show ?thesis using False by simp
  qed
qed simp

lemma due_first:
  assumes st: "hs_struct hs"
  obtains us where "timerNames hs = dueTimers now hs @ us" "\<forall>u \<in> set us. now < pen_TimerTimeStamp (elementAt hs u)"
proof -
  let ?P = "\<lambda>p. pen_TimerTimeStamp (elementAt hs p) \<le> now"
  have s: "sorted_wrt (\<lambda>p q. pen_TimerTimeStamp (elementAt hs p) \<le> pen_TimerTimeStamp (elementAt hs q)) (timerNames hs)" by (rule timer_names(5) [OF st])
  have "timerNames hs = filter ?P (timerNames hs) @ filter (\<lambda>p. \<not> ?P p) (timerNames hs)"
    by (rule sorted_split [OF s])
  then have "timerNames hs = dueTimers now hs @ filter (\<lambda>p. \<not> ?P p) (timerNames hs)" unfolding dueTimers_def .
  moreover have "now < pen_TimerTimeStamp (elementAt hs u)" if "u \<in> set (filter (\<lambda>p. \<not> ?P p) (timerNames hs))" for u using that by (simp add: not_le)
  ultimately show thesis by (intro that [of "filter (\<lambda>p. \<not> ?P p) (timerNames hs)"] ballI)
qed

lemma due_shrinks:
  assumes st: "hs_struct hs" "hs_struct hs'" and s: "set (dueTimers now hs') = set (dueTimers now hs) - {p}"
    and same: "\<forall>q \<in> set (dueTimers now hs'). elementAt hs' q = elementAt hs q"
  shows "dueTimers now hs' = filter (\<lambda>q. q \<noteq> p) (dueTimers now hs)"
  using timer_links.names_shrink [OF timer_names(3) [OF st(1)] timer_names(3) [OF st(2)]] s same
  unfolding dueTimers_def timerNames_def by blast

text \<open>The loop is at the first timer that is due, or past all of them.\<close>

definition atDue :: "u64 \<Rightarrow> peName list \<Rightarrow> PoolHandlespaceNode \<Rightarrow> peName option \<Rightarrow> bool" where
  "atDue now ds hs current \<longleftrightarrow> (case ds of d # _ \<Rightarrow> current = Some d
     | [] \<Rightarrow> (case current of None \<Rightarrow> True | Some q \<Rightarrow> now < pen_TimerTimeStamp (elementAt hs q)))"

definition allHandled :: "Environment \<Rightarrow> Registrar \<Rightarrow> Registrar \<Rightarrow> peName list \<Rightarrow> Output list \<Rightarrow> bool" where
  "allHandled env r r' ds xs \<longleftrightarrow> (let gone = {p \<in> set ds. \<not> isPoll (elementAt (handlespaceOf r) p)} in
     elements (handlespaceOf r') = elements (handlespaceOf r) - gone \<and>
     (\<forall>q \<in> elements (handlespaceOf r'). elementAt (handlespaceOf r') q =
        (if q \<in> set ds then polled env r (elementAt (handlespaceOf r) q) else elementAt (handlespaceOf r) q)) \<and>
     set (timerNames (handlespaceOf r')) = set (timerNames (handlespaceOf r)) - gone \<and>
     pr_Outputs r' = pr_Outputs r @ xs \<and> (\<forall>p \<in> set ds. handled env r p xs))"

lemma all_handled_step:
  assumes t: "sameConfig r r1" "shifted g (pr_Peers r) (pr_Peers r1)"
      "elements (handlespaceOf r1) = elements (handlespaceOf r) - (if isPoll (elementAt (handlespaceOf r) p) then {} else {p})"
      "\<forall>q \<in> elements (handlespaceOf r1). elementAt (handlespaceOf r1) q =
         (if q = p then polled env r (elementAt (handlespaceOf r) p) else elementAt (handlespaceOf r) q)"
      "set (timerNames (handlespaceOf r1)) = set (timerNames (handlespaceOf r)) - (if isPoll (elementAt (handlespaceOf r) p) then {} else {p})"
      "pr_Outputs r1 = pr_Outputs r @ xs" "handled env r p xs"
    and f: "allHandled env r1 r' qs ys" and qs: "p \<notin> set qs" "set qs \<subseteq> elements (handlespaceOf r1)"
  shows "allHandled env r r' (p # qs) (xs @ ys)"
proof -
  let ?hs = "handlespaceOf r" and ?hs1 = "handlespaceOf r1" and ?hs' = "handlespaceOf r'"
  have same: "elementAt ?hs1 q = elementAt ?hs q" if "q \<in> set qs" for q using t(4) qs that by auto
  have c: "polled env r1 = polled env r" using sameConfigD(4) [OF t(1)] by (simp add: polled_def fun_eq_iff)
  let ?gone = "{q \<in> set qs. \<not> isPoll (elementAt ?hs q)}"
  have g: "{q \<in> set (p # qs). \<not> isPoll (elementAt ?hs q)} = (if isPoll (elementAt ?hs p) then {} else {p}) \<union> ?gone" by auto
  have g1: "{q \<in> set qs. \<not> isPoll (elementAt ?hs1 q)} = ?gone" using same by auto
  have "elements ?hs' = elements ?hs1 - ?gone \<and>
      (\<forall>q \<in> elements ?hs'. elementAt ?hs' q = (if q \<in> set qs then polled env r1 (elementAt ?hs1 q) else elementAt ?hs1 q)) \<and>
      set (timerNames ?hs') = set (timerNames ?hs1) - ?gone \<and> pr_Outputs r' = pr_Outputs r1 @ ys \<and> (\<forall>q \<in> set qs. handled env r1 q ys)"
    using f unfolding allHandled_def g1 Let_def .
  then obtain f1: "elements ?hs' = elements ?hs1 - ?gone"
      "\<forall>q \<in> elements ?hs'. elementAt ?hs' q = (if q \<in> set qs then polled env r1 (elementAt ?hs1 q) else elementAt ?hs1 q)"
      "set (timerNames ?hs') = set (timerNames ?hs1) - ?gone" "pr_Outputs r' = pr_Outputs r1 @ ys" "\<forall>q \<in> set qs. handled env r1 q ys"
    by (elim conjE)
  have h: "handled env r q (xs @ ys)" if "q \<in> set (p # qs)" for q
  proof (cases "q = p")
    case True
    then show ?thesis using handled_more [OF t(7), of "xs @ ys"] by simp
  next
    case False
    then have "q \<in> set qs" using that by simp
    then have "handled env r q ys" using f1(5) handled_same [OF t(2) sameConfigD(1) [OF t(1)] same] by simp
    then show ?thesis using handled_more [of env r q ys "xs @ ys"] by simp
  qed
  have "elementAt ?hs' q = (if q \<in> set (p # qs) then polled env r (elementAt ?hs q) else elementAt ?hs q)" if q: "q \<in> elements ?hs'" for q
  proof -
    have q1: "q \<in> elements ?hs1" using f1(1) q by simp
    show ?thesis using bspec [OF f1(2) q] bspec [OF t(4) q1] same [of q] qs(1) by (auto simp: c)
  qed
  moreover have "elements ?hs' = elements ?hs - {q \<in> set (p # qs). \<not> isPoll (elementAt ?hs q)}"
    "set (timerNames ?hs') = set (timerNames ?hs) - {q \<in> set (p # qs). \<not> isPoll (elementAt ?hs q)}"
    unfolding g f1(1,3) t(3,5) by auto
  moreover have "pr_Outputs r' = pr_Outputs r @ (xs @ ys)" using f1(4) t(6) by simp
  ultimately show ?thesis using h unfolding allHandled_def Let_def by blast
qed

lemma element_timers_loop:
  assumes "reg_ok r" "dueTimers (env_Now env) (handlespaceOf r) = ds" "atDue (env_Now env) ds (handlespaceOf r) current"
    "length ds < k \<or> current = None" "\<forall>p \<in> set ds. timer_ok (elementAt (handlespaceOf r) p)"
    "env_Now env < env_Now env + pr_EndpointKeepAliveTimeoutInterval r"
  shows "\<exists>r' g xs. poolElementTimers k env current r = Inr r' \<and> reg_ok r' \<and> sameConfig r r' \<and> shifted g (pr_Peers r) (pr_Peers r') \<and>
    dueTimers (env_Now env) (handlespaceOf r') = [] \<and> allHandled env r r' ds xs"
  using assms
proof (induction k arbitrary: r ds current)
  case 0
  then have "current = None" "ds = []" by (auto simp: atDue_def split: list.splits)
  then show ?case using 0
    by (intro exI [of _ r] exI [of _ "\<lambda>_. 0"] exI [of _ "[]"]) (simp add: shifted_def follows_def reg_okD(5) allHandled_def)
next
  case (Suc k)
  let ?hs = "handlespaceOf r" and ?now = "env_Now env"
  note st = reg_okD(8) [OF Suc.prems(1)]
  show ?case
  proof (cases ds)
    case Nil
    then have "poolElementTimers (Suc k) env current r = Inr r"
      using Suc.prems(3) by (auto simp: atDue_def not_le split: option.splits)
    then show ?thesis using Nil Suc.prems(1,2)
      by (intro exI [of _ r] exI [of _ "\<lambda>_. 0"] exI [of _ "[]"]) (simp add: shifted_def follows_def reg_okD(5) allHandled_def)
  next
    case (Cons p qs)
    obtain us where us: "timerNames ?hs = ds @ us" "\<forall>u \<in> set us. ?now < pen_TimerTimeStamp (elementAt ?hs u)"
      using due_first [OF st, of ?now] unfolding Suc.prems(2) by blast
    have cur: "current = Some p" using Suc.prems(3) Cons by (simp add: atDue_def)
    have due: "pen_TimerTimeStamp (elementAt ?hs p) \<le> ?now" "p \<in> set (timerNames ?hs)" "timer_ok (elementAt ?hs p)"
      using Suc.prems(2,5) Cons by (auto simp: dueTimers_def filter_eq_Cons_iff)
    have dist: "distinct (p # qs @ us)" using timer_names(1) [OF st] us(1) Cons by simp
    have nx: "poolHandlespaceNodeGetNextPoolElementTimerNode ?hs p = (case qs @ us of [] \<Rightarrow> None | q # _ \<Rightarrow> Some q)"
      by (rule timer_chain [OF st, of "[]"]) (use us(1) Cons in simp)
    obtain r1 g1 xs where t: "poolElementTimer env p r = Inr r1" "reg_ok r1" "sameConfig r r1" "shifted g1 (pr_Peers r) (pr_Peers r1)"
      "elements (handlespaceOf r1) = elements ?hs - (if isPoll (elementAt ?hs p) then {} else {p})"
      "\<forall>q \<in> elements (handlespaceOf r1). elementAt (handlespaceOf r1) q = (if q = p then polled env r (elementAt ?hs p) else elementAt ?hs q)"
      "set (timerNames (handlespaceOf r1)) = set (timerNames ?hs) - (if isPoll (elementAt ?hs p) then {} else {p})"
      "pr_Outputs r1 = pr_Outputs r @ xs" "handled env r p xs"
      by (rule element_timer_step [OF Suc.prems(1) due(2,3)])
    note st1 = reg_okD(8) [OF t(2)]
    have same: "q \<in> elements (handlespaceOf r1) \<and> elementAt (handlespaceOf r1) q = elementAt ?hs q" if "q \<in> set (timerNames ?hs)" "q \<noteq> p" for q
      using that t(5,6) timer_names(2) [OF st] by auto
    have "q \<in> set (dueTimers ?now (handlespaceOf r1)) \<longleftrightarrow> q \<in> set (dueTimers ?now ?hs) \<and> q \<noteq> p" for q
    proof (cases "q = p")
      case True
      have "?now < pen_TimerTimeStamp (polled env r n)" for n using Suc.prems(6) by (simp add: polled_def)
      then have "p \<notin> set (dueTimers ?now (handlespaceOf r1))"
        using t(6) timer_names(2) [OF st1] by (auto simp: dueTimers_def not_le)
      then show ?thesis using True by blast
    next
      case False
      then have "q \<in> set (timerNames (handlespaceOf r1)) \<longleftrightarrow> q \<in> set (timerNames ?hs)" using t(7) by simp
      then show ?thesis using same [of q] False by (auto simp: dueTimers_def)
    qed
    then have d1: "set (dueTimers ?now (handlespaceOf r1)) = set (dueTimers ?now ?hs) - {p}" by blast
    have "\<forall>q \<in> set (dueTimers ?now (handlespaceOf r1)). elementAt (handlespaceOf r1) q = elementAt ?hs q"
      using d1 same by (auto simp: dueTimers_def)
    from due_shrinks [OF st st1 d1 this] have d2: "dueTimers ?now (handlespaceOf r1) = qs"
      using Suc.prems(2) Cons dist by (simp add: filter_id_conv) metis
    have at: "atDue ?now qs (handlespaceOf r1) (case qs @ us of [] \<Rightarrow> None | q # _ \<Rightarrow> Some q)"
    proof (cases "qs = [] \<and> us \<noteq> []")
      case True
      then obtain u us' where u: "us = u # us'" by (cases us) auto
      have "elementAt (handlespaceOf r1) u = elementAt ?hs u" using same [of u] us(1) dist u Cons by auto
      then show ?thesis using True us(2) u by (simp add: atDue_def)
    qed (auto simp: atDue_def split: list.splits)
    have ok1: "\<forall>q \<in> set qs. timer_ok (elementAt (handlespaceOf r1) q)"
    proof
      fix q assume q: "q \<in> set qs"
      have "q \<in> set (timerNames ?hs)" "q \<noteq> p" using q us(1) Cons dist by auto
      then have "elementAt (handlespaceOf r1) q = elementAt ?hs q" using same by blast
      then show "timer_ok (elementAt (handlespaceOf r1) q)" using Suc.prems(5) Cons q by simp
    qed
    have k: "length qs < k" using Suc.prems(4) Cons cur by simp
    have i1: "?now < ?now + pr_EndpointKeepAliveTimeoutInterval r1" using Suc.prems(6) sameConfigD(4) [OF t(3)] by simp
    from Suc.IH [OF t(2) d2 at disjI1 [OF k] ok1 i1] obtain r' g ys where
      f: "poolElementTimers k env (case qs @ us of [] \<Rightarrow> None | q # _ \<Rightarrow> Some q) r1 = Inr r'" "reg_ok r'" "sameConfig r1 r'"
        "shifted g (pr_Peers r1) (pr_Peers r')" "dueTimers ?now (handlespaceOf r') = []" "allHandled env r1 r' qs ys" by (elim exE conjE)
    have run: "poolElementTimers (Suc k) env current r = Inr r'" using cur due(1) nx t(1) f(1) by simp
    have q1: "set qs \<subseteq> elements (handlespaceOf r1)" using d2 timer_names(2) [OF st1] by (auto simp: dueTimers_def)
    have "allHandled env r r' ds (xs @ ys)"
      unfolding Cons using all_handled_step [OF t(3-9) f(6) _ q1] dist by simp
    then show ?thesis using run f(2,5) sameConfig_trans [OF t(3) f(3)] shifted_trans [OF t(4) f(4)]
      by (intro exI [of _ r'] exI [of _ "\<lambda>j. g1 j + g j"] exI [of _ "xs @ ys"] conjI)
  qed
qed

lemma element_event_ok:
  assumes ok: "reg_ok r" and t: "\<forall>p \<in> set (dueTimers (env_Now env) (handlespaceOf r)). timer_ok (elementAt (handlespaceOf r) p)"
    and i: "env_Now env < env_Now env + pr_EndpointKeepAliveTimeoutInterval r"
  shows "\<exists>r' xs. registrarHandlePoolElementEvent env r = Inr r' \<and> reg_ok r' \<and> dueTimers (env_Now env) (handlespaceOf r') = [] \<and>
    allHandled env r r' (dueTimers (env_Now env) (handlespaceOf r)) xs \<and>
    pr_HandlespaceActionTimer r' = Some (poolHandlespaceManagementGetNextTimerTimeStamp (pr_Handlespace r'))"
proof -
  let ?hs = "handlespaceOf r" and ?ds = "dueTimers (env_Now env) (handlespaceOf r)"
  let ?first = "case timerNames ?hs of [] \<Rightarrow> None | p # _ \<Rightarrow> Some p"
  note st = reg_okD(8) [OF ok]
  obtain us where us: "timerNames ?hs = ?ds @ us" "\<forall>u \<in> set us. env_Now env < pen_TimerTimeStamp (elementAt ?hs u)"
    by (rule due_first [OF st])
  have at: "atDue (env_Now env) ?ds ?hs ?first"
    using us(2) unfolding atDue_def us(1) by (cases ?ds; cases us) simp_all
  have len: "length (timerNames ?hs) = poolHandlespaceNodeGetTimerNodes ?hs"
    using timer_names(3) [OF st]
    by (simp add: timerNames_def timer_links.names_def poolHandlespaceNodeGetTimerNodes_def RedBlackTreeGetElements_def timer_links.links_def rbt_wf_def)
  have "length ?ds \<le> length (timerNames ?hs)" unfolding dueTimers_def by (rule length_filter_le)
  then have "length ?ds < 2 * poolHandlespaceNodeGetTimerNodes ?hs \<or> ?first = None"
    unfolding len [symmetric] by (cases "timerNames ?hs") simp_all
  from element_timers_loop [OF ok refl at this t i] obtain r' xs where
    f: "poolElementTimers (2 * poolHandlespaceNodeGetTimerNodes ?hs) env ?first r = Inr r'" "reg_ok r'"
      "dueTimers (env_Now env) (handlespaceOf r') = []" "allHandled env r r' ?ds xs" by (elim exE conjE)
  have "registrarHandlePoolElementEvent env r = Inr (restartHandlespaceActionTimer r')"
    using f(1) by (simp add: registrarHandlePoolElementEvent_def first_timer)
  moreover have "allHandled env r (restartHandlespaceActionTimer r') ?ds xs" using f(4) by (simp add: allHandled_def)
  ultimately show ?thesis using f(2,3) by (intro exI [of _ "restartHandlespaceActionTimer r'"] exI [of _ xs]) (simp add: reg_ok_parts)
qed

end
