(* ===== verification/RSP_RegistrationLaws.thy ===== *)
theory RSP_RegistrationLaws
  imports RSP_ElementLaws
begin

text \<open>
  The registration of a pool element at a registrar: the handler does on the handlespace what the
  abstract registry does, starts the monitoring, tells the peers and answers.
\<close>

lemma register_node:
  assumes wf: "hs_wf (hsm_Handlespace m)" and h: "ph_wf handle" and mem: "hsm_Memory m"
    and run: "poolHandlespaceManagementRegisterPoolElement handle r i life pps (Some ut) rt sd a now m = Inr (RSPERR_OKAY, nd, m')"
  shows "nd = Some (ph_bytes handle, i) \<and> (ph_bytes handle, i) \<in> elements (hsm_Handlespace m')"
proof -
  have sz: "\<not> (ph_Size handle < 1 \<or> ph_Size handle > MAX_POOLHANDLESIZE)" using h by (simp add: ph_wf_def)
  obtain policy where pol: "poolPolicyGetPoolPolicyByType (pps_PolicyType pps) = Some policy"
    using run sz by (cases "poolPolicyGetPoolPolicyByType (pps_PolicyType pps)") (auto simp: poolHandlespaceManagementRegisterPoolElement_def)
  let ?pn = "targetPool (requestPool handle policy ut) (hsm_Handlespace m)" and ?n = "poolElementNodeNew i r life pps (Some ut) rt sd a"
  obtain e where e: "poolNodeCheckPoolElementNodeCompatibility ?pn ?n = Inr e" using check_returns by blast
  have "e = RSPERR_OKAY" using register_rejected [OF wf h mem pol e, of now] run by (rule_tac ccontr) auto
  then have "compatible ?pn ?n" using e by (simp add: compatible_def)
  from register_ok [OF wf h mem pol this, of now] obtain m1 where
    m1: "poolHandlespaceManagementRegisterPoolElement handle r i life pps (Some ut) rt sd a now m = Inr (RSPERR_OKAY, Some (ph_bytes handle, i), m1)"
    "registry (hsm_Handlespace m1) = (registry (hsm_Handlespace m))((ph_bytes handle, i) \<mapsto> newEntry (registry (hsm_Handlespace m) (ph_bytes handle, i)) ?n now)"
    by blast
  then have "nd = Some (ph_bytes handle, i)" "m' = m1" using run by simp_all
  moreover have "(ph_bytes handle, i) \<in> dom (registry (hsm_Handlespace m1))" unfolding m1(2) by simp
  ultimately show ?thesis by simp
qed

lemma register_step:
  fixes ut :: TransportAddressBlock and rt :: "TransportAddressBlock option" and i j life a :: u32 and sd :: int
    and pps :: PoolPolicySettings and now :: u64
  assumes ok: "reg_ok r" and h: "ph_wf handle"
  defines "rq \<equiv> RegisterRequest handle j i life pps ut rt sd a now"
  obtains e nd r' g where "onHandlespace env (\<lambda>m. bindR (poolHandlespaceManagementRegisterPoolElement handle j i life pps (Some ut) rt sd a now m)
      (\<lambda>(e, nd, m1). Inr ((e, nd), m1))) r = Inr ((e, nd), r')" "reg_ok r'" "quiet r r'" "shifted g (pr_Peers r) (pr_Peers r')"
    "(e, abstraction (handlespaceOf r')) = specRequest rq (abstraction (handlespaceOf r))"
    "e = RSPERR_OKAY \<longrightarrow> nd = Some (ph_bytes handle, i) \<and> (ph_bytes handle, i) \<in> elements (handlespaceOf r')"
proof -
  let ?m = "pr_Handlespace r" and ?R = "abstraction (handlespaceOf r)"
  let ?f = "\<lambda>m. bindR (poolHandlespaceManagementRegisterPoolElement handle j i life pps (Some ut) rt sd a now m) (\<lambda>(e, nd, m1). Inr ((e, nd), m1))"
  have q: "request_ok (card (elements (handlespaceOf r))) rq" using h by (simp add: rq_def)
  obtain m' where s: "runRequest (\<lambda>_. 0) rq ?m = Inr (fst (specRequest rq ?R), m')" "abstraction (hsm_Handlespace m') = snd (specRequest rq ?R)"
    "hs_wf (hsm_Handlespace m')" "hsm_Memory m'" "hsn_HomeRegistrarIdentifier (hsm_Handlespace m') = hsn_HomeRegistrarIdentifier (handlespaceOf r)"
    using request_step [OF reg_okD(1,3) [OF ok] q order_refl] by blast
  obtain nd where n: "poolHandlespaceManagementRegisterPoolElement handle j i life pps (Some ut) rt sd a now ?m = Inr (fst (specRequest rq ?R), nd, m')"
    using s(1) unfolding rq_def by (auto simp: bindR_eq_Inr_conv)
  have f: "?f ?m = Inr ((fst (specRequest rq ?R), nd), m')" using n by simp
  obtain r' g where r': "onHandlespace env ?f r = Inr ((fst (specRequest rq ?R), nd), r')" "reg_ok r'" "quiet r r'"
    "handlespaceOf r' = (hsm_Handlespace m')\<lparr>hsn_Notifications := []\<rparr>" "shifted g (pr_Peers r) (pr_Peers r')"
    by (rule on_handlespace_ok [where f = ?f and env = env, OF ok f s(3-5) request_announced [OF reg_okD(1,3) [OF ok] q order_refl s(1)]])
  have "(fst (specRequest rq ?R), abstraction (handlespaceOf r')) = specRequest rq ?R"
    using s(2) unfolding r'(4) by (simp add: abstraction_def)
  moreover have "fst (specRequest rq ?R) = RSPERR_OKAY \<longrightarrow> nd = Some (ph_bytes handle, i) \<and> (ph_bytes handle, i) \<in> elements (handlespaceOf r')"
  proof
    assume e: "fst (specRequest rq ?R) = RSPERR_OKAY"
    show "nd = Some (ph_bytes handle, i) \<and> (ph_bytes handle, i) \<in> elements (handlespaceOf r')"
      using register_node [OF reg_okD(1) [OF ok] h reg_okD(3) [OF ok] n [unfolded e]] unfolding r'(4) by simp
  qed
  ultimately show thesis using that [OF r'(1-3,5)] by blast
qed

lemma after_registration:
  assumes ok: "reg_ok r" and p: "p \<in> elements (handlespaceOf r)"
  obtains r' xs where "afterRegistration env p r = Inr r'" "reg_ok r'" "sameConfig r r'" "pr_Peers r' = pr_Peers r"
    "abstraction (handlespaceOf r') = abstraction (handlespaceOf r)" "p \<in> set (timerNames (handlespaceOf r'))"
    "elementAt (handlespaceOf r') p = (elementAt (handlespaceOf r) p)\<lparr>pen_TimerCode := PENT_KEEPALIVE_TRANSMISSION,
       pen_TimerTimeStamp := env_Now env + pr_EndpointKeepAliveTransmissionInterval r\<rparr>"
    "pr_HandlespaceActionTimer r' = Some (poolHandlespaceManagementGetNextTimerTimeStamp (pr_Handlespace r'))"
    "pr_Outputs r' = pr_Outputs r @ xs"
    "env_Memory env \<longrightarrow> (\<forall>q \<in> peers (peersOf r). \<exists>x \<in> set xs. isHandleUpdate (pr_ServerID r)
       (pln_Identifier (peerAt (peersOf r) q)) PNUP_ADD_PE (fst p) (elementAt (handlespaceOf r') p) x)"
proof -
  let ?hs = "handlespaceOf r"
  let ?stop = "if poolHandlespaceNodeHasActiveTimer ?hs p
            then bindR (onNode (poolHandlespaceNodeDeactivateTimer p) r) (\<lambda>r1.
                 Inr (countMessage (\<lambda>s. s\<lparr>ReregistrationCount := ReregistrationCount s + 1\<rparr>) r1)) else Inr r"
  have "\<exists>r1. ?stop = Inr r1 \<and> reg_ok r1 \<and> quiet r r1 \<and> pr_Peers r1 = pr_Peers r \<and> elements (handlespaceOf r1) = elements ?hs \<and>
      elementAt (handlespaceOf r1) = elementAt ?hs \<and> attrs (handlespaceOf r1) = attrs ?hs \<and> p \<notin> set (timerNames (handlespaceOf r1))"
  proof (cases "poolHandlespaceNodeHasActiveTimer ?hs p")
    case True
    obtain r1 where d: "onNode (poolHandlespaceNodeDeactivateTimer p) r = Inr r1" "reg_ok r1" "quiet r r1" "pr_Peers r1 = pr_Peers r"
      "elements (handlespaceOf r1) = elements ?hs" "elementAt (handlespaceOf r1) = elementAt ?hs" "attrs (handlespaceOf r1) = attrs ?hs"
      "timerNames (handlespaceOf r1) = filter (\<lambda>q. q \<noteq> p) (timerNames ?hs)"
      by (rule deactivate_timer [OF ok, of p])
    let ?c = "countMessage (\<lambda>s. s\<lparr>ReregistrationCount := ReregistrationCount s + 1\<rparr>) r1"
    have "quiet r ?c" by (rule quiet_trans [OF d(3)]) (simp add: quiet_def countMessage_def sameConfig_def)
    then show ?thesis using True d by (intro exI [of _ ?c]) (simp add: reg_ok_parts)
  next
    case False
    then have "p \<notin> set (timerNames ?hs)" using timer_names(4) [OF reg_okD(8) [OF ok], of p] by simp
    then show ?thesis using False ok by (intro exI [of _ r]) (simp add: quiet_def)
  qed
  then obtain r1 where d: "?stop = Inr r1" "reg_ok r1" "quiet r r1" "pr_Peers r1 = pr_Peers r" "elements (handlespaceOf r1) = elements ?hs"
      "elementAt (handlespaceOf r1) = elementAt ?hs" "attrs (handlespaceOf r1) = attrs ?hs" "p \<notin> set (timerNames (handlespaceOf r1))" by (elim exE conjE)
  let ?r2 = "countMessage (\<lambda>s. s\<lparr>RegistrationCount := RegistrationCount s + 1\<rparr>) r1"
  have q2: "quiet r ?r2" by (rule quiet_trans [OF d(3)]) (simp add: quiet_def countMessage_def sameConfig_def)
  have ok2: "reg_ok ?r2" and p2: "p \<in> elements (handlespaceOf ?r2)" "p \<notin> set (timerNames (handlespaceOf ?r2))"
    using d(2,5,8) p by (simp_all add: reg_ok_parts)
  obtain r3 where a: "onNode (poolHandlespaceNodeActivateTimer p PENT_KEEPALIVE_TRANSMISSION
        (env_Now env + pr_EndpointKeepAliveTransmissionInterval ?r2)) ?r2 = Inr r3" "reg_ok r3" "quiet ?r2 r3" "pr_Peers r3 = pr_Peers ?r2"
    "elements (handlespaceOf r3) = elements (handlespaceOf ?r2)"
    "elementAt (handlespaceOf r3) = (elementAt (handlespaceOf ?r2))(p := (elementAt (handlespaceOf ?r2) p)\<lparr>pen_TimerCode := PENT_KEEPALIVE_TRANSMISSION,
       pen_TimerTimeStamp := env_Now env + pr_EndpointKeepAliveTransmissionInterval ?r2\<rparr>)"
    "attrs (handlespaceOf r3) = attrs (handlespaceOf ?r2)"
    "set (timerNames (handlespaceOf r3)) = Set.insert p (set (timerNames (handlespaceOf ?r2)))"
    by (rule activate_timer [OF ok2 p2])
  let ?r4 = "restartHandlespaceActionTimer r3" and ?h = "pn_Handle (poolAt (handlespaceOf r3) (fst p))"
  have p3: "p \<in> elements (handlespaceOf r3)" using a(5) p2(1) by simp
  have q3: "quiet r r3" using quiet_trans [OF q2 a(3)] .
  have ok4: "reg_ok ?r4" using a(2) by (simp add: reg_ok_parts)
  from handle_update_says [OF ok4, of env ?h "elementAt (handlespaceOf r3) p" PNUP_ADD_PE] obtain xs r' where
    u: "registrarSendENRPHandleUpdate env ?h (elementAt (handlespaceOf r3) p) PNUP_ADD_PE ?r4 = Inr r'" "says xs ?r4 r'"
    "env_Memory env \<longrightarrow> (\<forall>q \<in> peers (peersOf ?r4). \<exists>x \<in> set xs. isHandleUpdate (pr_ServerID ?r4)
       (pln_Identifier (peerAt (peersOf ?r4) q)) PNUP_ADD_PE (ph_bytes ?h) (elementAt (handlespaceOf r3) p) x)" by (elim exE conjE)
  note s = saysD [OF u(2)]
  have run: "afterRegistration env p r = Inr r'"
    using d(1) a(1) u(1) by (simp add: afterRegistration_def Let_def)
  have c: "pr_EndpointKeepAliveTransmissionInterval ?r2 = pr_EndpointKeepAliveTransmissionInterval r" using sameConfigD(5) [OF quietD(1) [OF q2]] .
  have act: "pr_HandlespaceActionTimer r' = pr_HandlespaceActionTimer ?r4" using s(7) .
  show thesis
  proof (rule that [OF run])
    show "reg_ok r'" using says_ok [OF u(2)] ok4 by simp
    show "sameConfig r r'" using sameConfig_trans [OF sameConfig_trans [OF quietD(1) [OF q3]] s(1)] by simp
    have "registry (handlespaceOf r3) = registry ?hs" using a(5,6) d(5,6) by (auto simp: registry_def entryOf_def fun_eq_iff)
    then show "abstraction (handlespaceOf r') = abstraction ?hs" using s(2) a(7) d(7) by (simp add: abstraction_def)
    show "p \<in> set (timerNames (handlespaceOf r'))" using s(2) a(8) by simp
    show "elementAt (handlespaceOf r') p = (elementAt ?hs p)\<lparr>pen_TimerCode := PENT_KEEPALIVE_TRANSMISSION,
       pen_TimerTimeStamp := env_Now env + pr_EndpointKeepAliveTransmissionInterval r\<rparr>" using s(2) a(6) d(6) c by simp
    show "pr_Outputs r' = pr_Outputs r @ xs" using s(6) quietD(2) [OF q3] by simp
    have e: "pr_ServerID ?r4 = pr_ServerID r" "pr_Peers ?r4 = pr_Peers r" "elementAt (handlespaceOf r') = elementAt (handlespaceOf r3)"
      using sameConfigD(1) [OF quietD(1) [OF q3]] a(4) d(4) s(2) by simp_all
    show "env_Memory env \<longrightarrow> (\<forall>q \<in> peers (peersOf r). \<exists>x \<in> set xs. isHandleUpdate (pr_ServerID r)
       (pln_Identifier (peerAt (peersOf r) q)) PNUP_ADD_PE (fst p) (elementAt (handlespaceOf r') p) x)"
      using u(3) unfolding e element_names(2) [OF reg_okD(1) [OF a(2)] p3] .
    show "pr_Peers r' = pr_Peers r" using s(3) e(2) by simp
    show "pr_HandlespaceActionTimer r' = Some (poolHandlespaceManagementGetNextTimerTimeStamp (pr_Handlespace r'))" using act s(2) by simp
  qed
qed

section \<open>The handler\<close>

definition registrationOf ::
  "Environment \<Rightarrow> int \<Rightarrow> u32 \<Rightarrow> RSerPoolMessage \<Rightarrow> PoolElementNode \<Rightarrow> PoolPolicySettings \<Rightarrow> TransportAddressBlock \<Rightarrow> TransportAddressBlock \<Rightarrow> Registrar \<Rightarrow> Request" where
  "registrationOf env fd a message pe pps ut rt r =
     RegisterRequest (Handle message) (pr_ServerID r) (pen_Identifier pe) (pen_RegistrationLife pe) pps ut (Some rt) fd a (env_Now env)"

text \<open>A pool element is monitored: a keep-alive is due after the interval of the registrar, and the peers know it.\<close>

definition monitored :: "Environment \<Rightarrow> Registrar \<Rightarrow> Registrar \<Rightarrow> peName \<Rightarrow> Output list \<Rightarrow> bool" where
  "monitored env r r' p xs \<longleftrightarrow> p \<in> set (timerNames (handlespaceOf r')) \<and>
     pen_TimerCode (elementAt (handlespaceOf r') p) = PENT_KEEPALIVE_TRANSMISSION \<and>
     pen_TimerTimeStamp (elementAt (handlespaceOf r') p) = env_Now env + pr_EndpointKeepAliveTransmissionInterval r \<and>
     pr_HandlespaceActionTimer r' = Some (poolHandlespaceManagementGetNextTimerTimeStamp (pr_Handlespace r')) \<and>
     (env_Memory env \<longrightarrow> (\<forall>q \<in> peers (peersOf r). \<exists>x \<in> set xs. isHandleUpdate (pr_ServerID r)
       (pln_Identifier (peerAt (peersOf r) q)) PNUP_ADD_PE (fst p) (elementAt (handlespaceOf r') p) x))"

lemma register_for:
  fixes ut rt :: TransportAddressBlock
  assumes ok: "reg_ok r" and h: "ph_wf (Handle message)" and dist: "registrarUpdateDistance env r fd a pe False 0xffffffff = Inr (pps, d)"
  obtains e r' xs where "registerFor env fd a message pe ut rt r = Inr (e, r')" "reg_ok r'"
    "(e, abstraction (handlespaceOf r')) = specRequest (registrationOf env fd a message pe pps ut rt r) (abstraction (handlespaceOf r))"
    "pr_Outputs r' = pr_Outputs r @ xs" "e \<noteq> RSPERR_OKAY \<longrightarrow> xs = []"
    "e = RSPERR_OKAY \<longrightarrow> monitored env r r' (ph_bytes (Handle message), pen_Identifier pe) xs"
proof -
  let ?p = "(ph_bytes (Handle message), pen_Identifier pe)"
  obtain e nd r1 g where s: "onHandlespace env (\<lambda>m. bindR (poolHandlespaceManagementRegisterPoolElement (Handle message) (pr_ServerID r) (pen_Identifier pe)
        (pen_RegistrationLife pe) pps (Some ut) (Some rt) fd a (env_Now env) m) (\<lambda>(e, nd, m1). Inr ((e, nd), m1))) r = Inr ((e, nd), r1)"
    "reg_ok r1" "quiet r r1" "shifted g (pr_Peers r) (pr_Peers r1)"
    "(e, abstraction (handlespaceOf r1)) = specRequest (RegisterRequest (Handle message) (pr_ServerID r) (pen_Identifier pe)
        (pen_RegistrationLife pe) pps ut (Some rt) fd a (env_Now env)) (abstraction (handlespaceOf r))"
    "e = RSPERR_OKAY \<longrightarrow> nd = Some ?p \<and> ?p \<in> elements (handlespaceOf r1)"
    by (rule register_step [OF ok h])
  show thesis
  proof (cases "e = RSPERR_OKAY")
    case False
    then have "registerFor env fd a message pe ut rt r = Inr (e, r1)" using s(1) dist by (simp add: registerFor_def)
    then show thesis using that [of e r1 "[]"] False s(2,5) quietD(2) [OF s(3)] by (simp add: registrationOf_def)
  next
    case True
    then have n: "nd = Some ?p" "?p \<in> elements (handlespaceOf r1)" using s(6) by simp_all
    obtain r' xs where f: "afterRegistration env ?p r1 = Inr r'" "reg_ok r'" "sameConfig r1 r'" "pr_Peers r' = pr_Peers r1"
      "abstraction (handlespaceOf r') = abstraction (handlespaceOf r1)" "?p \<in> set (timerNames (handlespaceOf r'))"
      "elementAt (handlespaceOf r') ?p = (elementAt (handlespaceOf r1) ?p)\<lparr>pen_TimerCode := PENT_KEEPALIVE_TRANSMISSION,
         pen_TimerTimeStamp := env_Now env + pr_EndpointKeepAliveTransmissionInterval r1\<rparr>"
      "pr_HandlespaceActionTimer r' = Some (poolHandlespaceManagementGetNextTimerTimeStamp (pr_Handlespace r'))"
      "pr_Outputs r' = pr_Outputs r1 @ xs"
      "env_Memory env \<longrightarrow> (\<forall>q \<in> peers (peersOf r1). \<exists>x \<in> set xs. isHandleUpdate (pr_ServerID r1)
         (pln_Identifier (peerAt (peersOf r1) q)) PNUP_ADD_PE (fst ?p) (elementAt (handlespaceOf r') ?p) x)"
      by (rule after_registration [OF s(2) n(2)])
    note c = sameConfigD [OF quietD(1) [OF s(3)]]
    have run: "registerFor env fd a message pe ut rt r = Inr (e, r')" using s(1) dist f(1) n(1) True by (simp add: registerFor_def)
    have told: "env_Memory env \<longrightarrow> (\<forall>q \<in> peers (peersOf r). \<exists>x \<in> set xs. isHandleUpdate (pr_ServerID r)
         (pln_Identifier (peerAt (peersOf r) q)) PNUP_ADD_PE (fst ?p) (elementAt (handlespaceOf r') ?p) x)"
      using f(10) shifted_peers(3) [OF s(4)] unfolding shifted_peers(1) [OF s(4)] c(1) by auto
    have "monitored env r r' ?p xs" unfolding monitored_def using f(6-8) c(5) told by simp
    then show thesis using that [OF run f(2), of xs] True s(5) f(5,9) quietD(2) [OF s(3)] by (simp add: registrationOf_def)
  qed
qed

lemma registration_handled:
  fixes ut rt :: TransportAddressBlock
  assumes ok: "reg_ok r" and msg: "PoolElementPtr message = Some pe" "pen_UserTransport pe = Some block" "ph_wf (Handle message)"
    and remote: "transportAddressBlockGetAddressesFromSCTPSocket env fd a MAX_PE_TRANSPORTADDRESSES False = Inr (Some remote)"
    and user: "transportAddressBlockFilter (env_LogLevel env) block (Some remote) noBlock MAX_PE_TRANSPORTADDRESSES False
      (pr_MinEndpointAddressScope r) = Inr (k, ut)" "0 < k"
    and asap: "transportAddressBlockFilter (env_LogLevel env) remote None noBlock MAX_PE_TRANSPORTADDRESSES True
      (pr_MinEndpointAddressScope r) = Inr (l, rt)" "0 < l"
    and dist: "registrarUpdateDistance env r fd a pe False 0xffffffff = Inr (pps, d)"
  shows "\<exists>e r' xs. registrarHandleASAPRegistration env fd a message r = Inr r' \<and> reg_ok r' \<and>
    (e, abstraction (handlespaceOf r')) = specRequest (registrationOf env fd a message pe pps ut rt r) (abstraction (handlespaceOf r)) \<and>
    pr_Outputs r' = pr_Outputs r @ xs @ [SendOrAbort (transmission fd a [] (message\<lparr>Type := AHT_REGISTRATION_RESPONSE, Identifier := pen_Identifier pe,
      Error := e, Flags := (if e = RSPERR_OKAY then 0 else AHF_REGISTRATION_REJECT)\<rparr>)) fd a] \<and>
    (e \<noteq> RSPERR_OKAY \<longrightarrow> xs = []) \<and> (e = RSPERR_OKAY \<longrightarrow> monitored env r r' (ph_bytes (Handle message), pen_Identifier pe) xs)"
proof -
  let ?m = "message\<lparr>Type := AHT_REGISTRATION_RESPONSE, Flags := 0, Error := RSPERR_OKAY, Identifier := pen_Identifier pe\<rparr>"
  have h: "ph_wf (Handle ?m)" using msg(3) by simp
  obtain e r1 xs where f: "registerFor env fd a ?m pe ut rt r = Inr (e, r1)" "reg_ok r1"
    "(e, abstraction (handlespaceOf r1)) = specRequest (registrationOf env fd a ?m pe pps ut rt r) (abstraction (handlespaceOf r))"
    "pr_Outputs r1 = pr_Outputs r @ xs" "e \<noteq> RSPERR_OKAY \<longrightarrow> xs = []"
    "e = RSPERR_OKAY \<longrightarrow> monitored env r r1 (ph_bytes (Handle ?m), pen_Identifier pe) xs"
    by (rule register_for [OF ok h dist])
  let ?r = "reply fd a (?m\<lparr>Error := e, Flags := (if e = RSPERR_OKAY then 0 else AHF_REGISTRATION_REJECT)\<rparr>) r1"
  have run: "registrarHandleASAPRegistration env fd a message r = Inr ?r"
    using f(1) msg(1,2) remote user asap by (simp add: registrarHandleASAPRegistration_def Let_def)
  have parts: "handlespaceOf ?r = handlespaceOf r1" "pr_HandlespaceActionTimer ?r = pr_HandlespaceActionTimer r1" "pr_Handlespace ?r = pr_Handlespace r1"
    by (simp_all add: reply_def emitOutput_def)
  have mon: "monitored env r ?r p xs = monitored env r r1 p xs" for p unfolding monitored_def parts ..
  have same: "registrationOf env fd a ?m pe pps ut rt r = registrationOf env fd a message pe pps ut rt r" "Handle ?m = Handle message"
    by (simp_all add: registrationOf_def)
  have out: "pr_Outputs ?r = pr_Outputs r @ xs @ [SendOrAbort (transmission fd a [] (message\<lparr>Type := AHT_REGISTRATION_RESPONSE, Identifier := pen_Identifier pe,
      Error := e, Flags := (if e = RSPERR_OKAY then 0 else AHF_REGISTRATION_REJECT)\<rparr>)) fd a]"
    using f(4) by (simp add: reply_def)
  show ?thesis
    by (intro exI [of _ e] exI [of _ ?r] exI [of _ xs] conjI)
       (use run out f(2,5) f(6) [unfolded same] in \<open>simp_all only: reg_ok_parts mon parts f(3) [unfolded same]\<close>)
qed

end
