(* ===== verification/RSP_Permissions.thy ===== *)
theory RSP_Permissions
  imports RSP_RegistrarLaws
begin

text \<open>
  The limits on the request rates of pool users. A request is refused when the rate of the last 16
  requests of the same pool user, of the same kind and with the same hash bucket, the request itself
  included, is above the threshold of its kind.
\<close>

record RateRequest =
  rq_Socket :: int
  rq_AssocID :: u32
  rq_Action :: u32
  rq_Handle :: PoolHandle
  rq_Identifier :: u32
  rq_Time :: u64

definition rq_User :: "RateRequest \<Rightarrow> poolUserName" where
  "rq_User q = (rq_AssocID q, rq_Socket q)"

definition rq_Hash :: "RateRequest \<Rightarrow> u32" where
  "rq_Hash q = computePHPEHash (rq_Handle q) (if rq_Action q = AHT_HANDLE_RESOLUTION then 0 else rq_Identifier q)"

definition rq_ok :: "RateRequest \<Rightarrow> bool" where
  "rq_ok q \<longleftrightarrow> rq_Action q = AHT_HANDLE_RESOLUTION \<or> rq_Action q = AHT_ENDPOINT_UNREACHABLE"

text \<open>The checks of a sequence of requests, each at its time.\<close>

primrec checkRequests :: "Environment \<Rightarrow> RateRequest list \<Rightarrow> Registrar \<Rightarrow> fault + (bool list \<times> Registrar)" where
  "checkRequests env [] r = Inr ([], r)"
| "checkRequests env (q # qs) r =
     bindR (registrarPoolUserHasPermissionFor (env\<lparr>env_Now := rq_Time q\<rparr>) (rq_Socket q) (rq_AssocID q) (rq_Action q)
              (rq_Handle q) (rq_Identifier q) r) (\<lambda>(permitted, r1).
     bindR (checkRequests env qs r1) (\<lambda>(rest, r2). Inr (permitted # rest, r2)))"

section \<open>What is permitted\<close>

definition eventsOf :: "poolUserName \<Rightarrow> u32 \<Rightarrow> RateRequest list \<Rightarrow> (u32 \<times> u64) list" where
  "eventsOf u action qs = map (\<lambda>q. (rq_Hash q, rq_Time q)) (filter (\<lambda>q. rq_User q = u \<and> rq_Action q = action) qs)"

text \<open>The last 16 requests, up to \<open>q\<close>, that count together with \<open>q\<close>, and the decision on \<open>q\<close>.\<close>

definition window :: "RateRequest list \<Rightarrow> RateRequest \<Rightarrow> u64 list" where
  "window earlier q = lastN TSHT_ENTRIES
     (bucketEvents TSHT_BUCKETS (unat (rq_Hash q) mod TSHT_BUCKETS) (eventsOf (rq_User q) (rq_Action q) (earlier @ [q])))"

definition permittedAfter :: "Registrar \<Rightarrow> RateRequest list \<Rightarrow> RateRequest \<Rightarrow> bool" where
  "permittedAfter r earlier q = (case windowRate (window earlier q) of None \<Rightarrow> False
     | Some rate \<Rightarrow> rate \<le> (if rq_Action q = AHT_HANDLE_RESOLUTION then pr_MaxHRRate r else pr_MaxEURate r))"

section \<open>The registrar follows it\<close>

definition userAt :: "PoolUserList \<Rightarrow> poolUserName \<Rightarrow> PoolUserNode" where
  "userAt users u = (case pul_Nodes users u of None \<Rightarrow> poolUserNodeNew (snd u) (fst u) | Some n \<Rightarrow> n)"

definition logs :: "PoolUserNode \<Rightarrow> poolUserName \<Rightarrow> RateRequest list \<Rightarrow> bool" where
  "logs n u qs \<longleftrightarrow>
     holdsEvents (pun_HandleResolutionHash n) TSHT_BUCKETS TSHT_ENTRIES (eventsOf u AHT_HANDLE_RESOLUTION qs) \<and>
     holdsEvents (pun_EndpointUnreachableHash n) TSHT_BUCKETS TSHT_ENTRIES (eventsOf u AHT_ENDPOINT_UNREACHABLE qs)"

definition logged :: "PoolUserList \<Rightarrow> RateRequest list \<Rightarrow> bool" where
  "logged users qs \<longleftrightarrow> pul_wf users \<and> (\<forall>u. logs (userAt users u) u qs)"

lemma logged_new: "logged poolUserListNew []"
  using list_new_wf by (simp add: logged_def logs_def userAt_def poolUserListNew_def poolUserNodeNew_def holdsEvents_def eventsOf_def)

lemma events_snoc: "eventsOf u a (qs @ [q]) =
    (if rq_User q = u \<and> rq_Action q = a then eventsOf u a qs @ [(rq_Hash q, rq_Time q)] else eventsOf u a qs)"
  by (simp add: eventsOf_def)

lemma events_sorted: "sorted (map rq_Time qs) \<Longrightarrow> sorted (map snd (eventsOf u a qs))"
  by (simp add: eventsOf_def comp_def sorted_map sorted_wrt_filter)

lemma permission_step:
  assumes l: "logged (pr_PoolUsers r) qs" and s: "sorted (map rq_Time (qs @ [q]))" and q: "rq_ok q" and m: "env_Memory env"
  shows "\<exists>r'. registrarPoolUserHasPermissionFor (env\<lparr>env_Now := rq_Time q\<rparr>) (rq_Socket q) (rq_AssocID q) (rq_Action q)
      (rq_Handle q) (rq_Identifier q) r = Inr (permittedAfter r qs q, r') \<and> logged (pr_PoolUsers r') (qs @ [q]) \<and>
    pr_MaxHRRate r' = pr_MaxHRRate r \<and> pr_MaxEURate r' = pr_MaxEURate r"
proof -
  let ?u = "rq_User q" and ?new = "poolUserNodeNew (rq_Socket q) (rq_AssocID q)"
  have wf: "pul_wf (pr_PoolUsers r)" using l by (simp add: logged_def)
  have u: "?u = (pun_ConnectionAssocID ?new, pun_ConnectionSocketDescriptor ?new)" by (simp add: rq_User_def poolUserNodeNew_def)
  obtain users where a: "poolUserListAddPoolUserNode ?new (pr_PoolUsers r) = (?u, pul_Nodes (pr_PoolUsers r) ?u = None, users)" "pul_wf users"
    "pul_Nodes users = (if pul_Nodes (pr_PoolUsers r) ?u = None then (pul_Nodes (pr_PoolUsers r))(?u \<mapsto> ?new) else pul_Nodes (pr_PoolUsers r))"
    using add_user [OF wf u] by blast
  define n where "n = userAt (pr_PoolUsers r) ?u"
  have n: "pul_Nodes users ?u = Some n" using a(3) by (cases "pul_Nodes (pr_PoolUsers r) ?u") (simp_all add: n_def userAt_def rq_User_def)
  have old: "holdsEvents (pun_HandleResolutionHash n) TSHT_BUCKETS TSHT_ENTRIES (eventsOf ?u AHT_HANDLE_RESOLUTION qs)"
      "holdsEvents (pun_EndpointUnreachableHash n) TSHT_BUCKETS TSHT_ENTRIES (eventsOf ?u AHT_ENDPOINT_UNREACHABLE qs)"
    using l unfolding logged_def logs_def n_def by blast+
  have s1: "sorted (map snd (eventsOf ?u (rq_Action q) qs) @ [rq_Time q])"
    using events_sorted [OF s, of ?u "rq_Action q"] by (simp add: events_snoc)
  let ?h = "\<lambda>f n1. r\<lparr>pr_PoolUsers := users\<lparr>pul_Nodes := (pul_Nodes users)(?u \<mapsto> n1)\<rparr>, pr_NextPoolUserNode := f\<rparr>"
  have step: "\<exists>n1 f. registrarPoolUserHasPermissionFor (env\<lparr>env_Now := rq_Time q\<rparr>) (rq_Socket q) (rq_AssocID q) (rq_Action q)
      (rq_Handle q) (rq_Identifier q) r = Inr (permittedAfter r qs q, ?h f n1) \<and>
      pun_ConnectionAssocID n1 = pun_ConnectionAssocID n \<and> pun_ConnectionSocketDescriptor n1 = pun_ConnectionSocketDescriptor n \<and>
      logs n1 ?u (qs @ [q])"
  proof (cases "rq_Action q = AHT_HANDLE_RESOLUTION")
    case True
    obtain t where t: "noteTimeStamp True (pun_HandleResolutionHash n) (rq_Hash q) (rq_Time q) TSHT_BUCKETS TSHT_ENTRIES =
        (windowRate (window qs q), Some t)" "holdsEvents (Some t) TSHT_BUCKETS TSHT_ENTRIES (eventsOf ?u AHT_HANDLE_RESOLUTION (qs @ [q]))"
      using note_event [OF old(1), of "rq_Time q" "rq_Hash q"] s1 True by (auto simp: window_def events_snoc)
    show ?thesis using t old(2) a(1) n m True
      by (intro exI [of _ "n\<lparr>pun_HandleResolutionHash := Some t\<rparr>"] exI [of _ "pul_Nodes (pr_PoolUsers r) ?u \<noteq> None"])
         (simp add: registrarPoolUserHasPermissionFor_def poolUserNodeNoteHandleResolution_def permittedAfter_def events_snoc rq_Hash_def logs_def)
  next
    case False
    then have e: "rq_Action q = AHT_ENDPOINT_UNREACHABLE" using q by (simp add: rq_ok_def)
    obtain t where t: "noteTimeStamp True (pun_EndpointUnreachableHash n) (rq_Hash q) (rq_Time q) TSHT_BUCKETS TSHT_ENTRIES =
        (windowRate (window qs q), Some t)" "holdsEvents (Some t) TSHT_BUCKETS TSHT_ENTRIES (eventsOf ?u AHT_ENDPOINT_UNREACHABLE (qs @ [q]))"
      using note_event [OF old(2), of "rq_Time q" "rq_Hash q"] s1 e by (auto simp: window_def events_snoc)
    show ?thesis using t old(1) a(1) n m e
      by (intro exI [of _ "n\<lparr>pun_EndpointUnreachableHash := Some t\<rparr>"] exI [of _ "pul_Nodes (pr_PoolUsers r) ?u \<noteq> None"])
         (simp add: registrarPoolUserHasPermissionFor_def poolUserNodeNoteEndpointUnreachable_def permittedAfter_def events_snoc rq_Hash_def logs_def)
  qed
  then obtain n1 f where n1: "registrarPoolUserHasPermissionFor (env\<lparr>env_Now := rq_Time q\<rparr>) (rq_Socket q) (rq_AssocID q) (rq_Action q)
      (rq_Handle q) (rq_Identifier q) r = Inr (permittedAfter r qs q, ?h f n1)"
      "pun_ConnectionAssocID n1 = pun_ConnectionAssocID n" "pun_ConnectionSocketDescriptor n1 = pun_ConnectionSocketDescriptor n"
      "logs n1 ?u (qs @ [q])" by blast
  have "pul_wf (users\<lparr>pul_Nodes := (pul_Nodes users)(?u \<mapsto> n1)\<rparr>)"
    using a(2) n n1(2,3) unfolding pul_wf_def rq_User_def by (auto simp: insert_absorb)
  moreover have "logs (userAt (users\<lparr>pul_Nodes := (pul_Nodes users)(?u \<mapsto> n1)\<rparr>) v) v (qs @ [q])" for v
  proof (cases "v = ?u")
    case True
    then show ?thesis using n1(4) by (simp add: userAt_def)
  next
    case False
    then have "userAt (users\<lparr>pul_Nodes := (pul_Nodes users)(?u \<mapsto> n1)\<rparr>) v = userAt (pr_PoolUsers r) v" using a(3) by (simp add: userAt_def)
    moreover have "eventsOf v b (qs @ [q]) = eventsOf v b qs" for b using False by (simp add: events_snoc eq_commute [of v])
    ultimately have "logs (userAt (users\<lparr>pul_Nodes := (pul_Nodes users)(?u \<mapsto> n1)\<rparr>) v) v (qs @ [q]) = logs (userAt (pr_PoolUsers r) v) v qs"
      by (simp add: logs_def)
    then show ?thesis using l unfolding logged_def by blast
  qed
  ultimately have "logged (pr_PoolUsers (?h f n1)) (qs @ [q])" by (simp add: logged_def)
  then show ?thesis using n1(1) by (intro exI [of _ "?h f n1"]) simp
qed

lemma permissions_run:
  assumes "logged (pr_PoolUsers r) earlier" "sorted (map rq_Time (earlier @ qs))" "\<forall>q \<in> set qs. rq_ok q" "env_Memory env"
  shows "\<exists>bs r'. checkRequests env qs r = Inr (bs, r') \<and> logged (pr_PoolUsers r') (earlier @ qs) \<and> length bs = length qs \<and>
    (\<forall>i < length qs. bs ! i = permittedAfter r (earlier @ take i qs) (qs ! i))"
  using assms
proof (induction qs arbitrary: r earlier)
  case (Cons q qs)
  have s: "sorted (map rq_Time (earlier @ [q]))" using Cons.prems(2) by (simp add: sorted_append)
  obtain r1 where c: "registrarPoolUserHasPermissionFor (env\<lparr>env_Now := rq_Time q\<rparr>) (rq_Socket q) (rq_AssocID q) (rq_Action q)
      (rq_Handle q) (rq_Identifier q) r = Inr (permittedAfter r earlier q, r1)" "logged (pr_PoolUsers r1) (earlier @ [q])"
    "pr_MaxHRRate r1 = pr_MaxHRRate r" "pr_MaxEURate r1 = pr_MaxEURate r"
    using permission_step [OF Cons.prems(1) s _ Cons.prems(4)] Cons.prems(3) by auto
  have same: "permittedAfter r1 = permittedAfter r" unfolding permittedAfter_def c(3,4) ..
  obtain bs r' where d: "checkRequests env qs r1 = Inr (bs, r')" "logged (pr_PoolUsers r') ((earlier @ [q]) @ qs)" "length bs = length qs"
    "\<forall>i < length qs. bs ! i = permittedAfter r ((earlier @ [q]) @ take i qs) (qs ! i)"
    using Cons.IH [OF c(2)] Cons.prems(2-4) unfolding same by auto
  have "\<forall>i < length (q # qs). (permittedAfter r earlier q # bs) ! i = permittedAfter r (earlier @ take i (q # qs)) ((q # qs) ! i)"
    using d(4) by (auto simp: less_Suc_eq_0_disj)
  then show ?case using c(1) d(1-3) by (intro exI [of _ "permittedAfter r earlier q # bs"] exI [of _ r']) simp
qed simp

end
