(* ===== verification/RSP_Safety.thy ===== *)
theory RSP_Safety
  imports RSP_Parser
begin

text \<open>
  Safety of the parser on arbitrary packets: whatever the bytes, every scanner returns (or
  ends in one of the two deliberate aborts of the code), the position stays inside the
  message, the packet is not changed, every loop ends, and no load leaves the buffer,
  provided that the buffer extends four bytes beyond the packet.
\<close>

section \<open>The contract\<close>

text \<open>
  While a packet of \<open>n\<close> bytes at the start of the buffer \<open>b\<close> is being parsed. The position
  never falls below \<open>q\<close>, where the part of the parser in question was entered. The number of
  pool elements found so far is in \<open>Z\<close>: the scanners of single parameters do not change it.
\<close>

definition parsing :: "nat \<Rightarrow> byte list \<Rightarrow> nat \<Rightarrow> nat set \<Rightarrow> RSerPoolMessage \<Rightarrow> bool" where
  "parsing q b n Z m \<longleftrightarrow> Buffer m = b \<and> BufferSize m = n \<and> n + 4 \<le> length b \<and> length b < 2 ^ 62
     \<and> q \<le> Position m \<and> Position m \<le> n \<and> PoolElementPtrArraySize m \<in> Z \<and> length (ph_Handle (Handle m)) = MAX_POOLHANDLESIZE"

definition aborts :: "fault set" where
  "aborts = {CheckAbort, FatalLog}"

definition safeAt ::
  "nat \<Rightarrow> byte list \<Rightarrow> nat \<Rightarrow> nat set \<Rightarrow> ('a \<Rightarrow> RSerPoolMessage \<Rightarrow> bool) \<Rightarrow> fault + ('a \<times> RSerPoolMessage) \<Rightarrow> bool" where
  "safeAt q b n Z Q x \<longleftrightarrow> (case x of Inl e \<Rightarrow> e \<in> aborts | Inr (r, m) \<Rightarrow> parsing q b n Z m \<and> Q r m)"

definition safe :: "nat \<Rightarrow> byte list \<Rightarrow> nat \<Rightarrow> nat set \<Rightarrow> ('a \<Rightarrow> bool) \<Rightarrow> 'a cfun \<Rightarrow> bool" where
  "safe q b n Z R f \<longleftrightarrow> meets (parsing q b n Z) aborts f (\<lambda>r m. parsing q b n Z m \<and> R r)"

lemma safe_safeAt: "safe q b n Z R f \<longleftrightarrow> (\<forall>m. parsing q b n Z m \<longrightarrow> safeAt q b n Z (\<lambda>r _. R r) (f m))"
  by (auto simp: safe_def meets_def safeAt_def split: sum.splits)

lemma safeD: "safe q b n Z R f \<Longrightarrow> parsing q b n Z m \<Longrightarrow> safeAt q b n Z (\<lambda>r _. R r) (f m)"
  by (simp add: safe_safeAt)

lemma safeI: "(\<And>m. parsing q b n Z m \<Longrightarrow> safeAt q b n Z (\<lambda>r _. R r) (f m)) \<Longrightarrow> safe q b n Z R f"
  by (simp add: safe_safeAt)

lemma safeAt_simps [simp]:
  "safeAt q b n Z Q (Inr (r, m)) \<longleftrightarrow> parsing q b n Z m \<and> Q r m"
  "safeAt q b n Z Q (Inl e) \<longleftrightarrow> e = CheckAbort \<or> e = FatalLog"
  by (simp_all add: safeAt_def aborts_def)

lemma safeAt_bindC:
  assumes "safeAt q b n Z Q (f m)" and "\<And>r m1. parsing q b n Z m1 \<Longrightarrow> Q r m1 \<Longrightarrow> safeAt q b n Z Q' (g r m1)"
  shows "safeAt q b n Z Q' (bindC f g m)"
proof (cases "f m")
  case (Inl e)
  then show ?thesis using assms(1) by (simp add: bindC_def)
next
  case (Inr x)
  then show ?thesis using assms by (cases x) (simp add: bindC_def)
qed

lemma safeAt_if:
  "(c \<Longrightarrow> safeAt q b n Z Q (f m)) \<Longrightarrow> (\<not> c \<Longrightarrow> safeAt q b n Z Q (g m)) \<Longrightarrow> safeAt q b n Z Q ((if c then f else g) m)"
  by simp

lemma safeAt_option:
  "(x = None \<Longrightarrow> safeAt q b n Z Q (f m)) \<Longrightarrow> (\<And>a. x = Some a \<Longrightarrow> safeAt q b n Z Q (g a m)) \<Longrightarrow>
     safeAt q b n Z Q ((case x of None \<Rightarrow> f | Some a \<Rightarrow> g a) m)"
  by (cases x) simp_all

lemma safeAt_prod:
  "(\<And>x y. p = (x, y) \<Longrightarrow> safeAt q b n Z Q (f x y m)) \<Longrightarrow> safeAt q b n Z Q ((case p of (x, y) \<Rightarrow> f x y) m)"
  by (cases p) simp

lemma safe_weaken: "safe q b n Z R f \<Longrightarrow> (\<And>r. R r \<Longrightarrow> S r) \<Longrightarrow> safe q b n Z S f"
  unfolding safe_def by (erule meets_post) auto

lemma safeAt_weaken: "safeAt q b n Z Q x \<Longrightarrow> (\<And>r m. Q r m \<Longrightarrow> Q' r m) \<Longrightarrow> safeAt q b n Z Q' x"
  by (auto simp: safeAt_def split: sum.splits)

lemma safe_bindC:
  assumes "safe q b n Z R f" and "\<And>r. R r \<Longrightarrow> safe q b n Z S (g r)"
  shows "safe q b n Z S (bindC f g)"
  unfolding safe_def
proof (rule meets_bindC)
  show "meets (parsing q b n Z) aborts f (\<lambda>r m. parsing q b n Z m \<and> R r)"
    using assms(1) by (simp add: safe_def)
  show "meets (\<lambda>m. parsing q b n Z m \<and> R a) aborts (g a) (\<lambda>r m. parsing q b n Z m \<and> S r)" for a
    using assms(2) [of a] by (auto simp: safe_def meets_def)
qed

lemma safe_returnC: "R r \<Longrightarrow> safe q b n Z R (returnC r)"
  by (simp add: safe_safeAt)

lemma safe_if: "(c \<Longrightarrow> safe q b n Z R f) \<Longrightarrow> (\<not> c \<Longrightarrow> safe q b n Z R g) \<Longrightarrow> safe q b n Z R (if c then f else g)"
  by simp

lemma safe_option:
  "(x = None \<Longrightarrow> safe q b n Z R f) \<Longrightarrow> (\<And>a. x = Some a \<Longrightarrow> safe q b n Z R (g a)) \<Longrightarrow>
     safe q b n Z R (case x of None \<Rightarrow> f | Some a \<Rightarrow> g a)"
  by (cases x) simp_all

lemma safe_prod: "(\<And>x y. p = (x, y) \<Longrightarrow> safe q b n Z R (f x y)) \<Longrightarrow> safe q b n Z R (case p of (x, y) \<Rightarrow> f x y)"
  by (cases p) simp

lemma safe_stmts:
  assumes "\<And>p. p \<in> set ps \<Longrightarrow> safe q b n Z (\<lambda>_. True) p"
  shows "safe q b n Z (\<lambda>_. True) (stmts ps)"
  using assms meets_stmts [of ps "parsing q b n Z" aborts] by (simp add: safe_def)

lemma parsing_update [simp]:
  "parsing q b n Z (m\<lparr>Error := e\<rparr>) = parsing q b n Z m"
  "parsing q b n Z (m\<lparr>Flags := fl\<rparr>) = parsing q b n Z m"
  "parsing q b n Z (m\<lparr>OffendingParameterTLV := o1\<rparr>) = parsing q b n Z m"
  "parsing q b n Z (m\<lparr>OffendingParameterTLVLength := o2\<rparr>) = parsing q b n Z m"
  "parsing q b n Z (m\<lparr>Type := ty\<rparr>) = parsing q b n Z m"
  "parsing q b n Z (m\<lparr>Identifier := i\<rparr>) = parsing q b n Z m"
  "parsing q b n Z (m\<lparr>Checksum := c\<rparr>) = parsing q b n Z m"
  "parsing q b n Z (m\<lparr>OperationErrorCode := oc\<rparr>) = parsing q b n Z m"
  "parsing q b n Z (m\<lparr>OperationErrorData := od\<rparr>) = parsing q b n Z m"
  "parsing q b n Z (m\<lparr>OperationErrorLength := ol\<rparr>) = parsing q b n Z m"
  "parsing q b n Z (m\<lparr>CookiePtr := cp\<rparr>) = parsing q b n Z m"
  "parsing q b n Z (m\<lparr>CookieSize := cs\<rparr>) = parsing q b n Z m"
  "parsing q b n Z (m\<lparr>Addresses := as\<rparr>) = parsing q b n Z m"
  "parsing q b n Z (m\<lparr>RegistrarIdentifier := ri\<rparr>) = parsing q b n Z m"
  "parsing q b n Z (m\<lparr>SenderID := si\<rparr>) = parsing q b n Z m"
  "parsing q b n Z (m\<lparr>ReceiverID := re\<rparr>) = parsing q b n Z m"
  "parsing q b n Z (m\<lparr>Action := ac\<rparr>) = parsing q b n Z m"
  "parsing q b n Z (m\<lparr>PoolElementPtr := pe\<rparr>) = parsing q b n Z m"
  "parsing q b n Z (m\<lparr>PoolElementPtrArray := pa\<rparr>) = parsing q b n Z m"
  "parsing q b n Z (m\<lparr>PolicySettings := ps\<rparr>) = parsing q b n Z m"
  "parsing q b n Z (m\<lparr>PeerListNodePtr := pn\<rparr>) = parsing q b n Z m"
  by (simp_all add: parsing_def)

lemma parsing_handle: "parsing q b n Z m \<Longrightarrow> length (ph_Handle h) = MAX_POOLHANDLESIZE \<Longrightarrow> parsing q b n Z (m\<lparr>Handle := h\<rparr>)"
  by (simp add: parsing_def)

section \<open>Primitives\<close>

text \<open>The length field of a TLV or message header at offset \<open>p\<close>.\<close>

definition lengthAt :: "byte list \<Rightarrow> nat \<Rightarrow> nat" where
  "lengthAt b p = unat (ntohs_at 2 (field p 4 b))"

lemma lengthAt_less: "lengthAt b p < 2 ^ 16"
proof -
  have "unat (ntohs_at 2 (field p 4 b)) < 2 ^ LENGTH(16)" by (rule unsigned_less)
  then show ?thesis by (simp add: lengthAt_def)
qed

lemma getSpace_parsing:
  "parsing q b n Z m \<Longrightarrow> k < 2 ^ 63 \<Longrightarrow> getSpace k m = (r, m') \<Longrightarrow> parsing q b n Z m'"
  by (auto simp: parsing_def getSpace_def uadd_small split: if_splits)

lemma getSpace_any:
  "parsing q b n Z m \<Longrightarrow> getSpace k m = (r, m') \<Longrightarrow> parsing 0 b n Z m' \<and> (r = None \<longrightarrow> m' = m)"
  by (auto simp: parsing_def getSpace_def split: if_splits)

lemma parsing_raise: "parsing 0 b n Z m \<Longrightarrow> q \<le> Position m \<Longrightarrow> parsing q b n Z m"
  by (simp add: parsing_def)

lemma getSpace_small:
  "parsing q b n Z m \<Longrightarrow> k < 2 ^ 63 \<Longrightarrow>
     getSpace k m = (if Position m + k \<le> n then (Some (Position m), m\<lparr>Position := Position m + k\<rparr>)
                     else (None, m))"
  by (simp add: parsing_def getSpace_def uadd_small)

lemma takeSpace_small:
  "parsing q b n Z m \<Longrightarrow> k < 2 ^ 63 \<Longrightarrow>
     takeSpace k m = (if Position m + k \<le> n
       then Inr (Some (field (Position m) k b), m\<lparr>Position := Position m + k\<rparr>)
       else Inr (None, m))"
  unfolding takeSpace_def by (simp add: getSpace_small) (simp add: readBytes_def parsing_def field_def)

lemma safe_takeSpace: "k < 2 ^ 63 \<Longrightarrow> safe q b n Z (\<lambda>_. True) (takeSpace k)"
  by (rule safeI) (auto simp: takeSpace_small parsing_def)

lemma safe_failWith: "R r \<Longrightarrow> safe q b n Z R (failWith e r)"
  by (rule safeI) (simp add: failWith_def)

lemma safe_loadAt: "p \<le> n \<Longrightarrow> k \<le> 4 \<Longrightarrow> safe q b n Z (\<lambda>_. True) (loadAt p k)"
  by (rule safeI) (auto simp: loadAt_def readBytes_def parsing_def)

lemma loadAt_parsing: "parsing q b n Z m \<Longrightarrow> p \<le> n \<Longrightarrow> k \<le> 4 \<Longrightarrow> loadAt p k m = Inr (field p k b, m)"
  by (simp add: loadAt_def readBytes_def parsing_def field_def)

lemma safe_loadHere: "k \<le> 4 \<Longrightarrow> safe q b n Z (\<lambda>_. True) (loadHere k)"
  by (rule safeI) (auto simp: loadHere_def loadAt_def readBytes_def parsing_def)

lemma safe_modifyC: "(\<And>m. parsing q b n Z m \<Longrightarrow> parsing q b n Z (f m)) \<Longrightarrow> safe q b n Z (\<lambda>_. True) (modifyC f)"
  by (rule safeI) (simp add: modifyC_def)

section \<open>Headers\<close>

text \<open>What \<open>getNextTLV\<close> returns, in terms of the bytes of the packet.\<close>

lemma getNextTLV_parsing:
  assumes "parsing q b n Z m"
  shows "getNextTLV t l m =
    (let p = Position m; len = lengthAt b p; type = ntohs_at 0 (field p 4 b);
         m1 = m\<lparr>OffendingParameterTLV := Some p, OffendingParameterTLVLength := 0\<rparr>;
         m2 = m1\<lparr>Position := p + 4\<rparr> in
     if n < p + 4 then Inr ((False, p, t, l), m1\<lparr>Error := RSPERR_INVALID_MESSAGE\<rparr>)
     else if n < p + len \<or> len < 4 then Inr ((False, p, type, len), m2\<lparr>Error := RSPERR_INVALID_TLV\<rparr>)
     else Inr ((True, p, type, len), m2\<lparr>OffendingParameterTLVLength := len\<rparr>))"
proof -
  have n: "n < 2 ^ 63" and p: "Position m \<le> n" using assms by (auto simp: parsing_def)
  have "usub (uadd (Position m + 4) (lengthAt b (Position m))) 4 = Position m + lengthAt b (Position m)"
    using n p lengthAt_less [of b "Position m"] by (simp add: uadd_small usub_small)
  then show ?thesis
    using assms
    by (simp add: getNextTLV_def bindC_def takeSpace_small Let_def failWith_def lengthAt_def)
       (auto simp: parsing_def)
qed

lemma getNextTLV_next:
  assumes "parsing q b n Z m" and "getNextTLV t l m = Inr ((ok, pos, type, len), m')"
  shows "parsing q b n Z m'" "pos = Position m" "Position m \<le> Position m'"
    "ok \<Longrightarrow> len = lengthAt b pos \<and> 4 \<le> len \<and> pos + len \<le> n \<and> Position m' = pos + 4"
    "len \<noteq> l \<Longrightarrow> len = lengthAt b pos \<and> Position m' = pos + 4"
  using assms(2) unfolding getNextTLV_parsing [OF assms(1)]
  using assms(1) by (auto simp: Let_def parsing_def split: if_splits)

lemma getNextTLV_returns:
  assumes "parsing q b n Z m"
  obtains ok pos type len m' where "getNextTLV t l m = Inr ((ok, pos, type, len), m')"
proof -
  have "\<exists>x m'. getNextTLV t l m = Inr (x, m')"
    unfolding getNextTLV_parsing [OF assms] Let_def by auto
  then show thesis using that by (metis prod_cases4)
qed

text \<open>
  \<open>handleUnknownTLV\<close> on a TLV whose header has been read: skipping it moves to its end,
  stopping moves back to its start.
\<close>

lemma getSpace_back:
  assumes m: "parsing q b n Z m" and p: "4 \<le> Position m" and l: "l < 2 ^ 16"
  shows "getSpace (usub l 4) m = (if Position m + l - 4 \<le> n then (Some (Position m), m\<lparr>Position := Position m + l - 4\<rparr>)
                                  else (None, m))"
proof (cases "4 \<le> l")
  case True
  then have "usub l 4 = l - 4" using l by (simp add: usub_small)
  then show ?thesis using getSpace_small [OF m, of "l - 4"] True l by simp
next
  case False
  have "uadd (Position m) (usub l 4) = Position m - (4 - l)"
    by (rule uadd_usub_back) (use m p False in \<open>auto simp: parsing_def\<close>)
  then show ?thesis using m p False by (auto simp: getSpace_def parsing_def)
qed

lemma handleUnknownTLV_parsing:
  assumes m: "parsing q b n Z m" and p: "q + 4 \<le> Position m" and l: "l < 2 ^ 16"
  obtains ok m' where "handleUnknownTLV t l m = Inr (ok, m')" "parsing q b n Z m'" "ok \<Longrightarrow> Position m' = Position m + l - 4"
proof -
  have bk: "usub (Position m) 4 = Position m - 4" using m p by (intro usub_small) (auto simp: parsing_def)
  have g: "getSpace (usub l 4) m = (if Position m + l - 4 \<le> n then (Some (Position m), m\<lparr>Position := Position m + l - 4\<rparr>)
                                  else (None, m))"
    using getSpace_back [OF m _ l] p by simp
  have at: "parsing q b n Z (m\<lparr>Position := x\<rparr>)" "parsing q b n Z (m\<lparr>Position := x, Error := e\<rparr>)"
    if "q \<le> x" "x \<le> n" for x e
    using m that by (simp_all add: parsing_def)
  have "Position m \<le> n" using m by (simp add: parsing_def)
  then have "\<exists>ok m'. handleUnknownTLV t l m = Inr (ok, m') \<and> parsing q b n Z m' \<and> (ok \<longrightarrow> Position m' = Position m + l - 4)"
    using p m by (cases "Position m + l - 4 \<le> n") (simp_all add: handleUnknownTLV_def bk failWith_def g at ex_bool_eq)
  then show thesis using that by blast
qed

text \<open>
  The loop of \<open>checkBeginTLV\<close> returns when there is fuel for the bytes that are left; the
  position of the TLV it reports is inside the packet.
\<close>

lemma checkBeginTLVLoop_safe:
  "parsing q b n Z m \<Longrightarrow> n < Position m + fuel \<Longrightarrow> l < 2 ^ 16 \<Longrightarrow>
     safeAt q b n Z (\<lambda>(len, pos) _. Position m \<le> pos \<and> pos \<le> n \<and> len < 2 ^ 16)
       (checkBeginTLVLoop fuel e c t l m)"
proof (induction fuel arbitrary: m t l)
  case 0
  then show ?case by (simp add: parsing_def)
next
  case (Suc fuel)
  obtain ok pos type len m1 where g: "getNextTLV t l m = Inr ((ok, pos, type, len), m1)"
    using getNextTLV_returns [OF Suc.prems(1)] .
  note next1 = getNextTLV_next [OF Suc.prems(1) g]
  have pos: "pos \<le> n" using Suc.prems(1) next1(2) by (simp add: parsing_def)
  have len: "len < 2 ^ 16" using next1(5) lengthAt_less [of b pos] Suc.prems(3) by (cases "len = l") auto
  show ?case
  proof (cases "ok \<and> c \<and> PURE_ATT_TYPE type \<noteq> e")
    case False
    then show ?thesis using next1 pos len by (auto simp: bindC_def g)
  next
    case True
    then have len4: "4 \<le> len" and p1: "Position m1 = pos + 4" using next1 by auto
    have "q + 4 \<le> Position m1" using p1 next1(2) Suc.prems(1) by (simp add: parsing_def)
    then obtain known m2 where h: "handleUnknownTLV type len m1 = Inr (known, m2)" "parsing q b n Z m2"
      "known \<Longrightarrow> Position m2 = Position m1 + len - 4"
      using handleUnknownTLV_parsing [OF next1(1) _ len, of type] by metis
    show ?thesis
    proof (cases known)
      case False
      then show ?thesis using True h next1 pos by (simp add: bindC_def g)
    next
      case True
      then have p2: "Position m2 = pos + len" using h(3) p1 len4 by simp
      then have "n < Position m2 + fuel" using Suc.prems(2) next1(2) len4 by simp
      note ih = Suc.IH [OF h(2) this len, of type]
      have "safeAt q b n Z (\<lambda>(l', pos) _. Position m \<le> pos \<and> pos \<le> n \<and> l' < 2 ^ 16)
              (checkBeginTLVLoop fuel e c type len m2)"
        by (rule safeAt_weaken [OF ih]) (use p2 next1(2) in auto)
      then show ?thesis using True \<open>ok \<and> c \<and> PURE_ATT_TYPE type \<noteq> e\<close> h(1)
        by (simp add: bindC_def g)
    qed
  qed
qed

lemma safe_checkBeginTLV: "safe q b n Z (\<lambda>(len, pos). pos \<le> n \<and> len < 2 ^ 16) (checkBeginTLV e c)"
proof (rule safeI)
  fix m assume m: "parsing q b n Z m"
  then have "n < Position m + Suc (BufferSize m)" by (simp add: parsing_def)
  from checkBeginTLVLoop_safe [OF m this]
  show "safeAt q b n Z (\<lambda>r _. case r of (len, pos) \<Rightarrow> pos \<le> n \<and> len < 2 ^ 16) (checkBeginTLV e c m)"
    unfolding checkBeginTLV_def by (rule safeAt_weaken) auto
qed

text \<open>Without a type check the loop looks at one TLV only.\<close>

lemma checkBeginTLV_any:
  assumes "parsing q b n Z m"
  shows "safeAt q b n Z (\<lambda>(len, pos) m'. pos = Position m \<and>
           (len \<noteq> 0 \<longrightarrow> len = lengthAt b pos \<and> Position m' = pos + 4)) (checkBeginTLV e False m)"
proof -
  obtain ok pos type len m1 where g: "getNextTLV 0 0 m = Inr ((ok, pos, type, len), m1)"
    using getNextTLV_returns [OF assms] .
  then show ?thesis
    using getNextTLV_next [OF assms g] by (cases ok) (simp_all add: checkBeginTLV_def bindC_def g)
qed

text \<open>A TLV is finished exactly at the end of its padding.\<close>

lemma checkFinishTLV_end:
  assumes "parsing q b n Z m" and "pos \<le> n"
  shows "safeAt q b n Z (\<lambda>ok m'. (ok \<longrightarrow> Position m' = pos + lengthAt b pos + getPadding (lengthAt b pos) 4) \<and>
             (\<not> ok \<longrightarrow> Position m' = Position m \<and>
                (pos + lengthAt b pos + getPadding (lengthAt b pos) 4 < Position m \<or>
                 n < pos + lengthAt b pos + getPadding (lengthAt b pos) 4)))
           (checkFinishTLV pos m)"
proof -
  let ?e = "pos + lengthAt b pos + getPadding (lengthAt b pos) 4"
  have e: "?e - Position m < 2 ^ 63"
    using assms lengthAt_less [of b pos] getPadding4_less [of "lengthAt b pos"]
    by (auto simp: parsing_def)
  note simps = checkFinishTLV_def bindC_def loadAt_parsing [OF assms] Let_def
    lengthAt_def [symmetric] failWith_def
  show ?thesis
  proof (cases "Position m < ?e")
    case True
    have g: "getSpace (?e - Position m) m =
        (if Position m + (?e - Position m) \<le> n
         then (Some (Position m), m\<lparr>Position := Position m + (?e - Position m)\<rparr>) else (None, m))"
      by (rule getSpace_small [OF assms(1) e])
    show ?thesis
      using True assms by (simp add: simps g) (auto simp: parsing_def)
  next
    case False
    then show ?thesis using assms by (simp add: simps)
  qed
qed

lemma safe_checkFinishTLV: "pos \<le> n \<Longrightarrow> safe q b n Z (\<lambda>_. True) (checkFinishTLV pos)"
  by (rule safeI) (auto intro: safeAt_weaken [OF checkFinishTLV_end])

lemma safeAt_handleUnknownTLV:
  "parsing q b n Z m \<Longrightarrow> q + 4 \<le> Position m \<Longrightarrow> l < 2 ^ 16 \<Longrightarrow> safeAt q b n Z (\<lambda>_ _. True) (handleUnknownTLV t l m)"
  by (erule (2) handleUnknownTLV_parsing [where t = t and l = l]) simp

section \<open>Addresses and transports\<close>

text \<open>Steps of the proofs about a given state.\<close>

lemma safeAt_bind_safe:
  "parsing q b n Z m \<Longrightarrow> safe q b n Z R f \<Longrightarrow> (\<And>r m1. parsing q b n Z m1 \<Longrightarrow> R r \<Longrightarrow> safeAt q b n Z Q (g r m1)) \<Longrightarrow>
     safeAt q b n Z Q (bindC f g m)"
  by (rule safeAt_bindC, erule (1) safeD) blast

lemma safeAt_bind_take:
  "parsing q b n Z m \<Longrightarrow> k < 2 ^ 63 \<Longrightarrow> (\<And>r m1. parsing q b n Z m1 \<Longrightarrow> safeAt q b n Z Q (g r m1)) \<Longrightarrow>
     safeAt q b n Z Q (bindC (takeSpace k) g m)"
  by (erule safeAt_bind_safe, erule safe_takeSpace) blast

lemma safeAt_bind_load:
  "parsing q b n Z m \<Longrightarrow> p \<le> n \<Longrightarrow> k \<le> 4 \<Longrightarrow> safeAt q b n Z Q (g (field p k b) m) \<Longrightarrow>
     safeAt q b n Z Q (bindC (loadAt p k) g m)"
  by (simp add: bindC_def loadAt_parsing)

lemma safeAt_bind_unknown:
  "parsing q b n Z m \<Longrightarrow> q + 4 \<le> Position m \<Longrightarrow> l < 2 ^ 16 \<Longrightarrow> (\<And>r m1. parsing q b n Z m1 \<Longrightarrow> safeAt q b n Z Q (g r m1)) \<Longrightarrow>
     safeAt q b n Z Q (bindC (handleUnknownTLV t l) g m)"
  by (rule safeAt_bindC, erule (2) safeAt_handleUnknownTLV, blast)

lemma safeAt_bind_finish:
  "parsing q b n Z m \<Longrightarrow> pos \<le> n \<Longrightarrow>
     (\<And>ok m1. parsing q b n Z m1 \<Longrightarrow>
        (ok \<Longrightarrow> Position m1 = pos + lengthAt b pos + getPadding (lengthAt b pos) 4) \<Longrightarrow> safeAt q b n Z Q (g ok m1)) \<Longrightarrow>
     safeAt q b n Z Q (bindC (checkFinishTLV pos) g m)"
  by (rule safeAt_bindC, erule (1) checkFinishTLV_end) blast

lemma safeAt_bind_any:
  "parsing q b n Z m \<Longrightarrow>
     (\<And>len m1. parsing q b n Z m1 \<Longrightarrow> (len \<noteq> 0 \<Longrightarrow> len = lengthAt b (Position m) \<and> Position m1 = Position m + 4) \<Longrightarrow>
        safeAt q b n Z Q (g (len, Position m) m1)) \<Longrightarrow>
     safeAt q b n Z Q (bindC (checkBeginTLV e False) g m)"
  by (rule safeAt_bindC, erule checkBeginTLV_any) auto

lemma safeAt_fail: "parsing q b n Z m \<Longrightarrow> Q r (m\<lparr>Error := e\<rparr>) \<Longrightarrow> safeAt q b n Z Q (failWith e r m)"
  by (simp add: failWith_def)

lemma safeAt_return: "parsing q b n Z m \<Longrightarrow> Q r m \<Longrightarrow> safeAt q b n Z Q (returnC r m)"
  by simp

lemmas safeAt_steps = safeAt_bind_take safeAt_bind_load safeAt_bind_unknown safeAt_bind_finish
  safeAt_bind_any safeAt_fail safeAt_return safeAt_if safeAt_option safeAt_prod

text \<open>
  \<open>scanAddressParameter\<close> reduces the length by the header and \<open>handleUnknownTLV\<close> does so again. The
  difference may wrap, so that the position moves back, even before a TLV whose length is less
  than four; the check of the end of the TLV moves it forward again.
\<close>

lemma handleUnknownTLV_any:
  assumes m: "parsing q b n Z m" and p: "q + 4 \<le> Position m"
  obtains ok m' where "handleUnknownTLV t l m = Inr (ok, m')" "parsing 0 b n Z m'" "\<not> ok \<Longrightarrow> parsing q b n Z m'"
proof -
  have bk: "usub (Position m) 4 = Position m - 4" using m p by (intro usub_small) (auto simp: parsing_def)
  have "parsing q b n Z (m\<lparr>Position := Position m - 4, Error := e\<rparr>)" for e using m p by (auto simp: parsing_def)
  moreover have "parsing 0 b n Z x" if "parsing q b n Z x" for x using that by (simp add: parsing_def)
  moreover obtain r m1 where g: "getSpace (usub l 4) m = (r, m1)" by (cases "getSpace (usub l 4) m")
  moreover note getSpace_any [OF m g]
  ultimately have "\<exists>ok m'. handleUnknownTLV t l m = Inr (ok, m') \<and> parsing 0 b n Z m' \<and> (\<not> ok \<longrightarrow> parsing q b n Z m')"
    using m by (cases r) (simp_all add: handleUnknownTLV_def bk failWith_def ex_bool_eq)
  then show thesis using that by blast
qed

lemma unknown_address:
  assumes m: "parsing q b n Z m" and p: "Position m = pos + 4" "q \<le> pos" and l: "0 < lengthAt b pos"
  shows "safeAt q b n Z (\<lambda>r m'. r \<noteq> None \<longrightarrow> pos < Position m')
    (bindC (handleUnknownTLV t (usub (lengthAt b pos) 4)) (\<lambda>known.
       if \<not> known then returnC None
       else bindC (checkFinishTLV pos) (\<lambda>ok. returnC (if ok then Some a else None))) m)"
proof (cases "4 \<le> lengthAt b pos")
  case True
  have "pos \<le> n" using m p by (simp add: parsing_def)
  moreover have "usub (lengthAt b pos) 4 < 2 ^ 16" using True lengthAt_less [of b pos] by (simp add: usub_small)
  ultimately show ?thesis using m p True by (auto intro!: safeAt_steps)
next
  case False
  have n: "pos + 4 \<le> n" using m p by (simp add: parsing_def)
  have "lengthAt b pos \<in> {1, 2, 3}" using False l by auto
  then have e: "pos + lengthAt b pos + getPadding (lengthAt b pos) 4 = pos + 4" by (auto simp: getPadding_def)
  obtain known m1 where h: "handleUnknownTLV t (usub (lengthAt b pos) 4) m = Inr (known, m1)" "parsing 0 b n Z m1"
      "\<not> known \<Longrightarrow> parsing q b n Z m1"
    using handleUnknownTLV_any [OF m] p by (metis add_le_mono1)
  show ?thesis
  proof (cases known)
    case False
    then show ?thesis using h by (simp add: bindC_def)
  next
    case True
    have f: "safeAt 0 b n Z (\<lambda>ok m'. q \<le> Position m' \<and> (ok \<longrightarrow> pos < Position m')) (checkFinishTLV pos m1)"
      by (rule safeAt_weaken [OF checkFinishTLV_end [OF h(2)]]) (use n p in \<open>auto simp: e\<close>)
    then show ?thesis
      using h True by (cases "checkFinishTLV pos m1") (auto simp: bindC_def intro: parsing_raise)
  qed
qed

text \<open>An address that is read leaves the position behind where it was.\<close>

lemma scanAddressParameter_advances:
  assumes m: "parsing q b n Z m"
  shows "safeAt q b n Z (\<lambda>r m'. r \<noteq> None \<longrightarrow> Position m < Position m') (scanAddressParameter port m)"
proof -
  have pn: "Position m \<le> n" "q \<le> Position m" using m by (simp_all add: parsing_def)
  have other: "safeAt q b n Z (\<lambda>r m'. r \<noteq> None \<longrightarrow> Position m < Position m')
    (bindC (handleUnknownTLV t (usub l 4)) (\<lambda>known.
       if \<not> known then returnC None
       else bindC (checkFinishTLV (Position m)) (\<lambda>ok. returnC (if ok then Some a else None))) m1)"
    if "parsing q b n Z m1" "Position m1 = Position m + 4" "l = lengthAt b (Position m)" "0 < l" for t l a m1
    using unknown_address [OF that(1,2) pn(2)] that(3,4) by simp
  show ?thesis
    unfolding scanAddressParameter_def Let_def
    by (rule safeAt_bind_any [OF m]) (auto intro!: other [simplified] safeAt_bind_take safeAt_bind_load safeAt_bind_finish safeAt_fail
          safeAt_return safeAt_if safeAt_option simp: pn)
qed

lemma scanTransportAddresses_safe:
  "parsing q b n Z m \<Longrightarrow> n < Position m + fuel \<Longrightarrow>
     safeAt q b n Z (\<lambda>_ _. True) (scanTransportAddresses fuel t port e as m)"
proof (induction fuel arbitrary: m as)
  case 0
  then show ?case by (simp add: parsing_def)
next
  case (Suc fuel)
  have step: "safeAt q b n Z (\<lambda>_ _. True)
      (bindR (getScope (gLogLevel m1) a) (\<lambda>scope. scanTransportAddresses fuel t port e (f scope) m1))"
    if "parsing q b n Z m1" "Position m < Position m1" for m1 a f
    using Suc.IH [OF that(1)] Suc.prems(2) that(2)
    by (cases a) (simp_all add: getScope_def LOG_END_FATAL_def)
  have "safeAt q b n Z (\<lambda>_ _. True)
      (bindC (scanAddressParameter port) (\<lambda>r. case r of
              None \<Rightarrow> failWith 0 (Some as)
            | Some address \<Rightarrow> (\<lambda>m1.
                bindR (getScope (gLogLevel m1) address) (\<lambda>scope.
                scanTransportAddresses fuel t port e
                  (if scope > AS_UNICAST_LINKLOCAL then as @ [address] else as) m1))) m)"
    by (rule safeAt_bindC [where f = "scanAddressParameter port"],
        rule scanAddressParameter_advances [OF Suc.prems(1)])
       (auto intro!: safeAt_option safeAt_fail step)
  then show ?case using Suc.prems(1) by (simp add: failWith_def)
qed

lemma scanTransportKind_safe:
  assumes "parsing q b n Z m" "q + 4 \<le> Position m" "l < 2 ^ 16"
  shows "safeAt q b n Z (\<lambda>_ _. True) (scanTransportKind t l m)"
  unfolding scanTransportKind_def using assms by (auto intro!: safeAt_steps)

text \<open>A transport that is read leaves the position behind where it was.\<close>

lemma scanTransportParameter_advances:
  assumes m: "parsing q b n Z m"
  shows "safeAt q b n Z (\<lambda>(ok, w) m'. ok \<longrightarrow> Position m < Position m' \<and> w \<noteq> None) (scanTransportParameter m)"
proof -
  have pn: "Position m \<le> n" "q \<le> Position m" "lengthAt b (Position m) - 4 < 65536"
    using m lengthAt_less [of b "Position m"] by (simp_all add: parsing_def)
  have kind: "safeAt q b n Z Q (bindC (scanTransportKind t l) g m1)"
    if "parsing q b n Z m1" "Position m1 = Position m + 4" "l < 2 ^ 16"
      "\<And>r m2. parsing q b n Z m2 \<Longrightarrow> safeAt q b n Z Q (g r m2)" for m1 t l g Q
    by (rule safeAt_bindC [where f = "scanTransportKind t l"], rule scanTransportKind_safe)
       (use that pn in auto)
  have addrs: "safeAt q b n Z Q
      (bindC (\<lambda>m1. scanTransportAddresses (Suc (BufferSize m1)) t port e as m1) g m1)"
    if "parsing q b n Z m1" "\<And>r m2. parsing q b n Z m2 \<Longrightarrow> safeAt q b n Z Q (g r m2)" for m1 t port e as g Q
    by (rule safeAt_bindC [where f = "\<lambda>m1. scanTransportAddresses (Suc (BufferSize m1)) t port e as m1"],
        rule scanTransportAddresses_safe) (use that in \<open>auto simp: parsing_def\<close>)
  show ?thesis
    unfolding scanTransportParameter_def Let_def
    by (rule safeAt_bind_any [OF m])
       (auto intro!: kind addrs safeAt_steps simp: pn simp del: scanTransportAddresses.simps)
qed

lemma safe_scanTransportParameter: "safe q b n Z (\<lambda>_. True) scanTransportParameter"
  by (rule safeI) (auto intro: safeAt_weaken [OF scanTransportParameter_advances])

section \<open>The other parameters\<close>

text \<open>Steps of the proofs about whole functions.\<close>

lemma safe_bind_begin:
  "(\<And>len pos. pos \<le> n \<Longrightarrow> len < 2 ^ 16 \<Longrightarrow> safe q b n Z R (g (len, pos))) \<Longrightarrow> safe q b n Z R (bindC (checkBeginTLV e c) g)"
  by (rule safe_bindC [OF safe_checkBeginTLV]) auto

lemma safe_bind_take:
  "k < 2 ^ 63 \<Longrightarrow> (\<And>r. safe q b n Z R (g r)) \<Longrightarrow> safe q b n Z R (bindC (takeSpace k) g)"
  by (rule safe_bindC [OF safe_takeSpace])

lemma safe_bind_transport:
  "(\<And>r. safe q b n Z R (g r)) \<Longrightarrow> safe q b n Z R (bindC scanTransportParameter g)"
  by (rule safe_bindC [OF safe_scanTransportParameter])

lemma safe_bind_finish:
  "pos \<le> n \<Longrightarrow> (\<And>r. safe q b n Z R (g r)) \<Longrightarrow> safe q b n Z R (bindC (checkFinishTLV pos) g)"
  by (rule safe_bindC [OF safe_checkFinishTLV])

lemma safe_bind_here:
  "k \<le> 4 \<Longrightarrow> (\<And>r. safe q b n Z R (g r)) \<Longrightarrow> safe q b n Z R (bindC (loadHere k) g)"
  by (rule safe_bindC [OF safe_loadHere])

lemma safe_bind_modify:
  "(\<And>m. parsing q b n Z m \<Longrightarrow> parsing q b n Z (f m)) \<Longrightarrow> safe q b n Z R g \<Longrightarrow> safe q b n Z R (bindC (modifyC f) (\<lambda>_. g))"
  by (rule safe_bindC [OF safe_modifyC])

lemma safe_bind_if:
  "(\<And>r. safe q b n Z R (g r)) \<Longrightarrow> safe q b n Z (\<lambda>_. True) f1 \<Longrightarrow> safe q b n Z (\<lambda>_. True) f2 \<Longrightarrow>
     safe q b n Z R (bindC (if c then f1 else f2) g)"
  by (rule safe_bindC [of _ _ _ _ "\<lambda>_. True"]) simp_all

lemma safe_bind_return: "safe q b n Z R (g r) \<Longrightarrow> safe q b n Z R (bindC (returnC r) g)"
  by (rule safe_bindC [of _ _ _ _ "\<lambda>x. x = r"]) (simp_all add: safe_returnC)

lemmas safe_steps = safe_bind_return safe_bind_begin safe_bind_take safe_bind_transport safe_bind_finish safe_bind_here
  safe_bind_modify safe_bind_if safe_if safe_option safe_prod safe_returnC safe_failWith
  safe_checkFinishTLV safe_scanTransportParameter

lemma safe_scanPolicyParameter: "safe q b n Z (\<lambda>_. True) (scanPolicyParameter s)"
proof -
  have c: "safe q b n Z (\<lambda>_. True) (scanPolicyCase l k ne se f)" if "k \<le> 5" for l k ne se f
    unfolding scanPolicyCase_def using that by (auto intro!: safe_steps)
  note policy_defs = scanPolicy_LEASTUSED_def scanPolicy_LEASTUSED_DPF_def
    scanPolicy_LEASTUSED_DEGRADATION_def scanPolicy_LEASTUSED_DEGRADATION_DPF_def
    scanPolicy_PRIORITY_LEASTUSED_def scanPolicy_PRIORITY_LEASTUSED_DEGRADATION_def
    scanPolicy_RANDOM_def scanPolicy_WEIGHTED_RANDOM_def scanPolicy_WEIGHTED_RANDOM_DPF_def
    scanPolicy_ROUNDROBIN_def scanPolicy_WEIGHTED_ROUNDROBIN_def scanPolicy_PRIORITY_def
    scanPolicy_RANDOMIZED_LEASTUSED_def scanPolicy_RANDOMIZED_LEASTUSED_DEGRADATION_def
    scanPolicy_RANDOMIZED_PRIORITY_LEASTUSED_def scanPolicy_RANDOMIZED_PRIORITY_LEASTUSED_DEGRADATION_def
  have sw: "safe q b n Z (\<lambda>_. True) (scanPolicySwitch t l)" for t l
    unfolding scanPolicySwitch_def policy_defs by (intro safe_if c safe_failWith) simp_all
  have sb: "(\<And>r. safe q b n Z R (g r)) \<Longrightarrow> safe q b n Z R (bindC (scanPolicySwitch t l) g)" for R t l
    and g :: "bool \<times> PoolPolicySettings \<Rightarrow> (bool \<times> PoolPolicySettings) cfun"
    by (rule safe_bindC [OF sw])
  show ?thesis
    unfolding scanPolicyParameter_def Let_def by (auto intro!: safe_steps sb)
qed

lemma safe_bind_policy:
  "(\<And>r. safe q b n Z R (g r)) \<Longrightarrow> safe q b n Z R (bindC (scanPolicyParameter s) g)"
  by (rule safe_bindC [OF safe_scanPolicyParameter])

lemma safe_scanPoolElementParameter: "safe q b n Z (\<lambda>_. True) (scanPoolElementParameter rt hr)"
proof -
  have last: "safe q b n Z (\<lambda>_. True) (\<lambda>m. if \<not> gMemory m then failWith e None m
      else case transportAddressBlockDuplicate (gMemory m) ut of
             None \<Rightarrow> failWith e' None m | Some nut \<Rightarrow> Inr (Some (f nut (gMemory m)), m))"
    for e e' ut and f :: "TransportAddressBlock \<Rightarrow> bool \<Rightarrow> PoolElementNode"
    by (rule safeI) (auto simp: failWith_def split: option.splits)
  show ?thesis
    unfolding scanPoolElementParameter_def by (auto intro!: safe_steps safe_bind_policy last)
qed

lemma safe_scanPoolHandleParameter: "safe q b n Z (\<lambda>_. True) scanPoolHandleParameter"
proof -
  have last: "safe q b n Z (\<lambda>_. True) (\<lambda>m.
       bindR (poolHandleNew (Handle (if c then m\<lparr>Error := e\<rparr> else m)) h l) (\<lambda>h.
         checkFinishTLV pos ((if c then m\<lparr>Error := e\<rparr> else m)\<lparr>Handle := h\<rparr>)))"
    if "pos \<le> n" for c e h l pos
  proof (rule safeI)
    fix m assume m: "parsing q b n Z m"
    then have "length (ph_Handle (Handle m)) = MAX_POOLHANDLESIZE" by (simp add: parsing_def)
    then show "safeAt q b n Z (\<lambda>_ _. True) (bindR (poolHandleNew (Handle (if c then m\<lparr>Error := e\<rparr> else m)) h l) (\<lambda>h.
         checkFinishTLV pos ((if c then m\<lparr>Error := e\<rparr> else m)\<lparr>Handle := h\<rparr>)))"
      using m by (auto simp: poolHandleNew_def CHECK_def intro!: safeD [OF safe_checkFinishTLV [OF that]] parsing_handle)
  qed
  show ?thesis
    unfolding scanPoolHandleParameter_def Let_def by (auto intro!: safe_steps last)
qed

lemma safe_scanPoolElementIdentifierParameter: "safe q b n Z (\<lambda>_. True) scanPoolElementIdentifierParameter"
  unfolding scanPoolElementIdentifierParameter_def Let_def by (auto intro!: safe_steps)

lemma safe_scanHandlespaceChecksumParameter: "safe q b n Z (\<lambda>_. True) scanHandlespaceChecksumParameter"
  unfolding scanHandlespaceChecksumParameter_def Let_def by (auto intro!: safe_steps)

lemma safe_scanErrorParameter: "safe q b n Z (\<lambda>_. True) scanErrorParameter"
proof -
  have last: "safe q b n Z (\<lambda>_. True) (\<lambda>m. case getSpace k m of
         (None, m1) \<Rightarrow> Inr (False, m1)
       | (Some data, m1) \<Rightarrow>
           checkFinishTLV pos (m1\<lparr>OperationErrorData := Some data, OperationErrorLength := k\<rparr>))"
    if "pos \<le> n" "k < 65536" for k pos
    using getSpace_parsing [of q b n Z _ k] that(2)
    by (intro safeI) (auto split: prod.splits option.splits
        intro!: safeD [OF safe_checkFinishTLV [OF that(1)]])
  have "unat (ntohs_at 2 r) - 4 < 65536" for r
  proof -
    have "unat (ntohs_at 2 r) < 2 ^ LENGTH(16)" by (rule unsigned_less)
    then show ?thesis by simp
  qed
  then show ?thesis
    unfolding scanErrorParameter_def Let_def by (auto intro!: safe_steps last)
qed

lemma safe_scanCookieParameter: "safe q b n Z (\<lambda>_. True) scanCookieParameter"
proof -
  have last: "safe q b n Z (\<lambda>_. True) (\<lambda>m. if gMemory m
      then Inr (True, m\<lparr>CookiePtr := Some c, CookieSize := l\<rparr>)
      else failWith e False (m\<lparr>CookiePtr := None\<rparr>))" for c l e
    by (rule safeI) (simp add: failWith_def)
  show ?thesis
    unfolding scanCookieParameter_def Let_def by (auto intro!: safe_steps last)
qed

lemma safe_scanServerInformationParameter: "safe q b n Z (\<lambda>_. True) scanServerInformationParameter"
proof -
  have last: "safe q b n Z (\<lambda>_. True) (\<lambda>m. if \<not> gMemory m then failWith e None m
      else case transportAddressBlockDuplicate (gMemory m) blk of
             None \<Rightarrow> failWith e' None m
           | Some nb \<Rightarrow> bindC (checkFinishTLV pos) (\<lambda>fin. returnC (f fin nb)) m)"
    if "pos \<le> n" for e e' blk pos and f :: "bool \<Rightarrow> TransportAddressBlock \<Rightarrow> PeerListNode option"
    by (rule safeI) (auto intro!: safeAt_steps that split: option.splits)
  show ?thesis
    unfolding scanServerInformationParameter_def Let_def by (auto intro!: safe_steps last)
qed

lemma safe_scanHandleResolutionParameter: "safe q b n Z (\<lambda>_. True) scanHandleResolutionParameter"
  unfolding scanHandleResolutionParameter_def Let_def by (auto intro!: safe_steps)

section \<open>Messages\<close>

lemmas safe_parameters = safe_scanPoolHandleParameter safe_scanPoolElementIdentifierParameter
  safe_scanHandlespaceChecksumParameter safe_scanErrorParameter safe_scanCookieParameter
  safe_scanServerInformationParameter safe_scanHandleResolutionParameter safe_scanPoolElementParameter

lemma safe_assign: "(\<And>m. parsing q b n Z m \<Longrightarrow> parsing q b n Z (f m)) \<Longrightarrow> safe q b n Z (\<lambda>_. True) (\<lambda>m. Inr (r, f m))"
  by (rule safeI) simp

lemma safe_optionalC:
  "safe q b n Z (\<lambda>_. True) p \<Longrightarrow> (\<And>m. parsing q b n Z m \<Longrightarrow> parsing q b n Z (f m)) \<Longrightarrow>
     safe q b n Z (\<lambda>_. True) (optionalC p f)"
  unfolding optionalC_def by (erule safe_bindC) (rule safeI, simp)

lemma safe_scanRegistrarIdentifier: "safe q b n Z (\<lambda>_. True) scanRegistrarIdentifier"
  unfolding scanRegistrarIdentifier_def by (auto intro!: safe_steps safe_assign)

lemma safe_scanServerParameter: "safe q b n Z (\<lambda>_. True) scanServerParameter"
  unfolding scanServerParameter_def by (auto intro!: safe_steps safe_assign)

lemma safe_scanTargetParameter: "safe q b n Z (\<lambda>_. True) scanTargetParameter"
  unfolding scanTargetParameter_def by (auto intro!: safe_steps safe_assign)

lemma safe_scanErrorIfMore: "safe q b n Z (\<lambda>_. True) scanErrorIfMore"
  by (rule safeI) (simp add: scanErrorIfMore_def safeD [OF safe_scanErrorParameter])

lemma safe_scanOwnPolicy: "safe q b n Z (\<lambda>_. True) scanOwnPolicy"
  unfolding scanOwnPolicy_def
  by (rule safeI) (auto intro!: safeAt_bind_safe [OF _ safe_scanPolicyParameter])

lemma safe_scanOwnServerInformation: "safe q b n Z (\<lambda>_. True) scanOwnServerInformation"
  unfolding scanOwnServerInformation_def
  by (rule safe_bindC [OF safe_scanServerInformationParameter]) (rule safeI, simp)

lemmas safe_items = safe_parameters safe_optionalC safe_scanRegistrarIdentifier safe_scanServerParameter
  safe_scanTargetParameter safe_scanErrorIfMore safe_scanOwnPolicy safe_scanOwnServerInformation

text \<open>The number of elements bounds the two loops over pool elements.\<close>

lemma parsing_size: "parsing q b n UNIV m \<Longrightarrow> parsing q b n {PoolElementPtrArraySize m} m"
  by (simp add: parsing_def)

lemma parsing_any_size [simp]: "parsing q b n UNIV (m\<lparr>PoolElementPtrArraySize := z\<rparr>) = parsing q b n UNIV m"
  by (simp add: parsing_def)

lemma safeAt_bind_element:
  assumes m: "parsing q b n UNIV m"
    and g: "\<And>pe m1. parsing q b n UNIV m1 \<Longrightarrow> PoolElementPtrArraySize m1 = PoolElementPtrArraySize m \<Longrightarrow>
      safeAt q b n UNIV Q (g pe m1)"
  shows "safeAt q b n UNIV Q (bindC (scanPoolElementParameter rt hr) g m)"
proof -
  have "safeAt q b n {PoolElementPtrArraySize m} (\<lambda>_ _. True) (scanPoolElementParameter rt hr m)"
    by (rule safeD [OF safe_scanPoolElementParameter parsing_size [OF m]])
  moreover have "parsing q b n UNIV m1 \<and> PoolElementPtrArraySize m1 = PoolElementPtrArraySize m"
    if "parsing q b n {PoolElementPtrArraySize m} m1" for m1 using that by (simp add: parsing_def)
  ultimately show ?thesis
    using g by (cases "scanPoolElementParameter rt hr m") (auto simp: bindC_def)
qed

lemma bindC_modifyC: "bindC (modifyC f) g m = g () (f m)"
  by (simp add: bindC_def modifyC_def)

lemma safe_scanPoolElements:
  "parsing q b n UNIV m \<Longrightarrow> PoolElementPtrArraySize m \<le> 128 \<Longrightarrow> 128 < PoolElementPtrArraySize m + fuel \<Longrightarrow>
     safeAt q b n UNIV (\<lambda>_ _. True) (scanPoolElements fuel m)"
proof (induction fuel arbitrary: m)
  case (Suc fuel)
  show ?case
    using Suc.prems by (auto intro!: safeAt_bind_element Suc.IH simp: bindC_modifyC)
qed simp

lemma safe_scanCardElements:
  "parsing q b n UNIV m \<Longrightarrow> PoolElementPtrArraySize m \<le> 128 \<Longrightarrow> 128 < PoolElementPtrArraySize m + fuel \<Longrightarrow>
     safeAt q b n UNIV (\<lambda>_ _. True) (scanCardElements fuel m)"
proof (induction fuel arbitrary: m)
  case (Suc fuel)
  show ?case
    using Suc.prems by (auto intro!: safeAt_bind_element Suc.IH)
qed simp

lemma scanAnnouncedTransports_safe:
  "parsing q b n Z m \<Longrightarrow> n < Position m + fuel \<Longrightarrow>
     safeAt q b n Z (\<lambda>_ _. True) (scanAnnouncedTransports fuel blk m)"
proof (induction fuel arbitrary: m blk)
  case 0
  then show ?case by (simp add: parsing_def)
next
  case (Suc fuel)
  show ?case
    unfolding scanAnnouncedTransports.simps Let_def
    by (rule safeAt_bindC [where f = scanTransportParameter],
        rule scanTransportParameter_advances [OF Suc.prems(1)])
       (use Suc.prems in \<open>auto intro!: safeAt_if Suc.IH\<close>)
qed

lemma safe_scanServerAnnounceMessage: "safe q b n Z (\<lambda>_. True) scanServerAnnounceMessage"
proof -
  have 1: "safe q b n Z (\<lambda>_. True) (\<lambda>m. scanAnnouncedTransports (Suc (BufferSize m)) None m)"
    by (rule safeI, rule scanAnnouncedTransports_safe) (simp_all add: parsing_def)
  have 2: "safe q b n Z (\<lambda>_. True) (announcedTransport blk)" for blk
    by (rule safeI)
       (auto simp: announcedTransport_def getPort_def LOG_END_FATAL_def split: option.splits sockaddr_union.splits)
  have 3: "safe q b n Z (\<lambda>_. True) (\<lambda>m. if gMemory m then Inr (True, m\<lparr>PeerListNodePtr := f m\<rparr>)
      else failWith e False (m\<lparr>PeerListNodePtr := None\<rparr>))" for f e
    by (rule safeI) (simp add: failWith_def)
  show ?thesis
    unfolding scanServerAnnounceMessage_def
    by (rule safe_stmts)
       (auto intro!: safe_scanRegistrarIdentifier safe_bindC [OF 1] safe_bindC [OF 2] 3 safe_assign
          safe_bindC [OF safe_scanServerInformationParameter] safe_option
        simp del: scanAnnouncedTransports.simps)
qed

lemma safe_scanHandleResolutionResponseMessage:
  "safe q b n UNIV (\<lambda>_. True) scanHandleResolutionResponseMessage"
proof -
  have "safe q b n UNIV (\<lambda>_. True) (\<lambda>m. scanPoolElements 129 (m\<lparr>PoolElementPtrArraySize := 0\<rparr>))"
    by (rule safeI, rule safe_scanPoolElements) simp_all
  then show ?thesis
    unfolding scanHandleResolutionResponseMessage_def
    by (auto intro!: safe_stmts safe_items safe_bindC [OF safe_scanErrorParameter] safe_if safe_returnC
        simp del: scanPoolElements.simps)
qed

lemma safe_scanBusinessCardMessage: "safe q b n UNIV (\<lambda>_. True) scanBusinessCardMessage"
proof -
  have "safe q b n UNIV (\<lambda>_. True) (\<lambda>m. scanCardElements 129 (m\<lparr>PoolElementPtrArraySize := 0\<rparr>))"
    by (rule safeI, rule safe_scanCardElements) simp_all
  moreover have "safe q b n UNIV (\<lambda>_. True)
      (\<lambda>m. if PoolElementPtrArraySize m = 0 then failWith e False m else Inr (True, m))" for e
    by (rule safeI) (simp add: failWith_def)
  ultimately show ?thesis
    unfolding scanBusinessCardMessage_def
    by (auto intro!: safe_stmts safe_items simp del: scanCardElements.simps)
qed

lemma safe_element_message:
  assumes "\<And>pe. safe q b n Z (\<lambda>_. True) (g pe)"
  shows "safe q b n Z (\<lambda>_. True) (bindC (scanPoolElementParameter rt hr) (\<lambda>pe.
           bindC (modifyC (\<lambda>m. m\<lparr>PoolElementPtr := pe\<rparr>)) (\<lambda>_. g pe)))"
  by (auto intro!: safe_bindC [OF safe_scanPoolElementParameter] safe_bind_modify assms)

lemma safe_scanRegistrationMessage: "safe q b n Z (\<lambda>_. True) scanRegistrationMessage"
  unfolding scanRegistrationMessage_def
  by (auto intro!: safe_stmts safe_items safe_element_message safe_steps)

lemma safe_scanHandleUpdateMessage: "safe q b n Z (\<lambda>_. True) scanHandleUpdateMessage"
  unfolding scanHandleUpdateMessage_def
  by (auto intro!: safe_stmts safe_items safe_element_message safe_steps safe_assign)

text \<open>The remaining messages are sequences of parameters.\<close>

lemma safe_scanMessages:
  "safe q b n Z (\<lambda>_. True) scanEndpointKeepAliveMessage"
  "safe q b n Z (\<lambda>_. True) scanEndpointKeepAliveAckMessage"
  "safe q b n Z (\<lambda>_. True) scanEndpointUnreachableMessage"
  "safe q b n Z (\<lambda>_. True) scanDeregistrationMessage"
  "safe q b n Z (\<lambda>_. True) scanRegistrationResponseMessage"
  "safe q b n Z (\<lambda>_. True) scanDeregistrationResponseMessage"
  "safe q b n Z (\<lambda>_. True) scanHandleResolutionMessage"
  "safe q b n Z (\<lambda>_. True) scanCookieMessage"
  "safe q b n Z (\<lambda>_. True) scanCookieEchoMessage"
  "safe q b n Z (\<lambda>_. True) scanPresenceMessage"
  "safe q b n Z (\<lambda>_. True) scanListRequestMessage"
  "safe q b n Z (\<lambda>_. True) scanHandleTableRequestMessage"
  "safe q b n Z (\<lambda>_. True) scanInitTakeoverMessage"
  "safe q b n Z (\<lambda>_. True) scanInitTakeoverAckMessage"
  "safe q b n Z (\<lambda>_. True) scanTakeoverServerMessage"
  "safe q b n Z (\<lambda>_. True) scanENRPErrorMessage"
  "safe q b n Z (\<lambda>_. True) scanASAPErrorMessage"
  unfolding scanEndpointKeepAliveMessage_def scanEndpointKeepAliveAckMessage_def
    scanEndpointUnreachableMessage_def scanDeregistrationMessage_def
    scanRegistrationResponseMessage_def scanDeregistrationResponseMessage_def
    scanHandleResolutionMessage_def scanCookieMessage_def scanCookieEchoMessage_def
    scanPresenceMessage_def scanListRequestMessage_def scanHandleTableRequestMessage_def
    scanInitTakeoverMessage_def scanInitTakeoverAckMessage_def scanTakeoverServerMessage_def
    scanENRPErrorMessage_def scanASAPErrorMessage_def
  by (auto intro!: safe_stmts safe_items)

end
