(* ===== verification/RSP_Wire.thy ===== *)
theory RSP_Wire
  imports RSP_Parser
begin

text \<open>
  The wire format as a specification: the bytes of every parameter, as a function of the
  value it carries (\<open>enc_...\<close>), independent of the buffer handling of the code. The
  creation functions write exactly these bytes when there is space for them.
\<close>

unbundle bit_operations_syntax

section \<open>TLVs\<close>

definition tlv :: "u16 \<Rightarrow> byte list \<Rightarrow> byte list" where
  "tlv type body =
     be16 type @ be16 (of_nat (4 + length body)) @ body @ replicate (getPadding (4 + length body) 4) 0"

definition enc_handle :: "PoolHandle \<Rightarrow> byte list" where
  "enc_handle h = tlv ATT_POOL_HANDLE (ph_bytes h)"

text \<open>An IPv4 address mapped to IPv6 is sent as the IPv4 address.\<close>

definition enc_address :: "sockaddr_union \<Rightarrow> byte list" where
  "enc_address a =
     (case a of
        SA_in p x \<Rightarrow> tlv ATT_IPv4_ADDRESS (be32 x)
      | SA_in6 p f x s \<Rightarrow> if IN6_IS_ADDR_V4MAPPED x then tlv ATT_IPv4_ADDRESS (be32 (ucast x))
                         else tlv ATT_IPv6_ADDRESS (be_bytes 16 x)
      | SA_other fam \<Rightarrow> [])"

definition transportUse :: "TransportAddressBlock \<Rightarrow> u16" where
  "transportUse b =
     (if tab_Protocol b = IPPROTO_UDP then 0
      else if tab_Flags b AND TABF_CONTROLCHANNEL \<noteq> 0 then UTP_DATA_PLUS_CONTROL else UTP_DATA_ONLY)"

definition enc_transport :: "TransportAddressBlock \<Rightarrow> byte list" where
  "enc_transport b =
     tlv (the (transportType (tab_Protocol b)))
       (be16 (tab_Port b) @ be16 (transportUse b) @ concat (map enc_address (tab_AddressArray b)))"

definition enc_policy :: "PoolPolicySettings \<Rightarrow> byte list" where
  "enc_policy s = tlv ATT_POOL_POLICY (concat (map be32 (the (policyWords s))))"

definition enc_element :: "bool \<Rightarrow> PoolElementNode \<Rightarrow> byte list" where
  "enc_element withRegistrator pe =
     tlv ATT_POOL_ELEMENT
       (be32 (pen_Identifier pe) @ be32 (pen_HomeRegistrarIdentifier pe) @ be32 (pen_RegistrationLife pe) @
        enc_transport (the (pen_UserTransport pe)) @ enc_policy (pen_PolicySettings pe) @
        (if withRegistrator then enc_transport (the (pen_RegistratorTransport pe)) else []))"

definition enc_identifier :: "u32 \<Rightarrow> byte list" where
  "enc_identifier i = tlv ATT_POOL_ELEMENT_IDENTIFIER (be32 i)"

definition enc_checksum :: "u16 \<Rightarrow> byte list" where
  "enc_checksum c = tlv ATT_POOL_ELEMENT_CHECKSUM (he16 c)"

definition enc_error :: "u16 \<Rightarrow> byte list \<Rightarrow> byte list" where
  "enc_error cause d = tlv ATT_OPERATION_ERROR (be16 cause @ be16 (of_nat (4 + length d)) @ d)"

definition enc_cookie :: "byte list \<Rightarrow> byte list" where
  "enc_cookie c = tlv ATT_COOKIE c"

definition enc_server :: "PeerListNode \<Rightarrow> byte list" where
  "enc_server n = tlv ATT_SERVER_INFORMATION (be32 (pln_Identifier n) @ enc_transport (the (pln_AddressBlock n)))"

definition enc_items :: "nat \<Rightarrow> byte list" where
  "enc_items items = tlv (ATT_HANDLE_RESOLUTION OR ATT_ACTION_CONTINUE) (be32 (of_nat items))"

text \<open>The body of a message under its header, padded like a TLV.\<close>

definition enc_message :: "u32 \<Rightarrow> byte \<Rightarrow> byte list \<Rightarrow> byte list" where
  "enc_message type flags body =
     [ucast (type AND 0xff), flags] @ be16 (of_nat (4 + length body)) @ body @
     replicate (getPadding (4 + length body) 4) 0"

lemma length_tlv: "length (tlv type body) = 4 + length body + getPadding (4 + length body) 4"
  by (simp add: tlv_def)

lemma length_tlv_dvd: "4 dvd length (tlv type body)"
  unfolding length_tlv by (rule getPadding4_aligned)

section \<open>Writing\<close>

text \<open>\<open>writes f bs\<close>: whenever there is space, \<open>f\<close> succeeds and appends exactly \<open>bs\<close>.\<close>

definition writes :: "bool cfun \<Rightarrow> byte list \<Rightarrow> bool" where
  "writes f bs \<longleftrightarrow> (\<forall>m. fits (length bs) m \<longrightarrow> f m = Inr (True, emit bs m))"

lemma writesD: "writes f bs \<Longrightarrow> fits (length bs) m \<Longrightarrow> f m = Inr (True, emit bs m)"
  by (simp add: writes_def)

lemma writes_putSpace: "writes (putSpace bs) bs"
  by (simp add: writes_def putSpace_fits)

lemma writes_nothing: "writes (\<lambda>m. Inr (True, m)) []"
  by (simp add: writes_def)

lemma stmts_writes:
  assumes "writes f xs" and "fits (length xs) m"
  shows "stmts (f # fs) m = stmts fs (emit xs m)"
  using assms by (simp add: writes_def)

lemma writes_stmts_cons:
  assumes "writes f xs" and "writes (stmts fs) ys"
  shows "writes (stmts (f # fs)) (xs @ ys)"
  unfolding writes_def
proof (intro allI impI)
  fix m assume m: "fits (length (xs @ ys)) m"
  then have "fits (length xs) m" and "fits (length ys) (emit xs m)"
    by (auto intro: fits_mono fits_emit)
  then show "stmts (f # fs) m = Inr (True, emit (xs @ ys) m)"
    using assms by (simp add: writes_def emit_emit)
qed

lemma writes_stmts_nil: "writes (stmts []) []"
  by (simp add: writes_def)

text \<open>The header is patched with the length and the padding is written.\<close>

lemma padSpace_fits: "fits k m \<Longrightarrow> padSpace k m = Inr (emit (replicate k 0) m)"
  by (simp add: padSpace_def getSpace_fits writeBytes_def emit_def advance_def fits_def)

lemma patch_emit:
  assumes "fits (length (xs @ zs @ ys)) m" and "length zs' = length zs"
  shows "writeBytes (Position m + length xs) zs' (emit (xs @ zs @ ys) m)
           = Inr (emit (xs @ zs' @ ys) m)"
proof -
  have "Position m + length xs + length zs + length ys \<le> length (Buffer m)"
    using assms(1) by (simp add: fits_def)
  then show ?thesis
    using assms overlay_inside [of "Position m" xs zs ys "Buffer m" zs']
    by (simp add: writeBytes_def emit_def)
qed

lemma finishTLV_emit:
  assumes "fits (length (tlv type body)) m"
  shows "finishTLV (Position m) (emit (be16 type @ [0xff, 0xff] @ body) m)
           = Inr (True, emit (tlv type body) m)"
proof -
  let ?l = "4 + length body"
  have f: "fits (length (be16 type @ [0xff, 0xff] @ body)) m"
    using assms by (rule fits_mono) (simp add: length_tlv)
  have f': "fits (length (be16 type @ be16 (of_nat ?l) @ body)) m"
    using assms by (rule fits_mono) (simp add: length_tlv)
  have len: "usub (Position (emit (be16 type @ [0xff, 0xff] @ body) m)) (Position m) = ?l"
    using f by (simp add: usub_small fits_def)
  have patch: "writeBytes (Position m + 2) (be16 (of_nat ?l)) (emit (be16 type @ [0xff, 0xff] @ body) m)
      = Inr (emit (be16 type @ be16 (of_nat ?l) @ body) m)"
    using patch_emit [OF f, of "be16 (of_nat ?l)"] by simp
  have pad: "padSpace (getPadding ?l 4) (emit (be16 type @ be16 (of_nat ?l) @ body) m)
      = Inr (emit (tlv type body) m)"
  proof -
    have "fits (getPadding ?l 4) (emit (be16 type @ be16 (of_nat ?l) @ body) m)"
      by (rule fits_emit, rule fits_mono [OF assms]) (simp add: length_tlv)
    then show ?thesis
      using emit_emit [OF f'] by (simp add: padSpace_fits tlv_def)
  qed
  have "4 \<le> BufferSize (emit (be16 type @ [0xff, 0xff] @ body) m)"
    using f by (simp add: fits_def)
  then show ?thesis
    unfolding finishTLV_def Let_def len by (simp only: patch pad bindR_simps if_True)
qed

lemma writes_tlv:
  assumes "writes (stmts fs) body"
  shows "writes (\<lambda>m. stmts (beginTLV type # fs @ [finishTLV (Position m)]) m) (tlv type body)"
  unfolding writes_def
proof (intro allI impI)
  fix m assume m: "fits (length (tlv type body)) m"
  then have fh: "fits (length (be16 type @ [0xff, 0xff])) m"
    by (rule fits_mono) (simp add: length_tlv)
  moreover have fb: "fits (length body) (emit (be16 type @ [0xff, 0xff]) m)"
    by (rule fits_emit, rule fits_mono [OF m]) (simp add: length_tlv)
  ultimately have "stmts (beginTLV type # fs @ [finishTLV (Position m)]) m
      = stmts [finishTLV (Position m)] (emit (be16 type @ [0xff, 0xff] @ body) m)"
    using assms
    by (simp add: beginTLV_def putSpace_fits stmts_append writesD emit_emit)
  then show "stmts (beginTLV type # fs @ [finishTLV (Position m)]) m = Inr (True, emit (tlv type body) m)"
    using finishTLV_emit [OF m] by simp
qed

lemmas writes_steps = writes_stmts_cons writes_stmts_nil writes_putSpace

section \<open>Parameters\<close>

lemma writes_copySpace: "n \<le> length bs \<Longrightarrow> writes (copySpace n (Some bs)) (take n bs)"
  unfolding writes_def
  by (auto simp: copySpace_def getSpace_fits writeBytes_def emit_def advance_def fits_def min_def)

lemma writes_handle: "ph_wf h \<Longrightarrow> writes (createPoolHandleParameter (Some h)) (enc_handle h)"
proof -
  assume "ph_wf h"
  then have "writes (stmts [copySpace (ph_Size h) (Some (ph_Handle h))]) (ph_bytes h)"
    using writes_stmts_cons [OF writes_copySpace writes_stmts_nil, of "ph_Size h" "ph_Handle h"]
    by (simp add: ph_wf_def ph_bytes_def)
  from writes_tlv [OF this, of ATT_POOL_HANDLE] show ?thesis
    by (simp add: enc_handle_def writes_def createPoolHandleParameter_def)
qed

text \<open>A parameter whose body is written by one \<open>putSpace\<close>.\<close>

lemma writes_tlv_put:
  "writes (\<lambda>m. stmts [beginTLV type, putSpace bs, finishTLV (Position m)] m) (tlv type bs)"
  using writes_tlv [of "[putSpace bs]" bs type] writes_stmts_cons [OF writes_putSpace writes_stmts_nil]
  by simp

lemma writes_address:
  assumes "inet a"
  shows "writes (createAddressParameter a) (enc_address a)"
proof (cases a)
  case (SA_in p x)
  then show ?thesis
    using writes_tlv_put [of ATT_IPv4_ADDRESS "be32 x"]
    by (simp add: enc_address_def writes_def createAddressParameter_def)
next
  case (SA_in6 p f x s)
  then show ?thesis
    using writes_tlv_put [of ATT_IPv4_ADDRESS "be32 (ucast x)"]
      writes_tlv_put [of ATT_IPv6_ADDRESS "be_bytes 16 x"]
    by (simp add: enc_address_def writes_def createAddressParameter_def)
qed (use assms in \<open>simp add: inet_def\<close>)

text \<open>
  The blocks that can be sent: one of the three protocols, IPv4 and IPv6 addresses, and
  several addresses for SCTP only.
\<close>

definition block_wf :: "TransportAddressBlock \<Rightarrow> bool" where
  "block_wf b \<longleftrightarrow> transportType (tab_Protocol b) \<noteq> None \<and> (\<forall>a \<in> set (tab_AddressArray b). inet a)
     \<and> (tab_Protocol b \<noteq> IPPROTO_SCTP \<longrightarrow> tab_Addresses b \<le> 1)"

lemma writes_addresses:
  assumes "\<forall>a \<in> set as. inet a" and "type \<noteq> ATT_SCTP_TRANSPORT \<longrightarrow> i + length as \<le> 1"
  shows "writes (createAddresses type i as) (concat (map enc_address as))"
  using assms
proof (induction as arbitrary: i)
  case Nil
  then show ?case by (simp add: writes_def)
next
  case (Cons a as)
  then have a: "writes (createAddressParameter a) (enc_address a)"
    and as: "writes (createAddresses type (Suc i) as) (concat (map enc_address as))"
    by (auto intro: writes_address)
  show ?case
    unfolding writes_def
  proof (intro allI impI)
    fix m assume m: "fits (length (concat (map enc_address (a # as)))) m"
    then have "fits (length (enc_address a)) m"
      and "fits (length (concat (map enc_address as))) (emit (enc_address a) m)"
      by (auto intro: fits_mono fits_emit)
    then show "createAddresses type i (a # as) m = Inr (True, emit (concat (map enc_address (a # as))) m)"
      using Cons.prems(2) by (auto simp: writesD [OF a] writesD [OF as] emit_emit)
  qed
qed

lemma writes_transport:
  assumes "block_wf b"
  shows "writes (createTransportParameter (Some b)) (enc_transport b)"
proof -
  obtain type where type: "transportType (tab_Protocol b) = Some type"
    using assms by (auto simp: block_wf_def)
  have sctp: "type = ATT_SCTP_TRANSPORT \<longleftrightarrow> tab_Protocol b = IPPROTO_SCTP"
    and udp: "type = ATT_UDP_TRANSPORT \<longleftrightarrow> tab_Protocol b = IPPROTO_UDP"
    using type by (auto simp: transportType_def split: if_splits)
  let ?hdr = "be16 (tab_Port b) @ be16 (transportUse b)"
  have "writes (stmts [putSpace ?hdr, createAddresses type 0 (tab_AddressArray b)])
          (?hdr @ concat (map enc_address (tab_AddressArray b)) @ [])"
    using assms sctp
    by (intro writes_stmts_cons writes_stmts_nil writes_putSpace writes_addresses) (auto simp: block_wf_def)
  from writes_tlv [OF this, of type] show ?thesis
    by (simp add: writes_def createTransportParameter_def type Let_def enc_transport_def udp
        transportUse_def cong: if_cong)
qed

lemma writes_policy:
  assumes "policyWords s \<noteq> None"
  shows "writes (createPolicyParameter (Some s)) (enc_policy s)"
proof -
  obtain ws where ws: "policyWords s = Some ws" using assms by auto
  show ?thesis
    using writes_tlv_put [of ATT_POOL_POLICY "concat (map be32 ws)"]
    by (simp add: createPolicyParameter_def enc_policy_def ws writes_def)
qed

definition element_wf :: "bool \<Rightarrow> PoolElementNode \<Rightarrow> bool" where
  "element_wf withRegistrator pe \<longleftrightarrow>
     (\<exists>b. pen_UserTransport pe = Some b \<and> block_wf b) \<and> policyWords (pen_PolicySettings pe) \<noteq> None \<and>
     (withRegistrator \<longrightarrow> (\<exists>b. pen_RegistratorTransport pe = Some b \<and> block_wf b))"

lemma writes_element:
  assumes "element_wf r pe"
  shows "writes (createPoolElementParameter (Some pe) r) (enc_element r pe)"
proof -
  obtain b where b: "pen_UserTransport pe = Some b" "block_wf b" using assms by (auto simp: element_wf_def)
  let ?hdr = "be32 (pen_Identifier pe) @ be32 (pen_HomeRegistrarIdentifier pe) @ be32 (pen_RegistrationLife pe)"
  let ?reg = "\<lambda>m1. if r then CHECK (pen_RegistratorTransport pe \<noteq> None) (\<lambda>_.
      createTransportParameter (pen_RegistratorTransport pe) m1) else Inr (True, m1)"
  have reg: "writes ?reg (if r then enc_transport (the (pen_RegistratorTransport pe)) else [])"
    using assms by (cases r) (auto simp: element_wf_def writes_def writesD [OF writes_transport])
  have "writes (stmts [putSpace ?hdr, createTransportParameter (pen_UserTransport pe),
           createPolicyParameter (Some (pen_PolicySettings pe)), ?reg])
          (?hdr @ enc_transport b @ enc_policy (pen_PolicySettings pe) @
           (if r then enc_transport (the (pen_RegistratorTransport pe)) else []) @ [])"
    unfolding b(1) using assms b
    by (intro writes_stmts_cons writes_stmts_nil writes_putSpace writes_transport writes_policy reg)
       (auto simp: element_wf_def)
  from writes_tlv [OF this, of ATT_POOL_ELEMENT] show ?thesis
    by (simp add: writes_def createPoolElementParameter_def enc_element_def b(1))
qed

lemma writes_identifier: "writes (createPoolElementIdentifierParameter i) (enc_identifier i)"
  using writes_tlv_put [of ATT_POOL_ELEMENT_IDENTIFIER "be32 i"]
  by (simp add: writes_def createPoolElementIdentifierParameter_def enc_identifier_def)

lemma writes_checksum: "writes (createHandlespaceChecksumParameter c) (enc_checksum c)"
  using writes_tlv_put [of ATT_POOL_ELEMENT_CHECKSUM "he16 c"]
  by (simp add: writes_def createHandlespaceChecksumParameter_def enc_checksum_def)

lemma writes_cookie: "writes (createCookieParameter (Some c) (length c)) (enc_cookie c)"
  using writes_tlv [of "[copySpace (length c) (Some c)]" c ATT_COOKIE]
    writes_stmts_cons [OF writes_copySpace writes_stmts_nil, of "length c" c]
  by (simp add: writes_def createCookieParameter_def enc_cookie_def)

lemma writes_server:
  assumes "pln_AddressBlock n = Some b" "block_wf b"
  shows "writes (createServerInformationParameter (Some n)) (enc_server n)"
proof -
  have "writes (stmts [putSpace (be32 (pln_Identifier n)), createTransportParameter (Some b)])
          (be32 (pln_Identifier n) @ enc_transport b @ [])"
    by (intro writes_stmts_cons writes_stmts_nil writes_putSpace writes_transport assms)
  then have "writes (stmts [stmts [putSpace (be32 (pln_Identifier n)), createTransportParameter (Some b)]])
          (be32 (pln_Identifier n) @ enc_transport b)"
    using writes_stmts_cons [OF _ writes_stmts_nil] by fastforce
  from writes_tlv [OF this, of ATT_SERVER_INFORMATION] show ?thesis
    by (simp add: writes_def createServerInformationParameter_def enc_server_def assms(1) del: stmts.simps)
qed

lemma writes_items: "writes (createHandleResolutionParameter items) (enc_items items)"
proof -
  have "be32 0xffffffff = [0xff, 0xff, 0xff, 0xff]" by code_simp
  moreover have "(of_nat RSPGETADDRS_MAX :: u32) = 0xffffffff" by simp
  ultimately have "(if items = RSPGETADDRS_MAX then [0xff, 0xff, 0xff, 0xff] else be32 (of_nat items))
      = be32 (of_nat items)" by (simp only: split: if_splits) simp
  then show ?thesis
    using writes_tlv_put [of "ATT_HANDLE_RESOLUTION OR ATT_ACTION_CONTINUE" "be32 (of_nat items)"]
    by (simp only: writes_def createHandleResolutionParameter_def enc_items_def)
qed

section \<open>Messages\<close>

text \<open>
  The statements of a message read its fields, which writing does not change: \<open>content\<close> is
  the message without the buffer and the fields that writing sets.
\<close>

definition content :: "RSerPoolMessage \<Rightarrow> RSerPoolMessage" where
  "content m = m\<lparr>Buffer := [], Position := 0, PPID := 0\<rparr>"

definition writesFor :: "RSerPoolMessage \<Rightarrow> bool cfun \<Rightarrow> byte list \<Rightarrow> bool" where
  "writesFor m0 f bs \<longleftrightarrow>
     (\<forall>m. content m = content m0 \<longrightarrow> fits (length bs) m \<longrightarrow> f m = Inr (True, emit bs m))"

lemma content_emit [simp]: "content (emit bs m) = content m"
  by (simp add: content_def emit_def)

lemma content_PPID [simp]: "content (m\<lparr>PPID := p\<rparr>) = content m"
  by (simp add: content_def)

lemma content_eqD:
  assumes "content m = content m0"
  shows "Handle m = Handle m0" "Identifier m = Identifier m0" "Error m = Error m0"
    "RegistrarIdentifier m = RegistrarIdentifier m0" "SenderID m = SenderID m0"
    "ReceiverID m = ReceiverID m0" "Action m = Action m0" "Checksum m = Checksum m0"
    "PolicySettings m = PolicySettings m0" "Addresses m = Addresses m0"
    "CookiePtr m = CookiePtr m0" "CookieSize m = CookieSize m0" "PeerListNodePtr m = PeerListNodePtr m0"
    "PoolElementPtrArray m = PoolElementPtrArray m0"
    "PoolElementPtrArraySize m = PoolElementPtrArraySize m0"
    "ErrorCauseParameterTLV m = ErrorCauseParameterTLV m0"
    "ErrorCauseParameterTLVLength m = ErrorCauseParameterTLVLength m0"
proof -
  show "Handle m = Handle m0" "Identifier m = Identifier m0" "Error m = Error m0"
    "RegistrarIdentifier m = RegistrarIdentifier m0" "SenderID m = SenderID m0"
    "ReceiverID m = ReceiverID m0" "Action m = Action m0" "Checksum m = Checksum m0"
    "PolicySettings m = PolicySettings m0" "Addresses m = Addresses m0"
    "CookiePtr m = CookiePtr m0" "CookieSize m = CookieSize m0" "PeerListNodePtr m = PeerListNodePtr m0"
    "PoolElementPtrArray m = PoolElementPtrArray m0"
    "PoolElementPtrArraySize m = PoolElementPtrArraySize m0"
    "ErrorCauseParameterTLV m = ErrorCauseParameterTLV m0"
    "ErrorCauseParameterTLVLength m = ErrorCauseParameterTLVLength m0"
    using arg_cong [OF assms, of Handle] arg_cong [OF assms, of Identifier] arg_cong [OF assms, of Error]
      arg_cong [OF assms, of RegistrarIdentifier] arg_cong [OF assms, of SenderID]
      arg_cong [OF assms, of ReceiverID] arg_cong [OF assms, of Action] arg_cong [OF assms, of Checksum]
      arg_cong [OF assms, of PolicySettings] arg_cong [OF assms, of Addresses]
      arg_cong [OF assms, of CookiePtr] arg_cong [OF assms, of CookieSize]
      arg_cong [OF assms, of PeerListNodePtr] arg_cong [OF assms, of PoolElementPtrArray]
      arg_cong [OF assms, of PoolElementPtrArraySize] arg_cong [OF assms, of ErrorCauseParameterTLV]
      arg_cong [OF assms, of ErrorCauseParameterTLVLength]
    by (simp_all add: content_def)
qed

lemma writes_writesFor: "writes f bs \<Longrightarrow> writesFor m0 f bs"
  by (simp add: writes_def writesFor_def)

lemma writesFor_eq:
  assumes "\<And>m. content m = content m0 \<Longrightarrow> f m = g m" and "writes g bs"
  shows "writesFor m0 f bs"
  using assms by (simp add: writes_def writesFor_def)

lemma writesFor_nil: "writesFor m0 (stmts []) []"
  by (simp add: writesFor_def)

lemma writesFor_cons:
  assumes "writesFor m0 f xs" and "writesFor m0 (stmts fs) ys"
  shows "writesFor m0 (stmts (f # fs)) (xs @ ys)"
  unfolding writesFor_def
proof (intro allI impI)
  fix m assume c: "content m = content m0" and m: "fits (length (xs @ ys)) m"
  then have "fits (length xs) m" and "fits (length ys) (emit xs m)"
    by (auto intro: fits_mono fits_emit)
  then show "stmts (f # fs) m = Inr (True, emit (xs @ ys) m)"
    using assms c by (simp add: writesFor_def emit_emit)
qed

text \<open>A message is written at the start of the buffer.\<close>

lemma emit_PPID: "emit bs (m\<lparr>PPID := p\<rparr>) = (emit bs m)\<lparr>PPID := p\<rparr>"
  by (simp add: emit_def)

lemma fits_PPID [simp]: "fits k (m\<lparr>PPID := p\<rparr>) = fits k m"
  by (simp add: fits_def)

lemma beginMessage_fits:
  "fits 4 m \<Longrightarrow> beginMessage type flags ppid m
     = Inr (True, (emit ([ucast (type AND 0xff), flags] @ [0xff, 0xff]) m)\<lparr>PPID := ppid\<rparr>)"
  by (simp add: beginMessage_def getSpace_fits writeBytes_def emit_def advance_def fits_def)

lemma finishMessage_emit:
  assumes "fits (length (enc_message type flags body)) m" and "Position m = 0"
  shows "finishMessage (emit ([ucast (type AND 0xff), flags] @ [0xff, 0xff] @ body) m)
           = Inr (True, emit (enc_message type flags body) m)"
proof -
  let ?t = "[ucast (type AND 0xff), flags]" and ?l = "4 + length body"
  have len: "length (enc_message type flags body) = ?l + getPadding ?l 4"
    by (simp add: enc_message_def)
  have f: "fits (length (?t @ [0xff, 0xff] @ body)) m"
    by (rule fits_mono [OF assms(1)]) (simp add: len)
  have f': "fits (length (?t @ be16 (of_nat ?l) @ body)) m"
    by (rule fits_mono [OF assms(1)]) (simp add: len)
  have pos: "Position (emit (?t @ [0xff, 0xff] @ body) m) = ?l"
    using assms(2) by simp
  have patch: "writeBytes 2 (be16 (of_nat ?l)) (emit (?t @ [0xff, 0xff] @ body) m)
      = Inr (emit (?t @ be16 (of_nat ?l) @ body) m)"
    using patch_emit [OF f, of "be16 (of_nat ?l)"] assms(2) by (simp add: numeral_2_eq_2)
  have pad: "padSpace (getPadding ?l 4) (emit (?t @ be16 (of_nat ?l) @ body) m)
      = Inr (emit (enc_message type flags body) m)"
  proof -
    have "fits (getPadding ?l 4) (emit (?t @ be16 (of_nat ?l) @ body) m)"
      by (rule fits_emit, rule fits_mono [OF assms(1)]) (simp add: len)
    then show ?thesis
      using emit_emit [OF f'] by (simp add: padSpace_fits enc_message_def)
  qed
  have "4 \<le> BufferSize (emit (?t @ [0xff, 0xff] @ body) m)"
    using f by (simp add: fits_def)
  then show ?thesis
    unfolding finishMessage_def Let_def pos by (simp only: patch pad bindR_simps if_True)
qed

lemma finishMessage_PPID:
  "finishMessage (m\<lparr>PPID := p\<rparr>) = (case finishMessage m of Inl e \<Rightarrow> Inl e | Inr (r, m') \<Rightarrow> Inr (r, m'\<lparr>PPID := p\<rparr>))"
  by (simp add: finishMessage_def Let_def padSpace_def getSpace_def writeBytes_def bindR_def split: option.splits)

theorem message_written:
  assumes "writesFor m (stmts fs) body" and "fits (length (enc_message type flags body)) m"
    and "Position m = 0"
  shows "stmts (beginMessage type flags ppid # fs @ [finishMessage]) m
           = Inr (True, (emit (enc_message type flags body) m)\<lparr>PPID := ppid\<rparr>)"
proof -
  let ?h = "[ucast (type AND 0xff), flags] @ [0xff, 0xff]"
  have len: "length (enc_message type flags body) = 4 + length body + getPadding (4 + length body) 4"
    by (simp add: enc_message_def)
  have f4: "fits 4 m" by (rule fits_mono [OF assms(2)]) (simp add: len)
  have fb: "fits (length body) ((emit ?h m)\<lparr>PPID := ppid\<rparr>)"
    unfolding fits_PPID by (rule fits_emit, rule fits_mono [OF assms(2)]) (simp add: len)
  have "stmts fs ((emit ?h m)\<lparr>PPID := ppid\<rparr>) = Inr (True, (emit (?h @ body) m)\<lparr>PPID := ppid\<rparr>)"
  proof -
    have "emit body (emit ?h m) = emit (?h @ body) m"
      by (rule emit_emit) (use f4 in \<open>simp add: eval_nat_numeral\<close>)
    then show ?thesis using assms(1) fb by (simp add: writesFor_def emit_PPID)
  qed
  then show ?thesis
    using finishMessage_emit [OF assms(2,3)]
    by (simp add: beginMessage_fits [OF f4] stmts_append finishMessage_PPID)
qed

end
