(* ===== verification/RSP_Roundtrip.thy ===== *)
theory RSP_Roundtrip
  imports RSP_Wire
begin

text \<open>
  Reading what was written. Each scanner, started at the bytes the wire format prescribes
  for a value, returns that value and moves past them. The interface \<open>parameter_codec\<close>
  states what a creation function and a scanner promise together; it is interpreted for
  every parameter of the protocols, and the round trips follow from it.
\<close>

unbundle bit_operations_syntax

section \<open>Reading headers\<close>

text \<open>The message after a parameter of \<open>n\<close> bytes has been read to its end.\<close>

definition scanned :: "nat \<Rightarrow> RSerPoolMessage \<Rightarrow> RSerPoolMessage" where
  "scanned n m = m\<lparr>Position := Position m + n, OffendingParameterTLV := None, OffendingParameterTLVLength := 0\<rparr>"

text \<open>The message after the header of a TLV of length \<open>l\<close> has been read.\<close>

definition opened :: "nat \<Rightarrow> RSerPoolMessage \<Rightarrow> RSerPoolMessage" where
  "opened l m = m\<lparr>Position := Position m + 4, OffendingParameterTLV := Some (Position m),
                 OffendingParameterTLVLength := l\<rparr>"

lemma nextBytes_cong:
  "Buffer m' = Buffer m \<Longrightarrow> BufferSize m' = BufferSize m \<Longrightarrow> Position m' = Position m \<Longrightarrow>
     nextBytes m' bs = nextBytes m bs"
  by (simp add: nextBytes_def fits_def)

lemma scanned_simps [simp]:
  "Buffer (scanned n m) = Buffer m" "BufferSize (scanned n m) = BufferSize m"
  "Position (scanned n m) = Position m + n" "gMemory (scanned n m) = gMemory m"
  "gLogLevel (scanned n m) = gLogLevel m" "Handle (scanned n m) = Handle m"
  "scanned k (scanned n m) = scanned (n + k) m"
  by (simp_all add: scanned_def)

lemma opened_simps [simp]:
  "Buffer (opened n m) = Buffer m" "BufferSize (opened n m) = BufferSize m"
  "Position (opened n m) = Position m + 4" "gMemory (opened n m) = gMemory m"
  "gLogLevel (opened n m) = gLogLevel m" "Handle (opened n m) = Handle m"
  by (simp_all add: opened_def)

lemma nextBytes_scanned: "nextBytes (scanned n m) bs = nextBytes (advance n m) bs"
  by (rule nextBytes_cong) simp_all

lemma nextBytes_opened: "nextBytes (opened l m) bs = nextBytes (advance 4 m) bs"
  by (rule nextBytes_cong) simp_all

lemma ntohs_at_header:
  "ntohs_at 0 (be16 a @ xs) = a" "ntohs_at 2 (be16 a @ be16 b @ xs) = b" "ntohs_at 2 (be16 a @ be16 b) = b"
  by (simp_all add: ntohs_at_def field_append field_0 field_0_exact)

lemma nextBytes_tlv:
  "nextBytes m (tlv type body) \<Longrightarrow>
     nextBytes m (be16 type @ be16 (of_nat (4 + length body))) \<and> nextBytes (advance 4 m) body \<and>
     fits (length (tlv type body)) m"
proof -
  assume a: "nextBytes m (tlv type body)"
  then have "nextBytes m ((be16 type @ be16 (of_nat (4 + length body))) @ body @
      replicate (getPadding (4 + length body) 4) 0)" by (simp add: tlv_def)
  then show ?thesis
    using a unfolding nextBytes_append [of m "be16 type @ be16 (of_nat (4 + length body))"]
      nextBytes_append [of _ body] by (simp add: nextBytes_def)
qed

lemma unat_of_nat_length: "k < 2 ^ 16 \<Longrightarrow> unat (of_nat k :: u16) = k"
  by (simp add: unat_of_nat take_bit_eq_mod)

lemma getNextTLV_tlv:
  assumes "nextBytes m (tlv type body)" and "4 + length body < 2 ^ 16"
  shows "getNextTLV t l m = Inr ((True, Position m, type, 4 + length body), opened (4 + length body) m)"
proof -
  let ?h = "be16 type @ be16 (of_nat (4 + length body))"
  let ?m = "m\<lparr>OffendingParameterTLV := Some (Position m), OffendingParameterTLVLength := 0\<rparr>"
  note nb = nextBytes_tlv [OF assms(1)]
  have fits: "Position m + (4 + length body) \<le> BufferSize m" "BufferSize m < 2 ^ 63"
    using nb by (auto simp: fits_def length_tlv)
  have "nextBytes ?m ?h" using nb by (simp add: nextBytes_def fits_def)
  then have take: "takeSpace 4 ?m = Inr (Some ?h, advance 4 ?m)" by (rule takeSpace_next) simp
  have len: "unat (ntohs_at 2 ?h) = 4 + length body" and type: "ntohs_at 0 ?h = type"
    using unat_of_nat_length [OF assms(2)] by (simp_all only: ntohs_at_header)
  have pos: "usub (uadd (Position m + 4) (4 + length body)) 4 = Position m + (4 + length body)"
    using fits by (simp add: uadd_small usub_small)
  show ?thesis
    unfolding getNextTLV_def Let_def bindC_def take bindR_simps prod.case option.case len type
    using fits(1) by (simp add: pos) (simp add: opened_def advance_def)
qed

lemma checkBeginTLV_tlv:
  assumes "nextBytes m (tlv type body)" and "4 + length body < 2 ^ 16" and "\<not> c \<or> PURE_ATT_TYPE type = e"
  shows "checkBeginTLV e c m = Inr ((4 + length body, Position m), opened (4 + length body) m)"
  using assms(3) by (simp add: checkBeginTLV_def bindC_def getNextTLV_tlv [OF assms(1,2)])

lemma loadAt_tlv:
  assumes "nextBytes m (tlv type body)" and "Buffer m' = Buffer m"
  shows "loadAt (Position m) 4 m' = Inr (be16 type @ be16 (of_nat (4 + length body)), m')"
  using nextBytes_tlv [OF assms(1)] assms(2)
  by (auto simp: loadAt_def readBytes_def nextBytes_def fits_def length_tlv)

lemma checkFinishTLV_tlv:
  assumes "nextBytes m (tlv type body)" and "4 + length body < 2 ^ 16"
    and "Buffer m' = Buffer m" "BufferSize m' = BufferSize m"
    and "Position m' \<le> Position m + length (tlv type body)"
  shows "checkFinishTLV (Position m) m' = Inr (True, m'\<lparr>Position := Position m + length (tlv type body),
           OffendingParameterTLV := None, OffendingParameterTLVLength := 0\<rparr>)"
proof -
  let ?e = "Position m + length (tlv type body)"
  have f: "?e \<le> BufferSize m" "BufferSize m \<le> length (Buffer m)" "length (Buffer m) < 2 ^ 63"
    using nextBytes_tlv [OF assms(1)] by (auto simp: fits_def)
  have len: "unat (ntohs_at 2 (be16 type @ be16 (of_nat (4 + length body)))) = 4 + length body"
    using unat_of_nat_length [OF assms(2)] by (simp only: ntohs_at_header)
  have e: "Position m + (4 + length body) + getPadding (4 + length body) 4 = ?e"
    by (simp add: length_tlv)
  have g: "getSpace (?e - Position m') m' = (Some (Position m'), m'\<lparr>Position := ?e\<rparr>)"
    using assms(4,5) f by (simp add: getSpace_def uadd_small)
  show ?thesis
    unfolding checkFinishTLV_def bindC_def loadAt_tlv [OF assms(1,3)] bindR_simps prod.case Let_def len e
    using assms(5) g by (auto simp: not_less)
qed

section \<open>Reading parameters\<close>

text \<open>A take inside the TLV that starts at \<open>m\<close>, after \<open>k\<close> bytes of it.\<close>

lemma takeSpace_at:
  assumes "nextBytes (advance k m) bs" and "Buffer m' = Buffer m" "BufferSize m' = BufferSize m"
    and "Position m' = Position m + k" and "n = length bs"
  shows "takeSpace n m' = Inr (Some bs, m'\<lparr>Position := Position m' + n\<rparr>)"
proof -
  have "nextBytes m' bs" using assms by (simp add: nextBytes_def fits_def)
  then show ?thesis using assms(5) takeSpace_next [of m' bs n] by (simp add: advance_def)
qed

lemma scan_identifier:
  assumes "nextBytes m (enc_identifier i)"
  shows "scanPoolElementIdentifierParameter m =
           Inr (True, (scanned (length (enc_identifier i)) m)\<lparr>Identifier := i\<rparr>)"
proof -
  have nb: "nextBytes m (tlv ATT_POOL_ELEMENT_IDENTIFIER (be32 i))"
    using assms by (simp add: enc_identifier_def)
  note body = conjunct1 [OF conjunct2 [OF nextBytes_tlv [OF nb]]]
  show ?thesis
    by (simp add: scanPoolElementIdentifierParameter_def bindC_def checkBeginTLV_tlv [OF nb]
        PURE_ATT_TYPE_def takeSpace_at [OF body] modifyC_def ntohl_at_def field_0_exact)
       (simp add: checkFinishTLV_tlv [OF nb] length_tlv enc_identifier_def scanned_def opened_def)
qed

lemmas nextBytes_body = nextBytes_tlv [THEN conjunct2, THEN conjunct1]

lemma scan_checksum:
  assumes "nextBytes m (enc_checksum c)"
  shows "scanHandlespaceChecksumParameter m =
           Inr (True, (scanned (length (enc_checksum c)) m)\<lparr>Checksum := c\<rparr>)"
proof -
  have nb: "nextBytes m (tlv ATT_POOL_ELEMENT_CHECKSUM (he16 c))"
    using assms by (simp add: enc_checksum_def)
  show ?thesis
    by (simp add: scanHandlespaceChecksumParameter_def bindC_def checkBeginTLV_tlv [OF nb]
        PURE_ATT_TYPE_def takeSpace_at [OF nextBytes_body [OF nb]] modifyC_def)
       (simp add: checkFinishTLV_tlv [OF nb] length_tlv enc_checksum_def scanned_def opened_def)
qed

lemma ntohl_at_be32:
  "ntohl_at 0 (be32 a) = a" "ntohl_at 0 (be32 a @ xs) = a"
  "4 \<le> k \<Longrightarrow> ntohl_at k (be32 a @ xs) = ntohl_at (k - 4) xs"
  by (simp_all add: ntohl_at_def field_0_exact field_0 field_append)

lemma be32_all_ones: "be32 w = [0xff, 0xff, 0xff, 0xff] \<longleftrightarrow> w = 0xffffffff"
proof -
  have "be32 0xffffffff = [0xff, 0xff, 0xff, 0xff]" by code_simp
  then show ?thesis by (metis of_be_be32)
qed

lemma scan_items:
  assumes "nextBytes m (enc_items items)" and "items \<le> RSPGETADDRS_MAX"
  shows "scanHandleResolutionParameter m =
           Inr (True, (scanned (length (enc_items items)) m)\<lparr>Addresses := items\<rparr>)"
proof -
  have nb: "nextBytes m (tlv (ATT_HANDLE_RESOLUTION OR ATT_ACTION_CONTINUE) (be32 (of_nat items)))"
    using assms by (simp add: enc_items_def)
  have u: "unat (of_nat items :: u32) = items"
    using assms(2) by (simp add: unat_of_nat take_bit_eq_mod)
  have "(if be32 (of_nat items) = [0xff, 0xff, 0xff, 0xff] then RSPGETADDRS_MAX
         else unat (ntohl_at 0 (be32 (of_nat items)))) = items"
  proof (cases "(of_nat items :: u32) = 0xffffffff")
    case True
    then have "unat (of_nat items :: u32) = unat (0xffffffff :: u32)" by simp
    then show ?thesis using True u by (simp add: be32_all_ones)
  qed (simp add: be32_all_ones ntohl_at_be32 u)
  then show ?thesis
    using checkFinishTLV_tlv [OF nb]
    by (simp add: scanHandleResolutionParameter_def bindC_def checkBeginTLV_tlv [OF nb]
        PURE_ATT_TYPE_def takeSpace_at [OF nextBytes_body [OF nb]] modifyC_def
        length_tlv enc_items_def scanned_def opened_def)
qed

text \<open>The handle read has the bytes sent; the rest of its array is what was there before.\<close>

definition handleRead :: "PoolHandle \<Rightarrow> PoolHandle \<Rightarrow> PoolHandle" where
  "handleRead old h = \<lparr>ph_Size = ph_Size h, ph_Handle = overlay 0 (ph_bytes h) (ph_Handle old)\<rparr>"

lemma handleRead_same: "ph_wf h \<Longrightarrow> length (ph_Handle old) = MAX_POOLHANDLESIZE \<Longrightarrow>
    ph_wf (handleRead old h) \<and> ph_bytes (handleRead old h) = ph_bytes h"
  by (simp add: ph_wf_def handleRead_def ph_bytes_def overlay_def)

lemma scan_handle:
  assumes "nextBytes m (enc_handle h)" and "ph_wf h"
  shows "scanPoolHandleParameter m =
           Inr (True, (scanned (length (enc_handle h)) m)\<lparr>Handle := handleRead (Handle m) h\<rparr>)"
proof -
  let ?k = "ph_Size h" and ?t = "tlv ATT_POOL_HANDLE (ph_bytes h)"
  let ?m1 = "opened (4 + ?k) m"
  let ?m2 = "?m1\<lparr>Position := Position ?m1 + ?k\<rparr>"
  have nb: "nextBytes m ?t" using assms by (simp add: enc_handle_def)
  have len: "length (ph_bytes h) = ?k" "0 < ?k" "?k \<le> 32"
    using assms(2) by (simp_all add: ph_wf_def length_ph_bytes)
  have "checkBeginTLV ATT_POOL_HANDLE True m = Inr ((4 + length (ph_bytes h), Position m), opened (4 + length (ph_bytes h)) m)"
    by (rule checkBeginTLV_tlv [OF nb]) (use len in \<open>simp_all add: PURE_ATT_TYPE_def\<close>)
  then have 1: "checkBeginTLV ATT_POOL_HANDLE True m = Inr ((4 + ?k, Position m), ?m1)"
    by (simp only: len(1))
  have 2: "takeSpace ?k ?m1 = Inr (Some (ph_bytes h), ?m2)"
    by (rule takeSpace_at [OF nextBytes_body [OF nb]]) (simp_all add: len(1))
  have 3: "poolHandleNew (Handle ?m2) (ph_bytes h) ?k = Inr (handleRead (Handle m) h)"
    using len by (simp add: poolHandleNew_def handleRead_def)
  have 4: "checkFinishTLV (Position m) (?m2\<lparr>Handle := handleRead (Handle m) h\<rparr>)
      = Inr (True, ?m2\<lparr>Handle := handleRead (Handle m) h, Position := Position m + length ?t,
          OffendingParameterTLV := None, OffendingParameterTLVLength := 0\<rparr>)"
    by (rule checkFinishTLV_tlv [OF nb]) (use len in \<open>simp_all add: length_tlv\<close>)
  show ?thesis
    unfolding scanPoolHandleParameter_def bindC_def 1 bindR_simps prod.case Let_def
    using len 2 3 4 by (simp add: enc_handle_def scanned_def opened_def)
qed

lemma scan_error:
  assumes "nextBytes m (enc_error cause d)" and "8 + length d < 2 ^ 16"
  shows "scanErrorParameter m =
           Inr (True, (scanned (length (enc_error cause d)) m)
             \<lparr>OperationErrorCode := cause, OperationErrorData := Some (Position m + 4),
              OperationErrorLength := length d\<rparr>)"
proof -
  define w :: u16 where "w = of_nat (4 + length d)"
  have uw: "unat w = 4 + length d"
    unfolding w_def by (rule unat_of_nat_length) (use assms(2) in simp)
  let ?body = "be16 cause @ be16 w @ d"
  let ?m1 = "opened (8 + length d) m"
  have nb: "nextBytes m (tlv ATT_OPERATION_ERROR ?body)"
    using assms by (simp only: enc_error_def w_def)
  have 1: "checkBeginTLV ATT_OPERATION_ERROR True m = Inr ((8 + length d, Position m), ?m1)"
    using checkBeginTLV_tlv [OF nb, of True ATT_OPERATION_ERROR] assms(2) by (simp add: PURE_ATT_TYPE_def)
  have "nextBytes (advance 4 m) (be16 cause @ be16 w)"
    using nextBytes_body [OF nb] nextBytes_append [of "advance 4 m" "be16 cause @ be16 w" d] by simp
  then have 2: "loadHere 4 ?m1 = Inr (be16 cause @ be16 w, ?m1)"
    by (auto simp: loadHere_def loadAt_def readBytes_def nextBytes_def fits_def)
  have "fits (length (tlv ATT_OPERATION_ERROR ?body)) m" using nextBytes_tlv [OF nb] by blast
  then have 3: "getSpace (length d) (?m1\<lparr>OperationErrorCode := cause\<rparr>) =
      (Some (Position m + 4),
       ?m1\<lparr>OperationErrorCode := cause, Position := Position m + 4 + length d\<rparr>)"
    by (simp add: getSpace_def uadd_small fits_def length_tlv)
  show ?thesis
    using assms(2) 3
    by (simp add: scanErrorParameter_def bindC_def 1 2 modifyC_def ntohs_at_header uw)
       (simp add: checkFinishTLV_tlv [OF nb] length_tlv enc_error_def w_def [symmetric] scanned_def opened_def)
qed

section \<open>Reading addresses and transports\<close>

text \<open>What the receiver of an address sees: the port of the transport, no flow and scope.\<close>

definition sentAddress :: "u16 \<Rightarrow> sockaddr_union \<Rightarrow> sockaddr_union" where
  "sentAddress port a =
     (case a of
        SA_in p x \<Rightarrow> SA_in port x
      | SA_in6 p f x s \<Rightarrow> if IN6_IS_ADDR_V4MAPPED x then SA_in port (ucast x) else SA_in6 port 0 x 0
      | SA_other fam \<Rightarrow> SA_other fam)"

lemma sentAddress_inet [simp]: "inet (sentAddress port a) = inet a"
  by (cases a) (simp_all add: sentAddress_def inet_def)

lemma withPort_sentAddress [simp]: "withPort port (sentAddress port a) = sentAddress port a"
  by (cases a) (simp_all add: sentAddress_def withPort_def)

lemma scan_IPv4:
  assumes "nextBytes m (tlv ATT_IPv4_ADDRESS (be32 x))"
  shows "scanAddressParameter port m = Inr (Some (SA_in port x), scanned 8 m)"
  by (simp add: scanAddressParameter_def bindC_def checkBeginTLV_tlv [OF assms] usub_small
      loadAt_tlv [OF assms] PURE_ATT_TYPE_def ntohs_at_header takeSpace_at [OF nextBytes_body [OF assms]])
     (simp add: checkFinishTLV_tlv [OF assms] length_tlv scanned_def opened_def)

lemma scan_IPv6:
  assumes "nextBytes m (tlv ATT_IPv6_ADDRESS (be_bytes 16 x))"
  shows "scanAddressParameter port m = Inr (Some (SA_in6 port 0 x 0), scanned 20 m)"
  by (simp add: scanAddressParameter_def bindC_def checkBeginTLV_tlv [OF assms] usub_small
      loadAt_tlv [OF assms] PURE_ATT_TYPE_def ntohs_at_header takeSpace_at [OF nextBytes_body [OF assms]])
     (simp add: checkFinishTLV_tlv [OF assms] length_tlv scanned_def opened_def of_be_be_bytes)

lemma length_enc_address: "inet a \<Longrightarrow> length (enc_address a) = 8 \<or> length (enc_address a) = 20"
  by (cases a) (simp_all add: enc_address_def length_tlv inet_def)

lemma scan_address:
  assumes "nextBytes m (enc_address a)" and "inet a"
  shows "scanAddressParameter port m = Inr (Some (sentAddress port a), scanned (length (enc_address a)) m)"
  using assms
  by (cases a) (auto simp: enc_address_def sentAddress_def length_tlv inet_def scan_IPv4 scan_IPv6)

text \<open>Addresses of link-local or smaller scope are dropped by the receiver.\<close>

definition usable :: "sockaddr_union \<Rightarrow> bool" where
  "usable a \<longleftrightarrow> scopeOf a > AS_UNICAST_LINKLOCAL"

definition sentAddresses :: "u16 \<Rightarrow> sockaddr_union list \<Rightarrow> sockaddr_union list" where
  "sentAddresses port as = filter usable (map (sentAddress port) as)"

lemma map_withPort_sentAddresses [simp]: "map (withPort port) (sentAddresses port as) = sentAddresses port as"
  by (rule map_idI) (auto simp: sentAddresses_def)

lemma scan_addresses:
  assumes "nextBytes m (concat (map enc_address as))" and "\<forall>a \<in> set as. inet a"
    and "tlvEndPos = Position m + length (concat (map enc_address as))"
    and "length acc + length as \<le> 64" and "type \<noteq> ATT_SCTP_TRANSPORT \<longrightarrow> length acc + length as \<le> 1"
    and "length as < fuel"
  shows "scanTransportAddresses fuel type port tlvEndPos acc m =
           Inr (Some (acc @ sentAddresses port as), if as = [] then m else scanned (length (concat (map enc_address as))) m)"
  using assms
proof (induction as arbitrary: m acc fuel)
  case Nil
  then show ?case by (cases fuel) (simp_all add: sentAddresses_def)
next
  case (Cons a as)
  obtain fuel' where fuel: "fuel = Suc fuel'" using Cons.prems(6) by (cases fuel) auto
  let ?a = "sentAddress port a" and ?m1 = "scanned (length (enc_address a)) m"
  have nb: "nextBytes m (enc_address a)"
    and nb': "nextBytes ?m1 (concat (map enc_address as))"
    using Cons.prems(1) by (simp_all add: nextBytes_append nextBytes_scanned)
  have inet: "inet a" "inet ?a" using Cons.prems(2) by simp_all
  have pos: "Position m < tlvEndPos"
    using Cons.prems(3) length_enc_address [OF inet(1)] by auto
  have scan: "scanAddressParameter port m = Inr (Some ?a, ?m1)"
    by (rule scan_address [OF nb inet(1)])
  let ?acc = "if scopeOf ?a > AS_UNICAST_LINKLOCAL then acc @ [?a] else acc"
  have ih: "scanTransportAddresses fuel' type port tlvEndPos ?acc ?m1 =
      Inr (Some (?acc @ sentAddresses port as),
           if as = [] then ?m1 else scanned (length (concat (map enc_address as))) ?m1)"
    by (rule Cons.IH) (use Cons.prems nb' fuel in auto)
  show ?case
    using Cons.prems(4,5) ih
    by (auto simp: fuel pos bindC_def scan getScope_inet [OF inet(2)] sentAddresses_def usable_def)
qed

definition sentBlock :: "TransportAddressBlock \<Rightarrow> TransportAddressBlock" where
  "sentBlock b =
     \<lparr>tab_Protocol = tab_Protocol b, tab_Port = tab_Port b,
      tab_Flags = (if transportUse b = UTP_DATA_PLUS_CONTROL then TABF_CONTROLCHANNEL else 0),
      tab_AddressArray = sentAddresses (tab_Port b) (tab_AddressArray b)\<rparr>"

definition block_sendable :: "TransportAddressBlock \<Rightarrow> bool" where
  "block_sendable b \<longleftrightarrow> block_wf b \<and> tab_Addresses b \<le> MAX_PE_TRANSPORTADDRESSES
     \<and> tab_AddressArray (sentBlock b) \<noteq> []"

lemma length_enc_addresses:
  "\<forall>a \<in> set as. inet a \<Longrightarrow> 8 * length as \<le> length (concat (map enc_address as)) \<and>
     length (concat (map enc_address as)) \<le> 20 * length as \<and> 4 dvd length (concat (map enc_address as))"
proof (induction as)
  case (Cons a as)
  then have ih: "8 * length as \<le> length (concat (map enc_address as))"
      "length (concat (map enc_address as)) \<le> 20 * length as" "4 dvd length (concat (map enc_address as))"
    and a: "length (enc_address a) = 8 \<or> length (enc_address a) = 20"
    using length_enc_address [of a] by auto
  from a have "4 dvd length (enc_address a)" by auto
  then show ?case using ih a by auto
qed simp

lemma scan_transport:
  assumes "nextBytes m (enc_transport b)" and "block_sendable b"
  shows "scanTransportParameter m =
           Inr ((True, Some (sentBlock b)), scanned (length (enc_transport b)) m)"
proof -
  obtain type where type: "transportType (tab_Protocol b) = Some type"
    using assms(2) by (auto simp: block_sendable_def block_wf_def)
  let ?as = "tab_AddressArray b" and ?port = "tab_Port b"
  let ?hdr = "be16 ?port @ be16 (transportUse b)" and ?addrs = "concat (map enc_address (tab_AddressArray b))"
  have nb: "nextBytes m (tlv type (?hdr @ ?addrs))"
    using assms by (simp add: enc_transport_def type)
  have wf: "\<forall>a \<in> set ?as. inet a" "length ?as \<le> 64" "sentAddresses ?port ?as \<noteq> []"
      "type \<noteq> ATT_SCTP_TRANSPORT \<longrightarrow> length ?as \<le> 1"
    using assms(2) type
    by (auto simp: block_sendable_def block_wf_def sentBlock_def transportType_def split: if_splits)
  note la = length_enc_addresses [OF wf(1)]
  have len: "4 + length (?hdr @ ?addrs) < 2 ^ 16" using la wf(2) by simp
  have tl: "length (tlv type (?hdr @ ?addrs)) = 8 + length ?addrs"
    using la by (simp add: length_tlv)
  let ?l = "8 + length ?addrs"
  let ?m1 = "opened ?l m"
  let ?m2 = "?m1\<lparr>Position := Position ?m1 + 4\<rparr>"
  have l: "4 + length (?hdr @ ?addrs) = ?l" by simp
  have 1: "checkBeginTLV 0 False m = Inr ((?l, Position m), ?m1)"
    by (rule checkBeginTLV_tlv [OF nb len, unfolded l]) simp
  have nh: "nextBytes (advance 4 m) ?hdr" and na: "nextBytes (advance 8 m) ?addrs"
    using nextBytes_body [OF nb] nextBytes_append [of "advance 4 m" ?hdr ?addrs] by simp_all
  have take: "takeSpace 4 ?m1 = Inr (Some ?hdr, ?m2)"
    by (rule takeSpace_at [OF nh]) simp_all
  have use: "ntohs_at 2 ?hdr = transportUse b" "ntohs_at 0 ?hdr = ?port"
    by (simp_all add: ntohs_at_header)
  have kind: "scanTransportKind type k ?m1 =
      Inr (Some (tab_Protocol b, ?port, transportUse b = UTP_DATA_PLUS_CONTROL), ?m2)" for k
    using type
    by (auto simp: scanTransportKind_def PURE_ATT_TYPE_def transportType_def bindC_def take use
        transportUse_def ntohs_at_header split: if_splits)
  have "scanTransportAddresses (Suc (BufferSize ?m2)) type ?port (Position m + ?l) [] ?m2 =
      Inr (Some ([] @ sentAddresses ?port ?as), if ?as = [] then ?m2 else scanned (length ?addrs) ?m2)"
  proof (rule scan_addresses)
    show "nextBytes ?m2 ?addrs" by (subst nextBytes_cong [of _ "advance 8 m"]) (simp_all add: na)
    have "fits (length (tlv type (?hdr @ ?addrs))) m" using nextBytes_tlv [OF nb] by blast
    then show "length ?as < Suc (BufferSize ?m2)" using la unfolding tl fits_def by simp
  qed (use wf in auto)
  moreover have "?as \<noteq> []" using wf(3) by (auto simp: sentAddresses_def)
  ultimately have 3: "scanTransportAddresses (Suc (BufferSize ?m2)) type ?port (Position m + ?l) [] ?m2 =
      Inr (Some (sentAddresses ?port ?as), scanned (length ?addrs) ?m2)" by simp
  have 4: "checkFinishTLV (Position m) (scanned (length ?addrs) ?m2) = Inr (True, scanned ?l m)"
    by (subst checkFinishTLV_tlv [OF nb len], unfold tl) (simp_all add: scanned_def opened_def)
  have "length (sentAddresses ?port ?as) \<le> 64"
    using wf(2) by (simp add: sentAddresses_def) (meson length_filter_le le_trans length_map)
  then have 5: "transportAddressBlockNew (tab_Protocol b) ?port
      (if transportUse b = UTP_DATA_PLUS_CONTROL then TABF_CONTROLCHANNEL else 0)
      (sentAddresses ?port ?as) (length (sentAddresses ?port ?as)) 64 = sentBlock b"
    by (simp add: transportAddressBlockNew_def sentBlock_def)
  have ty: "ntohs_at 0 (be16 type @ be16 x) = type" for x by (simp add: ntohs_at_header)
  show ?thesis
    unfolding scanTransportParameter_def bindC_def 1 bindR_simps prod.case Let_def
    using wf(3) 3 4 5 tl
    by (simp add: loadAt_tlv [OF nb] ty kind enc_transport_def type add.commute add.left_commute
        del: scanTransportAddresses.simps split del: if_split)
qed

section \<open>Reading policies, pool elements and servers\<close>

text \<open>The settings the receiver sees: what the policy does not use is not sent.\<close>

definition sentPolicy :: "PoolPolicySettings \<Rightarrow> PoolPolicySettings" where
  "sentPolicy s =
     (let t = pps_PolicyType s in
      \<lparr>pps_PolicyType = t,
       pps_Weight = (if t \<in> {PPT_WEIGHTED_RANDOM, PPT_WEIGHTED_RANDOM_DPF, PPT_WEIGHTED_ROUNDROBIN,
                             PPT_PRIORITY} then pps_Weight s else 0),
       pps_Load = (if t \<in> {PPT_RANDOM, PPT_WEIGHTED_RANDOM, PPT_WEIGHTED_RANDOM_DPF, PPT_ROUNDROBIN,
                           PPT_WEIGHTED_ROUNDROBIN, PPT_PRIORITY} then 0 else pps_Load s),
       pps_LoadDegradation = (if t \<in> {PPT_LEASTUSED_DEGRADATION, PPT_LEASTUSED_DEGRADATION_DPF,
                                      PPT_PRIORITY_LEASTUSED, PPT_PRIORITY_LEASTUSED_DEGRADATION,
                                      PPT_RANDOMIZED_LEASTUSED_DEGRADATION,
                                      PPT_RANDOMIZED_PRIORITY_LEASTUSED,
                                      PPT_RANDOMIZED_PRIORITY_LEASTUSED_DEGRADATION}
                              then pps_LoadDegradation s else 0),
       pps_LoadDPF = (if t \<in> {PPT_LEASTUSED_DPF, PPT_LEASTUSED_DEGRADATION_DPF}
                      then pps_LoadDPF s else 0),
       pps_WeightDPF = (if t = PPT_WEIGHTED_RANDOM_DPF then pps_WeightDPF s else 0),
       pps_Distance = (if t \<in> {PPT_WEIGHTED_RANDOM_DPF, PPT_LEASTUSED_DPF, PPT_LEASTUSED_DEGRADATION_DPF}
                       then pps_Distance s else 0)\<rparr>)"

lemma length_words: "length (concat (map be32 ws)) = 4 * length ws"
  by (induction ws) simp_all

lemma scanPolicyCase_words:
  assumes "nextBytes (advance 4 m) (concat (map be32 ws))" and "n = length ws" and "k = 4 * n"
  shows "scanPolicyCase k n ne se store (opened l m) =
           Inr ((True, store (\<lambda>k. ntohl_at (4 * k) (concat (map be32 ws)))),
                (opened l m)\<lparr>Position := Position m + 4 + 4 * n\<rparr>)"
proof -
  have "takeSpace (4 * n) (opened l m) = Inr (Some (concat (map be32 ws)),
      (opened l m)\<lparr>Position := Position (opened l m) + 4 * n\<rparr>)"
    by (rule takeSpace_at [OF assms(1)]) (simp_all add: assms(2) length_words)
  then show ?thesis by (simp add: scanPolicyCase_def bindC_def assms(3))
qed

lemmas scanPolicy_defs = scanPolicy_LEASTUSED_def scanPolicy_LEASTUSED_DPF_def
  scanPolicy_LEASTUSED_DEGRADATION_def scanPolicy_LEASTUSED_DEGRADATION_DPF_def
  scanPolicy_PRIORITY_LEASTUSED_def scanPolicy_PRIORITY_LEASTUSED_DEGRADATION_def
  scanPolicy_RANDOM_def scanPolicy_WEIGHTED_RANDOM_def scanPolicy_WEIGHTED_RANDOM_DPF_def
  scanPolicy_ROUNDROBIN_def scanPolicy_WEIGHTED_ROUNDROBIN_def scanPolicy_PRIORITY_def
  scanPolicy_RANDOMIZED_LEASTUSED_def scanPolicy_RANDOMIZED_LEASTUSED_DEGRADATION_def
  scanPolicy_RANDOMIZED_PRIORITY_LEASTUSED_def scanPolicy_RANDOMIZED_PRIORITY_LEASTUSED_DEGRADATION_def

text \<open>The sixteen policies, with the words each sends.\<close>

lemma policyWords_cases:
  assumes "policyWords s = Some ws"
  shows "pps_PolicyType s \<in> {PPT_RANDOM, PPT_ROUNDROBIN} \<and> ws = [pps_PolicyType s] \<or>
     pps_PolicyType s \<in> {PPT_WEIGHTED_RANDOM, PPT_WEIGHTED_ROUNDROBIN, PPT_PRIORITY} \<and>
       ws = [pps_PolicyType s, pps_Weight s] \<or>
     pps_PolicyType s = PPT_WEIGHTED_RANDOM_DPF \<and>
       ws = [pps_PolicyType s, pps_Weight s, pps_WeightDPF s, pps_Distance s] \<or>
     pps_PolicyType s \<in> {PPT_LEASTUSED, PPT_RANDOMIZED_LEASTUSED} \<and>
       ws = [pps_PolicyType s, pps_Load s] \<or>
     pps_PolicyType s = PPT_LEASTUSED_DPF \<and>
       ws = [pps_PolicyType s, pps_Load s, pps_LoadDPF s, pps_Distance s] \<or>
     pps_PolicyType s = PPT_LEASTUSED_DEGRADATION_DPF \<and>
       ws = [pps_PolicyType s, pps_Load s, pps_LoadDegradation s, pps_LoadDPF s, pps_Distance s] \<or>
     pps_PolicyType s \<in> {PPT_LEASTUSED_DEGRADATION, PPT_PRIORITY_LEASTUSED,
         PPT_PRIORITY_LEASTUSED_DEGRADATION, PPT_RANDOMIZED_LEASTUSED_DEGRADATION,
         PPT_RANDOMIZED_PRIORITY_LEASTUSED, PPT_RANDOMIZED_PRIORITY_LEASTUSED_DEGRADATION} \<and>
       ws = [pps_PolicyType s, pps_Load s, pps_LoadDegradation s]"
  using assms unfolding policyWords_def Let_def by (simp split: if_splits)

lemma scanPolicySwitch_words:
  assumes ws: "policyWords s = Some ws" and nb: "nextBytes (advance 4 m) (concat (map be32 ws))"
  shows "scanPolicySwitch (pps_PolicyType s) (4 * length ws) (opened l m) =
           Inr ((True, sentPolicy s), (opened l m)\<lparr>Position := Position m + 4 + 4 * length ws\<rparr>)"
proof -
  from policyWords_cases [OF ws] show ?thesis
    unfolding scanPolicySwitch_def scanPolicy_defs
    by (elim disjE conjE insertE emptyE)
       (simp_all add: scanPolicyCase_words [OF nb] sentPolicy_def poolPolicySettingsNew_def ntohl_at_be32)
qed

lemma scan_policy:
  assumes "nextBytes m (enc_policy s)" and "policyWords s \<noteq> None"
  shows "scanPolicyParameter old m = Inr ((True, sentPolicy s), scanned (length (enc_policy s)) m)"
proof -
  obtain ws where ws: "policyWords s = Some ws" using assms(2) by auto
  let ?b = "concat (map be32 ws)"
  have nb: "nextBytes m (tlv ATT_POOL_POLICY ?b)" using assms(1) by (simp add: enc_policy_def ws)
  have wl: "1 \<le> length ws" "length ws \<le> 5" "hd ws = pps_PolicyType s" "ws \<noteq> []"
    using policyWords_cases [OF ws] by auto
  let ?l = "4 + 4 * length ws"
  have l: "length ?b = 4 * length ws" by (rule length_words)
  have 1: "checkBeginTLV ATT_POOL_POLICY True m = Inr ((?l, Position m), opened ?l m)"
    by (rule checkBeginTLV_tlv [OF nb, unfolded l]) (use wl in \<open>simp_all add: PURE_ATT_TYPE_def\<close>)
  have bd: "nextBytes (advance 4 m) ?b" by (rule nextBytes_body [OF nb])
  have "?b = be32 (pps_PolicyType s) @ concat (map be32 (tl ws))" using wl by (cases ws) auto
  then have "nextBytes (advance 4 m) (be32 (pps_PolicyType s))"
    using bd nextBytes_append [of "advance 4 m" "be32 (pps_PolicyType s)"] by metis
  then have 2: "loadHere 4 (opened ?l m) = Inr (be32 (pps_PolicyType s), opened ?l m)"
    by (auto simp: loadHere_def loadAt_def readBytes_def nextBytes_def fits_def)
  note 3 = scanPolicySwitch_words [OF ws bd, of ?l]
  have 4: "checkFinishTLV (Position m) ((opened ?l m)\<lparr>Position := Position m + 4 + 4 * length ws\<rparr>)
      = Inr (True, scanned (length (tlv ATT_POOL_POLICY ?b)) m)"
    by (subst checkFinishTLV_tlv [OF nb])
       (use wl in \<open>simp_all add: length_tlv l scanned_def opened_def\<close>)
  show ?thesis
    unfolding scanPolicyParameter_def bindC_def 1 bindR_simps prod.case Let_def
    using wl 2 3 4 by (simp add: ntohl_at_be32 enc_policy_def ws)
qed

text \<open>The pool element the receiver sees.\<close>

definition sentElement :: "bool \<Rightarrow> PoolElementNode \<Rightarrow> PoolElementNode" where
  "sentElement r pe =
     poolElementNodeNew (pen_Identifier pe) (pen_HomeRegistrarIdentifier pe) (pen_RegistrationLife pe)
       (sentPolicy (pen_PolicySettings pe)) (map_option sentBlock (pen_UserTransport pe))
       (if r then map_option sentBlock (pen_RegistratorTransport pe) else None) (-1) 0"

definition element_sendable :: "bool \<Rightarrow> PoolElementNode \<Rightarrow> bool" where
  "element_sendable r pe \<longleftrightarrow>
     (\<exists>b. pen_UserTransport pe = Some b \<and> block_sendable b) \<and> policyWords (pen_PolicySettings pe) \<noteq> None \<and>
     (r \<longrightarrow> (\<exists>b. pen_RegistratorTransport pe = Some b \<and> block_sendable b))"

lemma element_sendable_wf: "element_sendable r pe \<Longrightarrow> element_wf r pe"
  by (auto simp: element_sendable_def element_wf_def block_sendable_def)

lemma length_enc_transport: "block_sendable b \<Longrightarrow> length (enc_transport b) \<le> 1288 \<and> 4 dvd length (enc_transport b)"
  using length_enc_addresses [of "tab_AddressArray b"]
  by (auto simp: block_sendable_def block_wf_def enc_transport_def length_tlv intro: getPadding4_aligned)

lemma length_enc_policy: "policyWords s \<noteq> None \<Longrightarrow> length (enc_policy s) \<le> 24 \<and> 4 dvd length (enc_policy s)"
proof -
  assume "policyWords s \<noteq> None"
  then obtain ws where ws: "policyWords s = Some ws" by auto
  then have "length ws \<le> 5" using policyWords_cases [OF ws] by auto
  then show ?thesis by (simp add: enc_policy_def ws length_tlv length_words)
qed

lemma duplicate_memory [simp]: "transportAddressBlockDuplicate True b = b"
  by (simp add: transportAddressBlockDuplicate_def split: option.splits)

lemma scan_element:
  assumes "nextBytes m (enc_element r pe)" and "element_sendable r pe" and "gMemory m"
    and "mustHaveHome \<longrightarrow> pen_HomeRegistrarIdentifier pe \<noteq> UNDEFINED_REGISTRAR_IDENTIFIER"
  shows "scanPoolElementParameter r mustHaveHome m =
           Inr (Some (sentElement r pe), scanned (length (enc_element r pe)) m)"
proof -
  obtain b where b: "pen_UserTransport pe = Some b" "block_sendable b"
    using assms(2) by (auto simp: element_sendable_def)
  have pol: "policyWords (pen_PolicySettings pe) \<noteq> None" using assms(2) by (simp add: element_sendable_def)
  let ?hdr = "be32 (pen_Identifier pe) @ be32 (pen_HomeRegistrarIdentifier pe) @ be32 (pen_RegistrationLife pe)"
  let ?ut = "enc_transport b" and ?po = "enc_policy (pen_PolicySettings pe)"
  let ?rt = "if r then enc_transport (the (pen_RegistratorTransport pe)) else []"
  let ?body = "?hdr @ ?ut @ ?po @ ?rt"
  have nb: "nextBytes m (tlv ATT_POOL_ELEMENT ?body)"
    using assms(1) by (simp add: enc_element_def b(1))
  have lr: "length ?rt \<le> 1288" "4 dvd length ?rt"
    using assms(2) length_enc_transport by (auto simp: element_sendable_def)
  have lens: "length ?ut \<le> 1288" "4 dvd length ?ut" "length ?po \<le> 24" "4 dvd length ?po"
    using length_enc_transport [OF b(2)] length_enc_policy [OF pol] by auto
  let ?l = "16 + length ?ut + length ?po + length ?rt"
  have l: "4 + length ?body = ?l" by simp
  have small: "?l < 2 ^ 16" using lens lr by simp
  have tl: "length (tlv ATT_POOL_ELEMENT ?body) = ?l"
    unfolding length_tlv l using lens lr by simp
  define k and m1 and m2 where "k = ?l" and "m1 = opened k m"
    and "m2 = m1\<lparr>Position := Position m1 + 12\<rparr>"
  define m3 and m4 and m5 where "m3 = scanned (length ?ut) m2" and "m4 = scanned (length ?po) m3"
    and "m5 = (if r then scanned (length ?rt) m4 else m4)"
  note m_defs = m1_def m2_def m3_def m4_def
  have 1: "checkBeginTLV ATT_POOL_ELEMENT True m = Inr ((k, Position m), m1)"
    unfolding m1_def k_def
    by (rule checkBeginTLV_tlv [OF nb, unfolded l, OF small]) (simp add: PURE_ATT_TYPE_def)
  have n1: "nextBytes (advance 4 m) ?hdr" and n2: "nextBytes (advance 16 m) ?ut"
    and n3: "nextBytes (advance (16 + length ?ut) m) ?po"
    and n4: "nextBytes (advance (16 + length ?ut + length ?po) m) ?rt"
    using nextBytes_body [OF nb]
    unfolding nextBytes_append [of "advance 4 m" ?hdr] nextBytes_append [of _ ?ut] nextBytes_append [of _ ?po]
    by simp_all
  have 2: "takeSpace 12 m1 = Inr (Some ?hdr, m2)"
    unfolding m2_def by (rule takeSpace_at [OF n1]) (simp_all add: m1_def)
  have 3: "scanTransportParameter m2 = Inr ((True, Some (sentBlock b)), m3)"
    unfolding m3_def
    by (rule scan_transport [OF _ b(2)], subst nextBytes_cong [of _ "advance 16 m"])
       (simp_all add: n2 m1_def m2_def)
  have 4: "scanPolicyParameter s m3 = Inr ((True, sentPolicy (pen_PolicySettings pe)), m4)" for s
    unfolding m4_def
    by (rule scan_policy [OF _ pol], subst nextBytes_cong [of _ "advance (16 + length ?ut) m"])
       (simp_all add: n3 m1_def m2_def m3_def)
  have 5: "(if r then scanTransportParameter else returnC (False, None)) m4 =
      Inr ((r, if r then map_option sentBlock (pen_RegistratorTransport pe) else None), m5)"
  proof (cases r)
    case True
    then obtain b' where b': "pen_RegistratorTransport pe = Some b'" "block_sendable b'"
      using assms(2) by (auto simp: element_sendable_def)
    have "nextBytes m4 (enc_transport b')"
      by (subst nextBytes_cong [of _ "advance (16 + length ?ut + length ?po) m"])
         (use n4 True b' in \<open>simp_all add: m_defs\<close>)
    from scan_transport [OF this b'(2)] True b' show ?thesis by (simp add: m5_def)
  qed (simp add: m5_def)
  have 6: "checkFinishTLV (Position m) m5 = Inr (True, scanned k m)"
    by (subst checkFinishTLV_tlv [OF nb, unfolded l, OF small], unfold tl)
       (simp_all add: m5_def m_defs k_def scanned_def opened_def)
  have k: "\<not> k < 4" "length (enc_element r pe) = k"
    using tl by (simp_all add: k_def enc_element_def b(1))
  have home: "\<not> (mustHaveHome \<and> pen_HomeRegistrarIdentifier pe = UNDEFINED_REGISTRAR_IDENTIFIER)"
    using assms(4) by simp
  show ?thesis
    unfolding k(2) using assms(3) 5
    by (cases r) (simp_all add: scanPoolElementParameter_def bindC_def 1 2 3 4 6 k(1) home ntohl_at_be32
        duplicate_memory sentElement_def b(1))
qed

lemma scan_server:
  assumes "nextBytes m (enc_server n)" and "pln_AddressBlock n = Some b" "block_sendable b" and "gMemory m"
  shows "scanServerInformationParameter m =
           Inr (Some (peerListNodeNew (pln_Identifier n) 0 (Some (sentBlock b))),
                scanned (length (enc_server n)) m)"
proof -
  let ?ut = "enc_transport b"
  let ?body = "be32 (pln_Identifier n) @ ?ut"
  have nb: "nextBytes m (tlv ATT_SERVER_INFORMATION ?body)"
    using assms(1) by (simp add: enc_server_def assms(2))
  have lens: "length ?ut \<le> 1288" "4 dvd length ?ut" using length_enc_transport [OF assms(3)] by auto
  let ?l = "8 + length ?ut"
  have l: "4 + length ?body = ?l" by simp
  have small: "?l < 2 ^ 16" using lens by simp
  have tl: "length (tlv ATT_SERVER_INFORMATION ?body) = ?l"
    unfolding length_tlv l using lens by simp
  define k and m1 and m2 and m3 where "k = ?l" and "m1 = opened k m"
    and "m2 = m1\<lparr>Position := Position m1 + 4\<rparr>" and "m3 = scanned (length ?ut) m2"
  have 1: "checkBeginTLV ATT_SERVER_INFORMATION True m = Inr ((k, Position m), m1)"
    unfolding m1_def k_def
    by (rule checkBeginTLV_tlv [OF nb, unfolded l, OF small]) (simp add: PURE_ATT_TYPE_def)
  have n1: "nextBytes (advance 4 m) (be32 (pln_Identifier n))" and n2: "nextBytes (advance 8 m) ?ut"
    using nextBytes_body [OF nb]
    unfolding nextBytes_append [of "advance 4 m" "be32 (pln_Identifier n)"] by simp_all
  have 2: "takeSpace 4 m1 = Inr (Some (be32 (pln_Identifier n)), m2)"
    unfolding m2_def by (rule takeSpace_at [OF n1]) (simp_all add: m1_def)
  have 3: "scanTransportParameter m2 = Inr ((True, Some (sentBlock b)), m3)"
    unfolding m3_def
    by (rule scan_transport [OF _ assms(3)], subst nextBytes_cong [of _ "advance 8 m"])
       (simp_all add: n2 m1_def m2_def)
  have 4: "checkFinishTLV (Position m) m3 = Inr (True, scanned k m)"
    by (subst checkFinishTLV_tlv [OF nb, unfolded l, OF small], unfold tl)
       (simp_all add: m1_def m2_def m3_def k_def scanned_def opened_def)
  have k: "\<not> k < 5" "length (enc_server n) = k" "gMemory m3"
    using tl lens assms(4) by (simp_all add: k_def enc_server_def assms(2) m1_def m2_def m3_def)
  show ?thesis
    unfolding k(2) using k(1,3)
    by (simp add: scanServerInformationParameter_def bindC_def 1 2 3 4 ntohl_at_be32 duplicate_memory)
qed

section \<open>The contract of a parameter\<close>

text \<open>
  A creation function and a scanner that implement the same encoding: the value \<open>v\<close> is
  written as \<open>enc v\<close>, and where these bytes are next, the scanner returns \<open>result v\<close>,
  stores \<open>store v\<close> in the message and moves to the end of the parameter.
\<close>

locale parameter_codec =
  fixes create :: "'v \<Rightarrow> bool cfun" and scan :: "'a cfun" and enc :: "'v \<Rightarrow> byte list"
    and valid :: "'v \<Rightarrow> bool" and result :: "'v \<Rightarrow> 'a"
    and store :: "'v \<Rightarrow> RSerPoolMessage \<Rightarrow> RSerPoolMessage"
  assumes create_enc: "valid v \<Longrightarrow> writes (create v) (enc v)"
    and scan_enc: "valid v \<Longrightarrow> gMemory m \<Longrightarrow> nextBytes m (enc v) \<Longrightarrow>
      scan m = Inr (result v, store v (scanned (length (enc v)) m))"
begin

lemma roundtrip:
  assumes "valid v" and "gMemory m" and "fits (length (enc v)) m"
  shows "create v m = Inr (True, emit (enc v) m) \<and>
    scan ((emit (enc v) m)\<lparr>Position := Position m\<rparr>) =
      Inr (result v, store v (scanned (length (enc v)) ((emit (enc v) m)\<lparr>Position := Position m\<rparr>)))"
  using writesD [OF create_enc [OF assms(1)] assms(3)] assms
  by (simp add: scan_enc nextBytes_emit)

lemma create_many: "\<forall>v \<in> set vs. valid v \<Longrightarrow> writes (stmts (map create vs)) (concat (map enc vs))"
  by (induction vs) (auto intro: writes_stmts_nil writes_stmts_cons create_enc)

end

interpretation identifier_codec: parameter_codec createPoolElementIdentifierParameter
  scanPoolElementIdentifierParameter enc_identifier "\<lambda>_. True" "\<lambda>_. True" "\<lambda>i m. m\<lparr>Identifier := i\<rparr>"
  by unfold_locales (simp_all add: writes_identifier scan_identifier)

interpretation checksum_codec: parameter_codec createHandlespaceChecksumParameter
  scanHandlespaceChecksumParameter enc_checksum "\<lambda>_. True" "\<lambda>_. True" "\<lambda>c m. m\<lparr>Checksum := c\<rparr>"
  by unfold_locales (simp_all add: writes_checksum scan_checksum)

interpretation items_codec: parameter_codec createHandleResolutionParameter
  scanHandleResolutionParameter enc_items "\<lambda>items. items \<le> RSPGETADDRS_MAX" "\<lambda>_. True"
  "\<lambda>items m. m\<lparr>Addresses := items\<rparr>"
  by unfold_locales (simp_all add: writes_items scan_items)

interpretation handle_codec: parameter_codec "\<lambda>h. createPoolHandleParameter (Some h)"
  scanPoolHandleParameter enc_handle ph_wf "\<lambda>_. True"
  "\<lambda>h m. m\<lparr>Handle := handleRead (Handle m) h\<rparr>"
  by unfold_locales (simp_all add: writes_handle scan_handle)

interpretation address_codec: parameter_codec createAddressParameter "scanAddressParameter port"
  enc_address inet "\<lambda>a. Some (sentAddress port a)" "\<lambda>_ m. m" for port
  by unfold_locales (simp_all add: writes_address scan_address)

interpretation transport_codec: parameter_codec "\<lambda>b. createTransportParameter (Some b)"
  scanTransportParameter enc_transport block_sendable "\<lambda>b. (True, Some (sentBlock b))" "\<lambda>_ m. m"
  by unfold_locales (simp_all add: writes_transport scan_transport block_sendable_def)

interpretation policy_codec: parameter_codec "\<lambda>s. createPolicyParameter (Some s)"
  "scanPolicyParameter old" enc_policy "\<lambda>s. policyWords s \<noteq> None" "\<lambda>s. (True, sentPolicy s)" "\<lambda>_ m. m" for old
  by unfold_locales (simp_all add: writes_policy scan_policy)

interpretation element_codec: parameter_codec "\<lambda>pe. createPoolElementParameter (Some pe) r"
  "scanPoolElementParameter r home" "enc_element r"
  "\<lambda>pe. element_sendable r pe \<and> (home \<longrightarrow> pen_HomeRegistrarIdentifier pe \<noteq> UNDEFINED_REGISTRAR_IDENTIFIER)"
  "\<lambda>pe. Some (sentElement r pe)" "\<lambda>_ m. m" for r home
  by unfold_locales (auto simp: writes_element element_sendable_wf scan_element)

definition server_sendable :: "PeerListNode \<Rightarrow> bool" where
  "server_sendable n \<longleftrightarrow> (\<exists>b. pln_AddressBlock n = Some b \<and> block_sendable b)"

interpretation server_codec: parameter_codec "\<lambda>n. createServerInformationParameter (Some n)"
  scanServerInformationParameter enc_server server_sendable
  "\<lambda>n. Some (peerListNodeNew (pln_Identifier n) 0 (map_option sentBlock (pln_AddressBlock n)))" "\<lambda>_ m. m"
  by unfold_locales
     (auto simp: server_sendable_def block_sendable_def scan_server intro: writes_server)

end
