(* ===== verification/RSP_HandleTable.thy ===== *)
theory RSP_HandleTable
  imports RSP_Purge
begin

text \<open>
  The handle tables a registrar sends to its peers
  (\<open>poolhandlespacemanagement-template_impl.h\<close>): the first block holds the first pool elements of
  the registrar in the order of the ownership storage, and a following block continues after the
  last pool element of the block before -- as long as the registrar owns another one.
\<close>

definition tableSize :: "nat \<Rightarrow> nat" where
  "tableSize n = (if n > NTE_MAX_POOL_ELEMENT_NODES then NTE_MAX_POOL_ELEMENT_NODES else n)"

definition tableBlock :: "PoolHandlespaceNode \<Rightarrow> HandleTableExtract \<Rightarrow> peName list \<Rightarrow> HandleTableExtract" where
  "tableBlock hs x ps = rememberLast hs (x\<lparr>hte_PoolElementNodeArray := ps\<rparr>)"

lemma table_block_array [simp]: "hte_PoolElementNodeArray (tableBlock hs x ps) = ps"
  by (simp add: tableBlock_def rememberLast_def Let_def)

lemma handle_of_pool:
  assumes "hs_struct hs" "p \<in> elements hs"
  shows "ph_wf (pn_Handle (poolAt hs (fst p)))" "ph_bytes (pn_Handle (poolAt hs (fst p))) = fst p"
proof -
  obtain pn where pn: "hsn_PoolNodes hs (fst p) = Some pn" using assms(2) by (auto simp: elements_def)
  then have "pool_ok (fst p) pn" using assms(1) by (simp add: hs_struct_def pools_wf_def)
  then show "ph_wf (pn_Handle (poolAt hs (fst p)))" "ph_bytes (pn_Handle (poolAt hs (fst p))) = fst p"
    using pn by (simp_all add: pool_ok_def poolAt_def)
qed

lemma owned_prefix:
  assumes st: "hs_struct hs" and s: "ownedBy r hs = xs @ ys"
  shows "ownedFrom k hs (case ys of [] \<Rightarrow> None | q # _ \<Rightarrow> Some q) = take k ys"
  using s
proof (induction k arbitrary: xs ys)
  case (Suc k)
  show ?case
  proof (cases ys)
    case (Cons p ps)
    then have "ownedBy r hs = xs @ p # ps" "ownedBy r hs = (xs @ [p]) @ ps" using Suc.prems by simp_all
    from next_owned [OF st this(1)] Suc.IH [OF this(2)] show ?thesis by (simp add: Cons)
  qed simp
qed simp

lemma nearest_after:
  assumes st: "hs_struct hs" and s: "ownershipNames hs = us @ p # vs" and h: "ph_wf handle" "ph_bytes handle = fst p"
    and r: "pen_HomeRegistrarIdentifier (elementAt hs p) = r"
  shows "poolHandlespaceNodeFindNearestNextPoolElementOwnershipNode hs r handle (snd p) =
    Inr (case vs of [] \<Rightarrow> None | q # _ \<Rightarrow> Some q)"
proof -
  let ?t = "hsn_PoolElementOwnershipStorage hs" and ?e = "ownershipEntry p (elementAt hs p)"
  note l = ownership_names(4) [OF st]
  have wf: "rbt_wf poolElementOwnershipStorageNodeComparison ?t" using l by (simp add: owner_links.links_def)
  have k: "?e \<in> keys ?t" using owner_links.links_in [OF l, of p] s by simp
  then have "findEntry poolElementOwnershipStorageNodeComparison ?e (contents ?t) \<noteq> None"
    by (simp add: owners.find_entry keys_def)
  from owners.neighbours_ok(2) [OF wf this]
  have "RedBlackTreeGetNearestNext poolElementOwnershipStorageNodeComparison ?t ?e =
      RedBlackTreeGetNext poolElementOwnershipStorageNodeComparison ?t ?e"
    by (simp add: owners.nearest_ok(2) [OF wf])
  moreover have "map_option ofOwnershipEntry (RedBlackTreeGetNext poolElementOwnershipStorageNodeComparison ?t ?e) =
      (case vs of [] \<Rightarrow> None | q # _ \<Rightarrow> Some q)"
    using owner_links.chain [OF l] s unfolding adjacent_def ownershipNames_def by blast
  ultimately show ?thesis
    using h r by (simp add: poolHandlespaceNodeFindNearestNextPoolElementOwnershipNode_def cmp_handle ownershipEntry_def)
qed

lemma table_start:
  assumes st: "hs_struct hs" and f: "flags AND HTEF_START \<noteq> 0" and n: "0 < n"
  shows "getOwnershipHandleTable hs x r flags n =
    Inr (ownedBy r hs \<noteq> [], tableBlock hs x (take (tableSize n) (ownedBy r hs)))"
proof -
  have "poolHandlespaceNodeGetFirstPoolElementOwnershipNodeForIdentifier hs r = Inr (case ownedBy r hs of [] \<Rightarrow> None | p # _ \<Rightarrow> Some p)"
    using owned_nodes_ok(1) [OF st, of r] by (simp add: ownedBy_def)
  moreover have "ownedFrom k hs (case ownedBy r hs of [] \<Rightarrow> None | p # _ \<Rightarrow> Some p) = take k (ownedBy r hs)" for k
    using owned_prefix [OF st, of r "[]" "ownedBy r hs"] by simp
  moreover have "tableSize n \<noteq> 0" using n by (simp add: tableSize_def)
  ultimately show ?thesis using f
    by (simp add: getOwnershipHandleTable_def Let_def tableSize_def [symmetric] tableBlock_def [symmetric])
qed

text \<open>The pool element the last block ended with.\<close>

definition lastSent :: "PoolHandlespaceNode \<Rightarrow> HandleTableExtract \<Rightarrow> peName \<Rightarrow> bool" where
  "lastSent hs x p \<longleftrightarrow> hte_LastPoolHandle x = pn_Handle (poolAt hs (fst p)) \<and> hte_LastPoolElementIdentifier x = snd p"

lemma table_block_last: "ps \<noteq> [] \<Longrightarrow> lastSent hs (tableBlock hs x ps) (last ps)"
  by (simp add: lastSent_def tableBlock_def rememberLast_def Let_def)

lemma table_next:
  assumes st: "hs_struct hs" and f: "flags AND HTEF_START = 0" and n: "0 < n"
    and s: "ownershipNames hs = us @ p # vs" and r: "pen_HomeRegistrarIdentifier (elementAt hs p) = r"
    and l: "lastSent hs x p"
  shows "getOwnershipHandleTable hs x r flags n =
    (let ps = ownedFrom (tableSize n) hs (case vs of [] \<Rightarrow> None | q # _ \<Rightarrow> Some q) in Inr (ps \<noteq> [], tableBlock hs x ps))"
proof -
  have "p \<in> elements hs" using ownership_names(2) [OF st] s by auto
  note h = handle_of_pool [OF st this]
  show ?thesis using f n l nearest_after [OF st s h r]
    by (simp add: getOwnershipHandleTable_def Let_def tableSize_def lastSent_def tableBlock_def [symmetric])
qed

lemma owned_position:
  assumes st: "hs_struct hs" and s: "ownedBy r hs = xs @ p # ys"
  shows "\<exists>us vs. ownershipNames hs = us @ p # ys @ vs" "pen_HomeRegistrarIdentifier (elementAt hs p) = r"
proof -
  let ?P = "\<lambda>p. pen_HomeRegistrarIdentifier (elementAt hs p) = r"
  obtain us vs where "ownershipNames hs = us @ ownedBy r hs @ vs"
    using group_split [OF owner_links.names_sorted [OF ownership_names(4) [OF st]], of ?P] owner_group.convex
    unfolding ownedBy_def ownershipNames_def by (metis (no_types, lifting))
  then have "ownershipNames hs = (us @ xs) @ p # ys @ vs" using s by simp
  then show "\<exists>us vs. ownershipNames hs = us @ p # ys @ vs" by blast
  have "p \<in> set (ownedBy r hs)" using s by simp
  then show "?P p" by (simp add: ownedBy_def)
qed

lemma table_continues:
  assumes st: "hs_struct hs" and f: "flags AND HTEF_START = 0" and n: "0 < n"
    and s: "ownedBy r hs = xs @ p # ys" and ys: "ys \<noteq> []" and l: "lastSent hs x p"
  shows "getOwnershipHandleTable hs x r flags n = Inr (True, tableBlock hs x (take (tableSize n) ys))"
proof -
  obtain us vs where o: "ownershipNames hs = us @ p # ys @ vs" using owned_position(1) [OF st s] by blast
  have "ownedBy r hs = (xs @ [p]) @ ys" using s by simp
  from owned_prefix [OF st this, of "tableSize n"] ys
  have "ownedFrom (tableSize n) hs (case ys @ vs of [] \<Rightarrow> None | q # _ \<Rightarrow> Some q) = take (tableSize n) ys"
    by (cases ys) simp_all
  moreover have "tableSize n \<noteq> 0" using n by (simp add: tableSize_def)
  ultimately show ?thesis using table_next [OF st f n o owned_position(2) [OF st s] l] ys by (simp add: Let_def)
qed

text \<open>
  After the last pool element of the registrar the block continues with the pool elements of the
  next registrar in the storage.
\<close>

lemma table_leaks:
  assumes st: "hs_struct hs" and f: "flags AND HTEF_START = 0" and n: "0 < n"
    and s: "ownershipNames hs = us @ p # q # vs" and r: "pen_HomeRegistrarIdentifier (elementAt hs p) = r"
    and l: "lastSent hs x p"
  shows "\<exists>ps. getOwnershipHandleTable hs x r flags n = Inr (True, tableBlock hs x (q # ps))"
proof -
  obtain k where "tableSize n = Suc k" using n by (cases "tableSize n") (auto simp: tableSize_def split: if_splits)
  then show ?thesis using table_next [OF st f n s r l] by (simp add: Let_def) blast
qed

end
