(* ===== verification/RSP_Examples.thy ===== *)
theory RSP_Examples
  imports RSP_Safety RSP_Roundtrip RSP_HandleTable
begin

text \<open>
  Concrete inputs: a transport address block, a message buffer, and the handlespace that three
  registrations with two registrars lead to.
\<close>

definition exampleBlock :: TransportAddressBlock where
  "exampleBlock = \<lparr>tab_Protocol = IPPROTO_SCTP, tab_Port = 3863, tab_Flags = 1,
     tab_AddressArray = [SA_in 3863 0x0a000001, SA_in6 3863 0 0x20010db8000000000000000000000001 0]\<rparr>"

definition exampleMessage :: RSerPoolMessage where
  "exampleMessage = rserpoolMessageNew 1 True (replicate 256 0) 256"

lemma example_facts:
  "block_sendable exampleBlock" "length (enc_transport exampleBlock) = 36"
  "gMemory exampleMessage" "k \<le> 256 \<Longrightarrow> fits k exampleMessage" "Position exampleMessage = 0"
  by (code_simp, code_simp, simp_all add: exampleMessage_def rserpoolMessageNew_def fits_def)

section \<open>A handlespace\<close>

definition exampleHandle :: PoolHandle where
  "exampleHandle = \<lparr>ph_Size = 4, ph_Handle = [0x45, 0x63, 0x68, 0x6f] @ replicate 28 0\<rparr>"

definition exampleName :: handleName where
  "exampleName = [0x45, 0x63, 0x68, 0x6f]"

definition examplePolicy :: PoolPolicySettings where
  "examplePolicy = poolPolicySettingsNew\<lparr>pps_PolicyType := PPT_ROUNDROBIN, pps_Weight := 1\<rparr>"

definition exampleBlock1 :: TransportAddressBlock where
  "exampleBlock1 = exampleBlock\<lparr>tab_Flags := 0\<rparr>"

definition exampleRequests :: "Request list" where
  "exampleRequests = map (\<lambda>(r, i). RegisterRequest exampleHandle r i 30000 examplePolicy exampleBlock1 None 5 7 1000) [(1, 1), (2, 2), (1, 3)]"

definition exampleManagement :: PoolHandlespaceManagement where
  "exampleManagement = snd (projr (runRequests (\<lambda>_. 0) exampleRequests (poolHandlespaceManagementNew True 1)))"

lemma management_new [simp]:
  "hsm_Handlespace (poolHandlespaceManagementNew mem r) = poolHandlespaceNodeNew r"
  "hsm_Memory (poolHandlespaceManagementNew mem r) = mem"
  "hs_wf (poolHandlespaceNodeNew r)" "elements (poolHandlespaceNodeNew r) = {}" "hsn_PoolNodes (poolHandlespaceNodeNew r) = (\<lambda>_. None)"
  "registry (poolHandlespaceNodeNew r) = (\<lambda>_. None)"
  using poolHandlespaceNodeNew_wf [of r]
  by (simp_all add: poolHandlespaceManagementNew_def poolHandlespaceNodeNew_def registry_def fun_eq_iff)

lemma example_length: "length exampleRequests = 3"
  by (simp add: exampleRequests_def)

definition exampleEntry :: "u32 \<Rightarrow> u32 \<Rightarrow> RegistryEntry" where
  "exampleEntry r i = newEntry None (poolElementNodeNew i r 30000 examplePolicy (Some exampleBlock1) None 5 7) 1000"

lemma example_handle: "ph_wf exampleHandle" "ph_bytes exampleHandle = exampleName" "canonicalHandle exampleHandle = exampleHandle"
  by code_simp+

lemma example_policy: "poolPolicyGetPoolPolicyByType PPT_ROUNDROBIN = Some (hd PoolPolicyArray)" "pp_Type (hd PoolPolicyArray) = PPT_ROUNDROBIN"
  "hd PoolPolicyArray \<in> set PoolPolicyArray" "pp_ComparisonFunction (hd PoolPolicyArray) = roundRobinComparison" "pp_DefaultMaxIncrement (hd PoolPolicyArray) = 1"
  by (simp_all add: poolPolicyGetPoolPolicyByType_def PoolPolicyArray_def policyEntry_def)

lemma example_block1: "tab_Protocol exampleBlock1 = IPPROTO_SCTP" "tab_Port exampleBlock1 = 3863" "tab_Flags exampleBlock1 = 0"
  "length (tab_AddressArray exampleBlock1) = 2"
  by (simp_all add: exampleBlock1_def exampleBlock_def)

lemma example_settings: "poolPolicySettingsIsValid examplePolicy" "poolPolicySettingsAdapt examplePolicy PPT_ROUNDROBIN" "pps_PolicyType examplePolicy = PPT_ROUNDROBIN"
  by code_simp+

definition examplePool :: PoolNode where
  "examplePool = requestPool exampleHandle (hd PoolPolicyArray) exampleBlock1"

lemma example_pool: "pn_Protocol examplePool = IPPROTO_SCTP" "pn_Flags examplePool = 0" "pn_Policy examplePool = hd PoolPolicyArray"
  by (simp_all add: examplePool_def requestPool_def poolNodeNew_def example_block1)

lemma example_compatible:
  "i \<noteq> 0 \<Longrightarrow> poolNodeCheckPoolElementNodeCompatibility examplePool
     (poolElementNodeNew i r 30000 examplePolicy (Some exampleBlock1) None 5 7) = Inr RSPERR_OKAY"
  by (simp add: poolNodeCheckPoolElementNodeCompatibility_def poolElementNodeNew_def example_pool example_policy example_block1
      example_settings)

lemma example_step:
  "i \<noteq> 0 \<Longrightarrow> rg_Pools R exampleName \<in> {None, Some (pool_attrs examplePool)} \<Longrightarrow> rg_Entries R (exampleName, i) = None \<Longrightarrow>
     specRequest (RegisterRequest exampleHandle r i 30000 examplePolicy exampleBlock1 None 5 7 1000) R =
       (RSPERR_OKAY, \<lparr>rg_Pools = (rg_Pools R)(exampleName \<mapsto> pool_attrs examplePool),
                      rg_Entries = (rg_Entries R)((exampleName, i) \<mapsto> exampleEntry r i)\<rparr>)"
  using example_handle(1)
  by (auto simp: example_handle example_policy example_settings ph_wf_def examplePool_def [symmetric] check_attrs example_compatible
      exampleEntry_def Let_def)

lemma example_spec:
  "specRequests exampleRequests (abstraction (poolHandlespaceNodeNew 1)) =
    ([RSPERR_OKAY, RSPERR_OKAY, RSPERR_OKAY],
     \<lparr>rg_Pools = [exampleName \<mapsto> pool_attrs examplePool],
      rg_Entries = [(exampleName, 1) \<mapsto> exampleEntry 1 1, (exampleName, 2) \<mapsto> exampleEntry 2 2, (exampleName, 3) \<mapsto> exampleEntry 1 3]\<rparr>)"
proof -
  have e: "abstraction (poolHandlespaceNodeNew 1) = \<lparr>rg_Pools = (\<lambda>_. None), rg_Entries = (\<lambda>_. None)\<rparr>"
    using poolHandlespaceNodeNew_wf(2) [of 1]
    by (simp add: abstraction_def registry_def fun_eq_iff attrs_def poolHandlespaceNodeNew_def)
  show ?thesis unfolding e exampleRequests_def by (simp add: example_step del: specRequest.simps)
qed

lemma example_requests_ok: "\<forall>rq \<in> set exampleRequests. request_ok N rq"
  by (simp add: exampleRequests_def example_handle)

lemma example_run:
  "runRequests (\<lambda>_. 0) exampleRequests (poolHandlespaceManagementNew True 1) = Inr ([RSPERR_OKAY, RSPERR_OKAY, RSPERR_OKAY], exampleManagement)"
  "hs_wf (hsm_Handlespace exampleManagement)"
  "attrs (hsm_Handlespace exampleManagement) = [exampleName \<mapsto> pool_attrs examplePool]"
  "registry (hsm_Handlespace exampleManagement) =
     [(exampleName, 1) \<mapsto> exampleEntry 1 1, (exampleName, 2) \<mapsto> exampleEntry 2 2, (exampleName, 3) \<mapsto> exampleEntry 1 3]"
  "hsn_HomeRegistrarIdentifier (hsm_Handlespace exampleManagement) = 1"
proof -
  let ?m = "poolHandlespaceManagementNew True 1"
  have m: "hsm_Handlespace ?m = poolHandlespaceNodeNew 1" "hsm_Memory ?m" by (simp_all add: poolHandlespaceManagementNew_def)
  have "hs_wf (hsm_Handlespace ?m)" "card (elements (hsm_Handlespace ?m)) + length exampleRequests \<le> 3"
    using poolHandlespaceNodeNew_wf [of 1] by (simp_all add: m exampleRequests_def)
  from requests_refine [OF this(1) m(2) example_requests_ok this(2), of "\<lambda>_. 0"] obtain m' where
    r: "runRequests (\<lambda>_. 0) exampleRequests ?m = Inr (fst (specRequests exampleRequests (abstraction (hsm_Handlespace ?m))), m')"
    "abstraction (hsm_Handlespace m') = snd (specRequests exampleRequests (abstraction (hsm_Handlespace ?m)))" "hs_wf (hsm_Handlespace m')"
    "hsn_HomeRegistrarIdentifier (hsm_Handlespace m') = hsn_HomeRegistrarIdentifier (hsm_Handlespace ?m)" by blast
  have x: "exampleManagement = m'" using r(1) by (simp add: exampleManagement_def)
  show "runRequests (\<lambda>_. 0) exampleRequests ?m = Inr ([RSPERR_OKAY, RSPERR_OKAY, RSPERR_OKAY], exampleManagement)"
    "hs_wf (hsm_Handlespace exampleManagement)"
    "attrs (hsm_Handlespace exampleManagement) = [exampleName \<mapsto> pool_attrs examplePool]"
    "registry (hsm_Handlespace exampleManagement) =
     [(exampleName, 1) \<mapsto> exampleEntry 1 1, (exampleName, 2) \<mapsto> exampleEntry 2 2, (exampleName, 3) \<mapsto> exampleEntry 1 3]"
    using r(1-3) unfolding m example_spec x by (simp_all add: abstraction_def)
  show "hsn_HomeRegistrarIdentifier (hsm_Handlespace exampleManagement) = 1"
    using r(4) unfolding m x by (simp add: poolHandlespaceNodeNew_def)
qed

lemma example_elements: "elements (hsm_Handlespace exampleManagement) = {(exampleName, 1), (exampleName, 2), (exampleName, 3)}"
  using arg_cong [OF example_run(4), of dom] by auto

lemma example_entry: "re_HomeRegistrarIdentifier (exampleEntry r i) = r" "re_ConnectionSocketDescriptor (exampleEntry r i) = 5"
  "re_ConnectionAssocID (exampleEntry r i) = 7" "re_RegistrationLife (exampleEntry r i) = 30000" "re_LastUpdateTimeStamp (exampleEntry r i) = 1000"
  "re_PolicySettings (exampleEntry r i) = examplePolicy"
  by (simp_all add: exampleEntry_def newEntry_def entryOf_def poolElementNodeNew_def)

lemma example_at:
  "entryOf (elementAt (hsm_Handlespace exampleManagement) (exampleName, 1)) = exampleEntry 1 1"
  "entryOf (elementAt (hsm_Handlespace exampleManagement) (exampleName, 2)) = exampleEntry 2 2"
  "entryOf (elementAt (hsm_Handlespace exampleManagement) (exampleName, 3)) = exampleEntry 1 3"
  using fun_cong [OF example_run(4), of "(exampleName, 1)"] fun_cong [OF example_run(4), of "(exampleName, 2)"]
    fun_cong [OF example_run(4), of "(exampleName, 3)"] by (simp_all add: registry_def example_elements)

lemma example_homes:
  "pen_HomeRegistrarIdentifier (elementAt (hsm_Handlespace exampleManagement) (exampleName, 1)) = 1"
  "pen_HomeRegistrarIdentifier (elementAt (hsm_Handlespace exampleManagement) (exampleName, 2)) = 2"
  "pen_HomeRegistrarIdentifier (elementAt (hsm_Handlespace exampleManagement) (exampleName, 3)) = 1"
  "pen_LastUpdateTimeStamp (elementAt (hsm_Handlespace exampleManagement) (exampleName, 1)) = 1000"
  using example_at [THEN arg_cong, of re_HomeRegistrarIdentifier] example_at(1) [THEN arg_cong, of re_LastUpdateTimeStamp]
  by (simp_all add: entryOf_def example_entry)

text \<open>One registration, and its expiry timer.\<close>

lemma example_timer:
  "\<exists>m hs. poolHandlespaceManagementRegisterPoolElement exampleHandle 1 9 30000 examplePolicy (Some exampleBlock1) None 5 7 1000
      (poolHandlespaceManagementNew True 1) = Inr (RSPERR_OKAY, Some (exampleName, 9), m) \<and>
    poolHandlespaceManagementRestartPoolElementExpiryTimer (exampleName, 9) 5000 m = Inr (withHandlespace m hs) \<and>
    hs_wf hs \<and> elements hs = {(exampleName, 9)} \<and> expired 7000 hs = {(exampleName, 9)} \<and>
    (\<forall>p \<in> set (timerNames hs). pen_TimerCode (elementAt hs p) = PENT_EXPIRY)"
proof -
  let ?m = "poolHandlespaceManagementNew True 1" and ?p = "(exampleName, 9)"
  have "targetPool (requestPool exampleHandle (hd PoolPolicyArray) exampleBlock1) (hsm_Handlespace ?m) = examplePool"
    by (simp add: targetPool_def examplePool_def)
  then obtain m where r: "poolHandlespaceManagementRegisterPoolElement exampleHandle 1 9 30000 examplePolicy (Some exampleBlock1) None 5 7 1000 ?m =
      Inr (RSPERR_OKAY, Some ?p, m)" "hs_wf (hsm_Handlespace m)" "registry (hsm_Handlespace m) = [?p \<mapsto> exampleEntry 1 9]"
      "hsn_PoolElementTimerStorage (hsm_Handlespace m) = hsn_PoolElementTimerStorage (hsm_Handlespace ?m)"
    using register_ok [of ?m exampleHandle examplePolicy "hd PoolPolicyArray" exampleBlock1 9 1 30000 None 5 7 1000]
    by (auto simp: example_handle example_policy example_settings compatible_def example_compatible exampleEntry_def)
  have e: "elements (hsm_Handlespace m) = {?p}" using arg_cong [OF r(3), of dom] by simp
  have "entryOf (elementAt (hsm_Handlespace m) ?p) = exampleEntry 1 9" using fun_cong [OF r(3), of ?p] e by (simp add: registry_def)
  from arg_cong [OF this, of re_LastUpdateTimeStamp]
  have t: "pen_LastUpdateTimeStamp (elementAt (hsm_Handlespace m) ?p) = 1000" by (simp add: entryOf_def example_entry)
  have n: "timerNames (hsm_Handlespace m) = []" using r(4)
    by (simp add: timerNames_alt poolHandlespaceNodeNew_def RedBlackTreeNew_wf)
  obtain hs where h: "poolHandlespaceManagementRestartPoolElementExpiryTimer ?p 5000 m = Inr (withHandlespace m hs)" "hs_wf hs" "elements hs = {?p}"
    "elementAt hs ?p = (elementAt (hsm_Handlespace m) ?p)\<lparr>pen_TimerCode := PENT_EXPIRY, pen_TimerTimeStamp := 6000\<rparr>" "set (timerNames hs) = {?p}"
    using restart_ok [OF r(2), of ?p 5000] e unfolding t n by auto
  have "expired 7000 hs = {?p}" using h(4,5) by (auto simp: expired_def)
  then show ?thesis using r h by (intro exI [of _ m] exI [of _ hs]) simp
qed

lemma example_split:
  "{p \<in> elements (hsm_Handlespace exampleManagement). pen_HomeRegistrarIdentifier (elementAt (hsm_Handlespace exampleManagement) p) = 1} =
     {(exampleName, 1), (exampleName, 3)}"
  "{p \<in> elements (hsm_Handlespace exampleManagement). pen_HomeRegistrarIdentifier (elementAt (hsm_Handlespace exampleManagement) p) \<noteq> 1} =
     {(exampleName, 2)}"
proof -
  have "q \<in> {p \<in> elements (hsm_Handlespace exampleManagement). pen_HomeRegistrarIdentifier (elementAt (hsm_Handlespace exampleManagement) p) = 1} \<longleftrightarrow>
      q = (exampleName, 1) \<or> q = (exampleName, 3)"
    "q \<in> {p \<in> elements (hsm_Handlespace exampleManagement). pen_HomeRegistrarIdentifier (elementAt (hsm_Handlespace exampleManagement) p) \<noteq> 1} \<longleftrightarrow>
      q = (exampleName, 2)" for q
    by (simp add: example_elements, cases "q = (exampleName, 1)"; cases "q = (exampleName, 2)"; cases "q = (exampleName, 3)"; simp add: example_homes)+
  then show "{p \<in> elements (hsm_Handlespace exampleManagement). pen_HomeRegistrarIdentifier (elementAt (hsm_Handlespace exampleManagement) p) = 1} =
     {(exampleName, 1), (exampleName, 3)}"
    "{p \<in> elements (hsm_Handlespace exampleManagement). pen_HomeRegistrarIdentifier (elementAt (hsm_Handlespace exampleManagement) p) \<noteq> 1} =
     {(exampleName, 2)}"
    by (intro set_eqI; simp only: insert_iff empty_iff simp_thms)+
qed

definition exampleExtract :: HandleTableExtract where
  "exampleExtract = \<lparr>hte_LastPoolHandle = exampleHandle, hte_LastPoolElementIdentifier = 0, hte_PoolElementNodeArray = []\<rparr>"

lemma two_list: "distinct xs \<Longrightarrow> set xs = {a, b} \<Longrightarrow> a \<noteq> b \<Longrightarrow> \<exists>p q. xs = [p, q] \<and> {p, q} = {a, b}"
proof -
  assume d: "distinct xs" "set xs = {a, b}" "a \<noteq> b"
  have "length xs = 2" using distinct_card [OF d(1)] d(2,3) by simp
  then obtain p q where "xs = [p, q]" by (auto simp: numeral_2_eq_2 length_Suc_conv)
  then show ?thesis using d(2) by auto
qed

lemma example_owned: "\<exists>p q. ownedBy 1 (hsm_Handlespace exampleManagement) = [p, q] \<and> {p, q} = {(exampleName, 1), (exampleName, 3)}"
proof (rule two_list)
  have st: "hs_struct (hsm_Handlespace exampleManagement)" using example_run(2) by (simp add: hs_wf_struct)
  show "distinct (ownedBy 1 (hsm_Handlespace exampleManagement))" by (rule ownedBy_set(1) [OF st])
  show "set (ownedBy 1 (hsm_Handlespace exampleManagement)) = {(exampleName, 1), (exampleName, 3)}"
    using ownedBy_set(3) [OF st, of 1] example_split(1) by simp
qed simp

lemma example_ownership:
  "\<exists>us p. ownershipNames (hsm_Handlespace exampleManagement) = us @ [p, (exampleName, 2)] \<and> p \<in> {(exampleName, 1), (exampleName, 3)}"
proof -
  let ?hs = "hsm_Handlespace exampleManagement"
  have st: "hs_struct ?hs" using example_run(2) by (simp add: hs_wf_struct)
  obtain p q where o: "ownedBy 1 ?hs = [p, q]" "{p, q} = {(exampleName, 1), (exampleName, 3)}" using example_owned by blast
  have s: "set (ownershipNames ?hs) = {(exampleName, 1), (exampleName, 2), (exampleName, 3)}" "distinct (ownershipNames ?hs)"
    using ownership_names(1-3) [OF st] by (auto simp: example_elements example_homes)
  have sorted: "sorted_wrt (\<lambda>p q. poolElementOwnershipStorageNodeComparison (ownershipEntry p (elementAt ?hs p)) (ownershipEntry q (elementAt ?hs q)) < 0) (ownershipNames ?hs)"
    using owner_links.names_sorted [OF ownership_names(4) [OF st]] by (simp add: ownershipNames_def)
  obtain us vs where g: "ownershipNames ?hs = us @ [p, q] @ vs"
    using owned_position(1) [OF st, of 1 "[]" p "[q]"] o(1) by auto
  have "length (ownershipNames ?hs) = 3" using distinct_card [OF s(2)] s(1) by simp
  then have l: "length us + length vs = 1" using g by simp
  have "us = []"
  proof (rule ccontr)
    assume "us \<noteq> []"
    then obtain u where u: "us = [u]" "vs = []" using l by (cases us) auto
    then have "u = (exampleName, 2)" using s g o(2) by (auto simp: doubleton_eq_iff)
    then show False using sorted g u o(2) by (auto simp: doubleton_eq_iff example_homes ownershipEntry_def cmp_key_neg)
  qed
  then obtain v where v: "vs = [v]" using l by (cases vs) auto
  have "set (ownershipNames ?hs) = Set.insert v {p, q}" using g \<open>us = []\<close> v by (simp add: insert_commute)
  then have "set (ownershipNames ?hs) = Set.insert v {(exampleName, 1), (exampleName, 3)}" unfolding o(2) .
  then have "(exampleName, 2) \<in> Set.insert v {(exampleName, 1), (exampleName, 3)}" using s(1) by blast
  then have "v = (exampleName, 2)" by simp
  moreover have "q \<in> {(exampleName, 1), (exampleName, 3)}" unfolding o(2) [symmetric] by simp
  ultimately show ?thesis using g \<open>us = []\<close> v by (intro exI [of _ "[p]"] exI [of _ q]) simp
qed

text \<open>The pool of the three registrations.\<close>

definition echoPool :: PoolNode where
  "echoPool = poolAt (hsm_Handlespace exampleManagement) exampleName"

lemma echo_pool:
  "pool_wf echoPool" "pool_nodes echoPool = {1, 2, 3}" "distinct (selectionOrder echoPool)" "set (selectionOrder echoPool) = {1, 2, 3}"
  "length (selectionOrder echoPool) = 3" "pn_Policy echoPool = hd PoolPolicyArray" "round_robin_pool echoPool"
proof -
  let ?hs = "hsm_Handlespace exampleManagement"
  from example_run(3) have a: "attrs ?hs exampleName = Some (pool_attrs examplePool)" by simp
  then obtain pn where pn: "hsn_PoolNodes ?hs exampleName = Some pn" "pool_attrs pn = pool_attrs examplePool" by (auto simp: attrs_def)
  have e: "echoPool = pn" using pn(1) by (simp add: echoPool_def poolAt_def)
  have "pool_ok exampleName pn" using example_run(2) pn(1) by (simp add: hs_wf_def pools_wf_def)
  then show w: "pool_wf echoPool" by (simp add: pool_ok_def e)
  have "i \<in> pool_nodes pn \<longleftrightarrow> (exampleName, i) \<in> elements ?hs" for i using pn(1) by (simp add: elements_def)
  then show n: "pool_nodes echoPool = {1, 2, 3}" by (auto simp: e example_elements)
  show d: "distinct (selectionOrder echoPool)" by (rule selectionOrder_distinct [OF pool_wfD(3) [OF w]])
  show s: "set (selectionOrder echoPool) = {1, 2, 3}" using pool_wfD(3) [OF w] n by (simp add: sel_inv_def)
  show "length (selectionOrder echoPool) = 3" using distinct_card [OF d] s by simp
  show p: "pn_Policy echoPool = hd PoolPolicyArray" using pn(2) by (simp add: e pool_attrs_def example_pool)
  show "round_robin_pool echoPool" by (simp add: round_robin_pool_def p example_policy)
qed

end
