(* ===== verification/RSP_PeerExamples.thy ===== *)
theory RSP_PeerExamples
  imports RSP_PeerSteps RSP_Examples
begin

text \<open>
  Concrete peers: two static peers whose timers run out at the same time, and a registrar with
  one and with two dynamic peers.
\<close>

definition peerBlock :: "u32 \<Rightarrow> TransportAddressBlock option" where
  "peerBlock a = Some \<lparr>tab_Protocol = IPPROTO_SCTP, tab_Port = 9901, tab_Flags = 0, tab_AddressArray = [SA_in 9901 a]\<rparr>"

lemma peerBlock_inet [simp]: "inetBlock (peerBlock a)"
  by (simp add: inetBlock_def peerBlock_def inet_def)

definition timedPeer :: "u32 \<Rightarrow> u32 \<Rightarrow> PeerListNode" where
  "timedPeer i a = (peerListNodeNew i 0 (peerBlock a))\<lparr>pln_TimerTimeStamp := 100\<rparr>"

definition twoPeers :: PeerList where
  "twoPeers = \<lparr>pl_Nodes = [1 \<mapsto> timedPeer 5 1, 2 \<mapsto> timedPeer 7 2],
     pl_Index = \<lparr>rbt_Root = Node Black NullNode 1 1 2 (Node Red NullNode 2 1 1 NullNode), rbt_Elements = 2\<rparr>,
     pl_Timer = \<lparr>rbt_Root = Node Black NullNode 1 0 0 (Node Red NullNode 2 0 0 NullNode), rbt_Elements = 2\<rparr>,
     pl_OwnIdentifier = 1\<rparr>"

section \<open>Dynamic peers\<close>

lemma new_facts [simp]:
  "peers (plm_List (peerListManagementNew mem own)) = {}" "timed (plm_List (peerListManagementNew mem own)) = {}"
  "pl_OwnIdentifier (plm_List (peerListManagementNew mem own)) = own" "plm_Memory (peerListManagementNew mem own) = mem"
  by (simp_all add: peerListManagementNew_def peerListNew_def peers_def timed_def keys_def contents_def RedBlackTreeNew_def)

lemma calm_untimed: "timed pl = {} \<Longrightarrow> calm pl"
  by (simp add: calm_def)

text \<open>A registrar that knows no peer, and one that knows the registrar \<open>i\<close> by its presence.\<close>

lemma peer_present:
  assumes i: "i \<noteq> 0" "i \<noteq> j" and s: "space_ok (Some hs)"
  obtains p m where "peerListManagementRegisterPeerListNode 1 (Some hs) i 1 (peerBlock 9) 0 (peerListManagementNew True j) = Inr (RSPERR_OKAY, Some (Some p), m)"
    "management_ok m" "peers (plm_List m) = {p}" "timed (plm_List m) = {}" "pln_Identifier (peerAt (plm_List m) p) = i"
    "pl_OwnIdentifier (plm_List m) = j" "plm_Memory m" "peer_step 1 (peerListManagementNew True j) m" "synchronised hs m"
proof -
  let ?m = "peerListManagementNew True j"
  have c: "calm (plm_List ?m)" by (simp add: calm_untimed)
  have f: "(1 :: u32) AND PLNF_DYNAMIC \<noteq> 0" by simp
  obtain p m where r: "peerListManagementRegisterPeerListNode 1 (Some hs) i 1 (peerBlock 9) 0 ?m = Inr (RSPERR_OKAY, Some (Some p), m)"
    "management_ok m" "only p ?m m" "p \<in> peers (plm_List m)" "timed (plm_List m) = timed (plm_List ?m)" "pln_Identifier (peerAt (plm_List m) p) = i"
    "pln_OwnershipChecksum (peerAt (plm_List m) p) = checksumOf i hs"
    using register_dynamic [OF management_new_ok _ _ peerBlock_inet f c s, of i 1 9 0 ] i by auto
  have "peers (plm_List m) = {p}" using r(3,4) by (auto simp: only_def)
  moreover from this have "synchronised hs m" using r(6,7) by (simp add: synchronised_def)
  moreover have "pl_OwnIdentifier (plm_List m) = j" "plm_Memory m" using r(3) by (simp_all add: only_def)
  moreover have "peer_step 1 ?m m" by (rule peer_step.register_step [OF peerBlock_inet _ s r(1)]) (simp add: c)
  ultimately show thesis using that r by simp
qed

lemma one_peer:
  obtains p m where "peerListManagementRegisterPeerListNode 1 (Some (poolHandlespaceNodeNew 1)) 5 1 (peerBlock 9) 0 (peerListManagementNew True 1) = Inr (RSPERR_OKAY, Some (Some p), m)"
    "management_ok m" "peers (plm_List m) = {p}" "timed (plm_List m) = {}" "pln_Identifier (peerAt (plm_List m) p) = 5"
    "pl_OwnIdentifier (plm_List m) = 1" "plm_Memory m" "peer_step 1 (peerListManagementNew True 1) m"
    "synchronised (poolHandlespaceNodeNew 1) m"
proof -
  have s: "space_ok (Some (poolHandlespaceNodeNew 1))" by (simp add: space_ok_def)
  show thesis by (rule peer_present [OF _ _ s, of 5 1]) (use that in auto)
qed

end
