(* ===== verification/RSP_RegistrarExamples.thy ===== *)
theory RSP_RegistrarExamples
  imports RSP_ElementTimers RSP_RegistrationLaws RSP_Permissions RSP_PeerExamples
begin

text \<open>
  A concrete registrar: it has the identifier 1, its handlespace has two pool elements of its own and
  one of the registrar 2, which is its only peer.
\<close>

definition exampleEnvironment :: Environment where
  "exampleEnvironment = \<lparr>env_Now = 5000000, env_Random = (\<lambda>_. 0), env_LocalAddresses = (\<lambda>_ _. []), env_PeerAddresses = (\<lambda>_ _. []),
     env_SRTT = (\<lambda>_ _. None), env_Memory = True, env_LogLevel = 1\<rparr>"

lemma example_environment [simp]: "env_Memory exampleEnvironment" "env_LogLevel exampleEnvironment = 1" "env_Now exampleEnvironment = 5000000"
  by (simp_all add: exampleEnvironment_def)

definition newRegistrar :: Registrar where
  "newRegistrar = the (registrarNew exampleEnvironment 1 10 11 12 13 14 False (SA_in 3863 1) False (SA_in 9901 1))"

lemma new_registrar [simp]: "pr_ServerID newRegistrar = 1" "pr_PoolUsers newRegistrar = poolUserListNew" "pr_Outputs newRegistrar = []"
  "pr_EndpointKeepAliveTimeoutInterval newRegistrar = 5000000"
  by (simp_all add: newRegistrar_def registrarNew_def exampleEnvironment_def)

text \<open>The registrar waits for the acknowledgement of the registrar 7 for its takeover of the registrar 2.\<close>

lemma example_takeover:
  obtains r p tp where "reg_ok r" "pr_EndpointKeepAliveTimeoutInterval r = 5000000" "pl_OwnIdentifier (peersOf r) = 1" "pr_ServerID r = 1" "p \<in> peers (peersOf r)"
    "pln_Identifier (peerAt (peersOf r) p) = 2" "pln_TakeoverProcess (peerAt (peersOf r) p) = Some tp" "takeover_ok tp" "outstanding tp \<subseteq> {7}"
    "elements (handlespaceOf r) = elements (hsm_Handlespace exampleManagement)" "elementAt (handlespaceOf r) = elementAt (hsm_Handlespace exampleManagement)"
proof -
  let ?hs = "(hsm_Handlespace exampleManagement)\<lparr>hsn_Notifications := []\<rparr>"
  have wf: "hs_wf ?hs" using example_run(2) by simp
  have s: "space_ok (Some ?hs)" using wf example_homes by (simp add: space_ok_def)
  show thesis
  proof (rule peer_present [OF _ _ s, of 2 1])
    fix p m assume m: "management_ok m" "peers (plm_List m) = {p}" "pln_Identifier (peerAt (plm_List m) p) = 2"
      "pl_OwnIdentifier (plm_List m) = 1" "synchronised ?hs m"
    let ?r = "newRegistrar\<lparr>pr_Handlespace := withHandlespace (poolHandlespaceManagementNew True 1) ?hs, pr_Peers := m\<rparr>"
    let ?tp = "\<lparr>tp_OutstandingAcks = 1, tp_PeerIDArray = [7]\<rparr>"
    have ok: "reg_ok ?r" using wf m example_run(5) list_new_wf by (simp add: reg_ok_def withHandlespace_def)
    let ?f = "\<lambda>n. n\<lparr>pln_TakeoverProcess := Some ?tp\<rparr>"
    have p: "p \<in> peers (peersOf ?r)" using m(2) by simp
    note u = registrar_update_peer [where f = ?f, OF ok p]
    show thesis
      by (rule that [of "updatePeer p ?f ?r" p ?tp])
         (use u m sameConfigD(4) [OF sameConfig_updates(6), of p ?f ?r] in \<open>simp_all add: withHandlespace_def takeover_ok_def outstanding_def\<close>)
  qed simp_all
qed

text \<open>A registrar whose only timer is that of its pool element 1, at 100; it has the peer 2.\<close>

lemma no_timers:
  assumes "reg_ok r"
  shows "\<exists>r'. reg_ok r' \<and> quiet r r' \<and> pr_Peers r' = pr_Peers r \<and> elements (handlespaceOf r') = elements (handlespaceOf r) \<and>
    elementAt (handlespaceOf r') = elementAt (handlespaceOf r) \<and> set (timerNames (handlespaceOf r')) = set (timerNames (handlespaceOf r)) - set ps"
  using assms
proof (induction ps arbitrary: r)
  case (Cons p ps)
  obtain r1 where d: "reg_ok r1" "quiet r r1" "pr_Peers r1 = pr_Peers r" "elements (handlespaceOf r1) = elements (handlespaceOf r)"
    "elementAt (handlespaceOf r1) = elementAt (handlespaceOf r)" "timerNames (handlespaceOf r1) = filter (\<lambda>q. q \<noteq> p) (timerNames (handlespaceOf r))"
    by (rule deactivate_timer [OF Cons.prems, of p])
  from Cons.IH [OF d(1)] obtain r' where i: "reg_ok r'" "quiet r1 r'" "pr_Peers r' = pr_Peers r1" "elements (handlespaceOf r') = elements (handlespaceOf r1)"
    "elementAt (handlespaceOf r') = elementAt (handlespaceOf r1)" "set (timerNames (handlespaceOf r')) = set (timerNames (handlespaceOf r1)) - set ps" by (elim exE conjE)
  have "set (timerNames (handlespaceOf r')) = set (timerNames (handlespaceOf r)) - set (p # ps)" unfolding i(6) d(6) by auto
  then show ?case using i(1-5) d(3-5) quiet_trans [OF d(2) i(2)] by (intro exI [of _ r']) simp
qed (auto simp: quiet_def)

lemma example_due:
  obtains r where "reg_ok r" "pr_ServerID r = 1" "dueTimers 5000000 (handlespaceOf r) = [(exampleName, 1)]"
    "timer_ok (elementAt (handlespaceOf r) (exampleName, 1))" "isPoll (elementAt (handlespaceOf r) (exampleName, 1))"
    "pr_EndpointKeepAliveTimeoutInterval r = 5000000"
proof (rule example_takeover)
  fix r p tp assume e: "reg_ok r" "pr_ServerID r = 1" "pr_EndpointKeepAliveTimeoutInterval r = 5000000"
    "elements (handlespaceOf r) = elements (hsm_Handlespace exampleManagement)" "elementAt (handlespaceOf r) = elementAt (hsm_Handlespace exampleManagement)"
  let ?p = "(exampleName, 1)"
  from no_timers [OF e(1), of "[(exampleName, 1), (exampleName, 2), (exampleName, 3)]"] obtain r1 where
    r1: "reg_ok r1" "quiet r r1" "elements (handlespaceOf r1) = elements (handlespaceOf r)" "elementAt (handlespaceOf r1) = elementAt (handlespaceOf r)"
    "set (timerNames (handlespaceOf r1)) = set (timerNames (handlespaceOf r)) - set [(exampleName, 1), (exampleName, 2), (exampleName, 3)]" by (elim exE conjE)
  have "set (timerNames (handlespaceOf r1)) = {}"
    using timer_names(2) [OF reg_okD(8) [OF e(1)]] unfolding r1(5) e(4) example_elements by simp
  then have none: "timerNames (handlespaceOf r1) = []" by simp
  have p1: "?p \<in> elements (handlespaceOf r1)" "?p \<notin> set (timerNames (handlespaceOf r1))" using none by (simp_all add: r1(3) e(4) example_elements)
  obtain r2 where r2: "reg_ok r2" "quiet r1 r2"
    "elementAt (handlespaceOf r2) = (elementAt (handlespaceOf r1))(?p := (elementAt (handlespaceOf r1) ?p)\<lparr>pen_TimerCode := PENT_KEEPALIVE_TRANSMISSION, pen_TimerTimeStamp := 100\<rparr>)"
    "set (timerNames (handlespaceOf r2)) = Set.insert ?p (set (timerNames (handlespaceOf r1)))"
    by (rule activate_timer [OF r1(1) p1, of PENT_KEEPALIVE_TRANSMISSION 100])
  have "timerNames (handlespaceOf r2) = [?p]"
  proof -
    have "set (timerNames (handlespaceOf r2)) = set [?p]" using r2(4) none by simp
    moreover from this have "length (timerNames (handlespaceOf r2)) = 1"
      using distinct_card [OF timer_names(1) [OF reg_okD(8) [OF r2(1)]]] by simp
    ultimately show ?thesis by (cases "timerNames (handlespaceOf r2)") auto
  qed
  then have "dueTimers 5000000 (handlespaceOf r2) = [?p]" by (simp add: dueTimers_def r2(3))
  moreover have "pen_ConnectionSocketDescriptor (elementAt (handlespaceOf r1) ?p) = 5"
    using example_at(1) [THEN arg_cong, of re_ConnectionSocketDescriptor] by (simp add: r1(4) e(5) entryOf_def example_entry)
  moreover note sameConfigD(1,4) [OF quietD(1) [OF quiet_trans [OF r1(2) r2(2)]]]
  ultimately show thesis using that [OF r2(1)] e(2,3) by (simp add: r2(3) timer_ok_def contactable_def)
qed

text \<open>A registrar that has started a takeover of the registrar 2.\<close>

lemma example_contender:
  assumes j: "j \<noteq> 0" "j \<noteq> 2"
  obtains r p where "reg_ok r" "pr_ServerID r = j" "p \<in> peers (peersOf r)" "pln_Identifier (peerAt (peersOf r) p) = 2"
    "pln_TakeoverProcess (peerAt (peersOf r) p) \<noteq> None"
proof -
  have s: "space_ok (Some (poolHandlespaceNodeNew j))" by (simp add: space_ok_def)
  show thesis
  proof (rule peer_present [OF _ _ s, of 2 j])
    fix p m assume m: "management_ok m" "peers (plm_List m) = {p}" "pln_Identifier (peerAt (plm_List m) p) = 2"
      "synchronised (poolHandlespaceNodeNew j) m"
    let ?r = "newRegistrar\<lparr>pr_ServerID := j, pr_Handlespace := poolHandlespaceManagementNew True j, pr_Peers := m\<rparr>"
    let ?f = "\<lambda>n. n\<lparr>pln_TakeoverProcess := Some \<lparr>tp_OutstandingAcks = 1, tp_PeerIDArray = [7]\<rparr>\<rparr>"
    have ok: "reg_ok ?r" using m list_new_wf by (simp add: reg_ok_def) (simp add: poolHandlespaceNodeNew_def)
    have p: "p \<in> peers (peersOf ?r)" using m(2) by simp
    note u = registrar_update_peer [where f = ?f, OF ok p]
    show thesis by (rule that [of "updatePeer p ?f ?r" p]) (use u m in simp_all)
  qed (use j in simp_all)
qed

end
