(* ===== verification/RSP_RegistrarFaults.thy ===== *)
theory RSP_RegistrarFaults
  imports RSP_TakeoverLaws
begin

text \<open>
  Faults of the registrar that the model shows: a presence with an unusable identifier reads a pointer
  that has not been set, and a takeover that expires leaves the pool elements with the dead registrar.
\<close>

lemma presence_without_identifier:
  assumes "SenderID message \<noteq> pr_ServerID r" "PeerListNodePtr message = Some peer" "pln_Identifier peer = UNDEFINED_REGISTRAR_IDENTIFIER"
    and "presenceAddresses env fd a message peer r = Inr (Some block)"
  shows "registrarHandleENRPPresence env fd a message r = Inl NullAccess"
proof -
  have "(PLNF_DYNAMIC OR PLNF_NEW) AND PLNF_DYNAMIC \<noteq> 0" by simp
  then show ?thesis using assms by (simp add: registrarHandleENRPPresence_def peerListManagementRegisterPeerListNode_def)
qed

lemma expired_takeover_abandons:
  assumes ok: "reg_ok r" and p: "p \<in> peers (peersOf r)" "pln_Identifier (peerAt (peersOf r) p) \<noteq> 0"
    and tp: "pln_TakeoverProcess (peerAt (peersOf r) p) \<noteq> None"
  shows "\<exists>r'. takeoverExpired p r = Inr r' \<and> reg_ok r' \<and> pr_Handlespace r' = pr_Handlespace r \<and>
    (\<forall>q \<in> peers (peersOf r'). pln_Identifier (peerAt (peersOf r') q) \<noteq> pln_Identifier (peerAt (peersOf r) p))"
proof -
  let ?r = "updatePeer p (\<lambda>n. n\<lparr>pln_TakeoverProcess := None\<rparr>) r"
  note u = registrar_update_peer [where f = "\<lambda>n. n\<lparr>pln_TakeoverProcess := None\<rparr>", OF ok p(1)]
  have r: "reg_ok ?r" "p \<in> peers (peersOf ?r)" "pln_Identifier (peerAt (peersOf ?r) p) = pln_Identifier (peerAt (peersOf r) p)"
    using u p by simp_all
  obtain r' where "deregisterPeer p ?r = Inr r'" "reg_ok r'" "pr_Handlespace r' = pr_Handlespace ?r"
    "\<forall>q \<in> peers (peersOf r'). pln_Identifier (peerAt (peersOf r') q) \<noteq> pln_Identifier (peerAt (peersOf ?r) p)"
    by (rule deregister_peer_ok [OF r(1,2)]) (use p(2) r(3) in simp_all)
  then show ?thesis using tp r(3) by (intro exI [of _ r']) (simp add: takeoverExpired_def CHECK_def)
qed

end
