(* ===== verification/RSP_PacketSafety.thy ===== *)
theory RSP_PacketSafety
  imports RSP_Packet RSP_Safety RSP_Registry
begin

text \<open>
  Safety of whole packets: the loops of a handle table response end, the handlespace they
  fill is well formed, and \<open>scanMessage\<close> and \<open>rserpoolPacket2Message\<close> are as safe as the
  scanners they call.
\<close>

section \<open>A parameter whose type has been looked at\<close>

text \<open>What is safe from every lower bound of the position never moves it back.\<close>

lemma safeAt_forward:
  assumes m: "parsing q b n Z m" and f: "\<And>q. parsing q b n Z m \<Longrightarrow> safeAt q b n Z Q (f m)"
  shows "safeAt q b n Z (\<lambda>r m'. Q r m' \<and> Position m \<le> Position m') (f m)"
proof -
  have "safeAt (Position m) b n Z Q (f m)" using f [of "Position m"] m by (simp add: parsing_def)
  moreover have "q \<le> Position m" using m by (simp add: parsing_def)
  ultimately show ?thesis by (cases "f m") (auto simp: parsing_def)
qed

lemma peek_parsing:
  assumes m: "parsing q b n Z m"
  shows "peekNextTLVType m = Inr (if Position m + 4 \<le> n then ntohs_at 0 (field (Position m) 4 b) else 0, m)"
proof -
  have "usub (Position m + 4) 4 = Position m" if "Position m + 4 \<le> n"
    using m that by (simp add: usub_small parsing_def)
  then show ?thesis
    using m by (simp add: peekNextTLVType_def bindC_def takeSpace_small)
qed

lemma checkBeginTLV_here:
  assumes m: "parsing q b n Z m" and p: "Position m + 4 \<le> n" and t: "PURE_ATT_TYPE (ntohs_at 0 (field (Position m) 4 b)) = e"
  shows "safeAt q b n Z (\<lambda>(len, pos) m'. pos = Position m \<and> len = lengthAt b pos) (checkBeginTLV e True m)"
  using m p t by (simp add: checkBeginTLV_def bindC_def getNextTLV_parsing [OF m] Let_def) (simp add: parsing_def)

lemma safeAt_bind_here:
  assumes "parsing q b n Z m" "Position m + 4 \<le> n" "PURE_ATT_TYPE (ntohs_at 0 (field (Position m) 4 b)) = e"
    and "\<And>m1. parsing q b n Z m1 \<Longrightarrow> safeAt q b n Z Q (g (lengthAt b (Position m), Position m) m1)"
  shows "safeAt q b n Z Q (bindC (checkBeginTLV e True) g m)"
  by (rule safeAt_bindC [where f = "checkBeginTLV e True"], rule checkBeginTLV_here [OF assms(1-3)]) (use assms(4) in auto)

lemma safeAt_bind_transport:
  "parsing q b n Z m \<Longrightarrow> (\<And>ok w m1. parsing q b n Z m1 \<Longrightarrow> (ok \<Longrightarrow> w \<noteq> None) \<Longrightarrow> safeAt q b n Z Q (g (ok, w) m1)) \<Longrightarrow>
     safeAt q b n Z Q (bindC scanTransportParameter g m)"
  by (rule safeAt_bindC [where f = scanTransportParameter], erule scanTransportParameter_advances) auto

lemma safeAt_bind_policy:
  "parsing q b n Z m \<Longrightarrow> (\<And>r m1. parsing q b n Z m1 \<Longrightarrow> safeAt q b n Z Q (g r m1)) \<Longrightarrow>
     safeAt q b n Z Q (bindC (scanPolicyParameter s) g m)"
  by (erule safeAt_bind_safe [OF _ safe_scanPolicyParameter])

lemma safeAt_bind_registrator:
  "parsing q b n Z m \<Longrightarrow> (\<And>r m1. parsing q b n Z m1 \<Longrightarrow> safeAt q b n Z Q (g r m1)) \<Longrightarrow>
     safeAt q b n Z Q (bindC (if c then scanTransportParameter else returnC (False, None)) g m)"
  by (rule safeAt_bind_safe [where R = "\<lambda>_. True"]) (simp_all add: safe_scanTransportParameter safe_returnC)

text \<open>A pool element or a pool handle that is read leaves the position behind where it was.\<close>

lemma scanPoolElementParameter_advances:
  assumes m: "parsing q b n Z m" and p: "Position m + 4 \<le> n"
    and t: "PURE_ATT_TYPE (ntohs_at 0 (field (Position m) 4 b)) = ATT_POOL_ELEMENT"
  shows "safeAt q b n Z (\<lambda>r m'. \<forall>e. r = Some e \<longrightarrow> Position m < Position m' \<and> pen_UserTransport e \<noteq> None)
    (scanPoolElementParameter True hr m)"
proof -
  have pn: "Position m \<le> n" using p by simp
  show ?thesis
    unfolding scanPoolElementParameter_def
    by (rule safeAt_bind_here [OF m p t])
       (auto intro!: safeAt_bind_transport safeAt_bind_policy safeAt_bind_registrator safeAt_steps
          simp: pn poolElementNodeNew_def failWith_def split: option.splits if_splits)
qed

lemma scanPoolHandleParameter_advances:
  assumes m: "parsing q b n Z m" and p: "Position m + 4 \<le> n"
    and t: "PURE_ATT_TYPE (ntohs_at 0 (field (Position m) 4 b)) = ATT_POOL_HANDLE"
  shows "safeAt q b n Z (\<lambda>ok m'. ok \<longrightarrow> Position m < Position m') (scanPoolHandleParameter m)"
proof -
  have last: "safeAt q b n Z (\<lambda>ok m'. ok \<longrightarrow> Position m < Position m')
       (bindR (poolHandleNew (Handle (if c then m1\<lparr>Error := e\<rparr> else m1)) h l) (\<lambda>h.
         checkFinishTLV (Position m) ((if c then m1\<lparr>Error := e\<rparr> else m1)\<lparr>Handle := h\<rparr>)))"
    if m1: "parsing q b n Z m1" "\<not> lengthAt b (Position m) < 4" for c e h l m1
  proof -
    have "length (ph_Handle (Handle m1)) = MAX_POOLHANDLESIZE" using m1 by (simp add: parsing_def)
    moreover have "safeAt q b n Z (\<lambda>ok m'. ok \<longrightarrow> Position m < Position m') (checkFinishTLV (Position m) m2)"
      if "parsing q b n Z m2" for m2
      by (rule safeAt_weaken [OF checkFinishTLV_end [OF that]]) (use p m1(2) in auto)
    ultimately show ?thesis using m1(1) by (simp add: poolHandleNew_def CHECK_def parsing_handle)
  qed
  show ?thesis
    unfolding scanPoolHandleParameter_def Let_def
    by (rule safeAt_bind_here [OF m p t]) (use lengthAt_less [of b "Position m"] in \<open>auto intro!: safeAt_steps last\<close>)
qed

section \<open>Registering what is scanned\<close>

lemma register_returns:
  assumes wf: "hs_wf (hsm_Handlespace hsm)" and mem: "hsm_Memory hsm" and h: "length (ph_Handle handle) = MAX_POOLHANDLESIZE"
    and ut: "ut \<noteq> None"
  obtains e r hsm' where
    "poolHandlespaceManagementRegisterPoolElement handle hr i life pps ut rt sd a now hsm = Inr (e, r, hsm')"
    "hs_wf (hsm_Handlespace hsm')" "hsm_Memory hsm'"
proof (cases "ph_wf handle \<and> poolPolicyGetPoolPolicyByType (pps_PolicyType pps) \<noteq> None")
  case False
  then have "\<exists>e. poolHandlespaceManagementRegisterPoolElement handle hr i life pps ut rt sd a now hsm = Inr (e, None, hsm)"
    using h by (auto simp: poolHandlespaceManagementRegisterPoolElement_def ph_wf_def)
  then show thesis using that wf mem by blast
next
  case True
  then obtain policy where h: "ph_wf handle" and policy: "poolPolicyGetPoolPolicyByType (pps_PolicyType pps) = Some policy" by auto
  obtain t where t: "ut = Some t" using ut by auto
  let ?pn = "targetPool (requestPool handle policy t) (hsm_Handlespace hsm)"
  let ?n = "poolElementNodeNew i hr life pps (Some t) rt sd a"
  obtain e where e: "poolNodeCheckPoolElementNodeCompatibility ?pn ?n = Inr e" using check_returns by blast
  show thesis
  proof (cases "e = RSPERR_OKAY")
    case False
    from register_rejected [OF wf h mem policy e False] show thesis using that t by blast
  next
    case True
    with e have c: "compatible ?pn ?n" by (simp add: compatible_def)
    from register_ok [OF wf h mem policy c] show thesis using that t by blast
  qed
qed

text \<open>A handlespace under construction: as big as memory allows.\<close>

definition table_ok :: "PoolHandlespaceManagement \<Rightarrow> bool" where
  "table_ok hsm \<longleftrightarrow> hs_wf (hsm_Handlespace hsm) \<and> hsm_Memory hsm"

lemma peeked:
  assumes m: "parsing q b n Z m" and g: "\<And>m1. m1 = m \<Longrightarrow> Position m + 4 \<le> n \<Longrightarrow> ntohs_at 0 (field (Position m) 4 b) = type \<Longrightarrow> safeAt q b n Z Q (g m1)"
    and f: "safeAt q b n Z Q (f m)" and type: "type \<noteq> 0"
  shows "safeAt q b n Z Q (bindC peekNextTLVType (\<lambda>t. if t \<noteq> type then f else g) m)"
  using assms by (simp add: bindC_def peek_parsing [OF m])

lemma scanTableElements_safe:
  "parsing q b n Z m \<Longrightarrow> n < Position m + fuel \<Longrightarrow> table_ok hsm \<Longrightarrow>
     safeAt q b n Z (\<lambda>(ok, count, hsm') m'. Position m \<le> Position m' \<and> table_ok hsm') (scanTableElements fuel c hsm m)"
proof (induction fuel arbitrary: m c hsm)
  case 0
  then show ?case by (simp add: parsing_def)
next
  case (Suc fuel)
  have 1: "safeAt q b n Z (\<lambda>(ok, count, hsm') m'. Position m \<le> Position m' \<and> table_ok hsm')
     (bindR (poolHandlespaceManagementRegisterPoolElement (Handle m1) hr i life pps ut rt sd a now hsm) (\<lambda>(e, _, hsm1).
        if e \<noteq> RSPERR_OKAY then failWith e (False, c + 1, hsm1) m1
        else scanTableElements fuel (c + 1) hsm1 (m1\<lparr>Error := RSPERR_OKAY\<rparr>)))"
    if m1: "parsing q b n Z m1" and p: "Position m < Position m1" and ut: "ut \<noteq> None"
    for m1 hr i life pps ut rt sd a now
  proof -
    have hs: "hs_wf (hsm_Handlespace hsm)" "hsm_Memory hsm" using Suc.prems(3) by (simp_all add: table_ok_def)
    have "length (ph_Handle (Handle m1)) = MAX_POOLHANDLESIZE" using m1 by (simp add: parsing_def)
    from register_returns [OF hs this ut, of hr i life pps rt sd a now]
    obtain e r hsm1 where e: "poolHandlespaceManagementRegisterPoolElement (Handle m1) hr i life pps ut rt sd a now hsm = Inr (e, r, hsm1)"
      "table_ok hsm1" by (metis table_ok_def)
    have "parsing q b n Z (m1\<lparr>Error := RSPERR_OKAY\<rparr>)" "n < Position (m1\<lparr>Error := RSPERR_OKAY\<rparr>) + fuel"
      using m1 p Suc.prems(2) by simp_all
    from Suc.IH [OF this e(2), of "c + 1"] e m1 p show ?thesis
      by (auto simp: failWith_def intro: safeAt_weaken)
  qed
  have "safeAt q b n Z (\<lambda>(ok, count, hsm') m'. Position m \<le> Position m' \<and> table_ok hsm')
     (bindC (scanPoolElementParameter True True) (\<lambda>pe. case pe of
           None \<Rightarrow> returnC (True, c, hsm)
         | Some e \<Rightarrow>
             if pen_RegistratorTransport e = None then failWith RSPERR_INVALID_REGISTRATOR (False, c, hsm)
             else (\<lambda>m1.
               bindR (poolHandlespaceManagementRegisterPoolElement (Handle m1) (pen_HomeRegistrarIdentifier e)
                        (pen_Identifier e) (pen_RegistrationLife e) (pen_PolicySettings e) (pen_UserTransport e)
                        (pen_RegistratorTransport e) (-1) 0 0 hsm) (\<lambda>(errorCode, _, hsm1).
               if errorCode \<noteq> RSPERR_OKAY then failWith errorCode (False, c + 1, hsm1) m1
               else scanTableElements fuel (c + 1) hsm1 (m1\<lparr>Error := RSPERR_OKAY\<rparr>)))) m)"
    if "Position m + 4 \<le> n" "ntohs_at 0 (field (Position m) 4 b) = ATT_POOL_ELEMENT"
  proof (rule safeAt_bindC [where f = "scanPoolElementParameter True True"])
    show "safeAt q b n Z (\<lambda>r m'. (\<forall>e. r = Some e \<longrightarrow> Position m < Position m' \<and> pen_UserTransport e \<noteq> None) \<and>
            Position m \<le> Position m') (scanPoolElementParameter True True m)"
      by (rule safeAt_forward [OF Suc.prems(1)], erule scanPoolElementParameter_advances [OF _ that(1)])
         (simp add: that PURE_ATT_TYPE_def)
  qed (use Suc.prems(3) in \<open>auto intro!: 1 [simplified] simp: failWith_def split: option.splits\<close>)
  then show ?case
    using Suc.prems by (simp add: bindC_def peek_parsing)
qed

lemma safeAt_bind_elements:
  assumes m: "parsing q b n Z m" and hsm: "table_ok hsm"
    and g: "\<And>ok c hsm1 m1. parsing q b n Z m1 \<Longrightarrow> Position m \<le> Position m1 \<Longrightarrow> table_ok hsm1 \<Longrightarrow> safeAt q b n Z Q (g (ok, c, hsm1) m1)"
  shows "safeAt q b n Z Q (bindC (\<lambda>m1. scanTableElements (Suc (BufferSize m1)) 0 hsm m1) g m)"
proof (rule safeAt_bindC [where f = "\<lambda>m1. scanTableElements (Suc (BufferSize m1)) 0 hsm m1"])
  show "safeAt q b n Z (\<lambda>(ok, count, hsm') m'. Position m \<le> Position m' \<and> table_ok hsm')
      (scanTableElements (Suc (BufferSize m)) 0 hsm m)"
    by (rule scanTableElements_safe [OF m _ hsm]) (use m in \<open>simp add: parsing_def\<close>)
qed (use g in auto)

lemma scanTablePools_safe:
  "parsing q b n Z m \<Longrightarrow> n < Position m + fuel \<Longrightarrow> table_ok hsm \<Longrightarrow>
     safeAt q b n Z (\<lambda>(ok, hsm') m'. table_ok hsm') (scanTablePools fuel hsm m)"
proof (induction fuel arbitrary: m hsm)
  case 0
  then show ?case by (simp add: parsing_def)
next
  case (Suc fuel)
  have "safeAt q b n Z (\<lambda>(ok, hsm') m'. table_ok hsm')
     (bindC scanPoolHandleParameter (\<lambda>ok.
         if \<not> ok then returnC (True, hsm)
         else bindC (\<lambda>m1. scanTableElements (Suc (BufferSize m1)) 0 hsm m1) (\<lambda>(continue, count, hsm1).
           if \<not> continue then returnC (False, hsm1)
           else (\<lambda>m2.
             if Error m2 \<noteq> RSPERR_OKAY then Inr ((False, hsm1), m2)
             else if count = 0 then failWith RSPERR_INVALID_VALUE (False, hsm1) m2
             else scanTablePools fuel hsm1 m2))) m)"
    if "Position m + 4 \<le> n" "ntohs_at 0 (field (Position m) 4 b) = ATT_POOL_HANDLE"
    by (rule safeAt_bindC [where f = scanPoolHandleParameter], rule scanPoolHandleParameter_advances [OF Suc.prems(1) that(1)],
        simp add: that PURE_ATT_TYPE_def)
       (use Suc.prems in \<open>auto intro!: safeAt_if safeAt_bind_elements Suc.IH simp: failWith_def split: if_splits
          simp del: scanTableElements.simps scanTablePools.simps\<close>)
  then show ?case
    using Suc.prems by (simp add: bindC_def peek_parsing)
qed

lemma table_new: "table_ok (poolHandlespaceManagementNew True r)"
  by (simp add: table_ok_def poolHandlespaceManagementNew_def poolHandlespaceNodeNew_wf)

lemma safe_scanHandleTableResponseMessage:
  "safe q b n Z (\<lambda>(ok, hsm). \<forall>h. hsm = Some h \<longrightarrow> table_ok h) scanHandleTableResponseMessage"
proof -
  have pools: "safeAt q b n Z (\<lambda>(ok, hsm) _. \<forall>h. hsm = Some h \<longrightarrow> table_ok h)
      (bindC (\<lambda>m1. scanTablePools (Suc (BufferSize m1)) (poolHandlespaceManagementNew (gMemory m1) 0) m1)
                  (\<lambda>(ok, hsm). returnC (ok, Some hsm)) m)" if m: "parsing q b n Z m" "gMemory m" for m
  proof (rule safeAt_bindC [where f = "\<lambda>m1. scanTablePools (Suc (BufferSize m1)) (poolHandlespaceManagementNew (gMemory m1) 0) m1"])
    show "safeAt q b n Z (\<lambda>(ok, hsm) _. table_ok hsm)
        (scanTablePools (Suc (BufferSize m)) (poolHandlespaceManagementNew (gMemory m) 0) m)"
      by (rule scanTablePools_safe [OF m(1)]) (use m table_new in \<open>auto simp: parsing_def\<close>)
  qed auto
  show ?thesis
    unfolding scanHandleTableResponseMessage_def
    by (rule safe_bindC [OF safe_scanServerParameter], rule safe_if)
       (auto intro!: safeI safeAt_weaken [OF pools] simp: failWith_def simp del: scanTablePools.simps)
qed

section \<open>Messages and packets\<close>

lemma safe_plainScan: "safe q b n Z (\<lambda>_. True) f \<Longrightarrow> safe q b n Z (\<lambda>(ok, t). t = noTables) (plainScan f)"
  unfolding plainScan_def by (erule safe_bindC) (simp add: safe_returnC)

definition tables_ok :: "MessageTables \<Rightarrow> bool" where
  "tables_ok t \<longleftrightarrow> (\<forall>hsm. HandlespacePtr t = Some hsm \<longrightarrow> hs_wf (hsm_Handlespace hsm))"

lemma tables_none [simp]: "tables_ok noTables"
  by (simp add: tables_ok_def noTables_def)

lemma safe_scanContents:
  assumes "type \<noteq> EHT_LIST_RESPONSE"
  shows "safe q b n UNIV (\<lambda>(ok, t). tables_ok t) (scanContents type)"
proof -
  have plain: "safe q b n UNIV (\<lambda>(ok, t). tables_ok t) (plainScan f)" if "safe q b n UNIV (\<lambda>_. True) f" for f
    by (rule safe_weaken [OF safe_plainScan [OF that]]) auto
  have table: "safe q b n UNIV (\<lambda>(ok, t). tables_ok t)
      (bindC scanHandleTableResponseMessage (\<lambda>(ok, hsm). returnC (ok, noTables\<lparr>HandlespacePtr := hsm\<rparr>)))"
    by (rule safe_bindC [OF safe_scanHandleTableResponseMessage]) (auto intro!: safe_returnC simp: tables_ok_def table_ok_def)
  show ?thesis
    unfolding scanContents_def using assms
    by (auto intro!: plain table safe_returnC safe_scanMessages safe_scanServerAnnounceMessage safe_scanHandleResolutionResponseMessage
        safe_scanBusinessCardMessage safe_scanRegistrationMessage safe_scanHandleUpdateMessage)
qed

lemma checkBeginMessage_safe:
  assumes m: "parsing q b n Z m"
  shows "safeAt q b n Z (\<lambda>(len, start) m'. start = Position m \<and> PPID m' = PPID m \<and> (0 < len \<longrightarrow> Position m + 4 \<le> n))
    (checkBeginMessage m)"
proof -
  have "parsing q b n Z (m\<lparr>Position := x\<rparr>)" if "Position m \<le> x" "x \<le> n" for x using m that by (simp add: parsing_def)
  then show ?thesis
    using m by (simp add: checkBeginMessage_def Let_def bindC_def takeSpace_small failWith_def)
       (auto simp: parsing_def)
qed

lemma safe_checkFinishMessage: "pos \<le> n \<Longrightarrow> safe q b n Z (\<lambda>_. True) (checkFinishMessage pos)"
  by (rule safeI) (simp add: checkFinishMessage_def bindC_def loadAt_parsing Let_def)

lemma list_response_type: "typeOf ppid t = Some EHT_LIST_RESPONSE \<longleftrightarrow> ppid = PPID_ENRP \<and> t = 6"
proof -
  have "(ucast t OR 0xee00 :: u32) = 0xee06 \<longleftrightarrow> t = 6"
  proof
    assume "(ucast t OR 0xee00 :: u32) = 0xee06"
    then have "take_bit 8 (ucast t OR 0xee00 :: u32) = take_bit 8 0xee06" by simp
    then have "(take_bit 8 (ucast t) :: u32) = 6" by (simp add: take_bit_or)
    then have "(ucast (take_bit 8 t) :: u32) = 6" by (simp add: unsigned_take_bit_eq)
    then have "(ucast t :: u32) = 6" by (simp add: take_bit_word_eq_self)
    then have "(ucast (ucast t :: u32) :: byte) = ucast (6 :: u32)" by (rule arg_cong)
    then show "t = 6" by (simp add: unsigned_ucast_eq take_bit_word_eq_self)
  qed simp
  moreover have "(ucast t OR 0xaa00 :: u32) \<noteq> 0xee06"
  proof
    assume "(ucast t OR 0xaa00 :: u32) = 0xee06"
    then have "bit (ucast t OR 0xaa00 :: u32) 10 = bit (0xee06 :: u32) 10" by simp
    then show False by (auto dest: bit_imp_le_length simp: bit_or_iff bit_ucast_iff)
  qed
  ultimately show ?thesis by (simp add: typeOf_def)
qed

lemma scanMessage_safe:
  assumes m: "parsing q b n UNIV m" and t: "\<not> (PPID m = PPID_ENRP \<and> b ! Position m = 6)"
  shows "safeAt q b n UNIV (\<lambda>(ok, t) _. tables_ok t) (scanMessage m)"
proof -
  have "field (Position m) 4 b ! 0 = b ! Position m" using m by (simp add: field_def parsing_def)
  then have list: "typeOf (PPID m) (field (Position m) 4 b ! 0) \<noteq> Some EHT_LIST_RESPONSE"
    using t by (simp add: list_response_type)
  have p: "Position m \<le> n" using m by (simp add: parsing_def)
  have rest: "safeAt q b n UNIV (\<lambda>(ok, t) _. tables_ok t)
      (bindC (scanContents type) (\<lambda>(ok, tables).
             if \<not> ok then returnC (False, tables)
             else bindC (checkFinishMessage (Position m)) (\<lambda>finished. returnC (finished, tables))) m1)"
    if "parsing q b n UNIV m1" "type \<noteq> EHT_LIST_RESPONSE" for type m1
    by (rule safeAt_bind_safe [OF that(1) safe_scanContents [OF that(2)]])
       (auto intro!: safeAt_if safeAt_bind_safe [OF _ safe_checkFinishMessage [OF p]])
  show ?thesis
    unfolding scanMessage_def
    by (rule safeAt_bindC [where f = checkBeginMessage], rule checkBeginMessage_safe [OF m])
       (use list p in \<open>auto intro!: safeAt_if safeAt_bind_load rest split: option.splits\<close>)
qed

text \<open>The outcome of parsing a packet, on every path.\<close>

definition packet_outcome ::
  "bool \<Rightarrow> byte list \<Rightarrow> nat \<Rightarrow> fault + (u16 \<times> (RSerPoolMessage \<times> MessageTables) option) \<Rightarrow> bool" where
  "packet_outcome mem packet packetSize x \<longleftrightarrow>
     (case x of
        Inl e \<Rightarrow> e = CheckAbort \<or> e = FatalLog
      | Inr (e, None) \<Rightarrow> \<not> mem \<and> e = RSPERR_OUT_OF_MEMORY
      | Inr (e, Some (m, tables)) \<Rightarrow> e = RSPERR_OKAY \<and> Buffer m = packet \<and> BufferSize m = packetSize \<and>
          Position m \<le> packetSize \<and> tables_ok tables)"

lemma packet2Message_safe:
  assumes "packetSize + 4 \<le> length packet" "length packet < 2 ^ 62" "\<not> (ppid = PPID_ENRP \<and> packet ! 0 = 6)"
  shows "packet_outcome mem packet packetSize
    (rserpoolPacket2Message logLevel mem packet source assocID ppid packetSize minBufferSize)"
proof (cases mem)
  case True
  let ?m = "(rserpoolMessageNew logLevel mem packet packetSize)
                  \<lparr>SourceAddress := (case source of None \<Rightarrow> SA_other AF_UNSPEC | Some a \<Rightarrow> a),
                   AssocID := assocID, PPID := ppid, OriginalBufferSize := max packetSize minBufferSize, Position := 0\<rparr>"
  have "parsing 0 packet packetSize UNIV ?m" using assms by (simp add: parsing_def rserpoolMessageNew_def)
  from scanMessage_safe [OF this] assms(3) True show ?thesis
    by (cases "scanMessage ?m")
       (auto simp: rserpoolPacket2Message_def packet_outcome_def Let_def parsing_def split: if_splits)
qed (simp add: rserpoolPacket2Message_def packet_outcome_def)

end
