(* ===== verification/RSP_PacketRoundtrip.thy ===== *)
theory RSP_PacketRoundtrip
  imports RSP_Packet RSP_Roundtrip
begin

text \<open>
  Round trip of a whole packet: a registration as \<open>rserpoolMessage2Packet\<close> writes it is read
  by \<open>rserpoolPacket2Message\<close> to the pool handle and pool element as they are sent.
\<close>

unbundle bit_operations_syntax

section \<open>Writing\<close>

definition enc_registration :: "PoolHandle \<Rightarrow> PoolElementNode \<Rightarrow> byte list" where
  "enc_registration h pe = enc_message AHT_REGISTRATION 0 (enc_handle h @ enc_element False pe)"

text \<open>What is wanted of a registration: a valid handle, a pool element that can be sent, no error.\<close>

definition registration_ok :: "RSerPoolMessage \<Rightarrow> PoolElementNode \<Rightarrow> bool" where
  "registration_ok m pe \<longleftrightarrow> Type m = AHT_REGISTRATION \<and> Error m = RSPERR_OKAY \<and> PoolElementPtr m = Some pe \<and>
     ph_wf (Handle m) \<and> element_sendable False pe \<and> pen_RegistratorTransport pe = None \<and>
     length (enc_registration (Handle m) pe) \<le> OriginalBufferSize m \<and>
     OriginalBufferSize m \<le> length (Buffer m) \<and> length (Buffer m) < 2 ^ 63"

lemma create_registration:
  assumes ok: "registration_ok m pe"
  defines "m0 \<equiv> rserpoolMessageClearBuffer m" and "bs \<equiv> enc_registration (Handle m) pe"
  shows "createRegistrationMessage m0 = Inr (True, (emit bs m0)\<lparr>PPID := PPID_ASAP\<rparr>)"
proof -
  have m0: "Position m0 = 0" "Handle m0 = Handle m" "PoolElementPtr m0 = Some pe" "Error m0 = 0" "fits (length bs) m0"
    using ok by (simp_all add: m0_def bs_def registration_ok_def rserpoolMessageClearBuffer_def fits_def)
  have wf: "ph_wf (Handle m0)" "element_wf False pe" using ok m0 by (simp_all add: registration_ok_def element_sendable_wf)
  have 1: "writesFor m0 createOwnHandle (enc_handle (Handle m0))"
    by (rule writesFor_eq [OF _ writes_handle [OF wf(1)]]) (drule content_eqD(1), simp add: createOwnHandle_def)
  have 2: "writesFor m0 (createPoolElementParameter (Some pe) False) (enc_element False pe)"
    by (rule writes_writesFor [OF writes_element [OF wf(2)]])
  have 3: "writesFor m0 createErrorIfAny []"
    by (rule writesFor_eq [OF _ writes_nothing]) (drule content_eqD(3), simp add: createErrorIfAny_def m0)
  have "writesFor m0 (stmts [createOwnHandle, createPoolElementParameter (Some pe) False, createErrorIfAny])
      (enc_handle (Handle m0) @ enc_element False pe @ [] @ [])"
    by (intro writesFor_cons 1 2 3 writesFor_nil)
  from message_written [of m0, OF this] m0 ok show ?thesis
    by (simp add: createRegistrationMessage_def CHECK_def registration_ok_def bs_def enc_registration_def)
qed

section \<open>Reading\<close>

lemma enc_message_parts:
  assumes "nextBytes m (enc_message type flags body)"
  shows "nextBytes m ([ucast (type AND 0xff), flags] @ be16 (of_nat (4 + length body)))" "nextBytes (advance 4 m) body"
proof -
  have "nextBytes m (([ucast (type AND 0xff), flags] @ be16 (of_nat (4 + length body))) @ body @
      replicate (getPadding (4 + length body) 4) 0)" using assms by (simp add: enc_message_def)
  then show "nextBytes m ([ucast (type AND 0xff), flags] @ be16 (of_nat (4 + length body)))" "nextBytes (advance 4 m) body"
    unfolding nextBytes_append [of m "[ucast (type AND 0xff), flags] @ be16 (of_nat (4 + length body))"] nextBytes_append [of _ body]
    by simp_all
qed

lemma length_enc_message: "length (enc_message type flags body) = 4 + length body + getPadding (4 + length body) 4"
  by (simp add: enc_message_def)

lemma ntohs_at_message: "ntohs_at 2 ([a, b] @ be16 l) = l"
  by (simp add: ntohs_at_def field_def)

lemma checkBeginMessage_enc:
  assumes nb: "nextBytes m (enc_message type flags body)" and len: "4 + length body < 2 ^ 16"
  shows "checkBeginMessage m = Inr ((4 + length body, Position m),
    m\<lparr>OffendingParameterTLV := None, Position := Position m + 4, Flags := flags\<rparr>)"
proof -
  define w :: u16 where "w = of_nat (4 + length body)"
  have w: "unat w = 4 + length body" unfolding w_def by (rule unat_of_nat_length [OF len])
  let ?h = "[ucast (type AND 0xff), flags] @ be16 w"
  let ?m = "m\<lparr>OffendingParameterTLV := None\<rparr>"
  have "nextBytes ?m ?h" using enc_message_parts(1) [OF nb] by (simp add: nextBytes_def fits_def w_def)
  from takeSpace_next [OF this, of 4]
  have t: "takeSpace 4 ?m = Inr (Some ?h, ?m\<lparr>Position := Position m + 4\<rparr>)" by (simp add: advance_def)
  have f: "Position m + (4 + length body) \<le> BufferSize m" "BufferSize m < 2 ^ 63"
    using nb by (auto simp: nextBytes_def fits_def length_enc_message)
  have "usub (uadd (Position m + 4) (4 + length body)) 4 = Position m + 4 + length body"
    using f by (simp add: uadd_small usub_small)
  then show ?thesis
    using f ntohs_at_message [of "ucast (type AND 0xff)" flags w] w unfolding checkBeginMessage_def Let_def bindC_def t
    by simp
qed

lemma checkFinishMessage_enc:
  assumes nb: "nextBytes m (enc_message type flags body)" and len: "4 + length body < 2 ^ 16" and p: "Position m = 0"
    and m': "Buffer m' = Buffer m" "Position m' = length (enc_message type flags body)"
  shows "checkFinishMessage 0 m' = Inr (True, m'\<lparr>OffendingParameterTLV := None, OffendingParameterTLVLength := 0\<rparr>)"
proof -
  define w :: u16 where "w = of_nat (4 + length body)"
  have w: "unat w = 4 + length body" unfolding w_def by (rule unat_of_nat_length [OF len])
  let ?h = "[ucast (type AND 0xff), flags] @ be16 w"
  have "loadAt 0 4 m' = Inr (?h, m')"
    using enc_message_parts(1) [OF nb] p m' by (auto simp: loadAt_def readBytes_def nextBytes_def fits_def w_def)
  then show ?thesis
    using ntohs_at_message [of "ucast (type AND 0xff)" flags w] w m'
    by (simp add: checkFinishMessage_def bindC_def length_enc_message)
qed

text \<open>The contents of a registration.\<close>

lemma scan_registration:
  assumes nb: "nextBytes m (enc_handle h @ enc_element False pe)" and h: "ph_wf h" and pe: "element_sendable False pe" "gMemory m"
  shows "scanRegistrationMessage m = Inr (True, (scanned (length (enc_handle h @ enc_element False pe)) m)
    \<lparr>Handle := handleRead (Handle m) h, PoolElementPtr := Some (sentElement False pe)\<rparr>)"
proof -
  let ?m1 = "(scanned (length (enc_handle h)) m)\<lparr>Handle := handleRead (Handle m) h\<rparr>"
  have 1: "nextBytes m (enc_handle h)" and "nextBytes (advance (length (enc_handle h)) m) (enc_element False pe)"
    using nb by (simp_all add: nextBytes_append)
  then have 2: "nextBytes ?m1 (enc_element False pe)" by (simp add: nextBytes_def fits_def)
  have "scanPoolElementParameter False False ?m1 = Inr (Some (sentElement False pe), scanned (length (enc_element False pe)) ?m1)"
    by (rule scan_element [OF 2 pe(1)]) (use pe in simp_all)
  then show ?thesis
    using scan_handle [OF 1 h] by (simp add: scanRegistrationMessage_def bindC_def modifyC_def sentElement_def poolElementNodeNew_def scanned_def add.assoc)
qed

section \<open>Packets\<close>

lemma registration_type: "typeOf PPID_ASAP (ucast (AHT_REGISTRATION AND 0xff :: u32)) = Some AHT_REGISTRATION"
  by code_simp

lemma packet_read:
  assumes h: "ph_wf h" and pe: "element_sendable False pe" and n: "n = length (enc_registration h pe)" "n < 2 ^ 16"
    and b: "take n b = enc_registration h pe" "n \<le> length b" "length b < 2 ^ 63"
  obtains m where "rserpoolPacket2Message logLevel True b source assocID PPID_ASAP n minBufferSize = Inr (RSPERR_OKAY, Some (m, noTables))"
    "Type m = AHT_REGISTRATION" "Error m = RSPERR_OKAY" "ph_wf (Handle m)" "ph_bytes (Handle m) = ph_bytes h"
    "PoolElementPtr m = Some (sentElement False pe)"
proof -
  let ?body = "enc_handle h @ enc_element False pe"
  define m0 where "m0 = (rserpoolMessageNew logLevel True b n)
                  \<lparr>SourceAddress := (case source of None \<Rightarrow> SA_other AF_UNSPEC | Some a \<Rightarrow> a),
                   AssocID := assocID, PPID := PPID_ASAP, OriginalBufferSize := max n minBufferSize, Position := 0\<rparr>"
  have m0: "Position m0 = 0" "Buffer m0 = b" "BufferSize m0 = n" "PPID m0 = PPID_ASAP" "gMemory m0" "Error m0 = 0"
      "OperationErrorCode m0 = 0" "length (ph_Handle (Handle m0)) = MAX_POOLHANDLESIZE"
    by (simp_all add: m0_def rserpoolMessageNew_def)
  have nb: "nextBytes m0 (enc_message AHT_REGISTRATION 0 ?body)"
    using b n by (simp add: nextBytes_def fits_def m0 enc_registration_def)
  have "4 dvd length ?body" by (simp add: enc_handle_def enc_element_def length_tlv_dvd)
  then have len: "n = 4 + length ?body" "4 + length ?body < 2 ^ 16"
    using n by (simp_all add: enc_registration_def length_enc_message)
  let ?m1 = "m0\<lparr>OffendingParameterTLV := None, Position := 4, Flags := 0, Type := AHT_REGISTRATION\<rparr>"
  let ?m2 = "(scanned (length ?body) ?m1)\<lparr>Handle := handleRead (Handle m0) h, PoolElementPtr := Some (sentElement False pe)\<rparr>"
  have start: "checkBeginMessage m0 = Inr ((4 + length ?body, 0), m0\<lparr>OffendingParameterTLV := None, Position := 4, Flags := 0\<rparr>)"
    using checkBeginMessage_enc [OF nb len(2)] m0 by simp
  have load: "loadAt 0 4 m = Inr ([ucast (AHT_REGISTRATION AND 0xff :: u32), 0] @ be16 (of_nat (4 + length ?body)), m)" if "Buffer m = b" for m
    using enc_message_parts(1) [OF nb] that m0 by (auto simp: loadAt_def readBytes_def nextBytes_def fits_def)
  have "nextBytes ?m1 ?body" using enc_message_parts(2) [OF nb] by (simp add: nextBytes_def fits_def m0)
  from scan_registration [OF this h pe]
  have body: "scanRegistrationMessage ?m1 = Inr (True, ?m2)" using m0 by simp
  have fin: "checkFinishMessage 0 ?m2 = Inr (True, ?m2\<lparr>OffendingParameterTLV := None, OffendingParameterTLVLength := 0\<rparr>)"
    by (rule checkFinishMessage_enc [OF nb len(2)]) (use m0 n len in \<open>simp_all add: enc_registration_def\<close>)
  have "scanMessage m0 = Inr ((True, noTables), ?m2\<lparr>OffendingParameterTLV := None, OffendingParameterTLVLength := 0\<rparr>)"
    using len fin registration_type
    by (simp add: scanMessage_def bindC_def start load m0 scanContents_def plainScan_def body)
  then show thesis
    using that handleRead_same [OF h m0(8)] m0
    by (simp add: rserpoolPacket2Message_def Let_def m0_def [symmetric] scanned_def)
qed

lemma registration_roundtrip:
  assumes ok: "registration_ok m pe" and n: "length (enc_registration (Handle m) pe) < 2 ^ 16"
  obtains k m1 m2 where "rserpoolMessage2Packet tables maxElements userData m = Inr ((k, userData), m1)" "PPID m1 = PPID_ASAP"
    "rserpoolPacket2Message logLevel True (Buffer m1) source assocID PPID_ASAP k minBufferSize = Inr (RSPERR_OKAY, Some (m2, noTables))"
    "Type m2 = AHT_REGISTRATION" "Error m2 = RSPERR_OKAY" "ph_bytes (Handle m2) = ph_bytes (Handle m)"
    "PoolElementPtr m2 = Some (sentElement False pe)"
proof -
  let ?bs = "enc_registration (Handle m) pe" and ?m0 = "rserpoolMessageClearBuffer m"
  let ?m1 = "(emit ?bs ?m0)\<lparr>PPID := PPID_ASAP\<rparr>"
  have m0: "Position ?m0 = 0" "Type ?m0 = AHT_REGISTRATION" "Buffer ?m0 = Buffer m"
    using ok by (simp_all add: registration_ok_def rserpoolMessageClearBuffer_def)
  have b: "length ?bs \<le> length (Buffer m)" "length (Buffer m) < 2 ^ 63" using ok by (simp_all add: registration_ok_def)
  have w: "rserpoolMessage2Packet tables maxElements userData m = Inr ((length ?bs, userData), ?m1)"
  proof -
    have "Type m = AHT_REGISTRATION" using ok by (simp add: registration_ok_def)
    then show ?thesis
      using create_registration [OF ok] m0(1)
      by (simp add: rserpoolMessage2Packet_def bindC_def createContents_def plainCreate_def)
  qed
  have buf: "take (length ?bs) (Buffer ?m1) = ?bs" "length (Buffer ?m1) = length (Buffer m)"
    using b m0 by (simp_all add: emit_def overlay_def)
  from ok have "ph_wf (Handle m)" "element_sendable False pe" by (simp_all add: registration_ok_def)
  then show thesis
  proof (rule packet_read [OF _ _ refl n buf(1)])
    show "length ?bs \<le> length (Buffer ?m1)" "length (Buffer ?m1) < 2 ^ 63" using buf(2) b by simp_all
  qed (rule that [OF w], simp)
qed

end
