(* ===== verification/Spec2Isabelle.thy ===== *)
theory Spec2Isabelle
  imports RSP_RegistrarExamples RSP_RegistrarFaults RSP_PacketSafety RSP_PacketRoundtrip
begin

text \<open>
  A verification development for rsplib, the RSerPool implementation under \<open>src/src\<close>.
\<close>

section \<open>The handlespace as a registry\<close>

text \<open>
  C1. Refinement. Registrations, deregistrations and handle resolutions on a well-formed handlespace
  behave as the abstract registry \<open>specRequest\<close> says: every request of any sequence returns the
  specified error code, the pools and entries afterwards are the specified ones, and the
  handlespace is well-formed again. No check of the code fires and no loop runs out.
\<close>

theorem registry_refined:
  assumes "hs_wf (hsm_Handlespace m)" "hsm_Memory m" "\<forall>rq \<in> set rqs. request_ok N rq"
    "card (elements (hsm_Handlespace m)) + length rqs \<le> N"
  shows "\<exists>m'. runRequests random rqs m = Inr (fst (specRequests rqs (abstraction (hsm_Handlespace m))), m') \<and>
    abstraction (hsm_Handlespace m') = snd (specRequests rqs (abstraction (hsm_Handlespace m))) \<and> hs_wf (hsm_Handlespace m')"
  using requests_refine [OF assms, of random] by blast

theorem registry_refined_witness:
  "\<exists>m'. runRequests (\<lambda>_. 0) exampleRequests (poolHandlespaceManagementNew True 1) = Inr ([RSPERR_OKAY, RSPERR_OKAY, RSPERR_OKAY], m') \<and>
     abstraction (hsm_Handlespace m') = \<lparr>rg_Pools = [exampleName \<mapsto> pool_attrs examplePool],
       rg_Entries = [(exampleName, 1) \<mapsto> exampleEntry 1 1, (exampleName, 2) \<mapsto> exampleEntry 2 2, (exampleName, 3) \<mapsto> exampleEntry 1 3]\<rparr>"
  using registry_refined [of "poolHandlespaceManagementNew True 1" exampleRequests 3 "\<lambda>_. 0"] example_requests_ok [of 3]
  unfolding management_new example_length example_spec fst_conv snd_conv by auto

text \<open>
  C2. Invariant. After any sequence of requests on a new handlespace the consistency check of the
  code, \<open>poolHandlespaceNodeVerify\<close> (all trees, links, counters and both checksums), passes, and
  the checksum the code maintains incrementally is the one it computes from scratch.
\<close>

theorem requests_consistent:
  assumes "\<forall>rq \<in> set rqs. request_ok (length rqs) rq"
  shows "\<exists>es m'. runRequests random rqs (poolHandlespaceManagementNew True r) = Inr (es, m') \<and>
    poolHandlespaceNodeVerify (hsm_Handlespace m') = Inr () \<and>
    hsn_HandlespaceChecksum (hsm_Handlespace m') = poolHandlespaceNodeComputeHandlespaceChecksum (hsm_Handlespace m') \<and>
    hsn_PoolElements (hsm_Handlespace m') = card (dom (registry (hsm_Handlespace m')))"
proof -
  let ?m = "poolHandlespaceManagementNew True r"
  have "hs_wf (hsm_Handlespace ?m)" "hsm_Memory ?m" "card (elements (hsm_Handlespace ?m)) + length rqs \<le> length rqs"
    by simp_all
  from requests_refine [OF this(1,2) assms this(3), of random] obtain es m' where
    r: "runRequests random rqs ?m = Inr (es, m')" "hs_wf (hsm_Handlespace m')" by blast
  have "sums_wf (hsm_Handlespace m')" "pools_wf (hsm_Handlespace m')" using r(2) by (simp_all add: hs_wf_def)
  then show ?thesis using r verify_handlespace [OF r(2)] compute_handlespace_checksum [of "hsm_Handlespace m'"]
    by (simp add: sums_wf_def)
qed

theorem requests_consistent_witness:
  "\<exists>es m'. runRequests (\<lambda>_. 0) exampleRequests (poolHandlespaceManagementNew True 1) = Inr (es, m') \<and>
    poolHandlespaceNodeVerify (hsm_Handlespace m') = Inr ()"
  using requests_consistent [of exampleRequests "\<lambda>_. 0" 1] example_requests_ok by blast

text \<open>
  C3. Handle resolution returns at most the requested number of different pool elements of the pool,
  \<open>RSPERR_NOT_FOUND\<close> exactly if there is no such pool, and changes nothing but the policy state:
  the registry and the pools stay as they are.
\<close>

theorem resolution_sound:
  assumes "hs_wf (hsm_Handlespace m)" "ph_wf handle" "1 \<le> k" "card (elements (hsm_Handlespace m)) + k < 2 ^ 32"
  shows "\<exists>ps hs'. poolHandlespaceManagementHandleResolution random handle k inc m =
      Inr (if ph_bytes handle \<in> dom (attrs (hsm_Handlespace m)) then RSPERR_OKAY else RSPERR_NOT_FOUND, ps, withHandlespace m hs') \<and>
    hs_wf hs' \<and> distinct ps \<and> set ps \<subseteq> {p \<in> elements (hsm_Handlespace m). fst p = ph_bytes handle} \<and> length ps \<le> k \<and>
    registry hs' = registry (hsm_Handlespace m) \<and> attrs hs' = attrs (hsm_Handlespace m)"
  using resolve_ok [OF assms, of random inc] by blast

theorem resolution_sound_witness:
  "\<exists>ps hs'. poolHandlespaceManagementHandleResolution (\<lambda>_. 0) exampleHandle 2 1 exampleManagement =
      Inr (RSPERR_OKAY, ps, withHandlespace exampleManagement hs') \<and> distinct ps \<and>
    set ps \<subseteq> {(exampleName, 1), (exampleName, 2), (exampleName, 3)} \<and> length ps \<le> 2"
  using resolution_sound [of exampleManagement exampleHandle 2 "\<lambda>_. 0" 1]
  by (auto simp: example_handle example_run example_elements)

text \<open>
  C4. A registration that is compatible with its pool returns \<open>RSPERR_OKAY\<close> and the node, enters
  exactly this pool element into the registry -- a known pool element keeps its registration life --
  and leaves all other pool elements and the timers as they are.
\<close>

theorem registration_enters:
  assumes "hs_wf (hsm_Handlespace m)" "ph_wf handle" "hsm_Memory m"
    "poolPolicyGetPoolPolicyByType (pps_PolicyType pps) = Some policy"
    "compatible (targetPool (requestPool handle policy ut) (hsm_Handlespace m)) (poolElementNodeNew i r life pps (Some ut) rt sd a)"
  shows "\<exists>m'. poolHandlespaceManagementRegisterPoolElement handle r i life pps (Some ut) rt sd a now m =
      Inr (RSPERR_OKAY, Some (ph_bytes handle, i), m') \<and> hs_wf (hsm_Handlespace m') \<and>
    registry (hsm_Handlespace m') = (registry (hsm_Handlespace m))((ph_bytes handle, i) \<mapsto>
      newEntry (registry (hsm_Handlespace m) (ph_bytes handle, i)) (poolElementNodeNew i r life pps (Some ut) rt sd a) now) \<and>
    hsn_PoolElementTimerStorage (hsm_Handlespace m') = hsn_PoolElementTimerStorage (hsm_Handlespace m)"
  using register_ok [OF assms, of now] by blast

theorem registration_enters_witness:
  "\<exists>m'. poolHandlespaceManagementRegisterPoolElement exampleHandle 1 9 30000 examplePolicy (Some exampleBlock1) None 5 7 1000
      (poolHandlespaceManagementNew True 1) = Inr (RSPERR_OKAY, Some (exampleName, 9), m') \<and>
    registry (hsm_Handlespace m') (exampleName, 9) = Some (exampleEntry 1 9)"
proof -
  let ?m = "poolHandlespaceManagementNew True 1"
  have "targetPool (requestPool exampleHandle (hd PoolPolicyArray) exampleBlock1) (hsm_Handlespace ?m) = examplePool"
    by (simp add: targetPool_def examplePool_def)
  moreover have "hs_wf (hsm_Handlespace ?m)" "hsm_Memory ?m" "registry (hsm_Handlespace ?m) = (\<lambda>_. None)"
    by simp_all
  ultimately show ?thesis
    using registration_enters [of ?m exampleHandle examplePolicy "hd PoolPolicyArray" exampleBlock1 9 1 30000 None 5 7 1000]
    by (auto simp: example_handle example_policy example_settings compatible_def example_compatible exampleEntry_def)
qed

text \<open>
  C5. Errors. A registration that does not fit to its pool (invalid identifier, wrong transport
  protocol, invalid addresses, invalid or other policy) returns the error of the compatibility
  check and leaves every pool as it is; a pool created for it is removed again.
\<close>

theorem registration_rejected:
  assumes "hs_wf (hsm_Handlespace m)" "ph_wf handle" "hsm_Memory m"
    "poolPolicyGetPoolPolicyByType (pps_PolicyType pps) = Some policy"
    "poolNodeCheckPoolElementNodeCompatibility (targetPool (requestPool handle policy ut) (hsm_Handlespace m))
      (poolElementNodeNew i r life pps (Some ut) rt sd a) = Inr e" "e \<noteq> RSPERR_OKAY"
  shows "\<exists>m'. poolHandlespaceManagementRegisterPoolElement handle r i life pps (Some ut) rt sd a now m = Inr (e, None, m') \<and>
    hs_wf (hsm_Handlespace m') \<and> hsn_PoolNodes (hsm_Handlespace m') = hsn_PoolNodes (hsm_Handlespace m)"
  using register_rejected [OF assms, of now] by blast

theorem registration_rejected_witness:
  "\<exists>m'. poolHandlespaceManagementRegisterPoolElement exampleHandle 1 0 30000 examplePolicy (Some exampleBlock1) None 5 7 1000
      (poolHandlespaceManagementNew True 1) = Inr (RSPERR_INVALID_ID, None, m') \<and>
    hsn_PoolNodes (hsm_Handlespace m') = (\<lambda>_. None)"
proof -
  let ?m = "poolHandlespaceManagementNew True 1"
  have "hs_wf (hsm_Handlespace ?m)" "hsm_Memory ?m" "hsn_PoolNodes (hsm_Handlespace ?m) = (\<lambda>_. None)"
    by simp_all
  then show ?thesis
    using registration_rejected [of ?m exampleHandle examplePolicy "hd PoolPolicyArray" exampleBlock1 0 1 30000 None 5 7 RSPERR_INVALID_ID 1000]
    by (auto simp: example_handle example_policy example_settings poolNodeCheckPoolElementNodeCompatibility_def poolElementNodeNew_def)
qed



section \<open>Timers, marks and handle tables\<close>

text \<open>
  C7. Liveness. \<open>poolHandlespaceManagementPurgeExpiredPoolElements\<close> ends and deregisters exactly the pool
  elements whose expiry timer is due, and returns their number; all others stay as they are.
\<close>

theorem expired_are_purged:
  assumes "hs_wf (hsm_Handlespace m)"
    "\<forall>p \<in> set (timerNames (hsm_Handlespace m)). pen_TimerCode (elementAt (hsm_Handlespace m) p) = PENT_EXPIRY"
  shows "\<exists>hs'. poolHandlespaceManagementPurgeExpiredPoolElements now m =
      Inr (card (expired now (hsm_Handlespace m)), withHandlespace m hs') \<and> hs_wf hs' \<and>
    elements hs' = elements (hsm_Handlespace m) - expired now (hsm_Handlespace m) \<and>
    (\<forall>q \<in> elements hs'. elementAt hs' q = elementAt (hsm_Handlespace m) q)"
  using purge_ok [OF assms, of now] by blast

theorem expired_are_purged_witness:
  "\<exists>m hs hs'. poolHandlespaceManagementRestartPoolElementExpiryTimer (exampleName, 9) 5000 m = Inr (withHandlespace m hs) \<and>
     elements hs = {(exampleName, 9)} \<and>
     poolHandlespaceManagementPurgeExpiredPoolElements 7000 (withHandlespace m hs) = Inr (1, withHandlespace m hs') \<and> elements hs' = {}"
proof -
  obtain m hs where r: "poolHandlespaceManagementRestartPoolElementExpiryTimer (exampleName, 9) 5000 m = Inr (withHandlespace m hs)"
    "hs_wf hs" "elements hs = {(exampleName, 9)}" "expired 7000 hs = {(exampleName, 9)}"
    "\<forall>p \<in> set (timerNames hs). pen_TimerCode (elementAt hs p) = PENT_EXPIRY" using example_timer by blast
  have h: "hsm_Handlespace (withHandlespace m hs) = hs" "withHandlespace (withHandlespace m hs) hs' = withHandlespace m hs'" for hs'
    by (simp_all add: withHandlespace_def)
  from expired_are_purged [of "withHandlespace m hs" 7000] r(2,5) obtain hs' where
    "poolHandlespaceManagementPurgeExpiredPoolElements 7000 (withHandlespace m hs) = Inr (1, withHandlespace m hs')" "elements hs' = {}"
    unfolding h r(3,4) by auto
  then show ?thesis using r(1,3) by blast
qed





text \<open>
  C10. A block that follows the last pool element of a registrar is not empty if the ownership storage
  goes on: it starts with the first pool element of another registrar, although the caller asked
  for those of the first one only. (With \<open>HTEF_START\<close> the home registrar is checked.)
\<close>

theorem handle_table_leaks:
  assumes "hs_wf hs" "0 < n" "ownershipNames hs = us @ p # q # vs"
    "pen_HomeRegistrarIdentifier (elementAt hs p) = r" "pen_HomeRegistrarIdentifier (elementAt hs q) \<noteq> r" "lastSent hs x p"
  shows "\<exists>ps. getOwnershipHandleTable hs x r 0 n = Inr (True, tableBlock hs x (q # ps))"
  using table_leaks [OF _ _ assms(2,3,4,6), of 0] assms(1) by (simp add: hs_wf_struct)

theorem handle_table_leaks_witness:
  "\<exists>p ps. {p} \<subseteq> {(exampleName, 1), (exampleName, 3)} \<and>
     getOwnershipHandleTable (hsm_Handlespace exampleManagement) (tableBlock (hsm_Handlespace exampleManagement) exampleExtract [p]) 1 0 1 =
       Inr (True, tableBlock (hsm_Handlespace exampleManagement) (tableBlock (hsm_Handlespace exampleManagement) exampleExtract [p]) ((exampleName, 2) # ps))"
proof -
  let ?hs = "hsm_Handlespace exampleManagement"
  from example_ownership obtain us p where o: "ownershipNames ?hs = us @ p # (exampleName, 2) # []"
    "p \<in> {(exampleName, 1), (exampleName, 3)}" by blast
  have "lastSent ?hs (tableBlock ?hs exampleExtract [p]) p" using table_block_last [of "[p]" ?hs exampleExtract] by simp
  moreover have "pen_HomeRegistrarIdentifier (elementAt ?hs p) = 1" using o(2) by (auto simp: example_homes)
  ultimately have "\<exists>ps. getOwnershipHandleTable ?hs (tableBlock ?hs exampleExtract [p]) 1 0 1 =
      Inr (True, tableBlock ?hs (tableBlock ?hs exampleExtract [p]) ((exampleName, 2) # ps))"
    by (intro handle_table_leaks [OF example_run(2) _ o(1)]) (simp_all add: example_homes)
  then show ?thesis using o(2) by blast
qed

section \<open>The red-black trees\<close>

text \<open>
  C11. Refinement. Any sequence of insertions and removals on a new tree, for any comparison function that
  is a total preorder, ends without a fault in a tree that represents the sorted list the same
  operations lead to; the verification of the code (order, red-black rules, value sums,
  number of elements) passes, and find and nearest-next find what is in the list.
\<close>

theorem tree_refines_list:
  assumes "comparator cmp"
  shows "\<exists>rbt. runTree cmp ops RedBlackTreeNew = Inr rbt \<and> contents rbt = runList cmp ops [] \<and>
    RedBlackTreeVerify cmp rbt = Inr () \<and> RedBlackTreeGetElements rbt = length (runList cmp ops []) \<and>
    (\<forall>k. RedBlackTreeFind cmp rbt k = findEntry cmp k (runList cmp ops []) \<and>
         RedBlackTreeGetNearestNext cmp rbt k = nextEntry cmp k (runList cmp ops []) \<and>
         RedBlackTreeGetNearestPrev cmp rbt k = prevEntry cmp k (runList cmp ops []))"
proof -
  have n: "rbt_wf cmp RedBlackTreeNew" "contents (RedBlackTreeNew :: 'a RedBlackTree) = []" by (rule RedBlackTreeNew_wf)+
  from comparator.runTree_ok [OF assms n(1), of ops] obtain rbt where
    r: "runTree cmp ops RedBlackTreeNew = Inr rbt" "rbt_wf cmp rbt" "contents rbt = runList cmp ops []" unfolding n(2) by blast
  then show ?thesis
    using comparator.verify_ok [OF assms r(2)] comparator.find_ok [OF assms r(2)] comparator.nearest_ok [OF assms r(2)]
    by (simp add: RedBlackTreeGetElements_def rbt_wf_def)
qed

theorem tree_refines_list_witness:
  "\<exists>rbt. runTree poolElementIndexStorageNodeComparison [InsertOp 5 1, InsertOp 2 4, RemoveOp 5, InsertOp 9 0] RedBlackTreeNew = Inr rbt \<and>
     contents rbt = [(2, 4), (9, 0)]"
proof -
  let ?ops = "[InsertOp 5 1, InsertOp 2 4, RemoveOp 5, InsertOp 9 0]"
  have "runList poolElementIndexStorageNodeComparison ?ops [] = [(2, 4), (9, 0)]" by code_simp
  then show ?thesis using tree_refines_list [OF index.comparator_axioms, of ?ops] by (metis (no_types, lifting))
qed



text \<open>
  C13. Equivalence. The search by value sums finds the entry a linear scan with running totals finds, if
  the total of the values fits into 64 bits: an entry is drawn with a probability that is
  proportional to its value.
\<close>

theorem tree_draws_by_value:
  assumes "rbt_wf cmp rbt" "totalValue (contents rbt) < 2 ^ 64"
  shows "RedBlackTreeGetNodeByValue rbt val = drawn (contents rbt) (unat val)"
  using getNodeByValue_ok [of "rbt_Root rbt" val] assms
  by (simp add: RedBlackTreeGetNodeByValue_def rbt_wf_def contents_def)

theorem tree_draws_by_value_witness:
  "\<exists>rbt. contents rbt = [(2, 4), (5, 3)] \<and> RedBlackTreeGetNodeByValue rbt 5 = Some (5 :: u32)"
proof -
  let ?c = poolElementIndexStorageNodeComparison
  have l: "runList ?c [InsertOp 5 3, InsertOp 2 4] [] = [(2, 4), (5, 3)]" by code_simp
  obtain rbt where r: "rbt_wf ?c rbt" "contents rbt = [(2, 4), (5, 3)]"
    using index.runTree_ok [OF RedBlackTreeNew_wf(1), of "[InsertOp 5 3, InsertOp 2 4]"] unfolding RedBlackTreeNew_wf(2) l by blast
  have "RedBlackTreeGetNodeByValue rbt 5 = Some 5" using tree_draws_by_value [OF r(1), of 5] r(2) by (simp add: totalValue_def)
  then show ?thesis using r(2) by blast
qed

section \<open>Pools and policies\<close>

text \<open>
  C14. Type. For every policy of the policy table the sorting order of the policy is a total preorder on pool
  elements that ties only pool elements with the same sequence number or identifier; and a policy is found under its type.
\<close>

theorem policy_table_sound:
  assumes "p \<in> set PoolPolicyArray"
  shows "comparator (pp_ComparisonFunction p) \<and>
    (\<forall>a b. pp_ComparisonFunction p a b = 0 \<longrightarrow> pen_SeqNumber a = pen_SeqNumber b \<or> pen_Identifier a = pen_Identifier b) \<and>
    poolPolicyGetPoolPolicyByType (pp_Type p) = Some p"
proof (intro conjI allI impI)
  note o = policy_order_table [OF assms]
  show "comparator (pp_ComparisonFunction p)" using o unfolding policy_order_def by (rule conjunct1)
  fix a b assume "pp_ComparisonFunction p a b = 0"
  from policy_order.cmp_tie [OF o this] show "pen_SeqNumber a = pen_SeqNumber b \<or> pen_Identifier a = pen_Identifier b" .
next
  show "poolPolicyGetPoolPolicyByType (pp_Type p) = Some p" by (rule poolPolicyGetPoolPolicyByType_table [OF assms])
qed

theorem policy_table_sound_witness:
  "comparator roundRobinComparison \<and> poolPolicyGetPoolPolicyByType PPT_ROUNDROBIN = Some (hd PoolPolicyArray)"
  using policy_table_sound [OF example_policy(3)] unfolding example_policy by blast

text \<open>
  C15. Liveness. Round robin is fair: as many single selections as the pool has pool elements select every
  pool element exactly once, in the order of the selection storage, which is the same order afterwards.
\<close>

theorem round_robin_is_fair:
  assumes "pool_wf pn" "round_robin_pool pn" "pp_DefaultMaxIncrement (pn_Policy pn) = 1" "card (pool_nodes pn) + 1 < 2 ^ 32"
  shows "\<exists>pn'. selectRepeatedly (card (pool_nodes pn)) pn = Inr (selectionOrder pn, pn') \<and>
    distinct (selectionOrder pn) \<and> set (selectionOrder pn) = pool_nodes pn \<and> pool_wf pn' \<and> selectionOrder pn' = selectionOrder pn"
proof -
  note w = pool_wfD [OF assms(1)]
  have d: "distinct (selectionOrder pn)" "set (selectionOrder pn) = pool_nodes pn"
    using selectionOrder_distinct [OF w(3)] w(3) by (simp_all add: sel_inv_def)
  then have l: "length (selectionOrder pn) = card (pool_nodes pn)" by (metis distinct_card)
  have "length (selectionOrder pn) + 1 < 2 ^ 32" "card (pool_nodes pn) \<le> length (selectionOrder pn)" using l assms(4) by simp_all
  from round_robin_turns [OF w(3,4) assms(2,3) this] obtain pn' where
    "selectRepeatedly (card (pool_nodes pn)) pn = Inr (selectionOrder pn, pn')" "sel_inv {} pn'" "same_pool pn pn'" "selectionOrder pn' = selectionOrder pn"
    by (auto simp: l)
  then show ?thesis using d pool_wf_same [OF assms(1)] by (intro exI [of _ pn']) simp
qed

theorem round_robin_is_fair_witness:
  "\<exists>xs pn'. selectRepeatedly 3 echoPool = Inr (xs, pn') \<and> distinct xs \<and> set xs = {1, 2, 3}"
proof -
  have c: "card (pool_nodes echoPool) = 3" by (simp add: echo_pool)
  have p: "pp_DefaultMaxIncrement (pn_Policy echoPool) = 1" by (simp only: echo_pool example_policy)
  have l: "card (pool_nodes echoPool) + 1 < 2 ^ 32" unfolding c by simp
  show ?thesis using round_robin_is_fair [OF echo_pool(1,7) p l, unfolded c] unfolding echo_pool(2) by blast
qed

text \<open>
  C16. A selection by sorting order returns the first pool elements of the order of the policy, no more
  than asked for, and the selection storage is well-formed again; what is registered stays.
\<close>

theorem selection_by_order:
  assumes "pool_wf pn" "1 \<le> k" "card (pool_nodes pn) + k < 2 ^ 32"
  shows "\<exists>pn'. selectBySortingOrder pn k inc = Inr (take k (selectionOrder pn), pn') \<and> pool_wf pn' \<and> same_pool pn pn'"
proof -
  note w = pool_wfD [OF assms(1)]
  have "length (selectionOrder pn) = card (pool_nodes pn)"
    using selectionOrder_distinct [OF w(3)] w(3) by (simp add: sel_inv_def distinct_card [symmetric])
  then show ?thesis using select_by_order_ok [OF w(3,4) assms(2)] assms pool_wf_same [OF assms(1)] by auto
qed

theorem selection_by_order_witness:
  "\<exists>pn'. selectBySortingOrder echoPool 2 0 = Inr (take 2 (selectionOrder echoPool), pn') \<and> length (take 2 (selectionOrder echoPool)) = 2"
  using selection_by_order [of echoPool 2 0] by (auto simp: echo_pool)

text \<open>
  C17. A selection by value returns different pool elements of the pool, whatever the random numbers are; if
  all values are positive and their total fits into 64 bits, it returns as many as asked for or as there are.
\<close>

theorem selection_by_value:
  assumes "pool_wf pn" "1 \<le> k" "card (pool_nodes pn) + k < 2 ^ 32"
  shows "\<exists>selected pn'. selectByValueTree random pn k inc = Inr (selected, pn') \<and> distinct selected \<and>
    set selected \<subseteq> pool_nodes pn \<and> length selected \<le> k \<and> pool_wf pn' \<and> same_pool pn pn' \<and>
    (drawable pn \<longrightarrow> length selected = min k (card (pool_nodes pn)))"
proof -
  note w = pool_wfD [OF assms(1)]
  have "length (selectionOrder pn) = card (pool_nodes pn)"
    using selectionOrder_distinct [OF w(3)] w(3) by (simp add: sel_inv_def distinct_card [symmetric])
  then show ?thesis using select_by_value_ok [OF w(3,4) assms(2), of random inc] assms pool_wf_same [OF assms(1)] by auto
qed

theorem selection_by_value_witness:
  "\<exists>selected pn'. selectByValueTree (\<lambda>_. 0) echoPool 2 0 = Inr (selected, pn') \<and> set selected \<subseteq> {1, 2, 3} \<and> length selected \<le> 2"
  using selection_by_value [of echoPool 2 "\<lambda>_. 0" 0] by (auto simp: echo_pool)

text \<open>
  C18. Adding a compatible new pool element to a pool enters it, and removing it again leaves the pool
  elements the pool had before, with unchanged registrations, in a well-formed pool.
\<close>

theorem pool_add_remove:
  assumes "pool_wf pn" "card (pool_nodes pn) + 1 < 2 ^ 32"
    "poolNodeCheckPoolElementNodeCompatibility pn n = Inr RSPERR_OKAY" "pen_Identifier n \<notin> pool_nodes pn"
  shows "\<exists>pn1 removed pn2. poolNodeAddPoolElementNode pn n = Inr (RSPERR_OKAY, Added, pn1) \<and> pool_wf pn1 \<and>
    pool_nodes pn1 = Set.insert (pen_Identifier n) (pool_nodes pn) \<and>
    poolNodeRemovePoolElementNode pn1 (pen_Identifier n) = Inr (removed, pn2) \<and> registration removed = fresh n \<and> pool_wf pn2 \<and>
    pool_nodes pn2 = pool_nodes pn \<and> (\<forall>j \<in> pool_nodes pn. registration (node pn2 j) = registration (node pn j))"
proof -
  note w = pool_wfD [OF assms(1)]
  have "length (selectionOrder pn) + 1 < 2 ^ 32"
    using assms(2) selectionOrder_distinct [OF w(3)] w(3) by (simp add: sel_inv_def distinct_card [symmetric])
  from add_ok [OF assms(1) this assms(3,4)] obtain pn1 where
    1: "poolNodeAddPoolElementNode pn n = Inr (RSPERR_OKAY, Added, pn1)" "pool_wf pn1" "pool_nodes pn1 = Set.insert (pen_Identifier n) (pool_nodes pn)"
    "\<forall>j. registration (node pn1 j) = (if j = pen_Identifier n then fresh n else registration (node pn j))" by blast
  have "pen_Identifier n \<in> pool_nodes pn1" using 1(3) by simp
  from pool_remove_ok [OF 1(2) this] obtain pn2 where
    2: "poolNodeRemovePoolElementNode pn1 (pen_Identifier n) = Inr (node pn1 (pen_Identifier n), pn2)" "pool_wf pn2"
    "pool_nodes pn2 = pool_nodes pn1 - {pen_Identifier n}" "\<forall>j. j \<noteq> pen_Identifier n \<longrightarrow> node pn2 j = node pn1 j" by blast
  have "pool_nodes pn2 = pool_nodes pn" using 1(3) 2(3) assms(4) by simp
  moreover have "registration (node pn2 j) = registration (node pn j)" if "j \<in> pool_nodes pn" for j
    using that assms(4) 1(4) 2(4) by (cases "j = pen_Identifier n") simp_all
  ultimately show ?thesis using 1 2 by (intro exI [of _ pn1] exI [of _ "node pn1 (pen_Identifier n)"] exI [of _ pn2]) simp
qed

theorem pool_add_remove_witness:
  "\<exists>pn1 removed pn2. poolNodeAddPoolElementNode examplePool (poolElementNodeNew 9 1 30000 examplePolicy (Some exampleBlock1) None 5 7) =
      Inr (RSPERR_OKAY, Added, pn1) \<and> pool_nodes pn1 = {9} \<and> poolNodeRemovePoolElementNode pn1 9 = Inr (removed, pn2) \<and> pool_nodes pn2 = {}"
proof -
  let ?n = "poolElementNodeNew 9 1 30000 examplePolicy (Some exampleBlock1) None 5 7"
  have "pool_wf examplePool" "pool_nodes examplePool = {}"
    using requestPool_sound [OF example_handle(1) example_policy(3), of exampleBlock1] by (simp_all add: examplePool_def sound_pool_def pool_ok_def)
  moreover have "pen_Identifier ?n = 9" by (simp add: poolElementNodeNew_def)
  ultimately show ?thesis using pool_add_remove [of examplePool ?n] example_compatible [of 9 1] by auto
qed

section \<open>Ownership and checksums\<close>

text \<open>
  C19. Handing a pool element over to another registrar changes its home registrar, keeps every other pool
  element, and keeps the handlespace well-formed: the ownership storage, the number of owned pool
  elements and the ownership checksum follow.
\<close>

theorem ownership_changes:
  assumes "hs_wf hs" "p \<in> elements hs"
  shows "\<exists>hs'. poolHandlespaceNodeUpdateOwnershipOfPoolElementNode p r hs = Inr hs' \<and> hs_wf hs' \<and> elements hs' = elements hs \<and>
    elementAt hs' = (elementAt hs)(p := reowned r (elementAt hs p)) \<and>
    hsn_OwnershipChecksum hs' = sum nameChecksum {q \<in> elements hs. (if q = p then r else pen_HomeRegistrarIdentifier (elementAt hs q)) =
      hsn_HomeRegistrarIdentifier hs}"
proof -
  obtain hs' where h: "poolHandlespaceNodeUpdateOwnershipOfPoolElementNode p r hs = Inr hs'" "hs_wf hs'" "elements hs' = elements hs"
    "elementAt hs' = (elementAt hs)(p := reowned r (elementAt hs p))" "hsn_HomeRegistrarIdentifier hs' = hsn_HomeRegistrarIdentifier hs"
    using update_ownership_ok [OF assms, of r] by blast
  have "hsn_OwnershipChecksum hs' = sum nameChecksum (owned hs')" using h(2) by (simp add: hs_wf_def sums_wf_def)
  also have "owned hs' = {q \<in> elements hs. (if q = p then r else pen_HomeRegistrarIdentifier (elementAt hs q)) = hsn_HomeRegistrarIdentifier hs}"
  proof (rule set_eqI)
    fix q show "q \<in> owned hs' \<longleftrightarrow> q \<in> {q \<in> elements hs. (if q = p then r else pen_HomeRegistrarIdentifier (elementAt hs q)) = hsn_HomeRegistrarIdentifier hs}"
      by (cases "q = p") (simp_all add: owned_def h(3-5) reowned_def)
  qed
  finally show ?thesis using h by blast
qed

theorem ownership_changes_witness:
  "\<exists>hs'. poolHandlespaceNodeUpdateOwnershipOfPoolElementNode (exampleName, 2) 1 (hsm_Handlespace exampleManagement) = Inr hs' \<and> hs_wf hs' \<and>
     pen_HomeRegistrarIdentifier (elementAt hs' (exampleName, 2)) = 1"
  using ownership_changes [OF example_run(2), of "(exampleName, 2)" 1] by (auto simp: example_elements reowned_def)

text \<open>
  C20. The ownership checksum a registrar announces is the one computed from scratch over the pool elements
  it owns, and the walk over the ownership storage visits each of them exactly once.
\<close>

theorem ownership_walk:
  assumes "hs_wf hs" "r \<noteq> 0"
  shows "(\<exists>ps. ownedNodes hs r = Inr ps \<and> distinct ps \<and> set ps = {p \<in> elements hs. pen_HomeRegistrarIdentifier (elementAt hs p) = r}) \<and>
    (hsn_HomeRegistrarIdentifier hs = r \<longrightarrow> poolHandlespaceNodeComputeOwnershipChecksum hs r = Inr (hsn_OwnershipChecksum hs))"
proof -
  have st: "hs_struct hs" using assms(1) by (simp add: hs_wf_struct)
  have "ownedNodes hs r = Inr (ownedBy r hs)" using owned_nodes_ok(2) [OF st, of r] by (simp add: ownedBy_def)
  moreover have "hsn_OwnershipChecksum hs = sum nameChecksum (owned hs)" using assms(1) by (simp add: hs_wf_def sums_wf_def)
  ultimately show ?thesis using ownedBy_set(1) [OF st, of r] ownedBy_set(3) [OF st assms(2)] compute_ownership_checksum [OF st] assms(2) by auto
qed

theorem ownership_walk_witness:
  "\<exists>ps. ownedNodes (hsm_Handlespace exampleManagement) 1 = Inr ps \<and> distinct ps \<and> set ps = {(exampleName, 1), (exampleName, 3)}"
  using ownership_walk [OF example_run(2), of 1] example_split(1) by simp



text \<open>
  C22. Termination and bounds. The loop that folds the 32 bit checksum ends for every value, below 65536, with the same
  remainder modulo 65535, and with zero only for zero: the final 16 bits are the one's complement sum of RFC 1071.
\<close>

theorem checksum_folds:
  "unat (foldChecksum acc) < 65536 \<and> unat (foldChecksum acc) mod 65535 = unat acc mod 65535 \<and> (foldChecksum acc = 0 \<longleftrightarrow> acc = 0)"
  using foldChecksum_ok [of acc] by blast

section \<open>Messages\<close>

text \<open>
  C23. Round trip. A transport parameter that fits into the buffer is written by
  \<open>createTransportParameter\<close> and read back by \<open>scanTransportParameter\<close> to the block as it is sent.
\<close>

theorem transport_roundtrip:
  assumes "block_sendable b" and "gMemory m" and "fits (length (enc_transport b)) m"
  shows "createTransportParameter (Some b) m = Inr (True, emit (enc_transport b) m) \<and>
    scanTransportParameter ((emit (enc_transport b) m)\<lparr>Position := Position m\<rparr>) =
      Inr ((True, Some (sentBlock b)),
           scanned (length (enc_transport b)) ((emit (enc_transport b) m)\<lparr>Position := Position m\<rparr>))"
  by (rule transport_codec.roundtrip [OF assms])

theorem transport_roundtrip_witness:
  "createTransportParameter (Some exampleBlock) exampleMessage =
     Inr (True, emit (enc_transport exampleBlock) exampleMessage)"
  using transport_roundtrip [of exampleBlock exampleMessage] by (simp add: example_facts)





section \<open>Peers\<close>







text \<open>
  C29. The handlespace and the peer list together. While requests change the handlespace, it sends
  notifications. After the peer list has processed them, the ownership checksum of every peer is
  again the checksum of the pool elements which this peer owns, and the check
  \<open>peerListManagementVerifyChecksumsInHandlespace\<close> passes.
\<close>

theorem peers_follow_handlespace:
  assumes "hs_wf (hsm_Handlespace m)" "hsm_Memory m" "\<forall>rq \<in> set rqs. request_ok N rq"
    "card (elements (hsm_Handlespace m)) + length rqs \<le> N"
    and "management_ok pm" "synchronised (hsm_Handlespace m) pm"
  shows "\<exists>es m' pm'. runRequests random rqs m = Inr (es, m') \<and>
    notifyPeers gl (drop (length (hsn_Notifications (hsm_Handlespace m))) (hsn_Notifications (hsm_Handlespace m'))) pm = Inr pm' \<and>
    management_ok pm' \<and> peers (plm_List pm') = peers (plm_List pm) \<and> synchronised (hsm_Handlespace m') pm' \<and>
    peerListManagementVerifyChecksumsInHandlespace (hsm_Handlespace m') pm' = Inr ()"
proof -
  obtain es m' where r: "runRequests random rqs m = Inr (es, m')" "hs_wf (hsm_Handlespace m')"
    using requests_refine [OF assms(1-4), of random] by blast
  from announced_synchronised [OF assms(5,6) requests_announced [OF assms(1-4) r(1)], of gl] r
  show ?thesis using synchronised_verify [OF r(2)] by blast
qed

theorem peers_follow_handlespace_witness:
  "\<exists>p pm es m' pm'. peers (plm_List pm) = {p} \<and> pln_Identifier (peerAt (plm_List pm) p) = 5 \<and>
     runRequests (\<lambda>_. 0) exampleRequests (poolHandlespaceManagementNew True 1) = Inr (es, m') \<and>
     notifyPeers 1 (hsn_Notifications (hsm_Handlespace m')) pm = Inr pm' \<and>
     peerListManagementVerifyChecksumsInHandlespace (hsm_Handlespace m') pm' = Inr ()"
proof (rule one_peer)
  fix p m assume m: "management_ok m" "peers (plm_List m) = {p}" "pln_Identifier (peerAt (plm_List m) p) = 5"
    "synchronised (poolHandlespaceNodeNew 1) m"
  let ?h = "poolHandlespaceManagementNew True 1"
  have n: "hsn_Notifications (hsm_Handlespace ?h) = []" by (simp add: poolHandlespaceNodeNew_def)
  have "synchronised (hsm_Handlespace ?h) m" using m by simp
  then obtain es m' pm' where "runRequests (\<lambda>_. 0) exampleRequests ?h = Inr (es, m')"
    "notifyPeers 1 (hsn_Notifications (hsm_Handlespace m')) m = Inr pm'"
    "peerListManagementVerifyChecksumsInHandlespace (hsm_Handlespace m') pm' = Inr ()"
    using peers_follow_handlespace [of ?h exampleRequests 3 m "\<lambda>_. 0" 1] example_requests_ok [of 3] m(1)
    unfolding n example_length by auto
  then show ?thesis using m(2,3) by blast
qed

text \<open>
  C30. \<open>peerListManagementGetUsefulPeerForPE\<close> returns the peer whose identifier has the largest XOR
  distance to the pool element, provided that it exceeds the distance of the registrar itself;
  otherwise, and only then, there is none.
\<close>

theorem useful_peer_is_best:
  assumes "management_ok m"
  shows "case peerListManagementGetUsefulPeerForPE pe m of
     None \<Rightarrow> \<forall>q \<in> peers (plm_List m). pln_Identifier (peerAt (plm_List m) q) \<noteq> 0 \<longrightarrow>
       pln_Identifier (peerAt (plm_List m) q) XOR pe \<le> pl_OwnIdentifier (plm_List m) XOR pe
   | Some p \<Rightarrow> p \<in> peers (plm_List m) \<and> pln_Identifier (peerAt (plm_List m) p) \<noteq> 0 \<and>
       pl_OwnIdentifier (plm_List m) XOR pe < pln_Identifier (peerAt (plm_List m) p) XOR pe \<and>
       (\<forall>q \<in> peers (plm_List m). pln_Identifier (peerAt (plm_List m) q) \<noteq> 0 \<longrightarrow>
         pln_Identifier (peerAt (plm_List m) q) XOR pe \<le> pln_Identifier (peerAt (plm_List m) p) XOR pe)"
  using useful_peer [OF assms, of pe] by (simp add: fitness_def split: option.splits)

theorem useful_peer_is_best_witness:
  "\<exists>p m. peers (plm_List m) = {p} \<and> pln_Identifier (peerAt (plm_List m) p) = 5 \<and> pl_OwnIdentifier (plm_List m) = 1 \<and>
     peerListManagementGetUsefulPeerForPE 0 m = Some p \<and> peerListManagementGetUsefulPeerForPE 5 m = None"
proof (rule one_peer)
  fix p m assume m: "management_ok m" "peers (plm_List m) = {p}" "pln_Identifier (peerAt (plm_List m) p) = 5" "pl_OwnIdentifier (plm_List m) = 1"
  have "\<not> (5 :: u32) XOR 0 \<le> 1 XOR 0" "\<not> 1 XOR 5 < (5 :: u32) XOR 5" by (code_simp, code_simp)
  then have "peerListManagementGetUsefulPeerForPE 0 m = Some p" "peerListManagementGetUsefulPeerForPE 5 m = None"
    using useful_peer_is_best [OF m(1), of 0] useful_peer_is_best [OF m(1), of 5] m(2-4) by (auto split: option.splits)
  then show ?thesis using m by blast
qed

text \<open>
  C31. Liveness of the takeover. A new takeover process waits for every other peer with an identifier.
  After any sequence of acknowledgements -- in any order, with repetitions and from strangers -- the
  counter is the number of those peers that have not acknowledged, so the takeover is complete
  exactly when all of them have.
\<close>

theorem takeover_completes:
  assumes "management_ok m" "plm_Memory m" "t \<noteq> 0" "t \<noteq> pl_OwnIdentifier (plm_List m)"
  defines "others \<equiv> (\<lambda>p. pln_Identifier (peerAt (plm_List m) p)) ` peers (plm_List m) - {t, pl_OwnIdentifier (plm_List m), 0}"
  shows "\<exists>tp. takeoverProcessNew t m = Inr (Some tp) \<and>
    (\<forall>as. takeoverProcessGetOutstandingAcks (acknowledgeAll t as tp) = card (others - set as)) \<and>
    (\<forall>as. takeoverProcessGetOutstandingAcks (acknowledgeAll t as tp) = 0 \<longleftrightarrow> others \<subseteq> set as)"
proof -
  obtain tp where tp: "takeoverProcessNew t m = Inr (Some tp)" "takeover_ok tp" "outstanding tp = others"
    using takeover_new [OF assms(1-4)] unfolding others_def by blast
  have c: "takeoverProcessGetOutstandingAcks (acknowledgeAll t as tp) = card (others - set as)" for as
    using acknowledge_all [OF tp(2), of t as] outstanding_count [of "acknowledgeAll t as tp"] tp(3)
    by (simp add: takeoverProcessGetOutstandingAcks_def)
  have "finite others" using tp(3) by (auto simp: outstanding_def)
  then show ?thesis using tp(1) c by auto
qed

theorem takeover_completes_witness:
  "\<exists>m tp. takeoverProcessNew 9 m = Inr (Some tp) \<and> takeoverProcessGetOutstandingAcks (acknowledgeAll 9 [] tp) = 1 \<and>
     takeoverProcessGetOutstandingAcks (acknowledgeAll 9 [7, 5, 5] tp) = 0"
proof (rule one_peer)
  fix p m assume m: "management_ok m" "peers (plm_List m) = {p}" "pln_Identifier (peerAt (plm_List m) p) = 5"
    "pl_OwnIdentifier (plm_List m) = 1" "plm_Memory m"
  from takeover_completes [OF m(1,5), of 9] m(2-4) obtain tp where "takeoverProcessNew 9 m = Inr (Some tp)"
    "\<forall>as. takeoverProcessGetOutstandingAcks (acknowledgeAll 9 as tp) = card ({5} - set as)" by auto
  then show ?thesis by (intro exI [of _ m] exI [of _ tp]) (simp del: acknowledgeAll.simps)
qed


text \<open>
  C33. Memory safety of the parser. Whatever bytes a packet has, \<open>rserpoolPacket2Message\<close> returns, or ends in
  one of the deliberate aborts of the code (a failed CHECK, a fatal log entry): no load leaves the
  buffer, provided that it extends four bytes beyond the packet, every loop ends, the packet is not
  changed, the position stays inside the packet, and a handlespace filled from a handle table response is
  consistent. List responses, whose peer list the code does not protect from duplicates, are left out.
\<close>

theorem packet_is_safe:
  assumes "packetSize + 4 \<le> length packet" "length packet < 2 ^ 62" "\<not> (ppid = PPID_ENRP \<and> packet ! 0 = 6)"
  shows "case rserpoolPacket2Message logLevel mem packet source assocID ppid packetSize minBufferSize of
      Inl e \<Rightarrow> e = CheckAbort \<or> e = FatalLog
    | Inr (e, None) \<Rightarrow> \<not> mem \<and> e = RSPERR_OUT_OF_MEMORY
    | Inr (e, Some (m, tables)) \<Rightarrow> e = RSPERR_OKAY \<and> Buffer m = packet \<and> BufferSize m = packetSize \<and> Position m \<le> packetSize \<and>
        (\<forall>hsm. HandlespacePtr tables = Some hsm \<longrightarrow> hs_wf (hsm_Handlespace hsm))"
  using packet2Message_safe [OF assms] unfolding packet_outcome_def tables_ok_def .

theorem packet_is_safe_witness:
  "case rserpoolPacket2Message 1 True (replicate 64 3) None 0 PPID_ENRP 60 64 of
      Inl e \<Rightarrow> e = CheckAbort \<or> e = FatalLog
    | Inr (e, None) \<Rightarrow> False
    | Inr (e, Some (m, tables)) \<Rightarrow> Position m \<le> 60"
  using packet_is_safe [where packetSize = 60 and packet = "replicate 64 3" and ppid = PPID_ENRP and logLevel = 1 and mem = True
    and source = None and assocID = 0 and minBufferSize = 64]
  by (auto split: sum.splits option.splits)

text \<open>
  C34. Round trip of a whole packet. The packet \<open>rserpoolMessage2Packet\<close> makes of a registration with a valid
  pool handle and a pool element that can be sent is read by \<open>rserpoolPacket2Message\<close> without an error, as a
  registration of the same pool handle and of the pool element as it is sent.
\<close>

theorem registration_packet_roundtrip:
  assumes "registration_ok m pe" and "length (enc_registration (Handle m) pe) < 2 ^ 16"
  shows "\<exists>k m1 m2. rserpoolMessage2Packet tables maxElements userData m = Inr ((k, userData), m1) \<and> PPID m1 = PPID_ASAP \<and>
    rserpoolPacket2Message logLevel True (Buffer m1) source assocID PPID_ASAP k minBufferSize = Inr (RSPERR_OKAY, Some (m2, noTables)) \<and>
    Type m2 = AHT_REGISTRATION \<and> Error m2 = RSPERR_OKAY \<and> ph_bytes (Handle m2) = ph_bytes (Handle m) \<and>
    PoolElementPtr m2 = Some (sentElement False pe)"
  by (rule registration_roundtrip [OF assms, where tables = tables and maxElements = maxElements and userData = userData
        and logLevel = logLevel and source = source and assocID = assocID and minBufferSize = minBufferSize]) blast

theorem registration_packet_roundtrip_witness:
  "\<exists>m pe k m1. registration_ok m pe \<and> rserpoolMessage2Packet noTables 0 None m = Inr ((k, None), m1)"
proof -
  let ?pe = "poolElementNodeNew 9 1 30000 examplePolicy (Some exampleBlock1) None 5 7"
  let ?m = "exampleMessage\<lparr>Type := AHT_REGISTRATION, Handle := exampleHandle, PoolElementPtr := Some ?pe\<rparr>"
  have "block_sendable exampleBlock1" "policyWords examplePolicy \<noteq> None" "ph_wf exampleHandle" by code_simp+
  moreover have l: "length (enc_registration exampleHandle ?pe) \<le> 256" by code_simp
  ultimately have ok: "registration_ok ?m ?pe"
    by (simp add: registration_ok_def element_sendable_def poolElementNodeNew_def exampleMessage_def rserpoolMessageNew_def)
  have "length (enc_registration (Handle ?m) ?pe) < 2 ^ 16" using l by simp
  from registration_packet_roundtrip [OF ok this, of noTables 0 None] ok show ?thesis by blast
qed

text \<open>
  C35. Rate limits. When \<open>registrarPoolUserHasPermissionFor\<close> is asked about a sequence of requests in the order of
  time, each request of a pool user is permitted exactly if the rate of the last 16 requests of this user
  (the request included) of the same kind and with the same one of the 64 hash buckets is at most the
  threshold of its kind; the requests of other pool users and of the other kind never count.
\<close>

theorem rate_limits:
  assumes "pr_PoolUsers r = poolUserListNew" "sorted (map rq_Time qs)" "\<forall>q \<in> set qs. rq_ok q" "env_Memory env"
  shows "\<exists>bs r'. checkRequests env qs r = Inr (bs, r') \<and> length bs = length qs \<and>
    (\<forall>i < length qs. bs ! i = permittedAfter r (take i qs) (qs ! i))"
  using permissions_run [of r "[]" qs env] assms logged_new by auto

theorem rate_limits_witness:
  "\<exists>bs r' q1 q2. checkRequests exampleEnvironment [q1, q2] (newRegistrar\<lparr>pr_MaxHRRate := 10\<rparr>) = Inr (bs, r') \<and> bs ! 0 \<and> \<not> bs ! 1"
proof -
  let ?q = "\<lambda>t. \<lparr>rq_Socket = 4, rq_AssocID = 7, rq_Action = AHT_HANDLE_RESOLUTION, rq_Handle = exampleHandle, rq_Identifier = 0, rq_Time = t\<rparr>"
  let ?r = "newRegistrar\<lparr>pr_MaxHRRate := 10\<rparr>"
  have w: "window [] (?q 0) = [0]" "window [?q 0] (?q 0) = [0, 0]"
    by (simp_all add: window_def eventsOf_def bucketEvents_def lastN_def rq_User_def rq_Hash_def)
  have p: "permittedAfter ?r [] (?q 0)" "\<not> permittedAfter ?r [?q 0] (?q 0)"
    unfolding permittedAfter_def w by (simp_all add: windowRate_def double_def)
  have "\<exists>bs r'. checkRequests exampleEnvironment [?q 0, ?q 0] ?r = Inr (bs, r') \<and> length bs = length [?q 0, ?q 0] \<and>
      (\<forall>i < length [?q 0, ?q 0]. bs ! i = permittedAfter ?r (take i [?q 0, ?q 0]) ([?q 0, ?q 0] ! i))"
    by (rule rate_limits) (simp_all add: rq_ok_def)
  then obtain bs r' where b: "checkRequests exampleEnvironment [?q 0, ?q 0] ?r = Inr (bs, r')"
    "\<forall>i < 2. bs ! i = permittedAfter ?r (take i [?q 0, ?q 0]) ([?q 0, ?q 0] ! i)" by (auto simp del: checkRequests.simps)
  have "bs ! 0" "\<not> bs ! 1" using b(2) [rule_format, of 0] b(2) [rule_format, of 1] p by simp_all
  then show ?thesis using b(1) by blast
qed



text \<open>
  C37. Takeover negotiation. When two registrars have both started a takeover of the same peer and receive
  each other's message, exactly one goes on: the registrar with the lower identifier ignores the message, and
  the one with the higher identifier cancels its takeover, notes the other one as the registrar that takes
  over, supervises it by a timer and, with memory for the message, acknowledges its takeover.
\<close>

theorem takeover_negotiation:
  assumes "reg_ok r1" "reg_ok r2" "pr_ServerID r1 < pr_ServerID r2" "t \<noteq> 0" "t \<noteq> pr_ServerID r1" "t \<noteq> pr_ServerID r2"
    and "p1 \<in> peers (peersOf r1)" "pln_Identifier (peerAt (peersOf r1) p1) = t" "pln_TakeoverProcess (peerAt (peersOf r1) p1) \<noteq> None"
    and "p2 \<in> peers (peersOf r2)" "pln_Identifier (peerAt (peersOf r2) p2) = t" "pln_TakeoverProcess (peerAt (peersOf r2) p2) \<noteq> None"
    and "RegistrarIdentifier m1 = t" "SenderID m1 = pr_ServerID r1" "RegistrarIdentifier m2 = t" "SenderID m2 = pr_ServerID r2"
  shows "registrarHandleENRPInitTakeover env fd a m2 r1 = Inr r1 \<and>
    (\<exists>r2' xs. registrarHandleENRPInitTakeover env fd a m1 r2 = Inr r2' \<and> reg_ok r2' \<and> pr_Handlespace r2' = pr_Handlespace r2 \<and>
      peers (peersOf r2') = peers (peersOf r2) \<and> timed (peersOf r2') = Set.insert p2 (timed (peersOf r2)) \<and>
      peerAt (peersOf r2') p2 = (peerAt (peersOf r2) p2)\<lparr>pln_TakeoverRegistrarID := pr_ServerID r1, pln_TakeoverProcess := None,
        pln_TimerCode := PLNT_MAX_TIME_NO_RESPONSE, pln_TimerTimeStamp := env_Now env + pr_PeerMaxTimeNoResponse r2\<rparr> \<and>
      pr_Outputs r2' = pr_Outputs r2 @ xs \<and> (env_Memory env \<longrightarrow> (\<exists>x. xs = [x] \<and> isTakeoverAck (pr_ServerID r2) t (pr_ServerID r1) x)))"
  using lower_continues [OF assms(1,7,8,4,5,9,15), of env fd a] higher_gives_up [OF assms(2,10,11,4,6,12,13), of env fd a] assms(3,14,16)
  by simp

theorem takeover_negotiation_witness:
  "\<exists>r1 r2 m1 m2 p2 r2'. registrarHandleENRPInitTakeover exampleEnvironment 4 7 m2 r1 = Inr r1 \<and>
     registrarHandleENRPInitTakeover exampleEnvironment 4 7 m1 r2 = Inr r2' \<and> pln_TakeoverRegistrarID (peerAt (peersOf r2') p2) = 1"
proof (rule example_contender [of 1], simp, simp, rule example_contender [of 3], simp, simp)
  fix r1 p1 r2 p2 assume e: "reg_ok r1" "pr_ServerID r1 = 1" "p1 \<in> peers (peersOf r1)" "pln_Identifier (peerAt (peersOf r1) p1) = 2"
      "pln_TakeoverProcess (peerAt (peersOf r1) p1) \<noteq> None"
    and f: "reg_ok r2" "pr_ServerID r2 = 3" "p2 \<in> peers (peersOf r2)" "pln_Identifier (peerAt (peersOf r2) p2) = 2"
      "pln_TakeoverProcess (peerAt (peersOf r2) p2) \<noteq> None"
  let ?m = "\<lambda>i. exampleMessage\<lparr>SenderID := i, RegistrarIdentifier := 2\<rparr>"
  have "pr_ServerID r1 < pr_ServerID r2" "2 \<noteq> pr_ServerID r1" "2 \<noteq> pr_ServerID r2" using e(2) f(2) by simp_all
  from takeover_negotiation [OF e(1) f(1) this(1) _ this(2,3) e(3-5) f(3-5), of "?m 1" "?m 3" exampleEnvironment 4 7] e(2) f(2)
  obtain r2' where "registrarHandleENRPInitTakeover exampleEnvironment 4 7 (?m 3) r1 = Inr r1"
    "registrarHandleENRPInitTakeover exampleEnvironment 4 7 (?m 1) r2 = Inr r2'" "pln_TakeoverRegistrarID (peerAt (peersOf r2') p2) = 1" by auto
  then show ?thesis by blast
qed







end
